(* ===== verification/C_Prelude.thy ===== *)
theory C_Prelude
  imports Main "HOL-Library.Word" "HOL-Library.Monad_Syntax"
begin

text \<open>
  Shared vocabulary of the development: bytes, C arrays and the operations on them that
  the modelled C code uses.

  A C array (or the memory from a pointer to the end of its allocation) is a list of
  bytes. A C function that may have undefined behaviour returns an \<open>option\<close>: \<open>None\<close>
  stands for an access outside the array, an addition outside the range of \<open>int\<close>, or a
  loop that does not end. Error codes that the code itself returns (\<open>-1\<close>, \<open>0\<close>,
  enumerators) are ordinary values of the result.

  Positions and lengths held in a C \<open>int\<close> are of type \<open>int\<close> where the code can make them
  negative (the decoders return \<open>-1\<close>), and of type \<open>nat\<close> where they only count up from 0
  (the encoders). Protocol values keep their C width as words.
\<close>

unbundle bit_operations_syntax

type_synonym byte = "8 word"
type_synonym u16 = "16 word"
type_synonym u32 = "32 word"
type_synonym i32 = "32 word"
type_synonym i64 = "64 word"

named_theorems enc_emits
  \<comment> \<open>equations giving each encoder as one emission of a byte sequence\<close>

named_theorems mem_simps
  \<comment> \<open>reads and pointer arithmetic on arrays of known shape\<close>

declare Option.bind_cong [fundef_cong]


section \<open>Reading\<close>

text \<open>\<open>buffer[i]\<close>: defined inside the array only.\<close>

definition rd :: "byte list \<Rightarrow> int \<Rightarrow> byte option" where
  "rd buffer i =
     (if 0 \<le> i \<and> i < int (length buffer) then Some (buffer ! nat i) else None)"

text \<open>\<open>buffer + off\<close>: the memory from that address to the end of the allocation. A pointer
  may point one past the last element, not further and not before the first.\<close>

definition ptr_add :: "byte list \<Rightarrow> int \<Rightarrow> byte list option" where
  "ptr_add buffer off =
     (if 0 \<le> off \<and> off \<le> int (length buffer) then Some (drop (nat off) buffer) else None)"

text \<open>The first \<open>n\<close> elements, as \<open>memcpy\<close> and \<open>memcmp\<close> read them.\<close>

definition rd_n :: "byte list \<Rightarrow> nat \<Rightarrow> byte list option" where
  "rd_n buffer n = (if n \<le> length buffer then Some (take n buffer) else None)"

text \<open>\<open>memcpy(dst, src, n)\<close>: the memory at \<open>dst\<close> afterwards.\<close>

definition memcpy :: "byte list \<Rightarrow> byte list \<Rightarrow> nat \<Rightarrow> byte list option" where
  "memcpy dst src n = do {
     bs \<leftarrow> rd_n src n;
     if n \<le> length dst then Some (bs @ drop n dst) else None
   }"

text \<open>Arithmetic on C \<open>int\<close>: a result outside the type's range is undefined.\<close>

abbreviation INT_MAX :: int where "INT_MAX \<equiv> 2147483647"
abbreviation INT_MIN :: int where "INT_MIN \<equiv> - 2147483648"

definition chk_int :: "int \<Rightarrow> int option" where
  "chk_int x = (if INT_MIN \<le> x \<and> x \<le> INT_MAX then Some x else None)"

definition add_int :: "int \<Rightarrow> int \<Rightarrow> int option" where
  "add_int a b = chk_int (a + b)"

text \<open>Conversion of an out-of-range value to \<open>int\<close> (and the shifts of the decoders) keep
  the low 32 bits, as the supported compilers define it.\<close>

definition to_int32 :: "int \<Rightarrow> int" where
  "to_int32 x = signed_take_bit 31 x"

lemma rd_append [mem_simps]:
  "rd (xs @ ys) i =
     (if i < int (length xs) then rd xs i else rd ys (i - int (length xs)))"
  by (auto simp: rd_def nth_append nat_diff_distrib)

lemma rd_Some [simp]:
  "0 \<le> i \<Longrightarrow> i < int (length buffer) \<Longrightarrow> rd buffer i = Some (buffer ! nat i)"
  by (simp add: rd_def)

lemma rd_None_iff: "rd buffer i = None \<longleftrightarrow> i < 0 \<or> int (length buffer) \<le> i"
  by (auto simp: rd_def)

lemma rd_drop: "0 \<le> i \<Longrightarrow> n \<le> length buffer \<Longrightarrow> rd (drop n buffer) i = rd buffer (int n + i)"
  by (auto simp: rd_def nth_drop nat_add_distrib)

lemma to_int32_id [simp]: "INT_MIN \<le> x \<Longrightarrow> x \<le> INT_MAX \<Longrightarrow> to_int32 x = x"
  by (simp add: to_int32_def signed_take_bit_int_eq_self)

lemma to_int32_bounds: "INT_MIN \<le> to_int32 x" "to_int32 x \<le> INT_MAX"
  using signed_take_bit_int_greater_eq_minus_exp [of 31 x]
    signed_take_bit_int_less_exp [of 31 x]
  by (simp_all add: to_int32_def)

lemma add_int_Some [simp]:
  "INT_MIN \<le> a + b \<Longrightarrow> a + b \<le> INT_MAX \<Longrightarrow> add_int a b = Some (a + b)"
  by (simp add: add_int_def chk_int_def)

lemma chk_int_Some [simp]: "INT_MIN \<le> x \<Longrightarrow> x \<le> INT_MAX \<Longrightarrow> chk_int x = Some x"
  by (simp add: chk_int_def)


section \<open>Writing\<close>

text \<open>
  The encoders all write with \<open>buffer[bufPos++] = b\<close>. Their state is the buffer together
  with \<open>bufPos\<close>; \<open>emit\<close> is that assignment and \<open>emits\<close> the copy loop
  \<open>for (i = 0; i < n; i++) buffer[bufPos++] = bs[i]\<close> (and \<open>memcpy\<close> followed by
  \<open>bufPos += n\<close>).
\<close>

type_synonym wbuf = "byte list \<times> nat"

definition emit :: "byte \<Rightarrow> wbuf \<Rightarrow> wbuf option" where
  "emit b w = (case w of (buffer, bufPos) \<Rightarrow>
     if bufPos < length buffer then Some (buffer[bufPos := b], bufPos + 1) else None)"

fun emits :: "byte list \<Rightarrow> wbuf \<Rightarrow> wbuf option" where
  "emits [] w = Some w"
| "emits (b # bs) w = do { w \<leftarrow> emit b w; emits bs w }"

lemma emits_append: "emits (xs @ ys) w = emits xs w \<bind> emits ys"
  by (induction xs arbitrary: w)
    (simp_all add: emits.simps Option.bind_assoc cong: Option.bind_cong)

lemma emits_Nil_eq [simp]: "emits [] = Some"
  by (rule ext) simp

lemma emit_eq_emits [enc_emits]: "emit b = emits [b]"
  by (rule ext) (simp add: emits.simps)

declare emits.simps(2) [simp del]

lemma emits_bind_emits [enc_emits]: "emits xs w \<bind> emits ys = emits (xs @ ys) w"
  by (simp only: emits_append)

lemma emits_bind_assoc [enc_emits]:
  "emits xs w \<bind> (\<lambda>w. emits ys w \<bind> f) = emits (xs @ ys) w \<bind> f"
  by (simp add: emits_append Option.bind_assoc)

text \<open>The result of an emission that fits: the bytes before \<open>bufPos\<close> and after the emitted
  ones are untouched.\<close>

lemma emits_Some:
  "bufPos + length bs \<le> length buffer \<Longrightarrow>
   emits bs (buffer, bufPos) =
     Some (take bufPos buffer @ bs @ drop (bufPos + length bs) buffer, bufPos + length bs)"
proof (induction bs arbitrary: buffer bufPos)
  case Nil
  then show ?case by simp
next
  case (Cons b bs)
  then have "take (Suc bufPos) (buffer[bufPos := b]) = take bufPos buffer @ [b]"
    by (simp add: take_Suc_conv_app_nth)
  with Cons show ?case by (simp add: emit_def emits.simps)
qed

lemma emits_None:
  "bufPos \<le> length buffer \<Longrightarrow> length buffer < bufPos + length bs \<Longrightarrow>
   emits bs (buffer, bufPos) = None"
  by (induction bs arbitrary: buffer bufPos) (auto simp: emit_def emits.simps)

lemma emits_Some_iff:
  "bufPos \<le> length buffer \<Longrightarrow>
   (emits bs (buffer, bufPos) = Some (buffer', bufPos')) \<longleftrightarrow>
     bufPos + length bs \<le> length buffer \<and> bufPos' = bufPos + length bs \<and>
     buffer' = take bufPos buffer @ bs @ drop (bufPos + length bs) buffer"
  by (cases "bufPos + length bs \<le> length buffer") (auto simp: emits_Some emits_None)

lemma emits_start:
  "length bs \<le> length buffer \<Longrightarrow>
   emits bs (buffer, 0) = Some (bs @ drop (length bs) buffer, length bs)"
  using emits_Some [of 0 bs buffer] by simp

lemma emits_start_prefix:
  "emits bs (buffer, 0) = Some (buffer', n) \<Longrightarrow> n = length bs \<and> take n buffer' = bs"
  by (auto simp: emits_Some_iff)

text \<open>
  The contract of an encoder: whatever the buffer holds, it appends exactly the byte
  sequence \<open>bytes x\<close> at the current position, or runs past the end of the buffer.
  Every encoding routine of the stack is an interpretation of this locale.
\<close>

locale emitter =
  fixes enc :: "'a \<Rightarrow> wbuf \<Rightarrow> wbuf option"
    and bytes :: "'a \<Rightarrow> byte list"
  assumes enc_eq: "enc x = emits (bytes x)"
begin

lemma enc_defined_iff:
  "bufPos \<le> length buffer \<Longrightarrow>
   enc x (buffer, bufPos) \<noteq> None \<longleftrightarrow> bufPos + length (bytes x) \<le> length buffer"
  by (cases "bufPos + length (bytes x) \<le> length buffer")
    (auto simp: enc_eq emits_Some emits_None)

lemma enc_result:
  assumes "enc x (buffer, bufPos) = Some (buffer', bufPos')" and "bufPos \<le> length buffer"
  shows "bufPos' = bufPos + length (bytes x)"
    and "length buffer' = length buffer"
    and "take bufPos buffer' = take bufPos buffer"
    and "take (length (bytes x)) (drop bufPos buffer') = bytes x"
    and "drop bufPos' buffer' = drop bufPos' buffer"
  using assms by (auto simp: enc_eq emits_Some_iff)

lemma enc_then:
  "enc x w \<bind> emits ys = emits (bytes x @ ys) w"
  by (simp add: enc_eq emits_bind_emits)

end


section \<open>Values held in byte sequences\<close>

text \<open>The unsigned big-endian value of a byte sequence, and the little-endian memory image
  of an integer object of \<open>LENGTH('a) div 8\<close> bytes (the supported build has
  \<open>ORDER_LITTLE_ENDIAN == 1\<close>).\<close>

definition be_nat :: "byte list \<Rightarrow> nat" where
  "be_nat bs = foldl (\<lambda>v b. v * 256 + unat b) 0 bs"

definition le_bytes :: "'a::len word \<Rightarrow> byte list" where
  "le_bytes v = map (\<lambda>i. ucast (drop_bit (8 * i) v)) [0..<LENGTH('a) div 8]"

lemma length_le_bytes [simp]: "length (le_bytes (v :: 'a::len word)) = LENGTH('a) div 8"
  by (simp add: le_bytes_def)

lemma foldl_be: "foldl (\<lambda>v b. v * 256 + unat b) a bs = a * 256 ^ length bs + be_nat bs"
proof (induction bs arbitrary: a)
  case Nil
  then show ?case by (simp add: be_nat_def)
next
  case (Cons b bs)
  show ?case
    using Cons [of "a * 256 + unat b"] Cons [of "unat b"]
    by (simp add: be_nat_def algebra_simps)
qed

lemma be_nat_Nil [simp]: "be_nat [] = 0"
  by (simp add: be_nat_def)

lemma be_nat_Cons [simp]: "be_nat (b # bs) = unat b * 256 ^ length bs + be_nat bs"
  using foldl_be [of "unat b" bs] by (simp add: be_nat_def)

lemma be_nat_append: "be_nat (xs @ ys) = be_nat xs * 256 ^ length ys + be_nat ys"
  by (induction xs) (simp_all add: algebra_simps power_add)

lemma unat_byte: "unat (b :: byte) < 256"
proof -
  have "unat b < 2 ^ LENGTH(8)" by (rule unsigned_less)
  then show ?thesis by simp
qed

lemma uint_byte: "uint (b :: byte) < 256"
proof -
  have "uint b < 2 ^ LENGTH(8)" by (rule unsigned_less)
  then show ?thesis by simp
qed

lemma uint_byte_nonneg: "0 \<le> uint (b :: byte)"
  by simp

lemma be_nat_bound: "be_nat bs < 256 ^ length bs"
proof (induction bs)
  case Nil
  then show ?case by simp
next
  case (Cons b bs)
  have "unat b * 256 ^ length bs + be_nat bs < (unat b + 1) * 256 ^ length bs"
    using Cons by (simp add: algebra_simps)
  also have "\<dots> \<le> 256 * 256 ^ length bs"
    using unat_byte [of b] by (intro mult_le_mono1) simp
  finally show ?case by simp
qed

lemma unat_ucast_drop_bit_byte:
  "unat (ucast (drop_bit n (v :: 'a::len word)) :: byte) = unat v div 2 ^ n mod 256"
proof -
  have "unat (drop_bit n v) = unat v div 2 ^ n"
    by (subst unat_drop_bit_eq) (simp add: drop_bit_eq_div)
  moreover have "unat (ucast x :: byte) = unat x mod 256" for x :: "'a word"
    by (simp add: unsigned_ucast_eq take_bit_eq_mod)
  ultimately show ?thesis by metis
qed

lemma be_nat_inj: "length xs = length ys \<Longrightarrow> be_nat xs = be_nat ys \<Longrightarrow> xs = ys"
proof (induction xs ys rule: list_induct2)
  case (Cons x xs y ys)
  define K where "K = (256 :: nat) ^ length ys"
  have b: "be_nat xs < K" "be_nat ys < K"
    using be_nat_bound [of xs] be_nat_bound [of ys] Cons.hyps by (simp_all add: K_def)
  have eq: "unat x * K + be_nat xs = unat y * K + be_nat ys"
    using Cons.prems Cons.hyps by (simp add: K_def)
  from arg_cong [OF eq, of "\<lambda>n. n div K"] arg_cong [OF eq, of "\<lambda>n. n mod K"] b
  have "unat x = unat y" "be_nat xs = be_nat ys" by simp_all
  with Cons.IH show ?case by (simp add: word_unat_eq_iff)
qed simp

lemma be_nat_rev_le:
  "be_nat (rev (map (\<lambda>i. ucast (drop_bit (8 * i) (v :: 'a::len word))) [0..<n])) =
   unat v mod 256 ^ n"
proof (induction n)
  case 0
  then show ?case by simp
next
  case (Suc n)
  have "(2::nat) ^ (8 * n) = 256 ^ n"
    by (simp add: power_mult)
  then show ?case
    using Suc mod_mult2_eq [of "unat v" "256 ^ n" 256]
    by (simp add: unat_ucast_drop_bit_byte mult.commute)
qed

lemma be_nat_rev_le_bytes:
  "8 dvd LENGTH('a) \<Longrightarrow> be_nat (rev (le_bytes (v :: 'a::len word))) = unat v"
proof -
  assume "8 dvd LENGTH('a)"
  then have "(2::nat) ^ LENGTH('a) = 2 ^ (8 * (LENGTH('a) div 8))"
    by simp
  then have "(256::nat) ^ (LENGTH('a) div 8) = 2 ^ LENGTH('a)"
    by (simp only: power_mult) simp
  then show ?thesis
    by (simp add: le_bytes_def be_nat_rev_le)
qed

text \<open>Two's complement value of a big-endian byte sequence.\<close>

definition be_int :: "byte list \<Rightarrow> int" where
  "be_int bs = int (be_nat bs) - (if bs \<noteq> [] \<and> hd bs AND 0x80 \<noteq> 0 then 256 ^ length bs else 0)"

lemma top_bit_iff: "(b :: byte) AND 0x80 = 0 \<longleftrightarrow> unat b < 128"
proof -
  have "b AND 2 ^ 7 = 0 \<longleftrightarrow> \<not> bit b 7"
    by (rule and_exp_eq_0_iff_not_bit)
  moreover have "bit b 7 \<longleftrightarrow> odd (unat b div 2 ^ 7)"
    by (simp only: bit_iff_odd [of "unat b", symmetric]) (simp add: bit_unsigned_iff)
  moreover have "unat b div 2 ^ 7 = (if unat b < 128 then 0 else 1)"
    using unat_byte [of b] by auto
  ultimately show ?thesis by simp
qed

lemma be_int_nonneg_iff: "0 \<le> be_int bs \<longleftrightarrow> bs = [] \<or> hd bs AND 0x80 = 0"
proof -
  have "int (be_nat bs) < 256 ^ length bs"
    using be_nat_bound [of bs] by (metis of_nat_less_iff of_nat_numeral of_nat_power)
  then show ?thesis by (auto simp: be_int_def)
qed

lemma be_int_eq_be_nat: "0 \<le> be_int bs \<Longrightarrow> be_int bs = int (be_nat bs)"
  using be_int_nonneg_iff [of bs] by (auto simp: be_int_def)

end
