(* ===== verification/Asn1_Primitive.thy ===== *)
theory Asn1_Primitive
  imports C_Prelude
begin

text \<open>
  \<open>src/src/mms/asn1/asn1_ber_primitive_value.c\<close>: the octet container behind MMS integer
  values. \<open>octets\<close> is the allocated array, \<open>size\<close> the number of octets in use.
\<close>

record Asn1PrimitiveValue =
  av_size :: nat
  av_maxSize :: nat
  av_octets :: "byte list"

definition Asn1PrimitiveValue_create :: "nat \<Rightarrow> Asn1PrimitiveValue" where
  "Asn1PrimitiveValue_create n =
     \<lparr>av_size = n, av_maxSize = n, av_octets = replicate n 0\<rparr>"

definition Asn1PrimitiveValue_clone :: "Asn1PrimitiveValue \<Rightarrow> Asn1PrimitiveValue option" where
  "Asn1PrimitiveValue_clone self = do {
     octets \<leftarrow> rd_n (av_octets self) (av_maxSize self);
     Some \<lparr>av_size = av_size self, av_maxSize = av_maxSize self, av_octets = octets\<rparr>
   }"

definition Asn1PrimitivaValue_compare ::
  "Asn1PrimitiveValue \<Rightarrow> Asn1PrimitiveValue \<Rightarrow> bool option" where
  "Asn1PrimitivaValue_compare self otherValue =
     (if av_size self = av_size otherValue then do {
        a \<leftarrow> rd_n (av_octets self) (av_size self);
        b \<leftarrow> rd_n (av_octets otherValue) (av_size self);
        Some (a = b)
      }
      else Some False)"

definition Asn1PrimitiveValue_getSize :: "Asn1PrimitiveValue \<Rightarrow> nat" where
  "Asn1PrimitiveValue_getSize self = av_size self"

definition Asn1PrimitiveValue_getMaxSize :: "Asn1PrimitiveValue \<Rightarrow> nat" where
  "Asn1PrimitiveValue_getMaxSize self = av_maxSize self"

text \<open>The representation invariant: the array has \<open>maxSize\<close> octets and \<open>size\<close> of them
  are in use.\<close>

definition apv_inv :: "Asn1PrimitiveValue \<Rightarrow> bool" where
  "apv_inv v \<longleftrightarrow> av_size v \<le> av_maxSize v \<and> length (av_octets v) = av_maxSize v"

abbreviation apv_content :: "Asn1PrimitiveValue \<Rightarrow> byte list" where
  "apv_content v \<equiv> take (av_size v) (av_octets v)"

lemma apv_inv_create [simp]: "apv_inv (Asn1PrimitiveValue_create n)"
  by (simp add: apv_inv_def Asn1PrimitiveValue_create_def)

lemma apv_clone: "apv_inv v \<Longrightarrow> Asn1PrimitiveValue_clone v = Some v"
  by (simp add: apv_inv_def Asn1PrimitiveValue_clone_def rd_n_def)

lemma apv_compare:
  assumes "apv_inv v" and "apv_inv w"
  shows "Asn1PrimitivaValue_compare v w = Some (apv_content v = apv_content w)"
proof (cases "av_size v = av_size w")
  case True
  with assms show ?thesis
    by (simp add: Asn1PrimitivaValue_compare_def apv_inv_def rd_n_def)
next
  case False
  with assms have "length (apv_content v) \<noteq> length (apv_content w)"
    by (simp add: apv_inv_def)
  then have "apv_content v \<noteq> apv_content w"
    by metis
  with False show ?thesis
    by (auto simp: Asn1PrimitivaValue_compare_def)
qed

end
