(* ===== verification/Ber_Encoder.thy ===== *)
theory Ber_Encoder
  imports Asn1_Primitive
begin

text \<open>
  \<open>src/src/mms/asn1/ber_encoder.c\<close>: the BER encoding routines. Every routine takes the
  buffer and position as one \<open>wbuf\<close> and returns the advanced one; its C counterpart returns
  the new \<open>bufPos\<close>. Lengths are the values of the C parameter \<open>uint32_t length\<close>.
\<close>

section \<open>Definitions\<close>

definition BerEncoder_encodeLength :: "nat \<Rightarrow> wbuf \<Rightarrow> wbuf option" where
  "BerEncoder_encodeLength len w =
     (if len < 128 then emit (of_nat len) w
      else if len < 256 then do {
        w \<leftarrow> emit 0x81 w;
        emit (of_nat len) w
      }
      else do {
        w \<leftarrow> emit 0x82 w;
        w \<leftarrow> emit (of_nat (len div 256)) w;
        emit (of_nat (len mod 256)) w
      })"

definition BerEncoder_encodeTL :: "byte \<Rightarrow> nat \<Rightarrow> wbuf \<Rightarrow> wbuf option" where
  "BerEncoder_encodeTL tag len w = do {
     w \<leftarrow> emit tag w;
     BerEncoder_encodeLength len w
   }"

definition BerEncoder_encodeBoolean :: "byte \<Rightarrow> bool \<Rightarrow> wbuf \<Rightarrow> wbuf option" where
  "BerEncoder_encodeBoolean tag value w = do {
     w \<leftarrow> emit tag w;
     w \<leftarrow> emit 1 w;
     if value then emit 0xff w else emit 0x00 w
   }"

text \<open>A C string is its characters without the terminating 0; \<open>None\<close> is the null pointer.\<close>

definition BerEncoder_encodeStringWithTag ::
  "byte \<Rightarrow> byte list option \<Rightarrow> wbuf \<Rightarrow> wbuf option" where
  "BerEncoder_encodeStringWithTag tag str w = do {
     w \<leftarrow> emit tag w;
     case str of
       Some cs \<Rightarrow> do {
         w \<leftarrow> BerEncoder_encodeLength (length cs) w;
         emits cs w
       }
     | None \<Rightarrow> emit 0 w
   }"

definition BerEncoder_encodeAsn1PrimitiveValue ::
  "byte \<Rightarrow> Asn1PrimitiveValue \<Rightarrow> wbuf \<Rightarrow> wbuf option" where
  "BerEncoder_encodeAsn1PrimitiveValue tag value w = do {
     w \<leftarrow> emit tag w;
     w \<leftarrow> BerEncoder_encodeLength (av_size value) w;
     content \<leftarrow> rd_n (av_octets value) (av_size value);
     emits content w
   }"

definition BerEncoder_encodeOctetString ::
  "byte \<Rightarrow> byte list \<Rightarrow> nat \<Rightarrow> wbuf \<Rightarrow> wbuf option" where
  "BerEncoder_encodeOctetString tag octetString octetStringSize w = do {
     w \<leftarrow> emit tag w;
     w \<leftarrow> BerEncoder_encodeLength octetStringSize w;
     content \<leftarrow> rd_n octetString octetStringSize;
     emits content w
   }"

definition bitString_byteSize :: "nat \<Rightarrow> nat" where
  "bitString_byteSize bitStringSize =
     (let byteSize = bitStringSize div 8
      in if bitStringSize mod 8 \<noteq> 0 then byteSize + 1 else byteSize)"

text \<open>The loop \<open>for (i = 0; i < padding; i++) paddingMask += (1 << i)\<close>.\<close>

fun paddingMask :: "nat \<Rightarrow> byte" where
  "paddingMask 0 = 0"
| "paddingMask (Suc i) = paddingMask i + push_bit i 1"

definition BerEncoder_encodeBitString ::
  "byte \<Rightarrow> nat \<Rightarrow> byte list \<Rightarrow> wbuf \<Rightarrow> wbuf option" where
  "BerEncoder_encodeBitString tag bitStringSize bitString w = do {
     w \<leftarrow> emit tag w;
     let byteSize = bitString_byteSize bitStringSize;
     let padding = byteSize * 8 - bitStringSize;
     w \<leftarrow> BerEncoder_encodeLength (byteSize + 1) w;
     w \<leftarrow> emit (of_nat padding) w;
     content \<leftarrow> rd_n bitString byteSize;
     (buffer, bufPos) \<leftarrow> emits content w;
     Some (buffer[bufPos - 1 := buffer ! (bufPos - 1) AND NOT (paddingMask padding)], bufPos)
   }"

definition BerEncoder_determineLengthSize :: "nat \<Rightarrow> nat" where
  "BerEncoder_determineLengthSize len =
     (if len < 128 then 1 else if len < 256 then 2 else 3)"

definition BerEncoder_determineEncodedBitStringSize :: "nat \<Rightarrow> nat" where
  "BerEncoder_determineEncodedBitStringSize bitStringSize =
     (let byteSize = bitString_byteSize bitStringSize
      in 2 + BerEncoder_determineLengthSize byteSize + byteSize)"

definition BerEncoder_determineEncodedStringSize :: "byte list option \<Rightarrow> nat" where
  "BerEncoder_determineEncodedStringSize str =
     (case str of
        Some cs \<Rightarrow> 1 + BerEncoder_determineLengthSize (length cs) + length cs
      | None \<Rightarrow> 2)"

text \<open>The swap loop \<open>for (i = 0; i < size / 2; i++)\<close>.\<close>

function revertLoop :: "byte list \<Rightarrow> nat \<Rightarrow> byte list" where
  "revertLoop octets i =
     (let size = length octets in
      if i < size div 2 then
        (let temp = octets ! i;
             octets = octets[i := octets ! ((size - 1) - i)];
             octets = octets[(size - 1) - i := temp]
         in revertLoop octets (i + 1))
      else octets)"
  by pat_completeness auto
termination
  by (relation "measure (\<lambda>(octets, i). length octets div 2 - i)") auto

definition BerEncoder_revertByteOrder :: "byte list \<Rightarrow> byte list" where
  "BerEncoder_revertByteOrder octets = revertLoop octets 0"

text \<open>\<open>BerEncoder_compressInteger\<close>: the scan for the first byte that must stay, and the move
  of the remaining bytes to the front of the array. The result is the array and the new size.\<close>

function compressScan :: "byte list \<Rightarrow> nat \<Rightarrow> nat" where
  "compressScan integer bytePosition =
     (if Suc bytePosition < length integer \<and>
         (integer ! bytePosition = 0x00 \<and> integer ! Suc bytePosition AND 0x80 = 0 \<or>
          integer ! bytePosition = 0xff \<and> integer ! Suc bytePosition AND 0x80 \<noteq> 0)
      then compressScan integer (Suc bytePosition)
      else bytePosition)"
  by pat_completeness auto
termination
  by (relation "measure (\<lambda>(integer, bytePosition). length integer - bytePosition)") auto

function compressMove :: "byte list \<Rightarrow> nat \<Rightarrow> nat \<Rightarrow> nat \<Rightarrow> byte list" where
  "compressMove integer newBytePosition newEnd bytePosition =
     (if newBytePosition < newEnd
      then compressMove (integer[newBytePosition := integer ! bytePosition])
             (Suc newBytePosition) newEnd (Suc bytePosition)
      else integer)"
  by pat_completeness auto
termination
  by (relation "measure (\<lambda>(integer, newBytePosition, newEnd, bytePosition). newEnd - newBytePosition)")
    auto

definition BerEncoder_compressInteger :: "byte list \<Rightarrow> byte list \<times> nat" where
  "BerEncoder_compressInteger integer =
     (let originalSize = length integer;
          bytesToDelete = compressScan integer 0
      in if bytesToDelete \<noteq> 0
         then (let newSize = originalSize - bytesToDelete
               in (compressMove integer 0 newSize bytesToDelete, newSize))
         else (integer, originalSize))"

text \<open>The five-byte value buffer shared by the three \<open>UInt32\<close> routines: a zero byte followed
  by the value in network order, compressed.\<close>

definition uint32_valueBuffer :: "u32 \<Rightarrow> byte list \<times> nat" where
  "uint32_valueBuffer value =
     BerEncoder_compressInteger (0 # BerEncoder_revertByteOrder (le_bytes value))"

definition BerEncoder_encodeUInt32 :: "u32 \<Rightarrow> wbuf \<Rightarrow> wbuf option" where
  "BerEncoder_encodeUInt32 value w =
     (let (valueBuffer, size) = uint32_valueBuffer value in emits (take size valueBuffer) w)"

definition BerEncoder_encodeUInt32WithTL :: "byte \<Rightarrow> u32 \<Rightarrow> wbuf \<Rightarrow> wbuf option" where
  "BerEncoder_encodeUInt32WithTL tag value w =
     (let (valueBuffer, size) = uint32_valueBuffer value in do {
        w \<leftarrow> emit tag w;
        w \<leftarrow> emit (of_nat size) w;
        emits (take size valueBuffer) w
      })"

definition BerEncoder_UInt32determineEncodedSize :: "u32 \<Rightarrow> nat" where
  "BerEncoder_UInt32determineEncodedSize value = snd (uint32_valueBuffer value)"

text \<open>\<open>floatValue\<close> is the memory image of the \<open>float\<close> or \<open>double\<close>; the local
  \<open>valueBuffer\<close> has nine bytes.\<close>

definition BerEncoder_encodeFloat ::
  "byte list \<Rightarrow> nat \<Rightarrow> byte \<Rightarrow> wbuf \<Rightarrow> wbuf option" where
  "BerEncoder_encodeFloat floatValue formatWidth exponentWidth w = do {
     let byteSize = formatWidth div 8;
     content \<leftarrow> rd_n floatValue byteSize;
     if byteSize \<le> 8 then emits (exponentWidth # BerEncoder_revertByteOrder content) w
     else None
   }"


section \<open>The encoders as emissions\<close>

text \<open>The byte sequence each routine produces.\<close>

definition length_bytes :: "nat \<Rightarrow> byte list" where
  "length_bytes len =
     (if len < 128 then [of_nat len]
      else if len < 256 then [0x81, of_nat len]
      else [0x82, of_nat (len div 256), of_nat (len mod 256)])"

definition tl_bytes :: "byte \<Rightarrow> nat \<Rightarrow> byte list" where
  "tl_bytes tag len = tag # length_bytes len"

definition string_bytes :: "byte \<Rightarrow> byte list option \<Rightarrow> byte list" where
  "string_bytes tag str =
     (case str of Some cs \<Rightarrow> tl_bytes tag (length cs) @ cs | None \<Rightarrow> [tag, 0])"

definition uint32_bytes :: "u32 \<Rightarrow> byte list" where
  "uint32_bytes value =
     (let (valueBuffer, size) = uint32_valueBuffer value in take size valueBuffer)"

lemma encodeLength_emits [enc_emits]:
  "BerEncoder_encodeLength len = emits (length_bytes len)"
  by (rule ext) (simp add: BerEncoder_encodeLength_def length_bytes_def enc_emits)

lemma encodeTL_emits [enc_emits]:
  "BerEncoder_encodeTL tag len = emits (tl_bytes tag len)"
  by (rule ext) (simp add: BerEncoder_encodeTL_def tl_bytes_def enc_emits)

lemma encodeBoolean_emits [enc_emits]:
  "BerEncoder_encodeBoolean tag value = emits [tag, 1, if value then 0xff else 0]"
  by (rule ext) (simp add: BerEncoder_encodeBoolean_def enc_emits)

lemma encodeStringWithTag_emits [enc_emits]:
  "BerEncoder_encodeStringWithTag tag str = emits (string_bytes tag str)"
  by (rule ext) (simp add: BerEncoder_encodeStringWithTag_def string_bytes_def tl_bytes_def enc_emits
      split: option.split)

lemma encodeOctetString_emits [enc_emits]:
  "n \<le> length octetString \<Longrightarrow>
   BerEncoder_encodeOctetString tag octetString n =
     emits (tl_bytes tag n @ take n octetString)"
  by (rule ext) (simp add: BerEncoder_encodeOctetString_def tl_bytes_def rd_n_def enc_emits)

lemma encodeAsn1PrimitiveValue_emits [enc_emits]:
  "apv_inv value \<Longrightarrow>
   BerEncoder_encodeAsn1PrimitiveValue tag value =
     emits (tl_bytes tag (av_size value) @ apv_content value)"
  by (rule ext) (simp add: BerEncoder_encodeAsn1PrimitiveValue_def tl_bytes_def rd_n_def apv_inv_def
      enc_emits)

lemma encodeUInt32_emits [enc_emits]:
  "BerEncoder_encodeUInt32 value = emits (uint32_bytes value)"
  by (rule ext) (simp add: BerEncoder_encodeUInt32_def uint32_bytes_def split: prod.split)

lemma length_length_bytes: "length (length_bytes len) = BerEncoder_determineLengthSize len"
  by (simp add: length_bytes_def BerEncoder_determineLengthSize_def)

lemma length_tl_bytes: "length (tl_bytes tag len) = 1 + BerEncoder_determineLengthSize len"
  by (simp add: tl_bytes_def length_length_bytes)

interpretation enc_TL: emitter
  "\<lambda>(tag, len). BerEncoder_encodeTL tag len" "\<lambda>(tag, len). tl_bytes tag len"
  by unfold_locales (simp add: encodeTL_emits split: prod.split)

interpretation enc_string: emitter
  "\<lambda>(tag, str). BerEncoder_encodeStringWithTag tag str" "\<lambda>(tag, str). string_bytes tag str"
  by unfold_locales (simp add: encodeStringWithTag_emits split: prod.split)

interpretation enc_uint32: emitter BerEncoder_encodeUInt32 uint32_bytes
  by unfold_locales (rule encodeUInt32_emits)


section \<open>Byte order and integer compression\<close>

declare revertLoop.simps [simp del] compressScan.simps [simp del] compressMove.simps [simp del]

lemma length_revertLoop [simp]: "length (revertLoop octets i) = length octets"
proof (induction octets i rule: revertLoop.induct)
  case (1 octets i)
  then show ?case by (subst revertLoop.simps) (simp add: Let_def)
qed

text \<open>After the swaps from \<open>i\<close> on, exactly the positions \<open>i .. size - 1 - i\<close> are mirrored.\<close>

lemma nth_revertLoop:
  "k < length octets \<Longrightarrow>
   revertLoop octets i ! k =
     (if i \<le> k \<and> k \<le> length octets - 1 - i then octets ! (length octets - 1 - k) else octets ! k)"
proof (induction octets i rule: revertLoop.induct)
  case (1 octets i)
  show ?case
  proof (cases "i < length octets div 2")
    case True
    let ?o = "octets[i := octets ! (length octets - 1 - i), length octets - 1 - i := octets ! i]"
    have "revertLoop octets i ! k = revertLoop ?o (i + 1) ! k"
      using True by (subst revertLoop.simps) (simp add: Let_def)
    also have "\<dots> = (if i + 1 \<le> k \<and> k \<le> length octets - 1 - (i + 1)
        then ?o ! (length octets - 1 - k) else ?o ! k)"
      using "1.IH" [of "length octets"] True "1.prems" by simp
    also have "\<dots> = (if i \<le> k \<and> k \<le> length octets - 1 - i
        then octets ! (length octets - 1 - k) else octets ! k)"
      using True "1.prems" by (auto simp: nth_list_update)
    finally show ?thesis .
  next
    case False
    then have "\<not> (i \<le> k \<and> k \<le> length octets - 1 - i) \<or> k = length octets - 1 - k"
      using "1.prems" by linarith
    with False show ?thesis
      by (subst revertLoop.simps) (auto simp: Let_def)
  qed
qed

lemma revertByteOrder_eq_rev: "BerEncoder_revertByteOrder octets = rev octets"
  by (rule nth_equalityI) (auto simp: BerEncoder_revertByteOrder_def nth_revertLoop rev_nth)

text \<open>A leading byte is redundant when it only repeats the sign of the next one: the
  condition under which the scan skips it.\<close>

definition redundant :: "byte list \<Rightarrow> nat \<Rightarrow> bool" where
  "redundant bs i \<longleftrightarrow> Suc i < length bs \<and>
     (bs ! i = 0x00 \<and> bs ! Suc i AND 0x80 = 0 \<or> bs ! i = 0xff \<and> bs ! Suc i AND 0x80 \<noteq> 0)"

lemma compressScan_step:
  "compressScan bs i = (if redundant bs i then compressScan bs (Suc i) else i)"
  by (subst compressScan.simps) (simp add: redundant_def)

lemma redundant_be_int:
  assumes "redundant bs i"
  shows "be_int (drop (Suc i) bs) = be_int (drop i bs)"
proof -
  have i: "Suc i < length bs" using assms by (simp add: redundant_def)
  then obtain c cs where cs: "drop (Suc i) bs = c # cs" and c: "c = bs ! Suc i"
    by (metis Cons_nth_drop_Suc)
  have "drop i bs = bs ! i # c # cs"
    using i cs by (simp add: Cons_nth_drop_Suc [symmetric])
  moreover have "bs ! i = 0 \<and> c AND 0x80 = 0 \<or> bs ! i = 0xff \<and> c AND 0x80 \<noteq> 0"
    using assms c by (simp add: redundant_def)
  moreover have "be_int (0xff # c # cs) = be_int (c # cs)" if "c AND 0x80 \<noteq> 0"
    using that by (simp add: be_int_def)
  moreover have "be_int (0 # c # cs) = be_int (c # cs)" if "c AND 0x80 = 0"
    using that by (simp add: be_int_def)
  ultimately show ?thesis
    using cs by auto
qed

lemma compressScan_props:
  "i < length bs \<Longrightarrow>
   i \<le> compressScan bs i \<and> compressScan bs i < length bs \<and>
   be_int (drop (compressScan bs i) bs) = be_int (drop i bs) \<and>
   \<not> redundant bs (compressScan bs i)"
proof (induction bs i rule: compressScan.induct)
  case (1 bs i)
  show ?case
  proof (cases "redundant bs i")
    case True
    then have "Suc i < length bs" by (simp add: redundant_def)
    with 1 True have IH: "Suc i \<le> compressScan bs (Suc i) \<and> compressScan bs (Suc i) < length bs \<and>
        be_int (drop (compressScan bs (Suc i)) bs) = be_int (drop (Suc i) bs) \<and>
        \<not> redundant bs (compressScan bs (Suc i))"
      by (simp add: redundant_def)
    with True show ?thesis
      by (simp add: compressScan_step [of bs i] redundant_be_int)
  next
    case False
    with 1 show ?thesis by (simp add: compressScan_step [of bs i])
  qed
qed

lemma length_compressMove [simp]: "length (compressMove bs p e q) = length bs"
proof (induction bs p e q rule: compressMove.induct)
  case (1 bs p e q)
  then show ?case by (subst compressMove.simps) simp
qed

lemma nth_compressMove:
  "0 < d \<Longrightarrow> q = p + d \<Longrightarrow> e + d \<le> length bs \<Longrightarrow> k < length bs \<Longrightarrow>
   compressMove bs p e q ! k = (if p \<le> k \<and> k < e then bs ! (k + d) else bs ! k)"
proof (induction bs p e q rule: compressMove.induct)
  case (1 bs p e q)
  show ?case
  proof (cases "p < e")
    case True
    with 1 have "compressMove bs p e q ! k =
        (if Suc p \<le> k \<and> k < e then bs[p := bs ! q] ! (k + d) else bs[p := bs ! q] ! k)"
      by (subst compressMove.simps) simp
    with 1 True show ?thesis by (auto simp: nth_list_update)
  next
    case False
    then show ?thesis by (subst compressMove.simps) auto
  qed
qed

lemma compressInteger_content:
  assumes "BerEncoder_compressInteger bs = (bs', n)"
  shows "n = length bs - compressScan bs 0" and "take n bs' = drop (compressScan bs 0) bs"
    and "length bs' = length bs"
proof -
  let ?d = "compressScan bs 0"
  have d: "?d \<le> length bs"
    using compressScan_props [of 0 bs] by (cases "bs = []") (auto simp: compressScan.simps [of "[]"])
  show n: "n = length bs - ?d" and len: "length bs' = length bs"
    using assms d by (auto simp: BerEncoder_compressInteger_def Let_def split: if_splits)
  show "take n bs' = drop ?d bs"
  proof (cases "?d = 0")
    case True
    with assms show ?thesis by (auto simp: BerEncoder_compressInteger_def)
  next
    case False
    with assms n have bs': "bs' = compressMove bs 0 n ?d"
      by (simp add: BerEncoder_compressInteger_def Let_def)
    show ?thesis
    proof (rule nth_equalityI)
      show "length (take n bs') = length (drop ?d bs)"
        using n len by simp
      fix k assume "k < length (take n bs')"
      then have k: "k < n" "k < length bs" using len by simp_all
      then show "take n bs' ! k = drop ?d bs ! k"
        using False d n by (simp add: bs' nth_compressMove [where d = ?d] add.commute)
    qed
  qed
qed

lemma redundant_drop: "redundant (drop d bs) 0 = redundant bs d"
  by (auto simp: redundant_def)

text \<open>Compression keeps the two's complement value and leaves the shortest such sequence.\<close>

lemma compressInteger_spec:
  assumes "BerEncoder_compressInteger bs = (bs', n)" and "bs \<noteq> []"
  shows "be_int (take n bs') = be_int bs" and "\<not> redundant (take n bs') 0"
    and "1 \<le> n" and "n \<le> length bs" and "length (take n bs') = n"
proof -
  note content = compressInteger_content [OF assms(1)]
  have props: "compressScan bs 0 < length bs" "\<not> redundant bs (compressScan bs 0)"
      "be_int (drop (compressScan bs 0) bs) = be_int bs"
    using compressScan_props [of 0 bs] assms(2) by simp_all
  show "be_int (take n bs') = be_int bs" "\<not> redundant (take n bs') 0"
    using content(2) props by (simp_all add: redundant_drop)
  show "1 \<le> n" "n \<le> length bs" "length (take n bs') = n"
    using content props by simp_all
qed

lemma uint32_bytes_spec:
  shows "be_nat (uint32_bytes v) = unat v" and "\<not> redundant (uint32_bytes v) 0"
    and "1 \<le> length (uint32_bytes v)" and "length (uint32_bytes v) \<le> 5"
    and "length (uint32_bytes v) = BerEncoder_UInt32determineEncodedSize v"
proof -
  let ?xs = "0 # rev (le_bytes v) :: byte list"
  obtain bs' n where c: "BerEncoder_compressInteger ?xs = (bs', n)" by fastforce
  then have vb: "uint32_valueBuffer v = (bs', n)"
    by (simp add: uint32_valueBuffer_def revertByteOrder_eq_rev)
  then have bytes: "uint32_bytes v = take n bs'"
    by (simp add: uint32_bytes_def)
  note spec = compressInteger_spec [OF c]
  have "be_int ?xs = int (unat v)"
    by (simp add: be_int_def be_nat_rev_le_bytes)
  with spec(1) have v: "be_int (uint32_bytes v) = int (unat v)"
    by (simp add: bytes)
  then have "int (be_nat (uint32_bytes v)) = int (unat v)"
    using be_int_eq_be_nat [of "uint32_bytes v"] by simp
  then show "be_nat (uint32_bytes v) = unat v" by (simp only: of_nat_eq_iff)
  show "\<not> redundant (uint32_bytes v) 0" "1 \<le> length (uint32_bytes v)"
      "length (uint32_bytes v) \<le> 5"
      "length (uint32_bytes v) = BerEncoder_UInt32determineEncodedSize v"
    using spec(2,3,4,5) vb by (simp_all add: bytes BerEncoder_UInt32determineEncodedSize_def)
qed

lemma encodeUInt32WithTL_emits [enc_emits]:
  "BerEncoder_encodeUInt32WithTL tag value =
     emits (tl_bytes tag (length (uint32_bytes value)) @ uint32_bytes value)"
proof
  fix w
  obtain bs' n where vb: "uint32_valueBuffer value = (bs', n)" by fastforce
  then have "n = length (uint32_bytes value)"
    by (simp add: uint32_bytes_spec(5) BerEncoder_UInt32determineEncodedSize_def)
  moreover have "length (uint32_bytes value) < 128"
    using uint32_bytes_spec(4) [of "value"] by simp
  ultimately show "BerEncoder_encodeUInt32WithTL tag value w =
      emits (tl_bytes tag (length (uint32_bytes value)) @ uint32_bytes value) w"
    using vb by (simp add: BerEncoder_encodeUInt32WithTL_def uint32_bytes_def tl_bytes_def
        length_bytes_def enc_emits)
qed


section \<open>Bit strings\<close>

lemma bitString_byteSize_eq: "bitString_byteSize n = (n + 7) div 8"
  by (auto simp: bitString_byteSize_def Let_def) presburger+

text \<open>The bytes of an encoded bit string; the unused bits of the last byte are cleared.\<close>

definition bitString_bytes :: "byte \<Rightarrow> nat \<Rightarrow> byte list \<Rightarrow> byte list" where
  "bitString_bytes tag n bitString =
     (let byteSize = bitString_byteSize n; padding = byteSize * 8 - n;
          content = of_nat padding # take byteSize bitString
      in tl_bytes tag (byteSize + 1) @
         butlast content @ [last content AND NOT (paddingMask padding)])"

lemma emits_set_last:
  assumes "bs \<noteq> []" and "bufPos + length bs \<le> length buffer"
  shows "(emits bs (buffer, bufPos) \<bind>
           (\<lambda>(buffer, bufPos). Some (buffer[bufPos - 1 := f (buffer ! (bufPos - 1))], bufPos))) =
         emits (butlast bs @ [f (last bs)]) (buffer, bufPos)"
proof -
  obtain cs c where bs: "bs = cs @ [c]"
    using assms(1) by (metis rev_exhaust)
  with assms(2) show ?thesis
    by (simp add: emits_Some nth_append list_update_append)
qed

lemma encodeBitString_eq:
  assumes "bitString_byteSize n \<le> length bitString"
    and "bufPos + length (bitString_bytes tag n bitString) \<le> length buffer"
  shows "BerEncoder_encodeBitString tag n bitString (buffer, bufPos) =
         emits (bitString_bytes tag n bitString) (buffer, bufPos)"
proof -
  let ?p = "bitString_byteSize n * 8 - n"
  let ?bs = "tl_bytes tag (bitString_byteSize n + 1) @ of_nat ?p # take (bitString_byteSize n) bitString"
  have len: "length (bitString_bytes tag n bitString) = length ?bs"
    by (simp add: bitString_bytes_def Let_def)
  have "BerEncoder_encodeBitString tag n bitString (buffer, bufPos) =
      emits ?bs (buffer, bufPos) \<bind>
        (\<lambda>(buffer, bufPos).
           Some (buffer[bufPos - 1 := buffer ! (bufPos - 1) AND NOT (paddingMask ?p)], bufPos))"
    using assms(1)
    by (simp add: BerEncoder_encodeBitString_def rd_n_def Let_def enc_emits tl_bytes_def)
  also have "\<dots> = emits (butlast ?bs @ [last ?bs AND NOT (paddingMask ?p)]) (buffer, bufPos)"
    using assms(2) len by (intro emits_set_last) simp_all
  also have "butlast ?bs @ [last ?bs AND NOT (paddingMask ?p)] = bitString_bytes tag n bitString"
    by (simp add: bitString_bytes_def Let_def butlast_append)
  finally show ?thesis .
qed

end
