(* ===== verification/Ber_Integer.thy ===== *)
theory Ber_Integer
  imports Ber_Encoder
begin

text \<open>
  \<open>src/src/mms/asn1/ber_integer.c\<close>: native integers stored as BER content octets in an
  \<open>Asn1PrimitiveValue\<close>. A setter returns the C result (1 stored, 0 does not fit) and the
  object; a \<open>BerInteger_to...\<close> function returns \<open>None\<close> inside for the C result 0, which
  leaves \<open>*nativeValue\<close> alone, and \<open>Some v\<close> when it stored \<open>v\<close>.
\<close>

section \<open>Definitions\<close>

definition setIntegerValue ::
  "Asn1PrimitiveValue \<Rightarrow> byte list \<Rightarrow> (int \<times> Asn1PrimitiveValue) option" where
  "setIntegerValue self valueBuffer =
     (let valueBuffer = BerEncoder_revertByteOrder valueBuffer;
          (valueBuffer, size) = BerEncoder_compressInteger valueBuffer
      in if size \<le> av_maxSize self then do {
           octets \<leftarrow> memcpy (av_octets self) valueBuffer size;
           Some (1, self\<lparr>av_size := size, av_octets := octets\<rparr>)
         }
         else Some (0, self))"

definition BerInteger_createInt32 :: Asn1PrimitiveValue where
  "BerInteger_createInt32 = Asn1PrimitiveValue_create 4"

definition BerInteger_createFromBuffer :: "byte list \<Rightarrow> nat \<Rightarrow> Asn1PrimitiveValue option" where
  "BerInteger_createFromBuffer buf n =
     (let maxSize = (if n > 8 then n else 8);
          self = Asn1PrimitiveValue_create maxSize
      in do {
        octets \<leftarrow> memcpy (av_octets self) buf n;
        Some (self\<lparr>av_size := n, av_octets := octets\<rparr>)
      })"

definition BerInteger_setFromBerInteger ::
  "Asn1PrimitiveValue \<Rightarrow> Asn1PrimitiveValue \<Rightarrow> (int \<times> Asn1PrimitiveValue) option" where
  "BerInteger_setFromBerInteger self val =
     (if av_maxSize self \<ge> av_size val then do {
        octets \<leftarrow> memcpy (av_octets self) (av_octets val) (av_size val);
        Some (1, self\<lparr>av_size := av_size val, av_octets := octets\<rparr>)
      }
      else Some (0, self))"

definition BerInteger_setInt32 ::
  "Asn1PrimitiveValue \<Rightarrow> i32 \<Rightarrow> (int \<times> Asn1PrimitiveValue) option" where
  "BerInteger_setInt32 self val = setIntegerValue self (le_bytes val)"

definition BerInteger_createFromInt32 :: "i32 \<Rightarrow> Asn1PrimitiveValue option" where
  "BerInteger_createFromInt32 val = do {
     (_, asn1Value) \<leftarrow> BerInteger_setInt32 BerInteger_createInt32 val;
     Some asn1Value
   }"

definition BerInteger_setUint16 ::
  "Asn1PrimitiveValue \<Rightarrow> u16 \<Rightarrow> (int \<times> Asn1PrimitiveValue) option" where
  "BerInteger_setUint16 self val = setIntegerValue self (le_bytes val)"

definition BerInteger_setUint8 ::
  "Asn1PrimitiveValue \<Rightarrow> byte \<Rightarrow> (int \<times> Asn1PrimitiveValue) option" where
  "BerInteger_setUint8 self val = setIntegerValue self (le_bytes val)"

definition BerInteger_setUint32 ::
  "Asn1PrimitiveValue \<Rightarrow> u32 \<Rightarrow> (int \<times> Asn1PrimitiveValue) option" where
  "BerInteger_setUint32 self val = setIntegerValue self (le_bytes val)"

definition BerInteger_createFromUint32 :: "u32 \<Rightarrow> Asn1PrimitiveValue option" where
  "BerInteger_createFromUint32 val = do {
     (_, asn1Value) \<leftarrow> BerInteger_setUint32 BerInteger_createInt32 val;
     Some asn1Value
   }"

definition BerInteger_createInt64 :: Asn1PrimitiveValue where
  "BerInteger_createInt64 = Asn1PrimitiveValue_create 64"

definition BerInteger_setInt64 ::
  "Asn1PrimitiveValue \<Rightarrow> i64 \<Rightarrow> (int \<times> Asn1PrimitiveValue) option" where
  "BerInteger_setInt64 self val = setIntegerValue self (le_bytes val)"

definition BerInteger_createFromInt64 :: "i64 \<Rightarrow> Asn1PrimitiveValue option" where
  "BerInteger_createFromInt64 val = do {
     (_, asn1Value) \<leftarrow> BerInteger_setInt64 BerInteger_createInt64 val;
     Some asn1Value
   }"

text \<open>The loop \<open>*nativeValue = (*nativeValue << 8) | buf[i]\<close>.\<close>

definition shift_in :: "'a::len word \<Rightarrow> byte list \<Rightarrow> 'a word" where
  "shift_in start bs = foldl (\<lambda>v b. push_bit 8 v OR ucast b) start bs"

definition BerInteger_toInt32 :: "Asn1PrimitiveValue \<Rightarrow> i32 option option" where
  "BerInteger_toInt32 self =
     (if av_size self < 5 then do {
        b0 \<leftarrow> rd (av_octets self) 0;
        buf \<leftarrow> rd_n (av_octets self) (av_size self);
        let nativeValue = (if b0 AND 0x80 \<noteq> 0 then 0xffffffff else 0);
        Some (Some (shift_in nativeValue buf))
      }
      else Some None)"

definition BerInteger_toUint32 :: "Asn1PrimitiveValue \<Rightarrow> u32 option option" where
  "BerInteger_toUint32 self =
     (if av_size self < 5 then do {
        buf \<leftarrow> rd_n (av_octets self) (av_size self);
        Some (Some (shift_in 0 buf))
      }
      else Some None)"

definition BerInteger_toInt64 :: "Asn1PrimitiveValue \<Rightarrow> i64 option option" where
  "BerInteger_toInt64 self =
     (if av_size self < 9 then do {
        b0 \<leftarrow> rd (av_octets self) 0;
        buf \<leftarrow> rd_n (av_octets self) (av_size self);
        let nativeValue = (if b0 AND 0x80 \<noteq> 0 then 0xffffffffffffffff else 0);
        Some (Some (shift_in nativeValue buf))
      }
      else Some None)"

section \<open>Reading and writing the octets\<close>

lemma push_bit_or_byte: "push_bit 8 v OR ucast (b :: byte) = v * 256 + of_nat (unat b)"
  for v :: "'a::len word"
proof -
  have "push_bit 8 v AND ucast b = 0"
    by (rule bit_eqI) (auto simp: bit_and_iff bit_push_bit_iff bit_ucast_iff dest: bit_imp_le_length)
  then have "push_bit 8 v OR ucast b = push_bit 8 v + ucast b"
    by (simp add: disjunctive_add_eq_or)
  then show ?thesis by (simp add: push_bit_eq_mult)
qed

lemma shift_in_eq: "shift_in v bs = v * 256 ^ length bs + of_nat (be_nat bs)"
proof (induction bs arbitrary: v)
  case Nil
  then show ?case by (simp add: shift_in_def)
next
  case (Cons b bs)
  then have "shift_in v (b # bs) = (v * 256 + of_nat (unat b)) * 256 ^ length bs + of_nat (be_nat bs)"
    by (simp add: shift_in_def push_bit_or_byte)
  then show ?case by (simp add: algebra_simps)
qed

text \<open>Sign extension by an all-ones start value yields the two's complement value.\<close>

lemma shift_in_signed:
  "bs \<noteq> [] \<Longrightarrow> shift_in (if hd bs AND 0x80 \<noteq> 0 then - 1 else 0) bs = of_int (be_int bs)"
  by (simp add: shift_in_eq be_int_def)

lemma be_int_rev_le_bytes:
  "8 dvd LENGTH('a) \<Longrightarrow> of_int (be_int (rev (le_bytes v))) = (v :: 'a::len word)"
proof -
  assume dvd: "8 dvd LENGTH('a)"
  then have "(256 :: 'a word) ^ (LENGTH('a) div 8) = 2 ^ (8 * (LENGTH('a) div 8))"
    by (simp only: power_mult) simp
  also have "\<dots> = 0" using dvd by simp
  finally have "(256 :: 'a word) ^ length (rev (le_bytes v)) = 0" by simp
  then show ?thesis
    using dvd by (simp add: be_int_def be_nat_rev_le_bytes)
qed

lemma setIntegerValue_stores:
  assumes inv: "apv_inv self" and vb: "valueBuffer \<noteq> []"
    and room: "length valueBuffer \<le> av_maxSize self"
  obtains self' where "setIntegerValue self valueBuffer = Some (1, self')" and "apv_inv self'"
    and "av_maxSize self' = av_maxSize self"
    and "be_int (apv_content self') = be_int (rev valueBuffer)"
    and "\<not> redundant (apv_content self') 0"
    and "1 \<le> av_size self'" and "av_size self' \<le> length valueBuffer"
    and "apv_content self' = drop (compressScan (rev valueBuffer) 0) (rev valueBuffer)"
proof -
  obtain bs n where c: "BerEncoder_compressInteger (rev valueBuffer) = (bs, n)" by fastforce
  note spec = compressInteger_spec [OF c]
  note content = compressInteger_content [OF c]
  let ?self = "self\<lparr>av_size := n, av_octets := take n bs @ drop n (av_octets self)\<rparr>"
  have n: "n \<le> av_maxSize self" "n \<le> length bs" "n \<le> length (av_octets self)"
    using spec(4) content(3) vb room inv by (simp_all add: apv_inv_def)
  then have set: "setIntegerValue self valueBuffer = Some (1, ?self)"
    using c by (simp add: setIntegerValue_def revertByteOrder_eq_rev memcpy_def rd_n_def)
  have "apv_content ?self = take n bs" using n by simp
  with set spec content vb n inv show ?thesis
    by (intro that [of ?self]) (simp_all add: apv_inv_def)
qed

lemma apv_content_hd:
  assumes "apv_inv self" and "1 \<le> av_size self"
  shows "apv_content self \<noteq> []" and "hd (apv_content self) = av_octets self ! 0"
proof -
  have "av_octets self \<noteq> []"
    using assms by (auto simp: apv_inv_def)
  with assms show "apv_content self \<noteq> []" "hd (apv_content self) = av_octets self ! 0"
    by (auto simp: hd_conv_nth)
qed

lemma all_ones: "(0xffffffff :: i32) = - 1" "(0xffffffffffffffff :: i64) = - 1"
  by simp_all

lemma toInt32_eq:
  assumes "apv_inv self" and "1 \<le> av_size self" and "av_size self < 5"
  shows "BerInteger_toInt32 self = Some (Some (of_int (be_int (apv_content self))))"
proof -
  note ne = apv_content_hd [OF assms(1,2)]
  have "BerInteger_toInt32 self =
      Some (Some (shift_in (if hd (apv_content self) AND 0x80 \<noteq> 0 then - 1 else 0) (apv_content self)))"
    using assms ne
    by (simp add: BerInteger_toInt32_def apv_inv_def rd_n_def all_ones)
  with shift_in_signed [OF ne(1)] show ?thesis by simp
qed

lemma toInt64_eq:
  assumes "apv_inv self" and "1 \<le> av_size self" and "av_size self < 9"
  shows "BerInteger_toInt64 self = Some (Some (of_int (be_int (apv_content self))))"
proof -
  note ne = apv_content_hd [OF assms(1,2)]
  have "BerInteger_toInt64 self =
      Some (Some (shift_in (if hd (apv_content self) AND 0x80 \<noteq> 0 then - 1 else 0) (apv_content self)))"
    using assms ne
    by (simp add: BerInteger_toInt64_def apv_inv_def rd_n_def all_ones)
  with shift_in_signed [OF ne(1)] show ?thesis by simp
qed

lemma toUint32_eq:
  "apv_inv self \<Longrightarrow> av_size self < 5 \<Longrightarrow>
   BerInteger_toUint32 self = Some (Some (of_nat (be_nat (apv_content self))))"
  by (simp add: BerInteger_toUint32_def apv_inv_def rd_n_def shift_in_eq)

text \<open>
  The contract of a native integer stored in an \<open>Asn1PrimitiveValue\<close>: setting a value of the
  object's width and reading it back gives the value, for any object that is large enough.
\<close>

locale integer_codec =
  fixes width :: nat
    and set_native :: "Asn1PrimitiveValue \<Rightarrow> 'a::len word \<Rightarrow> (int \<times> Asn1PrimitiveValue) option"
    and get_native :: "Asn1PrimitiveValue \<Rightarrow> 'a word option option"
  assumes width: "8 dvd LENGTH('a)" "width = LENGTH('a) div 8" "0 < width"
    and set_eq: "set_native self v = setIntegerValue self (le_bytes v)"
    and get_eq: "apv_inv self \<Longrightarrow> 1 \<le> av_size self \<Longrightarrow> av_size self \<le> width \<Longrightarrow>
      get_native self = Some (Some (of_int (be_int (apv_content self))))"
begin

lemma set_get:
  assumes "apv_inv self" and "width \<le> av_maxSize self"
  shows "\<exists>self'. set_native self v = Some (1, self') \<and> apv_inv self' \<and>
           \<not> redundant (apv_content self') 0 \<and> get_native self' = Some (Some v)"
proof -
  have le: "length (le_bytes v) = width" "le_bytes v \<noteq> []"
    using width(2,3) length_le_bytes [of v] by (simp, metis list.size(3) nat_less_le)
  then obtain self' where s: "setIntegerValue self (le_bytes v) = Some (1, self')" "apv_inv self'"
      "be_int (apv_content self') = be_int (rev (le_bytes v))" "\<not> redundant (apv_content self') 0"
      "1 \<le> av_size self'" "av_size self' \<le> width"
    using setIntegerValue_stores [of self "le_bytes v"] assms by metis
  then have "get_native self' = Some (Some v)"
    using get_eq [of self'] be_int_rev_le_bytes [of v] width(1) by simp
  with s show ?thesis by (auto simp: set_eq)
qed

end

interpretation int32_codec: integer_codec 4 BerInteger_setInt32 BerInteger_toInt32
  by unfold_locales (simp_all add: BerInteger_setInt32_def toInt32_eq)

interpretation int64_codec: integer_codec 8 BerInteger_setInt64 BerInteger_toInt64
  by unfold_locales (simp_all add: BerInteger_setInt64_def toInt64_eq)

lemma compressScan_zero_iff: "compressScan bs 0 = 0 \<longleftrightarrow> \<not> redundant bs 0"
proof (cases "redundant bs 0")
  case True
  then have "Suc 0 \<le> compressScan bs (Suc 0)"
    using compressScan_props [of "Suc 0" bs] by (simp add: redundant_def)
  with True show ?thesis by (simp add: compressScan_step [of bs 0])
qed (simp add: compressScan_step [of bs 0])

lemma le_bytes_u32: "\<exists>b0 b1 b2 b3. le_bytes (v :: u32) = [b0, b1, b2, b3]"
proof -
  have "length (le_bytes v) = Suc (Suc (Suc (Suc 0)))" by simp
  then show ?thesis by (auto simp: length_Suc_conv simp del: length_le_bytes)
qed

text \<open>The four octets of an unsigned 32-bit value lose their leading 0xff exactly for the
  values from 0xff800000 on.\<close>

lemma u32_octets_redundant_high:
  assumes "0x80000000 \<le> unat (v :: u32)"
  shows "redundant (rev (le_bytes v)) 0 \<longleftrightarrow> 0xff800000 \<le> unat v"
proof -
  obtain b0 b1 b2 b3 where le: "le_bytes v = [b0, b1, b2, b3]"
    using le_bytes_u32 by blast
  then have v: "unat v = unat b3 * 16777216 + unat b2 * 65536 + unat b1 * 256 + unat b0"
    using be_nat_rev_le_bytes [of v] by simp
  have b3: "b3 = 0xff \<longleftrightarrow> unat b3 = 255" "b3 \<noteq> 0"
    using assms v unat_byte [of b2] unat_byte [of b1] unat_byte [of b0]
    by (auto simp: unsigned_word_eqI)
  have "unat b3 = 255 \<and> 128 \<le> unat b2 \<longleftrightarrow> 0xff800000 \<le> unat v"
    using v unat_byte [of b3] unat_byte [of b2] unat_byte [of b1] unat_byte [of b0] by linarith
  with b3 le show ?thesis
    by (auto simp: redundant_def top_bit_iff)
qed

section \<open>Properties\<close>

text \<open>storing a signed 32-bit value in any object with room for four octets succeeds, keeps
  the object well formed, leaves the shortest two's complement octets, and
  \<open>BerInteger_toInt32\<close> reads back the same value.\<close>

theorem int32_roundtrip:
  assumes "apv_inv self" and "4 \<le> av_maxSize self"
  shows "\<exists>self'. BerInteger_setInt32 self v = Some (1, self') \<and> apv_inv self' \<and>
           \<not> redundant (apv_content self') 0 \<and> BerInteger_toInt32 self' = Some (Some v)"
  using assms by (rule int32_codec.set_get)

theorem int32_roundtrip_witness:
  "apv_inv BerInteger_createInt32 \<and> 4 \<le> av_maxSize BerInteger_createInt32 \<and>
   (\<exists>self'. BerInteger_setInt32 BerInteger_createInt32 (- 129) = Some (1, self') \<and>
      BerInteger_toInt32 self' = Some (Some (- 129)))"
proof -
  have h: "apv_inv BerInteger_createInt32" "4 \<le> av_maxSize BerInteger_createInt32"
    by (simp_all add: BerInteger_createInt32_def Asn1PrimitiveValue_create_def apv_inv_def)
  show ?thesis using h int32_roundtrip [OF h, of "- 129"] by blast
qed

text \<open>the same for signed 64-bit values.\<close>

theorem int64_roundtrip:
  assumes "apv_inv self" and "8 \<le> av_maxSize self"
  shows "\<exists>self'. BerInteger_setInt64 self v = Some (1, self') \<and> apv_inv self' \<and>
           \<not> redundant (apv_content self') 0 \<and> BerInteger_toInt64 self' = Some (Some v)"
  using assms by (rule int64_codec.set_get)

theorem int64_roundtrip_witness:
  "apv_inv BerInteger_createInt64 \<and> 8 \<le> av_maxSize BerInteger_createInt64 \<and>
   (\<exists>self'. BerInteger_setInt64 BerInteger_createInt64 (- 32769) = Some (1, self') \<and>
      BerInteger_toInt64 self' = Some (Some (- 32769)))"
proof -
  have h: "apv_inv BerInteger_createInt64" "8 \<le> av_maxSize BerInteger_createInt64"
    by (simp_all add: BerInteger_createInt64_def Asn1PrimitiveValue_create_def apv_inv_def)
  show ?thesis using h int64_roundtrip [OF h, of "- 32769"] by blast
qed

lemma uint32_content:
  assumes "apv_inv self" and "4 \<le> av_maxSize self"
  obtains self' where "BerInteger_setUint32 self v = Some (1, self')" and "apv_inv self'"
    and "BerInteger_toUint32 self' = Some (Some (of_nat (be_nat (apv_content self'))))"
    and "apv_content self' = drop (compressScan (rev (le_bytes v)) 0) (rev (le_bytes v))"
    and "be_int (apv_content self') = be_int (rev (le_bytes v))"
proof -
  have "le_bytes v \<noteq> []" using le_bytes_u32 [of v] by auto
  with assms obtain self' where "setIntegerValue self (le_bytes v) = Some (1, self')" "apv_inv self'"
      "be_int (apv_content self') = be_int (rev (le_bytes v))" "av_size self' \<le> length (le_bytes v)"
      "apv_content self' = drop (compressScan (rev (le_bytes v)) 0) (rev (le_bytes v))"
    using setIntegerValue_stores [of self "le_bytes v"] by auto
  then show ?thesis
    by (intro that [of self']) (simp_all add: BerInteger_setUint32_def toUint32_eq)
qed

text \<open>An unsigned 32-bit value survives \<open>BerInteger_setUint32\<close> and
  \<open>BerInteger_toUint32\<close> exactly when it is below 0xff800000: from there on the setter, which
  compresses the four octets as a signed integer without a leading zero octet, drops a leading
  0xff and the reader returns a smaller number.\<close>

theorem uint32_roundtrip_iff:
  assumes "apv_inv self" and "4 \<le> av_maxSize self"
  shows "\<exists>self'. BerInteger_setUint32 self v = Some (1, self') \<and> apv_inv self' \<and>
           (BerInteger_toUint32 self' = Some (Some v) \<longleftrightarrow> unat v < 0xff800000)"
proof -
  obtain self' where s: "BerInteger_setUint32 self v = Some (1, self')" "apv_inv self'"
      "BerInteger_toUint32 self' = Some (Some (of_nat (be_nat (apv_content self'))))"
    and c: "apv_content self' = drop (compressScan (rev (le_bytes v)) 0) (rev (le_bytes v))"
    and i: "be_int (apv_content self') = be_int (rev (le_bytes v))"
    by (rule uint32_content [OF assms])
  have len: "length (rev (le_bytes v)) = 4" by simp
  have "be_nat (apv_content self') = unat v" if "unat v < 0xff800000"
  proof (cases "unat v < 0x80000000")
    case True
    then have "0 \<le> be_int (rev (le_bytes v))"
      using le_bytes_u32 [of v] be_nat_rev_le_bytes [of v]
      by (auto simp: be_int_nonneg_iff top_bit_iff)
    then have "int (be_nat (apv_content self')) = int (be_nat (rev (le_bytes v)))"
      using i be_int_eq_be_nat [of "apv_content self'"] be_int_eq_be_nat [of "rev (le_bytes v)"]
      by simp
    then show ?thesis
      by (simp only: of_nat_eq_iff) (simp add: be_nat_rev_le_bytes)
  next
    case False
    with that have "\<not> redundant (rev (le_bytes v)) 0"
      by (simp add: u32_octets_redundant_high)
    with c show ?thesis
      by (simp add: compressScan_zero_iff [THEN iffD2] be_nat_rev_le_bytes)
  qed
  moreover have "be_nat (apv_content self') < 2 ^ 24" if "0xff800000 \<le> unat v"
  proof -
    from that have "redundant (rev (le_bytes v)) 0" by (simp add: u32_octets_redundant_high)
    then have "length (apv_content self') \<le> 3"
      using c compressScan_zero_iff [of "rev (le_bytes v)"] by (simp add: c)
    then have "(256::nat) ^ length (apv_content self') \<le> 256 ^ 3"
      by (intro power_increasing) simp_all
    then show ?thesis using be_nat_bound [of "apv_content self'"] by simp
  qed
  ultimately have "of_nat (be_nat (apv_content self')) = v \<longleftrightarrow> unat v < 0xff800000"
    by (cases "unat v < 0xff800000") (auto simp: unat_of_nat take_bit_eq_mod)
  with s show ?thesis by auto
qed

theorem uint32_roundtrip_iff_witness:
  "apv_inv BerInteger_createInt32 \<and> 4 \<le> av_maxSize BerInteger_createInt32 \<and>
   (\<exists>self'. BerInteger_setUint32 BerInteger_createInt32 0xffffffff = Some (1, self') \<and>
      BerInteger_toUint32 self' \<noteq> Some (Some 0xffffffff))"
proof -
  have h: "apv_inv BerInteger_createInt32" "4 \<le> av_maxSize BerInteger_createInt32"
    by (simp_all add: BerInteger_createInt32_def Asn1PrimitiveValue_create_def apv_inv_def)
  have "\<not> unat (0xffffffff :: u32) < 0xff800000" by simp
  with h uint32_roundtrip_iff [OF h, of "0xffffffff"] show ?thesis by blast
qed

end
