(* ===== verification/Mms_Types.thy ===== *)
theory Mms_Types
  imports Ber_Integer "HOL-Library.Signed_Division"
begin

text \<open>
  The data model of MMS values: \<open>MmsType\<close> (\<open>src/src/mms/iso_mms/common/mms_common.h\<close>), the
  tagged union \<open>MmsValue\<close> (\<open>mms_value_internal.h\<close>) and the type descriptions
  \<open>MmsVariableSpecification\<close> (\<open>mms_types.h\<close>). A value is the tree its pointers span: a
  component pointer that is \<open>NULL\<close> is \<open>None\<close>, the count of components is the length of
  their list, and sharing of a component between two values is not represented. A C string
  is the list of its characters before the terminating 0, \<open>None\<close> for \<open>NULL\<close>.
  The types without a member in the union (\<open>MMS_GENERALIZED_TIME\<close>, \<open>MMS_BCD\<close>,
  \<open>MMS_OBJ_ID\<close>) have no payload. An operation returns \<open>None\<close> where the C code dereferences
  \<open>NULL\<close>, leaves an allocation or reads a union member other than the one the type names.
\<close>

type_synonym u64 = "64 word"
type_synonym cstring = "byte list"

datatype MmsType =
  MMS_ARRAY | MMS_STRUCTURE | MMS_BOOLEAN | MMS_BIT_STRING | MMS_INTEGER | MMS_UNSIGNED
  | MMS_FLOAT | MMS_OCTET_STRING | MMS_VISIBLE_STRING | MMS_GENERALIZED_TIME | MMS_BINARY_TIME
  | MMS_BCD | MMS_OBJ_ID | MMS_STRING | MMS_UTC_TIME | MMS_DATA_ACCESS_ERROR

datatype MmsValue = MmsValue (deleteValue: byte) (mv_value: MmsUnion)
and MmsUnion =
    V_array "MmsValue option list"
  | V_structure "MmsValue option list"
  | V_boolean bool
  | V_bitString nat "byte list"
  | V_integer Asn1PrimitiveValue
  | V_unsigned Asn1PrimitiveValue
  | V_floatingPoint byte byte "byte list"
  | V_octetString nat nat "byte list"
  | V_visibleString "cstring option"
  | V_generalizedTime
  | V_binaryTime nat "byte list"
  | V_bcd
  | V_objId
  | V_mmsString "cstring option"
  | V_utcTime "byte list"
  | V_dataAccessError int

datatype MmsVariableSpecification =
  MmsVariableSpecification (spec_name: "cstring option") (typeSpec: MmsTypeSpecification)
and MmsTypeSpecification =
    T_array nat MmsVariableSpecification
  | T_structure "MmsVariableSpecification list"
  | T_boolean
  | T_bitString int
  | T_integer int
  | T_unsigned int
  | T_float byte byte
  | T_octetString int
  | T_visibleString int
  | T_generalizedTime
  | T_binaryTime int
  | T_bcd
  | T_objId
  | T_mmsString int
  | T_utcTime
  | T_dataAccessError

primrec union_type :: "MmsUnion \<Rightarrow> MmsType" where
  "union_type (V_array _) = MMS_ARRAY"
| "union_type (V_structure _) = MMS_STRUCTURE"
| "union_type (V_boolean _) = MMS_BOOLEAN"
| "union_type (V_bitString _ _) = MMS_BIT_STRING"
| "union_type (V_integer _) = MMS_INTEGER"
| "union_type (V_unsigned _) = MMS_UNSIGNED"
| "union_type (V_floatingPoint _ _ _) = MMS_FLOAT"
| "union_type (V_octetString _ _ _) = MMS_OCTET_STRING"
| "union_type (V_visibleString _) = MMS_VISIBLE_STRING"
| "union_type V_generalizedTime = MMS_GENERALIZED_TIME"
| "union_type (V_binaryTime _ _) = MMS_BINARY_TIME"
| "union_type V_bcd = MMS_BCD"
| "union_type V_objId = MMS_OBJ_ID"
| "union_type (V_mmsString _) = MMS_STRING"
| "union_type (V_utcTime _) = MMS_UTC_TIME"
| "union_type (V_dataAccessError _) = MMS_DATA_ACCESS_ERROR"

definition MmsValue_getType :: "MmsValue \<Rightarrow> MmsType" where
  "MmsValue_getType self = union_type (mv_value self)"

primrec spec_union_type :: "MmsTypeSpecification \<Rightarrow> MmsType" where
  "spec_union_type (T_array _ _) = MMS_ARRAY"
| "spec_union_type (T_structure _) = MMS_STRUCTURE"
| "spec_union_type T_boolean = MMS_BOOLEAN"
| "spec_union_type (T_bitString _) = MMS_BIT_STRING"
| "spec_union_type (T_integer _) = MMS_INTEGER"
| "spec_union_type (T_unsigned _) = MMS_UNSIGNED"
| "spec_union_type (T_float _ _) = MMS_FLOAT"
| "spec_union_type (T_octetString _) = MMS_OCTET_STRING"
| "spec_union_type (T_visibleString _) = MMS_VISIBLE_STRING"
| "spec_union_type T_generalizedTime = MMS_GENERALIZED_TIME"
| "spec_union_type (T_binaryTime _) = MMS_BINARY_TIME"
| "spec_union_type T_bcd = MMS_BCD"
| "spec_union_type T_objId = MMS_OBJ_ID"
| "spec_union_type (T_mmsString _) = MMS_STRING"
| "spec_union_type T_utcTime = MMS_UTC_TIME"
| "spec_union_type T_dataAccessError = MMS_DATA_ACCESS_ERROR"

definition MmsVariableSpecification_getType :: "MmsVariableSpecification \<Rightarrow> MmsType" where
  "MmsVariableSpecification_getType self = spec_union_type (typeSpec self)"

text \<open>Setting the union of an object keeps its \<open>deleteValue\<close>.\<close>

definition set_union :: "MmsValue \<Rightarrow> MmsUnion \<Rightarrow> MmsValue" where
  "set_union self u = MmsValue (deleteValue self) u"

lemma set_union_simps [simp]:
  "deleteValue (set_union v u) = deleteValue v"
  "mv_value (set_union v u) = u"
  by (simp_all add: set_union_def)

text \<open>The number of octets a bit string occupies, \<open>bitStringByteSize\<close>.\<close>

definition bits_to_bytes :: "nat \<Rightarrow> nat" where
  "bits_to_bytes bitSize = bitSize div 8 + (if bitSize mod 8 > 0 then 1 else 0)"

lemma bits_to_bytes_bound: "n \<le> 8 * bits_to_bytes n" "8 * bits_to_bytes n < n + 8"
proof -
  define q r where "q = n div 8" and "r = n mod 8"
  then have "n = 8 * q + r" "r < 8" "bits_to_bytes n = q + (if r > 0 then 1 else 0)"
    by (simp_all add: bits_to_bytes_def)
  then show "n \<le> 8 * bits_to_bytes n" "8 * bits_to_bytes n < n + 8"
    by auto
qed

lemma bits_to_bytes_pos: "i < n \<Longrightarrow> i div 8 < bits_to_bytes n"
  using bits_to_bytes_bound(1) [of n] by linarith


section \<open>Well-formed values\<close>

text \<open>The representation invariant of a complete value: every buffer has the length its size
  fields announce and no component is missing.\<close>

primrec all_components :: "(MmsValue \<Rightarrow> bool) \<Rightarrow> MmsValue option list \<Rightarrow> bool" where
  "all_components P [] \<longleftrightarrow> True"
| "all_components P (c # cs) \<longleftrightarrow> (case c of None \<Rightarrow> False | Some v \<Rightarrow> P v) \<and> all_components P cs"

lemma all_components_cong [fundef_cong]:
  assumes "xs = ys" and "\<And>v. Some v \<in> set ys \<Longrightarrow> P v = Q v"
  shows "all_components P xs = all_components Q ys"
proof -
  have "all_components P ys = all_components Q ys"
    using assms(2) by (induction ys) (auto split: option.splits)
  with assms(1) show ?thesis by simp
qed

lemma all_components_alt:
  "all_components P cs \<longleftrightarrow> (\<forall>c\<in>set cs. \<exists>v. c = Some v \<and> P v)"
  by (induction cs) (auto split: option.splits)

lemma size_component [termination_simp]:
  "Some v \<in> set cs \<Longrightarrow> size v < Suc (size_list (size_option size) cs)"
  using size_list_estimation [of "Some v" cs "size v" "size_option size"] by simp

fun mms_wf :: "MmsValue \<Rightarrow> bool" where
  "mms_wf (MmsValue _ (V_array cs)) \<longleftrightarrow> all_components mms_wf cs"
| "mms_wf (MmsValue _ (V_structure cs)) \<longleftrightarrow> all_components mms_wf cs"
| "mms_wf (MmsValue _ (V_boolean _)) \<longleftrightarrow> True"
| "mms_wf (MmsValue _ (V_bitString n buf)) \<longleftrightarrow> length buf = bits_to_bytes n"
| "mms_wf (MmsValue _ (V_integer a)) \<longleftrightarrow> apv_inv a"
| "mms_wf (MmsValue _ (V_unsigned a)) \<longleftrightarrow> apv_inv a"
| "mms_wf (MmsValue _ (V_floatingPoint _ w buf)) \<longleftrightarrow> (w = 32 \<or> w = 64) \<and> length buf = unat w div 8"
| "mms_wf (MmsValue _ (V_octetString n m buf)) \<longleftrightarrow> n \<le> m \<and> length buf = m"
| "mms_wf (MmsValue _ (V_visibleString _)) \<longleftrightarrow> True"
| "mms_wf (MmsValue _ (V_mmsString _)) \<longleftrightarrow> True"
| "mms_wf (MmsValue _ (V_utcTime buf)) \<longleftrightarrow> length buf = 8"
| "mms_wf (MmsValue _ (V_binaryTime n buf)) \<longleftrightarrow> (n = 4 \<or> n = 6) \<and> length buf = 6"
| "mms_wf (MmsValue _ (V_dataAccessError _)) \<longleftrightarrow> True"
| "mms_wf (MmsValue _ _) \<longleftrightarrow> False"

end
