(* ===== verification/Mms_Scalars.thy ===== *)
theory Mms_Scalars
  imports Mms_Types
begin

text \<open>
  The constructors and accessors of simple values in
  \<open>src/src/mms/iso_mms/common/mms_value.c\<close>: bit strings, floats, integers, booleans, UTC and
  binary time, octet strings and character strings, in the order of the file.

  Floating-point numbers are their IEEE bit patterns; the conversions between \<open>float\<close> and
  \<open>double\<close>, which depend on the rounding mode of the environment, are the parameters \<open>widen\<close>
  and \<open>narrow\<close>. \<open>malloc\<close> leaves a new object indeterminate: what the code does not initialise
  is a parameter \<open>junk\<close>.
\<close>

unbundle bit_operations_syntax

text \<open>\<open>buffer[i] = b\<close>.\<close>

definition wr :: "byte list \<Rightarrow> int \<Rightarrow> byte \<Rightarrow> byte list option" where
  "wr buffer i b =
     (if 0 \<le> i \<and> i < int (length buffer) then Some (buffer[nat i := b]) else None)"

lemma wr_Some [simp]: "i < length buffer \<Longrightarrow> wr buffer (int i) b = Some (buffer[i := b])"
  by (simp add: wr_def)

lemma wr_numeral [simp]:
  "numeral k < length buffer \<Longrightarrow> wr buffer (numeral k) b = Some (buffer[numeral k := b])"
  "0 < length buffer \<Longrightarrow> wr buffer 0 b = Some (buffer[0 := b])"
  "1 < length buffer \<Longrightarrow> wr buffer 1 b = Some (buffer[1 := b])"
  by (simp_all add: wr_def)

text \<open>The integer object whose little-endian memory image is given.\<close>

definition le_word :: "byte list \<Rightarrow> 'a::len word" where
  "le_word bs = of_nat (be_nat (rev bs))"

definition memcpyReverseByteOrder :: "byte list \<Rightarrow> byte list \<Rightarrow> nat \<Rightarrow> byte list option" where
  "memcpyReverseByteOrder dst src n =
     (if n \<le> length src \<and> n \<le> length dst
      then Some (map (\<lambda>i. src ! (n - i - 1)) [0..<n] @ drop n dst) else None)"


section \<open>Bit strings\<close>

definition bitStringByteSize :: "MmsValue \<Rightarrow> nat option" where
  "bitStringByteSize self =
     (case mv_value self of V_bitString bitSize _ \<Rightarrow> Some (bits_to_bytes bitSize) | _ \<Rightarrow> None)"

definition MmsValue_getBitStringByteSize :: "MmsValue \<Rightarrow> nat option" where
  "MmsValue_getBitStringByteSize self = bitStringByteSize self"

definition MmsValue_newBitString :: "nat \<Rightarrow> MmsValue" where
  "MmsValue_newBitString bitSize =
     MmsValue 0 (V_bitString bitSize (replicate (bits_to_bytes bitSize) 0))"

definition getBitStringByteSize :: "MmsValue \<Rightarrow> nat option" where
  "getBitStringByteSize self =
     (case mv_value self of
        V_bitString n _ \<Rightarrow> Some (if n mod 8 \<noteq> 0 then n div 8 + 1 else n div 8)
      | _ \<Rightarrow> None)"

definition bit_string :: "MmsValue \<Rightarrow> (nat \<times> byte list) option" where
  "bit_string self = (case mv_value self of V_bitString n buf \<Rightarrow> Some (n, buf) | _ \<Rightarrow> None)"

definition MmsValue_deleteAllBitStringBits :: "MmsValue \<Rightarrow> MmsValue option" where
  "MmsValue_deleteAllBitStringBits self = do {
     (n, buf) \<leftarrow> bit_string self;
     byteSize \<leftarrow> getBitStringByteSize self;
     buf \<leftarrow> memcpy buf (replicate byteSize 0) byteSize;
     Some (set_union self (V_bitString n buf))
   }"

definition MmsValue_setAllBitStringBits :: "MmsValue \<Rightarrow> MmsValue option" where
  "MmsValue_setAllBitStringBits self = do {
     (n, buf) \<leftarrow> bit_string self;
     byteSize \<leftarrow> getBitStringByteSize self;
     buf \<leftarrow> memcpy buf (replicate byteSize 0xff) byteSize;
     let padding = byteSize * 8 - n;
     let paddingMask = NOT (fold (\<lambda>i mask. mask + push_bit i 1) [0..<padding] (0 :: byte));
     b \<leftarrow> rd buf (int byteSize - 1);
     buf \<leftarrow> wr buf (int byteSize - 1) (b AND paddingMask);
     Some (set_union self (V_bitString n buf))
   }"

definition MmsValue_getBitStringSize :: "MmsValue \<Rightarrow> nat option" where
  "MmsValue_getBitStringSize self = map_option fst (bit_string self)"

text \<open>The inner loop of \<open>MmsValue_getNumberOfSetBits\<close>: the bits of one octet.\<close>

function count_byte :: "byte \<Rightarrow> nat" where
  "count_byte currentByte =
     (if currentByte \<noteq> 0
      then (if currentByte AND 1 = 1 then 1 else 0) + count_byte (drop_bit 1 currentByte)
      else 0)"
  by pat_completeness auto
termination
proof (relation "measure unat")
  show "wf (measure (unat :: byte \<Rightarrow> nat))" by simp
next
  fix b :: byte
  assume "b \<noteq> 0"
  then have "0 < unat b" by (simp add: unat_gt_0)
  then show "(drop_bit 1 b, b) \<in> measure unat"
    by (simp add: drop_bit_eq_div unat_div)
qed

declare count_byte.simps [simp del]

definition MmsValue_getNumberOfSetBits :: "MmsValue \<Rightarrow> nat option" where
  "MmsValue_getNumberOfSetBits self = do {
     (n, buf) \<leftarrow> bit_string self;
     byteSize \<leftarrow> getBitStringByteSize self;
     bytes \<leftarrow> rd_n buf byteSize;
     Some (sum_list (map count_byte bytes))
   }"

text \<open>\<open>1 << bitPosInByte\<close>, stored into or compared with an octet; \<open>bitPos % 8\<close> is C's
  remainder.\<close>

definition bit_mask :: "int \<Rightarrow> i32" where
  "bit_mask bitPos = push_bit (nat (7 - bitPos smod 8)) 1"

definition MmsValue_setBitStringBit :: "MmsValue \<Rightarrow> int \<Rightarrow> bool \<Rightarrow> MmsValue option" where
  "MmsValue_setBitStringBit self bitPos v = do {
     (n, buf) \<leftarrow> bit_string self;
     if bitPos < int n then do {
       let bytePos = bitPos sdiv 8;
       b \<leftarrow> rd buf bytePos;
       buf \<leftarrow> wr buf bytePos
         (if v then b OR ucast (bit_mask bitPos) else b AND ucast (NOT (bit_mask bitPos)));
       Some (set_union self (V_bitString n buf))
     }
     else Some self
   }"

definition MmsValue_getBitStringBit :: "MmsValue \<Rightarrow> int \<Rightarrow> bool option" where
  "MmsValue_getBitStringBit self bitPos = do {
     (n, buf) \<leftarrow> bit_string self;
     if bitPos < int n then do {
       b \<leftarrow> rd buf (bitPos sdiv 8);
       Some (ucast b AND bit_mask bitPos \<noteq> 0)
     }
     else Some False
   }"

text \<open>\<open>1 << bitPos\<close> is defined for \<open>int\<close> only below bit 31.\<close>

fun getBitStringAsInteger_loop :: "MmsValue \<Rightarrow> nat list \<Rightarrow> u32 \<Rightarrow> u32 option" where
  "getBitStringAsInteger_loop self [] acc = Some acc"
| "getBitStringAsInteger_loop self (bitPos # rest) acc = do {
     b \<leftarrow> MmsValue_getBitStringBit self (int bitPos);
     if b then
       (if bitPos < 31 then getBitStringAsInteger_loop self rest (acc + push_bit bitPos 1) else None)
     else getBitStringAsInteger_loop self rest acc
   }"

definition MmsValue_getBitStringAsInteger :: "MmsValue \<Rightarrow> u32 option" where
  "MmsValue_getBitStringAsInteger self = do {
     (n, _) \<leftarrow> bit_string self;
     getBitStringAsInteger_loop self [0..<n] 0
   }"

fun setBitStringFromInteger_loop :: "nat list \<Rightarrow> u32 \<Rightarrow> MmsValue \<Rightarrow> MmsValue option" where
  "setBitStringFromInteger_loop [] intValue self = Some self"
| "setBitStringFromInteger_loop (bitPos # rest) intValue self = do {
     self \<leftarrow> MmsValue_setBitStringBit self (int bitPos) (intValue AND 1 = 1);
     setBitStringFromInteger_loop rest (drop_bit 1 intValue) self
   }"

definition MmsValue_setBitStringFromInteger :: "MmsValue \<Rightarrow> u32 \<Rightarrow> MmsValue option" where
  "MmsValue_setBitStringFromInteger self intValue = do {
     (n, _) \<leftarrow> bit_string self;
     setBitStringFromInteger_loop [0..<n] intValue self
   }"


section \<open>Floats\<close>

definition MmsValue_newFloat :: "byte \<Rightarrow> u32 \<Rightarrow> MmsValue" where
  "MmsValue_newFloat junk variable = MmsValue junk (V_floatingPoint 8 32 (le_bytes variable))"

definition MmsValue_setFloat :: "(u32 \<Rightarrow> u64) \<Rightarrow> MmsValue \<Rightarrow> u32 \<Rightarrow> MmsValue option" where
  "MmsValue_setFloat widen self newFloatValue =
     (case mv_value self of
        V_floatingPoint e w buf \<Rightarrow>
          if w = 32 then do {
            buf \<leftarrow> memcpy buf (le_bytes newFloatValue) 4;
            Some (set_union self (V_floatingPoint e w buf))
          }
          else if w = 64 then do {
            buf \<leftarrow> memcpy buf (le_bytes (widen newFloatValue)) 8;
            Some (set_union self (V_floatingPoint e w buf))
          }
          else Some self
      | _ \<Rightarrow> Some self)"

definition MmsValue_setDouble :: "(u64 \<Rightarrow> u32) \<Rightarrow> MmsValue \<Rightarrow> u64 \<Rightarrow> MmsValue option" where
  "MmsValue_setDouble narrow self newFloatValue =
     (case mv_value self of
        V_floatingPoint e w buf \<Rightarrow>
          if w = 32 then do {
            buf \<leftarrow> memcpy buf (le_bytes (narrow newFloatValue)) 4;
            Some (set_union self (V_floatingPoint e w buf))
          }
          else if w = 64 then do {
            buf \<leftarrow> memcpy buf (le_bytes newFloatValue) 8;
            Some (set_union self (V_floatingPoint e w buf))
          }
          else Some self
      | _ \<Rightarrow> Some self)"

definition MmsValue_newDouble :: "u64 \<Rightarrow> MmsValue" where
  "MmsValue_newDouble variable = MmsValue 0 (V_floatingPoint 11 64 (le_bytes variable))"

definition MmsValue_toFloat :: "(u64 \<Rightarrow> u32) \<Rightarrow> MmsValue \<Rightarrow> u32 option" where
  "MmsValue_toFloat narrow self =
     (case mv_value self of
        V_floatingPoint _ w buf \<Rightarrow>
          if w = 32 then map_option le_word (rd_n buf 4)
          else if w = 64 then map_option (\<lambda>bs. narrow (le_word bs)) (rd_n buf 8)
          else Some 0
      | _ \<Rightarrow> Some 0)"

definition MmsValue_toDouble :: "(u32 \<Rightarrow> u64) \<Rightarrow> MmsValue \<Rightarrow> u64 option" where
  "MmsValue_toDouble widen self =
     (case mv_value self of
        V_floatingPoint _ w buf \<Rightarrow>
          if w = 32 then map_option (\<lambda>bs. widen (le_word bs)) (rd_n buf 4)
          else if w = 64 then map_option le_word (rd_n buf 8)
          else Some 0
      | _ \<Rightarrow> Some 0)"


section \<open>Integers and booleans\<close>

definition MmsValue_newIntegerFromBerInteger :: "Asn1PrimitiveValue \<Rightarrow> MmsValue" where
  "MmsValue_newIntegerFromBerInteger berInteger = MmsValue 0 (V_integer berInteger)"

definition MmsValue_newUnsignedFromBerInteger :: "Asn1PrimitiveValue \<Rightarrow> MmsValue" where
  "MmsValue_newUnsignedFromBerInteger berInteger = MmsValue 0 (V_unsigned berInteger)"

definition MmsValue_newIntegerFromInt8 :: "byte \<Rightarrow> MmsValue option" where
  "MmsValue_newIntegerFromInt8 integer = do {
     a \<leftarrow> BerInteger_createFromInt32 (scast integer);
     Some (MmsValue 0 (V_integer a))
   }"

definition MmsValue_newIntegerFromInt16 :: "u16 \<Rightarrow> MmsValue option" where
  "MmsValue_newIntegerFromInt16 integer = do {
     a \<leftarrow> BerInteger_createFromInt32 (scast integer);
     Some (MmsValue 0 (V_integer a))
   }"

definition MmsValue_newIntegerFromInt32 :: "i32 \<Rightarrow> MmsValue option" where
  "MmsValue_newIntegerFromInt32 integer = do {
     a \<leftarrow> BerInteger_createFromInt32 integer;
     Some (MmsValue 0 (V_integer a))
   }"

definition MmsValue_newUnsignedFromUint32 :: "u32 \<Rightarrow> MmsValue option" where
  "MmsValue_newUnsignedFromUint32 integer = do {
     a \<leftarrow> BerInteger_createFromUint32 integer;
     Some (MmsValue 0 (V_unsigned a))
   }"

definition MmsValue_newIntegerFromInt64 :: "i64 \<Rightarrow> MmsValue option" where
  "MmsValue_newIntegerFromInt64 integer = do {
     a \<leftarrow> BerInteger_createFromInt64 integer;
     Some (MmsValue 0 (V_integer a))
   }"

definition MmsValue_newInteger :: "int \<Rightarrow> MmsValue" where
  "MmsValue_newInteger bits =
     MmsValue 0 (V_integer (if bits \<le> 32 then BerInteger_createInt32 else BerInteger_createInt64))"

definition MmsValue_newUnsigned :: "int \<Rightarrow> MmsValue" where
  "MmsValue_newUnsigned bits =
     MmsValue 0 (V_unsigned (if bits \<le> 32 then BerInteger_createInt32 else BerInteger_createInt64))"

definition MmsValue_setInt8 :: "MmsValue \<Rightarrow> byte \<Rightarrow> MmsValue option" where
  "MmsValue_setInt8 self integer =
     (case mv_value self of
        V_integer a \<Rightarrow>
          if Asn1PrimitiveValue_getMaxSize a \<ge> 1 then do {
            (_, a) \<leftarrow> BerInteger_setInt32 a (scast integer);
            Some (set_union self (V_integer a))
          }
          else Some self
      | _ \<Rightarrow> Some self)"

definition MmsValue_setInt16 :: "MmsValue \<Rightarrow> u16 \<Rightarrow> MmsValue option" where
  "MmsValue_setInt16 self integer =
     (case mv_value self of
        V_integer a \<Rightarrow>
          if Asn1PrimitiveValue_getMaxSize a \<ge> 1 then do {
            (_, a) \<leftarrow> BerInteger_setInt32 a (scast integer);
            Some (set_union self (V_integer a))
          }
          else Some self
      | _ \<Rightarrow> Some self)"

definition MmsValue_setInt32 :: "MmsValue \<Rightarrow> i32 \<Rightarrow> MmsValue option" where
  "MmsValue_setInt32 self integer =
     (case mv_value self of
        V_integer a \<Rightarrow>
          if Asn1PrimitiveValue_getMaxSize a \<ge> 4 then do {
            (_, a) \<leftarrow> BerInteger_setInt32 a integer;
            Some (set_union self (V_integer a))
          }
          else Some self
      | _ \<Rightarrow> Some self)"

definition MmsValue_setInt64 :: "MmsValue \<Rightarrow> i64 \<Rightarrow> MmsValue option" where
  "MmsValue_setInt64 self integer =
     (case mv_value self of
        V_integer a \<Rightarrow>
          if Asn1PrimitiveValue_getMaxSize a \<ge> 8 then do {
            (_, a) \<leftarrow> BerInteger_setInt64 a integer;
            Some (set_union self (V_integer a))
          }
          else Some self
      | _ \<Rightarrow> Some self)"

definition MmsValue_setUint32 :: "MmsValue \<Rightarrow> u32 \<Rightarrow> MmsValue option" where
  "MmsValue_setUint32 self integer =
     (case mv_value self of
        V_unsigned a \<Rightarrow>
          if Asn1PrimitiveValue_getMaxSize a \<ge> 4 then do {
            (_, a) \<leftarrow> BerInteger_setUint32 a integer;
            Some (set_union self (V_unsigned a))
          }
          else Some self
      | _ \<Rightarrow> Some self)"

definition MmsValue_setUint16 :: "MmsValue \<Rightarrow> u16 \<Rightarrow> MmsValue option" where
  "MmsValue_setUint16 self integer =
     (case mv_value self of
        V_unsigned a \<Rightarrow>
          if Asn1PrimitiveValue_getMaxSize a \<ge> 2 then do {
            (_, a) \<leftarrow> BerInteger_setUint16 a integer;
            Some (set_union self (V_unsigned a))
          }
          else Some self
      | _ \<Rightarrow> Some self)"

definition MmsValue_setUint8 :: "MmsValue \<Rightarrow> byte \<Rightarrow> MmsValue option" where
  "MmsValue_setUint8 self integer =
     (case mv_value self of
        V_unsigned a \<Rightarrow>
          if Asn1PrimitiveValue_getMaxSize a \<ge> 1 then do {
            (_, a) \<leftarrow> BerInteger_setUint8 a integer;
            Some (set_union self (V_unsigned a))
          }
          else Some self
      | _ \<Rightarrow> Some self)"

definition ber_integer :: "MmsValue \<Rightarrow> Asn1PrimitiveValue option" where
  "ber_integer self =
     (case mv_value self of V_integer a \<Rightarrow> Some a | V_unsigned a \<Rightarrow> Some a | _ \<Rightarrow> None)"

text \<open>The converters return 0 for another type and for an integer that does not fit.\<close>

definition MmsValue_toInt32 :: "MmsValue \<Rightarrow> i32 option" where
  "MmsValue_toInt32 self =
     (case ber_integer self of
        Some a \<Rightarrow> map_option (\<lambda>r. case r of Some v \<Rightarrow> v | None \<Rightarrow> 0) (BerInteger_toInt32 a)
      | None \<Rightarrow> Some 0)"

definition MmsValue_toUint32 :: "MmsValue \<Rightarrow> u32 option" where
  "MmsValue_toUint32 self =
     (case ber_integer self of
        Some a \<Rightarrow> map_option (\<lambda>r. case r of Some v \<Rightarrow> v | None \<Rightarrow> 0) (BerInteger_toUint32 a)
      | None \<Rightarrow> Some 0)"

definition MmsValue_toInt64 :: "MmsValue \<Rightarrow> i64 option" where
  "MmsValue_toInt64 self =
     (case ber_integer self of
        Some a \<Rightarrow> map_option (\<lambda>r. case r of Some v \<Rightarrow> v | None \<Rightarrow> 0) (BerInteger_toInt64 a)
      | None \<Rightarrow> Some 0)"

definition MmsValue_newBoolean :: "bool \<Rightarrow> MmsValue" where
  "MmsValue_newBoolean boolean = MmsValue 0 (V_boolean boolean)"

definition MmsValue_setBoolean :: "MmsValue \<Rightarrow> bool \<Rightarrow> MmsValue option" where
  "MmsValue_setBoolean self boolValue =
     (case mv_value self of V_boolean _ \<Rightarrow> Some (set_union self (V_boolean boolValue)) | _ \<Rightarrow> None)"

definition MmsValue_getBoolean :: "MmsValue \<Rightarrow> bool option" where
  "MmsValue_getBoolean self = (case mv_value self of V_boolean b \<Rightarrow> Some b | _ \<Rightarrow> None)"


section \<open>UTC time\<close>

definition utc_time :: "MmsValue \<Rightarrow> byte list option" where
  "utc_time self = (case mv_value self of V_utcTime t \<Rightarrow> Some t | _ \<Rightarrow> None)"

definition MmsValue_setUtcTime :: "MmsValue \<Rightarrow> u32 \<Rightarrow> MmsValue option" where
  "MmsValue_setUtcTime self timeval = do {
     valueArray \<leftarrow> utc_time self;
     valueArray \<leftarrow> memcpyReverseByteOrder valueArray (le_bytes timeval) 4;
     Some (set_union self (V_utcTime valueArray))
   }"

definition MmsValue_setUtcTimeMs :: "MmsValue \<Rightarrow> u64 \<Rightarrow> MmsValue option" where
  "MmsValue_setUtcTimeMs self timeval = do {
     valueArray \<leftarrow> utc_time self;
     let timeval32 = (ucast (timeval div 1000) :: u32);
     valueArray \<leftarrow> memcpyReverseByteOrder valueArray (le_bytes timeval32) 4;
     let remainder = (ucast (timeval mod 1000) :: u32);
     let fractionOfSecond = remainder * 16777 + (remainder * 216) div 1000;
     valueArray \<leftarrow> wr valueArray 4 (ucast (drop_bit 16 fractionOfSecond AND 0xff));
     valueArray \<leftarrow> wr valueArray 5 (ucast (drop_bit 8 fractionOfSecond AND 0xff));
     valueArray \<leftarrow> wr valueArray 6 (ucast (fractionOfSecond AND 0xff));
     valueArray \<leftarrow> wr valueArray 7 0x0a;
     Some (set_union self (V_utcTime valueArray))
   }"

definition MmsValue_setUtcTimeQuality :: "MmsValue \<Rightarrow> byte \<Rightarrow> MmsValue option" where
  "MmsValue_setUtcTimeQuality self timeQuality = do {
     valueArray \<leftarrow> utc_time self;
     valueArray \<leftarrow> wr valueArray 7 timeQuality;
     Some (set_union self (V_utcTime valueArray))
   }"

definition MmsValue_getUtcTimeQuality :: "MmsValue \<Rightarrow> byte option" where
  "MmsValue_getUtcTimeQuality self = do {
     valueArray \<leftarrow> utc_time self;
     rd valueArray 7
   }"

definition MmsValue_setUtcTimeByBuffer :: "MmsValue \<Rightarrow> byte list \<Rightarrow> MmsValue option" where
  "MmsValue_setUtcTimeByBuffer self buffer = do {
     valueArray \<leftarrow> utc_time self;
     valueArray \<leftarrow> memcpy valueArray buffer 8;
     Some (set_union self (V_utcTime valueArray))
   }"

definition MmsValue_getUtcTimeInMs :: "MmsValue \<Rightarrow> u64 option" where
  "MmsValue_getUtcTimeInMs self = do {
     valueArray \<leftarrow> utc_time self;
     t \<leftarrow> memcpyReverseByteOrder (replicate 4 0) valueArray 4;
     let timeval32 = (le_word t :: u32);
     b4 \<leftarrow> rd valueArray 4;
     b5 \<leftarrow> rd valueArray 5;
     b6 \<leftarrow> rd valueArray 6;
     let fractionOfSecond = (push_bit 16 (ucast b4) + push_bit 8 (ucast b5) + ucast b6 :: u32);
     let remainder = fractionOfSecond div 16777;
     Some (ucast timeval32 * 1000 + ucast remainder)
   }"

definition MmsValue_toUnixTimestamp :: "MmsValue \<Rightarrow> u32 option" where
  "MmsValue_toUnixTimestamp self = do {
     utcTime \<leftarrow> utc_time self;
     b0 \<leftarrow> rd utcTime 0;
     b1 \<leftarrow> rd utcTime 1;
     b2 \<leftarrow> rd utcTime 2;
     b3 \<leftarrow> rd utcTime 3;
     Some (le_word [b3, b2, b1, b0])
   }"

definition MmsValue_newUtcTime :: "u32 \<Rightarrow> MmsValue" where
  "MmsValue_newUtcTime timeval = MmsValue 0 (V_utcTime (rev (le_bytes timeval) @ replicate 4 0))"

definition MmsValue_newUtcTimeByMsTime :: "u64 \<Rightarrow> MmsValue option" where
  "MmsValue_newUtcTimeByMsTime timeval =
     MmsValue_setUtcTimeMs (MmsValue 0 (V_utcTime (replicate 8 0))) timeval"


section \<open>Octet strings\<close>

definition MmsValue_newOctetString :: "nat \<Rightarrow> nat \<Rightarrow> MmsValue" where
  "MmsValue_newOctetString n maxSize =
     MmsValue 0 (V_octetString (n mod 65536) (maxSize mod 65536) (replicate maxSize 0))"

definition octet_string :: "MmsValue \<Rightarrow> (nat \<times> nat \<times> byte list) option" where
  "octet_string self =
     (case mv_value self of V_octetString n m buf \<Rightarrow> Some (n, m, buf) | _ \<Rightarrow> None)"

text \<open>\<open>size\<close> is an \<open>int\<close>, converted to \<open>size_t\<close> for \<open>memcpy\<close>: no array holds as many octets as
  a negative one asks for.\<close>

definition MmsValue_setOctetString :: "MmsValue \<Rightarrow> byte list \<Rightarrow> int \<Rightarrow> MmsValue option" where
  "MmsValue_setOctetString self buf n = do {
     (old, maxSize, dst) \<leftarrow> octet_string self;
     if n \<le> int maxSize then
       (if n < 0 then None
        else do {
          dst \<leftarrow> memcpy dst buf (nat n);
          Some (set_union self (V_octetString (nat n) maxSize dst))
        })
     else Some self
   }"

definition MmsValue_getOctetStringSize :: "MmsValue \<Rightarrow> nat option" where
  "MmsValue_getOctetStringSize self = map_option fst (octet_string self)"

definition MmsValue_getOctetStringMaxSize :: "MmsValue \<Rightarrow> nat option" where
  "MmsValue_getOctetStringMaxSize self = map_option (fst \<circ> snd) (octet_string self)"

definition MmsValue_getOctetStringBuffer :: "MmsValue \<Rightarrow> byte list option" where
  "MmsValue_getOctetStringBuffer self = map_option (snd \<circ> snd) (octet_string self)"


section \<open>Binary time\<close>

definition MmsValue_newBinaryTime :: "bool \<Rightarrow> MmsValue" where
  "MmsValue_newBinaryTime timeOfDay =
     MmsValue 0 (V_binaryTime (if timeOfDay then 4 else 6) (replicate 6 0))"

definition MmsValue_setBinaryTime :: "MmsValue \<Rightarrow> u64 \<Rightarrow> MmsValue option" where
  "MmsValue_setBinaryTime self timestamp =
     (case mv_value self of
        V_binaryTime n buf \<Rightarrow> do {
          let mmsTime = timestamp - 441763200000;
          let daysDiff = (ucast (mmsTime div 86400000) :: u16);
          buf \<leftarrow> (if n = 6 then wr buf 4 (le_bytes daysDiff ! 1) else Some buf);
          buf \<leftarrow> (if n = 6 then wr buf 5 (le_bytes daysDiff ! 0) else Some buf);
          let msSinceMidnight = (ucast (mmsTime mod 86400000) :: u32);
          buf \<leftarrow> wr buf 0 (le_bytes msSinceMidnight ! 3);
          buf \<leftarrow> wr buf 1 (le_bytes msSinceMidnight ! 2);
          buf \<leftarrow> wr buf 2 (le_bytes msSinceMidnight ! 1);
          buf \<leftarrow> wr buf 3 (le_bytes msSinceMidnight ! 0);
          Some (set_union self (V_binaryTime n buf))
        }
      | _ \<Rightarrow> None)"

definition MmsValue_getBinaryTimeAsUtcMs :: "MmsValue \<Rightarrow> u64 option" where
  "MmsValue_getBinaryTimeAsUtcMs self =
     (case mv_value self of
        V_binaryTime n buf \<Rightarrow> do {
          timestamp \<leftarrow>
            (if n = 6 then do {
               b4 \<leftarrow> rd buf 4;
               b5 \<leftarrow> rd buf 5;
               let daysDiff = (ucast b4 * 256 + ucast b5 :: u16);
               Some (ucast daysDiff * 86400000 + 441763200000)
             }
             else Some (0 :: u64));
          b0 \<leftarrow> rd buf 0;
          b1 \<leftarrow> rd buf 1;
          b2 \<leftarrow> rd buf 2;
          b3 \<leftarrow> rd buf 3;
          let msSinceMidnight =
            (push_bit 24 (ucast b0) + push_bit 16 (ucast b1) + push_bit 8 (ucast b2) + ucast b3 :: u32);
          Some (timestamp + ucast msSinceMidnight)
        }
      | _ \<Rightarrow> None)"


section \<open>Data access errors and character strings\<close>

definition MmsValue_newDataAccessError :: "int \<Rightarrow> MmsValue" where
  "MmsValue_newDataAccessError accessError = MmsValue 0 (V_dataAccessError accessError)"

definition MmsValue_getDataAccessError :: "MmsValue \<Rightarrow> int option" where
  "MmsValue_getDataAccessError self =
     (case mv_value self of V_dataAccessError e \<Rightarrow> Some e | _ \<Rightarrow> None)"

text \<open>\<open>copyString\<close> duplicates a string and \<open>createStringFromBuffer\<close> makes one of an array, whose
  characters end at the first 0.\<close>

definition copyString :: "cstring \<Rightarrow> cstring" where
  "copyString string = string"

definition createStringFromBuffer :: "byte list \<Rightarrow> nat \<Rightarrow> cstring option" where
  "createStringFromBuffer buf n = map_option (takeWhile (\<lambda>c. c \<noteq> 0)) (rd_n buf n)"

definition setVisibleStringValue :: "MmsValue \<Rightarrow> cstring option \<Rightarrow> MmsValue" where
  "setVisibleStringValue self string = set_union self (V_visibleString (map_option copyString string))"

definition MmsValue_newVisibleString :: "cstring option \<Rightarrow> MmsValue" where
  "MmsValue_newVisibleString string = setVisibleStringValue (MmsValue 0 (V_visibleString None)) string"

definition setMmsStringValue :: "MmsValue \<Rightarrow> cstring option \<Rightarrow> MmsValue" where
  "setMmsStringValue self string = set_union self (V_mmsString (map_option copyString string))"

definition MmsValue_newMmsString :: "cstring option \<Rightarrow> MmsValue" where
  "MmsValue_newMmsString string = setMmsStringValue (MmsValue 0 (V_mmsString None)) string"

definition MmsValue_setMmsString :: "MmsValue \<Rightarrow> cstring option \<Rightarrow> MmsValue" where
  "MmsValue_setMmsString self string =
     (if MmsValue_getType self = MMS_STRING then setMmsStringValue self string else self)"

definition MmsValue_newVisibleStringFromByteArray :: "byte list \<Rightarrow> nat \<Rightarrow> MmsValue option" where
  "MmsValue_newVisibleStringFromByteArray byteArray n =
     map_option (\<lambda>s. MmsValue 0 (V_visibleString (Some s))) (createStringFromBuffer byteArray n)"

definition MmsValue_setVisibleString :: "MmsValue \<Rightarrow> cstring option \<Rightarrow> MmsValue" where
  "MmsValue_setVisibleString self string =
     (if MmsValue_getType self = MMS_VISIBLE_STRING then setVisibleStringValue self string else self)"

definition MmsValue_toString :: "MmsValue \<Rightarrow> cstring option" where
  "MmsValue_toString self =
     (case mv_value self of V_visibleString s \<Rightarrow> s | V_mmsString s \<Rightarrow> s | _ \<Rightarrow> None)"


section \<open>Memory images\<close>

lemma memcpyReverseByteOrder_eq:
  assumes "n \<le> length src" and "n \<le> length dst"
  shows "memcpyReverseByteOrder dst src n = Some (rev (take n src) @ drop n dst)"
proof -
  have "map (\<lambda>i. src ! (n - i - 1)) [0..<n] = rev (take n src)"
    using assms by (intro nth_equalityI) (simp_all add: rev_nth)
  with assms show ?thesis by (simp add: memcpyReverseByteOrder_def)
qed

lemma le_word_le_bytes [simp]:
  assumes "8 dvd LENGTH('a)"
  shows "le_word (le_bytes (v :: 'a::len word)) = v"
  using assms by (simp add: le_word_def be_nat_rev_le_bytes)

lemma le_bytes_le_word:
  assumes "8 * length bs = LENGTH('a)"
  shows "le_bytes (le_word bs :: 'a::len word) = bs"
proof -
  have len: "8 dvd LENGTH('a)" "length (le_bytes (le_word bs :: 'a word)) = length bs"
    by (simp_all flip: assms)
  have "be_nat (rev bs) < 2 ^ LENGTH('a)"
    using be_nat_bound [of "rev bs"] by (simp add: power_mult flip: assms)
  then have "be_nat (rev (le_bytes (le_word bs :: 'a word))) = be_nat (rev bs)"
    using len(1) by (simp add: be_nat_rev_le_bytes le_word_def unat_of_nat)
  from be_nat_inj [OF _ this] len(2) show ?thesis by simp
qed

lemma list_8_exists: "length xs = 8 \<Longrightarrow> \<exists>a b c d e f g h. xs = [a, b, c, d, e, f, g, h]"
  by (auto simp: length_Suc_conv eval_nat_numeral)

lemma list_6_exists: "length xs = 6 \<Longrightarrow> \<exists>a b c d e f. xs = [a, b, c, d, e, f]"
  by (auto simp: length_Suc_conv eval_nat_numeral)

text \<open>The shifts and sums that reassemble an integer from its octets.\<close>

lemma ucast_low_byte: "(ucast (w AND 0xff) :: byte) = ucast (w :: u32)"
proof -
  have ff: "(0xff :: u32) = mask 8" by (simp add: mask_eq_exp_minus_1)
  show ?thesis unfolding ff by (auto intro!: bit_word_eqI simp: bit_simps)
qed

lemma ucast_eq_of_nat: "(ucast (b :: 'b::len word) :: 'a::len word) = of_nat (unat b)"
  by simp

lemma be_nat_shifts:
  "push_bit 16 (ucast a) + push_bit 8 (ucast b) + ucast c = (of_nat (be_nat [a, b, c]) :: u32)"
  "push_bit 24 (ucast a) + push_bit 16 (ucast b) + push_bit 8 (ucast c) + ucast d =
     (of_nat (be_nat [a, b, c, d]) :: u32)"
  "ucast a * 256 + ucast b = (of_nat (be_nat [a, b]) :: u16)"
  by (simp_all add: ucast_eq_of_nat push_bit_eq_mult del: of_nat_unat)

lemma bytes_of_24_bits:
  fixes w :: u32
  assumes "unat w < 2 ^ 24"
  shows "push_bit 16 (ucast (ucast (drop_bit 16 w AND 0xff) :: byte)) +
           push_bit 8 (ucast (ucast (drop_bit 8 w AND 0xff) :: byte)) +
           ucast (ucast (w AND 0xff) :: byte) = w"
proof -
  have "be_nat [ucast (drop_bit 16 w), ucast (drop_bit 8 w), ucast w] = unat w"
    using be_nat_rev_le [of w 3] assms by (simp add: upt_rec)
  then show ?thesis
    unfolding ucast_low_byte be_nat_shifts by (simp only: of_nat_unat ucast_id)
qed


section \<open>Time stamps\<close>

text \<open>The 24-bit fraction written for \<open>r\<close> milliseconds reads back as \<open>r\<close>.\<close>

lemma fraction_of_second:
  fixes r :: u32
  assumes "unat r < 1000"
  defines "f \<equiv> r * 16777 + (r * 216) div 1000"
  shows "unat f < 2 ^ 24" and "f div 16777 = r"
proof -
  have m: "unat (r * 216) = unat r * 216" "unat (r * 16777) = unat r * 16777"
    using assms(1) by (subst unat_mult_lem [THEN iffD1]; simp)+
  have q: "unat ((r * 216) div 1000) = unat r * 216 div 1000"
    by (simp add: unat_div m)
  have f: "unat f = unat r * 16777 + unat r * 216 div 1000"
    unfolding f_def using assms(1)
    by (subst unat_add_lem [THEN iffD1]) (simp_all add: m q)
  then show "unat f < 2 ^ 24" using assms(1) by simp
  have "unat (f div 16777) = unat r"
    using assms(1) by (simp add: unat_div f)
  then show "f div 16777 = r" by (simp add: word_unat_eq_iff)
qed

lemma utc_wf:
  "mms_wf v \<Longrightarrow> MmsValue_getType v = MMS_UTC_TIME \<Longrightarrow>
   \<exists>d bs. v = MmsValue d (V_utcTime bs) \<and> length bs = 8"
  by (cases v rule: mms_wf.cases) (auto simp: MmsValue_getType_def)

lemma setUtcTimeMs_octets:
  assumes "length bs = 8"
  defines "f \<equiv> \<lambda>t :: u64. ucast (t mod 1000) * 16777 + (ucast (t mod 1000) * 216) div 1000 :: u32"
  shows "MmsValue_setUtcTimeMs (MmsValue d (V_utcTime bs)) t =
    Some (MmsValue d (V_utcTime (rev (le_bytes (ucast (t div 1000) :: u32)) @
      [ucast (drop_bit 16 (f t) AND 0xff), ucast (drop_bit 8 (f t) AND 0xff),
       ucast (f t AND 0xff), 0x0a])))"
proof -
  obtain b0 b1 b2 b3 b4 b5 b6 b7 where bs: "bs = [b0, b1, b2, b3, b4, b5, b6, b7]"
    using list_8_exists [OF assms(1)] by blast
  show ?thesis
    by (simp add: MmsValue_setUtcTimeMs_def utc_time_def memcpyReverseByteOrder_eq bs wr_def
        set_union_def f_def Let_def list_update_append)
qed

lemma split_seconds:
  fixes t :: u64
  assumes "unat t < 2 ^ 32 * 1000"
  shows "unat (ucast (t div 1000) :: u32) = unat t div 1000"
    and "unat (ucast (t mod 1000) :: u32) = unat t mod 1000"
    and "ucast (ucast (t div 1000) :: u32) * 1000 + ucast (ucast (t mod 1000) :: u32) = t"
proof -
  show d: "unat (ucast (t div 1000) :: u32) = unat t div 1000"
    using assms by (simp add: unsigned_ucast_eq take_bit_eq_mod unat_div)
  show m: "unat (ucast (t mod 1000) :: u32) = unat t mod 1000"
    by (simp add: unsigned_ucast_eq take_bit_eq_mod unat_mod)
  have "ucast (ucast (t div 1000) :: u32) * 1000 + ucast (ucast (t mod 1000) :: u32) =
      (of_nat (unat t div 1000) * 1000 + of_nat (unat t mod 1000) :: u64)"
    using d m ucast_eq_of_nat [of "ucast (t div 1000) :: u32", where 'a = 64]
      ucast_eq_of_nat [of "ucast (t mod 1000) :: u32", where 'a = 64] by metis
  also have "\<dots> = of_nat (unat t div 1000 * 1000 + unat t mod 1000)"
    by (simp only: of_nat_add of_nat_mult of_nat_numeral)
  also have "\<dots> = t" by simp
  finally show "ucast (ucast (t div 1000) :: u32) * 1000 + ucast (ucast (t mod 1000) :: u32) = t" .
qed

lemma utc_octets_read:
  fixes t :: u64 and d :: byte
  assumes "unat t < 2 ^ 32 * 1000"
  defines "f \<equiv> ucast (t mod 1000) * 16777 + (ucast (t mod 1000) * 216) div 1000 :: u32"
  defines "v' \<equiv> MmsValue d (V_utcTime (rev (le_bytes (ucast (t div 1000) :: u32)) @
      [ucast (drop_bit 16 f AND 0xff), ucast (drop_bit 8 f AND 0xff), ucast (f AND 0xff), 0x0a]))"
  shows "mms_wf v'" and "MmsValue_getUtcTimeInMs v' = Some t"
    and "MmsValue_toUnixTimestamp v' = Some (of_nat (unat t div 1000))"
    and "MmsValue_getUtcTimeQuality v' = Some 0x0a"
proof -
  let ?s = "ucast (t div 1000) :: u32"
  note secs = split_seconds [OF assms(1)]
  have f: "unat f < 2 ^ 24" "f div 16777 = ucast (t mod 1000)"
    using fraction_of_second [of "ucast (t mod 1000)"] secs(2) by (simp_all add: f_def)
  obtain b0 b1 b2 b3 where le: "le_bytes ?s = [b0, b1, b2, b3]"
    using le_bytes_u32 by blast
  have s: "le_word [b0, b1, b2, b3] = ?s"
    using le_word_le_bytes [of ?s] by (simp add: le)
  show "mms_wf v'" by (simp add: v'_def)
  show "MmsValue_toUnixTimestamp v' = Some (of_nat (unat t div 1000))"
  proof -
    have "?s = of_nat (unat t div 1000)"
      using secs(1) by (metis of_nat_unat ucast_id)
    moreover have "MmsValue_toUnixTimestamp v' = Some (le_word [b0, b1, b2, b3])"
      by (simp add: v'_def MmsValue_toUnixTimestamp_def utc_time_def le rd_def)
    ultimately show ?thesis using s by simp
  qed
  show "MmsValue_getUtcTimeQuality v' = Some 0x0a"
    by (simp add: v'_def MmsValue_getUtcTimeQuality_def utc_time_def le rd_def)
  show "MmsValue_getUtcTimeInMs v' = Some t"
    using secs(3) f(2) bytes_of_24_bits [OF f(1)] s
    by (simp add: v'_def MmsValue_getUtcTimeInMs_def utc_time_def le rd_def Let_def
        memcpyReverseByteOrder_eq)
qed

text \<open>Storing a time stamp in milliseconds in a UTC time and reading it back returns the same
  number for every time whose seconds fit 32 bits; the seconds are what
  \<open>MmsValue_toUnixTimestamp\<close> reads and the time quality announces 10 bits of accuracy.\<close>

theorem utc_time_roundtrip:
  assumes "mms_wf v" and "MmsValue_getType v = MMS_UTC_TIME" and "unat t < 2 ^ 32 * 1000"
  shows "\<exists>v'. MmsValue_setUtcTimeMs v t = Some v' \<and> mms_wf v' \<and>
    MmsValue_getUtcTimeInMs v' = Some t \<and>
    MmsValue_toUnixTimestamp v' = Some (of_nat (unat t div 1000)) \<and>
    MmsValue_getUtcTimeQuality v' = Some 0x0a"
proof -
  obtain d bs where v: "v = MmsValue d (V_utcTime bs)" "length bs = 8"
    using utc_wf [OF assms(1,2)] by blast
  define v' where "v' = the (MmsValue_setUtcTimeMs v t)"
  have set: "MmsValue_setUtcTimeMs v t = Some v'"
    by (simp add: v'_def v setUtcTimeMs_octets)
  show ?thesis
    using set utc_octets_read [of t] assms(3)
    by (auto simp: v setUtcTimeMs_octets)
qed

theorem utc_time_roundtrip_witness:
  "\<exists>v'. MmsValue_setUtcTimeMs (MmsValue_newUtcTime 0) 1700000000123 = Some v' \<and> mms_wf v' \<and>
    MmsValue_getUtcTimeInMs v' = Some 1700000000123 \<and>
    MmsValue_toUnixTimestamp v' = Some (of_nat (unat (1700000000123 :: u64) div 1000)) \<and>
    MmsValue_getUtcTimeQuality v' = Some 0x0a"
  by (rule utc_time_roundtrip)
    (simp_all add: MmsValue_newUtcTime_def MmsValue_getType_def)

text \<open>What a binary time of six octets reads back: the day number is kept modulo \<open>2 ^ 16\<close>.\<close>

definition binary_time_ms :: "nat \<Rightarrow> nat" where
  "binary_time_ms m = 441763200000 + m div 86400000 mod 65536 * 86400000 + m mod 86400000"

lemma binary_time_set_get:
  fixes t :: u64 and d :: byte
  assumes "length bs = 6"
  shows "\<exists>v'. MmsValue_setBinaryTime (MmsValue d (V_binaryTime 6 bs)) t = Some v' \<and> mms_wf v' \<and>
    MmsValue_getBinaryTimeAsUtcMs v' = Some (of_nat (binary_time_ms (unat (t - 441763200000))))"
proof -
  define m where "m = t - 441763200000"
  define days where "days = (ucast (m div 86400000) :: u16)"
  define ms where "ms = (ucast (m mod 86400000) :: u32)"
  have unat_days: "unat days = unat m div 86400000 mod 65536"
    by (simp add: days_def unsigned_ucast_eq take_bit_eq_mod unat_div)
  have unat_ms: "unat ms = unat m mod 86400000"
    by (simp add: ms_def unsigned_ucast_eq take_bit_eq_mod unat_mod)
  obtain a0 a1 a2 a3 a4 a5 where bs: "bs = [a0, a1, a2, a3, a4, a5]"
    using list_6_exists [OF assms] by blast
  obtain b0 b1 b2 b3 where le: "le_bytes ms = [b0, b1, b2, b3]"
    using le_bytes_u32 by blast
  obtain c0 c1 where le_days: "le_bytes days = [c0, c1]"
    by (simp add: le_bytes_def upt_rec)
  let ?v = "MmsValue d (V_binaryTime 6 [b3, b2, b1, b0, c1, c0])"
  have set: "MmsValue_setBinaryTime (MmsValue d (V_binaryTime 6 bs)) t = Some ?v"
    by (simp add: MmsValue_setBinaryTime_def bs wr_def Let_def set_union_def
        flip: m_def days_def ms_def) (simp add: le le_days)
  have "of_nat (be_nat [c1, c0]) = days" "of_nat (be_nat [b3, b2, b1, b0]) = ms"
    using le_word_le_bytes [of days] le_word_le_bytes [of ms]
    by (simp_all add: le_word_def le le_days)
  then have "MmsValue_getBinaryTimeAsUtcMs ?v =
      Some (ucast days * 86400000 + 441763200000 + ucast ms)"
    by (simp add: MmsValue_getBinaryTimeAsUtcMs_def rd_def Let_def be_nat_shifts del: be_nat_Cons)
  also have "ucast days * 86400000 + 441763200000 + ucast ms =
      (of_nat (unat days * 86400000 + 441763200000 + unat ms) :: u64)"
    by (simp only: ucast_eq_of_nat of_nat_add of_nat_mult of_nat_numeral)
  also have "unat days * 86400000 + 441763200000 + unat ms = binary_time_ms (unat m)"
    by (simp add: binary_time_ms_def unat_days unat_ms)
  finally show ?thesis
    using set by (auto simp: m_def)
qed

lemma binary_time_ms_eq_iff:
  "binary_time_ms m = 441763200000 + m \<longleftrightarrow> m < 65536 * 86400000"
proof -
  define q r where "q = m div 86400000" and "r = m mod 86400000"
  then have m: "m = q * 86400000 + r" "r < 86400000"
    by simp_all
  have "q mod 65536 = q \<longleftrightarrow> q < 65536"
    by (metis mod_less mod_less_divisor zero_less_numeral)
  with m show ?thesis
    by (auto simp: binary_time_ms_def simp flip: q_def r_def)
qed

lemma binary_time_exact:
  fixes t :: u64
  shows "of_nat (binary_time_ms (unat (t - 441763200000))) = t \<longleftrightarrow>
    441763200000 \<le> unat t \<and> unat t < 441763200000 + 65536 * 86400000"
proof -
  let ?m = "unat (t - 441763200000)"
  have range: "441763200000 \<le> binary_time_ms ?m" "binary_time_ms ?m < 2 ^ 64"
  proof -
    have "?m div 86400000 mod 65536 < 65536" "?m mod 86400000 < 86400000" by simp_all
    then show "binary_time_ms ?m < 2 ^ 64" "441763200000 \<le> binary_time_ms ?m"
      by (simp_all add: binary_time_ms_def)
  qed
  have "unat (of_nat (binary_time_ms ?m) :: u64) = binary_time_ms ?m"
    using range(2) by (simp only: unat_of_nat) simp
  then have "of_nat (binary_time_ms ?m) = t \<longleftrightarrow> binary_time_ms ?m = unat t"
    by (metis of_nat_unat ucast_id)
  moreover have "441763200000 \<le> unat t \<Longrightarrow> ?m = unat t - 441763200000"
    by (subst unat_sub) (simp_all add: word_le_nat_alt)
  ultimately show ?thesis
    using range(1) binary_time_ms_eq_iff [of ?m] by (cases "441763200000 \<le> unat t") auto
qed

text \<open>A six-octet binary time holds a time stamp exactly when it lies in the 65536 days from
  1 January 1984: for these, and for no others, reading returns what was stored.\<close>

theorem binary_time_roundtrip_iff:
  assumes "mms_wf (MmsValue d (V_binaryTime 6 bs))"
  shows "\<exists>v'. MmsValue_setBinaryTime (MmsValue d (V_binaryTime 6 bs)) t = Some v' \<and> mms_wf v' \<and>
    (MmsValue_getBinaryTimeAsUtcMs v' = Some t \<longleftrightarrow>
       441763200000 \<le> unat t \<and> unat t < 441763200000 + 65536 * 86400000)"
  using binary_time_set_get [of bs d t] assms binary_time_exact [of t] by fastforce

theorem binary_time_roundtrip_iff_witness:
  "\<exists>v'. MmsValue_setBinaryTime (MmsValue_newBinaryTime False) 1700000000123 = Some v' \<and>
    mms_wf v' \<and>
    (MmsValue_getBinaryTimeAsUtcMs v' = Some 1700000000123 \<longleftrightarrow>
       441763200000 \<le> unat (1700000000123 :: u64) \<and>
       unat (1700000000123 :: u64) < 441763200000 + 65536 * 86400000)"
  using binary_time_roundtrip_iff [of 0 "replicate 6 0" 1700000000123]
  by (simp add: MmsValue_newBinaryTime_def)


section \<open>Bit strings as sets of positions\<close>

text \<open>Bit \<open>i\<close> of a bit string: the most significant bit of the first octet is bit 0.\<close>

definition mms_bit :: "byte list \<Rightarrow> nat \<Rightarrow> bool" where
  "mms_bit buf i \<longleftrightarrow> bit (buf ! (i div 8)) (7 - i mod 8)"

lemma sdiv_smod_8 [simp]: "int i sdiv 8 = int (i div 8)" "int i smod 8 = int (i mod 8)"
  by (cases "i = 0"; simp add: signed_divide_int_def signed_modulo_int_def zdiv_int zmod_int)+

lemma bit_mask_nat: "bit_mask (int i) = push_bit (7 - i mod 8) 1"
proof -
  have "nat (7 - int (i mod 8)) = 7 - i mod 8" by simp
  then show ?thesis by (simp only: bit_mask_def sdiv_smod_8)
qed

lemma test_bit_mask:
  fixes b :: byte
  assumes "k < 8"
  shows "ucast b AND (2 ^ k :: i32) \<noteq> 0 \<longleftrightarrow> bit b k"
  using assms by (simp add: and_exp_eq_0_iff_not_bit bit_simps)

lemma getBitStringBit_eq:
  assumes "length buf = bits_to_bytes n"
  shows "MmsValue_getBitStringBit (MmsValue d (V_bitString n buf)) (int i) =
    Some (i < n \<and> mms_bit buf i)"
proof (cases "i < n")
  case True
  then have "i div 8 < length buf" using assms bits_to_bytes_pos by simp
  with True show ?thesis
    by (simp add: MmsValue_getBitStringBit_def bit_string_def bit_mask_nat mms_bit_def rd_def
        test_bit_mask)
next
  case False
  then show ?thesis by (simp add: MmsValue_getBitStringBit_def bit_string_def)
qed

definition set_bit_buf :: "byte list \<Rightarrow> nat \<Rightarrow> bool \<Rightarrow> byte list" where
  "set_bit_buf buf i v = buf[i div 8 := (if v then set_bit (7 - i mod 8) (buf ! (i div 8))
                                          else unset_bit (7 - i mod 8) (buf ! (i div 8)))]"

lemma setBitStringBit_eq:
  assumes "length buf = bits_to_bytes n" and "i < n"
  shows "MmsValue_setBitStringBit (MmsValue d (V_bitString n buf)) (int i) v =
    Some (MmsValue d (V_bitString n (set_bit_buf buf i v)))"
proof -
  have len: "i div 8 < length buf" using assms bits_to_bytes_pos by simp
  have "b OR ucast (push_bit k 1 :: i32) = set_bit k b" "k < 8 \<Longrightarrow>
     b AND ucast (NOT (push_bit k 1 :: i32)) = unset_bit k b" for b :: byte and k
    by (auto intro!: bit_word_eqI simp: bit_simps)
  with len assms(2) show ?thesis
    by (simp add: MmsValue_setBitStringBit_def bit_string_def bit_mask_nat rd_def wr_def
        set_union_def set_bit_buf_def)
qed

lemma length_set_bit_buf [simp]: "length (set_bit_buf buf i v) = length buf"
  by (simp add: set_bit_buf_def)

lemma mms_bit_set:
  assumes "i div 8 < length buf"
  shows "mms_bit (set_bit_buf buf i v) j \<longleftrightarrow> (if j = i then v else mms_bit buf j)"
proof (cases "j div 8 = i div 8")
  case True
  then have "j = i \<longleftrightarrow> j mod 8 = i mod 8" by (metis div_mult_mod_eq)
  moreover have "i mod 8 < 8" "j mod 8 < 8" by simp_all
  then have "7 - i mod 8 = 7 - j mod 8 \<longleftrightarrow> j mod 8 = i mod 8" by linarith
  ultimately show ?thesis
    using True assms by (auto simp: mms_bit_def set_bit_buf_def bit_simps)
next
  case False
  then show ?thesis by (auto simp: mms_bit_def set_bit_buf_def)
qed

lemma and_1_eq_1_iff: "(x :: u32) AND 1 = 1 \<longleftrightarrow> bit x 0"
  by (simp add: and_one_eq bit_0 odd_iff_mod_2_eq_one)

lemma setBitStringFromInteger_loop_eq:
  assumes "length buf = bits_to_bytes n" and "k \<le> n"
  shows "\<exists>buf'. setBitStringFromInteger_loop [k..<n] x (MmsValue d (V_bitString n buf)) =
      Some (MmsValue d (V_bitString n buf')) \<and> length buf' = length buf \<and>
      (\<forall>j. mms_bit buf' j \<longleftrightarrow> (if k \<le> j \<and> j < n then bit x (j - k) else mms_bit buf j))"
  using assms
proof (induction "n - k" arbitrary: k x buf)
  case 0
  then show ?case by auto
next
  case (Suc m)
  then have k: "k < n" "m = n - Suc k" by simp_all
  let ?buf = "set_bit_buf buf k (bit x 0)"
  obtain buf' where buf': "setBitStringFromInteger_loop [Suc k..<n] (drop_bit 1 x)
        (MmsValue d (V_bitString n ?buf)) = Some (MmsValue d (V_bitString n buf'))"
      "length buf' = length ?buf"
      "\<And>j. mms_bit buf' j \<longleftrightarrow>
         (if Suc k \<le> j \<and> j < n then bit (drop_bit 1 x) (j - Suc k) else mms_bit ?buf j)"
    using Suc.hyps(1) [OF k(2), of ?buf "drop_bit 1 x"] Suc.prems k(1) by auto
  have room: "k div 8 < length buf"
    using bits_to_bytes_pos [OF k(1)] Suc.prems by simp
  have "setBitStringFromInteger_loop [k..<n] x (MmsValue d (V_bitString n buf)) =
      Some (MmsValue d (V_bitString n buf'))"
    using k(1) Suc.prems buf'(1)
    by (simp add: upt_conv_Cons and_1_eq_1_iff setBitStringBit_eq)
  moreover have "mms_bit buf' j \<longleftrightarrow> (if k \<le> j \<and> j < n then bit x (j - k) else mms_bit buf j)" for j
    using k(1) by (cases "j = k") (auto simp: buf'(3) mms_bit_set [OF room] bit_simps Suc_diff_Suc)
  ultimately show ?case using buf'(2) by auto
qed

lemma getBitStringAsInteger_loop_eq:
  assumes "length buf = bits_to_bytes n" and "k \<le> n" and "n \<le> 31"
    and "\<And>j. k \<le> j \<Longrightarrow> \<not> bit acc j"
  shows "\<exists>w. getBitStringAsInteger_loop (MmsValue d (V_bitString n buf)) [k..<n] acc = Some w \<and>
    (\<forall>j. bit w j \<longleftrightarrow> (if k \<le> j then j < n \<and> mms_bit buf j else bit acc j))"
  using assms(1,2,4)
proof (induction "n - k" arbitrary: k acc)
  case 0
  then show ?case by auto
next
  case (Suc m)
  then have k: "k < n" "m = n - Suc k" "k < 31" using assms(3) by simp_all
  let ?acc = "if mms_bit buf k then acc + push_bit k 1 else acc"
  have sum: "acc + push_bit k 1 = acc OR push_bit k 1"
    by (rule disjunctive_add) (use Suc.prems(3) in \<open>auto simp: bit_simps\<close>)
  have acc: "bit ?acc j \<longleftrightarrow> (if j = k then mms_bit buf k else bit acc j)" for j
    using k(3) Suc.prems(3) by (auto simp: sum bit_simps simp del: push_bit_of_1)
  obtain w where w: "getBitStringAsInteger_loop (MmsValue d (V_bitString n buf)) [Suc k..<n] ?acc =
        Some w"
      "\<And>j. bit w j \<longleftrightarrow> (if Suc k \<le> j then j < n \<and> mms_bit buf j else bit ?acc j)"
    using Suc.hyps(1) [OF k(2), of ?acc] Suc.prems k(1) acc by auto
  have "getBitStringAsInteger_loop (MmsValue d (V_bitString n buf)) [k..<n] acc = Some w"
    using k w(1) Suc.prems(1)
    by (simp add: upt_conv_Cons getBitStringBit_eq del: push_bit_of_1 split: if_splits)
  moreover have "bit w j \<longleftrightarrow> (if k \<le> j then j < n \<and> mms_bit buf j else bit acc j)" for j
    using k(1) by (cases "j = k") (auto simp: w(2) acc)
  ultimately show ?case by blast
qed

text \<open>A bit string of at most 31 bits holds any number of that many bits: writing an integer
  sets bit \<open>i\<close> of the string to bit \<open>i\<close> of the number, for every position, and reading
  the string as an integer returns the number truncated to the length of the string.\<close>

theorem bit_string_integer_roundtrip:
  assumes "mms_wf (MmsValue d (V_bitString n buf))" and "n \<le> 31"
  shows "\<exists>v'. MmsValue_setBitStringFromInteger (MmsValue d (V_bitString n buf)) x = Some v' \<and>
    mms_wf v' \<and>
    (\<forall>i. MmsValue_getBitStringBit v' (int i) = Some (i < n \<and> bit x i)) \<and>
    MmsValue_getBitStringAsInteger v' = Some (take_bit n x)"
proof -
  have buf: "length buf = bits_to_bytes n" using assms(1) by simp
  obtain buf' where s: "setBitStringFromInteger_loop [0..<n] x (MmsValue d (V_bitString n buf)) =
      Some (MmsValue d (V_bitString n buf'))" "length buf' = bits_to_bytes n"
      "\<And>j. mms_bit buf' j \<longleftrightarrow> (if j < n then bit x j else mms_bit buf j)"
    using setBitStringFromInteger_loop_eq [OF buf, of 0 x d] buf by auto
  obtain w where w: "getBitStringAsInteger_loop (MmsValue d (V_bitString n buf')) [0..<n] 0 = Some w"
      "\<And>j. bit w j \<longleftrightarrow> j < n \<and> mms_bit buf' j"
    using getBitStringAsInteger_loop_eq [OF s(2), of 0 0 d] assms(2) by auto
  have "w = take_bit n x"
    by (rule bit_word_eqI) (simp add: w(2) s(3) bit_simps)
  with s w show ?thesis
    by (auto simp: MmsValue_setBitStringFromInteger_def MmsValue_getBitStringAsInteger_def
        bit_string_def getBitStringBit_eq)
qed

theorem bit_string_integer_roundtrip_witness:
  "\<exists>v'. MmsValue_setBitStringFromInteger (MmsValue_newBitString 13) 0x1a55 = Some v' \<and>
    mms_wf v' \<and>
    (\<forall>i. MmsValue_getBitStringBit v' (int i) = Some (i < 13 \<and> bit (0x1a55 :: u32) i)) \<and>
    MmsValue_getBitStringAsInteger v' = Some (take_bit 13 0x1a55)"
  unfolding MmsValue_newBitString_def by (rule bit_string_integer_roundtrip) simp_all

end
