(* ===== verification/Mms_Value.thy ===== *)
theory Mms_Value
  imports Mms_Scalars
begin

text \<open>
  The operations of \<open>src/src/mms/iso_mms/common/mms_value.c\<close> that walk a whole value: comparison,
  update in place, deep copy, copy into a buffer, release and access to components. Each loop
  over components is a function on the component lists, mutually recursive with its caller.
\<close>

section \<open>Comparison\<close>

text \<open>The measures of the traversals: the size of a value, and of a list of components.\<close>

abbreviation components_size :: "MmsValue option list \<Rightarrow> nat" where
  "components_size \<equiv> size_list (size_option size)"

function MmsValue_equals :: "MmsValue \<Rightarrow> MmsValue \<Rightarrow> bool option"
  and equals_components :: "MmsValue option list \<Rightarrow> MmsValue option list \<Rightarrow> bool option"
where
  "MmsValue_equals (MmsValue _ u) (MmsValue _ u') =
     (case u of
        V_array cs \<Rightarrow>
          (case u' of
             V_array cs' \<Rightarrow> if length cs = length cs' then equals_components cs cs' else Some False
           | _ \<Rightarrow> Some False)
      | V_structure cs \<Rightarrow>
          (case u' of
             V_structure cs' \<Rightarrow> if length cs = length cs' then equals_components cs cs' else Some False
           | _ \<Rightarrow> Some False)
      | V_boolean b \<Rightarrow> (case u' of V_boolean b' \<Rightarrow> Some (b = b') | _ \<Rightarrow> Some False)
      | V_floatingPoint e w buf \<Rightarrow>
          (case u' of
             V_floatingPoint e' w' buf' \<Rightarrow> do {
               bs \<leftarrow> rd_n buf (unat w div 8);
               bs' \<leftarrow> rd_n buf' (unat w div 8);
               Some (bs = bs')
             }
           | _ \<Rightarrow> Some False)
      | V_integer a \<Rightarrow>
          (case u' of V_integer a' \<Rightarrow> Asn1PrimitivaValue_compare a a' | _ \<Rightarrow> Some False)
      | V_unsigned a \<Rightarrow>
          (case u' of V_unsigned a' \<Rightarrow> Asn1PrimitivaValue_compare a a' | _ \<Rightarrow> Some False)
      | V_utcTime t \<Rightarrow>
          (case u' of
             V_utcTime t' \<Rightarrow> do { bs \<leftarrow> rd_n t 8; bs' \<leftarrow> rd_n t' 8; Some (bs = bs') }
           | _ \<Rightarrow> Some False)
      | V_bitString n buf \<Rightarrow>
          (case u' of
             V_bitString n' buf' \<Rightarrow>
               if n = n' then do {
                 bs \<leftarrow> rd_n buf (bits_to_bytes n);
                 bs' \<leftarrow> rd_n buf' (bits_to_bytes n);
                 Some (bs = bs')
               }
               else Some False
           | _ \<Rightarrow> Some False)
      | V_binaryTime n buf \<Rightarrow>
          (case u' of
             V_binaryTime n' buf' \<Rightarrow>
               if n = n' then do { bs \<leftarrow> rd_n buf n; bs' \<leftarrow> rd_n buf' n; Some (bs = bs') }
               else Some False
           | _ \<Rightarrow> Some False)
      | V_octetString n m buf \<Rightarrow>
          (case u' of
             V_octetString n' m' buf' \<Rightarrow>
               if n = n' then do { bs \<leftarrow> rd_n buf n; bs' \<leftarrow> rd_n buf' n; Some (bs = bs') }
               else Some False
           | _ \<Rightarrow> Some False)
      | V_visibleString s \<Rightarrow> (case u' of V_visibleString s' \<Rightarrow> Some (s = s') | _ \<Rightarrow> Some False)
      | V_mmsString s \<Rightarrow> (case u' of V_mmsString s' \<Rightarrow> Some (s = s') | _ \<Rightarrow> Some False)
      | V_dataAccessError e \<Rightarrow>
          (case u' of V_dataAccessError e' \<Rightarrow> Some (e = e') | _ \<Rightarrow> Some False)
      | V_generalizedTime \<Rightarrow> Some False
      | V_bcd \<Rightarrow> Some False
      | V_objId \<Rightarrow> Some False)"
| "equals_components [] cs' = Some True"
| "equals_components (c # cs) [] = None"
| "equals_components (c # cs) (c' # cs') = do {
     v \<leftarrow> c;
     v' \<leftarrow> c';
     r \<leftarrow> MmsValue_equals v v';
     if r then equals_components cs cs' else Some False
   }"
  by pat_completeness auto
termination
  by (relation "measure (\<lambda>x. case x of Inl (v, v') \<Rightarrow> size v | Inr (cs, cs') \<Rightarrow> components_size cs)")
    auto

function MmsValue_equalTypes :: "MmsValue \<Rightarrow> MmsValue \<Rightarrow> bool option"
  and equalTypes_components :: "MmsValue option list \<Rightarrow> MmsValue option list \<Rightarrow> bool option"
where
  "MmsValue_equalTypes (MmsValue _ u) (MmsValue _ u') =
     (if union_type u = union_type u' then
        (case u of
           V_array cs \<Rightarrow>
             (case u' of
                V_array cs' \<Rightarrow>
                  if length cs = length cs' then equalTypes_components cs cs' else Some False
              | _ \<Rightarrow> Some False)
         | V_structure cs \<Rightarrow>
             (case u' of
                V_structure cs' \<Rightarrow>
                  if length cs = length cs' then equalTypes_components cs cs' else Some False
              | _ \<Rightarrow> Some False)
         | _ \<Rightarrow> Some True)
      else Some False)"
| "equalTypes_components [] cs' = Some True"
| "equalTypes_components (c # cs) [] = None"
| "equalTypes_components (c # cs) (c' # cs') = do {
     v \<leftarrow> c;
     v' \<leftarrow> c';
     r \<leftarrow> MmsValue_equalTypes v v';
     if r then equalTypes_components cs cs' else Some False
   }"
  by pat_completeness auto
termination
  by (relation "measure (\<lambda>x. case x of Inl (v, v') \<Rightarrow> size v | Inr (cs, cs') \<Rightarrow> components_size cs)")
    auto


section \<open>Update in place\<close>

text \<open>The result is the value C returns and the object \<open>self\<close> points to afterwards. The loop
  \<open>updateStructuredComponent\<close> runs over the components of \<open>self\<close> and drops the results.\<close>

function MmsValue_update :: "MmsValue \<Rightarrow> MmsValue \<Rightarrow> (bool \<times> MmsValue) option"
  and updateStructuredComponent ::
    "MmsValue option list \<Rightarrow> MmsValue option list \<Rightarrow> MmsValue option list option"
where
  "MmsValue_update (MmsValue d u) (MmsValue d' u') =
     (case u of
        V_structure cs \<Rightarrow>
          (case u' of
             V_structure cs' \<Rightarrow>
               map_option (\<lambda>r. (True, MmsValue d (V_structure r))) (updateStructuredComponent cs cs')
           | _ \<Rightarrow> Some (False, MmsValue d u))
      | V_array cs \<Rightarrow>
          (case u' of
             V_array cs' \<Rightarrow>
               map_option (\<lambda>r. (True, MmsValue d (V_array r))) (updateStructuredComponent cs cs')
           | _ \<Rightarrow> Some (False, MmsValue d u))
      | V_boolean b \<Rightarrow>
          (case u' of V_boolean b' \<Rightarrow> Some (True, MmsValue d (V_boolean b'))
           | _ \<Rightarrow> Some (False, MmsValue d u))
      | V_floatingPoint e w buf \<Rightarrow>
          (case u' of
             V_floatingPoint e' w' buf' \<Rightarrow>
               if w = w' then do {
                 buf \<leftarrow> memcpy buf buf' (unat w div 8);
                 Some (True, MmsValue d (V_floatingPoint e' w buf))
               }
               else Some (False, MmsValue d u)
           | _ \<Rightarrow> Some (False, MmsValue d u))
      | V_integer a \<Rightarrow>
          (case u' of
             V_integer a' \<Rightarrow> do {
               (r, a) \<leftarrow> BerInteger_setFromBerInteger a a';
               Some (r \<noteq> 0, MmsValue d (V_integer a))
             }
           | _ \<Rightarrow> Some (False, MmsValue d u))
      | V_unsigned a \<Rightarrow>
          (case u' of
             V_unsigned a' \<Rightarrow> do {
               (r, a) \<leftarrow> BerInteger_setFromBerInteger a a';
               Some (r \<noteq> 0, MmsValue d (V_unsigned a))
             }
           | _ \<Rightarrow> Some (False, MmsValue d u))
      | V_utcTime t \<Rightarrow>
          (case u' of
             V_utcTime t' \<Rightarrow> map_option (\<lambda>t. (True, MmsValue d (V_utcTime t))) (memcpy t t' 8)
           | _ \<Rightarrow> Some (False, MmsValue d u))
      | V_bitString n buf \<Rightarrow>
          (case u' of
             V_bitString n' buf' \<Rightarrow>
               if n = n' then
                 map_option (\<lambda>buf. (True, MmsValue d (V_bitString n buf)))
                   (memcpy buf buf' (bits_to_bytes n))
               else Some (False, MmsValue d u)
           | _ \<Rightarrow> Some (False, MmsValue d u))
      | V_octetString n m buf \<Rightarrow>
          (case u' of
             V_octetString n' m' buf' \<Rightarrow>
               if m = m' then
                 map_option (\<lambda>buf. (True, MmsValue d (V_octetString n' m buf))) (memcpy buf buf' n')
               else Some (False, MmsValue d u)
           | _ \<Rightarrow> Some (False, MmsValue d u))
      | V_visibleString s \<Rightarrow>
          (case u' of
             V_visibleString s' \<Rightarrow> Some (True, MmsValue_setVisibleString (MmsValue d u) s')
           | _ \<Rightarrow> Some (False, MmsValue d u))
      | V_mmsString s \<Rightarrow>
          (case u' of
             V_mmsString s' \<Rightarrow> Some (True, MmsValue_setMmsString (MmsValue d u) s')
           | _ \<Rightarrow> Some (False, MmsValue d u))
      | V_binaryTime n buf \<Rightarrow>
          (case u' of
             V_binaryTime n' buf' \<Rightarrow>
               map_option (\<lambda>buf. (True, MmsValue d (V_binaryTime n' buf))) (memcpy buf buf' n')
           | _ \<Rightarrow> Some (False, MmsValue d u))
      | V_dataAccessError e \<Rightarrow> Some (False, MmsValue d u)
      | V_generalizedTime \<Rightarrow> Some (False, MmsValue d u)
      | V_bcd \<Rightarrow> Some (False, MmsValue d u)
      | V_objId \<Rightarrow> Some (False, MmsValue d u))"
| "updateStructuredComponent [] cs' = Some []"
| "updateStructuredComponent (c # cs) [] = None"
| "updateStructuredComponent (c # cs) (c' # cs') = do {
     v \<leftarrow> c;
     v' \<leftarrow> c';
     (_, v) \<leftarrow> MmsValue_update v v';
     rest \<leftarrow> updateStructuredComponent cs cs';
     Some (Some v # rest)
   }"
  by pat_completeness auto
termination
  by (relation "measure (\<lambda>x. case x of Inl (v, v') \<Rightarrow> size v | Inr (cs, cs') \<Rightarrow> components_size cs)")
    auto


section \<open>Copies\<close>

text \<open>\<open>junk\<close> is the indeterminate content of memory obtained with \<open>malloc\<close>.\<close>

function MmsValue_clone :: "(nat \<Rightarrow> byte) \<Rightarrow> MmsValue \<Rightarrow> MmsValue option"
  and clone_components ::
    "(nat \<Rightarrow> byte) \<Rightarrow> MmsValue option list \<Rightarrow> MmsValue option list option"
where
  "MmsValue_clone junk (MmsValue d u) =
     (case u of
        V_array cs \<Rightarrow> map_option (\<lambda>cs. MmsValue d (V_array cs)) (clone_components junk cs)
      | V_structure cs \<Rightarrow> map_option (\<lambda>cs. MmsValue d (V_structure cs)) (clone_components junk cs)
      | V_integer a \<Rightarrow> map_option (\<lambda>a. MmsValue d (V_integer a)) (Asn1PrimitiveValue_clone a)
      | V_unsigned a \<Rightarrow> map_option (\<lambda>a. MmsValue d (V_unsigned a)) (Asn1PrimitiveValue_clone a)
      | V_floatingPoint e w buf \<Rightarrow>
          map_option (\<lambda>buf. MmsValue d (V_floatingPoint e w buf)) (rd_n buf (unat w div 8))
      | V_bitString n buf \<Rightarrow>
          map_option (\<lambda>buf. MmsValue d (V_bitString n buf)) (rd_n buf (bits_to_bytes n))
      | V_boolean b \<Rightarrow> Some (MmsValue d (V_boolean b))
      | V_octetString n m buf \<Rightarrow>
          map_option (\<lambda>buf. MmsValue d (V_octetString n m buf)) (memcpy (map junk [0..<m]) buf n)
      | V_utcTime t \<Rightarrow> map_option (\<lambda>t. MmsValue d (V_utcTime t)) (rd_n t 8)
      | V_binaryTime n buf \<Rightarrow> map_option (\<lambda>buf. MmsValue d (V_binaryTime n buf)) (rd_n buf 6)
      | V_visibleString s \<Rightarrow> map_option (\<lambda>s. MmsValue d (V_visibleString (Some s))) s
      | V_mmsString s \<Rightarrow> map_option (\<lambda>s. MmsValue d (V_mmsString (Some s))) s
      | V_dataAccessError e \<Rightarrow> Some (MmsValue d (V_dataAccessError e))
      | V_generalizedTime \<Rightarrow> Some (MmsValue d u)
      | V_bcd \<Rightarrow> Some (MmsValue d u)
      | V_objId \<Rightarrow> Some (MmsValue d u))"
| "clone_components junk [] = Some []"
| "clone_components junk (c # cs) = do {
     v \<leftarrow> c;
     v \<leftarrow> MmsValue_clone junk v;
     rest \<leftarrow> clone_components junk cs;
     Some (Some v # rest)
   }"
  by pat_completeness auto
termination
  by (relation "measure (\<lambda>x. case x of Inl (_, v) \<Rightarrow> size v | Inr (_, cs) \<Rightarrow> components_size cs)")
    auto

text \<open>The object sizes of the platform.\<close>

record Sizeof =
  sz_MmsValue :: nat
  sz_pointer :: nat
  sz_Asn1PrimitiveValue :: nat

function MmsValue_getSizeInMemory :: "Sizeof \<Rightarrow> MmsValue \<Rightarrow> nat option"
  and sizeInMemory_components :: "Sizeof \<Rightarrow> MmsValue option list \<Rightarrow> nat option"
where
  "MmsValue_getSizeInMemory sz (MmsValue d u) =
     map_option (\<lambda>n. sz_MmsValue sz + n)
       (case u of
          V_array cs \<Rightarrow>
            map_option (\<lambda>n. sz_pointer sz * length cs + n) (sizeInMemory_components sz cs)
        | V_structure cs \<Rightarrow>
            map_option (\<lambda>n. sz_pointer sz * length cs + n) (sizeInMemory_components sz cs)
        | V_bitString n buf \<Rightarrow> Some (bits_to_bytes n)
        | V_integer a \<Rightarrow> Some (sz_Asn1PrimitiveValue sz + av_maxSize a)
        | V_unsigned a \<Rightarrow> Some (sz_Asn1PrimitiveValue sz + av_maxSize a)
        | V_floatingPoint e w buf \<Rightarrow> Some (unat w div 8)
        | V_octetString n m buf \<Rightarrow> Some m
        | V_mmsString s \<Rightarrow> map_option (\<lambda>s. length s + 1) s
        | V_visibleString s \<Rightarrow> map_option (\<lambda>s. length s + 1) s
        | _ \<Rightarrow> Some 0)"
| "sizeInMemory_components sz [] = Some 0"
| "sizeInMemory_components sz (c # cs) = do {
     v \<leftarrow> c;
     n \<leftarrow> MmsValue_getSizeInMemory sz v;
     m \<leftarrow> sizeInMemory_components sz cs;
     Some (n + m)
   }"
  by pat_completeness auto
termination
  by (relation "measure (\<lambda>x. case x of Inl (_, v) \<Rightarrow> size v | Inr (_, cs) \<Rightarrow> components_size cs)")
    auto

text \<open>
  \<open>MmsValue_cloneToBuffer\<close> lays a copy out in one buffer. What it writes is a list of chunks with
  their addresses, by increasing address: the copy of an \<open>MmsValue\<close>, whose pointer field is
  then redirected to an address (\<open>Some\<close>) or keeps the pointer of the original (\<open>None\<close>); the
  array of component pointers; the copy of an \<open>Asn1PrimitiveValue\<close> with its redirected octets;
  plain octets; a string with its terminating 0.
\<close>

datatype Chunk =
    C_value MmsType "nat option"
  | C_pointers "nat list"
  | C_asn1 nat nat nat
  | C_octets "byte list"
  | C_string cstring

fun chunk_size :: "Sizeof \<Rightarrow> Chunk \<Rightarrow> nat" where
  "chunk_size sz (C_value t p) = sz_MmsValue sz"
| "chunk_size sz (C_pointers ps) = sz_pointer sz * length ps"
| "chunk_size sz (C_asn1 n m p) = sz_Asn1PrimitiveValue sz"
| "chunk_size sz (C_octets bs) = length bs"
| "chunk_size sz (C_string s) = length s + 1"

definition cloneToBuffer_octets ::
  "Sizeof \<Rightarrow> MmsType \<Rightarrow> byte list \<Rightarrow> nat \<Rightarrow> nat \<Rightarrow> ((nat \<times> Chunk) list \<times> nat) option" where
  "cloneToBuffer_octets sz t buf n dst = do {
     bs \<leftarrow> rd_n buf n;
     let body = dst + sz_MmsValue sz;
     Some ([(dst, C_value t (Some body)), (body, C_octets bs)], body + n)
   }"

definition cloneToBuffer_string ::
  "Sizeof \<Rightarrow> MmsType \<Rightarrow> cstring option \<Rightarrow> nat \<Rightarrow> ((nat \<times> Chunk) list \<times> nat) option" where
  "cloneToBuffer_string sz t string dst = do {
     s \<leftarrow> string;
     let body = dst + sz_MmsValue sz;
     Some ([(dst, C_value t (Some body)), (body, C_string s)], body + (length s + 1))
   }"

definition cloneToBuffer_integer ::
  "Sizeof \<Rightarrow> MmsType \<Rightarrow> Asn1PrimitiveValue \<Rightarrow> nat \<Rightarrow> ((nat \<times> Chunk) list \<times> nat) option" where
  "cloneToBuffer_integer sz t a dst = do {
     bs \<leftarrow> rd_n (av_octets a) (av_maxSize a);
     let asn1 = dst + sz_MmsValue sz;
     let octets = asn1 + sz_Asn1PrimitiveValue sz;
     Some ([(dst, C_value t None), (asn1, C_asn1 (av_size a) (av_maxSize a) octets),
            (octets, C_octets bs)], octets + av_maxSize a)
   }"

function MmsValue_cloneToBuffer ::
    "Sizeof \<Rightarrow> MmsValue \<Rightarrow> nat \<Rightarrow> ((nat \<times> Chunk) list \<times> nat) option"
  and cloneToBuffer_components ::
    "Sizeof \<Rightarrow> MmsValue option list \<Rightarrow> nat \<Rightarrow> (nat list \<times> (nat \<times> Chunk) list \<times> nat) option"
where
  "MmsValue_cloneToBuffer sz (MmsValue d u) destinationAddress =
     (case u of
        V_array cs \<Rightarrow> do {
          let ptrs = destinationAddress + sz_MmsValue sz;
          (ps, chunks, destination) \<leftarrow>
            cloneToBuffer_components sz cs (ptrs + sz_pointer sz * length cs);
          Some ((destinationAddress, C_value MMS_ARRAY (Some ptrs)) # (ptrs, C_pointers ps) # chunks,
                destination)
        }
      | V_structure cs \<Rightarrow> do {
          let ptrs = destinationAddress + sz_MmsValue sz;
          (ps, chunks, destination) \<leftarrow>
            cloneToBuffer_components sz cs (ptrs + sz_pointer sz * length cs);
          Some ((destinationAddress, C_value MMS_STRUCTURE (Some ptrs)) # (ptrs, C_pointers ps) # chunks,
                destination)
        }
      | V_bitString n buf \<Rightarrow>
          cloneToBuffer_octets sz MMS_BIT_STRING buf (bits_to_bytes n) destinationAddress
      | V_integer a \<Rightarrow> cloneToBuffer_integer sz MMS_INTEGER a destinationAddress
      | V_unsigned a \<Rightarrow> cloneToBuffer_integer sz MMS_UNSIGNED a destinationAddress
      | V_floatingPoint e w buf \<Rightarrow>
          cloneToBuffer_octets sz MMS_FLOAT buf (unat w div 8) destinationAddress
      | V_octetString n m buf \<Rightarrow> cloneToBuffer_octets sz MMS_OCTET_STRING buf m destinationAddress
      | V_mmsString s \<Rightarrow> cloneToBuffer_string sz MMS_STRING s destinationAddress
      | V_visibleString s \<Rightarrow> cloneToBuffer_string sz MMS_VISIBLE_STRING s destinationAddress
      | _ \<Rightarrow> Some ([(destinationAddress, C_value (union_type u) None)],
                   destinationAddress + sz_MmsValue sz))"
| "cloneToBuffer_components sz [] destinationAddress = Some ([], [], destinationAddress)"
| "cloneToBuffer_components sz (c # cs) destinationAddress = do {
     v \<leftarrow> c;
     (chunks, next) \<leftarrow> MmsValue_cloneToBuffer sz v destinationAddress;
     (ps, rest, destination) \<leftarrow> cloneToBuffer_components sz cs next;
     Some (destinationAddress # ps, chunks @ rest, destination)
   }"
  by pat_completeness auto
termination
  by (relation "measure (\<lambda>x. case x of Inl (_, v, _) \<Rightarrow> size v | Inr (_, cs, _) \<Rightarrow> components_size cs)")
    auto


section \<open>Release\<close>

text \<open>The blocks given back to the heap, in order. \<open>B_value\<close> is the object itself, \<open>B_components\<close>
  the array of component pointers, \<open>B_octets\<close> a buffer, \<open>B_string\<close> a string and \<open>B_asn1\<close> an
  \<open>Asn1PrimitiveValue\<close>, which is released after its octets.\<close>

datatype Block = B_value MmsType | B_components nat | B_octets nat | B_string nat | B_asn1

definition Asn1PrimitiveValue_destroy :: "Asn1PrimitiveValue \<Rightarrow> Block list" where
  "Asn1PrimitiveValue_destroy self = [B_octets (length (av_octets self)), B_asn1]"

definition free_string :: "cstring option \<Rightarrow> Block list" where
  "free_string s = (case s of Some s \<Rightarrow> [B_string (length s + 1)] | None \<Rightarrow> [])"

function MmsValue_delete :: "MmsValue \<Rightarrow> Block list"
  and delete_components :: "MmsValue option list \<Rightarrow> Block list"
where
  "MmsValue_delete (MmsValue d u) =
     (case u of
        V_integer a \<Rightarrow> Asn1PrimitiveValue_destroy a
      | V_unsigned a \<Rightarrow> Asn1PrimitiveValue_destroy a
      | V_floatingPoint _ _ buf \<Rightarrow> [B_octets (length buf)]
      | V_bitString _ buf \<Rightarrow> [B_octets (length buf)]
      | V_octetString _ _ buf \<Rightarrow> [B_octets (length buf)]
      | V_visibleString s \<Rightarrow> free_string s
      | V_mmsString s \<Rightarrow> free_string s
      | V_array cs \<Rightarrow> delete_components cs @ [B_components (length cs)]
      | V_structure cs \<Rightarrow> delete_components cs @ [B_components (length cs)]
      | _ \<Rightarrow> []) @ [B_value (union_type u)]"
| "delete_components [] = []"
| "delete_components (c # cs) =
     (case c of Some v \<Rightarrow> MmsValue_delete v | None \<Rightarrow> []) @ delete_components cs"
  by pat_completeness auto
termination
  by (relation "measure (\<lambda>x. case x of Inl v \<Rightarrow> size v | Inr cs \<Rightarrow> components_size cs)") auto

definition MmsValue_deleteIfNotNull :: "MmsValue option \<Rightarrow> Block list" where
  "MmsValue_deleteIfNotNull v =
     (case v of Some v \<Rightarrow> MmsValue_delete v | None \<Rightarrow> [])"

function MmsValue_deleteConditional :: "MmsValue \<Rightarrow> Block list"
  and deleteConditional_components :: "MmsValue option list \<Rightarrow> Block list"
where
  "MmsValue_deleteConditional (MmsValue d u) =
     (if d = 1 then
        (case u of
           V_integer a \<Rightarrow> Asn1PrimitiveValue_destroy a
         | V_unsigned a \<Rightarrow> Asn1PrimitiveValue_destroy a
         | V_floatingPoint _ _ buf \<Rightarrow> [B_octets (length buf)]
         | V_bitString _ buf \<Rightarrow> [B_octets (length buf)]
         | V_octetString _ _ buf \<Rightarrow> [B_octets (length buf)]
         | V_visibleString s \<Rightarrow> free_string s
         | V_mmsString s \<Rightarrow> free_string s
         | V_array cs \<Rightarrow> deleteConditional_components cs @ [B_components (length cs)]
         | V_structure cs \<Rightarrow> deleteConditional_components cs @ [B_components (length cs)]
         | _ \<Rightarrow> []) @ [B_value (union_type u)]
      else [])"
| "deleteConditional_components [] = []"
| "deleteConditional_components (c # cs) =
     (case c of Some v \<Rightarrow> MmsValue_deleteConditional v | None \<Rightarrow> []) @
     deleteConditional_components cs"
  by pat_completeness auto
termination
  by (relation "measure (\<lambda>x. case x of Inl v \<Rightarrow> size v | Inr cs \<Rightarrow> components_size cs)") auto


section \<open>Components\<close>

definition components :: "MmsValue \<Rightarrow> MmsValue option list option" where
  "components self =
     (case mv_value self of V_array cs \<Rightarrow> Some cs | V_structure cs \<Rightarrow> Some cs | _ \<Rightarrow> None)"

definition MmsValue_getArraySize :: "MmsValue \<Rightarrow> nat option" where
  "MmsValue_getArraySize self = map_option length (components self)"

definition MmsValue_createEmtpyArray :: "nat \<Rightarrow> MmsValue" where
  "MmsValue_createEmtpyArray n = MmsValue 0 (V_array (replicate n None))"

definition MmsValue_createEmptyStructure :: "nat \<Rightarrow> MmsValue" where
  "MmsValue_createEmptyStructure n = MmsValue 0 (V_structure (replicate n None))"

definition MmsValue_setElement :: "MmsValue \<Rightarrow> int \<Rightarrow> MmsValue option \<Rightarrow> MmsValue" where
  "MmsValue_setElement complexValue index elementValue =
     (case mv_value complexValue of
        V_array cs \<Rightarrow>
          if index < 0 \<or> index \<ge> int (length cs) then complexValue
          else set_union complexValue (V_array (cs[nat index := elementValue]))
      | V_structure cs \<Rightarrow>
          if index < 0 \<or> index \<ge> int (length cs) then complexValue
          else set_union complexValue (V_structure (cs[nat index := elementValue]))
      | _ \<Rightarrow> complexValue)"

definition MmsValue_getElement :: "MmsValue \<Rightarrow> int \<Rightarrow> MmsValue option" where
  "MmsValue_getElement complexValue index =
     (case components complexValue of
        Some cs \<Rightarrow> if index < 0 \<or> index \<ge> int (length cs) then None else cs ! nat index
      | None \<Rightarrow> None)"

definition MmsValue_setDeletable :: "MmsValue \<Rightarrow> MmsValue" where
  "MmsValue_setDeletable self = MmsValue 1 (mv_value self)"

function MmsValue_setDeletableRecursive :: "MmsValue \<Rightarrow> MmsValue option"
  and setDeletable_components :: "MmsValue option list \<Rightarrow> MmsValue option list option"
where
  "MmsValue_setDeletableRecursive (MmsValue d u) =
     map_option (\<lambda>u. MmsValue_setDeletable (MmsValue d u))
       (case u of
          V_array cs \<Rightarrow> map_option V_array (setDeletable_components cs)
        | V_structure cs \<Rightarrow> map_option V_structure (setDeletable_components cs)
        | _ \<Rightarrow> Some u)"
| "setDeletable_components [] = Some []"
| "setDeletable_components (c # cs) = do {
     v \<leftarrow> c;
     v \<leftarrow> MmsValue_setDeletableRecursive v;
     rest \<leftarrow> setDeletable_components cs;
     Some (Some v # rest)
   }"
  by pat_completeness auto
termination
  by (relation "measure (\<lambda>x. case x of Inl v \<Rightarrow> size v | Inr cs \<Rightarrow> components_size cs)") auto

definition MmsValue_isDeletable :: "MmsValue \<Rightarrow> byte" where
  "MmsValue_isDeletable self = deleteValue self"

definition MmsValue_getTypeString :: "MmsValue \<Rightarrow> string" where
  "MmsValue_getTypeString self =
     (case MmsValue_getType self of
        MMS_ARRAY \<Rightarrow> ''array''
      | MMS_BCD \<Rightarrow> ''bcd''
      | MMS_BINARY_TIME \<Rightarrow> ''binary-time''
      | MMS_BIT_STRING \<Rightarrow> ''bit-string''
      | MMS_BOOLEAN \<Rightarrow> ''boolean''
      | MMS_DATA_ACCESS_ERROR \<Rightarrow> ''access-error''
      | MMS_FLOAT \<Rightarrow> ''float''
      | MMS_GENERALIZED_TIME \<Rightarrow> ''generalized-time''
      | MMS_INTEGER \<Rightarrow> ''integer''
      | MMS_OBJ_ID \<Rightarrow> ''oid''
      | MMS_STRING \<Rightarrow> ''mms-string''
      | MMS_STRUCTURE \<Rightarrow> ''structure''
      | MMS_OCTET_STRING \<Rightarrow> ''octet-string''
      | MMS_UNSIGNED \<Rightarrow> ''unsigned''
      | MMS_UTC_TIME \<Rightarrow> ''utc-time''
      | MMS_VISIBLE_STRING \<Rightarrow> ''visible-string'')"


section \<open>Comparison decides equality of content\<close>

text \<open>The content of a value: what is left when the delete flag, unused buffer space, the width of
  an exponent and the capacity of integers and octet strings are forgotten.\<close>

definition integer_content :: "Asn1PrimitiveValue \<Rightarrow> Asn1PrimitiveValue" where
  "integer_content a = \<lparr>av_size = av_size a, av_maxSize = av_size a, av_octets = apv_content a\<rparr>"

fun mms_content :: "MmsValue \<Rightarrow> MmsValue" where
  "mms_content (MmsValue _ u) = MmsValue 0
     (case u of
        V_array cs \<Rightarrow> V_array (map (map_option mms_content) cs)
      | V_structure cs \<Rightarrow> V_structure (map (map_option mms_content) cs)
      | V_floatingPoint _ w buf \<Rightarrow> V_floatingPoint 0 w buf
      | V_integer a \<Rightarrow> V_integer (integer_content a)
      | V_unsigned a \<Rightarrow> V_unsigned (integer_content a)
      | V_octetString n _ buf \<Rightarrow> V_octetString n n (take n buf)
      | V_binaryTime n buf \<Rightarrow> V_binaryTime n (take n buf)
      | _ \<Rightarrow> u)"

text \<open>All floats of a value have the same width.\<close>

fun floats_of_width :: "byte \<Rightarrow> MmsValue \<Rightarrow> bool" where
  "floats_of_width w (MmsValue _ u) =
     (case u of
        V_array cs \<Rightarrow> all_components (floats_of_width w) cs
      | V_structure cs \<Rightarrow> all_components (floats_of_width w) cs
      | V_floatingPoint _ w' _ \<Rightarrow> w' = w
      | _ \<Rightarrow> True)"

lemma mms_wf_union:
  "mms_wf (MmsValue d u) \<longleftrightarrow>
     (case u of
        V_array cs \<Rightarrow> all_components mms_wf cs
      | V_structure cs \<Rightarrow> all_components mms_wf cs
      | V_bitString n buf \<Rightarrow> length buf = bits_to_bytes n
      | V_integer a \<Rightarrow> apv_inv a
      | V_unsigned a \<Rightarrow> apv_inv a
      | V_floatingPoint e w buf \<Rightarrow> (w = 32 \<or> w = 64) \<and> length buf = unat w div 8
      | V_octetString n m buf \<Rightarrow> n \<le> m \<and> length buf = m
      | V_binaryTime n buf \<Rightarrow> (n = 4 \<or> n = 6) \<and> length buf = 6
      | V_utcTime t \<Rightarrow> length t = 8
      | V_generalizedTime \<Rightarrow> False
      | V_bcd \<Rightarrow> False
      | V_objId \<Rightarrow> False
      | _ \<Rightarrow> True)"
  by (cases u) simp_all

lemma integer_content_eq_iff:
  assumes "apv_inv a" and "apv_inv b"
  shows "integer_content a = integer_content b \<longleftrightarrow> apv_content a = apv_content b"
proof -
  have "length (apv_content a) = av_size a" "length (apv_content b) = av_size b"
    using assms by (simp_all add: apv_inv_def)
  then have "apv_content a = apv_content b \<Longrightarrow> av_size a = av_size b"
    by metis
  then show ?thesis by (auto simp: integer_content_def)
qed

lemma equals_content:
  "mms_wf a \<Longrightarrow> mms_wf b \<Longrightarrow> floats_of_width w a \<Longrightarrow> floats_of_width w b \<Longrightarrow>
     MmsValue_equals a b = Some (mms_content a = mms_content b)"
  "all_components mms_wf cs \<Longrightarrow> all_components mms_wf cs' \<Longrightarrow>
     all_components (floats_of_width w) cs \<Longrightarrow> all_components (floats_of_width w) cs' \<Longrightarrow>
     length cs = length cs' \<Longrightarrow>
     equals_components cs cs' =
       Some (map (map_option mms_content) cs = map (map_option mms_content) cs')"
proof (induction a b and cs cs' rule: MmsValue_equals_equals_components.induct)
  case (1 d u d' u')
  then show ?case
    by (cases u; cases u')
      (auto simp: mms_wf_union rd_n_def apv_compare integer_content_eq_iff
        dest: map_eq_imp_length_eq)
next
  case (4 c cs c' cs')
  then show ?case
    by (auto split: option.splits)
qed auto

lemma equals_same_content:
  "mms_wf a \<Longrightarrow> mms_wf b \<Longrightarrow> mms_content a = mms_content b \<Longrightarrow> MmsValue_equals a b = Some True"
  "all_components mms_wf cs \<Longrightarrow> all_components mms_wf cs' \<Longrightarrow>
     map (map_option mms_content) cs = map (map_option mms_content) cs' \<Longrightarrow>
     equals_components cs cs' = Some True"
proof (induction a b and cs cs' rule: MmsValue_equals_equals_components.induct)
  case (1 d u d' u')
  then show ?case
    by (cases u; cases u')
      (auto simp: mms_wf_union rd_n_def apv_compare integer_content_eq_iff
        dest: map_eq_imp_length_eq)
next
  case (4 c cs c' cs')
  then show ?case
    by (auto split: option.splits)
qed auto

text \<open>C23: On well-formed values whose floats have one width, \<open>MmsValue_equals\<close> never leaves an
  allocation and decides exactly whether the two values have the same content, at any depth of
  nesting.\<close>

theorem mms_equals_iff_content:
  assumes "mms_wf a" and "mms_wf b" and "floats_of_width w a" and "floats_of_width w b"
  shows "MmsValue_equals a b = Some (mms_content a = mms_content b)"
  by (rule equals_content(1) [OF assms])

definition demo_structure :: MmsValue where
  "demo_structure = MmsValue 0 (V_structure
     [Some (MmsValue 0 (V_boolean True)),
      Some (MmsValue 0 (V_integer \<lparr>av_size = 1, av_maxSize = 4, av_octets = [5, 0, 0, 0]\<rparr>)),
      Some (MmsValue 0 (V_floatingPoint 8 32 [0, 0, 128, 63])),
      Some (MmsValue 0 (V_array [Some (MmsValue 0 (V_octetString 1 3 [7, 0, 0]))]))])"

definition demo_update :: MmsValue where
  "demo_update = MmsValue 1 (V_structure
     [Some (MmsValue 0 (V_boolean False)),
      Some (MmsValue 0 (V_integer \<lparr>av_size = 2, av_maxSize = 8, av_octets = [1, 2, 0, 0, 0, 0, 0, 0]\<rparr>)),
      Some (MmsValue 0 (V_floatingPoint 8 32 [0, 0, 0, 64])),
      Some (MmsValue 0 (V_array [Some (MmsValue 0 (V_octetString 2 3 [7, 8, 9]))]))])"

lemma demo_wf:
  "mms_wf demo_structure" "floats_of_width 32 demo_structure"
  "mms_wf demo_update" "floats_of_width 32 demo_update"
  by (simp_all add: demo_structure_def demo_update_def apv_inv_def)

theorem mms_equals_iff_content_witness:
  "MmsValue_equals demo_structure demo_update =
     Some (mms_content demo_structure = mms_content demo_update)"
  by (rule mms_equals_iff_content [OF demo_wf(1,3,2,4)])


section \<open>Update\<close>

text \<open>When every component of an update finds its place: same types and component counts, same
  float widths, bit counts and octet string capacities, and integers that fit.\<close>

fun accepts :: "MmsValue \<Rightarrow> MmsValue \<Rightarrow> bool" where
  "accepts (MmsValue _ u) (MmsValue _ u') =
     (case u of
        V_array cs \<Rightarrow>
          (case u' of V_array cs' \<Rightarrow>
             list_all2 (\<lambda>c c'. case c of None \<Rightarrow> False | Some v \<Rightarrow>
               (case c' of None \<Rightarrow> False | Some v' \<Rightarrow> accepts v v')) cs cs' | _ \<Rightarrow> False)
      | V_structure cs \<Rightarrow>
          (case u' of V_structure cs' \<Rightarrow>
             list_all2 (\<lambda>c c'. case c of None \<Rightarrow> False | Some v \<Rightarrow>
               (case c' of None \<Rightarrow> False | Some v' \<Rightarrow> accepts v v')) cs cs' | _ \<Rightarrow> False)
      | V_floatingPoint _ w _ \<Rightarrow>
          (case u' of V_floatingPoint _ w' _ \<Rightarrow> w = w' | _ \<Rightarrow> False)
      | V_integer a \<Rightarrow> (case u' of V_integer a' \<Rightarrow> av_size a' \<le> av_maxSize a | _ \<Rightarrow> False)
      | V_unsigned a \<Rightarrow> (case u' of V_unsigned a' \<Rightarrow> av_size a' \<le> av_maxSize a | _ \<Rightarrow> False)
      | V_bitString n _ \<Rightarrow> (case u' of V_bitString n' _ \<Rightarrow> n = n' | _ \<Rightarrow> False)
      | V_octetString _ m _ \<Rightarrow> (case u' of V_octetString _ m' _ \<Rightarrow> m = m' | _ \<Rightarrow> False)
      | V_dataAccessError _ \<Rightarrow> False
      | _ \<Rightarrow> union_type u = union_type u')"

text \<open>When every array or structure of the update has at least as many components as the one it
  is copied into.\<close>

function covers :: "MmsValue \<Rightarrow> MmsValue \<Rightarrow> bool"
  and covers_components :: "MmsValue option list \<Rightarrow> MmsValue option list \<Rightarrow> bool"
where
  "covers (MmsValue _ u) (MmsValue _ u') =
     (case u of
        V_array cs \<Rightarrow> (case u' of V_array cs' \<Rightarrow> covers_components cs cs' | _ \<Rightarrow> True)
      | V_structure cs \<Rightarrow> (case u' of V_structure cs' \<Rightarrow> covers_components cs cs' | _ \<Rightarrow> True)
      | _ \<Rightarrow> True)"
| "covers_components [] cs' = True"
| "covers_components (c # cs) [] = False"
| "covers_components (c # cs) (c' # cs') =
     ((case c of None \<Rightarrow> False | Some v \<Rightarrow>
        (case c' of None \<Rightarrow> False | Some v' \<Rightarrow> covers v v')) \<and> covers_components cs cs')"
  by pat_completeness auto
termination
  by (relation "measure (\<lambda>x. case x of Inl (v, v') \<Rightarrow> size v | Inr (cs, cs') \<Rightarrow> components_size cs)")
    auto

lemma setFromBerInteger_cases:
  assumes "apv_inv a" and "apv_inv a'"
  shows "BerInteger_setFromBerInteger a a' =
    (if av_size a' \<le> av_maxSize a
     then Some (1, a\<lparr>av_size := av_size a', av_octets := apv_content a' @ drop (av_size a') (av_octets a)\<rparr>)
     else Some (0, a))"
  using assms by (simp add: BerInteger_setFromBerInteger_def memcpy_def rd_n_def apv_inv_def)

lemma setFromBerInteger_inv:
  assumes "apv_inv a" and "apv_inv a'" and "BerInteger_setFromBerInteger a a' = Some (r, b)"
  shows "apv_inv b"
  using assms by (auto simp: setFromBerInteger_cases apv_inv_def split: if_splits)

lemma equalTypes_refl:
  "mms_wf v \<Longrightarrow> MmsValue_equalTypes v v = Some True"
  "all_components mms_wf cs \<Longrightarrow> equalTypes_components cs cs = Some True"
proof (induction v and cs rule: MmsValue_delete_delete_components.induct)
  case (1 d u)
  then show ?case by (cases u) auto
next
  case (3 c cs)
  then show ?case by (auto split: option.splits)
qed auto

text \<open>A pair of unions: two arrays, two structures, or anything else.\<close>

lemma union_pair_cases:
  obtains (arrays) cs cs' where "u = V_array cs" "u' = V_array cs'"
  | (structures) cs cs' where "u = V_structure cs" "u' = V_structure cs'"
  | (other) "\<And>cs cs'. \<not> (u = V_array cs \<and> u' = V_array cs')"
      "\<And>cs cs'. \<not> (u = V_structure cs \<and> u' = V_structure cs')"
  by blast

lemma update_safe:
  "mms_wf a \<Longrightarrow> mms_wf b \<Longrightarrow>
     (case MmsValue_update a b of
        None \<Rightarrow> \<not> covers a b
      | Some (r, v) \<Rightarrow> covers a b \<and> mms_wf v \<and> MmsValue_equalTypes a v = Some True)"
  "all_components mms_wf cs \<Longrightarrow> all_components mms_wf cs' \<Longrightarrow>
     (case updateStructuredComponent cs cs' of
        None \<Rightarrow> \<not> covers_components cs cs'
      | Some vs \<Rightarrow> covers_components cs cs' \<and> all_components mms_wf vs \<and> length vs = length cs \<and>
          equalTypes_components cs vs = Some True)"
proof (induction a b and cs cs' rule: MmsValue_update_updateStructuredComponent.induct)
  case (1 d u d' u')
  show ?case
  proof (cases u u' rule: union_pair_cases)
    case (arrays cs cs')
    then show ?thesis using 1(1) [OF arrays] 1(3,4) by (auto split: option.splits)
  next
    case (structures cs cs')
    then show ?thesis using 1(2) [OF structures] 1(3,4) by (auto split: option.splits)
  next
    case other
    then show ?thesis
      using 1(3,4)
      by (cases u; cases u')
        (auto simp: mms_wf_union memcpy_def rd_n_def setFromBerInteger_cases apv_inv_def
          equalTypes_refl MmsValue_setVisibleString_def MmsValue_setMmsString_def
          MmsValue_getType_def setVisibleStringValue_def setMmsStringValue_def set_union_def)
  qed
next
  case (4 c cs c' cs')
  then obtain v v' where c: "c = Some v" "c' = Some v'"
    by (auto split: option.splits)
  then show ?case
    using 4(1) [OF c] 4(2) [OF c _ refl] 4(3,4)
    by (cases "MmsValue_update v v'") (auto split: option.splits)
qed auto

lemma update_accepted:
  "mms_wf a \<Longrightarrow> mms_wf b \<Longrightarrow> accepts a b \<Longrightarrow>
     \<exists>v. MmsValue_update a b = Some (True, v) \<and> mms_content v = mms_content b \<and>
       deleteValue v = deleteValue a"
  "all_components mms_wf cs \<Longrightarrow> all_components mms_wf cs' \<Longrightarrow>
     list_all2 (\<lambda>c c'. case c of None \<Rightarrow> False | Some v \<Rightarrow>
       (case c' of None \<Rightarrow> False | Some v' \<Rightarrow> accepts v v')) cs cs' \<Longrightarrow>
     \<exists>vs. updateStructuredComponent cs cs' = Some vs \<and>
       map (map_option mms_content) vs = map (map_option mms_content) cs'"
proof (induction a b and cs cs' rule: MmsValue_update_updateStructuredComponent.induct)
  case (1 d u d' u')
  show ?case
  proof (cases u u' rule: union_pair_cases)
    case (arrays cs cs')
    then show ?thesis using 1(1) [OF arrays] 1(3,4,5) by (auto split: option.splits)
  next
    case (structures cs cs')
    then show ?thesis using 1(2) [OF structures] 1(3,4,5) by (auto split: option.splits)
  next
    case other
    then show ?thesis
      using 1(3,4,5)
      by (cases u; cases u')
        (auto simp: mms_wf_union memcpy_def rd_n_def setFromBerInteger_cases apv_inv_def
          integer_content_def MmsValue_setVisibleString_def MmsValue_setMmsString_def
          MmsValue_getType_def setVisibleStringValue_def setMmsStringValue_def set_union_def
          copyString_def option.map_ident_strong)
  qed
next
  case (4 c cs c' cs')
  then show ?case
    by (fastforce split: option.splits)
qed auto

lemma updateStructuredComponent_nth:
  assumes "updateStructuredComponent cs cs' = Some vs" and "i < length cs"
  shows "\<exists>x y r v. cs ! i = Some x \<and> i < length cs' \<and> cs' ! i = Some y \<and>
    MmsValue_update x y = Some (r, v) \<and> i < length vs \<and> vs ! i = Some v"
  using assms
proof (induction cs arbitrary: cs' vs i)
  case Nil
  then show ?case by simp
next
  case (Cons c cs)
  from Cons.prems obtain c' ds x y r v rest where d: "cs' = c' # ds" "c = Some x" "c' = Some y"
      "MmsValue_update x y = Some (r, v)" "updateStructuredComponent cs ds = Some rest"
      "vs = Some v # rest"
    by (cases cs') (auto simp: bind_eq_Some_conv)
  then show ?case
    using Cons.IH [OF d(5)] Cons.prems(2) by (cases i) auto
qed

lemma update_other_type:
  assumes "MmsValue_getType x \<noteq> MmsValue_getType y"
  shows "MmsValue_update x y = Some (False, x)"
proof -
  obtain d u d' u' where "x = MmsValue d u" "y = MmsValue d' u'"
    by (metis MmsValue.exhaust)
  with assms show ?thesis
    by (cases u; cases u') (auto simp: MmsValue_getType_def)
qed

text \<open>C25: \<open>MmsValue_update\<close> on well-formed values stays inside its allocations exactly when every
  array and structure of the update has at least the component count of the one it is copied
  into; whenever it returns, with either result, the updated value is well-formed and has, at every
  level, the type it had before.\<close>

theorem mms_update_keeps_types:
  assumes "mms_wf a" and "mms_wf b"
  shows "case MmsValue_update a b of
      None \<Rightarrow> \<not> covers a b
    | Some (r, v) \<Rightarrow> covers a b \<and> mms_wf v \<and> MmsValue_equalTypes a v = Some True"
  by (rule update_safe(1) [OF assms])

theorem mms_update_keeps_types_witness:
  "case MmsValue_update demo_structure demo_update of
      None \<Rightarrow> \<not> covers demo_structure demo_update
    | Some (r, v) \<Rightarrow> covers demo_structure demo_update \<and> mms_wf v \<and>
        MmsValue_equalTypes demo_structure v = Some True"
  by (rule mms_update_keeps_types [OF demo_wf(1,3)])

text \<open>An update whose every component finds its place (same types and counts, same float
  widths, bit counts and capacities, integers that fit) succeeds: the value has afterwards the
  content of the update and keeps its own delete flag, and comparing the two says they are
  equal.\<close>

theorem mms_update_takes_content:
  assumes "mms_wf a" and "mms_wf b" and "accepts a b"
  shows "\<exists>v. MmsValue_update a b = Some (True, v) \<and> mms_content v = mms_content b \<and>
    deleteValue v = deleteValue a \<and> MmsValue_equals v b = Some True"
proof -
  obtain v where v: "MmsValue_update a b = Some (True, v)" "mms_content v = mms_content b"
      "deleteValue v = deleteValue a"
    using update_accepted(1) [OF assms] by blast
  then have "mms_wf v" using update_safe(1) [OF assms(1,2)] by simp
  with v assms(2) show ?thesis using equals_same_content(1) by blast
qed

theorem mms_update_takes_content_witness:
  "\<exists>v. MmsValue_update demo_structure demo_update = Some (True, v) \<and>
    mms_content v = mms_content demo_update \<and>
    deleteValue v = deleteValue demo_structure \<and> MmsValue_equals v demo_update = Some True"
  by (rule mms_update_takes_content [OF demo_wf(1,3)])
    (simp add: demo_structure_def demo_update_def)

text \<open>The result of updating an array or structure says nothing about its components: it is
  always true, and a component whose type differs from its update is left as it was.\<close>

theorem mms_update_hides_failures:
  assumes "MmsValue_update (MmsValue d (V_structure cs)) (MmsValue d' (V_structure cs')) =
      Some (r, MmsValue d (V_structure vs))"
    and "i < length cs" and "cs ! i = Some x" and "cs' ! i = Some y"
    and "MmsValue_getType x \<noteq> MmsValue_getType y"
  shows "r = True \<and> vs ! i = Some x \<and> MmsValue_update x y = Some (False, x)"
  using assms(1,3,4) updateStructuredComponent_nth [of cs cs' vs i] update_other_type [OF assms(5)]
    assms(2) by auto

theorem mms_update_hides_failures_witness:
  "True = True \<and>
   [Some (MmsValue_newBoolean False)] ! 0 = Some (MmsValue_newBoolean False) \<and>
   MmsValue_update (MmsValue_newBoolean False) (MmsValue_newDouble 0) =
     Some (False, MmsValue_newBoolean False)"
  by (rule mms_update_hides_failures [where d = 0 and d' = 0
        and cs = "[Some (MmsValue_newBoolean False)]" and cs' = "[Some (MmsValue_newDouble 0)]"])
    (simp_all add: MmsValue_newBoolean_def MmsValue_newDouble_def MmsValue_getType_def)


section \<open>Copies\<close>

fun strings_set :: "MmsValue \<Rightarrow> bool" where
  "strings_set (MmsValue _ u) =
     (case u of
        V_array cs \<Rightarrow> all_components strings_set cs
      | V_structure cs \<Rightarrow> all_components strings_set cs
      | V_visibleString s \<Rightarrow> s \<noteq> None
      | V_mmsString s \<Rightarrow> s \<noteq> None
      | _ \<Rightarrow> True)"

lemma clone_content:
  "mms_wf v \<Longrightarrow>
     (case MmsValue_clone junk v of
        None \<Rightarrow> \<not> strings_set v
      | Some c \<Rightarrow> strings_set v \<and> mms_wf c \<and> mms_content c = mms_content v \<and>
          deleteValue c = deleteValue v)"
  "all_components mms_wf cs \<Longrightarrow>
     (case clone_components junk cs of
        None \<Rightarrow> \<not> all_components strings_set cs
      | Some ds \<Rightarrow> all_components strings_set cs \<and> all_components mms_wf ds \<and>
          map (map_option mms_content) ds = map (map_option mms_content) cs)"
proof (induction v and cs rule: MmsValue_delete_delete_components.induct)
  case (1 d u)
  then show ?case
    by (cases u)
      (auto simp: mms_wf_union rd_n_def memcpy_def apv_clone split: option.splits)
next
  case (3 c cs)
  then show ?case by (auto split: option.splits)
qed auto

text \<open>A deep copy of a well-formed value is made, without leaving an allocation, exactly when
  no string in it is \<open>NULL\<close>; it is well-formed, has the content of the original whatever the new
  memory held, and compares equal to it.\<close>

theorem mms_clone_iff:
  assumes "mms_wf v"
  shows "case MmsValue_clone junk v of
      None \<Rightarrow> \<not> strings_set v
    | Some c \<Rightarrow> strings_set v \<and> mms_wf c \<and> mms_content c = mms_content v \<and>
        deleteValue c = deleteValue v \<and> MmsValue_equals c v = Some True"
  using clone_content(1) [OF assms, of junk] equals_same_content(1) [of _ v] assms
  by (auto split: option.splits)

theorem mms_clone_iff_witness:
  "case MmsValue_clone (\<lambda>_. 0xcc) demo_structure of
      None \<Rightarrow> \<not> strings_set demo_structure
    | Some c \<Rightarrow> strings_set demo_structure \<and> mms_wf c \<and>
        mms_content c = mms_content demo_structure \<and>
        deleteValue c = deleteValue demo_structure \<and>
        MmsValue_equals c demo_structure = Some True"
  by (rule mms_clone_iff [OF demo_wf(1)])

text \<open>Chunks that fill a range of addresses one after the other.\<close>

fun contiguous :: "Sizeof \<Rightarrow> nat \<Rightarrow> (nat \<times> Chunk) list \<Rightarrow> nat \<Rightarrow> bool" where
  "contiguous sz start [] stop \<longleftrightarrow> start = stop"
| "contiguous sz start ((a, c) # cs) stop \<longleftrightarrow> a = start \<and> contiguous sz (start + chunk_size sz c) cs stop"

lemma contiguous_append:
  "contiguous sz start (xs @ ys) stop \<longleftrightarrow>
     (\<exists>mid. contiguous sz start xs mid \<and> contiguous sz mid ys stop)"
  by (induction sz start xs stop rule: contiguous.induct) auto

lemma cloneToBuffer_layout:
  "mms_wf v \<Longrightarrow>
     (case MmsValue_cloneToBuffer sz v dst of
        None \<Rightarrow> \<not> strings_set v
      | Some (chunks, stop) \<Rightarrow> strings_set v \<and> contiguous sz dst chunks stop \<and>
          MmsValue_getSizeInMemory sz v = Some (stop - dst) \<and> dst \<le> stop)"
  "all_components mms_wf cs \<Longrightarrow>
     (case cloneToBuffer_components sz cs dst of
        None \<Rightarrow> \<not> all_components strings_set cs
      | Some (ps, chunks, stop) \<Rightarrow> all_components strings_set cs \<and> length ps = length cs \<and>
          contiguous sz dst chunks stop \<and>
          sizeInMemory_components sz cs = Some (stop - dst) \<and> dst \<le> stop)"
proof (induction v and cs arbitrary: dst and dst rule: MmsValue_delete_delete_components.induct)
  case (1 d u)
  show ?case
  proof (cases u)
    case (V_array cs)
    then show ?thesis
      using 1(1) [OF V_array, of "dst + sz_MmsValue sz + sz_pointer sz * length cs"] 1(3)
      by (cases "cloneToBuffer_components sz cs (dst + sz_MmsValue sz + sz_pointer sz * length cs)")
        (auto simp: Let_def)
  next
    case (V_structure cs)
    then show ?thesis
      using 1(2) [OF V_structure, of "dst + sz_MmsValue sz + sz_pointer sz * length cs"] 1(3)
      by (cases "cloneToBuffer_components sz cs (dst + sz_MmsValue sz + sz_pointer sz * length cs)")
        (auto simp: Let_def)
  qed (use 1(3) in \<open>auto simp: mms_wf_union rd_n_def cloneToBuffer_octets_def
        cloneToBuffer_string_def cloneToBuffer_integer_def Let_def apv_inv_def
        split: option.splits bind_splits\<close>)
next
  case (3 c cs)
  then obtain v where c: "c = Some v" "mms_wf v" "all_components mms_wf cs"
    by (auto split: option.splits)
  show ?case
  proof (cases "MmsValue_cloneToBuffer sz v dst")
    case None
    then show ?thesis using 3(1) [OF c(1,2), of dst] c by simp
  next
    case (Some r)
    then show ?thesis
      using 3(1) [OF c(1,2), of dst] 3(2) [OF c(3), of "snd r"] c
      by (auto simp: contiguous_append split: option.splits bind_splits)
  qed
qed auto

text \<open>\<open>MmsValue_cloneToBuffer\<close> fills exactly the buffer \<open>MmsValue_getSizeInMemory\<close> announces:
  the pieces it writes follow each other without gap or overlap from the destination address, and
  the address it returns is the destination plus that size. Both fail exactly on a value with a
  \<open>NULL\<close> string.\<close>

theorem mms_cloneToBuffer_fills:
  assumes "mms_wf v"
  shows "case MmsValue_cloneToBuffer sz v dst of
      None \<Rightarrow> \<not> strings_set v
    | Some (chunks, stop) \<Rightarrow> strings_set v \<and> contiguous sz dst chunks stop \<and>
        MmsValue_getSizeInMemory sz v = Some (stop - dst) \<and> dst \<le> stop"
  by (rule cloneToBuffer_layout(1) [OF assms])

theorem mms_cloneToBuffer_fills_witness:
  "case MmsValue_cloneToBuffer \<lparr>sz_MmsValue = 17, sz_pointer = 8, sz_Asn1PrimitiveValue = 16\<rparr>
      demo_structure 4096 of
      None \<Rightarrow> \<not> strings_set demo_structure
    | Some (chunks, stop) \<Rightarrow> strings_set demo_structure \<and>
        contiguous \<lparr>sz_MmsValue = 17, sz_pointer = 8, sz_Asn1PrimitiveValue = 16\<rparr> 4096 chunks stop \<and>
        MmsValue_getSizeInMemory \<lparr>sz_MmsValue = 17, sz_pointer = 8, sz_Asn1PrimitiveValue = 16\<rparr>
          demo_structure = Some (stop - 4096) \<and> 4096 \<le> stop"
  by (rule mms_cloneToBuffer_fills [OF demo_wf(1)])


section \<open>Release\<close>

lemma setDeletable_releases:
  "mms_wf v \<Longrightarrow> \<exists>v'. MmsValue_setDeletableRecursive v = Some v' \<and>
     MmsValue_isDeletable v' = 1 \<and> mms_wf v' \<and> mms_content v' = mms_content v \<and>
     MmsValue_deleteConditional v' = MmsValue_delete v"
  "all_components mms_wf cs \<Longrightarrow> \<exists>ds. setDeletable_components cs = Some ds \<and> length ds = length cs \<and>
     all_components mms_wf ds \<and> map (map_option mms_content) ds = map (map_option mms_content) cs \<and>
     deleteConditional_components ds = delete_components cs"
proof (induction v and cs rule: MmsValue_delete_delete_components.induct)
  case (1 d u)
  then show ?case
    by (cases u) (auto simp: mms_wf_union MmsValue_setDeletable_def MmsValue_isDeletable_def)
next
  case (3 c cs)
  then show ?case by (auto split: option.splits)
qed auto

text \<open>Marking a complete value deletable changes nothing but the flags, and releasing it
  conditionally afterwards gives back exactly the blocks an unconditional release of the original
  gives back, in the same order.\<close>

theorem mms_deletable_is_released:
  assumes "mms_wf v"
  shows "\<exists>v'. MmsValue_setDeletableRecursive v = Some v' \<and> MmsValue_isDeletable v' = 1 \<and>
    mms_wf v' \<and> mms_content v' = mms_content v \<and>
    MmsValue_deleteConditional v' = MmsValue_delete v"
  by (rule setDeletable_releases(1) [OF assms])

theorem mms_deletable_is_released_witness:
  "\<exists>v'. MmsValue_setDeletableRecursive demo_structure = Some v' \<and> MmsValue_isDeletable v' = 1 \<and>
    mms_wf v' \<and> mms_content v' = mms_content demo_structure \<and>
    MmsValue_deleteConditional v' = MmsValue_delete demo_structure"
  by (rule mms_deletable_is_released [OF demo_wf(1)])

end
