(* ===== verification/Mms_Data.thy ===== *)
theory Mms_Data
  imports Mms_Value
begin

text \<open>
  Values in messages (\<open>src/src/mms/iso_mms/common/mms_common_msg.c\<close>): the structures of the ASN.1 compiler
  that carry values in write requests, made from values by a client and turned into values again by
  the server.

  An octet string of the compiler is the memory from its pointer on and its size. Of the encoder and the
  decoder of the compiler only the canonicalisation of integers is modelled; what they do to a structure is the argument
  \<open>codec\<close> of the theorem on transfers.
\<close>

section \<open>Data elements\<close>

datatype Data =
    Data_NOTHING
  | Data_array "Data list"
  | Data_structure "Data list"
  | Data_boolean bool
  | Data_bitstring "byte list" nat nat
  | Data_integer "byte list" nat
  | Data_unsigned "byte list" nat
  | Data_floatingpoint "byte list" nat
  | Data_octetstring "byte list" nat
  | Data_visiblestring "byte list" nat
  | Data_binarytime "byte list" nat
  | Data_mMSString "byte list" nat
  | Data_utctime "byte list" nat

text \<open>An identifier is given the same way.\<close>

type_synonym Identifier = "byte list \<times> nat"

definition mmsMsg_createFloatData :: "byte \<Rightarrow> byte list \<Rightarrow> (byte list \<times> nat) option" where
  "mmsMsg_createFloatData formatWidth buf =
     (if formatWidth = 64 then do {
        bytes \<leftarrow> memcpyReverseByteOrder (replicate 8 0) buf 8;
        Some (11 # bytes, 9)
      }
      else do {
        bytes \<leftarrow> memcpyReverseByteOrder (replicate 4 0) buf 4;
        Some (8 # bytes, 5)
      })"

text \<open>A string in memory with the 0 that ends it; \<open>NULL\<close> gives an empty string.\<close>

definition stringData :: "cstring option \<Rightarrow> byte list \<times> nat" where
  "stringData string = (case string of None \<Rightarrow> ([], 0) | Some s \<Rightarrow> (s @ [0], length s))"

function mmsMsg_createBasicDataElement :: "MmsValue \<Rightarrow> Data option"
  and basicElements_loop :: "MmsValue option list \<Rightarrow> Data list option"
where
  "mmsMsg_createBasicDataElement (MmsValue _ u) =
     (case u of
        V_array cs \<Rightarrow> map_option Data_array (basicElements_loop cs)
      | V_structure cs \<Rightarrow> map_option Data_structure (basicElements_loop cs)
      | V_bitString n buf \<Rightarrow>
          Some (Data_bitstring buf (n div 8 + (if n mod 8 > 0 then 1 else 0)) (8 - n mod 8))
      | V_boolean b \<Rightarrow> Some (Data_boolean b)
      | V_floatingPoint _ w buf \<Rightarrow> map_option (\<lambda>(b, n). Data_floatingpoint b n) (mmsMsg_createFloatData w buf)
      | V_utcTime buf \<Rightarrow> map_option (\<lambda>b. Data_utctime b 8) (memcpy (replicate 8 0) buf 8)
      | V_integer a \<Rightarrow> Some (Data_integer (av_octets a) (av_size a))
      | V_unsigned a \<Rightarrow> Some (Data_unsigned (av_octets a) (av_size a))
      | V_visibleString s \<Rightarrow> Some (case stringData s of (b, n) \<Rightarrow> Data_visiblestring b n)
      | V_octetString n _ buf \<Rightarrow> Some (Data_octetstring buf n)
      | V_mmsString s \<Rightarrow> Some (case stringData s of (b, n) \<Rightarrow> Data_mMSString b n)
      | V_binaryTime n buf \<Rightarrow> Some (Data_binarytime buf n)
      | _ \<Rightarrow> Some Data_NOTHING)"
| "basicElements_loop [] = Some []"
| "basicElements_loop (c # cs) = do {
     v \<leftarrow> c;
     d \<leftarrow> mmsMsg_createBasicDataElement v;
     ds \<leftarrow> basicElements_loop cs;
     Some (d # ds)
   }"
  by pat_completeness auto
termination
  by (relation "measure (\<lambda>x. case x of Inl v \<Rightarrow> size v | Inr cs \<Rightarrow> components_size cs)") auto

text \<open>Bit strings of a negative size, from more unused bits than there are, have no value.\<close>

fun mmsMsg_parseDataElement :: "Data \<Rightarrow> MmsValue option option"
  and dataElements_loop :: "Data list \<Rightarrow> MmsValue option list option"
where
  "mmsMsg_parseDataElement dataElement =
     (case dataElement of
        Data_structure ds \<Rightarrow> map_option (\<lambda>cs. Some (MmsValue 0 (V_structure cs))) (dataElements_loop ds)
      | Data_array ds \<Rightarrow> map_option (\<lambda>cs. Some (MmsValue 0 (V_array cs))) (dataElements_loop ds)
      | Data_integer buf n \<Rightarrow>
          map_option (\<lambda>a. Some (MmsValue_newIntegerFromBerInteger a)) (BerInteger_createFromBuffer buf n)
      | Data_unsigned buf n \<Rightarrow>
          map_option (\<lambda>a. Some (MmsValue_newUnsignedFromBerInteger a)) (BerInteger_createFromBuffer buf n)
      | Data_visiblestring buf n \<Rightarrow> map_option Some (MmsValue_newVisibleStringFromByteArray buf n)
      | Data_mMSString buf n \<Rightarrow>
          map_option (\<lambda>s. Some (MmsValue 0 (V_mmsString (Some (takeWhile (\<lambda>c. c \<noteq> 0) s))))) (rd_n buf n)
      | Data_bitstring buf n unused \<Rightarrow>
          if n * 8 < unused then None
          else map_option (\<lambda>b. Some (MmsValue 0 (V_bitString (n * 8 - unused) b))) (rd_n buf n)
      | Data_floatingpoint buf n \<Rightarrow>
          if n = 5 then do {
            e \<leftarrow> rd buf 0;
            bytes \<leftarrow> memcpyReverseByteOrder (replicate 4 0) (drop 1 buf) 4;
            Some (Some (MmsValue 0 (V_floatingPoint e 32 bytes)))
          }
          else if n = 9 then do {
            e \<leftarrow> rd buf 0;
            bytes \<leftarrow> memcpyReverseByteOrder (replicate 8 0) (drop 1 buf) 8;
            Some (Some (MmsValue 0 (V_floatingPoint e 64 bytes)))
          }
          else Some (Some (MmsValue 0 (V_floatingPoint 0 0 [])))
      | Data_utctime buf n \<Rightarrow> map_option (\<lambda>b. Some (MmsValue 0 (V_utcTime b))) (rd_n buf 8)
      | Data_octetstring buf n \<Rightarrow>
          map_option (\<lambda>b. Some (MmsValue 0 (V_octetString (n mod 65536) (n mod 65536) b))) (rd_n buf n)
      | Data_binarytime buf n \<Rightarrow>
          if n \<le> 6 then
            map_option (\<lambda>b. Some (MmsValue 0 (V_binaryTime n b))) (memcpy (replicate 6 0) buf n)
          else Some None
      | Data_boolean b \<Rightarrow> Some (Some (MmsValue_newBoolean b))
      | Data_NOTHING \<Rightarrow> Some None)"
| "dataElements_loop [] = Some []"
| "dataElements_loop (d # ds) = do {
     v \<leftarrow> mmsMsg_parseDataElement d;
     vs \<leftarrow> dataElements_loop ds;
     Some (v # vs)
   }"

declare mmsMsg_parseDataElement.simps [simp del]

function mmsMsg_createDataElement :: "MmsValue \<Rightarrow> Data option"
  and dataElements :: "MmsValue option list \<Rightarrow> Data list option"
where
  "mmsMsg_createDataElement (MmsValue d u) =
     (case u of
        V_structure cs \<Rightarrow> map_option Data_structure (dataElements cs)
      | _ \<Rightarrow> mmsMsg_createBasicDataElement (MmsValue d u))"
| "dataElements [] = Some []"
| "dataElements (c # cs) = do {
     v \<leftarrow> c;
     d \<leftarrow> mmsMsg_createDataElement v;
     ds \<leftarrow> dataElements cs;
     Some (d # ds)
   }"
  by pat_completeness auto
termination
  by (relation "measure (\<lambda>x. case x of Inl v \<Rightarrow> size v | Inr cs \<Rightarrow> components_size cs)") auto

definition mmsMsg_createStringFromAsnIdentifier :: "Identifier \<Rightarrow> cstring option" where
  "mmsMsg_createStringFromAsnIdentifier identifier = createStringFromBuffer (fst identifier) (snd identifier)"

text \<open>The string that is in the buffer afterwards; one that is too long leaves an empty string.\<close>

definition mmsMsg_copyAsn1IdentifierToStringBuffer :: "Identifier \<Rightarrow> nat \<Rightarrow> cstring option" where
  "mmsMsg_copyAsn1IdentifierToStringBuffer identifier bufSize =
     (if snd identifier < bufSize then
        map_option (takeWhile (\<lambda>c. c \<noteq> 0)) (rd_n (fst identifier) (snd identifier))
      else Some [])"


section \<open>Transfer of values\<close>

lemma createDataElement_basic:
  "mmsMsg_createDataElement v = mmsMsg_createBasicDataElement v"
  "dataElements cs = basicElements_loop cs"
proof (induction v and cs rule: mmsMsg_createDataElement_dataElements.induct)
  case (1 d u)
  then show ?case by (cases u) simp_all
next
  case (3 c cs)
  then show ?case by (cases c) (simp_all split: Option.bind_splits)
qed simp

text \<open>The last octet of a bit string is sent with its unused bits cleared.\<close>

definition clear_unused :: "nat \<Rightarrow> byte list \<Rightarrow> byte list" where
  "clear_unused unused bytes =
     (if unused mod 8 = 0 \<or> bytes = [] then bytes
      else butlast bytes @ [last bytes AND push_bit (unused mod 8) 0xff])"

text \<open>\<open>INTEGER_encode_der\<close> of the compiler removes leading octets that only repeat the sign of the next one, in the memory
  of the integer that is encoded: the rest is moved to the front, and what was at the end stays there. The result is the memory and
  the size that is encoded.\<close>

fun superfluous :: "byte list \<Rightarrow> nat" where
  "superfluous (x # y # bs) =
     (if x = 0x00 \<and> y AND 0x80 = 0 \<or> x = 0xff \<and> y AND 0x80 \<noteq> 0 then Suc (superfluous (y # bs)) else 0)"
| "superfluous bs = 0"

definition INTEGER_encode_der :: "byte list \<Rightarrow> nat \<Rightarrow> (byte list \<times> nat) option" where
  "INTEGER_encode_der buf n = do {
     bs \<leftarrow> rd_n buf n;
     let shift = superfluous bs;
     Some (drop shift bs @ drop (n - shift) buf, n - shift)
   }"

lemma superfluous_value: "be_int (drop (superfluous bs) bs) = be_int bs"
proof (induction bs rule: superfluous.induct)
  case (1 x y bs)
  then show ?case using redundant_be_int [of "x # y # bs" 0] by (auto simp: redundant_def)
qed simp_all


text \<open>What encoding with \<open>der_encode\<close> and decoding with \<open>ber_decode\<close> makes of a data element: the same element
  with the octets copied; integers without superfluous octets; the number of unused bits in the three bits that are sent.\<close>

definition asn1_transfer :: "(Data \<Rightarrow> Data) \<Rightarrow> bool" where
  "asn1_transfer codec \<longleftrightarrow>
     (\<forall>ds. codec (Data_array ds) = Data_array (map codec ds)) \<and>
     (\<forall>ds. codec (Data_structure ds) = Data_structure (map codec ds)) \<and>
     (\<forall>b. codec (Data_boolean b) = Data_boolean b) \<and>
     (\<forall>buf n unused. n \<le> length buf \<longrightarrow>
        codec (Data_bitstring buf n unused) = Data_bitstring (clear_unused unused (take n buf)) n (unused mod 8)) \<and>
     (\<forall>c \<in> {Data_integer, Data_unsigned}. \<forall>buf n buf' m. INTEGER_encode_der buf n = Some (buf', m) \<longrightarrow>
        codec (c buf n) = c (take m buf') m) \<and>
     (\<forall>c \<in> {Data_floatingpoint, Data_octetstring, Data_visiblestring,
        Data_binarytime, Data_mMSString, Data_utctime}.
        \<forall>buf n. n \<le> length buf \<longrightarrow> codec (c buf n) = c (take n buf) n)"

text \<open>Values a message can carry: every component present, no access errors, strings, and unused bits of bit strings
  0.\<close>

fun transferable :: "MmsValue \<Rightarrow> bool" where
  "transferable (MmsValue _ u) \<longleftrightarrow>
     (case u of
        V_array cs \<Rightarrow> all_components transferable cs
      | V_structure cs \<Rightarrow> all_components transferable cs
      | V_bitString n buf \<Rightarrow> clear_unused (8 - n mod 8) buf = buf
      | V_octetString n _ _ \<Rightarrow> n < 65536
      | V_visibleString s \<Rightarrow> (\<exists>t. s = Some t \<and> 0 \<notin> set t)
      | V_mmsString s \<Rightarrow> (\<exists>t. s = Some t \<and> 0 \<notin> set t)
      | V_dataAccessError _ \<Rightarrow> False
      | _ \<Rightarrow> True)"

text \<open>The same data: the same numbers, without superfluous octets, and the same content of everything else.\<close>

definition same_number :: "Asn1PrimitiveValue \<Rightarrow> Asn1PrimitiveValue \<Rightarrow> bool" where
  "same_number a b \<longleftrightarrow> be_int (apv_content b) = be_int (apv_content a) \<and>
     apv_content b = drop (superfluous (apv_content a)) (apv_content a)"

fun same_data :: "MmsValue \<Rightarrow> MmsValue \<Rightarrow> bool" where
  "same_data (MmsValue d u) (MmsValue d' u') =
     (case u of
        V_array cs \<Rightarrow> (case u' of V_array cs' \<Rightarrow>
          list_all2 (\<lambda>c c'. case c of None \<Rightarrow> False | Some v \<Rightarrow>
            (case c' of None \<Rightarrow> False | Some v' \<Rightarrow> same_data v v')) cs cs' | _ \<Rightarrow> False)
      | V_structure cs \<Rightarrow> (case u' of V_structure cs' \<Rightarrow>
          list_all2 (\<lambda>c c'. case c of None \<Rightarrow> False | Some v \<Rightarrow>
            (case c' of None \<Rightarrow> False | Some v' \<Rightarrow> same_data v v')) cs cs' | _ \<Rightarrow> False)
      | V_integer a \<Rightarrow> (case u' of V_integer b \<Rightarrow> same_number a b | _ \<Rightarrow> False)
      | V_unsigned a \<Rightarrow> (case u' of V_unsigned b \<Rightarrow> same_number a b | _ \<Rightarrow> False)
      | _ \<Rightarrow> mms_content (MmsValue d' u') = mms_content (MmsValue d u))"

definition same_data_all :: "MmsValue option list \<Rightarrow> MmsValue option list \<Rightarrow> bool" where
  "same_data_all = list_all2 (\<lambda>c c'. case c of None \<Rightarrow> False | Some v \<Rightarrow>
     (case c' of None \<Rightarrow> False | Some v' \<Rightarrow> same_data v v'))"

lemmas same_data_simps [simp] = same_data.simps [folded same_data_all_def]
declare same_data.simps [simp del]

definition received_as :: "MmsValue \<Rightarrow> MmsValue option option \<Rightarrow> bool" where
  "received_as v r \<longleftrightarrow> (\<exists>w. r = Some (Some w) \<and> mms_wf w \<and> same_data v w)"

lemma reverse_twice:
  "length buf = n \<Longrightarrow> memcpyReverseByteOrder (replicate n 0) buf n = Some (rev buf)"
  by (auto simp: memcpyReverseByteOrder_def rev_nth intro: nth_equalityI)

lemma takeWhile_nonzero: "0 \<notin> set t \<Longrightarrow> takeWhile (\<lambda>c. c \<noteq> (0::byte)) t = t"
  by (induction t) auto

lemma bits_sent: "n div 8 + (if n mod 8 > 0 then 1 else 0) = bits_to_bytes n"
  "bits_to_bytes n * 8 - (8 - n mod 8) mod 8 = n" "(8 - n mod 8) mod 8 \<le> bits_to_bytes n * 8"
proof -
  show "n div 8 + (if n mod 8 > 0 then 1 else 0) = bits_to_bytes n"
    by (simp add: bits_to_bytes_def)
  have "n = 8 * (n div 8) + n mod 8" by simp
  then show "bits_to_bytes n * 8 - (8 - n mod 8) mod 8 = n" "(8 - n mod 8) mod 8 \<le> bits_to_bytes n * 8"
    by (cases "n mod 8 = 0"; simp add: bits_to_bytes_def; linarith)+
qed


lemma codec_octets:
  assumes "asn1_transfer codec" and "n \<le> length buf"
  shows "codec (Data_floatingpoint buf n) = Data_floatingpoint (take n buf) n"
    "codec (Data_octetstring buf n) = Data_octetstring (take n buf) n"
    "codec (Data_visiblestring buf n) = Data_visiblestring (take n buf) n"
    "codec (Data_binarytime buf n) = Data_binarytime (take n buf) n"
    "codec (Data_mMSString buf n) = Data_mMSString (take n buf) n"
    "codec (Data_utctime buf n) = Data_utctime (take n buf) n"
    "codec (Data_bitstring buf n unused) = Data_bitstring (clear_unused unused (take n buf)) n (unused mod 8)"
  using assms by (simp_all add: asn1_transfer_def)

lemma codec_parts:
  assumes "asn1_transfer codec"
  shows "codec (Data_array ds) = Data_array (map codec ds)"
    "codec (Data_structure ds) = Data_structure (map codec ds)"
    "codec (Data_boolean b) = Data_boolean b"
  using assms by (simp_all add: asn1_transfer_def)

lemma codec_integers:
  assumes "asn1_transfer codec" and "n \<le> length buf"
  defines "bs \<equiv> drop (superfluous (take n buf)) (take n buf)"
  shows "codec (Data_integer buf n) = Data_integer bs (length bs)" "codec (Data_unsigned buf n) = Data_unsigned bs (length bs)"
proof -
  let ?k = "superfluous (take n buf)"
  have e: "INTEGER_encode_der buf n = Some (bs @ drop (n - ?k) buf, n - ?k)"
    using assms(2) by (simp add: INTEGER_encode_der_def rd_n_def bs_def Let_def)
  have "length bs = n - ?k" using assms(2) by (simp add: bs_def)
  with e assms(1) show "codec (Data_integer buf n) = Data_integer bs (length bs)"
      "codec (Data_unsigned buf n) = Data_unsigned bs (length bs)"
    by (auto simp: asn1_transfer_def)
qed

lemma integer_received:
  assumes "apv_inv a"
  defines "bs \<equiv> drop (superfluous (apv_content a)) (apv_content a)"
  shows "\<exists>b. BerInteger_createFromBuffer bs (length bs) = Some b \<and> apv_inv b \<and> same_number a b"
  using superfluous_value [of "apv_content a"]
  by (auto simp: bs_def BerInteger_createFromBuffer_def memcpy_def rd_n_def Let_def Asn1PrimitiveValue_create_def
      apv_inv_def same_number_def)

lemma basic_roundtrip:
  assumes codec: "asn1_transfer codec"
  shows "mms_wf v \<Longrightarrow> transferable v \<Longrightarrow>
      \<exists>d. mmsMsg_createBasicDataElement v = Some d \<and> received_as v (mmsMsg_parseDataElement (codec d))"
    "all_components mms_wf cs \<Longrightarrow> all_components transferable cs \<Longrightarrow>
      \<exists>ds ws. basicElements_loop cs = Some ds \<and> dataElements_loop (map codec ds) = Some ws \<and>
        all_components mms_wf ws \<and> same_data_all cs ws"
proof (induction v and cs rule: mmsMsg_createBasicDataElement_basicElements_loop.induct)
  case (1 dv u)
  note simps = received_as_def mmsMsg_parseDataElement.simps codec_parts [OF codec] codec_octets [OF codec]
  show ?case
  proof (cases u)
    case (V_array cs)
    then show ?thesis using 1 by (fastforce simp: simps)
  next
    case (V_structure cs)
    then show ?thesis using 1 by (fastforce simp: simps)
  next
    case (V_bitString n buf)
    then show ?thesis
      using 1 bits_sent [of n] by (auto simp: simps rd_n_def simp flip: bits_to_bytes_def)
  next
    case (V_floatingPoint e w buf)
    then show ?thesis using 1
      by (auto simp: simps mmsMsg_createFloatData_def reverse_twice rd_def)
  next
    case (V_integer a)
    then have "apv_inv a" "av_size a \<le> length (av_octets a)" using 1 by (simp_all add: apv_inv_def)
    then show ?thesis using V_integer integer_received [of a] codec_integers [OF codec, of "av_size a" "av_octets a"]
      by (auto simp: received_as_def mmsMsg_parseDataElement.simps MmsValue_newIntegerFromBerInteger_def)
  next
    case (V_unsigned a)
    then have "apv_inv a" "av_size a \<le> length (av_octets a)" using 1 by (simp_all add: apv_inv_def)
    then show ?thesis using V_unsigned integer_received [of a] codec_integers [OF codec, of "av_size a" "av_octets a"]
      by (auto simp: received_as_def mmsMsg_parseDataElement.simps MmsValue_newUnsignedFromBerInteger_def)
  qed (use 1 in \<open>auto simp: simps stringData_def rd_n_def memcpy_def takeWhile_nonzero MmsValue_newBoolean_def
      MmsValue_newVisibleStringFromByteArray_def createStringFromBuffer_def\<close>)
next
  case (3 c cs)
  then obtain v where c: "c = Some v" and v: "mms_wf v" "transferable v" by (auto split: option.splits)
  from 3(1) [OF c v] obtain d w where d: "mmsMsg_createBasicDataElement v = Some d"
      "mmsMsg_parseDataElement (codec d) = Some (Some w)" "mms_wf w" "same_data v w"
    by (auto simp: received_as_def)
  with 3 c show ?case by (fastforce simp: same_data_all_def)
qed (simp_all add: same_data_all_def)

text \<open>C36: A value sent in a write request arrives: the client's data element exists, and what the server
  reads from the element it receives is a well-formed value of the same structure, with the same content but for integers, which are the same
  numbers without superfluous leading octets, as the encoder sends them; for every value
  without missing components, access errors and characters 0.\<close>

theorem data_roundtrip:
  assumes "asn1_transfer codec" and "mms_wf v" and "transferable v"
  shows "\<exists>d. mmsMsg_createBasicDataElement v = Some d \<and> mmsMsg_createDataElement v = Some d \<and>
    received_as v (mmsMsg_parseDataElement (codec d))"
  using basic_roundtrip(1) [OF assms] by (simp add: createDataElement_basic)

text \<open>A function that does what is required of the two.\<close>

fun copy_data :: "Data \<Rightarrow> Data" where
  "copy_data (Data_array ds) = Data_array (map copy_data ds)"
| "copy_data (Data_structure ds) = Data_structure (map copy_data ds)"
| "copy_data (Data_bitstring buf n unused) = Data_bitstring (clear_unused unused (take n buf)) n (unused mod 8)"
| "copy_data (Data_integer buf n) = (case INTEGER_encode_der buf n of
     Some (buf, n) \<Rightarrow> Data_integer (take n buf) n | None \<Rightarrow> Data_NOTHING)"
| "copy_data (Data_unsigned buf n) = (case INTEGER_encode_der buf n of
     Some (buf, n) \<Rightarrow> Data_unsigned (take n buf) n | None \<Rightarrow> Data_NOTHING)"
| "copy_data (Data_floatingpoint buf n) = Data_floatingpoint (take n buf) n"
| "copy_data (Data_octetstring buf n) = Data_octetstring (take n buf) n"
| "copy_data (Data_visiblestring buf n) = Data_visiblestring (take n buf) n"
| "copy_data (Data_binarytime buf n) = Data_binarytime (take n buf) n"
| "copy_data (Data_mMSString buf n) = Data_mMSString (take n buf) n"
| "copy_data (Data_utctime buf n) = Data_utctime (take n buf) n"
| "copy_data d = d"

lemma copy_data_transfer: "asn1_transfer copy_data"
  by (auto simp: asn1_transfer_def)

definition demo_record :: MmsValue where
  "demo_record = MmsValue 0 (V_structure
     [Some (MmsValue 0 (V_integer \<lparr>av_size = 4, av_maxSize = 4, av_octets = [0, 0, 1, 5]\<rparr>)),
      Some (MmsValue 0 (V_bitString 8 [0x5a])), Some (MmsValue 0 (V_bitString 13 [0x12, 0xf8])),
      Some (MmsValue 0 (V_visibleString (Some [0x61, 0x62]))),
      Some (MmsValue 0 (V_array [Some (MmsValue 0 (V_floatingPoint 8 32 [1, 2, 3, 4]))]))])"

theorem data_roundtrip_witness:
  "\<exists>d. mmsMsg_createBasicDataElement demo_record = Some d \<and> mmsMsg_createDataElement demo_record = Some d \<and>
    received_as demo_record (mmsMsg_parseDataElement (copy_data d))"
  by (rule data_roundtrip [OF copy_data_transfer])
    (simp_all add: demo_record_def bits_to_bytes_def clear_unused_def push_bit_eq_mult apv_inv_def)



end
