(* ===== verification/Mms_Type_Spec.thy ===== *)
theory Mms_Type_Spec
  imports Mms_Value
begin

text \<open>
  Type descriptions: \<open>src/src/mms/iso_mms/common/mms_type_spec.c\<close> and the constructors of
  \<open>mms_value.c\<close> that build a default value from a description. A description is a tree like a
  value; element pointers of a structure are never \<open>NULL\<close>.
\<close>

section \<open>Default values\<close>

lemma size_element [termination_simp]: "e \<in> set es \<Longrightarrow> size e < size_list size es"
  by (induction es) auto

text \<open>The outer \<open>None\<close> is the \<open>NULL\<close> returned for a type without default value.\<close>

function MmsValue_newDefaultValue :: "MmsVariableSpecification \<Rightarrow> MmsValue option"
  and MmsValue_newStructure :: "MmsVariableSpecification list \<Rightarrow> MmsValue"
  and MmsValue_createArray :: "MmsVariableSpecification \<Rightarrow> nat \<Rightarrow> MmsValue"
where
  "MmsValue_newDefaultValue (MmsVariableSpecification _ t) =
     (case t of
        T_integer bits \<Rightarrow> Some (MmsValue_newInteger bits)
      | T_unsigned bits \<Rightarrow> Some (MmsValue_newUnsigned bits)
      | T_float e w \<Rightarrow> Some (MmsValue 0 (V_floatingPoint e w (replicate (unat w div 8) 0)))
      | T_bitString n \<Rightarrow>
          Some (MmsValue 0 (V_bitString (nat \<bar>n\<bar>) (replicate (bits_to_bytes (nat \<bar>n\<bar>)) 0)))
      | T_octetString n \<Rightarrow>
          Some (MmsValue 0 (V_octetString ((if n < 0 then 0 else nat n) mod 65536)
            (nat \<bar>n\<bar> mod 65536) (replicate (nat \<bar>n\<bar>) 0)))
      | T_visibleString _ \<Rightarrow> Some (MmsValue_newVisibleString None)
      | T_boolean \<Rightarrow> Some (MmsValue_newBoolean False)
      | T_utcTime \<Rightarrow> Some (MmsValue 0 (V_utcTime (replicate 8 0)))
      | T_array n e \<Rightarrow> Some (MmsValue_createArray e n)
      | T_structure es \<Rightarrow> Some (MmsValue_newStructure es)
      | T_mmsString _ \<Rightarrow> Some (MmsValue_newMmsString None)
      | T_binaryTime n \<Rightarrow> Some (MmsValue_newBinaryTime (n = 4))
      | T_generalizedTime \<Rightarrow> None
      | T_bcd \<Rightarrow> None
      | T_objId \<Rightarrow> None
      | T_dataAccessError \<Rightarrow> None)"
| "MmsValue_newStructure elements = MmsValue 0 (V_structure (map MmsValue_newDefaultValue elements))"
| "MmsValue_createArray elementType n =
     MmsValue 0 (V_array (map (\<lambda>_. MmsValue_newDefaultValue elementType) [0..<n]))"
  by pat_completeness auto
termination
  by (relation "measure (\<lambda>x. case x of Inl s \<Rightarrow> size s
        | Inr (Inl es) \<Rightarrow> size_list size es | Inr (Inr (e, n)) \<Rightarrow> Suc (size e))")
    (auto simp: size_element)


section \<open>Descriptions\<close>

fun directChildStrLen :: "cstring \<Rightarrow> nat" where
  "directChildStrLen [] = 0"
| "directChildStrLen (c # childId) = (if c = 0x24 then 0 else Suc (directChildStrLen childId))"

text \<open>The result is \<open>Some\<close> of the pointer returned. \<open>value\<close> is dereferenced only after a name has
  matched.\<close>

definition component_at :: "MmsValue option \<Rightarrow> nat \<Rightarrow> MmsValue option option" where
  "component_at ptr i = do {
     v \<leftarrow> ptr;
     cs \<leftarrow> components v;
     if i < length cs then Some (cs ! i) else None
   }"

function MmsVariableSpecification_getChildValue ::
    "MmsVariableSpecification \<Rightarrow> MmsValue option \<Rightarrow> cstring \<Rightarrow> MmsValue option option"
  and getChildValue_loop ::
    "MmsVariableSpecification list \<Rightarrow> nat \<Rightarrow> MmsValue option \<Rightarrow> cstring \<Rightarrow> MmsValue option option"
where
  "MmsVariableSpecification_getChildValue (MmsVariableSpecification _ t) ptr childId =
     (case t of
        T_structure elements \<Rightarrow> getChildValue_loop elements 0 ptr childId
      | _ \<Rightarrow> Some None)"
| "getChildValue_loop [] i ptr childId = Some None"
| "getChildValue_loop (e # elements) i ptr childId = do {
     name \<leftarrow> spec_name e;
     let childLen = directChildStrLen childId;
     if length name = childLen \<and> name = take childLen childId then do {
       c \<leftarrow> component_at ptr i;
       if childLen = length childId then Some c
       else MmsVariableSpecification_getChildValue e c (drop (childLen + 1) childId)
     }
     else getChildValue_loop elements (i + 1) ptr childId
   }"
  by pat_completeness auto
termination
  by (relation "measure (\<lambda>x. case x of Inl (s, _) \<Rightarrow> size s | Inr (es, _) \<Rightarrow> size_list size es)")
    auto

definition MmsValue_getSubElement ::
  "MmsValue option \<Rightarrow> MmsVariableSpecification \<Rightarrow> cstring \<Rightarrow> MmsValue option option" where
  "MmsValue_getSubElement self varSpec mmsPath =
     MmsVariableSpecification_getChildValue varSpec self mmsPath"

definition MmsVariableSpecification_getName :: "MmsVariableSpecification \<Rightarrow> cstring option" where
  "MmsVariableSpecification_getName self = spec_name self"

text \<open>The inner list is the names copied; copying a \<open>NULL\<close> name is undefined.\<close>

definition MmsVariableSpecification_getStructureElements ::
  "MmsVariableSpecification \<Rightarrow> cstring list option option" where
  "MmsVariableSpecification_getStructureElements self =
     (case typeSpec self of
        T_structure elements \<Rightarrow>
          map_option Some (those (map (\<lambda>e. map_option copyString (spec_name e)) elements))
      | _ \<Rightarrow> Some None)"

definition MmsVariableSpecification_getSize :: "MmsVariableSpecification \<Rightarrow> int" where
  "MmsVariableSpecification_getSize self =
     (case typeSpec self of
        T_structure elements \<Rightarrow> int (length elements)
      | T_array n _ \<Rightarrow> int n
      | T_integer n \<Rightarrow> n
      | T_unsigned n \<Rightarrow> n
      | T_float _ w \<Rightarrow> uint w
      | T_bitString n \<Rightarrow> n
      | T_binaryTime n \<Rightarrow> n
      | T_octetString n \<Rightarrow> n
      | T_visibleString n \<Rightarrow> n
      | T_mmsString n \<Rightarrow> n
      | _ \<Rightarrow> -1)"

definition MmsVariableSpecification_getChildSpecificationByIndex ::
  "MmsVariableSpecification \<Rightarrow> int \<Rightarrow> MmsVariableSpecification option" where
  "MmsVariableSpecification_getChildSpecificationByIndex self index =
     (case typeSpec self of
        T_structure elements \<Rightarrow>
          if index \<ge> int (length elements) then None
          else if index < 0 then None
          else Some (elements ! nat index)
      | _ \<Rightarrow> None)"

definition MmsVariableSpecification_getArrayElementSpecification ::
  "MmsVariableSpecification \<Rightarrow> MmsVariableSpecification option" where
  "MmsVariableSpecification_getArrayElementSpecification self =
     (case typeSpec self of T_array _ e \<Rightarrow> Some e | _ \<Rightarrow> None)"

definition MmsVariableSpecification_getExponentWidth :: "MmsVariableSpecification \<Rightarrow> int" where
  "MmsVariableSpecification_getExponentWidth self =
     (case typeSpec self of T_float e _ \<Rightarrow> uint e | _ \<Rightarrow> -1)"


section \<open>Typing\<close>

text \<open>A value of a description: same shape, and for the simple types the parameters an update
  never changes.\<close>

fun conforms :: "MmsVariableSpecification \<Rightarrow> MmsValue \<Rightarrow> bool" where
  "conforms (MmsVariableSpecification _ t) (MmsValue _ u) =
     (case t of
        T_array n e \<Rightarrow>
          (case u of V_array cs \<Rightarrow> length cs = n \<and> all_components (conforms e) cs | _ \<Rightarrow> False)
      | T_structure es \<Rightarrow>
          (case u of
             V_structure cs \<Rightarrow>
               list_all2 (\<lambda>e c. case c of None \<Rightarrow> False | Some v \<Rightarrow> conforms e v) es cs
           | _ \<Rightarrow> False)
      | T_boolean \<Rightarrow> (case u of V_boolean _ \<Rightarrow> True | _ \<Rightarrow> False)
      | T_bitString n \<Rightarrow> (case u of V_bitString m _ \<Rightarrow> m = nat \<bar>n\<bar> | _ \<Rightarrow> False)
      | T_integer bits \<Rightarrow>
          (case u of V_integer a \<Rightarrow> (if bits \<le> 32 then 4 else 8) \<le> av_maxSize a | _ \<Rightarrow> False)
      | T_unsigned bits \<Rightarrow>
          (case u of V_unsigned a \<Rightarrow> (if bits \<le> 32 then 4 else 8) \<le> av_maxSize a | _ \<Rightarrow> False)
      | T_float _ w \<Rightarrow> (case u of V_floatingPoint _ w' _ \<Rightarrow> w' = w | _ \<Rightarrow> False)
      | T_octetString n \<Rightarrow> (case u of V_octetString _ m _ \<Rightarrow> m = nat \<bar>n\<bar> | _ \<Rightarrow> False)
      | T_visibleString _ \<Rightarrow> (case u of V_visibleString _ \<Rightarrow> True | _ \<Rightarrow> False)
      | T_mmsString _ \<Rightarrow> (case u of V_mmsString _ \<Rightarrow> True | _ \<Rightarrow> False)
      | T_binaryTime _ \<Rightarrow> (case u of V_binaryTime _ _ \<Rightarrow> True | _ \<Rightarrow> False)
      | T_utcTime \<Rightarrow> (case u of V_utcTime _ \<Rightarrow> True | _ \<Rightarrow> False)
      | _ \<Rightarrow> False)"

text \<open>Descriptions with a default value, of sizes the representation can hold.\<close>

fun spec_ok :: "MmsVariableSpecification \<Rightarrow> bool" where
  "spec_ok (MmsVariableSpecification _ t) =
     (case t of
        T_array n e \<Rightarrow> n = 0 \<or> spec_ok e
      | T_structure es \<Rightarrow> list_all spec_ok es
      | T_float _ w \<Rightarrow> w = 32 \<or> w = 64
      | T_octetString n \<Rightarrow> \<bar>n\<bar> < 65536
      | T_generalizedTime \<Rightarrow> False
      | T_bcd \<Rightarrow> False
      | T_objId \<Rightarrow> False
      | T_dataAccessError \<Rightarrow> False
      | _ \<Rightarrow> True)"

lemma default_conforms:
  "spec_ok s \<Longrightarrow> \<exists>v. MmsValue_newDefaultValue s = Some v \<and> mms_wf v \<and> conforms s v \<and>
     MmsValue_isDeletable v = 0"
proof (induction s rule: spec_ok.induct)
  case (1 nm t)
  show ?case
  proof (cases t)
    case (T_array n e)
    then show ?thesis
      using 1 by (cases "n = 0") (auto simp: all_components_alt MmsValue_isDeletable_def)
  next
    case (T_structure es)
    have "\<exists>v. MmsValue_newDefaultValue e = Some v \<and> mms_wf v \<and> conforms e v" if "e \<in> set es" for e
      using that T_structure 1(2) [OF T_structure that] 1(3) by (auto simp: list_all_iff)
    then show ?thesis
      by (fastforce simp: T_structure all_components_alt list_all2_conv_all_nth
          MmsValue_isDeletable_def dest: nth_mem)
  qed (use 1 in \<open>auto simp: MmsValue_isDeletable_def MmsValue_newInteger_def
      MmsValue_newUnsigned_def BerInteger_createInt32_def BerInteger_createInt64_def
      Asn1PrimitiveValue_create_def apv_inv_def MmsValue_newVisibleString_def
      setVisibleStringValue_def MmsValue_newMmsString_def setMmsStringValue_def set_union_def
      MmsValue_newBoolean_def MmsValue_newBinaryTime_def\<close>)
qed

text \<open>Every description the representation supports has a default value: it is well-formed,
  of the type the description names at every level, and not marked deletable.\<close>

theorem mms_default_value_typed:
  assumes "spec_ok s"
  shows "\<exists>v. MmsValue_newDefaultValue s = Some v \<and> mms_wf v \<and> conforms s v \<and>
    MmsValue_isDeletable v = 0"
  by (rule default_conforms [OF assms])

definition demo_spec :: MmsVariableSpecification where
  "demo_spec = MmsVariableSpecification (Some [0x4d]) (T_structure
     [MmsVariableSpecification (Some [0x61]) T_boolean,
      MmsVariableSpecification (Some [0x62]) (T_structure
        [MmsVariableSpecification (Some [0x63]) (T_integer 32),
         MmsVariableSpecification (Some [0x64]) (T_array 2
           (MmsVariableSpecification None (T_float 8 32)))])])"

theorem mms_default_value_typed_witness:
  "\<exists>v. MmsValue_newDefaultValue demo_spec = Some v \<and> mms_wf v \<and> conforms demo_spec v \<and>
    MmsValue_isDeletable v = 0"
  by (rule mms_default_value_typed) (simp add: demo_spec_def)

text \<open>Components of a list of descriptions; an array is the case of equal descriptions.\<close>

abbreviation conforms_list :: "MmsVariableSpecification list \<Rightarrow> MmsValue option list \<Rightarrow> bool" where
  "conforms_list \<equiv> list_all2 (\<lambda>e c. case c of None \<Rightarrow> False | Some v \<Rightarrow> conforms e v)"

lemma all_components_conforms:
  "length cs = n \<and> all_components (conforms e) cs \<longleftrightarrow> conforms_list (replicate n e) cs"
proof (induction cs arbitrary: n)
  case (Cons c cs)
  then show ?case by (cases n) (auto split: option.splits)
qed auto

lemma update_conforms:
  "mms_wf a \<Longrightarrow> mms_wf b \<Longrightarrow> MmsValue_update a b = Some (r, v) \<Longrightarrow> conforms s a \<Longrightarrow> conforms s v"
  "all_components mms_wf cs \<Longrightarrow> all_components mms_wf cs' \<Longrightarrow>
     updateStructuredComponent cs cs' = Some vs \<Longrightarrow> conforms_list es cs \<Longrightarrow> conforms_list es vs"
proof (induction a b and cs cs' arbitrary: s r v and es vs
    rule: MmsValue_update_updateStructuredComponent.induct)
  case (1 d u d' u')
  obtain nm t where s: "s = MmsVariableSpecification nm t" by (cases s)
  show ?case
  proof (cases u u' rule: union_pair_cases)
    case (arrays cs cs')
    then show ?thesis using 1(1) [OF arrays] 1(3-6) s
      by (auto simp: all_components_conforms split: MmsTypeSpecification.splits)
  next
    case (structures cs cs')
    then show ?thesis using 1(2) [OF structures] 1(3-6) s
      by (auto split: MmsTypeSpecification.splits)
  next
    case other
    then show ?thesis
      using 1(3-6) s
      by (cases u; cases u')
        (auto simp: mms_wf_union memcpy_def rd_n_def setFromBerInteger_cases
          MmsValue_setVisibleString_def MmsValue_setMmsString_def MmsValue_getType_def
          setVisibleStringValue_def setMmsStringValue_def set_union_def
          split: MmsTypeSpecification.splits if_splits)
  qed
next
  case (4 c cs c' cs')
  then obtain x y where c: "c = Some x" "c' = Some y"
    by (auto split: option.splits)
  obtain r w rest where u: "MmsValue_update x y = Some (r, w)"
      "updateStructuredComponent cs cs' = Some rest" "vs = Some w # rest"
    using 4(5) by (auto simp: c bind_eq_Some_conv)
  obtain e es' where es: "es = e # es'" "conforms e x" "conforms_list es' cs"
    using 4(6) by (auto simp: c list_all2_Cons2)
  show ?case
    using 4(1) [OF c _ _ u(1) es(2)] 4(2) [OF c u(1) refl _ _ u(2) es(3)] 4(3,4) u(3) es(1) c
    by simp
qed auto

text \<open>The life of a variable: it starts with the default value of its description and is written
  by updates with arbitrary well-formed values.\<close>

inductive variable_value :: "MmsVariableSpecification \<Rightarrow> MmsValue \<Rightarrow> bool" for s where
  start: "MmsValue_newDefaultValue s = Some v \<Longrightarrow> variable_value s v"
| written: "variable_value s v \<Longrightarrow> mms_wf b \<Longrightarrow> MmsValue_update v b = Some (r, v') \<Longrightarrow>
    variable_value s v'"

text \<open>C24: Whatever is written to a variable, and whether a write succeeds or not, its value remains
  well-formed and keeps the type of its description at every level.\<close>

theorem mms_variable_keeps_type:
  assumes "variable_value s v" and "spec_ok s"
  shows "mms_wf v \<and> conforms s v"
  using assms(1)
proof induction
  case (start v)
  then show ?case using default_conforms [OF assms(2)] by auto
next
  case (written v b r v')
  then show ?case
    using update_conforms(1) update_safe(1) [of v b] by (auto split: option.splits)
qed

theorem mms_variable_keeps_type_witness:
  "mms_wf (the (MmsValue_newDefaultValue demo_spec)) \<and>
   conforms demo_spec (the (MmsValue_newDefaultValue demo_spec))"
  by (rule mms_variable_keeps_type) (auto intro!: variable_value.start simp: demo_spec_def)


section \<open>Paths\<close>

text \<open>The reference: split the path at the dollar signs and walk down by names.\<close>

function split_path :: "cstring \<Rightarrow> cstring list" where
  "split_path p =
     (case dropWhile (\<lambda>c. c \<noteq> 0x24) p of
        [] \<Rightarrow> [takeWhile (\<lambda>c. c \<noteq> 0x24) p]
      | _ # rest \<Rightarrow> takeWhile (\<lambda>c. c \<noteq> 0x24) p # split_path rest)"
  by pat_completeness auto
termination
proof (relation "measure length")
  fix p :: cstring and d rest
  assume "dropWhile (\<lambda>c. c \<noteq> 0x24) p = d # rest"
  then show "(rest, p) \<in> measure length"
    using length_dropWhile_le [of "\<lambda>c. c \<noteq> 0x24" p] by simp
qed simp

declare split_path.simps [simp del]

fun resolve :: "MmsVariableSpecification \<Rightarrow> MmsValue \<Rightarrow> cstring list \<Rightarrow>
    (MmsVariableSpecification \<times> MmsValue) option" where
  "resolve s v [] = Some (s, v)"
| "resolve s v (n # ns) =
     (case typeSpec s of
        T_structure es \<Rightarrow>
          (case components v of
             Some cs \<Rightarrow>
               (case find (\<lambda>(e, c). spec_name e = Some n) (zip es cs) of
                  Some (e, Some c) \<Rightarrow> resolve e c ns
                | _ \<Rightarrow> None)
           | None \<Rightarrow> None)
      | _ \<Rightarrow> None)"

fun names_set :: "MmsVariableSpecification \<Rightarrow> bool" where
  "names_set (MmsVariableSpecification _ t) =
     (case t of
        T_structure es \<Rightarrow> list_all (\<lambda>e. spec_name e \<noteq> None \<and> names_set e) es
      | _ \<Rightarrow> True)"

lemma directChildStrLen_eq: "directChildStrLen p = length (takeWhile (\<lambda>c. c \<noteq> 0x24) p)"
  by (induction p) auto

lemma directChild_name: "take (directChildStrLen p) p = takeWhile (\<lambda>c. c \<noteq> 0x24) p"
  by (induction p) auto

lemma split_path_last:
  assumes "directChildStrLen p = length p"
  shows "split_path p = [p]"
proof -
  have "takeWhile (\<lambda>c. c \<noteq> 0x24) p = p"
    using assms directChild_name [of p] by simp
  moreover from this have "dropWhile (\<lambda>c. c \<noteq> 0x24) p = []"
    by (simp add: takeWhile_eq_all_conv dropWhile_eq_Nil_conv)
  ultimately show ?thesis by (subst split_path.simps) (simp only: list.case)
qed

lemma split_path_more:
  assumes "directChildStrLen p \<noteq> length p"
  shows "split_path p = take (directChildStrLen p) p # split_path (drop (directChildStrLen p + 1) p)"
proof -
  have "dropWhile (\<lambda>c. c \<noteq> 0x24) p = drop (directChildStrLen p) p"
    by (simp add: directChildStrLen_eq dropWhile_eq_drop)
  moreover have "directChildStrLen p < length p"
    using assms directChildStrLen_eq [of p] length_takeWhile_le [of "\<lambda>c. c \<noteq> 0x24" p] by simp
  ultimately show ?thesis
    by (subst split_path.simps) (simp add: directChild_name flip: Cons_nth_drop_Suc)
qed

lemma component_at_structure:
  "i < length cs \<Longrightarrow> component_at (Some (MmsValue d (V_structure cs))) i = Some (cs ! i)"
  by (simp add: component_at_def components_def)

lemma split_path_hd: "hd (split_path p) = take (directChildStrLen p) p" "split_path p \<noteq> []"
  by (cases "directChildStrLen p = length p"; simp add: split_path_last split_path_more)+

lemma getChildValue_resolve:
  "conforms s v \<Longrightarrow> names_set s \<Longrightarrow>
     MmsVariableSpecification_getChildValue s (Some v) p = Some (map_option snd (resolve s v (split_path p)))"
  "v = MmsValue d (V_structure cs) \<Longrightarrow> conforms_list es (drop i cs) \<Longrightarrow> i \<le> length cs \<Longrightarrow>
     list_all (\<lambda>e. spec_name e \<noteq> None \<and> names_set e) es \<Longrightarrow>
     getChildValue_loop es i (Some v) p = Some (map_option snd
       (case find (\<lambda>(e, c). spec_name e = Some (hd (split_path p))) (zip es (drop i cs)) of
          Some (e, Some c) \<Rightarrow> resolve e c (tl (split_path p)) | _ \<Rightarrow> None))"
proof (induction s "Some v" p and es i "Some v" p arbitrary: v and v cs d
    rule: MmsVariableSpecification_getChildValue_getChildValue_loop.induct)
  case (1 nm t p)
  obtain d u where v: "v = MmsValue d u" by (cases v)
  have path: "split_path p = hd (split_path p) # tl (split_path p)"
    using split_path_hd(2) [of p] by simp
  show ?case
  proof (cases t)
    case (T_structure es)
    then obtain cs where u: "u = V_structure cs" "conforms_list es cs"
      using 1(2) v by (cases u) auto
    show ?thesis
      using 1(1) [OF T_structure, of d cs] 1(3) T_structure u v
      by (subst path) (simp add: components_def)
  qed (subst path, simp)+
next
  case (3 e es i p)
  obtain x where x: "i < length cs" "cs ! i = Some x" "conforms e x" "conforms_list es (drop (Suc i) cs)"
    using 3(4) by (cases "i < length cs") (auto simp: list_all2_Cons1 Cons_nth_drop_Suc [symmetric]
      split: option.splits)
  then have drop: "drop i cs = Some x # drop (Suc i) cs" by (metis Cons_nth_drop_Suc)
  obtain name where name: "spec_name e = Some name" using 3(6) by auto
  have at: "component_at (Some v) i = Some (Some x)"
    using x 3(3) by (simp add: component_at_structure)
  let ?n = "directChildStrLen p"
  show ?case
  proof (cases "name = take ?n p")
    case True
    then have len: "length name = ?n"
      using directChildStrLen_eq [of p] directChild_name [of p] by simp
    show ?thesis
    proof (cases "?n = length p")
      case True
      then show ?thesis
        using name \<open>name = take ?n p\<close> len at
        by (simp add: drop split_path_last)
    next
      case False
      then show ?thesis
        using name \<open>name = take ?n p\<close> len at x(3) 3(6) 3(1) [OF name refl _ at False]
        by (simp add: drop split_path_more)
    qed
  next
    case False
    then have "hd (split_path p) \<noteq> name" by (simp add: split_path_hd)
    with False show ?thesis
      using name 3(2) [OF name refl _ 3(3)] x 3(6)
      by (simp add: drop)
  qed
qed auto

lemma resolve_conforms:
  "conforms s v \<Longrightarrow> resolve s v ns = Some (s', v') \<Longrightarrow> conforms s' v'"
proof (induction s v ns rule: resolve.induct)
  case (2 s v n ns)
  obtain nm es where s: "s = MmsVariableSpecification nm (T_structure es)"
    using 2(3) by (cases s) (auto split: MmsTypeSpecification.splits)
  obtain d cs where v: "v = MmsValue d (V_structure cs)" "conforms_list es cs"
    using 2(2) s by (cases v; cases "mv_value v") auto
  obtain e c where f: "find (\<lambda>(e, c). spec_name e = Some n) (zip es cs) = Some (e, Some c)"
      "resolve e c ns = Some (s', v')"
    using 2(3) s v by (auto simp: components_def split: option.splits prod.splits)
  then have "(e, Some c) \<in> set (zip es cs)"
    using find_Some_iff [of _ "zip es cs" "(e, Some c)"] nth_mem [of _ "zip es cs"] by metis
  then have "conforms e c"
    using v(2) by (auto simp: list_all2_iff)
  then show ?case
    using 2(1) [of es cs "(e, Some c)" e "Some c" c] s v f by (simp add: components_def)
qed simp

text \<open>Looking up a component by its path finds what splitting the path at the dollar signs and
  walking down by names finds, without leaving an allocation, for every value of the description
  and every path; the component found has the type of its part of the description.\<close>

theorem mms_path_lookup:
  assumes "conforms s v" and "names_set s"
  shows "MmsValue_getSubElement (Some v) s p =
      Some (map_option snd (resolve s v (split_path p))) \<and>
    (\<forall>s' v'. resolve s v (split_path p) = Some (s', v') \<longrightarrow> conforms s' v')"
  using getChildValue_resolve(1) [OF assms] resolve_conforms [OF assms(1)]
  by (simp add: MmsValue_getSubElement_def)

definition demo_value :: MmsValue where
  "demo_value = MmsValue 0 (V_structure
     [Some (MmsValue 0 (V_boolean True)),
      Some (MmsValue 0 (V_structure
        [Some (MmsValue 0 (V_integer \<lparr>av_size = 1, av_maxSize = 4, av_octets = [5, 0, 0, 0]\<rparr>)),
         Some (MmsValue 0 (V_array
           [Some (MmsValue 0 (V_floatingPoint 8 32 [0, 0, 0, 0])),
            Some (MmsValue 0 (V_floatingPoint 8 32 [0, 0, 0, 0]))]))]))])"

theorem mms_path_lookup_witness:
  "MmsValue_getSubElement (Some demo_value) demo_spec [0x62, 0x24, 0x63] =
     Some (map_option snd (resolve demo_spec demo_value (split_path [0x62, 0x24, 0x63])))"
  using mms_path_lookup [of demo_spec demo_value "[0x62, 0x24, 0x63]"]
  by (simp add: demo_spec_def demo_value_def)

end
