(* ===== verification/Control_Object.thy ===== *)
theory Control_Object
  imports Mms_Type_Spec
begin

text \<open>
  \<open>src/src/iedserver/mms_mapping/control.c\<close>: the IEC 61850 control service of the server, and the
  registry of client connections it uses (\<open>src/src/iedserver/impl/client_connection.c\<close>,
  \<open>ied_server.c\<close>). Connections, domains and clients are addresses. A pointer into the value of the
  control object (\<open>oper\<close>, \<open>sbow\<close>, \<open>cancel\<close>) is the index of the component, a pointer into the value cache of
  the server (\<open>sboClass\<close>, \<open>sboTimeout\<close>) is the name of the cached variable.

  What a call depends on besides the object is its environment: the time, the value cache, the names of
  domains, the answers of the installed handlers and the content of new memory. What it sends or
  triggers is a list of events. \<open>None\<close> is undefined behaviour.
\<close>

section \<open>Data\<close>

datatype CheckHandlerResult =
  CONTROL_ACCEPTED | CONTROL_HARDWARE_FAULT | CONTROL_TEMPORARILY_UNAVAILABLE
  | CONTROL_OBJECT_ACCESS_DENIED | CONTROL_OBJECT_UNDEFINED

text \<open>The number behind the enumeration constant, and its conversion to \<open>bool\<close>.\<close>

primrec check_code :: "CheckHandlerResult \<Rightarrow> int" where
  "check_code CONTROL_ACCEPTED = -1"
| "check_code CONTROL_HARDWARE_FAULT = 1"
| "check_code CONTROL_TEMPORARILY_UNAVAILABLE = 2"
| "check_code CONTROL_OBJECT_ACCESS_DENIED = 3"
| "check_code CONTROL_OBJECT_UNDEFINED = 4"

definition int_to_bool :: "int \<Rightarrow> bool" where
  "int_to_bool n \<longleftrightarrow> n \<noteq> 0"

datatype MmsDataAccessError =
  DATA_ACCESS_ERROR_NO_RESPONSE | DATA_ACCESS_ERROR_SUCCESS | DATA_ACCESS_ERROR_OBJECT_INVALIDATED
  | DATA_ACCESS_ERROR_HARDWARE_FAULT | DATA_ACCESS_ERROR_TEMPORARILY_UNAVAILABLE
  | DATA_ACCESS_ERROR_OBJECT_ACCESS_DENIED | DATA_ACCESS_ERROR_OBJECT_UNDEFINED
  | DATA_ACCESS_ERROR_INVALID_ADDRESS | DATA_ACCESS_ERROR_TYPE_UNSUPPORTED
  | DATA_ACCESS_ERROR_TYPE_INCONSISTENT | DATA_ACCESS_ERROR_OBJECT_ATTRIBUTE_INCONSISTENT
  | DATA_ACCESS_ERROR_OBJECT_ACCESS_UNSUPPORTED | DATA_ACCESS_ERROR_OBJECT_NONE_EXISTENT
  | DATA_ACCESS_ERROR_OBJECT_VALUE_INVALID | DATA_ACCESS_ERROR_UNKNOWN

datatype ControlState =
  STATE_UNSELECTED | STATE_READY | STATE_WAIT_FOR_ACTICATION_TIME | STATE_PERFORM_TEST
  | STATE_WAIT_FOR_EXECUTION | STATE_OPERATE

abbreviation CONTROL_ERROR_NO_ERROR :: i32 where "CONTROL_ERROR_NO_ERROR \<equiv> 0"
abbreviation CONTROL_ADD_CAUSE_SELECT_FAILED :: i32 where "CONTROL_ADD_CAUSE_SELECT_FAILED \<equiv> 3"
abbreviation CONTROL_ADD_CAUSE_BLOCKED_BY_INTERLOCKING :: i32 where
  "CONTROL_ADD_CAUSE_BLOCKED_BY_INTERLOCKING \<equiv> 10"
abbreviation CONTROL_ADD_CAUSE_BLOCKED_BY_SYNCHROCHECK :: i32 where
  "CONTROL_ADD_CAUSE_BLOCKED_BY_SYNCHROCHECK \<equiv> 11"
abbreviation CONTROL_ADD_CAUSE_COMMAND_ALREADY_IN_EXECUTION :: i32 where
  "CONTROL_ADD_CAUSE_COMMAND_ALREADY_IN_EXECUTION \<equiv> 12"
abbreviation CONTROL_ADD_CAUSE_OBJECT_NOT_SELECTED :: i32 where
  "CONTROL_ADD_CAUSE_OBJECT_NOT_SELECTED \<equiv> 18"
abbreviation CONTROL_ADD_CAUSE_OBJECT_ALREADY_SELECTED :: i32 where
  "CONTROL_ADD_CAUSE_OBJECT_ALREADY_SELECTED \<equiv> 19"
abbreviation CONTROL_ADD_CAUSE_INCONSISTENT_PARAMETERS :: i32 where
  "CONTROL_ADD_CAUSE_INCONSISTENT_PARAMETERS \<equiv> 26"
abbreviation CONTROL_ADD_CAUSE_LOCKED_BY_OTHER_CLIENT :: i32 where
  "CONTROL_ADD_CAUSE_LOCKED_BY_OTHER_CLIENT \<equiv> 27"

definition CONFIG_CONTROL_DEFAULT_SBO_TIMEOUT :: u32 where
  "CONFIG_CONTROL_DEFAULT_SBO_TIMEOUT = 15000"

type_synonym MmsServerConnection = nat
type_synonym MmsDomain = nat

text \<open>The client argument of a check handler: a client looked up by its connection, or a
  connection cast to the type of a client.\<close>

datatype ClientArgument = Client_found "nat option" | Connection_cast "MmsServerConnection option"

record ControlEnv =
  ce_time :: u64
  ce_cache :: "MmsDomain \<Rightarrow> cstring \<Rightarrow> MmsValue option"
  ce_domainName :: "MmsDomain \<Rightarrow> cstring"
  ce_lastInvokeId :: "MmsServerConnection \<Rightarrow> u32"
  ce_check :: "MmsValue option \<Rightarrow> bool \<Rightarrow> bool \<Rightarrow> ClientArgument \<Rightarrow> CheckHandlerResult"
  ce_wait :: "MmsValue option \<Rightarrow> bool \<Rightarrow> bool \<Rightarrow> bool"
  ce_junk :: "nat \<Rightarrow> byte"

datatype ControlEvent =
  E_lastApplError "MmsServerConnection option" MmsValue bool
  | E_commandTermination "MmsServerConnection option" cstring cstring "MmsValue option"
  | E_writeResponse "MmsServerConnection option" u32 MmsDataAccessError
  | E_listener "MmsValue option" bool
  | E_operateThread

record ControlObject =
  ct_mmsDomain :: MmsDomain
  ct_lnName :: cstring
  ct_name :: cstring
  ct_state :: ControlState
  ct_mmsValue :: "MmsValue option"
  ct_typeSpec :: "MmsVariableSpecification option"
  ct_oper :: "nat option"
  ct_sbo :: "MmsValue option"
  ct_sbow :: "nat option"
  ct_cancel :: "nat option"
  ct_ctlVal :: "MmsValue option"
  ct_ctlNum :: "MmsValue option"
  ct_origin :: "MmsValue option"
  ct_ctlObjectName :: "cstring option"
  ct_error :: "MmsValue option"
  ct_addCause :: "MmsValue option"
  ct_selected :: bool
  ct_selectTime :: u64
  ct_selectTimeout :: u32
  ct_sboClass :: "cstring option"
  ct_sboTimeout :: "cstring option"
  ct_timeActivatedOperate :: bool
  ct_operateTime :: u64
  ct_clientConnection :: "MmsServerConnection option"
  ct_emptyString :: "MmsValue option"
  ct_initialized :: bool
  ct_ctlModel :: u32
  ct_testMode :: bool
  ct_interlockCheck :: bool
  ct_synchroCheck :: bool
  ct_operateInvokeId :: u32
  ct_listener :: bool
  ct_checkHandler :: bool
  ct_waitForExecutionHandler :: bool

text \<open>String literals of the source.\<close>

definition lit :: "string \<Rightarrow> cstring" where
  "lit s = map of_char s"

text \<open>\<open>createString\<close> joins strings in new memory; \<open>createStringInBuffer\<close> writes them into a buffer of
  the given size.\<close>

definition createString :: "cstring list \<Rightarrow> cstring" where
  "createString strs = concat strs"

definition createStringInBuffer :: "nat \<Rightarrow> cstring list \<Rightarrow> cstring option" where
  "createStringInBuffer n strs = (if length (concat strs) < n then Some (concat strs) else None)"


section \<open>Client connections\<close>

record ClientConnection =
  cl_serverConnectionHandle :: MmsServerConnection
  cl_tasksCount :: int

definition private_ClientConnection_create :: "MmsServerConnection \<Rightarrow> ClientConnection" where
  "private_ClientConnection_create serverConnectionHandle =
     \<lparr>cl_serverConnectionHandle = serverConnectionHandle, cl_tasksCount = 0\<rparr>"

definition private_ClientConnection_getTasksCount :: "ClientConnection \<Rightarrow> int" where
  "private_ClientConnection_getTasksCount self = cl_tasksCount self"

definition private_ClientConnection_increaseTasksCount :: "ClientConnection \<Rightarrow> ClientConnection" where
  "private_ClientConnection_increaseTasksCount self = self\<lparr>cl_tasksCount := cl_tasksCount self + 1\<rparr>"

definition private_ClientConnection_decreaseTasksCount :: "ClientConnection \<Rightarrow> ClientConnection" where
  "private_ClientConnection_decreaseTasksCount self = self\<lparr>cl_tasksCount := cl_tasksCount self - 1\<rparr>"

text \<open>The registry maps addresses of clients to the objects, in the order of the list.\<close>

type_synonym clients = "(nat \<times> ClientConnection) list"

primrec private_IedServer_getClientConnectionByHandle ::
  "clients \<Rightarrow> MmsServerConnection option \<Rightarrow> nat option" where
  "private_IedServer_getClientConnectionByHandle [] serverConnectionHandle = None"
| "private_IedServer_getClientConnectionByHandle (c # cs) serverConnectionHandle =
     (if Some (cl_serverConnectionHandle (snd c)) = serverConnectionHandle then Some (fst c)
      else private_IedServer_getClientConnectionByHandle cs serverConnectionHandle)"

definition private_IedServer_addNewClientConnection :: "clients \<Rightarrow> nat \<times> ClientConnection \<Rightarrow> clients" where
  "private_IedServer_addNewClientConnection self newClientConnection = self @ [newClientConnection]"

primrec private_IedServer_removeClientConnection :: "clients \<Rightarrow> nat \<Rightarrow> clients" where
  "private_IedServer_removeClientConnection [] clientConnection = []"
| "private_IedServer_removeClientConnection (c # cs) clientConnection =
     (if fst c = clientConnection then cs
      else c # private_IedServer_removeClientConnection cs clientConnection)"

definition on_client :: "(ClientConnection \<Rightarrow> ClientConnection) \<Rightarrow> nat \<Rightarrow> clients \<Rightarrow> clients" where
  "on_client f a cs = map (\<lambda>(b, c). (b, if b = a then f c else c)) cs"


section \<open>The object\<close>

definition ControlObject_create :: "MmsDomain \<Rightarrow> cstring \<Rightarrow> cstring \<Rightarrow> ControlObject" where
  "ControlObject_create domain lnName name =
     \<lparr>ct_mmsDomain = domain, ct_lnName = lnName, ct_name = copyString name,
      ct_state = STATE_UNSELECTED, ct_mmsValue = None, ct_typeSpec = None, ct_oper = None,
      ct_sbo = None, ct_sbow = None, ct_cancel = None, ct_ctlVal = None, ct_ctlNum = None,
      ct_origin = None, ct_ctlObjectName = None, ct_error = None, ct_addCause = None,
      ct_selected = False, ct_selectTime = 0, ct_selectTimeout = 0, ct_sboClass = None,
      ct_sboTimeout = None, ct_timeActivatedOperate = False, ct_operateTime = 0,
      ct_clientConnection = None, ct_emptyString = None, ct_initialized = False, ct_ctlModel = 0,
      ct_testMode = False, ct_interlockCheck = False, ct_synchroCheck = False,
      ct_operateInvokeId = 0, ct_listener = False, ct_checkHandler = False,
      ct_waitForExecutionHandler = False\<rparr>"

definition setState :: "ControlObject \<Rightarrow> ControlState \<Rightarrow> ControlObject" where
  "setState self newState = self\<lparr>ct_state := newState\<rparr>"

definition getState :: "ControlObject \<Rightarrow> ControlState" where
  "getState self = ct_state self"

text \<open>A cached value the object points to.\<close>

definition cached :: "ControlEnv \<Rightarrow> ControlObject \<Rightarrow> cstring \<Rightarrow> MmsValue option" where
  "cached env self name = ce_cache env (ct_mmsDomain self) name"

definition updateSboTimeoutValue :: "ControlEnv \<Rightarrow> ControlObject \<Rightarrow> ControlObject option" where
  "updateSboTimeoutValue env self =
     (case ct_sboTimeout self of
        Some name \<Rightarrow> do {
          v \<leftarrow> cached env self name;
          sboTimeoutVal \<leftarrow> MmsValue_toInt32 v;
          Some (self\<lparr>ct_selectTimeout := sboTimeoutVal\<rparr>)
        }
      | None \<Rightarrow> Some (self\<lparr>ct_selectTimeout := CONFIG_CONTROL_DEFAULT_SBO_TIMEOUT\<rparr>))"

text \<open>The pointer to a cached variable, \<open>NULL\<close> when it is not there.\<close>

definition cache_pointer :: "ControlEnv \<Rightarrow> ControlObject \<Rightarrow> cstring \<Rightarrow> cstring option" where
  "cache_pointer env self name = (if cached env self name = None then None else Some name)"

definition isSbo :: "ControlObject \<Rightarrow> bool" where
  "isSbo self \<longleftrightarrow> ct_ctlModel self = 2 \<or> ct_ctlModel self = 4"

definition initializeCtlModel :: "ControlEnv \<Rightarrow> ControlObject \<Rightarrow> ControlObject option" where
  "initializeCtlModel env self =
     (if isSbo self then do {
        let sboTimeoutName = createString [ct_lnName self, lit ''$CF$'', ct_name self, lit ''$sboTimeout''];
        let controlObjectReference = createString [ce_domainName env (ct_mmsDomain self), lit ''/'',
              ct_lnName self, lit ''$'', ct_name self, lit ''$SBO''];
        let self = self\<lparr>ct_sbo := Some (MmsValue_newVisibleString (Some controlObjectReference)),
              ct_sboTimeout := cache_pointer env self sboTimeoutName\<rparr>;
        self \<leftarrow> updateSboTimeoutValue env self;
        Some (setState self STATE_UNSELECTED)
      }
      else Some (setState (self\<lparr>ct_sbo := Some (MmsValue_newVisibleString None)\<rparr>) STATE_READY))"

definition initialize :: "ControlEnv \<Rightarrow> ControlObject \<Rightarrow> ControlObject option" where
  "initialize env self =
     (if \<not> ct_initialized self then do {
        let self = self\<lparr>ct_emptyString := Some (MmsValue_newVisibleString None)\<rparr>;
        let ctlModel = cached env self
              (createString [ct_lnName self, lit ''$CF$'', ct_name self, lit ''$ctlModel'']);
        let self = self\<lparr>ct_sboClass := cache_pointer env self
              (createString [ct_lnName self, lit ''$CF$'', ct_name self, lit ''$sboClass''])\<rparr>;
        objectName \<leftarrow> createStringInBuffer 130 [ce_domainName env (ct_mmsDomain self), lit ''/'',
              ct_lnName self, lit ''$CO$'', ct_name self];
        e \<leftarrow> MmsValue_newIntegerFromInt32 0;
        a \<leftarrow> MmsValue_newIntegerFromInt32 0;
        let self = self\<lparr>ct_ctlObjectName := Some objectName, ct_error := Some e, ct_addCause := Some a\<rparr>;
        self \<leftarrow> (case ctlModel of
                None \<Rightarrow> Some self
              | Some v \<Rightarrow> do {
                  ctlModelVal \<leftarrow> MmsValue_toInt32 v;
                  initializeCtlModel env (self\<lparr>ct_ctlModel := ctlModelVal\<rparr>)
                });
        Some (self\<lparr>ct_initialized := True\<rparr>)
      }
      else Some self)"

definition isSboClassOperateOnce :: "ControlEnv \<Rightarrow> ControlObject \<Rightarrow> bool option" where
  "isSboClassOperateOnce env self =
     (case ct_sboClass self of
        Some name \<Rightarrow> do {
          v \<leftarrow> cached env self name;
          c \<leftarrow> MmsValue_toInt32 v;
          Some (c \<noteq> 1)
        }
      | None \<Rightarrow> Some True)"

definition abortControlOperation :: "ControlEnv \<Rightarrow> ControlObject \<Rightarrow> ControlObject option" where
  "abortControlOperation env self =
     (if isSbo self then do {
        once \<leftarrow> isSboClassOperateOnce env self;
        Some (setState self (if once then STATE_UNSELECTED else STATE_READY))
      }
      else Some (setState self STATE_READY))"

definition ControlObject_setOper :: "ControlObject \<Rightarrow> nat option \<Rightarrow> ControlObject" where
  "ControlObject_setOper self oper = self\<lparr>ct_oper := oper\<rparr>"

definition ControlObject_setCancel :: "ControlObject \<Rightarrow> nat option \<Rightarrow> ControlObject" where
  "ControlObject_setCancel self cancel = self\<lparr>ct_cancel := cancel\<rparr>"

definition ControlObject_setSBOw :: "ControlObject \<Rightarrow> nat option \<Rightarrow> ControlObject" where
  "ControlObject_setSBOw self sbow = self\<lparr>ct_sbow := sbow\<rparr>"

definition ControlObject_setSBO :: "ControlObject \<Rightarrow> MmsValue option \<Rightarrow> ControlObject" where
  "ControlObject_setSBO self sbo = self\<lparr>ct_sbo := sbo\<rparr>"

definition ControlObject_setCtlVal :: "ControlObject \<Rightarrow> MmsValue option \<Rightarrow> ControlObject" where
  "ControlObject_setCtlVal self ctlVal = self\<lparr>ct_ctlVal := ctlVal\<rparr>"

definition ControlObject_setMmsValue :: "ControlObject \<Rightarrow> MmsValue option \<Rightarrow> ControlObject" where
  "ControlObject_setMmsValue self val = self\<lparr>ct_mmsValue := val\<rparr>"

definition ControlObject_setTypeSpec ::
  "ControlObject \<Rightarrow> MmsVariableSpecification option \<Rightarrow> ControlObject" where
  "ControlObject_setTypeSpec self spec = self\<lparr>ct_typeSpec := spec\<rparr>"

definition ControlObject_installListener :: "ControlObject \<Rightarrow> bool \<Rightarrow> ControlObject" where
  "ControlObject_installListener self listener = self\<lparr>ct_listener := listener\<rparr>"

definition ControlObject_installCheckHandler :: "ControlObject \<Rightarrow> bool \<Rightarrow> ControlObject" where
  "ControlObject_installCheckHandler self handler = self\<lparr>ct_checkHandler := handler\<rparr>"

definition ControlObject_installWaitForExecutionHandler :: "ControlObject \<Rightarrow> bool \<Rightarrow> ControlObject" where
  "ControlObject_installWaitForExecutionHandler self handler =
     self\<lparr>ct_waitForExecutionHandler := handler\<rparr>"

text \<open>The component of the object's value an index stands for.\<close>

definition component_of :: "ControlObject \<Rightarrow> nat option \<Rightarrow> MmsValue option" where
  "component_of self i =
     (case i of None \<Rightarrow> None
      | Some i \<Rightarrow> (case ct_mmsValue self of None \<Rightarrow> None | Some v \<Rightarrow> MmsValue_getElement v (int i)))"

definition ControlObject_getOper :: "ControlObject \<Rightarrow> MmsValue option" where
  "ControlObject_getOper self = component_of self (ct_oper self)"

definition ControlObject_getSBOw :: "ControlObject \<Rightarrow> MmsValue option" where
  "ControlObject_getSBOw self = component_of self (ct_sbow self)"

definition ControlObject_getSBO :: "ControlObject \<Rightarrow> MmsValue option" where
  "ControlObject_getSBO self = ct_sbo self"

definition ControlObject_getCancel :: "ControlObject \<Rightarrow> MmsValue option" where
  "ControlObject_getCancel self = component_of self (ct_cancel self)"

definition ControlObject_getMmsValue :: "ControlObject \<Rightarrow> MmsValue option" where
  "ControlObject_getMmsValue self = ct_mmsValue self"

text \<open>The object after its \<open>oper\<close> value has been changed in place.\<close>

definition store_oper :: "ControlObject \<Rightarrow> MmsValue \<Rightarrow> ControlObject" where
  "store_oper self v =
     (case ct_oper self of None \<Rightarrow> self
      | Some i \<Rightarrow> self\<lparr>ct_mmsValue := map_option (\<lambda>m. MmsValue_setElement m (int i) (Some v)) (ct_mmsValue self)\<rparr>)"


section \<open>Selection\<close>

definition selectObject ::
  "ControlEnv \<Rightarrow> ControlObject \<Rightarrow> u64 \<Rightarrow> MmsServerConnection \<Rightarrow> ControlObject option" where
  "selectObject env self selectTime connection = do {
     self \<leftarrow> updateSboTimeoutValue env self;
     Some (setState (self\<lparr>ct_selected := True, ct_selectTime := selectTime,
       ct_clientConnection := Some connection\<rparr>) STATE_READY)
   }"

definition checkSelectTimeout :: "ControlObject \<Rightarrow> u64 \<Rightarrow> ControlObject" where
  "checkSelectTimeout self currentTime =
     (if isSbo self \<and> getState self = STATE_READY \<and> ct_selectTimeout self > 0 \<and>
         currentTime > ct_selectTime self + ucast (ct_selectTimeout self)
      then setState self STATE_UNSELECTED else self)"

definition ControlObject_unselect ::
  "ControlEnv \<Rightarrow> ControlObject \<Rightarrow> MmsServerConnection \<Rightarrow> (bool \<times> ControlObject) option" where
  "ControlObject_unselect env self connection =
     (if ct_clientConnection self = Some connection
      then map_option (\<lambda>self. (True, self)) (abortControlOperation env self)
      else Some (False, self))"

text \<open>\<open>src/src/iedserver/mms_mapping/mms_mapping.c\<close>: called when a connection is closed; it stops after
  the first object of the connection.\<close>

primrec unselectControlsForConnection ::
  "ControlEnv \<Rightarrow> ControlObject list \<Rightarrow> MmsServerConnection \<Rightarrow> ControlObject list option" where
  "unselectControlsForConnection env [] connection = Some []"
| "unselectControlsForConnection env (c # cs) connection = do {
     (found, c) \<leftarrow> ControlObject_unselect env c connection;
     if found then Some (c # cs)
     else map_option (\<lambda>cs. c # cs) (unselectControlsForConnection env cs connection)
   }"


section \<open>Parameters of control messages\<close>

text \<open>A component of a structure, depending on the number of components.\<close>

definition structure_parameter :: "MmsValue \<Rightarrow> (nat \<times> int) list \<Rightarrow> MmsValue option" where
  "structure_parameter v indexes =
     (if MmsValue_getType v = MMS_STRUCTURE then
        (case MmsValue_getArraySize v of
           None \<Rightarrow> None
         | Some n \<Rightarrow> (case map_of indexes n of None \<Rightarrow> None | Some i \<Rightarrow> MmsValue_getElement v i))
      else None)"

definition getOperParameterOperTime :: "MmsValue \<Rightarrow> MmsValue option" where
  "getOperParameterOperTime operParameters = structure_parameter operParameters [(7, 1)]"

definition getCtlVal :: "MmsValue \<Rightarrow> MmsValue option" where
  "getCtlVal operParameters =
     (if MmsValue_getType operParameters = MMS_STRUCTURE then
        (case MmsValue_getArraySize operParameters of
           None \<Rightarrow> None
         | Some n \<Rightarrow> if n > 5 then MmsValue_getElement operParameters 0 else None)
      else None)"

definition getOperParameterCtlNum :: "MmsValue \<Rightarrow> MmsValue option" where
  "getOperParameterCtlNum operParameters = structure_parameter operParameters [(7, 3), (6, 2)]"

definition getCancelParameterCtlNum :: "MmsValue \<Rightarrow> MmsValue option" where
  "getCancelParameterCtlNum operParameters = structure_parameter operParameters [(6, 3), (5, 2)]"

definition getCancelParameterOrigin :: "MmsValue \<Rightarrow> MmsValue option" where
  "getCancelParameterOrigin operParameters = structure_parameter operParameters [(6, 2), (5, 1)]"

definition getOperParameterTest :: "MmsValue \<Rightarrow> MmsValue option" where
  "getOperParameterTest operParameters = structure_parameter operParameters [(7, 5), (6, 4)]"

definition getOperParameterCheck :: "MmsValue \<Rightarrow> MmsValue option" where
  "getOperParameterCheck operParameters = structure_parameter operParameters [(7, 6), (6, 5)]"

definition getOperParameterOrigin :: "MmsValue \<Rightarrow> MmsValue option" where
  "getOperParameterOrigin operParameters = structure_parameter operParameters [(7, 2), (6, 1)]"

definition getOperParameterTime :: "MmsValue \<Rightarrow> MmsValue option" where
  "getOperParameterTime operParameters =
     (case structure_parameter operParameters [(7, 4), (6, 3)] of
        None \<Rightarrow> None
      | Some timeParameter \<Rightarrow>
          if MmsValue_getType timeParameter = MMS_UTC_TIME then Some timeParameter else None)"

definition checkValidityOfOriginParameter :: "MmsValue option \<Rightarrow> bool option" where
  "checkValidityOfOriginParameter origin = do {
     origin \<leftarrow> origin;
     if MmsValue_getType origin \<noteq> MMS_STRUCTURE then Some False
     else if MmsValue_getArraySize origin \<noteq> Some 2 then Some False
     else do {
       orIdent \<leftarrow> MmsValue_getElement origin 1;
       if MmsValue_getType orIdent \<noteq> MMS_OCTET_STRING then Some False
       else do {
         n \<leftarrow> MmsValue_getOctetStringSize orIdent;
         if n > 64 then Some False
         else do {
           orCat \<leftarrow> MmsValue_getElement origin 0;
           if MmsValue_getType orCat \<noteq> MMS_INTEGER then Some False
           else do {
             orCatIntValue \<leftarrow> MmsValue_toInt32 orCat;
             Some (\<not> (sint orCatIntValue < 0 \<or> sint orCatIntValue > 8))
           }
         }
       }
     }
   }"

text \<open>The old parameters are released; copies of the new ones take their place.\<close>

definition updateControlParameters ::
  "ControlEnv \<Rightarrow> ControlObject \<Rightarrow> MmsValue option \<Rightarrow> MmsValue option \<Rightarrow> MmsValue option \<Rightarrow> ControlObject option"
where
  "updateControlParameters env self ctlVal ctlNum origin = do {
     ctlVal \<leftarrow> ctlVal;
     ctlNum \<leftarrow> ctlNum;
     origin \<leftarrow> origin;
     ctlVal \<leftarrow> MmsValue_clone (ce_junk env) ctlVal;
     ctlNum \<leftarrow> MmsValue_clone (ce_junk env) ctlNum;
     origin \<leftarrow> MmsValue_clone (ce_junk env) origin;
     Some (self\<lparr>ct_ctlVal := Some ctlVal, ct_ctlNum := Some ctlNum, ct_origin := Some origin\<rparr>)
   }"


section \<open>Reports\<close>

definition ControlObject_sendCommandTerminationReq ::
  "ControlEnv \<Rightarrow> ControlObject \<Rightarrow> MmsServerConnection option \<Rightarrow> ControlEvent option" where
  "ControlObject_sendCommandTerminationReq env self connection = do {
     itemId \<leftarrow> createStringInBuffer 130 [ct_lnName self, lit ''$CO$'', ct_name self, lit ''$Oper''];
     Some (E_commandTermination connection (ce_domainName env (ct_mmsDomain self)) itemId
       (ControlObject_getOper self))
   }"

definition ControlObject_sendLastApplError ::
  "ControlObject \<Rightarrow> MmsServerConnection option \<Rightarrow> string \<Rightarrow> i32 \<Rightarrow> i32 \<Rightarrow> MmsValue option \<Rightarrow>
   MmsValue option \<Rightarrow> bool \<Rightarrow> (ControlEvent \<times> ControlObject) option" where
  "ControlObject_sendLastApplError self connection ctlVariable err addCause ctlNum origin handlerMode = do {
     name \<leftarrow> ct_ctlObjectName self;
     ctlObj \<leftarrow> createStringInBuffer 130 [name, lit ''$'', lit ctlVariable];
     e \<leftarrow> ct_error self;
     e \<leftarrow> MmsValue_setInt32 e err;
     a \<leftarrow> ct_addCause self;
     a \<leftarrow> MmsValue_setInt32 a addCause;
     let lastApplError = MmsValue 0 (V_structure
           [Some (MmsValue 0 (V_visibleString (Some ctlObj))), Some e, origin, ctlNum, Some a]);
     Some (E_lastApplError connection lastApplError handlerMode,
       self\<lparr>ct_error := Some e, ct_addCause := Some a\<rparr>)
   }"


section \<open>The operate thread\<close>

text \<open>\<open>controlOperateThread\<close> runs beside the handlers of requests. Its parts between the calls that may
  take long (the handler that waits for the execution, the listener) are the phases of a thread:
  it has been created; it waits for the execution, time-activated or not, for a client; it operates for a
  client since a time.\<close>

datatype OperateThread = T_started | T_waiting bool nat | T_operating nat u64

definition ControlObject_operate ::
  "ControlObject \<Rightarrow> MmsValue option \<Rightarrow> u64 \<Rightarrow> bool \<Rightarrow> bool \<times> ControlObject \<times> ControlEvent list" where
  "ControlObject_operate self val currentTime testCondition =
     (True, self\<lparr>ct_selectTime := currentTime\<rparr>,
      if ct_listener self then [E_listener val testCondition] else [])"

definition operateThread_begin ::
  "ControlObject \<Rightarrow> clients \<Rightarrow> OperateThread option \<times> ControlObject \<times> clients" where
  "operateThread_begin self cs =
     (case private_IedServer_getClientConnectionByHandle cs (ct_clientConnection self) of
        None \<Rightarrow> (None, self, cs)
      | Some c \<Rightarrow>
          (Some (T_waiting (getState self = STATE_WAIT_FOR_ACTICATION_TIME) c),
           setState self STATE_WAIT_FOR_EXECUTION,
           on_client private_ClientConnection_increaseTasksCount c cs))"

definition operateThread_wait ::
  "ControlEnv \<Rightarrow> bool \<Rightarrow> ControlObject \<Rightarrow> (bool \<times> ControlObject \<times> ControlEvent list) option" where
  "operateThread_wait env isTimeActivatedControl self =
     (let checkOk = (if ct_waitForExecutionHandler self
            then ce_wait env (ct_ctlVal self) (ct_testMode self) (ct_synchroCheck self) else True) in
      if \<not> checkOk then do {
        (ev, self) \<leftarrow> (if isTimeActivatedControl
           then ControlObject_sendLastApplError self (ct_clientConnection self) ''Oper''
             CONTROL_ERROR_NO_ERROR CONTROL_ADD_CAUSE_BLOCKED_BY_SYNCHROCHECK (ct_ctlNum self)
             (ct_origin self) False
           else Some (E_writeResponse (ct_clientConnection self) (ct_operateInvokeId self)
             DATA_ACCESS_ERROR_OBJECT_ACCESS_DENIED, self));
        self \<leftarrow> abortControlOperation env self;
        Some (False, self, [ev])
      }
      else do {
        (ev, self) \<leftarrow> (if isTimeActivatedControl then do {
             ev \<leftarrow> ControlObject_sendCommandTerminationReq env self (ct_clientConnection self);
             oper \<leftarrow> ControlObject_getOper self;
             operTm \<leftarrow> getOperParameterOperTime oper;
             operTm \<leftarrow> MmsValue_setUtcTime operTm 0;
             Some (ev, store_oper self (MmsValue_setElement oper 1 (Some operTm)))
           }
           else Some (E_writeResponse (ct_clientConnection self) (ct_operateInvokeId self)
             DATA_ACCESS_ERROR_SUCCESS, self));
        Some (True, setState self STATE_OPERATE, [ev])
      })"

definition operateThread_operate ::
  "ControlEnv \<Rightarrow> u64 \<Rightarrow> ControlObject \<Rightarrow> (ControlObject \<times> ControlEvent list) option" where
  "operateThread_operate env currentTime self = do {
     let (ok, self, evs) = ControlObject_operate self (ct_ctlVal self) currentTime (ct_testMode self);
     (evs', self) \<leftarrow> (if ct_ctlModel self = 4 \<or> ct_ctlModel self = 3 then
          if ok then do {
            ev \<leftarrow> ControlObject_sendCommandTerminationReq env self (ct_clientConnection self);
            Some ([ev], self)
          }
          else do {
            (ev, self) \<leftarrow> ControlObject_sendLastApplError self (ct_clientConnection self) ''Oper''
              CONTROL_ERROR_NO_ERROR CONTROL_ADD_CAUSE_SELECT_FAILED (ct_ctlNum self) (ct_origin self) False;
            Some ([ev], self)
          }
        else Some ([], self));
     self \<leftarrow> abortControlOperation env self;
     Some (self, evs @ evs')
   }"

text \<open>One phase of a thread: its next phase (\<open>None\<close>: it has ended), the object, the clients and what
  was sent.\<close>

fun operateThread_step ::
  "ControlEnv \<Rightarrow> OperateThread \<Rightarrow> ControlObject \<Rightarrow> clients \<Rightarrow>
   (OperateThread option \<times> ControlObject \<times> clients \<times> ControlEvent list) option" where
  "operateThread_step env T_started self cs =
     (case operateThread_begin self cs of (t, self, cs) \<Rightarrow> Some (t, self, cs, []))"
| "operateThread_step env (T_waiting isTimeActivatedControl c) self cs = do {
     (ok, self, evs) \<leftarrow> operateThread_wait env isTimeActivatedControl self;
     if ok then Some (Some (T_operating c (ce_time env)), self, cs, evs)
     else Some (None, self, on_client private_ClientConnection_decreaseTasksCount c cs, evs)
   }"
| "operateThread_step env (T_operating c currentTime) self cs = do {
     (self, evs) \<leftarrow> operateThread_operate env currentTime self;
     Some (None, self, on_client private_ClientConnection_decreaseTasksCount c cs, evs)
   }"

text \<open>The whole thread, when nothing else runs.\<close>

definition controlOperateThread ::
  "ControlEnv \<Rightarrow> ControlObject \<Rightarrow> clients \<Rightarrow> (ControlObject \<times> clients \<times> ControlEvent list) option" where
  "controlOperateThread env self cs =
     (case operateThread_begin self cs of
        (Some (T_waiting isTimeActivatedControl c), self, cs) \<Rightarrow> do {
          (ok, self, evs) \<leftarrow> operateThread_wait env isTimeActivatedControl self;
          (self, evs') \<leftarrow> (if ok then operateThread_operate env (ce_time env) self else Some (self, []));
          Some (self, on_client private_ClientConnection_decreaseTasksCount c cs, evs @ evs')
        }
      | (_, self, cs) \<Rightarrow> Some (self, cs, []))"


section \<open>Time-activated operations\<close>

definition processControlAction ::
  "ControlEnv \<Rightarrow> u64 \<Rightarrow> ControlObject \<Rightarrow> (ControlObject \<times> ControlEvent list) option" where
  "processControlAction env currentTimeInMs self =
     (if ct_timeActivatedOperate self \<and> ct_operateTime self \<le> currentTimeInMs then do {
        let self = self\<lparr>ct_timeActivatedOperate := False\<rparr>;
        let checkOk = (if ct_checkHandler self
             then int_to_bool (check_code (ce_check env (ct_ctlVal self) (ct_testMode self)
               (ct_interlockCheck self) (Connection_cast (ct_clientConnection self))))
             else True);
        if checkOk then Some (self, [E_operateThread])
        else do {
          (ev, self) \<leftarrow> ControlObject_sendLastApplError self (ct_clientConnection self) ''Oper''
            CONTROL_ERROR_NO_ERROR CONTROL_ADD_CAUSE_BLOCKED_BY_INTERLOCKING (ct_ctlNum self)
            (ct_origin self) False;
          self \<leftarrow> abortControlOperation env self;
          Some (self, [ev])
        }
      }
      else Some (self, []))"

text \<open>The events are listed per object.\<close>

primrec Control_processControlActions ::
  "ControlEnv \<Rightarrow> u64 \<Rightarrow> ControlObject list \<Rightarrow> (ControlObject \<times> ControlEvent list) list option" where
  "Control_processControlActions env currentTimeInMs [] = Some []"
| "Control_processControlActions env currentTimeInMs (c # cs) = do {
     r \<leftarrow> processControlAction env currentTimeInMs c;
     rs \<leftarrow> Control_processControlActions env currentTimeInMs cs;
     Some (r # rs)
   }"


section \<open>Read access\<close>

text \<open>Reading \<open>SBO\<close> selects an object with normal security.\<close>

definition readSBO ::
  "ControlEnv \<Rightarrow> ControlObject \<Rightarrow> MmsServerConnection \<Rightarrow> (MmsValue option \<times> ControlObject) option" where
  "readSBO env self connection =
     (if ct_ctlModel self = 2 then do {
        let self = checkSelectTimeout self (ce_time env);
        if getState self = STATE_UNSELECTED then do {
          let checkOk = (if ct_checkHandler self
               then int_to_bool (check_code (ce_check env None False False (Connection_cast (Some connection))))
               else True);
          if checkOk then do {
            self \<leftarrow> selectObject env self (ce_time env) connection;
            Some (ControlObject_getSBO self, self)
          }
          else Some (ct_emptyString self, self)
        }
        else Some (ct_emptyString self, self)
      }
      else Some (ControlObject_getSBO self, self))"

definition readControlVariable ::
  "ControlEnv \<Rightarrow> ControlObject \<Rightarrow> cstring option \<Rightarrow> MmsServerConnection \<Rightarrow>
   (MmsValue option \<times> ControlObject) option" where
  "readControlVariable env self varName connection = do {
     self \<leftarrow> initialize env self;
     (case varName of
        None \<Rightarrow> Some (ControlObject_getMmsValue self, self)
      | Some varName \<Rightarrow>
          if varName = lit ''Oper'' then Some (ControlObject_getOper self, self)
          else if varName = lit ''SBOw'' then Some (ControlObject_getSBOw self, self)
          else if varName = lit ''SBO'' then readSBO env self connection
          else if varName = lit ''Cancel'' then Some (ControlObject_getCancel self, self)
          else do {
            spec \<leftarrow> ct_typeSpec self;
            v \<leftarrow> MmsValue_getSubElement (ControlObject_getMmsValue self) spec varName;
            Some (v, self)
          })
   }"


section \<open>Write access\<close>

definition writeSBOw ::
  "ControlEnv \<Rightarrow> clients \<Rightarrow> ControlObject \<Rightarrow> MmsValue \<Rightarrow> MmsServerConnection \<Rightarrow>
   (MmsDataAccessError \<times> ControlObject \<times> ControlEvent list) option" where
  "writeSBOw env cs self val connection =
     (if ct_ctlModel self = 4 then
        (case getCtlVal val of
           None \<Rightarrow> Some (DATA_ACCESS_ERROR_OBJECT_VALUE_INVALID, self, [])
         | Some ctlVal \<Rightarrow> do {
             let ctlNum = getOperParameterCtlNum val;
             let origin = getOperParameterOrigin val;
             valid \<leftarrow> checkValidityOfOriginParameter origin;
             if \<not> valid then Some (DATA_ACCESS_ERROR_OBJECT_VALUE_INVALID, self, [])
             else do {
               let self = checkSelectTimeout self (ce_time env);
               if getState self \<noteq> STATE_UNSELECTED then do {
                 (ev, self) \<leftarrow> ControlObject_sendLastApplError self (Some connection) ''SBOw'' 0
                   (if Some connection \<noteq> ct_clientConnection self
                    then CONTROL_ADD_CAUSE_LOCKED_BY_OTHER_CLIENT
                    else CONTROL_ADD_CAUSE_OBJECT_ALREADY_SELECTED) ctlNum origin True;
                 Some (DATA_ACCESS_ERROR_TEMPORARILY_UNAVAILABLE, self, [ev])
               }
               else do {
                 check \<leftarrow> getOperParameterCheck val;
                 interlockCheck \<leftarrow> MmsValue_getBitStringBit check 1;
                 test \<leftarrow> getOperParameterTest val;
                 testCondition \<leftarrow> MmsValue_getBoolean test;
                 let checkOk = (if ct_checkHandler self
                      then int_to_bool (check_code (ce_check env (Some ctlVal) testCondition interlockCheck
                        (Client_found (private_IedServer_getClientConnectionByHandle cs (Some connection)))))
                      else True);
                 if checkOk then do {
                   self \<leftarrow> selectObject env self (ce_time env) connection;
                   self \<leftarrow> updateControlParameters env self (Some ctlVal) ctlNum origin;
                   Some (DATA_ACCESS_ERROR_SUCCESS, self, [])
                 }
                 else do {
                   (ev, self) \<leftarrow> ControlObject_sendLastApplError self (Some connection) ''SBOw'' 0
                     CONTROL_ADD_CAUSE_SELECT_FAILED ctlNum origin True;
                   Some (DATA_ACCESS_ERROR_OBJECT_ACCESS_DENIED, self, [ev])
                 }
               }
             }
           })
      else Some (DATA_ACCESS_ERROR_OBJECT_ACCESS_DENIED, self, []))"

text \<open>\<open>MmsValue_equals(a, b) && ...\<close>: the second comparison is made only when the first succeeds.\<close>

definition matchesSelection ::
  "ControlObject \<Rightarrow> MmsValue \<Rightarrow> MmsValue \<Rightarrow> MmsValue \<Rightarrow> bool option" where
  "matchesSelection self ctlVal origin ctlNum = do {
     v \<leftarrow> ct_ctlVal self;
     r \<leftarrow> MmsValue_equals ctlVal v;
     if \<not> r then Some False
     else do {
       v \<leftarrow> ct_origin self;
       r \<leftarrow> MmsValue_equals origin v;
       if \<not> r then Some False
       else do {
         v \<leftarrow> ct_ctlNum self;
         MmsValue_equals ctlNum v
       }
     }
   }"

definition checkIndication :: "CheckHandlerResult \<Rightarrow> MmsDataAccessError" where
  "checkIndication checkResult =
     (if checkResult = CONTROL_HARDWARE_FAULT then DATA_ACCESS_ERROR_HARDWARE_FAULT
      else if checkResult = CONTROL_TEMPORARILY_UNAVAILABLE then DATA_ACCESS_ERROR_TEMPORARILY_UNAVAILABLE
      else if checkResult = CONTROL_OBJECT_UNDEFINED then DATA_ACCESS_ERROR_OBJECT_UNDEFINED
      else DATA_ACCESS_ERROR_OBJECT_ACCESS_DENIED)"

text \<open>A time of operation in the request makes the operation time-activated.\<close>

definition activateOperate ::
  "ControlObject \<Rightarrow> MmsValue \<Rightarrow> bool \<Rightarrow> bool \<Rightarrow> MmsServerConnection \<Rightarrow> (MmsDataAccessError \<times> ControlObject) option" where
  "activateOperate self val interlockCheck synchroCheck connection =
     (case getOperParameterOperTime val of
        None \<Rightarrow> Some (DATA_ACCESS_ERROR_OBJECT_ACCESS_DENIED, self)
      | Some operTm \<Rightarrow> do {
          t \<leftarrow> MmsValue_getUtcTimeInMs operTm;
          let self = self\<lparr>ct_operateTime := t\<rparr>;
          if t \<noteq> 0 then
            Some (DATA_ACCESS_ERROR_SUCCESS,
              setState (self\<lparr>ct_timeActivatedOperate := True, ct_synchroCheck := synchroCheck,
                ct_interlockCheck := interlockCheck, ct_clientConnection := Some connection\<rparr>)
                STATE_WAIT_FOR_ACTICATION_TIME)
          else Some (DATA_ACCESS_ERROR_OBJECT_ACCESS_DENIED, self)
        })"

text \<open>The operative tests, and the start of the operate thread.\<close>

definition testAndStart ::
  "ControlEnv \<Rightarrow> clients \<Rightarrow> ControlObject \<Rightarrow> MmsValue \<Rightarrow> bool \<Rightarrow> bool \<Rightarrow> MmsServerConnection \<Rightarrow>
   (MmsDataAccessError \<times> ControlObject \<times> ControlEvent list) option" where
  "testAndStart env cs self ctlVal testCondition interlockCheck connection = do {
     let self = setState self STATE_PERFORM_TEST;
     let checkResult = (if ct_checkHandler self
          then ce_check env (Some ctlVal) testCondition interlockCheck
            (Client_found (private_IedServer_getClientConnectionByHandle cs (Some connection)))
          else CONTROL_ACCEPTED);
     if checkResult = CONTROL_ACCEPTED then
       Some (DATA_ACCESS_ERROR_NO_RESPONSE,
         self\<lparr>ct_clientConnection := Some connection, ct_operateInvokeId := ce_lastInvokeId env connection\<rparr>,
         [E_operateThread])
     else do {
       self \<leftarrow> abortControlOperation env self;
       Some (checkIndication checkResult, self, [])
     }
   }"

text \<open>An accepted operate request: take over the parameters, then either wait for the activation
  time or test and start.\<close>

definition operateSelected ::
  "ControlEnv \<Rightarrow> clients \<Rightarrow> ControlObject \<Rightarrow> MmsValue \<Rightarrow> MmsValue \<Rightarrow> MmsValue \<Rightarrow> MmsValue \<Rightarrow> bool \<Rightarrow> bool \<Rightarrow> bool \<Rightarrow>
   MmsServerConnection \<Rightarrow> (MmsDataAccessError \<times> ControlObject \<times> ControlEvent list) option" where
  "operateSelected env cs self val ctlVal ctlNum origin interlockCheck synchroCheck testCondition connection = do {
     self \<leftarrow> updateControlParameters env self (Some ctlVal) (Some ctlNum) (Some origin);
     (indication, self) \<leftarrow> activateOperate self val interlockCheck synchroCheck connection;
     oper \<leftarrow> ControlObject_getOper self;
     (_, oper) \<leftarrow> MmsValue_update oper val;
     let self = store_oper self oper;
     if ct_timeActivatedOperate self then Some (indication, self, [])
     else testAndStart env cs self ctlVal testCondition interlockCheck connection
   }"

definition operateReady ::
  "ControlEnv \<Rightarrow> clients \<Rightarrow> ControlObject \<Rightarrow> MmsValue \<Rightarrow> MmsValue \<Rightarrow> MmsValue \<Rightarrow> MmsValue \<Rightarrow> MmsValue \<Rightarrow> MmsValue \<Rightarrow>
   MmsServerConnection \<Rightarrow> (MmsDataAccessError \<times> ControlObject \<times> ControlEvent list) option" where
  "operateReady env cs self val ctlVal ctlNum origin check test connection = do {
     interlockCheck \<leftarrow> MmsValue_getBitStringBit check 1;
     synchroCheck \<leftarrow> MmsValue_getBitStringBit check 0;
     testCondition \<leftarrow> MmsValue_getBoolean test;
     let self = self\<lparr>ct_testMode := testCondition\<rparr>;
     if isSbo self \<and> ct_clientConnection self \<noteq> Some connection
     then Some (DATA_ACCESS_ERROR_TEMPORARILY_UNAVAILABLE, self, [])
     else do {
       matches \<leftarrow> (if ct_ctlModel self = 4 then matchesSelection self ctlVal origin ctlNum else Some True);
       if \<not> matches then do {
         (ev, self) \<leftarrow> ControlObject_sendLastApplError self (Some connection) ''Oper''
           CONTROL_ERROR_NO_ERROR CONTROL_ADD_CAUSE_INCONSISTENT_PARAMETERS (Some ctlNum) (Some origin) True;
         Some (DATA_ACCESS_ERROR_TYPE_INCONSISTENT, self, [ev])
       }
       else operateSelected env cs self val ctlVal ctlNum origin interlockCheck synchroCheck testCondition
         connection
     }
   }"

definition writeOper ::
  "ControlEnv \<Rightarrow> clients \<Rightarrow> ControlObject \<Rightarrow> MmsValue \<Rightarrow> MmsServerConnection \<Rightarrow>
   (MmsDataAccessError \<times> ControlObject \<times> ControlEvent list) option" where
  "writeOper env cs self val connection =
     (case (getCtlVal val, getOperParameterTest val, getOperParameterCtlNum val,
        getOperParameterOrigin val, getOperParameterCheck val, getOperParameterTime val) of
        (Some ctlVal, Some test, Some ctlNum, Some origin, Some check, Some timeParameter) \<Rightarrow> do {
          valid \<leftarrow> checkValidityOfOriginParameter (Some origin);
          if \<not> valid then Some (DATA_ACCESS_ERROR_OBJECT_VALUE_INVALID, self, [])
          else do {
            let self = checkSelectTimeout self (ce_time env);
            (case getState self of
               STATE_WAIT_FOR_ACTICATION_TIME \<Rightarrow> do {
                 (ev, self) \<leftarrow> ControlObject_sendLastApplError self (Some connection) ''Oper''
                   CONTROL_ERROR_NO_ERROR CONTROL_ADD_CAUSE_COMMAND_ALREADY_IN_EXECUTION
                   (Some ctlNum) (Some origin) True;
                 Some (DATA_ACCESS_ERROR_TEMPORARILY_UNAVAILABLE, self, [ev])
               }
             | STATE_READY \<Rightarrow> operateReady env cs self val ctlVal ctlNum origin check test connection
             | STATE_UNSELECTED \<Rightarrow> do {
                 (ev, self) \<leftarrow> ControlObject_sendLastApplError self (Some connection) ''Oper''
                   CONTROL_ERROR_NO_ERROR CONTROL_ADD_CAUSE_OBJECT_NOT_SELECTED
                   (Some ctlNum) (Some origin) True;
                 Some (DATA_ACCESS_ERROR_OBJECT_ACCESS_DENIED, self, [ev])
               }
             | _ \<Rightarrow> Some (DATA_ACCESS_ERROR_OBJECT_ACCESS_DENIED, self, []))
          }
        }
      | _ \<Rightarrow> Some (DATA_ACCESS_ERROR_OBJECT_VALUE_INVALID, self, []))"

text \<open>The last part of \<open>Cancel\<close>, with the indication so far.\<close>

definition cancelActivation ::
  "ControlEnv \<Rightarrow> ControlObject \<Rightarrow> MmsDataAccessError \<Rightarrow> ControlEvent list \<Rightarrow>
   (MmsDataAccessError \<times> ControlObject \<times> ControlEvent list) option" where
  "cancelActivation env self indication evs =
     (if ct_timeActivatedOperate self then do {
        self \<leftarrow> abortControlOperation env (self\<lparr>ct_timeActivatedOperate := False\<rparr>);
        Some (DATA_ACCESS_ERROR_SUCCESS, self, evs)
      }
      else Some (indication, self, evs))"

definition writeCancel ::
  "ControlEnv \<Rightarrow> ControlObject \<Rightarrow> MmsValue \<Rightarrow> MmsServerConnection \<Rightarrow>
   (MmsDataAccessError \<times> ControlObject \<times> ControlEvent list) option" where
  "writeCancel env self val connection =
     (case (getCancelParameterCtlNum val, getCancelParameterOrigin val) of
        (Some ctlNum, Some origin) \<Rightarrow>
          if isSbo self \<and> getState self \<noteq> STATE_UNSELECTED then
            if ct_clientConnection self = Some connection
            then Some (DATA_ACCESS_ERROR_SUCCESS, setState self STATE_UNSELECTED, [])
            else do {
              (ev, self) \<leftarrow> ControlObject_sendLastApplError self (Some connection) ''Cancel''
                CONTROL_ERROR_NO_ERROR CONTROL_ADD_CAUSE_LOCKED_BY_OTHER_CLIENT (Some ctlNum)
                (Some origin) True;
              cancelActivation env self DATA_ACCESS_ERROR_TEMPORARILY_UNAVAILABLE [ev]
            }
          else cancelActivation env self DATA_ACCESS_ERROR_OBJECT_ACCESS_DENIED []
      | _ \<Rightarrow> Some (DATA_ACCESS_ERROR_TYPE_INCONSISTENT, self, []))"

definition writeControlVariable ::
  "ControlEnv \<Rightarrow> clients \<Rightarrow> ControlObject \<Rightarrow> cstring \<Rightarrow> MmsValue \<Rightarrow> MmsServerConnection \<Rightarrow>
   (MmsDataAccessError \<times> ControlObject \<times> ControlEvent list) option" where
  "writeControlVariable env cs self varName val connection = do {
     self \<leftarrow> initialize env self;
     if varName = lit ''SBOw'' then writeSBOw env cs self val connection
     else if varName = lit ''Oper'' then writeOper env cs self val connection
     else if varName = lit ''Cancel'' then writeCancel env self val connection
     else Some (DATA_ACCESS_ERROR_OBJECT_ACCESS_DENIED, self, [])
   }"


section \<open>Finding the object\<close>

text \<open>\<open>MmsMapping_getNextNameElement\<close> (\<open>src/src/iedserver/mms_mapping/mms_mapping.c\<close>): the part of a name
  behind its first dollar sign.\<close>

definition MmsMapping_getNextNameElement :: "cstring \<Rightarrow> cstring option" where
  "MmsMapping_getNextNameElement name =
     (case dropWhile (\<lambda>c. c \<noteq> 0x24) name of
        [] \<Rightarrow> None
      | _ # separator \<Rightarrow> if separator = [] then None else Some separator)"

fun doesElementEquals :: "cstring \<Rightarrow> cstring \<Rightarrow> bool" where
  "doesElementEquals element [] \<longleftrightarrow> element = [] \<or> hd element = 0x24"
| "doesElementEquals [] (n # name) \<longleftrightarrow> False"
| "doesElementEquals (e # element) (n # name) \<longleftrightarrow> e = n \<and> doesElementEquals element name"

lemma getNextNameElement_shorter:
  "MmsMapping_getNextNameElement name = Some r \<Longrightarrow> length r < length name"
  using length_dropWhile_le [of "\<lambda>c. c \<noteq> 0x24" name]
  by (auto simp: MmsMapping_getNextNameElement_def split: list.splits if_splits)

definition isControlVariable :: "cstring \<Rightarrow> bool" where
  "isControlVariable varName \<longleftrightarrow> doesElementEquals varName (lit ''Oper'') \<or>
     doesElementEquals varName (lit ''SBO'') \<or> doesElementEquals varName (lit ''SBOw'') \<or>
     doesElementEquals varName (lit ''Cancel'')"

function varName_loop :: "cstring \<Rightarrow> cstring option" where
  "varName_loop varName =
     (if isControlVariable varName then Some varName
      else (case MmsMapping_getNextNameElement varName of
              None \<Rightarrow> None
            | Some nextVarName \<Rightarrow> varName_loop nextVarName))"
  by pat_completeness auto
termination
  by (relation "measure length") (auto simp: getNextNameElement_shorter)

declare varName_loop.simps [simp del]

text \<open>The names of logical node, control object and variable in a variable name, \<open>None\<close> for the names
  that both access functions give up at once.\<close>

definition splitControlName :: "cstring \<Rightarrow> (cstring \<times> cstring \<times> cstring option) option" where
  "splitControlName variableIdOrig =
     (let variableId = take 128 variableIdOrig in
      if 0x24 \<in> set variableId then do {
        objectName \<leftarrow> MmsMapping_getNextNameElement (tl (dropWhile (\<lambda>c. c \<noteq> 0x24) variableId));
        let lnName = takeWhile (\<lambda>c. c \<noteq> 0x24) variableId;
        (case MmsMapping_getNextNameElement objectName of
           None \<Rightarrow> Some (lnName, objectName, None)
         | Some varName \<Rightarrow>
             (case varName_loop varName of
                None \<Rightarrow> Some (lnName, objectName, None)
              | Some varName \<Rightarrow>
                  Some (lnName, take (length objectName - length varName - 1) objectName, Some varName)))
      }
      else None)"

primrec Control_lookupControlObject ::
  "ControlObject list \<Rightarrow> MmsDomain \<Rightarrow> cstring \<Rightarrow> cstring \<Rightarrow> nat option" where
  "Control_lookupControlObject [] domain lnName objectName = None"
| "Control_lookupControlObject (c # cs) domain lnName objectName =
     (if ct_mmsDomain c = domain \<and> ct_lnName c = lnName \<and> ct_name c = objectName then Some 0
      else map_option Suc (Control_lookupControlObject cs domain lnName objectName))"

definition Control_readAccessControlObject ::
  "ControlEnv \<Rightarrow> ControlObject list \<Rightarrow> MmsDomain \<Rightarrow> cstring \<Rightarrow> MmsServerConnection \<Rightarrow>
   (MmsValue option \<times> ControlObject list) option" where
  "Control_readAccessControlObject env objects domain variableIdOrig connection =
     (case splitControlName variableIdOrig of
        None \<Rightarrow> Some (None, objects)
      | Some (lnName, objectName, varName) \<Rightarrow>
          (case Control_lookupControlObject objects domain lnName objectName of
             None \<Rightarrow> Some (None, objects)
           | Some i \<Rightarrow> do {
               (v, self) \<leftarrow> readControlVariable env (objects ! i) varName connection;
               Some (v, objects[i := self])
             }))"

definition Control_writeAccessControlObject ::
  "ControlEnv \<Rightarrow> clients \<Rightarrow> ControlObject list \<Rightarrow> MmsDomain \<Rightarrow> cstring \<Rightarrow> MmsValue \<Rightarrow> MmsServerConnection \<Rightarrow>
   (MmsDataAccessError \<times> ControlObject list \<times> ControlEvent list) option" where
  "Control_writeAccessControlObject env cs objects domain variableIdOrig val connection =
     (case splitControlName variableIdOrig of
        Some (lnName, objectName, Some varName) \<Rightarrow>
          (case Control_lookupControlObject objects domain lnName objectName of
             None \<Rightarrow> Some (DATA_ACCESS_ERROR_OBJECT_ACCESS_DENIED, objects, [])
           | Some i \<Rightarrow> do {
               (indication, self, evs) \<leftarrow> writeControlVariable env cs (objects ! i) varName val connection;
               Some (indication, objects[i := self], evs)
             })
      | _ \<Rightarrow> Some (DATA_ACCESS_ERROR_OBJECT_ACCESS_DENIED, objects, []))"

end
