(* ===== verification/Mms_Device.thy ===== *)
theory Mms_Device
  imports Mms_Type_Spec Control_Object
begin

text \<open>
  The objects of an MMS server (\<open>src/src/mms/iso_mms/server\<close>): named variable lists
  (\<open>mms_named_variable_list.c\<close>), domains (\<open>mms_domain.c\<close>), the device (\<open>mms_device.c\<close>), the cache of
  values of a domain (\<open>mms_value_cache.c\<close>) and the access to values of \<open>mms_server.c\<close>.

  Linked lists and maps are the sequences of their elements (\<open>Linked_List\<close> and \<open>Pointer_Map\<close> show that
  their operations behave that way). A function that returns a pointer returns \<open>Some\<close> of it, \<open>Some None\<close>
  being \<open>NULL\<close>, or \<open>None\<close> where its behaviour is undefined.
\<close>

section \<open>Named variable lists\<close>

record MmsAccessSpecifier =
  as_domain :: "MmsDomain option"
  as_variableName :: cstring
  as_arrayIndex :: int
  as_componentName :: "cstring option"

record MmsNamedVariableList =
  nl_deletable :: bool
  nl_name :: cstring
  nl_listOfVariables :: "MmsAccessSpecifier list"

definition MmsNamedVariableListEntry_create :: "MmsAccessSpecifier \<Rightarrow> MmsAccessSpecifier" where
  "MmsNamedVariableListEntry_create accessSpecifier =
     \<lparr>as_domain = as_domain accessSpecifier, as_variableName = copyString (as_variableName accessSpecifier),
      as_arrayIndex = as_arrayIndex accessSpecifier,
      as_componentName = map_option copyString (as_componentName accessSpecifier)\<rparr>"

definition MmsNamedVariableListEntry_getDomain :: "MmsAccessSpecifier \<Rightarrow> MmsDomain option" where
  "MmsNamedVariableListEntry_getDomain self = as_domain self"

definition MmsNamedVariableListEntry_getVariableName :: "MmsAccessSpecifier \<Rightarrow> cstring" where
  "MmsNamedVariableListEntry_getVariableName self = as_variableName self"

definition MmsNamedVariableList_create :: "cstring \<Rightarrow> bool \<Rightarrow> MmsNamedVariableList" where
  "MmsNamedVariableList_create name deletable =
     \<lparr>nl_deletable = deletable, nl_name = copyString name, nl_listOfVariables = []\<rparr>"

definition MmsNamedVariableList_getName :: "MmsNamedVariableList \<Rightarrow> cstring" where
  "MmsNamedVariableList_getName self = nl_name self"

definition MmsNamedVariableList_isDeletable :: "MmsNamedVariableList \<Rightarrow> bool" where
  "MmsNamedVariableList_isDeletable self = nl_deletable self"

definition MmsNamedVariableList_addVariable ::
  "MmsNamedVariableList \<Rightarrow> MmsAccessSpecifier \<Rightarrow> MmsNamedVariableList" where
  "MmsNamedVariableList_addVariable self variable =
     self\<lparr>nl_listOfVariables := nl_listOfVariables self @ [variable]\<rparr>"

definition MmsNamedVariableList_getVariableList :: "MmsNamedVariableList \<Rightarrow> MmsAccessSpecifier list" where
  "MmsNamedVariableList_getVariableList self = nl_listOfVariables self"

fun mmsServer_deleteVariableList :: "MmsNamedVariableList list \<Rightarrow> cstring \<Rightarrow> MmsNamedVariableList list" where
  "mmsServer_deleteVariableList [] variableListName = []"
| "mmsServer_deleteVariableList (varList # element) variableListName =
     (if MmsNamedVariableList_getName varList = variableListName then element
      else varList # mmsServer_deleteVariableList element variableListName)"

text \<open>The loop of \<open>MmsDomain_getNamedVariableList\<close> and of the same function of a connection.\<close>

fun variableList_loop :: "MmsNamedVariableList list \<Rightarrow> cstring \<Rightarrow> MmsNamedVariableList option" where
  "variableList_loop [] variableListName = None"
| "variableList_loop (varList # element) variableListName =
     (if MmsNamedVariableList_getName varList = variableListName then Some varList
      else variableList_loop element variableListName)"


section \<open>Domains and devices\<close>

record sMmsDomain =
  md_domainName :: cstring
  md_namedVariables :: "MmsVariableSpecification list option"
  md_namedVariableLists :: "MmsNamedVariableList list"

record MmsDevice =
  dv_deviceName :: "cstring option"
  dv_domains :: "sMmsDomain list"

definition MmsDevice_create :: "cstring option \<Rightarrow> MmsDevice" where
  "MmsDevice_create deviceName = \<lparr>dv_deviceName = deviceName, dv_domains = []\<rparr>"

definition MmsDevice_getDomain :: "MmsDevice \<Rightarrow> cstring \<Rightarrow> sMmsDomain option" where
  "MmsDevice_getDomain self domainId = find (\<lambda>domain. md_domainName domain = domainId) (dv_domains self)"

definition MmsDomain_create :: "cstring \<Rightarrow> sMmsDomain" where
  "MmsDomain_create domainName =
     \<lparr>md_domainName = copyString domainName, md_namedVariables = None, md_namedVariableLists = []\<rparr>"

definition MmsDomain_getName :: "sMmsDomain \<Rightarrow> cstring" where
  "MmsDomain_getName self = md_domainName self"

definition MmsDomain_addNamedVariableList :: "sMmsDomain \<Rightarrow> MmsNamedVariableList \<Rightarrow> bool \<times> sMmsDomain" where
  "MmsDomain_addNamedVariableList self variableList =
     (True, self\<lparr>md_namedVariableLists := md_namedVariableLists self @ [variableList]\<rparr>)"

definition MmsDomain_getNamedVariableList :: "sMmsDomain \<Rightarrow> cstring \<Rightarrow> MmsNamedVariableList option" where
  "MmsDomain_getNamedVariableList self variableListName =
     variableList_loop (md_namedVariableLists self) variableListName"

definition MmsDomain_deleteNamedVariableList :: "sMmsDomain \<Rightarrow> cstring \<Rightarrow> sMmsDomain" where
  "MmsDomain_deleteNamedVariableList self variableListName =
     self\<lparr>md_namedVariableLists := mmsServer_deleteVariableList (md_namedVariableLists self) variableListName\<rparr>"

definition MmsDomain_getNamedVariableLists :: "sMmsDomain \<Rightarrow> MmsNamedVariableList list" where
  "MmsDomain_getNamedVariableLists self = md_namedVariableLists self"

text \<open>\<open>strchr(nameId, '$')\<close>: the name in front of the separator, and the rest behind it if there is
  one.\<close>

definition splitName :: "cstring \<Rightarrow> cstring \<times> cstring option" where
  "splitName nameId =
     (takeWhile (\<lambda>c. c \<noteq> 0x24) nameId,
      case dropWhile (\<lambda>c. c \<noteq> 0x24) nameId of [] \<Rightarrow> None | _ # rest \<Rightarrow> Some rest)"

text \<open>The loops over the names of elements: the comparison of whole names, and of the length and the
  characters in front of the separator. Names are compared, so they must not be \<open>NULL\<close>.\<close>

fun element_loop :: "MmsVariableSpecification list \<Rightarrow> cstring \<Rightarrow> MmsVariableSpecification option option" where
  "element_loop [] name = Some None"
| "element_loop (e # elements) name = do {
     n \<leftarrow> spec_name e;
     if n = name then Some (Some e) else element_loop elements name
   }"

lemma element_loop_size:
  "element_loop elements name = Some (Some e) \<Longrightarrow> size e < size_list size elements"
  by (induction elements name rule: element_loop.induct) (auto split: bind_splits if_splits)

lemma size_structure: "typeSpec v = T_structure elements \<Longrightarrow> size_list size elements < size v"
  by (cases v) simp

lemma size_array: "typeSpec v = T_array n e \<Longrightarrow> size e < size v"
  by (cases v) simp

text \<open>With a separator the elements are read as those of a structure whatever the type is.\<close>

function getNamedVariableRecursive ::
  "MmsVariableSpecification \<Rightarrow> cstring \<Rightarrow> MmsVariableSpecification option option" where
  "getNamedVariableRecursive variable nameId =
     (case splitName nameId of
        (name, None) \<Rightarrow>
          (case typeSpec variable of
             T_structure elements \<Rightarrow> element_loop elements name
           | _ \<Rightarrow> Some None)
      | (name, Some rest) \<Rightarrow>
          (case typeSpec variable of
             T_structure elements \<Rightarrow>
               (case element_loop elements name of
                  None \<Rightarrow> None
                | Some None \<Rightarrow> Some None
                | Some (Some namedVariable) \<Rightarrow>
                    (case typeSpec namedVariable of
                       T_structure _ \<Rightarrow> getNamedVariableRecursive namedVariable rest
                     | T_array _ elementTypeSpec \<Rightarrow> getNamedVariableRecursive elementTypeSpec rest
                     | _ \<Rightarrow> Some (Some namedVariable)))
           | _ \<Rightarrow> None))"
  by pat_completeness auto
termination
  by (relation "measure (\<lambda>(variable, nameId). size variable)")
    (auto dest!: element_loop_size size_structure size_array)

declare getNamedVariableRecursive.simps [simp del]

definition MmsDomain_getNamedVariable :: "sMmsDomain \<Rightarrow> cstring \<Rightarrow> MmsVariableSpecification option option" where
  "MmsDomain_getNamedVariable self nameId =
     (case md_namedVariables self of
        None \<Rightarrow> Some None
      | Some namedVariables \<Rightarrow>
          (case splitName nameId of
             (name, None) \<Rightarrow> element_loop namedVariables name
           | (name, Some rest) \<Rightarrow> do {
               namedVariable \<leftarrow> element_loop namedVariables name;
               (case namedVariable of
                  None \<Rightarrow> Some None
                | Some namedVariable \<Rightarrow> getNamedVariableRecursive namedVariable rest)
             }))"

section \<open>The cache of values\<close>

record sMmsValueCache =
  vc_domain :: sMmsDomain
  vc_map :: "(cstring \<times> MmsValue) list"

definition MmsValueCache_create :: "sMmsDomain \<Rightarrow> sMmsValueCache" where
  "MmsValueCache_create domain = \<lparr>vc_domain = domain, vc_map = []\<rparr>"

text \<open>A new entry goes behind the others, and the first one with a key is the one found.\<close>

definition MmsValueCache_insertValue :: "sMmsValueCache \<Rightarrow> cstring \<Rightarrow> MmsValue \<Rightarrow> sMmsValueCache option" where
  "MmsValueCache_insertValue self itemId v = do {
     typeSpec \<leftarrow> MmsDomain_getNamedVariable (vc_domain self) itemId;
     Some (case typeSpec of
         Some _ \<Rightarrow> self\<lparr>vc_map := vc_map self @ [(copyString itemId, v)]\<rparr>
       | None \<Rightarrow> self)
   }"

text \<open>The part of the name in front of the last separator, unless it is the first character.\<close>

definition getParentSubString :: "cstring \<Rightarrow> cstring option" where
  "getParentSubString itemId =
     (case dropWhile (\<lambda>c. c \<noteq> 0x24) (rev itemId) of
        _ # p # ps \<Rightarrow> Some (rev (p # ps))
      | _ \<Rightarrow> None)"

definition getChildSubString :: "cstring \<Rightarrow> cstring \<Rightarrow> cstring" where
  "getChildSubString itemId parentId = drop (length parentId + 1) itemId"

lemma getParentSubString_shorter: "getParentSubString s = Some p \<Longrightarrow> length p < length s"
proof -
  assume "getParentSubString s = Some p"
  then have "length p < length (dropWhile (\<lambda>c. c \<noteq> 0x24) (rev s))"
    by (auto simp: getParentSubString_def split: list.splits)
  then show ?thesis using length_dropWhile_le [of "\<lambda>c. c \<noteq> 0x24" "rev s"] by simp
qed

function searchCacheForValue :: "sMmsValueCache \<Rightarrow> cstring \<Rightarrow> cstring \<Rightarrow> MmsValue option option" where
  "searchCacheForValue self itemId parentId =
     (case map_of (vc_map self) parentId of
        None \<Rightarrow>
          (case getParentSubString parentId of
             Some parentItemId \<Rightarrow> searchCacheForValue self itemId parentItemId
           | None \<Rightarrow> Some None)
      | Some v \<Rightarrow> do {
          typeSpec \<leftarrow> MmsDomain_getNamedVariable (vc_domain self) parentId;
          typeSpec \<leftarrow> typeSpec;
          MmsVariableSpecification_getChildValue typeSpec (Some v) (getChildSubString itemId parentId)
        })"
  by pat_completeness auto
termination
  by (relation "measure (\<lambda>(self, itemId, parentId). length parentId)")
    (auto dest: getParentSubString_shorter)

declare searchCacheForValue.simps [simp del]

definition MmsValueCache_lookupValue :: "sMmsValueCache \<Rightarrow> cstring \<Rightarrow> MmsValue option option" where
  "MmsValueCache_lookupValue self itemId =
     (case map_of (vc_map self) itemId of
        Some v \<Rightarrow> Some (Some v)
      | None \<Rightarrow>
          (case getParentSubString itemId of
             Some parentItemId \<Rightarrow> searchCacheForValue self itemId parentItemId
           | None \<Rightarrow> Some None))"


section \<open>Values of a server\<close>

text \<open>The value caches, by the domain.\<close>

type_synonym ValueCaches = "(MmsDomain \<times> sMmsValueCache) list"

definition createValueCachesForDomains :: "(MmsDomain \<times> sMmsDomain) list \<Rightarrow> ValueCaches" where
  "createValueCachesForDomains domains = map (\<lambda>(p, domain). (p, MmsValueCache_create domain)) domains"

definition MmsServer_getValueFromCache :: "ValueCaches \<Rightarrow> MmsDomain \<Rightarrow> cstring \<Rightarrow> MmsValue option option" where
  "MmsServer_getValueFromCache self domain itemId =
     (case map_of self domain of
        Some cache \<Rightarrow> MmsValueCache_lookupValue cache itemId
      | None \<Rightarrow> Some None)"

definition MmsServer_insertIntoCache ::
  "ValueCaches \<Rightarrow> MmsDomain \<Rightarrow> cstring \<Rightarrow> MmsValue \<Rightarrow> ValueCaches option" where
  "MmsServer_insertIntoCache self domain itemId v =
     (case map_of self domain of
        Some cache \<Rightarrow> do {
          cache \<leftarrow> MmsValueCache_insertValue cache itemId v;
          Some (map (\<lambda>(p, c). (p, if p = domain then cache else c)) self)
        }
      | None \<Rightarrow> Some self)"

text \<open>\<open>mmsServer_getValue\<close>: the cache first, then the read handler of the application, if any.\<close>

definition mmsServer_getValue ::
  "(MmsDomain \<Rightarrow> cstring \<Rightarrow> MmsServerConnection \<Rightarrow> MmsValue option) option \<Rightarrow> ValueCaches \<Rightarrow> MmsDomain \<Rightarrow>
   cstring \<Rightarrow> MmsServerConnection \<Rightarrow> MmsValue option option" where
  "mmsServer_getValue readHandler self domain itemId connection = do {
     v \<leftarrow> MmsServer_getValueFromCache self domain itemId;
     Some (case v of
         Some v \<Rightarrow> Some v
       | None \<Rightarrow> (case readHandler of None \<Rightarrow> None | Some h \<Rightarrow> h domain itemId connection))
   }"


section \<open>Names that resolve\<close>

text \<open>The names of a domain: those of its variables, and of the elements of structures behind them.\<close>

definition joined :: "cstring \<Rightarrow> cstring \<Rightarrow> cstring" where
  "joined prefix name = prefix @ 0x24 # name"

definition plain_name :: "cstring option \<Rightarrow> bool" where
  "plain_name n \<longleftrightarrow> (\<exists>s. n = Some s \<and> 0x24 \<notin> set s)"

text \<open>Descriptions whose elements have different names without separator.\<close>

fun named_well :: "MmsVariableSpecification \<Rightarrow> bool" where
  "named_well (MmsVariableSpecification n t) \<longleftrightarrow> plain_name n \<and>
     (case t of
        T_structure es \<Rightarrow> list_all named_well es \<and> distinct (map spec_name es)
      | _ \<Rightarrow> True)"

lemma splitName_plain: "0x24 \<notin> set s \<Longrightarrow> splitName s = (s, None)"
  by (induction s) (auto simp: splitName_def)

lemma splitName_joined: "0x24 \<notin> set s \<Longrightarrow> splitName (joined s rest) = (s, Some rest)"
  by (auto simp: splitName_def joined_def takeWhile_append dropWhile_append)

lemma element_loop_found:
  assumes "list_all (\<lambda>e. plain_name (spec_name e)) es" and "distinct (map spec_name es)"
    and "e \<in> set es" and "spec_name e = Some n"
  shows "element_loop es n = Some (Some e)"
  using assms
proof (induction es)
  case (Cons x es)
  obtain m where m: "spec_name x = Some m" using Cons.prems(1) by (auto simp: plain_name_def)
  show ?case
  proof (cases "m = n")
    case True
    then have "x = e" using Cons.prems(2-4) m by (auto simp: image_iff)
    with True m show ?thesis by simp
  next
    case False
    with Cons m show ?thesis by auto
  qed
qed simp

text \<open>The elements inside a description, each with its name relative to it.\<close>

fun subvariables :: "MmsVariableSpecification \<Rightarrow> (cstring \<times> MmsVariableSpecification) list" where
  "subvariables (MmsVariableSpecification n t) =
     (case t of
        T_structure es \<Rightarrow> concat (map (\<lambda>e. (the (spec_name e), e) #
          map (\<lambda>(r, v). (joined (the (spec_name e)) r, v)) (subvariables e)) es)
      | _ \<Rightarrow> [])"

lemma named_well_elements:
  "named_well v \<Longrightarrow> typeSpec v = T_structure es \<Longrightarrow> list_all (\<lambda>e. plain_name (spec_name e)) es \<and>
   distinct (map spec_name es) \<and> list_all named_well es"
proof (cases v)
  case (MmsVariableSpecification n t)
  assume "named_well v" "typeSpec v = T_structure es"
  moreover have "plain_name (spec_name e)" if "named_well e" for e using that by (cases e) simp
  ultimately show ?thesis using MmsVariableSpecification by (auto simp: list_all_iff)
qed

lemma recursive_resolves:
  "named_well e \<Longrightarrow> (r, v) \<in> set (subvariables e) \<Longrightarrow> getNamedVariableRecursive e r = Some (Some v)"
proof (induction e arbitrary: r rule: subvariables.induct)
  case (1 n t)
  then obtain es e where t: "t = T_structure es" and e: "e \<in> set es"
      and r: "(r, v) = (the (spec_name e), e) \<or> (\<exists>r'. (r', v) \<in> set (subvariables e) \<and> r = joined (the (spec_name e)) r')"
    by (auto split: MmsTypeSpecification.splits)
  have el: "list_all (\<lambda>e. plain_name (spec_name e)) es" "distinct (map spec_name es)" "named_well e"
    using named_well_elements [OF "1.prems"(1), of es] e t by (auto simp: list_all_iff)
  obtain m where m: "spec_name e = Some m" "0x24 \<notin> set m"
    using el(1) e by (auto simp: list_all_iff plain_name_def)
  have found: "element_loop es m = Some (Some e)" by (rule element_loop_found [OF el(1,2) e m(1)])
  from r show ?case
  proof
    assume "(r, v) = (the (spec_name e), e)"
    then show ?thesis
      using m found t by (subst getNamedVariableRecursive.simps) (simp add: splitName_plain)
  next
    assume "\<exists>r'. (r', v) \<in> set (subvariables e) \<and> r = joined (the (spec_name e)) r'"
    then obtain r' where r': "(r', v) \<in> set (subvariables e)" "r = joined m r'" using m by auto
    obtain es' where "typeSpec e = T_structure es'"
      using r'(1) by (cases e) (auto split: MmsTypeSpecification.splits)
    then show ?thesis
      using "1.IH" [OF t e el(3) r'(1)] r'(2) found t m(2)
      by (subst getNamedVariableRecursive.simps) (simp add: splitName_joined)
  qed
qed

text \<open>All named variables of a domain.\<close>

definition domain_variables :: "MmsVariableSpecification list \<Rightarrow> (cstring \<times> MmsVariableSpecification) list" where
  "domain_variables vs = concat (map (\<lambda>e. (the (spec_name e), e) #
     map (\<lambda>(r, v). (joined (the (spec_name e)) r, v)) (subvariables e)) vs)"

lemma domain_resolves:
  assumes "md_namedVariables domain = Some vs" and "list_all named_well vs" and "distinct (map spec_name vs)"
    and "(r, v) \<in> set (domain_variables vs)"
  shows "MmsDomain_getNamedVariable domain r = Some (Some v)"
proof -
  obtain e where e: "e \<in> set vs" and r: "(r, v) = (the (spec_name e), e) \<or>
      (\<exists>r'. (r', v) \<in> set (subvariables e) \<and> r = joined (the (spec_name e)) r')"
    using assms(4) by (auto simp: domain_variables_def)
  have plain: "list_all (\<lambda>e. plain_name (spec_name e)) vs"
    using assms(2) by (auto simp: list_all_iff) (metis named_well.elims(2) MmsVariableSpecification.sel(1))
  obtain m where m: "spec_name e = Some m" "0x24 \<notin> set m"
    using plain e by (auto simp: list_all_iff plain_name_def)
  have found: "element_loop vs m = Some (Some e)" by (rule element_loop_found [OF plain assms(3) e m(1)])
  have "named_well e" using assms(2) e by (simp add: list_all_iff)
  then show ?thesis
    using r recursive_resolves [of e] found m assms(1)
    by (auto simp: MmsDomain_getNamedVariable_def splitName_plain splitName_joined)
qed

text \<open>The lookup of a variable ignores what follows a simple element: in a domain variable with a structure, a
  name that goes on behind an element of a simple type is resolved to that element.\<close>

theorem domain_lookup_ignores_rest:
  assumes "md_namedVariables domain = Some [MmsVariableSpecification (Some a) (T_structure
      [MmsVariableSpecification (Some b) t])]" and "0x24 \<notin> set a" and "0x24 \<notin> set b"
    and "\<forall>es n e. t \<noteq> T_structure es \<and> t \<noteq> T_array n e"
  shows "MmsDomain_getNamedVariable domain (joined a (joined b rest)) =
    Some (Some (MmsVariableSpecification (Some b) t))"
  using assms by (cases t) (simp_all add: MmsDomain_getNamedVariable_def splitName_joined getNamedVariableRecursive.simps)

theorem domain_lookup_ignores_rest_witness:
  "MmsDomain_getNamedVariable ((MmsDomain_create (lit ''d''))\<lparr>md_namedVariables :=
      Some [MmsVariableSpecification (Some (lit ''LLN0'')) (T_structure
        [MmsVariableSpecification (Some (lit ''q'')) T_boolean])]\<rparr>) (joined (lit ''LLN0'') (joined (lit ''q'') (lit ''no$such''))) =
    Some (Some (MmsVariableSpecification (Some (lit ''q'')) T_boolean))"
  by (rule domain_lookup_ignores_rest) (simp_all add: lit_def)

section \<open>Components of cached values\<close>

lemma getParentSubString_rev:
  assumes "dropWhile (\<lambda>c. c \<noteq> 0x24) (rev s) = 0x24 # rev p" and "p \<noteq> []"
  shows "getParentSubString s = Some p"
proof -
  obtain q qs where q: "rev p = q # qs" using assms(2) by (cases "rev p") auto
  then have "p = rev (q # qs)" by (metis rev_rev_ident)
  with assms(1) q show ?thesis by (simp add: getParentSubString_def)
qed

text \<open>The parents of a name below \<open>base\<close> are below \<open>base\<close> too, until \<open>base\<close> is reached.\<close>

lemma parent_below:
  assumes "base \<noteq> []"
  shows "\<exists>p. getParentSubString (joined base c) = Some p \<and> (p = base \<or> (\<exists>c'. p = joined base c'))"
proof (cases "0x24 \<in> set c")
  case False
  have "dropWhile (\<lambda>x. x \<noteq> 0x24) (rev (joined base c)) = 0x24 # rev base"
    using False by (simp add: joined_def dropWhile_append)
  then have "getParentSubString (joined base c) = Some base"
    using assms by (rule getParentSubString_rev)
  then show ?thesis by blast
next
  case True
  then obtain c' c'' where c: "c = c' @ 0x24 # c''" "0x24 \<notin> set c''" by (metis split_list_last)
  have "dropWhile (\<lambda>x. x \<noteq> 0x24) (rev (joined base c)) = 0x24 # rev (joined base c')"
    using c by (simp add: joined_def dropWhile_append)
  then have "getParentSubString (joined base c) = Some (joined base c')"
    by (rule getParentSubString_rev) (simp add: joined_def)
  then show ?thesis by blast
qed

lemma search_reaches:
  assumes "base \<noteq> []" and "map_of (vc_map cache) base = Some v"
    and "\<And>c. map_of (vc_map cache) (joined base c) = None"
    and "p = base \<or> (\<exists>c. p = joined base c)"
  shows "searchCacheForValue cache itemId p = searchCacheForValue cache itemId base"
  using assms(4)
proof (induction p rule: length_induct)
  case (1 p)
  show ?case
  proof (cases "p = base")
    case False
    then obtain c where p: "p = joined base c" using "1.prems" by blast
    obtain p' where p': "getParentSubString p = Some p'" "p' = base \<or> (\<exists>c'. p' = joined base c')"
      using parent_below [OF assms(1), of c] p by blast
    have "searchCacheForValue cache itemId p = searchCacheForValue cache itemId p'"
      using p' assms(3) [of c] by (subst searchCacheForValue.simps) (simp add: p)
    with "1.IH" getParentSubString_shorter [OF p'(1)] p'(2) show ?thesis by metis
  qed simp
qed

text \<open>A cached value is found by the names of its components: with a value stored for a variable and no entry
  for a name below it, the lookup of such a name is the lookup of the component in that value by the
  description of the variable.\<close>

theorem value_cache_components:
  assumes "base \<noteq> []" and "map_of (vc_map cache) base = Some v"
    and "\<And>c. map_of (vc_map cache) (joined base c) = None"
    and "MmsDomain_getNamedVariable (vc_domain cache) base = Some (Some t)"
  shows "MmsValueCache_lookupValue cache (joined base childId) =
    MmsVariableSpecification_getChildValue t (Some v) childId"
proof -
  obtain p where p: "getParentSubString (joined base childId) = Some p" "p = base \<or> (\<exists>c'. p = joined base c')"
    using parent_below [OF assms(1)] by blast
  have "searchCacheForValue cache (joined base childId) base =
      MmsVariableSpecification_getChildValue t (Some v) childId"
    using assms(2,4) by (subst searchCacheForValue.simps) (simp add: getChildSubString_def joined_def)
  with p search_reaches [OF assms(1-3) p(2)] assms(3) show ?thesis
    by (simp add: MmsValueCache_lookupValue_def)
qed

theorem value_cache_components_witness:
  "MmsValueCache_lookupValue \<lparr>vc_domain = (MmsDomain_create (lit ''d''))\<lparr>md_namedVariables :=
        Some [MmsVariableSpecification (Some (lit ''x'')) (T_structure
          [MmsVariableSpecification (Some (lit ''q'')) T_boolean])]\<rparr>,
      vc_map = [(lit ''x'', MmsValue 0 (V_structure [Some (MmsValue 0 (V_boolean True))]))]\<rparr>
      (joined (lit ''x'') (lit ''q'')) = Some (Some (MmsValue 0 (V_boolean True)))"
proof -
  define t where "t = MmsVariableSpecification (Some (lit ''x'')) (T_structure
    [MmsVariableSpecification (Some (lit ''q'')) T_boolean])"
  define v where "v = MmsValue 0 (V_structure [Some (MmsValue 0 (V_boolean True))])"
  define cache where "cache = \<lparr>vc_domain = (MmsDomain_create (lit ''d''))\<lparr>md_namedVariables := Some [t]\<rparr>,
    vc_map = [(lit ''x'', v)]\<rparr>"
  have "MmsDomain_getNamedVariable (vc_domain cache) (lit ''x'') = Some (Some t)"
    by (simp add: cache_def t_def MmsDomain_getNamedVariable_def splitName_plain lit_def)
  then have "MmsValueCache_lookupValue cache (joined (lit ''x'') (lit ''q'')) =
      MmsVariableSpecification_getChildValue t (Some v) (lit ''q'')"
    by (intro value_cache_components) (auto simp: cache_def joined_def lit_def)
  also have "\<dots> = Some (Some (MmsValue 0 (V_boolean True)))"
    by (simp add: t_def v_def lit_def component_at_def components_def)
  finally show ?thesis by (simp add: cache_def t_def v_def)
qed

end
