(* ===== verification/Ber_Decoder.thy ===== *)
theory Ber_Decoder
  imports Ber_Encoder
begin

text \<open>
  \<open>src/src/mms/asn1/ber_decode.c\<close>: the BER decoding routines. \<open>BerDecoder_decodeLength\<close>
  returns the new \<open>bufPos\<close> (\<open>-1\<close> on a truncated length) and the contents of
  \<open>*length\<close> afterwards; \<open>None\<close> there is a variable that was never written, which a caller
  that ignores the \<open>-1\<close> must not read.
\<close>

section \<open>Definitions\<close>

fun decodeLength_loop ::
  "byte list \<Rightarrow> nat \<Rightarrow> int \<Rightarrow> int \<Rightarrow> int \<Rightarrow> (int \<times> int) option" where
  "decodeLength_loop buffer 0 len bufPos maxBufPos = Some (bufPos, len)"
| "decodeLength_loop buffer (Suc n) len bufPos maxBufPos =
     (if bufPos \<ge> maxBufPos then Some (-1, len)
      else do {
        b \<leftarrow> rd buffer bufPos;
        decodeLength_loop buffer n (to_int32 (len * 256) + uint b) (bufPos + 1) maxBufPos
      })"

definition BerDecoder_decodeLength ::
  "byte list \<Rightarrow> int option \<Rightarrow> int \<Rightarrow> int \<Rightarrow> (int \<times> int option) option" where
  "BerDecoder_decodeLength buffer len bufPos maxBufPos =
     (if bufPos \<ge> maxBufPos then Some (-1, len)
      else do {
        len1 \<leftarrow> rd buffer bufPos;
        if len1 AND 0x80 \<noteq> 0 then
          (let lenLength = unat (len1 AND 0x7f) in
           if lenLength = 0 then Some (bufPos + 1, Some (-1))
           else do {
             (bufPos, len) \<leftarrow> decodeLength_loop buffer lenLength 0 (bufPos + 1) maxBufPos;
             Some (bufPos, Some len)
           })
        else Some (bufPos + 1, Some (uint len1))
      })"

text \<open>\<open>malloc\<close> is assumed to succeed; a negative \<open>strlen\<close> becomes a huge \<open>memcpy\<close> size.\<close>

definition BerDecoder_decodeString :: "byte list \<Rightarrow> int \<Rightarrow> int \<Rightarrow> byte list option" where
  "BerDecoder_decodeString buffer len bufPos = do {
     src \<leftarrow> ptr_add buffer bufPos;
     if len < 0 then None else rd_n src (nat len)
   }"

function decodeUint32_loop :: "byte list \<Rightarrow> int \<Rightarrow> int \<Rightarrow> int \<Rightarrow> u32 \<Rightarrow> u32 option" where
  "decodeUint32_loop buffer i intlen bufPos val =
     (if i < intlen then do {
        b \<leftarrow> rd buffer (bufPos + i);
        decodeUint32_loop buffer (i + 1) intlen bufPos (push_bit 8 val + ucast b)
      }
      else Some val)"
  by pat_completeness auto
termination
  by (relation "measure (\<lambda>(buffer, i, intlen, bufPos, val). nat (intlen - i))") auto

definition BerDecoder_decodeUint32 :: "byte list \<Rightarrow> int \<Rightarrow> int \<Rightarrow> u32 option" where
  "BerDecoder_decodeUint32 buffer intlen bufPos = decodeUint32_loop buffer 0 intlen bufPos 0"

text \<open>A \<open>float\<close> or \<open>double\<close> is its memory image; \<open>valueBuf[n-1] .. valueBuf[0]\<close> are
  filled from the buffer in this order.\<close>

fun decodeReal_loop :: "byte list \<Rightarrow> nat \<Rightarrow> int \<Rightarrow> byte list \<Rightarrow> byte list option" where
  "decodeReal_loop buffer 0 bufPos valueBuf = Some valueBuf"
| "decodeReal_loop buffer (Suc i) bufPos valueBuf = do {
     b \<leftarrow> rd buffer bufPos;
     decodeReal_loop buffer i (bufPos + 1) (valueBuf[i := b])
   }"

definition BerDecoder_decodeFloat :: "byte list \<Rightarrow> int \<Rightarrow> byte list option" where
  "BerDecoder_decodeFloat buffer bufPos =
     decodeReal_loop buffer 4 (bufPos + 1) (replicate 4 0)"

definition BerDecoder_decodeDouble :: "byte list \<Rightarrow> int \<Rightarrow> byte list option" where
  "BerDecoder_decodeDouble buffer bufPos =
     decodeReal_loop buffer 8 (bufPos + 1) (replicate 8 0)"

definition BerDecoder_decodeBoolean :: "byte list \<Rightarrow> int \<Rightarrow> bool option" where
  "BerDecoder_decodeBoolean buffer bufPos = do {
     b \<leftarrow> rd buffer bufPos;
     Some (b \<noteq> 0)
   }"

section \<open>Bytes found at a position\<close>

text \<open>\<open>found_at buffer p bs\<close>: the array holds the sequence \<open>bs\<close> from index \<open>p\<close> on.
  The parsers are analysed on messages described this way.\<close>

definition found_at :: "byte list \<Rightarrow> int \<Rightarrow> byte list \<Rightarrow> bool" where
  "found_at buffer p bs \<longleftrightarrow>
     0 \<le> p \<and> p + int (length bs) \<le> int (length buffer) \<and>
     take (length bs) (drop (nat p) buffer) = bs"

lemma found_at_Nil: "found_at buffer p [] \<longleftrightarrow> 0 \<le> p \<and> p \<le> int (length buffer)"
  by (auto simp: found_at_def)

lemma found_at_append:
  "found_at buffer p (xs @ ys) \<longleftrightarrow> found_at buffer p xs \<and> found_at buffer (p + int (length xs)) ys"
proof -
  have "take (length xs + length ys) (drop (nat p) buffer) = xs @ ys \<longleftrightarrow>
      take (length xs) (drop (nat p) buffer) = xs \<and>
      take (length ys) (drop (nat p + length xs) buffer) = ys"
    if "0 \<le> p" "p + int (length xs) + int (length ys) \<le> int (length buffer)"
    using that by (auto simp: take_add add.commute append_eq_append_conv)
  then show ?thesis
    by (auto simp: found_at_def nat_add_distrib add.assoc)
qed

lemma found_at_Cons:
  "found_at buffer p (b # bs) \<longleftrightarrow> rd buffer p = Some b \<and> found_at buffer (p + 1) bs"
proof -
  have "found_at buffer p [b] \<longleftrightarrow> rd buffer p = Some b"
    by (auto simp: found_at_def rd_def take_Suc hd_drop_conv_nth drop_eq_Nil2)
  then show ?thesis
    using found_at_append [of buffer p "[b]" bs] by simp
qed

lemma found_at_self: "found_at (pre @ bs @ post) (int (length pre)) bs"
  by (simp add: found_at_def)

lemma found_at_start: "found_at (bs @ post) 0 bs"
  by (simp add: found_at_def)

lemma found_at_nonneg: "found_at buffer p bs \<Longrightarrow> 0 \<le> p"
  by (simp add: found_at_def)

lemma found_at_length: "found_at buffer p bs \<Longrightarrow> p + int (length bs) \<le> int (length buffer)"
  by (simp add: found_at_def)

lemma found_at_ptr:
  "found_at buffer p bs \<Longrightarrow> \<exists>post. ptr_add buffer p = Some (bs @ post)"
  by (auto simp: found_at_def ptr_add_def) (metis append_take_drop_id)

lemmas found_at_simps = found_at_Nil found_at_Cons found_at_append

section \<open>Decoding what was encoded\<close>

lemma uint_of_nat_byte: "n < 256 \<Longrightarrow> uint (of_nat n :: byte) = int n"
  by (simp add: uint_nat unat_of_nat take_bit_eq_mod)

lemma decodeLength_short:
  assumes "rd buffer p = Some (of_nat n)" and "n < 128" and "p < maxBufPos"
  shows "BerDecoder_decodeLength buffer len p maxBufPos = Some (p + 1, Some (int n))"
proof -
  have "(of_nat n :: byte) AND 0x80 = 0"
    using assms(2) by (simp add: top_bit_iff unat_of_nat take_bit_eq_mod)
  with assms show ?thesis
    by (simp add: BerDecoder_decodeLength_def uint_of_nat_byte)
qed

lemma decodeLength_81:
  assumes "rd buffer p = Some 0x81" and "rd buffer (p + 1) = Some b" and "p + 1 < maxBufPos"
  shows "BerDecoder_decodeLength buffer len p maxBufPos = Some (p + 2, Some (uint b))"
  using assms by (simp add: BerDecoder_decodeLength_def)

lemma decodeLength_82:
  assumes "rd buffer p = Some 0x82" and "rd buffer (p + 1) = Some b"
    and "rd buffer (2 + p) = Some c" and "2 + p < maxBufPos"
  shows "BerDecoder_decodeLength buffer len p maxBufPos =
         Some (3 + p, Some (uint b * 256 + uint c))"
proof -
  have "to_int32 (uint b * 256) = uint b * 256"
    using uint_byte [of b] uint_byte_nonneg [of b] by (intro to_int32_id) linarith+
  with assms(2-4) have "decodeLength_loop buffer 2 0 (p + 1) maxBufPos =
      Some (3 + p, uint b * 256 + uint c)"
    by (simp add: numeral_2_eq_2)
  with assms show ?thesis
    by (simp add: BerDecoder_decodeLength_def)
qed

text \<open>Whatever length was encoded, the decoder returns it modulo \<open>2 ^ 16\<close>: the encoder's
  longest form has two length octets.\<close>

lemma decodeLength_found_mod:
  assumes "found_at buffer p (length_bytes n)"
    and "p + int (length (length_bytes n)) \<le> maxBufPos"
  shows "BerDecoder_decodeLength buffer len p maxBufPos =
         Some (p + int (length (length_bytes n)), Some (int (n mod 65536)))"
proof -
  consider "n < 128" | "128 \<le> n" "n < 256" | "256 \<le> n" by linarith
  then show ?thesis
  proof cases
    case 1
    with assms show ?thesis
      by (simp add: length_bytes_def found_at_simps decodeLength_short)
  next
    case 2
    with assms show ?thesis
      by (simp add: length_bytes_def found_at_simps decodeLength_81 uint_of_nat_byte)
  next
    case 3
    have "n mod 65536 = n div 256 mod 256 * 256 + n mod 256"
      using mod_mult2_eq [of n 256 256] by simp
    then have "int (n mod 65536) = int (n div 256 mod 256) * 256 + int (n mod 256)"
      by simp
    moreover have "uint (of_nat (n div 256) :: byte) = int (n div 256 mod 256)"
      by (simp add: unsigned_of_nat take_bit_eq_mod zmod_int)
    ultimately show ?thesis
      using 3 assms by (simp add: length_bytes_def found_at_simps decodeLength_82 uint_of_nat_byte)
  qed
qed

lemma decodeLength_found:
  assumes "found_at buffer p (length_bytes n)" and "n < 65536"
    and "p + int (length (length_bytes n)) \<le> maxBufPos"
  shows "BerDecoder_decodeLength buffer len p maxBufPos =
         Some (p + int (length (length_bytes n)), Some (int n))"
  using decodeLength_found_mod [OF assms(1,3)] assms(2) by simp

context emitter
begin

lemma enc_found_at:
  assumes "enc x (buffer, bufPos) = Some (buffer', bufPos')" and "bufPos \<le> length buffer"
  shows "found_at buffer' (int bufPos) (bytes x)" and "bufPos' = bufPos + length (bytes x)"
proof -
  from assms have "buffer' = take bufPos buffer @ bytes x @ drop bufPos' buffer"
    and pos: "bufPos' = bufPos + length (bytes x)"
    by (simp_all add: enc_eq emits_Some_iff)
  then show "found_at buffer' (int bufPos) (bytes x)"
    using found_at_self [of "take bufPos buffer" "bytes x"] assms(2) by simp
  show "bufPos' = bufPos + length (bytes x)" by (rule pos)
qed

end

interpretation enc_length: emitter BerEncoder_encodeLength length_bytes
  by unfold_locales (rule encodeLength_emits)

interpretation enc_uint32_TL: emitter
  "\<lambda>(tag, v). BerEncoder_encodeUInt32WithTL tag v"
  "\<lambda>(tag, v). tl_bytes tag (length (uint32_bytes v)) @ uint32_bytes v"
  by unfold_locales (simp add: encodeUInt32WithTL_emits split: prod.split)

interpretation plain: emitter emits "\<lambda>bs. bs"
  by unfold_locales simp

text \<open>\<open>decodeUint32\<close> reads the low 32 bits of the big-endian value.\<close>

declare decodeUint32_loop.simps [simp del]

lemma decodeUint32_loop_found:
  "found_at buffer (bufPos + i) bs \<Longrightarrow> intlen = i + int (length bs) \<Longrightarrow>
   decodeUint32_loop buffer i intlen bufPos val = Some (val * 256 ^ length bs + of_nat (be_nat bs))"
proof (induction bs arbitrary: i val)
  case Nil
  then show ?case by (subst decodeUint32_loop.simps) simp
next
  case (Cons b bs)
  have "rd buffer (bufPos + i) = Some b" "found_at buffer (bufPos + (i + 1)) bs"
    using Cons.prems(1) by (simp_all add: found_at_Cons add.assoc)
  with Cons.prems Cons.IH [of "i + 1" "push_bit 8 val + ucast b"]
  have "decodeUint32_loop buffer i intlen bufPos val =
      Some ((push_bit 8 val + ucast b) * 256 ^ length bs + of_nat (be_nat bs))"
    by (subst decodeUint32_loop.simps) simp
  also have "push_bit 8 val = val * 256" by (simp add: push_bit_eq_mult)
  also have "(ucast b :: u32) = of_nat (unat b)" by simp
  finally show ?case by (simp add: algebra_simps)
qed

lemma decodeUint32_found:
  "found_at buffer bufPos bs \<Longrightarrow> intlen = int (length bs) \<Longrightarrow>
   BerDecoder_decodeUint32 buffer intlen bufPos = Some (of_nat (be_nat bs))"
  using decodeUint32_loop_found [of buffer bufPos 0 bs intlen 0]
  by (simp add: BerDecoder_decodeUint32_def)

lemma decodeString_found:
  "found_at buffer bufPos bs \<Longrightarrow> len = int (length bs) \<Longrightarrow>
   BerDecoder_decodeString buffer len bufPos = Some bs"
  by (auto simp: BerDecoder_decodeString_def rd_n_def dest!: found_at_ptr)

lemma decodeReal_loop_found:
  "found_at buffer bufPos bs \<Longrightarrow> length bs = n \<Longrightarrow> n \<le> length valueBuf \<Longrightarrow>
   decodeReal_loop buffer n bufPos valueBuf = Some (rev bs @ drop n valueBuf)"
proof (induction n arbitrary: bufPos bs valueBuf)
  case 0
  then show ?case by simp
next
  case (Suc n)
  then obtain c cs where "bs = c # cs" by (cases bs) auto
  moreover have "drop n (valueBuf[n := c]) = c # drop (Suc n) valueBuf"
    using Suc.prems(3) by (simp add: Cons_nth_drop_Suc [symmetric])
  ultimately show ?case
    using Suc.prems Suc.IH [of "bufPos + 1" cs "valueBuf[n := c]"]
    by (simp add: found_at_Cons)
qed

section \<open>Bit strings and reals\<close>

lemma paddingMask_eq_mask: "p \<le> 8 \<Longrightarrow> paddingMask p = mask p"
proof (induction p)
  case 0
  then show ?case by simp
next
  case (Suc p)
  then have "paddingMask (Suc p) = mask p + push_bit p 1" by simp
  also have "\<dots> = mask p OR push_bit p 1"
    by (rule disjunctive_add_eq_or [symmetric, THEN sym])
      (rule bit_eqI, auto simp: bit_and_iff bit_mask_iff bit_exp_iff)
  also have "\<dots> = mask (Suc p)"
    by (rule bit_eqI) (auto simp: bit_or_iff bit_mask_iff bit_exp_iff)
  finally show ?case .
qed

text \<open>Bit \<open>i\<close> of an ASN.1 bit string: the first bit is the most significant one of the first
  octet.\<close>

definition bs_bit :: "byte list \<Rightarrow> nat \<Rightarrow> bool" where
  "bs_bit bs i \<longleftrightarrow> bit (bs ! (i div 8)) (7 - i mod 8)"

lemma bs_bit_masked:
  assumes "i < n" and "length bs = bitString_byteSize n"
  shows "bs_bit (butlast bs @ [last bs AND NOT (paddingMask (bitString_byteSize n * 8 - n))]) i =
         bs_bit bs i"
proof -
  let ?p = "bitString_byteSize n * 8 - n"
  have p: "?p \<le> 7" "?p \<le> 8" by (simp_all add: bitString_byteSize_eq)
  have ne: "bs \<noteq> []" using assms by (auto simp: bitString_byteSize_eq)
  show ?thesis
  proof (cases "i div 8 < length bs - 1")
    case True
    then show ?thesis by (simp add: bs_bit_def nth_append nth_butlast)
  next
    case False
    then have i: "i div 8 = length bs - 1"
      using assms by (simp add: bitString_byteSize_eq)
    have "i = 8 * (i div 8) + i mod 8" "i mod 8 < 8" "0 < length bs"
      using ne by simp_all
    then have "\<not> 7 - i mod 8 < ?p"
      using i assms(1) assms(2) [symmetric] by linarith
    with i ne p show ?thesis
      by (simp add: bs_bit_def nth_append last_conv_nth paddingMask_eq_mask
          bit_and_iff bit_not_iff bit_mask_iff less_Suc_eq_le [of _ 7, simplified])
  qed
qed

section \<open>Properties\<close>

text \<open>a length written by \<open>BerEncoder_encodeLength\<close> is read back by
  \<open>BerDecoder_decodeLength\<close> modulo \<open>2 ^ 16\<close>, and the decoder stops exactly where the encoder
  stopped. So every length below 65536 survives, and a longer one is silently truncated.\<close>

theorem ber_length_roundtrip:
  assumes "BerEncoder_encodeLength n (buffer, bufPos) = Some (buffer', bufPos')"
    and "bufPos \<le> length buffer" and "int bufPos' \<le> maxBufPos"
  shows "BerDecoder_decodeLength buffer' len (int bufPos) maxBufPos =
         Some (int bufPos', Some (int (n mod 65536)))"
proof -
  note found = enc_length.enc_found_at [OF assms(1,2)]
  have "int bufPos + int (length (length_bytes n)) \<le> maxBufPos"
    using assms(3) found(2) by simp
  from decodeLength_found_mod [OF found(1) this] found(2) show ?thesis by simp
qed

theorem ber_length_roundtrip_witness:
  "BerEncoder_encodeLength 300 (replicate 4 0, 1) = Some ([0, 0x82, 1, 44], 4) \<and>
   BerDecoder_decodeLength [0, 0x82, 1, 44] None 1 4 = Some (4, Some 300)"
proof -
  have h: "BerEncoder_encodeLength 300 (replicate 4 0, 1) = Some ([0, 0x82, 1, 44], 4)"
    by code_simp
  from ber_length_roundtrip [OF h, of 4 None] h show ?thesis by simp
qed

text \<open>a tagged unsigned integer written by \<open>BerEncoder_encodeUInt32WithTL\<close> has its tag, the
  size predicted by \<open>BerEncoder_UInt32determineEncodedSize\<close> and content octets from which
  \<open>BerDecoder_decodeUint32\<close> recovers every 32-bit value; the octets are the shortest possible.\<close>

theorem ber_uint32_roundtrip:
  assumes "BerEncoder_encodeUInt32WithTL tag v (buffer, bufPos) = Some (buffer', bufPos')"
    and "bufPos \<le> length buffer" and "int bufPos' \<le> maxBufPos"
  shows "rd buffer' (int bufPos) = Some tag \<and>
         (\<exists>p. BerDecoder_decodeLength buffer' len (int bufPos + 1) maxBufPos =
                Some (p, Some (int (BerEncoder_UInt32determineEncodedSize v))) \<and>
              BerDecoder_decodeUint32 buffer' (int (BerEncoder_UInt32determineEncodedSize v)) p =
                Some v \<and>
              p + int (BerEncoder_UInt32determineEncodedSize v) = int bufPos' \<and>
              \<not> redundant (take (BerEncoder_UInt32determineEncodedSize v) (drop (nat p) buffer')) 0)"
proof -
  have enc: "(case (tag, v) of (tag, v) \<Rightarrow> BerEncoder_encodeUInt32WithTL tag v) (buffer, bufPos) =
      Some (buffer', bufPos')"
    using assms(1) by simp
  note found = enc_uint32_TL.enc_found_at [OF enc assms(2), simplified]
  let ?n = "length (uint32_bytes v)"
  let ?p = "int bufPos + 1 + int (length (length_bytes ?n))"
  have tag: "rd buffer' (int bufPos) = Some tag"
    and len: "found_at buffer' (int bufPos + 1) (length_bytes ?n)"
    and val: "found_at buffer' ?p (uint32_bytes v)"
    using found(1) by (simp_all add: found_at_simps tl_bytes_def add.assoc)
  have n: "?n < 65536" "?p + int ?n = int bufPos'"
    using uint32_bytes_spec(4) [of v] found(2) by (simp_all add: tl_bytes_def)
  have "BerDecoder_decodeLength buffer' len (int bufPos + 1) maxBufPos = Some (?p, Some (int ?n))"
    using decodeLength_found [OF len n(1)] n(2) assms(3) by simp
  moreover have "BerDecoder_decodeUint32 buffer' (int ?n) ?p = Some v"
    using decodeUint32_found [OF val, of "int ?n"] uint32_bytes_spec(1) [of v] by simp
  moreover have "take ?n (drop (nat ?p) buffer') = uint32_bytes v"
    using val by (simp add: found_at_def)
  ultimately show ?thesis
    using tag n(2) uint32_bytes_spec(2,5) [of v] by auto
qed

theorem ber_uint32_roundtrip_witness:
  "BerEncoder_encodeUInt32WithTL 0x02 200 (replicate 6 0, 0) = Some ([2, 2, 0, 200, 0, 0], 4) \<and>
   rd [2, 2, 0, 200, 0, 0] 0 = Some 2"
proof -
  have h: "BerEncoder_encodeUInt32WithTL 0x02 200 (replicate 6 0, 0) = Some ([2, 2, 0, 200, 0, 0], 4)"
    by code_simp
  from ber_uint32_roundtrip [OF h, of 4 None] h show ?thesis by simp
qed

text \<open>the size predictions used to fill in length fields agree with what the encoders
  write: for strings always, for bit strings except that a content of 127 or 255 octets is
  predicted one octet too short, because the prediction takes the length field of the octets
  without the padding octet.\<close>

theorem ber_size_prediction:
  assumes "BerEncoder_encodeStringWithTag tag str (buffer, bufPos) = Some (buffer', bufPos')"
    and "bufPos \<le> length buffer"
    and "bitString_byteSize n \<le> length bitString"
    and "bufPos + length (bitString_bytes tag n bitString) \<le> length buffer"
  shows "bufPos' = bufPos + BerEncoder_determineEncodedStringSize str \<and>
    (\<exists>buffer''. BerEncoder_encodeBitString tag n bitString (buffer, bufPos) =
       Some (buffer'', bufPos + BerEncoder_determineEncodedBitStringSize n +
               (if bitString_byteSize n \<in> {127, 255} then 1 else 0)))"
proof -
  have "(case (tag, str) of (tag, str) \<Rightarrow> BerEncoder_encodeStringWithTag tag str)
      (buffer, bufPos) = Some (buffer', bufPos')" using assms(1) by simp
  from enc_string.enc_result(1) [OF this assms(2)]
  have "bufPos' = bufPos + BerEncoder_determineEncodedStringSize str"
    by (simp add: string_bytes_def length_tl_bytes BerEncoder_determineEncodedStringSize_def
        split: option.split)
  moreover have "length (bitString_bytes tag n bitString) =
      BerEncoder_determineEncodedBitStringSize n +
      (if bitString_byteSize n \<in> {127, 255} then 1 else 0)"
    using assms(3)
    by (auto simp: bitString_bytes_def BerEncoder_determineEncodedBitStringSize_def Let_def
        length_tl_bytes BerEncoder_determineLengthSize_def)
  ultimately show ?thesis
    using assms(3,4) by (simp add: encodeBitString_eq emits_Some)
qed

theorem ber_size_prediction_witness:
  "BerEncoder_encodeStringWithTag 0x84 (Some [65, 66]) (replicate 140 0, 0) =
     Some (tl_bytes 0x84 2 @ [65, 66] @ replicate 136 0, 4) \<and>
   4 = BerEncoder_determineEncodedStringSize (Some [65, 66]) \<and>
   (\<exists>buffer''. BerEncoder_encodeBitString 0x84 1016 (replicate 127 0xff) (replicate 140 0, 0) =
      Some (buffer'', BerEncoder_determineEncodedBitStringSize 1016 + 1))"
proof -
  have h: "BerEncoder_encodeStringWithTag 0x84 (Some [65, 66]) (replicate 140 0, 0) =
      Some (tl_bytes 0x84 2 @ [65, 66] @ replicate 136 0, 4)"
    by (simp add: encodeStringWithTag_emits string_bytes_def emits_Some length_tl_bytes
        BerEncoder_determineLengthSize_def numeral_2_eq_2)
  have b: "bitString_byteSize 1016 = 127" by (simp add: bitString_byteSize_eq)
  then have l: "length (bitString_bytes 0x84 1016 (replicate 127 0xff)) = 131"
    by (simp add: bitString_bytes_def Let_def length_tl_bytes BerEncoder_determineLengthSize_def)
  from ber_size_prediction [OF h, of 1016 "replicate 127 0xff"] h b l
  show ?thesis by simp
qed

text \<open>an encoded bit string keeps every one of its bits, and the padding bits of its last
  octet are zero whatever the input holds there.\<close>

theorem ber_bitstring_content:
  assumes "bitString_byteSize n \<le> length bitString" and "0 < n"
    and "bufPos + length (bitString_bytes tag n bitString) \<le> length buffer"
  shows "\<exists>buffer' bufPos' content.
           BerEncoder_encodeBitString tag n bitString (buffer, bufPos) = Some (buffer', bufPos') \<and>
           content = take (bitString_byteSize n) (drop (bufPos' - bitString_byteSize n) buffer') \<and>
           (\<forall>i < n. bs_bit content i = bs_bit bitString i) \<and>
           last content AND mask (bitString_byteSize n * 8 - n) = 0"
proof -
  let ?k = "bitString_byteSize n"
  let ?p = "?k * 8 - n"
  let ?c = "butlast (take ?k bitString) @ [last (take ?k bitString) AND NOT (paddingMask ?p)]"
  have k: "0 < ?k" "?p \<le> 8" using assms(2) by (simp_all add: bitString_byteSize_eq)
  then have ne: "take ?k bitString \<noteq> []" using assms(1) by auto
  obtain pre where bytes: "bitString_bytes tag n bitString = pre @ ?c"
    using ne by (simp add: bitString_bytes_def Let_def)
  have len: "length ?c = ?k" using assms(1) k ne by simp
  define c where "c = ?c"
  let ?b = "take bufPos buffer @ (pre @ c) @ drop (bufPos + length (pre @ c)) buffer"
  have c: "bitString_bytes tag n bitString = pre @ c" "length c = ?k"
    using bytes len by (simp_all only: c_def)
  then have enc: "BerEncoder_encodeBitString tag n bitString (buffer, bufPos) =
      Some (?b, bufPos + length pre + ?k)"
    using assms by (simp add: encodeBitString_eq emits_Some)
  have "take ?k (drop (bufPos + length pre + ?k - ?k) ?b) = c"
    using assms(3) c by simp
  then have content: "take ?k (drop (bufPos + length pre + ?k - ?k) ?b) = ?c"
    by (simp only: c_def)
  have bits: "bs_bit ?c i = bs_bit bitString i" if "i < n" for i
  proof -
    have "bs_bit ?c i = bs_bit (take ?k bitString) i"
      using that assms(1) by (intro bs_bit_masked) simp_all
    also have "i div 8 < ?k" using that by (simp add: bitString_byteSize_eq)
    then have "bs_bit (take ?k bitString) i = bs_bit bitString i" by (simp add: bs_bit_def)
    finally show ?thesis .
  qed
  have "last ?c AND mask ?p = 0"
    using k(2) by (simp add: paddingMask_eq_mask and.assoc)
  with enc content bits show ?thesis by auto
qed

theorem ber_bitstring_content_witness:
  "\<exists>buffer' bufPos'.
     BerEncoder_encodeBitString 0x84 11 [0xff, 0xff] (replicate 6 0, 0) = Some (buffer', bufPos') \<and>
     (\<forall>i < 11. bs_bit (take 2 (drop (bufPos' - 2) buffer')) i = bs_bit [0xff, 0xff] i) \<and>
     last (take 2 (drop (bufPos' - 2) buffer')) AND mask 5 = 0"
proof -
  have "bitString_byteSize 11 = 2" by (simp add: bitString_byteSize_eq)
  moreover from this have "length (bitString_bytes 0x84 11 [0xff, 0xff]) = 5"
    by (simp add: bitString_bytes_def Let_def length_tl_bytes BerEncoder_determineLengthSize_def)
  ultimately show ?thesis
    using ber_bitstring_content [of 11 "[0xff, 0xff]" 0 "0x84" "replicate 6 0"] by simp
qed

text \<open>the memory image of a \<open>float\<close> or \<open>double\<close> written by \<open>BerEncoder_encodeFloat\<close> is
  read back unchanged by \<open>BerDecoder_decodeFloat\<close> and \<open>BerDecoder_decodeDouble\<close>.\<close>

theorem ber_float_roundtrip:
  assumes "length f = 4" and "length d = 8" and "bufPos + 9 \<le> length buffer"
  shows "(\<exists>buffer'. BerEncoder_encodeFloat f 32 8 (buffer, bufPos) = Some (buffer', bufPos + 5) \<and>
            BerDecoder_decodeFloat buffer' (int bufPos) = Some f) \<and>
         (\<exists>buffer'. BerEncoder_encodeFloat d 64 11 (buffer, bufPos) = Some (buffer', bufPos + 9) \<and>
            BerDecoder_decodeDouble buffer' (int bufPos) = Some d)"
proof -
  have written: "\<exists>buffer'. emits (e # rev r) (buffer, bufPos) = Some (buffer', bufPos + 1 + length r) \<and>
      found_at buffer' (int bufPos + 1) (rev r)" if room: "bufPos + 1 + length r \<le> length buffer" for e r
  proof -
    obtain buffer' where b: "emits (e # rev r) (buffer, bufPos) =
        Some (buffer', bufPos + 1 + length r)"
      using emits_Some [of bufPos "e # rev r" buffer] room by auto
    from plain.enc_found_at [OF b] room show ?thesis
      by (auto simp: found_at_Cons b)
  qed
  have "\<exists>buffer'. BerEncoder_encodeFloat f 32 8 (buffer, bufPos) = Some (buffer', bufPos + 5) \<and>
      BerDecoder_decodeFloat buffer' (int bufPos) = Some f"
    using written [of f 8] assms
    by (auto simp: BerEncoder_encodeFloat_def BerDecoder_decodeFloat_def rd_n_def
        revertByteOrder_eq_rev decodeReal_loop_found)
  moreover have "\<exists>buffer'. BerEncoder_encodeFloat d 64 11 (buffer, bufPos) = Some (buffer', bufPos + 9) \<and>
      BerDecoder_decodeDouble buffer' (int bufPos) = Some d"
    using written [of d 11] assms
    by (auto simp: BerEncoder_encodeFloat_def BerDecoder_decodeDouble_def rd_n_def
        revertByteOrder_eq_rev decodeReal_loop_found)
  ultimately show ?thesis ..
qed

theorem ber_float_roundtrip_witness:
  "\<exists>buffer'. BerEncoder_encodeFloat [1, 2, 3, 4] 32 8 (replicate 9 0, 0) = Some (buffer', 5) \<and>
     BerDecoder_decodeFloat buffer' 0 = Some [1, 2, 3, 4]"
  using ber_float_roundtrip [of "[1, 2, 3, 4]" "replicate 8 7" 0 "replicate 9 0"] by simp

end
