(* ===== verification/Tlv_Loop.thy ===== *)
theory Tlv_Loop
  imports Ber_Decoder
begin

text \<open>
  The loop shared by the presentation and ACSE parsers:
  \<open>while (bufPos < endPos) { tag = buffer[bufPos++]; ... }\<close>. The body is a step function that
  gets the local and object state \<open>s\<close> and the position, and returns either the next position
  or \<open>None\<close> for an early return of the error code. The loop need not end (a negative length
  moves the position backwards), so it is a partial function: \<open>None\<close> is undefined behaviour of
  a step or a loop that never ends.
\<close>

partial_function (option) tlv_loop ::
  "('s \<Rightarrow> int \<Rightarrow> (int option \<times> 's) option) \<Rightarrow> int \<Rightarrow> 's \<Rightarrow> int \<Rightarrow> (int option \<times> 's) option" where
  "tlv_loop step endPos s bufPos =
     (if bufPos < endPos then do {
        (r, s) \<leftarrow> step s bufPos;
        (case r of
           None \<Rightarrow> Some (None, s)
         | Some bufPos \<Rightarrow> tlv_loop step endPos s bufPos)
      }
      else Some (Some bufPos, s))"

declare tlv_loop.simps [code]

lemma tlv_loop_done: "endPos \<le> bufPos \<Longrightarrow> tlv_loop step endPos s bufPos = Some (Some bufPos, s)"
  by (simp add: tlv_loop.simps)

lemma tlv_loop_step:
  "bufPos < endPos \<Longrightarrow> step s bufPos = Some (Some bufPos', s') \<Longrightarrow>
   tlv_loop step endPos s bufPos = tlv_loop step endPos s' bufPos'"
  by (simp add: tlv_loop.simps [of step endPos s bufPos])

lemma tlv_loop_error:
  "bufPos < endPos \<Longrightarrow> step s bufPos = Some (None, s') \<Longrightarrow>
   tlv_loop step endPos s bufPos = Some (None, s')"
  by (simp add: tlv_loop.simps [of step endPos s bufPos])

lemma tlv_loop_undefined:
  "bufPos < endPos \<Longrightarrow> step s bufPos = None \<Longrightarrow> tlv_loop step endPos s bufPos = None"
  by (simp add: tlv_loop.simps [of step endPos s bufPos])

text \<open>The first \<open>n\<close> rounds of the loop, all of them inside of the condition, without undefined behaviour and without early
  return: the state and the position after them. A loop that has any number of such rounds never ends; this is what
  tells an endless loop from undefined behaviour.\<close>

fun tlv_rounds ::
  "('s \<Rightarrow> int \<Rightarrow> (int option \<times> 's) option) \<Rightarrow> int \<Rightarrow> nat \<Rightarrow> 's \<Rightarrow> int \<Rightarrow> ('s \<times> int) option" where
  "tlv_rounds step endPos 0 s bufPos = Some (s, bufPos)"
| "tlv_rounds step endPos (Suc n) s bufPos =
     (if bufPos < endPos then
        (case step s bufPos of
           Some (Some bufPos, s) \<Rightarrow> tlv_rounds step endPos n s bufPos
         | _ \<Rightarrow> None)
      else None)"

lemma tlv_rounds_repeat:
  assumes "bufPos < endPos" and "\<And>s. I s \<Longrightarrow> \<exists>s'. step s bufPos = Some (Some bufPos, s') \<and> I s'" and "I s"
  shows "\<exists>s'. tlv_rounds step endPos n s bufPos = Some (s', bufPos)"
  using assms(3)
proof (induction n arbitrary: s)
  case (Suc n)
  from assms(2) [OF Suc.prems] obtain s' where "step s bufPos = Some (Some bufPos, s')" "I s'" by blast
  with Suc.IH assms(1) show ?case by simp
qed simp

lemma tlv_loop_returns_rounds:
  assumes "tlv_loop step endPos s bufPos = Some y"
  shows "\<exists>n. tlv_rounds step endPos n s bufPos = None"
proof (rule tlv_loop.raw_induct [where P = "\<lambda>step endPos s bufPos y. \<exists>n. tlv_rounds step endPos n s bufPos = None", OF _ assms])
  fix loop :: "('s \<Rightarrow> int \<Rightarrow> (int option \<times> 's) option) \<Rightarrow> int \<Rightarrow> 's \<Rightarrow> int \<Rightarrow> (int option \<times> 's) option"
    and step :: "'s \<Rightarrow> int \<Rightarrow> (int option \<times> 's) option" and endPos bufPos :: int and s :: 's and y
  assume ih: "\<And>step endPos s bufPos y. loop step endPos s bufPos = Some y \<Longrightarrow> \<exists>n. tlv_rounds step endPos n s bufPos = None"
    and body: "(if bufPos < endPos then do {
        (r, s) \<leftarrow> step s bufPos;
        (case r of None \<Rightarrow> Some (None, s) | Some bufPos \<Rightarrow> loop step endPos s bufPos)
      } else Some (Some bufPos, s)) = Some y"
  show "\<exists>n. tlv_rounds step endPos n s bufPos = None"
  proof (cases "\<exists>q s'. bufPos < endPos \<and> step s bufPos = Some (Some q, s')")
    case True
    then obtain q s' where q: "bufPos < endPos" "step s bufPos = Some (Some q, s')" by blast
    with body have "loop step endPos s' q = Some y" by simp
    from ih [OF this] obtain n where "tlv_rounds step endPos n s' q = None" ..
    with q show ?thesis by (intro exI [of _ "Suc n"]) simp
  next
    case False
    then show ?thesis by (intro exI [of _ 1]) (auto split: option.splits)
  qed
qed

lemma tlv_loop_endless:
  assumes "\<And>n. tlv_rounds step endPos n s bufPos \<noteq> None"
  shows "tlv_loop step endPos s bufPos = None"
  using tlv_loop_returns_rounds assms by (metis option.exhaust)

text \<open>A round that comes back to the same state and position is repeated for ever.\<close>

lemma tlv_loop_stuck:
  assumes "bufPos < endPos" and "step s bufPos = Some (Some bufPos, s)"
  shows "tlv_loop step endPos s bufPos = None"
proof (rule tlv_loop_endless)
  fix n
  show "tlv_rounds step endPos n s bufPos \<noteq> None"
    using tlv_rounds_repeat [of bufPos endPos "\<lambda>s'. s' = s" step s n] assms by auto
qed

text \<open>The contract of a step that always moves forward and never faults: the loop returns.\<close>

locale tlv_progress =
  fixes step :: "'s \<Rightarrow> int \<Rightarrow> (int option \<times> 's) option"
    and ok :: "'s \<Rightarrow> int \<Rightarrow> bool"
    and endPos :: int
  assumes step_defined: "ok s p \<Longrightarrow> p < endPos \<Longrightarrow> \<exists>r s'. step s p = Some (r, s')"
    and step_forward: "ok s p \<Longrightarrow> p < endPos \<Longrightarrow> step s p = Some (Some p', s') \<Longrightarrow> p < p' \<and> ok s' p'"
begin

lemma loop_returns: "ok s p \<Longrightarrow> \<exists>y. tlv_loop step endPos s p = Some y"
proof (induction "nat (endPos - p)" arbitrary: s p rule: less_induct)
  case less
  show ?case
  proof (cases "p < endPos")
    case False
    then show ?thesis by (simp add: tlv_loop_done)
  next
    case True
    with step_defined [OF less.prems] obtain r s' where step: "step s p = Some (r, s')" by blast
    show ?thesis
    proof (cases r)
      case None
      with step True show ?thesis by (simp add: tlv_loop_error)
    next
      case (Some p')
      with step_forward [OF less.prems True] step have fwd: "p < p'" "ok s' p'" by auto
      have "\<exists>y. tlv_loop step endPos s' p' = Some y"
        by (rule less.hyps [OF _ fwd(2)]) (use fwd(1) True in simp)
      then show ?thesis using tlv_loop_step [of p endPos step s p' s'] step Some True by simp
    qed
  qed
qed

end

text \<open>Positions at which a tag and an encoded length are found.\<close>

lemma decodeLength_tl:
  assumes "found_at buffer p (tl_bytes tag n)" and "n < 65536" and "p + int (length (tl_bytes tag n)) \<le> maxBufPos"
  shows "rd buffer p = Some tag"
    and "BerDecoder_decodeLength buffer len (p + 1) maxBufPos =
           Some (p + int (length (tl_bytes tag n)), Some (int n))"
proof -
  have f: "rd buffer p = Some tag" "found_at buffer (p + 1) (length_bytes n)"
    using assms(1) by (simp_all add: tl_bytes_def found_at_simps)
  then show "rd buffer p = Some tag" by simp
  show "BerDecoder_decodeLength buffer len (p + 1) maxBufPos =
           Some (p + int (length (tl_bytes tag n)), Some (int n))"
    using decodeLength_found_mod [OF f(2), of maxBufPos len] assms(2,3) by (simp add: tl_bytes_def)
qed

lemma tl_bytes_small: "n < 128 \<Longrightarrow> tl_bytes tag n = [tag, of_nat n]"
  by (simp add: tl_bytes_def length_bytes_def)

lemma short_tlv:
  assumes "found_at buffer p ([t, of_nat n] @ content)" and "length content = n" and "n < 128"
    and "p + 2 + int n \<le> endPos"
  shows "rd buffer p = Some t"
    and "BerDecoder_decodeLength buffer len (p + 1) endPos = Some (p + 2, Some (int n))"
    and "found_at buffer (p + 2) content" and "0 \<le> p"
proof -
  have f: "found_at buffer p (tl_bytes t n)" "found_at buffer (p + 2) content"
    using assms(1) found_at_append [of buffer p "[t, of_nat n]" content] assms(3)
    by (simp_all add: tl_bytes_small)
  then show "found_at buffer (p + 2) content" by simp
  show "rd buffer p = Some t" "BerDecoder_decodeLength buffer len (p + 1) endPos = Some (p + 2, Some (int n))"
    using decodeLength_tl [OF f(1), of endPos] assms(3,4) by (simp_all add: tl_bytes_small)
  show "0 \<le> p" using f(1) by (rule found_at_nonneg)
qed

text \<open>A position from which the rest of the enclosing element consists of complete elements with
  encoded lengths.\<close>

definition tlv_bytes :: "byte \<times> byte list \<Rightarrow> byte list" where
  "tlv_bytes e = tl_bytes (fst e) (length (snd e)) @ snd e"

definition well_formed :: "byte list \<Rightarrow> int \<Rightarrow> 's \<Rightarrow> int \<Rightarrow> bool" where
  "well_formed buffer endPos s p \<longleftrightarrow> endPos \<le> INT_MAX \<and>
     (\<exists>es. found_at buffer p (concat (map tlv_bytes es)) \<and>
           p + int (length (concat (map tlv_bytes es))) = endPos \<and>
           (\<forall>e\<in>set es. length (snd e) < 65536))"

lemma well_formed_element:
  assumes "well_formed buffer endPos s p" and "p < endPos"
  obtains tag content q where "rd buffer p = Some tag"
    "\<And>len. BerDecoder_decodeLength buffer len (p + 1) endPos = Some (q, Some (int (length content)))"
    "0 \<le> q" "p < q" "found_at buffer q content" "add_int q (int (length content)) = Some (q + int (length content))"
    "\<And>s. well_formed buffer endPos s (q + int (length content))"
proof -
  obtain es where es: "found_at buffer p (concat (map tlv_bytes es))"
    "p + int (length (concat (map tlv_bytes es))) = endPos" "\<forall>e\<in>set es. length (snd e) < 65536"
    and lim: "endPos \<le> INT_MAX"
    using assms(1) by (auto simp: well_formed_def)
  then obtain tag content es' where e: "es = (tag, content) # es'"
    using assms(2) by (cases es) auto
  define q where "q = p + int (length (tl_bytes tag (length content)))"
  have f: "found_at buffer p (tl_bytes tag (length content))" "found_at buffer q content"
    "found_at buffer (q + int (length content)) (concat (map tlv_bytes es'))"
    using es(1) by (simp_all add: e tlv_bytes_def found_at_append q_def algebra_simps)
  have rest: "q + int (length content) + int (length (concat (map tlv_bytes es'))) = endPos"
    using es(2) by (simp add: e tlv_bytes_def q_def)
  have q: "0 \<le> p" "p < q" "q \<le> endPos"
    using found_at_nonneg [OF f(1)] rest by (simp_all add: q_def tl_bytes_def)
  have len: "length content < 65536" using es(3) e by simp
  show ?thesis
  proof (rule that [of tag q content])
    show "rd buffer p = Some tag"
      "\<And>l. BerDecoder_decodeLength buffer l (p + 1) endPos = Some (q, Some (int (length content)))"
      using decodeLength_tl [OF f(1) len, of endPos] q(3) by (simp_all add: q_def)
    show "add_int q (int (length content)) = Some (q + int (length content))" using q rest lim by simp
    show "well_formed buffer endPos s (q + int (length content))" for s :: 'b
      using f(3) rest es(3) e lim by (auto simp: well_formed_def)
  qed (use q f(2) in simp_all)
qed

lemma length_tlv_bytes: "length (tlv_bytes (t, c)) = length (tl_bytes t (length c)) + length c"
  by (simp add: tlv_bytes_def)

lemma tlv_element:
  assumes "found_at buffer p (tlv_bytes (t, c))" and "length c < 65536"
    and "p + int (length (tl_bytes t (length c))) \<le> maxBufPos"
  shows "rd buffer p = Some t"
    and "BerDecoder_decodeLength buffer len (p + 1) maxBufPos =
           Some (p + int (length (tl_bytes t (length c))), Some (int (length c)))"
    and "found_at buffer (p + int (length (tl_bytes t (length c)))) c" and "0 \<le> p"
  using assms decodeLength_tl [of buffer p t "length c" maxBufPos] found_at_nonneg [OF assms(1)]
  by (simp_all add: tlv_bytes_def found_at_append)

text \<open>An invariant of the loop state, whatever the loop returns.\<close>

lemma tlv_loop_invariant:
  fixes I :: "'s \<Rightarrow> bool"
  assumes "tlv_loop step endPos s bufPos = Some (r, s')" and "I s"
    and "\<And>s p r s'. I s \<Longrightarrow> step s p = Some (r, s') \<Longrightarrow> I s'"
  shows "I s'"
proof -
  let ?P = "\<lambda>step endPos s (bufPos :: int) y.
    (\<forall>s p r s'. I s \<longrightarrow> step s p = Some (r, s') \<longrightarrow> I s') \<longrightarrow> I s \<longrightarrow> I (snd (y :: int option \<times> 's))"
  have "?P step endPos s bufPos (r, s')"
  proof (rule tlv_loop.raw_induct [where P = ?P, OF _ assms(1)])
    fix loop :: "('s \<Rightarrow> int \<Rightarrow> (int option \<times> 's) option) \<Rightarrow> int \<Rightarrow> 's \<Rightarrow> int \<Rightarrow> (int option \<times> 's) option"
      and step :: "'s \<Rightarrow> int \<Rightarrow> (int option \<times> 's) option" and endPos bufPos :: int and s :: 's and y
    assume ih: "\<And>step endPos s bufPos y. loop step endPos s bufPos = Some y \<Longrightarrow> ?P step endPos s bufPos y"
      and body: "(if bufPos < endPos then do {
          (r, s) \<leftarrow> step s bufPos;
          (case r of None \<Rightarrow> Some (None, s) | Some bufPos \<Rightarrow> loop step endPos s bufPos)
        } else Some (Some bufPos, s)) = Some y"
    show "?P step endPos s bufPos y"
    proof (intro impI)
      assume inv: "\<forall>s p r s'. I s \<longrightarrow> step s p = Some (r, s') \<longrightarrow> I s'" and "I s"
      show "I (snd y)"
      proof (cases "bufPos < endPos")
        case False
        with body \<open>I s\<close> show ?thesis by auto
      next
        case True
        with body obtain r' s'' where step: "step s bufPos = Some (r', s'')"
          and rest: "(case r' of None \<Rightarrow> Some (None, s'') | Some bufPos \<Rightarrow> loop step endPos s'' bufPos) = Some y"
          by (auto split: bind_splits)
        from inv \<open>I s\<close> step have s'': "I s''" by blast
        show ?thesis
        proof (cases r')
          case None
          with rest s'' show ?thesis by auto
        next
          case (Some p)
          with rest have "loop step endPos s'' p = Some y" by simp
          from ih [OF this] inv s'' show ?thesis by blast
        qed
      qed
    qed
  qed
  moreover have "\<forall>s p r s'. I s \<longrightarrow> step s p = Some (r, s') \<longrightarrow> I s'" using assms(3) by blast
  ultimately show ?thesis using assms(2) by simp
qed

text \<open>The contract of a parser on the elements of a message it accepts: one round reads one element
  and changes the state by a pure function of tag and content. Then the loop folds that function over
  the elements.\<close>

locale tlv_fold =
  fixes step :: "'s \<Rightarrow> int \<Rightarrow> (int option \<times> 's) option"
    and buffer :: "byte list"
    and endPos :: int
    and effect :: "byte \<times> byte list \<Rightarrow> 's \<Rightarrow> 's"
    and accepted :: "byte \<times> byte list \<Rightarrow> bool"
    and inv :: "'s \<Rightarrow> bool"
  assumes fold_step: "found_at buffer p (tlv_bytes (t, c)) \<Longrightarrow> length c < 65536 \<Longrightarrow>
      p + int (length (tlv_bytes (t, c))) \<le> endPos \<Longrightarrow> endPos \<le> INT_MAX \<Longrightarrow> accepted (t, c) \<Longrightarrow>
      inv s \<Longrightarrow> step s p = Some (Some (p + int (length (tlv_bytes (t, c)))), effect (t, c) s)"
    and fold_inv: "accepted (t, c) \<Longrightarrow> inv s \<Longrightarrow> inv (effect (t, c) s)"
begin

lemma fold_run:
  assumes "found_at buffer p (concat (map tlv_bytes es))"
    and "\<forall>e\<in>set es. length (snd e) < 65536 \<and> accepted e"
    and "p + int (length (concat (map tlv_bytes es))) \<le> endPos" and "endPos \<le> INT_MAX" and "inv s"
  shows "tlv_loop step endPos s p =
      tlv_loop step endPos (fold effect es s) (p + int (length (concat (map tlv_bytes es))))"
    and "inv (fold effect es s)"
proof -
  have "tlv_loop step endPos s p =
      tlv_loop step endPos (fold effect es s) (p + int (length (concat (map tlv_bytes es)))) \<and>
      inv (fold effect es s)"
    using assms
  proof (induction es arbitrary: p s)
    case Nil
    then show ?case by simp
  next
    case (Cons e es)
    obtain t c where e: "e = (t, c)" by (cases e)
    let ?q = "p + int (length (tlv_bytes (t, c)))"
    have f: "found_at buffer p (tlv_bytes (t, c))" "found_at buffer ?q (concat (map tlv_bytes es))"
      using Cons.prems(1) by (simp_all add: e found_at_append)
    have step: "step s p = Some (Some ?q, effect e s)"
      using fold_step [OF f(1)] Cons.prems(2-) by (simp add: e)
    have inv: "inv (effect e s)" using fold_inv Cons.prems(2,5) by (simp add: e)
    have "p < endPos" using Cons.prems(3) by (simp add: e length_tlv_bytes tl_bytes_def)
    then have "tlv_loop step endPos s p = tlv_loop step endPos (effect e s) ?q"
      by (rule tlv_loop_step) (rule step)
    moreover note Cons.IH [OF f(2) _ _ _ inv]
    ultimately show ?case using Cons.prems(2,3,4) by (simp add: e add.assoc)
  qed
  then show "tlv_loop step endPos s p =
      tlv_loop step endPos (fold effect es s) (p + int (length (concat (map tlv_bytes es))))"
    and "inv (fold effect es s)"
    by blast+
qed

end

text \<open>The contract of a parser that ignores the elements with certain tags: it passes over any
  sequence of them without a change of its state.\<close>

locale tlv_skip =
  fixes step :: "'s \<Rightarrow> int \<Rightarrow> (int option \<times> 's) option"
    and buffer :: "byte list"
    and endPos :: int
    and ignored :: "byte \<Rightarrow> bool"
  assumes skip_step: "found_at buffer p (tlv_bytes (t, c)) \<Longrightarrow> length c < 65536 \<Longrightarrow>
      p + int (length (tlv_bytes (t, c))) \<le> endPos \<Longrightarrow> endPos \<le> INT_MAX \<Longrightarrow> ignored t \<Longrightarrow>
      step s p = Some (Some (p + int (length (tlv_bytes (t, c)))), s)"

sublocale tlv_skip \<subseteq> skipping: tlv_fold step buffer endPos "\<lambda>e s. s" "\<lambda>e. ignored (fst e)" "\<lambda>s. True"
  by unfold_locales (simp_all add: skip_step)

context tlv_skip
begin

lemma skip_run:
  assumes "found_at buffer p (concat (map tlv_bytes es))" and "\<forall>e\<in>set es. length (snd e) < 65536 \<and> ignored (fst e)"
    and "p + int (length (concat (map tlv_bytes es))) \<le> endPos" and "endPos \<le> INT_MAX"
  shows "tlv_loop step endPos s p = tlv_loop step endPos s (p + int (length (concat (map tlv_bytes es))))"
proof -
  have "fold (\<lambda>e s. s) es s = s" by (induction es) simp_all
  then show ?thesis using skipping.fold_run(1) [OF assms(1,2,3,4) TrueI, of s] by simp
qed

end

end
