(* ===== verification/Common_Buffers.thy ===== *)
theory Common_Buffers
  imports C_Prelude
begin

text \<open>
  \<open>src/src/common/byte_buffer.c\<close>, \<open>buffer_chain.c\<close> and \<open>simple_allocator.c\<close>: the
  byte containers that the protocol layers hand to each other. A \<open>ByteBuffer\<close> is the memory
  from its \<open>buffer\<close> pointer on together with \<open>size\<close> and \<open>maxSize\<close>; a
  \<open>BufferChain\<close> is a linked list of message parts, the first part being the outermost
  protocol header.
\<close>

section \<open>ByteBuffer\<close>

record ByteBuffer =
  bb_buffer :: "byte list"
  bb_maxSize :: int
  bb_size :: int

definition ByteBuffer_create :: "int \<Rightarrow> ByteBuffer" where
  "ByteBuffer_create maxSize =
     \<lparr>bb_buffer = replicate (nat maxSize) 0, bb_maxSize = maxSize, bb_size = 0\<rparr>"

definition ByteBuffer_wrap :: "byte list \<Rightarrow> int \<Rightarrow> int \<Rightarrow> ByteBuffer" where
  "ByteBuffer_wrap buf n maxSize = \<lparr>bb_buffer = buf, bb_maxSize = maxSize, bb_size = n\<rparr>"

definition ByteBuffer_append ::
  "ByteBuffer \<Rightarrow> byte list \<Rightarrow> int \<Rightarrow> (int \<times> ByteBuffer) option" where
  "ByteBuffer_append self dat dataSize = do {
     newSize \<leftarrow> add_int (bb_size self) dataSize;
     if newSize \<le> bb_maxSize self then do {
       dst \<leftarrow> ptr_add (bb_buffer self) (bb_size self);
       mem \<leftarrow> (if dataSize < 0 then None else memcpy dst dat (nat dataSize));
       Some (dataSize,
             self\<lparr>bb_buffer := take (nat (bb_size self)) (bb_buffer self) @ mem, bb_size := newSize\<rparr>)
     }
     else Some (-1, self)
   }"

definition ByteBuffer_appendByte :: "ByteBuffer \<Rightarrow> byte \<Rightarrow> (int \<times> ByteBuffer) option" where
  "ByteBuffer_appendByte self b =
     (if bb_size self < bb_maxSize self then
        if 0 \<le> bb_size self \<and> bb_size self < int (length (bb_buffer self)) then
          Some (1, self\<lparr>bb_buffer := (bb_buffer self)[nat (bb_size self) := b],
                        bb_size := bb_size self + 1\<rparr>)
        else None
      else Some (0, self))"

definition ByteBuffer_getBuffer :: "ByteBuffer \<Rightarrow> byte list" where
  "ByteBuffer_getBuffer self = bb_buffer self"

definition ByteBuffer_getMaxSize :: "ByteBuffer \<Rightarrow> int" where
  "ByteBuffer_getMaxSize self = bb_maxSize self"

definition ByteBuffer_getSize :: "ByteBuffer \<Rightarrow> int" where
  "ByteBuffer_getSize self = bb_size self"

definition ByteBuffer_setSize :: "ByteBuffer \<Rightarrow> int \<Rightarrow> int \<times> ByteBuffer" where
  "ByteBuffer_setSize self n =
     (let self = (if n \<le> bb_maxSize self then self\<lparr>bb_size := n\<rparr> else self)
      in (bb_size self, self))"

text \<open>The representation invariant and the content.\<close>

definition bb_inv :: "ByteBuffer \<Rightarrow> bool" where
  "bb_inv b \<longleftrightarrow> 0 \<le> bb_size b \<and> bb_size b \<le> bb_maxSize b \<and>
     bb_maxSize b \<le> int (length (bb_buffer b)) \<and> bb_maxSize b \<le> INT_MAX"

definition bb_content :: "ByteBuffer \<Rightarrow> byte list" where
  "bb_content b = take (nat (bb_size b)) (bb_buffer b)"

lemma length_bb_content [simp]: "bb_inv b \<Longrightarrow> length (bb_content b) = nat (bb_size b)"
  by (auto simp: bb_inv_def bb_content_def)

lemma bb_create_inv:
  "0 \<le> n \<Longrightarrow> n \<le> INT_MAX \<Longrightarrow> bb_inv (ByteBuffer_create n) \<and> bb_content (ByteBuffer_create n) = []"
  by (simp add: bb_inv_def bb_content_def ByteBuffer_create_def)

text \<open>A sequence of appends with one of the append operations.\<close>

primrec append_run ::
  "(ByteBuffer \<Rightarrow> 'd \<Rightarrow> (int \<times> ByteBuffer) option) \<Rightarrow> ByteBuffer \<Rightarrow> 'd list \<Rightarrow> ByteBuffer option"
where
  "append_run app s [] = Some s"
| "append_run app s (d # ds) = do { (_, s) \<leftarrow> app s d; append_run app s ds }"

text \<open>
  The contract of a bounded byte sink: an append either stores all its bytes after the
  content and reports success, or reports failure and changes nothing, and it fails only when
  the bytes do not fit. Two operations of the byte buffer have this contract.
\<close>

locale byte_sink =
  fixes app :: "ByteBuffer \<Rightarrow> 'd \<Rightarrow> (int \<times> ByteBuffer) option"
    and bytes :: "'d \<Rightarrow> byte list"
    and success :: "'d \<Rightarrow> int"
    and failure :: int
  assumes app_stores:
      "bb_inv s \<Longrightarrow> bb_size s + int (length (bytes d)) \<le> bb_maxSize s \<Longrightarrow>
       \<exists>s'. app s d = Some (success d, s') \<and> bb_inv s' \<and> bb_maxSize s' = bb_maxSize s \<and>
         bb_content s' = bb_content s @ bytes d"
    and app_full:
      "bb_inv s \<Longrightarrow> bb_maxSize s < bb_size s + int (length (bytes d)) \<Longrightarrow>
       int (length (bytes d)) \<le> 1073741823 \<Longrightarrow> bb_maxSize s \<le> 1073741823 \<Longrightarrow>
       app s d = Some (failure, s)"
begin

lemma append_run_fits:
  "bb_inv s \<Longrightarrow> bb_size s + int (length (concat (map bytes ds))) \<le> bb_maxSize s \<Longrightarrow>
   \<exists>s'. append_run app s ds = Some s' \<and> bb_inv s' \<and>
     bb_content s' = bb_content s @ concat (map bytes ds)"
proof (induction ds arbitrary: s)
  case Nil
  then show ?case by simp
next
  case (Cons d ds)
  then obtain s' where s': "app s d = Some (success d, s')" "bb_inv s'"
      "bb_maxSize s' = bb_maxSize s" "bb_content s' = bb_content s @ bytes d"
    using app_stores [of s d] by auto
  then have "bb_size s' = bb_size s + int (length (bytes d))"
    using Cons.prems(1) length_bb_content [of s] length_bb_content [of s']
    by (auto simp: bb_inv_def)
  with Cons s' show ?case by (auto dest!: Cons.IH [of s'])
qed

lemma app_never_faults:
  assumes "bb_inv s" and "int (length (bytes d)) \<le> 1073741823" and "bb_maxSize s \<le> 1073741823"
  shows "\<exists>r s'. app s d = Some (r, s') \<and> bb_inv s' \<and>
           (bb_content s' = bb_content s @ bytes d \<or> s' = s)"
proof (cases "bb_size s + int (length (bytes d)) \<le> bb_maxSize s")
  case True
  with app_stores [OF assms(1) True] show ?thesis by blast
next
  case False
  with app_full [OF assms(1)] assms show ?thesis by simp
qed

end

interpretation append_sink: byte_sink
  "\<lambda>s d. ByteBuffer_append s d (int (length d))" "\<lambda>d. d" "\<lambda>d. int (length d)" "-1"
  by unfold_locales
    (auto simp: ByteBuffer_append_def bb_inv_def bb_content_def ptr_add_def memcpy_def rd_n_def
      nat_add_distrib)

interpretation appendByte_sink: byte_sink
  ByteBuffer_appendByte "\<lambda>b. [b]" "\<lambda>_. 1" 0
  by unfold_locales
    (auto simp: ByteBuffer_appendByte_def bb_inv_def bb_content_def nat_add_distrib
      take_Suc_conv_app_nth)

section \<open>BufferChain\<close>

datatype BufferChain = BufferChain
  (bc_length: int) (bc_partLength: int) (bc_partMaxLength: int)
  (bc_buffer: "byte list") (bc_nextPart: "BufferChain option")

definition BufferChain_init ::
  "int \<Rightarrow> int \<Rightarrow> BufferChain option \<Rightarrow> byte list \<Rightarrow> BufferChain" where
  "BufferChain_init len partLength nextPart buffer =
     BufferChain len partLength partLength buffer nextPart"

text \<open>The message a chain stands for, and its well-formedness: \<open>length\<close> is the number of
  bytes of this part and all following ones.\<close>

fun chain_bytes :: "BufferChain \<Rightarrow> byte list" where
  "chain_bytes (BufferChain l p m b None) = take (nat p) b"
| "chain_bytes (BufferChain l p m b (Some c)) = take (nat p) b @ chain_bytes c"

fun chain_ok :: "BufferChain \<Rightarrow> bool" where
  "chain_ok (BufferChain l p m b None) \<longleftrightarrow> 0 \<le> p \<and> p \<le> int (length b) \<and> l = p \<and> l \<le> INT_MAX"
| "chain_ok (BufferChain l p m b (Some c)) \<longleftrightarrow>
     0 \<le> p \<and> p \<le> int (length b) \<and> l = p + bc_length c \<and> l \<le> INT_MAX \<and> chain_ok c"

lemma chain_ok_length: "chain_ok c \<Longrightarrow> int (length (chain_bytes c)) = bc_length c"
  by (induction c rule: chain_bytes.induct) auto

lemma chain_ok_nonneg: "chain_ok c \<Longrightarrow> 0 \<le> bc_length c"
  by (induction c rule: chain_bytes.induct) auto

text \<open>\<open>BufferChain_dumpToBuffer\<close>: the loop walks the chain with \<open>currentChain\<close> but copies
  from \<open>self\<close> in every round. The result is the number of bytes written and the buffer.\<close>

definition dump_part :: "BufferChain \<Rightarrow> wbuf \<Rightarrow> wbuf option" where
  "dump_part self w =
     (if bc_partLength self \<le> 0 then Some w
      else do {
        part \<leftarrow> rd_n (bc_buffer self) (nat (bc_partLength self));
        emits part w
      })"

fun dump_loop :: "BufferChain \<Rightarrow> BufferChain \<Rightarrow> wbuf \<Rightarrow> wbuf option" where
  "dump_loop self (BufferChain l p m b None) w = dump_part self w"
| "dump_loop self (BufferChain l p m b (Some c)) w = do {
     w \<leftarrow> dump_part self w;
     dump_loop self c w
   }"

definition BufferChain_dumpToBuffer ::
  "BufferChain \<Rightarrow> byte list \<Rightarrow> int \<Rightarrow> (int \<times> byte list) option" where
  "BufferChain_dumpToBuffer self buffer bufferMaxSize =
     (if bc_length self > bufferMaxSize then Some (0, buffer)
      else do {
        (buffer, currentBufferIndex) \<leftarrow> dump_loop self self (buffer, 0);
        Some (int currentBufferIndex, buffer)
      })"

text \<open>
  The contract of a protocol layer that sends: it writes a header into its own part of the
  chain and links the payload of the layer above behind it. Every \<open>create\<close> operation of the
  session and presentation layers has it.
\<close>

definition link_part :: "wbuf \<Rightarrow> BufferChain \<Rightarrow> BufferChain \<Rightarrow> BufferChain" where
  "link_part w buffer payload =
     BufferChain (int (snd w) + bc_length payload) (int (snd w)) (bc_partMaxLength buffer) (fst w) (Some payload)"

lemma link_part_message:
  assumes "chain_ok payload" and "int (length h) + bc_length payload \<le> INT_MAX"
  shows "chain_ok (link_part (h @ rest, length h) buffer payload)"
    and "chain_bytes (link_part (h @ rest, length h) buffer payload) = h @ chain_bytes payload"
    and "bc_length (link_part (h @ rest, length h) buffer payload) = int (length h) + bc_length payload"
  using assms by (simp_all add: link_part_def)

lemma emits_link_part:
  "length h \<le> length (bc_buffer buffer) \<Longrightarrow>
   \<exists>rest. emits h (bc_buffer buffer, 0) \<bind> (\<lambda>w. Some (link_part w buffer payload)) =
     Some (link_part (h @ rest, length h) buffer payload)"
  by (auto simp: emits_start)

locale layer_header =
  fixes create :: "'s \<Rightarrow> BufferChain \<Rightarrow> BufferChain \<Rightarrow> BufferChain option"
    and header :: "'s \<Rightarrow> int \<Rightarrow> byte list"
  assumes create_part:
    "length (header s (bc_length payload)) \<le> length (bc_buffer buffer) \<Longrightarrow>
     \<exists>rest. create s buffer payload =
       Some (link_part (header s (bc_length payload) @ rest, length (header s (bc_length payload))) buffer payload)"
begin

lemma create_message:
  assumes "length (header s (bc_length payload)) \<le> length (bc_buffer buffer)" and "chain_ok payload"
    and "int (length (header s (bc_length payload))) + bc_length payload \<le> INT_MAX"
  shows "\<exists>message. create s buffer payload = Some message \<and> chain_ok message \<and>
    chain_bytes message = header s (bc_length payload) @ chain_bytes payload \<and>
    bc_length message = int (length (header s (bc_length payload))) + bc_length payload"
proof -
  obtain rest where "create s buffer payload =
       Some (link_part (header s (bc_length payload) @ rest, length (header s (bc_length payload))) buffer payload)"
    using create_part [OF assms(1)] by blast
  with link_part_message [OF assms(2,3)] show ?thesis by auto
qed

end

text \<open>A received message: its memory starts with the bytes of the SPDU.\<close>

definition received :: "ByteBuffer \<Rightarrow> byte list \<Rightarrow> bool" where
  "received message bs \<longleftrightarrow> bb_inv message \<and> bb_content message = bs"

lemma received_memory:
  assumes "received message bs"
  obtains rest where "bb_buffer message = bs @ rest" "bb_size message = int (length bs)"
proof
  show "bb_buffer message = bs @ drop (nat (bb_size message)) (bb_buffer message)"
    using assms by (auto simp: received_def bb_content_def)
  show "bb_size message = int (length bs)"
    using assms by (auto simp: received_def bb_content_def bb_inv_def)
qed

text \<open>The same for a parser that looks at \<open>buffer\<close> and \<open>size\<close> only.\<close>

definition holds :: "ByteBuffer \<Rightarrow> byte list \<Rightarrow> bool" where
  "holds message bs \<longleftrightarrow>
     bb_content message = bs \<and> bb_size message = int (length bs) \<and> bb_size message \<le> INT_MAX"

lemma holds_memory:
  assumes "holds message bs"
  obtains rest where "bb_buffer message = bs @ rest" "bb_size message = int (length bs)"
proof
  show "bb_buffer message = bs @ drop (nat (bb_size message)) (bb_buffer message)"
    using assms by (auto simp: holds_def bb_content_def)
  show "bb_size message = int (length bs)"
    using assms by (auto simp: holds_def)
qed

lemma received_holds: "received message bs \<Longrightarrow> holds message bs"
  using length_bb_content [of message] by (auto simp: received_def holds_def bb_inv_def)

lemma chain_received:
  assumes "chain_ok pdu"
  shows "received (ByteBuffer_wrap (chain_bytes pdu) (bc_length pdu) (bc_length pdu)) (chain_bytes pdu)"
proof -
  have "bc_length pdu \<le> INT_MAX" using assms by (cases pdu rule: chain_ok.cases) auto
  then show ?thesis
    using chain_ok_length [OF assms] chain_ok_nonneg [OF assms]
    by (auto simp: received_def bb_inv_def bb_content_def ByteBuffer_wrap_def)
qed

section \<open>MemoryArea and MemoryAllocator\<close>

text \<open>Both hand out consecutive blocks of one array; a block is its offset from the start.\<close>

record MemoryArea =
  ma_memory :: "byte list"
  ma_currentPos :: int
  ma_size :: int

definition MemoryArea_initialize :: "byte list \<Rightarrow> int \<Rightarrow> MemoryArea" where
  "MemoryArea_initialize memory n = \<lparr>ma_memory = memory, ma_currentPos = 0, ma_size = n\<rparr>"

definition MemoryArea_getNextBlock :: "MemoryArea \<Rightarrow> int \<Rightarrow> int option \<times> MemoryArea" where
  "MemoryArea_getNextBlock self n =
     (if ma_size self - ma_currentPos self \<ge> n
      then (Some (ma_currentPos self), self\<lparr>ma_currentPos := ma_currentPos self + n\<rparr>)
      else (None, self))"

record MemoryAllocator =
  al_memoryBlock :: int
  al_currentPtr :: int
  al_size :: int

definition MemoryAllocator_init :: "int \<Rightarrow> int \<Rightarrow> MemoryAllocator" where
  "MemoryAllocator_init memoryBlock n =
     \<lparr>al_memoryBlock = memoryBlock, al_currentPtr = memoryBlock, al_size = n\<rparr>"

definition MemoryAllocator_allocate :: "MemoryAllocator \<Rightarrow> int \<Rightarrow> int option \<times> MemoryAllocator" where
  "MemoryAllocator_allocate self n =
     (if (al_currentPtr self - al_memoryBlock self) + n \<le> al_size self
      then (Some (al_currentPtr self), self\<lparr>al_currentPtr := al_currentPtr self + n\<rparr>)
      else (None, self))"

text \<open>The blocks (offset and length) that a sequence of requests obtains.\<close>

primrec alloc_run ::
  "('s \<Rightarrow> int \<Rightarrow> int option \<times> 's) \<Rightarrow> 's \<Rightarrow> int list \<Rightarrow> (int \<times> int) list" where
  "alloc_run alloc s [] = []"
| "alloc_run alloc s (n # ns) =
     (case alloc s n of
        (Some p, s') \<Rightarrow> (p, n) # alloc_run alloc s' ns
      | (None, s') \<Rightarrow> alloc_run alloc s' ns)"

text \<open>
  The contract of a bump allocator: a request that fits gets the block at the current
  position, any other request gets nothing and changes nothing.
\<close>

locale bump_allocator =
  fixes alloc :: "'s \<Rightarrow> int \<Rightarrow> int option \<times> 's"
    and pos :: "'s \<Rightarrow> int"
    and start :: "'s \<Rightarrow> int"
    and limit :: "'s \<Rightarrow> int"
  assumes alloc_fits: "pos s + n \<le> limit s \<Longrightarrow>
      fst (alloc s n) = Some (pos s) \<and> pos (snd (alloc s n)) = pos s + n"
    and alloc_full: "limit s < pos s + n \<Longrightarrow> alloc s n = (None, s)"
    and alloc_limit: "limit (snd (alloc s n)) = limit s" "start (snd (alloc s n)) = start s"
begin

lemma blocks_bounds:
  "\<forall>n \<in> set ns. 0 \<le> n \<Longrightarrow> (p, n) \<in> set (alloc_run alloc s ns) \<Longrightarrow> pos s \<le> p \<and> p + n \<le> limit s"
proof (induction ns arbitrary: s)
  case Nil
  then show ?case by simp
next
  case (Cons m ns)
  show ?case
  proof (cases "pos s + m \<le> limit s")
    case True
    with alloc_fits [OF True] Cons alloc_limit [of s m] show ?thesis
      by (cases "alloc s m") (fastforce split: prod.splits)
  next
    case False
    with alloc_full [of s m] Cons show ?thesis by simp
  qed
qed

lemma blocks_disjoint:
  "\<forall>n \<in> set ns. 0 \<le> n \<Longrightarrow>
   sorted_wrt (\<lambda>(p, n) (q, m). p + n \<le> q) (alloc_run alloc s ns)"
proof (induction ns arbitrary: s)
  case Nil
  then show ?case by simp
next
  case (Cons m ns)
  show ?case
  proof (cases "pos s + m \<le> limit s")
    case True
    obtain s' where s': "alloc s m = (Some (pos s), s')" "pos s' = pos s + m"
      using alloc_fits [OF True] by (cases "alloc s m") auto
    have "pos s + m \<le> q" if "(q, k) \<in> set (alloc_run alloc s' ns)" for q k
      using blocks_bounds [OF _ that] Cons.prems s'(2) by simp
    with Cons s' show ?thesis by auto
  next
    case False
    with alloc_full [of s m] Cons show ?thesis by simp
  qed
qed

end

interpretation area: bump_allocator
  MemoryArea_getNextBlock ma_currentPos "\<lambda>_. 0" ma_size
  by unfold_locales (auto simp: MemoryArea_getNextBlock_def)

interpretation allocator: bump_allocator
  MemoryAllocator_allocate al_currentPtr al_memoryBlock "\<lambda>s. al_memoryBlock s + al_size s"
  by unfold_locales (auto simp: MemoryAllocator_allocate_def)

section \<open>Properties\<close>

text \<open>a sequence of \<open>ByteBuffer_append\<close> calls that fits into \<open>maxSize\<close> stores the
  concatenation of its arguments behind the old content and keeps the buffer well formed; no
  byte is lost, reordered or written outside the buffer.\<close>

theorem byteBuffer_append_sequence:
  assumes "bb_inv s" and "bb_size s + int (length (concat ds)) \<le> bb_maxSize s"
  shows "\<exists>s'. append_run (\<lambda>s d. ByteBuffer_append s d (int (length d))) s ds = Some s' \<and>
           bb_inv s' \<and> bb_content s' = bb_content s @ concat ds"
  using append_sink.append_run_fits [OF assms(1), of ds] assms(2) by simp

theorem byteBuffer_append_sequence_witness:
  "bb_inv (ByteBuffer_create 8) \<and>
   (\<exists>s'. append_run (\<lambda>s d. ByteBuffer_append s d (int (length d))) (ByteBuffer_create 8) [[1, 2], [3]] =
      Some s' \<and> bb_content s' = [1, 2, 3])"
proof -
  have h: "bb_inv (ByteBuffer_create 8)" "bb_content (ByteBuffer_create 8) = []"
    using bb_create_inv [of 8] by simp_all
  moreover have "bb_size (ByteBuffer_create 8) = 0" "bb_maxSize (ByteBuffer_create 8) = 8"
    by (simp_all add: ByteBuffer_create_def)
  ultimately show ?thesis
    using byteBuffer_append_sequence [of "ByteBuffer_create 8" "[[1, 2], [3]]"] by auto
qed

text \<open>the blocks handed out by a sequence of \<open>MemoryAllocator_allocate\<close> calls lie inside
  the memory block and do not overlap, whatever mixture of requests succeeds and fails.\<close>

theorem memoryAllocator_blocks:
  assumes "\<forall>n \<in> set ns. 0 \<le> n"
  shows "(\<forall>(p, n) \<in> set (alloc_run MemoryAllocator_allocate (MemoryAllocator_init base len) ns).
            base \<le> p \<and> p + n \<le> base + len) \<and>
         sorted_wrt (\<lambda>(p, n) (q, m). p + n \<le> q)
           (alloc_run MemoryAllocator_allocate (MemoryAllocator_init base len) ns)"
proof -
  let ?s = "MemoryAllocator_init base len"
  have "base \<le> p \<and> p + n \<le> base + len"
    if "(p, n) \<in> set (alloc_run MemoryAllocator_allocate ?s ns)" for p n
    using allocator.blocks_bounds [OF assms that] by (simp add: MemoryAllocator_init_def)
  with allocator.blocks_disjoint [OF assms, of ?s] show ?thesis by auto
qed

theorem memoryAllocator_blocks_witness:
  "sorted_wrt (\<lambda>(p, n) (q, m). p + n \<le> q)
     (alloc_run MemoryAllocator_allocate (MemoryAllocator_init 1000 16) [8, 100, 4]) \<and>
   alloc_run MemoryAllocator_allocate (MemoryAllocator_init 1000 16) [8, 100, 4] =
     [(1000, 8), (1008, 4)]"
proof -
  have "\<forall>n \<in> set [8, 100, 4::int]. 0 \<le> n" by simp
  moreover from memoryAllocator_blocks [OF this, of 1000 16]
  have "sorted_wrt (\<lambda>(p, n) (q, m). p + n \<le> q)
      (alloc_run MemoryAllocator_allocate (MemoryAllocator_init 1000 16) [8, 100, 4])" ..
  ultimately show ?thesis
    by (simp add: MemoryAllocator_allocate_def MemoryAllocator_init_def)
qed

lemma dump_part_emits:
  "0 \<le> bc_partLength self \<Longrightarrow> bc_partLength self \<le> int (length (bc_buffer self)) \<Longrightarrow>
   dump_part self = emits (take (nat (bc_partLength self)) (bc_buffer self))"
  by (rule ext) (auto simp: dump_part_def rd_n_def)

lemma dump_loop_repeats:
  assumes "0 \<le> bc_partLength self" and "bc_partLength self \<le> int (length (bc_buffer self))"
  shows "\<exists>k > 0. dump_loop self c =
    emits (concat (replicate k (take (nat (bc_partLength self)) (bc_buffer self))))"
proof (induction c rule: chain_bytes.induct)
  case (1 l p m b)
  show ?case
    using dump_part_emits [OF assms] by (intro exI [of _ 1]) (simp add: fun_eq_iff)
next
  case (2 l p m b c)
  then obtain k where "0 < k" "dump_loop self c =
      emits (concat (replicate k (take (nat (bc_partLength self)) (bc_buffer self))))" by blast
  then show ?case
    using dump_part_emits [OF assms]
    by (intro exI [of _ "Suc k"] conjI ext) (simp_all add: emits_bind_emits)
qed

text \<open>\<open>BufferChain_dumpToBuffer\<close> writes the first part of the chain once per part: a chain
  of one part is dumped correctly, a longer chain yields repetitions of its first part instead
  of the message.\<close>

theorem bufferChain_dump:
  assumes "chain_ok self" and "bc_length self \<le> bufferMaxSize"
    and "BufferChain_dumpToBuffer self buffer bufferMaxSize = Some (n, buffer')"
  shows "\<exists>k > 0. take (nat n) buffer' =
           concat (replicate k (take (nat (bc_partLength self)) (bc_buffer self))) \<and>
           (bc_nextPart self = None \<longrightarrow> take (nat n) buffer' = chain_bytes self)"
proof -
  let ?part = "take (nat (bc_partLength self)) (bc_buffer self)"
  have p: "0 \<le> bc_partLength self" "bc_partLength self \<le> int (length (bc_buffer self))"
    using assms(1) by (cases self rule: chain_ok.cases; simp)+
  then obtain k where k: "0 < k" "dump_loop self self = emits (concat (replicate k ?part))"
    using dump_loop_repeats by blast
  with assms(2,3) have e: "emits (concat (replicate k ?part)) (buffer, 0) = Some (buffer', nat n)"
    by (auto simp: BufferChain_dumpToBuffer_def split: bind_splits)
  note prefix = emits_start_prefix [OF e]
  have "take (nat n) buffer' = chain_bytes self" if "bc_nextPart self = None"
  proof -
    have "dump_loop self self = emits ?part" "?part = chain_bytes self"
      using that dump_part_emits [OF p] by (cases self; simp add: fun_eq_iff)+
    with e k(2) have "emits (chain_bytes self) (buffer, 0) = Some (buffer', nat n)" by simp
    then show ?thesis using emits_start_prefix by blast
  qed
  with k(1) prefix show ?thesis by auto
qed

theorem bufferChain_dump_witness:
  "\<exists>k > 0. take 4 [1, 2, 1, 2, 0, 0] = concat (replicate k [1 :: byte, 2])"
proof -
  let ?c = "BufferChain 3 2 2 [1, 2] (Some (BufferChain 1 1 1 [9] None))"
  have "chain_ok ?c" "bc_length ?c \<le> 6" by simp_all
  moreover have "BufferChain_dumpToBuffer ?c (replicate 6 0) 6 = Some (4, [1, 2, 1, 2, 0, 0])"
    by code_simp
  ultimately have "\<exists>k > 0. take (nat 4) [1, 2, 1, 2, 0, 0] =
      concat (replicate k (take (nat (bc_partLength ?c)) (bc_buffer ?c)))"
    using bufferChain_dump [of ?c 6 "replicate 6 0" 4 "[1, 2, 1, 2, 0, 0]"] by blast
  then show ?thesis by simp
qed

end
