(* ===== verification/Mms_Access_Result.thy ===== *)
theory Mms_Access_Result
  imports Mms_Value
begin

text \<open>
  \<open>src/src/mms/iso_mms/server/mms_access_result.c\<close>: the encoding of a value as the access result of
  a read response, an information report or a GOOSE message. The C function
  \<open>mmsServer_encodeAccessResult\<close> has two modes, chosen by its last argument; they are two
  functions here, \<open>accessResult_size\<close> for \<open>encode == false\<close>, which only counts octets, and
  \<open>mmsServer_encodeAccessResult\<close> for \<open>encode == true\<close>, which writes them. Likewise for arrays
  and structures.
\<close>

function accessResult_size :: "MmsValue \<Rightarrow> nat option"
  and elements_size :: "MmsValue option list \<Rightarrow> nat option"
where
  "accessResult_size (MmsValue _ u) =
     (case u of
        V_structure cs \<Rightarrow>
          map_option (\<lambda>n. 1 + n + BerEncoder_determineLengthSize n) (elements_size cs)
      | V_array cs \<Rightarrow>
          map_option (\<lambda>n. 1 + n + BerEncoder_determineLengthSize n) (elements_size cs)
      | V_dataAccessError e \<Rightarrow> Some (2 + BerEncoder_UInt32determineEncodedSize (of_int e))
      | V_visibleString s \<Rightarrow> Some (BerEncoder_determineEncodedStringSize s)
      | V_unsigned a \<Rightarrow> Some (2 + av_size a)
      | V_integer a \<Rightarrow> Some (2 + av_size a)
      | V_utcTime t \<Rightarrow> Some 10
      | V_bitString n buf \<Rightarrow> Some (BerEncoder_determineEncodedBitStringSize n)
      | V_boolean b \<Rightarrow> Some 3
      | V_binaryTime n buf \<Rightarrow> Some (2 + n)
      | V_octetString n m buf \<Rightarrow> Some (1 + BerEncoder_determineLengthSize n + n)
      | V_floatingPoint e w buf \<Rightarrow> Some (unat w div 8 + 1 + 2)
      | V_mmsString s \<Rightarrow> Some (BerEncoder_determineEncodedStringSize s)
      | _ \<Rightarrow> Some 0)"
| "elements_size [] = Some 0"
| "elements_size (c # cs) = do {
     v \<leftarrow> c;
     n \<leftarrow> accessResult_size v;
     m \<leftarrow> elements_size cs;
     Some (n + m)
   }"
  by pat_completeness auto
termination
  by (relation "measure (\<lambda>x. case x of Inl v \<Rightarrow> size v | Inr cs \<Rightarrow> components_size cs)") auto

function mmsServer_encodeAccessResult :: "MmsValue \<Rightarrow> wbuf \<Rightarrow> wbuf option"
  and encodeStructuredAccessResult :: "MmsValue option list \<Rightarrow> wbuf \<Rightarrow> wbuf option"
  and encodeArrayAccessResult :: "MmsValue option list \<Rightarrow> wbuf \<Rightarrow> wbuf option"
  and encodeElements :: "MmsValue option list \<Rightarrow> wbuf \<Rightarrow> wbuf option"
where
  "mmsServer_encodeAccessResult (MmsValue _ u) buf =
     (case u of
        V_structure cs \<Rightarrow> encodeStructuredAccessResult cs buf
      | V_array cs \<Rightarrow> encodeArrayAccessResult cs buf
      | V_dataAccessError e \<Rightarrow> do {
          buf \<leftarrow> BerEncoder_encodeTL 0x80 (BerEncoder_UInt32determineEncodedSize (of_int e)) buf;
          BerEncoder_encodeUInt32 (of_int e) buf
        }
      | V_visibleString s \<Rightarrow> BerEncoder_encodeStringWithTag 0x8a s buf
      | V_unsigned a \<Rightarrow> BerEncoder_encodeAsn1PrimitiveValue 0x86 a buf
      | V_integer a \<Rightarrow> BerEncoder_encodeAsn1PrimitiveValue 0x85 a buf
      | V_utcTime t \<Rightarrow> BerEncoder_encodeOctetString 0x91 t 8 buf
      | V_bitString n bits \<Rightarrow> BerEncoder_encodeBitString 0x84 n bits buf
      | V_boolean b \<Rightarrow> BerEncoder_encodeBoolean 0x83 b buf
      | V_binaryTime n t \<Rightarrow> BerEncoder_encodeOctetString 0x8c t n buf
      | V_octetString n m octets \<Rightarrow> BerEncoder_encodeOctetString 0x89 octets n buf
      | V_floatingPoint e w f \<Rightarrow> do {
          buf \<leftarrow> BerEncoder_encodeTL 0x87 (unat w div 8 + 1) buf;
          BerEncoder_encodeFloat f (unat w) e buf
        }
      | V_mmsString s \<Rightarrow> BerEncoder_encodeStringWithTag 0x90 s buf
      | _ \<Rightarrow> Some buf)"
| "encodeStructuredAccessResult cs buf = do {
     componentsSize \<leftarrow> elements_size cs;
     buf \<leftarrow> emit 0xa2 buf;
     buf \<leftarrow> BerEncoder_encodeLength componentsSize buf;
     encodeElements cs buf
   }"
| "encodeArrayAccessResult cs buf = do {
     elementsSize \<leftarrow> elements_size cs;
     buf \<leftarrow> emit 0xa1 buf;
     buf \<leftarrow> BerEncoder_encodeLength elementsSize buf;
     encodeElements cs buf
   }"
| "encodeElements [] buf = Some buf"
| "encodeElements (c # cs) buf = do {
     v \<leftarrow> c;
     buf \<leftarrow> mmsServer_encodeAccessResult v buf;
     encodeElements cs buf
   }"
  by pat_completeness auto
termination
  by (relation "measure (\<lambda>x. case x of
        Inl (Inl (v, _)) \<Rightarrow> 2 * size v
      | Inl (Inr (cs, _)) \<Rightarrow> Suc (2 * components_size cs)
      | Inr (Inl (cs, _)) \<Rightarrow> Suc (2 * components_size cs)
      | Inr (Inr (cs, _)) \<Rightarrow> 2 * components_size cs)") auto


section \<open>What is written\<close>

text \<open>The octets of a value.\<close>

function access_bytes :: "MmsValue \<Rightarrow> byte list"
  and elements_bytes :: "MmsValue option list \<Rightarrow> byte list"
where
  "access_bytes (MmsValue _ u) =
     (case u of
        V_structure cs \<Rightarrow> tl_bytes 0xa2 (length (elements_bytes cs)) @ elements_bytes cs
      | V_array cs \<Rightarrow> tl_bytes 0xa1 (length (elements_bytes cs)) @ elements_bytes cs
      | V_dataAccessError e \<Rightarrow>
          tl_bytes 0x80 (length (uint32_bytes (of_int e))) @ uint32_bytes (of_int e)
      | V_visibleString s \<Rightarrow> string_bytes 0x8a s
      | V_unsigned a \<Rightarrow> tl_bytes 0x86 (av_size a) @ apv_content a
      | V_integer a \<Rightarrow> tl_bytes 0x85 (av_size a) @ apv_content a
      | V_utcTime t \<Rightarrow> tl_bytes 0x91 8 @ take 8 t
      | V_bitString n bits \<Rightarrow> bitString_bytes 0x84 n bits
      | V_boolean b \<Rightarrow> [0x83, 1, if b then 0xff else 0]
      | V_binaryTime n t \<Rightarrow> tl_bytes 0x8c n @ take n t
      | V_octetString n m octets \<Rightarrow> tl_bytes 0x89 n @ take n octets
      | V_floatingPoint e w f \<Rightarrow> tl_bytes 0x87 (unat w div 8 + 1) @ e # rev (take (unat w div 8) f)
      | V_mmsString s \<Rightarrow> string_bytes 0x90 s
      | _ \<Rightarrow> [])"
| "elements_bytes [] = []"
| "elements_bytes (c # cs) =
     (case c of Some v \<Rightarrow> access_bytes v | None \<Rightarrow> []) @ elements_bytes cs"
  by pat_completeness auto
termination
  by (relation "measure (\<lambda>x. case x of Inl v \<Rightarrow> size v | Inr cs \<Rightarrow> components_size cs)") auto

text \<open>The values whose size is counted right: integers of at most 127 octets and bit strings of
  neither 127 nor 255 octets.\<close>

fun size_counted :: "MmsValue \<Rightarrow> bool" where
  "size_counted (MmsValue _ u) =
     (case u of
        V_array cs \<Rightarrow> all_components size_counted cs
      | V_structure cs \<Rightarrow> all_components size_counted cs
      | V_integer a \<Rightarrow> av_size a < 128
      | V_unsigned a \<Rightarrow> av_size a < 128
      | V_bitString n _ \<Rightarrow> bits_to_bytes n \<noteq> 127 \<and> bits_to_bytes n \<noteq> 255
      | _ \<Rightarrow> True)"

lemma bitString_byteSize_bits [simp]: "bitString_byteSize n = bits_to_bytes n"
  by (simp add: bitString_byteSize_def bits_to_bytes_def Let_def)

lemma emits_no_room:
  assumes "bs \<noteq> []" and "length buffer < bufPos + length bs"
  shows "emits bs (buffer, bufPos) = None"
proof (cases "bufPos \<le> length buffer")
  case True
  with assms(2) show ?thesis by (simp add: emits_None)
next
  case False
  with assms(1) show ?thesis
    by (cases bs) (simp_all add: emits.simps emit_def)
qed

lemma encodeBitString_emits [enc_emits]:
  assumes "bits_to_bytes n \<le> length bits"
  shows "BerEncoder_encodeBitString tag n bits = emits (bitString_bytes tag n bits)"
proof
  fix w :: wbuf
  obtain buffer bufPos where w: "w = (buffer, bufPos)" by (cases w)
  show "BerEncoder_encodeBitString tag n bits w = emits (bitString_bytes tag n bits) w"
  proof (cases "bufPos + length (bitString_bytes tag n bits) \<le> length buffer")
    case True
    with assms show ?thesis by (simp add: w encodeBitString_eq)
  next
    case False
    let ?p = "bits_to_bytes n * 8 - n"
    let ?bs = "tl_bytes tag (bits_to_bytes n + 1) @ of_nat ?p # take (bits_to_bytes n) bits"
    have len: "length (bitString_bytes tag n bits) = length ?bs"
      by (simp add: bitString_bytes_def Let_def)
    have "emits ?bs w = None"
      using False len by (simp add: w emits_no_room)
    then have "BerEncoder_encodeBitString tag n bits w = None"
      using assms
      by (simp add: BerEncoder_encodeBitString_def rd_n_def Let_def enc_emits tl_bytes_def)
    moreover have "emits (bitString_bytes tag n bits) w = None"
      unfolding w by (rule emits_no_room) (use False len in \<open>auto simp: tl_bytes_def\<close>)
    ultimately show ?thesis by simp
  qed
qed

lemma length_bitString_bytes:
  assumes "bits_to_bytes n \<le> length bits"
  shows "length (bitString_bytes tag n bits) =
    2 + BerEncoder_determineLengthSize (bits_to_bytes n + 1) + bits_to_bytes n"
  using assms by (auto simp: bitString_bytes_def Let_def length_tl_bytes)

lemma length_string_bytes: "length (string_bytes tag s) = BerEncoder_determineEncodedStringSize s"
  by (auto simp: string_bytes_def length_tl_bytes BerEncoder_determineEncodedStringSize_def
      split: option.splits)

lemma encodeFloat_emits:
  "n div 8 \<le> length f \<Longrightarrow> n div 8 \<le> 8 \<Longrightarrow>
   BerEncoder_encodeFloat f n e = emits (e # rev (take (n div 8) f))"
  by (rule ext) (simp add: BerEncoder_encodeFloat_def rd_n_def revertByteOrder_eq_rev Let_def)

lemma UInt32_size_small: "BerEncoder_UInt32determineEncodedSize v < 128"
  using uint32_bytes_spec(4) [of v] uint32_bytes_spec(5) [of v] by simp

lemma accessResult_size_eq:
  "mms_wf v \<Longrightarrow> size_counted v \<Longrightarrow> accessResult_size v = Some (length (access_bytes v))"
  "all_components mms_wf cs \<Longrightarrow> all_components size_counted cs \<Longrightarrow>
     elements_size cs = Some (length (elements_bytes cs))"
proof (induction v and cs rule: MmsValue_delete_delete_components.induct)
  case (1 d u)
  then show ?case
    by (cases u)
      (auto simp: mms_wf_union length_tl_bytes length_string_bytes length_bitString_bytes
        apv_inv_def uint32_bytes_spec(5) BerEncoder_determineEncodedBitStringSize_def
        BerEncoder_determineLengthSize_def Let_def UInt32_size_small
        intro: less_trans [OF UInt32_size_small])
next
  case (3 c cs)
  then show ?case by (auto split: option.splits)
qed auto

lemma encodeAccessResult_emits:
  "mms_wf v \<Longrightarrow> size_counted v \<Longrightarrow> mmsServer_encodeAccessResult v = emits (access_bytes v)"
  "all_components mms_wf cs \<Longrightarrow> all_components size_counted cs \<Longrightarrow>
     encodeElements cs = emits (elements_bytes cs)"
proof (induction v and cs rule: MmsValue_delete_delete_components.induct)
  case (1 d u)
  then show ?case
    by (cases u; intro ext)
      (auto simp: mms_wf_union enc_emits accessResult_size_eq(2) tl_bytes_def encodeFloat_emits
        apv_inv_def uint32_bytes_spec(5))
next
  case (3 c cs)
  then show ?case by (intro ext) (auto simp: emits_append split: option.splits)
qed (intro ext, simp)

text \<open>C27: The size pass and the writing pass agree: for well-formed values of any nesting (integers
  below 128 octets, no bit string of 127 or 255 octets) the announced size is the number of
  octets written, writing succeeds exactly when that many fit, and it leaves the rest of the buffer
  alone.\<close>

theorem access_result_size_is_exact:
  assumes "mms_wf v" and "size_counted v" and "bufPos \<le> length buffer"
  shows "\<exists>n. accessResult_size v = Some n \<and>
    (if bufPos + n \<le> length buffer
     then mmsServer_encodeAccessResult v (buffer, bufPos) =
       Some (take bufPos buffer @ access_bytes v @ drop (bufPos + n) buffer, bufPos + n)
     else mmsServer_encodeAccessResult v (buffer, bufPos) = None)"
  using accessResult_size_eq(1) [OF assms(1,2)] encodeAccessResult_emits(1) [OF assms(1,2)] assms(3)
  by (auto simp: emits_Some emits_None)

theorem access_result_size_is_exact_witness:
  "\<exists>n. accessResult_size demo_structure = Some n \<and>
    (if 2 + n \<le> length (replicate 64 (0 :: byte))
     then mmsServer_encodeAccessResult demo_structure (replicate 64 0, 2) =
       Some (take 2 (replicate 64 0) @ access_bytes demo_structure @ drop (2 + n) (replicate 64 0), 2 + n)
     else mmsServer_encodeAccessResult demo_structure (replicate 64 0, 2) = None)"
  by (rule access_result_size_is_exact [OF demo_wf(1)]) (simp_all add: demo_structure_def)

text \<open>A bit string of 127 or 255 octets is counted one octet short, so a structure around it is
  written with a length that does not reach its end.\<close>

theorem access_result_bit_string_short:
  assumes "mms_wf (MmsValue d' (V_bitString n bits))"
    and "bits_to_bytes n = 127 \<or> bits_to_bytes n = 255"
  shows "mmsServer_encodeAccessResult (MmsValue d (V_structure [Some (MmsValue d' (V_bitString n bits))])) =
    emits (tl_bytes 0xa2 (length (bitString_bytes 0x84 n bits) - 1) @ bitString_bytes 0x84 n bits)"
proof
  fix w
  have "accessResult_size (MmsValue d' (V_bitString n bits)) =
      Some (length (bitString_bytes 0x84 n bits) - 1)"
    using assms by (auto simp: length_bitString_bytes BerEncoder_determineEncodedBitStringSize_def
        BerEncoder_determineLengthSize_def Let_def)
  moreover have "encodeElements [Some (MmsValue d' (V_bitString n bits))] =
      emits (bitString_bytes 0x84 n bits)"
    using assms(1) encodeAccessResult_emits(2) [of "[]"]
    by (intro ext) (simp add: enc_emits)
  ultimately show "mmsServer_encodeAccessResult
        (MmsValue d (V_structure [Some (MmsValue d' (V_bitString n bits))])) w =
      emits (tl_bytes 0xa2 (length (bitString_bytes 0x84 n bits) - 1) @ bitString_bytes 0x84 n bits) w"
    using assms(1) by (simp add: enc_emits tl_bytes_def Option.bind_assoc)
qed

theorem access_result_bit_string_short_witness:
  "mmsServer_encodeAccessResult (MmsValue 0 (V_structure [Some (MmsValue_newBitString 1016)])) =
    emits (tl_bytes 0xa2 (length (bitString_bytes 0x84 1016 (replicate 127 0)) - 1) @
      bitString_bytes 0x84 1016 (replicate 127 0))"
  using access_result_bit_string_short [of 0 1016 "replicate 127 0" 0]
  by (simp add: MmsValue_newBitString_def bits_to_bytes_def)

end
