(* ===== verification/Mms_Connection.thy ===== *)
theory Mms_Connection
  imports Mms_Device Tlv_Loop Common_Buffers Mms_Access_Result
begin

text \<open>
  The server side of an MMS connection (\<open>src/src/mms/iso_mms/server\<close>): the connection object
  (\<open>mms_server.h\<close>, \<open>mms_server_connection.c\<close>), the initiate and conclude services
  (\<open>mms_association_service.c\<close>), status (\<open>mms_status_service.c\<close>) and identify
  (\<open>mms_identify_service.c\<close>).

  A response is written into the buffer of the connection; a write outside of it is undefined.
\<close>

section \<open>Connections\<close>

text \<open>A file that is being read; the handle is \<open>NULL\<close> where none is open.\<close>

record MmsFileReadStateMachine =
  fr_frsmId :: int
  fr_readPosition :: u32
  fr_fileSize :: u32
  fr_fileHandle :: "nat option"

record sMmsServerConnection =
  sc_maxServOutstandingCalling :: int
  sc_maxServOutstandingCalled :: int
  sc_dataStructureNestingLevel :: int
  sc_maxPduSize :: int
  sc_namedVariableLists :: "MmsNamedVariableList list"
  sc_lastInvokeId :: u32
  sc_nextFrsmId :: int
  sc_frsms :: "MmsFileReadStateMachine list"

definition CONFIG_MMS_MAX_NUMBER_OF_OPEN_FILES_PER_CONNECTION :: nat where
  "CONFIG_MMS_MAX_NUMBER_OF_OPEN_FILES_PER_CONNECTION = 5"

definition CONFIG_MMS_MAXIMUM_PDU_SIZE :: int where "CONFIG_MMS_MAXIMUM_PDU_SIZE = 16000"
definition DEFAULT_MAX_SERV_OUTSTANDING_CALLING :: int where "DEFAULT_MAX_SERV_OUTSTANDING_CALLING = 5"
definition DEFAULT_MAX_SERV_OUTSTANDING_CALLED :: int where "DEFAULT_MAX_SERV_OUTSTANDING_CALLED = 5"
definition DEFAULT_DATA_STRUCTURE_NESTING_LEVEL :: int where "DEFAULT_DATA_STRUCTURE_NESTING_LEVEL = 10"

lemmas connection_limits = CONFIG_MMS_MAXIMUM_PDU_SIZE_def DEFAULT_MAX_SERV_OUTSTANDING_CALLING_def
  DEFAULT_MAX_SERV_OUTSTANDING_CALLED_def DEFAULT_DATA_STRUCTURE_NESTING_LEVEL_def

text \<open>A new connection object; the memory is cleared.\<close>

definition MmsServerConnection_init :: sMmsServerConnection where
  "MmsServerConnection_init =
     \<lparr>sc_maxServOutstandingCalling = 0, sc_maxServOutstandingCalled = 0, sc_dataStructureNestingLevel = 0,
      sc_maxPduSize = CONFIG_MMS_MAXIMUM_PDU_SIZE, sc_namedVariableLists = [], sc_lastInvokeId = 0,
      sc_nextFrsmId = 0, sc_frsms = replicate CONFIG_MMS_MAX_NUMBER_OF_OPEN_FILES_PER_CONNECTION
        \<lparr>fr_frsmId = 0, fr_readPosition = 0, fr_fileSize = 0, fr_fileHandle = None\<rparr>\<rparr>"

definition MmsServerConnection_addNamedVariableList ::
  "sMmsServerConnection \<Rightarrow> MmsNamedVariableList \<Rightarrow> bool \<times> sMmsServerConnection" where
  "MmsServerConnection_addNamedVariableList self variableList =
     (True, self\<lparr>sc_namedVariableLists := sc_namedVariableLists self @ [variableList]\<rparr>)"

definition MmsServerConnection_deleteNamedVariableList ::
  "sMmsServerConnection \<Rightarrow> cstring \<Rightarrow> sMmsServerConnection" where
  "MmsServerConnection_deleteNamedVariableList self listName =
     self\<lparr>sc_namedVariableLists := mmsServer_deleteVariableList (sc_namedVariableLists self) listName\<rparr>"

definition MmsServerConnection_getNamedVariableList ::
  "sMmsServerConnection \<Rightarrow> cstring \<Rightarrow> MmsNamedVariableList option" where
  "MmsServerConnection_getNamedVariableList self variableListName =
     variableList_loop (sc_namedVariableLists self) variableListName"

definition MmsServerConnection_getNamedVariableLists :: "sMmsServerConnection \<Rightarrow> MmsNamedVariableList list" where
  "MmsServerConnection_getNamedVariableLists self = sc_namedVariableLists self"

definition MmsServerConnection_getLastInvokeId :: "sMmsServerConnection \<Rightarrow> u32" where
  "MmsServerConnection_getLastInvokeId self = sc_lastInvokeId self"


section \<open>Initiate and conclude\<close>

definition parameterCBB :: "byte list" where "parameterCBB = [0xf1, 0x00]"

definition servicesSupported :: "byte list" where
  "servicesSupported = [0x80 OR 0x40 OR 0x20 OR 0x08 OR 0x04 OR 0x02, 0x10 OR 0x04 OR 0x08,
     0, 0, 0, 0, 0, 0, 0, 0x80 OR 0x40 OR 0x20 OR 0x01 OR 0x08 OR 0x04 OR 0x01, 0x10 OR 0x08]"

definition encodeInitResponseDetail :: "wbuf \<Rightarrow> wbuf option" where
  "encodeInitResponseDetail w = do {
     w \<leftarrow> BerEncoder_encodeTL 0xa4 22 w;
     w \<leftarrow> BerEncoder_encodeUInt32WithTL 0x80 1 w;
     w \<leftarrow> BerEncoder_encodeBitString 0x81 11 parameterCBB w;
     BerEncoder_encodeBitString 0x82 85 servicesSupported w
   }"

definition createInitiateResponse :: "sMmsServerConnection \<Rightarrow> ByteBuffer \<Rightarrow> ByteBuffer option" where
  "createInitiateResponse self writeBuffer = do {
     let initiateResponseLength =
       2 + BerEncoder_UInt32determineEncodedSize (of_int (sc_maxPduSize self)) +
       2 + BerEncoder_UInt32determineEncodedSize (of_int (sc_maxServOutstandingCalling self)) +
       2 + BerEncoder_UInt32determineEncodedSize (of_int (sc_maxServOutstandingCalled self)) +
       2 + BerEncoder_UInt32determineEncodedSize (of_int (sc_dataStructureNestingLevel self)) +
       (22 + 2);
     w \<leftarrow> BerEncoder_encodeTL 0xa9 initiateResponseLength (bb_buffer writeBuffer, 0);
     w \<leftarrow> BerEncoder_encodeUInt32WithTL 0x80 (of_int (sc_maxPduSize self)) w;
     w \<leftarrow> BerEncoder_encodeUInt32WithTL 0x81 (of_int (sc_maxServOutstandingCalling self)) w;
     w \<leftarrow> BerEncoder_encodeUInt32WithTL 0x82 (of_int (sc_maxServOutstandingCalled self)) w;
     w \<leftarrow> BerEncoder_encodeUInt32WithTL 0x83 (of_int (sc_dataStructureNestingLevel self)) w;
     (buffer, bufPos) \<leftarrow> encodeInitResponseDetail w;
     Some (writeBuffer\<lparr>bb_buffer := buffer, bb_size := int bufPos\<rparr>)
   }"

text \<open>One round of the loop of \<open>parseInitiateRequestPdu\<close>. The decoded numbers are stored in variables of
  type \<open>int\<close> and compared as such.\<close>

definition initiateElement ::
  "byte list \<Rightarrow> int \<Rightarrow> sMmsServerConnection \<Rightarrow> int \<Rightarrow> (int option \<times> sMmsServerConnection) option" where
  "initiateElement buffer maxBufPos self bufPos = do {
     tag \<leftarrow> rd buffer bufPos;
     (bufPos, len) \<leftarrow> BerDecoder_decodeLength buffer None (bufPos + 1) maxBufPos;
     if bufPos < 0 then Some (None, self)
     else do {
       len \<leftarrow> len;
       self \<leftarrow>
         (if tag = 0x80 then do {
            n \<leftarrow> BerDecoder_decodeUint32 buffer len bufPos;
            Some (self\<lparr>sc_maxPduSize := min (sint n) CONFIG_MMS_MAXIMUM_PDU_SIZE\<rparr>)
          }
          else if tag = 0x81 then do {
            n \<leftarrow> BerDecoder_decodeUint32 buffer len bufPos;
            Some (self\<lparr>sc_maxServOutstandingCalling := min (sint n) DEFAULT_MAX_SERV_OUTSTANDING_CALLING\<rparr>)
          }
          else if tag = 0x82 then do {
            n \<leftarrow> BerDecoder_decodeUint32 buffer len bufPos;
            Some (self\<lparr>sc_maxServOutstandingCalled := min (sint n) DEFAULT_MAX_SERV_OUTSTANDING_CALLED\<rparr>)
          }
          else if tag = 0x83 then do {
            n \<leftarrow> BerDecoder_decodeUint32 buffer len bufPos;
            Some (self\<lparr>sc_dataStructureNestingLevel := sint n\<rparr>)
          }
          else Some self);
       bufPos \<leftarrow> add_int bufPos len;
       Some (Some bufPos, self)
     }
   }"

definition initiateDefaults :: "sMmsServerConnection \<Rightarrow> sMmsServerConnection" where
  "initiateDefaults self = self\<lparr>sc_maxPduSize := CONFIG_MMS_MAXIMUM_PDU_SIZE,
     sc_dataStructureNestingLevel := DEFAULT_DATA_STRUCTURE_NESTING_LEVEL,
     sc_maxServOutstandingCalled := DEFAULT_MAX_SERV_OUTSTANDING_CALLED,
     sc_maxServOutstandingCalling := DEFAULT_MAX_SERV_OUTSTANDING_CALLING\<rparr>"

definition parseInitiateRequestPdu ::
  "sMmsServerConnection \<Rightarrow> byte list \<Rightarrow> int \<Rightarrow> int \<Rightarrow> (bool \<times> sMmsServerConnection) option" where
  "parseInitiateRequestPdu self buffer bufPos maxBufPos = do {
     (r, self) \<leftarrow> tlv_loop (initiateElement buffer maxBufPos) maxBufPos (initiateDefaults self) bufPos;
     Some (r \<noteq> None, self)
   }"

definition mmsServer_handleInitiateRequest ::
  "sMmsServerConnection \<Rightarrow> byte list \<Rightarrow> int \<Rightarrow> int \<Rightarrow> ByteBuffer \<Rightarrow> (sMmsServerConnection \<times> ByteBuffer) option" where
  "mmsServer_handleInitiateRequest self buffer bufPos maxBufPos response = do {
     (ok, self) \<leftarrow> parseInitiateRequestPdu self buffer bufPos maxBufPos;
     response \<leftarrow> (if ok then createInitiateResponse self response else Some response);
     Some (self, response)
   }"

definition mmsServer_writeConcludeResponsePdu :: "ByteBuffer \<Rightarrow> ByteBuffer option" where
  "mmsServer_writeConcludeResponsePdu response = do {
     (_, response) \<leftarrow> ByteBuffer_appendByte response 0x8c;
     (_, response) \<leftarrow> ByteBuffer_appendByte response 0x00;
     Some response
   }"


section \<open>Status and identify\<close>

record sMmsServer =
  sv_vmdLogicalStatus :: int
  sv_vmdPhysicalStatus :: int
  sv_vendorName :: "cstring option"
  sv_modelName :: "cstring option"
  sv_revision :: "cstring option"
  sv_device :: MmsDevice
  sv_valueCaches :: ValueCaches

definition MmsServer_setVMDStatus :: "sMmsServer \<Rightarrow> int \<Rightarrow> int \<Rightarrow> sMmsServer" where
  "MmsServer_setVMDStatus self vmdLogicalStatus vmdPhysicalStatus =
     self\<lparr>sv_vmdLogicalStatus := vmdLogicalStatus, sv_vmdPhysicalStatus := vmdPhysicalStatus\<rparr>"

definition MmsServer_getVMDLogicalStatus :: "sMmsServer \<Rightarrow> int" where
  "MmsServer_getVMDLogicalStatus self = sv_vmdLogicalStatus self"

definition MmsServer_getVMDPhysicalStatus :: "sMmsServer \<Rightarrow> int" where
  "MmsServer_getVMDPhysicalStatus self = sv_vmdPhysicalStatus self"

text \<open>The listener of the application may change the status of the server.\<close>

definition mmsServer_handleStatusRequest ::
  "(sMmsServer \<Rightarrow> bool \<Rightarrow> sMmsServer) option \<Rightarrow> sMmsServer \<Rightarrow> byte list \<Rightarrow> int \<Rightarrow> u32 \<Rightarrow> ByteBuffer \<Rightarrow>
   (sMmsServer \<times> ByteBuffer) option" where
  "mmsServer_handleStatusRequest statusRequestListener mmsServer requestBuffer bufPos invokeId response = do {
     extendedDerivation \<leftarrow> BerDecoder_decodeBoolean requestBuffer bufPos;
     let invokeIdLength = BerEncoder_UInt32determineEncodedSize invokeId;
     let mmsServer = (case statusRequestListener of None \<Rightarrow> mmsServer | Some l \<Rightarrow> l mmsServer extendedDerivation);
     let vmdPhysicalStatusLength = BerEncoder_UInt32determineEncodedSize (of_int (sv_vmdPhysicalStatus mmsServer));
     let vmdLogicalStatusLength = BerEncoder_UInt32determineEncodedSize (of_int (sv_vmdLogicalStatus mmsServer));
     let statusLength = 2 + vmdPhysicalStatusLength + 2 + vmdLogicalStatusLength;
     let statusResponseLength = invokeIdLength + 2 + 1 + BerEncoder_determineLengthSize statusLength + statusLength;
     w \<leftarrow> BerEncoder_encodeTL 0xa1 statusResponseLength (bb_buffer response, 0);
     w \<leftarrow> BerEncoder_encodeTL 0x02 invokeIdLength w;
     w \<leftarrow> BerEncoder_encodeUInt32 invokeId w;
     w \<leftarrow> BerEncoder_encodeTL 0xa0 statusLength w;
     w \<leftarrow> BerEncoder_encodeTL 0x80 vmdLogicalStatusLength w;
     w \<leftarrow> BerEncoder_encodeUInt32 (of_int (sv_vmdLogicalStatus mmsServer)) w;
     w \<leftarrow> BerEncoder_encodeTL 0x81 vmdPhysicalStatusLength w;
     (buffer, bufPos) \<leftarrow> BerEncoder_encodeUInt32 (of_int (sv_vmdPhysicalStatus mmsServer)) w;
     Some (mmsServer, response\<lparr>bb_buffer := buffer, bb_size := int bufPos\<rparr>)
   }"

definition MmsServer_setServerIdentity ::
  "sMmsServer \<Rightarrow> cstring option \<Rightarrow> cstring option \<Rightarrow> cstring option \<Rightarrow> sMmsServer" where
  "MmsServer_setServerIdentity self vendorName modelName revision =
     self\<lparr>sv_vendorName := vendorName, sv_modelName := modelName, sv_revision := revision\<rparr>"

definition MmsServer_getVendorName :: "sMmsServer \<Rightarrow> cstring" where
  "MmsServer_getVendorName self =
     (case sv_vendorName self of Some s \<Rightarrow> s | None \<Rightarrow> lit ''libiec61850.com'')"

definition MmsServer_getModelName :: "sMmsServer \<Rightarrow> cstring" where
  "MmsServer_getModelName self = (case sv_modelName self of Some s \<Rightarrow> s | None \<Rightarrow> lit ''LIBIEC61850'')"

definition MmsServer_getRevision :: "sMmsServer \<Rightarrow> cstring" where
  "MmsServer_getRevision self = (case sv_revision self of Some s \<Rightarrow> s | None \<Rightarrow> lit ''0.7.7'')"

definition mmsServer_handleIdentifyRequest ::
  "sMmsServer \<Rightarrow> u32 \<Rightarrow> ByteBuffer \<Rightarrow> ByteBuffer option" where
  "mmsServer_handleIdentifyRequest mmsServer invokeId response = do {
     let invokeIdLength = BerEncoder_UInt32determineEncodedSize invokeId;
     let vendorNameLength = length (MmsServer_getVendorName mmsServer);
     let modelNameLength = length (MmsServer_getModelName mmsServer);
     let revisionLength = length (MmsServer_getRevision mmsServer);
     let identityLength = 3 + BerEncoder_determineLengthSize vendorNameLength +
       BerEncoder_determineLengthSize modelNameLength + BerEncoder_determineLengthSize revisionLength +
       vendorNameLength + modelNameLength + revisionLength;
     let identifyResponseLength = invokeIdLength + 2 + 1 + BerEncoder_determineLengthSize identityLength +
       identityLength;
     w \<leftarrow> BerEncoder_encodeTL 0xa1 identifyResponseLength (bb_buffer response, 0);
     w \<leftarrow> BerEncoder_encodeTL 0x02 invokeIdLength w;
     w \<leftarrow> BerEncoder_encodeUInt32 invokeId w;
     w \<leftarrow> BerEncoder_encodeTL 0xa2 identityLength w;
     w \<leftarrow> BerEncoder_encodeStringWithTag 0x80 (Some (MmsServer_getVendorName mmsServer)) w;
     w \<leftarrow> BerEncoder_encodeStringWithTag 0x81 (Some (MmsServer_getModelName mmsServer)) w;
     (buffer, bufPos) \<leftarrow> BerEncoder_encodeStringWithTag 0x82 (Some (MmsServer_getRevision mmsServer)) w;
     Some (response\<lparr>bb_buffer := buffer, bb_size := int bufPos\<rparr>)
   }"

section \<open>What the responses are\<close>

text \<open>The effect of writing a sequence of octets at the beginning of a buffer.\<close>

definition put_bytes :: "byte list \<Rightarrow> ByteBuffer \<Rightarrow> ByteBuffer option" where
  "put_bytes bs b =
     (if length bs \<le> length (bb_buffer b)
      then Some (b\<lparr>bb_buffer := bs @ drop (length bs) (bb_buffer b), bb_size := int (length bs)\<rparr>) else None)"

lemma emits_put:
  "bs \<noteq> [] \<Longrightarrow> emits bs (bb_buffer b, 0) \<bind>
     (\<lambda>x. case x of (buffer, bufPos) \<Rightarrow> Some (b\<lparr>bb_buffer := buffer, bb_size := int bufPos\<rparr>)) = put_bytes bs b"
  by (cases "length bs \<le> length (bb_buffer b)") (simp_all add: put_bytes_def emits_start emits_no_room)

lemma length_string_field: "BerEncoder_determineEncodedStringSize (Some s) = length (tlv_bytes (t, s))"
  by (simp add: BerEncoder_determineEncodedStringSize_def length_tlv_bytes length_tl_bytes)

lemma length_field: "length (tlv_bytes (t, s)) = 1 + BerEncoder_determineLengthSize (length s) + length s"
  by (simp add: length_tlv_bytes length_tl_bytes)

lemma UInt32_size_eq: "BerEncoder_UInt32determineEncodedSize v = length (uint32_bytes v)"
  using uint32_bytes_spec(5) by simp

lemma length_uint32: "length (uint32_bytes v) < 128"
  using UInt32_size_small [of v] by (simp add: UInt32_size_eq)

lemma length_uint32_field: "length (tlv_bytes (t, uint32_bytes v)) = 2 + length (uint32_bytes v)"
  using length_uint32 [of v] by (simp add: length_tlv_bytes tl_bytes_small)

definition identify_bytes :: "sMmsServer \<Rightarrow> u32 \<Rightarrow> byte list" where
  "identify_bytes s invokeId = tlv_bytes (0xa1, tlv_bytes (0x02, uint32_bytes invokeId) @
     tlv_bytes (0xa2, tlv_bytes (0x80, MmsServer_getVendorName s) @ tlv_bytes (0x81, MmsServer_getModelName s) @
       tlv_bytes (0x82, MmsServer_getRevision s)))"

lemma string_field: "string_bytes t (Some s) = tlv_bytes (t, s)"
  by (simp add: string_bytes_def tlv_bytes_def)

lemma handleIdentifyRequest_eq: "mmsServer_handleIdentifyRequest s invokeId response = put_bytes (identify_bytes s invokeId) response"
proof -
  define identity where "identity = tlv_bytes (0x80, MmsServer_getVendorName s) @
    tlv_bytes (0x81, MmsServer_getModelName s) @ tlv_bytes (0x82, MmsServer_getRevision s)"
  have l: "length identity = 3 + BerEncoder_determineLengthSize (length (MmsServer_getVendorName s)) +
       BerEncoder_determineLengthSize (length (MmsServer_getModelName s)) +
       BerEncoder_determineLengthSize (length (MmsServer_getRevision s)) +
       length (MmsServer_getVendorName s) + length (MmsServer_getModelName s) + length (MmsServer_getRevision s)"
    by (simp add: identity_def length_tlv_bytes length_tl_bytes)
  define body where "body = tlv_bytes (0x02, uint32_bytes invokeId) @ tlv_bytes (0xa2, identity)"
  have b: "length body = length (uint32_bytes invokeId) + 2 + 1 + BerEncoder_determineLengthSize (length identity) +
      length identity"
    by (simp add: body_def length_uint32_field length_tlv_bytes [of "0xa2"] length_tl_bytes)
  have eq: "identify_bytes s invokeId = tl_bytes 0xa1 (length body) @ body"
    by (simp add: identify_bytes_def body_def identity_def tlv_bytes_def)
  have bytes: "body = tl_bytes 0x02 (length (uint32_bytes invokeId)) @ uint32_bytes invokeId @
      tl_bytes 0xa2 (length identity) @ identity"
    by (simp add: body_def tlv_bytes_def)
  show ?thesis
    unfolding mmsServer_handleIdentifyRequest_def Let_def UInt32_size_eq l [symmetric] b [symmetric] eq
    by (subst emits_put [symmetric])
      (simp_all add: enc_emits string_field bytes identity_def tl_bytes_def)
qed

definition status_bytes :: "sMmsServer \<Rightarrow> u32 \<Rightarrow> byte list" where
  "status_bytes s invokeId = tlv_bytes (0xa1, tlv_bytes (0x02, uint32_bytes invokeId) @
     tlv_bytes (0xa0, tlv_bytes (0x80, uint32_bytes (of_int (sv_vmdLogicalStatus s))) @
       tlv_bytes (0x81, uint32_bytes (of_int (sv_vmdPhysicalStatus s)))))"

lemma handleStatusRequest_eq:
  assumes "rd requestBuffer bufPos = Some b"
    and s': "(case listener of None \<Rightarrow> s | Some l \<Rightarrow> l s (b \<noteq> 0)) = s'"
  shows "mmsServer_handleStatusRequest listener s requestBuffer bufPos invokeId response =
    map_option (\<lambda>r. (s', r)) (put_bytes (status_bytes s' invokeId) response)"
proof -
  define st where "st = tlv_bytes (0x80, uint32_bytes (of_int (sv_vmdLogicalStatus s'))) @
    tlv_bytes (0x81, uint32_bytes (of_int (sv_vmdPhysicalStatus s')))"
  have l: "length st = 2 + length (uint32_bytes (of_int (sv_vmdPhysicalStatus s'))) + 2 +
      length (uint32_bytes (of_int (sv_vmdLogicalStatus s')))"
    by (simp add: st_def length_uint32_field)
  define body where "body = tlv_bytes (0x02, uint32_bytes invokeId) @ tlv_bytes (0xa0, st)"
  have len: "length body = length (uint32_bytes invokeId) + 2 + 1 + BerEncoder_determineLengthSize (length st) + length st"
    by (simp add: body_def length_uint32_field length_tlv_bytes [of "0xa0"] length_tl_bytes)
  have eq: "status_bytes s' invokeId = tl_bytes 0xa1 (length body) @ body"
    by (simp add: status_bytes_def body_def st_def tlv_bytes_def)
  have put: "put_bytes bs r = emits bs (bb_buffer r, 0) \<bind>
      (\<lambda>x. case x of (buffer, bufPos) \<Rightarrow> Some (r\<lparr>bb_buffer := buffer, bb_size := int bufPos\<rparr>))" if "bs \<noteq> []" for bs r
    using emits_put [OF that] by simp
  show ?thesis
    unfolding mmsServer_handleStatusRequest_def Let_def UInt32_size_eq BerDecoder_decodeBoolean_def
      assms(1) bind.bind_lunit s' l [symmetric] len [symmetric] eq
    by (subst put) (simp_all add: enc_emits body_def st_def tlv_bytes_def tl_bytes_def map_option_bind case_prod_unfold
        comp_def)
qed

definition initiate_fields :: "sMmsServerConnection \<Rightarrow> byte list" where
  "initiate_fields s = tlv_bytes (0x80, uint32_bytes (of_int (sc_maxPduSize s))) @
     tlv_bytes (0x81, uint32_bytes (of_int (sc_maxServOutstandingCalling s))) @
     tlv_bytes (0x82, uint32_bytes (of_int (sc_maxServOutstandingCalled s))) @
     tlv_bytes (0x83, uint32_bytes (of_int (sc_dataStructureNestingLevel s)))"

definition initiate_bytes :: "sMmsServerConnection \<Rightarrow> byte list" where
  "initiate_bytes s = tlv_bytes (0xa9, initiate_fields s @
     tlv_bytes (0xa4, [0x80, 1, 1, 0x81, 3, 5, 0xf1, 0, 0x82, 12, 3] @ servicesSupported))"

lemma encodeInitResponseDetail_emits:
  "encodeInitResponseDetail = emits (tlv_bytes (0xa4, [0x80, 1, 1, 0x81, 3, 5, 0xf1, 0, 0x82, 12, 3] @ servicesSupported))"
proof
  fix w
  have bits: "BerEncoder_encodeBitString 0x81 11 parameterCBB = emits [0x81, 3, 5, 0xf1, 0]"
      "BerEncoder_encodeBitString 0x82 85 servicesSupported = emits ([0x82, 12, 3] @ servicesSupported)"
    by (subst encodeBitString_emits, code_simp, rule arg_cong [of _ _ emits], code_simp)+
  have one: "uint32_bytes 1 = [1]" "length servicesSupported = 11" by code_simp+
  show "encodeInitResponseDetail w =
      emits (tlv_bytes (0xa4, [0x80, 1, 1, 0x81, 3, 5, 0xf1, 0, 0x82, 12, 3] @ servicesSupported)) w"
    by (simp add: encodeInitResponseDetail_def bits enc_emits one tlv_bytes_def tl_bytes_small)
qed

lemma createInitiateResponse_eq: "createInitiateResponse s response = put_bytes (initiate_bytes s) response"
proof -
  define detail where "detail = tlv_bytes (0xa4, [0x80, 1, 1, 0x81, 3, 5, 0xf1, 0, 0x82, 12, 3] @ servicesSupported)"
  have d: "length detail = 22 + 2"
    by (simp add: detail_def tlv_bytes_def servicesSupported_def tl_bytes_small)
  have len: "length (initiate_fields s @ detail) =
      2 + length (uint32_bytes (of_int (sc_maxPduSize s))) +
      2 + length (uint32_bytes (of_int (sc_maxServOutstandingCalling s))) +
      2 + length (uint32_bytes (of_int (sc_maxServOutstandingCalled s))) +
      2 + length (uint32_bytes (of_int (sc_dataStructureNestingLevel s))) + (22 + 2)"
    unfolding length_append d by (simp add: initiate_fields_def length_uint32_field)
  have eq: "initiate_bytes s = tl_bytes 0xa9 (length (initiate_fields s @ detail)) @ initiate_fields s @ detail"
    by (simp add: initiate_bytes_def tlv_bytes_def detail_def)
  show ?thesis
    unfolding createInitiateResponse_def Let_def UInt32_size_eq len [symmetric] eq
      encodeInitResponseDetail_emits detail_def [symmetric]
    by (subst emits_put [symmetric])
      (simp_all add: enc_emits initiate_fields_def tlv_bytes_def tl_bytes_def)
qed

lemma initiate_bytes_short: "length (initiate_bytes s) \<le> 55"
proof -
  have short: "length (uint32_bytes v) \<le> 5" for v by (rule uint32_bytes_spec(4))
  have "length (initiate_fields s) \<le> 28"
    using short [of "of_int (sc_maxPduSize s)"] short [of "of_int (sc_maxServOutstandingCalling s)"]
      short [of "of_int (sc_maxServOutstandingCalled s)"] short [of "of_int (sc_dataStructureNestingLevel s)"]
    by (simp add: initiate_fields_def length_uint32_field)
  then show ?thesis
    by (simp add: initiate_bytes_def length_tlv_bytes length_tl_bytes BerEncoder_determineLengthSize_def
        servicesSupported_def)
qed


section \<open>Negotiation\<close>

text \<open>The effect of an element of an initiate request.\<close>

definition initiate_effect :: "byte \<times> byte list \<Rightarrow> sMmsServerConnection \<Rightarrow> sMmsServerConnection" where
  "initiate_effect e s = (let n = sint (of_nat (be_nat (snd e)) :: u32) in
     if fst e = 0x80 then s\<lparr>sc_maxPduSize := min n CONFIG_MMS_MAXIMUM_PDU_SIZE\<rparr>
     else if fst e = 0x81 then s\<lparr>sc_maxServOutstandingCalling := min n DEFAULT_MAX_SERV_OUTSTANDING_CALLING\<rparr>
     else if fst e = 0x82 then s\<lparr>sc_maxServOutstandingCalled := min n DEFAULT_MAX_SERV_OUTSTANDING_CALLED\<rparr>
     else if fst e = 0x83 then s\<lparr>sc_dataStructureNestingLevel := n\<rparr>
     else s)"

interpretation initiate: tlv_fold "initiateElement buffer stop" buffer stop initiate_effect "\<lambda>_. True" "\<lambda>_. True"
  for buffer stop
proof (unfold_locales, goal_cases)
  case (1 p t c s)
  have room: "p + int (length (tl_bytes t (length c))) \<le> stop" using 1(3) by (simp add: length_tlv_bytes)
  note e = tlv_element [OF 1(1,2) room]
  note n = decodeUint32_found [OF e(3) refl]
  have "add_int (p + int (length (tl_bytes t (length c)))) (int (length c)) =
      Some (p + int (length (tlv_bytes (t, c))))"
    using e(4) 1(3,4) by (simp add: length_tlv_bytes)
  then show ?case
    using e n by (auto simp: initiateElement_def initiate_effect_def Let_def)
qed simp_all

text \<open>What an initiate request negotiates: for a request of any elements, the parameters of the connection are the
  defaults changed by the elements in their order, each proposal being limited to the maximum of the
  server, and the response that is written announces exactly these parameters.\<close>

theorem initiate_negotiation:
  assumes "found_at buffer p (concat (map tlv_bytes es))" and "\<forall>e\<in>set es. length (snd e) < 65536"
    and "maxBufPos = p + int (length (concat (map tlv_bytes es)))" and "maxBufPos \<le> INT_MAX"
    and "s' = fold initiate_effect es (initiateDefaults s)"
    and "55 \<le> length (bb_buffer response)"
  shows "mmsServer_handleInitiateRequest s buffer p maxBufPos response =
    Some (s', response\<lparr>bb_buffer := initiate_bytes s' @ drop (length (initiate_bytes s')) (bb_buffer response),
      bb_size := int (length (initiate_bytes s'))\<rparr>)"
proof -
  have "tlv_loop (initiateElement buffer maxBufPos) maxBufPos (initiateDefaults s) p = Some (Some maxBufPos, s')"
    using initiate.fold_run(1) [OF assms(1), of maxBufPos "initiateDefaults s"] assms(2-5)
    by (simp add: tlv_loop_done)
  then show ?thesis
    using assms(6) initiate_bytes_short [of s'] by (simp add: mmsServer_handleInitiateRequest_def parseInitiateRequestPdu_def
        createInitiateResponse_eq put_bytes_def)
qed

theorem initiate_negotiation_witness:
  "\<exists>response. mmsServer_handleInitiateRequest MmsServerConnection_init [0x80, 2, 0x7f, 0xff, 0x81, 1, 3] 0 7
     (ByteBuffer_wrap (replicate 100 0) 0 100) =
   Some (MmsServerConnection_init\<lparr>sc_maxPduSize := 16000, sc_dataStructureNestingLevel := 10,
       sc_maxServOutstandingCalled := 5, sc_maxServOutstandingCalling := 3\<rparr>, response)"
proof -
  define es :: "(byte \<times> byte list) list" where "es = [(0x80, [0x7f, 0xff]), (0x81, [3])]"
  have bytes: "concat (map tlv_bytes es) = [0x80, 2, 0x7f, 0xff, 0x81, 1, 3]"
    by (simp add: es_def tlv_bytes_def tl_bytes_small)
  have "be_nat [0x7f, 0xff] = 32767" "be_nat [3] = 3" "sint (of_nat 32767 :: u32) = 32767" "sint (of_nat 3 :: u32) = 3"
    by (simp_all add: be_nat_def)
  then have eff: "fold initiate_effect es (initiateDefaults MmsServerConnection_init) =
      MmsServerConnection_init\<lparr>sc_maxPduSize := 16000, sc_dataStructureNestingLevel := 10,
       sc_maxServOutstandingCalled := 5, sc_maxServOutstandingCalling := 3\<rparr>"
    by (simp add: es_def initiate_effect_def initiateDefaults_def connection_limits MmsServerConnection_init_def)
  have found: "found_at [0x80, 2, 0x7f, 0xff, 0x81, 1, 3] 0 (concat (map tlv_bytes es))"
    unfolding bytes using found_at_start [of "[0x80, 2, 0x7f, 0xff, 0x81, 1, 3]" "[]"] by simp
  have small: "\<forall>e\<in>set es. length (snd e) < 65536" by (simp add: es_def)
  have stop: "7 = 0 + int (length (concat (map tlv_bytes es)))" unfolding bytes by simp
  have room: "55 \<le> length (bb_buffer (ByteBuffer_wrap (replicate 100 0) 0 100))" by (simp add: ByteBuffer_wrap_def)
  have "7 \<le> INT_MAX" by simp
  from initiate_negotiation [OF found small stop this eff [symmetric] room] show ?thesis by blast
qed

text \<open>The parameters of a connection after an initiate request are limited from above, whatever the octets are.\<close>

definition limited :: "sMmsServerConnection \<Rightarrow> bool" where
  "limited s \<longleftrightarrow> sc_maxPduSize s \<le> CONFIG_MMS_MAXIMUM_PDU_SIZE \<and>
     sc_maxServOutstandingCalling s \<le> DEFAULT_MAX_SERV_OUTSTANDING_CALLING \<and>
     sc_maxServOutstandingCalled s \<le> DEFAULT_MAX_SERV_OUTSTANDING_CALLED"

lemma initiateElement_limited:
  "limited s \<Longrightarrow> initiateElement buffer maxBufPos s p = Some (r, s') \<Longrightarrow> limited s'"
  by (auto simp: initiateElement_def limited_def bind_eq_Some_conv split: if_splits)

lemma initiate_limited:
  assumes "mmsServer_handleInitiateRequest s buffer p maxBufPos response = Some (s', response')"
  shows "limited s'"
proof -
  have "limited (initiateDefaults s)" by (simp add: limited_def initiateDefaults_def)
  with assms show ?thesis
    by (auto simp: mmsServer_handleInitiateRequest_def parseInitiateRequestPdu_def bind_eq_Some_conv
        intro: tlv_loop_invariant [where I = limited] initiateElement_limited)
qed

end
