(* ===== verification/Mms_Errors.thy ===== *)
theory Mms_Errors
  imports Mms_Connection
begin

text \<open>
  Error and reject messages of the MMS server (\<open>src/src/mms/iso_mms/server/mms_server_common.c\<close> and
  \<open>mms_server_connection.c\<close>). They are built as structures of the ASN.1 compiler and written by its
  \<open>der_encode\<close>, which is a parameter: it gives the pieces it hands to \<open>mmsServer_write_out\<close>, none if the
  structure cannot be encoded.
\<close>

datatype MmsError =
    MMS_ERROR_NONE
  | MMS_ERROR_CONNECTION_REJECTED
  | MMS_ERROR_CONNECTION_LOST
  | MMS_ERROR_SERVICE_TIMEOUT
  | MMS_ERROR_PARSING_RESPONSE
  | MMS_ERROR_HARDWARE_FAULT
  | MMS_ERROR_CONCLUDE_REJECTED
  | MMS_ERROR_OTHER
  | MMS_ERROR_VMDSTATE_OTHER
  | MMS_ERROR_APPLICATION_REFERENCE_OTHER
  | MMS_ERROR_DEFINITION_OTHER
  | MMS_ERROR_DEFINITION_INVALID_ADDRESS
  | MMS_ERROR_DEFINITION_TYPE_UNSUPPORTED
  | MMS_ERROR_DEFINITION_TYPE_INCONSISTENT
  | MMS_ERROR_DEFINITION_OBJECT_UNDEFINED
  | MMS_ERROR_DEFINITION_OBJECT_EXISTS
  | MMS_ERROR_DEFINITION_OBJECT_ATTRIBUTE_INCONSISTENT
  | MMS_ERROR_RESOURCE_OTHER
  | MMS_ERROR_SERVICE_OTHER
  | MMS_ERROR_SERVICE_PREEMPT_OTHER
  | MMS_ERROR_TIME_RESOLUTION_OTHER
  | MMS_ERROR_ACCESS_OTHER
  | MMS_ERROR_ACCESS_OBJECT_NON_EXISTENT
  | MMS_ERROR_ACCESS_OBJECT_ACCESS_UNSUPPORTED
  | MMS_ERROR_ACCESS_OBJECT_ACCESS_DENIED
  | MMS_ERROR_ACCESS_OBJECT_INVALIDATED
  | MMS_ERROR_ACCESS_OBJECT_VALUE_INVALID
  | MMS_ERROR_ACCESS_TEMPORARILY_UNAVAILABLE
  | MMS_ERROR_FILE_OTHER
  | MMS_ERROR_FILE_FILENAME_AMBIGUOUS
  | MMS_ERROR_FILE_FILE_BUSY
  | MMS_ERROR_FILE_FILENAME_SYNTAX_ERROR
  | MMS_ERROR_FILE_CONTENT_TYPE_INVALID
  | MMS_ERROR_FILE_POSITION_INVALID
  | MMS_ERROR_FILE_FILE_ACCESS_DENIED
  | MMS_ERROR_FILE_FILE_NON_EXISTENT
  | MMS_ERROR_FILE_DUPLICATE_FILENAME
  | MMS_ERROR_FILE_INSUFFICIENT_SPACE_IN_FILESTORE
  | MMS_ERROR_REJECT_OTHER
  | MMS_ERROR_REJECT_UNKNOWN_PDU_TYPE
  | MMS_ERROR_REJECT_INVALID_PDU
  | MMS_ERROR_REJECT_UNRECOGNIZED_SERVICE
  | MMS_ERROR_REJECT_UNRECOGNIZED_MODIFIER
  | MMS_ERROR_REJECT_REQUEST_INVALID_ARGUMENT

text \<open>The class and code of a service error.\<close>

datatype ServiceError =
    EC_access_objectnonexistent
  | EC_access_objectaccessdenied
  | EC_access_objectaccessunsupported
  | EC_service_other
  | EC_definition_objectexists
  | EC_file_filenonexistent
  | EC_file_other
  | EC_resource_other

datatype RejectReason =
    RR_confirmedRequestPDU_unrecognizedService
  | RR_pduError_unknownPduType
  | RR_confirmedRequestPDU_invalidArgument
  | RR_confirmedRequestPDU_other

text \<open>The description of a type in a message; one without type cannot be encoded.\<close>

datatype TypeSpecification =
    TS_NOTHING
  | TS_array int TypeSpecification
  | TS_structure "(cstring \<times> TypeSpecification) list"
  | TS_boolean
  | TS_bitstring int
  | TS_integer int
  | TS_unsigned int
  | TS_floatingpoint int int
  | TS_octetstring int
  | TS_visiblestring int
  | TS_mMSString int
  | TS_utctime
  | TS_binarytime bool

text \<open>The messages; the class of a service error may be absent. The result of a write is \<open>None\<close> for success, or
  the code of the failure. A variable of a list is given by the names of its domain and of itself.\<close>

datatype MmsPdu =
    confirmedErrorPDU u32 "ServiceError option"
  | rejectPDU "u32 option" RejectReason
  | writeResponse u32 "MmsDataAccessError option list"
  | getVariableAccessAttributesResponse u32 bool TypeSpecification
  | getNamedVariableListAttributesResponse u32 bool "(cstring \<times> cstring) list"

type_synonym der_encode = "MmsPdu \<Rightarrow> byte list list"

definition mmsServer_write_out :: "byte list \<Rightarrow> ByteBuffer \<Rightarrow> (int \<times> ByteBuffer) option" where
  "mmsServer_write_out buffer writeBuffer = ByteBuffer_append writeBuffer buffer (int (length buffer))"

text \<open>The pieces are written until one of them does not fit.\<close>

fun write_pieces :: "byte list list \<Rightarrow> ByteBuffer \<Rightarrow> ByteBuffer option" where
  "write_pieces [] response = Some response"
| "write_pieces (piece # pieces) response = do {
     (r, response) \<leftarrow> mmsServer_write_out piece response;
     if r = -1 then Some response else write_pieces pieces response
   }"

definition errorClass :: "MmsError \<Rightarrow> ServiceError option" where
  "errorClass errorType =
     (if errorType = MMS_ERROR_ACCESS_OBJECT_NON_EXISTENT then Some EC_access_objectnonexistent
      else if errorType = MMS_ERROR_ACCESS_OBJECT_ACCESS_DENIED then Some EC_access_objectaccessdenied
      else if errorType = MMS_ERROR_ACCESS_OBJECT_ACCESS_UNSUPPORTED then Some EC_access_objectaccessunsupported
      else if errorType = MMS_ERROR_SERVICE_OTHER then Some EC_service_other
      else if errorType = MMS_ERROR_DEFINITION_OBJECT_EXISTS then Some EC_definition_objectexists
      else if errorType = MMS_ERROR_FILE_FILE_NON_EXISTENT then Some EC_file_filenonexistent
      else if errorType = MMS_ERROR_FILE_OTHER then Some EC_file_other
      else if errorType = MMS_ERROR_RESOURCE_OTHER then Some EC_resource_other
      else None)"

definition mmsServer_createConfirmedErrorPdu ::
  "der_encode \<Rightarrow> u32 \<Rightarrow> ByteBuffer \<Rightarrow> MmsError \<Rightarrow> ByteBuffer option" where
  "mmsServer_createConfirmedErrorPdu der invokeId response errorType =
     write_pieces (der (confirmedErrorPDU invokeId (errorClass errorType))) response"

definition rejectReason :: "MmsError \<Rightarrow> RejectReason" where
  "rejectReason reason =
     (if reason = MMS_ERROR_REJECT_UNRECOGNIZED_SERVICE then RR_confirmedRequestPDU_unrecognizedService
      else if reason = MMS_ERROR_REJECT_UNKNOWN_PDU_TYPE then RR_pduError_unknownPduType
      else if reason = MMS_ERROR_REJECT_REQUEST_INVALID_ARGUMENT then RR_confirmedRequestPDU_invalidArgument
      else RR_confirmedRequestPDU_other)"

definition mmsServer_writeMmsRejectPdu ::
  "der_encode \<Rightarrow> u32 option \<Rightarrow> MmsError \<Rightarrow> ByteBuffer \<Rightarrow> ByteBuffer option" where
  "mmsServer_writeMmsRejectPdu der invokeId reason response =
     write_pieces (der (rejectPDU invokeId (rejectReason reason))) response"


section \<open>What is written\<close>

lemma write_pieces_fits:
  "bb_inv response \<Longrightarrow> bb_size response + int (length (concat pieces)) \<le> bb_maxSize response \<Longrightarrow>
   \<exists>r. write_pieces pieces response = Some r \<and> bb_inv r \<and> bb_content r = bb_content response @ concat pieces"
proof (induction pieces arbitrary: response)
  case (Cons piece pieces)
  then obtain s where s: "mmsServer_write_out piece response = Some (int (length piece), s)" "bb_inv s"
      "bb_maxSize s = bb_maxSize response" "bb_content s = bb_content response @ piece"
    using append_sink.app_stores [of response piece] by (auto simp: mmsServer_write_out_def)
  then have "bb_size s = bb_size response + int (length piece)"
    using Cons.prems(1) length_bb_content [of s] length_bb_content [of response] by (auto simp: bb_inv_def)
  with Cons.prems s Cons.IH [of s] show ?case by auto
qed simp

end
