(* ===== verification/Mms_Read.thy ===== *)
theory Mms_Read
  imports Mms_Data Mms_Errors
begin

text \<open>
  The read service (\<open>src/src/mms/iso_mms/server/mms_read_service.c\<close>): the values of a list of variables, or of
  the variables of a named variable list.

  Requests are decoded by \<open>ber_decode\<close> of the ASN.1 compiler, which is a parameter; the model has the parts
  of the decoded structures the service reads. The address of a domain is its position in the device.
  The values of variables come from a parameter \<open>getValue\<close> of the inner functions, which is
  \<open>mmsServer_getValue\<close> for the server. Memory that is freed is not modelled.
\<close>

section \<open>Requests\<close>

datatype ObjectName =
    ObjectName_NOTHING
  | ObjectName_vmdspecific Identifier
  | ObjectName_domainspecific Identifier Identifier
  | ObjectName_aaspecific Identifier

datatype VariableSpecification =
    VariableSpecification_name ObjectName
  | VariableSpecification_other

datatype SelectAccess =
    selectAccess_index int
  | selectAccess_indexRange int int
  | selectAccess_other

text \<open>A member of an alternate access: whether it is unnamed, the selection as far as it is read as a
  \<open>selectAccess\<close>, and as a \<open>selectAlternateAccess\<close> its index and the component its alternate access names, \<open>None\<close>
  where that is \<open>NULL\<close>.\<close>

record AlternateAccess_Member =
  am_unnamed :: bool
  am_selectAccess :: SelectAccess
  am_accessIndex :: int
  am_alternateAccess :: "Identifier option"

type_synonym AlternateAccess = "AlternateAccess_Member list"

datatype VariableAccessSpecification =
    VariableAccessSpecification_listOfVariable "(VariableSpecification \<times> AlternateAccess option) list"
  | VariableAccessSpecification_variableListName ObjectName
  | VariableAccessSpecification_NOTHING

record ReadRequest =
  rq_specificationWithResult :: "bool option"
  rq_variableAccessSpecification :: VariableAccessSpecification

text \<open>The first member of the list; reading it from an empty list is undefined.\<close>

definition firstMember :: "AlternateAccess \<Rightarrow> AlternateAccess_Member option" where
  "firstMember alternateAccess = (case alternateAccess of [] \<Rightarrow> None | m # _ \<Rightarrow> Some m)"

definition mmsServer_isIndexAccess :: "AlternateAccess \<Rightarrow> bool option" where
  "mmsServer_isIndexAccess alternateAccess = do {
     m \<leftarrow> firstMember alternateAccess;
     Some (am_unnamed m \<and> (case am_selectAccess m of selectAccess_other \<Rightarrow> False | _ \<Rightarrow> True))
   }"

definition mmsServer_getLowIndex :: "AlternateAccess \<Rightarrow> int option" where
  "mmsServer_getLowIndex alternateAccess = do {
     m \<leftarrow> firstMember alternateAccess;
     Some (case am_selectAccess m of
         selectAccess_index index \<Rightarrow> index
       | selectAccess_indexRange lowIndex _ \<Rightarrow> lowIndex
       | selectAccess_other \<Rightarrow> -1)
   }"

definition mmsServer_getNumberOfElements :: "AlternateAccess \<Rightarrow> int option" where
  "mmsServer_getNumberOfElements alternateAccess = do {
     m \<leftarrow> firstMember alternateAccess;
     Some (case am_selectAccess m of selectAccess_indexRange _ number \<Rightarrow> number | _ \<Rightarrow> 0)
   }"

text \<open>\<open>MmsDevice_getDomain\<close> with the address of the domain as its result.\<close>

fun domain_loop :: "sMmsDomain list \<Rightarrow> cstring \<Rightarrow> nat \<Rightarrow> MmsDomain option" where
  "domain_loop [] domainId i = None"
| "domain_loop (domain # domains) domainId i =
     (if md_domainName domain = domainId then Some i else domain_loop domains domainId (i + 1))"

definition domainPointer :: "MmsDevice \<Rightarrow> cstring \<Rightarrow> MmsDomain option" where
  "domainPointer self domainId = domain_loop (dv_domains self) domainId 0"

text \<open>The domain at an address.\<close>

definition domain_at :: "MmsDevice \<Rightarrow> MmsDomain \<Rightarrow> sMmsDomain option" where
  "domain_at self p = (if p < length (dv_domains self) then Some (dv_domains self ! p) else None)"


section \<open>The values of variables\<close>

type_synonym get_value = "MmsDomain \<Rightarrow> cstring \<Rightarrow> MmsValue option option"

fun addNamedVariableValue ::
    "get_value \<Rightarrow> MmsVariableSpecification \<Rightarrow> MmsDomain \<Rightarrow> cstring \<Rightarrow> MmsValue option option"
  and componentValues_loop ::
    "get_value \<Rightarrow> MmsVariableSpecification list \<Rightarrow> int \<Rightarrow> MmsValue \<Rightarrow> MmsDomain \<Rightarrow> cstring \<Rightarrow> MmsValue option"
where
  "addNamedVariableValue getValue (MmsVariableSpecification n t) domain itemId =
     (case t of
        T_structure elements \<Rightarrow> do {
          v \<leftarrow> getValue domain itemId;
          (case v of
             Some v \<Rightarrow> Some (Some v)
           | None \<Rightarrow> do {
               let v = MmsValue_setDeletable (MmsValue_createEmptyStructure (length elements));
               v \<leftarrow> componentValues_loop getValue elements 0 v domain itemId;
               Some (Some v)
             })
        }
      | _ \<Rightarrow> getValue domain itemId)"
| "componentValues_loop getValue [] i v domain itemId = Some v"
| "componentValues_loop getValue (e # elements) i v domain itemId = do {
     name \<leftarrow> spec_name e;
     element \<leftarrow> addNamedVariableValue getValue e domain (createString [itemId, lit ''$'', name]);
     componentValues_loop getValue elements (i + 1) (MmsValue_setElement v i element) domain itemId
   }"

definition addComplexValueToResultList ::
  "get_value \<Rightarrow> MmsVariableSpecification \<Rightarrow> MmsValue list \<Rightarrow> MmsDomain \<Rightarrow> cstring \<Rightarrow> MmsValue list option" where
  "addComplexValueToResultList getValue namedVariable typedValues domain nameIdStr = do {
     v \<leftarrow> addNamedVariableValue getValue namedVariable domain nameIdStr;
     Some (case v of Some v \<Rightarrow> typedValues @ [v] | None \<Rightarrow> typedValues)
   }"

definition appendValueToResultList :: "MmsValue option \<Rightarrow> MmsValue list \<Rightarrow> MmsValue list" where
  "appendValueToResultList v values = (case v of Some v \<Rightarrow> values @ [v] | None \<Rightarrow> values)"

definition appendErrorToResultList :: "MmsValue list \<Rightarrow> int \<Rightarrow> MmsValue list" where
  "appendErrorToResultList values errorCode =
     appendValueToResultList (Some (MmsValue_setDeletable (MmsValue_newDataAccessError errorCode))) values"

definition isAccessToArrayComponent :: "AlternateAccess \<Rightarrow> bool option" where
  "isAccessToArrayComponent alternateAccess = do {
     m \<leftarrow> firstMember alternateAccess;
     Some (am_alternateAccess m \<noteq> None)
   }"

text \<open>\<open>strncmp (s, t, n) == 0\<close> for strings in memory.\<close>

fun strncmp_equal :: "byte list \<Rightarrow> byte list \<Rightarrow> nat \<Rightarrow> bool option" where
  "strncmp_equal s t 0 = Some True"
| "strncmp_equal (a # s) (b # t) (Suc n) =
     (if a \<noteq> b then Some False else if a = 0 then Some True else strncmp_equal s t n)"
| "strncmp_equal s t n = None"

text \<open>The loop runs to the number of elements of the array, over the elements of the structure.\<close>

function componentName_loop ::
  "MmsVariableSpecification list \<Rightarrow> Identifier \<Rightarrow> nat \<Rightarrow> nat \<Rightarrow> nat option option" where
  "componentName_loop elements component elementCount i =
     (if i < elementCount then
        if i < length elements then do {
          name \<leftarrow> spec_name (elements ! i);
          equal \<leftarrow> strncmp_equal (name @ [0]) (fst component) (snd component);
          if equal then Some (Some i) else componentName_loop elements component elementCount (i + 1)
        }
        else None
      else Some None)"
  by pat_completeness auto
termination
  by (relation "measure (\<lambda>(elements, component, elementCount, i). elementCount - i)") auto

declare componentName_loop.simps [simp del]

definition getComponentOfArrayElement ::
  "AlternateAccess \<Rightarrow> MmsVariableSpecification \<Rightarrow> MmsValue \<Rightarrow> MmsValue option option" where
  "getComponentOfArrayElement alternateAccess namedVariable structuredValue = do {
     m \<leftarrow> firstMember alternateAccess;
     (case am_alternateAccess m of
        None \<Rightarrow> Some None
      | Some component \<Rightarrow>
          if snd component > 129 then Some None
          else
            (case typeSpec namedVariable of
               T_array elementCount structSpec \<Rightarrow>
                 (case typeSpec structSpec of
                    T_structure elements \<Rightarrow> do {
                      i \<leftarrow> componentName_loop elements component elementCount 0;
                      Some (case i of None \<Rightarrow> None | Some i \<Rightarrow> MmsValue_getElement structuredValue (int i))
                    }
                  | _ \<Rightarrow> None)
             | _ \<Rightarrow> None))
   }"

function range_loop ::
  "(nat \<Rightarrow> byte) \<Rightarrow> MmsValue \<Rightarrow> int \<Rightarrow> int \<Rightarrow> int \<Rightarrow> MmsValue \<Rightarrow> MmsValue option" where
  "range_loop junk arrayValue index stop resultIndex v =
     (if index < stop then do {
        elementValue \<leftarrow> MmsValue_getElement arrayValue index;
        elementValue \<leftarrow>
          (if MmsValue_isDeletable elementValue = 0 then
             map_option (\<lambda>e. MmsValue 1 (mv_value e)) (MmsValue_clone junk elementValue)
           else Some elementValue);
        range_loop junk arrayValue (index + 1) stop (resultIndex + 1)
          (MmsValue_setElement v resultIndex (Some elementValue))
      }
      else Some v)"
  by pat_completeness auto
termination
  by (relation "measure (\<lambda>(junk, arrayValue, index, stop, resultIndex, v). nat (stop - index))") auto

declare range_loop.simps [simp del]

definition alternateArrayAccess ::
  "(nat \<Rightarrow> byte) \<Rightarrow> get_value \<Rightarrow> AlternateAccess \<Rightarrow> MmsDomain \<Rightarrow> cstring \<Rightarrow> MmsValue list \<Rightarrow>
   MmsVariableSpecification \<Rightarrow> MmsValue list option" where
  "alternateArrayAccess junk getValue alternateAccess domain itemId values namedVariable = do {
     indexAccess \<leftarrow> mmsServer_isIndexAccess alternateAccess;
     if indexAccess then do {
       lowIndex \<leftarrow> mmsServer_getLowIndex alternateAccess;
       numberOfElements \<leftarrow> mmsServer_getNumberOfElements alternateAccess;
       arrayValue \<leftarrow> getValue domain itemId;
       (case arrayValue of
          None \<Rightarrow> Some (appendErrorToResultList values 10)
        | Some arrayValue \<Rightarrow> do {
            v \<leftarrow>
              (if numberOfElements = 0 then do {
                 componentAccess \<leftarrow> isAccessToArrayComponent alternateAccess;
                 if componentAccess then
                   (case typeSpec namedVariable of
                      T_array _ elementTypeSpec \<Rightarrow>
                        (case typeSpec elementTypeSpec of
                           T_structure _ \<Rightarrow>
                             (case MmsValue_getElement arrayValue lowIndex of
                                None \<Rightarrow> Some None
                              | Some structValue \<Rightarrow>
                                  getComponentOfArrayElement alternateAccess namedVariable structValue)
                         | _ \<Rightarrow> Some None)
                    | _ \<Rightarrow> None)
                 else Some (MmsValue_getElement arrayValue lowIndex)
               }
               else do {
                 stop \<leftarrow> add_int lowIndex numberOfElements;
                 v \<leftarrow> range_loop junk arrayValue lowIndex stop 0
                   (MmsValue_setDeletable (MmsValue_createEmtpyArray (nat numberOfElements)));
                 Some (Some v)
               });
            Some (appendValueToResultList v values)
          })
     }
     else Some (appendErrorToResultList values 10)
   }"

definition addNamedVariableToResultList ::
  "(nat \<Rightarrow> byte) \<Rightarrow> get_value \<Rightarrow> MmsVariableSpecification option \<Rightarrow> MmsDomain \<Rightarrow> cstring \<Rightarrow> MmsValue list \<Rightarrow>
   AlternateAccess option \<Rightarrow> MmsValue list option" where
  "addNamedVariableToResultList junk getValue namedVariable domain nameIdStr values alternateAccess =
     (case namedVariable of
        None \<Rightarrow> Some (appendErrorToResultList values 10)
      | Some namedVariable \<Rightarrow>
          (case typeSpec namedVariable of
             T_structure _ \<Rightarrow> do {
               v \<leftarrow> getValue domain nameIdStr;
               (case v of
                  Some v \<Rightarrow> Some (appendValueToResultList (Some v) values)
                | None \<Rightarrow> addComplexValueToResultList getValue namedVariable values domain nameIdStr)
             }
           | T_array _ _ \<Rightarrow>
               (case alternateAccess of
                  Some alternateAccess \<Rightarrow>
                    alternateArrayAccess junk getValue alternateAccess domain nameIdStr values namedVariable
                | None \<Rightarrow> do {
                    v \<leftarrow> getValue domain nameIdStr;
                    Some (appendValueToResultList v values)
                  })
           | _ \<Rightarrow> do {
               v \<leftarrow> getValue domain nameIdStr;
               Some (case v of
                   None \<Rightarrow> appendErrorToResultList values 10
                 | Some v \<Rightarrow> appendValueToResultList (Some v) values)
             }))"

definition isSpecWithResult :: "ReadRequest \<Rightarrow> bool" where
  "isSpecWithResult read = (rq_specificationWithResult read = Some True)"



section \<open>Responses\<close>

record VarAccessSpec =
  vs_isNamedVariableList :: bool
  vs_specific :: int
  vs_itemId :: cstring
  vs_domainId :: "cstring option"

text \<open>The sizes of the specification: its names, with the tag of the scope, with the tag of the list name, and
  in all.\<close>

definition specificityLength :: "VarAccessSpec \<Rightarrow> nat" where
  "specificityLength accessSpec =
     (let itemIdLen = length (vs_itemId accessSpec);
          n = itemIdLen + BerEncoder_determineLengthSize itemIdLen + 1
      in case vs_domainId accessSpec of
           None \<Rightarrow> n
         | Some domainId \<Rightarrow> n + (length domainId + BerEncoder_determineLengthSize (length domainId) + 1))"

definition variableListNameLength :: "VarAccessSpec \<Rightarrow> nat" where
  "variableListNameLength accessSpec =
     specificityLength accessSpec + (1 + BerEncoder_determineLengthSize (specificityLength accessSpec))"

definition varAccessSpecLength :: "VarAccessSpec \<Rightarrow> nat" where
  "varAccessSpecLength accessSpec =
     variableListNameLength accessSpec + (1 + BerEncoder_determineLengthSize (variableListNameLength accessSpec))"

definition varAccessSpecSize :: "VarAccessSpec \<Rightarrow> nat" where
  "varAccessSpecSize accessSpec =
     varAccessSpecLength accessSpec + (1 + BerEncoder_determineLengthSize (varAccessSpecLength accessSpec))"

definition encodeVariableAccessSpecification :: "VarAccessSpec \<Rightarrow> wbuf \<Rightarrow> wbuf option" where
  "encodeVariableAccessSpecification accessSpec w = do {
     w \<leftarrow> BerEncoder_encodeTL 0xa0 (varAccessSpecLength accessSpec) w;
     if vs_isNamedVariableList accessSpec then do {
       w \<leftarrow> BerEncoder_encodeTL 0xa1 (variableListNameLength accessSpec) w;
       w \<leftarrow>
         (if vs_specific accessSpec = 0 then BerEncoder_encodeTL 0xa0 (specificityLength accessSpec) w
          else if vs_specific accessSpec = 1 then BerEncoder_encodeTL 0xa1 (specificityLength accessSpec) w
          else BerEncoder_encodeTL 0xa2 (specificityLength accessSpec) w);
       w \<leftarrow>
         (case vs_domainId accessSpec of
            Some domainId \<Rightarrow> BerEncoder_encodeStringWithTag 0x1a (Some domainId) w
          | None \<Rightarrow> Some w);
       BerEncoder_encodeStringWithTag 0x1a (Some (vs_itemId accessSpec)) w
     }
     else Some w
   }"

definition encodeReadResponse ::
  "der_encode \<Rightarrow> sMmsServerConnection \<Rightarrow> u32 \<Rightarrow> ByteBuffer \<Rightarrow> MmsValue list \<Rightarrow> VarAccessSpec option \<Rightarrow> ByteBuffer option" where
  "encodeReadResponse der connection invokeId response values accessSpec = do {
     let specSize = (case accessSpec of None \<Rightarrow> 0 | Some spec \<Rightarrow> varAccessSpecSize spec);
     accessResultSize \<leftarrow> elements_size (map Some values);
     let listOfAccessResultsLength = 1 + BerEncoder_determineLengthSize accessResultSize + accessResultSize;
     let confirmedServiceResponseContentLength = listOfAccessResultsLength + specSize;
     let confirmedServiceResponseLength =
       1 + BerEncoder_determineLengthSize confirmedServiceResponseContentLength + confirmedServiceResponseContentLength;
     let invokeIdSize = BerEncoder_UInt32determineEncodedSize invokeId + 2;
     let confirmedResponseContentSize = confirmedServiceResponseLength + invokeIdSize;
     let mmsPduSize =
       1 + BerEncoder_determineLengthSize confirmedResponseContentSize + confirmedResponseContentSize;
     if int mmsPduSize > sc_maxPduSize connection then
       mmsServer_createConfirmedErrorPdu der invokeId response MMS_ERROR_SERVICE_OTHER
     else do {
       w \<leftarrow> BerEncoder_encodeTL 0xa1 confirmedResponseContentSize (bb_buffer response, 0);
       w \<leftarrow> BerEncoder_encodeTL 0x02 (invokeIdSize - 2) w;
       w \<leftarrow> BerEncoder_encodeUInt32 invokeId w;
       w \<leftarrow> BerEncoder_encodeTL 0xa4 confirmedServiceResponseContentLength w;
       w \<leftarrow> (case accessSpec of None \<Rightarrow> Some w | Some spec \<Rightarrow> encodeVariableAccessSpecification spec w);
       w \<leftarrow> BerEncoder_encodeTL 0xa1 accessResultSize w;
       (buffer, bufPos) \<leftarrow> encodeElements (map Some values) w;
       Some (response\<lparr>bb_buffer := buffer, bb_size := int bufPos\<rparr>)
     }
   }"

text \<open>The variables of a request one after the other; \<open>None\<close> inside is a request that is rejected.\<close>

fun readVariables_loop ::
  "(nat \<Rightarrow> byte) \<Rightarrow> get_value \<Rightarrow> MmsDevice \<Rightarrow> (VariableSpecification \<times> AlternateAccess option) list \<Rightarrow> MmsValue list \<Rightarrow>
   MmsValue list option option" where
  "readVariables_loop junk getValue device [] values = Some (Some values)"
| "readVariables_loop junk getValue device ((varSpec, alternateAccess) # rest) values =
     (case varSpec of
        VariableSpecification_name (ObjectName_domainspecific domainId itemId) \<Rightarrow> do {
          domainIdStr \<leftarrow> mmsMsg_copyAsn1IdentifierToStringBuffer domainId 65;
          nameIdStr \<leftarrow> mmsMsg_copyAsn1IdentifierToStringBuffer itemId 65;
          values \<leftarrow>
            (case domainPointer device domainIdStr of
               None \<Rightarrow> Some (appendErrorToResultList values 10)
             | Some domain \<Rightarrow> do {
                 d \<leftarrow> domain_at device domain;
                 namedVariable \<leftarrow> MmsDomain_getNamedVariable d nameIdStr;
                 (case namedVariable of
                    None \<Rightarrow> Some (appendErrorToResultList values 10)
                  | Some namedVariable \<Rightarrow>
                      addNamedVariableToResultList junk getValue (Some namedVariable) domain nameIdStr values
                        alternateAccess)
               });
          readVariables_loop junk getValue device rest values
        }
      | VariableSpecification_name _ \<Rightarrow>
          readVariables_loop junk getValue device rest (appendErrorToResultList values 10)
      | VariableSpecification_other \<Rightarrow> Some None)"

definition handleReadListOfVariablesRequest ::
  "der_encode \<Rightarrow> (nat \<Rightarrow> byte) \<Rightarrow> get_value \<Rightarrow> MmsDevice \<Rightarrow> sMmsServerConnection \<Rightarrow>
   (VariableSpecification \<times> AlternateAccess option) list \<Rightarrow> u32 \<Rightarrow> ByteBuffer \<Rightarrow> ByteBuffer option" where
  "handleReadListOfVariablesRequest der junk getValue device connection listOfVariable invokeId response = do {
     values \<leftarrow> readVariables_loop junk getValue device listOfVariable [];
     (case values of
        None \<Rightarrow> mmsServer_writeMmsRejectPdu der (Some invokeId) MMS_ERROR_REJECT_REQUEST_INVALID_ARGUMENT response
      | Some values \<Rightarrow> encodeReadResponse der connection invokeId response values None)
   }"

text \<open>An entry without domain is a null pointer that is followed.\<close>

fun listVariables_loop ::
  "(nat \<Rightarrow> byte) \<Rightarrow> get_value \<Rightarrow> MmsDevice \<Rightarrow> MmsAccessSpecifier list \<Rightarrow> MmsValue list \<Rightarrow> MmsValue list option" where
  "listVariables_loop junk getValue device [] values = Some values"
| "listVariables_loop junk getValue device (variableListEntry # rest) values = do {
     variableDomain \<leftarrow> MmsNamedVariableListEntry_getDomain variableListEntry;
     let variableName = MmsNamedVariableListEntry_getVariableName variableListEntry;
     d \<leftarrow> domain_at device variableDomain;
     namedVariable \<leftarrow> MmsDomain_getNamedVariable d variableName;
     values \<leftarrow> addNamedVariableToResultList junk getValue namedVariable variableDomain variableName values None;
     listVariables_loop junk getValue device rest values
   }"

definition createNamedVariableListResponse ::
  "der_encode \<Rightarrow> (nat \<Rightarrow> byte) \<Rightarrow> get_value \<Rightarrow> MmsDevice \<Rightarrow> sMmsServerConnection \<Rightarrow> MmsNamedVariableList \<Rightarrow> u32 \<Rightarrow>
   ByteBuffer \<Rightarrow> ReadRequest \<Rightarrow> VarAccessSpec \<Rightarrow> ByteBuffer option" where
  "createNamedVariableListResponse der junk getValue device connection namedList invokeId response read accessSpec = do {
     values \<leftarrow> listVariables_loop junk getValue device (MmsNamedVariableList_getVariableList namedList) [];
     encodeReadResponse der connection invokeId response values
       (if isSpecWithResult read then Some accessSpec else None)
   }"

definition handleReadNamedVariableListRequest ::
  "der_encode \<Rightarrow> (nat \<Rightarrow> byte) \<Rightarrow> get_value \<Rightarrow> MmsDevice \<Rightarrow> sMmsServerConnection \<Rightarrow> ReadRequest \<Rightarrow> ObjectName \<Rightarrow> u32 \<Rightarrow>
   ByteBuffer \<Rightarrow> ByteBuffer option" where
  "handleReadNamedVariableListRequest der junk getValue device connection read variableListName invokeId response =
     (case variableListName of
        ObjectName_domainspecific domainId itemId \<Rightarrow> do {
          domainIdStr \<leftarrow> mmsMsg_copyAsn1IdentifierToStringBuffer domainId 65;
          nameIdStr \<leftarrow> mmsMsg_copyAsn1IdentifierToStringBuffer itemId 65;
          let accessSpec = \<lparr>vs_isNamedVariableList = True, vs_specific = 1, vs_itemId = nameIdStr,
            vs_domainId = Some domainIdStr\<rparr>;
          (case MmsDevice_getDomain device domainIdStr of
             None \<Rightarrow> mmsServer_createConfirmedErrorPdu der invokeId response MMS_ERROR_ACCESS_OBJECT_NON_EXISTENT
           | Some domain \<Rightarrow>
               (case MmsDomain_getNamedVariableList domain nameIdStr of
                  Some namedList \<Rightarrow>
                    createNamedVariableListResponse der junk getValue device connection namedList invokeId response
                      read accessSpec
                | None \<Rightarrow>
                    mmsServer_createConfirmedErrorPdu der invokeId response MMS_ERROR_ACCESS_OBJECT_NON_EXISTENT))
        }
      | ObjectName_aaspecific aaspecific \<Rightarrow> do {
          listName \<leftarrow> mmsMsg_copyAsn1IdentifierToStringBuffer aaspecific 65;
          let accessSpec = \<lparr>vs_isNamedVariableList = True, vs_specific = 2, vs_itemId = listName, vs_domainId = None\<rparr>;
          (case MmsServerConnection_getNamedVariableList connection listName of
             None \<Rightarrow> mmsServer_createConfirmedErrorPdu der invokeId response MMS_ERROR_ACCESS_OBJECT_NON_EXISTENT
           | Some namedList \<Rightarrow>
               createNamedVariableListResponse der junk getValue device connection namedList invokeId response read
                 accessSpec)
        }
      | _ \<Rightarrow> mmsServer_createConfirmedErrorPdu der invokeId response MMS_ERROR_ACCESS_OBJECT_ACCESS_UNSUPPORTED)"

definition mmsServer_handleReadRequest ::
  "der_encode \<Rightarrow> (byte list \<Rightarrow> ReadRequest option) \<Rightarrow> (nat \<Rightarrow> byte) \<Rightarrow>
   (MmsDomain \<Rightarrow> cstring \<Rightarrow> MmsServerConnection \<Rightarrow> MmsValue option) option \<Rightarrow> sMmsServer \<Rightarrow> MmsServerConnection \<Rightarrow>
   sMmsServerConnection \<Rightarrow> byte list \<Rightarrow> u32 \<Rightarrow> ByteBuffer \<Rightarrow> ByteBuffer option" where
  "mmsServer_handleReadRequest der ber_decode junk readHandler server self connection buffer invokeId response =
     (let getValue = (\<lambda>domain itemId. mmsServer_getValue readHandler (sv_valueCaches server) domain itemId self);
          device = sv_device server
      in case ber_decode buffer of
           None \<Rightarrow> mmsServer_writeMmsRejectPdu der (Some invokeId) MMS_ERROR_REJECT_INVALID_PDU response
         | Some request \<Rightarrow>
             (case rq_variableAccessSpecification request of
                VariableAccessSpecification_listOfVariable listOfVariable \<Rightarrow>
                  handleReadListOfVariablesRequest der junk getValue device connection listOfVariable invokeId response
              | VariableAccessSpecification_variableListName name \<Rightarrow>
                  handleReadNamedVariableListRequest der junk getValue device connection request name invokeId response
              | VariableAccessSpecification_NOTHING \<Rightarrow>
                  mmsServer_createConfirmedErrorPdu der invokeId response
                    MMS_ERROR_ACCESS_OBJECT_ACCESS_UNSUPPORTED))"



section \<open>What is answered\<close>

text \<open>The octets of a response.\<close>

definition spec_bytes :: "VarAccessSpec option \<Rightarrow> byte list" where
  "spec_bytes accessSpec =
     (case accessSpec of
        None \<Rightarrow> []
      | Some spec \<Rightarrow> tlv_bytes (0xa0, tlv_bytes (0xa1, tlv_bytes
          (if vs_specific spec = 0 then 0xa0 else if vs_specific spec = 1 then 0xa1 else 0xa2,
           (case vs_domainId spec of None \<Rightarrow> [] | Some d \<Rightarrow> tlv_bytes (0x1a, d)) @ tlv_bytes (0x1a, vs_itemId spec)))))"

definition read_pdu :: "u32 \<Rightarrow> VarAccessSpec option \<Rightarrow> MmsValue list \<Rightarrow> byte list" where
  "read_pdu invokeId accessSpec values = tlv_bytes (0xa1, tlv_bytes (0x02, uint32_bytes invokeId) @
     tlv_bytes (0xa4, spec_bytes accessSpec @ tlv_bytes (0xa1, elements_bytes (map Some values))))"

definition answerable :: "MmsValue list \<Rightarrow> bool" where
  "answerable values \<longleftrightarrow> list_all (\<lambda>v. mms_wf v \<and> size_counted v) values"

lemma answerable_elements:
  assumes "answerable values"
  shows "elements_size (map Some values) = Some (length (elements_bytes (map Some values)))"
    "encodeElements (map Some values) = emits (elements_bytes (map Some values))"
proof -
  have "all_components mms_wf (map Some values)" "all_components size_counted (map Some values)"
    using assms by (auto simp: answerable_def all_components_alt list_all_iff)
  then show "elements_size (map Some values) = Some (length (elements_bytes (map Some values)))"
    "encodeElements (map Some values) = emits (elements_bytes (map Some values))"
    by (simp_all add: accessResult_size_eq(2) encodeAccessResult_emits(2))
qed

definition spec_names :: "VarAccessSpec \<Rightarrow> byte list" where
  "spec_names spec =
     (case vs_domainId spec of None \<Rightarrow> [] | Some d \<Rightarrow> tlv_bytes (0x1a, d)) @ tlv_bytes (0x1a, vs_itemId spec)"

lemma specificity_names: "specificityLength spec = length (spec_names spec)"
  by (simp add: specificityLength_def spec_names_def Let_def length_field split: option.split)

lemma spec_lengths:
  "variableListNameLength spec = length (tlv_bytes (t, spec_names spec))"
  "varAccessSpecLength spec = length (tlv_bytes (s, tlv_bytes (t, spec_names spec)))"
  "varAccessSpecSize spec = length (tlv_bytes (r, tlv_bytes (s, tlv_bytes (t, spec_names spec))))"
  by (simp_all add: varAccessSpecSize_def varAccessSpecLength_def variableListNameLength_def specificity_names
      length_field add.commute add.left_commute)

lemma spec_size: "varAccessSpecSize spec = length (spec_bytes (Some spec))"
  unfolding spec_bytes_def option.case spec_names_def [symmetric] by (rule spec_lengths(3))

lemma encodeVariableAccessSpecification_emits:
  assumes "vs_isNamedVariableList spec"
  shows "encodeVariableAccessSpecification spec = emits (spec_bytes (Some spec))"
proof -
  define t :: byte where "t = (if vs_specific spec = 0 then 0xa0 else if vs_specific spec = 1 then 0xa1 else 0xa2)"
  have b: "spec_bytes (Some spec) = tl_bytes 0xa0 (length (tlv_bytes (0xa1, tlv_bytes (t, spec_names spec)))) @
      tl_bytes 0xa1 (length (tlv_bytes (t, spec_names spec))) @ tl_bytes t (length (spec_names spec)) @ spec_names spec"
    by (simp add: spec_bytes_def spec_names_def t_def tlv_bytes_def)
  show ?thesis
    unfolding b spec_lengths(1) [where t = t, symmetric] spec_lengths(2) [where s = "0xa1" and t = t, symmetric]
      specificity_names [symmetric]
    using assms
    by (intro ext) (cases "vs_domainId spec"; simp add: encodeVariableAccessSpecification_def t_def enc_emits
        string_field spec_names_def tl_bytes_def)
qed

definition spec_named :: "VarAccessSpec option \<Rightarrow> bool" where
  "spec_named accessSpec = (case accessSpec of None \<Rightarrow> True | Some spec \<Rightarrow> vs_isNamedVariableList spec)"

lemma encodeReadResponse_eq:
  assumes "answerable values" and "spec_named accessSpec"
  shows "encodeReadResponse der connection invokeId response values accessSpec =
    (if int (length (read_pdu invokeId accessSpec values)) \<le> sc_maxPduSize connection
     then put_bytes (read_pdu invokeId accessSpec values) response
     else mmsServer_createConfirmedErrorPdu der invokeId response MMS_ERROR_SERVICE_OTHER)"
proof -
  define results where "results = elements_bytes (map Some values)"
  define content where "content = spec_bytes accessSpec @ tlv_bytes (0xa1, results)"
  define body where "body = tlv_bytes (0x02, uint32_bytes invokeId) @ tlv_bytes (0xa4, content)"
  note els = answerable_elements [OF assms(1), folded results_def]
  have spec: "(case accessSpec of None \<Rightarrow> 0 | Some spec \<Rightarrow> varAccessSpecSize spec) = length (spec_bytes accessSpec)"
    by (cases accessSpec) (simp_all add: spec_size, simp add: spec_bytes_def)
  have enc_spec: "(case accessSpec of None \<Rightarrow> Some w | Some spec \<Rightarrow> encodeVariableAccessSpecification spec w) =
      emits (spec_bytes accessSpec) w" for w
    using assms(2)
    by (cases accessSpec) (simp_all add: spec_named_def encodeVariableAccessSpecification_emits, simp add: spec_bytes_def)
  have c: "1 + BerEncoder_determineLengthSize (length results) + length results + length (spec_bytes accessSpec) =
      length content"
    by (simp add: content_def length_field)
  have b: "1 + BerEncoder_determineLengthSize (length content) + length content +
      (BerEncoder_UInt32determineEncodedSize invokeId + 2) = length body"
    by (simp add: body_def length_field [of "0xa4"] UInt32_size_eq length_uint32_field)
  have p: "1 + BerEncoder_determineLengthSize (length body) + length body = length (read_pdu invokeId accessSpec values)"
    by (simp add: read_pdu_def results_def [symmetric] content_def [symmetric] body_def [symmetric] length_field)
  have eq: "read_pdu invokeId accessSpec values = tl_bytes 0xa1 (length body) @ tl_bytes 0x02 (length (uint32_bytes invokeId)) @
      uint32_bytes invokeId @ tl_bytes 0xa4 (length content) @ spec_bytes accessSpec @ tl_bytes 0xa1 (length results) @ results"
    by (simp add: read_pdu_def results_def [symmetric] content_def [symmetric] body_def [symmetric] tlv_bytes_def
        body_def content_def)
  have put: "put_bytes (read_pdu invokeId accessSpec values) response = do {
      w \<leftarrow> BerEncoder_encodeTL 0xa1 (length body) (bb_buffer response, 0);
      w \<leftarrow> BerEncoder_encodeTL 0x02 (BerEncoder_UInt32determineEncodedSize invokeId + 2 - 2) w;
      w \<leftarrow> BerEncoder_encodeUInt32 invokeId w;
      w \<leftarrow> BerEncoder_encodeTL 0xa4 (length content) w;
      w \<leftarrow> emits (spec_bytes accessSpec) w;
      w \<leftarrow> BerEncoder_encodeTL 0xa1 (length results) w;
      (buffer, bufPos) \<leftarrow> emits results w;
      Some (response\<lparr>bb_buffer := buffer, bb_size := int bufPos\<rparr>)
    }"
    unfolding eq by (subst emits_put [symmetric]) (simp_all add: enc_emits els UInt32_size_eq tl_bytes_def)
  show ?thesis
    unfolding encodeReadResponse_def Let_def spec els bind.bind_lunit c b p enc_spec
    unfolding put by (simp add: not_le)
qed


section \<open>One answer for every variable\<close>

text \<open>What a client is to be told about a variable: its value, that there is no such object, or for a structure
  without value of its own the structure of the values of its elements.\<close>

definition object_missing :: MmsValue where
  "object_missing = MmsValue 1 (V_dataAccessError 10)"

definition variable_answer :: "get_value \<Rightarrow> MmsVariableSpecification \<Rightarrow> MmsDomain \<Rightarrow> cstring \<Rightarrow> MmsValue option" where
  "variable_answer getValue spec domain itemId = do {
     v \<leftarrow> addNamedVariableValue getValue spec domain itemId;
     Some (case v of None \<Rightarrow> object_missing | Some v \<Rightarrow> v)
   }"

definition named_answer :: "get_value \<Rightarrow> MmsDevice \<Rightarrow> cstring \<Rightarrow> cstring \<Rightarrow> MmsValue option" where
  "named_answer getValue device domainId itemId =
     (case domainPointer device domainId of
        None \<Rightarrow> Some object_missing
      | Some domain \<Rightarrow> do {
          d \<leftarrow> domain_at device domain;
          spec \<leftarrow> MmsDomain_getNamedVariable d itemId;
          (case spec of
             None \<Rightarrow> Some object_missing
           | Some spec \<Rightarrow> variable_answer getValue spec domain itemId)
        })"

lemma append_result: "appendErrorToResultList values 10 = values @ [object_missing]"
  "appendValueToResultList (Some v) values = values @ [v]"
  by (simp_all add: appendErrorToResultList_def appendValueToResultList_def object_missing_def
      MmsValue_newDataAccessError_def MmsValue_setDeletable_def)

text \<open>Only an array without value is left out of the results.\<close>

definition array_valued :: "get_value \<Rightarrow> MmsVariableSpecification \<Rightarrow> MmsDomain \<Rightarrow> cstring \<Rightarrow> bool" where
  "array_valued getValue spec domain itemId =
     (case typeSpec spec of T_array _ _ \<Rightarrow> getValue domain itemId \<noteq> Some None | _ \<Rightarrow> True)"

lemma addNamedVariable_answer:
  assumes "array_valued getValue spec domain itemId" and "variable_answer getValue spec domain itemId = Some v"
  shows "addNamedVariableToResultList junk getValue (Some spec) domain itemId values None = Some (values @ [v])"
proof -
  obtain n t where s: "spec = MmsVariableSpecification n t" by (cases spec)
  show ?thesis
    using assms
    by (cases t) (auto simp: s array_valued_def variable_answer_def addNamedVariableToResultList_def append_result
        addComplexValueToResultList_def split: option.splits bind_splits)
qed

text \<open>A request for variables by name.\<close>

definition name_identifier :: "cstring \<Rightarrow> Identifier" where
  "name_identifier name = (name, length name)"

definition short_name :: "cstring \<Rightarrow> bool" where
  "short_name name \<longleftrightarrow> length name < 65 \<and> 0 \<notin> set name"

definition variable_request :: "cstring \<times> cstring \<Rightarrow> VariableSpecification \<times> AlternateAccess option" where
  "variable_request = (\<lambda>(domainId, itemId).
     (VariableSpecification_name (ObjectName_domainspecific (name_identifier domainId) (name_identifier itemId)), None))"

lemma name_identifier_short: "short_name name \<Longrightarrow> mmsMsg_copyAsn1IdentifierToStringBuffer (name_identifier name) 65 = Some name"
  by (simp add: short_name_def name_identifier_def mmsMsg_copyAsn1IdentifierToStringBuffer_def rd_n_def takeWhile_nonzero)

text \<open>The names are short, and an array among the variables has a value.\<close>

definition answers_all :: "get_value \<Rightarrow> MmsDevice \<Rightarrow> cstring \<times> cstring \<Rightarrow> bool" where
  "answers_all getValue device = (\<lambda>(domainId, itemId). short_name domainId \<and> short_name itemId \<and>
     (case domainPointer device domainId of
        None \<Rightarrow> True
      | Some p \<Rightarrow>
          (case domain_at device p of
             None \<Rightarrow> True
           | Some d \<Rightarrow>
               (case MmsDomain_getNamedVariable d itemId of
                  Some (Some spec) \<Rightarrow> array_valued getValue spec p itemId
                | _ \<Rightarrow> True))))"

lemma readVariables_answers:
  assumes "list_all2 (\<lambda>(d, i) v. named_answer getValue device d i = Some v) names vs"
    and "list_all (answers_all getValue device) names"
  shows "readVariables_loop junk getValue device (map variable_request names) acc = Some (Some (acc @ vs))"
  using assms
proof (induction names vs arbitrary: acc rule: list_all2_induct)
  case (Cons n ns v vs)
  obtain d i where n: "n = (d, i)" by (cases n)
  have names: "short_name d" "short_name i" using Cons.prems by (auto simp: n answers_all_def)
  have "(case domainPointer device d of
       None \<Rightarrow> Some (appendErrorToResultList acc 10)
     | Some p \<Rightarrow> do {
         dom \<leftarrow> domain_at device p;
         namedVariable \<leftarrow> MmsDomain_getNamedVariable dom i;
         (case namedVariable of
            None \<Rightarrow> Some (appendErrorToResultList acc 10)
          | Some namedVariable \<Rightarrow>
              addNamedVariableToResultList junk getValue (Some namedVariable) p i acc None)
       }) = Some (acc @ [v])"
    using Cons.hyps(1) Cons.prems
    by (auto simp: n named_answer_def answers_all_def append_result addNamedVariable_answer
        split: option.splits bind_splits)
  then show ?case
    using Cons.IH [of "acc @ [v]"] Cons.prems by (simp add: n variable_request_def names name_identifier_short)
qed simp

text \<open>C10: A read of a list of variables is answered for every one of them in the order of the request, with its value,
  with a structure of the values of its elements, or with the error that there is no such object. The answer is
  written completely when it fits into the negotiated PDU size, which the response buffer must have; else the client is
  told of an error and nothing is written outside the buffer.\<close>

theorem read_in_order:
  assumes "getValue = (\<lambda>domain itemId. mmsServer_getValue readHandler (sv_valueCaches server) domain itemId self)"
    and "ber_decode buffer = Some \<lparr>rq_specificationWithResult = withResult, rq_variableAccessSpecification =
       VariableAccessSpecification_listOfVariable (map variable_request names)\<rparr>"
    and "list_all2 (\<lambda>(d, i) v. named_answer getValue (sv_device server) d i = Some v) names vs"
    and "list_all (answers_all getValue (sv_device server)) names"
    and "answerable vs" and "sc_maxPduSize connection \<le> int (length (bb_buffer response))"
  shows "if int (length (read_pdu invokeId None vs)) \<le> sc_maxPduSize connection
    then \<exists>r. mmsServer_handleReadRequest der ber_decode junk readHandler server self connection buffer invokeId response = Some r \<and>
      bb_content r = read_pdu invokeId None vs
    else mmsServer_handleReadRequest der ber_decode junk readHandler server self connection buffer invokeId response =
      mmsServer_createConfirmedErrorPdu der invokeId response MMS_ERROR_SERVICE_OTHER"
proof -
  have "mmsServer_handleReadRequest der ber_decode junk readHandler server self connection buffer invokeId response =
      encodeReadResponse der connection invokeId response vs None"
    using readVariables_answers [OF assms(3,4), of junk "[]"]
    by (simp add: mmsServer_handleReadRequest_def Let_def assms(1,2) handleReadListOfVariablesRequest_def)
  with encodeReadResponse_eq [OF assms(5), of None der connection invokeId response] assms(6) show ?thesis
    by (auto simp: spec_named_def put_bytes_def bb_content_def)
qed

definition demo_device :: MmsDevice where
  "demo_device = (MmsDevice_create None)\<lparr>dv_domains := [(MmsDomain_create [0x44])\<lparr>md_namedVariables :=
     Some [MmsVariableSpecification (Some [0x78]) T_boolean,
       MmsVariableSpecification (Some [0x61]) (T_array 2 (MmsVariableSpecification None T_boolean))]\<rparr>]\<rparr>"

definition read_server :: sMmsServer where
  "read_server = \<lparr>sv_vmdLogicalStatus = 0, sv_vmdPhysicalStatus = 0, sv_vendorName = None, sv_modelName = None,
     sv_revision = None, sv_device = demo_device, sv_valueCaches = [(0, \<lparr>vc_domain = dv_domains demo_device ! 0,
       vc_map = [([0x78], MmsValue 0 (V_boolean True)),
         ([0x61], MmsValue 0 (V_array [Some (MmsValue 0 (V_boolean True)), Some (MmsValue 0 (V_boolean False))]))]\<rparr>)]\<rparr>"

definition demo_request :: "byte list \<Rightarrow> ReadRequest option" where
  "demo_request buffer = Some \<lparr>rq_specificationWithResult = None, rq_variableAccessSpecification =
     VariableAccessSpecification_listOfVariable (map variable_request [([0x44], [0x78]), ([0x44], [0x79])])\<rparr>"

lemma demo_answers:
  defines "getValue \<equiv> (\<lambda>domain itemId. mmsServer_getValue None (sv_valueCaches read_server) domain itemId 0)"
  shows "list_all2 (\<lambda>(d, i) v. named_answer getValue (sv_device read_server) d i = Some v)
      [([0x44], [0x78]), ([0x44], [0x79])] [MmsValue 0 (V_boolean True), object_missing]"
    and "list_all (answers_all getValue (sv_device read_server)) [([0x44], [0x78]), ([0x44], [0x79])]"
  by (simp_all add: named_answer_def answers_all_def getValue_def read_server_def demo_device_def MmsDevice_create_def
      MmsDomain_create_def copyString_def domainPointer_def domain_at_def MmsDomain_getNamedVariable_def splitName_def
      variable_answer_def mmsServer_getValue_def MmsServer_getValueFromCache_def MmsValueCache_lookupValue_def
      short_name_def array_valued_def)

theorem read_in_order_witness:
  "\<exists>r. mmsServer_handleReadRequest (\<lambda>_. []) demo_request (\<lambda>_. 0) None read_server 0
      (MmsServerConnection_init\<lparr>sc_maxPduSize := 50\<rparr>) [] 7 (ByteBuffer_create 50) = Some r \<and>
    bb_content r = [0xa1, 13, 0x02, 1, 7, 0xa4, 8, 0xa1, 6, 0x83, 1, 0xff, 0x80, 1, 10]"
proof -
  have bytes: "uint32_bytes 7 = [7]" "uint32_bytes 10 = [10]" by code_simp+
  have pdu: "read_pdu 7 None [MmsValue 0 (V_boolean True), object_missing] =
      [0xa1, 13, 0x02, 1, 7, 0xa4, 8, 0xa1, 6, 0x83, 1, 0xff, 0x80, 1, 10]"
    by (simp add: read_pdu_def spec_bytes_def object_missing_def tlv_bytes_def tl_bytes_small bytes)
  have "answerable [MmsValue 0 (V_boolean True), object_missing]"
    by (simp add: answerable_def object_missing_def)
  from read_in_order [where connection = "MmsServerConnection_init\<lparr>sc_maxPduSize := 50\<rparr>" and
      response = "ByteBuffer_create 50" and invokeId = 7 and der = "\<lambda>_. []" and junk = "\<lambda>_. 0" and buffer = "[]",
      OF refl demo_request_def demo_answers this]
  show ?thesis unfolding pdu by (simp add: ByteBuffer_create_def)
qed


section \<open>Structures\<close>

text \<open>Where the values of a variable come from: a value of the type of the description, or for a structure without
  one, values for all its elements.\<close>

fun typed_source :: "get_value \<Rightarrow> MmsVariableSpecification \<Rightarrow> MmsDomain \<Rightarrow> cstring \<Rightarrow> bool" where
  "typed_source getValue (MmsVariableSpecification n t) domain itemId \<longleftrightarrow>
     (case getValue domain itemId of
        None \<Rightarrow> False
      | Some (Some v) \<Rightarrow> mms_wf v \<and> conforms (MmsVariableSpecification n t) v
      | Some None \<Rightarrow>
          (case t of
             T_structure es \<Rightarrow> list_all (\<lambda>e. case spec_name e of
                 None \<Rightarrow> False
               | Some name \<Rightarrow> typed_source getValue e domain (joined itemId name)) es
           | _ \<Rightarrow> False))"

lemma componentValues_set:
  assumes "\<And>e. e \<in> set es \<Longrightarrow> \<exists>name. spec_name e = Some name \<and>
      addNamedVariableValue getValue e domain (joined itemId name) = Some (f e)"
    and "k + length es \<le> length cs"
  shows "componentValues_loop getValue es (int k) (MmsValue d (V_structure cs)) domain itemId =
    Some (MmsValue d (V_structure (take k cs @ map f es @ drop (k + length es) cs)))"
  using assms
proof (induction es arbitrary: k cs)
  case (Cons e es)
  obtain name where n: "spec_name e = Some name"
      "addNamedVariableValue getValue e domain (joined itemId name) = Some (f e)"
    using Cons.prems(1) by auto
  have j: "createString [itemId, lit ''$'', name] = joined itemId name"
    by (simp add: createString_def joined_def lit_def)
  have s: "MmsValue_setElement (MmsValue d (V_structure cs)) (int k) (f e) = MmsValue d (V_structure (cs[k := f e]))"
    using Cons.prems(2) by (simp add: MmsValue_setElement_def set_union_def)
  have u: "take (Suc k) (cs[k := f e]) = take k cs @ [f e]" using Cons.prems(2) by (simp add: take_Suc_conv_app_nth)
  have "componentValues_loop getValue es (int (Suc k)) (MmsValue d (V_structure (cs[k := f e]))) domain itemId =
      Some (MmsValue d (V_structure (take (Suc k) (cs[k := f e]) @ map f es @ drop (Suc k + length es) (cs[k := f e]))))"
    using Cons.prems by (intro Cons.IH) auto
  then show ?case unfolding u by (simp add: n j s add.commute)
qed simp

lemma structure_value:
  assumes "getValue domain itemId = Some None"
    and "\<And>e. e \<in> set es \<Longrightarrow> \<exists>name. spec_name e = Some name \<and>
      addNamedVariableValue getValue e domain (joined itemId name) = Some (f e)"
  shows "addNamedVariableValue getValue (MmsVariableSpecification n (T_structure es)) domain itemId =
    Some (Some (MmsValue 1 (V_structure (map f es))))"
  using componentValues_set [of es getValue domain itemId f 0 "replicate (length es) None" 1] assms
  by (simp add: MmsValue_createEmptyStructure_def MmsValue_setDeletable_def)

text \<open>C38: Reading a variable whose values have the types of their descriptions gives a well-formed value of the type of
  the variable's description; for a structure without value of its own, the value has for every element what reading
  the element by its name gives.\<close>

theorem read_structure_typed:
  assumes "typed_source getValue spec domain itemId"
  shows "\<exists>v. addNamedVariableValue getValue spec domain itemId = Some (Some v) \<and> mms_wf v \<and> conforms spec v \<and>
    (getValue domain itemId = Some None \<longrightarrow> (\<exists>es. typeSpec spec = T_structure es \<and>
      (\<forall>i < length es. \<exists>name. spec_name (es ! i) = Some name \<and>
        addNamedVariableValue getValue (es ! i) domain (joined itemId name) = Some (MmsValue_getElement v (int i)))))"
  using assms
proof (induction getValue spec domain itemId rule: typed_source.induct)
  case (1 getValue n t domain itemId)
  show ?case
  proof (cases "getValue domain itemId = Some None")
    case False
    with 1(2) show ?thesis by (cases t) (auto split: option.splits)
  next
    case True
    then obtain es where t: "t = T_structure es"
        "list_all (\<lambda>e. case spec_name e of None \<Rightarrow> False | Some name \<Rightarrow> typed_source getValue e domain (joined itemId name)) es"
      using 1(2) by (auto split: MmsTypeSpecification.splits)
    define f where "f e = the (addNamedVariableValue getValue e domain (joined itemId (the (spec_name e))))" for e
    have f: "\<exists>name v. spec_name e = Some name \<and> addNamedVariableValue getValue e domain (joined itemId name) = Some (f e) \<and>
        f e = Some v \<and> mms_wf v \<and> conforms e v" if "e \<in> set es" for e
    proof -
      have "case spec_name e of None \<Rightarrow> False | Some name \<Rightarrow> typed_source getValue e domain (joined itemId name)"
        using t(2) that unfolding list_all_iff by (rule bspec)
      then obtain name where n: "spec_name e = Some name" "typed_source getValue e domain (joined itemId name)"
        by (cases "spec_name e") simp_all
      from 1(1) [OF True _ t(1) that n] show ?thesis by (auto simp: f_def n)
    qed
    have "addNamedVariableValue getValue (MmsVariableSpecification n t) domain itemId =
        Some (Some (MmsValue 1 (V_structure (map f es))))"
      unfolding t(1) by (rule structure_value) (use True f in blast)+
    moreover have "mms_wf (MmsValue 1 (V_structure (map f es)))"
      using f by (auto simp: all_components_alt)
    moreover have "conforms (MmsVariableSpecification n t) (MmsValue 1 (V_structure (map f es)))"
      using f by (fastforce simp: t(1) list_all2_conv_all_nth dest: nth_mem)
    moreover have "\<exists>name. spec_name (es ! i) = Some name \<and>
        addNamedVariableValue getValue (es ! i) domain (joined itemId name) =
          Some (MmsValue_getElement (MmsValue 1 (V_structure (map f es))) (int i))" if "i < length es" for i
      using f [OF nth_mem [OF that]] that by (auto simp: MmsValue_getElement_def components_def)
    ultimately show ?thesis using t(1) by (intro exI [of _ "MmsValue 1 (V_structure (map f es))"]) simp
  qed
qed

definition element_source :: get_value where
  "element_source domain itemId = Some (
     if itemId = joined [0x4d] [0x61] then Some (MmsValue 0 (V_boolean True))
     else if itemId = joined [0x4d] [0x62] then Some (MmsValue 0 (V_visibleString (Some []))) else None)"

definition two_elements :: MmsVariableSpecification where
  "two_elements = MmsVariableSpecification (Some [0x4d]) (T_structure
     [MmsVariableSpecification (Some [0x61]) T_boolean, MmsVariableSpecification (Some [0x62]) (T_visibleString 20)])"

theorem read_structure_typed_witness:
  "\<exists>v. addNamedVariableValue element_source two_elements 0 [0x4d] = Some (Some v) \<and> mms_wf v \<and> conforms two_elements v \<and>
    MmsValue_getElement v 0 = Some (MmsValue 0 (V_boolean True))"
proof -
  have source: "typed_source element_source two_elements 0 [0x4d]"
    by (simp add: two_elements_def element_source_def joined_def)
  have "element_source 0 [0x4d] = Some None" by (simp add: element_source_def joined_def)
  note read_structure_typed [OF source, unfolded this]
  then obtain v es where v: "addNamedVariableValue element_source two_elements 0 [0x4d] = Some (Some v)" "mms_wf v"
      "conforms two_elements v" "typeSpec two_elements = T_structure es"
      "\<forall>i < length es. \<exists>name. spec_name (es ! i) = Some name \<and>
        addNamedVariableValue element_source (es ! i) 0 (joined [0x4d] name) = Some (MmsValue_getElement v (int i))"
    by auto
  then have "MmsValue_getElement v 0 = Some (MmsValue 0 (V_boolean True))"
    by (auto simp: two_elements_def element_source_def dest!: spec [of _ 0])
  with v(1-3) show ?thesis by blast
qed


section \<open>Ranges of arrays\<close>

lemma range_loop_outside:
  "index \<le> j \<Longrightarrow> j < stop \<Longrightarrow> MmsValue_getElement arrayValue j = None \<Longrightarrow>
   range_loop junk arrayValue index stop resultIndex v = None"
proof (induction junk arrayValue index stop resultIndex v rule: range_loop.induct)
  case (1 junk arrayValue index stop resultIndex v)
  show ?case
  proof (cases "MmsValue_getElement arrayValue index")
    case None
    with 1 show ?thesis by (simp add: range_loop.simps [of junk arrayValue index])
  next
    case (Some e)
    with 1(2-4) have "index + 1 \<le> j" "index < stop" by (auto simp: order.order_iff_strict)
    with 1 Some show ?thesis by (auto simp: range_loop.simps [of junk arrayValue index] split: bind_splits if_splits)
  qed
qed

definition range_request :: "cstring \<Rightarrow> cstring \<Rightarrow> int \<Rightarrow> int \<Rightarrow> VariableSpecification \<times> AlternateAccess option" where
  "range_request domainId itemId lowIndex number =
     (VariableSpecification_name (ObjectName_domainspecific (name_identifier domainId) (name_identifier itemId)),
      Some [\<lparr>am_unnamed = True, am_selectAccess = selectAccess_indexRange lowIndex number, am_accessIndex = lowIndex,
        am_alternateAccess = None\<rparr>])"

text \<open>A read of a range of an array that reaches beyond its last element has undefined behaviour, whatever the rest of
  the request is: the missing element is a null pointer that is followed.\<close>

theorem read_range_undefined:
  assumes "short_name domainId" and "short_name itemId"
    and "domainPointer (sv_device server) domainId = Some p" and "domain_at (sv_device server) p = Some d"
    and "MmsDomain_getNamedVariable d itemId = Some (Some (MmsVariableSpecification n (T_array m e)))"
    and "mmsServer_getValue readHandler (sv_valueCaches server) p itemId self = Some (Some (MmsValue f (V_array cs)))"
    and "0 < number" and "0 \<le> lowIndex" and "int (length cs) < lowIndex + number"
    and "ber_decode buffer = Some \<lparr>rq_specificationWithResult = withResult, rq_variableAccessSpecification =
       VariableAccessSpecification_listOfVariable (range_request domainId itemId lowIndex number # rest)\<rparr>"
  shows "mmsServer_handleReadRequest der ber_decode junk readHandler server self connection buffer invokeId response = None"
proof -
  have "MmsValue_getElement (MmsValue f (V_array cs)) (max lowIndex (int (length cs))) = None"
    by (simp add: MmsValue_getElement_def components_def)
  moreover have "max lowIndex (int (length cs)) < lowIndex + number" using assms(7-9) by simp
  ultimately have "range_loop junk (MmsValue f (V_array cs)) lowIndex (lowIndex + number) 0 v = None" for v
    by (intro range_loop_outside [of lowIndex "max lowIndex (int (length cs))"]) simp_all
  then have "stop = lowIndex + number \<Longrightarrow> range_loop junk (MmsValue f (V_array cs)) lowIndex stop 0 v = None" for v stop
    by simp
  then show ?thesis
    using assms(7)
    by (auto simp: mmsServer_handleReadRequest_def Let_def assms(10) handleReadListOfVariablesRequest_def range_request_def
        name_identifier_short assms(1-6) addNamedVariableToResultList_def alternateArrayAccess_def
        mmsServer_isIndexAccess_def mmsServer_getLowIndex_def mmsServer_getNumberOfElements_def firstMember_def
        add_int_def chk_int_def split: bind_splits if_splits)
qed

theorem read_range_undefined_witness:
  "mmsServer_handleReadRequest (\<lambda>_. []) (\<lambda>_. Some \<lparr>rq_specificationWithResult = None, rq_variableAccessSpecification =
       VariableAccessSpecification_listOfVariable [range_request [0x44] [0x61] 1 2]\<rparr>) (\<lambda>_. 0) None read_server 0
     MmsServerConnection_init [] 7 (ByteBuffer_create 50) = None"
  by (rule read_range_undefined [where p = 0 and d = "dv_domains demo_device ! 0" and f = 0 and
      cs = "[Some (MmsValue 0 (V_boolean True)), Some (MmsValue 0 (V_boolean False))]"])
    (simp_all add: read_server_def demo_device_def MmsDevice_create_def MmsDomain_create_def copyString_def short_name_def
      domainPointer_def domain_at_def MmsDomain_getNamedVariable_def splitName_def mmsServer_getValue_def
      MmsServer_getValueFromCache_def MmsValueCache_lookupValue_def)

end
