(* ===== verification/Mms_Write.thy ===== *)
theory Mms_Write
  imports Mms_Read
begin

text \<open>
  The write service (\<open>src/src/mms/iso_mms/server/mms_write_service.c\<close>) and the writing of values of
  \<open>mms_server.c\<close>.

  A value found in a cache is changed in place; the model puts the new value where the search found the
  old one. The handler of the application for writes is a parameter; it may change the server.
\<close>

section \<open>Changing values of a cache\<close>

text \<open>The new value in the place of the one \<open>MmsVariableSpecification_getChildValue\<close> finds.\<close>

function replaceChildValue :: "MmsVariableSpecification \<Rightarrow> MmsValue \<Rightarrow> cstring \<Rightarrow> MmsValue \<Rightarrow> MmsValue"
  and replaceChild_loop :: "MmsVariableSpecification list \<Rightarrow> nat \<Rightarrow> MmsValue \<Rightarrow> cstring \<Rightarrow> MmsValue \<Rightarrow> MmsValue"
where
  "replaceChildValue (MmsVariableSpecification _ t) v childId new =
     (case t of
        T_structure elements \<Rightarrow> replaceChild_loop elements 0 v childId new
      | _ \<Rightarrow> v)"
| "replaceChild_loop [] i v childId new = v"
| "replaceChild_loop (e # elements) i v childId new =
     (let childLen = directChildStrLen childId
      in case spec_name e of
           None \<Rightarrow> v
         | Some name \<Rightarrow>
             if length name = childLen \<and> name = take childLen childId then
               (case component_at (Some v) i of
                  Some (Some c) \<Rightarrow>
                    MmsValue_setElement v (int i)
                      (Some (if childLen = length childId then new
                             else replaceChildValue e c (drop (childLen + 1) childId) new))
                | _ \<Rightarrow> v)
             else replaceChild_loop elements (i + 1) v childId new)"
  by pat_completeness auto
termination
  by (relation "measure (\<lambda>x. case x of Inl (s, _) \<Rightarrow> size s | Inr (es, _) \<Rightarrow> size_list size es)")
    auto

text \<open>The first entry with the key.\<close>

fun setEntry :: "(cstring \<times> MmsValue) list \<Rightarrow> cstring \<Rightarrow> MmsValue \<Rightarrow> (cstring \<times> MmsValue) list" where
  "setEntry [] key v = []"
| "setEntry ((k, w) # entries) key v =
     (if k = key then (k, v) # entries else (k, w) # setEntry entries key v)"

text \<open>In the order of \<open>searchCacheForValue\<close>.\<close>

function storeInParent :: "sMmsValueCache \<Rightarrow> cstring \<Rightarrow> cstring \<Rightarrow> MmsValue \<Rightarrow> sMmsValueCache" where
  "storeInParent self itemId parentId new =
     (case map_of (vc_map self) parentId of
        None \<Rightarrow>
          (case getParentSubString parentId of
             Some parentItemId \<Rightarrow> storeInParent self itemId parentItemId new
           | None \<Rightarrow> self)
      | Some v \<Rightarrow>
          (case MmsDomain_getNamedVariable (vc_domain self) parentId of
             Some (Some spec) \<Rightarrow> self\<lparr>vc_map := setEntry (vc_map self) parentId
               (replaceChildValue spec v (getChildSubString itemId parentId) new)\<rparr>
           | _ \<Rightarrow> self))"
  by pat_completeness auto
termination
  by (relation "measure (\<lambda>(self, itemId, parentId, new). length parentId)")
    (auto dest: getParentSubString_shorter)

declare storeInParent.simps [simp del]

definition storeInCache :: "sMmsValueCache \<Rightarrow> cstring \<Rightarrow> MmsValue \<Rightarrow> sMmsValueCache" where
  "storeInCache self itemId new =
     (case map_of (vc_map self) itemId of
        Some _ \<Rightarrow> self\<lparr>vc_map := setEntry (vc_map self) itemId new\<rparr>
      | None \<Rightarrow>
          (case getParentSubString itemId of
             Some parentItemId \<Rightarrow> storeInParent self itemId parentItemId new
           | None \<Rightarrow> self))"

definition store_value :: "sMmsServer \<Rightarrow> MmsDomain \<Rightarrow> cstring \<Rightarrow> MmsValue \<Rightarrow> sMmsServer" where
  "store_value self domain itemId new =
     self\<lparr>sv_valueCaches := map (\<lambda>(p, c). (p, if p = domain then storeInCache c itemId new else c)) (sv_valueCaches self)\<rparr>"

type_synonym write_handler =
  "MmsDomain \<Rightarrow> cstring \<Rightarrow> MmsValue \<Rightarrow> MmsServerConnection \<Rightarrow> sMmsServer \<Rightarrow> MmsDataAccessError \<times> sMmsServer"

definition mmsServer_setValue ::
  "write_handler option \<Rightarrow> sMmsServer \<Rightarrow> MmsDomain \<Rightarrow> cstring \<Rightarrow> MmsValue \<Rightarrow> MmsServerConnection \<Rightarrow>
   (MmsDataAccessError \<times> sMmsServer) option" where
  "mmsServer_setValue writeHandler self domain itemId v connection =
     (case writeHandler of
        Some h \<Rightarrow> Some (h domain itemId v connection self)
      | None \<Rightarrow> do {
          cachedValue \<leftarrow> MmsServer_getValueFromCache (sv_valueCaches self) domain itemId;
          (case cachedValue of
             None \<Rightarrow> Some (DATA_ACCESS_ERROR_OBJECT_VALUE_INVALID, self)
           | Some cachedValue \<Rightarrow> do {
               (_, cachedValue) \<leftarrow> MmsValue_update cachedValue v;
               Some (DATA_ACCESS_ERROR_SUCCESS, store_value self domain itemId cachedValue)
             })
        })"


section \<open>Write requests\<close>

definition CONFIG_MMS_WRITE_SERVICE_MAX_NUMBER_OF_WRITE_ITEMS :: nat where
  "CONFIG_MMS_WRITE_SERVICE_MAX_NUMBER_OF_WRITE_ITEMS = 100"

record WriteRequest =
  wq_variableAccessSpecification :: VariableAccessSpecification
  wq_listOfData :: "Data list"

definition accessResult_member :: "MmsDataAccessError \<Rightarrow> MmsDataAccessError option" where
  "accessResult_member accessResult = (if accessResult = DATA_ACCESS_ERROR_SUCCESS then None else Some accessResult)"

definition mmsServer_createMmsWriteResponse ::
  "der_encode \<Rightarrow> u32 \<Rightarrow> ByteBuffer \<Rightarrow> MmsDataAccessError list \<Rightarrow> ByteBuffer option" where
  "mmsServer_createMmsWriteResponse der invokeId response accessResults =
     write_pieces (der (writeResponse invokeId (map accessResult_member accessResults))) response"

text \<open>The message that is sent.\<close>

definition MmsServerConnection_sendWriteResponse ::
  "der_encode \<Rightarrow> sMmsServerConnection \<Rightarrow> u32 \<Rightarrow> MmsDataAccessError \<Rightarrow> ByteBuffer option" where
  "MmsServerConnection_sendWriteResponse der self invokeId indication =
     mmsServer_createMmsWriteResponse der invokeId (ByteBuffer_create (sc_maxPduSize self)) [indication]"

text \<open>An element of an array that is written directly into the cache.\<close>

definition writeArrayElement ::
  "sMmsServer \<Rightarrow> MmsDomain \<Rightarrow> cstring \<Rightarrow> AlternateAccess \<Rightarrow> MmsValue \<Rightarrow> (MmsDataAccessError \<times> sMmsServer) option" where
  "writeArrayElement server domain nameIdStr alternateAccess v = do {
     cachedArray \<leftarrow> MmsServer_getValueFromCache (sv_valueCaches server) domain nameIdStr;
     (case cachedArray of
        None \<Rightarrow> Some (DATA_ACCESS_ERROR_OBJECT_ATTRIBUTE_INCONSISTENT, server)
      | Some cachedArray \<Rightarrow> do {
          index \<leftarrow> mmsServer_getLowIndex alternateAccess;
          (case MmsValue_getElement cachedArray index of
             None \<Rightarrow> Some (DATA_ACCESS_ERROR_OBJECT_ATTRIBUTE_INCONSISTENT, server)
           | Some elementValue \<Rightarrow> do {
               (r, elementValue) \<leftarrow> MmsValue_update elementValue v;
               Some (if r then DATA_ACCESS_ERROR_SUCCESS else DATA_ACCESS_ERROR_TYPE_INCONSISTENT,
                 store_value server domain nameIdStr (MmsValue_setElement cachedArray index (Some elementValue)))
             })
        })
   }"

text \<open>One round of the loop: the result for the item and the server.\<close>

definition writeItem ::
  "write_handler option \<Rightarrow> sMmsServer \<Rightarrow> MmsServerConnection \<Rightarrow> VariableSpecification \<times> AlternateAccess option \<Rightarrow> Data \<Rightarrow>
   (MmsDataAccessError \<times> sMmsServer) option" where
  "writeItem writeHandler server self varSpec dataElement =
     (case fst varSpec of
        VariableSpecification_name (ObjectName_domainspecific domainId nameId) \<Rightarrow> do {
          domainIdStr \<leftarrow> createStringFromBuffer (fst domainId) (snd domainId);
          (case domainPointer (sv_device server) domainIdStr of
             None \<Rightarrow> Some (DATA_ACCESS_ERROR_OBJECT_NONE_EXISTENT, server)
           | Some domain \<Rightarrow> do {
               nameIdStr \<leftarrow> createStringFromBuffer (fst nameId) (snd nameId);
               d \<leftarrow> domain_at (sv_device server) domain;
               variable \<leftarrow> MmsDomain_getNamedVariable d nameIdStr;
               (case variable of
                  None \<Rightarrow> Some (DATA_ACCESS_ERROR_OBJECT_NONE_EXISTENT, server)
                | Some variable \<Rightarrow> do {
                    refused \<leftarrow>
                      (case snd varSpec of
                         None \<Rightarrow> Some None
                       | Some alternateAccess \<Rightarrow>
                           (case typeSpec variable of
                              T_array _ _ \<Rightarrow> do {
                                indexAccess \<leftarrow> mmsServer_isIndexAccess alternateAccess;
                                Some (if indexAccess then None else Some DATA_ACCESS_ERROR_OBJECT_ACCESS_UNSUPPORTED)
                              }
                            | _ \<Rightarrow> Some (Some DATA_ACCESS_ERROR_OBJECT_ATTRIBUTE_INCONSISTENT)));
                    (case refused of
                       Some e \<Rightarrow> Some (e, server)
                     | None \<Rightarrow> do {
                         v \<leftarrow> mmsMsg_parseDataElement dataElement;
                         (case v of
                            None \<Rightarrow> Some (DATA_ACCESS_ERROR_OBJECT_ATTRIBUTE_INCONSISTENT, server)
                          | Some v \<Rightarrow>
                              (case snd varSpec of
                                 Some alternateAccess \<Rightarrow> writeArrayElement server domain nameIdStr alternateAccess v
                               | None \<Rightarrow> mmsServer_setValue writeHandler server domain nameIdStr v self))
                       })
                  })
             })
        }
      | _ \<Rightarrow> Some (DATA_ACCESS_ERROR_OBJECT_ACCESS_UNSUPPORTED, server))"

fun writeItems_loop ::
  "write_handler option \<Rightarrow> sMmsServer \<Rightarrow> MmsServerConnection \<Rightarrow> (VariableSpecification \<times> AlternateAccess option) list \<Rightarrow>
   Data list \<Rightarrow> (MmsDataAccessError list \<times> sMmsServer) option" where
  "writeItems_loop writeHandler server self (varSpec # varSpecs) (dataElement # listOfData) = do {
     (accessResult, server) \<leftarrow> writeItem writeHandler server self varSpec dataElement;
     (accessResults, server) \<leftarrow> writeItems_loop writeHandler server self varSpecs listOfData;
     Some (accessResult # accessResults, server)
   }"
| "writeItems_loop writeHandler server self varSpecs listOfData = Some ([], server)"

text \<open>The request is read as a list of variables, whatever it is. The response is sent later if one
  of the results is to come later.\<close>

definition mmsServer_handleWriteRequest ::
  "der_encode \<Rightarrow> (byte list \<Rightarrow> WriteRequest option) \<Rightarrow> write_handler option \<Rightarrow> sMmsServer \<Rightarrow> MmsServerConnection \<Rightarrow>
   byte list \<Rightarrow> u32 \<Rightarrow> ByteBuffer \<Rightarrow> (ByteBuffer \<times> sMmsServer) option" where
  "mmsServer_handleWriteRequest der ber_decode writeHandler server self buffer invokeId response =
     (let reject = (\<lambda>reason. map_option (\<lambda>r. (r, server)) (mmsServer_writeMmsRejectPdu der (Some invokeId) reason response))
      in case ber_decode buffer of
           None \<Rightarrow> reject MMS_ERROR_REJECT_INVALID_PDU
         | Some writeRequest \<Rightarrow>
             (case wq_variableAccessSpecification writeRequest of
                VariableAccessSpecification_listOfVariable listOfVariable \<Rightarrow>
                  if length listOfVariable < 1 then reject MMS_ERROR_REJECT_REQUEST_INVALID_ARGUMENT
                  else if length listOfVariable > CONFIG_MMS_WRITE_SERVICE_MAX_NUMBER_OF_WRITE_ITEMS
                  then reject MMS_ERROR_REJECT_OTHER
                  else if length (wq_listOfData writeRequest) \<noteq> length listOfVariable
                  then reject MMS_ERROR_REJECT_REQUEST_INVALID_ARGUMENT
                  else do {
                    (accessResults, server) \<leftarrow>
                      writeItems_loop writeHandler server self listOfVariable (wq_listOfData writeRequest);
                    if DATA_ACCESS_ERROR_NO_RESPONSE \<in> set accessResults then Some (response, server)
                    else do {
                      response \<leftarrow> mmsServer_createMmsWriteResponse der invokeId response accessResults;
                      Some (response, server)
                    }
                  }
              | _ \<Rightarrow> None))"


section \<open>What a cache holds after a write\<close>

lemma component_set:
  "component_at (Some v) i = Some c \<Longrightarrow> component_at (Some (MmsValue_setElement v (int i) x)) i = Some x"
  by (cases v; cases "mv_value v")
    (auto simp: component_at_def components_def MmsValue_setElement_def set_union_def split: if_splits)

lemma getChildValue_null:
  "getChildValue_loop es i None p \<noteq> Some (Some w)"
  "MmsVariableSpecification_getChildValue e None p \<noteq> Some (Some w)"
proof -
  show loop: "getChildValue_loop es i None p \<noteq> Some (Some w)" for es i
    by (induction es arbitrary: i) (auto simp: component_at_def Let_def split: bind_splits)
  show "MmsVariableSpecification_getChildValue e None p \<noteq> Some (Some w)"
    using loop by (cases e; cases "typeSpec e") auto
qed

lemma replaceChildValue_found:
  "MmsVariableSpecification_getChildValue spec (Some v) p = Some (Some w) \<Longrightarrow>
     MmsVariableSpecification_getChildValue spec (Some (replaceChildValue spec v p new)) p = Some (Some new)"
  "getChildValue_loop es i (Some v) p = Some (Some w) \<Longrightarrow>
     getChildValue_loop es i (Some (replaceChild_loop es i v p new)) p = Some (Some new)"
proof (induction spec v p new and es i v p new rule: replaceChildValue_replaceChild_loop.induct)
  case (1 n t v p new)
  then show ?case by (cases t) auto
next
  case (3 e es i v p new)
  obtain name where n: "spec_name e = Some name" using 3(3) by (auto split: bind_splits)
  show ?case
  proof (cases "length name = directChildStrLen p \<and> name = take (directChildStrLen p) p")
    case False
    then have "getChildValue_loop (e # es) i u p = getChildValue_loop es (i + 1) u p" for u
      by (auto simp: n Let_def)
    moreover have "replaceChild_loop (e # es) i v p new = replaceChild_loop es (i + 1) v p new"
      using False by (auto simp: n Let_def)
    ultimately show ?thesis using 3(2) [OF refl n False] 3(3) by simp
  next
    case True
    with 3(3) obtain c where c: "component_at (Some v) i = Some c"
      by (auto simp: n Let_def split: bind_splits)
    obtain c' where c': "c = Some c'"
      using 3(3) True c getChildValue_null(2) [of e] by (cases c) (auto simp: n Let_def split: if_splits)
    show ?thesis
    proof (cases "directChildStrLen p = length p")
      case last: True
      with True c c' component_set [OF c, of "Some new"] show ?thesis by (simp add: n Let_def)
    next
      case inner: False
      have m: "min (length p) (directChildStrLen p) = directChildStrLen p" using True by (metis length_take)
      have "MmsVariableSpecification_getChildValue e (Some c') (drop (directChildStrLen p + 1) p) = Some (Some w)"
        using 3(3) True c c' inner m by (auto simp: n Let_def)
      from 3(1) [OF refl n True c _ inner this] c' component_set [OF c] show ?thesis
        using True inner c m by (auto simp: n Let_def)
    qed
  qed
qed simp

lemma setEntry_lookup:
  "map_of (setEntry entries key v) k = (if k = key \<and> map_of entries k \<noteq> None then Some v else map_of entries k)"
  by (induction entries key v rule: setEntry.induct) auto

lemma storeInParent_keys:
  "map_of (vc_map (storeInParent self itemId parentId new)) k = None \<longleftrightarrow> map_of (vc_map self) k = None"
  "vc_domain (storeInParent self itemId parentId new) = vc_domain self"
proof (induction self itemId parentId new rule: storeInParent.induct)
  case (1 self itemId parentId new)
  {
    case 1
    then show ?case using "1.IH"
      by (subst storeInParent.simps) (auto simp: setEntry_lookup split: option.splits)
  next
    case 2
    then show ?case using "1.IH"
      by (subst storeInParent.simps) (auto split: option.splits)
  }
qed

lemma storeInParent_found:
  "searchCacheForValue self itemId parentId = Some (Some w) \<Longrightarrow>
   searchCacheForValue (storeInParent self itemId parentId new) itemId parentId = Some (Some new)"
proof (induction self itemId parentId new rule: storeInParent.induct)
  case (1 self itemId parentId new)
  show ?case
  proof (cases "map_of (vc_map self) parentId")
    case None
    then obtain p where p: "getParentSubString parentId = Some p" "searchCacheForValue self itemId p = Some (Some w)"
      using 1(2) by (auto simp: searchCacheForValue.simps [of self itemId parentId] split: option.splits)
    have s: "storeInParent self itemId parentId new = storeInParent self itemId p new"
      by (simp add: storeInParent.simps [of self itemId parentId] None p)
    have "map_of (vc_map (storeInParent self itemId p new)) parentId = None"
      using None by (simp add: storeInParent_keys)
    with 1(1) [OF None p] show ?thesis
      unfolding s by (subst searchCacheForValue.simps) (simp add: p)
  next
    case (Some v)
    then obtain spec where spec: "MmsDomain_getNamedVariable (vc_domain self) parentId = Some (Some spec)"
        "MmsVariableSpecification_getChildValue spec (Some v) (getChildSubString itemId parentId) = Some (Some w)"
      using 1(2) by (auto simp: searchCacheForValue.simps [of self itemId parentId] split: bind_splits)
    show ?thesis
      by (subst storeInParent.simps) (simp add: Some spec searchCacheForValue.simps setEntry_lookup
          replaceChildValue_found(1) [OF spec(2)])
  qed
qed

lemma storeInCache_found:
  assumes "MmsValueCache_lookupValue self itemId = Some (Some w)"
  shows "MmsValueCache_lookupValue (storeInCache self itemId new) itemId = Some (Some new)"
proof (cases "map_of (vc_map self) itemId")
  case None
  then obtain p where p: "getParentSubString itemId = Some p" "searchCacheForValue self itemId p = Some (Some w)"
    using assms by (auto simp: MmsValueCache_lookupValue_def split: option.splits)
  moreover have "map_of (vc_map (storeInParent self itemId p new)) itemId = None"
    using None by (simp add: storeInParent_keys)
  ultimately show ?thesis
    using None by (simp add: storeInCache_def MmsValueCache_lookupValue_def storeInParent_found)
next
  case (Some v)
  then show ?thesis by (simp add: storeInCache_def MmsValueCache_lookupValue_def setEntry_lookup)
qed

lemma map_of_changed:
  "map_of (map (\<lambda>(p, c). (p, if p = k then f c else c)) ps) q = map_option (\<lambda>c. if q = k then f c else c) (map_of ps q)"
  by (induction ps) auto

lemma store_value_found:
  assumes "MmsServer_getValueFromCache (sv_valueCaches self) domain itemId = Some (Some w)"
  shows "MmsServer_getValueFromCache (sv_valueCaches (store_value self domain itemId new)) domain itemId = Some (Some new)"
    and "sv_device (store_value self domain itemId new) = sv_device self"
  using assms
  by (auto simp: MmsServer_getValueFromCache_def store_value_def map_of_changed storeInCache_found split: option.splits)

lemma store_value_other:
  assumes "q \<noteq> domain"
  shows "MmsServer_getValueFromCache (sv_valueCaches (store_value self domain itemId new)) q name =
    MmsServer_getValueFromCache (sv_valueCaches self) q name"
  using assms
  by (simp add: MmsServer_getValueFromCache_def store_value_def map_of_changed option.case_eq_if option.map_sel)


section \<open>Writing and reading\<close>

text \<open>The variable a request names, with the value it has in the cache.\<close>

definition cached_variable ::
  "sMmsServer \<Rightarrow> cstring \<Rightarrow> cstring \<Rightarrow> MmsDomain \<Rightarrow> MmsVariableSpecification \<Rightarrow> MmsValue \<Rightarrow> bool" where
  "cached_variable server domainId itemId p spec old \<longleftrightarrow>
     short_name domainId \<and> short_name itemId \<and> domainPointer (sv_device server) domainId = Some p \<and>
     (\<exists>d. domain_at (sv_device server) p = Some d \<and> MmsDomain_getNamedVariable d itemId = Some (Some spec)) \<and>
     MmsServer_getValueFromCache (sv_valueCaches server) p itemId = Some (Some old)"

lemma created_name: "short_name name \<Longrightarrow> createStringFromBuffer (fst (name_identifier name)) (snd (name_identifier name)) = Some name"
  by (simp add: short_name_def name_identifier_def createStringFromBuffer_def rd_n_def takeWhile_nonzero)

lemma cached_answer:
  assumes "cached_variable server domainId itemId p spec v"
  shows "named_answer (\<lambda>domain itemId. mmsServer_getValue readHandler (sv_valueCaches server) domain itemId self)
    (sv_device server) domainId itemId = Some v"
proof -
  obtain n t where "spec = MmsVariableSpecification n t" by (cases spec)
  with assms show ?thesis
    by (cases t) (auto simp: cached_variable_def named_answer_def variable_answer_def mmsServer_getValue_def)
qed

lemma cached_after_store:
  "cached_variable server domainId itemId p spec old \<Longrightarrow>
   cached_variable (store_value server p itemId new) domainId itemId p spec new"
  by (auto simp: cached_variable_def store_value_found)

lemma writeItem_cached:
  assumes "cached_variable server domainId itemId p spec old" and "mmsMsg_parseDataElement d = Some (Some w)"
  shows "writeItem writeHandler server self (variable_request (domainId, itemId)) d =
    mmsServer_setValue writeHandler server p itemId w self"
  using assms by (auto simp: writeItem_def variable_request_def cached_variable_def created_name)

lemma handled_write:
  assumes "ber_decode buffer = Some \<lparr>wq_variableAccessSpecification =
      VariableAccessSpecification_listOfVariable [varSpec], wq_listOfData = [d]\<rparr>"
    and "writeItem writeHandler server self varSpec d = Some (e, server')"
  shows "mmsServer_handleWriteRequest der ber_decode writeHandler server self buffer invokeId response =
    (if e = DATA_ACCESS_ERROR_NO_RESPONSE then Some (response, server')
     else map_option (\<lambda>r. (r, server')) (mmsServer_createMmsWriteResponse der invokeId response [e]))"
  using assms
  by (cases "mmsServer_createMmsWriteResponse der invokeId response [e]")
    (simp_all add: mmsServer_handleWriteRequest_def CONFIG_MMS_WRITE_SERVICE_MAX_NUMBER_OF_WRITE_ITEMS_def)

lemma one_write:
  assumes "ber_decode buffer = Some \<lparr>wq_variableAccessSpecification =
      VariableAccessSpecification_listOfVariable [varSpec], wq_listOfData = [d]\<rparr>"
    and "writeItem writeHandler server self varSpec d = Some (e, server')" and "e \<noteq> DATA_ACCESS_ERROR_NO_RESPONSE"
  shows "mmsServer_handleWriteRequest der ber_decode writeHandler server self buffer invokeId response =
    map_option (\<lambda>r. (r, server')) (mmsServer_createMmsWriteResponse der invokeId response [e])"
  using handled_write [of ber_decode buffer, OF assms(1,2)] assms(3) by simp

text \<open>C4: A write of a variable in the cache, with a value that fits it. In a server with no write handler it is
  answered with success, and every later read of the name gives a value with the content that was written,
  while the values of other domains stay the same. In a server with a write handler, as the IEC 61850
  server installs one, the cache is left to the handler: it is called once, with the domain, the name,
  the value that was sent and the connection, the client is sent its result (or nothing, where the handler
  says that the response comes later), and the server is left as the handler leaves it.\<close>

theorem write_then_read:
  assumes "cached_variable server domainId itemId p spec old" and "mms_wf old"
    and "mmsMsg_parseDataElement d = Some (Some w)" and "mms_wf w" and "accepts old w"
    and "ber_decode buffer = Some \<lparr>wq_variableAccessSpecification =
      VariableAccessSpecification_listOfVariable [variable_request (domainId, itemId)], wq_listOfData = [d]\<rparr>"
  shows "(\<exists>server' new. mmsServer_handleWriteRequest der ber_decode None server self buffer invokeId response =
      map_option (\<lambda>r. (r, server')) (mmsServer_createMmsWriteResponse der invokeId response [DATA_ACCESS_ERROR_SUCCESS]) \<and>
    mms_wf new \<and> mms_content new = mms_content w \<and> sv_device server' = sv_device server \<and>
    named_answer (\<lambda>domain itemId. mmsServer_getValue readHandler (sv_valueCaches server') domain itemId c)
      (sv_device server') domainId itemId = Some new \<and>
    (\<forall>q name. q \<noteq> p \<longrightarrow> MmsServer_getValueFromCache (sv_valueCaches server') q name =
      MmsServer_getValueFromCache (sv_valueCaches server) q name)) \<and>
    (\<forall>handler. mmsServer_handleWriteRequest der ber_decode (Some handler) server self buffer invokeId response =
      (case handler p itemId w self server of (indication, server') \<Rightarrow>
         if indication = DATA_ACCESS_ERROR_NO_RESPONSE then Some (response, server')
         else map_option (\<lambda>r. (r, server')) (mmsServer_createMmsWriteResponse der invokeId response [indication])))"
proof (intro conjI allI)
  obtain new where new: "MmsValue_update old w = Some (True, new)" "mms_content new = mms_content w"
    using update_accepted(1) [OF assms(2,4,5)] by blast
  have wf: "mms_wf new" using update_safe(1) [OF assms(2,4)] new(1) by simp
  let ?s = "store_value server p itemId new"
  have "writeItem None server self (variable_request (domainId, itemId)) d = Some (DATA_ACCESS_ERROR_SUCCESS, ?s)"
    unfolding writeItem_cached [OF assms(1,3)]
    using assms(1) new(1) by (simp add: mmsServer_setValue_def cached_variable_def)
  from one_write [of ber_decode buffer, OF assms(6) this] new(2) wf cached_answer [OF cached_after_store [OF assms(1)], of readHandler new c]
    store_value_found(2) [of server p itemId old new] assms(1)
  show "\<exists>server' new. mmsServer_handleWriteRequest der ber_decode None server self buffer invokeId response =
      map_option (\<lambda>r. (r, server')) (mmsServer_createMmsWriteResponse der invokeId response [DATA_ACCESS_ERROR_SUCCESS]) \<and>
    mms_wf new \<and> mms_content new = mms_content w \<and> sv_device server' = sv_device server \<and>
    named_answer (\<lambda>domain itemId. mmsServer_getValue readHandler (sv_valueCaches server') domain itemId c)
      (sv_device server') domainId itemId = Some new \<and>
    (\<forall>q name. q \<noteq> p \<longrightarrow> MmsServer_getValueFromCache (sv_valueCaches server') q name =
      MmsServer_getValueFromCache (sv_valueCaches server) q name)"
    by (intro exI [of _ ?s] exI [of _ new]) (simp add: store_value_other cached_variable_def)
next
  fix handler :: write_handler
  obtain e server' where h: "handler p itemId w self server = (e, server')" by fastforce
  then have "writeItem (Some handler) server self (variable_request (domainId, itemId)) d = Some (e, server')"
    unfolding writeItem_cached [OF assms(1,3)] by (simp add: mmsServer_setValue_def)
  from handled_write [of ber_decode buffer, OF assms(6) this] h
  show "mmsServer_handleWriteRequest der ber_decode (Some handler) server self buffer invokeId response =
      (case handler p itemId w self server of (indication, server') \<Rightarrow>
         if indication = DATA_ACCESS_ERROR_NO_RESPONSE then Some (response, server')
         else map_option (\<lambda>r. (r, server')) (mmsServer_createMmsWriteResponse der invokeId response [indication]))"
    by simp
qed

lemma demo_variable:
  "cached_variable read_server [0x44] [0x78] 0 (MmsVariableSpecification (Some [0x78]) T_boolean) (MmsValue 0 (V_boolean True))"
  "cached_variable read_server [0x44] [0x61] 0 (MmsVariableSpecification (Some [0x61])
     (T_array 2 (MmsVariableSpecification None T_boolean)))
     (MmsValue 0 (V_array [Some (MmsValue 0 (V_boolean True)), Some (MmsValue 0 (V_boolean False))]))"
  by (simp_all add: cached_variable_def read_server_def demo_device_def MmsDevice_create_def MmsDomain_create_def
      copyString_def short_name_def domainPointer_def domain_at_def MmsDomain_getNamedVariable_def splitName_def
      MmsServer_getValueFromCache_def MmsValueCache_lookupValue_def)

theorem write_then_read_witness:
  "(\<exists>server' new. mmsServer_handleWriteRequest (\<lambda>_. []) (\<lambda>_. Some \<lparr>wq_variableAccessSpecification =
      VariableAccessSpecification_listOfVariable [variable_request ([0x44], [0x78])], wq_listOfData = [Data_boolean False]\<rparr>)
      None read_server 3 [] 7 (ByteBuffer_create 50) = Some (ByteBuffer_create 50, server') \<and>
    mms_content new = MmsValue 0 (V_boolean False) \<and>
    named_answer (\<lambda>domain itemId. mmsServer_getValue None (sv_valueCaches server') domain itemId 4)
      (sv_device server') [0x44] [0x78] = Some new) \<and>
    mmsServer_handleWriteRequest (\<lambda>_. []) (\<lambda>_. Some \<lparr>wq_variableAccessSpecification =
      VariableAccessSpecification_listOfVariable [variable_request ([0x44], [0x78])], wq_listOfData = [Data_boolean False]\<rparr>)
      (Some (\<lambda>_ _ _ _ server. (DATA_ACCESS_ERROR_NO_RESPONSE, server))) read_server 3 [] 7 (ByteBuffer_create 50) =
      Some (ByteBuffer_create 50, read_server)"
proof -
  have "mmsMsg_parseDataElement (Data_boolean False) = Some (Some (MmsValue 0 (V_boolean False)))"
    by (simp add: mmsMsg_parseDataElement.simps MmsValue_newBoolean_def)
  note written = write_then_read [where ber_decode = "\<lambda>_. Some \<lparr>wq_variableAccessSpecification =
        VariableAccessSpecification_listOfVariable [variable_request ([0x44], [0x78])], wq_listOfData = [Data_boolean False]\<rparr>"
      and buffer = "[]" and der = "\<lambda>_. []" and self = 3 and invokeId = 7 and response = "ByteBuffer_create 50"
      and readHandler = None and c = 4, OF demo_variable(1) _ this]
  show ?thesis
  proof (rule conjI)
    from written show "\<exists>server' new. mmsServer_handleWriteRequest (\<lambda>_. []) (\<lambda>_. Some \<lparr>wq_variableAccessSpecification =
        VariableAccessSpecification_listOfVariable [variable_request ([0x44], [0x78])], wq_listOfData = [Data_boolean False]\<rparr>)
        None read_server 3 [] 7 (ByteBuffer_create 50) = Some (ByteBuffer_create 50, server') \<and>
      mms_content new = MmsValue 0 (V_boolean False) \<and>
      named_answer (\<lambda>domain itemId. mmsServer_getValue None (sv_valueCaches server') domain itemId 4)
        (sv_device server') [0x44] [0x78] = Some new"
      by (fastforce simp: mmsServer_createMmsWriteResponse_def)
  qed (use written in simp)
qed

text \<open>C35: A write of an element of an array never asks the write handler of the application: whatever the handler is, the
  element in the cache takes the value that is sent, and the client is told of success.\<close>

theorem write_element_bypasses_handler:
  assumes "cached_variable server domainId itemId p (MmsVariableSpecification n (T_array m e)) (MmsValue f (V_array cs))"
    and "i < length cs" and "cs ! i = Some old" and "mms_wf old"
    and "mmsMsg_parseDataElement d = Some (Some w)" and "mms_wf w" and "accepts old w"
    and "ber_decode buffer = Some \<lparr>wq_variableAccessSpecification = VariableAccessSpecification_listOfVariable
      [(fst (variable_request (domainId, itemId)), Some [\<lparr>am_unnamed = True, am_selectAccess = selectAccess_index (int i),
        am_accessIndex = int i, am_alternateAccess = None\<rparr>])], wq_listOfData = [d]\<rparr>"
  shows "\<exists>server' new. (\<forall>writeHandler. mmsServer_handleWriteRequest der ber_decode writeHandler server self buffer invokeId
        response = map_option (\<lambda>r. (r, server'))
        (mmsServer_createMmsWriteResponse der invokeId response [DATA_ACCESS_ERROR_SUCCESS])) \<and>
    MmsServer_getValueFromCache (sv_valueCaches server') p itemId = Some (Some (MmsValue f (V_array (cs[i := Some new])))) \<and>
    mms_content new = mms_content w"
proof -
  obtain new where new: "MmsValue_update old w = Some (True, new)" "mms_content new = mms_content w"
    using update_accepted(1) [OF assms(4,6,7)] by blast
  let ?s = "store_value server p itemId (MmsValue f (V_array (cs[i := Some new])))"
  have found: "MmsServer_getValueFromCache (sv_valueCaches server) p itemId = Some (Some (MmsValue f (V_array cs)))"
    using assms(1) by (simp add: cached_variable_def)
  have "writeItem writeHandler server self (fst (variable_request (domainId, itemId)), Some [\<lparr>am_unnamed = True,
      am_selectAccess = selectAccess_index (int i), am_accessIndex = int i, am_alternateAccess = None\<rparr>]) d =
    Some (DATA_ACCESS_ERROR_SUCCESS, ?s)" for writeHandler
    using assms(1-3,5) new(1)
    by (auto simp: writeItem_def variable_request_def cached_variable_def created_name writeArrayElement_def
        mmsServer_isIndexAccess_def mmsServer_getLowIndex_def firstMember_def MmsValue_getElement_def components_def
        MmsValue_setElement_def set_union_def)
  from one_write [of ber_decode buffer, OF assms(8) this] store_value_found(1) [OF found] new(2)
  show ?thesis by (intro exI [of _ ?s] exI [of _ new]) simp
qed

theorem write_element_bypasses_handler_witness:
  "\<exists>server' new. (\<forall>writeHandler. mmsServer_handleWriteRequest (\<lambda>_. []) (\<lambda>_. Some \<lparr>wq_variableAccessSpecification =
      VariableAccessSpecification_listOfVariable
      [(fst (variable_request ([0x44], [0x61])), Some [\<lparr>am_unnamed = True, am_selectAccess = selectAccess_index 1,
        am_accessIndex = 1, am_alternateAccess = None\<rparr>])], wq_listOfData = [Data_boolean True]\<rparr>)
      writeHandler read_server 3 [] 7 (ByteBuffer_create 50) = Some (ByteBuffer_create 50, server')) \<and>
    MmsServer_getValueFromCache (sv_valueCaches server') 0 [0x61] =
      Some (Some (MmsValue 0 (V_array [Some (MmsValue 0 (V_boolean True)), Some new]))) \<and>
    mms_content new = MmsValue 0 (V_boolean True)"
proof -
  have "mmsMsg_parseDataElement (Data_boolean True) = Some (Some (MmsValue 0 (V_boolean True)))"
    by (simp add: mmsMsg_parseDataElement.simps MmsValue_newBoolean_def)
  from write_element_bypasses_handler [where ber_decode = "\<lambda>_. Some \<lparr>wq_variableAccessSpecification =
      VariableAccessSpecification_listOfVariable
      [(fst (variable_request ([0x44], [0x61])), Some [\<lparr>am_unnamed = True, am_selectAccess = selectAccess_index 1,
        am_accessIndex = 1, am_alternateAccess = None\<rparr>])], wq_listOfData = [Data_boolean True]\<rparr>"
      and buffer = "[]" and der = "\<lambda>_. []" and self = 3 and invokeId = 7 and response = "ByteBuffer_create 50" and i = 1,
      OF demo_variable(2) _ _ _ this]
  show ?thesis by (simp add: mmsServer_createMmsWriteResponse_def)
qed

text \<open>Without a write handler a value of another type is ignored, and the client is told of success.\<close>

theorem write_other_type_succeeds:
  assumes "cached_variable server domainId itemId p spec old" and "mmsMsg_parseDataElement d = Some (Some w)"
    and "MmsValue_getType old \<noteq> MmsValue_getType w"
    and "ber_decode buffer = Some \<lparr>wq_variableAccessSpecification =
      VariableAccessSpecification_listOfVariable [variable_request (domainId, itemId)], wq_listOfData = [d]\<rparr>"
  shows "\<exists>server'. mmsServer_handleWriteRequest der ber_decode None server self buffer invokeId response =
      map_option (\<lambda>r. (r, server')) (mmsServer_createMmsWriteResponse der invokeId response [DATA_ACCESS_ERROR_SUCCESS]) \<and>
    MmsServer_getValueFromCache (sv_valueCaches server') p itemId = Some (Some old)"
proof -
  have found: "MmsServer_getValueFromCache (sv_valueCaches server) p itemId = Some (Some old)"
    using assms(1) by (simp add: cached_variable_def)
  have "writeItem None server self (variable_request (domainId, itemId)) d =
      Some (DATA_ACCESS_ERROR_SUCCESS, store_value server p itemId old)"
    unfolding writeItem_cached [OF assms(1,2)]
    using found by (simp add: mmsServer_setValue_def update_other_type [OF assms(3)])
  from one_write [of ber_decode buffer, OF assms(4) this] store_value_found(1) [OF found] show ?thesis
    by (intro exI [of _ "store_value server p itemId old"]) simp
qed

end
