(* ===== verification/Mms_Variable_Lists.thy ===== *)
theory Mms_Variable_Lists
  imports Mms_Write
begin

text \<open>
  The services for named variable lists, which are the data sets of IEC 61850
  (\<open>src/src/mms/iso_mms/server/mms_named_variable_list_service.c\<close>): define, delete, and get the attributes of a
  list; and the service that describes the type of a variable (\<open>mms_get_var_access_service.c\<close>), with what a client
  makes of the description (\<open>src/src/mms/iso_mms/client/mms_client_get_var_access.c\<close>).

  Requests come from \<open>ber_decode\<close>, a parameter. Where the code goes on after an unsuccessful decoding, the
  parameter gives whether it was successful, and the structure it left, if any.
\<close>

section \<open>Definition of lists\<close>

record DefineNamedVariableListRequest =
  dq_variableListName :: ObjectName
  dq_listOfVariable :: "(VariableSpecification \<times> AlternateAccess option) list"

definition createDefineNamedVariableListResponse :: "u32 \<Rightarrow> ByteBuffer \<Rightarrow> ByteBuffer option" where
  "createDefineNamedVariableListResponse invokeId response = do {
     let invokeIdSize = BerEncoder_UInt32determineEncodedSize invokeId + 2;
     let confirmedResponsePDUSize = 2 + invokeIdSize;
     w \<leftarrow> BerEncoder_encodeTL 0xa1 confirmedResponsePDUSize (bb_buffer response, 0);
     w \<leftarrow> BerEncoder_encodeTL 0x02 (invokeIdSize - 2) w;
     w \<leftarrow> BerEncoder_encodeUInt32 invokeId w;
     (buffer, bufPos) \<leftarrow> BerEncoder_encodeTL 0x8b 0 w;
     Some (response\<lparr>bb_buffer := buffer, bb_size := int bufPos\<rparr>)
   }"

text \<open>The index and component of an alternate access; the inner \<open>None\<close> refuses the list.\<close>

definition alternateAccessEntry :: "AlternateAccess option \<Rightarrow> (int \<times> cstring option) option option" where
  "alternateAccessEntry alternateAccess =
     (case alternateAccess of
        None \<Rightarrow> Some (Some (-1, None))
      | Some [m] \<Rightarrow>
          if am_unnamed m then do {
            component \<leftarrow> am_alternateAccess m;
            componentName \<leftarrow> mmsMsg_createStringFromAsnIdentifier component;
            Some (Some (am_accessIndex m, Some componentName))
          }
          else Some None
      | Some _ \<Rightarrow> Some None)"

text \<open>The names of a variable are read as those of a variable of a domain. The domain may be unknown.\<close>

fun listEntries_loop ::
  "MmsDevice \<Rightarrow> (VariableSpecification \<times> AlternateAccess option) list \<Rightarrow> MmsNamedVariableList \<Rightarrow>
   MmsNamedVariableList option option" where
  "listEntries_loop device [] namedVariableList = Some (Some namedVariableList)"
| "listEntries_loop device ((varSpec, alternateAccess) # rest) namedVariableList = do {
     entry \<leftarrow> alternateAccessEntry alternateAccess;
     (case entry of
        None \<Rightarrow> Some None
      | Some (arrayIndex, componentName) \<Rightarrow>
          (case varSpec of
             VariableSpecification_other \<Rightarrow> Some None
           | VariableSpecification_name (ObjectName_domainspecific domainId itemId) \<Rightarrow> do {
               variableName \<leftarrow> createStringFromBuffer (fst itemId) (snd itemId);
               domainName \<leftarrow> createStringFromBuffer (fst domainId) (snd domainId);
               let variable = MmsNamedVariableListEntry_create \<lparr>as_domain = domainPointer device domainName,
                 as_variableName = variableName, as_arrayIndex = arrayIndex, as_componentName = componentName\<rparr>;
               listEntries_loop device rest (MmsNamedVariableList_addVariable namedVariableList variable)
             }
           | VariableSpecification_name _ \<Rightarrow> None))
   }"

definition createNamedVariableList ::
  "MmsDevice \<Rightarrow> DefineNamedVariableListRequest \<Rightarrow> cstring \<Rightarrow> MmsNamedVariableList option option" where
  "createNamedVariableList device request variableListName =
     listEntries_loop device (dq_listOfVariable request) (MmsNamedVariableList_create variableListName True)"

text \<open>A change of the domain at an address.\<close>

definition set_domain :: "sMmsServer \<Rightarrow> MmsDomain \<Rightarrow> sMmsDomain \<Rightarrow> sMmsServer" where
  "set_domain server p d = server\<lparr>sv_device := (sv_device server)\<lparr>dv_domains := (dv_domains (sv_device server))[p := d]\<rparr>\<rparr>"

type_synonym service_state = "sMmsServer \<times> sMmsServerConnection"

definition defineInDomain ::
  "der_encode \<Rightarrow> service_state \<Rightarrow> DefineNamedVariableListRequest \<Rightarrow> Identifier \<Rightarrow> Identifier \<Rightarrow> u32 \<Rightarrow> ByteBuffer \<Rightarrow>
   (ByteBuffer \<times> service_state) option" where
  "defineInDomain der state request domainId itemId invokeId response =
     (case state of (server, connection) \<Rightarrow> do {
        domainName \<leftarrow> createStringFromBuffer (fst domainId) (snd domainId);
        (case domainPointer (sv_device server) domainName of
           None \<Rightarrow> do {
             r \<leftarrow> mmsServer_createConfirmedErrorPdu der invokeId response MMS_ERROR_ACCESS_OBJECT_NON_EXISTENT;
             Some (r, state)
           }
         | Some p \<Rightarrow> do {
             domain \<leftarrow> domain_at (sv_device server) p;
             variableListName \<leftarrow> createStringFromBuffer (fst itemId) (snd itemId);
             if MmsDomain_getNamedVariableList domain variableListName \<noteq> None then do {
               r \<leftarrow> mmsServer_createConfirmedErrorPdu der invokeId response MMS_ERROR_DEFINITION_OBJECT_EXISTS;
               Some (r, state)
             }
             else do {
               namedVariableList \<leftarrow> createNamedVariableList (sv_device server) request variableListName;
               (case namedVariableList of
                  Some l \<Rightarrow> do {
                    r \<leftarrow> createDefineNamedVariableListResponse invokeId response;
                    Some (r, set_domain server p (snd (MmsDomain_addNamedVariableList domain l)), connection)
                  }
                | None \<Rightarrow> do {
                    r \<leftarrow> mmsServer_createConfirmedErrorPdu der invokeId response
                      MMS_ERROR_ACCESS_OBJECT_ACCESS_UNSUPPORTED;
                    Some (r, state)
                  })
             }
           })
      })"

definition defineInConnection ::
  "der_encode \<Rightarrow> service_state \<Rightarrow> DefineNamedVariableListRequest \<Rightarrow> Identifier \<Rightarrow> u32 \<Rightarrow> ByteBuffer \<Rightarrow>
   (ByteBuffer \<times> service_state) option" where
  "defineInConnection der state request aaspecific invokeId response =
     (case state of (server, connection) \<Rightarrow> do {
        variableListName \<leftarrow> createStringFromBuffer (fst aaspecific) (snd aaspecific);
        if MmsServerConnection_getNamedVariableList connection variableListName \<noteq> None then do {
          r \<leftarrow> mmsServer_createConfirmedErrorPdu der invokeId response MMS_ERROR_DEFINITION_OBJECT_EXISTS;
          Some (r, state)
        }
        else do {
          namedVariableList \<leftarrow> createNamedVariableList (sv_device server) request variableListName;
          (case namedVariableList of
             Some l \<Rightarrow> do {
               r \<leftarrow> createDefineNamedVariableListResponse invokeId response;
               Some (r, server, snd (MmsServerConnection_addNamedVariableList connection l))
             }
           | None \<Rightarrow> do {
               r \<leftarrow> mmsServer_createConfirmedErrorPdu der invokeId response MMS_ERROR_ACCESS_OBJECT_ACCESS_UNSUPPORTED;
               Some (r, state)
             })
        }
      })"

text \<open>After an unsuccessful decoding a reject is written, and the structure is used all the same.\<close>

definition decoded_or_reject ::
  "der_encode \<Rightarrow> bool \<times> 'a option \<Rightarrow> u32 \<Rightarrow> ByteBuffer \<Rightarrow> ('a \<times> ByteBuffer) option" where
  "decoded_or_reject der decoded invokeId response = do {
     response \<leftarrow> (if fst decoded then Some response
       else mmsServer_writeMmsRejectPdu der (Some invokeId) MMS_ERROR_REJECT_INVALID_PDU response);
     request \<leftarrow> snd decoded;
     Some (request, response)
   }"

definition mmsServer_handleDefineNamedVariableListRequest ::
  "der_encode \<Rightarrow> (byte list \<Rightarrow> bool \<times> DefineNamedVariableListRequest option) \<Rightarrow> service_state \<Rightarrow> byte list \<Rightarrow> u32 \<Rightarrow>
   ByteBuffer \<Rightarrow> (ByteBuffer \<times> service_state) option" where
  "mmsServer_handleDefineNamedVariableListRequest der ber_decode state buffer invokeId response = do {
     (request, response) \<leftarrow> decoded_or_reject der (ber_decode buffer) invokeId response;
     (case dq_variableListName request of
        ObjectName_domainspecific domainId itemId \<Rightarrow>
          defineInDomain der state request domainId itemId invokeId response
      | ObjectName_aaspecific aaspecific \<Rightarrow> defineInConnection der state request aaspecific invokeId response
      | _ \<Rightarrow> do {
          r \<leftarrow> mmsServer_createConfirmedErrorPdu der invokeId response MMS_ERROR_ACCESS_OBJECT_ACCESS_UNSUPPORTED;
          Some (r, state)
        })
   }"


section \<open>Deletion of lists\<close>

text \<open>The scope is \<open>NULL\<close> where the request leaves it out; it is then read uninitialised.\<close>

record DeleteNamedVariableListRequest =
  xq_scopeOfDelete :: "int option"
  xq_listOfVariableListName :: "ObjectName list option"

definition createDeleteNamedVariableListResponse :: "u32 \<Rightarrow> ByteBuffer \<Rightarrow> u32 \<Rightarrow> u32 \<Rightarrow> ByteBuffer option" where
  "createDeleteNamedVariableListResponse invokeId response numberMatched numberDeleted = do {
     let invokeIdSize = BerEncoder_UInt32determineEncodedSize invokeId + 2;
     let numberMatchedSize = 2 + BerEncoder_UInt32determineEncodedSize numberMatched;
     let numberDeletedSize = 2 + BerEncoder_UInt32determineEncodedSize numberDeleted;
     let deleteNVLSize = 2 + numberMatchedSize + numberDeletedSize;
     let confirmedResponsePDUSize = invokeIdSize + deleteNVLSize;
     w \<leftarrow> BerEncoder_encodeTL 0xa1 confirmedResponsePDUSize (bb_buffer response, 0);
     w \<leftarrow> BerEncoder_encodeTL 0x02 (invokeIdSize - 2) w;
     w \<leftarrow> BerEncoder_encodeUInt32 invokeId w;
     w \<leftarrow> BerEncoder_encodeTL 0xad (numberMatchedSize + numberDeletedSize) w;
     w \<leftarrow> BerEncoder_encodeTL 0x80 (numberMatchedSize - 2) w;
     w \<leftarrow> BerEncoder_encodeUInt32 numberMatched w;
     w \<leftarrow> BerEncoder_encodeTL 0x81 (numberDeletedSize - 2) w;
     (buffer, bufPos) \<leftarrow> BerEncoder_encodeUInt32 numberDeleted w;
     Some (response\<lparr>bb_buffer := buffer, bb_size := int bufPos\<rparr>)
   }"

text \<open>One name: the state, and the numbers of lists matched and deleted.\<close>

definition deleteName :: "ObjectName \<Rightarrow> service_state \<Rightarrow> (service_state \<times> nat \<times> nat) option" where
  "deleteName name state =
     (case state of (server, connection) \<Rightarrow>
        (case name of
           ObjectName_domainspecific domainId itemId \<Rightarrow> do {
             domainIdStr \<leftarrow> mmsMsg_copyAsn1IdentifierToStringBuffer domainId 65;
             nameIdStr \<leftarrow> mmsMsg_copyAsn1IdentifierToStringBuffer itemId 65;
             p \<leftarrow> domainPointer (sv_device server) domainIdStr;
             domain \<leftarrow> domain_at (sv_device server) p;
             Some (case MmsDomain_getNamedVariableList domain nameIdStr of
                 None \<Rightarrow> (state, 0, 0)
               | Some variableList \<Rightarrow>
                   if MmsNamedVariableList_isDeletable variableList
                   then ((set_domain server p (MmsDomain_deleteNamedVariableList domain nameIdStr), connection), 1, 1)
                   else (state, 1, 0))
           }
         | ObjectName_aaspecific aaspecific \<Rightarrow> do {
             itemId \<leftarrow> mmsMsg_createStringFromAsnIdentifier aaspecific;
             Some (case MmsServerConnection_getNamedVariableList connection itemId of
                 None \<Rightarrow> (state, 0, 0)
               | Some _ \<Rightarrow> ((server, MmsServerConnection_deleteNamedVariableList connection itemId), 1, 1))
           }
         | _ \<Rightarrow> Some (state, 0, 0)))"

fun deleteNames_loop :: "ObjectName list \<Rightarrow> service_state \<Rightarrow> nat \<Rightarrow> nat \<Rightarrow> (service_state \<times> nat \<times> nat) option" where
  "deleteNames_loop [] state numberMatched numberDeleted = Some (state, numberMatched, numberDeleted)"
| "deleteNames_loop (name # names) state numberMatched numberDeleted = do {
     (state, matched, deleted) \<leftarrow> deleteName name state;
     deleteNames_loop names state (numberMatched + matched) (numberDeleted + deleted)
   }"

definition mmsServer_handleDeleteNamedVariableListRequest ::
  "der_encode \<Rightarrow> (byte list \<Rightarrow> bool \<times> DeleteNamedVariableListRequest option) \<Rightarrow> service_state \<Rightarrow> byte list \<Rightarrow> u32 \<Rightarrow>
   ByteBuffer \<Rightarrow> (ByteBuffer \<times> service_state) option" where
  "mmsServer_handleDeleteNamedVariableListRequest der ber_decode state buffer invokeId response = do {
     (request, response) \<leftarrow> decoded_or_reject der (ber_decode buffer) invokeId response;
     scopeOfDelete \<leftarrow> xq_scopeOfDelete request;
     if scopeOfDelete = 0 then do {
       names \<leftarrow> xq_listOfVariableListName request;
       (state, numberMatched, numberDeleted) \<leftarrow> deleteNames_loop names state 0 0;
       r \<leftarrow> createDeleteNamedVariableListResponse invokeId response (of_nat numberMatched) (of_nat numberDeleted);
       Some (r, state)
     }
     else do {
       r \<leftarrow> mmsServer_createConfirmedErrorPdu der invokeId response MMS_ERROR_ACCESS_OBJECT_ACCESS_UNSUPPORTED;
       Some (r, state)
     }
   }"


section \<open>The responses\<close>

definition define_pdu :: "u32 \<Rightarrow> byte list" where
  "define_pdu invokeId = tlv_bytes (0xa1, tlv_bytes (0x02, uint32_bytes invokeId) @ tlv_bytes (0x8b, []))"

definition delete_pdu :: "u32 \<Rightarrow> u32 \<Rightarrow> u32 \<Rightarrow> byte list" where
  "delete_pdu invokeId matched deleted = tlv_bytes (0xa1, tlv_bytes (0x02, uint32_bytes invokeId) @
     tlv_bytes (0xad, tlv_bytes (0x80, uint32_bytes matched) @ tlv_bytes (0x81, uint32_bytes deleted)))"

lemma createDefineResponse_eq:
  "createDefineNamedVariableListResponse invokeId response = put_bytes (define_pdu invokeId) response"
proof -
  have eq: "define_pdu invokeId = tl_bytes 0xa1 (2 + (length (uint32_bytes invokeId) + 2)) @
      tl_bytes 0x02 (length (uint32_bytes invokeId)) @ uint32_bytes invokeId @ tl_bytes 0x8b 0"
    by (simp add: define_pdu_def tlv_bytes_def [of "(0xa1, _)"] length_uint32_field)
      (simp add: tlv_bytes_def tl_bytes_small)
  show ?thesis
    unfolding eq createDefineNamedVariableListResponse_def Let_def
    by (subst emits_put [symmetric]) (simp_all add: enc_emits UInt32_size_eq tl_bytes_def)
qed

lemma createDeleteResponse_eq:
  "createDeleteNamedVariableListResponse invokeId response m k = put_bytes (delete_pdu invokeId m k) response"
proof -
  define content where "content = tlv_bytes (0x80, uint32_bytes m) @ tlv_bytes (0x81, uint32_bytes k)"
  have c: "length content = 2 + length (uint32_bytes m) + (2 + length (uint32_bytes k))"
    by (simp add: content_def length_uint32_field)
  have short: "length (uint32_bytes x) \<le> 5" for x by (rule uint32_bytes_spec(4))
  have small: "length (tlv_bytes (0xad, content)) = 2 + length content"
    using short [of m] short [of k] by (simp add: length_field c BerEncoder_determineLengthSize_def)
  have eq: "delete_pdu invokeId m k =
      tl_bytes 0xa1 (length (uint32_bytes invokeId) + 2 + (2 + (2 + length (uint32_bytes m)) + (2 + length (uint32_bytes k)))) @
      tl_bytes 0x02 (length (uint32_bytes invokeId)) @ uint32_bytes invokeId @
      tl_bytes 0xad (2 + length (uint32_bytes m) + (2 + length (uint32_bytes k))) @
      tl_bytes 0x80 (length (uint32_bytes m)) @ uint32_bytes m @ tl_bytes 0x81 (length (uint32_bytes k)) @ uint32_bytes k"
    unfolding delete_pdu_def content_def [symmetric]
    by (simp add: tlv_bytes_def [of "(0xa1, _)"] length_uint32_field small c)
      (simp add: tlv_bytes_def [of "(0xad, _)"] c, simp add: tlv_bytes_def content_def)
  show ?thesis
    unfolding eq createDeleteNamedVariableListResponse_def Let_def
    by (subst emits_put [symmetric]) (simp_all add: enc_emits UInt32_size_eq tl_bytes_def)
qed


section \<open>Attributes of lists and variables\<close>

fun attributes_loop :: "MmsDevice \<Rightarrow> MmsAccessSpecifier list \<Rightarrow> (cstring \<times> cstring) list option" where
  "attributes_loop device [] = Some []"
| "attributes_loop device (variableEntry # rest) = do {
     p \<leftarrow> MmsNamedVariableListEntry_getDomain variableEntry;
     domain \<leftarrow> domain_at device p;
     names \<leftarrow> attributes_loop device rest;
     Some ((MmsDomain_getName domain, MmsNamedVariableListEntry_getVariableName variableEntry) # names)
   }"

definition createGetNamedVariableListAttributesResponse ::
  "der_encode \<Rightarrow> MmsDevice \<Rightarrow> u32 \<Rightarrow> ByteBuffer \<Rightarrow> MmsNamedVariableList \<Rightarrow> ByteBuffer option" where
  "createGetNamedVariableListAttributesResponse der device invokeId response variableList = do {
     names \<leftarrow> attributes_loop device (MmsNamedVariableList_getVariableList variableList);
     write_pieces (der (getNamedVariableListAttributesResponse invokeId
       (MmsNamedVariableList_isDeletable variableList) names)) response
   }"

definition mmsServer_handleGetNamedVariableListAttributesRequest ::
  "der_encode \<Rightarrow> (byte list \<Rightarrow> ObjectName option) \<Rightarrow> sMmsServer \<Rightarrow> byte list \<Rightarrow> u32 \<Rightarrow> ByteBuffer \<Rightarrow> ByteBuffer option" where
  "mmsServer_handleGetNamedVariableListAttributesRequest der ber_decode server buffer invokeId response =
     (case ber_decode buffer of
        None \<Rightarrow> mmsServer_writeMmsRejectPdu der (Some invokeId) MMS_ERROR_REJECT_INVALID_PDU response
      | Some (ObjectName_domainspecific domainId itemId) \<Rightarrow> do {
          domainName \<leftarrow> createStringFromBuffer (fst domainId) (snd domainId);
          itemName \<leftarrow> createStringFromBuffer (fst itemId) (snd itemId);
          (case MmsDevice_getDomain (sv_device server) domainName of
             Some domain \<Rightarrow>
               (case MmsDomain_getNamedVariableList domain itemName of
                  Some variableList \<Rightarrow>
                    createGetNamedVariableListAttributesResponse der (sv_device server) invokeId response variableList
                | None \<Rightarrow>
                    mmsServer_createConfirmedErrorPdu der invokeId response MMS_ERROR_ACCESS_OBJECT_NON_EXISTENT)
           | None \<Rightarrow> mmsServer_createConfirmedErrorPdu der invokeId response MMS_ERROR_ACCESS_OBJECT_NON_EXISTENT)
        }
      | Some _ \<Rightarrow>
          mmsServer_createConfirmedErrorPdu der invokeId response MMS_ERROR_ACCESS_OBJECT_ACCESS_UNSUPPORTED)"

text \<open>A type without description leaves the choice of the structure empty.\<close>

fun createTypeSpecification :: "MmsVariableSpecification \<Rightarrow> TypeSpecification option"
  and components_loop :: "MmsVariableSpecification list \<Rightarrow> (cstring \<times> TypeSpecification) list option"
where
  "createTypeSpecification (MmsVariableSpecification n t) =
     (case t of
        T_array elementCount elementTypeSpec \<Rightarrow>
          map_option (TS_array (int elementCount)) (createTypeSpecification elementTypeSpec)
      | T_structure elements \<Rightarrow> map_option TS_structure (components_loop elements)
      | T_boolean \<Rightarrow> Some TS_boolean
      | T_bitString n \<Rightarrow> Some (TS_bitstring n)
      | T_integer n \<Rightarrow> Some (TS_integer n)
      | T_unsigned n \<Rightarrow> Some (TS_unsigned n)
      | T_float exponentWidth formatWidth \<Rightarrow> Some (TS_floatingpoint (uint formatWidth) (uint exponentWidth))
      | T_octetString n \<Rightarrow> Some (TS_octetstring n)
      | T_visibleString n \<Rightarrow> Some (TS_visiblestring n)
      | T_mmsString n \<Rightarrow> Some (TS_mMSString n)
      | T_utcTime \<Rightarrow> Some TS_utctime
      | T_binaryTime n \<Rightarrow> Some (TS_binarytime (n = 6))
      | _ \<Rightarrow> Some TS_NOTHING)"
| "components_loop [] = Some []"
| "components_loop (e # elements) = do {
     name \<leftarrow> spec_name e;
     componentType \<leftarrow> createTypeSpecification e;
     rest \<leftarrow> components_loop elements;
     Some ((copyString name, componentType) # rest)
   }"

text \<open>Whether \<open>der_encode\<close> has encoded all of a message: it had pieces, and there was space for them.\<close>

definition encoded_all :: "byte list list \<Rightarrow> ByteBuffer \<Rightarrow> bool" where
  "encoded_all pieces response \<longleftrightarrow>
     pieces \<noteq> [] \<and> bb_size response + int (length (concat pieces)) \<le> bb_maxSize response"

text \<open>The result is whether there was a response, and the response.\<close>

definition createVariableAccessAttributesResponse ::
  "der_encode \<Rightarrow> sMmsServer \<Rightarrow> cstring \<Rightarrow> cstring \<Rightarrow> u32 \<Rightarrow> ByteBuffer \<Rightarrow> (int \<times> ByteBuffer) option" where
  "createVariableAccessAttributesResponse der server domainId nameId invokeId response =
     (case MmsDevice_getDomain (sv_device server) domainId of
        None \<Rightarrow> Some (-1, response)
      | Some domain \<Rightarrow> do {
          namedVariable \<leftarrow> MmsDomain_getNamedVariable domain nameId;
          (case namedVariable of
             None \<Rightarrow> Some (-1, response)
           | Some namedVariable \<Rightarrow> do {
               typeSpecification \<leftarrow> createTypeSpecification namedVariable;
               let pieces = der (getVariableAccessAttributesResponse invokeId False typeSpecification);
               written \<leftarrow> write_pieces pieces response;
               if encoded_all pieces response then Some (0, written)
               else do {
                 r \<leftarrow> mmsServer_createConfirmedErrorPdu der invokeId (written\<lparr>bb_size := 0\<rparr>) MMS_ERROR_SERVICE_OTHER;
                 Some (0, r)
               }
             })
        })"

datatype GetVariableAccessAttributesRequest =
    GetVariableAccessAttributesRequest_name ObjectName
  | GetVariableAccessAttributesRequest_other

definition mmsServer_handleGetVariableAccessAttributesRequest ::
  "der_encode \<Rightarrow> (byte list \<Rightarrow> GetVariableAccessAttributesRequest option) \<Rightarrow> sMmsServer \<Rightarrow> byte list \<Rightarrow> u32 \<Rightarrow> ByteBuffer \<Rightarrow>
   (int \<times> ByteBuffer) option" where
  "mmsServer_handleGetVariableAccessAttributesRequest der ber_decode server buffer invokeId response =
     (case ber_decode buffer of
        Some (GetVariableAccessAttributesRequest_name (ObjectName_domainspecific domainId nameId)) \<Rightarrow> do {
          domainIdStr \<leftarrow> createStringFromBuffer (fst domainId) (snd domainId);
          nameIdStr \<leftarrow> createStringFromBuffer (fst nameId) (snd nameId);
          (_, response) \<leftarrow> createVariableAccessAttributesResponse der server domainIdStr nameIdStr invokeId response;
          Some (0, response)
        }
      | _ \<Rightarrow> Some (-1, response))"


section \<open>Lists of a server\<close>

text \<open>Two devices that differ at most in their named variable lists.\<close>

definition same_domain :: "sMmsDomain \<Rightarrow> sMmsDomain \<Rightarrow> bool" where
  "same_domain d d' \<longleftrightarrow> md_domainName d = md_domainName d' \<and> md_namedVariables d = md_namedVariables d'"

definition same_model :: "MmsDevice \<Rightarrow> MmsDevice \<Rightarrow> bool" where
  "same_model dev dev' \<longleftrightarrow> list_all2 same_domain (dv_domains dev) (dv_domains dev')"

lemma same_model_refl [simp]: "same_model dev dev"
  by (simp add: same_model_def list.rel_refl same_domain_def)

lemma same_model_trans: "same_model a b \<Longrightarrow> same_model b c \<Longrightarrow> same_model a c"
  unfolding same_model_def by (erule (1) list_all2_trans [rotated]) (auto simp: same_domain_def)

lemma domain_loop_same: "list_all2 same_domain ds ds' \<Longrightarrow> domain_loop ds name i = domain_loop ds' name i"
  by (induction arbitrary: i rule: list_all2_induct) (auto simp: same_domain_def)

lemma domainPointer_same: "same_model dev dev' \<Longrightarrow> domainPointer dev name = domainPointer dev' name"
  by (simp add: same_model_def domainPointer_def domain_loop_same)

lemma domain_at_same:
  assumes "same_model dev dev'" and "domain_at dev p = Some d"
  obtains d' where "domain_at dev' p = Some d'" and "same_domain d d'"
  using assms by (auto simp: same_model_def domain_at_def list_all2_conv_all_nth split: if_splits)

lemma getNamedVariable_same: "same_domain d d' \<Longrightarrow> MmsDomain_getNamedVariable d = MmsDomain_getNamedVariable d'"
  by (auto simp: same_domain_def MmsDomain_getNamedVariable_def)

lemma domain_at_none_same: "same_model dev dev' \<Longrightarrow> domain_at dev p = None \<Longrightarrow> domain_at dev' p = None"
  by (auto simp: same_model_def domain_at_def list_all2_lengthD split: if_splits)

lemma named_answer_same:
  assumes "same_model dev dev'"
  shows "named_answer getValue dev domainId itemId = named_answer getValue dev' domainId itemId"
proof (cases "domainPointer dev domainId")
  case None
  then show ?thesis by (simp add: named_answer_def domainPointer_same [OF assms])
next
  case (Some p)
  show ?thesis
  proof (cases "domain_at dev p")
    case None
    with Some show ?thesis
      by (simp add: named_answer_def domainPointer_same [OF assms] domain_at_none_same [OF assms])
  next
    case (Some d)
    then obtain d' where "domain_at dev' p = Some d'" "same_domain d d'" by (rule domain_at_same [OF assms])
    with Some \<open>domainPointer dev domainId = Some p\<close> show ?thesis
      by (simp add: named_answer_def domainPointer_same [OF assms] getNamedVariable_same)
  qed
qed

lemma domain_loop_found:
  "domain_loop ds name i = Some p \<Longrightarrow> i \<le> p \<and> p - i < length ds \<and> find (\<lambda>d. md_domainName d = name) ds = Some (ds ! (p - i))"
proof (induction ds arbitrary: i)
  case (Cons d ds)
  show ?case
  proof (cases "md_domainName d = name")
    case False
    with Cons.prems Cons.IH [of "i + 1"] show ?thesis by (auto simp: nth_Cons')
  qed (use Cons.prems in simp)
qed simp

lemma domainPointer_found:
  assumes "domainPointer dev name = Some p"
  obtains d where "domain_at dev p = Some d" and "MmsDevice_getDomain dev name = Some d" and "p < length (dv_domains dev)"
    and "d = dv_domains dev ! p"
  using domain_loop_found [of "dv_domains dev" name 0 p] assms
  by (auto simp: domainPointer_def domain_at_def MmsDevice_getDomain_def)

lemma domain_at_set:
  "domain_at (sv_device (set_domain server p d)) q =
     (if q = p \<and> domain_at (sv_device server) p \<noteq> None then Some d else domain_at (sv_device server) q)"
  by (auto simp: domain_at_def set_domain_def nth_list_update)

lemma set_domain_same:
  assumes "domain_at (sv_device server) p = Some d" and "same_domain d d'"
  shows "same_model (sv_device server) (sv_device (set_domain server p d'))"
  using assms
  by (auto simp: same_model_def set_domain_def domain_at_def list_all2_conv_all_nth nth_list_update same_domain_def
      split: if_splits)

text \<open>The lists of a domain or connection have different names.\<close>

definition names_distinct :: "MmsNamedVariableList list \<Rightarrow> bool" where
  "names_distinct ls \<longleftrightarrow> distinct (map nl_name ls)"

definition lists_ok :: "service_state \<Rightarrow> bool" where
  "lists_ok = (\<lambda>(server, connection).
     list_all (\<lambda>d. names_distinct (md_namedVariableLists d)) (dv_domains (sv_device server)) \<and>
     names_distinct (sc_namedVariableLists connection))"

lemma variableList_loop_none: "variableList_loop ls name = None \<longleftrightarrow> name \<notin> nl_name ` set ls"
  by (induction ls) (auto simp: MmsNamedVariableList_getName_def)

lemma deleteVariableList_names:
  "names_distinct ls \<Longrightarrow> names_distinct (mmsServer_deleteVariableList ls name)"
proof -
  have "set (mmsServer_deleteVariableList ls name) \<subseteq> set ls" for ls :: "MmsNamedVariableList list"
    by (induction ls) auto
  then show "names_distinct ls \<Longrightarrow> names_distinct (mmsServer_deleteVariableList ls name)"
    unfolding names_distinct_def by (induction ls) auto
qed

lemma deleteVariableList_keeps:
  "variableList_loop ls name = Some v \<Longrightarrow> l \<in> set ls \<Longrightarrow> l \<noteq> v \<Longrightarrow> l \<in> set (mmsServer_deleteVariableList ls name)"
  by (induction ls) (auto split: if_splits)

lemma created_list_name:
  "listEntries_loop device vs l = Some (Some l') \<Longrightarrow> nl_name l' = nl_name l \<and> nl_deletable l' = nl_deletable l"
  by (induction device vs l rule: listEntries_loop.induct)
    (auto simp: MmsNamedVariableList_addVariable_def Let_def split: bind_splits option.splits
      VariableSpecification.splits ObjectName.splits)

text \<open>What the services may do to the lists of a server: the variables stay, names stay different, and a list that is
  not deletable stays.\<close>

definition list_change :: "service_state \<Rightarrow> service_state \<Rightarrow> bool" where
  "list_change s s' \<longleftrightarrow>
     same_model (sv_device (fst s)) (sv_device (fst s')) \<and> (lists_ok s \<longrightarrow> lists_ok s') \<and>
     (\<forall>p d l. domain_at (sv_device (fst s)) p = Some d \<and> l \<in> set (md_namedVariableLists d) \<and> \<not> nl_deletable l \<longrightarrow>
        (\<exists>d'. domain_at (sv_device (fst s')) p = Some d' \<and> l \<in> set (md_namedVariableLists d')))"

lemma list_change_refl [simp]: "list_change s s"
  by (simp add: list_change_def)

lemma list_change_trans: "list_change a b \<Longrightarrow> list_change b c \<Longrightarrow> list_change a c"
  unfolding list_change_def by (meson same_model_trans)

lemma change_domain:
  assumes "domain_at (sv_device server) p = Some d" and "same_domain d d'"
    and "names_distinct (md_namedVariableLists d) \<Longrightarrow> names_distinct (md_namedVariableLists d')"
    and "\<And>l. l \<in> set (md_namedVariableLists d) \<Longrightarrow> \<not> nl_deletable l \<Longrightarrow> l \<in> set (md_namedVariableLists d')"
  shows "list_change (server, connection) (set_domain server p d', connection)"
proof -
  let ?ds = "dv_domains (sv_device server)"
  have p: "p < length ?ds" "d = ?ds ! p" using assms(1) by (auto simp: domain_at_def split: if_splits)
  have "lists_ok (set_domain server p d', connection)" if "lists_ok (server, connection)"
  proof -
    have all: "list_all (\<lambda>d. names_distinct (md_namedVariableLists d)) ?ds" "names_distinct (sc_namedVariableLists connection)"
      using that by (simp_all add: lists_ok_def)
    then have "names_distinct (md_namedVariableLists d')"
      using assms(3) p by (simp add: list_all_length)
    with all have "list_all (\<lambda>d. names_distinct (md_namedVariableLists d)) (?ds[p := d'])"
      using p by (simp add: list_all_length nth_list_update)
    with all(2) show ?thesis by (simp add: lists_ok_def set_domain_def)
  qed
  moreover have "\<exists>e'. domain_at (sv_device (set_domain server p d')) q = Some e' \<and> l \<in> set (md_namedVariableLists e')"
    if "domain_at (sv_device server) q = Some e" "l \<in> set (md_namedVariableLists e)" "\<not> nl_deletable l" for q e l
    using that assms(1,4) by (cases "q = p") (auto simp: domain_at_set)
  ultimately show ?thesis
    using set_domain_same [OF assms(1,2)] by (auto simp: list_change_def)
qed

lemma change_connection:
  assumes "names_distinct (sc_namedVariableLists connection) \<Longrightarrow> names_distinct (sc_namedVariableLists connection')"
  shows "list_change (server, connection) (server, connection')"
  using assms by (auto simp: list_change_def lists_ok_def)

lemma added_distinct:
  "variableList_loop ls (nl_name l) = None \<Longrightarrow> names_distinct ls \<Longrightarrow> names_distinct (ls @ [l])"
  by (auto simp: names_distinct_def variableList_loop_none)

lemma createNamedVariableList_name:
  "createNamedVariableList device request name = Some (Some l) \<Longrightarrow> nl_name l = name \<and> nl_deletable l"
  unfolding createNamedVariableList_def by (drule created_list_name) (simp add: MmsNamedVariableList_create_def copyString_def)

lemma defineInDomain_change:
  assumes "defineInDomain der state request domainId itemId invokeId response = Some (r, state')"
  shows "list_change state state'"
proof (cases "state' = state")
  case False
  obtain server connection where s: "state = (server, connection)" by (cases state)
  obtain p d name l where *: "domain_at (sv_device server) p = Some d" "MmsDomain_getNamedVariableList d name = None"
      "createNamedVariableList (sv_device server) request name = Some (Some l)"
      "state' = (set_domain server p (snd (MmsDomain_addNamedVariableList d l)), connection)"
    using assms False by (auto simp: defineInDomain_def s split: bind_splits option.splits if_splits)
  show ?thesis
    unfolding s *(4)
    using *(2) createNamedVariableList_name [OF *(3)]
    by (intro change_domain [OF *(1)])
      (auto simp: MmsDomain_addNamedVariableList_def same_domain_def added_distinct MmsDomain_getNamedVariableList_def)
qed simp

lemma defineInConnection_change:
  assumes "defineInConnection der state request aaspecific invokeId response = Some (r, state')"
  shows "list_change state state'"
proof (cases "state' = state")
  case False
  obtain server connection where s: "state = (server, connection)" by (cases state)
  obtain name l where *: "MmsServerConnection_getNamedVariableList connection name = None"
      "createNamedVariableList (sv_device server) request name = Some (Some l)"
      "state' = (server, snd (MmsServerConnection_addNamedVariableList connection l))"
    using assms False by (auto simp: defineInConnection_def s split: bind_splits option.splits if_splits)
  show ?thesis
    unfolding s *(3)
    using *(1) createNamedVariableList_name [OF *(2)]
    by (intro change_connection)
      (auto simp: MmsServerConnection_addNamedVariableList_def added_distinct MmsServerConnection_getNamedVariableList_def)
qed simp

lemma deleteName_change:
  assumes "deleteName name state = Some (state', m, k)"
  shows "list_change state state'"
proof (cases "state' = state")
  case False
  obtain server connection where s: "state = (server, connection)" by (cases state)
  show ?thesis
  proof (cases name)
    case (ObjectName_domainspecific domainId itemId)
    obtain p d n v where *: "domain_at (sv_device server) p = Some d" "MmsDomain_getNamedVariableList d n = Some v"
        "nl_deletable v" "state' = (set_domain server p (MmsDomain_deleteNamedVariableList d n), connection)"
      using assms False unfolding ObjectName_domainspecific
      by (auto simp: deleteName_def s MmsNamedVariableList_isDeletable_def split: bind_splits option.splits if_splits)
    show ?thesis
      unfolding s *(4) using *(2,3)
      by (intro change_domain [OF *(1)])
        (auto simp: MmsDomain_deleteNamedVariableList_def same_domain_def deleteVariableList_names
          MmsDomain_getNamedVariableList_def intro!: deleteVariableList_keeps)
  next
    case (ObjectName_aaspecific i)
    obtain n where *: "state' = (server, MmsServerConnection_deleteNamedVariableList connection n)"
      using assms False unfolding ObjectName_aaspecific
      by (auto simp: deleteName_def s split: bind_splits option.splits)
    show ?thesis
      unfolding s * by (rule change_connection)
        (simp add: MmsServerConnection_deleteNamedVariableList_def deleteVariableList_names)
  qed (use assms False in \<open>auto simp: deleteName_def s\<close>)
qed simp

lemma deleteNames_change:
  "deleteNames_loop names state m k = Some (state', m', k') \<Longrightarrow> list_change state state'"
proof (induction names state m k rule: deleteNames_loop.induct)
  case (2 name names state m k)
  then obtain st a b where st: "deleteName name state = Some (st, a, b)"
      "deleteNames_loop names st (m + a) (k + b) = Some (state', m', k')"
    by (auto split: bind_splits)
  show ?case using list_change_trans [OF deleteName_change [OF st(1)] 2(1) [OF st(1) refl refl st(2)]] .
qed simp

text \<open>Requests of a client that change lists, in any order and with any content.\<close>

inductive nvl_step :: "service_state \<Rightarrow> service_state \<Rightarrow> bool" where
  define_list: "mmsServer_handleDefineNamedVariableListRequest der dec state buffer invokeId response = Some (r, state') \<Longrightarrow>
    nvl_step state state'"
| delete_lists: "mmsServer_handleDeleteNamedVariableListRequest der xdec state buffer invokeId response = Some (r, state') \<Longrightarrow>
    nvl_step state state'"

lemma nvl_step_change: "nvl_step s s' \<Longrightarrow> list_change s s'"
proof (induction rule: nvl_step.induct)
  case (define_list der dec state buffer invokeId response r state')
  then show ?case
    by (auto simp: mmsServer_handleDefineNamedVariableListRequest_def split: bind_splits ObjectName.splits
        intro: defineInDomain_change defineInConnection_change)
next
  case (delete_lists der xdec state buffer invokeId response r state')
  then show ?case
    by (auto simp: mmsServer_handleDeleteNamedVariableListRequest_def split: bind_splits if_splits
        dest!: deleteNames_change)
qed

text \<open>Whatever lists clients define and delete, the data sets the server was configured with stay: a list that is not
  deletable is still in its domain, the variables of the domains are the same, and no two lists of a domain or
  of the connection ever get the same name.\<close>

theorem data_sets_protected:
  assumes "nvl_step\<^sup>*\<^sup>* s s'" and "lists_ok s"
  shows "lists_ok s' \<and> same_model (sv_device (fst s)) (sv_device (fst s')) \<and>
    (\<forall>p d l. domain_at (sv_device (fst s)) p = Some d \<and> l \<in> set (md_namedVariableLists d) \<and> \<not> nl_deletable l \<longrightarrow>
      (\<exists>d'. domain_at (sv_device (fst s')) p = Some d' \<and> l \<in> set (md_namedVariableLists d')))"
proof -
  have "list_change s s'"
    using assms(1) by induction (auto intro: list_change_trans nvl_step_change)
  with assms(2) show ?thesis unfolding list_change_def by blast
qed


section \<open>Reading a list that was defined\<close>

definition list_entry :: "MmsDevice \<Rightarrow> cstring \<times> cstring \<Rightarrow> MmsAccessSpecifier" where
  "list_entry device = (\<lambda>(domainId, itemId). \<lparr>as_domain = domainPointer device domainId, as_variableName = itemId,
     as_arrayIndex = -1, as_componentName = None\<rparr>)"

definition short_names :: "(cstring \<times> cstring) list \<Rightarrow> bool" where
  "short_names names \<longleftrightarrow> list_all (\<lambda>(d, i). short_name d \<and> short_name i) names"

lemma listEntries_named:
  "short_names names \<Longrightarrow> listEntries_loop device (map variable_request names) l =
     Some (Some (l\<lparr>nl_listOfVariables := nl_listOfVariables l @ map (list_entry device) names\<rparr>))"
proof (induction names arbitrary: l)
  case (Cons n names)
  obtain d i where n: "n = (d, i)" by (cases n)
  with Cons.prems have "short_name d" "short_name i" "short_names names" by (auto simp: short_names_def)
  with Cons.IH show ?case
    by (simp add: n variable_request_def alternateAccessEntry_def created_name Let_def MmsNamedVariableListEntry_create_def
        copyString_def list_entry_def MmsNamedVariableList_addVariable_def)
qed simp

lemma listVariables_answers:
  assumes "list_all2 (\<lambda>(d, i) v. named_answer getValue device d i = Some v) names vs"
    and "list_all (answers_all getValue device) names"
    and "list_all (\<lambda>(d, i). domainPointer device' d = domainPointer device d \<and> domainPointer device d \<noteq> None) names"
  shows "listVariables_loop junk getValue device (map (list_entry device') names) acc = Some (acc @ vs)"
  using assms
proof (induction names vs arbitrary: acc rule: list_all2_induct)
  case (Cons n ns v vs)
  obtain d i where n: "n = (d, i)" by (cases n)
  obtain p where p: "domainPointer device d = Some p" "domainPointer device' d = Some p" using Cons.prems(2) by (auto simp: n)
  from Cons.hyps(1) obtain dom spec where dom: "domain_at device p = Some dom" "MmsDomain_getNamedVariable dom i = Some spec"
    by (auto simp: n named_answer_def p split: bind_splits)
  have "addNamedVariableToResultList junk getValue spec p i acc None = Some (acc @ [v])"
    using Cons.hyps(1) Cons.prems(1)
    by (cases spec) (auto simp: n named_answer_def answers_all_def p dom addNamedVariable_answer append_result
        addNamedVariableToResultList_def [of _ _ None])
  then show ?case
    using Cons.IH [of "acc @ [v]"] Cons.prems
    by (simp add: n list_entry_def p dom MmsNamedVariableListEntry_getDomain_def MmsNamedVariableListEntry_getVariableName_def)
qed simp

lemma variableList_loop_added:
  "variableList_loop ls (nl_name l) = None \<Longrightarrow> variableList_loop (ls @ [l]) (nl_name l) = Some l"
  by (induction ls) (auto simp: MmsNamedVariableList_getName_def split: if_splits)

text \<open>The request to define a list in a domain, and the one to read it.\<close>

definition define_request :: "cstring \<Rightarrow> cstring \<Rightarrow> (cstring \<times> cstring) list \<Rightarrow> DefineNamedVariableListRequest" where
  "define_request domainId name names = \<lparr>dq_variableListName =
     ObjectName_domainspecific (name_identifier domainId) (name_identifier name), dq_listOfVariable = map variable_request names\<rparr>"

definition list_request :: "cstring \<Rightarrow> cstring \<Rightarrow> bool \<Rightarrow> ReadRequest" where
  "list_request domainId name withResult = \<lparr>rq_specificationWithResult = Some withResult,
     rq_variableAccessSpecification = VariableAccessSpecification_variableListName
       (ObjectName_domainspecific (name_identifier domainId) (name_identifier name))\<rparr>"

definition nvl_spec :: "cstring \<Rightarrow> cstring \<Rightarrow> bool \<Rightarrow> VarAccessSpec option" where
  "nvl_spec domainId name withResult = (if withResult then Some \<lparr>vs_isNamedVariableList = True, vs_specific = 1,
     vs_itemId = name, vs_domainId = Some domainId\<rparr> else None)"

lemma define_accepted:
  assumes "short_name domainId" and "short_name name" and "short_names names"
    and "domainPointer (sv_device server) domainId = Some p" and "domain_at (sv_device server) p = Some d"
    and "MmsDomain_getNamedVariableList d name = None" and "length (define_pdu invokeId) \<le> length (bb_buffer response)"
    and "dec buffer = (True, Some (define_request domainId name names))"
  shows "mmsServer_handleDefineNamedVariableListRequest der dec (server, connection) buffer invokeId response =
    map_option (\<lambda>r. (r, set_domain server p (d\<lparr>md_namedVariableLists := md_namedVariableLists d @
      [\<lparr>nl_deletable = True, nl_name = name, nl_listOfVariables = map (list_entry (sv_device server)) names\<rparr>]\<rparr>), connection))
      (put_bytes (define_pdu invokeId) response)"
  using assms
  by (simp add: mmsServer_handleDefineNamedVariableListRequest_def decoded_or_reject_def define_request_def defineInDomain_def
      created_name createNamedVariableList_def listEntries_named createDefineResponse_eq MmsNamedVariableList_create_def
      copyString_def MmsDomain_addNamedVariableList_def put_bytes_def)

abbreviation server_values ::
  "(MmsDomain \<Rightarrow> cstring \<Rightarrow> MmsServerConnection \<Rightarrow> MmsValue option) option \<Rightarrow> sMmsServer \<Rightarrow> MmsServerConnection \<Rightarrow> get_value" where
  "server_values readHandler server self \<equiv>
     (\<lambda>domain itemId. mmsServer_getValue readHandler (sv_valueCaches server) domain itemId self)"

lemma read_list_eq:
  assumes "short_name domainId" and "short_name name" and "MmsDevice_getDomain (sv_device server) domainId = Some d"
    and "MmsDomain_getNamedVariableList d name = Some l" and "dec buffer = Some (list_request domainId name withResult)"
  shows "mmsServer_handleReadRequest der dec junk readHandler server self connection buffer invokeId response = do {
      vs \<leftarrow> listVariables_loop junk (server_values readHandler server self) (sv_device server) (nl_listOfVariables l) [];
      encodeReadResponse der connection invokeId response vs (nvl_spec domainId name withResult)
    }"
  using assms
  by (simp add: mmsServer_handleReadRequest_def list_request_def handleReadNamedVariableListRequest_def
      name_identifier_short createNamedVariableListResponse_def isSpecWithResult_def nvl_spec_def
      MmsNamedVariableList_getVariableList_def)

text \<open>The server after the list was defined.\<close>

definition with_list :: "sMmsServer \<Rightarrow> MmsDomain \<Rightarrow> sMmsDomain \<Rightarrow> cstring \<Rightarrow> (cstring \<times> cstring) list \<Rightarrow> sMmsServer" where
  "with_list server p d name names = set_domain server p (d\<lparr>md_namedVariableLists := md_namedVariableLists d @
     [\<lparr>nl_deletable = True, nl_name = name, nl_listOfVariables = map (list_entry (sv_device server)) names\<rparr>]\<rparr>)"

lemma with_list_facts:
  assumes "domainPointer (sv_device server) domainId = Some p" and "domain_at (sv_device server) p = Some d"
    and "MmsDomain_getNamedVariableList d name = None"
  shows "same_model (sv_device server) (sv_device (with_list server p d name names))"
    and "sv_valueCaches (with_list server p d name names) = sv_valueCaches server"
    and "\<exists>d'. MmsDevice_getDomain (sv_device (with_list server p d name names)) domainId = Some d' \<and>
      MmsDomain_getNamedVariableList d' name = Some \<lparr>nl_deletable = True, nl_name = name,
        nl_listOfVariables = map (list_entry (sv_device server)) names\<rparr>"
proof -
  let ?d = "d\<lparr>md_namedVariableLists := md_namedVariableLists d @
     [\<lparr>nl_deletable = True, nl_name = name, nl_listOfVariables = map (list_entry (sv_device server)) names\<rparr>]\<rparr>"
  show same: "same_model (sv_device server) (sv_device (with_list server p d name names))"
    unfolding with_list_def by (rule set_domain_same [OF assms(2)]) (simp add: same_domain_def)
  show "sv_valueCaches (with_list server p d name names) = sv_valueCaches server"
    by (simp add: with_list_def set_domain_def)
  have "domainPointer (sv_device (with_list server p d name names)) domainId = Some p"
    using assms(1) by (simp add: domainPointer_same [OF same])
  then have "MmsDevice_getDomain (sv_device (with_list server p d name names)) domainId = Some ?d"
    by (rule domainPointer_found) (auto simp: with_list_def domain_at_set assms(2))
  moreover have "MmsDomain_getNamedVariableList ?d name = Some \<lparr>nl_deletable = True, nl_name = name,
      nl_listOfVariables = map (list_entry (sv_device server)) names\<rparr>"
    using assms(3) variableList_loop_added [of "md_namedVariableLists d" "\<lparr>nl_deletable = True, nl_name = name,
      nl_listOfVariables = map (list_entry (sv_device server)) names\<rparr>"] by (simp add: MmsDomain_getNamedVariableList_def)
  ultimately show "\<exists>d'. MmsDevice_getDomain (sv_device (with_list server p d name names)) domainId = Some d' \<and>
      MmsDomain_getNamedVariableList d' name = Some \<lparr>nl_deletable = True, nl_name = name,
        nl_listOfVariables = map (list_entry (sv_device server)) names\<rparr>" by blast
qed

lemma answers_all_same:
  assumes "same_model dev dev'" and "answers_all getValue dev n" and "domainPointer dev (fst n) \<noteq> None"
  shows "answers_all getValue dev' n"
proof -
  obtain d i where n: "n = (d, i)" by (cases n)
  obtain p where p: "domainPointer dev d = Some p" using assms(3) by (auto simp: n)
  then obtain dom where dom: "domain_at dev p = Some dom" by (rule domainPointer_found)
  obtain dom' where "domain_at dev' p = Some dom'" "same_domain dom dom'" by (rule domain_at_same [OF assms(1) dom])
  with assms(2) p dom show ?thesis
    by (simp add: n answers_all_def domainPointer_same [OF assms(1), symmetric] getNamedVariable_same)
qed

text \<open>C11: A client that defines a list of known variables and reads it gets what reading the variables one by one gives, in the
  order of the definition, with the name of the list in front if it asks for it; the definition is answered with success and
  changes nothing but the lists of the domain.\<close>

theorem data_set_read:
  assumes names: "short_name domainId" "short_name name" "short_names names"
    and place: "domainPointer (sv_device server) domainId = Some p" "domain_at (sv_device server) p = Some d"
      "MmsDomain_getNamedVariableList d name = None"
    and known: "list_all (\<lambda>(d, i). domainPointer (sv_device server) d \<noteq> None) names"
    and vals: "list_all2 (\<lambda>(d, i) v. named_answer (server_values readHandler server self) (sv_device server) d i = Some v) names vs"
      "list_all (answers_all (server_values readHandler server self) (sv_device server)) names" "answerable vs"
    and requests: "dec buffer = (True, Some (define_request domainId name names))"
      "rdec rbuffer = Some (list_request domainId name withResult)"
    and space: "length (define_pdu invokeId) \<le> length (bb_buffer response)"
      "sc_maxPduSize connection \<le> int (length (bb_buffer response))"
      "int (length (read_pdu rInvokeId (nvl_spec domainId name withResult) vs)) \<le> sc_maxPduSize connection"
  shows "\<exists>r server' r'.
      mmsServer_handleDefineNamedVariableListRequest der dec (server, connection) buffer invokeId response =
        Some (r, server', connection) \<and> bb_content r = define_pdu invokeId \<and>
      same_model (sv_device server) (sv_device server') \<and> sv_valueCaches server' = sv_valueCaches server \<and>
      mmsServer_handleReadRequest der rdec junk readHandler server' self connection rbuffer rInvokeId response = Some r' \<and>
      bb_content r' = read_pdu rInvokeId (nvl_spec domainId name withResult) vs"
proof -
  let ?s = "with_list server p d name names"
  note facts = with_list_facts [OF place, of names]
  obtain d' where d': "MmsDevice_getDomain (sv_device ?s) domainId = Some d'" "MmsDomain_getNamedVariableList d' name =
      Some \<lparr>nl_deletable = True, nl_name = name, nl_listOfVariables = map (list_entry (sv_device server)) names\<rparr>"
    using facts(3) by blast
  have "listVariables_loop junk (server_values readHandler server self) (sv_device ?s)
      (map (list_entry (sv_device server)) names) [] = Some ([] @ vs)"
  proof (rule listVariables_answers)
    show "list_all2 (\<lambda>(d, i) v. named_answer (server_values readHandler server self) (sv_device ?s) d i = Some v) names vs"
      using vals(1) by (simp add: named_answer_same [OF facts(1)])
    show "list_all (answers_all (server_values readHandler server self) (sv_device ?s)) names"
      using vals(2) known answers_all_same [OF facts(1)] by (auto simp: list_all_iff)
    show "list_all (\<lambda>(d, i). domainPointer (sv_device server) d = domainPointer (sv_device ?s) d \<and>
        domainPointer (sv_device ?s) d \<noteq> None) names"
      using known by (simp add: domainPointer_same [OF facts(1)])
  qed
  then have "mmsServer_handleReadRequest der rdec junk readHandler ?s self connection rbuffer rInvokeId response =
      encodeReadResponse der connection rInvokeId response vs (nvl_spec domainId name withResult)"
    by (simp add: read_list_eq [where dec = rdec, OF names(1,2) d' requests(2)] facts(2))
  moreover have "spec_named (nvl_spec domainId name withResult)" by (simp add: spec_named_def nvl_spec_def)
  ultimately show ?thesis
    using define_accepted [where dec = dec and der = der and connection = connection, OF names place space(1) requests(1),
        folded with_list_def] facts(1,2)
      encodeReadResponse_eq [OF vals(3), of "nvl_spec domainId name withResult" der connection rInvokeId response] space
    by (simp add: put_bytes_def bb_content_def)
qed

theorem data_set_read_witness:
  "\<exists>r server' r'.
      mmsServer_handleDefineNamedVariableListRequest (\<lambda>_. [])
        (\<lambda>_. (True, Some (define_request [0x44] [0x4c] [([0x44], [0x78]), ([0x44], [0x79])])))
        (read_server, MmsServerConnection_init\<lparr>sc_maxPduSize := 50\<rparr>) [] 7 (ByteBuffer_create 50) =
        Some (r, server', MmsServerConnection_init\<lparr>sc_maxPduSize := 50\<rparr>) \<and> bb_content r = define_pdu 7 \<and>
      same_model (sv_device read_server) (sv_device server') \<and> sv_valueCaches server' = sv_valueCaches read_server \<and>
      mmsServer_handleReadRequest (\<lambda>_. []) (\<lambda>_. Some (list_request [0x44] [0x4c] False)) (\<lambda>_. 0) None server' 0
        (MmsServerConnection_init\<lparr>sc_maxPduSize := 50\<rparr>) [] 7 (ByteBuffer_create 50) = Some r' \<and>
      bb_content r' = read_pdu 7 (nvl_spec [0x44] [0x4c] False) [MmsValue 0 (V_boolean True), object_missing]"
proof (rule data_set_read [where p = 0 and d = "dv_domains demo_device ! 0"])
  have bytes: "uint32_bytes 7 = [7]" "uint32_bytes 10 = [10]" by code_simp+
  show "length (define_pdu 7) \<le> length (bb_buffer (ByteBuffer_create 50))"
    by (simp add: define_pdu_def tlv_bytes_def tl_bytes_small bytes ByteBuffer_create_def)
  show "int (length (read_pdu 7 (nvl_spec [0x44] [0x4c] False) [MmsValue 0 (V_boolean True), object_missing])) \<le>
      sc_maxPduSize (MmsServerConnection_init\<lparr>sc_maxPduSize := 50\<rparr>)"
    by (simp add: nvl_spec_def read_pdu_def spec_bytes_def object_missing_def tlv_bytes_def tl_bytes_small bytes)
  show "answerable [MmsValue 0 (V_boolean True), object_missing]" by (simp add: answerable_def object_missing_def)
qed (use demo_answers in \<open>simp_all add: short_name_def short_names_def read_server_def demo_device_def MmsDevice_create_def
    MmsDomain_create_def copyString_def domainPointer_def domain_at_def MmsDomain_getNamedVariableList_def
    ByteBuffer_create_def\<close>)

text \<open>C39: A list may be defined with a variable of a domain that does not exist; the client is told of success, and the next read
  of the list has undefined behaviour, since the missing domain is a null pointer that is followed.\<close>

theorem data_set_unknown_domain:
  assumes names: "short_name domainId" "short_name name" "short_names ((unknown, item) # names)"
    and place: "domainPointer (sv_device server) domainId = Some p" "domain_at (sv_device server) p = Some d"
      "MmsDomain_getNamedVariableList d name = None"
    and unknown: "domainPointer (sv_device server) unknown = None"
    and requests: "dec buffer = (True, Some (define_request domainId name ((unknown, item) # names)))"
      "rdec rbuffer = Some (list_request domainId name withResult)"
    and space: "length (define_pdu invokeId) \<le> length (bb_buffer response)"
  shows "\<exists>r server'.
      mmsServer_handleDefineNamedVariableListRequest der dec (server, connection) buffer invokeId response =
        Some (r, server', connection) \<and> bb_content r = define_pdu invokeId \<and>
      mmsServer_handleReadRequest der rdec junk readHandler server' self connection rbuffer rInvokeId rResponse = None"
proof -
  let ?s = "with_list server p d name ((unknown, item) # names)"
  note facts = with_list_facts [OF place, of "(unknown, item) # names"]
  obtain d' where d': "MmsDevice_getDomain (sv_device ?s) domainId = Some d'" "MmsDomain_getNamedVariableList d' name =
      Some \<lparr>nl_deletable = True, nl_name = name, nl_listOfVariables = map (list_entry (sv_device server)) ((unknown, item) # names)\<rparr>"
    using facts(3) by blast
  have "mmsServer_handleReadRequest der rdec junk readHandler ?s self connection rbuffer rInvokeId rResponse = None"
    by (simp add: read_list_eq [where dec = rdec, OF names(1,2) d' requests(2)] list_entry_def unknown
        MmsNamedVariableListEntry_getDomain_def)
  then show ?thesis
    using define_accepted [where dec = dec and der = der and connection = connection, OF names place space requests(1),
        folded with_list_def] space by (simp add: put_bytes_def bb_content_def)
qed

theorem data_set_unknown_domain_witness:
  "\<exists>r server'.
      mmsServer_handleDefineNamedVariableListRequest (\<lambda>_. [])
        (\<lambda>_. (True, Some (define_request [0x44] [0x4c] [([0x45], [0x78])])))
        (read_server, MmsServerConnection_init) [] 7 (ByteBuffer_create 50) =
        Some (r, server', MmsServerConnection_init) \<and> bb_content r = define_pdu 7 \<and>
      mmsServer_handleReadRequest (\<lambda>_. []) (\<lambda>_. Some (list_request [0x44] [0x4c] False)) (\<lambda>_. 0) None server' 0
        MmsServerConnection_init [] 7 (ByteBuffer_create 50) = None"
proof (rule data_set_unknown_domain [where p = 0 and d = "dv_domains demo_device ! 0"])
  have bytes: "uint32_bytes 7 = [7]" by code_simp
  show "length (define_pdu 7) \<le> length (bb_buffer (ByteBuffer_create 50))"
    by (simp add: define_pdu_def tlv_bytes_def tl_bytes_small bytes ByteBuffer_create_def)
qed (simp_all add: short_name_def short_names_def read_server_def demo_device_def MmsDevice_create_def
    MmsDomain_create_def copyString_def domainPointer_def domain_at_def MmsDomain_getNamedVariableList_def)

definition static_list :: MmsNamedVariableList where
  "static_list = \<lparr>nl_deletable = False, nl_name = [0x53], nl_listOfVariables = []\<rparr>"

definition static_domain :: sMmsDomain where
  "static_domain = (MmsDomain_create [0x44])\<lparr>md_namedVariableLists := [static_list]\<rparr>"

definition static_server :: sMmsServer where
  "static_server = read_server\<lparr>sv_device := (MmsDevice_create None)\<lparr>dv_domains := [static_domain]\<rparr>\<rparr>"

lemma static_facts:
  "domainPointer (sv_device static_server) [0x44] = Some 0" "domain_at (sv_device static_server) 0 = Some static_domain"
  "MmsDomain_getNamedVariableList static_domain [0x4c] = None" "lists_ok (static_server, MmsServerConnection_init)"
  by (simp_all add: static_server_def static_domain_def static_list_def MmsDevice_create_def MmsDomain_create_def copyString_def
      domainPointer_def domain_at_def MmsDomain_getNamedVariableList_def MmsNamedVariableList_getName_def lists_ok_def
      names_distinct_def MmsServerConnection_init_def)

text \<open>A client defines a list and then tries to delete the one that was configured.\<close>

lemma static_run:
  defines "s1 \<equiv> (with_list static_server 0 static_domain [0x4c] [], MmsServerConnection_init)"
  shows "nvl_step (static_server, MmsServerConnection_init) s1" and "nvl_step s1 s1"
proof -
  have bytes: "uint32_bytes 7 = [7]" "uint32_bytes 1 = [1]" "uint32_bytes 0 = [0]" by code_simp+
  have short: "short_name [0x44]" "short_name [0x4c]" "short_name [0x53]" "short_names []"
    by (simp_all add: short_name_def short_names_def)
  have "length (define_pdu 7) \<le> length (bb_buffer (ByteBuffer_create 50))"
    by (simp add: define_pdu_def tlv_bytes_def tl_bytes_small bytes ByteBuffer_create_def)
  from define_accepted [where dec = "\<lambda>_. (True, Some (define_request [0x44] [0x4c] []))" and der = "\<lambda>_. []" and
      connection = MmsServerConnection_init and buffer = "[]", OF short(1,2,4) static_facts(1-3) this refl,
      folded with_list_def] this
  show "nvl_step (static_server, MmsServerConnection_init) s1"
    unfolding s1_def by (auto simp: put_bytes_def intro!: nvl_step.define_list)
  let ?s = "with_list static_server 0 static_domain [0x4c] []"
  have del: "length (delete_pdu 7 1 0) \<le> 50"
    by (simp add: delete_pdu_def tlv_bytes_def tl_bytes_small bytes)
  note same = domainPointer_same [OF with_list_facts(1) [OF static_facts(1-3), of "[]"], symmetric]
  have at: "domain_at (sv_device ?s) 0 = Some (static_domain\<lparr>md_namedVariableLists := [static_list,
      \<lparr>nl_deletable = True, nl_name = [0x4c], nl_listOfVariables = []\<rparr>]\<rparr>)"
    by (simp add: with_list_def domain_at_set static_facts(2)) (simp add: static_domain_def)
  have "deleteName (ObjectName_domainspecific (name_identifier [0x44]) (name_identifier [0x53])) s1 = Some (s1, 1, 0)"
    unfolding s1_def deleteName_def
    by (simp add: name_identifier_short short same static_facts(1) at MmsDomain_getNamedVariableList_def
        MmsNamedVariableList_getName_def MmsNamedVariableList_isDeletable_def static_list_def)
  then have "mmsServer_handleDeleteNamedVariableListRequest (\<lambda>_. []) (\<lambda>_. (True, Some \<lparr>xq_scopeOfDelete = Some 0,
      xq_listOfVariableListName = Some [ObjectName_domainspecific (name_identifier [0x44]) (name_identifier [0x53])]\<rparr>))
      s1 [] 7 (ByteBuffer_create 50) = map_option (\<lambda>r. (r, s1)) (put_bytes (delete_pdu 7 1 0) (ByteBuffer_create 50))"
    by (simp add: mmsServer_handleDeleteNamedVariableListRequest_def decoded_or_reject_def createDeleteResponse_eq)
      (simp add: put_bytes_def)
  with del show "nvl_step s1 s1"
    by (auto simp: put_bytes_def ByteBuffer_create_def intro!: nvl_step.delete_lists)
qed

theorem data_sets_protected_witness:
  "\<exists>s'. nvl_step\<^sup>*\<^sup>* (static_server, MmsServerConnection_init) s' \<and> lists_ok s' \<and>
    (\<exists>d'. domain_at (sv_device (fst s')) 0 = Some d' \<and> static_list \<in> set (md_namedVariableLists d'))"
proof -
  let ?s = "(with_list static_server 0 static_domain [0x4c] [], MmsServerConnection_init)"
  have run: "nvl_step\<^sup>*\<^sup>* (static_server, MmsServerConnection_init) ?s"
    using static_run by (meson rtranclp.simps)
  have "static_list \<in> set (md_namedVariableLists static_domain)" "\<not> nl_deletable static_list"
    by (simp_all add: static_domain_def static_list_def)
  with data_sets_protected [OF run static_facts(4)] static_facts(2) run show ?thesis by fastforce
qed


section \<open>Descriptions of types\<close>

text \<open>What a client makes of a description (\<open>src/src/mms/iso_mms/client/mms_client_get_var_access.c\<close>). Its result is
  \<open>None\<close> where the client has no description of the kind the type stands for: it reports an unknown type and
  returns an array without element type, or the count of an array is not one of an \<open>int\<close>, or negative.\<close>

definition renamed :: "cstring option \<Rightarrow> MmsVariableSpecification \<Rightarrow> MmsVariableSpecification" where
  "renamed name self = MmsVariableSpecification name (typeSpec self)"

fun client_createTypeSpecification :: "TypeSpecification \<Rightarrow> MmsVariableSpecification option"
  and client_components_loop :: "(cstring \<times> TypeSpecification) list \<Rightarrow> MmsVariableSpecification list option"
where
  "client_createTypeSpecification asnTypeSpec =
     (case asnTypeSpec of
        TS_structure list \<Rightarrow>
          map_option (\<lambda>elements. MmsVariableSpecification None (T_structure elements)) (client_components_loop list)
      | TS_array elementCount elementType \<Rightarrow>
          (if 0 \<le> elementCount \<and> elementCount < 2 ^ 31
           then map_option (\<lambda>e. MmsVariableSpecification None (T_array (nat elementCount) e))
                  (client_createTypeSpecification elementType)
           else None)
      | TS_boolean \<Rightarrow> Some (MmsVariableSpecification None T_boolean)
      | TS_bitstring n \<Rightarrow> Some (MmsVariableSpecification None (T_bitString (to_int32 n)))
      | TS_integer n \<Rightarrow> Some (MmsVariableSpecification None (T_integer (to_int32 n)))
      | TS_unsigned n \<Rightarrow> Some (MmsVariableSpecification None (T_unsigned (to_int32 n)))
      | TS_floatingpoint formatwidth exponentwidth \<Rightarrow>
          Some (MmsVariableSpecification None (T_float (word_of_int exponentwidth) (word_of_int formatwidth)))
      | TS_octetstring n \<Rightarrow> Some (MmsVariableSpecification None (T_octetString (to_int32 n)))
      | TS_visiblestring n \<Rightarrow> Some (MmsVariableSpecification None (T_visibleString (to_int32 n)))
      | TS_mMSString n \<Rightarrow> Some (MmsVariableSpecification None (T_mmsString (to_int32 n)))
      | TS_utctime \<Rightarrow> Some (MmsVariableSpecification None T_utcTime)
      | TS_binarytime binarytime \<Rightarrow>
          Some (MmsVariableSpecification None (T_binaryTime (if \<not> binarytime then 4 else 6)))
      | TS_NOTHING \<Rightarrow> None)"
| "client_components_loop [] = Some []"
| "client_components_loop (component # list) = do {
     name \<leftarrow> createStringFromBuffer (fst component) (length (fst component));
     e \<leftarrow> client_createTypeSpecification (snd component);
     elements \<leftarrow> client_components_loop list;
     Some (renamed (Some name) e # elements)
   }"

text \<open>The types a description exists for: not the kinds MMS has no descriptions of here, and the components of a
  structure have names. Sizes are those of an \<open>int\<close>, names are C strings.\<close>

definition int32 :: "int \<Rightarrow> bool" where
  "int32 n \<longleftrightarrow> INT_MIN \<le> n \<and> n \<le> INT_MAX"

fun describable :: "MmsVariableSpecification \<Rightarrow> bool" where
  "describable (MmsVariableSpecification _ t) =
     (case t of
        T_array n e \<Rightarrow> n < 2 ^ 31 \<and> describable e
      | T_structure es \<Rightarrow>
          list_all (\<lambda>e. (case spec_name e of None \<Rightarrow> False | Some name \<Rightarrow> 0 \<notin> set name) \<and> describable e) es
      | T_bitString n \<Rightarrow> int32 n
      | T_integer n \<Rightarrow> int32 n
      | T_unsigned n \<Rightarrow> int32 n
      | T_octetString n \<Rightarrow> int32 n
      | T_visibleString n \<Rightarrow> int32 n
      | T_mmsString n \<Rightarrow> int32 n
      | T_generalizedTime \<Rightarrow> False
      | T_bcd \<Rightarrow> False
      | T_objId \<Rightarrow> False
      | T_dataAccessError \<Rightarrow> False
      | _ \<Rightarrow> True)"

text \<open>What a description leaves out of a type: the name of the type of the elements of an array, and all of the
  width of a binary time but whether it is 6.\<close>

fun as_described :: "MmsVariableSpecification \<Rightarrow> MmsVariableSpecification" where
  "as_described (MmsVariableSpecification n t) = MmsVariableSpecification n
     (case t of
        T_array count e \<Rightarrow> T_array count (renamed None (as_described e))
      | T_structure es \<Rightarrow> T_structure (map as_described es)
      | T_binaryTime w \<Rightarrow> T_binaryTime (if w = 6 then 6 else 4)
      | _ \<Rightarrow> t)"

lemma as_described_name [simp]: "spec_name (as_described e) = spec_name e"
  by (cases e) simp

lemma renamed_name [simp]: "renamed (spec_name e) e = e" "renamed n (renamed m e) = renamed n e"
  by (simp_all add: renamed_def)

lemma conforms_renamed [simp]: "conforms (renamed n e) v = conforms e v"
  by (cases e; cases v) (simp add: renamed_def)

lemma to_int32_int32 [simp]: "int32 n \<Longrightarrow> to_int32 n = n"
  by (simp add: int32_def)

lemma name_of_component [simp]: "0 \<notin> set name \<Longrightarrow> createStringFromBuffer (copyString name) (length (copyString name)) = Some name"
  by (auto simp: createStringFromBuffer_def copyString_def rd_n_def takeWhile_eq_all_conv)

lemma leaf_kept:
  assumes "describable (MmsVariableSpecification n k)"
    and "\<And>c e. k \<noteq> T_array c e" and "\<And>es. k \<noteq> T_structure es"
  shows "\<exists>t. createTypeSpecification (MmsVariableSpecification n k) = Some t \<and>
    client_createTypeSpecification t = Some (renamed None (as_described (MmsVariableSpecification n k)))"
  using assms by (cases k) (auto simp: renamed_def)

lemma list_kept:
  assumes "list_all (\<lambda>e. (case spec_name e of None \<Rightarrow> False | Some name \<Rightarrow> 0 \<notin> set name) \<and> describable e) es"
    and "\<And>e. e \<in> set es \<Longrightarrow> describable e \<Longrightarrow>
      \<exists>t. createTypeSpecification e = Some t \<and> client_createTypeSpecification t = Some (renamed None (as_described e))"
  shows "\<exists>ts. components_loop es = Some ts \<and> client_components_loop ts = Some (map as_described es)"
  using assms
proof (induction es)
  case (Cons e es)
  then obtain ts name where "components_loop es = Some ts" "client_components_loop ts = Some (map as_described es)"
      "spec_name e = Some name" "0 \<notin> set name" "describable e"
    by (auto split: option.splits)
  moreover obtain t where "createTypeSpecification e = Some t"
      "client_createTypeSpecification t = Some (renamed None (as_described e))"
    using Cons.prems(2) [of e] calculation(5) by auto
  moreover have "renamed (Some name) (as_described e) = as_described e"
    using renamed_name(1) [of "as_described e"] calculation(3) by simp
  ultimately show ?case by (simp del: client_createTypeSpecification.simps)
qed simp

lemma description_kept:
  "describable a \<Longrightarrow>
   \<exists>t. createTypeSpecification a = Some t \<and> client_createTypeSpecification t = Some (renamed None (as_described a))"
proof (induction a rule: as_described.induct)
  case (1 n k)
  show ?case
  proof (cases k)
    case (T_array c e)
    with 1(1) [OF T_array] 1(3) obtain t where "c < 2 ^ 31" "createTypeSpecification e = Some t"
        "client_createTypeSpecification t = Some (renamed None (as_described e))"
      by auto
    then show ?thesis
      by (simp add: T_array renamed_def client_createTypeSpecification.simps [of "TS_array _ _"]
          del: client_createTypeSpecification.simps)
  next
    case (T_structure es)
    with 1(2) [OF T_structure] 1(3) list_kept [of es] show ?thesis
      by (auto simp: renamed_def simp del: client_createTypeSpecification.simps
          simp: client_createTypeSpecification.simps [of "TS_structure _"])
  qed (use leaf_kept [OF 1(3)] in blast)+
qed

lemma as_described_conforms: "conforms (as_described a) v = conforms a v"
proof (induction a arbitrary: v rule: as_described.induct)
  case (1 n k v)
  obtain x u where v: "v = MmsValue x u" by (cases v)
  show ?case
  proof (cases k)
    case (T_array c e)
    have "all_components (conforms (renamed None (as_described e))) cs = all_components (conforms e) cs" for cs
      using 1(1) [OF T_array] by (intro all_components_cong) auto
    then show ?thesis by (cases u) (simp_all add: v T_array)
  next
    case (T_structure es)
    have "conforms_list (map as_described es) cs = conforms_list es cs" for cs
      unfolding list_all2_map1 using 1(2) [OF T_structure]
      by (intro list.rel_cong) (auto split: option.splits)
    then show ?thesis by (cases u) (simp_all add: v T_structure)
  qed (simp_all add: v)
qed

text \<open>C40: A client that asks for the type of a variable gets the type the server has: the description the server makes
  (\<open>createTypeSpecification\<close> of the server), read by \<open>createTypeSpecification\<close> of the client, is the type again, at
  every level, with the names of all components in their order, the sizes, and the widths of floating point numbers,
  and so the values of the client's type are exactly those of the variable. What is lost: the name at the top and
  of the element type of an array; and of the width of a binary time remains whether it is 6, so that the type of
  another width, like the width 0 that \<open>createBufferedReportControlBlock\<close> leaves in \<open>TimeOfEntry\<close>, whose value has 6
  octets, arrives as one of 4 octets. The types are those with a description here, with sizes of an \<open>int\<close>, and
  the encoding of the description is not part of this.\<close>

theorem type_description_roundtrip:
  assumes "describable a"
  shows "\<exists>t s. createTypeSpecification a = Some t \<and> client_createTypeSpecification t = Some s \<and>
    s = renamed None (as_described a) \<and> (\<forall>v. conforms s v \<longleftrightarrow> conforms a v)"
  using description_kept [OF assms] by (auto simp del: client_createTypeSpecification.simps simp: as_described_conforms)

definition demo_type :: MmsVariableSpecification where
  "demo_type = MmsVariableSpecification (Some [0x4d]) (T_structure
     [MmsVariableSpecification (Some [0x66]) (T_float 8 32),
      MmsVariableSpecification (Some [0x61]) (T_array 2 (MmsVariableSpecification (Some [0x78]) (T_structure
        [MmsVariableSpecification (Some [0x71]) (T_bitString (-13)),
         MmsVariableSpecification (Some [0x74]) (T_binaryTime 0)]))),
      MmsVariableSpecification (Some [0x69]) (T_integer 32)])"

theorem type_description_roundtrip_witness:
  "\<exists>t. createTypeSpecification demo_type = Some t \<and> client_createTypeSpecification t =
     Some (MmsVariableSpecification None (T_structure
       [MmsVariableSpecification (Some [0x66]) (T_float 8 32),
        MmsVariableSpecification (Some [0x61]) (T_array 2 (MmsVariableSpecification None (T_structure
          [MmsVariableSpecification (Some [0x71]) (T_bitString (-13)),
           MmsVariableSpecification (Some [0x74]) (T_binaryTime 4)]))),
        MmsVariableSpecification (Some [0x69]) (T_integer 32)]))"
proof -
  have "describable demo_type" by (simp add: demo_type_def int32_def)
  from type_description_roundtrip [OF this] show ?thesis
    by (auto simp: demo_type_def renamed_def simp del: client_createTypeSpecification.simps
        createTypeSpecification.simps)
qed

end
