(* ===== verification/Mms_Name_List.thy ===== *)
theory Mms_Name_List
  imports Mms_Errors
begin

text \<open>
  The service that lists names (\<open>src/src/mms/iso_mms/server/mms_get_namelist_service.c\<close>): the names of the
  domains, of the variables of a domain with all elements of their structures, and of named variable
  lists. A long list is sent in several responses: a request names the last name received, and gets
  the names behind it as far as they fit.
\<close>

section \<open>The names\<close>

definition getNameListVMDSpecific :: "sMmsServer \<Rightarrow> cstring list" where
  "getNameListVMDSpecific server = map md_domainName (dv_domains (sv_device server))"

definition appendMmsSubVariable :: "cstring \<Rightarrow> cstring \<Rightarrow> cstring" where
  "appendMmsSubVariable name child = name @ [0x24] @ child"

text \<open>\<open>nameList\<close> is the list up to the element behind which names are inserted.\<close>

fun addSubNamedVaribleNamesToList :: "cstring list \<Rightarrow> cstring \<Rightarrow> MmsVariableSpecification \<Rightarrow> cstring list option"
  and elementNames_loop :: "cstring list \<Rightarrow> cstring \<Rightarrow> MmsVariableSpecification list \<Rightarrow> cstring list option" where
  "addSubNamedVaribleNamesToList nameList prefix (MmsVariableSpecification n t) =
     (case t of
        T_structure elements \<Rightarrow> elementNames_loop nameList prefix elements
      | _ \<Rightarrow> Some nameList)"
| "elementNames_loop nameList prefix [] = Some nameList"
| "elementNames_loop nameList prefix (variable # variables) = do {
     name \<leftarrow> spec_name variable;
     let variableName = appendMmsSubVariable prefix name;
     nameList \<leftarrow> addSubNamedVaribleNamesToList (nameList @ [variableName]) variableName variable;
     elementNames_loop nameList prefix variables
   }"

fun variableNames_loop :: "cstring list \<Rightarrow> MmsVariableSpecification list \<Rightarrow> cstring list option" where
  "variableNames_loop nameList [] = Some nameList"
| "variableNames_loop nameList (variable # variables) = do {
     prefix \<leftarrow> spec_name variable;
     nameList \<leftarrow> addSubNamedVaribleNamesToList (nameList @ [prefix]) prefix variable;
     variableNames_loop nameList variables
   }"

definition getNameListDomainSpecific :: "sMmsServer \<Rightarrow> cstring \<Rightarrow> cstring list option option" where
  "getNameListDomainSpecific server domainName =
     (case MmsDevice_getDomain (sv_device server) domainName of
        None \<Rightarrow> Some None
      | Some domain \<Rightarrow> do {
          nameList \<leftarrow> variableNames_loop [] (case md_namedVariables domain of None \<Rightarrow> [] | Some vs \<Rightarrow> vs);
          Some (Some nameList)
        })"

definition createStringsFromNamedVariableList :: "MmsNamedVariableList list \<Rightarrow> cstring list" where
  "createStringsFromNamedVariableList variableLists = map MmsNamedVariableList_getName variableLists"

definition getNamedVariableListDomainSpecific :: "sMmsServer \<Rightarrow> cstring \<Rightarrow> cstring list option" where
  "getNamedVariableListDomainSpecific server domainName =
     map_option (\<lambda>domain. createStringsFromNamedVariableList (MmsDomain_getNamedVariableLists domain))
       (MmsDevice_getDomain (sv_device server) domainName)"

definition getNamedVariableListAssociationSpecific :: "sMmsServerConnection \<Rightarrow> cstring list" where
  "getNamedVariableListAssociationSpecific connection =
     createStringsFromNamedVariableList (MmsServerConnection_getNamedVariableLists connection)"


section \<open>The response\<close>

text \<open>\<open>strcmp\<close> of a string with the octets from an address on, which need not be terminated.\<close>

fun strcmp_memory :: "cstring \<Rightarrow> byte list \<Rightarrow> bool option" where
  "strcmp_memory [] (b # memory) = Some (b = 0)"
| "strcmp_memory (c # s) (b # memory) = (if c = b then strcmp_memory s memory else Some False)"
| "strcmp_memory s [] = None"

text \<open>The names behind the one to continue after; \<open>Some None\<close> if it is not in the list.\<close>

fun continue_loop :: "cstring list \<Rightarrow> byte list \<Rightarrow> cstring list option option" where
  "continue_loop [] continueAfter = Some None"
| "continue_loop (name # names) continueAfter = do {
     same \<leftarrow> strcmp_memory name continueAfter;
     if same then Some (Some names) else continue_loop names continueAfter
   }"

text \<open>The names that fit: whether more follow, the size of the identifiers and their number.\<close>

fun nameCount_loop :: "cstring list \<Rightarrow> int \<Rightarrow> int \<Rightarrow> nat \<Rightarrow> nat \<Rightarrow> bool \<times> nat \<times> nat" where
  "nameCount_loop [] estimatedMmsPduLength maxPduSize identifierListSize nameCount =
     (False, identifierListSize, nameCount)"
| "nameCount_loop (name # names) estimatedMmsPduLength maxPduSize identifierListSize nameCount =
     (let elementLength = BerEncoder_determineEncodedStringSize (Some name) in
      if estimatedMmsPduLength + int elementLength > maxPduSize then (True, identifierListSize, nameCount)
      else nameCount_loop names (estimatedMmsPduLength + int elementLength) maxPduSize
        (identifierListSize + elementLength) (nameCount + 1))"

fun encodeNames_loop :: "cstring list \<Rightarrow> nat \<Rightarrow> nat \<Rightarrow> wbuf \<Rightarrow> wbuf option" where
  "encodeNames_loop [] i nameCount w = Some w"
| "encodeNames_loop (name # names) i nameCount w = do {
     w \<leftarrow> BerEncoder_encodeStringWithTag 0x1a (Some name) w;
     if i + 1 = nameCount then Some w else encodeNames_loop names (i + 1) nameCount w
   }"

definition encodeNameList :: "sMmsServerConnection \<Rightarrow> u32 \<Rightarrow> cstring list \<Rightarrow> ByteBuffer \<Rightarrow> ByteBuffer option" where
  "encodeNameList connection invokeId names response = do {
     let (moreFollows, identifierListSize, nameCount) = nameCount_loop names 27 (sc_maxPduSize connection) 0 0;
     let listOfIdentifierSize = 1 + BerEncoder_determineLengthSize identifierListSize + identifierListSize;
     let getNameListSize = listOfIdentifierSize + (if moreFollows then 0 else 3);
     let confirmedServiceResponseSize = 1 + BerEncoder_determineLengthSize getNameListSize + getNameListSize;
     let invokeIdSize = BerEncoder_UInt32determineEncodedSize invokeId + 2;
     let confirmedResponsePDUSize = confirmedServiceResponseSize + invokeIdSize;
     w \<leftarrow> BerEncoder_encodeTL 0xa1 confirmedResponsePDUSize (bb_buffer response, 0);
     w \<leftarrow> BerEncoder_encodeTL 0x02 (invokeIdSize - 2) w;
     w \<leftarrow> BerEncoder_encodeUInt32 invokeId w;
     w \<leftarrow> BerEncoder_encodeTL 0xa1 getNameListSize w;
     w \<leftarrow> BerEncoder_encodeTL 0xa0 identifierListSize w;
     w \<leftarrow> encodeNames_loop names 0 nameCount w;
     (buffer, bufPos) \<leftarrow> (if \<not> moreFollows then BerEncoder_encodeBoolean 0x81 moreFollows w else Some w);
     Some (response\<lparr>bb_buffer := buffer, bb_size := int bufPos\<rparr>)
   }"

text \<open>A list that is \<open>NULL\<close> is dereferenced.\<close>

definition createNameListResponse ::
  "der_encode \<Rightarrow> sMmsServerConnection \<Rightarrow> u32 \<Rightarrow> cstring list option \<Rightarrow> ByteBuffer \<Rightarrow> byte list option \<Rightarrow>
   ByteBuffer option" where
  "createNameListResponse der connection invokeId nameList response continueAfter = do {
     nameList \<leftarrow> nameList;
     (case continueAfter of
        None \<Rightarrow> encodeNameList connection invokeId nameList response
      | Some continueAfter \<Rightarrow> do {
          start \<leftarrow> continue_loop nameList continueAfter;
          (case start of
             None \<Rightarrow> mmsServer_createConfirmedErrorPdu der invokeId response
               MMS_ERROR_ACCESS_OBJECT_ACCESS_UNSUPPORTED
           | Some names \<Rightarrow> encodeNameList connection invokeId names response)
        })
   }"


section \<open>The request\<close>

abbreviation (input) OBJECT_CLASS_NAMED_VARIABLE :: int where "OBJECT_CLASS_NAMED_VARIABLE \<equiv> 0"
abbreviation (input) OBJECT_CLASS_NAMED_VARIABLE_LIST :: int where "OBJECT_CLASS_NAMED_VARIABLE_LIST \<equiv> 2"

abbreviation (input) OBJECT_SCOPE_VMD :: int where "OBJECT_SCOPE_VMD \<equiv> 0"
abbreviation (input) OBJECT_SCOPE_DOMAIN :: int where "OBJECT_SCOPE_DOMAIN \<equiv> 1"
abbreviation (input) OBJECT_SCOPE_ASSOCIATION :: int where "OBJECT_SCOPE_ASSOCIATION \<equiv> 2"

text \<open>The variables of the handler; names are positions in the request with their lengths. \<open>nr_reject\<close> is
  set on the return with a reject message.\<close>

record NameListRequest =
  nr_objectClass :: int
  nr_objectScope :: int
  nr_domainId :: "(int \<times> int) option"
  nr_continueAfter :: "(int \<times> int) option"
  nr_reject :: bool

definition nameListElement ::
  "byte list \<Rightarrow> int \<Rightarrow> NameListRequest \<Rightarrow> int \<Rightarrow> (int option \<times> NameListRequest) option" where
  "nameListElement buffer maxBufPos r bufPos = do {
     tag \<leftarrow> rd buffer bufPos;
     (bufPos, len) \<leftarrow> BerDecoder_decodeLength buffer None (bufPos + 1) maxBufPos;
     if bufPos < 0 then Some (None, r)
     else if tag = 0xa0 then do {
       len \<leftarrow> rd buffer (bufPos + 1);
       objectClass \<leftarrow> BerDecoder_decodeUint32 buffer (uint len) (bufPos + 2);
       bufPos \<leftarrow> add_int (bufPos + 2) (uint len);
       Some (Some bufPos, r\<lparr>nr_objectClass := sint objectClass\<rparr>)
     }
     else if tag = 0xa1 then do {
       objectScopeTag \<leftarrow> rd buffer bufPos;
       (bufPos, len) \<leftarrow> BerDecoder_decodeLength buffer len (bufPos + 1) maxBufPos;
       if objectScopeTag = 0x80 then do {
         len \<leftarrow> len;
         bufPos \<leftarrow> add_int bufPos len;
         Some (Some bufPos, r\<lparr>nr_objectScope := OBJECT_SCOPE_VMD\<rparr>)
       }
       else if objectScopeTag = 0x81 then do {
         len \<leftarrow> len;
         let r = r\<lparr>nr_domainId := Some (bufPos, len), nr_objectScope := OBJECT_SCOPE_DOMAIN\<rparr>;
         bufPos \<leftarrow> add_int bufPos len;
         Some (Some bufPos, r)
       }
       else if objectScopeTag = 0x82 then do {
         len \<leftarrow> len;
         bufPos \<leftarrow> add_int bufPos len;
         Some (Some bufPos, r\<lparr>nr_objectScope := OBJECT_SCOPE_ASSOCIATION\<rparr>)
       }
       else Some (None, r\<lparr>nr_reject := True\<rparr>)
     }
     else if tag = 0x82 then do {
       len \<leftarrow> len;
       let r = r\<lparr>nr_continueAfter := Some (bufPos, len)\<rparr>;
       bufPos \<leftarrow> add_int bufPos len;
       Some (Some bufPos, r)
     }
     else do {
       len \<leftarrow> len;
       bufPos \<leftarrow> add_int bufPos len;
       Some (Some bufPos, r)
     }
   }"

text \<open>A name copied into an array of 130 octets and terminated there.\<close>

definition copyName :: "byte list \<Rightarrow> int \<times> int \<Rightarrow> byte list option" where
  "copyName buffer name =
     (case name of (pos, len) \<Rightarrow> do {
        src \<leftarrow> ptr_add buffer pos;
        if len < 0 \<or> 129 < len then None
        else do {
          content \<leftarrow> rd_n src (nat len);
          Some (content @ [0])
        }
      })"

text \<open>The string at the beginning of terminated octets.\<close>

definition string_of :: "byte list \<Rightarrow> cstring" where
  "string_of memory = takeWhile (\<lambda>b. b \<noteq> 0) memory"

definition mmsServer_handleGetNameListRequest ::
  "der_encode \<Rightarrow> sMmsServer \<Rightarrow> sMmsServerConnection \<Rightarrow> byte list \<Rightarrow> int \<Rightarrow> int \<Rightarrow> u32 \<Rightarrow> ByteBuffer \<Rightarrow> ByteBuffer option" where
  "mmsServer_handleGetNameListRequest der server connection buffer bufPos maxBufPos invokeId response = do {
     (end_pos, r) \<leftarrow> tlv_loop (nameListElement buffer maxBufPos) maxBufPos
       \<lparr>nr_objectClass = -1, nr_objectScope = -1, nr_domainId = None, nr_continueAfter = None, nr_reject = False\<rparr> bufPos;
     if end_pos = None then
       (if nr_reject r then
          mmsServer_writeMmsRejectPdu der (Some invokeId) MMS_ERROR_REJECT_UNRECOGNIZED_MODIFIER response
        else Some response)
     else do {
       continueAfterId \<leftarrow>
         (case nr_continueAfter r of
            None \<Rightarrow> Some None
          | Some name \<Rightarrow> do { copy \<leftarrow> copyName buffer name; Some (Some copy) });
       let continueAfter = (case nr_continueAfter r of None \<Rightarrow> None | Some (pos, len) \<Rightarrow> ptr_add buffer pos);
       if nr_objectScope r = OBJECT_SCOPE_DOMAIN then do {
         domainId \<leftarrow> nr_domainId r;
         domainSpecificName \<leftarrow> copyName buffer domainId;
         if nr_objectClass r = OBJECT_CLASS_NAMED_VARIABLE then do {
           nameList \<leftarrow> getNameListDomainSpecific server (string_of domainSpecificName);
           (case nameList of
              None \<Rightarrow> mmsServer_createConfirmedErrorPdu der invokeId response MMS_ERROR_ACCESS_OBJECT_NON_EXISTENT
            | Some nameList \<Rightarrow>
                createNameListResponse der connection invokeId (Some nameList) response continueAfterId)
         }
         else if nr_objectClass r = OBJECT_CLASS_NAMED_VARIABLE_LIST then
           createNameListResponse der connection invokeId
             (getNamedVariableListDomainSpecific server (string_of domainSpecificName)) response continueAfter
         else mmsServer_createConfirmedErrorPdu der invokeId response MMS_ERROR_ACCESS_OBJECT_ACCESS_UNSUPPORTED
       }
       else if nr_objectScope r = OBJECT_SCOPE_VMD then
         createNameListResponse der connection invokeId (Some (getNameListVMDSpecific server)) response continueAfter
       else if nr_objectScope r = OBJECT_SCOPE_ASSOCIATION then
         (if nr_objectClass r = OBJECT_CLASS_NAMED_VARIABLE_LIST then
            createNameListResponse der connection invokeId
              (Some (getNamedVariableListAssociationSpecific connection)) response continueAfter
          else mmsServer_createConfirmedErrorPdu der invokeId response MMS_ERROR_ACCESS_OBJECT_ACCESS_UNSUPPORTED)
       else mmsServer_createConfirmedErrorPdu der invokeId response MMS_ERROR_ACCESS_OBJECT_ACCESS_UNSUPPORTED
     }
   }"

section \<open>The names of a domain\<close>

lemma joined_joined: "joined (joined a b) c = joined a (joined b c)"
  by (simp add: joined_def)

lemma named_well_name: "named_well v \<Longrightarrow> plain_name (spec_name v)"
  by (cases v) simp

lemma addSub_eq:
  shows "named_well v \<Longrightarrow> addSubNamedVaribleNamesToList nameList prefix v =
      Some (nameList @ map (joined prefix \<circ> fst) (subvariables v))"
    and "list_all named_well vs \<Longrightarrow> elementNames_loop nameList prefix vs =
      Some (nameList @ concat (map (\<lambda>e. joined prefix (the (spec_name e)) #
        map (joined (joined prefix (the (spec_name e))) \<circ> fst) (subvariables e)) vs))"
proof (induction nameList prefix v and nameList prefix vs
    rule: addSubNamedVaribleNamesToList_elementNames_loop.induct)
  case (1 nameList prefix n t)
  then show ?case
    by (auto split: MmsTypeSpecification.splits simp: map_concat comp_def case_prod_unfold joined_joined)
next
  case (3 nameList prefix v vs)
  then obtain m where "spec_name v = Some m" using named_well_name [of v] by (auto simp: plain_name_def)
  with 3 show ?case by (simp add: appendMmsSubVariable_def joined_def)
qed simp

lemma variableNames_eq:
  "list_all named_well vs \<Longrightarrow> variableNames_loop nameList vs = Some (nameList @ map fst (domain_variables vs))"
proof (induction vs arbitrary: nameList)
  case (Cons v vs)
  then obtain m where "spec_name v = Some m" using named_well_name [of v] by (auto simp: plain_name_def)
  with Cons show ?case by (auto simp: addSub_eq(1) domain_variables_def comp_def case_prod_unfold)
qed (simp add: domain_variables_def)

text \<open>Different elements have different names.\<close>

lemma distinct_groups:
  assumes "list_all (\<lambda>e. plain_name (spec_name e)) es" and "distinct (map spec_name es)"
    and "\<And>e. e \<in> set es \<Longrightarrow> distinct (map fst (subvariables e))"
  shows "distinct (map fst (domain_variables es))"
  using assms
proof (induction es)
  case (Cons e es)
  obtain m where m: "spec_name e = Some m" "0x24 \<notin> set m" using Cons.prems(1) by (auto simp: plain_name_def)
  have first: "fst (splitName n) = m" if "n \<in> set (m # map (joined m \<circ> fst) (subvariables e))" for n
    using that m(2) by (auto simp: splitName_plain splitName_joined)
  have rest: "fst (splitName n) \<noteq> m" if n: "n \<in> fst ` set (domain_variables es)" for n
  proof -
    obtain v where "(n, v) \<in> set (domain_variables es)" using n by auto
    then obtain e' where e': "e' \<in> set es" "n = the (spec_name e') \<or> (\<exists>r. n = joined (the (spec_name e')) r)"
      by (auto simp: domain_variables_def dest: spec)
    obtain m' where m': "spec_name e' = Some m'" "0x24 \<notin> set m'"
      using Cons.prems(1) e'(1) by (auto simp: list_all_iff plain_name_def)
    have "m' \<noteq> m" using Cons.prems(2) e'(1) m m' by (auto simp: image_iff)
    then show ?thesis using e'(2) m' by (auto simp: splitName_plain splitName_joined)
  qed
  have "distinct (m # map (joined m \<circ> fst) (subvariables e))"
    using Cons.prems(3) [of e] m(2) by (auto simp: joined_def distinct_map inj_on_def)
  moreover have "set (m # map (joined m \<circ> fst) (subvariables e)) \<inter> fst ` set (domain_variables es) = {}"
    using first rest by blast
  moreover have "map fst (domain_variables (e # es)) =
      (m # map (joined m \<circ> fst) (subvariables e)) @ map fst (domain_variables es)"
    using m by (simp add: domain_variables_def comp_def case_prod_unfold)
  moreover have "distinct (map fst (domain_variables es))" using Cons by auto
  ultimately show ?case by (metis distinct_append set_map)
qed (simp add: domain_variables_def)

lemma distinct_subvariables: "named_well v \<Longrightarrow> distinct (map fst (subvariables v))"
proof (induction v rule: subvariables.induct)
  case (1 n t)
  show ?case
  proof (cases "\<exists>es. t = T_structure es")
    case True
    then obtain es where t: "t = T_structure es" by blast
    have el: "list_all (\<lambda>e. plain_name (spec_name e)) es" "distinct (map spec_name es)" "list_all named_well es"
      using named_well_elements [OF "1.prems", of es] t by auto
    have "distinct (map fst (domain_variables es))"
      by (rule distinct_groups [OF el(1,2)]) (use "1.IH" t el(3) in \<open>auto simp: list_all_iff\<close>)
    then show ?thesis by (simp add: t domain_variables_def)
  next
    case False
    then show ?thesis by (cases t) auto
  qed
qed

lemma distinct_domain_names:
  assumes "list_all named_well vs" and "distinct (map spec_name vs)"
  shows "distinct (map fst (domain_variables vs))"
  by (rule distinct_groups [OF _ assms(2)])
    (use assms(1) in \<open>auto simp: list_all_iff named_well_name distinct_subvariables\<close>)

section \<open>Pages\<close>

text \<open>The names sent in one response.\<close>

fun page :: "cstring list \<Rightarrow> int \<Rightarrow> int \<Rightarrow> cstring list" where
  "page [] estimated maxPduSize = []"
| "page (name # names) estimated maxPduSize =
     (let elementLength = int (BerEncoder_determineEncodedStringSize (Some name)) in
      if estimated + elementLength > maxPduSize then []
      else name # page names (estimated + elementLength) maxPduSize)"

definition names_bytes :: "cstring list \<Rightarrow> byte list" where
  "names_bytes names = concat (map (\<lambda>name. tlv_bytes (0x1a, name)) names)"

definition name_list_bytes :: "u32 \<Rightarrow> cstring list \<Rightarrow> bool \<Rightarrow> byte list" where
  "name_list_bytes invokeId names moreFollows = tlv_bytes (0xa1, tlv_bytes (0x02, uint32_bytes invokeId) @
     tlv_bytes (0xa1, tlv_bytes (0xa0, names_bytes names) @ (if moreFollows then [] else [0x81, 1, 0])))"

lemma names_bytes_simps [simp]:
  "names_bytes [] = []" "names_bytes (n # ns) = tlv_bytes (0x1a, n) @ names_bytes ns"
  by (simp_all add: names_bytes_def)

lemma page_prefix: "\<exists>rest. names = page names estimated maxPduSize @ rest"
  by (induction names estimated maxPduSize rule: page.induct) (auto simp: Let_def)

lemma nameCount_eq:
  "nameCount_loop names estimated maxPduSize listSize nameCount =
     (length (page names estimated maxPduSize) < length names,
      listSize + length (names_bytes (page names estimated maxPduSize)),
      nameCount + length (page names estimated maxPduSize))"
  by (induction names estimated maxPduSize arbitrary: listSize nameCount rule: page.induct)
    (auto simp: Let_def length_string_field [of _ "0x1a"])

lemma page_fits:
  "page names estimated maxPduSize \<noteq> [] \<Longrightarrow>
   estimated + int (length (names_bytes (page names estimated maxPduSize))) \<le> maxPduSize"
proof (induction names estimated maxPduSize rule: page.induct)
  case (2 name names estimated maxPduSize)
  let ?l = "int (BerEncoder_determineEncodedStringSize (Some name))"
  have l: "?l = int (length (tlv_bytes (0x1a, name)))" by (simp add: length_string_field [of _ "0x1a"])
  have "\<not> estimated + ?l > maxPduSize" using "2.prems" by (auto simp: Let_def)
  then show ?case using "2.IH" [OF refl] l by (cases "page names (estimated + ?l) maxPduSize = []") (auto simp: Let_def)
qed simp

lemma encodeNames_eq:
  "names = p @ rest \<Longrightarrow> p \<noteq> [] \<Longrightarrow> encodeNames_loop names i (i + length p) = emits (names_bytes p)"
proof (induction names arbitrary: p i)
  case (Cons name names)
  then obtain q where p: "p = name # q" "names = q @ rest" by (cases p) auto
  show ?case
  proof (cases "q = []")
    case True
    then show ?thesis using p by (intro ext) (simp add: enc_emits string_field)
  next
    case False
    then have "encodeNames_loop names (i + 1) (i + 1 + length q) = emits (names_bytes q)" using Cons.IH p(2) by blast
    then show ?thesis using p False by (intro ext) (simp add: enc_emits string_field)
  qed
qed simp

lemma encodeNameList_eq:
  assumes p_def: "p = page names 27 (sc_maxPduSize connection)" and some: "p \<noteq> [] \<or> names = []"
  shows "encodeNameList connection invokeId names response =
    put_bytes (name_list_bytes invokeId p (length p < length names)) response"
proof -
  define follows where "follows = (length p < length names)"
  define content where "content = tlv_bytes (0xa0, names_bytes p) @ (if follows then [] else [0x81, 1, 0])"
  define body where "body = tlv_bytes (0x02, uint32_bytes invokeId) @ tlv_bytes (0xa1, content)"
  obtain rest where rest: "names = p @ rest" using page_prefix p_def by blast
  have enc: "encodeNames_loop names 0 (length p) = emits (names_bytes p)"
  proof (cases "p = []")
    case True
    then show ?thesis using some by (intro ext) simp
  next
    case False
    then show ?thesis using encodeNames_eq [OF rest, of 0] by simp
  qed
  have count: "nameCount_loop names 27 (sc_maxPduSize connection) 0 0 = (follows, length (names_bytes p), length p)"
    unfolding follows_def by (simp add: nameCount_eq p_def [symmetric])
  have c: "1 + BerEncoder_determineLengthSize (length (names_bytes p)) + length (names_bytes p) + (if follows then 0 else 3) =
      length content" by (simp add: content_def length_field)
  have b: "1 + BerEncoder_determineLengthSize (length content) + length content +
      (BerEncoder_UInt32determineEncodedSize invokeId + 2) = length body"
    by (simp add: body_def length_uint32_field length_field [of _ content] UInt32_size_eq)
  have bytes: "name_list_bytes invokeId p follows = tl_bytes 0xa1 (length body) @ tl_bytes 0x02 (length (uint32_bytes invokeId)) @
      uint32_bytes invokeId @ tl_bytes 0xa1 (length content) @ tl_bytes 0xa0 (length (names_bytes p)) @ names_bytes p @
      (if follows then [] else [0x81, 1, 0])"
    by (simp add: name_list_bytes_def body_def content_def tlv_bytes_def)
  have follows_emits: "(if \<not> follows then BerEncoder_encodeBoolean 0x81 follows w else Some w) =
      emits (if follows then [] else [0x81, 1, 0]) w" for w
    by (simp add: enc_emits)
  show ?thesis
    unfolding encodeNameList_def count Let_def prod.case c b enc follows_emits follows_def [symmetric] bytes
    by (subst emits_put [symmetric]) (simp_all add: enc_emits tl_bytes_def UInt32_size_eq)
qed

lemma name_list_room:
  "p = page names 27 maxPduSize \<Longrightarrow> p \<noteq> [] \<Longrightarrow> int (length (name_list_bytes invokeId p follows)) \<le> maxPduSize"
proof -
  assume p: "p = page names 27 maxPduSize" "p \<noteq> []"
  have "27 + int (length (names_bytes p)) \<le> maxPduSize" using page_fits [of names 27 maxPduSize] p by simp
  moreover have len: "length (tlv_bytes (t, s)) \<le> 4 + length s" for t s
    by (simp add: length_field BerEncoder_determineLengthSize_def)
  moreover have "length (uint32_bytes invokeId) \<le> 5"
    using uint32_bytes_spec(4) [of invokeId] by simp
  moreover have "length (name_list_bytes invokeId p follows) \<le>
      4 + (2 + length (uint32_bytes invokeId) + (4 + (4 + length (names_bytes p) + 3)))"
  proof -
    let ?c = "tlv_bytes (0xa0, names_bytes p) @ (if follows then [] else [0x81, 1, 0])"
    have "length ?c \<le> 4 + length (names_bytes p) + 3" using len [of "0xa0" "names_bytes p"] by simp
    then have "length (tlv_bytes (0xa1, ?c)) \<le> 4 + (4 + length (names_bytes p) + 3)"
      using len [of "0xa1" ?c] by linarith
    then show ?thesis
      using len [of "0xa1" "tlv_bytes (0x02, uint32_bytes invokeId) @ tlv_bytes (0xa1, ?c)"]
      unfolding name_list_bytes_def length_append length_uint32_field by linarith
  qed
  ultimately show ?thesis by linarith
qed

section \<open>The request of a client\<close>

text \<open>The request for the variables of a domain, from the beginning or behind a name.\<close>

definition name_list_request :: "cstring \<Rightarrow> cstring option \<Rightarrow> byte list" where
  "name_list_request domainName after = tlv_bytes (0xa0, [2, 1, 0]) @ tlv_bytes (0xa1, tlv_bytes (0x81, domainName)) @
     (case after of None \<Rightarrow> [] | Some name \<Rightarrow> tlv_bytes (0x82, name))"

lemma request_class:
  assumes "found_at buffer p (tlv_bytes (0xa0, [2, 1, 0]))" and "p + 5 \<le> m" and "m \<le> INT_MAX"
  shows "nameListElement buffer m r p = Some (Some (p + 5), r\<lparr>nr_objectClass := 0\<rparr>)"
proof -
  have f: "found_at buffer p ([0xa0, of_nat 3] @ [2, 1, 0])" using assms(1) by (simp add: tlv_bytes_def tl_bytes_small)
  note s = short_tlv(1) [OF f, of m] short_tlv(2) [OF f, of m None]
  have r: "rd buffer (p + 3) = Some 1" "rd buffer (p + 4) = Some 0" "0 \<le> p"
    using f found_at_nonneg [OF f] by (simp_all add: found_at_simps add.assoc)
  show ?thesis
    using s r assms(2,3)
    by (simp add: nameListElement_def BerDecoder_decodeUint32_def decodeUint32_loop.simps add_int_def chk_int_def add.assoc)
qed

lemma request_domain:
  assumes "found_at buffer p (tlv_bytes (0xa1, tlv_bytes (0x81, d)))" and "length d \<le> 129"
    and "p + int (length (tlv_bytes (0xa1, tlv_bytes (0x81, d)))) \<le> m" and "m \<le> INT_MAX"
  shows "\<exists>q. nameListElement buffer m r p = Some (Some (p + int (length (tlv_bytes (0xa1, tlv_bytes (0x81, d))))),
      r\<lparr>nr_domainId := Some (q, int (length d)), nr_objectScope := OBJECT_SCOPE_DOMAIN\<rparr>) \<and> found_at buffer q d"
proof -
  let ?in = "tlv_bytes (0x81, d)"
  define q where "q = p + int (length (tl_bytes 0xa1 (length ?in)))"
  have len: "length ?in < 65536" using assms(2) by (simp add: length_field BerEncoder_determineLengthSize_def)
  have f: "found_at buffer p (tl_bytes 0xa1 (length ?in))" "found_at buffer q (tl_bytes 0x81 (length d))"
      "found_at buffer (q + int (length (tl_bytes 0x81 (length d)))) d"
    using assms(1) by (simp_all add: tlv_bytes_def found_at_append q_def add.assoc)
  have outer: "p + int (length (tlv_bytes (0xa1, ?in))) = q + int (length (tl_bytes 0x81 (length d))) + int (length d)"
    by (simp add: tlv_bytes_def q_def)
  have o: "rd buffer p = Some 0xa1" "BerDecoder_decodeLength buffer None (p + 1) m = Some (q, Some (int (length ?in)))"
    using decodeLength_tl(1) [OF f(1) len, of m] decodeLength_tl(2) [OF f(1) len, of m None] assms(3) outer
    by (simp_all add: q_def)
  have i: "rd buffer q = Some 0x81" "BerDecoder_decodeLength buffer (Some (int (length ?in))) (q + 1) m =
      Some (q + int (length (tl_bytes 0x81 (length d))), Some (int (length d)))"
    using decodeLength_tl(1) [OF f(2), of m] decodeLength_tl(2) [OF f(2), of m "Some (int (length ?in))"]
      assms(2,3) outer by simp_all
  have "0 \<le> q" using found_at_nonneg [OF f(2)] .
  then show ?thesis
    using o i f(3) outer assms(3,4)
    by (intro exI [of _ "q + int (length (tl_bytes 0x81 (length d)))"])
      (simp add: nameListElement_def add_int_def chk_int_def)
qed

lemma request_after:
  assumes "found_at buffer p (tlv_bytes (0x82, d))" and "length d \<le> 129"
    and "p + int (length (tlv_bytes (0x82, d))) \<le> m" and "m \<le> INT_MAX"
  shows "\<exists>q. nameListElement buffer m r p = Some (Some (p + int (length (tlv_bytes (0x82, d)))),
      r\<lparr>nr_continueAfter := Some (q, int (length d))\<rparr>) \<and> found_at buffer q d"
proof -
  define q where "q = p + int (length (tl_bytes 0x82 (length d)))"
  have f: "found_at buffer p (tl_bytes 0x82 (length d))" "found_at buffer q d"
    using assms(1) by (simp_all add: tlv_bytes_def found_at_append q_def)
  have outer: "p + int (length (tlv_bytes (0x82, d))) = q + int (length d)" by (simp add: tlv_bytes_def q_def)
  have o: "rd buffer p = Some 0x82" "BerDecoder_decodeLength buffer None (p + 1) m = Some (q, Some (int (length d)))"
    using decodeLength_tl(1) [OF f(1), of m] decodeLength_tl(2) [OF f(1), of m None] assms(2,3) outer
    by (simp_all add: q_def)
  have "0 \<le> q" using found_at_nonneg [OF f(2)] .
  then show ?thesis
    using o f(2) outer assms(3,4)
    by (intro exI [of _ q]) (simp add: nameListElement_def add_int_def chk_int_def)
qed

lemma copyName_found: "found_at buffer q d \<Longrightarrow> length d \<le> 129 \<Longrightarrow> copyName buffer (q, int (length d)) = Some (d @ [0])"
  using found_at_ptr [of buffer q d] by (auto simp: copyName_def rd_n_def)

lemma string_of_terminated: "0 \<notin> set d \<Longrightarrow> string_of (d @ [0]) = d"
  by (induction d) (auto simp: string_of_def)

text \<open>What the handler does with such a request.\<close>

lemma handle_request:
  assumes "buffer = pre @ name_list_request d after @ post" and "bufPos = int (length pre)"
    and "maxBufPos = bufPos + int (length (name_list_request d after))" and "int (length buffer) \<le> INT_MAX"
    and "length d \<le> 129" and "0 \<notin> set d" and "\<And>a. after = Some a \<Longrightarrow> length a \<le> 129"
    and "getNameListDomainSpecific server d = Some (Some names)"
  shows "mmsServer_handleGetNameListRequest der server connection buffer bufPos maxBufPos invokeId response =
    createNameListResponse der connection invokeId (Some names) response (map_option (\<lambda>a. a @ [0]) after)"
proof -
  let ?D = "tlv_bytes (0xa1, tlv_bytes (0x81, d))"
  let ?A = "case after of None \<Rightarrow> [] | Some name \<Rightarrow> tlv_bytes (0x82, name)"
  let ?init = "\<lparr>nr_objectClass = -1, nr_objectScope = -1, nr_domainId = None, nr_continueAfter = None, nr_reject = False\<rparr>"
  have five: "length (tlv_bytes (0xa0, [2, 1, 0])) = 5" by (simp add: tlv_bytes_def tl_bytes_small)
  have f: "found_at buffer bufPos (tlv_bytes (0xa0, [2, 1, 0]))" "found_at buffer (bufPos + 5) ?D"
      "found_at buffer (bufPos + 5 + int (length ?D)) ?A"
    using found_at_self [of pre "name_list_request d after" post] assms(1,2)
    by (simp_all add: name_list_request_def found_at_append five)
  have m: "maxBufPos = bufPos + 5 + int (length ?D) + int (length ?A)" "maxBufPos \<le> INT_MAX"
    using assms(1-4) by (simp_all add: name_list_request_def five)
  have D: "0 < length ?D" by (simp add: tlv_bytes_def tl_bytes_def)
  obtain q where q: "nameListElement buffer maxBufPos (?init\<lparr>nr_objectClass := 0\<rparr>) (bufPos + 5) =
        Some (Some (bufPos + 5 + int (length ?D)),
          ?init\<lparr>nr_objectClass := 0, nr_domainId := Some (q, int (length d)), nr_objectScope := OBJECT_SCOPE_DOMAIN\<rparr>)"
      "found_at buffer q d"
    using request_domain [OF f(2) assms(5), of maxBufPos "?init\<lparr>nr_objectClass := 0\<rparr>"] m by auto
  let ?r = "\<lparr>nr_objectClass = 0, nr_objectScope = 1, nr_domainId = Some (q, int (length d)), nr_continueAfter = None,
    nr_reject = False\<rparr>"
  have lt: "bufPos < maxBufPos" "bufPos + 5 < maxBufPos" using m(1) D by linarith+
  have "nameListElement buffer maxBufPos ?init bufPos = Some (Some (bufPos + 5), ?init\<lparr>nr_objectClass := 0\<rparr>)"
    by (rule request_class [OF f(1)]) (use lt m(2) in simp_all)
  from tlv_loop_step [where step = "nameListElement buffer maxBufPos", OF lt(1) this]
    tlv_loop_step [where step = "nameListElement buffer maxBufPos", OF lt(2) q(1)]
  have head: "tlv_loop (nameListElement buffer maxBufPos) maxBufPos ?init bufPos =
      tlv_loop (nameListElement buffer maxBufPos) maxBufPos ?r (bufPos + 5 + int (length ?D))" by simp
  show ?thesis
  proof (cases after)
    case None
    then show ?thesis
      unfolding mmsServer_handleGetNameListRequest_def head
      using copyName_found [OF q(2) assms(5)] assms(6,8) m by (simp add: tlv_loop_done string_of_terminated)
  next
    case (Some a)
    have A: "0 < length (tlv_bytes (0x82, a))" by (simp add: tlv_bytes_def tl_bytes_def)
    obtain q2 where q2: "nameListElement buffer maxBufPos ?r (bufPos + 5 + int (length ?D)) =
          Some (Some maxBufPos, ?r\<lparr>nr_continueAfter := Some (q2, int (length a))\<rparr>)" "found_at buffer q2 a"
      using request_after [of buffer "bufPos + 5 + int (length ?D)" a maxBufPos ?r] f(3) m assms(7) [OF Some] Some
      by auto
    then have "tlv_loop (nameListElement buffer maxBufPos) maxBufPos ?r (bufPos + 5 + int (length ?D)) =
        Some (Some maxBufPos, ?r\<lparr>nr_continueAfter := Some (q2, int (length a))\<rparr>)"
      using tlv_loop_step [where step = "nameListElement buffer maxBufPos" and endPos = maxBufPos, OF _ q2(1)] m(1) A Some
      by (simp add: tlv_loop_done)
    then show ?thesis
      unfolding mmsServer_handleGetNameListRequest_def head
      using copyName_found [OF q(2) assms(5)] copyName_found [OF q2(2)] assms(6-8) Some
      by (simp add: string_of_terminated)
  qed
qed

section \<open>All names arrive\<close>

text \<open>A list of names in pages: each is what fits of the names still to send, and only the last one ends
  the list.\<close>

definition paged :: "int \<Rightarrow> cstring list \<Rightarrow> cstring list list \<Rightarrow> bool" where
  "paged maxPduSize names pages \<longleftrightarrow> concat pages = names \<and> pages \<noteq> [] \<and>
     (\<forall>i<length pages. pages ! i = page (concat (drop i pages)) 27 maxPduSize \<and>
        (pages ! i \<noteq> [] \<or> concat (drop i pages) = []) \<and>
        (i + 1 < length pages \<longleftrightarrow> length (pages ! i) < length (concat (drop i pages))))"

definition sendable :: "int \<Rightarrow> cstring list \<Rightarrow> bool" where
  "sendable maxPduSize names \<longleftrightarrow>
     (\<forall>n\<in>set names. 27 + int (BerEncoder_determineEncodedStringSize (Some n)) \<le> maxPduSize)"

lemma paged_Cons:
  assumes "names = p @ rest" and "p = page names 27 maxPduSize" and "p \<noteq> []" and "rest \<noteq> []"
    and "paged maxPduSize rest pages"
  shows "paged maxPduSize names (p # pages)"
proof -
  have shorter: "length p < length names" using assms(1,4) by simp
  have c: "concat pages = rest" "pages \<noteq> []" using assms(5) by (simp_all add: paged_def)
  have "(p # pages) ! i = page (concat (drop i (p # pages))) 27 maxPduSize \<and>
      ((p # pages) ! i \<noteq> [] \<or> concat (drop i (p # pages)) = []) \<and>
      (i + 1 < length (p # pages) \<longleftrightarrow> length ((p # pages) ! i) < length (concat (drop i (p # pages))))"
    if "i < length (p # pages)" for i
  proof (cases i)
    case 0
    have "concat (drop 0 (p # pages)) = names" using assms(1) c(1) by simp
    then show ?thesis unfolding 0 using assms(2,3) shorter c(2) by (simp del: drop_0 concat.simps)
  next
    case (Suc j)
    then show ?thesis using assms(5) that by (simp add: paged_def)
  qed
  then show ?thesis using assms(1) c(1) unfolding paged_def by simp
qed

lemma pages_exist: "sendable maxPduSize names \<Longrightarrow> \<exists>pages. paged maxPduSize names pages"
proof (induction "length names" arbitrary: names rule: less_induct)
  case less
  define p where "p = page names 27 maxPduSize"
  obtain rest where rest: "names = p @ rest" using page_prefix p_def by blast
  show ?case
  proof (cases "rest = []")
    case True
    then have "paged maxPduSize names [names]" using rest p_def by (simp add: paged_def)
    then show ?thesis by blast
  next
    case False
    then obtain n ns where names: "names = n # ns" using rest by (metis append_is_Nil_conv list.exhaust)
    have "p \<noteq> []" using less.prems by (simp add: p_def names sendable_def Let_def)
    moreover obtain pages where "paged maxPduSize rest pages"
      using less.hyps [of rest] rest \<open>p \<noteq> []\<close> less.prems by (auto simp: sendable_def)
    ultimately show ?thesis using paged_Cons [OF rest p_def] False by blast
  qed
qed

lemma strcmp_memory_eq: "0 \<notin> set s \<Longrightarrow> 0 \<notin> set t \<Longrightarrow> strcmp_memory s (t @ [0]) = Some (s = t)"
proof (induction s arbitrary: t)
  case Nil
  then show ?case by (cases t) auto
next
  case (Cons c s)
  then show ?case by (cases t) auto
qed

lemma continue_found:
  "distinct (as @ x # bs) \<Longrightarrow> \<forall>n\<in>set (as @ x # bs). 0 \<notin> set n \<Longrightarrow> continue_loop (as @ x # bs) (x @ [0]) = Some (Some bs)"
  by (induction as) (auto simp: strcmp_memory_eq)

lemma paged_previous:
  assumes "paged maxPduSize names pages" and "0 < i" and "i < length pages"
  shows "\<exists>as. names = as @ last (pages ! (i - 1)) # concat (drop i pages)"
proof -
  have lt: "i - 1 < length pages" "i - 1 + 1 < length pages" using assms(2,3) by simp_all
  then have "pages ! (i - 1) \<noteq> []" using assms(1) by (metis less_nat_zero_code list.size(3) paged_def)
  moreover have "names = concat (take (i - 1) pages) @ pages ! (i - 1) @ concat (drop i pages)"
    using assms(1) lt id_take_nth_drop [OF lt(1)] assms(2)
    by (metis Suc_diff_1 concat.simps(2) concat_append paged_def)
  ultimately show ?thesis by (metis append.assoc append_Cons append_Nil append_butlast_last_id)
qed

text \<open>The response to the request behind the last name of the page before.\<close>

lemma paged_reply:
  assumes "paged (sc_maxPduSize connection) names pages" and "distinct names" and "\<forall>n\<in>set names. 0 \<notin> set n"
    and "i < length pages"
  shows "createNameListResponse der connection invokeId (Some names) response
      (map_option (\<lambda>a. a @ [0]) (if i = 0 then None else Some (last (pages ! (i - 1))))) =
    put_bytes (name_list_bytes invokeId (pages ! i) (i + 1 < length pages)) response"
proof -
  have i: "pages ! i = page (concat (drop i pages)) 27 (sc_maxPduSize connection)"
      "pages ! i \<noteq> [] \<or> concat (drop i pages) = []"
      "i + 1 < length pages \<longleftrightarrow> length (pages ! i) < length (concat (drop i pages))"
    using assms(1,4) by (auto simp: paged_def)
  have enc: "encodeNameList connection invokeId (concat (drop i pages)) response =
      put_bytes (name_list_bytes invokeId (pages ! i) (i + 1 < length pages)) response"
    using encodeNameList_eq [OF i(1,2)] i(3) by simp
  show ?thesis
  proof (cases "i = 0")
    case True
    then show ?thesis using enc assms(1) by (simp add: createNameListResponse_def paged_def)
  next
    case False
    then obtain as where "names = as @ last (pages ! (i - 1)) # concat (drop i pages)"
      using paged_previous [OF assms(1) _ assms(4)] by auto
    then show ?thesis
      using continue_found assms(2,3) enc False by (simp add: createNameListResponse_def)
  qed
qed

lemma paged_room:
  assumes "paged maxPduSize names pages" and "i < length pages" and "27 \<le> maxPduSize"
  shows "int (length (name_list_bytes invokeId (pages ! i) follows)) \<le> maxPduSize"
proof (cases "pages ! i = []")
  case True
  have "length (uint32_bytes invokeId) \<le> 5" by (rule uint32_bytes_spec(4))
  then have "length (name_list_bytes invokeId [] follows) \<le> 27"
    by (simp add: name_list_bytes_def length_tlv_bytes length_tl_bytes BerEncoder_determineLengthSize_def)
  with True assms(3) show ?thesis by simp
next
  case False
  then show ?thesis using name_list_room [of "pages ! i" "concat (drop i pages)"] assms(1,2) by (auto simp: paged_def)
qed

definition reachable_names :: "cstring list \<Rightarrow> bool" where
  "reachable_names names \<longleftrightarrow> (\<forall>n\<in>set names. 0 \<notin> set n \<and> length n \<le> 129)"

text \<open>C32: A client that asks for the names of a domain again and again, each time behind the last name it got, receives
  all variables of the domain and all elements of their structures, each name exactly once and in order, in messages that fit into the
  negotiated PDU size; only the last message says that nothing follows. Every name it gets is resolved by the server.\<close>

theorem name_list_complete:
  assumes "MmsDevice_getDomain (sv_device server) d = Some domain" and "md_namedVariables domain = Some vs"
    and "list_all named_well vs" and "distinct (map spec_name vs)" and "names = map fst (domain_variables vs)"
    and "reachable_names (d # names)" and "sendable (sc_maxPduSize connection) names"
    and "27 \<le> sc_maxPduSize connection" and "sc_maxPduSize connection \<le> int (length (bb_buffer response))"
  shows "\<exists>pages. concat pages = names \<and> distinct names \<and> pages \<noteq> [] \<and>
    (\<forall>i<length pages. \<forall>request. request = name_list_request d (if i = 0 then None else Some (last (pages ! (i - 1)))) \<longrightarrow>
       mmsServer_handleGetNameListRequest der server connection request 0 (int (length request)) invokeId response =
         put_bytes (name_list_bytes invokeId (pages ! i) (i + 1 < length pages)) response \<and>
       int (length (name_list_bytes invokeId (pages ! i) (i + 1 < length pages))) \<le> sc_maxPduSize connection) \<and>
    (\<forall>n\<in>set names. \<exists>v. MmsDomain_getNamedVariable domain n = Some (Some v))"
proof -
  obtain pages where pages: "paged (sc_maxPduSize connection) names pages" using pages_exist assms(7) by blast
  have dist: "distinct names" using distinct_domain_names [OF assms(3,4)] assms(5) by simp
  have list: "getNameListDomainSpecific server d = Some (Some names)"
    using assms(1,2,5) variableNames_eq [OF assms(3), of "[]"] by (simp add: getNameListDomainSpecific_def)
  have zero: "\<forall>n\<in>set names. 0 \<notin> set n" using assms(6) by (simp add: reachable_names_def)
  have reply: "mmsServer_handleGetNameListRequest der server connection request 0 (int (length request)) invokeId response =
         put_bytes (name_list_bytes invokeId (pages ! i) (i + 1 < length pages)) response"
    if i: "i < length pages"
      and request: "request = name_list_request d (if i = 0 then None else Some (last (pages ! (i - 1))))" for i request
  proof -
    have short: "length a \<le> 129" if "(if i = 0 then None else Some (last (pages ! (i - 1)))) = Some a" for a
      using that paged_previous [OF pages _ i] assms(6) by (auto simp: reachable_names_def split: if_splits)
    have len: "length (tlv_bytes (t, s)) \<le> 4 + length s" for t s
      by (simp add: length_field BerEncoder_determineLengthSize_def)
    have "length d \<le> 129" "0 \<notin> set d" using assms(6) by (simp_all add: reachable_names_def)
    moreover have "length request \<le> 1000"
      using request short calculation(1) len [of "0xa0" "[2, 1, 0]"] len [of "0xa1" "tlv_bytes (0x81, d)"] len [of "0x81" d]
        len [of "0x82" "last (pages ! (i - 1))"]
      by (auto simp: name_list_request_def split: if_splits)
    ultimately show ?thesis
      using handle_request [of request "[]" d "if i = 0 then None else Some (last (pages ! (i - 1)))" "[]" 0
          "int (length request)" server names der connection invokeId response] request short list
        paged_reply [OF pages dist zero i, of der invokeId response] by simp
  qed
  show ?thesis
    by (rule exI [of _ pages], intro conjI allI impI ballI)
      (use pages dist reply paged_room [OF pages _ assms(8)] domain_resolves [OF assms(2-4)] assms(5) in
        \<open>auto simp: paged_def\<close>)
qed

definition demo_variables :: "MmsVariableSpecification list" where
  "demo_variables = [MmsVariableSpecification (Some [0x61]) (T_structure [MmsVariableSpecification (Some [0x62]) T_boolean])]"

definition demo_domain :: sMmsDomain where
  "demo_domain = (MmsDomain_create [0x64])\<lparr>md_namedVariables := Some demo_variables\<rparr>"

definition demo_mms_server :: sMmsServer where
  "demo_mms_server = \<lparr>sv_vmdLogicalStatus = 0, sv_vmdPhysicalStatus = 0, sv_vendorName = None, sv_modelName = None,
     sv_revision = None, sv_device = (MmsDevice_create None)\<lparr>dv_domains := [demo_domain]\<rparr>, sv_valueCaches = []\<rparr>"

theorem name_list_complete_witness:
  "\<exists>pages. concat pages = [[0x61], [0x61, 0x24, 0x62]] \<and> pages \<noteq> [] \<and>
     mmsServer_handleGetNameListRequest (\<lambda>_. []) demo_mms_server (MmsServerConnection_init\<lparr>sc_maxPduSize := 32\<rparr>)
       (name_list_request [0x64] None) 0 (int (length (name_list_request [0x64] None))) 7 (ByteBuffer_create 32) =
     put_bytes (name_list_bytes 7 (pages ! 0) (1 < length pages)) (ByteBuffer_create 32)"
proof -
  have names: "[[0x61], [0x61, 0x24, 0x62]] = map fst (domain_variables demo_variables)"
    by (simp add: domain_variables_def demo_variables_def joined_def)
  have dom: "MmsDevice_getDomain (sv_device demo_mms_server) [0x64] = Some demo_domain"
    by (simp add: demo_mms_server_def MmsDevice_getDomain_def demo_domain_def MmsDomain_create_def copyString_def)
  have vs: "md_namedVariables demo_domain = Some demo_variables" "list_all named_well demo_variables"
      "distinct (map spec_name demo_variables)"
    by (simp_all add: demo_domain_def demo_variables_def plain_name_def)
  have fits: "reachable_names ([0x64] # [[0x61], [0x61, 0x24, 0x62]])"
      "sendable (sc_maxPduSize (MmsServerConnection_init\<lparr>sc_maxPduSize := 32\<rparr>)) [[0x61], [0x61, 0x24, 0x62]]"
      "27 \<le> sc_maxPduSize (MmsServerConnection_init\<lparr>sc_maxPduSize := 32\<rparr>)"
      "sc_maxPduSize (MmsServerConnection_init\<lparr>sc_maxPduSize := 32\<rparr>) \<le> int (length (bb_buffer (ByteBuffer_create 32)))"
    by (simp_all add: reachable_names_def sendable_def BerEncoder_determineEncodedStringSize_def
        BerEncoder_determineLengthSize_def ByteBuffer_create_def)
  obtain pages where p: "concat pages = [[0x61], [0x61, 0x24, 0x62]]" "pages \<noteq> []" and
      all: "\<forall>i<length pages. \<forall>request. request = name_list_request [0x64] (if i = 0 then None else Some (last (pages ! (i - 1)))) \<longrightarrow>
       mmsServer_handleGetNameListRequest (\<lambda>_. []) demo_mms_server (MmsServerConnection_init\<lparr>sc_maxPduSize := 32\<rparr>) request 0
         (int (length request)) 7 (ByteBuffer_create 32) =
         put_bytes (name_list_bytes 7 (pages ! i) (i + 1 < length pages)) (ByteBuffer_create 32) \<and>
       int (length (name_list_bytes 7 (pages ! i) (i + 1 < length pages))) \<le>
         sc_maxPduSize (MmsServerConnection_init\<lparr>sc_maxPduSize := 32\<rparr>)"
    using name_list_complete [OF dom vs names fits, of "\<lambda>_. []" 7] by blast
  have "0 < length pages" using p(2) by simp
  with all have "mmsServer_handleGetNameListRequest (\<lambda>_. []) demo_mms_server (MmsServerConnection_init\<lparr>sc_maxPduSize := 32\<rparr>)
       (name_list_request [0x64] None) 0 (int (length (name_list_request [0x64] None))) 7 (ByteBuffer_create 32) =
     put_bytes (name_list_bytes 7 (pages ! 0) (1 < length pages)) (ByteBuffer_create 32)" by fastforce
  with p show ?thesis by blast
qed

section \<open>A PDU size that is too small\<close>

lemma encodeNames_all: "encodeNames_loop names i 0 = emits (names_bytes names)"
  by (induction names arbitrary: i) (auto simp: enc_emits string_field intro!: ext)

text \<open>If the first name does not fit into the negotiated PDU size, which the client chose, the size is
  ignored: all names are written behind the announcement of an empty list, as far as the buffer reaches, and past its
  end if it is too short.\<close>

theorem name_list_ignores_small_size:
  assumes "sc_maxPduSize connection < 27 + int (BerEncoder_determineEncodedStringSize (Some n))"
  shows "\<exists>header. createNameListResponse der connection invokeId (Some (n # names)) response None =
      put_bytes (header @ tl_bytes 0xa0 0 @ names_bytes (n # names)) response"
proof -
  have count: "nameCount_loop (n # names) 27 (sc_maxPduSize connection) 0 0 = (True, 0, 0)"
    using assms by (simp add: Let_def)
  define header where "header = tl_bytes 0xa1 (1 + BerEncoder_determineLengthSize (Suc (BerEncoder_determineLengthSize 0)) +
      Suc (BerEncoder_determineLengthSize 0) + (length (uint32_bytes invokeId) + 2)) @
    tl_bytes 0x02 (length (uint32_bytes invokeId)) @ uint32_bytes invokeId @ tl_bytes 0xa1 (Suc (BerEncoder_determineLengthSize 0))"
  have "encodeNameList connection invokeId (n # names) response =
      put_bytes (header @ tl_bytes 0xa0 0 @ names_bytes (n # names)) response"
    unfolding encodeNameList_def count Let_def prod.case encodeNames_all header_def
    by (subst emits_put [symmetric]) (simp_all add: enc_emits tl_bytes_def UInt32_size_eq)
  then show ?thesis by (auto simp: createNameListResponse_def)
qed

theorem name_list_ignores_small_size_witness:
  "\<exists>header. createNameListResponse (\<lambda>_. []) (MmsServerConnection_init\<lparr>sc_maxPduSize := 0\<rparr>) 1 (Some [[0x61], [0x62]])
      (ByteBuffer_create 10) None = put_bytes (header @ tl_bytes 0xa0 0 @ names_bytes [[0x61], [0x62]]) (ByteBuffer_create 10)"
  by (rule name_list_ignores_small_size) simp

end
