(* ===== verification/General_Time.thy ===== *)
theory General_Time
  imports Mms_Types "HOL-Library.Signed_Division"
begin

text \<open>
  Generalized time strings (\<open>src/src/common/conversions.c\<close>), as the file service sends and reads them, for
  the Linux build. There \<open>gmtime_r\<close> and \<open>timegm\<close> are functions of the C library, defined here on
  the proleptic Gregorian calendar as POSIX and the C library specify them for UTC. The definitions of these
  functions in \<open>conversions.c\<close> are compiled only for Windows (\<open>mktime(tm) - _timezone\<close>, which depends on
  the zone of the host) and for one embedded target; they are not modelled. \<open>mktime\<close>, which depends on
  the time zone of the host, is a parameter.
\<close>

section \<open>The calendar\<close>

record tm =
  tm_year :: int
  tm_mon :: int
  tm_mday :: int
  tm_hour :: int
  tm_min :: int
  tm_sec :: int

definition is_leap :: "int \<Rightarrow> bool" where
  "is_leap y \<longleftrightarrow> y mod 4 = 0 \<and> (y mod 100 \<noteq> 0 \<or> y mod 400 = 0)"

definition year_len :: "int \<Rightarrow> int" where
  "year_len y = (if is_leap y then 366 else 365)"

text \<open>The days from 1970 to the beginning of a year.\<close>

definition leaps :: "int \<Rightarrow> int" where
  "leaps y = y div 4 - y div 100 + y div 400"

definition days_to_year :: "int \<Rightarrow> int" where
  "days_to_year y = 365 * (y - 1970) + (leaps (y - 1) - leaps 1969)"

definition month_len :: "bool \<Rightarrow> nat \<Rightarrow> int" where
  "month_len leap m = (if m = 1 then (if leap then 29 else 28) else if m \<in> {3, 5, 8, 10} then 30 else 31)"

definition days_to_month :: "bool \<Rightarrow> nat \<Rightarrow> int" where
  "days_to_month leap m = (\<Sum>k\<leftarrow>[0..<m]. month_len leap k)"

function year_loop :: "int \<Rightarrow> int \<Rightarrow> int \<times> int" where
  "year_loop y d = (if d < year_len y then (y, d) else year_loop (y + 1) (d - year_len y))"
  by pat_completeness auto
termination
  by (relation "measure (\<lambda>(y, d). nat d)") (auto simp: year_len_def split: if_splits)

function month_loop :: "bool \<Rightarrow> nat \<Rightarrow> int \<Rightarrow> nat \<times> int" where
  "month_loop leap m d = (if d < month_len leap m then (m, d) else month_loop leap (m + 1) (d - month_len leap m))"
  by pat_completeness auto
termination
  by (relation "measure (\<lambda>(leap, m, d). nat d)") (auto simp: month_len_def split: if_splits)

declare year_loop.simps [simp del] month_loop.simps [simp del]

definition gmtime_r :: "int \<Rightarrow> tm" where
  "gmtime_r t =
     (let (y, yday) = year_loop 1970 (t div 86400);
          (m, mday) = month_loop (is_leap y) 0 yday;
          s = t mod 86400
      in \<lparr>tm_year = y - 1900, tm_mon = int m, tm_mday = mday + 1, tm_hour = s div 3600, tm_min = s mod 3600 div 60,
          tm_sec = s mod 60\<rparr>)"

text \<open>Months outside of the year are carried over to it.\<close>

definition timegm :: "tm \<Rightarrow> int" where
  "timegm tm =
     (let y = tm_year tm + 1900 + tm_mon tm div 12;
          days = days_to_year y + days_to_month (is_leap y) (nat (tm_mon tm mod 12)) + (tm_mday tm - 1)
      in days * 86400 + tm_hour tm * 3600 + tm_min tm * 60 + tm_sec tm)"


section \<open>Strings of time\<close>

fun intToString_loop :: "nat \<Rightarrow> int \<Rightarrow> int \<Rightarrow> byte list" where
  "intToString_loop 0 remainder digitBase = []"
| "intToString_loop (Suc n) remainder digitBase =
     of_int (remainder sdiv digitBase + 48) #
     intToString_loop n (remainder smod digitBase) (digitBase sdiv 10)"

text \<open>The memory behind \<open>buffer\<close> after the digits and the terminating zero are written.\<close>

definition Conversions_intToStringBuffer :: "int \<Rightarrow> nat \<Rightarrow> byte list \<Rightarrow> byte list option" where
  "Conversions_intToStringBuffer intValue numberOfDigits buffer =
     (let octets = intToString_loop numberOfDigits intValue (10 ^ (numberOfDigits - 1)) @ [0] in
      if length octets \<le> length buffer then Some (octets @ drop (length octets) buffer) else None)"

definition write_at :: "nat \<Rightarrow> (byte list \<Rightarrow> byte list option) \<Rightarrow> byte list \<Rightarrow> byte list option" where
  "write_at off f buffer = do {
     dst \<leftarrow> ptr_add buffer (int off);
     mem \<leftarrow> f dst;
     Some (take off buffer @ mem)
   }"

definition put_char :: "byte \<Rightarrow> byte list \<Rightarrow> byte list option" where
  "put_char c buffer = (case buffer of [] \<Rightarrow> None | _ # rest \<Rightarrow> Some (c # rest))"

definition Conversions_msTimeToGeneralizedTime :: "u64 \<Rightarrow> byte list \<Rightarrow> byte list option" where
  "Conversions_msTimeToGeneralizedTime msTime buffer = do {
     let msPart = uint (msTime mod 1000);
     let unixTime = uint (msTime div 1000);
     let tmTime = gmtime_r unixTime;
     buffer \<leftarrow> Conversions_intToStringBuffer (tm_year tmTime + 1900) 4 buffer;
     buffer \<leftarrow> write_at 4 (Conversions_intToStringBuffer (tm_mon tmTime + 1) 2) buffer;
     buffer \<leftarrow> write_at 6 (Conversions_intToStringBuffer (tm_mday tmTime) 2) buffer;
     buffer \<leftarrow> write_at 8 (Conversions_intToStringBuffer (tm_hour tmTime) 2) buffer;
     buffer \<leftarrow> write_at 10 (Conversions_intToStringBuffer (tm_min tmTime) 2) buffer;
     buffer \<leftarrow> write_at 12 (Conversions_intToStringBuffer (tm_sec tmTime) 2) buffer;
     buffer \<leftarrow> write_at 14 (put_char 0x2e) buffer;
     buffer \<leftarrow> write_at 15 (Conversions_intToStringBuffer msPart 3) buffer;
     buffer \<leftarrow> write_at 18 (put_char 0x5a) buffer;
     write_at 19 (put_char 0) buffer
   }"

definition StringUtils_isDigit :: "byte \<Rightarrow> bool" where
  "StringUtils_isDigit character \<longleftrightarrow> 47 < sint character \<and> sint character < 58"

definition StringUtils_digitToInt :: "byte \<Rightarrow> int" where
  "StringUtils_digitToInt digit = (if StringUtils_isDigit digit then sint digit - 48 else -1)"

text \<open>A string ends with a zero, which is no digit.\<close>

fun digitsToInt_loop :: "byte list \<Rightarrow> nat \<Rightarrow> int \<Rightarrow> int option" where
  "digitsToInt_loop digits 0 val = Some val"
| "digitsToInt_loop digits (Suc n) val = do {
     val \<leftarrow> chk_int (val * 10);
     let digitValue = (case digits of [] \<Rightarrow> -1 | d # _ \<Rightarrow> StringUtils_digitToInt d);
     if digitValue = -1 then Some (-1)
     else do {
       val \<leftarrow> add_int val digitValue;
       digitsToInt_loop (tl digits) n val
     }
   }"

definition StringUtils_digitsToInt :: "cstring \<Rightarrow> nat \<Rightarrow> int option" where
  "StringUtils_digitsToInt digits count = digitsToInt_loop digits count 0"

definition getSecondsOffset :: "cstring \<Rightarrow> int option" where
  "getSecondsOffset offsetString = do {
     hourOffset \<leftarrow> StringUtils_digitsToInt offsetString 2;
     if hourOffset < 0 then Some (-1)
     else do {
       minOffset \<leftarrow> StringUtils_digitsToInt (drop 2 offsetString) 2;
       if minOffset < 0 then Some (-1)
       else Some (hourOffset * (60 * 60) + minOffset * 60)
     }
   }"

text \<open>The digits of the fraction of a second: their number and the power of ten.\<close>

fun fraction_loop :: "cstring \<Rightarrow> nat \<Rightarrow> int \<Rightarrow> (nat \<times> int) option" where
  "fraction_loop [] len secondValue = Some (len, secondValue)"
| "fraction_loop (c # cs) len secondValue =
     (if StringUtils_isDigit c then do {
        secondValue \<leftarrow> chk_int (secondValue * 10);
        fraction_loop cs (len + 1) secondValue
      }
      else Some (len, secondValue))"

text \<open>The optional fraction: the milliseconds and the rest of the string.\<close>

definition parseFraction :: "cstring \<Rightarrow> (int \<times> cstring) option" where
  "parseFraction parsePos =
     (case parsePos of
        c # rest \<Rightarrow>
          (if c = 0x2e then do {
             (len, secondValue) \<leftarrow> fraction_loop rest 0 1;
             msOffset \<leftarrow>
               (if 0 < len then do {
                  fractionOfSecond \<leftarrow> StringUtils_digitsToInt rest len;
                  scaled \<leftarrow> chk_int (fractionOfSecond * 1000);
                  Some (scaled sdiv secondValue)
                }
                else Some 0);
             Some (msOffset, drop len rest)
           }
           else Some (0, parsePos))
      | [] \<Rightarrow> Some (0, parsePos))"

text \<open>The broken-down time of the fields, \<open>None\<close> if one of them is no number.\<close>

definition parseFields :: "cstring \<Rightarrow> tm option option" where
  "parseFields gtString = do {
     year \<leftarrow> StringUtils_digitsToInt gtString 4;
     if year < 0 then Some None else do {
       month \<leftarrow> StringUtils_digitsToInt (drop 4 gtString) 2;
       if month < 0 then Some None else do {
         day \<leftarrow> StringUtils_digitsToInt (drop 6 gtString) 2;
         if day < 0 then Some None else do {
           hour \<leftarrow> StringUtils_digitsToInt (drop 8 gtString) 2;
           if hour < 0 then Some None else do {
             min \<leftarrow> StringUtils_digitsToInt (drop 10 gtString) 2;
             if min < 0 then Some None else do {
               seconds \<leftarrow> StringUtils_digitsToInt (drop 12 gtString) 2;
               if seconds < 0 then Some None
               else Some (Some \<lparr>tm_year = year - 1900, tm_mon = month - 1, tm_mday = day, tm_hour = hour, tm_min = min,
                 tm_sec = seconds\<rparr>)
             }}}}}
   }"

definition Conversions_generalizedTimeToMsTime :: "(tm \<Rightarrow> int) \<Rightarrow> cstring \<Rightarrow> u64 option" where
  "Conversions_generalizedTimeToMsTime mktime gtString =
     (if length gtString < 14 then Some (-1)
      else do {
        fields \<leftarrow> parseFields gtString;
        (case fields of
           None \<Rightarrow> Some (-1)
         | Some tmTime \<Rightarrow> do {
             (msOffset, parsePos) \<leftarrow> parseFraction (drop 14 gtString);
             t \<leftarrow>
               (case parsePos of
                  [] \<Rightarrow> Some (Some (mktime tmTime))
                | c # offset \<Rightarrow>
                    if c = 0x5a then Some (Some (timegm tmTime))
                    else if c = 0x2b then do {
                      secondsOffset \<leftarrow> getSecondsOffset offset;
                      Some (Some (timegm tmTime - secondsOffset))
                    }
                    else if c = 0x2d then do {
                      secondsOffset \<leftarrow> getSecondsOffset offset;
                      Some (Some (timegm tmTime + secondsOffset))
                    }
                    else Some None);
             (case t of
                None \<Rightarrow> Some (-1)
              | Some t \<Rightarrow> Some (of_int (t * 1000) + of_int msOffset))
           })
      })"

section \<open>The calendar functions are inverse\<close>

lemma div_step: "0 < n \<Longrightarrow> y div n = (y - 1) div n + (if n dvd y then 1 else 0)" for n y :: int
proof -
  assume n: "0 < n"
  define q r where "q = y div n" and "r = y mod n"
  have y: "y = n * q + r" "0 \<le> r" "r < n" using n by (simp_all add: q_def r_def)
  show ?thesis
  proof (cases "r = 0")
    case True
    have "(y - 1) div n = q - 1"
      by (rule int_div_pos_eq [of _ _ _ "n - 1"]) (use y True n in \<open>simp_all add: algebra_simps\<close>)
    then show ?thesis using True by (simp add: q_def r_def dvd_eq_mod_eq_0)
  next
    case False
    have "(y - 1) div n = q"
      by (rule int_div_pos_eq [of _ _ _ "r - 1"]) (use y False in \<open>simp_all add: algebra_simps\<close>)
    then show ?thesis using False by (simp add: q_def r_def dvd_eq_mod_eq_0)
  qed
qed

lemma days_to_year_step: "days_to_year (y + 1) = days_to_year y + year_len y"
proof -
  have "leaps y - leaps (y - 1) = (if 4 dvd y then 1 else 0) - (if 100 dvd y then 1 else 0) + (if 400 dvd y then 1 else 0)"
    unfolding leaps_def using div_step [of 4 y] div_step [of 100 y] div_step [of 400 y] by simp
  also have "\<dots> = (if is_leap y then 1 else 0)"
  proof -
    have "4 dvd y" if "100 dvd y" by (rule dvd_trans [OF _ that]) simp
    moreover have "100 dvd y" if "400 dvd y" by (rule dvd_trans [OF _ that]) simp
    moreover have "(if a then 1 else 0) - (if b then 1 else 0) + (if c then 1 else 0) = (if a \<and> (\<not> b \<or> c) then 1 else (0 :: int))"
      if "b \<Longrightarrow> a" and "c \<Longrightarrow> b" for a b c using that by auto
    ultimately show ?thesis unfolding is_leap_def dvd_eq_mod_eq_0 [symmetric] by blast
  qed
  finally show ?thesis by (simp add: days_to_year_def year_len_def algebra_simps)
qed

lemma days_to_year_mono: "y \<le> z \<Longrightarrow> days_to_year y \<le> days_to_year z"
proof (induction z rule: int_ge_induct)
  case (step z)
  then show ?case by (simp add: days_to_year_step year_len_def split: if_splits)
qed simp

lemma year_loop_days:
  "year_loop y d = (y', d') \<Longrightarrow> 0 \<le> d \<Longrightarrow> days_to_year y' + d' = days_to_year y + d \<and> 0 \<le> d' \<and> d' < year_len y' \<and> y \<le> y'"
proof (induction y d rule: year_loop.induct)
  case (1 y d)
  show ?case
  proof (cases "d < year_len y")
    case True
    with "1.prems" show ?thesis by (simp add: year_loop.simps [of y d])
  next
    case False
    with "1.prems" "1.IH" show ?thesis
      by (simp add: year_loop.simps [of y d] days_to_year_step)
  qed
qed

lemma days_to_month_Suc: "days_to_month leap (Suc m) = days_to_month leap m + month_len leap m"
  by (simp add: days_to_month_def)

lemma month_len_pos: "0 < month_len leap m"
  by (simp add: month_len_def)

lemma days_to_month_mono: "m \<le> n \<Longrightarrow> days_to_month leap m \<le> days_to_month leap n"
proof (induction n)
  case (Suc n)
  then show ?case using month_len_pos [of leap n] by (auto simp: le_Suc_eq days_to_month_Suc)
qed simp

lemma days_to_month_year: "days_to_month (is_leap y) 12 = year_len y"
  by (simp add: days_to_month_def month_len_def year_len_def upt_rec numeral_eq_Suc)

lemma month_loop_days:
  "month_loop leap m d = (m', d') \<Longrightarrow> 0 \<le> d \<Longrightarrow>
   days_to_month leap m' + d' = days_to_month leap m + d \<and> 0 \<le> d' \<and> d' < month_len leap m'"
proof (induction leap m d rule: month_loop.induct)
  case (1 leap m d)
  show ?case
  proof (cases "d < month_len leap m")
    case True
    with "1.prems" show ?thesis by (simp add: month_loop.simps [of leap m d])
  next
    case False
    with "1.prems" "1.IH" show ?thesis
      by (simp add: month_loop.simps [of leap m d] days_to_month_Suc)
  qed
qed

text \<open>The fields of a broken-down time of the years up to 9999.\<close>

lemma gmtime_fields:
  assumes "0 \<le> t" and "t < days_to_year 10000 * 86400"
  shows "timegm (gmtime_r t) = t" and "1970 \<le> tm_year (gmtime_r t) + 1900" and "tm_year (gmtime_r t) + 1900 < 10000"
    and "0 \<le> tm_mon (gmtime_r t)" and "tm_mon (gmtime_r t) < 12"
    and "1 \<le> tm_mday (gmtime_r t)" and "tm_mday (gmtime_r t) \<le> 31"
    and "0 \<le> tm_hour (gmtime_r t)" and "tm_hour (gmtime_r t) < 24"
    and "0 \<le> tm_min (gmtime_r t)" and "tm_min (gmtime_r t) < 60"
    and "0 \<le> tm_sec (gmtime_r t)" and "tm_sec (gmtime_r t) < 60"
proof -
  obtain y yday where y: "year_loop 1970 (t div 86400) = (y, yday)" by fastforce
  obtain m mday where m: "month_loop (is_leap y) 0 yday = (m, mday)" by fastforce
  have days: "days_to_year y + yday = t div 86400" "0 \<le> yday" "yday < year_len y" "1970 \<le> y"
    using year_loop_days [OF y] assms(1) by (simp_all add: days_to_year_def pos_imp_zdiv_nonneg_iff)
  have month: "days_to_month (is_leap y) m + mday = yday" "0 \<le> mday" "mday < month_len (is_leap y) m"
    using month_loop_days [OF m] days(2) by (simp_all add: days_to_month_def)
  have "m < 12"
  proof (rule ccontr)
    assume "\<not> m < 12"
    then have "year_len y \<le> days_to_month (is_leap y) m"
      using days_to_month_mono [of 12 m "is_leap y"] days_to_month_year [of y] by simp
    with month days(3) show False by linarith
  qed
  have "t div 86400 < days_to_year 10000" using assms(2) by linarith
  then have "y < 10000" using days(1,2) days_to_year_mono [of 10000 y] by linarith
  have g: "gmtime_r t = \<lparr>tm_year = y - 1900, tm_mon = int m, tm_mday = mday + 1, tm_hour = t mod 86400 div 3600,
      tm_min = t mod 86400 mod 3600 div 60, tm_sec = t mod 86400 mod 60\<rparr>"
    by (simp add: gmtime_r_def y m Let_def)
  have "month_len (is_leap y) m \<le> 31" by (simp add: month_len_def)
  then show "tm_mday (gmtime_r t) \<le> 31" using month(3) by (simp add: g)
  have "int m div 12 = 0" "nat (int m mod 12) = m" using \<open>m < 12\<close> by simp_all
  then have "timegm (gmtime_r t) = (days_to_year y + days_to_month (is_leap y) m + mday) * 86400 +
      t mod 86400 div 3600 * 3600 + t mod 86400 mod 3600 div 60 * 60 + t mod 86400 mod 60"
    by (simp add: timegm_def g Let_def)
  also have "\<dots> = t div 86400 * 86400 + (t mod 86400 div 3600 * 3600 + (t mod 86400 mod 3600 div 60 * 60 + t mod 86400 mod 3600 mod 60))"
    using days(1) month(1) by (simp add: mod_mod_cancel)
  finally show "timegm (gmtime_r t) = t" by simp
  show "1970 \<le> tm_year (gmtime_r t) + 1900" "tm_year (gmtime_r t) + 1900 < 10000"
    "0 \<le> tm_mon (gmtime_r t)" "tm_mon (gmtime_r t) < 12" "1 \<le> tm_mday (gmtime_r t)"
    using days(4) \<open>y < 10000\<close> \<open>m < 12\<close> month(2) by (simp_all add: g)
  have s: "0 \<le> t mod 86400" "t mod 86400 < 86400" "0 \<le> t mod 86400 mod 3600" "t mod 86400 mod 3600 < 3600" by simp_all
  have "t mod 86400 div 3600 < 24" "t mod 86400 mod 3600 div 60 < 60" using s by linarith+
  then show "tm_hour (gmtime_r t) < 24" "tm_min (gmtime_r t) < 60" unfolding g by simp_all
  show "0 \<le> tm_hour (gmtime_r t)" "0 \<le> tm_min (gmtime_r t)" "0 \<le> tm_sec (gmtime_r t)" "tm_sec (gmtime_r t) < 60"
    unfolding g by (simp_all add: pos_imp_zdiv_nonneg_iff)
qed

section \<open>Round trip\<close>

lemma sdiv_nonneg: "0 \<le> a \<Longrightarrow> 0 < b \<Longrightarrow> a sdiv b = a div b" for a b :: int
  by (cases "a = 0") (simp_all add: signed_divide_int_def sgn_mult)

lemma smod_nonneg: "0 \<le> a \<Longrightarrow> 0 < b \<Longrightarrow> a smod b = a mod b" for a b :: int
  by (cases "a = 0") (simp_all add: signed_modulo_int_def)

abbreviation digits :: "nat \<Rightarrow> int \<Rightarrow> byte list" where
  "digits n v \<equiv> intToString_loop n v (10 ^ (n - 1))"

lemma length_intToString [simp]: "length (intToString_loop n v b) = n"
  by (induction n v b rule: intToString_loop.induct) simp_all

lemma digits_Suc:
  assumes "0 \<le> v"
  shows "digits (Suc n) v = of_int (v div 10 ^ n + 48) # digits n (v mod 10 ^ n)"
proof (cases n)
  case (Suc k)
  then show ?thesis using assms by (simp add: sdiv_nonneg smod_nonneg)
qed (use assms in \<open>simp add: sdiv_nonneg\<close>)

lemma digit_char:
  assumes "0 \<le> d" and "d < 10"
  shows "StringUtils_isDigit (of_int (d + 48))" and "StringUtils_digitToInt (of_int (d + 48)) = d"
proof -
  have "sint (of_int (d + 48) :: byte) = d + 48"
    using assms by (simp add: sint_sbintrunc' signed_take_bit_int_eq_self del: of_int_add)
  then show "StringUtils_isDigit (of_int (d + 48))" "StringUtils_digitToInt (of_int (d + 48)) = d"
    using assms by (simp_all add: StringUtils_isDigit_def StringUtils_digitToInt_def)
qed

lemma leading_digit: "0 \<le> v \<Longrightarrow> v < 10 ^ Suc n \<Longrightarrow> 0 \<le> v div 10 ^ n \<and> v div 10 ^ n < 10" for v :: int
proof -
  assume v: "0 \<le> v" "v < 10 ^ Suc n"
  have "v div 10 ^ n < 10"
  proof (rule ccontr)
    assume "\<not> v div 10 ^ n < 10"
    then have "10 * 10 ^ n \<le> v div 10 ^ n * 10 ^ n" by (intro mult_right_mono) simp_all
    moreover have "v div 10 ^ n * 10 ^ n \<le> v" using div_mult_mod_eq [of v "10 ^ n"] pos_mod_sign [of "10 ^ n" v, OF zero_less_power] by linarith
    ultimately have "10 * 10 ^ n \<le> v" by linarith
    then show False using v(2) by simp
  qed
  then show ?thesis using v(1) by (simp add: pos_imp_zdiv_nonneg_iff)
qed

lemma digitsToInt_digits:
  "0 \<le> v \<Longrightarrow> v < 10 ^ n \<Longrightarrow> 0 \<le> acc \<Longrightarrow> acc * 10 ^ n + v \<le> INT_MAX \<Longrightarrow>
   digitsToInt_loop (digits n v @ rest) n acc = Some (acc * 10 ^ n + v)"
proof (induction n arbitrary: v acc)
  case (Suc n)
  define d r where "d = v div 10 ^ n" and "r = v mod 10 ^ n"
  have v: "v = d * 10 ^ n + r" "0 \<le> r" "r < 10 ^ n" unfolding d_def r_def by (simp_all only: div_mult_mod_eq) simp_all
  have d: "0 \<le> d" "d < 10" using leading_digit [OF Suc.prems(1,2)] by (simp_all add: d_def)
  have eq: "(acc * 10 + d) * 10 ^ n + r = acc * 10 ^ Suc n + v" using v(1) by (simp add: algebra_simps)
  have "(acc * 10 + d) * 1 \<le> (acc * 10 + d) * 10 ^ n" by (rule mult_left_mono) (use Suc.prems(3) d in simp_all)
  then have "acc * 10 + d \<le> acc * 10 ^ Suc n + v" unfolding eq [symmetric] using v(2) by simp
  then have le: "acc * 10 + d \<le> INT_MAX" using Suc.prems(4) by simp
  have "digitsToInt_loop (digits n r @ rest) n (acc * 10 + d) = Some (acc * 10 ^ Suc n + v)"
    using Suc.IH [OF v(2,3), of "acc * 10 + d"] Suc.prems(3,4) d eq by simp
  then show ?case
    using Suc.prems(3) d le digit_char(2) [OF d]
    by (simp add: digits_Suc [OF Suc.prems(1), unfolded diff_Suc_1] d_def [symmetric] r_def [symmetric] add_int_def del: intToString_loop.simps)
qed simp

lemma digitsToInt_read:
  assumes "0 \<le> v" and "v < 10 ^ n" and "n \<le> 4"
  shows "StringUtils_digitsToInt (digits n v @ rest) n = Some v"
proof -
  have "(10 :: int) ^ n \<le> 10 ^ 4" by (rule power_increasing [OF assms(3)]) simp
  then show ?thesis
    using digitsToInt_digits [OF assms(1,2), of 0 rest] assms by (simp add: StringUtils_digitsToInt_def)
qed

text \<open>What is written, piece by piece.\<close>

lemma write_digits:
  assumes "take off buf = pre" and "length pre = off" and "off + n < length buf"
  shows "\<exists>buf'. write_at off (Conversions_intToStringBuffer v n) buf = Some buf' \<and>
    take (off + n) buf' = pre @ digits n v \<and> length buf' = length buf"
  using assms by (auto simp: write_at_def Conversions_intToStringBuffer_def ptr_add_def Let_def)

lemma write_char:
  assumes "take off buf = pre" and "length pre = off" and "off < length buf"
  shows "\<exists>buf'. write_at off (put_char c) buf = Some buf' \<and> take (off + 1) buf' = pre @ [c] \<and> length buf' = length buf"
proof -
  obtain x xs where "drop off buf = x # xs" using assms(3) by (metis Cons_nth_drop_Suc)
  moreover from this have "length buf = off + Suc (length xs)" using assms(3) by (metis add_diff_inverse_nat length_Cons length_drop not_less_iff_gr_or_eq)
  ultimately show ?thesis using assms(1,2) by (simp add: write_at_def put_char_def ptr_add_def)
qed

definition time_string :: "u64 \<Rightarrow> cstring" where
  "time_string msTime =
     (let tm = gmtime_r (uint (msTime div 1000)) in
      digits 4 (tm_year tm + 1900) @ digits 2 (tm_mon tm + 1) @ digits 2 (tm_mday tm) @ digits 2 (tm_hour tm) @
      digits 2 (tm_min tm) @ digits 2 (tm_sec tm) @ [0x2e] @ digits 3 (uint (msTime mod 1000)) @ [0x5a])"

lemma msTime_written:
  assumes "20 \<le> length buffer"
  shows "\<exists>mem. Conversions_msTimeToGeneralizedTime msTime buffer = Some mem \<and>
    take 20 mem = time_string msTime @ [0] \<and> length mem = length buffer"
proof -
  define tm ms where "tm = gmtime_r (uint (msTime div 1000))" and "ms = uint (msTime mod 1000)"
  obtain b1 where b1: "write_at 0 (Conversions_intToStringBuffer (tm_year tm + 1900) 4) buffer = Some b1"
      "take 4 b1 = digits 4 (tm_year tm + 1900)" "length b1 = length buffer"
    using write_digits [of 0 buffer "[]" 4 "tm_year tm + 1900"] assms by auto
  obtain b2 where b2: "write_at 4 (Conversions_intToStringBuffer (tm_mon tm + 1) 2) b1 = Some b2"
      "take 6 b2 = digits 4 (tm_year tm + 1900) @ digits 2 (tm_mon tm + 1)" "length b2 = length buffer"
    using write_digits [OF b1(2), of 2 "tm_mon tm + 1"] b1(3) assms by auto
  obtain b3 where b3: "write_at 6 (Conversions_intToStringBuffer (tm_mday tm) 2) b2 = Some b3"
      "take 8 b3 = (digits 4 (tm_year tm + 1900) @ digits 2 (tm_mon tm + 1)) @ digits 2 (tm_mday tm)" "length b3 = length buffer"
    using write_digits [OF b2(2), of 2 "tm_mday tm"] b2(3) assms by auto
  obtain b4 where b4: "write_at 8 (Conversions_intToStringBuffer (tm_hour tm) 2) b3 = Some b4"
      "take 10 b4 = ((digits 4 (tm_year tm + 1900) @ digits 2 (tm_mon tm + 1)) @ digits 2 (tm_mday tm)) @ digits 2 (tm_hour tm)"
      "length b4 = length buffer"
    using write_digits [OF b3(2), of 2 "tm_hour tm"] b3(3) assms by auto
  obtain b5 where b5: "write_at 10 (Conversions_intToStringBuffer (tm_min tm) 2) b4 = Some b5"
      "take 12 b5 = (((digits 4 (tm_year tm + 1900) @ digits 2 (tm_mon tm + 1)) @ digits 2 (tm_mday tm)) @ digits 2 (tm_hour tm)) @
        digits 2 (tm_min tm)" "length b5 = length buffer"
    using write_digits [OF b4(2), of 2 "tm_min tm"] b4(3) assms by auto
  obtain b6 where b6: "write_at 12 (Conversions_intToStringBuffer (tm_sec tm) 2) b5 = Some b6"
      "take 14 b6 = ((((digits 4 (tm_year tm + 1900) @ digits 2 (tm_mon tm + 1)) @ digits 2 (tm_mday tm)) @ digits 2 (tm_hour tm)) @
        digits 2 (tm_min tm)) @ digits 2 (tm_sec tm)" "length b6 = length buffer"
    using write_digits [OF b5(2), of 2 "tm_sec tm"] b5(3) assms by auto
  obtain b7 where b7: "write_at 14 (put_char 0x2e) b6 = Some b7" "take 15 b7 = take 14 b6 @ [0x2e]" "length b7 = length buffer"
    using write_char [of 14 b6 _ "0x2e", OF refl] b6(3) assms by auto
  obtain b8 where b8: "write_at 15 (Conversions_intToStringBuffer ms 3) b7 = Some b8"
      "take 18 b8 = take 15 b7 @ digits 3 ms" "length b8 = length buffer"
    using write_digits [of 15 b7 _ 3 ms, OF refl] b7(3) assms by auto
  obtain b9 where b9: "write_at 18 (put_char 0x5a) b8 = Some b9" "take 19 b9 = take 18 b8 @ [0x5a]" "length b9 = length buffer"
    using write_char [of 18 b8 _ "0x5a", OF refl] b8(3) assms by auto
  obtain b10 where b10: "write_at 19 (put_char 0) b9 = Some b10" "take 20 b10 = take 19 b9 @ [0]" "length b10 = length buffer"
    using write_char [of 19 b9 _ 0, OF refl] b9(3) assms by auto
  have first: "Conversions_intToStringBuffer (tm_year tm + 1900) 4 buffer = Some b1"
    using b1(1) by (simp add: write_at_def ptr_add_def split: bind_splits)
  have "Conversions_msTimeToGeneralizedTime msTime buffer = Some b10"
    unfolding Conversions_msTimeToGeneralizedTime_def Let_def tm_def [symmetric] ms_def [symmetric]
    by (simp add: first b2(1) b3(1) b4(1) b5(1) b6(1) b7(1) b8(1) b9(1) b10(1))
  moreover have "take 20 b10 = time_string msTime @ [0]"
    unfolding b10(2) b9(2) b8(2) b7(2) b6(2) time_string_def Let_def tm_def [symmetric] ms_def [symmetric] by simp
  ultimately show ?thesis using b10(3) by blast
qed

lemma fraction_three:
  assumes "0 \<le> v" and "v < 1000"
  shows "parseFraction (0x2e # digits 3 v @ [0x5a]) = Some (v, [0x5a])"
proof -
  have "v < 10 ^ 3" using assms(2) by simp
  note three = digitsToInt_read [OF assms(1) this, of "[0x5a]"]
  define a b c where "a = v div 10 ^ 2" and "b = v mod 10 ^ 2 div 10 ^ 1" and "c = v mod 10 ^ 2 mod 10 ^ 1 div 10 ^ 0"
  have split: "digits 3 v = [of_int (a + 48), of_int (b + 48), of_int (c + 48)]"
    unfolding numeral_3_eq_3 a_def b_def c_def
    by (subst digits_Suc [OF assms(1)], subst digits_Suc, simp, subst digits_Suc, simp) (simp add: numeral_2_eq_2)
  have a: "0 \<le> a" "a < 10" "0 \<le> b" "b < 10" "0 \<le> c" "c < 10"
    using leading_digit [of v 2] leading_digit [of "v mod 10 ^ 2" 1] leading_digit [of "v mod 10 ^ 2 mod 10 ^ 1" 0] assms
    unfolding a_def b_def c_def by simp_all
  have "\<not> StringUtils_isDigit 0x5a" by (simp add: StringUtils_isDigit_def)
  then have "fraction_loop (digits 3 v @ [0x5a]) 0 1 = Some (3, 1000)"
    unfolding split using digit_char(1) a by simp
  then show ?thesis
    using three assms by (simp add: parseFraction_def sdiv_nonneg)
qed

lemma fields_read:
  assumes "0 \<le> y" "y < 10 ^ 4" "0 \<le> mo" "mo < 10 ^ 2" "0 \<le> d" "d < 10 ^ 2" "0 \<le> h" "h < 10 ^ 2"
    "0 \<le> mi" "mi < 10 ^ 2" "0 \<le> sec" "sec < 10 ^ 2"
  shows "parseFields (digits 4 y @ digits 2 mo @ digits 2 d @ digits 2 h @ digits 2 mi @ digits 2 sec @ rest) =
    Some (Some \<lparr>tm_year = y - 1900, tm_mon = mo - 1, tm_mday = d, tm_hour = h, tm_min = mi, tm_sec = sec\<rparr>)"
proof -
  let ?s = "digits 4 y @ digits 2 mo @ digits 2 d @ digits 2 h @ digits 2 mi @ digits 2 sec @ rest"
  have drops: "drop 4 ?s = digits 2 mo @ digits 2 d @ digits 2 h @ digits 2 mi @ digits 2 sec @ rest"
      "drop 6 ?s = digits 2 d @ digits 2 h @ digits 2 mi @ digits 2 sec @ rest"
      "drop 8 ?s = digits 2 h @ digits 2 mi @ digits 2 sec @ rest"
      "drop 10 ?s = digits 2 mi @ digits 2 sec @ rest" "drop 12 ?s = digits 2 sec @ rest"
    by simp_all
  have reads: "StringUtils_digitsToInt ?s 4 = Some y" "\<And>X. StringUtils_digitsToInt (digits 2 mo @ X) 2 = Some mo"
      "\<And>X. StringUtils_digitsToInt (digits 2 d @ X) 2 = Some d" "\<And>X. StringUtils_digitsToInt (digits 2 h @ X) 2 = Some h"
      "\<And>X. StringUtils_digitsToInt (digits 2 mi @ X) 2 = Some mi" "\<And>X. StringUtils_digitsToInt (digits 2 sec @ X) 2 = Some sec"
    by (rule digitsToInt_read; use assms in simp)+
  show ?thesis
    unfolding parseFields_def drops unfolding reads using assms by simp
qed

text \<open>The latest time with four digits of the year.\<close>

definition last_ms :: int where
  "last_ms = days_to_year 10000 * 86400000"

text \<open>C33: The string written for a time in milliseconds is read back as the same time, for all years up to 9999; it
  has 19 characters and stays inside of the buffer. This is the Linux build, whose \<open>timegm\<close> is that of the C
  library and knows no time zone; with the \<open>timegm\<close> compiled on Windows it need not hold.\<close>

theorem generalized_time_roundtrip:
  assumes "20 \<le> length buffer" and "uint msTime < last_ms"
  shows "\<exists>mem. Conversions_msTimeToGeneralizedTime msTime buffer = Some mem \<and> length mem = length buffer \<and>
    mem ! 19 = 0 \<and> Conversions_generalizedTimeToMsTime mktime (take 19 mem) = Some msTime"
proof -
  obtain mem where mem: "Conversions_msTimeToGeneralizedTime msTime buffer = Some mem"
      "take 20 mem = time_string msTime @ [0]" "length mem = length buffer"
    using msTime_written [OF assms(1)] by blast
  define t ms tm where "t = uint (msTime div 1000)" and "ms = uint (msTime mod 1000)" and "tm = gmtime_r t"
  have t: "t = uint msTime div 1000" "ms = uint msTime mod 1000" by (simp_all add: t_def ms_def uint_div uint_mod)
  have ms: "0 \<le> ms" "ms < 1000" by (simp_all add: t(2))
  have "0 \<le> t" by (simp add: t(1) pos_imp_zdiv_nonneg_iff)
  moreover have "t < days_to_year 10000 * 86400"
    using assms(2) div_mult_mod_eq [of "uint msTime" 1000] pos_mod_sign [of 1000 "uint msTime"]
    unfolding t(1) last_ms_def by linarith
  ultimately have bounds: "0 \<le> t" "t < days_to_year 10000 * 86400" .
  note f = gmtime_fields [OF bounds, folded tm_def]
  have len: "length (time_string msTime) = 19" by (simp add: time_string_def Let_def)
  have "take 19 mem = take 19 (take 20 mem)" "mem ! 19 = take 20 mem ! 19" by simp_all
  then have str: "take 19 mem = time_string msTime" "mem ! 19 = 0" using mem(2) len by (simp_all add: nth_append)
  have ts: "time_string msTime = digits 4 (tm_year tm + 1900) @ digits 2 (tm_mon tm + 1) @ digits 2 (tm_mday tm) @
      digits 2 (tm_hour tm) @ digits 2 (tm_min tm) @ digits 2 (tm_sec tm) @ 0x2e # digits 3 ms @ [0x5a]"
    unfolding time_string_def tm_def t_def ms_def Let_def by simp
  have "parseFields (time_string msTime) = Some (Some tm)"
    unfolding ts using f by (subst fields_read) simp_all
  moreover have "parseFraction (drop 14 (time_string msTime)) = Some (ms, [0x5a])"
    using fraction_three [OF ms] by (simp add: ts)
  ultimately have "Conversions_generalizedTimeToMsTime mktime (time_string msTime) = Some (of_int (t * 1000) + of_int ms)"
    using len f(1) by (simp add: Conversions_generalizedTimeToMsTime_def)
  also have "of_int (t * 1000) + of_int ms = msTime"
    unfolding t of_int_add [symmetric] by simp
  finally have again: "Conversions_generalizedTimeToMsTime mktime (time_string msTime) = Some msTime" .
  show ?thesis by (rule exI [of _ mem], intro conjI) (simp_all only: mem str again)
qed

theorem generalized_time_roundtrip_witness:
  "\<exists>mem. Conversions_msTimeToGeneralizedTime 1400000000123 (replicate 30 0) = Some mem \<and> length mem = 30 \<and>
    mem ! 19 = 0 \<and> Conversions_generalizedTimeToMsTime timegm (take 19 mem) = Some 1400000000123"
proof -
  have "uint (1400000000123 :: u64) < last_ms" by (simp add: last_ms_def days_to_year_def leaps_def)
  from generalized_time_roundtrip [OF _ this, of "replicate 30 0" timegm] show ?thesis by simp
qed

end
