(* ===== verification/Mms_File.thy ===== *)
theory Mms_File
  imports Mms_Name_List General_Time
begin

text \<open>
  The file service of the MMS server (\<open>src/src/mms/iso_mms/server/mms_file_service.c\<close>) over the file system of
  Linux (\<open>src/src/hal/filesystem/linux/file_provider_linux.c\<close>).

  The state of the file system holds what the C library shows of it: the octets a stream opened on a
  path delivers, the size and modification time of \<open>stat\<close>, the entries of a directory in the order of
  \<open>readdir\<close>, and the open streams with the octets not yet read. The calls that change the disk
  (\<open>remove\<close>, \<open>rename\<close>) are parameters.
\<close>

section \<open>The file system\<close>

record FileSystem =
  fs_basePath :: cstring
  fs_content :: "cstring \<Rightarrow> byte list option"
  fs_stat :: "cstring \<Rightarrow> (u32 \<times> u64) option"
  fs_entries :: "cstring \<Rightarrow> (cstring \<times> bool) list option"
  fs_streams :: "nat \<Rightarrow> byte list option"
  fs_next :: nat

text \<open>\<open>sizeof(CONFIG_VIRTUAL_FILESTORE_BASEPATH) + 255\<close>, the size of the arrays for paths\<close>

definition FULL_PATH_SIZE :: nat where "FULL_PATH_SIZE = 17 + 255"

definition createFullPathFromFileName :: "FileSystem \<Rightarrow> cstring \<Rightarrow> cstring option" where
  "createFullPathFromFileName fs filename =
     (let path = fs_basePath fs @ filename in if length path < FULL_PATH_SIZE then Some path else None)"

definition FileSystem_setBasePath :: "FileSystem \<Rightarrow> cstring \<Rightarrow> FileSystem" where
  "FileSystem_setBasePath fs basePath = fs\<lparr>fs_basePath := basePath\<rparr>"

text \<open>Opening for reading, the only mode the library uses. \<open>Some None\<close> is the handle \<open>NULL\<close>.\<close>

definition FileSystem_openFile :: "FileSystem \<Rightarrow> cstring \<Rightarrow> (nat option \<times> FileSystem) option" where
  "FileSystem_openFile fs fileName = do {
     fullPath \<leftarrow> createFullPathFromFileName fs fileName;
     Some (case fs_content fs fullPath of
         None \<Rightarrow> (None, fs)
       | Some content \<Rightarrow>
           (Some (fs_next fs),
            fs\<lparr>fs_streams := (fs_streams fs)(fs_next fs \<mapsto> content), fs_next := Suc (fs_next fs)\<rparr>))
   }"

text \<open>\<open>fread\<close>: the octets read, which are at most \<open>maxSize\<close>. A closed stream must not be used.\<close>

definition FileSystem_readFile :: "FileSystem \<Rightarrow> nat \<Rightarrow> nat \<Rightarrow> (byte list \<times> FileSystem) option" where
  "FileSystem_readFile fs handle maxSize = do {
     rest \<leftarrow> fs_streams fs handle;
     Some (take maxSize rest, fs\<lparr>fs_streams := (fs_streams fs)(handle \<mapsto> drop maxSize rest)\<rparr>)
   }"

definition FileSystem_closeFile :: "FileSystem \<Rightarrow> nat \<Rightarrow> FileSystem option" where
  "FileSystem_closeFile fs handle = do {
     _ \<leftarrow> fs_streams fs handle;
     Some (fs\<lparr>fs_streams := (fs_streams fs)(handle := None)\<rparr>)
   }"

definition FileSystem_deleteFile ::
  "(FileSystem \<Rightarrow> cstring \<Rightarrow> bool \<times> FileSystem) \<Rightarrow> FileSystem \<Rightarrow> cstring \<Rightarrow> (bool \<times> FileSystem) option" where
  "FileSystem_deleteFile remove fs filename = do {
     fullPath \<leftarrow> createFullPathFromFileName fs filename;
     Some (remove fs fullPath)
   }"

definition FileSystem_renameFile ::
  "(FileSystem \<Rightarrow> cstring \<Rightarrow> cstring \<Rightarrow> bool \<times> FileSystem) \<Rightarrow> FileSystem \<Rightarrow> cstring \<Rightarrow> cstring \<Rightarrow>
   (bool \<times> FileSystem) option" where
  "FileSystem_renameFile rename fs oldFilename newFilename = do {
     oldFullPath \<leftarrow> createFullPathFromFileName fs oldFilename;
     newFullPath \<leftarrow> createFullPathFromFileName fs newFilename;
     Some (rename fs oldFullPath newFullPath)
   }"

text \<open>The size and the time in milliseconds; \<open>Some None\<close> if there is no such file.\<close>

definition FileSystem_getFileInfo :: "FileSystem \<Rightarrow> cstring \<Rightarrow> (u32 \<times> u64) option option" where
  "FileSystem_getFileInfo fs filename = do {
     fullPath \<leftarrow> createFullPathFromFileName fs filename;
     Some (map_option (\<lambda>(n, mtime). (n, mtime * 1000)) (fs_stat fs fullPath))
   }"

definition FileSystem_openDirectory :: "FileSystem \<Rightarrow> cstring \<Rightarrow> (cstring \<times> bool) list option option" where
  "FileSystem_openDirectory fs directoryName = do {
     fullPath \<leftarrow> createFullPathFromFileName fs directoryName;
     Some (fs_entries fs fullPath)
   }"

text \<open>The next entry that does not begin with a dot, and the entries behind it.\<close>

fun FileSystem_readDirectory :: "(cstring \<times> bool) list \<Rightarrow> ((cstring \<times> bool) \<times> (cstring \<times> bool) list) option" where
  "FileSystem_readDirectory [] = None"
| "FileSystem_readDirectory ((name, isDirectory) # directory) =
     (if take 1 name = [0x2e] then FileSystem_readDirectory directory else Some ((name, isDirectory), directory))"

lemma readDirectory_shorter: "FileSystem_readDirectory ds = Some (e, rest) \<Longrightarrow> length rest < length ds"
  by (induction ds rule: FileSystem_readDirectory.induct) (auto split: if_splits)


section \<open>Responses\<close>

definition createNullResponseExtendedTag :: "u32 \<Rightarrow> ByteBuffer \<Rightarrow> byte \<Rightarrow> ByteBuffer option" where
  "createNullResponseExtendedTag invokeId response tag = do {
     let invokeIdSize = BerEncoder_UInt32determineEncodedSize invokeId + 2;
     let confirmedResponsePDUSize = invokeIdSize + 3;
     w \<leftarrow> BerEncoder_encodeTL 0xa1 confirmedResponsePDUSize (bb_buffer response, 0);
     w \<leftarrow> BerEncoder_encodeTL 0x02 (invokeIdSize - 2) w;
     w \<leftarrow> BerEncoder_encodeUInt32 invokeId w;
     w \<leftarrow> emit 0xbf w;
     (buffer, bufPos) \<leftarrow> BerEncoder_encodeTL tag 0 w;
     Some (response\<lparr>bb_buffer := buffer, bb_size := int bufPos\<rparr>)
   }"

text \<open>The first free and the matching state machine of a connection, by its index.\<close>

fun freeFrsm_loop :: "MmsFileReadStateMachine list \<Rightarrow> nat \<Rightarrow> nat option" where
  "freeFrsm_loop [] i = None"
| "freeFrsm_loop (frsm # frsms) i = (if fr_fileHandle frsm = None then Some i else freeFrsm_loop frsms (i + 1))"

definition getFreeFrsm :: "sMmsServerConnection \<Rightarrow> nat option" where
  "getFreeFrsm connection = freeFrsm_loop (sc_frsms connection) 0"

fun frsm_loop :: "MmsFileReadStateMachine list \<Rightarrow> int \<Rightarrow> nat \<Rightarrow> nat option" where
  "frsm_loop [] frsmId i = None"
| "frsm_loop (frsm # frsms) frsmId i =
     (if fr_fileHandle frsm \<noteq> None \<and> fr_frsmId frsm = frsmId then Some i else frsm_loop frsms frsmId (i + 1))"

definition getFrsm :: "sMmsServerConnection \<Rightarrow> int \<Rightarrow> nat option" where
  "getFrsm connection frsmId = frsm_loop (sc_frsms connection) frsmId 0"

definition getNextFrsmId :: "sMmsServerConnection \<Rightarrow> (int \<times> sMmsServerConnection) option" where
  "getNextFrsmId connection = do {
     n \<leftarrow> add_int (sc_nextFrsmId connection) 1;
     Some (sc_nextFrsmId connection, connection\<lparr>sc_nextFrsmId := n\<rparr>)
   }"

definition fileAttributesSize :: "u32 \<Rightarrow> cstring \<Rightarrow> nat" where
  "fileAttributesSize fileSize gtString =
     (let sizeOfFileSize = BerEncoder_UInt32determineEncodedSize fileSize in
      1 + BerEncoder_determineLengthSize sizeOfFileSize + sizeOfFileSize + 2 + length gtString)"

definition encodeFileAttributes :: "byte \<Rightarrow> u32 \<Rightarrow> cstring \<Rightarrow> wbuf \<Rightarrow> wbuf option" where
  "encodeFileAttributes tag fileSize gtString w = do {
     w \<leftarrow> BerEncoder_encodeTL tag (fileAttributesSize fileSize gtString) w;
     w \<leftarrow> BerEncoder_encodeTL 0x80 (BerEncoder_UInt32determineEncodedSize fileSize) w;
     w \<leftarrow> BerEncoder_encodeUInt32 fileSize w;
     BerEncoder_encodeOctetString 0x81 gtString (length gtString) w
   }"

text \<open>The array \<open>gtString\<close> of 30 octets holds \<open>junk\<close> before it is written.\<close>

definition gtString :: "byte list \<Rightarrow> u64 \<Rightarrow> cstring option" where
  "gtString junk msTime = map_option string_of (Conversions_msTimeToGeneralizedTime msTime (take 30 junk))"

definition createFileOpenResponse ::
  "byte list \<Rightarrow> FileSystem \<Rightarrow> u32 \<Rightarrow> ByteBuffer \<Rightarrow> cstring \<Rightarrow> MmsFileReadStateMachine \<Rightarrow>
   (MmsFileReadStateMachine \<times> ByteBuffer) option" where
  "createFileOpenResponse junk fs invokeId response fullPath frsm = do {
     info \<leftarrow> FileSystem_getFileInfo fs fullPath;
     (fileSize, msTime) \<leftarrow> info;
     let frsm = frsm\<lparr>fr_fileSize := fileSize\<rparr>;
     gt \<leftarrow> gtString junk msTime;
     let attributesSize = fileAttributesSize fileSize gt + 2;
     let invokeIdSize = BerEncoder_UInt32determineEncodedSize invokeId + 2;
     let frsmIdSize = BerEncoder_UInt32determineEncodedSize (of_int (fr_frsmId frsm)) + 2;
     let openFileResponseSize = attributesSize + frsmIdSize;
     let confirmedResponsePDUSize = invokeIdSize + 2 + BerEncoder_determineLengthSize openFileResponseSize +
       openFileResponseSize;
     w \<leftarrow> BerEncoder_encodeTL 0xa1 confirmedResponsePDUSize (bb_buffer response, 0);
     w \<leftarrow> BerEncoder_encodeTL 0x02 (invokeIdSize - 2) w;
     w \<leftarrow> BerEncoder_encodeUInt32 invokeId w;
     w \<leftarrow> emit 0xbf w;
     w \<leftarrow> BerEncoder_encodeTL 0x48 openFileResponseSize w;
     w \<leftarrow> BerEncoder_encodeTL 0x80 (frsmIdSize - 2) w;
     w \<leftarrow> BerEncoder_encodeUInt32 (of_int (fr_frsmId frsm)) w;
     (buffer, bufPos) \<leftarrow> encodeFileAttributes 0xa1 fileSize gt w;
     Some (frsm, response\<lparr>bb_buffer := buffer, bb_size := int bufPos\<rparr>)
   }"

text \<open>The octets read go behind the header; the position moves by the size of the chunk, whatever was
  read.\<close>

definition readInto :: "FileSystem \<Rightarrow> nat \<Rightarrow> nat \<Rightarrow> wbuf \<Rightarrow> (wbuf \<times> FileSystem) option" where
  "readInto fs handle n w = do {
     (octets, fs) \<leftarrow> FileSystem_readFile fs handle n;
     (buffer, _) \<leftarrow> emits octets w;
     Some ((buffer, snd w + n), fs)
   }"

definition createFileReadResponse ::
  "FileSystem \<Rightarrow> u32 \<Rightarrow> ByteBuffer \<Rightarrow> MmsFileReadStateMachine \<Rightarrow>
   (MmsFileReadStateMachine \<times> ByteBuffer \<times> FileSystem) option" where
  "createFileReadResponse fs invokeId response frsm = do {
     let bytesLeft = fr_fileSize frsm - fr_readPosition frsm;
     let maxFileChunkSize = (of_int (CONFIG_MMS_MAXIMUM_PDU_SIZE - 15) :: u32);
     let moreFollows = (maxFileChunkSize < bytesLeft);
     let chunk = (if moreFollows then maxFileChunkSize else bytesLeft);
     let fileChunkSize = unat chunk;
     let fileReadResponseSize = 1 + (if moreFollows then 0 else 3) + fileChunkSize +
       BerEncoder_determineLengthSize fileChunkSize;
     let frsm = frsm\<lparr>fr_readPosition := fr_readPosition frsm + chunk\<rparr>;
     let invokeIdSize = BerEncoder_UInt32determineEncodedSize invokeId + 2;
     let confirmedResponsePDUSize = invokeIdSize + 2 + BerEncoder_determineLengthSize fileReadResponseSize +
       fileReadResponseSize;
     w \<leftarrow> BerEncoder_encodeTL 0xa1 confirmedResponsePDUSize (bb_buffer response, 0);
     w \<leftarrow> BerEncoder_encodeTL 0x02 (invokeIdSize - 2) w;
     w \<leftarrow> BerEncoder_encodeUInt32 invokeId w;
     w \<leftarrow> emit 0xbf w;
     w \<leftarrow> BerEncoder_encodeTL 0x49 fileReadResponseSize w;
     w \<leftarrow> BerEncoder_encodeTL 0x80 fileChunkSize w;
     handle \<leftarrow> fr_fileHandle frsm;
     (w, fs) \<leftarrow> readInto fs handle fileChunkSize w;
     (buffer, bufPos) \<leftarrow> (if \<not> moreFollows then BerEncoder_encodeBoolean 0x81 False w else Some w);
     Some (frsm, response\<lparr>bb_buffer := buffer, bb_size := int bufPos\<rparr>, fs)
   }"

definition createFileCloseResponse :: "u32 \<Rightarrow> ByteBuffer \<Rightarrow> ByteBuffer option" where
  "createFileCloseResponse invokeId response = createNullResponseExtendedTag invokeId response 0x4a"

section \<open>Requests\<close>

text \<open>The result of \<open>parseFileName\<close>: the reason of a reject message, or the octets copied into the array
  of 256 octets (with the terminating zero) and the position behind the name.\<close>

definition parseFileName :: "byte list \<Rightarrow> int \<Rightarrow> int \<Rightarrow> (MmsError + (byte list \<times> int)) option" where
  "parseFileName buffer bufPos maxBufPos = do {
     tag \<leftarrow> rd buffer bufPos;
     if tag \<noteq> 0x19 then Some (Inl MMS_ERROR_REJECT_INVALID_PDU)
     else do {
       (bufPos, len) \<leftarrow> BerDecoder_decodeLength buffer None (bufPos + 1) maxBufPos;
       if bufPos < 0 then Some (Inl MMS_ERROR_REJECT_INVALID_PDU)
       else do {
         len \<leftarrow> len;
         if 255 < len then Some (Inl MMS_ERROR_REJECT_REQUEST_INVALID_ARGUMENT)
         else if len < 0 then None
         else do {
           src \<leftarrow> ptr_add buffer bufPos;
           content \<leftarrow> rd_n src (nat len);
           bufPos \<leftarrow> add_int bufPos len;
           Some (Inr (content @ [0], bufPos))
         }
       }
     }
   }"

definition mmsServer_handleFileDeleteRequest ::
  "der_encode \<Rightarrow> (FileSystem \<Rightarrow> cstring \<Rightarrow> bool \<times> FileSystem) \<Rightarrow> FileSystem \<Rightarrow> byte list \<Rightarrow> int \<Rightarrow> int \<Rightarrow> u32 \<Rightarrow>
   ByteBuffer \<Rightarrow> (ByteBuffer \<times> FileSystem) option" where
  "mmsServer_handleFileDeleteRequest der remove fs buffer bufPos maxBufPos invokeId response = do {
     tag \<leftarrow> rd buffer bufPos;
     if tag \<noteq> 0x19 then do {
       response \<leftarrow> mmsServer_writeMmsRejectPdu der (Some invokeId) MMS_ERROR_REJECT_INVALID_PDU response;
       Some (response, fs)
     }
     else do {
       (bufPos, len) \<leftarrow> BerDecoder_decodeLength buffer None (bufPos + 1) maxBufPos;
       len \<leftarrow> len;
       src \<leftarrow> ptr_add buffer bufPos;
       content \<leftarrow> (if 0 \<le> len \<and> len \<le> 255 then rd_n src (nat len) else None);
       let filename = string_of (content @ [0]);
       info \<leftarrow> FileSystem_getFileInfo fs filename;
       if info = None then do {
         response \<leftarrow> mmsServer_createConfirmedErrorPdu der invokeId response MMS_ERROR_FILE_FILE_NON_EXISTENT;
         Some (response, fs)
       }
       else do {
         (deleted, fs) \<leftarrow> FileSystem_deleteFile remove fs filename;
         response \<leftarrow>
           (if deleted then createNullResponseExtendedTag invokeId response 0x4c
            else mmsServer_createConfirmedErrorPdu der invokeId response MMS_ERROR_FILE_FILE_ACCESS_DENIED);
         Some (response, fs)
       }
     }
   }"

text \<open>The variables of the loop of the open request; \<open>fq_reject\<close> is set on a return from the loop.\<close>

record FileRequest =
  fq_filename :: "byte list option"
  fq_second :: "byte list option"
  fq_filePosition :: u32
  fq_reject :: "MmsError option"

definition fileOpenElement ::
  "byte list \<Rightarrow> int \<Rightarrow> FileRequest \<Rightarrow> int \<Rightarrow> (int option \<times> FileRequest) option" where
  "fileOpenElement buffer maxBufPos r bufPos = do {
     tag \<leftarrow> rd buffer bufPos;
     (bufPos, len) \<leftarrow> BerDecoder_decodeLength buffer None (bufPos + 1) maxBufPos;
     if bufPos < 0 then Some (None, r\<lparr>fq_reject := Some MMS_ERROR_REJECT_INVALID_PDU\<rparr>)
     else do {
       len \<leftarrow> len;
       nextPos \<leftarrow> add_int bufPos len;
       if tag = 0xa0 then do {
         name \<leftarrow> parseFileName buffer bufPos nextPos;
         Some (case name of
             Inl reason \<Rightarrow> (None, r\<lparr>fq_reject := Some reason\<rparr>)
           | Inr (filename, bufPos) \<Rightarrow> (Some bufPos, r\<lparr>fq_filename := Some filename\<rparr>))
       }
       else if tag = 0x81 then do {
         filePosition \<leftarrow> BerDecoder_decodeUint32 buffer len bufPos;
         Some (Some nextPos, r\<lparr>fq_filePosition := filePosition\<rparr>)
       }
       else Some (None, r\<lparr>fq_reject := Some MMS_ERROR_REJECT_INVALID_PDU\<rparr>)
     }
   }"

abbreviation emptyRequest :: FileRequest where
  "emptyRequest \<equiv> \<lparr>fq_filename = None, fq_second = None, fq_filePosition = 0, fq_reject = None\<rparr>"

text \<open>Opening a file for a request that has been parsed.\<close>

definition openRequested ::
  "der_encode \<Rightarrow> byte list \<Rightarrow> FileSystem \<Rightarrow> sMmsServerConnection \<Rightarrow> cstring \<Rightarrow> u32 \<Rightarrow> u32 \<Rightarrow> ByteBuffer \<Rightarrow>
   (sMmsServerConnection \<times> ByteBuffer \<times> FileSystem) option" where
  "openRequested der junk fs connection filename filePosition invokeId response =
     (case getFreeFrsm connection of
        None \<Rightarrow> do {
          response \<leftarrow> mmsServer_createConfirmedErrorPdu der invokeId response MMS_ERROR_RESOURCE_OTHER;
          Some (connection, response, fs)
        }
      | Some i \<Rightarrow> do {
          (fileHandle, fs) \<leftarrow> FileSystem_openFile fs filename;
          (case fileHandle of
             None \<Rightarrow> do {
               response \<leftarrow> mmsServer_createConfirmedErrorPdu der invokeId response MMS_ERROR_FILE_FILE_NON_EXISTENT;
               Some (connection, response, fs)
             }
           | Some handle \<Rightarrow> do {
               (frsmId, connection) \<leftarrow> getNextFrsmId connection;
               let frsm = (sc_frsms connection ! i)\<lparr>fr_fileHandle := Some handle, fr_readPosition := filePosition,
                 fr_frsmId := frsmId\<rparr>;
               (frsm, response) \<leftarrow> createFileOpenResponse junk fs invokeId response filename frsm;
               Some (connection\<lparr>sc_frsms := (sc_frsms connection)[i := frsm]\<rparr>, response, fs)
             })
        })"

definition mmsServer_handleFileOpenRequest ::
  "der_encode \<Rightarrow> byte list \<Rightarrow> FileSystem \<Rightarrow> sMmsServerConnection \<Rightarrow> byte list \<Rightarrow> int \<Rightarrow> int \<Rightarrow> u32 \<Rightarrow> ByteBuffer \<Rightarrow>
   (sMmsServerConnection \<times> ByteBuffer \<times> FileSystem) option" where
  "mmsServer_handleFileOpenRequest der junk fs connection buffer bufPos maxBufPos invokeId response = do {
     (_, r) \<leftarrow> tlv_loop (fileOpenElement buffer maxBufPos) maxBufPos emptyRequest bufPos;
     (case fq_reject r of
        Some reason \<Rightarrow> do {
          response \<leftarrow> mmsServer_writeMmsRejectPdu der (Some invokeId) reason response;
          Some (connection, response, fs)
        }
      | None \<Rightarrow>
          (case fq_filename r of
             Some filename \<Rightarrow>
               openRequested der junk fs connection (string_of filename) (fq_filePosition r) invokeId response
           | None \<Rightarrow> do {
               response \<leftarrow> mmsServer_writeMmsRejectPdu der (Some invokeId) MMS_ERROR_REJECT_REQUEST_INVALID_ARGUMENT
                 response;
               Some (connection, response, fs)
             }))
   }"

definition mmsServer_handleFileReadRequest ::
  "der_encode \<Rightarrow> FileSystem \<Rightarrow> sMmsServerConnection \<Rightarrow> byte list \<Rightarrow> int \<Rightarrow> int \<Rightarrow> u32 \<Rightarrow> ByteBuffer \<Rightarrow>
   (sMmsServerConnection \<times> ByteBuffer \<times> FileSystem) option" where
  "mmsServer_handleFileReadRequest der fs connection buffer bufPos maxBufPos invokeId response = do {
     n \<leftarrow> BerDecoder_decodeUint32 buffer (maxBufPos - bufPos) bufPos;
     (case getFrsm connection (sint n) of
        Some i \<Rightarrow> do {
          (frsm, response, fs) \<leftarrow> createFileReadResponse fs invokeId response (sc_frsms connection ! i);
          Some (connection\<lparr>sc_frsms := (sc_frsms connection)[i := frsm]\<rparr>, response, fs)
        }
      | None \<Rightarrow> do {
          response \<leftarrow> mmsServer_createConfirmedErrorPdu der invokeId response MMS_ERROR_FILE_OTHER;
          Some (connection, response, fs)
        })
   }"

text \<open>An id that is not known gives \<open>NULL\<close>, which is dereferenced.\<close>

definition mmsServer_handleFileCloseRequest ::
  "FileSystem \<Rightarrow> sMmsServerConnection \<Rightarrow> byte list \<Rightarrow> int \<Rightarrow> int \<Rightarrow> u32 \<Rightarrow> ByteBuffer \<Rightarrow>
   (sMmsServerConnection \<times> ByteBuffer \<times> FileSystem) option" where
  "mmsServer_handleFileCloseRequest fs connection buffer bufPos maxBufPos invokeId response = do {
     n \<leftarrow> BerDecoder_decodeUint32 buffer (maxBufPos - bufPos) bufPos;
     i \<leftarrow> getFrsm connection (sint n);
     let frsm = sc_frsms connection ! i;
     handle \<leftarrow> fr_fileHandle frsm;
     fs \<leftarrow> FileSystem_closeFile fs handle;
     response \<leftarrow> createFileCloseResponse invokeId response;
     Some (connection\<lparr>sc_frsms := (sc_frsms connection)[i := frsm\<lparr>fr_fileHandle := None, fr_frsmId := 0\<rparr>]\<rparr>,
       response, fs)
   }"

text \<open>The requests with two file names; the array of the second keeps \<open>NULL\<close> for the directory request
  where the first is empty at the beginning.\<close>

definition twoNamesElement ::
  "bool \<Rightarrow> byte list \<Rightarrow> int \<Rightarrow> FileRequest \<Rightarrow> int \<Rightarrow> (int option \<times> FileRequest) option" where
  "twoNamesElement ignoreUnknown buffer maxBufPos r bufPos = do {
     tag \<leftarrow> rd buffer bufPos;
     (bufPos, len) \<leftarrow> BerDecoder_decodeLength buffer None (bufPos + 1) maxBufPos;
     if bufPos < 0 then Some (None, r\<lparr>fq_reject := Some MMS_ERROR_REJECT_INVALID_PDU\<rparr>)
     else do {
       len \<leftarrow> len;
       if tag = 0xa0 \<or> tag = 0xa1 then do {
         nextPos \<leftarrow> add_int bufPos len;
         name \<leftarrow> parseFileName buffer bufPos nextPos;
         Some (case name of
             Inl reason \<Rightarrow> (None, r\<lparr>fq_reject := Some reason\<rparr>)
           | Inr (filename, bufPos) \<Rightarrow>
               (Some bufPos, if tag = 0xa0 then r\<lparr>fq_filename := Some filename\<rparr>
                 else r\<lparr>fq_second := Some filename\<rparr>))
       }
       else if ignoreUnknown then do {
         nextPos \<leftarrow> add_int bufPos len;
         Some (Some nextPos, r)
       }
       else Some (None, r\<lparr>fq_reject := Some MMS_ERROR_REJECT_INVALID_PDU\<rparr>)
     }
   }"

abbreviation name_or_empty :: "byte list option \<Rightarrow> cstring" where
  "name_or_empty name \<equiv> (case name of None \<Rightarrow> [] | Some memory \<Rightarrow> string_of memory)"

definition mmsServer_handleFileRenameRequest ::
  "der_encode \<Rightarrow> (FileSystem \<Rightarrow> cstring \<Rightarrow> cstring \<Rightarrow> bool \<times> FileSystem) \<Rightarrow> FileSystem \<Rightarrow> byte list \<Rightarrow> int \<Rightarrow> int \<Rightarrow>
   u32 \<Rightarrow> ByteBuffer \<Rightarrow> (ByteBuffer \<times> FileSystem) option" where
  "mmsServer_handleFileRenameRequest der rename fs buffer bufPos maxBufPos invokeId response = do {
     (_, r) \<leftarrow> tlv_loop (twoNamesElement True buffer maxBufPos) maxBufPos emptyRequest bufPos;
     (case fq_reject r of
        Some reason \<Rightarrow> do {
          response \<leftarrow> mmsServer_writeMmsRejectPdu der (Some invokeId) reason response;
          Some (response, fs)
        }
      | None \<Rightarrow>
          (let currentFileName = name_or_empty (fq_filename r);
               newFileName = name_or_empty (fq_second r)
           in if currentFileName \<noteq> [] \<and> newFileName \<noteq> [] then do {
                (renamed, fs) \<leftarrow> FileSystem_renameFile rename fs currentFileName newFileName;
                response \<leftarrow>
                  (if renamed then createNullResponseExtendedTag invokeId response 0x4b
                   else mmsServer_createConfirmedErrorPdu der invokeId response MMS_ERROR_FILE_OTHER);
                Some (response, fs)
              }
              else do {
                response \<leftarrow> mmsServer_writeMmsRejectPdu der (Some invokeId) MMS_ERROR_REJECT_INVALID_PDU response;
                Some (response, fs)
              }))
   }"

section \<open>Directories\<close>

definition fileSpecificationSize :: "cstring \<Rightarrow> nat" where
  "fileSpecificationSize fileSpecification =
     (let fileNameStringSize = length fileSpecification;
          fileNameSeqSize = 1 + BerEncoder_determineLengthSize fileNameStringSize + fileNameStringSize
      in fileNameSeqSize + 1 + BerEncoder_determineLengthSize fileNameSeqSize)"

definition encodeFileSpecification :: "byte \<Rightarrow> cstring \<Rightarrow> wbuf \<Rightarrow> wbuf option" where
  "encodeFileSpecification tag fileSpecification w = do {
     let fileNameStringSize = length fileSpecification;
     let fileNameSeqSize = 1 + BerEncoder_determineLengthSize fileNameStringSize + fileNameStringSize;
     w \<leftarrow> BerEncoder_encodeTL tag fileNameSeqSize w;
     BerEncoder_encodeOctetString 0x19 fileSpecification fileNameStringSize w
   }"

definition CONFIG_MMS_FILE_SERVICE_MAX_FILENAME_LENGTH :: nat where
  "CONFIG_MMS_FILE_SERVICE_MAX_FILENAME_LENGTH = 256"

text \<open>The path of an entry, in an array of 256 octets. The last character of the name of the directory is
  read, so there must be one.\<close>

definition entryPath :: "cstring \<Rightarrow> cstring \<Rightarrow> cstring option" where
  "entryPath directoryName fileName =
     (if directoryName = [] then None
      else
        let directory = (if last directoryName \<noteq> 0x2f then directoryName @ [0x2f] else directoryName);
            path = directory @ fileName
        in if length path < CONFIG_MMS_FILE_SERVICE_MAX_FILENAME_LENGTH then Some path else None)"

text \<open>The name of a directory gets a slash, in an array of 300 octets.\<close>

definition extendedName :: "cstring \<times> bool \<Rightarrow> cstring option" where
  "extendedName entry =
     (case entry of (fileName, isDirectory) \<Rightarrow>
        if isDirectory then (if length fileName + 2 \<le> 300 then Some (fileName @ [0x2f]) else None) else Some fileName)"

function directory_loop ::
  "byte list \<Rightarrow> FileSystem \<Rightarrow> cstring \<Rightarrow> int \<Rightarrow> (cstring \<times> bool) list \<Rightarrow> cstring option \<Rightarrow> wbuf \<Rightarrow> (wbuf \<times> bool) option" where
  "directory_loop junk fs directoryName maxSize directory continueAfter w =
     (case FileSystem_readDirectory directory of
        None \<Rightarrow> Some (w, False)
      | Some (entry, directory') \<Rightarrow> do {
          fileName \<leftarrow> extendedName entry;
          (case continueAfter of
             Some c \<Rightarrow>
               directory_loop junk fs directoryName maxSize directory' (if c = fileName then None else Some c) w
           | None \<Rightarrow> do {
               fullPath \<leftarrow> entryPath directoryName fileName;
               info \<leftarrow> FileSystem_getFileInfo fs fullPath;
               (fileSize, msTime) \<leftarrow> info;
               gt \<leftarrow> gtString junk msTime;
               let dirEntrySize = 2 + fileAttributesSize fileSize gt + fileSpecificationSize fileName;
               let overallEntrySize = 1 + BerEncoder_determineLengthSize dirEntrySize + dirEntrySize;
               let bufferSpaceLeft = maxSize - int (snd w);
               if int overallEntrySize > bufferSpaceLeft then Some (w, True)
               else do {
                 w \<leftarrow> BerEncoder_encodeTL 0x30 dirEntrySize w;
                 w \<leftarrow> encodeFileSpecification 0xa0 fileName w;
                 w \<leftarrow> encodeFileAttributes 0xa1 fileSize gt w;
                 directory_loop junk fs directoryName maxSize directory' None w
               }
             })
        })"
  by pat_completeness auto
termination
  by (relation "measure (\<lambda>(junk, fs, directoryName, maxSize, directory, continueAfter, w). length directory)")
    (auto dest: readDirectory_shorter)

declare directory_loop.simps [simp del]

text \<open>\<open>memmove(buffer + bufPos, buffer + tempStartPos, tempEncoded)\<close>\<close>

definition moveEntries :: "nat \<Rightarrow> nat \<Rightarrow> wbuf \<Rightarrow> wbuf option" where
  "moveEntries tempStartPos tempEncoded w =
     (case w of (buffer, bufPos) \<Rightarrow>
        if tempStartPos + tempEncoded \<le> length buffer \<and> bufPos + tempEncoded \<le> length buffer
        then Some (take bufPos buffer @ take tempEncoded (drop tempStartPos buffer) @ drop (bufPos + tempEncoded) buffer,
          bufPos + tempEncoded)
        else None)"

definition createFileDirectoryResponse ::
  "der_encode \<Rightarrow> byte list \<Rightarrow> FileSystem \<Rightarrow> u32 \<Rightarrow> ByteBuffer \<Rightarrow> cstring \<Rightarrow> cstring option \<Rightarrow> ByteBuffer option" where
  "createFileDirectoryResponse der junk fs invokeId response directoryName continueAfterFileName = do {
     let maxSize = bb_maxSize response - 3;
     let tempStartPos = 30;
     directory \<leftarrow> FileSystem_openDirectory fs directoryName;
     (case directory of
        None \<Rightarrow> mmsServer_createConfirmedErrorPdu der invokeId response MMS_ERROR_FILE_FILE_NON_EXISTENT
      | Some directory \<Rightarrow> do {
          ((buffer, tempCurPos), moreFollows) \<leftarrow>
            directory_loop junk fs directoryName maxSize directory continueAfterFileName (bb_buffer response, tempStartPos);
          let tempEncoded = tempCurPos - tempStartPos;
          let invokeIdSize = BerEncoder_UInt32determineEncodedSize invokeId + 2;
          let listOfDirectoryEntrySize = 1 + BerEncoder_determineLengthSize tempEncoded + tempEncoded;
          let fileDirectoryResponseSize = 1 + BerEncoder_determineLengthSize listOfDirectoryEntrySize +
            listOfDirectoryEntrySize + (if moreFollows then 3 else 0);
          let confirmedResponsePDUSize = invokeIdSize + 2 + BerEncoder_determineLengthSize fileDirectoryResponseSize +
            fileDirectoryResponseSize;
          w \<leftarrow> BerEncoder_encodeTL 0xa1 confirmedResponsePDUSize (buffer, 0);
          w \<leftarrow> BerEncoder_encodeTL 0x02 (invokeIdSize - 2) w;
          w \<leftarrow> BerEncoder_encodeUInt32 invokeId w;
          w \<leftarrow> emit 0xbf w;
          w \<leftarrow> BerEncoder_encodeTL 0x4d fileDirectoryResponseSize w;
          w \<leftarrow> BerEncoder_encodeTL 0xa0 listOfDirectoryEntrySize w;
          w \<leftarrow> BerEncoder_encodeTL 0x30 tempEncoded w;
          w \<leftarrow> moveEntries tempStartPos tempEncoded w;
          (buffer, bufPos) \<leftarrow> (if moreFollows then BerEncoder_encodeBoolean 0x81 moreFollows w else Some w);
          Some (response\<lparr>bb_buffer := buffer, bb_size := int bufPos\<rparr>)
        })
   }"

definition mmsServer_handleFileDirectoryRequest ::
  "der_encode \<Rightarrow> byte list \<Rightarrow> FileSystem \<Rightarrow> byte list \<Rightarrow> int \<Rightarrow> int \<Rightarrow> u32 \<Rightarrow> ByteBuffer \<Rightarrow> ByteBuffer option" where
  "mmsServer_handleFileDirectoryRequest der junk fs buffer bufPos maxBufPos invokeId response = do {
     (_, r) \<leftarrow> tlv_loop (twoNamesElement False buffer maxBufPos) maxBufPos emptyRequest bufPos;
     (case fq_reject r of
        Some reason \<Rightarrow> mmsServer_writeMmsRejectPdu der (Some invokeId) reason response
      | None \<Rightarrow> createFileDirectoryResponse der junk fs invokeId response (name_or_empty (fq_filename r))
          (map_option string_of (fq_second r)))
   }"

end
