(* ===== verification/File_Transfer.thy ===== *)
theory File_Transfer
  imports Mms_File
begin

text \<open>
  What the file service does over several requests: a file that is opened and read until nothing
  follows arrives as it is; the state machines of a connection stay consistent with the open streams in
  every sequence of requests; and what goes wrong with initial positions and the root directory.
\<close>

section \<open>Reading one chunk\<close>

definition file_read_bytes :: "u32 \<Rightarrow> byte list \<Rightarrow> bool \<Rightarrow> byte list" where
  "file_read_bytes invokeId chunk moreFollows = tlv_bytes (0xa1, tlv_bytes (0x02, uint32_bytes invokeId) @
     0xbf # tlv_bytes (0x49, tlv_bytes (0x80, chunk) @ (if moreFollows then [] else [0x81, 1, 0])))"

definition file_chunk_size :: nat where "file_chunk_size = 15985"

lemma emits_pos: "emits bs w = Some w' \<Longrightarrow> snd w' = snd w + length bs"
  by (induction bs arbitrary: w) (auto simp: emits.simps emit_def split: bind_splits prod.splits if_splits)

lemma readInto_eq:
  assumes "fs_streams fs handle = Some rest" and "n \<le> length rest"
  shows "readInto fs handle n w =
    map_option (\<lambda>w. (w, fs\<lparr>fs_streams := (fs_streams fs)(handle \<mapsto> drop n rest)\<rparr>)) (emits (take n rest) w)"
proof (cases "emits (take n rest) w")
  case None
  then show ?thesis using assms by (simp add: readInto_def FileSystem_readFile_def)
next
  case (Some w')
  then have "snd w' = snd w + n" using emits_pos [OF Some] assms(2) by simp
  then show ?thesis using Some assms by (cases w') (simp add: readInto_def FileSystem_readFile_def)
qed

lemma put_map: "bs \<noteq> [] \<Longrightarrow> map_option f (put_bytes bs b) =
  emits bs (bb_buffer b, 0) \<bind> (\<lambda>(buffer, bufPos). Some (f (b\<lparr>bb_buffer := buffer, bb_size := int bufPos\<rparr>)))"
  by (simp add: emits_put [symmetric] map_option_bind case_prod_unfold comp_def)

lemma emits_bind_map:
  "emits xs w \<bind> (\<lambda>w. map_option g (emits ys w) \<bind> f) = emits (xs @ ys) w \<bind> (\<lambda>w. f (g w))"
  by (simp add: emits_append Option.bind_assoc bind_map_option comp_def)

definition served :: "FileSystem \<Rightarrow> MmsFileReadStateMachine \<Rightarrow> byte list \<Rightarrow> bool" where
  "served fs frsm rest \<longleftrightarrow> (\<exists>handle. fr_fileHandle frsm = Some handle \<and> fs_streams fs handle = Some rest) \<and>
     unat (fr_fileSize frsm - fr_readPosition frsm) = length rest"

lemma createFileReadResponse_gen:
  assumes "fr_fileHandle frsm = Some handle" and "fs_streams fs handle = Some rest"
    and "unat (fr_fileSize frsm - fr_readPosition frsm) = k" and "n = min file_chunk_size k" and "n \<le> length rest" and "chunk = take n rest"
    and "follows = (file_chunk_size < k)"
  shows "createFileReadResponse fs invokeId response frsm =
    map_option (\<lambda>r. (frsm\<lparr>fr_readPosition := fr_readPosition frsm + of_nat (length chunk)\<rparr>, r,
        fs\<lparr>fs_streams := (fs_streams fs)(handle \<mapsto> drop n rest)\<rparr>))
      (put_bytes (file_read_bytes invokeId chunk follows) response)"
proof -
  let ?left = "fr_fileSize frsm - fr_readPosition frsm"
  let ?max = "of_int (CONFIG_MMS_MAXIMUM_PDU_SIZE - 15) :: u32"
  have max: "?max = 15985" by (simp add: CONFIG_MMS_MAXIMUM_PDU_SIZE_def)
  have left: "?left = of_nat k" by (simp flip: assms(3))
  have more: "(15985 < ?left) = follows"
    using assms(3,7) by (simp add: word_less_nat_alt file_chunk_size_def)
  have chunk: "(if follows then 15985 else ?left) = of_nat (length chunk)"
    using assms(4-7) left by (auto simp: file_chunk_size_def)
  have len: "length chunk \<le> 15985" "length chunk \<le> length rest" using assms(4-6) by (simp_all add: file_chunk_size_def)
  have size: "unat (of_nat (length chunk) :: u32) = length chunk" using len(1) by (simp add: unat_of_nat take_bit_nat_eq_self)
  have taken: "take (length chunk) rest = chunk" "drop (length chunk) rest = drop n rest"
    using assms(5,6) by simp_all
  define content where "content = tlv_bytes (0x80, chunk) @ (if follows then [] else [0x81, 1, 0])"
  define body where "body = tlv_bytes (0x02, uint32_bytes invokeId) @ 0xbf # tlv_bytes (0x49, content)"
  have c: "1 + (if follows then 0 else 3) + length chunk + BerEncoder_determineLengthSize (length chunk) = length content"
    by (simp add: content_def length_field)
  have b: "BerEncoder_UInt32determineEncodedSize invokeId + 2 + 2 + BerEncoder_determineLengthSize (length content) +
      length content = length body"
    by (simp add: body_def length_uint32_field length_field [of _ content] UInt32_size_eq)
  have bytes: "file_read_bytes invokeId chunk follows = (tl_bytes 0xa1 (length body) @
      tl_bytes 0x02 (length (uint32_bytes invokeId)) @ uint32_bytes invokeId @ 0xbf # tl_bytes 0x49 (length content) @
      tl_bytes 0x80 (length chunk) @ chunk) @ (if follows then [] else [0x81, 1, 0])"
    by (simp add: file_read_bytes_def body_def content_def tlv_bytes_def)
  have ends: "(if \<not> follows then BerEncoder_encodeBoolean 0x81 False w else Some w) =
      emits (if follows then [] else [0x81, 1, 0]) w" for w
    by (simp add: enc_emits)
  show ?thesis
    unfolding createFileReadResponse_def Let_def max more chunk size c b bytes ends
    using assms(1) readInto_eq [OF assms(2) len(2)]
    by (subst put_map) (simp_all add: enc_emits emits_bind_map taken tl_bytes_def UInt32_size_eq)
qed

lemma createFileReadResponse_eq:
  assumes "fr_fileHandle frsm = Some handle" and "fs_streams fs handle = Some rest"
    and "unat (fr_fileSize frsm - fr_readPosition frsm) = length rest"
  shows "createFileReadResponse fs invokeId response frsm =
    map_option (\<lambda>r. (frsm\<lparr>fr_readPosition := fr_readPosition frsm + of_nat (length (take file_chunk_size rest))\<rparr>, r,
        fs\<lparr>fs_streams := (fs_streams fs)(handle \<mapsto> drop file_chunk_size rest)\<rparr>))
      (put_bytes (file_read_bytes invokeId (take file_chunk_size rest) (file_chunk_size < length rest)) response)"
proof -
  have "take (min file_chunk_size (length rest)) rest = take file_chunk_size rest" "drop (min file_chunk_size (length rest)) rest = drop file_chunk_size rest"
    by (simp_all add: min_def)
  then show ?thesis using createFileReadResponse_gen [OF assms refl _ refl refl] by simp
qed

section \<open>The state machines of a connection\<close>

lemma frsm_loop_found:
  "frsm_loop frsms frsmId k = Some i \<Longrightarrow> \<exists>j. i = k + j \<and> j < length frsms \<and> fr_fileHandle (frsms ! j) \<noteq> None \<and>
     fr_frsmId (frsms ! j) = frsmId"
proof (induction frsms frsmId k rule: frsm_loop.induct)
  case (2 frsm frsms frsmId k)
  show ?case
  proof (cases "fr_fileHandle frsm \<noteq> None \<and> fr_frsmId frsm = frsmId")
    case True
    with "2.prems" show ?thesis by (intro exI [of _ 0]) auto
  next
    case False
    with 2 obtain j where "i = k + 1 + j" "j < length frsms" "fr_fileHandle (frsms ! j) \<noteq> None" "fr_frsmId (frsms ! j) = frsmId"
      by (auto split: if_splits)
    then show ?thesis by (intro exI [of _ "Suc j"]) simp
  qed
qed simp

lemma frsm_loop_first:
  assumes "i < length frsms" and "fr_fileHandle (frsms ! i) \<noteq> None" and "fr_frsmId (frsms ! i) = frsmId"
    and "\<And>j. j < i \<Longrightarrow> \<not> (fr_fileHandle (frsms ! j) \<noteq> None \<and> fr_frsmId (frsms ! j) = frsmId)"
  shows "frsm_loop frsms frsmId k = Some (k + i)"
  using assms
proof (induction frsms arbitrary: i k)
  case (Cons frsm frsms)
  show ?case
  proof (cases i)
    case 0
    then show ?thesis using Cons.prems by simp
  next
    case (Suc j)
    have "\<not> (fr_fileHandle (frsms ! l) \<noteq> None \<and> fr_frsmId (frsms ! l) = frsmId)" if "l < j" for l
      using Cons.prems(4) [of "Suc l"] that Suc by simp
    then have "frsm_loop frsms frsmId (k + 1) = Some (k + 1 + j)"
      by (rule Cons.IH [rotated 3]) (use Cons.prems Suc in simp_all)
    then show ?thesis using Cons.prems(4) [of 0] Suc by simp
  qed
qed simp

lemma freeFrsm_loop_found:
  "freeFrsm_loop frsms k = Some i \<Longrightarrow> \<exists>j. i = k + j \<and> j < length frsms \<and> fr_fileHandle (frsms ! j) = None"
proof (induction frsms k rule: freeFrsm_loop.induct)
  case (2 frsm frsms k)
  show ?case
  proof (cases "fr_fileHandle frsm = None")
    case True
    with "2.prems" show ?thesis by (intro exI [of _ 0]) auto
  next
    case False
    with 2 obtain j where "i = k + 1 + j" "j < length frsms" "fr_fileHandle (frsms ! j) = None" by auto
    then show ?thesis by (intro exI [of _ "Suc j"]) simp
  qed
qed simp

lemma getFrsm_found:
  "getFrsm connection frsmId = Some i \<Longrightarrow> i < length (sc_frsms connection) \<and>
   fr_fileHandle (sc_frsms connection ! i) \<noteq> None \<and> fr_frsmId (sc_frsms connection ! i) = frsmId"
  using frsm_loop_found [of "sc_frsms connection" frsmId 0 i] by (auto simp: getFrsm_def)

lemma getFreeFrsm_found:
  "getFreeFrsm connection = Some i \<Longrightarrow> i < length (sc_frsms connection) \<and> fr_fileHandle (sc_frsms connection ! i) = None"
  using freeFrsm_loop_found [of "sc_frsms connection" 0 i] by (auto simp: getFreeFrsm_def)

text \<open>The invariant: every open state machine has a stream and an id of its own, the ids given out are
  below the next one, and streams are numbered in order.\<close>

definition opened :: "sMmsServerConnection \<Rightarrow> nat \<Rightarrow> nat option" where
  "opened connection i =
     (if i < length (sc_frsms connection) then fr_fileHandle (sc_frsms connection ! i) else None)"

definition files_ok :: "sMmsServerConnection \<Rightarrow> FileSystem \<Rightarrow> bool" where
  "files_ok connection fs \<longleftrightarrow>
     (\<forall>i handle. opened connection i = Some handle \<longrightarrow>
        fs_streams fs handle \<noteq> None \<and> 0 \<le> fr_frsmId (sc_frsms connection ! i) \<and>
        fr_frsmId (sc_frsms connection ! i) < sc_nextFrsmId connection) \<and>
     (\<forall>i j handle. opened connection i = Some handle \<longrightarrow> opened connection j = Some handle \<longrightarrow> i = j) \<and>
     (\<forall>i j. opened connection i \<noteq> None \<longrightarrow> opened connection j \<noteq> None \<longrightarrow>
        fr_frsmId (sc_frsms connection ! i) = fr_frsmId (sc_frsms connection ! j) \<longrightarrow> i = j) \<and>
     (\<forall>handle. fs_next fs \<le> handle \<longrightarrow> fs_streams fs handle = None) \<and>
     0 \<le> sc_nextFrsmId connection"

lemma getFrsm_unique:
  assumes "files_ok connection fs" and "opened connection i \<noteq> None"
  shows "getFrsm connection (fr_frsmId (sc_frsms connection ! i)) = Some i"
proof -
  have i: "i < length (sc_frsms connection)" "fr_fileHandle (sc_frsms connection ! i) \<noteq> None"
    using assms(2) by (auto simp: opened_def split: if_splits)
  have uniq: "\<And>j. opened connection j \<noteq> None \<Longrightarrow>
      fr_frsmId (sc_frsms connection ! j) = fr_frsmId (sc_frsms connection ! i) \<Longrightarrow> j = i"
    using assms unfolding files_ok_def by blast
  have "\<not> (fr_fileHandle (sc_frsms connection ! j) \<noteq> None \<and>
      fr_frsmId (sc_frsms connection ! j) = fr_frsmId (sc_frsms connection ! i))" if "j < i" for j
    using uniq [of j] that i(1) by (auto simp: opened_def)
  then show ?thesis
    using frsm_loop_first [of i "sc_frsms connection" _ 0] i by (simp add: getFrsm_def)
qed

lemma opened_update:
  "i < length (sc_frsms connection) \<Longrightarrow>
   opened (connection\<lparr>sc_frsms := (sc_frsms connection)[i := frsm]\<rparr>) j = (if j = i then fr_fileHandle frsm else opened connection j)"
  by (simp add: opened_def)

lemma files_ok_streams:
  assumes "files_ok connection fs" and "\<And>h. (fs_streams fs' h = None) = (fs_streams fs h = None)" and "fs_next fs' = fs_next fs"
  shows "files_ok connection fs'"
  using assms unfolding files_ok_def by simp

text \<open>A state machine keeps its stream and id.\<close>

lemma files_ok_same:
  assumes "files_ok connection fs" and "i < length (sc_frsms connection)"
    and "fr_fileHandle frsm = fr_fileHandle (sc_frsms connection ! i)" and "fr_frsmId frsm = fr_frsmId (sc_frsms connection ! i)"
  shows "files_ok (connection\<lparr>sc_frsms := (sc_frsms connection)[i := frsm]\<rparr>) fs"
proof -
  let ?c = "connection\<lparr>sc_frsms := (sc_frsms connection)[i := frsm]\<rparr>"
  have "opened ?c j = opened connection j" "fr_frsmId (sc_frsms ?c ! j) = fr_frsmId (sc_frsms connection ! j)" for j
    using assms by (cases "j = i"; simp add: opened_def)+
  then show ?thesis using assms(1) unfolding files_ok_def by simp
qed

lemma files_ok_close:
  assumes "files_ok connection fs" and "i < length (sc_frsms connection)" and "fr_fileHandle (sc_frsms connection ! i) = Some handle"
    and "fr_fileHandle frsm = None"
  shows "files_ok (connection\<lparr>sc_frsms := (sc_frsms connection)[i := frsm]\<rparr>)
    (fs\<lparr>fs_streams := (fs_streams fs)(handle := None)\<rparr>)"
proof -
  let ?c = "connection\<lparr>sc_frsms := (sc_frsms connection)[i := frsm]\<rparr>"
  have mine: "opened connection i = Some handle" using assms(2,3) by (simp add: opened_def)
  have o: "opened ?c j = (if j = i then None else opened connection j)" for j
    using opened_update [OF assms(2), of frsm j] assms(4) by simp
  have id: "j \<noteq> i \<Longrightarrow> fr_frsmId (sc_frsms ?c ! j) = fr_frsmId (sc_frsms connection ! j)" for j by simp
  have "h \<noteq> handle" if "opened connection j = Some h" "j \<noteq> i" for h j
    using assms(1) that mine unfolding files_ok_def by blast
  then show ?thesis
    using assms(1) unfolding files_ok_def o by (auto simp: id split: if_splits)
qed

lemma files_ok_open:
  assumes "files_ok connection fs" and "i < length (sc_frsms connection)" and "opened connection i = None"
    and "fr_fileHandle frsm = Some (fs_next fs)" and "fr_frsmId frsm = sc_nextFrsmId connection"
  shows "files_ok (connection\<lparr>sc_nextFrsmId := sc_nextFrsmId connection + 1, sc_frsms := (sc_frsms connection)[i := frsm]\<rparr>)
    (fs\<lparr>fs_streams := (fs_streams fs)(fs_next fs \<mapsto> content), fs_next := Suc (fs_next fs)\<rparr>)"
proof -
  let ?c = "connection\<lparr>sc_nextFrsmId := sc_nextFrsmId connection + 1, sc_frsms := (sc_frsms connection)[i := frsm]\<rparr>"
  have o: "opened ?c j = (if j = i then Some (fs_next fs) else opened connection j)" for j
    using assms(2,4) by (simp add: opened_def)
  have id: "fr_frsmId (sc_frsms ?c ! j) = (if j = i then sc_nextFrsmId connection else fr_frsmId (sc_frsms connection ! j))" for j
    using assms(2,5) by simp
  have old: "h \<noteq> fs_next fs \<and> fs_streams fs h \<noteq> None \<and> 0 \<le> fr_frsmId (sc_frsms connection ! j) \<and>
      fr_frsmId (sc_frsms connection ! j) < sc_nextFrsmId connection \<and>
      fr_frsmId (sc_frsms connection ! j) \<le> sc_nextFrsmId connection" if "opened connection j = Some h" for h j
    using assms(1) that unfolding files_ok_def by (metis order.refl less_imp_le)
  show ?thesis
    unfolding files_ok_def o id
  proof (intro conjI allI impI)
    fix a b
    assume "(if a = i then Some (fs_next fs) else opened connection a) \<noteq> None"
      and "(if b = i then Some (fs_next fs) else opened connection b) \<noteq> None"
      and "(if a = i then sc_nextFrsmId connection else fr_frsmId (sc_frsms connection ! a)) =
        (if b = i then sc_nextFrsmId connection else fr_frsmId (sc_frsms connection ! b))"
    then show "a = b" using old assms(1) unfolding files_ok_def by (auto split: if_splits) force+
  next
    fix a b handle
    assume "(if a = i then Some (fs_next fs) else opened connection a) = Some handle"
      and "(if b = i then Some (fs_next fs) else opened connection b) = Some handle"
    then show "a = b" using old assms(1) unfolding files_ok_def by (auto split: if_splits)
  next
    fix handle
    assume "fs_next (fs\<lparr>fs_streams := (fs_streams fs)(fs_next fs \<mapsto> content), fs_next := Suc (fs_next fs)\<rparr>) \<le> handle"
    then show "fs_streams (fs\<lparr>fs_streams := (fs_streams fs)(fs_next fs \<mapsto> content), fs_next := Suc (fs_next fs)\<rparr>) handle = None"
      using assms(1) unfolding files_ok_def by simp
  next
    show "0 \<le> sc_nextFrsmId ?c" using assms(1) unfolding files_ok_def by simp
  qed (use old assms(1) in \<open>auto simp: files_ok_def split: if_splits\<close>)
qed

section \<open>Sequences of requests\<close>

text \<open>The requests for files, with any content of message, buffer and disk. Removing and renaming files
  leave open streams as they are.\<close>

definition keeps_streams :: "FileSystem \<Rightarrow> FileSystem \<Rightarrow> bool" where
  "keeps_streams fs fs' \<longleftrightarrow> fs_streams fs' = fs_streams fs \<and> fs_next fs' = fs_next fs"

inductive file_step :: "sMmsServerConnection \<times> FileSystem \<Rightarrow> sMmsServerConnection \<times> FileSystem \<Rightarrow> bool" where
  step_open: "mmsServer_handleFileOpenRequest der junk fs c buffer bufPos maxBufPos invokeId response = Some (c', r, fs') \<Longrightarrow>
    file_step (c, fs) (c', fs')"
| step_read: "mmsServer_handleFileReadRequest der fs c buffer bufPos maxBufPos invokeId response = Some (c', r, fs') \<Longrightarrow>
    file_step (c, fs) (c', fs')"
| step_close: "mmsServer_handleFileCloseRequest fs c buffer bufPos maxBufPos invokeId response = Some (c', r, fs') \<Longrightarrow>
    file_step (c, fs) (c', fs')"
| step_delete: "mmsServer_handleFileDeleteRequest der remove fs buffer bufPos maxBufPos invokeId response = Some (r, fs') \<Longrightarrow>
    (\<And>f p. keeps_streams f (snd (remove f p))) \<Longrightarrow> file_step (c, fs) (c, fs')"
| step_rename: "mmsServer_handleFileRenameRequest der rename fs buffer bufPos maxBufPos invokeId response = Some (r, fs') \<Longrightarrow>
    (\<And>f p q. keeps_streams f (snd (rename f p q))) \<Longrightarrow> file_step (c, fs) (c, fs')"
| step_disk: "keeps_streams fs fs' \<Longrightarrow> file_step (c, fs) (c, fs')"

inductive_cases file_stepE: "file_step (c, fs) s"

lemma openResponse_frsm:
  "createFileOpenResponse junk fs invokeId response fullPath frsm = Some (frsm', r) \<Longrightarrow>
   fr_fileHandle frsm' = fr_fileHandle frsm \<and> fr_frsmId frsm' = fr_frsmId frsm \<and>
   fr_readPosition frsm' = fr_readPosition frsm"
  by (auto simp: createFileOpenResponse_def Let_def split: bind_splits)

lemma open_files_ok:
  assumes "files_ok c fs" and "openRequested der junk fs c filename filePosition invokeId response = Some (c', r, fs')"
  shows "files_ok c' fs'"
proof (cases "getFreeFrsm c")
  case None
  with assms show ?thesis by (auto simp: openRequested_def split: bind_splits)
next
  case (Some i)
  note free = getFreeFrsm_found [OF Some]
  obtain path where path: "createFullPathFromFileName fs filename = Some path"
    using assms(2) Some by (auto simp: openRequested_def FileSystem_openFile_def split: bind_splits)
  show ?thesis
  proof (cases "fs_content fs path")
    case None
    with path assms Some show ?thesis
      by (auto simp: openRequested_def FileSystem_openFile_def split: bind_splits)
  next
    case (Some content)
    let ?fs = "fs\<lparr>fs_streams := (fs_streams fs)(fs_next fs \<mapsto> content), fs_next := Suc (fs_next fs)\<rparr>"
    let ?frsm = "(sc_frsms c ! i)\<lparr>fr_fileHandle := Some (fs_next fs), fr_readPosition := filePosition,
      fr_frsmId := sc_nextFrsmId c\<rparr>"
    obtain frsm where resp: "createFileOpenResponse junk ?fs invokeId response filename ?frsm = Some (frsm, r)"
      and frsm: "c' = c\<lparr>sc_nextFrsmId := sc_nextFrsmId c + 1, sc_frsms := (sc_frsms c)[i := frsm]\<rparr>" "fs' = ?fs"
      using assms(2) \<open>getFreeFrsm c = Some i\<close> Some path
      by (auto simp: openRequested_def FileSystem_openFile_def getNextFrsmId_def Let_def add_int_def chk_int_def
          split: bind_splits if_splits)
    note frsm = frsm openResponse_frsm [OF resp]
    show ?thesis
      using files_ok_open [OF assms(1), of i frsm content] free frsm by (simp add: opened_def)
  qed
qed

lemma read_files_ok:
  assumes "files_ok c fs" and "mmsServer_handleFileReadRequest der fs c buffer bufPos maxBufPos invokeId response = Some (c', r, fs')"
  shows "files_ok c' fs'"
proof -
  obtain n where n: "BerDecoder_decodeUint32 buffer (maxBufPos - bufPos) bufPos = Some n"
    using assms(2) by (auto simp: mmsServer_handleFileReadRequest_def split: bind_splits)
  show ?thesis
  proof (cases "getFrsm c (sint n)")
    case None
    with n assms show ?thesis by (auto simp: mmsServer_handleFileReadRequest_def split: bind_splits)
  next
    case (Some i)
    note found = getFrsm_found [OF Some]
    obtain frsm where resp: "createFileReadResponse fs invokeId response (sc_frsms c ! i) = Some (frsm, r, fs')"
        "c' = c\<lparr>sc_frsms := (sc_frsms c)[i := frsm]\<rparr>"
      using assms(2) n Some by (auto simp: mmsServer_handleFileReadRequest_def split: bind_splits)
    have "fr_fileHandle frsm = fr_fileHandle (sc_frsms c ! i)" "fr_frsmId frsm = fr_frsmId (sc_frsms c ! i)"
        "\<And>h. (fs_streams fs' h = None) = (fs_streams fs h = None)" "fs_next fs' = fs_next fs"
      using resp(1) by (auto simp: createFileReadResponse_def readInto_def FileSystem_readFile_def Let_def
          split: bind_splits if_splits)
    then show ?thesis
      using files_ok_streams [OF files_ok_same [OF assms(1), of i frsm]] found resp(2) by simp
  qed
qed

lemma close_files_ok:
  assumes "files_ok c fs" and "mmsServer_handleFileCloseRequest fs c buffer bufPos maxBufPos invokeId response = Some (c', r, fs')"
  shows "files_ok c' fs'"
proof -
  obtain n :: u32 and i handle where i: "getFrsm c (sint n) = Some i" "fr_fileHandle (sc_frsms c ! i) = Some handle"
      "c' = c\<lparr>sc_frsms := (sc_frsms c)[i := (sc_frsms c ! i)\<lparr>fr_fileHandle := None, fr_frsmId := 0\<rparr>]\<rparr>"
      "fs' = fs\<lparr>fs_streams := (fs_streams fs)(handle := None)\<rparr>"
    using assms(2) by (auto simp: mmsServer_handleFileCloseRequest_def FileSystem_closeFile_def Let_def split: bind_splits)
  then show ?thesis
    using files_ok_close [OF assms(1), of i handle "(sc_frsms c ! i)\<lparr>fr_fileHandle := None, fr_frsmId := 0\<rparr>"]
      getFrsm_found [OF i(1)] by simp
qed

lemma keeps_files_ok: "files_ok c fs \<Longrightarrow> keeps_streams fs fs' \<Longrightarrow> files_ok c fs'"
  by (rule files_ok_streams) (simp_all add: keeps_streams_def)

lemma step_files_ok: "file_step (c, fs) s \<Longrightarrow> files_ok c fs \<Longrightarrow> files_ok (fst s) (snd s)"
proof (erule file_stepE)
  fix der junk buffer bufPos maxBufPos invokeId response c' r fs'
  assume "files_ok c fs" "s = (c', fs')"
    "mmsServer_handleFileOpenRequest der junk fs c buffer bufPos maxBufPos invokeId response = Some (c', r, fs')"
  then show "files_ok (fst s) (snd s)"
    by (auto simp: mmsServer_handleFileOpenRequest_def split: bind_splits option.splits dest: open_files_ok)
next
  fix der remove buffer bufPos maxBufPos invokeId response r fs'
  assume *: "files_ok c fs" "s = (c, fs')" "\<And>f p. keeps_streams f (snd (remove f p))"
    "mmsServer_handleFileDeleteRequest der remove fs buffer bufPos maxBufPos invokeId response = Some (r, fs')"
  have "fs' = fs \<or> (\<exists>p. fs' = snd (remove fs p))"
    using *(4) by (auto simp: mmsServer_handleFileDeleteRequest_def FileSystem_deleteFile_def Let_def split: bind_splits if_splits)
      (metis snd_conv)+
  then show "files_ok (fst s) (snd s)" using * keeps_files_ok by auto
next
  fix der rename buffer bufPos maxBufPos invokeId response r fs'
  assume *: "files_ok c fs" "s = (c, fs')" "\<And>f p q. keeps_streams f (snd (rename f p q))"
    "mmsServer_handleFileRenameRequest der rename fs buffer bufPos maxBufPos invokeId response = Some (r, fs')"
  have "fs' = fs \<or> (\<exists>p q. fs' = snd (rename fs p q))"
    using *(4) by (auto simp: mmsServer_handleFileRenameRequest_def FileSystem_renameFile_def Let_def
        split: bind_splits if_splits option.splits) (metis snd_conv)+
  then show "files_ok (fst s) (snd s)" using * keeps_files_ok by auto
qed (auto dest: read_files_ok close_files_ok keeps_files_ok)

lemma reachable_files_ok:
  assumes "file_step\<^sup>*\<^sup>* (MmsServerConnection_init, fs) (c, fs')" and "fs_streams fs = (\<lambda>_. None)"
  shows "files_ok c fs'"
  using assms(1)
proof (induction rule: rtranclp_induct2)
  case refl
  show ?case using assms(2) by (auto simp: files_ok_def opened_def MmsServerConnection_init_def)
next
  case (step c f c' f')
  then show ?case using step_files_ok by fastforce
qed

text \<open>Whatever requests for files a client sends, and however the disk changes meanwhile, each open state machine
  of the connection keeps an open stream and an id that no other one has; so a file is never read through a closed
  stream or through the state machine of another file.\<close>

theorem file_machines_invariant:
  assumes "file_step\<^sup>*\<^sup>* (MmsServerConnection_init, fs) (connection, fs')" and "fs_streams fs = (\<lambda>_. None)"
    and "opened connection i = Some handle"
  shows "fs_streams fs' handle \<noteq> None \<and>
    getFrsm connection (fr_frsmId (sc_frsms connection ! i)) = Some i \<and>
    (opened connection j = Some handle \<longrightarrow> j = i)"
proof -
  have "files_ok connection fs'" by (rule reachable_files_ok [OF assms(1,2)])
  moreover from this have "getFrsm connection (fr_frsmId (sc_frsms connection ! i)) = Some i"
    using getFrsm_unique assms(3) by simp
  ultimately show ?thesis using assms(3) unfolding files_ok_def by blast
qed

section \<open>Opening and reading a file\<close>

definition attributes_bytes :: "u32 \<Rightarrow> cstring \<Rightarrow> byte list" where
  "attributes_bytes fileSize gt = tlv_bytes (0x80, uint32_bytes fileSize) @ tlv_bytes (0x81, gt)"

definition file_open_bytes :: "u32 \<Rightarrow> u32 \<Rightarrow> u32 \<Rightarrow> cstring \<Rightarrow> byte list" where
  "file_open_bytes invokeId frsmId fileSize gt = tlv_bytes (0xa1, tlv_bytes (0x02, uint32_bytes invokeId) @
     0xbf # tlv_bytes (0x48, tlv_bytes (0x80, uint32_bytes frsmId) @ tlv_bytes (0xa1, attributes_bytes fileSize gt)))"

lemma fileAttributesSize_eq:
  "length gt < 100 \<Longrightarrow> fileAttributesSize fileSize gt = length (attributes_bytes fileSize gt)"
  by (simp add: fileAttributesSize_def attributes_bytes_def Let_def length_uint32_field length_field [of _ gt]
      UInt32_size_eq BerEncoder_determineLengthSize_def length_uint32)

lemma attributes_short: "length gt < 100 \<Longrightarrow> length (attributes_bytes fileSize gt) < 128"
  using uint32_bytes_spec(4) [of fileSize]
  by (simp add: attributes_bytes_def length_uint32_field length_field [of _ gt] BerEncoder_determineLengthSize_def)

lemma encodeFileAttributes_emits:
  assumes "length gt < 100"
  shows "encodeFileAttributes tag fileSize gt = emits (tlv_bytes (tag, attributes_bytes fileSize gt))"
proof (rule ext)
  fix w
  have eq: "tlv_bytes (tag, attributes_bytes fileSize gt) = tl_bytes tag (length (attributes_bytes fileSize gt)) @
      tl_bytes 0x80 (length (uint32_bytes fileSize)) @ uint32_bytes fileSize @ tl_bytes 0x81 (length gt) @ gt"
    by (simp add: tlv_bytes_def [of "(tag, attributes_bytes fileSize gt)"]) (simp add: attributes_bytes_def tlv_bytes_def)
  show "encodeFileAttributes tag fileSize gt w = emits (tlv_bytes (tag, attributes_bytes fileSize gt)) w"
    unfolding eq encodeFileAttributes_def fileAttributesSize_eq [OF assms]
    by (simp add: enc_emits UInt32_size_eq tl_bytes_def)
qed

lemma createFileOpenResponse_eq:
  assumes "FileSystem_getFileInfo fs fullPath = Some (Some (fileSize, msTime))" and "gtString junk msTime = Some gt"
    and "length gt < 100"
  shows "createFileOpenResponse junk fs invokeId response fullPath frsm =
    map_option (\<lambda>r. (frsm\<lparr>fr_fileSize := fileSize\<rparr>, r))
      (put_bytes (file_open_bytes invokeId (of_int (fr_frsmId frsm)) fileSize gt) response)"
proof -
  let ?id = "of_int (fr_frsmId frsm) :: u32"
  let ?attr = "tlv_bytes (0xa1, attributes_bytes fileSize gt)"
  define content where "content = tlv_bytes (0x80, uint32_bytes ?id) @ ?attr"
  define body where "body = tlv_bytes (0x02, uint32_bytes invokeId) @ 0xbf # tlv_bytes (0x48, content)"
  have c: "fileAttributesSize fileSize gt + 2 + (BerEncoder_UInt32determineEncodedSize ?id + 2) = length content"
    using attributes_short [OF assms(3)]
    by (simp add: content_def length_uint32_field length_field [of _ "attributes_bytes fileSize gt"] fileAttributesSize_eq [OF assms(3)]
        UInt32_size_eq BerEncoder_determineLengthSize_def)
  have b: "BerEncoder_UInt32determineEncodedSize invokeId + 2 + 2 + BerEncoder_determineLengthSize (length content) +
      length content = length body"
    by (simp add: body_def length_uint32_field length_field [of _ content] UInt32_size_eq)
  have bytes: "file_open_bytes invokeId ?id fileSize gt = tl_bytes 0xa1 (length body) @
      tl_bytes 0x02 (length (uint32_bytes invokeId)) @ uint32_bytes invokeId @ 0xbf # tl_bytes 0x48 (length content) @
      tl_bytes 0x80 (length (uint32_bytes ?id)) @ uint32_bytes ?id @ ?attr"
    unfolding file_open_bytes_def body_def content_def tlv_bytes_def [of "(0xa1, attributes_bytes fileSize gt)"]
    by (simp add: tlv_bytes_def)
  have id: "fr_frsmId (frsm\<lparr>fr_fileSize := fileSize\<rparr>) = fr_frsmId frsm" by simp
  show ?thesis
    unfolding createFileOpenResponse_def assms(1,2) Let_def bind.bind_lunit prod.case id c b bytes
      encodeFileAttributes_emits [OF assms(3)]
    by (subst put_map) (simp_all add: enc_emits tl_bytes_def UInt32_size_eq)
qed

text \<open>The time of a file, for years up to 9999.\<close>

lemma digits_nonzero: "0 \<le> v \<Longrightarrow> v < 10 ^ n \<Longrightarrow> 0 \<notin> set (digits n v)"
proof (induction n arbitrary: v)
  case (Suc n)
  have d: "0 \<le> v div 10 ^ n" "v div 10 ^ n < 10" using leading_digit [OF Suc.prems] by simp_all
  have "(of_int (v div 10 ^ n + 48) :: byte) \<noteq> 0"
    using digit_char(1) [OF d] by (auto simp: StringUtils_isDigit_def)
  then show ?case
    using Suc.IH [of "v mod 10 ^ n"] by (simp add: digits_Suc [OF Suc.prems(1), unfolded diff_Suc_1] del: intToString_loop.simps)
qed simp

lemma time_string_nonzero: "uint msTime < last_ms \<Longrightarrow> 0 \<notin> set (time_string msTime)"
proof -
  assume *: "uint msTime < last_ms"
  define t where "t = uint (msTime div 1000)"
  have "t = uint msTime div 1000" by (simp add: t_def uint_div)
  then have b: "0 \<le> t" "t < days_to_year 10000 * 86400"
    using * div_mult_mod_eq [of "uint msTime" 1000] pos_mod_sign [of 1000 "uint msTime"]
    by (simp_all add: last_ms_def pos_imp_zdiv_nonneg_iff)
  note f = gmtime_fields [OF b]
  have "uint (msTime mod 1000) < 10 ^ 3" by (simp add: uint_mod)
  then have "0 \<notin> set (digits 3 (uint (msTime mod 1000)))" by (intro digits_nonzero) simp_all
  moreover have "0 \<notin> set (digits 4 (tm_year (gmtime_r t) + 1900))" "0 \<notin> set (digits 2 (tm_mon (gmtime_r t) + 1))"
      "0 \<notin> set (digits 2 (tm_mday (gmtime_r t)))" "0 \<notin> set (digits 2 (tm_hour (gmtime_r t)))"
      "0 \<notin> set (digits 2 (tm_min (gmtime_r t)))" "0 \<notin> set (digits 2 (tm_sec (gmtime_r t)))"
    by (rule digits_nonzero; use f in simp)+
  ultimately show ?thesis by (simp add: time_string_def t_def [symmetric] Let_def)
qed

lemma string_of_append: "0 \<notin> set s \<Longrightarrow> string_of (s @ 0 # rest) = s"
  by (induction s) (auto simp: string_of_def)

lemma gtString_time:
  assumes "20 \<le> length junk" and "uint msTime < last_ms"
  shows "gtString junk msTime = Some (time_string msTime)" and "length (time_string msTime) = 19"
proof -
  show len: "length (time_string msTime) = 19" by (simp add: time_string_def Let_def)
  obtain mem where mem: "Conversions_msTimeToGeneralizedTime msTime (take 30 junk) = Some mem"
      "take 20 mem = time_string msTime @ [0]"
    using msTime_written [of "take 30 junk" msTime] assms(1) by auto
  have "mem = take 20 mem @ drop 20 mem" by simp
  then have "mem = time_string msTime @ 0 # drop 20 mem" unfolding mem(2) by simp
  then have "string_of mem = time_string msTime"
    using string_of_append [OF time_string_nonzero [OF assms(2)], of "drop 20 mem"] by simp
  then show "gtString junk msTime = Some (time_string msTime)" using mem(1) by (simp add: gtString_def)
qed

text \<open>The request to open a file, and a series of requests to read it.\<close>

definition file_open_request :: "cstring \<Rightarrow> byte list" where
  "file_open_request filename = tlv_bytes (0xa0, tlv_bytes (0x19, filename))"

lemma parseFileName_found:
  assumes "found_at buffer p (tlv_bytes (0x19, filename))" and "length filename \<le> 255"
    and "p + int (length (tlv_bytes (0x19, filename))) = m" and "m \<le> INT_MAX"
  shows "parseFileName buffer p m = Some (Inr (filename @ [0], m))"
proof -
  define q where "q = p + int (length (tl_bytes 0x19 (length filename)))"
  have f: "found_at buffer p (tl_bytes 0x19 (length filename))" "found_at buffer q filename"
    using assms(1) by (simp_all add: tlv_bytes_def found_at_append q_def)
  have m: "q + int (length filename) = m" using assms(3) by (simp add: q_def tlv_bytes_def)
  have o: "rd buffer p = Some 0x19" "BerDecoder_decodeLength buffer None (p + 1) m = Some (q, Some (int (length filename)))"
    using decodeLength_tl(1) [OF f(1), of m] decodeLength_tl(2) [OF f(1), of m None] assms(2) m by (simp_all add: q_def)
  obtain post where "ptr_add buffer q = Some (filename @ post)" using found_at_ptr [OF f(2)] by blast
  then show ?thesis
    using o found_at_nonneg [OF f(2)] assms(2,4) m by (simp add: parseFileName_def rd_n_def add_int_def)
qed

lemma open_request:
  assumes "length filename \<le> 255" and "0 \<notin> set filename"
  shows "mmsServer_handleFileOpenRequest der junk fs c (file_open_request filename) 0
      (int (length (file_open_request filename))) invokeId response =
    openRequested der junk fs c filename 0 invokeId response"
proof -
  let ?b = "file_open_request filename" and ?in = "tlv_bytes (0x19, filename)"
  let ?m = "int (length ?b)"
  define q where "q = int (length (tl_bytes 0xa0 (length ?in)))"
  have len: "length ?in < 300" using assms(1) by (simp add: length_field BerEncoder_determineLengthSize_def)
  have f: "found_at ?b 0 (tl_bytes 0xa0 (length ?in))" "found_at ?b q ?in"
    using found_at_start [of ?b "[]"] by (simp_all add: file_open_request_def tlv_bytes_def [of "(0xa0, _)"] found_at_append q_def)
  have m: "?m = q + int (length ?in)" "?m \<le> 1000" "0 < ?m" "0 \<le> q" "q \<le> 10"
    using len by (simp_all add: file_open_request_def tlv_bytes_def [of "(0xa0, _)"] q_def tl_bytes_def length_length_bytes
        BerEncoder_determineLengthSize_def)
  have o: "rd ?b 0 = Some 0xa0" "BerDecoder_decodeLength ?b None 1 ?m = Some (q, Some (int (length ?in)))"
    using decodeLength_tl(1) [OF f(1), of ?m] decodeLength_tl(2) [OF f(1), of ?m None] len m by (simp_all add: q_def)
  have "parseFileName ?b q ?m = Some (Inr (filename @ [0], ?m))"
    by (rule parseFileName_found [OF f(2) assms(1)]) (use m in simp_all)
  then have "fileOpenElement ?b ?m emptyRequest 0 = Some (Some ?m, emptyRequest\<lparr>fq_filename := Some (filename @ [0])\<rparr>)"
    using o m by (simp add: fileOpenElement_def add_int_def)
  then have "tlv_loop (fileOpenElement ?b ?m) ?m emptyRequest 0 =
      Some (Some ?m, emptyRequest\<lparr>fq_filename := Some (filename @ [0])\<rparr>)"
    using tlv_loop_step [of 0 ?m "fileOpenElement ?b ?m" emptyRequest] m(3) by (simp add: tlv_loop_done)
  then show ?thesis
    using assms(2) by (simp add: mmsServer_handleFileOpenRequest_def string_of_append)
qed

fun file_reads ::
  "der_encode \<Rightarrow> u32 \<Rightarrow> ByteBuffer \<Rightarrow> u32 \<Rightarrow> nat \<Rightarrow> sMmsServerConnection \<Rightarrow> FileSystem \<Rightarrow>
   (ByteBuffer list \<times> sMmsServerConnection \<times> FileSystem) option" where
  "file_reads der invokeId response frsmId 0 c fs = Some ([], c, fs)"
| "file_reads der invokeId response frsmId (Suc n) c fs = do {
     (c, r, fs) \<leftarrow> mmsServer_handleFileReadRequest der fs c (uint32_bytes frsmId) 0 (int (length (uint32_bytes frsmId)))
       invokeId response;
     (rs, c, fs) \<leftarrow> file_reads der invokeId response frsmId n c fs;
     Some (r # rs, c, fs)
   }"

text \<open>The chunks of a content; an empty one is sent as an empty chunk.\<close>

function chunks_of :: "byte list \<Rightarrow> byte list list" where
  "chunks_of content =
     (if file_chunk_size < length content then take file_chunk_size content # chunks_of (drop file_chunk_size content) else [content])"
  by pat_completeness auto
termination
  by (relation "measure length") (auto simp: file_chunk_size_def)

declare chunks_of.simps [simp del]

lemma concat_chunks: "concat (chunks_of content) = content"
  by (induction content rule: chunks_of.induct) (subst chunks_of.simps, auto)

fun chunk_replies :: "u32 \<Rightarrow> ByteBuffer \<Rightarrow> byte list list \<Rightarrow> ByteBuffer option list" where
  "chunk_replies invokeId response [] = []"
| "chunk_replies invokeId response (chunk # chunks) =
     put_bytes (file_read_bytes invokeId chunk (chunks \<noteq> [])) response # chunk_replies invokeId response chunks"

lemma file_read_room:
  assumes "length chunk \<le> file_chunk_size"
  shows "length (file_read_bytes invokeId chunk follows) \<le> 16008"
proof -
  have len: "length (tlv_bytes (t, s)) \<le> 4 + length s" for t s
    by (simp add: length_field BerEncoder_determineLengthSize_def)
  let ?c = "tlv_bytes (0x80, chunk) @ (if follows then [] else [0x81, 1, 0])"
  have "length ?c \<le> 4 + length chunk + 3" using len [of "0x80" chunk] by simp
  then have "length (tlv_bytes (0x49, ?c)) \<le> 4 + (4 + length chunk + 3)" using len [of "0x49" ?c] by linarith
  moreover have "length (uint32_bytes invokeId) \<le> 5" by (rule uint32_bytes_spec(4))
  ultimately show ?thesis
    using len [of "0xa1" "tlv_bytes (0x02, uint32_bytes invokeId) @ 0xbf # tlv_bytes (0x49, ?c)"] assms
    unfolding file_read_bytes_def file_chunk_size_def by (simp add: length_uint32_field)
qed

lemma decode_id: "BerDecoder_decodeUint32 (uint32_bytes n) (int (length (uint32_bytes n))) 0 = Some n"
  using decodeUint32_found [of "uint32_bytes n" 0 "uint32_bytes n"] found_at_start [of "uint32_bytes n" "[]"]
    uint32_bytes_spec(1) [of n] by simp

lemma read_request:
  assumes "files_ok c fs" and "opened c i = Some handle" and "fs_streams fs handle = Some rest"
    and "unat (fr_fileSize (sc_frsms c ! i) - fr_readPosition (sc_frsms c ! i)) = length rest"
    and "sint frsmId = fr_frsmId (sc_frsms c ! i)"
  shows "mmsServer_handleFileReadRequest der fs c (uint32_bytes frsmId) 0 (int (length (uint32_bytes frsmId))) invokeId response =
    map_option (\<lambda>r. (c\<lparr>sc_frsms := (sc_frsms c)[i := (sc_frsms c ! i)\<lparr>fr_readPosition :=
        fr_readPosition (sc_frsms c ! i) + of_nat (length (take file_chunk_size rest))\<rparr>]\<rparr>, r,
        fs\<lparr>fs_streams := (fs_streams fs)(handle \<mapsto> drop file_chunk_size rest)\<rparr>))
      (put_bytes (file_read_bytes invokeId (take file_chunk_size rest) (file_chunk_size < length rest)) response)"
proof -
  have h: "fr_fileHandle (sc_frsms c ! i) = Some handle" using assms(2) by (auto simp: opened_def split: if_splits)
  have id: "getFrsm c (sint frsmId) = Some i" using getFrsm_unique [OF assms(1)] assms(2,5) by simp
  show ?thesis
    unfolding mmsServer_handleFileReadRequest_def diff_zero decode_id bind.bind_lunit id option.case
      createFileReadResponse_eq [OF h assms(3,4)]
    by (simp add: bind_map_option comp_def map_option_is_None split: bind_splits)
qed

lemma reads_deliver:
  assumes "files_ok c fs" and "opened c i = Some handle" and "fs_streams fs handle = Some content"
    and "unat (fr_fileSize (sc_frsms c ! i) - fr_readPosition (sc_frsms c ! i)) = length content"
    and "sint frsmId = fr_frsmId (sc_frsms c ! i)" and "16008 \<le> length (bb_buffer response)"
  shows "\<exists>rs c' fs'. file_reads der invokeId response frsmId (length (chunks_of content)) c fs = Some (rs, c', fs') \<and>
    map Some rs = chunk_replies invokeId response (chunks_of content)"
  using assms(1-5)
proof (induction content arbitrary: c fs rule: chunks_of.induct)
  case (1 content)
  let ?frsm = "sc_frsms c ! i" and ?chunk = "take file_chunk_size content"
  let ?c = "c\<lparr>sc_frsms := (sc_frsms c)[i := ?frsm\<lparr>fr_readPosition := fr_readPosition ?frsm + of_nat (length ?chunk)\<rparr>]\<rparr>"
  let ?fs = "fs\<lparr>fs_streams := (fs_streams fs)(handle \<mapsto> drop file_chunk_size content)\<rparr>"
  have i: "i < length (sc_frsms c)" using "1.prems"(2) by (simp add: opened_def split: if_splits)
  have room: "length (file_read_bytes invokeId ?chunk follows) \<le> length (bb_buffer response)" for follows
    using file_read_room [of ?chunk invokeId follows] assms(6) by simp
  obtain r where r: "put_bytes (file_read_bytes invokeId ?chunk (file_chunk_size < length content)) response = Some r"
    using room by (simp add: put_bytes_def)
  have step: "mmsServer_handleFileReadRequest der fs c (uint32_bytes frsmId) 0 (int (length (uint32_bytes frsmId))) invokeId response =
      Some (?c, r, ?fs)"
    unfolding read_request [OF "1.prems"] r by simp
  show ?case
  proof (cases "file_chunk_size < length content")
    case False
    then show ?thesis using step r by (subst (1 2) chunks_of.simps) simp
  next
    case True
    have ok: "files_ok ?c ?fs" using read_files_ok [OF "1.prems"(1) step] .
    have o: "opened ?c i = Some handle" "sint frsmId = fr_frsmId (sc_frsms ?c ! i)" "fs_streams ?fs handle = Some (drop file_chunk_size content)"
      using "1.prems"(2,5) i by (simp_all add: opened_def)
    have chunk: "length ?chunk = file_chunk_size" using True by simp
    have eq: "fr_fileSize (sc_frsms ?c ! i) - fr_readPosition (sc_frsms ?c ! i) =
        (fr_fileSize ?frsm - fr_readPosition ?frsm) - of_nat file_chunk_size"
      using i chunk by simp
    have "(of_nat file_chunk_size :: u32) \<le> fr_fileSize ?frsm - fr_readPosition ?frsm" "unat (of_nat file_chunk_size :: u32) = file_chunk_size"
      using True "1.prems"(4) by (simp_all add: word_le_nat_alt file_chunk_size_def)
    then have left: "unat (fr_fileSize (sc_frsms ?c ! i) - fr_readPosition (sc_frsms ?c ! i)) = length (drop file_chunk_size content)"
      unfolding eq using "1.prems"(4) by (simp add: unat_sub)
    obtain rs c' fs' where rs: "file_reads der invokeId response frsmId (length (chunks_of (drop file_chunk_size content))) ?c ?fs = Some (rs, c', fs')"
        "map Some rs = chunk_replies invokeId response (chunks_of (drop file_chunk_size content))"
      using "1.IH" [OF True ok o(1) o(3) left o(2)] by blast
    have "chunks_of (drop file_chunk_size content) \<noteq> []" by (subst chunks_of.simps) simp
    then have "map Some (r # rs) = chunk_replies invokeId response (chunks_of content)"
      using rs(2) r True by (subst chunks_of.simps) simp
    moreover have "file_reads der invokeId response frsmId (length (chunks_of content)) c fs = Some (r # rs, c', fs')"
      using step rs(1) True by (subst chunks_of.simps) simp
    ultimately show ?thesis by blast
  qed
qed

text \<open>What the disk says of a file: its content, a size that is the number of its octets, and a time.\<close>

definition stored :: "FileSystem \<Rightarrow> cstring \<Rightarrow> byte list \<Rightarrow> bool" where
  "stored fs filename content \<longleftrightarrow>
     (\<exists>path mtime. createFullPathFromFileName fs filename = Some path \<and> fs_content fs path = Some content \<and>
        fs_stat fs path = Some (of_nat (length content), mtime) \<and> uint (mtime * 1000) < last_ms \<and>
        length content < 2 ^ 32)"

lemma file_open_room:
  assumes "length gt < 100"
  shows "length (file_open_bytes invokeId frsmId fileSize gt) \<le> 1000"
proof -
  have len: "length (tlv_bytes (t, s)) \<le> 4 + length s" for t s
    by (simp add: length_field BerEncoder_determineLengthSize_def)
  let ?c = "tlv_bytes (0x80, uint32_bytes frsmId) @ tlv_bytes (0xa1, attributes_bytes fileSize gt)"
  have "length ?c \<le> 4 + 5 + (4 + 128)"
    using len [of "0xa1" "attributes_bytes fileSize gt"] attributes_short [OF assms, of fileSize] uint32_bytes_spec(4) [of frsmId]
    by (simp add: length_uint32_field)
  then have "length (tlv_bytes (0x48, ?c)) \<le> 200" using len [of "0x48" ?c] by linarith
  then show ?thesis
    using len [of "0xa1" "tlv_bytes (0x02, uint32_bytes invokeId) @ 0xbf # tlv_bytes (0x48, ?c)"] uint32_bytes_spec(4) [of invokeId]
    unfolding file_open_bytes_def by (simp add: length_uint32_field)
qed

lemma open_stored:
  assumes "stored fs filename content" and "getFreeFrsm c = Some i" and "sc_nextFrsmId c < INT_MAX" and "files_ok c fs"
    and "20 \<le> length junk" and "1000 \<le> length (bb_buffer response)"
  shows "\<exists>c' r fs'. openRequested der junk fs c filename filePosition invokeId response = Some (c', r, fs') \<and>
    files_ok c' fs' \<and> opened c' i = Some (fs_next fs) \<and> fs_streams fs' (fs_next fs) = Some content \<and>
    fr_fileSize (sc_frsms c' ! i) = of_nat (length content) \<and> fr_readPosition (sc_frsms c' ! i) = filePosition \<and>
    fr_frsmId (sc_frsms c' ! i) = sc_nextFrsmId c"
proof -
  obtain path mtime where path: "createFullPathFromFileName fs filename = Some path" "fs_content fs path = Some content"
      "fs_stat fs path = Some (of_nat (length content), mtime)" "uint (mtime * 1000) < last_ms"
    using assms(1) by (auto simp: stored_def)
  let ?fs = "fs\<lparr>fs_streams := (fs_streams fs)(fs_next fs \<mapsto> content), fs_next := Suc (fs_next fs)\<rparr>"
  let ?frsm = "(sc_frsms c ! i)\<lparr>fr_fileHandle := Some (fs_next fs), fr_readPosition := filePosition, fr_frsmId := sc_nextFrsmId c\<rparr>"
  let ?size = "of_nat (length content) :: u32"
  let ?gt = "time_string (mtime * 1000)"
  have "createFullPathFromFileName ?fs filename = Some path"
    using path(1) by (simp add: createFullPathFromFileName_def)
  then have info: "FileSystem_getFileInfo ?fs filename = Some (Some (?size, mtime * 1000))"
    using path(3) by (simp add: FileSystem_getFileInfo_def)
  have gt: "gtString junk (mtime * 1000) = Some ?gt" "length ?gt = 19" using gtString_time [OF assms(5) path(4)] .
  obtain r where "put_bytes (file_open_bytes invokeId (of_int (fr_frsmId ?frsm)) ?size ?gt) response = Some r"
    using file_open_room [of ?gt invokeId "of_int (fr_frsmId ?frsm)" ?size] gt(2) assms(6) by (simp add: put_bytes_def)
  then have resp: "createFileOpenResponse junk ?fs invokeId response filename ?frsm = Some (?frsm\<lparr>fr_fileSize := ?size\<rparr>, r)"
    using createFileOpenResponse_eq [OF info gt(1), of invokeId response ?frsm] gt(2) by simp
  have next_id: "getNextFrsmId c = Some (sc_nextFrsmId c, c\<lparr>sc_nextFrsmId := sc_nextFrsmId c + 1\<rparr>)"
    using assms(3,4) by (simp add: getNextFrsmId_def add_int_def chk_int_def files_ok_def)
  have i: "i < length (sc_frsms c)" using getFreeFrsm_found [OF assms(2)] by simp
  have "openRequested der junk fs c filename filePosition invokeId response =
      Some (c\<lparr>sc_nextFrsmId := sc_nextFrsmId c + 1, sc_frsms := (sc_frsms c)[i := ?frsm\<lparr>fr_fileSize := ?size\<rparr>]\<rparr>, r, ?fs)"
    using path(1,2) resp next_id assms(2) by (simp add: openRequested_def FileSystem_openFile_def)
  from this open_files_ok [OF assms(4) this] show ?thesis
    by (intro exI conjI) (auto simp: opened_def i)
qed

text \<open>C12: A file arrives as it is: when a client opens a file of the store and then sends as many read requests as
  the file has chunks, the concatenation of the chunks it gets is the content, and exactly the last response says that
  nothing follows.\<close>

theorem file_transfer:
  assumes "stored fs filename content" and "length filename \<le> 255" and "0 \<notin> set filename"
    and "file_step\<^sup>*\<^sup>* (MmsServerConnection_init, fs0) (c, fs)" and "fs_streams fs0 = (\<lambda>_. None)"
    and "getFreeFrsm c \<noteq> None" and "sc_nextFrsmId c < INT_MAX" and "20 \<le> length junk"
    and "16008 \<le> length (bb_buffer response)"
  shows "\<exists>c' r fs' chunks rs c'' fs''. concat chunks = content \<and>
    mmsServer_handleFileOpenRequest der junk fs c (file_open_request filename) 0
      (int (length (file_open_request filename))) invokeId response = Some (c', r, fs') \<and>
    file_reads der invokeId response (of_int (sc_nextFrsmId c)) (length chunks) c' fs' = Some (rs, c'', fs'') \<and>
    map Some rs = chunk_replies invokeId response chunks"
proof -
  have ok: "files_ok c fs" by (rule reachable_files_ok [OF assms(4,5)])
  obtain i where i: "getFreeFrsm c = Some i" using assms(6) by blast
  obtain c' r fs' where o: "openRequested der junk fs c filename 0 invokeId response = Some (c', r, fs')"
      "files_ok c' fs'" "opened c' i = Some (fs_next fs)" "fs_streams fs' (fs_next fs) = Some content"
      "fr_fileSize (sc_frsms c' ! i) = of_nat (length content)" "fr_readPosition (sc_frsms c' ! i) = 0"
      "fr_frsmId (sc_frsms c' ! i) = sc_nextFrsmId c"
    using open_stored [OF assms(1) i assms(7) ok assms(8), of response der 0 invokeId] assms(9) by auto
  have "length content < 2 ^ 32" using assms(1) by (auto simp: stored_def)
  then have left: "unat (fr_fileSize (sc_frsms c' ! i) - fr_readPosition (sc_frsms c' ! i)) = length content"
    using o(5,6) by (simp add: unat_of_nat take_bit_nat_eq_self)
  have "0 \<le> sc_nextFrsmId c" using ok by (simp add: files_ok_def)
  then have id: "sint (of_int (sc_nextFrsmId c) :: u32) = fr_frsmId (sc_frsms c' ! i)"
    using o(7) assms(7) by (simp add: sint_sbintrunc' signed_take_bit_int_eq_self)
  obtain rs c'' fs'' where "file_reads der invokeId response (of_int (sc_nextFrsmId c)) (length (chunks_of content)) c' fs' =
      Some (rs, c'', fs'')" "map Some rs = chunk_replies invokeId response (chunks_of content)"
    using reads_deliver [OF o(2,3,4) left id assms(9)] by blast
  then show ?thesis
    using o(1) open_request [OF assms(2,3)] concat_chunks [of content] by metis
qed

definition demo_files :: FileSystem where
  "demo_files = \<lparr>fs_basePath = [], fs_content = (\<lambda>p. if p = [0x66] then Some [1, 2, 3] else None),
     fs_stat = (\<lambda>p. if p = [0x66] then Some (3, 0) else None), fs_entries = (\<lambda>_. None), fs_streams = (\<lambda>_. None), fs_next = 0\<rparr>"

lemma demo_stored: "stored demo_files [0x66] [1, 2, 3]"
  by (simp add: stored_def demo_files_def createFullPathFromFileName_def FULL_PATH_SIZE_def last_ms_def days_to_year_def leaps_def)

lemma no_files_ok: "fs_streams fs = (\<lambda>_. None) \<Longrightarrow> files_ok MmsServerConnection_init fs"
  by (rule reachable_files_ok [OF rtranclp.rtrancl_refl])

lemma demo_free:
  shows "getFreeFrsm MmsServerConnection_init = Some 0" and "sc_nextFrsmId MmsServerConnection_init = 0"
    and "files_ok MmsServerConnection_init demo_files"
proof -
  show "files_ok MmsServerConnection_init demo_files" by (rule no_files_ok) (simp add: demo_files_def)
qed (simp_all add: getFreeFrsm_def MmsServerConnection_init_def CONFIG_MMS_MAX_NUMBER_OF_OPEN_FILES_PER_CONNECTION_def numeral_eq_Suc)

theorem file_transfer_witness:
  "\<exists>c' r fs' chunks rs c'' fs''. concat chunks = [1, 2, 3] \<and>
    mmsServer_handleFileOpenRequest (\<lambda>_. []) (replicate 30 0) demo_files MmsServerConnection_init (file_open_request [0x66]) 0
      (int (length (file_open_request [0x66]))) 1 (ByteBuffer_create 16100) = Some (c', r, fs') \<and>
    file_reads (\<lambda>_. []) 1 (ByteBuffer_create 16100) 0 (length chunks) c' fs' = Some (rs, c'', fs'') \<and>
    map Some rs = chunk_replies 1 (ByteBuffer_create 16100) chunks"
  using file_transfer [OF demo_stored _ _ rtranclp.rtrancl_refl, of "replicate 30 0" "ByteBuffer_create 16100" "\<lambda>_. []" 1]
    demo_free by (simp add: demo_files_def ByteBuffer_create_def)

theorem file_machines_invariant_witness:
  "\<exists>c fs handle. file_step\<^sup>*\<^sup>* (MmsServerConnection_init, demo_files) (c, fs) \<and> opened c 0 = Some handle \<and>
     fs_streams fs handle \<noteq> None \<and> getFrsm c (fr_frsmId (sc_frsms c ! 0)) = Some 0"
proof -
  obtain c r fs where o: "openRequested (\<lambda>_. []) (replicate 30 0) demo_files MmsServerConnection_init [0x66] 0 1
        (ByteBuffer_create 16100) = Some (c, r, fs)" "opened c 0 = Some (fs_next demo_files)"
    using open_stored [OF demo_stored demo_free(1), of "replicate 30 0" "ByteBuffer_create 16100" "\<lambda>_. []" 0 1] demo_free
    by (auto simp: ByteBuffer_create_def)
  then have "file_step (MmsServerConnection_init, demo_files) (c, fs)"
    by (intro step_open [of "\<lambda>_. []" "replicate 30 0" _ _ "file_open_request [0x66]" 0 "int (length (file_open_request [0x66]))" 1])
      (subst open_request, simp_all)
  then have r: "file_step\<^sup>*\<^sup>* (MmsServerConnection_init, demo_files) (c, fs)" by blast
  have "fs_streams demo_files = (\<lambda>_. None)" by (simp add: demo_files_def)
  from file_machines_invariant [OF r this o(2), of 0] r o(2) show ?thesis by blast
qed

section \<open>Initial positions and the root directory\<close>

text \<open>The initial position of a file is not applied: a file opened at position p delivers its first octets, as many
  as lie behind p, instead of those behind p.\<close>

theorem file_initial_position_ignored:
  assumes "stored fs filename content" and "getFreeFrsm c = Some i" and "sc_nextFrsmId c < INT_MAX" and "files_ok c fs"
    and "20 \<le> length junk" and "16008 \<le> length (bb_buffer response)" and "p \<le> length content"
    and "n = min file_chunk_size (length content - p)"
  shows "\<exists>c' r fs' c'' r' fs''.
    openRequested der junk fs c filename (of_nat p) invokeId response = Some (c', r, fs') \<and>
    mmsServer_handleFileReadRequest der fs' c' (uint32_bytes (of_int (sc_nextFrsmId c))) 0
      (int (length (uint32_bytes (of_int (sc_nextFrsmId c))))) invokeId response = Some (c'', r', fs'') \<and>
    put_bytes (file_read_bytes invokeId (take n content) (file_chunk_size < length content - p)) response = Some r'"
proof -
  have room: "length (bb_buffer response) \<ge> 1000" using assms(6) by simp
  obtain c' r fs' where o: "openRequested der junk fs c filename (of_nat p) invokeId response = Some (c', r, fs')"
      "files_ok c' fs'" "opened c' i = Some (fs_next fs)" "fs_streams fs' (fs_next fs) = Some content"
      "fr_fileSize (sc_frsms c' ! i) = of_nat (length content)" "fr_readPosition (sc_frsms c' ! i) = of_nat p"
      "fr_frsmId (sc_frsms c' ! i) = sc_nextFrsmId c"
    using open_stored [OF assms(1-5) room, of der "of_nat p" invokeId] by blast
  have small: "length content < 2 ^ 32" using assms(1) by (auto simp: stored_def)
  have "(of_nat (length content) - of_nat p :: u32) = of_nat (length content - p)" using assms(7) by simp
  then have left: "unat (fr_fileSize (sc_frsms c' ! i) - fr_readPosition (sc_frsms c' ! i)) = length content - p"
    unfolding o(5,6) using small by (simp add: unat_of_nat take_bit_nat_eq_self)
  have "0 \<le> sc_nextFrsmId c" using assms(4) by (simp add: files_ok_def)
  then have "sint (of_int (sc_nextFrsmId c) :: u32) = fr_frsmId (sc_frsms c' ! i)"
    using o(7) assms(3) by (simp add: sint_sbintrunc' signed_take_bit_int_eq_self)
  then have id: "getFrsm c' (sint (of_int (sc_nextFrsmId c) :: u32)) = Some i" using getFrsm_unique [OF o(2)] o(3) by simp
  have h: "fr_fileHandle (sc_frsms c' ! i) = Some (fs_next fs)" using o(3) by (auto simp: opened_def split: if_splits)
  have n: "n \<le> length content" using assms(8) by simp
  obtain r' where r': "put_bytes (file_read_bytes invokeId (take n content) (file_chunk_size < length content - p)) response = Some r'"
    using file_read_room [of "take n content" invokeId "file_chunk_size < length content - p"] assms(6,8) by (simp add: put_bytes_def)
  have "\<exists>c'' fs''. mmsServer_handleFileReadRequest der fs' c' (uint32_bytes (of_int (sc_nextFrsmId c))) 0
      (int (length (uint32_bytes (of_int (sc_nextFrsmId c))))) invokeId response = Some (c'', r', fs'')"
    unfolding mmsServer_handleFileReadRequest_def diff_zero decode_id bind.bind_lunit id option.case
      createFileReadResponse_gen [OF h o(4) left assms(8) n refl refl] r' by simp
  then show ?thesis using o(1) r' by blast
qed

theorem file_initial_position_ignored_witness:
  "\<exists>c' r fs' c'' r' fs''.
    openRequested (\<lambda>_. []) (replicate 30 0) demo_files MmsServerConnection_init [0x66] 2 1 (ByteBuffer_create 16100) = Some (c', r, fs') \<and>
    mmsServer_handleFileReadRequest (\<lambda>_. []) fs' c' (uint32_bytes 0) 0 (int (length (uint32_bytes 0))) 1 (ByteBuffer_create 16100) =
      Some (c'', r', fs'') \<and>
    put_bytes (file_read_bytes 1 [1] False) (ByteBuffer_create 16100) = Some r'"
  using file_initial_position_ignored [OF demo_stored demo_free(1) _ demo_free(3), of "replicate 30 0" "ByteBuffer_create 16100" 2 1 "\<lambda>_. []" 1]
    demo_free(2) by (simp add: ByteBuffer_create_def file_chunk_size_def)

text \<open>Listing the root of the file store is undefined as soon as it has an entry: the request without a name of a
  directory makes the server read the character in front of the empty name.\<close>

theorem directory_root_undefined:
  assumes "fs_entries fs (fs_basePath fs) = Some entries" and "FileSystem_readDirectory entries = Some (entry, rest)"
  shows "mmsServer_handleFileDirectoryRequest der junk fs buffer bufPos bufPos invokeId response = None"
proof -
  have "directory_loop junk fs [] maxSize entries None w = None" for maxSize w
    using assms(2) by (subst directory_loop.simps) (simp add: entryPath_def split: bind_splits)
  then have "createFileDirectoryResponse der junk fs invokeId response [] None = None"
    using assms(1) by (simp add: createFileDirectoryResponse_def FileSystem_openDirectory_def createFullPathFromFileName_def Let_def
        split: bind_splits)
  then show ?thesis by (simp add: mmsServer_handleFileDirectoryRequest_def tlv_loop_done)
qed

theorem directory_root_undefined_witness:
  "mmsServer_handleFileDirectoryRequest (\<lambda>_. []) [] (demo_files\<lparr>fs_entries := (\<lambda>_. Some [([0x66], False)])\<rparr>) [0x30] 1 1 7
     (ByteBuffer_create 100) = None"
  by (rule directory_root_undefined [of _ "[([0x66], False)]" "([0x66], False)" "[]"]) (simp_all add: demo_files_def)

end
