(* ===== verification/Mms_Server.thy ===== *)
theory Mms_Server
  imports Mms_Variable_Lists File_Transfer
begin

text \<open>
  The MMS server as a whole (\<open>src/src/mms/iso_mms/server/mms_server_connection.c\<close>, \<open>mms_server.c\<close>): the
  messages of a client, the services they call, and the connections that are opened and closed.

  What the server depends on outside of it is gathered in a record: the encoder and the decoders of
  the ASN.1 compiler, the content of uninitialised memory, the file operations of the operating system
  and the handlers of the application.
\<close>

section \<open>State\<close>

record MmsEnvironment =
  me_der :: der_encode
  me_decodeRead :: "byte list \<Rightarrow> ReadRequest option"
  me_decodeWrite :: "byte list \<Rightarrow> WriteRequest option"
  me_decodeDefine :: "int \<Rightarrow> byte list \<Rightarrow> bool \<times> DefineNamedVariableListRequest option"
  me_decodeDelete :: "int \<Rightarrow> byte list \<Rightarrow> bool \<times> DeleteNamedVariableListRequest option"
  me_decodeListAttributes :: "int \<Rightarrow> byte list \<Rightarrow> ObjectName option"
  me_decodeVariableAttributes :: "int \<Rightarrow> byte list \<Rightarrow> GetVariableAccessAttributesRequest option"
  me_junk :: "nat \<Rightarrow> byte"
  me_stackJunk :: "byte list"
  me_remove :: "FileSystem \<Rightarrow> cstring \<Rightarrow> bool \<times> FileSystem"
  me_rename :: "FileSystem \<Rightarrow> cstring \<Rightarrow> cstring \<Rightarrow> bool \<times> FileSystem"
  me_readHandler :: "(MmsDomain \<Rightarrow> cstring \<Rightarrow> MmsServerConnection \<Rightarrow> MmsValue option) option"
  me_writeHandler :: "write_handler option"
  me_statusListener :: "(sMmsServer \<Rightarrow> bool \<Rightarrow> sMmsServer) option"

text \<open>The server, one of its connections with its identity, the files, the response, and the invoke id of
  the request.\<close>

record MmsState =
  mt_self :: MmsServerConnection
  mt_server :: sMmsServer
  mt_connection :: sMmsServerConnection
  mt_files :: FileSystem
  mt_response :: ByteBuffer
  mt_invokeId :: u32

abbreviation reject :: "MmsEnvironment \<Rightarrow> MmsState \<Rightarrow> u32 option \<Rightarrow> MmsError \<Rightarrow> MmsState option" where
  "reject env s invokeId reason \<equiv>
     map_option (\<lambda>r. s\<lparr>mt_response := r\<rparr>) (mmsServer_writeMmsRejectPdu (me_der env) invokeId reason (mt_response s))"


section \<open>Services\<close>

text \<open>The memory from \<open>buffer + bufPos\<close> on.\<close>

abbreviation memory_at :: "byte list \<Rightarrow> int \<Rightarrow> byte list" where
  "memory_at buffer bufPos \<equiv> drop (nat bufPos) buffer"

text \<open>The services with an extended tag; the inner \<open>None\<close> is a tag without service.\<close>

definition fileService ::
  "MmsEnvironment \<Rightarrow> byte \<Rightarrow> byte list \<Rightarrow> int \<Rightarrow> int \<Rightarrow> MmsState \<Rightarrow> MmsState option option" where
  "fileService env tag buffer bufPos maxBufPos s =
     (let der = me_der env; fs = mt_files s; c = mt_connection s; invokeId = mt_invokeId s; response = mt_response s
      in if tag = 0x48 then do {
           (c, r, fs) \<leftarrow> mmsServer_handleFileOpenRequest der (me_stackJunk env) fs c buffer bufPos maxBufPos invokeId response;
           Some (Some (s\<lparr>mt_connection := c, mt_response := r, mt_files := fs\<rparr>))
         }
         else if tag = 0x49 then do {
           (c, r, fs) \<leftarrow> mmsServer_handleFileReadRequest der fs c buffer bufPos maxBufPos invokeId response;
           Some (Some (s\<lparr>mt_connection := c, mt_response := r, mt_files := fs\<rparr>))
         }
         else if tag = 0x4a then do {
           (c, r, fs) \<leftarrow> mmsServer_handleFileCloseRequest fs c buffer bufPos maxBufPos invokeId response;
           Some (Some (s\<lparr>mt_connection := c, mt_response := r, mt_files := fs\<rparr>))
         }
         else if tag = 0x4b then do {
           (r, fs) \<leftarrow> mmsServer_handleFileRenameRequest der (me_rename env) fs buffer bufPos maxBufPos invokeId response;
           Some (Some (s\<lparr>mt_response := r, mt_files := fs\<rparr>))
         }
         else if tag = 0x4c then do {
           (r, fs) \<leftarrow> mmsServer_handleFileDeleteRequest der (me_remove env) fs buffer bufPos maxBufPos invokeId response;
           Some (Some (s\<lparr>mt_response := r, mt_files := fs\<rparr>))
         }
         else if tag = 0x4d then do {
           r \<leftarrow> mmsServer_handleFileDirectoryRequest der (me_stackJunk env) fs buffer bufPos maxBufPos invokeId response;
           Some (Some (s\<lparr>mt_response := r\<rparr>))
         }
         else Some None)"

text \<open>The others.\<close>

definition confirmedService ::
  "MmsEnvironment \<Rightarrow> byte \<Rightarrow> byte list \<Rightarrow> int \<Rightarrow> int \<Rightarrow> MmsState \<Rightarrow> MmsState option option" where
  "confirmedService env tag buffer bufPos maxBufPos s =
     (let der = me_der env; server = mt_server s; c = mt_connection s; invokeId = mt_invokeId s; response = mt_response s
      in if tag = 0x02 then do {
           n \<leftarrow> BerDecoder_decodeUint32 buffer (maxBufPos - bufPos) bufPos;
           Some (Some (s\<lparr>mt_invokeId := n, mt_connection := c\<lparr>sc_lastInvokeId := n\<rparr>\<rparr>))
         }
         else if tag = 0x80 then do {
           (server, r) \<leftarrow> mmsServer_handleStatusRequest (me_statusListener env) server buffer bufPos invokeId response;
           Some (Some (s\<lparr>mt_server := server, mt_response := r\<rparr>))
         }
         else if tag = 0xa1 then do {
           r \<leftarrow> mmsServer_handleGetNameListRequest der server c buffer bufPos maxBufPos invokeId response;
           Some (Some (s\<lparr>mt_response := r\<rparr>))
         }
         else if tag = 0x82 then do {
           r \<leftarrow> mmsServer_handleIdentifyRequest server invokeId response;
           Some (Some (s\<lparr>mt_response := r\<rparr>))
         }
         else if tag = 0xa4 then do {
           r \<leftarrow> mmsServer_handleReadRequest der (me_decodeRead env) (me_junk env) (me_readHandler env) server (mt_self s) c
             buffer invokeId response;
           Some (Some (s\<lparr>mt_response := r\<rparr>))
         }
         else if tag = 0xa5 then do {
           (r, server) \<leftarrow> mmsServer_handleWriteRequest der (me_decodeWrite env) (me_writeHandler env) server (mt_self s)
             buffer invokeId response;
           Some (Some (s\<lparr>mt_server := server, mt_response := r\<rparr>))
         }
         else if tag = 0xa6 then do {
           (_, r) \<leftarrow> mmsServer_handleGetVariableAccessAttributesRequest der
             (me_decodeVariableAttributes env (maxBufPos - bufPos)) server (memory_at buffer bufPos) invokeId response;
           Some (Some (s\<lparr>mt_response := r\<rparr>))
         }
         else if tag = 0xab then do {
           (r, server, c) \<leftarrow> mmsServer_handleDefineNamedVariableListRequest der (me_decodeDefine env maxBufPos) (server, c)
             buffer invokeId response;
           Some (Some (s\<lparr>mt_server := server, mt_connection := c, mt_response := r\<rparr>))
         }
         else if tag = 0xac then do {
           r \<leftarrow> mmsServer_handleGetNamedVariableListAttributesRequest der
             (me_decodeListAttributes env (maxBufPos - bufPos)) server (memory_at buffer bufPos) invokeId response;
           Some (Some (s\<lparr>mt_response := r\<rparr>))
         }
         else if tag = 0xad then do {
           (r, server, c) \<leftarrow> mmsServer_handleDeleteNamedVariableListRequest der (me_decodeDelete env maxBufPos) (server, c)
             buffer invokeId response;
           Some (Some (s\<lparr>mt_server := server, mt_connection := c, mt_response := r\<rparr>))
         }
         else Some None)"

text \<open>One round of the loop of \<open>handleConfirmedRequestPdu\<close>.\<close>

definition confirmedElement ::
  "MmsEnvironment \<Rightarrow> byte list \<Rightarrow> int \<Rightarrow> MmsState \<Rightarrow> int \<Rightarrow> (int option \<times> MmsState) option" where
  "confirmedElement env buffer maxBufPos s bufPos = do {
     first \<leftarrow> rd buffer bufPos;
     let extendedTag = (first AND 0x1f = 0x1f);
     tag \<leftarrow> (if extendedTag then rd buffer (bufPos + 1) else Some first);
     (bufPos, len) \<leftarrow> BerDecoder_decodeLength buffer None (if extendedTag then bufPos + 2 else bufPos + 1) maxBufPos;
     if bufPos < 0 then
       map_option (\<lambda>s. (None, s)) (reject env s (Some (mt_invokeId s)) MMS_ERROR_REJECT_UNRECOGNIZED_SERVICE)
     else do {
       len \<leftarrow> len;
       served \<leftarrow> (if extendedTag then fileService env tag buffer bufPos (bufPos + len) s
         else confirmedService env tag buffer bufPos (bufPos + len) s);
       (case served of
          Some s \<Rightarrow> do {
            nextPos \<leftarrow> add_int bufPos len;
            Some (Some nextPos, s)
          }
        | None \<Rightarrow>
            map_option (\<lambda>s. (None, s)) (reject env s (Some (mt_invokeId s)) MMS_ERROR_REJECT_UNRECOGNIZED_SERVICE))
     }
   }"

definition handleConfirmedRequestPdu ::
  "MmsEnvironment \<Rightarrow> MmsState \<Rightarrow> byte list \<Rightarrow> int \<Rightarrow> int \<Rightarrow> MmsState option" where
  "handleConfirmedRequestPdu env s buffer bufPos maxBufPos =
     map_option snd (tlv_loop (confirmedElement env buffer maxBufPos) maxBufPos (s\<lparr>mt_invokeId := 0\<rparr>) bufPos)"


section \<open>Messages\<close>

datatype MmsIndication = MMS_ERROR | MMS_INITIATE | MMS_CONFIRMED_REQUEST | MMS_OK | MMS_CONCLUDE

definition MmsServerConnection_parseMessage ::
  "MmsEnvironment \<Rightarrow> MmsState \<Rightarrow> ByteBuffer \<Rightarrow> (MmsIndication \<times> MmsState) option" where
  "MmsServerConnection_parseMessage env s message =
     (let buffer = bb_buffer message
      in if bb_size message < 2 then Some (MMS_ERROR, s)
         else do {
           pduType \<leftarrow> rd buffer 0;
           (bufPos, pduLength) \<leftarrow> BerDecoder_decodeLength buffer None 1 (bb_size message);
           if bufPos < 0 then Some (MMS_ERROR, s)
           else do {
             pduLength \<leftarrow> pduLength;
             if pduType = 0xa8 then do {
               endPos \<leftarrow> add_int bufPos pduLength;
               (c, r) \<leftarrow> mmsServer_handleInitiateRequest (mt_connection s) buffer bufPos endPos (mt_response s);
               Some (MMS_INITIATE, s\<lparr>mt_connection := c, mt_response := r\<rparr>)
             }
             else if pduType = 0xa0 then do {
               endPos \<leftarrow> add_int bufPos pduLength;
               s \<leftarrow> handleConfirmedRequestPdu env s buffer bufPos endPos;
               Some (MMS_CONFIRMED_REQUEST, s)
             }
             else if pduType = 0x8b then do {
               r \<leftarrow> mmsServer_writeConcludeResponsePdu (mt_response s);
               Some (MMS_CONCLUDE, s\<lparr>mt_response := r\<rparr>)
             }
             else if pduType = 0xa4 then Some (MMS_OK, s)
             else do {
               s \<leftarrow> reject env s None MMS_ERROR_REJECT_UNKNOWN_PDU_TYPE;
               Some (MMS_ERROR, s)
             }
           }
         })"

definition messageReceived :: "MmsEnvironment \<Rightarrow> MmsState \<Rightarrow> ByteBuffer \<Rightarrow> ByteBuffer \<Rightarrow> MmsState option" where
  "messageReceived env s message response =
     map_option snd (MmsServerConnection_parseMessage env (s\<lparr>mt_response := response\<rparr>) message)"


section \<open>Connections\<close>

text \<open>The files of a connection that is destroyed are closed.\<close>

fun closeFiles_loop :: "MmsFileReadStateMachine list \<Rightarrow> FileSystem \<Rightarrow> FileSystem option" where
  "closeFiles_loop [] fs = Some fs"
| "closeFiles_loop (frsm # frsms) fs = do {
     fs \<leftarrow> (case fr_fileHandle frsm of None \<Rightarrow> Some fs | Some handle \<Rightarrow> FileSystem_closeFile fs handle);
     closeFiles_loop frsms fs
   }"

definition MmsServerConnection_destroy :: "sMmsServerConnection \<Rightarrow> FileSystem \<Rightarrow> FileSystem option" where
  "MmsServerConnection_destroy self fs = closeFiles_loop (sc_frsms self) fs"

datatype IsoConnectionIndication = ISO_CONNECTION_OPENED | ISO_CONNECTION_CLOSED
datatype MmsServerEvent = MMS_SERVER_NEW_CONNECTION | MMS_SERVER_CONNECTION_CLOSED

text \<open>The open connections by the connection of the ISO stack, the files, and what the connection handler of the application
  is called with. The map has the entries in the order of their creation, and removing one removes the first with the key.\<close>

record OpenConnections =
  oc_openConnections :: "(nat \<times> sMmsServerConnection) list"
  oc_files :: FileSystem
  oc_events :: "(sMmsServerConnection option \<times> MmsServerEvent) list"

fun removeConnection :: "(nat \<times> sMmsServerConnection) list \<Rightarrow> nat \<Rightarrow> (nat \<times> sMmsServerConnection) list" where
  "removeConnection [] c = []"
| "removeConnection ((k, v) # entries) c = (if k = c then entries else (k, v) # removeConnection entries c)"

definition isoConnectionIndicationHandler ::
  "bool \<Rightarrow> IsoConnectionIndication \<Rightarrow> nat \<Rightarrow> OpenConnections \<Rightarrow> OpenConnections option" where
  "isoConnectionIndicationHandler hasHandler indication connection self =
     (case indication of
        ISO_CONNECTION_OPENED \<Rightarrow>
          Some (self\<lparr>oc_openConnections := oc_openConnections self @ [(connection, MmsServerConnection_init)],
            oc_events := oc_events self @ (if hasHandler then [(Some MmsServerConnection_init, MMS_SERVER_NEW_CONNECTION)] else [])\<rparr>)
      | ISO_CONNECTION_CLOSED \<Rightarrow>
          (let mmsCon = map_of (oc_openConnections self) connection;
               self = self\<lparr>oc_openConnections := removeConnection (oc_openConnections self) connection,
                 oc_events := oc_events self @ (if hasHandler then [(mmsCon, MMS_SERVER_CONNECTION_CLOSED)] else [])\<rparr>
           in case mmsCon of
                None \<Rightarrow> Some self
              | Some c \<Rightarrow> map_option (\<lambda>fs. self\<lparr>oc_files := fs\<rparr>) (MmsServerConnection_destroy c (oc_files self))))"

text \<open>Creation of a server, the handlers of the application, and the end: the connections that are left are
  destroyed. The parameter of a handler is part of the handler.\<close>

definition MmsServer_create :: "MmsDevice \<Rightarrow> sMmsServer" where
  "MmsServer_create device =
     \<lparr>sv_vmdLogicalStatus = 0, sv_vmdPhysicalStatus = 0, sv_vendorName = None, sv_modelName = None, sv_revision = None,
      sv_device = device, sv_valueCaches = createValueCachesForDomains (enumerate 0 (dv_domains device))\<rparr>"

definition MmsServer_setDevice :: "sMmsServer \<Rightarrow> MmsDevice \<Rightarrow> sMmsServer" where
  "MmsServer_setDevice server device = server\<lparr>sv_device := device\<rparr>"

definition MmsServer_installReadHandler ::
  "MmsEnvironment \<Rightarrow> (MmsDomain \<Rightarrow> cstring \<Rightarrow> MmsServerConnection \<Rightarrow> MmsValue option) option \<Rightarrow> MmsEnvironment" where
  "MmsServer_installReadHandler env readHandler = env\<lparr>me_readHandler := readHandler\<rparr>"

definition MmsServer_installWriteHandler :: "MmsEnvironment \<Rightarrow> write_handler option \<Rightarrow> MmsEnvironment" where
  "MmsServer_installWriteHandler env writeHandler = env\<lparr>me_writeHandler := writeHandler\<rparr>"

definition MmsServer_setStatusRequestListener ::
  "MmsEnvironment \<Rightarrow> (sMmsServer \<Rightarrow> bool \<Rightarrow> sMmsServer) option \<Rightarrow> MmsEnvironment" where
  "MmsServer_setStatusRequestListener env listener = env\<lparr>me_statusListener := listener\<rparr>"

fun closeConnections_loop :: "(nat \<times> sMmsServerConnection) list \<Rightarrow> FileSystem \<Rightarrow> FileSystem option" where
  "closeConnections_loop [] fs = Some fs"
| "closeConnections_loop ((_, connection) # connections) fs = do {
     fs \<leftarrow> MmsServerConnection_destroy connection fs;
     closeConnections_loop connections fs
   }"

definition MmsServer_destroy :: "OpenConnections \<Rightarrow> OpenConnections option" where
  "MmsServer_destroy self =
     map_option (\<lambda>fs. self\<lparr>oc_openConnections := [], oc_files := fs\<rparr>)
       (closeConnections_loop (oc_openConnections self) (oc_files self))"



section \<open>Requests\<close>

text \<open>A confirmed request with one service: the invoke id, and the tag and content of the service.\<close>

definition confirmed_request :: "u32 \<Rightarrow> byte \<Rightarrow> byte list \<Rightarrow> byte list" where
  "confirmed_request invokeId t content =
     tlv_bytes (0xa0, tlv_bytes (0x02, uint32_bytes invokeId) @ tlv_bytes (t, content))"

text \<open>Where the content of the service starts.\<close>

definition service_start :: "u32 \<Rightarrow> byte \<Rightarrow> byte list \<Rightarrow> int" where
  "service_start invokeId t content = int (length (confirmed_request invokeId t content)) - int (length content)"

lemma parse_confirmed:
  assumes "bb_buffer message = tlv_bytes (0xa0, body) @ rest" and "bb_size message = int (length (tlv_bytes (0xa0, body)))"
    and "length body < 65536" and "body \<noteq> []"
  shows "MmsServerConnection_parseMessage env s message = map_option (\<lambda>s. (MMS_CONFIRMED_REQUEST, s))
    (handleConfirmedRequestPdu env s (bb_buffer message) (int (length (tl_bytes 0xa0 (length body))))
      (int (length (tlv_bytes (0xa0, body)))))"
proof -
  have found: "found_at (bb_buffer message) 0 (tlv_bytes (0xa0, body))"
    unfolding assms(1) by (rule found_at_start)
  have h: "length (tlv_bytes (0xa0, body)) = length (tl_bytes 0xa0 (length body)) + length body"
    by (rule length_tlv_bytes)
  have n: "length (tl_bytes 0xa0 (length body)) \<le> 4" "2 \<le> length (tl_bytes 0xa0 (length body))"
    by (simp_all add: length_tl_bytes BerEncoder_determineLengthSize_def)
  have size: "\<not> bb_size message < 2" using n h assms(2) by simp
  have sum: "add_int (int (length (tl_bytes 0xa0 (length body)))) (int (length body)) =
      Some (int (length (tlv_bytes (0xa0, body))))"
    using n(1) assms(3) by (simp add: add_int_def chk_int_def h)
  have "0 + int (length (tl_bytes 0xa0 (length body))) \<le> bb_size message" using assms(2) h by simp
  note el = tlv_element [OF found assms(3) this]
  show ?thesis
    using el(1,3,4) el(2) [of None, simplified] size sum assms(2) h
    by (cases "handleConfirmedRequestPdu env s (bb_buffer message) (int (length (tl_bytes 0xa0 (length body))))
        (int (length (tlv_bytes (0xa0, body))))")
      (simp_all add: MmsServerConnection_parseMessage_def Let_def)
qed

lemma confirmed_element:
  assumes "found_at buffer p (tlv_bytes (t, c))" and "length c < 65536" and "p + int (length (tlv_bytes (t, c))) \<le> maxBufPos"
    and "maxBufPos \<le> INT_MAX" and "t AND 0x1f \<noteq> 0x1f"
  shows "confirmedElement env buffer maxBufPos s p = do {
      served \<leftarrow> confirmedService env t buffer (p + int (length (tl_bytes t (length c)))) (p + int (length (tlv_bytes (t, c)))) s;
      (case served of
         Some s \<Rightarrow> Some (Some (p + int (length (tlv_bytes (t, c)))), s)
       | None \<Rightarrow> map_option (\<lambda>s. (None, s)) (reject env s (Some (mt_invokeId s)) MMS_ERROR_REJECT_UNRECOGNIZED_SERVICE))
    }"
proof -
  have h: "length (tlv_bytes (t, c)) = length (tl_bytes t (length c)) + length c" by (rule length_tlv_bytes)
  have "p + int (length (tl_bytes t (length c))) \<le> maxBufPos" using assms(3) h by simp
  note el = tlv_element [OF assms(1,2) this]
  have sum: "add_int (p + int (length (tl_bytes t (length c)))) (int (length c)) = Some (p + int (length (tlv_bytes (t, c))))"
    using el(4) assms(3,4) by (simp add: add_int_def chk_int_def h add.assoc)
  show ?thesis
    using el sum assms(5) by (simp add: confirmedElement_def Let_def h add.assoc cong: option.case_cong)
qed

lemma confirmed_request_parts:
  defines "h invokeId t c \<equiv> length (tl_bytes 0xa0 (length (tlv_bytes (0x02, uint32_bytes invokeId) @ tlv_bytes (t, c))))"
  assumes "found_at buffer 0 (confirmed_request invokeId t c)"
  shows "found_at buffer (int (h invokeId t c)) (tlv_bytes (0x02, uint32_bytes invokeId))"
    and "found_at buffer (int (h invokeId t c) + int (length (tlv_bytes (0x02, uint32_bytes invokeId)))) (tlv_bytes (t, c))"
    and "length (confirmed_request invokeId t c) =
      h invokeId t c + length (tlv_bytes (0x02, uint32_bytes invokeId)) + length (tlv_bytes (t, c))"
  using assms(2) unfolding h_def confirmed_request_def tlv_bytes_def [of "(0xa0, _)"]
  by (simp_all add: found_at_append)

lemma invoke_id_element:
  assumes "found_at buffer p (tlv_bytes (0x02, uint32_bytes invokeId))"
    and "p + int (length (tlv_bytes (0x02, uint32_bytes invokeId))) \<le> maxBufPos" and "maxBufPos \<le> INT_MAX"
  shows "confirmedElement env buffer maxBufPos s p = Some (Some (p + int (length (tlv_bytes (0x02, uint32_bytes invokeId)))),
    s\<lparr>mt_invokeId := invokeId, mt_connection := (mt_connection s)\<lparr>sc_lastInvokeId := invokeId\<rparr>\<rparr>)"
proof -
  let ?b = "uint32_bytes invokeId"
  have len: "length ?b < 65536" using uint32_bytes_spec(4) [of invokeId] by simp
  have h: "length (tlv_bytes (0x02, ?b)) = length (tl_bytes 0x02 (length ?b)) + length ?b" by (rule length_tlv_bytes)
  have "p + int (length (tl_bytes 0x02 (length ?b))) \<le> maxBufPos" using assms(2) h by simp
  from tlv_element(3) [OF assms(1) len this] have
    "BerDecoder_decodeUint32 buffer (int (length ?b)) (p + int (length (tl_bytes 0x02 (length ?b)))) = Some invokeId"
    using decodeUint32_found [of buffer _ ?b] uint32_bytes_spec(1) [of invokeId] by simp
  then show ?thesis
    unfolding confirmed_element [OF assms(1) len assms(2,3), simplified]
    by (simp add: confirmedService_def Let_def h)
qed

text \<open>A confirmed request with one service is handed to exactly that service, with its invoke id and the place of its
  content in the message; what the service does to the server, the connection and the files is the only effect, apart from the
  invoke id that is remembered. A tag that stands for no service is answered with a reject for the invoke id.\<close>

theorem mms_request_dispatched:
  assumes "bb_buffer message = confirmed_request invokeId t c @ rest"
    and "bb_size message = int (length (confirmed_request invokeId t c))"
    and "length c < 60000" and "t AND 0x1f \<noteq> 0x1f"
    and "s' = s\<lparr>mt_invokeId := invokeId, mt_connection := (mt_connection s)\<lparr>sc_lastInvokeId := invokeId\<rparr>\<rparr>"
  shows "MmsServerConnection_parseMessage env s message = do {
      served \<leftarrow> confirmedService env t (bb_buffer message) (service_start invokeId t c)
        (int (length (confirmed_request invokeId t c))) s';
      s \<leftarrow> (case served of
         Some s \<Rightarrow> Some s
       | None \<Rightarrow> reject env s' (Some invokeId) MMS_ERROR_REJECT_UNRECOGNIZED_SERVICE);
      Some (MMS_CONFIRMED_REQUEST, s)
    }"
proof -
  let ?id = "tlv_bytes (0x02, uint32_bytes invokeId)" and ?el = "tlv_bytes (t, c)"
  let ?body = "?id @ ?el" and ?b = "bb_buffer message" and ?n = "int (length (confirmed_request invokeId t c))"
  let ?h = "int (length (tl_bytes 0xa0 (length ?body)))"
  have found: "found_at ?b 0 (confirmed_request invokeId t c)" unfolding assms(1) by (rule found_at_start)
  note parts = confirmed_request_parts [OF found]
  have small: "length ?id \<le> 7" "length ?el \<le> length c + 4"
    using uint32_bytes_spec(4) [of invokeId] length_tlv_bytes [of t c]
    by (simp_all add: length_uint32_field length_tl_bytes BerEncoder_determineLengthSize_def)
  then have body: "length ?body < 65536" using assms(3) by simp
  have n: "?n \<le> INT_MAX" using parts(3) small assms(3)
    by (simp add: length_tl_bytes BerEncoder_determineLengthSize_def)
  have id: "?h + int (length ?id) \<le> ?n" and el: "?h + int (length ?id) + int (length ?el) = ?n" using parts(3) by simp_all
  have start: "?h + int (length ?id) + int (length (tl_bytes t (length c))) = service_start invokeId t c"
    using parts(3) length_tlv_bytes [of t c] by (simp add: service_start_def)
  have "tlv_loop (confirmedElement env ?b ?n) ?n (s\<lparr>mt_invokeId := 0\<rparr>) ?h =
      tlv_loop (confirmedElement env ?b ?n) ?n s' (?h + int (length ?id))"
    by (rule tlv_loop_step)
      (use id invoke_id_element [OF parts(1) id n, of env "s\<lparr>mt_invokeId := 0\<rparr>"] assms(5) in \<open>simp_all add: length_uint32_field\<close>)
  moreover have "confirmedElement env ?b ?n s' (?h + int (length ?id)) = do {
      served \<leftarrow> confirmedService env t ?b (service_start invokeId t c) ?n s';
      (case served of
         Some s \<Rightarrow> Some (Some ?n, s)
       | None \<Rightarrow> map_option (\<lambda>s. (None, s)) (reject env s' (Some invokeId) MMS_ERROR_REJECT_UNRECOGNIZED_SERVICE))
    }"
  proof -
    have "mt_invokeId s' = invokeId" using assms(5) by simp
    moreover have "length c < 65536" using assms(3) by simp
    ultimately show ?thesis
      using confirmed_element [OF parts(2) \<open>length c < 65536\<close> _ n assms(4), of env s', unfolded el start] by simp
  qed
  moreover have "?h + int (length ?id) < ?n" using el length_tlv_bytes [of t c] by (simp add: length_tl_bytes)
  ultimately have "handleConfirmedRequestPdu env s ?b ?h ?n = do {
      served \<leftarrow> confirmedService env t ?b (service_start invokeId t c) ?n s';
      (case served of
         Some s \<Rightarrow> Some s
       | None \<Rightarrow> reject env s' (Some invokeId) MMS_ERROR_REJECT_UNRECOGNIZED_SERVICE)
    }"
    unfolding handleConfirmedRequestPdu_def
    by (cases "confirmedService env t ?b (service_start invokeId t c) ?n s'";
        cases "reject env s' (Some invokeId) MMS_ERROR_REJECT_UNRECOGNIZED_SERVICE")
      (auto simp: tlv_loop.simps [of _ _ s'] tlv_loop_done option.case_eq_if)
  then have handled: "map_option (Pair MMS_CONFIRMED_REQUEST) (handleConfirmedRequestPdu env s ?b ?h ?n) = do {
      served \<leftarrow> confirmedService env t ?b (service_start invokeId t c) ?n s';
      s \<leftarrow> (case served of
         Some s \<Rightarrow> Some s
       | None \<Rightarrow> reject env s' (Some invokeId) MMS_ERROR_REJECT_UNRECOGNIZED_SERVICE);
      Some (MMS_CONFIRMED_REQUEST, s)
    }"
    by (auto simp: option.case_eq_if map_option_case split: bind_split)
  have nonempty: "?body \<noteq> []" using length_tlv_bytes [of t c] by (auto simp: length_tl_bytes)
  show ?thesis
    using handled unfolding confirmed_request_def
    by (rule trans [OF parse_confirmed [OF assms(1,2) [unfolded confirmed_request_def] body nonempty]])
qed

text \<open>An environment and a state for examples.\<close>

definition demo_mms_environment :: MmsEnvironment where
  "demo_mms_environment =
     \<lparr>me_der = (\<lambda>pdu. [[0xa4, 0]]), me_decodeRead = (\<lambda>bs. None), me_decodeWrite = (\<lambda>bs. None),
      me_decodeDefine = (\<lambda>n bs. (False, None)), me_decodeDelete = (\<lambda>n bs. (False, None)),
      me_decodeListAttributes = (\<lambda>n bs. None), me_decodeVariableAttributes = (\<lambda>n bs. None), me_junk = (\<lambda>n. 0),
      me_stackJunk = [], me_remove = (\<lambda>fs f. (False, fs)), me_rename = (\<lambda>fs f g. (False, fs)),
      me_readHandler = None, me_writeHandler = None, me_statusListener = None\<rparr>"

definition demo_state :: MmsState where
  "demo_state =
     \<lparr>mt_self = 1, mt_server = demo_mms_server, mt_connection = MmsServerConnection_init, mt_files = demo_files,
      mt_response = ByteBuffer_wrap (replicate 100 0) 0 100, mt_invokeId = 0\<rparr>"

theorem mms_request_dispatched_witness:
  "MmsServerConnection_parseMessage demo_mms_environment demo_state
     (ByteBuffer_wrap [0xa0, 5, 0x02, 1, 7, 0x82, 0] 7 7) =
   map_option (\<lambda>r. (MMS_CONFIRMED_REQUEST, demo_state\<lparr>mt_invokeId := 7, mt_response := r,
       mt_connection := MmsServerConnection_init\<lparr>sc_lastInvokeId := 7\<rparr>\<rparr>))
     (put_bytes (identify_bytes demo_mms_server 7) (mt_response demo_state))"
proof -
  have bytes: "confirmed_request 7 0x82 [] = [0xa0, 5, 0x02, 1, 7, 0x82, 0]"
    by code_simp
  show ?thesis
    using mms_request_dispatched [where message = "ByteBuffer_wrap [0xa0, 5, 0x02, 1, 7, 0x82, 0] 7 7" and invokeId = 7
        and t = "0x82" and c = "[]" and rest = "[]" and s = demo_state and env = demo_mms_environment, OF _ _ _ _ refl]
    by (simp add: bytes ByteBuffer_wrap_def confirmedService_def Let_def handleIdentifyRequest_eq demo_state_def map_conv_bind_option comp_def)
qed

text \<open>A confirmed request whose element has the length octets \<open>84 ff ff ff fa\<close>, decoded as \<open>-6\<close>, is handled
  over and over: the element lies before the place where it was found, and the server never returns from the
  message, whatever it has been configured with.\<close>

lemma hanging_round:
  assumes "buffer = [0xa0, 6, 0x02, 0x84, 0xff, 0xff, 0xff, 0xfa] @ rest"
  shows "confirmedElement env buffer 8 s 2 =
    Some (Some 2, s\<lparr>mt_invokeId := 0, mt_connection := (mt_connection s)\<lparr>sc_lastInvokeId := 0\<rparr>\<rparr>)"
proof -
  have t: "to_int32 4294967040 = -256" by (simp add: to_int32_def signed_take_bit_eq_take_bit_shift take_bit_eq_mod)
  have "decodeLength_loop buffer (Suc (Suc (Suc (Suc 0)))) 0 4 8 = Some (8, -6)"
    using t by (simp add: assms(1))
  then have "decodeLength_loop buffer 4 0 4 8 = Some (8, -6)" by (simp add: numeral_eq_Suc)
  moreover have "rd buffer 3 = Some 0x84" by (simp add: assms(1))
  ultimately have len: "BerDecoder_decodeLength buffer None 3 8 = Some (8, Some (-6))"
    by (simp add: BerDecoder_decodeLength_def)
  have "rd buffer 2 = Some 0x02" by (simp add: assms(1))
  moreover have "BerDecoder_decodeUint32 buffer (-6) 8 = Some 0"
    by (simp add: BerDecoder_decodeUint32_def decodeUint32_loop.simps)
  ultimately show ?thesis
    using len by (simp add: confirmedElement_def confirmedService_def Let_def add_int_def chk_int_def)
qed

theorem mms_request_hangs:
  assumes "bb_buffer message = [0xa0, 6, 0x02, 0x84, 0xff, 0xff, 0xff, 0xfa] @ rest" and "bb_size message = 8"
  shows "MmsServerConnection_parseMessage env s message =
      map_option (Pair MMS_CONFIRMED_REQUEST) (map_option snd
        (tlv_loop (confirmedElement env (bb_buffer message) 8) 8 (s\<lparr>mt_invokeId := 0\<rparr>) 2)) \<and>
    (\<forall>n. \<exists>s'. tlv_rounds (confirmedElement env (bb_buffer message) 8) 8 n (s\<lparr>mt_invokeId := 0\<rparr>) 2 = Some (s', 2)) \<and>
    MmsServerConnection_parseMessage env s message = None"
proof -
  let ?b = "bb_buffer message"
  have rounds: "\<exists>s'. tlv_rounds (confirmedElement env ?b 8) 8 n (s\<lparr>mt_invokeId := 0\<rparr>) 2 = Some (s', 2)" for n
    by (rule tlv_rounds_repeat [where I = "\<lambda>_. True"]) (simp_all add: hanging_round [OF assms(1)])
  have "rd ?b 0 = Some 0xa0" "BerDecoder_decodeLength ?b None 1 8 = Some (2, Some 6)"
    by (simp_all add: assms(1) BerDecoder_decodeLength_def)
  then have parse: "MmsServerConnection_parseMessage env s message = map_option (Pair MMS_CONFIRMED_REQUEST)
      (map_option snd (tlv_loop (confirmedElement env ?b 8) 8 (s\<lparr>mt_invokeId := 0\<rparr>) 2))"
    using assms(2)
    by (cases "tlv_loop (confirmedElement env ?b 8) 8 (s\<lparr>mt_invokeId := 0\<rparr>) 2")
      (simp_all add: MmsServerConnection_parseMessage_def handleConfirmedRequestPdu_def Let_def add_int_def chk_int_def)
  have "tlv_loop (confirmedElement env ?b 8) 8 (s\<lparr>mt_invokeId := 0\<rparr>) 2 = None"
    by (rule tlv_loop_endless) (use rounds in fastforce)
  with parse rounds show ?thesis by simp
qed

theorem mms_request_hangs_witness:
  "MmsServerConnection_parseMessage demo_mms_environment demo_state
     (ByteBuffer_wrap [0xa0, 6, 0x02, 0x84, 0xff, 0xff, 0xff, 0xfa] 8 8) = None"
  by (rule mms_request_hangs [where rest = "[]", THEN conjunct2, THEN conjunct2]) (simp_all add: ByteBuffer_wrap_def)

end
