(* ===== verification/Mms_Server_Safety.thy ===== *)
theory Mms_Server_Safety
  imports Mms_Server
begin

text \<open>
  What holds of the MMS server after any messages of a client: the data model and the data sets it was
  configured with stay, its file state machines and the streams they have open stay consistent, and
  the parameters of the connection stay within the limits of the configuration. The services are looked
  at one by one, and the results are lifted through the loop over the elements of a request to messages
  and to sequences of messages.
\<close>

section \<open>What a service changes\<close>

text \<open>The parts of a connection that the services for files, for lists and for parameters are concerned with.\<close>

definition same_files :: "sMmsServerConnection \<Rightarrow> sMmsServerConnection \<Rightarrow> bool" where
  "same_files c c' \<longleftrightarrow> sc_frsms c' = sc_frsms c \<and> sc_nextFrsmId c' = sc_nextFrsmId c"

definition same_rest :: "sMmsServerConnection \<Rightarrow> sMmsServerConnection \<Rightarrow> bool" where
  "same_rest c c' \<longleftrightarrow> c'\<lparr>sc_frsms := sc_frsms c, sc_nextFrsmId := sc_nextFrsmId c\<rparr> = c"

lemma same_files_ok: "same_files c c' \<Longrightarrow> files_ok c' fs = files_ok c fs"
  by (simp add: same_files_def files_ok_def opened_def)

lemma same_restD:
  assumes "same_rest c c'"
  shows "sc_namedVariableLists c' = sc_namedVariableLists c" and "limited c' = limited c"
proof -
  have "sc_namedVariableLists (c'\<lparr>sc_frsms := sc_frsms c, sc_nextFrsmId := sc_nextFrsmId c\<rparr>) = sc_namedVariableLists c"
    "limited (c'\<lparr>sc_frsms := sc_frsms c, sc_nextFrsmId := sc_nextFrsmId c\<rparr>) = limited c"
    using assms unfolding same_rest_def by simp_all
  then show "sc_namedVariableLists c' = sc_namedVariableLists c" "limited c' = limited c" by (simp_all add: limited_def)
qed

text \<open>The files.\<close>

lemma next_same_rest: "getNextFrsmId c = Some (i, c') \<Longrightarrow> same_rest c c'"
  by (auto simp: getNextFrsmId_def same_rest_def split: bind_splits)

lemma same_rest_frsms: "same_rest c c' \<Longrightarrow> same_rest c (c'\<lparr>sc_frsms := fs\<rparr>)"
  by (simp add: same_rest_def)

lemma same_rest_refl [simp]: "same_rest c c"
  by (simp add: same_rest_def)

lemma file_same_rest:
  "mmsServer_handleFileOpenRequest der junk fs c buffer bufPos maxBufPos invokeId response = Some (c', r, fs') \<Longrightarrow> same_rest c c'"
  "mmsServer_handleFileReadRequest der fs c buffer bufPos maxBufPos invokeId response = Some (c', r, fs') \<Longrightarrow> same_rest c c'"
  "mmsServer_handleFileCloseRequest fs c buffer bufPos maxBufPos invokeId response = Some (c', r, fs') \<Longrightarrow> same_rest c c'"
  by (auto simp: mmsServer_handleFileOpenRequest_def openRequested_def mmsServer_handleFileReadRequest_def
      mmsServer_handleFileCloseRequest_def Let_def split: bind_splits option.splits if_splits
      intro!: same_rest_frsms dest!: next_same_rest)

text \<open>The lists.\<close>

lemma define_same:
  assumes "mmsServer_handleDefineNamedVariableListRequest der dec (server, c) buffer invokeId response = Some (r, server', c')"
  shows "same_files c c' \<and> limited c' = limited c"
  using assms by (auto simp: mmsServer_handleDefineNamedVariableListRequest_def defineInDomain_def defineInConnection_def
      MmsServerConnection_addNamedVariableList_def same_files_def limited_def split: bind_splits ObjectName.splits option.splits if_splits)

lemma deleteName_same:
  "deleteName name (server, c) = Some ((server', c'), m, k) \<Longrightarrow> same_files c c' \<and> limited c' = limited c"
  by (auto simp: deleteName_def MmsServerConnection_deleteNamedVariableList_def same_files_def limited_def
      split: ObjectName.splits bind_splits option.splits if_splits)

lemma deleteNames_same:
  "deleteNames_loop names (server, c) m k = Some ((server', c'), m', k') \<Longrightarrow> same_files c c' \<and> limited c' = limited c"
proof (induction names "(server, c)" m k arbitrary: server c rule: deleteNames_loop.induct)
  case (2 name names m k server c)
  then obtain server1 c1 a b where st: "deleteName name (server, c) = Some ((server1, c1), a, b)"
      "deleteNames_loop names (server1, c1) (m + a) (k + b) = Some ((server', c'), m', k')"
    by (auto split: bind_splits)
  show ?case using deleteName_same [OF st(1)] 2(1) [OF st(1) refl refl st(2)] by (simp add: same_files_def)
qed (simp add: same_files_def)

lemma delete_same:
  assumes "mmsServer_handleDeleteNamedVariableListRequest der dec (server, c) buffer invokeId response = Some (r, server', c')"
  shows "same_files c c' \<and> limited c' = limited c"
  using assms by (auto simp: mmsServer_handleDeleteNamedVariableListRequest_def same_files_def split: bind_splits if_splits
      dest!: deleteNames_same)

text \<open>The values.\<close>

lemma store_device [simp]: "sv_device (store_value s d i v) = sv_device s"
  by (simp add: store_value_def)

definition keeps_device :: "write_handler option \<Rightarrow> bool" where
  "keeps_device handler \<longleftrightarrow> (\<forall>h. handler = Some h \<longrightarrow> (\<forall>d i v c s. sv_device (snd (h d i v c s)) = sv_device s))"

lemma setValue_device:
  "mmsServer_setValue h s d i v c = Some (e, s') \<Longrightarrow> keeps_device h \<Longrightarrow> sv_device s' = sv_device s"
  by (auto simp: mmsServer_setValue_def keeps_device_def split: option.splits bind_splits) (metis snd_conv)

lemma writeItem_device:
  "writeItem h s c varSpec x = Some (e, s') \<Longrightarrow> keeps_device h \<Longrightarrow> sv_device s' = sv_device s"
  by (auto simp: writeItem_def writeArrayElement_def split: VariableSpecification.splits ObjectName.splits option.splits
      bind_splits dest: setValue_device)

lemma writeItems_device:
  "writeItems_loop h s c vs xs = Some (es, s') \<Longrightarrow> keeps_device h \<Longrightarrow> sv_device s' = sv_device s"
  by (induction h s c vs xs arbitrary: es s' rule: writeItems_loop.induct) (auto split: bind_splits dest!: writeItem_device)

lemma write_device:
  "mmsServer_handleWriteRequest der dec h s c buffer invokeId response = Some (r, s') \<Longrightarrow> keeps_device h \<Longrightarrow>
   sv_device s' = sv_device s"
  by (auto simp: mmsServer_handleWriteRequest_def Let_def split: option.splits VariableAccessSpecification.splits if_splits
      bind_splits dest: writeItems_device)

text \<open>The parameters.\<close>

lemma initiate_same:
  assumes "mmsServer_handleInitiateRequest c buffer p maxBufPos response = Some (c', response')"
  shows "same_files c c'" and "sc_namedVariableLists c' = sc_namedVariableLists c"
proof -
  let ?I = "\<lambda>x. same_files c x \<and> sc_namedVariableLists x = sc_namedVariableLists c"
  have start: "?I (initiateDefaults c)" by (simp add: same_files_def initiateDefaults_def)
  have step: "?I x \<Longrightarrow> initiateElement buffer maxBufPos x q = Some (r, x') \<Longrightarrow> ?I x'" for x q r x'
    by (auto simp: initiateElement_def same_files_def bind_eq_Some_conv split: if_splits)
  have "?I c'"
    using assms by (auto simp: mmsServer_handleInitiateRequest_def parseInitiateRequestPdu_def bind_eq_Some_conv
        dest!: tlv_loop_invariant [where I = ?I, OF _ start step])
  then show "same_files c c'" "sc_namedVariableLists c' = sc_namedVariableLists c" by simp_all
qed


section \<open>Messages\<close>

text \<open>What the server relies on: removing and renaming files leaves open streams alone, and the handlers of the
  application do not replace the data model.\<close>

definition environment_ok :: "MmsEnvironment \<Rightarrow> bool" where
  "environment_ok env \<longleftrightarrow>
     (\<forall>f p. keeps_streams f (snd (me_remove env f p))) \<and> (\<forall>f p q. keeps_streams f (snd (me_rename env f p q))) \<and>
     keeps_device (me_writeHandler env) \<and>
     (\<forall>l s b. me_statusListener env = Some l \<longrightarrow> sv_device (l s b) = sv_device s)"

definition server_ok :: "MmsState \<Rightarrow> bool" where
  "server_ok s \<longleftrightarrow> lists_ok (mt_server s, mt_connection s) \<and> files_ok (mt_connection s) (mt_files s) \<and> limited (mt_connection s)"

text \<open>It holds of a new connection of a new server whose data sets have different names.\<close>

lemma fresh_server_ok:
  assumes "\<forall>d \<in> set (dv_domains device). names_distinct (md_namedVariableLists d)" and "fs_streams fs = (\<lambda>_. None)"
  shows "server_ok \<lparr>mt_self = self, mt_server = MmsServer_create device, mt_connection = MmsServerConnection_init,
    mt_files = fs, mt_response = response, mt_invokeId = n\<rparr>"
proof -
  have "sc_namedVariableLists MmsServerConnection_init = []" "limited MmsServerConnection_init"
    by (simp_all add: MmsServerConnection_init_def limited_def connection_limits)
  then show ?thesis
    using assms no_files_ok [OF assms(2)]
    by (simp add: server_ok_def lists_ok_def MmsServer_create_def names_distinct_def list_all_iff)
qed

text \<open>What a message may do to the state.\<close>

definition server_change :: "MmsState \<Rightarrow> MmsState \<Rightarrow> bool" where
  "server_change s s' \<longleftrightarrow>
     list_change (mt_server s, mt_connection s) (mt_server s', mt_connection s') \<and>
     (files_ok (mt_connection s) (mt_files s) \<longrightarrow> files_ok (mt_connection s') (mt_files s')) \<and>
     (limited (mt_connection s) \<longrightarrow> limited (mt_connection s'))"

lemma server_change_refl [simp]: "server_change s s"
  by (simp add: server_change_def)

lemma server_change_trans: "server_change a b \<Longrightarrow> server_change b c \<Longrightarrow> server_change a c"
  unfolding server_change_def using list_change_trans by blast

lemma server_change_ok: "server_change s s' \<Longrightarrow> server_ok s \<Longrightarrow> server_ok s'"
  by (simp add: server_change_def server_ok_def list_change_def)

lemma same_state_change:
  "mt_server s' = mt_server s \<Longrightarrow> mt_connection s' = mt_connection s \<Longrightarrow> mt_files s' = mt_files s \<Longrightarrow> server_change s s'"
  by (simp add: server_change_def)

lemma same_lists_change:
  "sv_device server' = sv_device server \<Longrightarrow> sc_namedVariableLists c' = sc_namedVariableLists c \<Longrightarrow>
   list_change (server, c) (server', c')"
  by (simp add: list_change_def lists_ok_def same_model_refl)

lemma response_change [simp]: "server_change s (s\<lparr>mt_response := r\<rparr>)"
  by (simp add: same_state_change)

lemma file_change:
  assumes "file_step (mt_connection s, mt_files s) (c', fs')" and "same_rest (mt_connection s) c'"
  shows "server_change s (s\<lparr>mt_connection := c', mt_response := r, mt_files := fs'\<rparr>)"
  using step_files_ok [OF assms(1)] same_restD [OF assms(2)] same_lists_change [of "mt_server s" "mt_server s"]
  by (simp add: server_change_def)

lemma list_service_change:
  assumes "nvl_step (mt_server s, mt_connection s) (server', c')" and "same_files (mt_connection s) c' \<and> limited c' = limited (mt_connection s)"
  shows "server_change s (s\<lparr>mt_server := server', mt_connection := c', mt_response := r\<rparr>)"
  using nvl_step_change [OF assms(1)] assms(2) same_files_ok [of "mt_connection s" c'] by (simp add: server_change_def)

lemma device_change:
  assumes "sv_device server' = sv_device (mt_server s)"
  shows "server_change s (s\<lparr>mt_server := server', mt_response := r\<rparr>)"
  using same_lists_change [OF assms refl, of "mt_connection s"] by (simp add: server_change_def)

lemma invoke_id_change: "server_change s (s\<lparr>mt_invokeId := n, mt_connection := (mt_connection s)\<lparr>sc_lastInvokeId := m\<rparr>\<rparr>)"
  using same_lists_change [of "mt_server s" "mt_server s" "(mt_connection s)\<lparr>sc_lastInvokeId := m\<rparr>" "mt_connection s"]
    same_files_ok [of "mt_connection s" "(mt_connection s)\<lparr>sc_lastInvokeId := m\<rparr>"]
  by (simp add: server_change_def same_files_def limited_def)

text \<open>Case distinctions over what a dispatcher returns.\<close>

lemma if_resultE:
  assumes "(if b then x else y) = z"
  obtains "b" "x = z" | "\<not> b" "y = z"
  using assms by (auto split: if_splits)

lemma bind_resultE:
  assumes "m \<bind> f = Some z"
  obtains a where "m = Some a" "f a = Some z"
  using assms by (cases m) auto

lemma fileService_change:
  assumes "environment_ok env" and "fileService env tag buffer bufPos maxBufPos s = Some (Some s')"
  shows "server_change s s'"
proof -
  have keep: "keeps_streams f (snd (me_remove env f p))" "keeps_streams f (snd (me_rename env f p q))" for f p q
    using assms(1) by (simp_all add: environment_ok_def)
  have only_files: "server_change s (s\<lparr>mt_response := r, mt_files := fs'\<rparr>)"
    if "file_step (mt_connection s, mt_files s) (mt_connection s, fs')" for r fs'
    using file_change [OF that same_rest_refl, of r] by simp
  show ?thesis
    using assms(2) unfolding fileService_def Let_def
    by (auto split: if_splits bind_splits
        intro!: file_change only_files
        intro: step_open step_read step_close step_delete [OF _ keep(1)] step_rename [OF _ keep(2)] file_same_rest)
qed

lemma confirmedService_change:
  assumes "environment_ok env" and "confirmedService env tag buffer bufPos maxBufPos s = Some (Some s')"
  shows "server_change s s'"
proof -
  have listener: "sv_device server' = sv_device server"
    if "mmsServer_handleStatusRequest (me_statusListener env) server buffer p i response = Some (server', r)" for server server' p i response r
    using that assms(1) unfolding mmsServer_handleStatusRequest_def Let_def
    by (elim bind_resultE; cases "me_statusListener env"; clarsimp simp: environment_ok_def)
  have handler: "keeps_device (me_writeHandler env)" using assms(1) by (simp add: environment_ok_def)
  show ?thesis
    by (insert assms(2) [unfolded confirmedService_def Let_def], elim if_resultE bind_resultE; clarsimp;
        (rule invoke_id_change | rule response_change | (rule device_change, erule listener) |
         (rule device_change, erule write_device [OF _ handler]) |
         (rule list_service_change, erule define_list, erule define_same) |
         (rule list_service_change, erule delete_lists, erule delete_same)))
qed

lemma confirmedElement_change:
  assumes "environment_ok env" and "confirmedElement env buffer maxBufPos s p = Some (r, s')"
  shows "server_change s s'"
  using assms(2) unfolding confirmedElement_def Let_def
  by (auto split: if_splits bind_splits option.splits
      intro: fileService_change [OF assms(1)] confirmedService_change [OF assms(1)])

lemma message_change:
  assumes "environment_ok env" and "MmsServerConnection_parseMessage env s message = Some (r, s')"
  shows "server_change s s'"
proof -
  have confirmed: "server_change s s1" if handled: "handleConfirmedRequestPdu env s buffer p q = Some s1" for buffer p q s1
  proof -
    obtain y where y: "tlv_loop (confirmedElement env buffer q) q (s\<lparr>mt_invokeId := 0\<rparr>) p = Some y" "s1 = snd y"
      using handled unfolding handleConfirmedRequestPdu_def map_option_eq_Some by blast
    then have loop: "tlv_loop (confirmedElement env buffer q) q (s\<lparr>mt_invokeId := 0\<rparr>) p = Some (fst y, s1)" by simp
    show ?thesis
    proof (rule tlv_loop_invariant [OF loop, where I = "server_change s"])
      show "server_change s (s\<lparr>mt_invokeId := 0\<rparr>)" by (simp add: same_state_change)
    qed (rule server_change_trans [OF _ confirmedElement_change [OF assms(1)]])
  qed
  have initiate: "server_change s (s\<lparr>mt_connection := c', mt_response := r\<rparr>)"
    if "mmsServer_handleInitiateRequest (mt_connection s) buffer p q response = Some (c', r')" for buffer p q response c' r r'
    using initiate_same [OF that] initiate_limited [OF that] same_files_ok [OF initiate_same(1) [OF that]]
      same_lists_change [of "mt_server s" "mt_server s" c']
    by (simp add: server_change_def)
  show ?thesis
    by (insert assms(2) [unfolded MmsServerConnection_parseMessage_def Let_def], elim if_resultE bind_resultE; clarsimp;
        elim if_resultE bind_resultE; clarsimp; (erule confirmed | erule initiate))
qed

text \<open>A client's messages in any number and with any content, while others change the disk.\<close>

inductive server_step :: "MmsEnvironment \<Rightarrow> MmsState \<Rightarrow> MmsState \<Rightarrow> bool" for env where
  message: "messageReceived env s message response = Some s' \<Longrightarrow> server_step env s s'"
| disk: "keeps_streams (mt_files s) fs \<Longrightarrow> server_step env s (s\<lparr>mt_files := fs\<rparr>)"

lemma server_step_change: "server_step env s s' \<Longrightarrow> environment_ok env \<Longrightarrow> server_change s s'"
proof (induction rule: server_step.induct)
  case (message s message response s')
  then obtain r where "MmsServerConnection_parseMessage env (s\<lparr>mt_response := response\<rparr>) message = Some (r, s')"
    by (auto simp: messageReceived_def)
  from message_change [OF message(2) this] show ?case using response_change server_change_trans by blast
next
  case (disk s fs)
  then show ?case using keeps_files_ok by (auto simp: server_change_def)
qed

lemma steps_keep_server:
  assumes "(server_step env)\<^sup>*\<^sup>* s s'" and "environment_ok env" and "server_ok s"
  shows "server_ok s' \<and> same_model (sv_device (mt_server s)) (sv_device (mt_server s')) \<and>
    (\<forall>p d l. domain_at (sv_device (mt_server s)) p = Some d \<and> l \<in> set (md_namedVariableLists d) \<and> \<not> nl_deletable l \<longrightarrow>
      (\<exists>d'. domain_at (sv_device (mt_server s')) p = Some d' \<and> l \<in> set (md_namedVariableLists d')))"
proof -
  have "server_change s s'"
    using assms(1) by induction (auto intro: server_change_trans server_step_change [OF _ assms(2)])
  with server_change_ok [OF this assms(3)] show ?thesis by (auto simp: server_change_def list_change_def)
qed

text \<open>A message that sets the invoke id, in the server of the examples.\<close>

lemma demo_invoke_id:
  assumes "bb_buffer message = [0xa0, 3, 0x02, 1, 7] @ rest" and "bb_size message = 5"
  shows "messageReceived demo_mms_environment demo_state message response = Some (demo_state\<lparr>mt_response := response,
    mt_invokeId := 7, mt_connection := MmsServerConnection_init\<lparr>sc_lastInvokeId := 7\<rparr>\<rparr>)"
proof -
  let ?b = "[0xa0, 3, 0x02, 1, 7] @ rest" and ?i = "tlv_bytes (0x02, uint32_bytes 7)"
  let ?s = "demo_state\<lparr>mt_response := response, mt_invokeId := 0\<rparr>"
  have bytes: "tlv_bytes (0xa0, [0x02, 1, 7]) = [0xa0, 3, 0x02, 1, 7]" "?i = [0x02, 1, 7]" "tl_bytes 0xa0 (Suc (Suc (Suc 0))) = [0xa0, 3]"
    by code_simp+
  have "found_at ?b 2 ?i" unfolding bytes by (simp add: found_at_def)
  then have "confirmedElement demo_mms_environment ?b 5 ?s 2 = Some (Some 5, ?s\<lparr>mt_invokeId := 7,
      mt_connection := MmsServerConnection_init\<lparr>sc_lastInvokeId := 7\<rparr>\<rparr>)"
    using invoke_id_element [of ?b 2 7 5 demo_mms_environment ?s] by (simp add: bytes demo_state_def)
  then have "handleConfirmedRequestPdu demo_mms_environment (demo_state\<lparr>mt_response := response\<rparr>) ?b 2 5 =
      Some (?s\<lparr>mt_invokeId := 7, mt_connection := MmsServerConnection_init\<lparr>sc_lastInvokeId := 7\<rparr>\<rparr>)"
    by (simp add: handleConfirmedRequestPdu_def tlv_loop.simps [of _ _ _ 2] tlv_loop_done)
  then show ?thesis
    using parse_confirmed [of message "[0x02, 1, 7]" rest demo_mms_environment "demo_state\<lparr>mt_response := response\<rparr>"] assms
    by (simp add: messageReceived_def bytes)
qed

lemma demo_environment_ok: "environment_ok demo_mms_environment"
  by (simp add: environment_ok_def demo_mms_environment_def keeps_streams_def keeps_device_def)

lemma demo_state_ok: "server_ok demo_state"
  using demo_free(3)
  by (simp add: server_ok_def demo_state_def lists_ok_def names_distinct_def limited_def demo_mms_server_def
      MmsServerConnection_init_def demo_domain_def MmsDomain_create_def connection_limits)

text \<open>C3: Whatever messages a client sends, with any octets and in any order, and however the disk changes meanwhile: each
  open file state machine keeps an open stream of its own and an id of its own, no two data sets get the same name,
  the parameters of the connection stay within the limits of the configuration, the domains and their variables stay the same,
  and a data set that is not deletable stays in its domain.\<close>

theorem server_invariant:
  assumes "(server_step env)\<^sup>*\<^sup>* s s'" and "environment_ok env" and "server_ok s"
  shows "server_ok s' \<and> same_model (sv_device (mt_server s)) (sv_device (mt_server s')) \<and>
    (\<forall>p d l. domain_at (sv_device (mt_server s)) p = Some d \<and> l \<in> set (md_namedVariableLists d) \<and> \<not> nl_deletable l \<longrightarrow>
      (\<exists>d'. domain_at (sv_device (mt_server s')) p = Some d' \<and> l \<in> set (md_namedVariableLists d')))"
  by (rule steps_keep_server [OF assms])

theorem server_invariant_witness:
  "\<exists>s'. (server_step demo_mms_environment)\<^sup>*\<^sup>* demo_state s' \<and> mt_connection s' \<noteq> mt_connection demo_state \<and> server_ok s'"
proof -
  let ?s = "demo_state\<lparr>mt_response := mt_response demo_state, mt_invokeId := 7,
    mt_connection := MmsServerConnection_init\<lparr>sc_lastInvokeId := 7\<rparr>\<rparr>"
  have "messageReceived demo_mms_environment demo_state (ByteBuffer_wrap [0xa0, 3, 0x02, 1, 7] 5 5) (mt_response demo_state) = Some ?s"
    by (rule demo_invoke_id [where rest = "[]"]) (simp_all add: ByteBuffer_wrap_def)
  then have "server_step demo_mms_environment demo_state ?s" by (rule server_step.message)
  then have "(server_step demo_mms_environment)\<^sup>*\<^sup>* demo_state ?s" by blast
  from server_invariant [OF this demo_environment_ok demo_state_ok] this show ?thesis
    by (intro exI [of _ ?s]) (simp add: demo_state_def MmsServerConnection_init_def)
qed

end
