(* ===== verification/Byte_Stream.thy ===== *)
theory Byte_Stream
  imports C_Prelude
begin

text \<open>
  \<open>src/src/common/byte_stream.c\<close> on top of the socket layer
  (\<open>src/src/hal/socket/linux/socket_linux.c\<close>).

  The environment of a socket is a script: what each call of \<open>read\<close> will find, with the
  milliseconds that pass until then, and how many bytes each call of \<open>send\<close> will take.
  \<open>Got bs\<close> means \<open>bs\<close> is available; a read of fewer bytes leaves the rest. The script is the
  whole life of the connection: after its last event the peer is gone and the descriptor reports an error.
  A call that blocks for ever, because the peer stays connected and silent, has no value here, and nothing that is
  shown says that a silent peer is noticed. Sent data is recorded call by call.
\<close>

datatype net_result = Got "byte list" | Nothing | Failure

datatype net_event = Ev (ev_ms: nat) (ev_result: net_result)

record Socket =
  sk_events :: "net_event list"
  sk_time :: nat
  sk_sends :: "int list"
  sk_out :: "byte list list"

text \<open>\<open>Socket_read\<close>: the result code, the bytes stored at \<open>buf\<close>, and the socket. A negative
  \<open>size\<close> reaches \<open>read\<close> as a count above \<open>SSIZE_MAX\<close>, which Linux refuses with \<open>EINVAL\<close>.\<close>

definition Socket_read :: "Socket \<Rightarrow> int \<Rightarrow> int \<times> byte list \<times> Socket" where
  "Socket_read self n =
     (if n < 0 then (-1, [], self)
      else if n = 0 then (0, [], self)
      else case sk_events self of
        [] \<Rightarrow> (-1, [], self)
      | Ev ms r # es \<Rightarrow>
          (let self = self\<lparr>sk_time := sk_time self + ms\<rparr> in
           case r of
             Nothing \<Rightarrow> (0, [], self\<lparr>sk_events := es\<rparr>)
           | Failure \<Rightarrow> (-1, [], self\<lparr>sk_events := es\<rparr>)
           | Got bs \<Rightarrow>
               (if nat n < length bs
                then (n, take (nat n) bs, self\<lparr>sk_events := Ev 0 (Got (drop (nat n) bs)) # es\<rparr>)
                else (int (length bs), bs, self\<lparr>sk_events := es\<rparr>))))"

definition Socket_write :: "Socket \<Rightarrow> byte list \<Rightarrow> int \<times> Socket" where
  "Socket_write self bs =
     (case sk_sends self of
        [] \<Rightarrow> (int (length bs), self\<lparr>sk_out := sk_out self @ [bs]\<rparr>)
      | k # ks \<Rightarrow>
          (if k < 0 then (-1, self\<lparr>sk_sends := ks\<rparr>)
           else (min k (int (length bs)),
                 self\<lparr>sk_sends := ks, sk_out := sk_out self @ [take (nat k) bs]\<rparr>)))"

definition CONFIG_TCP_READ_TIMEOUT_MS :: nat where
  "CONFIG_TCP_READ_TIMEOUT_MS = 1000"

text \<open>The work left in the script: every read that makes progress or finds nothing shortens it.\<close>

definition sk_todo :: "Socket \<Rightarrow> nat" where
  "sk_todo s = (\<Sum>e\<leftarrow>sk_events s. case ev_result e of Got bs \<Rightarrow> Suc (length bs) | _ \<Rightarrow> 1)"

lemma Socket_read_todo:
  assumes "Socket_read s n = (r, bs, s')"
  shows "sk_todo s' \<le> sk_todo s" and "0 < r \<Longrightarrow> sk_todo s' < sk_todo s"
    and "0 \<le> r \<Longrightarrow> r < n \<Longrightarrow> sk_todo s' < sk_todo s"
  using assms
  by (auto simp: Socket_read_def sk_todo_def Let_def split: if_splits list.splits
      net_event.splits net_result.splits)

lemma Socket_read_result:
  assumes "Socket_read s n = (r, bs, s')"
  shows "-1 \<le> r" and "0 \<le> r \<Longrightarrow> int (length bs) = r \<and> r \<le> n" and "r < 0 \<Longrightarrow> bs = []"
    and "sk_out s' = sk_out s" and "sk_sends s' = sk_sends s"
  using assms
  by (auto simp: Socket_read_def Let_def split: if_splits list.splits
      net_event.splits net_result.splits)

section \<open>The byte stream operations\<close>

text \<open>\<open>ByteStream_readUint8\<close>: \<open>Some b\<close> for the C result 1, \<open>None\<close> for \<open>-1\<close>.\<close>

function readUint8_loop :: "Socket \<Rightarrow> nat \<Rightarrow> byte option \<times> Socket" where
  "readUint8_loop self start =
     (case Socket_read self 1 of (bytesRead, bs, self') \<Rightarrow>
        if bytesRead = -1 then (None, self')
        else if bytesRead < 1 \<and> sk_time self' - start < CONFIG_TCP_READ_TIMEOUT_MS
        then readUint8_loop self' start
        else if bytesRead \<noteq> 1 then (None, self')
        else (Some (hd bs), self'))"
  by pat_completeness auto
termination
proof (relation "measure (\<lambda>(self, start). sk_todo self)", goal_cases)
  case 1
  show ?case by simp
next
  case (2 self start bytesRead y bs self')
  then have "Socket_read self 1 = (bytesRead, bs, self')" by simp
  from Socket_read_todo(3) [OF this] Socket_read_result(1) [OF this] 2 show ?case by simp
qed

definition ByteStream_readUint8 :: "Socket \<Rightarrow> byte option \<times> Socket" where
  "ByteStream_readUint8 self = readUint8_loop self (sk_time self)"

text \<open>\<open>ByteStream_readUint16\<close>: every call of \<open>Socket_read\<close> asks for two bytes, also when one
  byte of the local array \<open>byte[2]\<close> is already filled; a second byte beyond the array is an
  out-of-bounds write, the outer \<open>None\<close>.\<close>

function readUint16_loop :: "Socket \<Rightarrow> nat \<Rightarrow> byte list \<Rightarrow> (byte list \<times> Socket) option" where
  "readUint16_loop self start got =
     (case Socket_read self 2 of (readVal, bs, self') \<Rightarrow>
        if readVal = -1 then Some (got, self')
        else if length got + length bs > 2 then None
        else
          (let got' = got @ bs in
           if length got' < 2 \<and> sk_time self' - start < CONFIG_TCP_READ_TIMEOUT_MS
           then readUint16_loop self' start got'
           else Some (got', self')))"
  by pat_completeness auto
termination
proof (relation "measure (\<lambda>(self, start, got). sk_todo self)", goal_cases)
  case 1
  show ?case by simp
next
  case (2 self start got readVal y bs self' got')
  then have r: "Socket_read self 2 = (readVal, bs, self')" by simp
  have "0 \<le> readVal" using Socket_read_result(1) [OF r] 2 by simp
  moreover from this have "int (length bs) = readVal" using Socket_read_result(2) [OF r] by simp
  moreover have "length bs < 2" using 2 by simp
  ultimately show ?case using Socket_read_todo(3) [OF r] by simp
qed

definition ByteStream_readUint16 :: "Socket \<Rightarrow> (u16 option \<times> Socket) option" where
  "ByteStream_readUint16 self = do {
     (got, self) \<leftarrow> readUint16_loop self (sk_time self) [];
     Some (case got of [a, b] \<Rightarrow> Some (ucast a * 0x100 + ucast b) | _ \<Rightarrow> None, self)
   }"

function skipBytes_loop :: "Socket \<Rightarrow> nat \<Rightarrow> int \<Rightarrow> int \<Rightarrow> int \<times> Socket" where
  "skipBytes_loop self start c number =
     (case Socket_read self 1 of (readBytes, bs, self') \<Rightarrow>
        if readBytes < 0 then (-1, self')
        else if c + readBytes < number \<and> sk_time self' - start < CONFIG_TCP_READ_TIMEOUT_MS
        then skipBytes_loop self' start (c + readBytes) number
        else (c + readBytes, self'))"
  by pat_completeness auto
termination
proof (relation "measure (\<lambda>(self, start, c, number). sk_todo self)", goal_cases)
  case 1
  show ?case by simp
next
  case (2 self start c number readBytes y bs self')
  then have r: "Socket_read self 1 = (readBytes, bs, self')" by simp
  from Socket_read_todo(2,3) [OF r] 2 show ?case by fastforce
qed

definition ByteStream_skipBytes :: "Socket \<Rightarrow> int \<Rightarrow> int \<times> Socket" where
  "ByteStream_skipBytes self number = skipBytes_loop self (sk_time self) 0 number"

text \<open>\<open>ByteStream_readOctets\<close>: the result code, the bytes stored at \<open>buffer\<close>, the socket.\<close>

function readOctets_loop :: "Socket \<Rightarrow> nat \<Rightarrow> byte list \<Rightarrow> int \<Rightarrow> int \<times> byte list \<times> Socket" where
  "readOctets_loop self start got n =
     (case Socket_read self (n - int (length got)) of (chunkSize, bs, self') \<Rightarrow>
        if chunkSize < 0 then (-1, got, self')
        else
          (let got' = got @ bs in
           if int (length got') < n \<and> sk_time self' - start < CONFIG_TCP_READ_TIMEOUT_MS
           then readOctets_loop self' start got' n
           else (int (length got'), got', self')))"
  by pat_completeness auto
termination
proof (relation "measure (\<lambda>(self, start, got, n). sk_todo self)", goal_cases)
  case 1
  show ?case by simp
next
  case (2 self start got n chunkSize y bs self' got')
  then have r: "Socket_read self (n - int (length got)) = (chunkSize, bs, self')" by simp
  have "int (length bs) = chunkSize" using Socket_read_result(2) [OF r] 2 by simp
  with 2 have "chunkSize < n - int (length got)" by simp
  with Socket_read_todo(3) [OF r] 2 show ?case by simp
qed

definition ByteStream_readOctets :: "Socket \<Rightarrow> int \<Rightarrow> int \<times> byte list \<times> Socket" where
  "ByteStream_readOctets self n = readOctets_loop self (sk_time self) [] n"

declare readUint8_loop.simps [simp del] readUint16_loop.simps [simp del]
  skipBytes_loop.simps [simp del] readOctets_loop.simps [simp del]

section \<open>Progress and frame\<close>

text \<open>No read touches what was sent, and the script only gets shorter.\<close>

definition sk_after :: "Socket \<Rightarrow> Socket \<Rightarrow> bool" where
  "sk_after s' s \<longleftrightarrow> sk_todo s' \<le> sk_todo s \<and> sk_out s' = sk_out s \<and> sk_sends s' = sk_sends s"

lemma sk_after_refl [simp, intro]: "sk_after s s"
  by (simp add: sk_after_def)

lemma sk_after_trans [trans]: "sk_after s'' s' \<Longrightarrow> sk_after s' s \<Longrightarrow> sk_after s'' s"
  by (auto simp: sk_after_def)

lemma Socket_read_after: "Socket_read s n = (r, bs, s') \<Longrightarrow> sk_after s' s"
  using Socket_read_todo(1) Socket_read_result(4,5) by (auto simp: sk_after_def)

lemma readUint8_loop_after:
  "readUint8_loop s start = (r, s') \<Longrightarrow> sk_after s' s \<and> (r \<noteq> None \<longrightarrow> sk_todo s' < sk_todo s)"
proof (induction s start rule: readUint8_loop.induct)
  case (1 s start)
  obtain n bs t where read: "Socket_read s 1 = (n, bs, t)" by (metis prod_cases3)
  note after = Socket_read_after [OF read] and todo = Socket_read_todo(2) [OF read]
  show ?case
  proof (cases "n \<noteq> -1 \<and> n < 1 \<and> sk_time t - start < CONFIG_TCP_READ_TIMEOUT_MS")
    case True
    with "1.prems" read have "readUint8_loop t start = (r, s')"
      by (simp add: readUint8_loop.simps [of s])
    with 1 True read have "sk_after s' t \<and> (r \<noteq> None \<longrightarrow> sk_todo s' < sk_todo t)" by simp
    with after show ?thesis by (auto simp: sk_after_def)
  next
    case False
    with "1.prems" read after todo show ?thesis
      by (auto simp: readUint8_loop.simps [of s] split: if_splits)
  qed
qed

lemma readUint8_after:
  "ByteStream_readUint8 s = (r, s') \<Longrightarrow> sk_after s' s \<and> (r \<noteq> None \<longrightarrow> sk_todo s' < sk_todo s)"
  by (simp add: ByteStream_readUint8_def readUint8_loop_after)

lemma readUint16_loop_after: "readUint16_loop s start got = Some (r, s') \<Longrightarrow> sk_after s' s"
proof (induction s start got rule: readUint16_loop.induct)
  case (1 s start got)
  obtain n bs t where read: "Socket_read s 2 = (n, bs, t)" by (metis prod_cases3)
  with 1 Socket_read_after [OF read] show ?case
    by (auto simp: readUint16_loop.simps [of s] Let_def split: if_splits intro: sk_after_trans)
qed

lemma readUint16_after: "ByteStream_readUint16 s = Some (r, s') \<Longrightarrow> sk_after s' s"
  by (auto simp: ByteStream_readUint16_def split: bind_splits dest: readUint16_loop_after)

lemma readOctets_loop_after:
  "readOctets_loop s start got n = (r, bs, s') \<Longrightarrow>
   sk_after s' s \<and> (0 \<le> r \<longrightarrow> r = int (length bs)) \<and> (int (length got) \<le> n \<longrightarrow> int (length bs) \<le> n)"
proof (induction s start got n rule: readOctets_loop.induct)
  case (1 s start got n)
  obtain k cs t where read: "Socket_read s (n - int (length got)) = (k, cs, t)" by (metis prod_cases3)
  note after = Socket_read_after [OF read] and result = Socket_read_result(2) [OF read]
  show ?case
  proof (cases "0 \<le> k \<and> int (length (got @ cs)) < n \<and> sk_time t - start < CONFIG_TCP_READ_TIMEOUT_MS")
    case True
    with "1.prems" read have "readOctets_loop t start (got @ cs) n = (r, bs, s')"
      by (simp add: readOctets_loop.simps [of s])
    with 1 True read have "sk_after s' t \<and> (0 \<le> r \<longrightarrow> r = int (length bs)) \<and> int (length bs) \<le> n"
      by auto
    with after show ?thesis by (auto intro: sk_after_trans)
  next
    case False
    with "1.prems" read after result show ?thesis
      by (auto simp: readOctets_loop.simps [of s] Let_def split: if_splits)
  qed
qed

lemma readOctets_after:
  "ByteStream_readOctets s n = (r, bs, s') \<Longrightarrow>
   sk_after s' s \<and> (0 \<le> r \<longrightarrow> r = int (length bs)) \<and> (0 \<le> n \<longrightarrow> int (length bs) \<le> n)"
  using readOctets_loop_after [of s "sk_time s" "[]" n r bs s'] by (simp add: ByteStream_readOctets_def)

section \<open>Reading data that is at hand\<close>

text \<open>\<open>at_hand s bs es\<close>: the next read finds the bytes \<open>bs\<close>, and after them comes \<open>es\<close>.\<close>

definition at_hand :: "Socket \<Rightarrow> byte list \<Rightarrow> net_event list \<Rightarrow> bool" where
  "at_hand s bs es \<longleftrightarrow>
     (if bs = [] then sk_events s = es else \<exists>ms. sk_events s = Ev ms (Got bs) # es)"

lemma Socket_read_at_hand:
  assumes "at_hand s (xs @ ys) es" and "xs \<noteq> []" and "n = int (length xs)"
  shows "\<exists>s'. Socket_read s n = (n, xs, s') \<and> at_hand s' ys es \<and> sk_after s' s"
proof -
  obtain ms where "sk_events s = Ev ms (Got (xs @ ys)) # es"
    using assms(1,2) by (auto simp: at_hand_def)
  moreover define s' where "s' = snd (snd (Socket_read s n))"
  ultimately have s': "Socket_read s n = (n, xs, s')" "at_hand s' ys es"
    using assms(2,3) by (cases "ys = []"; simp add: Socket_read_def Let_def at_hand_def)+
  with Socket_read_after [OF s'(1)] show ?thesis by blast
qed

lemma readUint8_at_hand:
  assumes "at_hand s (b # bs) es"
  shows "\<exists>s'. ByteStream_readUint8 s = (Some b, s') \<and> at_hand s' bs es \<and> sk_after s' s"
  using Socket_read_at_hand [of s "[b]" bs es 1] assms
  by (auto simp: ByteStream_readUint8_def readUint8_loop.simps [of s])

lemma readUint16_at_hand:
  assumes "at_hand s (a # b # bs) es"
  shows "\<exists>s'. ByteStream_readUint16 s = Some (Some (ucast a * 0x100 + ucast b), s') \<and>
           at_hand s' bs es \<and> sk_after s' s"
  using Socket_read_at_hand [of s "[a, b]" bs es 2] assms
  by (auto simp: ByteStream_readUint16_def readUint16_loop.simps [of s])

lemma readOctets_at_hand:
  assumes "at_hand s (xs @ ys) es" and "n = int (length xs)"
  shows "\<exists>s'. ByteStream_readOctets s n = (n, xs, s') \<and> at_hand s' ys es \<and> sk_after s' s"
proof (cases "xs = []")
  case True
  with assms show ?thesis
    by (auto simp: ByteStream_readOctets_def readOctets_loop.simps [of s] Socket_read_def)
next
  case False
  with Socket_read_at_hand [OF assms(1) False assms(2)] assms(2) show ?thesis
    by (auto simp: ByteStream_readOctets_def readOctets_loop.simps [of s])
qed

section \<open>Segmented delivery\<close>

definition chunk_events :: "(nat \<times> byte list) list \<Rightarrow> net_event list" where
  "chunk_events chunks = map (\<lambda>(ms, bs). Ev ms (Got bs)) chunks"

lemma chunk_events_simps [simp]:
  "chunk_events [] = []" "chunk_events ((ms, bs) # cs) = Ev ms (Got bs) # chunk_events cs"
  by (simp_all add: chunk_events_def)

lemma readOctets_loop_chunks:
  assumes "sk_events s = chunk_events chunks @ es" and "chunks \<noteq> []"
    and "\<forall>c\<in>set chunks. snd c \<noteq> []"
    and "n = int (length got + length (concat (map snd chunks)))"
    and "start \<le> sk_time s"
    and "sk_time s + sum_list (map fst chunks) < start + CONFIG_TCP_READ_TIMEOUT_MS"
  shows "readOctets_loop s start got n =
    (n, got @ concat (map snd chunks),
     s\<lparr>sk_events := es, sk_time := sk_time s + sum_list (map fst chunks)\<rparr>)"
  using assms
proof (induction chunks arbitrary: s got)
  case Nil
  then show ?case by simp
next
  case (Cons c cs)
  obtain ms bs where c: "c = (ms, bs)" by fastforce
  let ?t = "s\<lparr>sk_events := chunk_events cs @ es, sk_time := sk_time s + ms\<rparr>"
  have read: "Socket_read s (n - int (length got)) = (int (length bs), bs, ?t)"
    using Cons.prems c by (auto simp: Socket_read_def Let_def)
  show ?case
  proof (cases "cs = []")
    case True
    with read Cons.prems c show ?thesis by (simp add: readOctets_loop.simps [of s])
  next
    case False
    then have "concat (map snd cs) \<noteq> []" using Cons.prems(3) by (cases cs) auto
    with Cons.prems(4) c have "int (length (got @ bs)) < n" by simp
    moreover have "sk_time ?t - start < CONFIG_TCP_READ_TIMEOUT_MS" using Cons.prems(5,6) c by simp
    ultimately have "readOctets_loop s start got n = readOctets_loop ?t start (got @ bs) n"
      using read by (simp add: readOctets_loop.simps [of s])
    also have "\<dots> = (n, (got @ bs) @ concat (map snd cs),
        ?t\<lparr>sk_events := es, sk_time := sk_time ?t + sum_list (map fst cs)\<rparr>)"
      using Cons.prems c False by (intro Cons.IH) auto
    finally show ?thesis using c by (simp add: ac_simps)
  qed
qed

text \<open>However the network splits the data into chunks, \<open>ByteStream_readOctets\<close> returns
  exactly the requested bytes in order and consumes exactly those chunks, provided they arrive
  within the read timeout.\<close>

theorem readOctets_chunking:
  assumes "sk_events s = chunk_events chunks @ es" and "chunks \<noteq> []"
    and "\<forall>c\<in>set chunks. snd c \<noteq> []"
    and "sum_list (map fst chunks) < CONFIG_TCP_READ_TIMEOUT_MS"
  shows "ByteStream_readOctets s (int (length (concat (map snd chunks)))) =
    (int (length (concat (map snd chunks))), concat (map snd chunks),
     s\<lparr>sk_events := es, sk_time := sk_time s + sum_list (map fst chunks)\<rparr>)"
  using readOctets_loop_chunks [OF assms(1,2,3), of _ "[]" "sk_time s"] assms(4)
  by (simp add: ByteStream_readOctets_def)

theorem readOctets_chunking_witness:
  "ByteStream_readOctets
     \<lparr>sk_events = [Ev 5 (Got [1]), Ev 20 (Got [2, 3]), Ev 0 Failure], sk_time = 7, sk_sends = [], sk_out = []\<rparr> 3
   = (3, [1, 2, 3], \<lparr>sk_events = [Ev 0 Failure], sk_time = 32, sk_sends = [], sk_out = []\<rparr>)"
  using readOctets_chunking [of "\<lparr>sk_events = [Ev 5 (Got [1]), Ev 20 (Got [2, 3]), Ev 0 Failure],
      sk_time = 7, sk_sends = [], sk_out = []\<rparr>" "[(5, [1]), (20, [2, 3])]" "[Ev 0 Failure]"]
  by (simp add: CONFIG_TCP_READ_TIMEOUT_MS_def)

text \<open>\<open>ByteStream_readUint16\<close> asks the socket for two bytes on every round: when the first
  round delivers one byte and the second finds at least two, the second one is written behind
  the two-byte local array; only when the second round finds a single byte is the big-endian
  value returned.\<close>

theorem readUint16_split_delivery:
  assumes "sk_events s = Ev ms (Got [a]) # Ev ms' (Got (b # bs)) # es"
    and "ms < CONFIG_TCP_READ_TIMEOUT_MS"
  shows "ByteStream_readUint16 s =
    (if bs = []
     then Some (Some (ucast a * 0x100 + ucast b),
                s\<lparr>sk_events := es, sk_time := sk_time s + ms + ms'\<rparr>)
     else None)"
proof -
  let ?t = "s\<lparr>sk_events := Ev ms' (Got (b # bs)) # es, sk_time := sk_time s + ms\<rparr>"
  have "Socket_read s 2 = (1, [a], ?t)"
    using assms(1) by (simp add: Socket_read_def Let_def)
  then have first: "readUint16_loop s (sk_time s) [] = readUint16_loop ?t (sk_time s) [a]"
    using assms(2) by (simp add: readUint16_loop.simps [of s])
  show ?thesis
  proof (cases bs)
    case Nil
    then have "Socket_read ?t 2 = (1, [b], s\<lparr>sk_events := es, sk_time := sk_time s + ms + ms'\<rparr>)"
      by (simp add: Socket_read_def Let_def)
    then have "readUint16_loop ?t (sk_time s) [a] =
        Some ([a, b], s\<lparr>sk_events := es, sk_time := sk_time s + ms + ms'\<rparr>)"
      by (simp add: readUint16_loop.simps [of ?t])
    with first Nil show ?thesis by (simp add: ByteStream_readUint16_def)
  next
    case (Cons c cs)
    then have "\<exists>t'. Socket_read ?t 2 = (2, [b, c], t')"
      by (cases cs) (simp_all add: Socket_read_def Let_def numeral_2_eq_2)
    then obtain t' where "Socket_read ?t 2 = (2, [b, c], t')" ..
    then have "readUint16_loop ?t (sk_time s) [a] = None"
      by (simp add: readUint16_loop.simps [of ?t])
    with first Cons show ?thesis by (simp add: ByteStream_readUint16_def)
  qed
qed

theorem readUint16_split_delivery_witness:
  "ByteStream_readUint16
     \<lparr>sk_events = [Ev 1 (Got [3]), Ev 1 (Got [0, 0, 22])], sk_time = 0, sk_sends = [], sk_out = []\<rparr>
   = None"
  using readUint16_split_delivery [of "\<lparr>sk_events = [Ev 1 (Got [3]), Ev 1 (Got [0, 0, 22])],
      sk_time = 0, sk_sends = [], sk_out = []\<rparr>" 1 3 1 0 "[0, 22]" "[]"]
  by (simp add: CONFIG_TCP_READ_TIMEOUT_MS_def)

end
