(* ===== verification/Ber_Oid.thy ===== *)
theory Ber_Oid
  imports C_Prelude
begin

text \<open>
  Object identifiers (\<open>BerEncoder_encodeOIDToBuffer\<close> of
  \<open>src/src/mms/asn1/ber_encoder.c\<close>) with the string functions of the C library it uses.
  A C string is the list of its characters before the terminating zero.
\<close>

section \<open>atoi and strchr\<close>

definition isspace_c :: "char \<Rightarrow> bool" where
  "isspace_c c \<longleftrightarrow> of_char c \<in> {32 :: nat, 9, 10, 11, 12, 13}"

definition isdigit_c :: "char \<Rightarrow> bool" where
  "isdigit_c c \<longleftrightarrow> (48 :: nat) \<le> of_char c \<and> of_char c \<le> (57 :: nat)"

definition digits_value :: "string \<Rightarrow> nat" where
  "digits_value ds = foldl (\<lambda>v c. v * 10 + (of_char c - 48)) 0 ds"

text \<open>\<open>atoi\<close>: a value outside the range of \<open>int\<close> is undefined behaviour.\<close>

definition atoi :: "string \<Rightarrow> int option" where
  "atoi s =
     (let s = dropWhile isspace_c s;
          neg = (s \<noteq> [] \<and> hd s = CHR ''-'');
          s = (if s \<noteq> [] \<and> (hd s = CHR ''-'' \<or> hd s = CHR ''+'') then tl s else s);
          v = int (digits_value (takeWhile isdigit_c s))
      in chk_int (if neg then - v else v))"

text \<open>\<open>strchr(s, c)\<close>: the rest of \<open>s\<close> from the first \<open>c\<close> on.\<close>

definition strchr :: "string \<Rightarrow> char \<Rightarrow> string option" where
  "strchr s c = (case dropWhile (\<lambda>x. x \<noteq> c) s of [] \<Rightarrow> None | t \<Rightarrow> Some t)"

section \<open>BerEncoder\_encodeOIDToBuffer\<close>

text \<open>\<open>while (val2 > 0) { requiredBytes++; val2 = val2 >> 7; }\<close>\<close>

function requiredBytes :: "int \<Rightarrow> nat" where
  "requiredBytes val2 = (if val2 > 0 then Suc (requiredBytes (drop_bit 7 val2)) else 0)"
  by auto
termination
  by (relation "measure nat") (auto simp: drop_bit_eq_div)

declare requiredBytes.simps [simp del]

text \<open>The inner loop writes the 7-bit groups, most significant first; \<open>None\<close> in the result is
  the early \<open>return 0\<close>.\<close>

fun writeArc :: "nat \<Rightarrow> int \<Rightarrow> int \<Rightarrow> wbuf \<Rightarrow> (wbuf option \<times> byte list) option" where
  "writeArc 0 val maxBufLen w = Some (Some w, fst w)"
| "writeArc (Suc n) val maxBufLen w =
     (let val2 = drop_bit (7 * n) val AND 0x7f;
          val2 = (if Suc n > 1 then val2 + 128 else val2)
      in if int (snd w) = maxBufLen then Some (None, fst w)
         else do {
           w \<leftarrow> emit (word_of_int val2) w;
           writeArc n val maxBufLen w
         })"

lemma strchr_shorter:
  assumes "strchr (tl s) c = Some t"
  shows "length t < length s"
proof -
  have "t = dropWhile (\<lambda>x. x \<noteq> c) (tl s)" "t \<noteq> []"
    using assms by (auto simp: strchr_def split: list.splits)
  then show ?thesis using length_dropWhile_le [of "\<lambda>x. x \<noteq> c" "tl s"] by (cases s) auto
qed

function encodeOID_loop :: "string \<Rightarrow> int \<Rightarrow> wbuf \<Rightarrow> (int \<times> byte list) option" where
  "encodeOID_loop separator maxBufLen w =
     (case strchr (tl separator) CHR ''.'' of
        None \<Rightarrow> Some (int (snd w), fst w)
      | Some separator \<Rightarrow> do {
          val \<leftarrow> atoi (tl separator);
          (w, buffer) \<leftarrow> writeArc (requiredBytes val) val maxBufLen w;
          (case w of
             None \<Rightarrow> Some (0, buffer)
           | Some w \<Rightarrow> encodeOID_loop separator maxBufLen w)
        })"
  by pat_completeness auto
termination
  by (relation "measure (\<lambda>(s, m, w). length s)") (auto dest: strchr_shorter)

declare encodeOID_loop.simps [simp del]

definition BerEncoder_encodeOIDToBuffer ::
  "string \<Rightarrow> byte list \<Rightarrow> int \<Rightarrow> (int \<times> byte list) option" where
  "BerEncoder_encodeOIDToBuffer oidString buffer maxBufLen = do {
     x \<leftarrow> atoi oidString;
     (case strchr oidString CHR ''.'' of
        None \<Rightarrow> Some (0, buffer)
      | Some separator \<Rightarrow> do {
          y \<leftarrow> atoi (tl separator);
          x40 \<leftarrow> chk_int (x * 40);
          val \<leftarrow> add_int x40 y;
          if 0 < maxBufLen then do {
            w \<leftarrow> emit (word_of_int val) (buffer, 0);
            encodeOID_loop separator maxBufLen w
          }
          else Some (0, buffer)
        })
   }"

section \<open>Decimal notation\<close>

text \<open>The textual form of an object identifier, and the arcs that a BER content denotes.\<close>

fun dec :: "nat \<Rightarrow> string" where
  "dec n = (if n < 10 then [char_of (48 + n)] else dec (n div 10) @ [char_of (48 + n mod 10)])"

declare dec.simps [simp del]

primrec dotted :: "nat list \<Rightarrow> string" where
  "dotted [] = []"
| "dotted (a # as) = CHR ''.'' # dec a @ dotted as"

definition oid_string :: "nat \<Rightarrow> nat list \<Rightarrow> string" where
  "oid_string x ys = dec x @ dotted ys"

fun oid_arcs :: "nat \<Rightarrow> byte list \<Rightarrow> nat list" where
  "oid_arcs a [] = []"
| "oid_arcs a (b # bs) =
     (if unat b \<ge> 128 then oid_arcs (a * 128 + unat b - 128) bs
      else (a * 128 + unat b) # oid_arcs 0 bs)"

fun oid_decode :: "byte list \<Rightarrow> nat list" where
  "oid_decode [] = []"
| "oid_decode (b # bs) =
     (let x = min 2 (unat b div 40) in x # (unat b - 40 * x) # oid_arcs 0 bs)"

lemma dec_digits: "\<forall>c\<in>set (dec n). isdigit_c c \<and> \<not> isspace_c c \<and> c \<noteq> CHR ''-'' \<and> c \<noteq> CHR ''+'' \<and> c \<noteq> CHR ''.''"
proof (induction n rule: dec.induct)
  case (1 n)
  have digit: "isdigit_c (char_of (48 + k)) \<and> \<not> isspace_c (char_of (48 + k)) \<and>
      char_of (48 + k) \<noteq> CHR ''-'' \<and> char_of (48 + k) \<noteq> CHR ''+'' \<and> char_of (48 + k) \<noteq> CHR ''.''"
    if "k < 10" for k :: nat
  proof -
    have "(of_char (char_of (48 + k)) :: nat) = 48 + k" using that by simp
    moreover have "(of_char CHR ''-'' :: nat) = 45" "(of_char CHR ''+'' :: nat) = 43"
      "(of_char CHR ''.'' :: nat) = 46" by simp_all
    ultimately have "char_of (48 + k) \<noteq> CHR ''-''" "char_of (48 + k) \<noteq> CHR ''+''"
      "char_of (48 + k) \<noteq> CHR ''.''" by (intro notI; simp)+
    moreover have "(of_char (char_of (48 + k)) :: nat) = 48 + k" using that by simp
    ultimately show ?thesis using that by (simp add: isdigit_c_def isspace_c_def)
  qed
  show ?case
  proof (cases "n < 10")
    case True
    then show ?thesis using digit [of n] by (simp add: dec.simps [of n])
  next
    case False
    then show ?thesis using digit [of "n mod 10"] 1 by (simp add: dec.simps [of n] ball_Un)
  qed
qed

lemma dec_nonempty [simp]: "dec n \<noteq> []"
  by (simp add: dec.simps [of n])

lemma digits_value_dec [simp]: "digits_value (dec n) = n"
proof (induction n rule: dec.induct)
  case (1 n)
  then show ?case by (cases "n < 10") (simp_all add: dec.simps [of n] digits_value_def)
qed

definition dot_or_end :: "string \<Rightarrow> bool" where
  "dot_or_end s \<longleftrightarrow> s = [] \<or> hd s = CHR ''.''"

lemma dot_or_end_dotted [simp]: "dot_or_end (dotted as)"
  by (cases as) (simp_all add: dot_or_end_def)

lemma atoi_dec:
  assumes "dot_or_end rest" and "int n \<le> INT_MAX"
  shows "atoi (dec n @ rest) = Some (int n)"
proof -
  obtain c cs where dc: "dec n = c # cs" by (cases "dec n") auto
  have c: "\<not> isspace_c c" "c \<noteq> CHR ''-''" "c \<noteq> CHR ''+''"
    using dec_digits [of n] dc by auto
  have "\<not> isdigit_c CHR ''.''" by (simp add: isdigit_c_def)
  with assms(1) have "takeWhile isdigit_c rest = []"
    by (cases rest) (auto simp: dot_or_end_def)
  then have "takeWhile isdigit_c (dec n @ rest) = dec n"
    using dec_digits [of n] by (subst takeWhile_append2) auto
  then have tw: "takeWhile isdigit_c (c # cs @ rest) = dec n" using dc by simp
  then show ?thesis using c assms(2) dc digits_value_dec [of n]
    by (simp add: atoi_def Let_def del: takeWhile.simps digits_value_dec)
qed

lemma strchr_dec: "strchr (dec n @ dotted as) CHR ''.'' =
    (case as of [] \<Rightarrow> None | _ \<Rightarrow> Some (dotted as))"
proof -
  have "dropWhile (\<lambda>x. x \<noteq> CHR ''.'') (dec n @ dotted as) = dropWhile (\<lambda>x. x \<noteq> CHR ''.'') (dotted as)"
    using dec_digits [of n] by (subst dropWhile_append2) auto
  then show ?thesis by (cases as) (simp_all only: strchr_def dotted.simps, simp_all)
qed

section \<open>The groups of an arc\<close>

primrec oid_octets :: "nat \<Rightarrow> nat \<Rightarrow> byte list" where
  "oid_octets 0 v = []"
| "oid_octets (Suc n) v = of_nat (v div 128 ^ n mod 128 + (if n > 0 then 128 else 0)) # oid_octets n v"

definition oid_arc_bytes :: "nat \<Rightarrow> byte list" where
  "oid_arc_bytes v = oid_octets (requiredBytes (int v)) v"

lemma length_oid_octets [simp]: "length (oid_octets n v) = n"
  by (induction n) simp_all

lemma group_value: "drop_bit (7 * n) (int v) AND 127 = int (v div 128 ^ n mod 128)"
proof -
  have "drop_bit (7 * n) (int v) = int (v div 128 ^ n)"
    by (simp add: drop_bit_eq_div power_mult zdiv_int)
  moreover have "x AND 127 = x mod 128" for x :: int
    using take_bit_eq_mask [of 7 x] by (simp add: take_bit_eq_mod mask_eq_exp_minus_1)
  ultimately show ?thesis by (simp add: zmod_int)
qed

lemma writeArc_fits:
  "bufPos + n \<le> length buffer \<Longrightarrow> int (bufPos + n) \<le> maxBufLen \<Longrightarrow>
   writeArc n (int v) maxBufLen (buffer, bufPos) =
     emits (oid_octets n v) (buffer, bufPos) \<bind> (\<lambda>w. Some (Some w, fst w))"
proof (induction n arbitrary: buffer bufPos)
  case 0
  then show ?case by simp
next
  case (Suc n)
  then show ?case
    by (simp add: group_value emit_def emits.simps(2))
qed

lemma requiredBytes_bound: "v < 128 ^ requiredBytes (int v)"
proof (induction v rule: less_induct)
  case (less v)
  show ?case
  proof (cases "v = 0")
    case False
    then have "v div 128 < 128 ^ requiredBytes (int (v div 128))" by (intro less) simp
    then show ?thesis
      using False by (simp add: requiredBytes.simps [of "int v"] drop_bit_eq_div zdiv_int less_mult_imp_div_less
          div_less_iff_less_mult mult.commute)
  qed simp
qed

lemma requiredBytes_0 [simp]: "requiredBytes 0 = 0"
  by (simp add: requiredBytes.simps)

lemma requiredBytes_pos: "0 < v \<Longrightarrow> 0 < requiredBytes v"
  by (simp add: requiredBytes.simps)

lemma oid_arcs_octets:
  "oid_arcs a (oid_octets (Suc n) v @ bs) = (a * 128 ^ Suc n + v mod 128 ^ Suc n) # oid_arcs 0 bs"
proof (induction n arbitrary: a)
  case 0
  have "unat (of_nat (v mod 128) :: byte) = v mod 128" by (simp add: unat_of_nat)
  then show ?case by simp
next
  case (Suc n)
  let ?d = "v div 128 ^ Suc n mod 128"
  have "?d < 128" by simp
  then have u: "unat (of_nat (?d + 128) :: byte) = ?d + 128"
    by (simp only: unat_of_nat) simp
  have "oid_arcs a (oid_octets (Suc (Suc n)) v @ bs) = oid_arcs (a * 128 + ?d) (oid_octets (Suc n) v @ bs)"
    using u by (simp only: oid_octets.simps(2) [of "Suc n"] append_Cons oid_arcs.simps) simp
  also have "\<dots> = ((a * 128 + ?d) * 128 ^ Suc n + v mod 128 ^ Suc n) # oid_arcs 0 bs" by (rule Suc)
  also have "(a * 128 + ?d) * 128 ^ Suc n + v mod 128 ^ Suc n =
      a * 128 ^ Suc (Suc n) + (128 ^ Suc n * ?d + v mod 128 ^ Suc n)" by (simp add: algebra_simps)
  also have "128 ^ Suc n * ?d + v mod 128 ^ Suc n = v mod 128 ^ Suc (Suc n)"
    using mod_mult2_eq [of v "128 ^ Suc n" 128] by (simp add: mult.commute)
  finally show ?case .
qed

lemma oid_arcs_arc: "0 < v \<Longrightarrow> oid_arcs 0 (oid_arc_bytes v @ bs) = v # oid_arcs 0 bs"
  using requiredBytes_pos [of "int v"] requiredBytes_bound [of v] oid_arcs_octets [of 0 "requiredBytes (int v) - 1" v bs]
  by (simp add: oid_arc_bytes_def)

lemma oid_arcs_all:
  "oid_arcs 0 (concat (map oid_arc_bytes as)) = filter (\<lambda>a. a \<noteq> 0) as"
proof (induction as)
  case (Cons a as)
  then show ?case by (cases "a = 0") (simp_all add: oid_arcs_arc oid_arc_bytes_def [of 0])
qed simp

lemma encodeOID_loop_eq:
  assumes "\<forall>a\<in>set as. int a \<le> INT_MAX"
    and "bufPos + length (concat (map oid_arc_bytes as)) \<le> length buffer"
    and "int (bufPos + length (concat (map oid_arc_bytes as))) \<le> maxBufLen"
  shows "encodeOID_loop (CHR ''.'' # dec y @ dotted as) maxBufLen (buffer, bufPos) =
    emits (concat (map oid_arc_bytes as)) (buffer, bufPos) \<bind> (\<lambda>w. Some (int (snd w), fst w))"
  using assms
proof (induction as arbitrary: y buffer bufPos)
  case Nil
  show ?case by (simp add: encodeOID_loop.simps strchr_dec [of y "[]", simplified])
next
  case (Cons a as)
  let ?n = "requiredBytes (int a)"
  let ?buffer = "take bufPos buffer @ oid_arc_bytes a @ drop (bufPos + ?n) buffer"
  have len: "length (oid_arc_bytes a) = ?n" by (simp add: oid_arc_bytes_def)
  have fits: "bufPos + ?n \<le> length buffer" "int (bufPos + ?n) \<le> maxBufLen"
    using Cons.prems(2,3) len by simp_all
  have e: "emits (oid_arc_bytes a) (buffer, bufPos) = Some (?buffer, bufPos + ?n)"
    using fits(1) len emits_Some [of bufPos "oid_arc_bytes a" buffer] by simp
  have w: "writeArc ?n (int a) maxBufLen (buffer, bufPos) = Some (Some (?buffer, bufPos + ?n), ?buffer)"
    using writeArc_fits [OF fits, of a] e by (simp add: oid_arc_bytes_def)
  have "strchr (dec y @ dotted (a # as)) CHR ''.'' = Some (dotted (a # as))"
    using strchr_dec [of y "a # as"] by simp
  moreover have "atoi (dec a @ dotted as) = Some (int a)"
    using Cons.prems(1) by (intro atoi_dec) simp_all
  ultimately have "encodeOID_loop (CHR ''.'' # dec y @ dotted (a # as)) maxBufLen (buffer, bufPos) =
      encodeOID_loop (CHR ''.'' # dec a @ dotted as) maxBufLen (?buffer, bufPos + ?n)"
    using w by (simp add: encodeOID_loop.simps [of "CHR ''.'' # dec y @ x" for x])
  also have "\<dots> = emits (concat (map oid_arc_bytes as)) (?buffer, bufPos + ?n)
      \<bind> (\<lambda>w. Some (int (snd w), fst w))"
    using Cons.prems fits(1) len by (intro Cons.IH) simp_all
  finally show ?case using e by (simp add: emits_append)
qed

text \<open>encoding the textual form of an object identifier yields BER content octets that
  denote the same identifier, except that every arc of value 0 behind the second one is lost:
  its loop writes no octet at all.\<close>

theorem oid_encoding:
  assumes "x \<le> 2" and "x < 2 \<longrightarrow> y < 40" and "x * 40 + y < 256"
    and "\<forall>a\<in>set as. int a \<le> INT_MAX"
    and "1 + length (concat (map oid_arc_bytes as)) \<le> nat maxBufLen"
    and "maxBufLen \<le> int (length buffer)"
  shows "\<exists>n buffer'. BerEncoder_encodeOIDToBuffer (oid_string x (y # as)) buffer maxBufLen = Some (n, buffer') \<and>
    oid_decode (take (nat n) buffer') = x # y # filter (\<lambda>a. a \<noteq> 0) as"
proof -
  let ?b = "of_nat (x * 40 + y) :: byte"
  let ?bs = "concat (map oid_arc_bytes as)"
  have u: "unat ?b = x * 40 + y" using assms(3) by (simp only: unat_of_nat) simp
  have ub: "word_of_int (int x * 40 + int y) = ?b" by simp
  have x2: "min 2 (unat ?b div 40) = x"
    unfolding u using assms(1,2) by (cases "x = 2") (auto simp: div_add1_eq)
  have s: "strchr (oid_string x (y # as)) CHR ''.'' = Some (CHR ''.'' # dec y @ dotted as)"
    using strchr_dec [of x "y # as"] by (simp add: oid_string_def)
  have len: "Suc (length ?bs) \<le> length buffer" "0 < maxBufLen"
    using assms(5,6) by linarith+
  then obtain b0 buffer0 where buf: "buffer = b0 # buffer0" by (cases buffer) auto
  have "atoi (oid_string x (y # as)) = Some (int x)" "atoi (dec y @ dotted as) = Some (int y)"
    using assms(1,3) atoi_dec [OF dot_or_end_dotted [of "y # as"], of x]
      atoi_dec [OF dot_or_end_dotted [of as], of y]
    by (simp_all add: oid_string_def)
  then have "BerEncoder_encodeOIDToBuffer (oid_string x (y # as)) buffer maxBufLen =
      encodeOID_loop (CHR ''.'' # dec y @ dotted as) maxBufLen (?b # buffer0, 1)"
    using s assms(1,3) len(2) buf ub by (simp add: BerEncoder_encodeOIDToBuffer_def emit_def)
  also have "\<dots> = emits ?bs (?b # buffer0, 1) \<bind> (\<lambda>w. Some (int (snd w), fst w))"
    using assms(4,5) len buf by (intro encodeOID_loop_eq) auto
  also have "\<dots> = Some (int (1 + length ?bs), ?b # ?bs @ drop (length ?bs) buffer0)"
    using len buf by (simp add: emits_Some)
  finally show ?thesis
    using u x2 oid_arcs_all [of as] by (auto simp: Let_def nat_add_distrib)
qed

theorem oid_encoding_witness:
  "\<exists>n buffer'. BerEncoder_encodeOIDToBuffer (oid_string 1 [1, 999, 0, 1]) (replicate 10 0) 10 = Some (n, buffer') \<and>
    oid_decode (take (nat n) buffer') = [1, 1, 999, 1]"
proof -
  have "length (concat (map oid_arc_bytes [999, 0, 1])) = 3" by code_simp
  then show ?thesis
    using oid_encoding [of 1 1 "[999, 0, 1]" 10 "replicate 10 0"] by simp
qed

end
