(* ===== verification/Iso_Parameters.thy ===== *)
theory Iso_Parameters
  imports Ber_Oid
begin

text \<open>
  \<open>src/src/mms/iso_common/iso_connection_parameters.c\<close>: the addresses and the
  authentication parameter that a client hands to the layers of the stack.
\<close>

datatype AcseAuthenticationMechanism = ACSE_AUTH_NONE | ACSE_AUTH_PASSWORD

record AcseAuthenticationParameter =
  ap_mechanism :: AcseAuthenticationMechanism
  ap_octetString :: "byte list option"
  ap_passwordLength :: int

record IsoConnectionParameters =
  ip_acseAuthParameter :: "AcseAuthenticationParameter option"
  ip_hostname :: "string option"
  ip_tcpPort :: int
  ip_remoteApTitle :: "byte list"
  ip_remoteApTitleLen :: int
  ip_remoteAEQualifier :: int
  ip_remotePSelector :: u32
  ip_remoteSSelector :: u16
  ip_remoteTSelector :: u16
  ip_localApTitle :: "byte list"
  ip_localApTitleLen :: int
  ip_localAEQualifier :: int
  ip_localPSelector :: u32
  ip_localSSelector :: u16
  ip_localTSelector :: u16

definition AcseAuthenticationParameter_create :: AcseAuthenticationParameter where
  "AcseAuthenticationParameter_create =
     \<lparr>ap_mechanism = ACSE_AUTH_NONE, ap_octetString = None, ap_passwordLength = 0\<rparr>"

text \<open>The copy of the password keeps its terminating zero; \<open>passwordLength\<close> does not count it.\<close>

definition AcseAuthenticationParameter_setPassword ::
  "AcseAuthenticationParameter \<Rightarrow> string \<Rightarrow> AcseAuthenticationParameter" where
  "AcseAuthenticationParameter_setPassword self password =
     self\<lparr>ap_octetString := Some (map of_char password @ [0]),
          ap_passwordLength := int (length password)\<rparr>"

definition AcseAuthenticationParameter_setAuthMechanism ::
  "AcseAuthenticationParameter \<Rightarrow> AcseAuthenticationMechanism \<Rightarrow> AcseAuthenticationParameter" where
  "AcseAuthenticationParameter_setAuthMechanism self mechanism = self\<lparr>ap_mechanism := mechanism\<rparr>"

definition IsoConnectionParameters_create :: IsoConnectionParameters where
  "IsoConnectionParameters_create =
     \<lparr>ip_acseAuthParameter = None, ip_hostname = None, ip_tcpPort = 0,
      ip_remoteApTitle = replicate 10 0, ip_remoteApTitleLen = 0, ip_remoteAEQualifier = 0,
      ip_remotePSelector = 0, ip_remoteSSelector = 0, ip_remoteTSelector = 0,
      ip_localApTitle = replicate 10 0, ip_localApTitleLen = 0, ip_localAEQualifier = 0,
      ip_localPSelector = 0, ip_localSSelector = 0, ip_localTSelector = 0\<rparr>"

definition IsoConnectionParameters_setAcseAuthenticationParameter ::
  "IsoConnectionParameters \<Rightarrow> AcseAuthenticationParameter option \<Rightarrow> IsoConnectionParameters" where
  "IsoConnectionParameters_setAcseAuthenticationParameter self acseAuthParameter =
     self\<lparr>ip_acseAuthParameter := acseAuthParameter\<rparr>"

definition IsoConnectionParameters_setTcpParameters ::
  "IsoConnectionParameters \<Rightarrow> string option \<Rightarrow> int \<Rightarrow> IsoConnectionParameters" where
  "IsoConnectionParameters_setTcpParameters self hostname tcpPort =
     self\<lparr>ip_hostname := hostname, ip_tcpPort := tcpPort\<rparr>"

definition IsoConnectionParameters_setRemoteApTitle ::
  "IsoConnectionParameters \<Rightarrow> string option \<Rightarrow> int \<Rightarrow> IsoConnectionParameters option" where
  "IsoConnectionParameters_setRemoteApTitle self apTitle aeQualifier =
     (case apTitle of
        None \<Rightarrow> Some (self\<lparr>ip_remoteApTitleLen := 0\<rparr>)
      | Some apTitle \<Rightarrow> do {
          (n, buffer) \<leftarrow> BerEncoder_encodeOIDToBuffer apTitle (ip_remoteApTitle self) 10;
          Some (self\<lparr>ip_remoteApTitle := buffer, ip_remoteApTitleLen := n,
                     ip_remoteAEQualifier := aeQualifier\<rparr>)
        })"

definition IsoConnectionParameters_setRemoteAddresses ::
  "IsoConnectionParameters \<Rightarrow> u32 \<Rightarrow> u16 \<Rightarrow> u16 \<Rightarrow> IsoConnectionParameters" where
  "IsoConnectionParameters_setRemoteAddresses self pSelector sSelector tSelector =
     self\<lparr>ip_remotePSelector := pSelector, ip_remoteSSelector := sSelector,
          ip_remoteTSelector := tSelector\<rparr>"

definition IsoConnectionParameters_setLocalApTitle ::
  "IsoConnectionParameters \<Rightarrow> string option \<Rightarrow> int \<Rightarrow> IsoConnectionParameters option" where
  "IsoConnectionParameters_setLocalApTitle self apTitle aeQualifier =
     (case apTitle of
        None \<Rightarrow> Some (self\<lparr>ip_localApTitleLen := 0\<rparr>)
      | Some apTitle \<Rightarrow> do {
          (n, buffer) \<leftarrow> BerEncoder_encodeOIDToBuffer apTitle (ip_localApTitle self) 10;
          Some (self\<lparr>ip_localApTitle := buffer, ip_localApTitleLen := n,
                     ip_localAEQualifier := aeQualifier\<rparr>)
        })"

definition IsoConnectionParameters_setLocalAddresses ::
  "IsoConnectionParameters \<Rightarrow> u32 \<Rightarrow> u16 \<Rightarrow> u16 \<Rightarrow> IsoConnectionParameters" where
  "IsoConnectionParameters_setLocalAddresses self pSelector sSelector tSelector =
     self\<lparr>ip_localPSelector := pSelector, ip_localSSelector := sSelector,
          ip_localTSelector := tSelector\<rparr>"

end
