(* ===== verification/Cotp.thy ===== *)
theory Cotp
  imports Common_Buffers Byte_Stream Iso_Parameters "HOL-Library.Signed_Division"
begin

text \<open>
  \<open>src/src/mms/iso_cotp/cotp.c\<close>: ISO 8073 transport over TCP (RFC 1006). The connection
  record has the fields of \<open>CotpConnection\<close>; the socket is the scripted socket of the byte
  stream theory, \<open>payload\<close> and \<open>writeBuffer\<close> are byte buffers (the write buffer is NULL
  until the first connect message). \<open>None\<close> is undefined behaviour: a write behind the write
  buffer, the end of the buffer chain, the overflow inside \<open>ByteStream_readUint16\<close>, a shift
  by more than 30.
\<close>

section \<open>State\<close>

record CotpOptions =
  opt_tsap_id_src :: int
  opt_tsap_id_dst :: int
  opt_tpdu_size :: byte

record CotpConnection =
  co_state :: int
  co_srcRef :: int
  co_dstRef :: int
  co_protocolClass :: int
  co_socket :: Socket
  co_options :: CotpOptions
  co_isLastDataUnit :: bool
  co_payload :: ByteBuffer
  co_writeBuffer :: "ByteBuffer option"

datatype CotpIndication = OK | ERROR | CONNECT_INDICATION | DATA_INDICATION | DISCONNECT_INDICATION

definition COTP_RFC1006_HEADER_SIZE :: int where "COTP_RFC1006_HEADER_SIZE = 4"
definition COTP_DATA_HEADER_SIZE :: int where "COTP_DATA_HEADER_SIZE = 3"
definition COTP_MAX_TPDU_SIZE :: int where "COTP_MAX_TPDU_SIZE = 8192"

section \<open>TPDU size\<close>

definition CotpConnection_getTpduSize :: "CotpConnection \<Rightarrow> int" where
  "CotpConnection_getTpduSize self = 2 ^ unat (opt_tpdu_size (co_options self))"

text \<open>\<open>while ((1 << newTpduSize) < tpduSize) newTpduSize++\<close>\<close>

function tpduSize_loop :: "nat \<Rightarrow> int \<Rightarrow> nat" where
  "tpduSize_loop newTpduSize tpduSize =
     (if 2 ^ newTpduSize < tpduSize then tpduSize_loop (newTpduSize + 1) tpduSize else newTpduSize)"
  by auto
termination
  by (relation "measure (\<lambda>(n, t). nat (t - 2 ^ n))") auto

declare tpduSize_loop.simps [simp del]

definition CotpConnection_setTpduSize :: "CotpConnection \<Rightarrow> int \<Rightarrow> CotpConnection" where
  "CotpConnection_setTpduSize self tpduSize =
     (let tpduSize = (if tpduSize > COTP_MAX_TPDU_SIZE then COTP_MAX_TPDU_SIZE else tpduSize);
          newTpduSize = tpduSize_loop 1 tpduSize;
          newTpduSize = (if 2 ^ newTpduSize > tpduSize then newTpduSize - 1 else newTpduSize)
      in self\<lparr>co_options := (co_options self)\<lparr>opt_tpdu_size := of_nat newTpduSize\<rparr>\<rparr>)"

definition CotpConnection_init :: "CotpConnection \<Rightarrow> Socket \<Rightarrow> ByteBuffer \<Rightarrow> CotpConnection" where
  "CotpConnection_init self socket payloadBuffer =
     (CotpConnection_setTpduSize
        (self\<lparr>co_state := 0, co_socket := socket, co_srcRef := -1, co_dstRef := -1,
              co_protocolClass := -1,
              co_options := \<lparr>opt_tsap_id_src = -1, opt_tsap_id_dst = -1, opt_tpdu_size = 0\<rparr>,
              co_payload := payloadBuffer\<rparr>)
        COTP_MAX_TPDU_SIZE)\<lparr>co_writeBuffer := None\<rparr>"

definition CotpConnection_getPayload :: "CotpConnection \<Rightarrow> ByteBuffer" where
  "CotpConnection_getPayload self = co_payload self"

definition CotpConnection_getSrcRef :: "CotpConnection \<Rightarrow> int" where
  "CotpConnection_getSrcRef self = co_srcRef self"

definition CotpConnection_getDstRef :: "CotpConnection \<Rightarrow> int" where
  "CotpConnection_getDstRef self = co_dstRef self"

section \<open>Writing TPDUs\<close>

text \<open>Stores consecutive bytes into the write buffer from index \<open>pos\<close> on and sets \<open>size\<close> to the
  index behind them.\<close>

definition wb_put :: "CotpConnection \<Rightarrow> nat \<Rightarrow> byte list \<Rightarrow> CotpConnection option" where
  "wb_put self pos bs = do {
     wb \<leftarrow> co_writeBuffer self;
     (buffer, bufPos) \<leftarrow> emits bs (bb_buffer wb, pos);
     Some (self\<lparr>co_writeBuffer := Some (wb\<lparr>bb_buffer := buffer, bb_size := int bufPos\<rparr>)\<rparr>)
   }"

text \<open>\<open>(uint8_t) (v / 0x100)\<close> and \<open>(uint8_t) (v & 0xff)\<close> of an \<open>int\<close>.\<close>

definition hi_lo :: "int \<Rightarrow> byte list" where
  "hi_lo v = [word_of_int (v sdiv 0x100), word_of_int (v AND 0xff)]"

definition option_bytes :: "CotpOptions \<Rightarrow> byte list" where
  "option_bytes options =
     (if opt_tpdu_size options \<noteq> 0 then [0xc0, 0x01, opt_tpdu_size options] else []) @
     (if opt_tsap_id_dst options \<noteq> -1 then [0xc2, 0x02] @ hi_lo (opt_tsap_id_dst options) else []) @
     (if opt_tsap_id_src options \<noteq> -1 then [0xc1, 0x02] @ hi_lo (opt_tsap_id_src options) else [])"

definition writeOptions :: "CotpConnection \<Rightarrow> CotpConnection option" where
  "writeOptions self = do {
     wb \<leftarrow> co_writeBuffer self;
     wb_put self (nat (bb_size wb)) (option_bytes (co_options self))
   }"

definition getOptionsLength :: "CotpConnection \<Rightarrow> int" where
  "getOptionsLength self =
     (let options = co_options self; optionsLength = 0;
          optionsLength = (if opt_tpdu_size options \<noteq> 0 then optionsLength + 3 else optionsLength);
          optionsLength = (if opt_tsap_id_dst options \<noteq> -1 then optionsLength + 4 else optionsLength)
      in (if opt_tsap_id_src options \<noteq> -1 then optionsLength + 4 else optionsLength))"

definition writeStaticConnectResponseHeader :: "CotpConnection \<Rightarrow> int \<Rightarrow> CotpConnection option" where
  "writeStaticConnectResponseHeader self optionsLength =
     wb_put self 4
       ([word_of_int (6 + optionsLength), 0xd0] @ hi_lo (co_srcRef self) @ hi_lo (co_dstRef self) @
        [word_of_int (co_protocolClass self)])"

definition writeRfc1006Header :: "CotpConnection \<Rightarrow> int \<Rightarrow> CotpConnection option" where
  "writeRfc1006Header self len = wb_put self 0 ([0x03, 0x00] @ hi_lo len)"

definition writeDataTpduHeader :: "CotpConnection \<Rightarrow> bool \<Rightarrow> CotpConnection option" where
  "writeDataTpduHeader self isLastUnit =
     wb_put self 4 [0x02, 0xf0, if isLastUnit then 0x80 else 0x00]"

definition sendBuffer :: "CotpConnection \<Rightarrow> (bool \<times> CotpConnection) option" where
  "sendBuffer self = do {
     wb \<leftarrow> co_writeBuffer self;
     dat \<leftarrow> rd_n (ByteBuffer_getBuffer wb) (nat (ByteBuffer_getSize wb));
     (case Socket_write (co_socket self) dat of (n, socket) \<Rightarrow>
        Some (n = ByteBuffer_getSize wb,
              self\<lparr>co_socket := socket, co_writeBuffer := Some (snd (ByteBuffer_setSize wb 0))\<rparr>))
   }"

section \<open>Sending data\<close>

text \<open>The inner loop of \<open>CotpConnection_sendDataMessage\<close>: copies \<open>n\<close> bytes from the chain
  position (\<open>currentChain\<close>, \<open>currentChainIndex\<close>) to the write buffer.\<close>

fun copyFragment ::
  "nat \<Rightarrow> BufferChain \<Rightarrow> int \<Rightarrow> wbuf \<Rightarrow> (BufferChain \<times> int \<times> wbuf) option" where
  "copyFragment 0 currentChain currentChainIndex w = Some (currentChain, currentChainIndex, w)"
| "copyFragment (Suc n) currentChain currentChainIndex w = do {
     (currentChain, currentChainIndex) \<leftarrow>
       (if currentChainIndex \<ge> bc_partLength currentChain
        then do { c \<leftarrow> bc_nextPart currentChain; Some (c, 0) }
        else Some (currentChain, currentChainIndex));
     b \<leftarrow> rd (bc_buffer currentChain) currentChainIndex;
     w \<leftarrow> emit b w;
     copyFragment n currentChain (currentChainIndex + 1) w
   }"

fun sendFragments ::
  "nat \<Rightarrow> int \<Rightarrow> int \<Rightarrow> int \<Rightarrow> BufferChain \<Rightarrow> int \<Rightarrow> CotpConnection \<Rightarrow>
   (CotpIndication \<times> CotpConnection) option" where
  "sendFragments 0 fragmentPayloadSize payloadLength currentBufPos currentChain currentChainIndex self =
     Some (OK, self)"
| "sendFragments (Suc k) fragmentPayloadSize payloadLength currentBufPos currentChain currentChainIndex self =
     (let currentLimit = (if k > 0 then currentBufPos + fragmentPayloadSize else payloadLength);
          lastUnit = (k = 0)
      in do {
        self \<leftarrow> writeRfc1006Header self (7 + (currentLimit - currentBufPos));
        self \<leftarrow> writeDataTpduHeader self lastUnit;
        wb \<leftarrow> co_writeBuffer self;
        (currentChain, currentChainIndex, (buffer, bufPos)) \<leftarrow>
          copyFragment (nat (currentLimit - currentBufPos)) currentChain currentChainIndex (bb_buffer wb, 7);
        (ok, self) \<leftarrow> sendBuffer
          (self\<lparr>co_writeBuffer := Some (wb\<lparr>bb_buffer := buffer, bb_size := int bufPos\<rparr>)\<rparr>);
        if \<not> ok then Some (ERROR, self)
        else sendFragments k fragmentPayloadSize payloadLength (max currentBufPos currentLimit)
               currentChain currentChainIndex self
      })"

definition fragmentCount :: "int \<Rightarrow> int \<Rightarrow> int" where
  "fragmentCount len fragmentPayloadSize =
     (if len > fragmentPayloadSize
      then len sdiv fragmentPayloadSize + (if len smod fragmentPayloadSize \<noteq> 0 then 1 else 0)
      else 1)"

text \<open>The write buffer is dereferenced before the loop. \<open>fragmentPayloadSize\<close> is never 0
  because no power of two is 3.\<close>

definition CotpConnection_sendDataMessage ::
  "CotpConnection \<Rightarrow> BufferChain \<Rightarrow> (CotpIndication \<times> CotpConnection) option" where
  "CotpConnection_sendDataMessage self payload = do {
     _ \<leftarrow> co_writeBuffer self;
     (let fragmentPayloadSize = CotpConnection_getTpduSize self - COTP_DATA_HEADER_SIZE
      in sendFragments (nat (fragmentCount (bc_length payload) fragmentPayloadSize))
           fragmentPayloadSize (bc_length payload) 0 payload 0 self)
   }"

section \<open>Connect messages\<close>

definition allocateWriteBuffer :: "CotpConnection \<Rightarrow> CotpConnection" where
  "allocateWriteBuffer self =
     (case co_writeBuffer self of
        None \<Rightarrow> self\<lparr>co_writeBuffer :=
          Some (ByteBuffer_create (CotpConnection_getTpduSize self + COTP_RFC1006_HEADER_SIZE))\<rparr>
      | Some _ \<Rightarrow> self)"

definition CotpConnection_sendConnectionRequestMessage ::
  "CotpConnection \<Rightarrow> IsoConnectionParameters \<Rightarrow> (CotpIndication \<times> CotpConnection) option" where
  "CotpConnection_sendConnectionRequestMessage self isoParameters =
     (let self = allocateWriteBuffer self; CON_REQUEST_SIZE = 22 in do {
        wb \<leftarrow> co_writeBuffer self;
        if bb_maxSize wb < CON_REQUEST_SIZE then Some (ERROR, self)
        else do {
          self \<leftarrow> writeRfc1006Header self CON_REQUEST_SIZE;
          self \<leftarrow> wb_put self 4 [17, 0xe0, 0x00, 0x00, 0x00, 0x02, 0x00];
          self \<leftarrow> writeOptions
            (self\<lparr>co_options := (co_options self)
               \<lparr>opt_tsap_id_dst := uint (ip_remoteTSelector isoParameters), opt_tsap_id_src := 0\<rparr>\<rparr>);
          (ok, self) \<leftarrow> sendBuffer self;
          Some (if ok then OK else ERROR, self)
        }
      })"

definition CotpConnection_sendConnectionResponseMessage ::
  "CotpConnection \<Rightarrow> (CotpIndication \<times> CotpConnection) option" where
  "CotpConnection_sendConnectionResponseMessage self =
     (let self = allocateWriteBuffer self;
          optionsLength = getOptionsLength self;
          messageLength = 11 + optionsLength
      in do {
        self \<leftarrow> writeRfc1006Header self messageLength;
        self \<leftarrow> writeStaticConnectResponseHeader self optionsLength;
        self \<leftarrow> writeOptions self;
        (ok, self) \<leftarrow> sendBuffer self;
        Some (if ok then OK else ERROR, self)
      })"

section \<open>Parsing\<close>

definition co_readUint8 :: "CotpConnection \<Rightarrow> byte option \<times> CotpConnection" where
  "co_readUint8 self =
     (case ByteStream_readUint8 (co_socket self) of (b, socket) \<Rightarrow> (b, self\<lparr>co_socket := socket\<rparr>))"

definition co_readUint16 :: "CotpConnection \<Rightarrow> (u16 option \<times> CotpConnection) option" where
  "co_readUint16 self = do {
     (v, socket) \<leftarrow> ByteStream_readUint16 (co_socket self);
     Some (v, self\<lparr>co_socket := socket\<rparr>)
   }"

text \<open>The default branch of \<open>parseOptions\<close> reads \<open>opt_len\<close> single bytes.\<close>

primrec skipOption :: "nat \<Rightarrow> CotpConnection \<Rightarrow> bool \<times> CotpConnection" where
  "skipOption 0 self = (True, self)"
| "skipOption (Suc n) self =
     (case co_readUint8 self of
        (None, self) \<Rightarrow> (False, self)
      | (Some _, self) \<Rightarrow> skipOption n self)"

text \<open>One round of the loop of \<open>parseOptions\<close> after the type and length octets: the new
  value of \<open>read_bytes\<close>, or \<open>None\<close> for the jump to \<open>cpo_error\<close>.\<close>

definition parseOption ::
  "CotpConnection \<Rightarrow> byte \<Rightarrow> byte \<Rightarrow> int \<Rightarrow> nat \<Rightarrow> (nat option \<times> CotpConnection) option" where
  "parseOption self option_type option_len opt_len read_bytes =
     (if option_type = 0xc0 then
        (case co_readUint8 self of
           (None, self) \<Rightarrow> Some (None, self)
         | (Some uint8_value, self) \<Rightarrow>
             if uint uint8_value \<ge> 31 then None
             else Some (Some (read_bytes + 1), CotpConnection_setTpduSize self (2 ^ unat uint8_value)))
      else if option_type = 0xc1 then
        (if option_len = 2 then do {
           (v, self) \<leftarrow> co_readUint16 self;
           (case v of
              None \<Rightarrow> Some (None, self)
            | Some uint16_value \<Rightarrow> Some (Some (read_bytes + 2),
                self\<lparr>co_options := (co_options self)\<lparr>opt_tsap_id_src := uint uint16_value\<rparr>\<rparr>))
         }
         else Some (None, self))
      else if option_type = 0xc2 then
        (if option_len = 2 then do {
           (v, self) \<leftarrow> co_readUint16 self;
           (case v of
              None \<Rightarrow> Some (None, self)
            | Some uint16_value \<Rightarrow> Some (Some (read_bytes + 2),
                self\<lparr>co_options := (co_options self)\<lparr>opt_tsap_id_dst := uint uint16_value\<rparr>\<rparr>))
         }
         else Some (None, self))
      else if option_type = 0xc6 then
        (if option_len = 1 then
           (case co_readUint8 self of (_, self) \<Rightarrow> Some (Some (read_bytes + 1), self))
         else Some (None, self))
      else
        (case skipOption (nat opt_len) self of
           (False, self) \<Rightarrow> Some (None, self)
         | (True, self) \<Rightarrow> Some (Some (read_bytes + nat opt_len), self)))"

lemma parseOption_progress:
  "parseOption self t l opt_len read_bytes = Some (Some r, self') \<Longrightarrow> 0 < opt_len \<Longrightarrow> read_bytes < r"
  by (auto simp: parseOption_def split: if_splits bind_splits option.splits prod.splits bool.splits)

function parseOptions_loop :: "CotpConnection \<Rightarrow> int \<Rightarrow> nat \<Rightarrow> (int \<times> CotpConnection) option" where
  "parseOptions_loop self opt_len read_bytes =
     (if int read_bytes < opt_len then
        (case co_readUint8 self of
           (None, self) \<Rightarrow> Some (-1, self)
         | (Some option_type, self) \<Rightarrow>
             (case co_readUint8 self of
                (None, self) \<Rightarrow> Some (-1, self)
              | (Some option_len, self) \<Rightarrow> do {
                  (r, self) \<leftarrow> parseOption self option_type option_len opt_len (read_bytes + 2);
                  (case r of
                     None \<Rightarrow> Some (-1, self)
                   | Some read_bytes \<Rightarrow> parseOptions_loop self opt_len read_bytes)
                }))
      else Some (1, self))"
  by pat_completeness auto
termination
proof (relation "measure (\<lambda>(self, opt_len, read_bytes). nat (opt_len - int read_bytes))", goal_cases)
  case 1
  show ?case by simp
next
  case (2 self opt_len read_bytes x1 self1 t x2 self2 l x3 r self3 n)
  then have "parseOption self2 t l opt_len (read_bytes + 2) = Some (Some n, self3)" by simp
  from parseOption_progress [OF this] 2 show ?case by simp
qed

declare parseOptions_loop.simps [simp del]

definition parseOptions :: "CotpConnection \<Rightarrow> int \<Rightarrow> (int \<times> CotpConnection) option" where
  "parseOptions self opt_len = parseOptions_loop self opt_len 0"

definition parseConnectRequestTpdu :: "CotpConnection \<Rightarrow> byte \<Rightarrow> (int \<times> CotpConnection) option" where
  "parseConnectRequestTpdu self len = do {
     (v, self) \<leftarrow> co_readUint16 self;
     (case v of None \<Rightarrow> Some (-1, self) | Some dstRef \<Rightarrow> do {
        (v, self) \<leftarrow> co_readUint16 (self\<lparr>co_dstRef := uint dstRef\<rparr>);
        (case v of None \<Rightarrow> Some (-1, self) | Some srcRef \<Rightarrow>
          (case co_readUint8 (self\<lparr>co_srcRef := uint srcRef\<rparr>) of
             (None, self) \<Rightarrow> Some (-1, self)
           | (Some protocolClass, self) \<Rightarrow>
               parseOptions (self\<lparr>co_protocolClass := uint protocolClass\<rparr>) (uint len - 6)))
      })
   }"

definition parseConnectConfirmTpdu :: "CotpConnection \<Rightarrow> byte \<Rightarrow> (int \<times> CotpConnection) option" where
  "parseConnectConfirmTpdu self len = do {
     (v, self) \<leftarrow> co_readUint16 self;
     (case v of None \<Rightarrow> Some (-1, self) | Some dstRef \<Rightarrow> do {
        (v, self) \<leftarrow> co_readUint16 (self\<lparr>co_srcRef := uint dstRef\<rparr>);
        (case v of None \<Rightarrow> Some (-1, self) | Some srcRef \<Rightarrow>
          (case co_readUint8 (self\<lparr>co_dstRef := uint srcRef\<rparr>) of
             (None, self) \<Rightarrow> Some (-1, self)
           | (Some protocolClass, self) \<Rightarrow>
               parseOptions (self\<lparr>co_protocolClass := uint protocolClass\<rparr>) (uint len - 6)))
      })
   }"

definition parseDataTpdu :: "CotpConnection \<Rightarrow> byte \<Rightarrow> int \<times> CotpConnection" where
  "parseDataTpdu self len =
     (if len \<noteq> 2 then (-1, self)
      else case co_readUint8 self of
        (None, self) \<Rightarrow> (-1, self)
      | (Some flowControl, self) \<Rightarrow> (1, self\<lparr>co_isLastDataUnit := (flowControl AND 0x80 \<noteq> 0)\<rparr>))"

text \<open>\<open>parseRFC1006Header\<close>: \<open>Some length\<close> for \<open>OK\<close>, \<open>None\<close> for \<open>ERROR\<close>.\<close>

definition parseRFC1006Header :: "CotpConnection \<Rightarrow> (u16 option \<times> CotpConnection) option" where
  "parseRFC1006Header self =
     (case co_readUint8 self of
        (None, self) \<Rightarrow> Some (None, self)
      | (Some b, self) \<Rightarrow>
          if b \<noteq> 3 then Some (None, self)
          else
            (case co_readUint8 self of
               (None, self) \<Rightarrow> Some (None, self)
             | (Some b, self) \<Rightarrow>
                 if b \<noteq> 0 then Some (None, self)
                 else co_readUint16 self))"

text \<open>\<open>ByteStream_readOctets(socket, payload->buffer + payload->size, payloadLength)\<close>: the
  bytes that were read are in the payload buffer also when the call fails.\<close>

definition readPayload :: "CotpConnection \<Rightarrow> int \<Rightarrow> (int \<times> CotpConnection) option" where
  "readPayload self payloadLength =
     (case ByteStream_readOctets (co_socket self) payloadLength of (readLength, bs, socket) \<Rightarrow> do {
        buffer \<leftarrow>
          (if bs = [] then Some (bb_buffer (co_payload self))
           else if bb_size (co_payload self) < 0 then None
           else do {
             (buffer, _) \<leftarrow> emits bs (bb_buffer (co_payload self), nat (bb_size (co_payload self)));
             Some buffer
           });
        Some (readLength,
              self\<lparr>co_socket := socket, co_payload := (co_payload self)\<lparr>bb_buffer := buffer\<rparr>\<rparr>)
      })"

definition co_todo :: "CotpConnection \<Rightarrow> nat" where
  "co_todo self = sk_todo (co_socket self)"

lemma co_readUint8_todo:
  "co_readUint8 self = (b, self') \<Longrightarrow> co_todo self' \<le> co_todo self \<and> (b \<noteq> None \<longrightarrow> co_todo self' < co_todo self)"
  by (auto simp: co_readUint8_def co_todo_def sk_after_def split: prod.splits dest!: readUint8_after)

lemma co_readUint16_todo: "co_readUint16 self = Some (v, self') \<Longrightarrow> co_todo self' \<le> co_todo self"
  by (auto simp: co_readUint16_def co_todo_def sk_after_def split: bind_splits dest!: readUint16_after)

lemma parseRFC1006Header_todo:
  "parseRFC1006Header self = Some (v, self') \<Longrightarrow> co_todo self' \<le> co_todo self"
  by (auto simp: parseRFC1006Header_def split: prod.splits option.splits if_splits
      dest!: co_readUint8_todo co_readUint16_todo)

lemma parseDataTpdu_todo: "parseDataTpdu self len = (r, self') \<Longrightarrow> co_todo self' \<le> co_todo self"
  by (auto simp: parseDataTpdu_def co_todo_def split: prod.splits option.splits if_splits
      dest!: co_readUint8_todo)

lemma readPayload_todo: "readPayload self n = Some (r, self') \<Longrightarrow> co_todo self' \<le> co_todo self"
  by (auto simp: readPayload_def co_todo_def sk_after_def split: prod.splits bind_splits if_splits
      dest!: readOctets_after)

function addPayloadToBuffer :: "CotpConnection \<Rightarrow> int \<Rightarrow> (int \<times> CotpConnection) option"
  and parseIncomingMessage :: "CotpConnection \<Rightarrow> (CotpIndication \<times> CotpConnection) option" where
  "addPayloadToBuffer self rfc1006Length =
     (let payloadLength = rfc1006Length - 7 in
      if bb_size (co_payload self) + payloadLength > bb_maxSize (co_payload self) then Some (0, self)
      else do {
        (readLength, self) \<leftarrow> readPayload self payloadLength;
        if readLength \<noteq> payloadLength then Some (0, self)
        else
          (let self = self\<lparr>co_payload := (co_payload self)
                             \<lparr>bb_size := bb_size (co_payload self) + payloadLength\<rparr>\<rparr> in
           if \<not> co_isLastDataUnit self then do {
             (indication, self) \<leftarrow> parseIncomingMessage self;
             Some (if indication = DATA_INDICATION then 1 else 0, self)
           }
           else Some (1, self))
      })"
| "parseIncomingMessage self = do {
     (rfc1006Length, self) \<leftarrow> parseRFC1006Header self;
     (case rfc1006Length of
        None \<Rightarrow> Some (ERROR, self)
      | Some rfc1006Length \<Rightarrow>
          (case co_readUint8 self of
             (None, self) \<Rightarrow> Some (ERROR, self)
           | (Some len, self) \<Rightarrow>
               (case co_readUint8 self of
                  (None, self) \<Rightarrow> Some (ERROR, self)
                | (Some tpduType, self) \<Rightarrow>
                    if tpduType = 0xe0 then do {
                      (r, self) \<leftarrow> parseConnectRequestTpdu self len;
                      Some (if r = 1 then CONNECT_INDICATION else ERROR, self)
                    }
                    else if tpduType = 0xd0 then do {
                      (r, self) \<leftarrow> parseConnectConfirmTpdu (self\<lparr>co_isLastDataUnit := True\<rparr>) len;
                      Some (if r = 1 then CONNECT_INDICATION else ERROR, self)
                    }
                    else if tpduType = 0xf0 then
                      (case parseDataTpdu self len of (r, self) \<Rightarrow>
                         if r = 1 then do {
                           (r, self) \<leftarrow> addPayloadToBuffer self (uint rfc1006Length);
                           Some (if r = 1 then DATA_INDICATION else ERROR, self)
                         }
                         else Some (ERROR, self))
                    else Some (ERROR, self))))
   }"
  by pat_completeness auto
termination
proof (relation "measure (\<lambda>x. case x of Inl (self, n) \<Rightarrow> 2 * co_todo self + 1 | Inr self \<Rightarrow> 2 * co_todo self)",
    goal_cases)
  case 1
  show ?case by simp
next
  case (2 self n payloadLength x r self1 self2)
  then have "readPayload self (n - 7) = Some (n - 7, self1)" by simp
  then have "co_todo self1 \<le> co_todo self" by (rule readPayload_todo)
  with 2 show ?case by (simp add: co_todo_def)
next
  case (3 self x v self1 l b self2 len c self3 t d self4)
  then have "co_todo self1 \<le> co_todo self" "co_todo self2 < co_todo self1" "co_todo self3 \<le> co_todo self2"
    "co_todo self4 \<le> co_todo self3"
    using parseRFC1006Header_todo co_readUint8_todo parseDataTpdu_todo by (metis option.discI)+
  with 3 show ?case by simp
qed

declare addPayloadToBuffer.simps [simp del] parseIncomingMessage.simps [simp del]

definition CotpConnection_parseIncomingMessage ::
  "CotpConnection \<Rightarrow> (CotpIndication \<times> CotpConnection) option" where
  "CotpConnection_parseIncomingMessage self =
     parseIncomingMessage (self\<lparr>co_payload := (co_payload self)\<lparr>bb_size := 0\<rparr>\<rparr>)"

section \<open>The negotiated TPDU size\<close>

lemma tpduSize_loop_spec:
  "n \<le> tpduSize_loop n s \<and> s \<le> 2 ^ tpduSize_loop n s \<and> (n < tpduSize_loop n s \<longrightarrow> 2 ^ (tpduSize_loop n s - 1) < s)"
proof (induction n s rule: tpduSize_loop.induct)
  case (1 n s)
  show ?case
  proof (cases "2 ^ n < s")
    case True
    then have step: "tpduSize_loop n s = tpduSize_loop (n + 1) s" by (simp add: tpduSize_loop.simps [of n])
    from 1 [OF True] show ?thesis unfolding step
      using True by (cases "n + 1 < tpduSize_loop (n + 1) s") auto
  next
    case False
    then show ?thesis by (simp add: tpduSize_loop.simps [of n])
  qed
qed

lemma setTpduSize_exponent:
  assumes "1 \<le> s" and "e = unat (opt_tpdu_size (co_options (CotpConnection_setTpduSize self s)))"
  shows "2 ^ e \<le> min s COTP_MAX_TPDU_SIZE \<and> min s COTP_MAX_TPDU_SIZE < 2 ^ (e + 1) \<and> e \<le> 13"
proof -
  define t where "t = (if s > COTP_MAX_TPDU_SIZE then COTP_MAX_TPDU_SIZE else s)"
  define n where "n = tpduSize_loop 1 t"
  define k where "k = (if 2 ^ n > t then n - 1 else n)"
  have t: "t = min s COTP_MAX_TPDU_SIZE" "1 \<le> t" "t \<le> 2 ^ 13"
    using assms(1) by (auto simp: t_def COTP_MAX_TPDU_SIZE_def)
  have n: "1 \<le> n" "t \<le> 2 ^ n" "1 < n \<longrightarrow> 2 ^ (n - 1) < t"
    using tpduSize_loop_spec [of 1 t] by (auto simp: n_def)
  have "2 ^ k \<le> t \<and> t < 2 ^ (k + 1)"
  proof (cases "2 ^ n > t")
    case True
    then have k: "k = n - 1" by (simp add: k_def)
    show ?thesis
      using n t(2) k True by (cases "n = 1") simp_all
  next
    case False
    then have "k = n" "t = 2 ^ n" using n(2) by (simp_all add: k_def)
    then show ?thesis by simp
  qed
  moreover from this have "(2::int) ^ k \<le> 2 ^ 13" using t(3) by linarith
  then have k13: "k \<le> 13" by (rule power_le_imp_le_exp [rotated]) simp
  moreover have "e = k"
  proof -
    have "e = unat (of_nat k :: byte)"
      by (simp add: assms(2) CotpConnection_setTpduSize_def Let_def k_def n_def t_def)
    also have "\<dots> = k" using k13 by (simp add: unat_of_nat)
    finally show ?thesis .
  qed
  ultimately show ?thesis using t(1) by simp
qed

text \<open>\<open>CotpConnection_setTpduSize\<close> selects the largest power of two that exceeds neither the
  requested size nor \<open>COTP_MAX_TPDU_SIZE\<close>; in particular the size code is at most 13, so every
  later \<open>1 << tpdu_size\<close> is defined.\<close>

theorem cotp_setTpduSize:
  assumes "1 \<le> s"
  shows "let self' = CotpConnection_setTpduSize self s in
    CotpConnection_getTpduSize self' \<le> min s COTP_MAX_TPDU_SIZE \<and>
    min s COTP_MAX_TPDU_SIZE < 2 * CotpConnection_getTpduSize self' \<and>
    opt_tpdu_size (co_options self') \<le> 13"
proof -
  have "unat (opt_tpdu_size (co_options (CotpConnection_setTpduSize self s))) \<le> unat (13 :: byte)"
    using setTpduSize_exponent [OF assms refl, of self] by simp
  then have "opt_tpdu_size (co_options (CotpConnection_setTpduSize self s)) \<le> 13"
    by (simp only: word_le_nat_alt)
  then show ?thesis
    using setTpduSize_exponent [OF assms refl, of self]
    by (simp add: CotpConnection_getTpduSize_def Let_def)
qed

theorem cotp_setTpduSize_witness:
  "\<forall>self. CotpConnection_getTpduSize (CotpConnection_setTpduSize self 1500) \<le> 1500 \<and>
     1500 < 2 * CotpConnection_getTpduSize (CotpConnection_setTpduSize self 1500)"
  using cotp_setTpduSize [of 1500] by (simp add: Let_def COTP_MAX_TPDU_SIZE_def)

section \<open>Segmentation\<close>

text \<open>The DT TPDUs that carry a message, for a fragment payload size \<open>f\<close>.\<close>

definition data_tpdu :: "bool \<Rightarrow> byte list \<Rightarrow> byte list" where
  "data_tpdu lastUnit bs =
     [0x03, 0x00] @ hi_lo (7 + int (length bs)) @ [0x02, 0xf0, if lastUnit then 0x80 else 0x00] @ bs"

function data_tpdus :: "nat \<Rightarrow> byte list \<Rightarrow> byte list list" where
  "data_tpdus f bs =
     (if f = 0 \<or> length bs \<le> f then [data_tpdu True bs]
      else data_tpdu False (take f bs) # data_tpdus f (drop f bs))"
  by auto
termination
  by (relation "measure (\<lambda>(f, bs). length bs)") auto

declare data_tpdus.simps [simp del]

text \<open>No part of the chain behind the first one is empty: the copy loop advances by one part at
  a time and then reads the first byte of the new part unconditionally.\<close>

fun chain_solid :: "BufferChain \<Rightarrow> bool" where
  "chain_solid (BufferChain l p m b None) \<longleftrightarrow> True"
| "chain_solid (BufferChain l p m b (Some c)) \<longleftrightarrow> 0 < bc_partLength c \<and> chain_solid c"

definition cursor_ok :: "BufferChain \<Rightarrow> int \<Rightarrow> bool" where
  "cursor_ok c i \<longleftrightarrow> chain_ok c \<and> chain_solid c \<and> 0 \<le> i \<and> i \<le> bc_partLength c"

definition cursor_bytes :: "BufferChain \<Rightarrow> int \<Rightarrow> byte list" where
  "cursor_bytes c i = drop (nat i) (chain_bytes c)"

lemma cursor_step:
  assumes "cursor_ok c i" and "cursor_bytes c i \<noteq> []"
  shows "\<exists>c' i'.
    (if i \<ge> bc_partLength c then do { c \<leftarrow> bc_nextPart c; Some (c, 0) } else Some (c, i)) = Some (c', i') \<and>
    cursor_ok c' (i' + 1) \<and> rd (bc_buffer c') i' = Some (hd (cursor_bytes c i)) \<and>
    cursor_bytes c' (i' + 1) = tl (cursor_bytes c i)"
proof (cases "i < bc_partLength c")
  case True
  have "cursor_bytes c i = bc_buffer c ! nat i # cursor_bytes c (i + 1) \<and> i < int (length (bc_buffer c))"
    using assms(1) True
    by (cases c rule: chain_ok.cases)
      (auto simp: cursor_ok_def cursor_bytes_def nat_add_distrib nat_less_iff
        Cons_nth_drop_Suc [symmetric] nth_append take_Suc_conv_app_nth)
  with True assms(1) show ?thesis by (auto simp: cursor_ok_def)
next
  case False
  with assms obtain l p m b c' where c: "c = BufferChain l p m b (Some c')" "i = p"
    by (cases c rule: chain_ok.cases) (auto simp: cursor_ok_def cursor_bytes_def)
  have "chain_bytes c' = bc_buffer c' ! 0 # drop 1 (chain_bytes c') \<and> bc_buffer c' \<noteq> []"
    using assms(1) c
    by (cases c' rule: chain_ok.cases; cases "bc_buffer c'")
      (auto simp: cursor_ok_def take_Cons' nat_le_iff)
  with assms(1) c show ?thesis
    by (cases "chain_bytes c'") (auto simp: cursor_ok_def cursor_bytes_def)
qed

lemma copyFragment_spec:
  assumes "cursor_ok c i" and "n \<le> length (cursor_bytes c i)"
  shows "\<exists>c' i'. cursor_ok c' i' \<and> cursor_bytes c' i' = drop n (cursor_bytes c i) \<and>
    copyFragment n c i = (\<lambda>w. emits (take n (cursor_bytes c i)) w \<bind> (\<lambda>w. Some (c', i', w)))"
  using assms
proof (induction n arbitrary: c i)
  case 0
  then show ?case by (intro exI [of _ c] exI [of _ i]) auto
next
  case (Suc n)
  then have ne: "cursor_bytes c i \<noteq> []" by auto
  obtain c1 i1 where step: "(if i \<ge> bc_partLength c then do { c \<leftarrow> bc_nextPart c; Some (c, 0) }
      else Some (c, i)) = Some (c1, i1)"
    and ok: "cursor_ok c1 (i1 + 1)" and hd: "rd (bc_buffer c1) i1 = Some (hd (cursor_bytes c i))"
    and tl: "cursor_bytes c1 (i1 + 1) = tl (cursor_bytes c i)"
    using cursor_step [OF Suc.prems(1) ne] by blast
  have "n \<le> length (cursor_bytes c1 (i1 + 1))" using Suc.prems(2) tl by simp
  then obtain c2 i2 where ih: "cursor_ok c2 i2" "cursor_bytes c2 i2 = drop n (tl (cursor_bytes c i))"
    "copyFragment n c1 (i1 + 1) = (\<lambda>w. emits (take n (tl (cursor_bytes c i))) w \<bind> (\<lambda>w. Some (c2, i2, w)))"
    using Suc.IH [OF ok] tl by auto
  have "copyFragment (Suc n) c i = (\<lambda>w. emit (hd (cursor_bytes c i)) w \<bind> copyFragment n c1 (i1 + 1))"
    by (rule ext) (simp only: copyFragment.simps(2) step, simp add: hd)
  also have "\<dots> = (\<lambda>w. emits (take (Suc n) (cursor_bytes c i)) w \<bind> (\<lambda>w. Some (c2, i2, w)))"
    using ne ih(3) by (cases "cursor_bytes c i") (simp_all add: emits.simps(2) Option.bind_assoc)
  finally show ?case using ih(1,2) ne by (auto simp: drop_Suc)
qed

text \<open>A connection that can send a TPDU of \<open>n\<close> bytes: its write buffer is that large, and the
  peer takes everything.\<close>

definition can_send :: "CotpConnection \<Rightarrow> nat \<Rightarrow> bool" where
  "can_send self n \<longleftrightarrow> sk_sends (co_socket self) = [] \<and>
     (case co_writeBuffer self of
        None \<Rightarrow> False
      | Some wb \<Rightarrow> n \<le> length (bb_buffer wb) \<and> 0 \<le> bb_maxSize wb)"

definition sent :: "CotpConnection \<Rightarrow> CotpConnection \<Rightarrow> byte list list \<Rightarrow> bool" where
  "sent self self' tpdus \<longleftrightarrow>
     (\<exists>wb. self' = self\<lparr>co_socket := (co_socket self)\<lparr>sk_out := sk_out (co_socket self) @ tpdus\<rparr>,
                       co_writeBuffer := Some wb\<rparr>)"

lemma sent_Nil: "can_send self n \<Longrightarrow> sent self self []"
  by (cases self; cases "co_socket self") (auto simp: sent_def can_send_def split: option.splits)

lemma sent_trans: "sent s s' xs \<Longrightarrow> sent s' s'' ys \<Longrightarrow> sent s s'' (xs @ ys)"
  by (auto simp: sent_def)

lemma hi_lo_length [simp]: "length (hi_lo v) = 2"
  by (simp add: hi_lo_def)

lemma sendBuffer_spec:
  assumes "co_writeBuffer self = Some wb" and "sk_sends (co_socket self) = []" and "0 \<le> bb_maxSize wb"
    and "bb_size wb = int (length msg)" and "bb_buffer wb = msg @ rest"
  shows "sendBuffer self = Some (True, self\<lparr>
    co_socket := (co_socket self)\<lparr>sk_out := sk_out (co_socket self) @ [msg]\<rparr>,
    co_writeBuffer := Some (wb\<lparr>bb_size := 0\<rparr>)\<rparr>)"
  using assms
  by (simp add: sendBuffer_def ByteBuffer_getBuffer_def ByteBuffer_getSize_def rd_n_def
      Socket_write_def ByteBuffer_setSize_def Let_def)

lemma wb_put_spec:
  assumes "co_writeBuffer self = Some wb" and "bb_buffer wb = pre @ rest" and "length pre = pos"
    and "length bs \<le> length rest"
  shows "wb_put self pos bs = Some (self\<lparr>co_writeBuffer :=
    Some (wb\<lparr>bb_buffer := pre @ bs @ drop (length bs) rest, bb_size := int (pos + length bs)\<rparr>)\<rparr>)"
  using assms by (simp add: wb_put_def emits_Some)

lemma data_headers:
  assumes "co_writeBuffer self = Some wb" and "7 \<le> length (bb_buffer wb)"
  shows "writeRfc1006Header self len \<bind> (\<lambda>self. writeDataTpduHeader self u) =
    Some (self\<lparr>co_writeBuffer := Some (wb\<lparr>
      bb_buffer := ([0x03, 0x00] @ hi_lo len @ [0x02, 0xf0, if u then 0x80 else 0x00]) @ drop 7 (bb_buffer wb),
      bb_size := 7\<rparr>)\<rparr>)"
proof -
  let ?h = "[0x03, 0x00] @ hi_lo len"
  let ?wb = "wb\<lparr>bb_buffer := ?h @ drop 4 (bb_buffer wb), bb_size := 4\<rparr>"
  have "writeRfc1006Header self len = Some (self\<lparr>co_writeBuffer := Some ?wb\<rparr>)"
    using wb_put_spec [of self wb "[]" "bb_buffer wb" 0 ?h] assms by (simp add: writeRfc1006Header_def)
  then show ?thesis
    using wb_put_spec [of "self\<lparr>co_writeBuffer := Some ?wb\<rparr>" ?wb ?h "drop 4 (bb_buffer wb)" 4
        "[0x02, 0xf0, if u then 0x80 else 0x00]"] assms
    by (simp add: writeDataTpduHeader_def)
qed

lemma send_one_fragment:
  assumes "can_send self (7 + n)" and "cursor_ok c i" and "n = nat (limit - pos)" and "pos \<le> limit"
    and "n \<le> length (cursor_bytes c i)" and "limit = (if k > 0 then pos + f else len)"
  shows "\<exists>c' i' self'. cursor_ok c' i' \<and> cursor_bytes c' i' = drop n (cursor_bytes c i) \<and>
    sent self self' [data_tpdu (k = 0) (take n (cursor_bytes c i))] \<and>
    (\<forall>m. can_send self m \<longrightarrow> can_send self' m) \<and>
    sendFragments (Suc k) f len pos c i self = sendFragments k f len limit c' i' self'"
proof -
  obtain wb where wb: "co_writeBuffer self = Some wb" "7 + n \<le> length (bb_buffer wb)" "0 \<le> bb_maxSize wb"
    and snd: "sk_sends (co_socket self) = []"
    using assms(1) by (auto simp: can_send_def split: option.splits)
  let ?h = "[0x03, 0x00] @ hi_lo (7 + (limit - pos)) @ [0x02, 0xf0, if k = 0 then 0x80 else 0x00]"
  let ?bs = "take n (cursor_bytes c i)"
  let ?wb1 = "wb\<lparr>bb_buffer := ?h @ drop 7 (bb_buffer wb), bb_size := 7\<rparr>"
  let ?wb2 = "wb\<lparr>bb_buffer := (?h @ ?bs) @ drop (7 + n) (bb_buffer wb), bb_size := int (7 + n)\<rparr>"
  let ?self' = "self\<lparr>co_socket := (co_socket self)\<lparr>sk_out := sk_out (co_socket self) @ [?h @ ?bs]\<rparr>,
      co_writeBuffer := Some (?wb2\<lparr>bb_size := 0\<rparr>)\<rparr>"
  obtain c' i' where cur: "cursor_ok c' i'" "cursor_bytes c' i' = drop n (cursor_bytes c i)"
    and copy: "copyFragment n c i = (\<lambda>w. emits ?bs w \<bind> (\<lambda>w. Some (c', i', w)))"
    using copyFragment_spec [OF assms(2,5)] by blast
  have len: "length ?bs = n" using assms(5) by simp
  have e: "emits ?bs (bb_buffer ?wb1, 7) = Some (bb_buffer ?wb2, 7 + n)"
  proof -
    have "length ?h = 7" by simp
    moreover have "drop (7 + n) (?h @ drop 7 (bb_buffer wb)) = drop (7 + n) (bb_buffer wb)"
      unfolding drop_append using \<open>length ?h = 7\<close> by (simp add: add.commute)
    moreover have "take 7 (?h @ drop 7 (bb_buffer wb)) = ?h" by simp
    ultimately show ?thesis
      using wb(2) len emits_Some [of 7 ?bs "?h @ drop 7 (bb_buffer wb)"] by simp
  qed
  have hdr: "writeRfc1006Header self (7 + (limit - pos)) \<bind> (\<lambda>self. writeDataTpduHeader self (k = 0)) =
      Some (self\<lparr>co_writeBuffer := Some ?wb1\<rparr>)"
    using data_headers [OF wb(1), of "7 + (limit - pos)" "k = 0"] wb(2) by simp
  have snt: "sendBuffer (self\<lparr>co_writeBuffer := Some ?wb2\<rparr>) = Some (True, ?self')"
    using sendBuffer_spec [of "self\<lparr>co_writeBuffer := Some ?wb2\<rparr>" ?wb2 "?h @ ?bs" "drop (7 + n) (bb_buffer wb)"]
      wb(3) snd len by simp
  have "sendFragments (Suc k) f len pos c i self = sendFragments k f len limit c' i' ?self'"
  proof -
    have m: "max pos limit = limit" using assms(4) by simp
    have "sendFragments (Suc k) f len pos c i self =
      (writeRfc1006Header self (7 + (limit - pos)) \<bind> (\<lambda>self. writeDataTpduHeader self (k = 0))) \<bind>
      (\<lambda>self. co_writeBuffer self \<bind> (\<lambda>wb. copyFragment n c i (bb_buffer wb, 7) \<bind>
        (\<lambda>(c, i, buffer, bufPos). sendBuffer (self\<lparr>co_writeBuffer := Some (wb\<lparr>bb_buffer := buffer, bb_size := int bufPos\<rparr>)\<rparr>) \<bind>
        (\<lambda>(ok, self). if \<not> ok then Some (ERROR, self) else sendFragments k f len (max pos limit) c i self))))"
      by (simp only: sendFragments.simps(2) Let_def assms(6) [symmetric] assms(3) [symmetric]
          Option.bind_assoc)
    also have "\<dots> = sendFragments k f len limit c' i' ?self'"
      unfolding hdr copy using e snt m by simp
    finally show ?thesis .
  qed
  moreover have "?h @ ?bs = data_tpdu (k = 0) ?bs"
    using len assms(3,4) by (simp add: data_tpdu_def)
  then have "sent self ?self' [data_tpdu (k = 0) ?bs]" by (auto simp: sent_def)
  moreover have "\<forall>m. can_send self m \<longrightarrow> can_send ?self' m"
    using wb len by (auto simp: can_send_def)
  ultimately show ?thesis using cur by blast
qed

lemma can_send_mono: "can_send self n \<Longrightarrow> m \<le> n \<Longrightarrow> can_send self m"
  by (auto simp: can_send_def split: option.splits)

lemma sendFragments_spec:
  assumes "cursor_ok c i" and "0 < f" and "0 < k" and "len = pos + int (length (cursor_bytes c i))"
    and "length (cursor_bytes c i) \<le> k * f" and "1 < k \<Longrightarrow> (k - 1) * f < length (cursor_bytes c i)"
    and "can_send self (7 + f)"
  shows "\<exists>self'. sendFragments k (int f) len pos c i self = Some (OK, self') \<and>
           sent self self' (data_tpdus f (cursor_bytes c i))"
  using assms
proof (induction k arbitrary: c i pos self)
  case 0
  then show ?case by simp
next
  case (Suc k)
  define n where "n = (if k = 0 then length (cursor_bytes c i) else f)"
  define limit where "limit = (if k > 0 then pos + int f else len)"
  have many: "k > 0 \<Longrightarrow> f < length (cursor_bytes c i) \<and> k * f < length (cursor_bytes c i)"
  proof -
    assume "k > 0"
    then have "k * f < length (cursor_bytes c i)" "1 * f \<le> k * f"
      using Suc.prems(6) by (simp_all add: mult_le_mono1 del: mult_1)
    then show ?thesis by linarith
  qed
  have n: "n = nat (limit - pos)" "pos \<le> limit" "n \<le> length (cursor_bytes c i)" "n \<le> f"
    using Suc.prems(4,5) many by (auto simp: n_def limit_def)
  have "can_send self (7 + n)" using can_send_mono [OF Suc.prems(7)] n(4) by simp
  then obtain c' i' self' where one: "cursor_ok c' i'" "cursor_bytes c' i' = drop n (cursor_bytes c i)"
    "sent self self' [data_tpdu (k = 0) (take n (cursor_bytes c i))]"
    "\<forall>m. can_send self m \<longrightarrow> can_send self' m"
    "sendFragments (Suc k) (int f) len pos c i self = sendFragments k (int f) len limit c' i' self'"
    using send_one_fragment [OF _ Suc.prems(1) n(1,2,3) limit_def, of self] by blast
  show ?case
  proof (cases "k = 0")
    case True
    then have "data_tpdus f (cursor_bytes c i) = [data_tpdu (k = 0) (take n (cursor_bytes c i))]"
      using Suc.prems(5) by (simp add: data_tpdus.simps [of f] n_def)
    with True one(3,5) show ?thesis by simp
  next
    case False
    then have nf: "n = f" by (simp add: n_def)
    have "\<exists>self''. sendFragments k (int f) len limit c' i' self' = Some (OK, self'') \<and>
        sent self' self'' (data_tpdus f (cursor_bytes c' i'))"
    proof (rule Suc.IH [OF one(1) Suc.prems(2)])
      show "0 < k" using False by simp
      show "len = limit + int (length (cursor_bytes c' i'))"
        using False one(2) nf many Suc.prems(4) by (simp add: limit_def of_nat_diff)
      show "length (cursor_bytes c' i') \<le> k * f" using one(2) nf Suc.prems(5) by simp
      show "(k - 1) * f < length (cursor_bytes c' i')" if "1 < k"
      proof -
        have "f \<le> k * f" "k * f < length (cursor_bytes c i)" using many that by simp_all
        then have "k * f - f < length (cursor_bytes c i) - f" by (rule diff_less_mono [rotated])
        then show ?thesis using one(2) nf by (simp add: diff_mult_distrib)
      qed
      show "can_send self' (7 + f)" using one(4) Suc.prems(7) by blast
    qed
    moreover have "data_tpdus f (cursor_bytes c i) =
        [data_tpdu (k = 0) (take n (cursor_bytes c i))] @ data_tpdus f (cursor_bytes c' i')"
      using False one(2) nf many Suc.prems(2) by (simp add: data_tpdus.simps [of f "cursor_bytes c i"])
    ultimately show ?thesis using one(3,5) sent_trans by metis
  qed
qed

lemma fragmentCount_spec:
  assumes "0 < f" and "k = nat (fragmentCount (int n) (int f))"
  shows "0 < k" and "n \<le> k * f" and "1 < k \<Longrightarrow> (k - 1) * f < n"
proof -
  have d: "int n sdiv int f = int (n div f)" "int n smod int f = int (n mod f)"
    using assms(1)
    by (simp_all add: signed_divide_int_def signed_modulo_int_def zdiv_int zmod_int sgn_if minus_div_mult_eq_mod)
  have k: "k = (if f < n then n div f + (if n mod f \<noteq> 0 then 1 else 0) else 1)"
    using assms by (simp add: fragmentCount_def d nat_add_distrib)
  have n: "n = n div f * f + n mod f" "n mod f < f" using assms(1) by simp_all
  have pos: "0 < n div f" if "f < n" using that assms(1) by (simp add: div_greater_zero_iff)
  show "0 < k" using k pos by auto
  show "n \<le> k * f"
  proof (cases "f < n")
    case True
    have "n \<le> n div f * f + (if n mod f \<noteq> 0 then f else 0)"
    proof -
      have "n mod f \<le> (if n mod f \<noteq> 0 then f else 0)" using n(2) by simp
      then show ?thesis using n(1) by linarith
    qed
    then show ?thesis using k True by (simp add: add_mult_distrib split: if_splits)
  next
    case False
    then show ?thesis using k by simp
  qed
  show "(k - 1) * f < n" if "1 < k"
  proof (cases "n mod f = 0")
    case True
    then have "k = n div f" using k that by (auto split: if_splits)
    then have "k * f = n" using n(1) True by (metis add_0_right)
    moreover have "(k - 1) * f < k * f" using assms(1) that by simp
    ultimately show ?thesis by linarith
  next
    case False
    then have "k - 1 = n div f" "0 < n mod f" using k that by (auto split: if_splits)
    then have "(k - 1) * f = n div f * f" by simp
    then show ?thesis using n(1) \<open>0 < n mod f\<close> by linarith
  qed
qed

lemma sendDataMessage_spec:
  assumes "chain_ok payload" and "chain_solid payload"
    and "3 < CotpConnection_getTpduSize self"
    and "can_send self (nat (CotpConnection_getTpduSize self + COTP_RFC1006_HEADER_SIZE))"
  shows "\<exists>self'. CotpConnection_sendDataMessage self payload = Some (OK, self') \<and>
    sent self self' (data_tpdus (nat (CotpConnection_getTpduSize self - COTP_DATA_HEADER_SIZE)) (chain_bytes payload))"
proof -
  define f where "f = nat (CotpConnection_getTpduSize self - COTP_DATA_HEADER_SIZE)"
  define k where "k = nat (fragmentCount (bc_length payload) (int f))"
  have f: "0 < f" "int f = CotpConnection_getTpduSize self - COTP_DATA_HEADER_SIZE"
    "nat (CotpConnection_getTpduSize self + COTP_RFC1006_HEADER_SIZE) = 7 + f"
    using assms(3) by (simp_all add: f_def COTP_DATA_HEADER_SIZE_def COTP_RFC1006_HEADER_SIZE_def)
  have len: "bc_length payload = int (length (chain_bytes payload))"
    using chain_ok_length [OF assms(1)] by simp
  have cur: "cursor_ok payload 0" "cursor_bytes payload 0 = chain_bytes payload"
    using assms(1,2) by (cases payload rule: chain_ok.cases; simp add: cursor_ok_def cursor_bytes_def)+
  have "\<exists>self'. sendFragments k (int f) (bc_length payload) 0 payload 0 self = Some (OK, self') \<and>
      sent self self' (data_tpdus f (cursor_bytes payload 0))"
    using fragmentCount_spec [OF f(1) k_def [unfolded len]] cur f len assms(4)
    by (intro sendFragments_spec) simp_all
  moreover have "co_writeBuffer self \<noteq> None"
    using assms(4) by (auto simp: can_send_def split: option.splits)
  ultimately show ?thesis
    using cur(2) f(2) by (auto simp: CotpConnection_sendDataMessage_def Let_def k_def f_def)
qed

section \<open>Reassembly\<close>

lemma co_readUint8_at_hand:
  assumes "at_hand (co_socket self) (b # bs) es"
  shows "\<exists>s'. co_readUint8 self = (Some b, self\<lparr>co_socket := s'\<rparr>) \<and> at_hand s' bs es"
  using readUint8_at_hand [OF assms] by (auto simp: co_readUint8_def)

lemma co_readUint16_at_hand:
  assumes "at_hand (co_socket self) (a # b # bs) es"
  shows "\<exists>s'. co_readUint16 self = Some (Some (ucast a * 0x100 + ucast b), self\<lparr>co_socket := s'\<rparr>) \<and>
           at_hand s' bs es"
  using readUint16_at_hand [OF assms] by (auto simp: co_readUint16_def)

lemma hi_lo_value:
  assumes "0 \<le> v" and "v < 65536" and "hi_lo v = [a, b]"
  shows "ucast a * 0x100 + ucast b = (word_of_int v :: u16)"
proof -
  have low: "v AND 0xff = v mod 256"
    using take_bit_eq_mask [of 8 v] by (simp add: take_bit_eq_mod mask_eq_exp_minus_1)
  have ab: "a = word_of_int (v div 256)" "b = word_of_int (v mod 256)"
    using assms by (auto simp: hi_lo_def low signed_divide_int_def sgn_if split: if_splits)
  have "uint a = v div 256" "uint b = v mod 256"
    using assms(1,2) by (simp_all add: ab uint_word_of_int)
  then have "uint (ucast a :: u16) = v div 256" "uint (ucast b :: u16) = v mod 256"
    using assms(1,2) by (simp_all add: unsigned_ucast_eq take_bit_eq_mod)
  then have "(ucast a :: u16) = word_of_int (v div 256)" "(ucast b :: u16) = word_of_int (v mod 256)"
    by (metis word_of_int_uint)+
  then have "ucast a * 0x100 + ucast b = (word_of_int (v div 256 * 256 + v mod 256) :: u16)"
    by (simp only: wi_hom_syms(1,3)) simp
  then show ?thesis by (simp only: div_mult_mod_eq)
qed

lemma parseRFC1006Header_at_hand:
  assumes "at_hand (co_socket self) ([0x03, 0x00] @ hi_lo v @ bs) es" and "0 \<le> v" and "v < 65536"
  shows "\<exists>s'. parseRFC1006Header self = Some (Some (word_of_int v), self\<lparr>co_socket := s'\<rparr>) \<and> at_hand s' bs es"
proof -
  obtain a b where ab: "hi_lo v = [a, b]" by (simp add: hi_lo_def)
  obtain s1 where s1: "co_readUint8 self = (Some 3, self\<lparr>co_socket := s1\<rparr>)" "at_hand s1 (0 # a # b # bs) es"
    using co_readUint8_at_hand [of self 3 "0 # a # b # bs" es] assms(1) ab by auto
  obtain s2 where s2: "co_readUint8 (self\<lparr>co_socket := s1\<rparr>) = (Some 0, self\<lparr>co_socket := s2\<rparr>)" "at_hand s2 (a # b # bs) es"
    using co_readUint8_at_hand [of "self\<lparr>co_socket := s1\<rparr>" 0 "a # b # bs" es] s1(2) by auto
  obtain s3 where s3: "co_readUint16 (self\<lparr>co_socket := s2\<rparr>) =
      Some (Some (word_of_int v), self\<lparr>co_socket := s3\<rparr>)" "at_hand s3 bs es"
    using co_readUint16_at_hand [of "self\<lparr>co_socket := s2\<rparr>" a b bs es] s2(2)
      hi_lo_value [OF assms(2,3) ab] by auto
  show ?thesis using s1 s2 s3 by (intro exI [of _ s3]) (simp add: parseRFC1006Header_def)
qed

text \<open>The steps up to the TPDU type, shared by all messages.\<close>

lemma parse_prefix_at_hand:
  assumes "at_hand (co_socket self) ([0x03, 0x00] @ hi_lo v @ [len, t] @ bs) es" and "0 \<le> v" and "v < 65536"
  shows "\<exists>s1 s2 s3. parseRFC1006Header self = Some (Some (word_of_int v), self\<lparr>co_socket := s1\<rparr>) \<and>
    co_readUint8 (self\<lparr>co_socket := s1\<rparr>) = (Some len, self\<lparr>co_socket := s2\<rparr>) \<and>
    co_readUint8 (self\<lparr>co_socket := s2\<rparr>) = (Some t, self\<lparr>co_socket := s3\<rparr>) \<and> at_hand s3 bs es"
proof -
  obtain s1 where s1: "parseRFC1006Header self = Some (Some (word_of_int v), self\<lparr>co_socket := s1\<rparr>)"
      "at_hand s1 (len # t # bs) es"
    using parseRFC1006Header_at_hand [OF _ assms(2,3), of self "len # t # bs"] assms(1) by auto
  obtain s2 where s2: "co_readUint8 (self\<lparr>co_socket := s1\<rparr>) = (Some len, self\<lparr>co_socket := s2\<rparr>)"
      "at_hand s2 (t # bs) es"
    using co_readUint8_at_hand [of "self\<lparr>co_socket := s1\<rparr>" len "t # bs" es] s1(2) by auto
  obtain s3 where s3: "co_readUint8 (self\<lparr>co_socket := s2\<rparr>) = (Some t, self\<lparr>co_socket := s3\<rparr>)"
      "at_hand s3 bs es"
    using co_readUint8_at_hand [of "self\<lparr>co_socket := s2\<rparr>" t bs es] s2(2) by auto
  show ?thesis using s1(1) s2(1) s3 by blast
qed

lemma readPayload_at_hand:
  assumes "at_hand (co_socket self) (bs @ ys) es" and "bb_inv (co_payload self)"
    and "bb_size (co_payload self) + int (length bs) \<le> bb_maxSize (co_payload self)"
  shows "\<exists>s' buffer. readPayload self (int (length bs)) =
      Some (int (length bs), self\<lparr>co_socket := s', co_payload := (co_payload self)\<lparr>bb_buffer := buffer\<rparr>\<rparr>) \<and>
    at_hand s' ys es \<and> length buffer = length (bb_buffer (co_payload self)) \<and>
    take (nat (bb_size (co_payload self)) + length bs) buffer = bb_content (co_payload self) @ bs"
proof -
  let ?p = "co_payload self"
  obtain s' where s': "ByteStream_readOctets (co_socket self) (int (length bs)) = (int (length bs), bs, s')"
      "at_hand s' ys es"
    using readOctets_at_hand [OF assms(1) refl] by blast
  have fit: "nat (bb_size ?p) + length bs \<le> length (bb_buffer ?p)"
    using assms(2,3) by (auto simp: bb_inv_def)
  let ?buffer = "take (nat (bb_size ?p)) (bb_buffer ?p) @ bs @ drop (nat (bb_size ?p) + length bs) (bb_buffer ?p)"
  have "readPayload self (int (length bs)) =
      Some (int (length bs), self\<lparr>co_socket := s', co_payload := ?p\<lparr>bb_buffer := ?buffer\<rparr>\<rparr>)"
    using s'(1) assms(2) emits_Some [OF fit]
    by (cases "bs = []") (auto simp: readPayload_def bb_inv_def)
  then show ?thesis using s'(2) fit by (intro exI [of _ s'] exI [of _ ?buffer]) (auto simp: bb_content_def)
qed

text \<open>A receiver whose payload buffer has room for \<open>n\<close> more bytes.\<close>

definition has_room :: "CotpConnection \<Rightarrow> nat \<Rightarrow> bool" where
  "has_room r n \<longleftrightarrow> bb_inv (co_payload r) \<and> bb_size (co_payload r) + int n \<le> bb_maxSize (co_payload r)"

lemma addPayload_at_hand:
  assumes "at_hand (co_socket r) (bs @ ys) es" and "has_room r (length bs)"
  shows "\<exists>r'. at_hand (co_socket r') ys es \<and> bb_inv (co_payload r') \<and>
    bb_maxSize (co_payload r') = bb_maxSize (co_payload r) \<and>
    bb_content (co_payload r') = bb_content (co_payload r) @ bs \<and>
    addPayloadToBuffer r (7 + int (length bs)) =
      (if co_isLastDataUnit r then Some (1, r')
       else do { (ind, r'') \<leftarrow> parseIncomingMessage r'; Some (if ind = DATA_INDICATION then 1 else 0, r'') })"
proof -
  have inv: "bb_inv (co_payload r)" "bb_size (co_payload r) + int (length bs) \<le> bb_maxSize (co_payload r)"
    using assms(2) by (simp_all add: has_room_def)
  obtain s' buffer where read: "readPayload r (int (length bs)) =
      Some (int (length bs), r\<lparr>co_socket := s', co_payload := (co_payload r)\<lparr>bb_buffer := buffer\<rparr>\<rparr>)"
    and s': "at_hand s' ys es" "length buffer = length (bb_buffer (co_payload r))"
    "take (nat (bb_size (co_payload r)) + length bs) buffer = bb_content (co_payload r) @ bs"
    using readPayload_at_hand [OF assms(1) inv] by blast
  let ?p = "(co_payload r)\<lparr>bb_buffer := buffer, bb_size := bb_size (co_payload r) + int (length bs)\<rparr>"
  let ?r = "r\<lparr>co_socket := s', co_payload := ?p\<rparr>"
  have eq: "addPayloadToBuffer r (7 + int (length bs)) =
      (if co_isLastDataUnit r then Some (1, ?r)
       else do { (ind, r'') \<leftarrow> parseIncomingMessage ?r; Some (if ind = DATA_INDICATION then 1 else 0, r'') })"
    using read inv(2) by (simp add: addPayloadToBuffer.simps [of r])
  have "bb_inv ?p" using inv s'(2) by (auto simp: bb_inv_def)
  moreover have "bb_content ?p = bb_content (co_payload r) @ bs"
    using s'(3) inv(1) by (simp add: bb_content_def bb_inv_def nat_add_distrib)
  ultimately show ?thesis using eq s'(1) by (intro exI [of _ ?r]) simp
qed

lemma parse_data_tpdu:
  assumes "at_hand (co_socket r) (data_tpdu u bs @ ys) es" and "has_room r (length bs)"
    and "length bs \<le> 65528"
  shows "\<exists>r'. at_hand (co_socket r') ys es \<and> bb_inv (co_payload r') \<and>
    bb_maxSize (co_payload r') = bb_maxSize (co_payload r) \<and>
    bb_content (co_payload r') = bb_content (co_payload r) @ bs \<and>
    parseIncomingMessage r =
      (if u then Some (DATA_INDICATION, r')
       else do { (ind, r'') \<leftarrow> parseIncomingMessage r'; Some (if ind = DATA_INDICATION then DATA_INDICATION else ERROR, r'') })"
proof -
  let ?v = "7 + int (length bs)" and ?flag = "if u then 0x80 else 0x00 :: byte"
  obtain s1 s2 s3 where pre: "parseRFC1006Header r = Some (Some (word_of_int ?v), r\<lparr>co_socket := s1\<rparr>)"
    "co_readUint8 (r\<lparr>co_socket := s1\<rparr>) = (Some 2, r\<lparr>co_socket := s2\<rparr>)"
    "co_readUint8 (r\<lparr>co_socket := s2\<rparr>) = (Some 0xf0, r\<lparr>co_socket := s3\<rparr>)"
    "at_hand s3 (?flag # bs @ ys) es"
    using parse_prefix_at_hand [of r ?v 2 "0xf0" "?flag # bs @ ys" es] assms(1,3)
    by (auto simp: data_tpdu_def)
  obtain s4 where s4: "co_readUint8 (r\<lparr>co_socket := s3\<rparr>) = (Some ?flag, r\<lparr>co_socket := s4\<rparr>)"
    "at_hand s4 (bs @ ys) es"
    using co_readUint8_at_hand [of "r\<lparr>co_socket := s3\<rparr>" ?flag "bs @ ys" es] pre(4) by auto
  let ?r4 = "r\<lparr>co_socket := s4, co_isLastDataUnit := u\<rparr>"
  have dt: "parseDataTpdu (r\<lparr>co_socket := s3\<rparr>) 2 = (1, ?r4)"
    using s4(1) by (simp add: parseDataTpdu_def)
  have v: "uint (word_of_int ?v :: u16) = ?v"
    using assms(3) by (simp only: uint_word_of_int) simp
  have "at_hand (co_socket ?r4) (bs @ ys) es" "has_room ?r4 (length bs)"
    using s4(2) assms(2) by (simp_all add: has_room_def)
  then obtain r' where r': "at_hand (co_socket r') ys es" "bb_inv (co_payload r')"
    "bb_maxSize (co_payload r') = bb_maxSize (co_payload r)"
    "bb_content (co_payload r') = bb_content (co_payload r) @ bs"
    and add: "addPayloadToBuffer ?r4 ?v = (if u then Some (1, r')
       else do { (ind, r'') \<leftarrow> parseIncomingMessage r'; Some (if ind = DATA_INDICATION then 1 else 0, r'') })"
    using addPayload_at_hand [of ?r4 bs ys es] by auto
  have "parseIncomingMessage r = do { (k, r'') \<leftarrow> addPayloadToBuffer ?r4 ?v;
      Some (if k = 1 then DATA_INDICATION else ERROR, r'') }"
    using pre dt v by (simp add: parseIncomingMessage.simps [of r])
  also have "\<dots> = (if u then Some (DATA_INDICATION, r')
       else do { (ind, r'') \<leftarrow> parseIncomingMessage r'; Some (if ind = DATA_INDICATION then DATA_INDICATION else ERROR, r'') })"
    unfolding add by (auto split: bind_splits)
  finally show ?thesis using r' by blast
qed

lemma parse_data_tpdus:
  assumes "map ev_result (sk_events (co_socket r)) = map Got (data_tpdus f bs)"
    and "has_room r (length bs)" and "0 < f" and "f \<le> 65528"
  shows "\<exists>r'. parseIncomingMessage r = Some (DATA_INDICATION, r') \<and>
    bb_content (co_payload r') = bb_content (co_payload r) @ bs \<and> bb_inv (co_payload r')"
  using assms
proof (induction f bs arbitrary: r rule: data_tpdus.induct)
  case (1 f bs)
  show ?case
  proof (cases "length bs \<le> f")
    case True
    with "1.prems"(1) obtain ms where "sk_events (co_socket r) = [Ev ms (Got (data_tpdu True bs))]"
      by (auto simp: data_tpdus.simps [of f bs] map_eq_Cons_conv) (metis net_event.exhaust_sel)
    then have "at_hand (co_socket r) (data_tpdu True bs @ []) []"
      by (simp add: at_hand_def data_tpdu_def)
    from parse_data_tpdu [OF this "1.prems"(2)] True "1.prems"(4) show ?thesis
      by (auto simp: at_hand_def)
  next
    case False
    with "1.prems"(1,3) obtain ms es where es:
      "sk_events (co_socket r) = Ev ms (Got (data_tpdu False (take f bs))) # es"
      "map ev_result es = map Got (data_tpdus f (drop f bs))"
      by (auto simp: data_tpdus.simps [of f bs] map_eq_Cons_conv) (metis net_event.exhaust_sel)
    then have h: "at_hand (co_socket r) (data_tpdu False (take f bs) @ []) es"
      by (simp add: at_hand_def data_tpdu_def)
    have "has_room r (length (take f bs))" "length (take f bs) \<le> 65528"
      using "1.prems"(2,4) False by (auto simp: has_room_def)
    from parse_data_tpdu [OF h this] obtain r' where r': "sk_events (co_socket r') = es"
      "bb_inv (co_payload r')" "bb_maxSize (co_payload r') = bb_maxSize (co_payload r)"
      "bb_content (co_payload r') = bb_content (co_payload r) @ take f bs"
      "parseIncomingMessage r = do { (ind, r'') \<leftarrow> parseIncomingMessage r';
         Some (if ind = DATA_INDICATION then DATA_INDICATION else ERROR, r'') }"
      by (auto simp: at_hand_def)
    have "nat (bb_size (co_payload r')) = nat (bb_size (co_payload r)) + f"
      using length_bb_content [OF r'(2)] length_bb_content [of "co_payload r"] r'(4) "1.prems"(2) False
      by (simp add: has_room_def)
    then have "has_room r' (length (drop f bs))"
      using "1.prems"(2) r'(2,3) False by (auto simp: has_room_def bb_inv_def)
    then have "\<exists>r''. parseIncomingMessage r' = Some (DATA_INDICATION, r'') \<and>
        bb_content (co_payload r'') = bb_content (co_payload r') @ drop f bs \<and> bb_inv (co_payload r'')"
      using "1.IH" [of r'] es(2) r'(1) "1.prems"(3,4) False by simp
    then show ?thesis using r'(4,5) by auto
  qed
qed

lemma data_tpdus_length: "0 < f \<Longrightarrow> t \<in> set (data_tpdus f bs) \<Longrightarrow> length t \<le> f + 7"
proof (induction f bs rule: data_tpdus.induct)
  case (1 f bs)
  then show ?case
    by (cases "length bs \<le> f") (auto simp: data_tpdus.simps [of f bs] data_tpdu_def)
qed

lemma cotp_delivery:
  assumes "chain_ok payload" and "chain_solid payload" and "opt_tpdu_size (co_options self) \<le> 13"
    and "3 < CotpConnection_getTpduSize self"
    and "can_send self (nat (CotpConnection_getTpduSize self + COTP_RFC1006_HEADER_SIZE))"
  obtains self' tpdus where "CotpConnection_sendDataMessage self payload = Some (OK, self')"
    "sent self self' tpdus"
    "\<forall>t\<in>set tpdus. int (length t) \<le> CotpConnection_getTpduSize self + COTP_RFC1006_HEADER_SIZE"
    "\<And>r :: CotpConnection. map ev_result (sk_events (co_socket r)) = map Got tpdus \<Longrightarrow>
       bb_inv (co_payload r) \<Longrightarrow> bc_length payload \<le> bb_maxSize (co_payload r) \<Longrightarrow>
       \<exists>r'. CotpConnection_parseIncomingMessage r = Some (DATA_INDICATION, r') \<and>
            received (co_payload r') (chain_bytes payload)"
proof -
  define f where "f = nat (CotpConnection_getTpduSize self - COTP_DATA_HEADER_SIZE)"
  have "unat (opt_tpdu_size (co_options self)) \<le> 13" using assms(3) by (simp add: word_le_nat_alt)
  then have "CotpConnection_getTpduSize self \<le> 2 ^ 13"
    unfolding CotpConnection_getTpduSize_def by (rule power_increasing) simp
  then have f: "0 < f" "f \<le> 65528" "int f + 7 = CotpConnection_getTpduSize self + COTP_RFC1006_HEADER_SIZE"
    using assms(4) by (simp_all add: f_def COTP_DATA_HEADER_SIZE_def COTP_RFC1006_HEADER_SIZE_def)
  obtain self' where self': "CotpConnection_sendDataMessage self payload = Some (OK, self')"
      "sent self self' (data_tpdus f (chain_bytes payload))"
    using sendDataMessage_spec [OF assms(1,2,4,5)] unfolding f_def by blast
  show ?thesis
  proof (rule that [OF self'])
    show "\<forall>t\<in>set (data_tpdus f (chain_bytes payload)).
        int (length t) \<le> CotpConnection_getTpduSize self + COTP_RFC1006_HEADER_SIZE"
      using data_tpdus_length [OF f(1)] f(3) by fastforce
    fix r :: CotpConnection
    assume r: "map ev_result (sk_events (co_socket r)) = map Got (data_tpdus f (chain_bytes payload))"
      "bb_inv (co_payload r)" "bc_length payload \<le> bb_maxSize (co_payload r)"
    let ?r = "r\<lparr>co_payload := (co_payload r)\<lparr>bb_size := 0\<rparr>\<rparr>"
    have "has_room ?r (length (chain_bytes payload))"
      using r(2,3) chain_ok_length [OF assms(1)] by (auto simp: has_room_def bb_inv_def)
    from parse_data_tpdus [OF _ this f(1,2)] r(1)
    show "\<exists>r'. CotpConnection_parseIncomingMessage r = Some (DATA_INDICATION, r') \<and>
        received (co_payload r') (chain_bytes payload)"
      by (auto simp: CotpConnection_parseIncomingMessage_def received_def bb_content_def)
  qed
qed

text \<open>C1: segmentation and reassembly: for a usable TPDU size and a write buffer of that size,
  \<open>CotpConnection_sendDataMessage\<close> succeeds, every TPDU it sends fits the negotiated size,
  and any receiver with room for the message that gets these TPDUs reports
  \<open>DATA_INDICATION\<close> with exactly the bytes of the buffer chain as its payload.\<close>

theorem cotp_data_roundtrip:
  assumes "chain_ok payload" and "chain_solid payload" and "opt_tpdu_size (co_options self) \<le> 13"
    and "3 < CotpConnection_getTpduSize self"
    and "can_send self (nat (CotpConnection_getTpduSize self + COTP_RFC1006_HEADER_SIZE))"
  shows "\<exists>self' tpdus. CotpConnection_sendDataMessage self payload = Some (OK, self') \<and>
    sk_out (co_socket self') = sk_out (co_socket self) @ tpdus \<and>
    (\<forall>t\<in>set tpdus. int (length t) \<le> CotpConnection_getTpduSize self + COTP_RFC1006_HEADER_SIZE) \<and>
    (\<forall>r. map ev_result (sk_events (co_socket r)) = map Got tpdus \<longrightarrow>
         bb_inv (co_payload r) \<longrightarrow> bc_length payload \<le> bb_maxSize (co_payload r) \<longrightarrow>
         (\<exists>r'. CotpConnection_parseIncomingMessage r = Some (DATA_INDICATION, r') \<and>
               bb_content (co_payload r') = chain_bytes payload))"
proof -
  obtain self' tpdus where s: "CotpConnection_sendDataMessage self payload = Some (OK, self')"
    "sent self self' tpdus"
    "\<forall>t\<in>set tpdus. int (length t) \<le> CotpConnection_getTpduSize self + COTP_RFC1006_HEADER_SIZE"
    and r: "\<And>r :: CotpConnection. map ev_result (sk_events (co_socket r)) = map Got tpdus \<Longrightarrow>
       bb_inv (co_payload r) \<Longrightarrow> bc_length payload \<le> bb_maxSize (co_payload r) \<Longrightarrow>
       \<exists>r'. CotpConnection_parseIncomingMessage r = Some (DATA_INDICATION, r') \<and>
            received (co_payload r') (chain_bytes payload)"
    by (rule cotp_delivery [OF assms]) blast
  have "sk_out (co_socket self') = sk_out (co_socket self) @ tpdus" using s(2) by (auto simp: sent_def)
  with s(1,3) r show ?thesis unfolding received_def by blast
qed

text \<open>A connection of a server that has negotiated a TPDU size of \<open>2 ^ e\<close> bytes.\<close>

definition demo_socket :: "net_event list \<Rightarrow> Socket" where
  "demo_socket es = \<lparr>sk_events = es, sk_time = 0, sk_sends = [], sk_out = []\<rparr>"

definition demo_connection :: "byte \<Rightarrow> net_event list \<Rightarrow> CotpConnection" where
  "demo_connection e es =
     \<lparr>co_state = 0, co_srcRef = 2, co_dstRef = 0, co_protocolClass = 0, co_socket = demo_socket es,
      co_options = \<lparr>opt_tsap_id_src = 1, opt_tsap_id_dst = 1, opt_tpdu_size = e\<rparr>,
      co_isLastDataUnit = True, co_payload = ByteBuffer_create 64,
      co_writeBuffer = Some (ByteBuffer_create (2 ^ unat e + 4))\<rparr>"

theorem cotp_data_roundtrip_witness:
  "\<exists>self' tpdus. CotpConnection_sendDataMessage (demo_connection 3 [])
       (BufferChain 12 2 2 [1, 2] (Some (BufferChain 10 10 10 [3, 4, 5, 6, 7, 8, 9, 10, 11, 12] None))) = Some (OK, self') \<and>
     sk_out (co_socket self') = tpdus \<and> list_all (\<lambda>t. length t \<le> 12) tpdus"
proof -
  let ?c = "BufferChain 12 2 2 [1, 2] (Some (BufferChain 10 10 10 [3, 4, 5, 6, 7, 8, 9, 10, 11, 12] None))"
  let ?s = "demo_connection 3 []"
  have sz: "CotpConnection_getTpduSize ?s = 8"
    by (simp add: CotpConnection_getTpduSize_def demo_connection_def)
  have "chain_ok ?c" "chain_solid ?c" "opt_tpdu_size (co_options ?s) \<le> 13"
    by (simp_all add: demo_connection_def)
  moreover have "can_send ?s (nat (CotpConnection_getTpduSize ?s + COTP_RFC1006_HEADER_SIZE))"
    unfolding sz by (simp add: can_send_def demo_connection_def demo_socket_def
        ByteBuffer_create_def COTP_RFC1006_HEADER_SIZE_def)
  ultimately show ?thesis
    using cotp_data_roundtrip [of ?c ?s]
    by (auto simp: sz COTP_RFC1006_HEADER_SIZE_def list_all_iff) (auto simp: demo_connection_def demo_socket_def)
qed

section \<open>Malformed and extreme peers\<close>

text \<open>a DT TPDU whose RFC 1006 length field is 6 makes the payload length \<open>-1\<close>; the failing
  read returns the same \<open>-1\<close>, so the message is reported as \<open>DATA_INDICATION\<close> with a payload
  of size \<open>-1\<close>.\<close>

theorem cotp_short_length_accepted:
  assumes "at_hand (co_socket r) [0x03, 0x00, 0x00, 0x06, 0x02, 0xf0, 0x80] es" and "bb_inv (co_payload r)"
  shows "\<exists>r'. CotpConnection_parseIncomingMessage r = Some (DATA_INDICATION, r') \<and>
           bb_size (co_payload r') = -1"
proof -
  let ?r = "r\<lparr>co_payload := (co_payload r)\<lparr>bb_size := 0\<rparr>\<rparr>"
  have "hi_lo 6 = [0, 6]" by (simp add: hi_lo_def signed_divide_int_def)
  then obtain s1 s2 s3 where pre: "parseRFC1006Header ?r = Some (Some 6, ?r\<lparr>co_socket := s1\<rparr>)"
    "co_readUint8 (?r\<lparr>co_socket := s1\<rparr>) = (Some 2, ?r\<lparr>co_socket := s2\<rparr>)"
    "co_readUint8 (?r\<lparr>co_socket := s2\<rparr>) = (Some 0xf0, ?r\<lparr>co_socket := s3\<rparr>)"
    "at_hand s3 [0x80] es"
    using parse_prefix_at_hand [of ?r 6 2 "0xf0" "[0x80]" es] assms(1) by auto
  obtain s4 where s4: "co_readUint8 (?r\<lparr>co_socket := s3\<rparr>) = (Some 0x80, ?r\<lparr>co_socket := s4\<rparr>)"
    using co_readUint8_at_hand [of "?r\<lparr>co_socket := s3\<rparr>" "0x80" "[]" es] pre(4) by auto
  let ?r4 = "?r\<lparr>co_socket := s4, co_isLastDataUnit := True\<rparr>"
  have dt: "parseDataTpdu (?r\<lparr>co_socket := s3\<rparr>) 2 = (1, ?r4)"
    using s4 by (simp add: parseDataTpdu_def)
  have "ByteStream_readOctets s4 (-1) = (-1, [], s4)"
    by (simp add: ByteStream_readOctets_def readOctets_loop.simps [of s4] Socket_read_def)
  then have rp: "readPayload ?r4 (-1) = Some (-1, ?r4)"
    by (simp add: readPayload_def)
  have "addPayloadToBuffer ?r4 6 = Some (1, ?r4\<lparr>co_payload := (co_payload r)\<lparr>bb_size := -1\<rparr>\<rparr>)"
    using rp assms(2) by (simp add: addPayloadToBuffer.simps [of ?r4] bb_inv_def)
  then show ?thesis
    using pre dt by (simp add: CotpConnection_parseIncomingMessage_def parseIncomingMessage.simps [of ?r])
qed

theorem cotp_short_length_accepted_witness:
  "\<exists>r'. CotpConnection_parseIncomingMessage
      (demo_connection 13 [Ev 1 (Got [0x03, 0x00, 0x00, 0x06, 0x02, 0xf0, 0x80])]) = Some (DATA_INDICATION, r') \<and>
      bb_size (co_payload r') = -1"
proof -
  have "bb_inv (ByteBuffer_create 64)" using bb_create_inv [of 64] by simp
  then show ?thesis
    using cotp_short_length_accepted [of "demo_connection 13 [Ev 1 (Got [0x03, 0x00, 0x00, 0x06, 0x02, 0xf0, 0x80])]" "[]"]
    by (simp add: demo_connection_def demo_socket_def at_hand_def)
qed

text \<open>a peer that negotiated a TPDU size of 1 or 2 bytes gets nothing: the fragment payload
  size is negative, the loop does not run, and \<open>CotpConnection_sendDataMessage\<close> still reports
  \<open>OK\<close> without sending the message.\<close>

theorem cotp_tiny_tpdu_drops_message:
  assumes "unat (opt_tpdu_size (co_options self)) \<le> 1" and "2 \<le> bc_length payload"
    and "co_writeBuffer self \<noteq> None"
  shows "CotpConnection_sendDataMessage self payload = Some (OK, self)"
proof -
  let ?f = "CotpConnection_getTpduSize self - COTP_DATA_HEADER_SIZE" and ?n = "bc_length payload"
  have "?f = -2 \<or> ?f = -1"
    using assms(1) by (auto simp: CotpConnection_getTpduSize_def COTP_DATA_HEADER_SIZE_def le_Suc_eq)
  moreover have "fragmentCount ?n (-2) \<le> 0"
  proof -
    have "?n div 2 \<ge> 1" "?n sdiv (-2) = - (?n div 2)"
      using assms(2) by (simp_all add: signed_divide_int_def sgn_if)
    then show ?thesis using assms(2) by (simp add: fragmentCount_def)
  qed
  moreover have "fragmentCount ?n (-1) \<le> 0"
    using assms(2) by (simp add: fragmentCount_def signed_divide_int_def signed_modulo_int_def sgn_if)
  ultimately have "nat (fragmentCount ?n ?f) = 0" by auto
  then show ?thesis using assms(3) by (auto simp: CotpConnection_sendDataMessage_def Let_def)
qed

theorem cotp_tiny_tpdu_drops_message_witness:
  "CotpConnection_sendDataMessage (demo_connection 1 []) (BufferChain 3 3 3 [1, 2, 3] None) =
     Some (OK, demo_connection 1 [])"
  using cotp_tiny_tpdu_drops_message [of "demo_connection 1 []" "BufferChain 3 3 3 [1, 2, 3] None"]
  by (simp add: demo_connection_def)

section \<open>The connect exchange\<close>

lemma readUint16_hi_lo:
  assumes "at_hand (co_socket c) (hi_lo v @ ys) es" and "0 \<le> v" and "v \<le> 65535"
  shows "\<exists>s'. co_readUint16 c = Some (Some (word_of_int v), c\<lparr>co_socket := s'\<rparr>) \<and> at_hand s' ys es"
proof -
  obtain a b where ab: "hi_lo v = [a, b]" by (simp add: hi_lo_def)
  then show ?thesis
    using co_readUint16_at_hand [of c a b ys es] assms hi_lo_value [of v a b] by auto
qed

lemma uint_word_of_int_16: "0 \<le> v \<Longrightarrow> v \<le> 65535 \<Longrightarrow> uint (word_of_int v :: u16) = v"
  by (simp add: uint_word_of_int)

lemma setTpduSize_exact:
  assumes "unat e \<le> 13"
  shows "CotpConnection_setTpduSize c (2 ^ unat e) =
    c\<lparr>co_options := (co_options c)\<lparr>opt_tpdu_size := e\<rparr>\<rparr>"
proof -
  let ?c' = "CotpConnection_setTpduSize c (2 ^ unat e)"
  let ?k = "unat (opt_tpdu_size (co_options ?c'))"
  have "(2::int) ^ unat e \<le> 2 ^ 13" using assms by (rule power_increasing) simp
  then have m: "min (2 ^ unat e) COTP_MAX_TPDU_SIZE = 2 ^ unat e"
    by (simp add: COTP_MAX_TPDU_SIZE_def)
  then have "(2::int) ^ ?k \<le> 2 ^ unat e \<and> (2::int) ^ unat e < 2 ^ (?k + 1)"
    using setTpduSize_exponent [of "2 ^ unat e" ?k c] by simp
  then have "?k = unat e" by (metis Suc_eq_plus1 le_antisym less_Suc_eq_le one_less_numeral_iff
        power_le_imp_le_exp power_less_imp_less_exp semiring_norm(76))
  then have "opt_tpdu_size (co_options ?c') = e" by (rule word_unat_eq_iff [THEN iffD2])
  then show ?thesis by (simp add: CotpConnection_setTpduSize_def Let_def)
qed

text \<open>One option read from the stream, by type.\<close>

lemma parseOptions_step:
  assumes "at_hand (co_socket c) (t # l # ys) es" and "int n < m"
  shows "\<exists>s'. at_hand s' ys es \<and> parseOptions_loop c m n =
    (parseOption (c\<lparr>co_socket := s'\<rparr>) t l m (n + 2) \<bind>
      (\<lambda>(r, c). case r of None \<Rightarrow> Some (-1, c) | Some n \<Rightarrow> parseOptions_loop c m n))"
proof -
  obtain s1 where s1: "co_readUint8 c = (Some t, c\<lparr>co_socket := s1\<rparr>)" "at_hand s1 (l # ys) es"
    using co_readUint8_at_hand [OF assms(1)] by blast
  obtain s2 where s2: "co_readUint8 (c\<lparr>co_socket := s1\<rparr>) = (Some l, c\<lparr>co_socket := s2\<rparr>)" "at_hand s2 ys es"
    using co_readUint8_at_hand [of "c\<lparr>co_socket := s1\<rparr>" l ys es] s1(2) by auto
  show ?thesis
    using s1 s2 assms(2) by (intro exI [of _ s2]) (simp add: parseOptions_loop.simps [of c])
qed

lemma parse_tpdu_option:
  assumes "at_hand (co_socket c) ([0xc0, 0x01, e] @ ys) es" and "int n < m" and "unat e \<le> 13"
  shows "\<exists>s'. at_hand s' ys es \<and> parseOptions_loop c m n =
    parseOptions_loop (c\<lparr>co_socket := s', co_options := (co_options c)\<lparr>opt_tpdu_size := e\<rparr>\<rparr>) m (n + 3)"
proof -
  obtain s1 where s1: "at_hand s1 (e # ys) es" "parseOptions_loop c m n =
    (parseOption (c\<lparr>co_socket := s1\<rparr>) 0xc0 1 m (n + 2) \<bind>
      (\<lambda>(r, c). case r of None \<Rightarrow> Some (-1, c) | Some n \<Rightarrow> parseOptions_loop c m n))"
    using parseOptions_step [of c "0xc0" 1 "e # ys" es n m] assms(1,2) by auto
  obtain s2 where s2: "co_readUint8 (c\<lparr>co_socket := s1\<rparr>) = (Some e, c\<lparr>co_socket := s2\<rparr>)" "at_hand s2 ys es"
    using co_readUint8_at_hand [of "c\<lparr>co_socket := s1\<rparr>" e ys es] s1(1) by auto
  have "int (unat e) \<le> 13" using assms(3) by linarith
  then have "\<not> 31 \<le> uint e" by simp
  then have "parseOption (c\<lparr>co_socket := s1\<rparr>) 0xc0 1 m (n + 2) =
      Some (Some (n + 3), c\<lparr>co_socket := s2, co_options := (co_options c)\<lparr>opt_tpdu_size := e\<rparr>\<rparr>)"
    using s2(1) setTpduSize_exact [OF assms(3), of "c\<lparr>co_socket := s2\<rparr>"]
    by (simp add: parseOption_def)
  with s1(2) s2(2) show ?thesis by (intro exI [of _ s2]) simp
qed

lemma parse_tsap_option:
  assumes "at_hand (co_socket c) ([t, 0x02] @ hi_lo v @ ys) es" and "int n < m" and "0 \<le> v" and "v \<le> 65535"
    and "t = 0xc1 \<or> t = 0xc2"
  shows "\<exists>s'. at_hand s' ys es \<and> parseOptions_loop c m n =
    parseOptions_loop (c\<lparr>co_socket := s', co_options :=
      (if t = 0xc1 then (co_options c)\<lparr>opt_tsap_id_src := v\<rparr> else (co_options c)\<lparr>opt_tsap_id_dst := v\<rparr>)\<rparr>) m (n + 4)"
proof -
  obtain s1 where s1: "at_hand s1 (hi_lo v @ ys) es" "parseOptions_loop c m n =
    (parseOption (c\<lparr>co_socket := s1\<rparr>) t 2 m (n + 2) \<bind>
      (\<lambda>(r, c). case r of None \<Rightarrow> Some (-1, c) | Some n \<Rightarrow> parseOptions_loop c m n))"
    using parseOptions_step [of c t 2 "hi_lo v @ ys" es n m] assms(1,2) by auto
  obtain s2 where s2: "co_readUint16 (c\<lparr>co_socket := s1\<rparr>) = Some (Some (word_of_int v), c\<lparr>co_socket := s2\<rparr>)"
      "at_hand s2 ys es"
    using readUint16_hi_lo [of "c\<lparr>co_socket := s1\<rparr>" v ys es] s1(1) assms(3,4) by auto
  have "parseOption (c\<lparr>co_socket := s1\<rparr>) t 2 m (n + 2) =
      Some (Some (n + 4), c\<lparr>co_socket := s2, co_options :=
      (if t = 0xc1 then (co_options c)\<lparr>opt_tsap_id_src := v\<rparr> else (co_options c)\<lparr>opt_tsap_id_dst := v\<rparr>)\<rparr>)"
    using s2(1) assms(5) uint_word_of_int_16 [OF assms(3,4)] by (auto simp: parseOption_def)
  with s1(2) s2(2) show ?thesis by (intro exI [of _ s2]) simp
qed

definition options_ok :: "CotpOptions \<Rightarrow> bool" where
  "options_ok o' \<longleftrightarrow> opt_tpdu_size o' \<noteq> 0 \<and> unat (opt_tpdu_size o') \<le> 13 \<and>
     0 \<le> opt_tsap_id_dst o' \<and> opt_tsap_id_dst o' \<le> 65535 \<and>
     0 \<le> opt_tsap_id_src o' \<and> opt_tsap_id_src o' \<le> 65535"

lemma parseOptions_option_bytes:
  assumes "at_hand (co_socket c) (option_bytes o' @ ys) es" and "options_ok o'"
  shows "\<exists>s'. at_hand s' ys es \<and> parseOptions c 11 = Some (1, c\<lparr>co_socket := s', co_options := o'\<rparr>)"
proof -
  let ?e = "opt_tpdu_size o'" and ?d = "opt_tsap_id_dst o'" and ?s = "opt_tsap_id_src o'"
  have bytes: "option_bytes o' = [0xc0, 0x01, ?e] @ [0xc2, 0x02] @ hi_lo ?d @ [0xc1, 0x02] @ hi_lo ?s"
    using assms(2) by (auto simp: option_bytes_def options_ok_def)
  obtain s1 where s1: "at_hand s1 ([0xc2, 0x02] @ hi_lo ?d @ [0xc1, 0x02] @ hi_lo ?s @ ys) es"
    "parseOptions_loop c 11 0 =
       parseOptions_loop (c\<lparr>co_socket := s1, co_options := (co_options c)\<lparr>opt_tpdu_size := ?e\<rparr>\<rparr>) 11 3"
    using parse_tpdu_option [of c ?e "[0xc2, 0x02] @ hi_lo ?d @ [0xc1, 0x02] @ hi_lo ?s @ ys" es 0 11]
      assms bytes by (auto simp: options_ok_def)
  let ?c1 = "c\<lparr>co_socket := s1, co_options := (co_options c)\<lparr>opt_tpdu_size := ?e\<rparr>\<rparr>"
  obtain s2 where s2: "at_hand s2 ([0xc1, 0x02] @ hi_lo ?s @ ys) es"
    "parseOptions_loop ?c1 11 3 = parseOptions_loop (c\<lparr>co_socket := s2,
       co_options := (co_options c)\<lparr>opt_tpdu_size := ?e, opt_tsap_id_dst := ?d\<rparr>\<rparr>) 11 7"
    using parse_tsap_option [of ?c1 "0xc2" ?d "[0xc1, 0x02] @ hi_lo ?s @ ys" es 3 11]
      s1(1) assms(2) by (auto simp: options_ok_def)
  let ?c2 = "c\<lparr>co_socket := s2, co_options := (co_options c)\<lparr>opt_tpdu_size := ?e, opt_tsap_id_dst := ?d\<rparr>\<rparr>"
  obtain s3 where s3: "at_hand s3 ys es"
    "parseOptions_loop ?c2 11 7 = parseOptions_loop (c\<lparr>co_socket := s3, co_options :=
       (co_options c)\<lparr>opt_tpdu_size := ?e, opt_tsap_id_dst := ?d, opt_tsap_id_src := ?s\<rparr>\<rparr>) 11 11"
    using parse_tsap_option [of ?c2 "0xc1" ?s ys es 7 11] s2(1) assms(2) by (auto simp: options_ok_def)
  have "(co_options c)\<lparr>opt_tpdu_size := ?e, opt_tsap_id_dst := ?d, opt_tsap_id_src := ?s\<rparr> = o'"
    by simp
  with s1(2) s2(2) s3 show ?thesis
    by (intro exI [of _ s3]) (simp add: parseOptions_def parseOptions_loop.simps [of _ _ 11])
qed

lemma allocate_room:
  assumes "co_writeBuffer self = None"
  shows "\<exists>wb. allocateWriteBuffer self = self\<lparr>co_writeBuffer := Some wb\<rparr> \<and>
    bb_maxSize wb = CotpConnection_getTpduSize self + 4 \<and>
    length (bb_buffer wb) = nat (CotpConnection_getTpduSize self + 4)"
  using assms by (intro exI [of _ "ByteBuffer_create (CotpConnection_getTpduSize self + 4)"])
    (simp add: allocateWriteBuffer_def ByteBuffer_create_def COTP_RFC1006_HEADER_SIZE_def)

lemma length_option_bytes: "int (length (option_bytes (co_options self))) = getOptionsLength self"
  by (simp add: option_bytes_def getOptionsLength_def)

lemma wb_put_append:
  assumes "co_writeBuffer self = Some wb" and "bb_buffer wb = pre @ rest" and "length pre = pos"
  shows "wb_put self pos bs =
    (if length bs \<le> length rest
     then Some (self\<lparr>co_writeBuffer := Some (wb\<lparr>bb_buffer := pre @ bs @ drop (length bs) rest,
                                              bb_size := int (pos + length bs)\<rparr>)\<rparr>)
     else None)"
  using assms by (simp add: wb_put_def emits_Some emits_None)

text \<open>The bytes of the connect response.\<close>

definition response_bytes :: "CotpConnection \<Rightarrow> byte list" where
  "response_bytes self =
     [0x03, 0x00] @ hi_lo (11 + getOptionsLength self) @
     [word_of_int (6 + getOptionsLength self), 0xd0] @ hi_lo (co_srcRef self) @ hi_lo (co_dstRef self) @
     [word_of_int (co_protocolClass self)] @ option_bytes (co_options self)"

lemma response_writes:
  assumes "co_writeBuffer self = Some wb"
  shows "writeRfc1006Header self (11 + getOptionsLength self) \<bind>
      (\<lambda>s. writeStaticConnectResponseHeader s (getOptionsLength self) \<bind> writeOptions) =
    (if length (response_bytes self) \<le> length (bb_buffer wb)
     then Some (self\<lparr>co_writeBuffer := Some (wb\<lparr>bb_buffer := response_bytes self @
             drop (length (response_bytes self)) (bb_buffer wb),
           bb_size := int (length (response_bytes self))\<rparr>)\<rparr>)
     else None)"
proof -
  define b where "b = bb_buffer wb"
  define os where "os = option_bytes (co_options self)"
  define h1 where "h1 = [0x03, 0x00] @ hi_lo (11 + getOptionsLength self)"
  define h2 where "h2 = [word_of_int (6 + getOptionsLength self), 0xd0] @ hi_lo (co_srcRef self) @
    hi_lo (co_dstRef self) @ [word_of_int (co_protocolClass self)]"
  let ?s1 = "self\<lparr>co_writeBuffer := Some (wb\<lparr>bb_buffer := h1 @ drop 4 b, bb_size := 4\<rparr>)\<rparr>"
  let ?s2 = "self\<lparr>co_writeBuffer := Some (wb\<lparr>bb_buffer := h1 @ h2 @ drop 11 b, bb_size := 11\<rparr>)\<rparr>"
  let ?s3 = "self\<lparr>co_writeBuffer := Some (wb\<lparr>bb_buffer := h1 @ h2 @ os @ drop (11 + length os) b,
    bb_size := int (11 + length os)\<rparr>)\<rparr>"
  have len: "length h1 = 4" "length h2 = 7" by (simp_all add: h1_def h2_def)
  have r: "response_bytes self = h1 @ h2 @ os" by (simp add: response_bytes_def h1_def h2_def os_def)
  have w1: "writeRfc1006Header self (11 + getOptionsLength self) = (if 4 \<le> length b then Some ?s1 else None)"
    using wb_put_append [OF assms, of "[]" b 0 h1] len
    unfolding writeRfc1006Header_def h1_def [symmetric] by (auto simp: b_def)
  have put2: "writeStaticConnectResponseHeader ?s1 (getOptionsLength self) = wb_put ?s1 4 h2"
    by (simp add: writeStaticConnectResponseHeader_def h2_def)
  have put3: "writeOptions ?s2 = wb_put ?s2 11 os" by (simp add: writeOptions_def os_def)
  have w2: "writeStaticConnectResponseHeader ?s1 (getOptionsLength self) =
      (if 11 \<le> length b then Some ?s2 else None)" if "4 \<le> length b"
    using wb_put_append [of ?s1 "wb\<lparr>bb_buffer := h1 @ drop 4 b, bb_size := 4\<rparr>" h1 "drop 4 b" 4 h2] that len
      put2 by auto
  have w3: "writeOptions ?s2 = (if 11 + length os \<le> length b then Some ?s3 else None)" if "11 \<le> length b"
    using wb_put_append [of ?s2 "wb\<lparr>bb_buffer := h1 @ h2 @ drop 11 b, bb_size := 11\<rparr>" "h1 @ h2" "drop 11 b" 11 os]
      that len put3 by (auto simp: add.commute)
  show ?thesis
    using w1 w2 w3 r len by (auto simp: add.commute b_def)
qed

text \<open>a server that answers a connect request on a fresh connection stays inside its
  write buffer exactly when the negotiated TPDU size leaves room for the response; a smaller
  size requested by the client makes the response run past the end of the buffer.\<close>

theorem cotp_response_room:
  assumes "co_writeBuffer self = None"
  shows "CotpConnection_sendConnectionResponseMessage self \<noteq> None \<longleftrightarrow>
         7 + getOptionsLength self \<le> CotpConnection_getTpduSize self"
proof -
  obtain wb where wb: "allocateWriteBuffer self = self\<lparr>co_writeBuffer := Some wb\<rparr>"
      "bb_maxSize wb = CotpConnection_getTpduSize self + 4"
      "length (bb_buffer wb) = nat (CotpConnection_getTpduSize self + 4)"
    using allocate_room [OF assms] by blast
  let ?s = "self\<lparr>co_writeBuffer := Some wb\<rparr>"
  have opt: "getOptionsLength ?s = getOptionsLength self" by (simp add: getOptionsLength_def)
  have len: "int (length (response_bytes ?s)) = 11 + getOptionsLength self"
    using length_option_bytes [of ?s] opt by (simp add: response_bytes_def)
  have pos: "0 < CotpConnection_getTpduSize self" by (simp add: CotpConnection_getTpduSize_def)
  have iff: "length (response_bytes ?s) \<le> length (bb_buffer wb) \<longleftrightarrow>
      7 + getOptionsLength self \<le> CotpConnection_getTpduSize self"
    using len pos wb(3) by linarith
  have "CotpConnection_sendConnectionResponseMessage self =
      (writeRfc1006Header ?s (11 + getOptionsLength ?s) \<bind>
        (\<lambda>s. writeStaticConnectResponseHeader s (getOptionsLength ?s) \<bind> writeOptions)) \<bind>
      (\<lambda>s. sendBuffer s \<bind> (\<lambda>(ok, s). Some (if ok then OK else ERROR, s)))"
    by (simp add: CotpConnection_sendConnectionResponseMessage_def wb(1) Let_def Option.bind_assoc)
  then show ?thesis
    using response_writes [of ?s wb] iff
    by (auto simp: sendBuffer_def ByteBuffer_getBuffer_def ByteBuffer_getSize_def rd_n_def
        split: bind_splits prod.splits)
qed

theorem cotp_response_room_witness:
  "CotpConnection_sendConnectionResponseMessage ((demo_connection 4 [])\<lparr>co_writeBuffer := None\<rparr>) = None"
proof -
  let ?s = "(demo_connection 4 [])\<lparr>co_writeBuffer := None\<rparr>"
  have "\<not> 7 + getOptionsLength ?s \<le> CotpConnection_getTpduSize ?s" "co_writeBuffer ?s = None"
    by (simp_all add: getOptionsLength_def CotpConnection_getTpduSize_def demo_connection_def)
  with cotp_response_room [of ?s] show ?thesis by blast
qed

lemma sendConnectionResponse_spec:
  assumes "co_writeBuffer self = None" and "7 + getOptionsLength self \<le> CotpConnection_getTpduSize self"
    and "sk_sends (co_socket self) = []"
  shows "\<exists>self'. CotpConnection_sendConnectionResponseMessage self = Some (OK, self') \<and>
    sent self self' [response_bytes self]"
proof -
  obtain wb where wb: "allocateWriteBuffer self = self\<lparr>co_writeBuffer := Some wb\<rparr>"
      "bb_maxSize wb = CotpConnection_getTpduSize self + 4"
      "length (bb_buffer wb) = nat (CotpConnection_getTpduSize self + 4)"
    using allocate_room [OF assms(1)] by blast
  let ?s = "self\<lparr>co_writeBuffer := Some wb\<rparr>" and ?m = "response_bytes self"
  have opt: "getOptionsLength ?s = getOptionsLength self" "response_bytes ?s = ?m"
    by (simp_all add: getOptionsLength_def response_bytes_def)
  have len: "int (length ?m) = 11 + getOptionsLength self"
    using length_option_bytes [of self] by (simp add: response_bytes_def)
  then have fit: "length ?m \<le> length (bb_buffer wb)" using wb(3) assms(2) by linarith
  let ?wb = "wb\<lparr>bb_buffer := ?m @ drop (length ?m) (bb_buffer wb), bb_size := int (length ?m)\<rparr>"
  have w: "writeRfc1006Header ?s (11 + getOptionsLength self) \<bind>
      (\<lambda>s. writeStaticConnectResponseHeader s (getOptionsLength self) \<bind> writeOptions) =
      Some (self\<lparr>co_writeBuffer := Some ?wb\<rparr>)"
    using response_writes [of ?s wb] fit opt by simp
  have "0 \<le> bb_maxSize ?wb" using wb(2) by (simp add: CotpConnection_getTpduSize_def)
  then have "sendBuffer (self\<lparr>co_writeBuffer := Some ?wb\<rparr>) = Some (True, self\<lparr>
      co_socket := (co_socket self)\<lparr>sk_out := sk_out (co_socket self) @ [?m]\<rparr>,
      co_writeBuffer := Some (?wb\<lparr>bb_size := 0\<rparr>)\<rparr>)"
    using sendBuffer_spec [of "self\<lparr>co_writeBuffer := Some ?wb\<rparr>" ?wb ?m] assms(3) by simp
  moreover have "CotpConnection_sendConnectionResponseMessage self =
      (writeRfc1006Header ?s (11 + getOptionsLength self) \<bind>
        (\<lambda>s. writeStaticConnectResponseHeader s (getOptionsLength self) \<bind> writeOptions)) \<bind>
      (\<lambda>s. sendBuffer s \<bind> (\<lambda>(ok, s). Some (if ok then OK else ERROR, s)))"
    by (simp add: CotpConnection_sendConnectionResponseMessage_def wb(1) Let_def Option.bind_assoc opt(1))
  ultimately show ?thesis using w by (auto simp: sent_def)
qed

lemma parse_connect_confirm:
  assumes "at_hand (co_socket c) (response_bytes self) es" and "options_ok (co_options self)"
    and "0 \<le> co_srcRef self" and "co_srcRef self \<le> 65535" and "0 \<le> co_dstRef self" and "co_dstRef self \<le> 65535"
    and "0 \<le> co_protocolClass self" and "co_protocolClass self \<le> 255"
  shows "\<exists>s'. parseIncomingMessage c = Some (CONNECT_INDICATION, c\<lparr>co_socket := s',
      co_isLastDataUnit := True, co_srcRef := co_srcRef self, co_dstRef := co_dstRef self,
      co_protocolClass := co_protocolClass self, co_options := co_options self\<rparr>)"
proof -
  let ?src = "co_srcRef self" and ?dst = "co_dstRef self" and ?cls = "co_protocolClass self"
  let ?opt = "option_bytes (co_options self)"
  let ?body = "hi_lo ?src @ hi_lo ?dst @ [word_of_int ?cls] @ ?opt"
  have ol: "getOptionsLength self = 11"
    using assms(2) by (simp add: getOptionsLength_def options_ok_def Let_def)
  have cls: "uint (word_of_int ?cls :: byte) = ?cls"
    using assms(7,8) by (simp add: uint_word_of_int)
  have "at_hand (co_socket c) ([0x03, 0x00] @ hi_lo 22 @ [17, 0xd0] @ ?body) es"
    using assms(1) ol by (simp add: response_bytes_def)
  then obtain s1 s2 s3 where pre: "parseRFC1006Header c = Some (Some 22, c\<lparr>co_socket := s1\<rparr>)"
    "co_readUint8 (c\<lparr>co_socket := s1\<rparr>) = (Some 17, c\<lparr>co_socket := s2\<rparr>)"
    "co_readUint8 (c\<lparr>co_socket := s2\<rparr>) = (Some 0xd0, c\<lparr>co_socket := s3\<rparr>)" "at_hand s3 ?body es"
    using parse_prefix_at_hand [of c 22 17 "0xd0" ?body es] by auto
  let ?c3 = "c\<lparr>co_socket := s3, co_isLastDataUnit := True\<rparr>"
  obtain s4 where s4: "co_readUint16 ?c3 = Some (Some (word_of_int ?src), ?c3\<lparr>co_socket := s4\<rparr>)"
      "at_hand s4 (hi_lo ?dst @ [word_of_int ?cls] @ ?opt) es"
    using readUint16_hi_lo [of ?c3 ?src] pre(4) assms(3,4) by auto
  let ?c4 = "?c3\<lparr>co_socket := s4, co_srcRef := ?src\<rparr>"
  obtain s5 where s5: "co_readUint16 ?c4 = Some (Some (word_of_int ?dst), ?c4\<lparr>co_socket := s5\<rparr>)"
      "at_hand s5 ([word_of_int ?cls] @ ?opt) es"
    using readUint16_hi_lo [of ?c4 ?dst] s4(2) assms(5,6) by auto
  let ?c5 = "?c4\<lparr>co_socket := s5, co_dstRef := ?dst\<rparr>"
  obtain s6 where s6: "co_readUint8 ?c5 = (Some (word_of_int ?cls), ?c5\<lparr>co_socket := s6\<rparr>)" "at_hand s6 ?opt es"
    using co_readUint8_at_hand [of ?c5 "word_of_int ?cls" ?opt es] s5(2) by auto
  let ?c6 = "?c5\<lparr>co_socket := s6, co_protocolClass := ?cls\<rparr>"
  obtain s7 where s7: "parseOptions ?c6 11 = Some (1, ?c6\<lparr>co_socket := s7, co_options := co_options self\<rparr>)"
    using parseOptions_option_bytes [of ?c6 "co_options self" "[]" es] s6(2) assms(2) by auto
  have "parseConnectConfirmTpdu ?c3 17 = Some (1, ?c6\<lparr>co_socket := s7, co_options := co_options self\<rparr>)"
    using s4(1) s5(1) s6(1) s7 cls uint_word_of_int_16 assms(3-6)
    by (simp add: parseConnectConfirmTpdu_def)
  then show ?thesis
    using pre by (intro exI [of _ s7]) (simp add: parseIncomingMessage.simps [of c])
qed

text \<open>The connect response of a server, parsed by the client: the client reports
  \<open>CONNECT_INDICATION\<close> and ends up with the server's TPDU size, transport selectors,
  references and protocol class.\<close>

theorem cotp_connect_roundtrip:
  assumes "co_writeBuffer self = None" and "18 \<le> CotpConnection_getTpduSize self"
    and "sk_sends (co_socket self) = []" and "options_ok (co_options self)"
    and "0 \<le> co_srcRef self" and "co_srcRef self \<le> 65535" and "0 \<le> co_dstRef self" and "co_dstRef self \<le> 65535"
    and "0 \<le> co_protocolClass self" and "co_protocolClass self \<le> 255"
  shows "\<exists>self' msg. CotpConnection_sendConnectionResponseMessage self = Some (OK, self') \<and>
    sk_out (co_socket self') = sk_out (co_socket self) @ [msg] \<and>
    (\<forall>client es. at_hand (co_socket client) msg es \<longrightarrow>
      (\<exists>client'. CotpConnection_parseIncomingMessage client = Some (CONNECT_INDICATION, client') \<and>
         co_options client' = co_options self \<and> co_srcRef client' = co_srcRef self \<and>
         co_dstRef client' = co_dstRef self \<and> co_protocolClass client' = co_protocolClass self))"
proof -
  have "getOptionsLength self = 11"
    using assms(4) by (simp add: getOptionsLength_def options_ok_def Let_def)
  then obtain self' where self': "CotpConnection_sendConnectionResponseMessage self = Some (OK, self')"
      "sent self self' [response_bytes self]"
    using sendConnectionResponse_spec [OF assms(1) _ assms(3)] assms(2) by auto
  have "\<exists>client'. CotpConnection_parseIncomingMessage client = Some (CONNECT_INDICATION, client') \<and>
         co_options client' = co_options self \<and> co_srcRef client' = co_srcRef self \<and>
         co_dstRef client' = co_dstRef self \<and> co_protocolClass client' = co_protocolClass self"
    if "at_hand (co_socket client) (response_bytes self) es" for client es
    using parse_connect_confirm [of "client\<lparr>co_payload := (co_payload client)\<lparr>bb_size := 0\<rparr>\<rparr>" self es] that
      assms(4-10)
    by (auto simp: CotpConnection_parseIncomingMessage_def)
  with self' show ?thesis
    by (intro exI [of _ self'] exI [of _ "response_bytes self"]) (auto simp: sent_def)
qed

theorem cotp_connect_roundtrip_witness:
  "\<exists>self' msg. CotpConnection_sendConnectionResponseMessage
      ((demo_connection 13 [])\<lparr>co_writeBuffer := None\<rparr>) = Some (OK, self') \<and>
    sk_out (co_socket self') = [msg]"
  using cotp_connect_roundtrip [of "(demo_connection 13 [])\<lparr>co_writeBuffer := None\<rparr>"]
  by (auto simp: demo_connection_def demo_socket_def options_ok_def CotpConnection_getTpduSize_def)

section \<open>Input is consumed and buffers keep their size\<close>

text \<open>What every operation on a connection respects: it does not add input, and the receive buffer
  keeps its size.\<close>

definition co_after :: "CotpConnection \<Rightarrow> CotpConnection \<Rightarrow> bool" where
  "co_after r' r \<longleftrightarrow> co_todo r' \<le> co_todo r \<and> length (bb_buffer (co_payload r')) = length (bb_buffer (co_payload r))"

lemma co_after_refl [simp, intro]: "co_after r r"
  by (simp add: co_after_def)

lemma co_after_trans [trans]: "co_after r'' r' \<Longrightarrow> co_after r' r \<Longrightarrow> co_after r'' r"
  by (auto simp: co_after_def)

lemma co_after_update [simp]:
  "co_after (r\<lparr>co_dstRef := x\<rparr>) q = co_after r q" "co_after (r\<lparr>co_srcRef := x\<rparr>) q = co_after r q"
  "co_after (r\<lparr>co_protocolClass := x\<rparr>) q = co_after r q" "co_after (r\<lparr>co_options := ops\<rparr>) q = co_after r q"
  "co_after (r\<lparr>co_isLastDataUnit := u\<rparr>) q = co_after r q" "co_after (r\<lparr>co_writeBuffer := wb\<rparr>) q = co_after r q"
  "co_after q (r\<lparr>co_dstRef := x\<rparr>) = co_after q r" "co_after q (r\<lparr>co_srcRef := x\<rparr>) = co_after q r"
  "co_after q (r\<lparr>co_protocolClass := x\<rparr>) = co_after q r" "co_after q (r\<lparr>co_isLastDataUnit := u\<rparr>) = co_after q r"
  by (simp_all add: co_after_def co_todo_def)

lemma co_readUint8_after: "co_readUint8 r = (b, r') \<Longrightarrow> co_after r' r"
  using co_readUint8_todo [of r b r'] by (auto simp: co_after_def co_readUint8_def split: prod.splits)

lemma co_readUint16_after: "co_readUint16 r = Some (v, r') \<Longrightarrow> co_after r' r"
  using co_readUint16_todo [of r v r'] by (auto simp: co_after_def co_readUint16_def split: bind_splits)

lemma skipOption_after: "skipOption n r = (ok, r') \<Longrightarrow> co_after r' r"
  by (induction n arbitrary: r)
    (auto split: prod.splits option.splits dest!: co_readUint8_after intro: co_after_trans)

lemma parseOption_after:
  assumes "parseOption r t l opt_len k = Some (x, r')"
  shows "co_after r' r"
proof -
  have tpdu: "co_after (CotpConnection_setTpduSize s n) r = co_after s r" for s n
    by (simp add: CotpConnection_setTpduSize_def Let_def)
  show ?thesis using assms
    by (auto simp: parseOption_def tpdu split: if_splits bind_splits option.splits prod.splits bool.splits
        dest: co_readUint8_after co_readUint16_after skipOption_after)
qed

lemma parseOptions_loop_after:
  "parseOptions_loop r opt_len k = Some (x, r') \<Longrightarrow> co_after r' r"
proof (induction r opt_len k rule: parseOptions_loop.induct)
  case (1 r opt_len k)
  show ?case
  proof (cases "int k < opt_len")
    case False
    with "1.prems" show ?thesis by (simp add: parseOptions_loop.simps [of r])
  next
    case True
    obtain b1 r1 where b1: "co_readUint8 r = (b1, r1)" by fastforce
    obtain b2 r2 where b2: "co_readUint8 r1 = (b2, r2)" by fastforce
    note after = co_readUint8_after [OF b1] co_readUint8_after [OF b2]
    show ?thesis
    proof (cases "b1 = None \<or> b2 = None")
      case True
      with "1.prems" b1 b2 \<open>int k < opt_len\<close> after show ?thesis
        by (auto simp: parseOptions_loop.simps [of r] split: option.splits intro: co_after_trans)
    next
      case False
      then obtain t l where tl: "b1 = Some t" "b2 = Some l" by auto
      with "1.prems" b1 b2 True obtain y r3 where opt: "parseOption r2 t l opt_len (k + 2) = Some (y, r3)"
        by (auto simp: parseOptions_loop.simps [of r] split: bind_splits)
      have "co_after r' r3"
        using "1.prems" b1 b2 tl True opt "1.IH" [OF True b1 [symmetric] tl(1) b2 [symmetric] tl(2) opt refl]
        by (auto simp: parseOptions_loop.simps [of r] split: option.splits)
      with parseOption_after [OF opt] after show ?thesis by (auto simp: co_after_def)
    qed
  qed
qed

lemma parseConnectTpdu_after:
  "parseConnectRequestTpdu r len = Some (x, r') \<Longrightarrow> co_after r' r"
  "parseConnectConfirmTpdu r len = Some (x, r') \<Longrightarrow> co_after r' r"
  by (auto simp: parseConnectRequestTpdu_def parseConnectConfirmTpdu_def parseOptions_def
      split: bind_splits option.splits prod.splits
      dest!: co_readUint8_after co_readUint16_after parseOptions_loop_after)
    (auto simp: co_after_def)

lemma emits_length: "emits bs w = Some w' \<Longrightarrow> length (fst w') = length (fst w)"
  by (induction bs arbitrary: w) (auto simp: emits.simps emit_def split: prod.splits if_splits bind_splits)

lemma readPayload_after: "readPayload r n = Some (k, r') \<Longrightarrow> co_after r' r"
  using readPayload_todo [of r n k r'] emits_length
  by (fastforce simp: co_after_def readPayload_def split: prod.splits bind_splits if_splits)

lemma co_readUint8_consumes:
  "co_readUint8 r = (b, r') \<Longrightarrow> co_after r' r \<and> (b \<noteq> None \<longrightarrow> co_todo r' < co_todo r)"
  using co_readUint8_after co_readUint8_todo by blast

lemma parseRFC1006Header_after:
  "parseRFC1006Header r = Some (v, r') \<Longrightarrow> co_after r' r \<and> (v \<noteq> None \<longrightarrow> co_todo r' < co_todo r)"
  by (auto simp: parseRFC1006Header_def split: prod.splits option.splits if_splits
      dest!: co_readUint8_consumes co_readUint16_after)
    (auto simp: co_after_def)

lemma parseDataTpdu_after: "parseDataTpdu r len = (x, r') \<Longrightarrow> co_after r' r"
  by (auto simp: parseDataTpdu_def split: if_splits prod.splits option.splits dest: co_readUint8_after)

lemma incoming_after:
  shows "addPayloadToBuffer r n = Some (x, r1) \<Longrightarrow> co_after r1 r"
    and "parseIncomingMessage q = Some (ind, r2) \<Longrightarrow> co_after r2 q \<and> (ind \<noteq> ERROR \<longrightarrow> co_todo r2 < co_todo q)"
proof (induction r n and q arbitrary: x r1 and ind r2 rule: addPayloadToBuffer_parseIncomingMessage.induct)
  case (1 r n)
  show ?case
  proof (cases "bb_size (co_payload r) + (n - 7) > bb_maxSize (co_payload r)")
    case True
    with "1.prems" show ?thesis by (simp add: addPayloadToBuffer.simps [of r] Let_def)
  next
    case False
    with "1.prems" obtain k r' where rp: "readPayload r (n - 7) = Some (k, r')"
      by (auto simp: addPayloadToBuffer.simps [of r] Let_def split: bind_splits)
    let ?r = "r'\<lparr>co_payload := (co_payload r')\<lparr>bb_size := bb_size (co_payload r') + (n - 7)\<rparr>\<rparr>"
    have "co_after ?r r" using readPayload_after [OF rp] by (simp add: co_after_def co_todo_def)
    moreover have "co_after r1 ?r" if "k = n - 7" "\<not> co_isLastDataUnit r'"
      using "1.prems" "1.IH" [OF refl False rp refl] that rp False
      by (auto simp: addPayloadToBuffer.simps [of r] Let_def split: bind_splits)
    moreover have "r1 = r' \<or> r1 = ?r" if "k \<noteq> n - 7 \<or> co_isLastDataUnit r'"
      using "1.prems" that rp False by (auto simp: addPayloadToBuffer.simps [of r] Let_def split: if_splits)
    ultimately show ?thesis using readPayload_after [OF rp] by (auto intro: co_after_trans)
  qed
next
  case (2 q)
  obtain v q1 where hd: "parseRFC1006Header q = Some (v, q1)"
    using "2.prems" by (auto simp: parseIncomingMessage.simps [of q] split: bind_splits)
  obtain b1 q2 where b1: "co_readUint8 q1 = (b1, q2)" by fastforce
  obtain b2 q3 where b2: "co_readUint8 q2 = (b2, q3)" by fastforce
  note base = parseRFC1006Header_after [OF hd] co_readUint8_after [OF b1] co_readUint8_after [OF b2]
  show ?case
  proof (cases "v = None \<or> b1 = None \<or> b2 = None")
    case True
    with "2.prems" hd b1 b2 base show ?thesis
      by (auto simp: parseIncomingMessage.simps [of q] split: option.splits intro: co_after_trans)
  next
    case False
    then obtain l len t where s: "v = Some l" "b1 = Some len" "b2 = Some t" by auto
    obtain k q4 where dt: "parseDataTpdu q3 len = (k, q4)" by fastforce
    have "co_after r2 q3"
      using "2.prems" hd b1 b2 s dt "2.IH" [OF hd refl s(1) b1 [symmetric] s(2) b2 [symmetric] s(3) _ _ _ dt [symmetric]]
      by (auto simp: parseIncomingMessage.simps [of q] split: if_splits bind_splits
          dest: parseConnectTpdu_after parseDataTpdu_after intro: co_after_trans)
    with base s show ?thesis by (auto simp: co_after_def)
  qed
qed

text \<open>Sending leaves the input alone.\<close>

lemma sendBuffer_after: "sendBuffer r = Some (ok, r') \<Longrightarrow> co_after r' r"
  by (auto simp: sendBuffer_def Socket_write_def co_after_def co_todo_def sk_todo_def
      split: bind_splits prod.splits list.splits if_splits)

lemma wb_put_after: "wb_put r pos bs = Some r' \<Longrightarrow> co_after r' r"
  by (auto simp: wb_put_def split: bind_splits)

lemma sendFragments_after:
  "sendFragments k f len pos c i r = Some (ind, r') \<Longrightarrow> co_after r' r"
proof (induction k arbitrary: pos c i r)
  case 0
  then show ?case by simp
next
  case (Suc k)
  from Suc.prems show ?case
    by (auto simp: Let_def writeRfc1006Header_def writeDataTpduHeader_def split: bind_splits if_splits
        dest!: Suc.IH wb_put_after sendBuffer_after)
      (auto simp: co_after_def co_todo_def)
qed

lemma sendDataMessage_after: "CotpConnection_sendDataMessage r c = Some (ind, r') \<Longrightarrow> co_after r' r"
  by (auto simp: CotpConnection_sendDataMessage_def Let_def split: bind_splits dest: sendFragments_after)

lemma sendConnectionResponse_after:
  "CotpConnection_sendConnectionResponseMessage r = Some (ind, r') \<Longrightarrow> co_after r' r"
  by (auto simp: CotpConnection_sendConnectionResponseMessage_def writeRfc1006Header_def writeOptions_def
      writeStaticConnectResponseHeader_def allocateWriteBuffer_def Let_def split: bind_splits option.splits
      dest!: wb_put_after sendBuffer_after)
    (auto simp: co_after_def co_todo_def)

end
