(* ===== verification/Iso_Session.thy ===== *)
theory Iso_Session
  imports Common_Buffers Iso_Parameters
begin

text \<open>
  \<open>src/src/mms/iso_session/iso_session.c\<close>: the ISO 8327 session layer. The parser works on
  the memory behind \<open>message->buffer\<close>, which is at least as long as \<open>message->size\<close>; a read
  outside that memory is \<open>None\<close>.
\<close>

section \<open>State\<close>

record IsoSession =
  is_callingSessionSelector :: u16
  is_calledSessionSelector :: u16
  is_sessionRequirement :: u16
  is_protocolOptions :: byte
  is_userData :: ByteBuffer

datatype IsoSessionIndication =
  SESSION_OK | SESSION_ERROR | SESSION_CONNECT | SESSION_GIVE_TOKEN | SESSION_DATA |
  SESSION_ABORT | SESSION_FINISH | SESSION_DISCONNECT | SESSION_NOT_FINISHED

definition IsoSession_init :: IsoSession where
  "IsoSession_init =
     \<lparr>is_callingSessionSelector = 0x0001, is_calledSessionSelector = 0x0001,
      is_sessionRequirement = 0x0002, is_protocolOptions = 0,
      is_userData = \<lparr>bb_buffer = [], bb_maxSize = 0, bb_size = 0\<rparr>\<rparr>"

definition IsoSession_getUserData :: "IsoSession \<Rightarrow> ByteBuffer" where
  "IsoSession_getUserData session = is_userData session"

section \<open>Parsing\<close>

text \<open>One round of the loop of \<open>parseAcceptParameters\<close>: the new offset and the two flags, or
  \<open>None\<close> for \<open>return -1\<close>. Parameters other than protocol options (19) and version (22) are
  skipped, each in its own way; an unknown identifier skips nothing.\<close>

definition acceptParameter ::
  "IsoSession \<Rightarrow> byte list \<Rightarrow> int \<Rightarrow> bool \<Rightarrow> bool \<Rightarrow> ((int \<times> bool \<times> bool) option \<times> IsoSession) option" where
  "acceptParameter session mem offset hasProtocolOptions hasProtocolVersion = do {
     pi \<leftarrow> rd mem offset;
     param_len \<leftarrow> rd mem (offset + 1);
     (if pi = 19 then
        (if param_len \<noteq> 1 then Some (None, session)
         else do {
           options \<leftarrow> rd mem (offset + 2);
           Some (Some (offset + 3, True, hasProtocolVersion), session\<lparr>is_protocolOptions := options\<rparr>)
         })
      else if pi = 21 then
        Some (Some (offset + 2 + 4, hasProtocolOptions, hasProtocolVersion), session)
      else if pi = 22 then do {
        param_val \<leftarrow> rd mem (offset + 2);
        if param_val \<noteq> 2 then Some (None, session)
        else Some (Some (offset + 3, hasProtocolOptions, True), session)
      }
      else if pi = 26 then do {
        _ \<leftarrow> rd mem (offset + 2);
        Some (Some (offset + 3, hasProtocolOptions, hasProtocolVersion), session)
      }
      else if pi \<in> {23, 55, 56, 57, 58} then
        Some (Some (offset + 2 + uint param_len, hasProtocolOptions, hasProtocolVersion), session)
      else Some (Some (offset + 2, hasProtocolOptions, hasProtocolVersion), session))
   }"

lemma acceptParameter_cases:
  assumes "acceptParameter session mem offset o' v = Some (r, session')"
  obtains "r = None" | offset' o'' v'' where "r = Some (offset', o'', v'')"
    "offset + 2 \<le> offset'" "offset' \<le> offset + 257"
proof (cases r)
  case None
  then show ?thesis using that(1) by blast
next
  case (Some a)
  obtain offset' o'' v'' where a: "a = (offset', o'', v'')" by (cases a) auto
  have "offset + 2 \<le> offset' \<and> offset' \<le> offset + 257"
  proof -
    obtain l where "rd mem (offset + 1) = Some l"
      using assms by (auto simp: acceptParameter_def split: bind_splits)
    with assms Some a uint_byte [of l] uint_byte_nonneg [of l] show ?thesis
      by (auto simp: acceptParameter_def split: bind_splits if_splits)
  qed
  then show ?thesis using that(2) Some a by blast
qed

function acceptParameters_loop ::
  "IsoSession \<Rightarrow> byte list \<Rightarrow> int \<Rightarrow> int \<Rightarrow> bool \<Rightarrow> bool \<Rightarrow>
   ((int \<times> bool \<times> bool) option \<times> IsoSession) option" where
  "acceptParameters_loop session mem offset maxOffset hasProtocolOptions hasProtocolVersion =
     (if offset < maxOffset then do {
        (r, session) \<leftarrow> acceptParameter session mem offset hasProtocolOptions hasProtocolVersion;
        (case r of
           None \<Rightarrow> Some (None, session)
         | Some (offset, hasProtocolOptions, hasProtocolVersion) \<Rightarrow>
             acceptParameters_loop session mem offset maxOffset hasProtocolOptions hasProtocolVersion)
      }
      else Some (Some (offset, hasProtocolOptions, hasProtocolVersion), session))"
  by pat_completeness auto
termination
  by (relation "measure (\<lambda>(session, mem, offset, maxOffset, o', v). nat (maxOffset - offset))")
    (auto elim: acceptParameter_cases)

declare acceptParameters_loop.simps [simp del]

definition parseAcceptParameters ::
  "IsoSession \<Rightarrow> byte list \<Rightarrow> int \<Rightarrow> int \<Rightarrow> (int \<times> IsoSession) option" where
  "parseAcceptParameters session mem startOffset parameterLength = do {
     (r, session) \<leftarrow> acceptParameters_loop session mem startOffset (startOffset + parameterLength) False False;
     Some (case r of
             None \<Rightarrow> -1
           | Some (offset, hasProtocolOptions, hasProtocolVersion) \<Rightarrow>
               if hasProtocolOptions \<and> hasProtocolVersion then offset - startOffset else -1,
           session)
   }"

lemma acceptParameters_loop_bounds:
  "acceptParameters_loop session mem offset maxOffset o' v = Some (Some (offset', o'', v''), session') \<Longrightarrow>
   offset \<le> offset' \<and> offset' \<le> max offset (maxOffset + 256)"
proof (induction session mem offset maxOffset o' v rule: acceptParameters_loop.induct)
  case (1 session mem offset maxOffset o' v)
  show ?case
  proof (cases "offset < maxOffset")
    case False
    with "1.prems" show ?thesis by (simp add: acceptParameters_loop.simps [of session])
  next
    case True
    with "1.prems" obtain r s1 where step: "acceptParameter session mem offset o' v = Some (r, s1)"
      and rest: "(case r of None \<Rightarrow> Some (None, s1) | Some (offset, o', v) \<Rightarrow>
        acceptParameters_loop s1 mem offset maxOffset o' v) = Some (Some (offset', o'', v''), session')"
      by (auto simp: acceptParameters_loop.simps [of session] split: bind_splits)
    from step show ?thesis
    proof (cases rule: acceptParameter_cases)
      case 1
      with rest show ?thesis by simp
    next
      case (2 offset1 o1 v1)
      with rest have "acceptParameters_loop s1 mem offset1 maxOffset o1 v1 = Some (Some (offset', o'', v''), session')"
        by simp
      with "1.IH" [OF True step refl 2(1) refl refl] 2 True show ?thesis by auto
    qed
  qed
qed

lemma parseAcceptParameters_bounds:
  "parseAcceptParameters session mem start len = Some (n, session') \<Longrightarrow> 0 \<le> len \<Longrightarrow>
   -1 \<le> n \<and> n \<le> len + 256"
  by (auto simp: parseAcceptParameters_def split: bind_splits option.splits if_splits
      dest!: acceptParameters_loop_bounds)

text \<open>One round of the loop of \<open>parseSessionHeaderParameters\<close>: the new offset (\<open>Inl\<close>), or the
  returned indication (\<open>Inr\<close>).\<close>

definition read_u16 :: "byte list \<Rightarrow> int \<Rightarrow> u16 option" where
  "read_u16 mem offset = do {
     hi \<leftarrow> rd mem offset;
     lo \<leftarrow> rd mem (offset + 1);
     Some (ucast hi * 0x100 + ucast lo)
   }"

definition sessionHeaderParameter ::
  "IsoSession \<Rightarrow> ByteBuffer \<Rightarrow> int \<Rightarrow> ((int + IsoSessionIndication) \<times> IsoSession) option" where
  "sessionHeaderParameter session message offset =
     (let mem = bb_buffer message in do {
        pgi \<leftarrow> rd mem offset;
        parameterLength \<leftarrow> rd mem (offset + 1);
        (if pgi = 5 then do {
           (connectAcceptLen, session) \<leftarrow>
             parseAcceptParameters session mem (offset + 2) (uint parameterLength);
           Some (if connectAcceptLen = -1 then Inr SESSION_ERROR else Inl (offset + 2 + connectAcceptLen), session)
         }
         else if pgi = 20 then
           (if parameterLength \<noteq> 2 then Some (Inr SESSION_ERROR, session)
            else do {
              v \<leftarrow> read_u16 mem (offset + 2);
              Some (Inl (offset + 4), session\<lparr>is_sessionRequirement := v\<rparr>)
            })
         else if pgi = 51 then
           (if parameterLength \<noteq> 2 then Some (Inr SESSION_ERROR, session)
            else do {
              v \<leftarrow> read_u16 mem (offset + 2);
              Some (Inl (offset + 4), session\<lparr>is_callingSessionSelector := v\<rparr>)
            })
         else if pgi = 52 then
           (if parameterLength \<noteq> 2 then Some (Inr SESSION_ERROR, session)
            else do {
              v \<leftarrow> read_u16 mem (offset + 2);
              Some (Inl (offset + 4), session\<lparr>is_calledSessionSelector := v\<rparr>)
            })
         else if pgi = 193 then do {
           dat \<leftarrow> ptr_add mem (offset + 2);
           Some (Inr SESSION_OK,
                 session\<lparr>is_userData := ByteBuffer_wrap dat (bb_size message - (offset + 2))
                                          (bb_maxSize message - (offset + 2))\<rparr>)
         }
         else if pgi \<in> {1, 17, 25, 49, 60} then Some (Inl (offset + 2 + uint parameterLength), session)
         else Some (Inl (offset + 2), session))
      })"

lemma sessionHeaderParameter_advances:
  assumes "sessionHeaderParameter session message offset = Some (Inl offset', session')"
  shows "offset < offset'"
proof -
  obtain l where "rd (bb_buffer message) (offset + 1) = Some l"
    using assms by (auto simp: sessionHeaderParameter_def Let_def split: bind_splits)
  moreover have "0 < 2 + uint l" using uint_byte_nonneg [of l] by linarith
  ultimately show ?thesis using assms
    by (auto simp: sessionHeaderParameter_def Let_def split: bind_splits if_splits
        dest!: parseAcceptParameters_bounds)
qed

function sessionHeader_loop ::
  "IsoSession \<Rightarrow> ByteBuffer \<Rightarrow> int \<Rightarrow> int \<Rightarrow> (IsoSessionIndication \<times> IsoSession) option" where
  "sessionHeader_loop session message offset parametersOctets =
     (if offset < parametersOctets + 2 then do {
        (r, session) \<leftarrow> sessionHeaderParameter session message offset;
        (case r of
           Inr indication \<Rightarrow> Some (indication, session)
         | Inl offset \<Rightarrow> sessionHeader_loop session message offset parametersOctets)
      }
      else Some (SESSION_ERROR, session))"
  by pat_completeness auto
termination
  by (relation "measure (\<lambda>(session, message, offset, n). nat (n + 2 - offset))")
    (auto dest: sessionHeaderParameter_advances)

declare sessionHeader_loop.simps [simp del]

definition parseSessionHeaderParameters ::
  "IsoSession \<Rightarrow> ByteBuffer \<Rightarrow> int \<Rightarrow> (IsoSessionIndication \<times> IsoSession) option" where
  "parseSessionHeaderParameters session message parametersOctets =
     sessionHeader_loop session message 2 parametersOctets"

text \<open>The SPDUs that carry parameters: \<open>length\<close> is checked, then the parameters are parsed, and a
  successful parse gives the indication of the SPDU.\<close>

definition parseParameterSpdu ::
  "IsoSession \<Rightarrow> ByteBuffer \<Rightarrow> byte \<Rightarrow> IsoSessionIndication \<Rightarrow> (IsoSessionIndication \<times> IsoSession) option" where
  "parseParameterSpdu session message len indication =
     (if uint len \<noteq> bb_size message - 2 then Some (SESSION_ERROR, session)
      else do {
        (r, session) \<leftarrow> parseSessionHeaderParameters session message (uint len);
        Some (if r = SESSION_OK then indication else SESSION_ERROR, session)
      })"

definition IsoSession_parseMessage ::
  "IsoSession \<Rightarrow> ByteBuffer \<Rightarrow> (IsoSessionIndication \<times> IsoSession) option" where
  "IsoSession_parseMessage session message =
     (let mem = bb_buffer message in
      if bb_size message > 1 then do {
        id \<leftarrow> rd mem 0;
        len \<leftarrow> rd mem 1;
        (if id = 13 then parseParameterSpdu session message len SESSION_CONNECT
         else if id = 14 then parseParameterSpdu session message len SESSION_CONNECT
         else if id = 1 then
           (if bb_size message < 4 then Some (SESSION_ERROR, session)
            else do {
              b2 \<leftarrow> rd mem 2;
              b3 \<leftarrow> rd mem 3;
              if len = 0 \<and> b2 = 1 \<and> b3 = 0 then do {
                dat \<leftarrow> ptr_add mem 4;
                Some (SESSION_DATA,
                      session\<lparr>is_userData := ByteBuffer_wrap dat (bb_size message - 4) (bb_maxSize message - 4)\<rparr>)
              }
              else Some (SESSION_ERROR, session)
            })
         else if id = 8 then Some (SESSION_NOT_FINISHED, session)
         else if id = 9 then parseParameterSpdu session message len SESSION_FINISH
         else if id = 10 then parseParameterSpdu session message len SESSION_DISCONNECT
         else if id = 25 then Some (SESSION_ABORT, session)
         else Some (SESSION_ERROR, session))
      }
      else Some (SESSION_ERROR, session))"

section \<open>Creating SPDUs\<close>

definition encodeConnectAcceptItem :: "byte \<Rightarrow> wbuf \<Rightarrow> wbuf option" where
  "encodeConnectAcceptItem options = emits [5, 6, 0x13, 1, options, 0x16, 1, 2]"

definition u16_bytes :: "u16 \<Rightarrow> byte list" where
  "u16_bytes v = [ucast (v div 0x100), ucast (v AND 0x00ff)]"

definition encodeSessionRequirement :: "IsoSession \<Rightarrow> wbuf \<Rightarrow> wbuf option" where
  "encodeSessionRequirement self = emits ([0x14, 2] @ u16_bytes (is_sessionRequirement self))"

definition encodeCallingSessionSelector :: "IsoSession \<Rightarrow> wbuf \<Rightarrow> wbuf option" where
  "encodeCallingSessionSelector self = emits ([0x33, 2] @ u16_bytes (is_callingSessionSelector self))"

definition encodeCalledSessionSelector :: "IsoSession \<Rightarrow> wbuf \<Rightarrow> wbuf option" where
  "encodeCalledSessionSelector self = emits ([0x34, 2] @ u16_bytes (is_calledSessionSelector self))"

definition encodeSessionUserData :: "byte \<Rightarrow> wbuf \<Rightarrow> wbuf option" where
  "encodeSessionUserData payloadLength = emits [0xc1, payloadLength]"

text \<open>\<open>offset++\<close> over the length octet, and its later assignment.\<close>

definition skip_octet :: "wbuf \<Rightarrow> wbuf option" where
  "skip_octet w = Some (fst w, snd w + 1)"

definition fill_octet :: "nat \<Rightarrow> byte \<Rightarrow> wbuf \<Rightarrow> wbuf option" where
  "fill_octet i b w = (if i < length (fst w) then Some ((fst w)[i := b], snd w) else None)"

definition IsoSession_createDataSpdu :: "IsoSession \<Rightarrow> BufferChain \<Rightarrow> BufferChain \<Rightarrow> BufferChain option" where
  "IsoSession_createDataSpdu session buffer payload =
     Some (link_part ([0x01, 0x00, 0x01, 0x00], 4) buffer payload)"

text \<open>The connect SPDU first takes the selectors over from the parameters; the session
  selectors are read from the presentation selectors, truncated to 16 bits.\<close>

definition setConnectSelectors :: "IsoSession \<Rightarrow> IsoConnectionParameters \<Rightarrow> IsoSession" where
  "setConnectSelectors self isoParameters =
     self\<lparr>is_calledSessionSelector := ucast (ip_remotePSelector isoParameters),
          is_callingSessionSelector := ucast (ip_localPSelector isoParameters)\<rparr>"

definition connectSpdu :: "IsoSession \<Rightarrow> BufferChain \<Rightarrow> BufferChain \<Rightarrow> BufferChain option" where
  "connectSpdu self buffer payload = do {
     w \<leftarrow> emit 13 (bc_buffer buffer, 0);
     w \<leftarrow> skip_octet w;
     w \<leftarrow> encodeConnectAcceptItem 0 w;
     w \<leftarrow> encodeSessionRequirement self w;
     w \<leftarrow> encodeCallingSessionSelector self w;
     w \<leftarrow> encodeCalledSessionSelector self w;
     w \<leftarrow> encodeSessionUserData (word_of_int (bc_length payload)) w;
     w \<leftarrow> fill_octet 1 (word_of_int (int (snd w) - 1 - 1 + bc_length payload)) w;
     Some (link_part w buffer payload)
   }"

definition IsoSession_createConnectSpdu ::
  "IsoSession \<Rightarrow> IsoConnectionParameters \<Rightarrow> BufferChain \<Rightarrow> BufferChain \<Rightarrow> (IsoSession \<times> BufferChain) option" where
  "IsoSession_createConnectSpdu self isoParameters buffer payload =
     (let self = setConnectSelectors self isoParameters in do {
        buffer \<leftarrow> connectSpdu self buffer payload;
        Some (self, buffer)
      })"

definition IsoSession_createAbortSpdu :: "IsoSession \<Rightarrow> BufferChain \<Rightarrow> BufferChain \<Rightarrow> BufferChain option" where
  "IsoSession_createAbortSpdu self buffer payload = do {
     w \<leftarrow> emits [25, word_of_int (5 + bc_length payload), 17, 1, 11, 193, word_of_int (bc_length payload)]
            (bc_buffer buffer, 0);
     Some (link_part w buffer payload)
   }"

definition IsoSession_createFinishSpdu :: "IsoSession \<Rightarrow> BufferChain \<Rightarrow> BufferChain \<Rightarrow> BufferChain option" where
  "IsoSession_createFinishSpdu self buffer payload = do {
     w \<leftarrow> emits [9, word_of_int (5 + bc_length payload), 17, 1, 2, 193, word_of_int (bc_length payload)]
            (bc_buffer buffer, 0);
     Some (link_part w buffer payload)
   }"

definition IsoSession_createDisconnectSpdu :: "IsoSession \<Rightarrow> BufferChain \<Rightarrow> BufferChain \<Rightarrow> BufferChain option" where
  "IsoSession_createDisconnectSpdu self buffer payload = do {
     w \<leftarrow> emits [10, word_of_int (2 + bc_length payload), 193, word_of_int (bc_length payload)]
            (bc_buffer buffer, 0);
     Some (link_part w buffer payload)
   }"

definition IsoSession_createAcceptSpdu :: "IsoSession \<Rightarrow> BufferChain \<Rightarrow> BufferChain \<Rightarrow> BufferChain option" where
  "IsoSession_createAcceptSpdu self buffer payload = do {
     w \<leftarrow> emit 14 (bc_buffer buffer, 0);
     w \<leftarrow> skip_octet w;
     w \<leftarrow> encodeConnectAcceptItem (is_protocolOptions self) w;
     w \<leftarrow> encodeSessionRequirement self w;
     w \<leftarrow> encodeCalledSessionSelector self w;
     w \<leftarrow> encodeSessionUserData (word_of_int (bc_length payload)) w;
     w \<leftarrow> fill_octet 1 (word_of_int (int (snd w) - 1 - 1 + bc_length payload)) w;
     Some (link_part w buffer payload)
   }"

section \<open>The created headers\<close>

definition connect_header :: "IsoSession \<Rightarrow> int \<Rightarrow> byte list" where
  "connect_header self n =
     [13, word_of_int (22 + n), 5, 6, 0x13, 1, 0, 0x16, 1, 2] @
     [0x14, 2] @ u16_bytes (is_sessionRequirement self) @
     [0x33, 2] @ u16_bytes (is_callingSessionSelector self) @
     [0x34, 2] @ u16_bytes (is_calledSessionSelector self) @ [0xc1, word_of_int n]"

definition accept_header :: "IsoSession \<Rightarrow> int \<Rightarrow> byte list" where
  "accept_header self n =
     [14, word_of_int (18 + n), 5, 6, 0x13, 1, is_protocolOptions self, 0x16, 1, 2] @
     [0x14, 2] @ u16_bytes (is_sessionRequirement self) @
     [0x34, 2] @ u16_bytes (is_calledSessionSelector self) @ [0xc1, word_of_int n]"

lemmas session_encoders [enc_emits] =
  encodeConnectAcceptItem_def encodeSessionRequirement_def encodeCallingSessionSelector_def
  encodeCalledSessionSelector_def encodeSessionUserData_def

lemma header_with_length:
  assumes "2 + length bs \<le> length b"
  shows "emit c (b, 0) \<bind> (\<lambda>w. skip_octet w \<bind> (\<lambda>w. emits bs w \<bind> (\<lambda>w. fill_octet 1 (g (snd w)) w \<bind> k))) =
    k ((c # g (2 + length bs) # bs) @ drop (2 + length bs) b, 2 + length bs)"
proof -
  obtain b0 b1 b2 where b: "b = b0 # b1 # b2"
    using assms by (cases b; cases "tl b") auto
  show ?thesis
    using assms emits_Some [of "Suc (Suc 0)" bs "c # b1 # b2"]
    by (simp add: b emit_def skip_octet_def fill_octet_def)
qed

interpretation data_spdu: layer_header IsoSession_createDataSpdu "\<lambda>_ _. [0x01, 0x00, 0x01, 0x00]"
  by unfold_locales (rule exI [of _ "[]"], simp add: IsoSession_createDataSpdu_def link_part_def)

interpretation connect_spdu: layer_header connectSpdu connect_header
proof unfold_locales
  fix s :: IsoSession and payload buffer
  let ?n = "bc_length payload"
  assume "length (connect_header s ?n) \<le> length (bc_buffer buffer)"
  then have len: "2 + length (drop 2 (connect_header s ?n)) \<le> length (bc_buffer buffer)"
    by (simp add: connect_header_def u16_bytes_def)
  have bs: "drop 2 (connect_header s ?n) = [5, 6, 19, 1, 0, 22, 1, 2] @ ([20, 2] @ u16_bytes (is_sessionRequirement s)) @
      ([51, 2] @ u16_bytes (is_callingSessionSelector s)) @ ([52, 2] @ u16_bytes (is_calledSessionSelector s)) @
      [193, word_of_int ?n]"
    by (simp add: connect_header_def)
  have "connectSpdu s buffer payload =
      emit 13 (bc_buffer buffer, 0) \<bind> (\<lambda>w. skip_octet w \<bind> (\<lambda>w. emits (drop 2 (connect_header s ?n)) w \<bind>
        (\<lambda>w. fill_octet 1 (word_of_int (int (snd w) - 1 - 1 + ?n)) w \<bind> (\<lambda>w. Some (link_part w buffer payload)))))"
    unfolding connectSpdu_def bs session_encoders by (simp only: emits_bind_assoc append_assoc)
  also have "\<dots> = Some (link_part (connect_header s ?n @ drop 24 (bc_buffer buffer), length (connect_header s ?n)) buffer payload)"
    unfolding header_with_length [OF len, of 13 "\<lambda>p. word_of_int (int p - 1 - 1 + ?n)"]
    by (simp add: connect_header_def u16_bytes_def link_part_def)
  finally show "\<exists>rest. connectSpdu s buffer payload =
      Some (link_part (connect_header s ?n @ rest, length (connect_header s ?n)) buffer payload)" by blast
qed

interpretation accept_spdu: layer_header IsoSession_createAcceptSpdu accept_header
proof unfold_locales
  fix s :: IsoSession and payload buffer
  let ?n = "bc_length payload"
  assume "length (accept_header s ?n) \<le> length (bc_buffer buffer)"
  then have len: "2 + length (drop 2 (accept_header s ?n)) \<le> length (bc_buffer buffer)"
    by (simp add: accept_header_def u16_bytes_def)
  have bs: "drop 2 (accept_header s ?n) = [5, 6, 19, 1, is_protocolOptions s, 22, 1, 2] @
      ([20, 2] @ u16_bytes (is_sessionRequirement s)) @
      ([52, 2] @ u16_bytes (is_calledSessionSelector s)) @ [193, word_of_int ?n]"
    by (simp add: accept_header_def)
  have "IsoSession_createAcceptSpdu s buffer payload =
      emit 14 (bc_buffer buffer, 0) \<bind> (\<lambda>w. skip_octet w \<bind> (\<lambda>w. emits (drop 2 (accept_header s ?n)) w \<bind>
        (\<lambda>w. fill_octet 1 (word_of_int (int (snd w) - 1 - 1 + ?n)) w \<bind> (\<lambda>w. Some (link_part w buffer payload)))))"
    unfolding IsoSession_createAcceptSpdu_def bs session_encoders by (simp only: emits_bind_assoc append_assoc)
  also have "\<dots> = Some (link_part (accept_header s ?n @ drop 20 (bc_buffer buffer), length (accept_header s ?n)) buffer payload)"
    unfolding header_with_length [OF len, of 14 "\<lambda>p. word_of_int (int p - 1 - 1 + ?n)"]
    by (simp add: accept_header_def u16_bytes_def link_part_def)
  finally show "\<exists>rest. IsoSession_createAcceptSpdu s buffer payload =
      Some (link_part (accept_header s ?n @ rest, length (accept_header s ?n)) buffer payload)" by blast
qed

interpretation abort_spdu: layer_header IsoSession_createAbortSpdu
  "\<lambda>_ n. [25, word_of_int (5 + n), 17, 1, 11, 193, word_of_int n]"
  by unfold_locales (auto simp: IsoSession_createAbortSpdu_def emits_start)

interpretation finish_spdu: layer_header IsoSession_createFinishSpdu
  "\<lambda>_ n. [9, word_of_int (5 + n), 17, 1, 2, 193, word_of_int n]"
  by unfold_locales (auto simp: IsoSession_createFinishSpdu_def emits_start)

interpretation disconnect_spdu: layer_header IsoSession_createDisconnectSpdu
  "\<lambda>_ n. [10, word_of_int (2 + n), 193, word_of_int n]"
  by unfold_locales (auto simp: IsoSession_createDisconnectSpdu_def emits_start)

section \<open>Parsing what was created\<close>

lemma read_u16_bytes: "ucast (ucast (v div 0x100) :: byte) * 0x100 + ucast (ucast (v AND 0xff) :: byte) = (v :: u16)"
proof -
  have "v AND 0xff = take_bit 8 v" by (simp add: take_bit_eq_mask mask_eq_exp_minus_1)
  moreover have "ucast (ucast (v div 0x100) :: byte) = v div (0x100 :: u16)"
  proof (rule word_uint_eqI)
    have "uint v < 2 ^ LENGTH(16)" by (rule unsigned_less)
    then have "uint v div 256 < 256" by simp
    then show "uint (ucast (ucast (v div 0x100) :: byte) :: u16) = uint (v div 0x100)"
      by (simp add: unsigned_ucast_eq take_bit_eq_mod uint_div uint_mod
          mod_pos_pos_trivial pos_imp_zdiv_nonneg_iff)
  qed
  moreover have "ucast (ucast (take_bit 8 v) :: byte) = take_bit 8 v"
  proof (rule word_uint_eqI)
    show "uint (ucast (ucast (take_bit 8 v) :: byte) :: u16) = uint (take_bit 8 v)"
      by (simp add: unsigned_ucast_eq unsigned_take_bit_eq min_def)
  qed
  moreover have "v div 0x100 * 0x100 + take_bit 8 v = v"
    by (simp add: take_bit_eq_mod div_mult_mod_eq)
  ultimately show ?thesis by metis
qed

lemma accept_item:
  assumes "mem = [a, b, c, d, 0x13, 1, options, 0x16, 1, 2] @ rest"
  shows "parseAcceptParameters session mem 4 6 = Some (6, session\<lparr>is_protocolOptions := options\<rparr>)"
proof -
  have 1: "acceptParameter session mem 4 False False = Some (Some (7, True, False), session\<lparr>is_protocolOptions := options\<rparr>)"
    by (simp add: acceptParameter_def assms)
  have 2: "acceptParameter s mem 7 True False = Some (Some (10, True, True), s)" for s
    by (simp add: acceptParameter_def assms)
  show ?thesis
    by (simp add: parseAcceptParameters_def acceptParameters_loop.simps [of _ _ 4] 1
        acceptParameters_loop.simps [of _ _ 7] 2 acceptParameters_loop.simps [of _ _ 10])
qed

lemma header_item_5:
  assumes "bb_buffer message = [a, b, 5, 6, 0x13, 1, options, 0x16, 1, 2] @ rest"
  shows "sessionHeaderParameter session message 2 = Some (Inl 10, session\<lparr>is_protocolOptions := options\<rparr>)"
  using accept_item [OF assms, of session] by (simp add: sessionHeaderParameter_def assms Let_def)

lemma header_selector:
  assumes "bb_buffer message = pre @ [pgi, 2] @ u16_bytes v @ rest" and "offset = int (length pre)"
  shows "pgi = 0x14 \<Longrightarrow> sessionHeaderParameter session message offset =
           Some (Inl (offset + 4), session\<lparr>is_sessionRequirement := v\<rparr>)"
    and "pgi = 0x33 \<Longrightarrow> sessionHeaderParameter session message offset =
           Some (Inl (offset + 4), session\<lparr>is_callingSessionSelector := v\<rparr>)"
    and "pgi = 0x34 \<Longrightarrow> sessionHeaderParameter session message offset =
           Some (Inl (offset + 4), session\<lparr>is_calledSessionSelector := v\<rparr>)"
proof -
  have "rd (bb_buffer message) offset = Some pgi" "rd (bb_buffer message) (offset + 1) = Some 2"
    "read_u16 (bb_buffer message) (offset + 2) = Some v"
    using assms read_u16_bytes [of v] by (simp_all add: read_u16_def u16_bytes_def rd_append)
  then show "pgi = 0x14 \<Longrightarrow> sessionHeaderParameter session message offset =
           Some (Inl (offset + 4), session\<lparr>is_sessionRequirement := v\<rparr>)"
    and "pgi = 0x33 \<Longrightarrow> sessionHeaderParameter session message offset =
           Some (Inl (offset + 4), session\<lparr>is_callingSessionSelector := v\<rparr>)"
    and "pgi = 0x34 \<Longrightarrow> sessionHeaderParameter session message offset =
           Some (Inl (offset + 4), session\<lparr>is_calledSessionSelector := v\<rparr>)"
    by (simp_all add: sessionHeaderParameter_def Let_def)
qed

lemma header_user_data:
  assumes "bb_buffer message = pre @ [0xc1, n] @ rest" and "offset = int (length pre)"
  shows "sessionHeaderParameter session message offset =
    Some (Inr SESSION_OK, session\<lparr>is_userData := ByteBuffer_wrap rest
       (bb_size message - (offset + 2)) (bb_maxSize message - (offset + 2))\<rparr>)"
proof -
  have "rd (bb_buffer message) offset = Some 0xc1" "rd (bb_buffer message) (offset + 1) = Some n"
    "ptr_add (bb_buffer message) (offset + 2) = Some rest"
    using assms by (simp_all add: rd_append ptr_add_def nat_add_distrib)
  then show ?thesis by (simp add: sessionHeaderParameter_def Let_def)
qed

lemma header_loop_step:
  "sessionHeaderParameter session message offset = Some (Inl offset', session') \<Longrightarrow> offset < n + 2 \<Longrightarrow>
   sessionHeader_loop session message offset n = sessionHeader_loop session' message offset' n"
  by (simp add: sessionHeader_loop.simps [of session])

lemma header_loop_user_data:
  assumes "bb_buffer message = pre @ [0xc1, k] @ rest" and "offset = int (length pre)" and "offset < n + 2"
  shows "sessionHeader_loop session message offset n =
    Some (SESSION_OK, session\<lparr>is_userData := ByteBuffer_wrap rest
       (bb_size message - (offset + 2)) (bb_maxSize message - (offset + 2))\<rparr>)"
  using header_user_data [OF assms(1,2)] assms(3) by (simp add: sessionHeader_loop.simps [of session])

lemma user_data_content:
  "bb_content (ByteBuffer_wrap (payload @ rest) (int (length payload)) m) = payload"
  by (simp add: bb_content_def ByteBuffer_wrap_def)

lemma length_connect_header: "length (connect_header self n) = 24"
  by (simp add: connect_header_def u16_bytes_def)

lemma length_accept_header: "length (accept_header self n) = 20"
  by (simp add: accept_header_def u16_bytes_def)

lemma parse_connect_header:
  assumes "received message (connect_header self (int (length payload)) @ payload)" and "n = 22 + int (length payload)"
  shows "\<exists>ud. parseSessionHeaderParameters session message n =
    Some (SESSION_OK, session\<lparr>is_protocolOptions := 0, is_sessionRequirement := is_sessionRequirement self,
      is_callingSessionSelector := is_callingSessionSelector self,
      is_calledSessionSelector := is_calledSessionSelector self, is_userData := ud\<rparr>) \<and>
    bb_content ud = payload"
proof -
  obtain rest where mem: "bb_buffer message = (connect_header self (int (length payload)) @ payload) @ rest"
    and sz: "bb_size message = int (length (connect_header self (int (length payload)) @ payload))"
    using received_memory [OF assms(1)] by blast
  define r where "r = u16_bytes (is_sessionRequirement self)"
  define i where "i = u16_bytes (is_callingSessionSelector self)"
  define d where "d = u16_bytes (is_calledSessionSelector self)"
  define h where "h = [13, word_of_int n, 5, 6, 0x13, 1, 0, 0x16, 1, 2 :: byte]"
  have len: "length r = 2" "length i = 2" "length d = 2" "length h = 10"
    by (simp_all add: r_def i_def d_def h_def u16_bytes_def)
  have m: "bb_buffer message = h @ [0x14, 2] @ r @ [0x33, 2] @ i @ [0x34, 2] @ d @
      [0xc1, word_of_int (int (length payload))] @ payload @ rest"
    using mem assms(2) by (simp add: connect_header_def h_def r_def i_def d_def)
  let ?s1 = "session\<lparr>is_protocolOptions := 0\<rparr>"
  let ?s2 = "?s1\<lparr>is_sessionRequirement := is_sessionRequirement self\<rparr>"
  let ?s3 = "?s2\<lparr>is_callingSessionSelector := is_callingSessionSelector self\<rparr>"
  let ?s4 = "?s3\<lparr>is_calledSessionSelector := is_calledSessionSelector self\<rparr>"
  let ?ud = "ByteBuffer_wrap (payload @ rest) (bb_size message - 24) (bb_maxSize message - 24)"
  have 1: "sessionHeaderParameter session message 2 = Some (Inl 10, ?s1)"
    by (rule header_item_5) (simp add: m h_def)
  have 2: "sessionHeaderParameter ?s1 message 10 = Some (Inl 14, ?s2)"
    using header_selector(1) [of message h "0x14" "is_sessionRequirement self" _ 10 ?s1] m len
    by (simp add: r_def)
  have 3: "sessionHeaderParameter ?s2 message 14 = Some (Inl 18, ?s3)"
    using header_selector(2) [of message "h @ [0x14, 2] @ r" "0x33" "is_callingSessionSelector self" _ 14 ?s2] m len
    by (simp add: i_def)
  have 4: "sessionHeaderParameter ?s3 message 18 = Some (Inl 22, ?s4)"
    using header_selector(3) [of message "h @ [0x14, 2] @ r @ [0x33, 2] @ i" "0x34" "is_calledSessionSelector self" _ 18 ?s3] m len
    by (simp add: d_def)
  have 5: "sessionHeader_loop ?s4 message 22 n = Some (SESSION_OK, ?s4\<lparr>is_userData := ?ud\<rparr>)"
    using header_loop_user_data [of message "h @ [0x14, 2] @ r @ [0x33, 2] @ i @ [0x34, 2] @ d" _ "payload @ rest" 22 n ?s4]
      m len assms(2) by simp
  have "parseSessionHeaderParameters session message n = Some (SESSION_OK, ?s4\<lparr>is_userData := ?ud\<rparr>)"
    using 1 2 3 4 5 assms(2) by (simp add: parseSessionHeaderParameters_def header_loop_step)
  moreover have "bb_content ?ud = payload"
    using sz length_connect_header [of self "int (length payload)"] by (simp add: user_data_content)
  ultimately show ?thesis by (intro exI [of _ ?ud]) simp
qed

lemma parse_accept_header:
  assumes "received message (accept_header self (int (length payload)) @ payload)" and "n = 18 + int (length payload)"
  shows "\<exists>ud. parseSessionHeaderParameters session message n =
    Some (SESSION_OK, session\<lparr>is_protocolOptions := is_protocolOptions self,
      is_sessionRequirement := is_sessionRequirement self,
      is_calledSessionSelector := is_calledSessionSelector self, is_userData := ud\<rparr>) \<and>
    bb_content ud = payload"
proof -
  obtain rest where mem: "bb_buffer message = (accept_header self (int (length payload)) @ payload) @ rest"
    and sz: "bb_size message = int (length (accept_header self (int (length payload)) @ payload))"
    using received_memory [OF assms(1)] by blast
  define r where "r = u16_bytes (is_sessionRequirement self)"
  define d where "d = u16_bytes (is_calledSessionSelector self)"
  define h where "h = [14, word_of_int n, 5, 6, 0x13, 1, is_protocolOptions self, 0x16, 1, 2 :: byte]"
  have len: "length r = 2" "length d = 2" "length h = 10"
    by (simp_all add: r_def d_def h_def u16_bytes_def)
  have m: "bb_buffer message = h @ [0x14, 2] @ r @ [0x34, 2] @ d @
      [0xc1, word_of_int (int (length payload))] @ payload @ rest"
    using mem assms(2) by (simp add: accept_header_def h_def r_def d_def)
  let ?s1 = "session\<lparr>is_protocolOptions := is_protocolOptions self\<rparr>"
  let ?s2 = "?s1\<lparr>is_sessionRequirement := is_sessionRequirement self\<rparr>"
  let ?s3 = "?s2\<lparr>is_calledSessionSelector := is_calledSessionSelector self\<rparr>"
  let ?ud = "ByteBuffer_wrap (payload @ rest) (bb_size message - 20) (bb_maxSize message - 20)"
  have 1: "sessionHeaderParameter session message 2 = Some (Inl 10, ?s1)"
    by (rule header_item_5) (simp add: m h_def)
  have 2: "sessionHeaderParameter ?s1 message 10 = Some (Inl 14, ?s2)"
    using header_selector(1) [of message h "0x14" "is_sessionRequirement self" _ 10 ?s1] m len
    by (simp add: r_def)
  have 3: "sessionHeaderParameter ?s2 message 14 = Some (Inl 18, ?s3)"
    using header_selector(3) [of message "h @ [0x14, 2] @ r" "0x34" "is_calledSessionSelector self" _ 14 ?s2] m len
    by (simp add: d_def)
  have 4: "sessionHeader_loop ?s3 message 18 n = Some (SESSION_OK, ?s3\<lparr>is_userData := ?ud\<rparr>)"
    using header_loop_user_data [of message "h @ [0x14, 2] @ r @ [0x34, 2] @ d" _ "payload @ rest" 18 n ?s3]
      m len assms(2) by simp
  have "parseSessionHeaderParameters session message n = Some (SESSION_OK, ?s3\<lparr>is_userData := ?ud\<rparr>)"
    using 1 2 3 4 assms(2) by (simp add: parseSessionHeaderParameters_def header_loop_step)
  moreover have "bb_content ?ud = payload"
    using sz length_accept_header [of self "int (length payload)"] by (simp add: user_data_content)
  ultimately show ?thesis by (intro exI [of _ ?ud]) simp
qed

text \<open>The length octet counts modulo 256.\<close>

lemma length_octet: "0 \<le> k \<Longrightarrow> uint (word_of_int k :: byte) = k \<longleftrightarrow> k \<le> 255"
  by (auto simp: uint_word_of_int)

lemma parse_parameter_message:
  assumes "received message ([c, word_of_int k] @ bs)" and "k = int (length bs)"
    and "c = 13 \<and> ind = SESSION_CONNECT \<or> c = 14 \<and> ind = SESSION_CONNECT \<or>
         c = 9 \<and> ind = SESSION_FINISH \<or> c = 10 \<and> ind = SESSION_DISCONNECT"
  shows "IsoSession_parseMessage session message =
    (if k \<le> 255 then do {
       (r, session) \<leftarrow> parseSessionHeaderParameters session message k;
       Some (if r = SESSION_OK then ind else SESSION_ERROR, session)
     }
     else Some (SESSION_ERROR, session))"
proof -
  obtain rest where mem: "bb_buffer message = ([c, word_of_int k] @ bs) @ rest"
    and "bb_size message = int (length ([c, word_of_int k] @ bs))"
    using received_memory [OF assms(1)] by blast
  then have sz: "bb_size message = k + 2" using assms(2) by simp
  have k: "0 \<le> k" using assms(2) by simp
  have rd: "rd (bb_buffer message) 0 = Some c" "rd (bb_buffer message) 1 = Some (word_of_int k)"
    using mem by simp_all
  have "1 < bb_size message" using sz k by simp
  then have "IsoSession_parseMessage session message = parseParameterSpdu session message (word_of_int k) ind"
    using assms(3) by (elim disjE conjE) (simp_all add: IsoSession_parseMessage_def rd)
  also have "\<dots> = (if k \<le> 255 then do {
       (r, session) \<leftarrow> parseSessionHeaderParameters session message k;
       Some (if r = SESSION_OK then ind else SESSION_ERROR, session)
     }
     else Some (SESSION_ERROR, session))"
  proof (cases "k \<le> 255")
    case True
    then have "uint (word_of_int k :: byte) = k" using length_octet [OF k] by blast
    then show ?thesis using True sz by (simp only: parseParameterSpdu_def) simp
  next
    case False
    then have "uint (word_of_int k :: byte) \<noteq> bb_size message - 2" using length_octet [OF k] sz by simp
    then show ?thesis using False by (simp only: parseParameterSpdu_def) simp
  qed
  finally show ?thesis .
qed

section \<open>Properties\<close>

text \<open>C28: the connect SPDU created from a payload of at most 233 bytes is parsed by the peer as
  \<open>SESSION_CONNECT\<close> with the same session requirement, selectors and user data; for any longer
  payload the 8-bit length octet wraps and the peer reports \<open>SESSION_ERROR\<close>.\<close>

theorem session_connect_roundtrip:
  assumes "chain_ok payload" and "24 \<le> length (bc_buffer buffer)" and "24 + bc_length payload \<le> INT_MAX"
  shows "\<exists>self' spdu. IsoSession_createConnectSpdu self params buffer payload = Some (self', spdu) \<and>
    chain_ok spdu \<and>
    (\<forall>peer message. received message (chain_bytes spdu) \<longrightarrow>
      (if bc_length payload \<le> 233
       then \<exists>peer'. IsoSession_parseMessage peer message = Some (SESSION_CONNECT, peer') \<and>
              bb_content (is_userData peer') = chain_bytes payload \<and>
              is_sessionRequirement peer' = is_sessionRequirement self' \<and>
              is_callingSessionSelector peer' = is_callingSessionSelector self' \<and>
              is_calledSessionSelector peer' = is_calledSessionSelector self'
       else IsoSession_parseMessage peer message = Some (SESSION_ERROR, peer)))"
proof -
  let ?self = "setConnectSelectors self params" and ?n = "bc_length payload"
  have n: "?n = int (length (chain_bytes payload))" using chain_ok_length [OF assms(1)] by simp
  obtain spdu where spdu: "connectSpdu ?self buffer payload = Some spdu" "chain_ok spdu"
      "chain_bytes spdu = connect_header ?self ?n @ chain_bytes payload"
    using connect_spdu.create_message [of ?self payload buffer] assms length_connect_header [of ?self ?n] by auto
  have "if ?n \<le> 233
       then \<exists>peer'. IsoSession_parseMessage peer message = Some (SESSION_CONNECT, peer') \<and>
              bb_content (is_userData peer') = chain_bytes payload \<and>
              is_sessionRequirement peer' = is_sessionRequirement ?self \<and>
              is_callingSessionSelector peer' = is_callingSessionSelector ?self \<and>
              is_calledSessionSelector peer' = is_calledSessionSelector ?self
       else IsoSession_parseMessage peer message = Some (SESSION_ERROR, peer)"
    if rcv: "received message (chain_bytes spdu)" for peer message
  proof -
    have "chain_bytes spdu = [13, word_of_int (22 + ?n)] @ drop 2 (chain_bytes spdu)"
      "22 + ?n = int (length (drop 2 (chain_bytes spdu)))"
      using spdu(3) n length_connect_header [of ?self ?n] by (simp_all add: connect_header_def)
    then have "IsoSession_parseMessage peer message = (if 22 + ?n \<le> 255 then do {
       (r, session) \<leftarrow> parseSessionHeaderParameters peer message (22 + ?n);
       Some (if r = SESSION_OK then SESSION_CONNECT else SESSION_ERROR, session) }
     else Some (SESSION_ERROR, peer))"
      using parse_parameter_message [of message 13 "22 + ?n" "drop 2 (chain_bytes spdu)"] rcv by simp
    moreover have "received message (connect_header ?self (int (length (chain_bytes payload))) @ chain_bytes payload)"
      using rcv spdu(3) n by simp
    then obtain ud where "parseSessionHeaderParameters peer message (22 + ?n) =
      Some (SESSION_OK, peer\<lparr>is_protocolOptions := 0, is_sessionRequirement := is_sessionRequirement ?self,
      is_callingSessionSelector := is_callingSessionSelector ?self,
      is_calledSessionSelector := is_calledSessionSelector ?self, is_userData := ud\<rparr>)"
      "bb_content ud = chain_bytes payload"
      using parse_connect_header [of message ?self "chain_bytes payload" "22 + ?n" peer] n by auto
    ultimately show ?thesis by auto
  qed
  with spdu(1,2) show ?thesis
    by (intro exI [of _ ?self] exI [of _ spdu]) (simp add: IsoSession_createConnectSpdu_def Let_def)
qed

theorem session_connect_roundtrip_witness:
  "\<exists>self' spdu. IsoSession_createConnectSpdu IsoSession_init IsoConnectionParameters_create
       (BufferChain 0 0 64 (replicate 64 0) None) (BufferChain 3 3 3 [1, 2, 3] None) = Some (self', spdu) \<and>
     chain_ok spdu"
  using session_connect_roundtrip [of "BufferChain 3 3 3 [1, 2, 3] None" "BufferChain 0 0 64 (replicate 64 0) None"
      IsoSession_init IsoConnectionParameters_create] by auto

text \<open>the accept SPDU of a server is parsed by the client as \<open>SESSION_CONNECT\<close> with the server's
  protocol options, session requirement, called selector and user data, exactly when the
  payload has at most 237 bytes; otherwise the client reports \<open>SESSION_ERROR\<close>.\<close>

theorem session_accept_roundtrip:
  assumes "chain_ok payload" and "20 \<le> length (bc_buffer buffer)" and "20 + bc_length payload \<le> INT_MAX"
  shows "\<exists>spdu. IsoSession_createAcceptSpdu self buffer payload = Some spdu \<and> chain_ok spdu \<and>
    (\<forall>peer message. received message (chain_bytes spdu) \<longrightarrow>
      (if bc_length payload \<le> 237
       then \<exists>peer'. IsoSession_parseMessage peer message = Some (SESSION_CONNECT, peer') \<and>
              bb_content (is_userData peer') = chain_bytes payload \<and>
              is_protocolOptions peer' = is_protocolOptions self \<and>
              is_sessionRequirement peer' = is_sessionRequirement self \<and>
              is_calledSessionSelector peer' = is_calledSessionSelector self
       else IsoSession_parseMessage peer message = Some (SESSION_ERROR, peer)))"
proof -
  let ?n = "bc_length payload"
  have n: "?n = int (length (chain_bytes payload))" using chain_ok_length [OF assms(1)] by simp
  obtain spdu where spdu: "IsoSession_createAcceptSpdu self buffer payload = Some spdu" "chain_ok spdu"
      "chain_bytes spdu = accept_header self ?n @ chain_bytes payload"
    using accept_spdu.create_message [of self payload buffer] assms length_accept_header [of self ?n] by auto
  have "if ?n \<le> 237
       then \<exists>peer'. IsoSession_parseMessage peer message = Some (SESSION_CONNECT, peer') \<and>
              bb_content (is_userData peer') = chain_bytes payload \<and>
              is_protocolOptions peer' = is_protocolOptions self \<and>
              is_sessionRequirement peer' = is_sessionRequirement self \<and>
              is_calledSessionSelector peer' = is_calledSessionSelector self
       else IsoSession_parseMessage peer message = Some (SESSION_ERROR, peer)"
    if rcv: "received message (chain_bytes spdu)" for peer message
  proof -
    have "chain_bytes spdu = [14, word_of_int (18 + ?n)] @ drop 2 (chain_bytes spdu)"
      "18 + ?n = int (length (drop 2 (chain_bytes spdu)))"
      using spdu(3) n length_accept_header [of self ?n] by (simp_all add: accept_header_def)
    then have "IsoSession_parseMessage peer message = (if 18 + ?n \<le> 255 then do {
       (r, session) \<leftarrow> parseSessionHeaderParameters peer message (18 + ?n);
       Some (if r = SESSION_OK then SESSION_CONNECT else SESSION_ERROR, session) }
     else Some (SESSION_ERROR, peer))"
      using parse_parameter_message [of message 14 "18 + ?n" "drop 2 (chain_bytes spdu)"] rcv by simp
    moreover have "received message (accept_header self (int (length (chain_bytes payload))) @ chain_bytes payload)"
      using rcv spdu(3) n by simp
    then obtain ud where "parseSessionHeaderParameters peer message (18 + ?n) =
      Some (SESSION_OK, peer\<lparr>is_protocolOptions := is_protocolOptions self,
      is_sessionRequirement := is_sessionRequirement self,
      is_calledSessionSelector := is_calledSessionSelector self, is_userData := ud\<rparr>)"
      "bb_content ud = chain_bytes payload"
      using parse_accept_header [of message self "chain_bytes payload" "18 + ?n" peer] n by auto
    ultimately show ?thesis by auto
  qed
  with spdu(1,2) show ?thesis by blast
qed

theorem session_accept_roundtrip_witness:
  "\<exists>spdu. IsoSession_createAcceptSpdu IsoSession_init
       (BufferChain 0 0 64 (replicate 64 0) None) (BufferChain 3 3 3 [1, 2, 3] None) = Some spdu \<and> chain_ok spdu"
  using session_accept_roundtrip [of "BufferChain 3 3 3 [1, 2, 3] None" "BufferChain 0 0 64 (replicate 64 0) None"
      IsoSession_init] by auto

lemma parse_data_spdu:
  assumes "received message ([0x01, 0x00, 0x01, 0x00] @ payload)"
  shows "\<exists>ud. IsoSession_parseMessage peer message = Some (SESSION_DATA, peer\<lparr>is_userData := ud\<rparr>) \<and> received ud payload"
proof -
  obtain rest where mem: "bb_buffer message = ([1, 0, 1, 0] @ payload) @ rest"
      "bb_size message = int (length ([1, 0, 1, 0 :: byte] @ payload))"
    using received_memory [OF assms] by blast
  let ?ud = "ByteBuffer_wrap (payload @ rest) (int (length payload)) (bb_maxSize message - 4)"
  have "ptr_add (bb_buffer message) 4 = Some (payload @ rest)"
    using mem(1) by (simp add: ptr_add_def)
  then have "IsoSession_parseMessage peer message = Some (SESSION_DATA, peer\<lparr>is_userData := ?ud\<rparr>)"
    using mem by (simp add: IsoSession_parseMessage_def Let_def)
  moreover have "received ?ud payload"
    using assms mem by (simp add: received_def bb_inv_def bb_content_def ByteBuffer_wrap_def)
  ultimately show ?thesis by blast
qed

text \<open>A data SPDU of any length is parsed by the peer as \<open>SESSION_DATA\<close> with exactly the
  payload as user data.\<close>

theorem session_data_roundtrip:
  assumes "chain_ok payload" and "4 \<le> length (bc_buffer buffer)" and "4 + bc_length payload \<le> INT_MAX"
  shows "\<exists>spdu. IsoSession_createDataSpdu self buffer payload = Some spdu \<and> chain_ok spdu \<and>
    (\<forall>peer message. received message (chain_bytes spdu) \<longrightarrow>
      (\<exists>ud. IsoSession_parseMessage peer message = Some (SESSION_DATA, peer\<lparr>is_userData := ud\<rparr>) \<and>
            bb_content ud = chain_bytes payload))"
proof -
  obtain spdu where spdu: "IsoSession_createDataSpdu self buffer payload = Some spdu" "chain_ok spdu"
      "chain_bytes spdu = [1, 0, 1, 0] @ chain_bytes payload"
    using data_spdu.create_message [of buffer payload self] assms by (auto simp: numeral_eq_Suc)
  with parse_data_spdu show ?thesis unfolding received_def by (metis spdu(3))
qed

theorem session_data_roundtrip_witness:
  "\<exists>spdu. IsoSession_createDataSpdu IsoSession_init
       (BufferChain 0 0 64 (replicate 64 0) None) (BufferChain 3 3 3 [1, 2, 3] None) = Some spdu \<and> chain_ok spdu"
  using session_data_roundtrip [of "BufferChain 3 3 3 [1, 2, 3] None" "BufferChain 0 0 64 (replicate 64 0) None"
      IsoSession_init] by auto

section \<open>Arbitrary input\<close>

lemma acceptParameter_defined:
  assumes "0 \<le> offset" and "offset + 3 \<le> int (length mem)"
  shows "acceptParameter session mem offset o' v \<noteq> None"
  using assms by (simp add: acceptParameter_def)

lemma acceptParameters_loop_defined:
  "0 \<le> offset \<Longrightarrow> maxOffset + 2 \<le> int (length mem) \<Longrightarrow>
   acceptParameters_loop session mem offset maxOffset o' v \<noteq> None"
proof (induction session mem offset maxOffset o' v rule: acceptParameters_loop.induct)
  case (1 session mem offset maxOffset o' v)
  show ?case
  proof (cases "offset < maxOffset")
    case False
    then show ?thesis by (simp add: acceptParameters_loop.simps [of session])
  next
    case True
    then obtain r s1 where step: "acceptParameter session mem offset o' v = Some (r, s1)"
      using acceptParameter_defined [of offset mem session o' v] "1.prems" by fastforce
    from step show ?thesis
    proof (cases rule: acceptParameter_cases)
      case 1
      with step True show ?thesis by (simp add: acceptParameters_loop.simps [of session])
    next
      case (2 offset1 o1 v1)
      with "1.IH" [OF True step refl 2(1) refl refl] "1.prems"
      have "acceptParameters_loop s1 mem offset1 maxOffset o1 v1 \<noteq> None" by simp
      with step 2(1) True show ?thesis by (simp add: acceptParameters_loop.simps [of session])
    qed
  qed
qed

lemma sessionHeaderParameter_defined:
  assumes "0 \<le> offset" and "offset + 259 \<le> int (length (bb_buffer message))"
  shows "sessionHeaderParameter session message offset \<noteq> None"
proof -
  obtain l where l: "rd (bb_buffer message) (offset + 1) = Some l" using assms by simp
  have "acceptParameters_loop session (bb_buffer message) (offset + 2) (offset + 2 + uint l) False False \<noteq> None"
    using assms uint_byte [of l] by (intro acceptParameters_loop_defined) simp_all
  then have "parseAcceptParameters session (bb_buffer message) (offset + 2) (uint l) \<noteq> None"
    by (auto simp: parseAcceptParameters_def)
  then show ?thesis
    using assms l by (auto simp: sessionHeaderParameter_def Let_def read_u16_def ptr_add_def)
qed

text \<open>What a returned user data buffer satisfies.\<close>

definition user_data_ok :: "IsoSession \<Rightarrow> bool" where
  "user_data_ok session \<longleftrightarrow> -1 \<le> bb_size (is_userData session) \<and>
     bb_size (is_userData session) \<le> int (length (bb_buffer (is_userData session)))"

lemma sessionHeaderParameter_user_data:
  assumes "sessionHeaderParameter session message offset = Some (Inr SESSION_OK, session')"
    and "offset < bb_size message" and "bb_inv message" and "0 \<le> offset"
  shows "user_data_ok session'"
  using assms
  by (auto simp: sessionHeaderParameter_def Let_def user_data_ok_def ByteBuffer_wrap_def ptr_add_def
      bb_inv_def split: bind_splits if_splits)

lemma sessionHeader_loop_safe:
  assumes "0 \<le> offset" and "n + 261 \<le> int (length (bb_buffer message))" and "bb_size message = n + 2" and "bb_inv message"
  shows "\<exists>ind session'. sessionHeader_loop session message offset n = Some (ind, session') \<and>
           (ind = SESSION_OK \<longrightarrow> user_data_ok session')"
  using assms
proof (induction session message offset n rule: sessionHeader_loop.induct)
  case (1 session message offset n)
  show ?case
  proof (cases "offset < n + 2")
    case False
    then show ?thesis by (simp add: sessionHeader_loop.simps [of session])
  next
    case True
    then obtain r s1 where step: "sessionHeaderParameter session message offset = Some (r, s1)"
      using sessionHeaderParameter_defined [of offset message session] "1.prems"(1,2) by fastforce
    show ?thesis
    proof (cases r)
      case (Inl offset1)
      then have "offset < offset1" using step sessionHeaderParameter_advances by blast
      with "1.IH" [OF True step refl Inl] "1.prems" step Inl True show ?thesis
        by (simp add: sessionHeader_loop.simps [of session message offset])
    next
      case (Inr ind)
      have "ind = SESSION_OK \<Longrightarrow> user_data_ok s1"
        using sessionHeaderParameter_user_data [of session message offset s1] step Inr True "1.prems" by simp
      with step Inr True show ?thesis by (simp add: sessionHeader_loop.simps [of session])
    qed
  qed
qed

lemma parseParameterSpdu_safe:
  assumes "bb_inv message" and "516 \<le> length (bb_buffer message)" and "ind \<noteq> SESSION_ERROR"
  shows "\<exists>ind' session'. parseParameterSpdu session message len ind = Some (ind', session') \<and>
           (ind' = ind \<longrightarrow> user_data_ok session') \<and> (ind' = ind \<or> ind' = SESSION_ERROR)"
proof (cases "uint len = bb_size message - 2")
  case True
  have "uint len < 256" by (rule uint_byte)
  with assms(2) have len: "uint len + 261 \<le> int (length (bb_buffer message))" by linarith
  have size: "bb_size message = uint len + 2" using True by simp
  obtain i s' where loop: "sessionHeader_loop session message 2 (uint len) = Some (i, s')"
      "i = SESSION_OK \<longrightarrow> user_data_ok s'"
    using sessionHeader_loop_safe [OF _ len size assms(1), of 2 session] by fastforce
  have "parseParameterSpdu session message len ind = Some (if i = SESSION_OK then ind else SESSION_ERROR, s')"
    using True loop(1) by (simp add: parseParameterSpdu_def parseSessionHeaderParameters_def)
  with loop(2) assms(3) show ?thesis by (cases "i = SESSION_OK") simp_all
next
  case False
  with assms(3) show ?thesis by (simp add: parseParameterSpdu_def)
qed

text \<open>C29: for every byte sequence in a receive buffer of at least 516 bytes, the session parser
  returns, never reads outside the buffer, and the user data it reports lies inside the buffer.
  (Its size can be \<open>-1\<close>: a message may end right after the user data identifier.)\<close>

theorem session_parse_safe:
  assumes "bb_inv message" and "516 \<le> length (bb_buffer message)"
  shows "\<exists>ind session'. IsoSession_parseMessage session message = Some (ind, session') \<and>
    (ind \<in> {SESSION_CONNECT, SESSION_DATA, SESSION_FINISH, SESSION_DISCONNECT} \<longrightarrow> user_data_ok session')"
proof (cases "1 < bb_size message")
  case False
  then show ?thesis by (simp add: IsoSession_parseMessage_def Let_def)
next
  case True
  obtain c l b2 b3 where rd: "rd (bb_buffer message) 0 = Some c" "rd (bb_buffer message) 1 = Some l"
    "rd (bb_buffer message) 2 = Some b2" "rd (bb_buffer message) 3 = Some b3"
  proof -
    have "rd (bb_buffer message) k \<noteq> None" if "0 \<le> k" "k < 4" for k
      using that assms(2) by (simp add: rd_None_iff)
    then show ?thesis using that by (metis not_None_eq zero_le_numeral zero_le_one zero_less_numeral one_less_numeral_iff order_refl
          numeral_less_iff semiring_norm(76,78,80,81))
  qed
  have ptr: "ptr_add (bb_buffer message) 4 = Some (drop 4 (bb_buffer message))"
    using assms(2) by (simp add: ptr_add_def)
  have size: "bb_size message \<le> int (length (bb_buffer message))" using assms(1) by (simp add: bb_inv_def)
  note safe = parseParameterSpdu_safe [OF assms]
  consider "c = 13 \<or> c = 14" | "c = 9" | "c = 10" | "c = 1" | "c \<notin> {13, 14, 9, 10, 1}" by auto
  then show ?thesis
  proof cases
    case 1
    with safe [of SESSION_CONNECT session l] True rd show ?thesis
      by (auto simp: IsoSession_parseMessage_def Let_def)
  next
    case 2
    with safe [of SESSION_FINISH session l] True rd show ?thesis
      by (auto simp: IsoSession_parseMessage_def Let_def)
  next
    case 3
    with safe [of SESSION_DISCONNECT session l] True rd show ?thesis
      by (auto simp: IsoSession_parseMessage_def Let_def)
  next
    case 4
    with True rd ptr size show ?thesis
      by (auto simp: IsoSession_parseMessage_def Let_def user_data_ok_def ByteBuffer_wrap_def)
  next
    case 5
    with True rd show ?thesis by (auto simp: IsoSession_parseMessage_def Let_def)
  qed
qed

theorem session_parse_safe_witness:
  "\<exists>ind session'. IsoSession_parseMessage IsoSession_init (ByteBuffer_create 600) = Some (ind, session')"
proof -
  have "bb_inv (ByteBuffer_create 600)" "516 \<le> length (bb_buffer (ByteBuffer_create 600))"
    using bb_create_inv [of 600] by (simp_all add: ByteBuffer_create_def)
  from session_parse_safe [OF this, of IsoSession_init] show ?thesis by blast
qed

end
