(* ===== verification/Iso_Presentation.thy ===== *)
theory Iso_Presentation
  imports Tlv_Loop Common_Buffers Iso_Parameters
begin

text \<open>
  \<open>src/src/mms/iso_presentation/iso_presentation.c\<close>: the ISO 8823 presentation layer. Each
  parser loop is the shared TLV loop with its own step; the local variables of the C function
  are part of the loop state. A variable that may be read before it was written is an
  \<open>option\<close>, and reading it as \<open>None\<close> is undefined behaviour.
\<close>

section \<open>State\<close>

record IsoPresentation =
  ps_callingPresentationSelector :: u32
  ps_calledPresentationSelector :: u32
  ps_nextContextId :: byte
  ps_acseContextId :: byte
  ps_mmsContextId :: byte
  ps_nextPayload :: ByteBuffer

definition calledPresentationSelector :: "byte list" where
  "calledPresentationSelector = [0x00, 0x00, 0x00, 0x01]"

definition asn_id_as_acse :: "byte list" where "asn_id_as_acse = [0x52, 0x01, 0x00, 0x01]"
definition asn_id_mms :: "byte list" where "asn_id_mms = [0x28, 0xca, 0x22, 0x02, 0x01]"
definition ber_id :: "byte list" where "ber_id = [0x51, 0x01]"

text \<open>\<open>IsoPresentation_init\<close> has an empty body.\<close>

definition IsoPresentation_init :: "IsoPresentation \<Rightarrow> IsoPresentation" where
  "IsoPresentation_init self = self"

section \<open>Encoding\<close>

definition encodeAcceptBer :: "wbuf \<Rightarrow> wbuf option" where
  "encodeAcceptBer w = do {
     w \<leftarrow> BerEncoder_encodeTL 0x30 7 w;
     w \<leftarrow> BerEncoder_encodeTL 0x80 1 w;
     w \<leftarrow> emit 0 w;
     w \<leftarrow> BerEncoder_encodeTL 0x81 2 w;
     w \<leftarrow> emit 0x51 w;
     emit 0x01 w
   }"

text \<open>\<open>encodeUserData\<close>: the two length computations, the branch for \<open>encode == false\<close>, and the
  branch for \<open>encode == true\<close>.\<close>

definition encodedDataSetLength :: "nat \<Rightarrow> nat" where
  "encodedDataSetLength payloadLength =
     3 + (payloadLength + 1) + BerEncoder_determineLengthSize payloadLength"

definition fullyEncodedDataLength :: "nat \<Rightarrow> nat" where
  "fullyEncodedDataLength payloadLength =
     encodedDataSetLength payloadLength +
     (BerEncoder_determineLengthSize (encodedDataSetLength payloadLength) + 1)"

definition encodedUserDataLength :: "nat \<Rightarrow> nat" where
  "encodedUserDataLength payloadLength =
     fullyEncodedDataLength payloadLength + 1 +
     BerEncoder_determineLengthSize (fullyEncodedDataLength payloadLength)"

definition encodeUserData :: "nat \<Rightarrow> byte \<Rightarrow> wbuf \<Rightarrow> wbuf option" where
  "encodeUserData payloadLength contextId w = do {
     w \<leftarrow> BerEncoder_encodeTL 0x61 (fullyEncodedDataLength payloadLength) w;
     w \<leftarrow> BerEncoder_encodeTL 0x30 (encodedDataSetLength payloadLength) w;
     w \<leftarrow> BerEncoder_encodeTL 0x02 1 w;
     w \<leftarrow> emit contextId w;
     BerEncoder_encodeTL 0xa0 payloadLength w
   }"

text \<open>The four octets of a selector, most significant first.\<close>

definition selector_bytes :: "u32 \<Rightarrow> byte list" where
  "selector_bytes v =
     [ucast (drop_bit 24 v AND 0xff), ucast (drop_bit 16 v AND 0xff),
      ucast (drop_bit 8 v AND 0xff), ucast (v AND 0xff)]"

definition connect_normalModeLength :: "nat \<Rightarrow> nat" where
  "connect_normalModeLength payloadLength = 12 + 35 + encodedUserDataLength payloadLength + 2"

definition createConnectPdu :: "IsoPresentation \<Rightarrow> BufferChain \<Rightarrow> BufferChain \<Rightarrow> BufferChain option" where
  "createConnectPdu self writeBuffer payload =
     (let payloadLength = nat (bc_length payload);
          normalModeLength = connect_normalModeLength payloadLength;
          contentLength = 5 + normalModeLength + (1 + BerEncoder_determineLengthSize normalModeLength)
      in do {
        w \<leftarrow> BerEncoder_encodeTL 0x31 contentLength (bc_buffer writeBuffer, 0);
        w \<leftarrow> BerEncoder_encodeTL 0xa0 3 w;
        w \<leftarrow> BerEncoder_encodeTL 0x80 1 w;
        w \<leftarrow> emit 1 w;
        w \<leftarrow> BerEncoder_encodeTL 0xa2 normalModeLength w;
        w \<leftarrow> BerEncoder_encodeTL 0x81 4 w;
        w \<leftarrow> emits (selector_bytes (ps_callingPresentationSelector self)) w;
        w \<leftarrow> BerEncoder_encodeTL 0x82 4 w;
        w \<leftarrow> emits (selector_bytes (ps_calledPresentationSelector self)) w;
        w \<leftarrow> BerEncoder_encodeTL 0xa4 35 w;
        w \<leftarrow> BerEncoder_encodeTL 0x30 15 w;
        w \<leftarrow> BerEncoder_encodeTL 0x02 1 w;
        w \<leftarrow> emit 1 w;
        w \<leftarrow> BerEncoder_encodeTL 0x06 4 w;
        w \<leftarrow> emits asn_id_as_acse w;
        w \<leftarrow> BerEncoder_encodeTL 0x30 4 w;
        w \<leftarrow> BerEncoder_encodeTL 0x06 2 w;
        w \<leftarrow> emits ber_id w;
        w \<leftarrow> BerEncoder_encodeTL 0x30 16 w;
        w \<leftarrow> BerEncoder_encodeTL 0x02 1 w;
        w \<leftarrow> emit 3 w;
        w \<leftarrow> BerEncoder_encodeTL 0x06 5 w;
        w \<leftarrow> emits asn_id_mms w;
        w \<leftarrow> BerEncoder_encodeTL 0x30 4 w;
        w \<leftarrow> BerEncoder_encodeTL 0x06 2 w;
        w \<leftarrow> emits ber_id w;
        w \<leftarrow> encodeUserData payloadLength (ps_acseContextId self) w;
        Some (link_part w writeBuffer payload)
      })"

definition setConnectContext :: "IsoPresentation \<Rightarrow> IsoConnectionParameters \<Rightarrow> IsoPresentation" where
  "setConnectContext self parameters =
     self\<lparr>ps_acseContextId := 1, ps_mmsContextId := 3,
          ps_callingPresentationSelector := ip_localPSelector parameters,
          ps_calledPresentationSelector := ip_remotePSelector parameters\<rparr>"

definition IsoPresentation_createConnectPdu ::
  "IsoPresentation \<Rightarrow> IsoConnectionParameters \<Rightarrow> BufferChain \<Rightarrow> BufferChain \<Rightarrow>
   (IsoPresentation \<times> BufferChain) option" where
  "IsoPresentation_createConnectPdu self parameters buffer payload =
     (let self = setConnectContext self parameters in do {
        pdu \<leftarrow> createConnectPdu self buffer payload;
        Some (self, pdu)
      })"

text \<open>\<open>IsoPresentation_createUserData\<close> and \<open>IsoPresentation_createUserDataACSE\<close> differ in the
  context identifier only.\<close>

definition createUserData_with ::
  "byte \<Rightarrow> BufferChain \<Rightarrow> BufferChain \<Rightarrow> BufferChain option" where
  "createUserData_with contextId writeBuffer payload =
     (let payloadLength = nat (bc_length payload);
          userDataLengthFieldSize = BerEncoder_determineLengthSize payloadLength;
          pdvListLength = payloadLength + (userDataLengthFieldSize + 4);
          pdvListLengthFieldSize = BerEncoder_determineLengthSize pdvListLength;
          presentationLength = pdvListLength + (pdvListLengthFieldSize + 1)
      in do {
        w \<leftarrow> BerEncoder_encodeTL 0x61 presentationLength (bc_buffer writeBuffer, 0);
        w \<leftarrow> BerEncoder_encodeTL 0x30 pdvListLength w;
        w \<leftarrow> emit 0x02 w;
        w \<leftarrow> emit 0x01 w;
        w \<leftarrow> emit contextId w;
        w \<leftarrow> BerEncoder_encodeTL 0xa0 payloadLength w;
        Some (link_part w writeBuffer payload)
      })"

definition IsoPresentation_createUserData ::
  "IsoPresentation \<Rightarrow> BufferChain \<Rightarrow> BufferChain \<Rightarrow> BufferChain option" where
  "IsoPresentation_createUserData self = createUserData_with (ps_mmsContextId self)"

definition IsoPresentation_createUserDataACSE ::
  "IsoPresentation \<Rightarrow> BufferChain \<Rightarrow> BufferChain \<Rightarrow> BufferChain option" where
  "IsoPresentation_createUserDataACSE self = createUserData_with (ps_acseContextId self)"

definition IsoPresentation_createAbortUserMessage ::
  "IsoPresentation \<Rightarrow> BufferChain \<Rightarrow> BufferChain \<Rightarrow> BufferChain option" where
  "IsoPresentation_createAbortUserMessage self writeBuffer payload =
     (let payloadLength = nat (bc_length payload);
          contentLength = encodedUserDataLength payloadLength;
          contentLength = contentLength + (BerEncoder_determineLengthSize contentLength + 1)
      in do {
        w \<leftarrow> BerEncoder_encodeTL 0xa0 contentLength (bc_buffer writeBuffer, 0);
        w \<leftarrow> encodeUserData payloadLength (ps_acseContextId self) w;
        Some (link_part w writeBuffer payload)
      })"

definition cpa_normalModeLength :: "nat \<Rightarrow> nat" where
  "cpa_normalModeLength payloadLength = 6 + 20 + encodedUserDataLength payloadLength"

definition IsoPresentation_createCpaMessage ::
  "IsoPresentation \<Rightarrow> BufferChain \<Rightarrow> BufferChain \<Rightarrow> BufferChain option" where
  "IsoPresentation_createCpaMessage self writeBuffer payload =
     (let payloadLength = nat (bc_length payload);
          normalModeLength = cpa_normalModeLength payloadLength;
          contentLength = 5 + normalModeLength + (BerEncoder_determineLengthSize normalModeLength + 1)
      in do {
        w \<leftarrow> BerEncoder_encodeTL 0x31 contentLength (bc_buffer writeBuffer, 0);
        w \<leftarrow> BerEncoder_encodeTL 0xa0 3 w;
        w \<leftarrow> BerEncoder_encodeTL 0x80 1 w;
        w \<leftarrow> emit 1 w;
        w \<leftarrow> BerEncoder_encodeTL 0xa2 normalModeLength w;
        w \<leftarrow> BerEncoder_encodeTL 0x83 4 w;
        w \<leftarrow> emits calledPresentationSelector w;
        w \<leftarrow> BerEncoder_encodeTL 0xa5 18 w;
        w \<leftarrow> encodeAcceptBer w;
        w \<leftarrow> encodeAcceptBer w;
        w \<leftarrow> encodeUserData payloadLength (ps_acseContextId self) w;
        Some (link_part w writeBuffer payload)
      })"

section \<open>Parsing\<close>

text \<open>\<open>parseFullyEncodedData\<close>; the loop state is the connection and \<open>userDataPresent\<close>. Only
  \<open>buffer\<close> and \<open>size\<close> of \<open>nextPayload\<close> are assigned.\<close>

definition fedElement ::
  "byte list \<Rightarrow> int \<Rightarrow> IsoPresentation \<times> bool \<Rightarrow> int \<Rightarrow> (int option \<times> IsoPresentation \<times> bool) option" where
  "fedElement buffer endPos s bufPos = (case s of (self, userDataPresent) \<Rightarrow> do {
     tag \<leftarrow> rd buffer bufPos;
     (bufPos, len) \<leftarrow> BerDecoder_decodeLength buffer None (bufPos + 1) endPos;
     if bufPos < 0 then Some (None, s)
     else do {
       len \<leftarrow> len;
       (if tag = 0x02 then do {
          presentationSelector \<leftarrow> BerDecoder_decodeUint32 buffer len bufPos;
          bufPos \<leftarrow> add_int bufPos len;
          Some (Some bufPos, self\<lparr>ps_nextContextId := ucast presentationSelector\<rparr>, userDataPresent)
        }
        else if tag = 0xa0 then do {
          dat \<leftarrow> ptr_add buffer bufPos;
          bufPos \<leftarrow> add_int bufPos len;
          Some (Some bufPos,
                self\<lparr>ps_nextPayload := (ps_nextPayload self)\<lparr>bb_buffer := dat, bb_size := len\<rparr>\<rparr>, True)
        }
        else do {
          bufPos \<leftarrow> add_int bufPos len;
          Some (Some bufPos, self, userDataPresent)
        })
     }
   })"

definition parseFullyEncodedData ::
  "IsoPresentation \<Rightarrow> byte list \<Rightarrow> int \<Rightarrow> int \<Rightarrow> (int \<times> IsoPresentation) option" where
  "parseFullyEncodedData self buffer len bufPos = do {
     endPos \<leftarrow> add_int bufPos len;
     tag \<leftarrow> rd buffer bufPos;
     if tag \<noteq> 0x30 then Some (-1, self)
     else do {
       (bufPos, len) \<leftarrow> BerDecoder_decodeLength buffer (Some len) (bufPos + 1) endPos;
       len \<leftarrow> len;
       endPos \<leftarrow> add_int bufPos len;
       if bufPos < 0 then Some (-1, self)
       else do {
         (r, self, userDataPresent) \<leftarrow> tlv_loop (fedElement buffer endPos) endPos (self, False) bufPos;
         Some (case r of
                 None \<Rightarrow> -1
               | Some bufPos \<Rightarrow> if \<not> userDataPresent then -1 else bufPos, self)
       }
     }
   }"

text \<open>\<open>parsePCDLEntry\<close>; the result of \<open>BerDecoder_decodeLength\<close> is used unchecked.\<close>

definition pcdlEntryElement ::
  "byte list \<Rightarrow> int \<Rightarrow> int \<times> bool \<times> bool \<Rightarrow> int \<Rightarrow> (int option \<times> int \<times> bool \<times> bool) option" where
  "pcdlEntryElement buffer endPos s bufPos = (case s of (contextId, isAcse, isMms) \<Rightarrow> do {
     tag \<leftarrow> rd buffer bufPos;
     (bufPos, len) \<leftarrow> BerDecoder_decodeLength buffer None (bufPos + 1) endPos;
     len \<leftarrow> len;
     (if tag = 0x02 then do {
        contextId \<leftarrow> BerDecoder_decodeUint32 buffer len bufPos;
        bufPos \<leftarrow> add_int bufPos len;
        Some (Some bufPos, sint contextId, isAcse, isMms)
      }
      else if tag = 0x06 then do {
        (isAcse, isMms) \<leftarrow>
          (if len = 5 then do {
             dat \<leftarrow> ptr_add buffer bufPos;
             name \<leftarrow> rd_n dat 5;
             Some (isAcse, if name = asn_id_mms then True else isMms)
           }
           else if len = 4 then do {
             dat \<leftarrow> ptr_add buffer bufPos;
             name \<leftarrow> rd_n dat 4;
             Some (if name = asn_id_as_acse then True else isAcse, isMms)
           }
           else Some (isAcse, isMms));
        bufPos \<leftarrow> add_int bufPos len;
        Some (Some bufPos, contextId, isAcse, isMms)
      }
      else do {
        bufPos \<leftarrow> add_int bufPos len;
        Some (Some bufPos, contextId, isAcse, isMms)
      })
   })"

definition parsePCDLEntry ::
  "IsoPresentation \<Rightarrow> byte list \<Rightarrow> int \<Rightarrow> int \<Rightarrow> (int \<times> IsoPresentation) option" where
  "parsePCDLEntry self buffer totalLength bufPos = do {
     endPos \<leftarrow> add_int bufPos totalLength;
     (r, contextId, isAcse, isMms) \<leftarrow> tlv_loop (pcdlEntryElement buffer endPos) endPos (-1, False, False) bufPos;
     Some (case r of
             None \<Rightarrow> (-1, self)
           | Some bufPos \<Rightarrow>
               if contextId < 0 then (-1, self)
               else if \<not> isAcse \<and> \<not> isMms then (-1, self)
               else if isMms then (bufPos, self\<lparr>ps_mmsContextId := word_of_int contextId\<rparr>)
               else (bufPos, self\<lparr>ps_acseContextId := word_of_int contextId\<rparr>))
   }"

definition pcdlElement ::
  "byte list \<Rightarrow> int \<Rightarrow> IsoPresentation \<Rightarrow> int \<Rightarrow> (int option \<times> IsoPresentation) option" where
  "pcdlElement buffer endPos self bufPos = do {
     tag \<leftarrow> rd buffer bufPos;
     (bufPos, len) \<leftarrow> BerDecoder_decodeLength buffer None (bufPos + 1) endPos;
     len \<leftarrow> len;
     (if tag = 0x30 then do {
        (bufPos, self) \<leftarrow> parsePCDLEntry self buffer len bufPos;
        Some (if bufPos < 0 then None else Some bufPos, self)
      }
      else do {
        bufPos \<leftarrow> add_int bufPos len;
        Some (Some bufPos, self)
      })
   }"

definition parsePresentationContextDefinitionList ::
  "IsoPresentation \<Rightarrow> byte list \<Rightarrow> int \<Rightarrow> int \<Rightarrow> (int \<times> IsoPresentation) option" where
  "parsePresentationContextDefinitionList self buffer totalLength bufPos = do {
     endPos \<leftarrow> add_int bufPos totalLength;
     (r, self) \<leftarrow> tlv_loop (pcdlElement buffer endPos) endPos self bufPos;
     Some (case r of None \<Rightarrow> -1 | Some bufPos \<Rightarrow> bufPos, self)
   }"

text \<open>\<open>parseNormalModeParameters\<close>; the result of the context definition list is used unchecked,
  so after an error the loop goes on at position \<open>-1\<close>.\<close>

definition normalModeElement ::
  "byte list \<Rightarrow> int \<Rightarrow> IsoPresentation \<Rightarrow> int \<Rightarrow> (int option \<times> IsoPresentation) option" where
  "normalModeElement buffer endPos self bufPos = do {
     tag \<leftarrow> rd buffer bufPos;
     (bufPos, len) \<leftarrow> BerDecoder_decodeLength buffer None (bufPos + 1) endPos;
     if bufPos < 0 then Some (None, self)
     else do {
       len \<leftarrow> len;
       (if tag = 0xa4 then do {
          (bufPos, self) \<leftarrow> parsePresentationContextDefinitionList self buffer len bufPos;
          Some (Some bufPos, self)
        }
        else if tag = 0x61 then do {
          (bufPos, self) \<leftarrow> parseFullyEncodedData self buffer len bufPos;
          Some (if bufPos < 0 then None else Some bufPos, self)
        }
        else do {
          bufPos \<leftarrow> add_int bufPos len;
          Some (Some bufPos, self)
        })
     }
   }"

definition parseNormalModeParameters ::
  "IsoPresentation \<Rightarrow> byte list \<Rightarrow> int \<Rightarrow> int \<Rightarrow> (int \<times> IsoPresentation) option" where
  "parseNormalModeParameters self buffer totalLength bufPos = do {
     endPos \<leftarrow> add_int bufPos totalLength;
     (r, self) \<leftarrow> tlv_loop (normalModeElement buffer endPos) endPos self bufPos;
     Some (case r of None \<Rightarrow> -1 | Some bufPos \<Rightarrow> bufPos, self)
   }"

text \<open>The outer loops; \<open>len\<close> lives outside the loop and keeps its value.\<close>

definition acceptElement ::
  "byte list \<Rightarrow> int \<Rightarrow> IsoPresentation \<times> int option \<Rightarrow> int \<Rightarrow>
   (int option \<times> IsoPresentation \<times> int option) option" where
  "acceptElement buffer maxBufPos s bufPos = (case s of (self, len) \<Rightarrow> do {
     tag \<leftarrow> rd buffer bufPos;
     (bufPos, len') \<leftarrow> BerDecoder_decodeLength buffer len (bufPos + 1) maxBufPos;
     if bufPos < 0 then Some (None, self, len')
     else do {
       len \<leftarrow> len';
       (if tag = 0xa2 then do {
          (bufPos, self) \<leftarrow> parseNormalModeParameters self buffer len bufPos;
          Some (if bufPos < 0 then None else Some bufPos, self, Some len)
        }
        else do {
          bufPos \<leftarrow> add_int bufPos len;
          Some (Some bufPos, self, Some len)
        })
     }
   })"

definition IsoPresentation_parseAcceptMessage ::
  "IsoPresentation \<Rightarrow> ByteBuffer \<Rightarrow> (int \<times> IsoPresentation) option" where
  "IsoPresentation_parseAcceptMessage self byteBuffer =
     (let buffer = bb_buffer byteBuffer; maxBufPos = bb_size byteBuffer in do {
        cpTag \<leftarrow> rd buffer 0;
        if cpTag \<noteq> 0x31 then Some (0, self)
        else do {
          (bufPos, len) \<leftarrow> BerDecoder_decodeLength buffer None 1 maxBufPos;
          (r, self, _) \<leftarrow> tlv_loop (acceptElement buffer maxBufPos) maxBufPos (self, len) bufPos;
          Some (case r of None \<Rightarrow> 0 | Some _ \<Rightarrow> 1, self)
        }
      })"

definition connectElement ::
  "byte list \<Rightarrow> int \<Rightarrow> IsoPresentation \<times> int option \<Rightarrow> int \<Rightarrow>
   (int option \<times> IsoPresentation \<times> int option) option" where
  "connectElement buffer maxBufPos s bufPos = (case s of (self, len) \<Rightarrow> do {
     tag \<leftarrow> rd buffer bufPos;
     (bufPos, len') \<leftarrow> BerDecoder_decodeLength buffer len (bufPos + 1) maxBufPos;
     if bufPos < 0 then Some (None, self, len')
     else if tag = 0xa0 then do {
       b \<leftarrow> rd buffer bufPos;
       if b \<noteq> 0x80 then Some (None, self, len')
       else do {
         (bufPos, len') \<leftarrow> BerDecoder_decodeLength buffer len' (bufPos + 1) maxBufPos;
         len \<leftarrow> len';
         _ \<leftarrow> BerDecoder_decodeUint32 buffer len bufPos;
         bufPos \<leftarrow> add_int bufPos len;
         Some (Some bufPos, self, Some len)
       }
     }
     else do {
       len \<leftarrow> len';
       (if tag = 0xa2 then do {
          (bufPos, self) \<leftarrow> parseNormalModeParameters self buffer len bufPos;
          Some (if bufPos < 0 then None else Some bufPos, self, Some len)
        }
        else do {
          bufPos \<leftarrow> add_int bufPos len;
          Some (Some bufPos, self, Some len)
        })
     }
   })"

definition IsoPresentation_parseConnect ::
  "IsoPresentation \<Rightarrow> ByteBuffer \<Rightarrow> (int \<times> IsoPresentation) option" where
  "IsoPresentation_parseConnect self byteBuffer =
     (let buffer = bb_buffer byteBuffer; maxBufPos = bb_size byteBuffer in do {
        cpTag \<leftarrow> rd buffer 0;
        if cpTag \<noteq> 0x31 then Some (0, self)
        else do {
          (bufPos, len) \<leftarrow> BerDecoder_decodeLength buffer None 1 maxBufPos;
          (r, self, _) \<leftarrow> tlv_loop (connectElement buffer maxBufPos) maxBufPos (self, len) bufPos;
          Some (case r of None \<Rightarrow> 0 | Some _ \<Rightarrow> 1, self)
        }
      })"

definition IsoPresentation_parseUserData ::
  "IsoPresentation \<Rightarrow> ByteBuffer \<Rightarrow> (int \<times> IsoPresentation) option" where
  "IsoPresentation_parseUserData self readBuffer =
     (let len = bb_size readBuffer; buffer = bb_buffer readBuffer in
      if len < 9 then Some (0, self)
      else do {
        b \<leftarrow> rd buffer 0;
        if b \<noteq> 0x61 then Some (0, self)
        else do {
          (bufPos, l) \<leftarrow> BerDecoder_decodeLength buffer None 1 len;
          b \<leftarrow> rd buffer bufPos;
          if b \<noteq> 0x30 then Some (0, self)
          else do {
            (bufPos, l) \<leftarrow> BerDecoder_decodeLength buffer l (bufPos + 1) len;
            b \<leftarrow> rd buffer bufPos;
            if b \<noteq> 0x02 then Some (0, self)
            else do {
              b \<leftarrow> rd buffer (bufPos + 1);
              if b \<noteq> 0x01 then Some (0, self)
              else do {
                contextId \<leftarrow> rd buffer (bufPos + 2);
                b \<leftarrow> rd buffer (bufPos + 3);
                let self = self\<lparr>ps_nextContextId := contextId\<rparr> in
                if b \<noteq> 0xa0 then Some (0, self)
                else do {
                  (bufPos, userDataLength) \<leftarrow> BerDecoder_decodeLength buffer None (bufPos + 4) len;
                  userDataLength \<leftarrow> userDataLength;
                  dat \<leftarrow> ptr_add buffer bufPos;
                  Some (1, self\<lparr>ps_nextPayload := ByteBuffer_wrap dat userDataLength userDataLength\<rparr>)
                }
              }
            }
          }
        }
      })"

section \<open>The created headers\<close>

definition userData_bytes :: "nat \<Rightarrow> byte \<Rightarrow> byte list" where
  "userData_bytes n contextId =
     tl_bytes 0x61 (fullyEncodedDataLength n) @ tl_bytes 0x30 (encodedDataSetLength n) @
     [0x02, 0x01, contextId] @ tl_bytes 0xa0 n"

definition contexts_bytes :: "byte list" where
  "contexts_bytes =
     [0x30, 15, 0x02, 1, 1, 0x06, 4] @ asn_id_as_acse @ [0x30, 4, 0x06, 2] @ ber_id @
     [0x30, 16, 0x02, 1, 3, 0x06, 5] @ asn_id_mms @ [0x30, 4, 0x06, 2] @ ber_id"

definition mode_bytes :: "byte list" where
  "mode_bytes = [0xa0, 3, 0x80, 1, 1]"

definition connect_bytes :: "IsoPresentation \<Rightarrow> nat \<Rightarrow> byte list" where
  "connect_bytes self n =
     tl_bytes 0x31 (5 + connect_normalModeLength n +
                    (1 + BerEncoder_determineLengthSize (connect_normalModeLength n))) @
     mode_bytes @ tl_bytes 0xa2 (connect_normalModeLength n) @
     ([0x81, 4] @ selector_bytes (ps_callingPresentationSelector self)) @
     ([0x82, 4] @ selector_bytes (ps_calledPresentationSelector self)) @
     ([0xa4, 35] @ contexts_bytes) @ userData_bytes n (ps_acseContextId self)"

definition accept_results_bytes :: "byte list" where
  "accept_results_bytes =
     [0x30, 7, 0x80, 1, 0, 0x81, 2, 0x51, 0x01, 0x30, 7, 0x80, 1, 0, 0x81, 2, 0x51, 0x01]"

definition cpa_bytes :: "IsoPresentation \<Rightarrow> nat \<Rightarrow> byte list" where
  "cpa_bytes self n =
     tl_bytes 0x31 (5 + cpa_normalModeLength n +
                    (BerEncoder_determineLengthSize (cpa_normalModeLength n) + 1)) @
     mode_bytes @ tl_bytes 0xa2 (cpa_normalModeLength n) @
     ([0x83, 4] @ calledPresentationSelector) @ ([0xa5, 18] @ accept_results_bytes) @
     userData_bytes n (ps_acseContextId self)"

definition abort_bytes :: "IsoPresentation \<Rightarrow> nat \<Rightarrow> byte list" where
  "abort_bytes self n =
     tl_bytes 0xa0 (encodedUserDataLength n + (BerEncoder_determineLengthSize (encodedUserDataLength n) + 1)) @
     userData_bytes n (ps_acseContextId self)"

lemma encodeUserData_emits [enc_emits]:
  "encodeUserData n contextId = emits (userData_bytes n contextId)"
  by (rule ext) (simp add: encodeUserData_def userData_bytes_def enc_emits tl_bytes_small)

lemma encodeAcceptBer_emits [enc_emits]:
  "encodeAcceptBer = emits [0x30, 7, 0x80, 1, 0, 0x81, 2, 0x51, 0x01]"
  by (rule ext) (simp add: encodeAcceptBer_def enc_emits tl_bytes_small)

lemma createUserData_with_eq:
  "createUserData_with contextId writeBuffer payload =
     emits (userData_bytes (nat (bc_length payload)) contextId) (bc_buffer writeBuffer, 0) \<bind>
     (\<lambda>w. Some (link_part w writeBuffer payload))"
proof -
  let ?n = "nat (bc_length payload)"
  have len: "?n + (BerEncoder_determineLengthSize ?n + 4) = encodedDataSetLength ?n"
    by (simp add: encodedDataSetLength_def)
  show ?thesis
    unfolding createUserData_with_def Let_def len fullyEncodedDataLength_def [symmetric]
    by (simp add: userData_bytes_def enc_emits)
qed

lemma createConnectPdu_eq:
  "createConnectPdu self writeBuffer payload =
     emits (connect_bytes self (nat (bc_length payload))) (bc_buffer writeBuffer, 0) \<bind>
     (\<lambda>w. Some (link_part w writeBuffer payload))"
  by (simp add: createConnectPdu_def Let_def connect_bytes_def contexts_bytes_def mode_bytes_def
      enc_emits tl_bytes_small)

lemma createCpaMessage_eq:
  "IsoPresentation_createCpaMessage self writeBuffer payload =
     emits (cpa_bytes self (nat (bc_length payload))) (bc_buffer writeBuffer, 0) \<bind>
     (\<lambda>w. Some (link_part w writeBuffer payload))"
  by (simp add: IsoPresentation_createCpaMessage_def Let_def cpa_bytes_def accept_results_bytes_def
      mode_bytes_def enc_emits tl_bytes_small)

lemma createAbortUserMessage_eq:
  "IsoPresentation_createAbortUserMessage self writeBuffer payload =
     emits (abort_bytes self (nat (bc_length payload))) (bc_buffer writeBuffer, 0) \<bind>
     (\<lambda>w. Some (link_part w writeBuffer payload))"
  by (simp add: IsoPresentation_createAbortUserMessage_def Let_def abort_bytes_def enc_emits)

interpretation pres_user_data: layer_header IsoPresentation_createUserData
  "\<lambda>s n. userData_bytes (nat n) (ps_mmsContextId s)"
  by unfold_locales (simp add: IsoPresentation_createUserData_def createUserData_with_eq emits_link_part)

interpretation pres_user_data_acse: layer_header IsoPresentation_createUserDataACSE
  "\<lambda>s n. userData_bytes (nat n) (ps_acseContextId s)"
  by unfold_locales (simp add: IsoPresentation_createUserDataACSE_def createUserData_with_eq emits_link_part)

interpretation pres_connect: layer_header createConnectPdu "\<lambda>s n. connect_bytes s (nat n)"
  by unfold_locales (simp add: createConnectPdu_eq emits_link_part)

interpretation pres_cpa: layer_header IsoPresentation_createCpaMessage "\<lambda>s n. cpa_bytes s (nat n)"
  by unfold_locales (simp add: createCpaMessage_eq emits_link_part)

interpretation pres_abort: layer_header IsoPresentation_createAbortUserMessage "\<lambda>s n. abort_bytes s (nat n)"
  by unfold_locales (simp add: createAbortUserMessage_eq emits_link_part)

section \<open>Parsing what was created\<close>

lemma length_userData_bytes: "length (userData_bytes n c) + n = encodedUserDataLength n"
  by (simp add: userData_bytes_def length_tl_bytes encodedUserDataLength_def fullyEncodedDataLength_def
      encodedDataSetLength_def)

lemma ucast_context: "ucast (of_nat (be_nat [c]) :: u32) = (c :: byte)"
proof (rule word_unat_eq_iff [THEN iffD2])
  have low: "unat (ucast x :: byte) = unat x mod 256" for x :: u32
    by (simp add: unsigned_ucast_eq take_bit_eq_mod)
  have "unat (of_nat k :: u32) = k" if "k < 256" for k
    using that by (simp add: unat_of_nat)
  then have "unat (of_nat (be_nat [c]) :: u32) = unat c"
    using unat_byte [of c] by (simp only: be_nat_Cons be_nat_Nil list.size power_0 mult_1_right add_0_right)
  then show "unat (ucast (of_nat (be_nat [c]) :: u32) :: byte) = unat c"
    using unat_byte [of c] by (simp only: low mod_less)
qed

text \<open>The lengths stay below \<open>2 ^ 16\<close>, the most the BER length encoder can express.\<close>

lemma lengths_bounded:
  assumes "n \<le> 65000"
  shows "fullyEncodedDataLength n < 65536" and "encodedDataSetLength n < 65536"
    and "connect_normalModeLength n < 65536" and "cpa_normalModeLength n < 65536"
    and "5 + connect_normalModeLength n + (1 + BerEncoder_determineLengthSize (connect_normalModeLength n)) < 65536"
    and "5 + cpa_normalModeLength n + (BerEncoder_determineLengthSize (cpa_normalModeLength n) + 1) < 65536"
proof -
  have ls: "BerEncoder_determineLengthSize k \<le> 3" for k
    by (simp add: BerEncoder_determineLengthSize_def)
  have "encodedUserDataLength n \<le> 65000 + 15"
    using assms ls [of n] ls [of "encodedDataSetLength n"] ls [of "fullyEncodedDataLength n"]
    by (simp add: encodedUserDataLength_def fullyEncodedDataLength_def encodedDataSetLength_def)
  then show "connect_normalModeLength n < 65536" "cpa_normalModeLength n < 65536"
    "5 + connect_normalModeLength n + (1 + BerEncoder_determineLengthSize (connect_normalModeLength n)) < 65536"
    "5 + cpa_normalModeLength n + (BerEncoder_determineLengthSize (cpa_normalModeLength n) + 1) < 65536"
    "fullyEncodedDataLength n < 65536" "encodedDataSetLength n < 65536"
    using ls [of "connect_normalModeLength n"] ls [of "cpa_normalModeLength n"]
    by (simp_all add: connect_normalModeLength_def cpa_normalModeLength_def encodedUserDataLength_def
        fullyEncodedDataLength_def)
qed

definition with_payload :: "IsoPresentation \<Rightarrow> byte \<Rightarrow> byte list \<Rightarrow> nat \<Rightarrow> IsoPresentation" where
  "with_payload self c dat n =
     self\<lparr>ps_nextContextId := c,
          ps_nextPayload := (ps_nextPayload self)\<lparr>bb_buffer := dat, bb_size := int n\<rparr>\<rparr>"

lemma fed_context_step:
  assumes "found_at buffer p [0x02, 0x01, c]" and "p + 3 \<le> endPos" and "p + 3 \<le> INT_MAX"
  shows "fedElement buffer endPos (self, u) p = Some (Some (p + 3), self\<lparr>ps_nextContextId := c\<rparr>, u)"
proof -
  have rd: "found_at buffer p (tl_bytes 2 1)" "found_at buffer (p + 2) [c]"
    using assms(1) found_at_append [of buffer p "[2, 1]" "[c]"] by (simp_all add: tl_bytes_small)
  have len: "BerDecoder_decodeLength buffer None (p + 1) endPos = Some (p + 2, Some 1)"
    using decodeLength_tl(2) [OF rd(1), of endPos None] assms(2) by (simp add: tl_bytes_small)
  have "BerDecoder_decodeUint32 buffer 1 (p + 2) = Some (of_nat (be_nat [c]))"
    using decodeUint32_found [OF rd(2)] by simp
  moreover have "rd buffer p = Some 2" using rd(1) by (simp add: tl_bytes_small found_at_Cons)
  ultimately show ?thesis using len assms(3) found_at_nonneg [OF assms(1)] ucast_context [of c]
    by (simp add: fedElement_def)
qed

lemma fed_payload_step:
  assumes "found_at buffer p (tl_bytes 0xa0 n @ payload)" and "length payload = n" and "n < 65536"
    and "p + int (length (tl_bytes 0xa0 n @ payload)) \<le> endPos" and "endPos \<le> INT_MAX"
  shows "\<exists>post. fedElement buffer endPos (self, u) p =
    Some (Some (p + int (length (tl_bytes 0xa0 n @ payload))),
      self\<lparr>ps_nextPayload := (ps_nextPayload self)\<lparr>bb_buffer := payload @ post, bb_size := int n\<rparr>\<rparr>, True)"
proof -
  let ?q = "p + int (length (tl_bytes 0xa0 n))"
  have f: "found_at buffer p (tl_bytes 0xa0 n)" "found_at buffer ?q payload"
    using assms(1) by (simp_all add: found_at_append)
  obtain post where "ptr_add buffer ?q = Some (payload @ post)" using found_at_ptr [OF f(2)] by blast
  moreover have "?q \<le> endPos" using assms(4) by simp
  note decodeLength_tl(1) [OF f(1) assms(3) this] decodeLength_tl(2) [OF f(1) assms(3) this, of None]
  moreover have "add_int ?q (int n) = Some (?q + int n)"
    using assms(2,4,5) found_at_nonneg [OF f(1)] by simp
  ultimately show ?thesis
    using found_at_nonneg [OF f(1)] assms(2) by (intro exI [of _ post]) (simp add: fedElement_def)
qed

lemma parseFullyEncodedData_found:
  assumes "found_at buffer p (userData_bytes n c @ payload)" and "length payload = n" and "n \<le> 65000"
    and "int (length buffer) \<le> INT_MAX" and "q = p + int (length (tl_bytes 0x61 (fullyEncodedDataLength n)))"
  shows "\<exists>post. parseFullyEncodedData self buffer (int (fullyEncodedDataLength n)) q =
    Some (p + int (encodedUserDataLength n), with_payload self c (payload @ post) n)"
proof -
  let ?eds = "encodedDataSetLength n" and ?fed = "fullyEncodedDataLength n"
  let ?q1 = "q + int (length (tl_bytes 0x30 ?eds))"
  let ?fin = "p + int (encodedUserDataLength n)"
  have f: "found_at buffer q (tl_bytes 0x30 ?eds)" "found_at buffer ?q1 [0x02, 0x01, c]"
      "found_at buffer (?q1 + 3) (tl_bytes 0xa0 n @ payload)"
    using assms(1,5) unfolding userData_bytes_def append_assoc found_at_append
    by (simp_all add: algebra_simps)
  have p0: "0 \<le> p" using assms(1) by (rule found_at_nonneg)
  have len: "?fin \<le> int (length buffer)"
    using found_at_length [OF assms(1)] length_userData_bytes [of n c] assms(2) by simp
  have lens: "q + int ?fed = ?fin" "?q1 + int ?eds = ?fin"
    "?q1 + 3 + int (length (tl_bytes 0xa0 n @ payload)) = ?fin"
    using assms(2,5) by (simp_all add: encodedUserDataLength_def fullyEncodedDataLength_def
        encodedDataSetLength_def length_tl_bytes)
  have "q + int (length (tl_bytes 0x30 ?eds)) \<le> ?fin" using lens(2) by simp
  note tag = decodeLength_tl(1) [OF f(1) lengths_bounded(2) [OF assms(3)] this]
    decodeLength_tl(2) [OF f(1) lengths_bounded(2) [OF assms(3)] this, of "Some (int ?fed)"]
  have q0: "0 \<le> q" "0 \<le> ?q1" using p0 assms(5) by simp_all
  have s1: "fedElement buffer ?fin (self, False) ?q1 = Some (Some (?q1 + 3), self\<lparr>ps_nextContextId := c\<rparr>, False)"
    using fed_context_step [OF f(2), of ?fin] lens(3) len assms(4) by simp
  obtain post where s2: "fedElement buffer ?fin (self\<lparr>ps_nextContextId := c\<rparr>, False) (?q1 + 3) =
      Some (Some ?fin, with_payload self c (payload @ post) n, True)"
    using fed_payload_step [OF f(3) assms(2), of ?fin "self\<lparr>ps_nextContextId := c\<rparr>" False] assms(3,4) len lens(3)
    by (auto simp: with_payload_def)
  have less: "?q1 < ?fin" "?q1 + 3 < ?fin" using lens(3) by (simp_all add: length_tl_bytes)
  have "tlv_loop (fedElement buffer ?fin) ?fin (self, False) ?q1 =
      Some (Some ?fin, with_payload self c (payload @ post) n, True)"
    using tlv_loop_step [OF less(1), of "fedElement buffer ?fin", OF s1]
      tlv_loop_step [OF less(2), of "fedElement buffer ?fin", OF s2]
      tlv_loop_done [of ?fin ?fin] by simp
  moreover have "add_int q (int ?fed) = Some ?fin" "add_int ?q1 (int ?eds) = Some ?fin"
    using lens len assms(4) p0 by simp_all
  ultimately show ?thesis
    using tag q0 less by (auto simp: parseFullyEncodedData_def)
qed

lemma entry_context_step:
  assumes "found_at buffer p [0x02, 1, c]" and "p + 3 \<le> endPos" and "endPos \<le> INT_MAX" and "unat c < 128"
  shows "pcdlEntryElement buffer endPos (i, a, m) p = Some (Some (p + 3), int (unat c), a, m)"
proof -
  have h: "found_at buffer p ([2, of_nat 1] @ [c])" "length [c] = 1" "(1::nat) < 128" "p + 2 + int 1 \<le> endPos"
    using assms(1,2) by simp_all
  note t = short_tlv [OF h, simplified]
  have "BerDecoder_decodeUint32 buffer 1 (p + 2) = Some (of_nat (be_nat [c]))"
    using decodeUint32_found [OF t(3)] by simp
  moreover have "sint (of_nat (be_nat [c]) :: u32) = int (unat c)"
  proof -
    have "signed_take_bit 31 (int (unat c)) = int (unat c)"
    proof (rule signed_take_bit_int_eq_self)
      have "- (2 ^ 31) \<le> (0 :: int)" "(128 :: int) < 2 ^ 31" by simp_all
      then show "- (2 ^ 31) \<le> int (unat c)" "int (unat c) < 2 ^ 31" using assms(4) by linarith+
    qed
    moreover have "be_nat [c] = unat c" by simp
    ultimately show ?thesis by (simp only: signed_of_nat) simp
  qed
  ultimately show ?thesis using t assms(2,3) by (simp add: pcdlEntryElement_def)
qed

lemma entry_name_step:
  assumes "found_at buffer p ([0x06, of_nat n] @ name)" and "length name = n"
    and "n = 4 \<and> name = asn_id_as_acse \<or> n = 5 \<and> name = asn_id_mms"
    and "p + 2 + int n \<le> endPos" and "endPos \<le> INT_MAX"
  shows "pcdlEntryElement buffer endPos (i, a, m) p =
    Some (Some (p + 2 + int n), i, n = 4 \<or> a, n = 5 \<or> m)"
proof -
  have n: "n < 128" using assms(3) by auto
  note t = short_tlv [OF assms(1,2) n assms(4)]
  obtain post where "ptr_add buffer (p + 2) = Some (name @ post)" using found_at_ptr [OF t(3)] by blast
  moreover have "rd_n (name @ post) n = Some name" using assms(2) by (simp add: rd_n_def)
  ultimately show ?thesis using t assms(3,4,5) by (auto simp: pcdlEntryElement_def)
qed

lemma entry_skip_step:
  assumes "found_at buffer p ([0x30, of_nat n] @ content)" and "length content = n" and "n < 128"
    and "p + 2 + int n \<le> endPos" and "endPos \<le> INT_MAX"
  shows "pcdlEntryElement buffer endPos s p = Some (Some (p + 2 + int n), s)"
  using short_tlv [OF assms(1-4)] assms(4,5) by (cases s) (simp add: pcdlEntryElement_def)

lemma parsePCDLEntry_found:
  assumes "found_at buffer p ([0x02, 1, c] @ ([0x06, of_nat n] @ name) @ [0x30, 4, 0x06, 2, 0x51, 0x01])"
    and "length name = n" and "n = 4 \<and> name = asn_id_as_acse \<or> n = 5 \<and> name = asn_id_mms"
    and "unat c < 128" and "p + 11 + int n \<le> INT_MAX"
  shows "parsePCDLEntry self buffer (11 + int n) p = Some (p + 11 + int n,
    if n = 5 then self\<lparr>ps_mmsContextId := c\<rparr> else self\<lparr>ps_acseContextId := c\<rparr>)"
proof -
  let ?e = "p + 11 + int n"
  have f: "found_at buffer p [0x02, 1, c]" "found_at buffer (p + 3) ([0x06, of_nat n] @ name)"
    "found_at buffer (p + 5 + int n) [0x30, 4, 0x06, 2, 0x51, 0x01]"
    using assms(1,2) unfolding found_at_append by (simp_all add: algebra_simps)
  then have f3: "found_at buffer (p + 5 + int n) ([0x30, of_nat 4] @ [0x06, 2, 0x51, 0x01])" by simp
  have p0: "0 \<le> p" using f(1) by (rule found_at_nonneg)
  have s1: "pcdlEntryElement buffer ?e (-1, False, False) p = Some (Some (p + 3), int (unat c), False, False)"
    using entry_context_step [OF f(1) _ assms(5) assms(4)] by simp
  have s2: "pcdlEntryElement buffer ?e (int (unat c), False, False) (p + 3) =
      Some (Some (p + 5 + int n), int (unat c), n = 4, n = 5)"
    using entry_name_step [OF f(2) assms(2,3) _ assms(5)] by (simp add: algebra_simps)
  have s3: "pcdlEntryElement buffer ?e s (p + 5 + int n) = Some (Some ?e, s)" for s
    using entry_skip_step [OF f3 _ _ _ assms(5)] by (simp add: algebra_simps)
  have "tlv_loop (pcdlEntryElement buffer ?e) ?e (-1, False, False) p =
      Some (Some ?e, int (unat c), n = 4, n = 5)"
    using tlv_loop_step [of p ?e "pcdlEntryElement buffer ?e", OF _ s1]
      tlv_loop_step [of "p + 3" ?e "pcdlEntryElement buffer ?e", OF _ s2]
      tlv_loop_step [of "p + 5 + int n" ?e "pcdlEntryElement buffer ?e", OF _ s3] tlv_loop_done [of ?e ?e] by simp
  moreover have "add_int p (11 + int n) = Some ?e" using p0 assms(5) by (simp add: add.assoc)
  ultimately show ?thesis using assms(3) by (auto simp: parsePCDLEntry_def)
qed

lemma parseContexts_found:
  assumes "found_at buffer p contexts_bytes" and "p + 35 \<le> INT_MAX"
  shows "parsePresentationContextDefinitionList self buffer 35 p =
    Some (p + 35, self\<lparr>ps_acseContextId := 1, ps_mmsContextId := 3\<rparr>)"
proof -
  let ?acse = "[0x02, 1, 1] @ ([0x06, of_nat 4] @ asn_id_as_acse) @ [0x30, 4, 0x06, 2, 0x51, 0x01]"
  let ?mms = "[0x02, 1, 3] @ ([0x06, of_nat 5] @ asn_id_mms) @ [0x30, 4, 0x06, 2, 0x51, 0x01]"
  let ?e = "p + 35"
  have "contexts_bytes = ([0x30, of_nat 15] @ ?acse) @ ([0x30, of_nat 16] @ ?mms)"
    by (simp add: contexts_bytes_def ber_id_def)
  then have f: "found_at buffer p ([0x30, of_nat 15] @ ?acse)"
      "found_at buffer (p + 17) ([0x30, of_nat 16] @ ?mms)"
    using assms(1) found_at_append [of buffer p "[0x30, of_nat 15] @ ?acse" "[0x30, of_nat 16] @ ?mms"]
    by (simp_all add: asn_id_as_acse_def)
  have l: "length ?acse = 15" "length ?mms = 16" "(15::nat) < 128" "(16::nat) < 128"
    "p + 2 + int 15 \<le> ?e" "p + 17 + 2 + int 16 \<le> ?e" by (simp_all add: asn_id_as_acse_def asn_id_mms_def)
  note t1 = short_tlv [OF f(1) l(1,3,5)] and t2 = short_tlv [OF f(2) l(2,4,6)]
  have e1: "parsePCDLEntry self buffer (int 15) (p + 2) = Some (p + 17, self\<lparr>ps_acseContextId := 1\<rparr>)" for self
    using parsePCDLEntry_found [OF t1(3), of self] assms(2) by (simp add: asn_id_as_acse_def)
  have e2: "parsePCDLEntry self buffer (int 16) (p + 17 + 2) = Some (p + 35, self\<lparr>ps_mmsContextId := 3\<rparr>)" for self
    using parsePCDLEntry_found [OF t2(3), of self] assms(2) by (simp add: asn_id_mms_def)
  have s1: "pcdlElement buffer ?e self p = Some (Some (p + 17), self\<lparr>ps_acseContextId := 1\<rparr>)" for self
    unfolding pcdlElement_def t1(1,2) using e1 t1(4) by simp
  have s2: "pcdlElement buffer ?e self (p + 17) = Some (Some (p + 35), self\<lparr>ps_mmsContextId := 3\<rparr>)" for self
    unfolding pcdlElement_def t2(1,2) using e2 t1(4) by simp
  have "tlv_loop (pcdlElement buffer ?e) ?e self p =
      Some (Some ?e, self\<lparr>ps_acseContextId := 1, ps_mmsContextId := 3\<rparr>)"
    using tlv_loop_step [of p ?e "pcdlElement buffer ?e", OF _ s1]
      tlv_loop_step [of "p + 17" ?e "pcdlElement buffer ?e", OF _ s2] tlv_loop_done [of ?e ?e] by simp
  then show ?thesis
    using t1(4) assms(2) by (simp add: parsePresentationContextDefinitionList_def)
qed

text \<open>The normal mode parameters of a connect and of an accept message.\<close>

lemma normal_skip_step:
  assumes "found_at buffer p ([t, of_nat n] @ content)" and "length content = n" and "n < 128"
    and "t \<noteq> 0xa4" and "t \<noteq> 0x61" and "p + 2 + int n \<le> endPos" and "endPos \<le> INT_MAX"
  shows "normalModeElement buffer endPos self p = Some (Some (p + 2 + int n), self)"
  using short_tlv [OF assms(1-3,6)] assms(4-7) by (simp add: normalModeElement_def)

lemma normal_contexts_step:
  assumes "found_at buffer p ([0xa4, 35] @ contexts_bytes)" and "p + 37 \<le> endPos" and "endPos \<le> INT_MAX"
  shows "normalModeElement buffer endPos self p =
    Some (Some (p + 37), self\<lparr>ps_acseContextId := 1, ps_mmsContextId := 3\<rparr>)"
proof -
  have h: "found_at buffer p ([0xa4, of_nat 35] @ contexts_bytes)" "length contexts_bytes = 35" "(35::nat) < 128"
    "p + 2 + int 35 \<le> endPos"
    using assms(1,2) by (simp_all add: contexts_bytes_def asn_id_as_acse_def asn_id_mms_def ber_id_def)
  note t = short_tlv [OF h]
  have "parsePresentationContextDefinitionList self buffer (int 35) (p + 2) =
      Some (p + 37, self\<lparr>ps_acseContextId := 1, ps_mmsContextId := 3\<rparr>)"
    using parseContexts_found [OF t(3), of self] assms(2,3) by simp
  then show ?thesis unfolding normalModeElement_def t(1,2) using t(4) by simp
qed

lemma normal_user_data_step:
  assumes "found_at buffer p (userData_bytes n c @ payload)" and "length payload = n" and "n \<le> 65000"
    and "int (length buffer) \<le> INT_MAX" and "p + int (encodedUserDataLength n) \<le> endPos"
  shows "\<exists>post. normalModeElement buffer endPos self p =
    Some (Some (p + int (encodedUserDataLength n)), with_payload self c (payload @ post) n)"
proof -
  let ?q = "p + int (length (tl_bytes 0x61 (fullyEncodedDataLength n)))"
  have f: "found_at buffer p (tl_bytes 0x61 (fullyEncodedDataLength n))"
    using assms(1) unfolding userData_bytes_def append_assoc found_at_append by simp
  have "?q \<le> endPos" using assms(5) by (simp add: encodedUserDataLength_def length_tl_bytes)
  note t = decodeLength_tl(1) [OF f lengths_bounded(1) [OF assms(3)] this]
    decodeLength_tl(2) [OF f lengths_bounded(1) [OF assms(3)] this, of None]
  obtain post where "parseFullyEncodedData self buffer (int (fullyEncodedDataLength n)) ?q =
      Some (p + int (encodedUserDataLength n), with_payload self c (payload @ post) n)"
    using parseFullyEncodedData_found [OF assms(1-4) refl] by blast
  then show ?thesis
    using t found_at_nonneg [OF f] by (intro exI [of _ post]) (simp add: normalModeElement_def)
qed

lemma length_selector_bytes [simp]: "length (selector_bytes v) = 4"
  by (simp add: selector_bytes_def)

lemma parseConnectParameters_found:
  assumes "found_at buffer p (([0x81, 4] @ selector_bytes v) @ ([0x82, 4] @ selector_bytes v') @
      ([0xa4, 35] @ contexts_bytes) @ userData_bytes n c @ payload)"
    and "length payload = n" and "n \<le> 65000" and "int (length buffer) \<le> INT_MAX"
  shows "\<exists>post. parseNormalModeParameters self buffer (int (connect_normalModeLength n)) p =
    Some (p + int (connect_normalModeLength n),
      with_payload (self\<lparr>ps_acseContextId := 1, ps_mmsContextId := 3\<rparr>) c (payload @ post) n)"
proof -
  define e where "e = p + int (connect_normalModeLength n)"
  have e: "p + 49 + int (encodedUserDataLength n) = e" by (simp add: e_def connect_normalModeLength_def)
  have less: "p < e" "p + 6 < e" "p + 12 < e" "p + 49 < e"
    using e by (simp_all add: encodedUserDataLength_def)
  have lc: "length contexts_bytes = 35"
    by (simp add: contexts_bytes_def asn_id_as_acse_def asn_id_mms_def ber_id_def)
  have f: "found_at buffer p ([0x81, of_nat 4] @ selector_bytes v)"
    "found_at buffer (p + 6) ([0x82, of_nat 4] @ selector_bytes v')"
    "found_at buffer (p + 12) ([0xa4, 35] @ contexts_bytes)"
    "found_at buffer (p + 49) (userData_bytes n c @ payload)"
    using assms(1) lc unfolding found_at_append by (simp_all add: algebra_simps)
  have p0: "0 \<le> p" using f(1) by (rule found_at_nonneg)
  have lim: "e \<le> INT_MAX"
    using found_at_length [OF f(4)] length_userData_bytes [of n c] assms(2,4) e by simp
  let ?s = "self\<lparr>ps_acseContextId := 1, ps_mmsContextId := 3\<rparr>"
  have s1: "normalModeElement buffer e self p = Some (Some (p + 6), self)"
    using normal_skip_step [OF f(1) _ _ _ _ _ lim, of self] less by simp
  have s2: "normalModeElement buffer e self (p + 6) = Some (Some (p + 12), self)"
    using normal_skip_step [OF f(2) _ _ _ _ _ lim, of self] less by simp
  have s3: "normalModeElement buffer e self (p + 12) = Some (Some (p + 49), ?s)"
    using normal_contexts_step [OF f(3) _ lim, of self] less by simp
  obtain post where s4: "normalModeElement buffer e ?s (p + 49) = Some (Some e, with_payload ?s c (payload @ post) n)"
    using normal_user_data_step [OF f(4) assms(2-4), of e ?s] unfolding e by auto
  have "tlv_loop (normalModeElement buffer e) e self p = Some (Some e, with_payload ?s c (payload @ post) n)"
    using tlv_loop_step [OF less(1), of "normalModeElement buffer e", OF s1]
      tlv_loop_step [OF less(2), of "normalModeElement buffer e", OF s2]
      tlv_loop_step [OF less(3), of "normalModeElement buffer e", OF s3]
      tlv_loop_step [OF less(4), of "normalModeElement buffer e", OF s4] tlv_loop_done [of e e] by simp
  moreover have "add_int p (int (connect_normalModeLength n)) = Some e" using p0 lim by (simp add: e_def)
  ultimately show ?thesis by (auto simp: parseNormalModeParameters_def e_def)
qed

lemma parseAcceptParameters_found:
  assumes "found_at buffer p (([0x83, 4] @ calledPresentationSelector) @ ([0xa5, 18] @ accept_results_bytes) @
      userData_bytes n c @ payload)"
    and "length payload = n" and "n \<le> 65000" and "int (length buffer) \<le> INT_MAX"
  shows "\<exists>post. parseNormalModeParameters self buffer (int (cpa_normalModeLength n)) p =
    Some (p + int (cpa_normalModeLength n), with_payload self c (payload @ post) n)"
proof -
  define e where "e = p + int (cpa_normalModeLength n)"
  have e: "p + 26 + int (encodedUserDataLength n) = e" by (simp add: e_def cpa_normalModeLength_def)
  have less: "p < e" "p + 6 < e" "p + 26 < e" using e by (simp_all add: encodedUserDataLength_def)
  have l: "length calledPresentationSelector = 4" "length accept_results_bytes = 18"
    by (simp_all add: calledPresentationSelector_def accept_results_bytes_def)
  have f: "found_at buffer p ([0x83, of_nat 4] @ calledPresentationSelector)"
    "found_at buffer (p + 6) ([0xa5, of_nat 18] @ accept_results_bytes)"
    "found_at buffer (p + 26) (userData_bytes n c @ payload)"
    using assms(1) l unfolding found_at_append by (simp_all add: algebra_simps)
  have p0: "0 \<le> p" using f(1) by (rule found_at_nonneg)
  have lim: "e \<le> INT_MAX"
    using found_at_length [OF f(3)] length_userData_bytes [of n c] assms(2,4) e by simp
  have s1: "normalModeElement buffer e self p = Some (Some (p + 6), self)"
    using normal_skip_step [OF f(1) l(1) _ _ _ _ lim, of self] less by simp
  have s2: "normalModeElement buffer e self (p + 6) = Some (Some (p + 26), self)"
    using normal_skip_step [OF f(2) l(2) _ _ _ _ lim, of self] less by simp
  obtain post where s3: "normalModeElement buffer e self (p + 26) = Some (Some e, with_payload self c (payload @ post) n)"
    using normal_user_data_step [OF f(3) assms(2-4), of e self] unfolding e by auto
  have "tlv_loop (normalModeElement buffer e) e self p = Some (Some e, with_payload self c (payload @ post) n)"
    using tlv_loop_step [OF less(1), of "normalModeElement buffer e", OF s1]
      tlv_loop_step [OF less(2), of "normalModeElement buffer e", OF s2]
      tlv_loop_step [OF less(3), of "normalModeElement buffer e", OF s3] tlv_loop_done [of e e] by simp
  moreover have "add_int p (int (cpa_normalModeLength n)) = Some e" using p0 lim by (simp add: e_def)
  ultimately show ?thesis by (auto simp: parseNormalModeParameters_def e_def)
qed

lemma mode_element:
  assumes "found_at buffer p mode_bytes" and "p + 5 \<le> maxBufPos" and "maxBufPos \<le> INT_MAX"
  shows "\<exists>len'. connectElement buffer maxBufPos (self, len) p = Some (Some (p + 5), self, len')"
    and "\<exists>len'. acceptElement buffer maxBufPos (self, len) p = Some (Some (p + 5), self, len')"
proof -
  have h: "found_at buffer p ([0xa0, of_nat 3] @ [0x80, 1, 1])" "length [0x80, 1, 1 :: byte] = 3" "(3::nat) < 128"
    "p + 2 + int 3 \<le> maxBufPos"
    using assms(1,2) by (simp_all add: mode_bytes_def)
  note t = short_tlv [OF h]
  then have h': "found_at buffer (p + 2) ([0x80, of_nat 1] @ [1])" "length [1 :: byte] = 1" "(1::nat) < 128"
    "p + 2 + 2 + int 1 \<le> maxBufPos"
    using assms(2) by simp_all
  note t' = short_tlv [OF h']
  have "BerDecoder_decodeUint32 buffer (int 1) (p + 2 + 2) = Some (of_nat (be_nat [1]))"
    using decodeUint32_found [OF t'(3)] by simp
  then show "\<exists>len'. connectElement buffer maxBufPos (self, len) p = Some (Some (p + 5), self, len')"
    unfolding connectElement_def using t t' assms(2,3) by (simp add: add.commute)
  show "\<exists>len'. acceptElement buffer maxBufPos (self, len) p = Some (Some (p + 5), self, len')"
    unfolding acceptElement_def using t assms(2,3) by simp
qed

text \<open>The two outer loops on a message \<open>tl_bytes 0x31 k @ mode_bytes @ tl_bytes 0xa2 m @ params\<close>.\<close>

lemma outer_positions:
  assumes "found_at buffer 0 (tl_bytes 0x31 k @ mode_bytes @ tl_bytes 0xa2 m @ params)"
    and "length params = m" and "k < 65536" and "m < 65536"
    and "maxBufPos = int (length (tl_bytes 0x31 k @ mode_bytes @ tl_bytes 0xa2 m @ params))"
    and "q = int (length (tl_bytes 0x31 k))" and "q2 = q + 5 + int (length (tl_bytes 0xa2 m))"
  shows "rd buffer 0 = Some 0x31"
    and "BerDecoder_decodeLength buffer len 1 maxBufPos = Some (q, Some (int k))"
    and "found_at buffer q mode_bytes" and "q + 5 \<le> maxBufPos"
    and "rd buffer (q + 5) = Some 0xa2"
    and "BerDecoder_decodeLength buffer len (q + 5 + 1) maxBufPos = Some (q2, Some (int m))"
    and "found_at buffer q2 params" and "q2 + int m = maxBufPos" and "0 < q"
proof -
  have mode: "length mode_bytes = 5" by (simp add: mode_bytes_def)
  have f: "found_at buffer 0 (tl_bytes 0x31 k)" "found_at buffer q mode_bytes"
    "found_at buffer (q + 5) (tl_bytes 0xa2 m)" "found_at buffer q2 params"
    using assms(1,6,7) mode unfolding found_at_append by (simp_all add: algebra_simps)
  have max: "maxBufPos = q2 + int m" using assms(2,5,6,7) mode by simp
  have q: "q \<le> maxBufPos" "q2 \<le> maxBufPos" "0 < q"
    using max assms(6,7) by (simp_all add: tl_bytes_def)
  show "rd buffer 0 = Some 0x31" "BerDecoder_decodeLength buffer len 1 maxBufPos = Some (q, Some (int k))"
    using decodeLength_tl [OF f(1) assms(3), of maxBufPos] q(1) assms(6) by simp_all
  show "rd buffer (q + 5) = Some 0xa2"
    "BerDecoder_decodeLength buffer len (q + 5 + 1) maxBufPos = Some (q2, Some (int m))"
    using decodeLength_tl [OF f(3) assms(4), of maxBufPos] q(2) assms(7) by simp_all
  show "found_at buffer q mode_bytes" "found_at buffer q2 params" by fact+
  show "q2 + int m = maxBufPos" "0 < q" using max q by simp_all
  show "q + 5 \<le> maxBufPos" using max assms(7) by simp
qed

lemma parseConnect_found:
  assumes "received message (connect_bytes self n @ payload)" and "length payload = n" and "n \<le> 65000"
    and "int (length (bb_buffer message)) \<le> INT_MAX"
  shows "\<exists>post. IsoPresentation_parseConnect peer message =
    Some (1, with_payload (peer\<lparr>ps_acseContextId := 1, ps_mmsContextId := 3\<rparr>) (ps_acseContextId self) (payload @ post) n)"
proof -
  let ?m = "connect_normalModeLength n" and ?b = "bb_buffer message" and ?max = "bb_size message"
  let ?k = "5 + ?m + (1 + BerEncoder_determineLengthSize ?m)"
  let ?params = "([0x81, 4] @ selector_bytes (ps_callingPresentationSelector self)) @
    ([0x82, 4] @ selector_bytes (ps_calledPresentationSelector self)) @ ([0xa4, 35] @ contexts_bytes) @
    userData_bytes n (ps_acseContextId self) @ payload"
  let ?s = "peer\<lparr>ps_acseContextId := 1, ps_mmsContextId := 3\<rparr>"
  obtain rest where mem: "?b = (connect_bytes self n @ payload) @ rest" "?max = int (length (connect_bytes self n @ payload))"
    using received_memory [OF assms(1)] by blast
  have eq: "connect_bytes self n @ payload = tl_bytes 0x31 ?k @ mode_bytes @ tl_bytes 0xa2 ?m @ ?params"
    by (simp add: connect_bytes_def)
  have lp: "length ?params = ?m"
    using length_userData_bytes [of n "ps_acseContextId self"] assms(2)
    by (simp add: connect_normalModeLength_def contexts_bytes_def asn_id_as_acse_def asn_id_mms_def ber_id_def)
  have f: "found_at ?b 0 (tl_bytes 0x31 ?k @ mode_bytes @ tl_bytes 0xa2 ?m @ ?params)"
    using mem(1) eq found_at_start by metis
  have mx: "?max = int (length (tl_bytes 0x31 ?k @ mode_bytes @ tl_bytes 0xa2 ?m @ ?params))"
    using mem(2) eq by metis
  define q where "q = int (length (tl_bytes 0x31 ?k))"
  define q2 where "q2 = q + 5 + int (length (tl_bytes 0xa2 ?m))"
  note pos = outer_positions [OF f lp lengths_bounded(5,3) [OF assms(3)] mx q_def q2_def]
  have lim: "?max \<le> INT_MAX" using found_at_length [OF f] mx assms(4) by simp
  obtain l where s1: "connectElement ?b ?max (peer, Some (int ?k)) q = Some (Some (q + 5), peer, l)"
    using mode_element(1) [OF pos(3,4) lim] by blast
  obtain post where "parseNormalModeParameters peer ?b (int ?m) q2 =
      Some (q2 + int ?m, with_payload ?s (ps_acseContextId self) (payload @ post) n)"
    using parseConnectParameters_found [OF pos(7) assms(2,3,4)] by blast
  then have s2: "connectElement ?b ?max (peer, l) (q + 5) =
      Some (Some ?max, with_payload ?s (ps_acseContextId self) (payload @ post) n, Some (int ?m))"
    unfolding connectElement_def using pos(5,6,8,9) by (simp add: q2_def)
  have "q < ?max" "q + 5 < ?max" using pos(8) q2_def by (simp_all add: tl_bytes_def)
  then have "tlv_loop (connectElement ?b ?max) ?max (peer, Some (int ?k)) q =
      Some (Some ?max, with_payload ?s (ps_acseContextId self) (payload @ post) n, Some (int ?m))"
    using tlv_loop_step [of q ?max "connectElement ?b ?max", OF _ s1]
      tlv_loop_step [of "q + 5" ?max "connectElement ?b ?max", OF _ s2] tlv_loop_done [of ?max ?max] by simp
  then show ?thesis using pos(1,2) by (intro exI [of _ post]) (simp add: IsoPresentation_parseConnect_def Let_def)
qed

lemma parseAccept_found:
  assumes "received message (cpa_bytes self n @ payload)" and "length payload = n" and "n \<le> 65000"
    and "int (length (bb_buffer message)) \<le> INT_MAX"
  shows "\<exists>post. IsoPresentation_parseAcceptMessage peer message =
    Some (1, with_payload peer (ps_acseContextId self) (payload @ post) n)"
proof -
  let ?m = "cpa_normalModeLength n" and ?b = "bb_buffer message" and ?max = "bb_size message"
  let ?k = "5 + ?m + (BerEncoder_determineLengthSize ?m + 1)"
  let ?params = "([0x83, 4] @ calledPresentationSelector) @ ([0xa5, 18] @ accept_results_bytes) @
    userData_bytes n (ps_acseContextId self) @ payload"
  obtain rest where mem: "?b = (cpa_bytes self n @ payload) @ rest" "?max = int (length (cpa_bytes self n @ payload))"
    using received_memory [OF assms(1)] by blast
  have eq: "cpa_bytes self n @ payload = tl_bytes 0x31 ?k @ mode_bytes @ tl_bytes 0xa2 ?m @ ?params"
    by (simp add: cpa_bytes_def)
  have lp: "length ?params = ?m"
    using length_userData_bytes [of n "ps_acseContextId self"] assms(2)
    by (simp add: cpa_normalModeLength_def calledPresentationSelector_def accept_results_bytes_def)
  have f: "found_at ?b 0 (tl_bytes 0x31 ?k @ mode_bytes @ tl_bytes 0xa2 ?m @ ?params)"
    using mem(1) eq found_at_start by metis
  have mx: "?max = int (length (tl_bytes 0x31 ?k @ mode_bytes @ tl_bytes 0xa2 ?m @ ?params))"
    using mem(2) eq by metis
  define q where "q = int (length (tl_bytes 0x31 ?k))"
  define q2 where "q2 = q + 5 + int (length (tl_bytes 0xa2 ?m))"
  note pos = outer_positions [OF f lp lengths_bounded(6,4) [OF assms(3)] mx q_def q2_def]
  have lim: "?max \<le> INT_MAX" using found_at_length [OF f] mx assms(4) by simp
  obtain l where s1: "acceptElement ?b ?max (peer, Some (int ?k)) q = Some (Some (q + 5), peer, l)"
    using mode_element(2) [OF pos(3,4) lim] by blast
  obtain post where "parseNormalModeParameters peer ?b (int ?m) q2 =
      Some (q2 + int ?m, with_payload peer (ps_acseContextId self) (payload @ post) n)"
    using parseAcceptParameters_found [OF pos(7) assms(2,3,4)] by blast
  then have s2: "acceptElement ?b ?max (peer, l) (q + 5) =
      Some (Some ?max, with_payload peer (ps_acseContextId self) (payload @ post) n, Some (int ?m))"
    unfolding acceptElement_def using pos(5,6,8,9) by (simp add: q2_def)
  have "q < ?max" "q + 5 < ?max" using pos(8) q2_def by (simp_all add: tl_bytes_def)
  then have "tlv_loop (acceptElement ?b ?max) ?max (peer, Some (int ?k)) q =
      Some (Some ?max, with_payload peer (ps_acseContextId self) (payload @ post) n, Some (int ?m))"
    using tlv_loop_step [of q ?max "acceptElement ?b ?max", OF _ s1]
      tlv_loop_step [of "q + 5" ?max "acceptElement ?b ?max", OF _ s2] tlv_loop_done [of ?max ?max] by simp
  then show ?thesis using pos(1,2) by (intro exI [of _ post]) (simp add: IsoPresentation_parseAcceptMessage_def Let_def)
qed

lemma parseUserData_found:
  assumes "received message (userData_bytes n c @ payload)" and "length payload = n" and "n \<le> 65000"
  shows "\<exists>post m. IsoPresentation_parseUserData peer message =
    Some (1, peer\<lparr>ps_nextContextId := c, ps_nextPayload := ByteBuffer_wrap (payload @ post) (int n) m\<rparr>)"
proof -
  let ?b = "bb_buffer message" and ?eds = "encodedDataSetLength n" and ?fed = "fullyEncodedDataLength n"
  define e where "e = bb_size message"
  define q1 where "q1 = int (length (tl_bytes 0x61 ?fed))"
  define q2 where "q2 = q1 + int (length (tl_bytes 0x30 ?eds))"
  define q3 where "q3 = q2 + 3 + int (length (tl_bytes 0xa0 n))"
  obtain rest where mem: "?b = (userData_bytes n c @ payload) @ rest" and e: "e = int (length (userData_bytes n c @ payload))"
    using received_memory [OF assms(1)] unfolding e_def by blast
  have "found_at ?b 0 (userData_bytes n c @ payload)" using mem found_at_start by metis
  then have f: "found_at ?b 0 (tl_bytes 0x61 ?fed)" "found_at ?b q1 (tl_bytes 0x30 ?eds)"
    "found_at ?b q2 [0x02, 0x01, c]" "found_at ?b (q2 + 3) (tl_bytes 0xa0 n)" "found_at ?b q3 payload"
    unfolding userData_bytes_def append_assoc found_at_append q1_def q2_def q3_def by (simp_all add: algebra_simps)
  have end_eq: "e = q3 + int n"
    using e assms(2) by (simp add: userData_bytes_def q1_def q2_def q3_def)
  have le: "q1 \<le> e" "q2 \<le> e" "q3 \<le> e" "9 \<le> e"
    using end_eq by (simp_all add: q1_def q2_def q3_def length_tl_bytes BerEncoder_determineLengthSize_def)
  have lens: "?fed < 65536" "?eds < 65536" "n < 65536" using lengths_bounded [OF assms(3)] assms(3) by simp_all
  have t1: "rd ?b 0 = Some 0x61" "BerDecoder_decodeLength ?b l 1 e = Some (q1, Some (int ?fed))" for l
    using decodeLength_tl [OF f(1) lens(1), of e] le(1) by (simp_all add: q1_def)
  have t2: "rd ?b q1 = Some 0x30" "BerDecoder_decodeLength ?b l (q1 + 1) e = Some (q2, Some (int ?eds))" for l
    using decodeLength_tl [OF f(2) lens(2), of e] le(2) by (simp_all add: q2_def)
  have t3: "rd ?b q2 = Some 0x02" "rd ?b (q2 + 1) = Some 0x01" "rd ?b (q2 + 2) = Some c"
    using f(3) by (simp_all add: found_at_Cons add.commute)
  have t4: "rd ?b (q2 + 3) = Some 0xa0" "BerDecoder_decodeLength ?b l (q2 + 3 + 1) e = Some (q3, Some (int n))" for l
    using decodeLength_tl [OF f(4) lens(3), of e] le(3) by (simp_all add: q3_def)
  have t4': "BerDecoder_decodeLength ?b l (q2 + 4) e = Some (q3, Some (int n))" for l
    using t4(2) [of l] by (simp add: add.assoc)
  obtain post where "ptr_add ?b q3 = Some (payload @ post)" using found_at_ptr [OF f(5)] by blast
  then have "IsoPresentation_parseUserData peer message =
      Some (1, peer\<lparr>ps_nextContextId := c, ps_nextPayload := ByteBuffer_wrap (payload @ post) (int n) (int n)\<rparr>)"
    using t1 t2 t3 t4(1) t4' le(4)
    by (simp add: IsoPresentation_parseUserData_def Let_def e_def [symmetric])
  then show ?thesis by blast
qed

section \<open>Properties\<close>

lemma with_payload_content:
  "length payload = n \<Longrightarrow> bb_content (ps_nextPayload (with_payload s c (payload @ post) n)) = payload"
  by (simp add: with_payload_def bb_content_def)

lemma with_payload_fields:
  "ps_nextContextId (with_payload s c d n) = c"
  "ps_acseContextId (with_payload s c d n) = ps_acseContextId s"
  "ps_mmsContextId (with_payload s c d n) = ps_mmsContextId s"
  by (simp_all add: with_payload_def)

text \<open>the connect PDU of a client is accepted by \<open>IsoPresentation_parseConnect\<close>, which learns
  the context identifiers 1 (ACSE) and 3 (MMS) and hands exactly the payload to the ACSE layer.\<close>

theorem presentation_connect_roundtrip:
  assumes "chain_ok payload" and "bc_length payload \<le> 65000"
    and "length (connect_bytes (setConnectContext self params) (nat (bc_length payload))) \<le> length (bc_buffer buffer)"
  shows "\<exists>self' pdu. IsoPresentation_createConnectPdu self params buffer payload = Some (self', pdu) \<and> chain_ok pdu \<and>
    (\<forall>peer message. received message (chain_bytes pdu) \<and> int (length (bb_buffer message)) \<le> INT_MAX \<longrightarrow>
      (\<exists>peer'. IsoPresentation_parseConnect peer message = Some (1, peer') \<and>
         ps_acseContextId peer' = 1 \<and> ps_mmsContextId peer' = 3 \<and> ps_nextContextId peer' = 1 \<and>
         bb_content (ps_nextPayload peer') = chain_bytes payload))"
proof -
  let ?self = "setConnectContext self params" and ?n = "nat (bc_length payload)"
  have n: "length (chain_bytes payload) = ?n" "?n \<le> 65000"
    using chain_ok_length [OF assms(1)] assms(2) by linarith+
  have "length (connect_bytes ?self ?n) \<le> 200"
    by (simp add: connect_bytes_def userData_bytes_def length_tl_bytes BerEncoder_determineLengthSize_def
        mode_bytes_def contexts_bytes_def asn_id_as_acse_def asn_id_mms_def ber_id_def)
  then have "int (length (connect_bytes ?self ?n)) + bc_length payload \<le> INT_MAX" using assms(2) by linarith
  then obtain pdu where pdu: "createConnectPdu ?self buffer payload = Some pdu" "chain_ok pdu"
      "chain_bytes pdu = connect_bytes ?self ?n @ chain_bytes payload"
    using pres_connect.create_message [OF assms(3,1)] by blast
  have "\<exists>peer'. IsoPresentation_parseConnect peer message = Some (1, peer') \<and>
         ps_acseContextId peer' = 1 \<and> ps_mmsContextId peer' = 3 \<and> ps_nextContextId peer' = 1 \<and>
         bb_content (ps_nextPayload peer') = chain_bytes payload"
    if "received message (chain_bytes pdu)" "int (length (bb_buffer message)) \<le> INT_MAX" for peer message
    using parseConnect_found [OF that(1) [unfolded pdu(3)] n that(2), of peer] n(1)
    by (auto simp: with_payload_content with_payload_fields setConnectContext_def)
  with pdu(1,2) show ?thesis
    by (intro exI [of _ ?self] exI [of _ pdu]) (simp add: IsoPresentation_createConnectPdu_def Let_def)
qed

definition demo_presentation :: IsoPresentation where
  "demo_presentation =
     \<lparr>ps_callingPresentationSelector = 1, ps_calledPresentationSelector = 1, ps_nextContextId = 0,
      ps_acseContextId = 1, ps_mmsContextId = 3,
      ps_nextPayload = \<lparr>bb_buffer = [], bb_maxSize = 0, bb_size = 0\<rparr>\<rparr>"

theorem presentation_connect_roundtrip_witness:
  "\<exists>self' pdu. IsoPresentation_createConnectPdu demo_presentation IsoConnectionParameters_create
      (BufferChain 0 0 200 (replicate 200 0) None) (BufferChain 2 2 2 [1, 2] None) = Some (self', pdu) \<and> chain_ok pdu"
proof -
  let ?self = "setConnectContext demo_presentation IsoConnectionParameters_create"
  have "length (connect_bytes ?self (nat (bc_length (BufferChain 2 2 2 [1, 2] None)))) \<le> 200"
    by (simp add: connect_bytes_def userData_bytes_def length_tl_bytes BerEncoder_determineLengthSize_def
        mode_bytes_def contexts_bytes_def asn_id_as_acse_def asn_id_mms_def ber_id_def)
  then show ?thesis
    using presentation_connect_roundtrip [of "BufferChain 2 2 2 [1, 2] None" demo_presentation
        IsoConnectionParameters_create "BufferChain 0 0 200 (replicate 200 0) None"] by auto
qed

text \<open>the accept message (CPA) of a server is accepted by \<open>IsoPresentation_parseAcceptMessage\<close>,
  which hands exactly the payload, under the server's ACSE context, to the ACSE layer.\<close>

theorem presentation_accept_roundtrip:
  assumes "chain_ok payload" and "bc_length payload \<le> 65000"
    and "length (cpa_bytes self (nat (bc_length payload))) \<le> length (bc_buffer buffer)"
  shows "\<exists>pdu. IsoPresentation_createCpaMessage self buffer payload = Some pdu \<and> chain_ok pdu \<and>
    (\<forall>peer message. received message (chain_bytes pdu) \<and> int (length (bb_buffer message)) \<le> INT_MAX \<longrightarrow>
      (\<exists>peer'. IsoPresentation_parseAcceptMessage peer message = Some (1, peer') \<and>
         ps_nextContextId peer' = ps_acseContextId self \<and>
         bb_content (ps_nextPayload peer') = chain_bytes payload))"
proof -
  let ?n = "nat (bc_length payload)"
  have n: "length (chain_bytes payload) = ?n" "?n \<le> 65000"
    using chain_ok_length [OF assms(1)] assms(2) by linarith+
  have "length (cpa_bytes self ?n) \<le> 200"
    by (simp add: cpa_bytes_def userData_bytes_def length_tl_bytes BerEncoder_determineLengthSize_def
        mode_bytes_def calledPresentationSelector_def accept_results_bytes_def)
  then have "int (length (cpa_bytes self ?n)) + bc_length payload \<le> INT_MAX" using assms(2) by linarith
  then obtain pdu where pdu: "IsoPresentation_createCpaMessage self buffer payload = Some pdu" "chain_ok pdu"
      "chain_bytes pdu = cpa_bytes self ?n @ chain_bytes payload"
    using pres_cpa.create_message [OF assms(3,1)] by blast
  have "\<exists>peer'. IsoPresentation_parseAcceptMessage peer message = Some (1, peer') \<and>
         ps_nextContextId peer' = ps_acseContextId self \<and>
         bb_content (ps_nextPayload peer') = chain_bytes payload"
    if "received message (chain_bytes pdu)" "int (length (bb_buffer message)) \<le> INT_MAX" for peer message
    using parseAccept_found [OF that(1) [unfolded pdu(3)] n that(2), of peer] n(1)
    by (auto simp: with_payload_content with_payload_fields)
  with pdu(1,2) show ?thesis by blast
qed

theorem presentation_accept_roundtrip_witness:
  "\<exists>pdu. IsoPresentation_createCpaMessage demo_presentation
      (BufferChain 0 0 200 (replicate 200 0) None) (BufferChain 2 2 2 [1, 2] None) = Some pdu \<and> chain_ok pdu"
proof -
  have "length (cpa_bytes demo_presentation (nat (bc_length (BufferChain 2 2 2 [1, 2] None)))) \<le> 200"
    by (simp add: cpa_bytes_def userData_bytes_def length_tl_bytes BerEncoder_determineLengthSize_def
        mode_bytes_def calledPresentationSelector_def accept_results_bytes_def)
  then show ?thesis
    using presentation_accept_roundtrip [of "BufferChain 2 2 2 [1, 2] None" demo_presentation
        "BufferChain 0 0 200 (replicate 200 0) None"] by auto
qed

text \<open>User data created for the MMS context is parsed back with that context identifier and
  exactly the payload, for every payload of up to 65000 bytes.\<close>

theorem presentation_user_data_roundtrip:
  assumes "chain_ok payload" and "bc_length payload \<le> 65000" and "16 \<le> length (bc_buffer buffer)"
  shows "\<exists>pdu. IsoPresentation_createUserData self buffer payload = Some pdu \<and> chain_ok pdu \<and>
    (\<forall>peer message. received message (chain_bytes pdu) \<longrightarrow>
      (\<exists>peer'. IsoPresentation_parseUserData peer message = Some (1, peer') \<and>
         ps_nextContextId peer' = ps_mmsContextId self \<and>
         bb_content (ps_nextPayload peer') = chain_bytes payload))"
proof -
  let ?n = "nat (bc_length payload)" and ?h = "userData_bytes (nat (bc_length payload)) (ps_mmsContextId self)"
  have n: "length (chain_bytes payload) = ?n" "?n \<le> 65000"
    using chain_ok_length [OF assms(1)] assms(2) by linarith+
  have h: "length ?h \<le> 16"
    by (simp add: userData_bytes_def length_tl_bytes BerEncoder_determineLengthSize_def)
  then have "int (length ?h) + bc_length payload \<le> INT_MAX" "length ?h \<le> length (bc_buffer buffer)"
    using assms(2,3) by linarith+
  then obtain pdu where pdu: "IsoPresentation_createUserData self buffer payload = Some pdu" "chain_ok pdu"
      "chain_bytes pdu = ?h @ chain_bytes payload"
    using pres_user_data.create_message [of payload self buffer] assms(1) by blast
  have "\<exists>peer'. IsoPresentation_parseUserData peer message = Some (1, peer') \<and>
         ps_nextContextId peer' = ps_mmsContextId self \<and>
         bb_content (ps_nextPayload peer') = chain_bytes payload"
    if "received message (chain_bytes pdu)" for peer message
    using parseUserData_found [OF that [unfolded pdu(3)] n, of peer] n(1)
    by (auto simp: bb_content_def ByteBuffer_wrap_def)
  with pdu(1,2) show ?thesis by blast
qed

theorem presentation_user_data_roundtrip_witness:
  "\<exists>pdu. IsoPresentation_createUserData demo_presentation
      (BufferChain 0 0 200 (replicate 200 0) None) (BufferChain 2 2 2 [1, 2] None) = Some pdu \<and> chain_ok pdu"
  using presentation_user_data_roundtrip [of "BufferChain 2 2 2 [1, 2] None"
      "BufferChain 0 0 200 (replicate 200 0) None" demo_presentation] by auto

section \<open>Termination and non-termination\<close>

interpretation fed_progress: tlv_progress "fedElement buffer endPos" "well_formed buffer endPos" endPos
  for buffer endPos
proof
  fix s :: "IsoPresentation \<times> bool" and p
  assume wf: "well_formed buffer endPos s p" and "p < endPos"
  then obtain tag content q where e: "rd buffer p = Some tag"
    "\<And>len. BerDecoder_decodeLength buffer len (p + 1) endPos = Some (q, Some (int (length content)))"
    "0 \<le> q" "p < q" "found_at buffer q content" "add_int q (int (length content)) = Some (q + int (length content))"
    and next_ok: "\<And>s :: IsoPresentation \<times> bool. well_formed buffer endPos s (q + int (length content))"
    by (rule well_formed_element) blast
  obtain post where ptr: "ptr_add buffer q = Some (content @ post)" using found_at_ptr [OF e(5)] by blast
  have u: "BerDecoder_decodeUint32 buffer (int (length content)) q = Some (of_nat (be_nat content))"
    using decodeUint32_found [OF e(5) refl] .
  show "\<exists>r s'. fedElement buffer endPos s p = Some (r, s')"
    using e ptr u by (cases s) (auto simp: fedElement_def)
  show "p < p' \<and> well_formed buffer endPos s' p'" if "fedElement buffer endPos s p = Some (Some p', s')" for p' s'
    using that e ptr u next_ok by (cases s) (auto simp: fedElement_def split: if_splits)
qed

text \<open>on every fully-encoded-data element whose content is a sequence of complete elements with
  encoded lengths, in any number, order and with any tags, the parser loop returns.\<close>

theorem presentation_fed_loop_returns:
  assumes "found_at buffer p (concat (map tlv_bytes es))" and "\<forall>e\<in>set es. length (snd e) < 65536"
    and "endPos = p + int (length (concat (map tlv_bytes es)))" and "endPos \<le> INT_MAX"
  shows "\<exists>y. tlv_loop (fedElement buffer endPos) endPos (self, False) p = Some y"
proof (rule fed_progress.loop_returns)
  show "well_formed buffer endPos (self, False) p" using assms by (auto simp: well_formed_def)
qed

theorem presentation_fed_loop_returns_witness:
  "\<exists>y. tlv_loop (fedElement (concat (map tlv_bytes [(2, [1]), (0xa0, [7, 8])])) 7) 7 (demo_presentation, False) 0 = Some y"
  using presentation_fed_loop_returns [of "concat (map tlv_bytes [(2, [1]), (0xa0, [7, 8])])" 0 "[(2, [1]), (0xa0, [7, 8])]"
      7 demo_presentation] found_at_start [of "concat (map tlv_bytes [(2, [1]), (0xa0, [7, 8])])" "[]"]
  by (simp add: tlv_bytes_def tl_bytes_small)

text \<open>a connect message may contain an element with the length octets \<open>84 ff ff ff fa\<close>, decoded
  as \<open>-6\<close>: one round of the loop of \<open>IsoPresentation_parseConnect\<close> then comes back to the same
  position in the same state, so the parser never returns.\<close>

theorem presentation_connect_hangs:
  assumes "bb_buffer message = [0x31, 6, 0x00, 0x84, 0xff, 0xff, 0xff, 0xfa] @ rest" and "bb_size message = 8"
  shows "connectElement (bb_buffer message) 8 (self, Some (-6)) 2 = Some (Some 2, self, Some (-6)) \<and>
         IsoPresentation_parseConnect self message = None"
proof -
  let ?b = "bb_buffer message"
  have t: "to_int32 4294967040 = -256" by (simp add: to_int32_def signed_take_bit_eq_take_bit_shift take_bit_eq_mod)
  have "decodeLength_loop ?b (Suc (Suc (Suc (Suc 0)))) 0 4 8 = Some (8, -6)"
    using t by (simp add: assms(1))
  moreover have "(4 :: nat) = Suc (Suc (Suc (Suc 0)))" by simp
  ultimately have loop4: "decodeLength_loop ?b 4 0 4 8 = Some (8, -6)" by (simp only:)
  have "rd ?b 3 = Some 0x84" by (simp add: assms(1))
  with loop4 have len: "BerDecoder_decodeLength ?b l 3 8 = Some (8, Some (-6))" for l
    by (simp add: BerDecoder_decodeLength_def)
  have tag: "rd ?b 2 = Some 0" by (simp add: assms(1))
  have step: "connectElement ?b 8 (self, l) 2 = Some (Some 2, self, Some (-6))" for l
    using tag len by (simp add: connectElement_def)
  have "tlv_loop (connectElement ?b 8) 8 (self, Some 6) 2 = tlv_loop (connectElement ?b 8) 8 (self, Some (-6)) 2"
    by (rule tlv_loop_step) (simp_all add: step)
  also have "\<dots> = None" by (rule tlv_loop_stuck) (simp_all add: step)
  finally have loop: "tlv_loop (connectElement ?b 8) 8 (self, Some 6) 2 = None" .
  have "rd ?b 0 = Some 0x31" "BerDecoder_decodeLength ?b None 1 8 = Some (2, Some 6)"
    by (simp_all add: assms(1) BerDecoder_decodeLength_def)
  with loop assms(2) have "IsoPresentation_parseConnect self message = None"
    by (simp add: IsoPresentation_parseConnect_def Let_def)
  with step show ?thesis by blast
qed

theorem presentation_connect_hangs_witness:
  "IsoPresentation_parseConnect demo_presentation
     (ByteBuffer_wrap [0x31, 6, 0x00, 0x84, 0xff, 0xff, 0xff, 0xfa] 8 8) = None"
  using presentation_connect_hangs [of "ByteBuffer_wrap [0x31, 6, 0x00, 0x84, 0xff, 0xff, 0xff, 0xfa] 8 8" "[]" demo_presentation]
  by (simp add: ByteBuffer_wrap_def)

text \<open>the length field of the user abort message counts its own tag and length octets: it always
  announces more content than the message has.\<close>

theorem presentation_abort_length:
  assumes "chain_ok payload" and "bc_length payload \<le> 65000" and "32 \<le> length (bc_buffer buffer)"
  shows "\<exists>pdu k content. IsoPresentation_createAbortUserMessage self buffer payload = Some pdu \<and>
    chain_bytes pdu = tl_bytes 0xa0 k @ content \<and>
    k = length content + (1 + BerEncoder_determineLengthSize (length content))"
proof -
  let ?n = "nat (bc_length payload)"
  let ?content = "userData_bytes ?n (ps_acseContextId self) @ chain_bytes payload"
  let ?k = "encodedUserDataLength ?n + (BerEncoder_determineLengthSize (encodedUserDataLength ?n) + 1)"
  have n: "length (chain_bytes payload) = ?n" using chain_ok_length [OF assms(1)] by linarith
  have "length (abort_bytes self ?n) \<le> 20"
    by (simp add: abort_bytes_def userData_bytes_def length_tl_bytes BerEncoder_determineLengthSize_def)
  then have "length (abort_bytes self ?n) \<le> length (bc_buffer buffer)"
    "int (length (abort_bytes self ?n)) + bc_length payload \<le> INT_MAX" using assms(2,3) by linarith+
  then obtain pdu where "IsoPresentation_createAbortUserMessage self buffer payload = Some pdu"
      "chain_bytes pdu = abort_bytes self ?n @ chain_bytes payload"
    using pres_abort.create_message [of self payload buffer] assms(1) by blast
  moreover have "length ?content = encodedUserDataLength ?n"
    using length_userData_bytes [of ?n "ps_acseContextId self"] n by simp
  ultimately show ?thesis
    by (intro exI [of _ pdu] exI [of _ ?k] exI [of _ ?content]) (simp add: abort_bytes_def)
qed

theorem presentation_abort_length_witness:
  "\<exists>pdu k content. IsoPresentation_createAbortUserMessage demo_presentation
      (BufferChain 0 0 200 (replicate 200 0) None) (BufferChain 2 2 2 [1, 2] None) = Some pdu \<and>
    chain_bytes pdu = tl_bytes 0xa0 k @ content \<and> length content < k"
  using presentation_abort_length [of "BufferChain 2 2 2 [1, 2] None"
      "BufferChain 0 0 200 (replicate 200 0) None" demo_presentation] by fastforce

end
