(* ===== verification/Acse.thy ===== *)
theory Acse
  imports Tlv_Loop Common_Buffers Iso_Parameters
begin

text \<open>
  \<open>src/src/mms/iso_acse/acse.c\<close>: the association control service. The authenticator is a
  callback of the application: it is a field of the connection, a function from the registered
  parameter and the authentication data to the verdict and the security token it stores.
  \<open>nextReference\<close> is a C \<open>long\<close> that only ever holds a \<open>uint32_t\<close>. A pointer into the message
  is the memory from that address on.
\<close>

section \<open>State\<close>

datatype AcseConnectionState = idle | requestIndicated | connected

datatype AcseIndication =
  ACSE_ERROR | ACSE_ASSOCIATE | ACSE_ASSOCIATE_FAILED | ACSE_OK | ACSE_ABORT |
  ACSE_RELEASE_REQUEST | ACSE_RELEASE_RESPONSE

type_synonym token = nat
type_synonym AcseAuthenticator = "nat \<Rightarrow> AcseAuthenticationParameter \<Rightarrow> bool \<times> token option"

record AcseConnection =
  ac_state :: AcseConnectionState
  ac_nextReference :: u32
  ac_userDataBuffer :: "byte list option"
  ac_userDataBufferSize :: int
  ac_authentication :: "AcseAuthenticationParameter option"
  ac_authenticator :: "AcseAuthenticator option"
  ac_authenticatorParameter :: nat
  ac_securityToken :: "token option"

definition appContextNameMms :: "byte list" where "appContextNameMms = [0x28, 0xca, 0x22, 0x02, 0x03]"
definition auth_mech_password_oid :: "byte list" where "auth_mech_password_oid = [0x52, 0x03, 0x01]"
definition requirements_authentication :: byte where "requirements_authentication = 0x80"

definition ACSE_RESULT_ACCEPT :: byte where "ACSE_RESULT_ACCEPT = 0"
definition ACSE_RESULT_REJECT_PERMANENT :: byte where "ACSE_RESULT_REJECT_PERMANENT = 1"

definition AcseConnection_init ::
  "AcseConnection \<Rightarrow> AcseAuthenticator option \<Rightarrow> nat \<Rightarrow> AcseConnection" where
  "AcseConnection_init self authenticator parameter =
     self\<lparr>ac_state := idle, ac_nextReference := 0, ac_userDataBuffer := None, ac_userDataBufferSize := 0,
          ac_authenticator := authenticator, ac_authenticatorParameter := parameter\<rparr>"

section \<open>Authentication\<close>

definition checkAuthMechanismName :: "byte list option \<Rightarrow> int \<Rightarrow> AcseAuthenticationMechanism option" where
  "checkAuthMechanismName authMechanism authMechLen =
     (case authMechanism of
        None \<Rightarrow> Some ACSE_AUTH_NONE
      | Some authMechanism \<Rightarrow>
          if authMechLen = 3 then do {
            oid \<leftarrow> rd_n authMechanism 3;
            Some (if oid = auth_mech_password_oid then ACSE_AUTH_PASSWORD else ACSE_AUTH_NONE)
          }
          else Some ACSE_AUTH_NONE)"

text \<open>The password fields of the local structure are set for the password mechanism only.\<close>

definition authenticateClient ::
  "AcseConnection \<Rightarrow> AcseAuthenticator \<Rightarrow> AcseAuthenticationMechanism \<Rightarrow> byte list option \<Rightarrow> int \<Rightarrow>
   bool \<times> AcseConnection" where
  "authenticateClient self authenticator mechanism authValue authValueLen =
     (let authParameter =
        (if mechanism = ACSE_AUTH_PASSWORD
         then \<lparr>ap_mechanism = mechanism, ap_octetString = authValue, ap_passwordLength = authValueLen\<rparr>
         else \<lparr>ap_mechanism = mechanism, ap_octetString = None, ap_passwordLength = 0\<rparr>);
          (accepted, token) = authenticator (ac_authenticatorParameter self) authParameter
      in (accepted, self\<lparr>ac_securityToken := token\<rparr>))"

definition checkAuthentication ::
  "AcseConnection \<Rightarrow> byte list option \<Rightarrow> int \<Rightarrow> byte list option \<Rightarrow> int \<Rightarrow> (bool \<times> AcseConnection) option" where
  "checkAuthentication self authMechanism authMechLen authValue authValueLen =
     (let self = self\<lparr>ac_securityToken := None\<rparr> in
      case ac_authenticator self of
        None \<Rightarrow> Some (True, self)
      | Some authenticator \<Rightarrow> do {
          mechanism \<leftarrow> checkAuthMechanismName authMechanism authMechLen;
          Some (authenticateClient self authenticator mechanism authValue authValueLen)
        })"

section \<open>Parsing\<close>

text \<open>\<open>parseUserInformation\<close>: the loop state is the connection, \<open>hasindirectReference\<close> and
  \<open>isDataValid\<close>; the result of \<open>BerDecoder_decodeLength\<close> is used unchecked.\<close>

definition userInfoElement ::
  "byte list \<Rightarrow> int \<Rightarrow> AcseConnection \<times> bool \<times> bool \<Rightarrow> int \<Rightarrow>
   (int option \<times> AcseConnection \<times> bool \<times> bool) option" where
  "userInfoElement buffer maxBufPos s bufPos = (case s of (self, hasindirectReference, isDataValid) \<Rightarrow> do {
     tag \<leftarrow> rd buffer bufPos;
     (bufPos, len) \<leftarrow> BerDecoder_decodeLength buffer None (bufPos + 1) maxBufPos;
     len \<leftarrow> len;
     (if tag = 0x02 then do {
        nextReference \<leftarrow> BerDecoder_decodeUint32 buffer len bufPos;
        bufPos \<leftarrow> add_int bufPos len;
        Some (Some bufPos, self\<lparr>ac_nextReference := nextReference\<rparr>, True, isDataValid)
      }
      else if tag = 0xa0 then do {
        dat \<leftarrow> ptr_add buffer bufPos;
        bufPos \<leftarrow> add_int bufPos len;
        Some (Some bufPos, self\<lparr>ac_userDataBufferSize := len, ac_userDataBuffer := Some dat\<rparr>,
              hasindirectReference, True)
      }
      else do {
        bufPos \<leftarrow> add_int bufPos len;
        Some (Some bufPos, self, hasindirectReference, isDataValid)
      })
   })"

text \<open>The result is the position, \<open>*userInfoValid\<close> and the connection. The loop body has no
  early return.\<close>

definition parseUserInformation ::
  "AcseConnection \<Rightarrow> byte list \<Rightarrow> int \<Rightarrow> int \<Rightarrow> (int \<times> bool \<times> AcseConnection) option" where
  "parseUserInformation self buffer bufPos maxBufPos = do {
     (bufPos, self, hasindirectReference, isDataValid) \<leftarrow>
       tlv_loop (userInfoElement buffer maxBufPos) maxBufPos (self, False, False) bufPos;
     bufPos \<leftarrow> bufPos;
     Some (bufPos, hasindirectReference \<and> isDataValid, self)
   }"

text \<open>\<open>case 0xbe\<close>, shared by the two association PDUs: position, \<open>userInfoValid\<close>, connection.\<close>

definition userInformationItem ::
  "AcseConnection \<Rightarrow> byte list \<Rightarrow> int \<Rightarrow> int \<Rightarrow> int \<Rightarrow> bool \<Rightarrow> (int \<times> bool \<times> AcseConnection) option" where
  "userInformationItem self buffer len bufPos maxBufPos userInfoValid = do {
     b \<leftarrow> rd buffer bufPos;
     if b \<noteq> 0x28 then do {
       bufPos \<leftarrow> add_int bufPos len;
       Some (bufPos, userInfoValid, self)
     }
     else do {
       (bufPos, len) \<leftarrow> BerDecoder_decodeLength buffer (Some len) (bufPos + 1) maxBufPos;
       len \<leftarrow> len;
       endPos \<leftarrow> add_int bufPos len;
       parseUserInformation self buffer bufPos endPos
     }
   }"

definition aareElement ::
  "byte list \<Rightarrow> int \<Rightarrow> AcseConnection \<times> u32 \<times> bool \<Rightarrow> int \<Rightarrow>
   (int option \<times> AcseConnection \<times> u32 \<times> bool) option" where
  "aareElement buffer maxBufPos s bufPos = (case s of (self, result, userInfoValid) \<Rightarrow> do {
     tag \<leftarrow> rd buffer bufPos;
     (bufPos, len) \<leftarrow> BerDecoder_decodeLength buffer None (bufPos + 1) maxBufPos;
     (if tag = 0xa2 then do {
        (bufPos, len) \<leftarrow> BerDecoder_decodeLength buffer len (bufPos + 1) maxBufPos;
        len \<leftarrow> len;
        result \<leftarrow> BerDecoder_decodeUint32 buffer len bufPos;
        bufPos \<leftarrow> add_int bufPos len;
        Some (Some bufPos, self, result, userInfoValid)
      }
      else if tag = 0xbe then do {
        len \<leftarrow> len;
        (bufPos, userInfoValid, self) \<leftarrow> userInformationItem self buffer len bufPos maxBufPos userInfoValid;
        Some (Some bufPos, self, result, userInfoValid)
      }
      else do {
        len \<leftarrow> len;
        bufPos \<leftarrow> add_int bufPos len;
        Some (Some bufPos, self, result, userInfoValid)
      })
   })"

definition parseAarePdu ::
  "AcseConnection \<Rightarrow> byte list \<Rightarrow> int \<Rightarrow> int \<Rightarrow> (AcseIndication \<times> AcseConnection) option" where
  "parseAarePdu self buffer bufPos maxBufPos = do {
     (_, self, result, userInfoValid) \<leftarrow>
       tlv_loop (aareElement buffer maxBufPos) maxBufPos (self, 99, False) bufPos;
     Some (if \<not> userInfoValid then ACSE_ERROR
           else if result \<noteq> 0 then ACSE_ASSOCIATE_FAILED
           else ACSE_ASSOCIATE, self)
   }"

text \<open>The local variables of \<open>parseAarqPdu\<close>.\<close>

record aarq_locals =
  aq_authValue :: "byte list option"
  aq_authValueLen :: int
  aq_authMechanism :: "byte list option"
  aq_authMechLen :: int
  aq_userInfoValid :: bool

definition aarqElement ::
  "byte list \<Rightarrow> int \<Rightarrow> AcseConnection \<times> aarq_locals \<Rightarrow> int \<Rightarrow>
   (int option \<times> AcseConnection \<times> aarq_locals) option" where
  "aarqElement buffer maxBufPos s bufPos = (case s of (self, loc) \<Rightarrow> do {
     tag \<leftarrow> rd buffer bufPos;
     (bufPos, len) \<leftarrow> BerDecoder_decodeLength buffer None (bufPos + 1) maxBufPos;
     if bufPos < 0 then Some (None, self, loc)
     else do {
       len \<leftarrow> len;
       (if tag = 0x8b then do {
          dat \<leftarrow> ptr_add buffer bufPos;
          bufPos \<leftarrow> add_int bufPos len;
          Some (Some bufPos, self, loc\<lparr>aq_authMechLen := len, aq_authMechanism := Some dat\<rparr>)
        }
        else if tag = 0xac then do {
          (bufPos, len) \<leftarrow> BerDecoder_decodeLength buffer (Some len) (bufPos + 1) maxBufPos;
          len \<leftarrow> len;
          dat \<leftarrow> ptr_add buffer bufPos;
          bufPos \<leftarrow> add_int bufPos len;
          Some (Some bufPos, self, loc\<lparr>aq_authValueLen := len, aq_authValue := Some dat\<rparr>)
        }
        else if tag = 0xbe then do {
          (bufPos, userInfoValid, self) \<leftarrow>
            userInformationItem self buffer len bufPos maxBufPos (aq_userInfoValid loc);
          Some (Some bufPos, self, loc\<lparr>aq_userInfoValid := userInfoValid\<rparr>)
        }
        else do {
          bufPos \<leftarrow> add_int bufPos len;
          Some (Some bufPos, self, loc)
        })
     }
   })"

definition aarq_start :: aarq_locals where
  "aarq_start = \<lparr>aq_authValue = None, aq_authValueLen = 0, aq_authMechanism = None,
                 aq_authMechLen = 0, aq_userInfoValid = False\<rparr>"

definition parseAarqPdu ::
  "AcseConnection \<Rightarrow> byte list \<Rightarrow> int \<Rightarrow> int \<Rightarrow> (AcseIndication \<times> AcseConnection) option" where
  "parseAarqPdu self buffer bufPos maxBufPos = do {
     (r, self, loc) \<leftarrow> tlv_loop (aarqElement buffer maxBufPos) maxBufPos (self, aarq_start) bufPos;
     (case r of
        None \<Rightarrow> Some (ACSE_ASSOCIATE_FAILED, self)
      | Some _ \<Rightarrow> do {
          (accepted, self) \<leftarrow> checkAuthentication self (aq_authMechanism loc) (aq_authMechLen loc)
                                 (aq_authValue loc) (aq_authValueLen loc);
          Some (if \<not> accepted then ACSE_ASSOCIATE_FAILED
                else if \<not> aq_userInfoValid loc then ACSE_ASSOCIATE_FAILED
                else ACSE_ASSOCIATE, self)
        })
   }"

definition AcseConnection_parseMessage ::
  "AcseConnection \<Rightarrow> ByteBuffer \<Rightarrow> (AcseIndication \<times> AcseConnection) option" where
  "AcseConnection_parseMessage self message =
     (let buffer = bb_buffer message; messageSize = bb_size message in do {
        messageType \<leftarrow> rd buffer 0;
        (bufPos, _) \<leftarrow> BerDecoder_decodeLength buffer None 1 messageSize;
        if bufPos < 0 then Some (ACSE_ERROR, self)
        else if messageType = 0x60 then parseAarqPdu self buffer bufPos messageSize
        else if messageType = 0x61 then parseAarePdu self buffer bufPos messageSize
        else if messageType = 0x62 then Some (ACSE_RELEASE_REQUEST, self)
        else if messageType = 0x63 then Some (ACSE_RELEASE_RESPONSE, self)
        else if messageType = 0x64 then Some (ACSE_ABORT, self)
        else Some (ACSE_ERROR, self)
      })"

section \<open>Creating messages\<close>

text \<open>The three nested lengths of the user information: \<open>n\<close> payload bytes, \<open>r\<close> octets of the
  indirect reference.\<close>

definition assocDataLength :: "nat \<Rightarrow> nat \<Rightarrow> nat" where
  "assocDataLength n r = n + 1 + BerEncoder_determineLengthSize n + r + 2"

definition userInfoLen :: "nat \<Rightarrow> nat \<Rightarrow> nat" where
  "userInfoLen n r = assocDataLength n r + BerEncoder_determineLengthSize (assocDataLength n r) + 1"

definition userInfoLength :: "nat \<Rightarrow> nat \<Rightarrow> nat" where
  "userInfoLength n r = userInfoLen n r + BerEncoder_determineLengthSize (userInfoLen n r) + 1"

text \<open>A \<open>NULL\<close> payload is dereferenced.\<close>

definition AcseConnection_createAssociateResponseMessage ::
  "AcseConnection \<Rightarrow> byte \<Rightarrow> BufferChain \<Rightarrow> BufferChain option \<Rightarrow> BufferChain option" where
  "AcseConnection_createAssociateResponseMessage self acseResult writeBuffer payload = do {
     payload \<leftarrow> payload;
     let payloadLength = nat (bc_length payload);
         nextRefLength = BerEncoder_UInt32determineEncodedSize (ac_nextReference self);
         fixedContentLength = 9 + 5 + 5;
         contentLength = fixedContentLength + (userInfoLength payloadLength nextRefLength + 2)
     in do {
       w \<leftarrow> BerEncoder_encodeTL 0x61 contentLength (bc_buffer writeBuffer, 0);
       w \<leftarrow> BerEncoder_encodeTL 0xa1 7 w;
       w \<leftarrow> BerEncoder_encodeTL 0x06 5 w;
       w \<leftarrow> emits appContextNameMms w;
       w \<leftarrow> BerEncoder_encodeTL 0xa2 3 w;
       w \<leftarrow> BerEncoder_encodeTL 0x02 1 w;
       w \<leftarrow> emit acseResult w;
       w \<leftarrow> BerEncoder_encodeTL 0xa3 5 w;
       w \<leftarrow> BerEncoder_encodeTL 0xa1 3 w;
       w \<leftarrow> BerEncoder_encodeTL 0x02 1 w;
       w \<leftarrow> emit 0 w;
       w \<leftarrow> BerEncoder_encodeTL 0xbe (userInfoLen payloadLength nextRefLength) w;
       w \<leftarrow> BerEncoder_encodeTL 0x28 (assocDataLength payloadLength nextRefLength) w;
       w \<leftarrow> BerEncoder_encodeTL 0x02 nextRefLength w;
       w \<leftarrow> BerEncoder_encodeUInt32 (ac_nextReference self) w;
       w \<leftarrow> BerEncoder_encodeTL 0xa0 payloadLength w;
       Some (link_part w writeBuffer payload)
     }
   }"

definition AcseConnection_createAssociateFailedMessage ::
  "AcseConnection \<Rightarrow> BufferChain \<Rightarrow> BufferChain option" where
  "AcseConnection_createAssociateFailedMessage self writeBuffer =
     AcseConnection_createAssociateResponseMessage self ACSE_RESULT_REJECT_PERMANENT writeBuffer None"

text \<open>The associate request, in the groups of the source: called and calling title and qualifier,
  and the authentication items, each with its contribution to the content length. The four uses of
  \<open>int\<close> parameters as lengths are non-negative there.\<close>

definition titleLength :: "int \<Rightarrow> int \<Rightarrow> nat" where
  "titleLength apTitleLen aeQualifier =
     (if apTitleLen > 0
      then (4 + nat apTitleLen) + (4 + BerEncoder_UInt32determineEncodedSize (word_of_int aeQualifier))
      else 0)"

definition encodeTitle ::
  "byte \<Rightarrow> byte \<Rightarrow> byte list \<Rightarrow> int \<Rightarrow> int \<Rightarrow> wbuf \<Rightarrow> wbuf option" where
  "encodeTitle titleTag qualifierTag apTitle apTitleLen aeQualifier w =
     (if apTitleLen > 0 then
        (let aeQualifierLength = BerEncoder_UInt32determineEncodedSize (word_of_int aeQualifier) in do {
           w \<leftarrow> BerEncoder_encodeTL titleTag (nat apTitleLen + 2) w;
           w \<leftarrow> BerEncoder_encodeTL 0x06 (nat apTitleLen) w;
           title \<leftarrow> rd_n apTitle (nat apTitleLen);
           w \<leftarrow> emits title w;
           w \<leftarrow> BerEncoder_encodeTL qualifierTag (aeQualifierLength + 2) w;
           w \<leftarrow> BerEncoder_encodeTL 0x02 aeQualifierLength w;
           BerEncoder_encodeUInt32 (word_of_int aeQualifier) w
         })
      else Some w)"

definition authLength :: "AcseAuthenticationParameter option \<Rightarrow> nat" where
  "authLength authParameter =
     (case authParameter of
        None \<Rightarrow> 0
      | Some authParameter \<Rightarrow>
          4 + 5 +
          (if ap_mechanism authParameter = ACSE_AUTH_PASSWORD then
             (let passwordLength = nat (ap_passwordLength authParameter);
                  authValueStringLength = BerEncoder_determineLengthSize passwordLength
              in 2 + (passwordLength + authValueStringLength) +
                 BerEncoder_determineLengthSize (passwordLength + authValueStringLength + 1))
           else 2))"

definition encodeAuth :: "AcseAuthenticationParameter option \<Rightarrow> wbuf \<Rightarrow> wbuf option" where
  "encodeAuth authParameter w =
     (case authParameter of
        None \<Rightarrow> Some w
      | Some authParameter \<Rightarrow> do {
          w \<leftarrow> BerEncoder_encodeTL 0x8a 2 w;
          w \<leftarrow> emit 0x04 w;
          if ap_mechanism authParameter = ACSE_AUTH_PASSWORD then
            (let passwordLength = nat (ap_passwordLength authParameter);
                 authValueStringLength = BerEncoder_determineLengthSize passwordLength
             in do {
               w \<leftarrow> emit requirements_authentication w;
               w \<leftarrow> BerEncoder_encodeTL 0x8b 3 w;
               w \<leftarrow> emits auth_mech_password_oid w;
               w \<leftarrow> BerEncoder_encodeTL 0xac (authValueStringLength + passwordLength + 1) w;
               w \<leftarrow> BerEncoder_encodeTL 0x80 passwordLength w;
               octetString \<leftarrow> ap_octetString authParameter;
               password \<leftarrow> rd_n octetString passwordLength;
               emits password w
             })
          else emit 0 w
        })"

definition AcseConnection_createAssociateRequestMessage ::
  "AcseConnection \<Rightarrow> IsoConnectionParameters \<Rightarrow> BufferChain \<Rightarrow> BufferChain \<Rightarrow>
   AcseAuthenticationParameter option \<Rightarrow> BufferChain option" where
  "AcseConnection_createAssociateRequestMessage self isoParameters writeBuffer payload authParameter =
     (let payloadLength = nat (bc_length payload);
          contentLength = 9 +
            titleLength (ip_remoteApTitleLen isoParameters) (ip_remoteAEQualifier isoParameters) +
            titleLength (ip_localApTitleLen isoParameters) (ip_localAEQualifier isoParameters) +
            authLength authParameter + userInfoLength payloadLength 1
      in do {
        w \<leftarrow> BerEncoder_encodeTL 0x60 contentLength (bc_buffer writeBuffer, 0);
        w \<leftarrow> BerEncoder_encodeTL 0xa1 7 w;
        w \<leftarrow> BerEncoder_encodeTL 0x06 5 w;
        w \<leftarrow> emits appContextNameMms w;
        w \<leftarrow> encodeTitle 0xa2 0xa3 (ip_remoteApTitle isoParameters) (ip_remoteApTitleLen isoParameters)
               (ip_remoteAEQualifier isoParameters) w;
        w \<leftarrow> encodeTitle 0xa6 0xa7 (ip_localApTitle isoParameters) (ip_localApTitleLen isoParameters)
               (ip_localAEQualifier isoParameters) w;
        w \<leftarrow> encodeAuth authParameter w;
        w \<leftarrow> BerEncoder_encodeTL 0xbe (userInfoLen payloadLength 1) w;
        w \<leftarrow> BerEncoder_encodeTL 0x28 (assocDataLength payloadLength 1) w;
        w \<leftarrow> BerEncoder_encodeTL 0x02 1 w;
        w \<leftarrow> emit 3 w;
        w \<leftarrow> BerEncoder_encodeTL 0xa0 payloadLength w;
        Some (link_part w writeBuffer payload)
      })"

text \<open>The short messages have no payload.\<close>

definition last_part :: "wbuf \<Rightarrow> BufferChain \<Rightarrow> BufferChain" where
  "last_part w writeBuffer =
     BufferChain (int (snd w)) (int (snd w)) (bc_partMaxLength writeBuffer) (fst w) None"

definition AcseConnection_createAbortMessage ::
  "AcseConnection \<Rightarrow> BufferChain \<Rightarrow> bool \<Rightarrow> BufferChain option" where
  "AcseConnection_createAbortMessage self writeBuffer isProvider = do {
     w \<leftarrow> emits [0x64, 3, 0x80, 1, if isProvider then 1 else 0] (bc_buffer writeBuffer, 0);
     Some (last_part w writeBuffer)
   }"

definition AcseConnection_createReleaseRequestMessage ::
  "AcseConnection \<Rightarrow> BufferChain \<Rightarrow> BufferChain option" where
  "AcseConnection_createReleaseRequestMessage self writeBuffer = do {
     w \<leftarrow> emits [0x62, 3, 0x80, 1, 0] (bc_buffer writeBuffer, 0);
     Some (last_part w writeBuffer)
   }"

definition AcseConnection_createReleaseResponseMessage ::
  "AcseConnection \<Rightarrow> BufferChain \<Rightarrow> BufferChain option" where
  "AcseConnection_createReleaseResponseMessage self writeBuffer = do {
     w \<leftarrow> emits [0x63, 0] (bc_buffer writeBuffer, 0);
     Some (last_part w writeBuffer)
   }"

section \<open>The messages as byte sequences\<close>

text \<open>The association messages are a list of elements followed by the user information; \<open>ref\<close> are
  the octets of the indirect reference.\<close>

definition ui_bytes :: "byte list \<Rightarrow> nat \<Rightarrow> byte list" where
  "ui_bytes ref n =
     tl_bytes 0xbe (userInfoLen n (length ref)) @ tl_bytes 0x28 (assocDataLength n (length ref)) @
     tlv_bytes (0x02, ref) @ tl_bytes 0xa0 n"

definition aare_elements :: "byte \<Rightarrow> (byte \<times> byte list) list" where
  "aare_elements result =
     [(0xa1, tlv_bytes (0x06, appContextNameMms)), (0xa2, tlv_bytes (0x02, [result])),
      (0xa3, tlv_bytes (0xa1, tlv_bytes (0x02, [0])))]"

definition aare_bytes :: "byte \<Rightarrow> byte list \<Rightarrow> nat \<Rightarrow> byte list" where
  "aare_bytes result ref n =
     tl_bytes 0x61 (21 + userInfoLength n (length ref)) @ concat (map tlv_bytes (aare_elements result)) @
     ui_bytes ref n"

definition title_elements :: "byte \<Rightarrow> byte \<Rightarrow> byte list \<Rightarrow> int \<Rightarrow> int \<Rightarrow> (byte \<times> byte list) list" where
  "title_elements titleTag qualifierTag apTitle n aeQualifier =
     (if n > 0 then [(titleTag, tlv_bytes (0x06, take (nat n) apTitle)),
                     (qualifierTag, tlv_bytes (0x02, uint32_bytes (word_of_int aeQualifier)))] else [])"

definition auth_password :: "AcseAuthenticationParameter \<Rightarrow> byte list" where
  "auth_password p = take (nat (ap_passwordLength p)) (the (ap_octetString p))"

definition auth_elements :: "AcseAuthenticationParameter option \<Rightarrow> (byte \<times> byte list) list" where
  "auth_elements auth =
     (case auth of
        None \<Rightarrow> []
      | Some p \<Rightarrow>
          if ap_mechanism p = ACSE_AUTH_PASSWORD
          then [(0x8a, [4, 0x80]), (0x8b, auth_mech_password_oid), (0xac, tlv_bytes (0x80, auth_password p))]
          else [(0x8a, [4, 0])])"

definition address_elements :: "IsoConnectionParameters \<Rightarrow> (byte \<times> byte list) list" where
  "address_elements par =
     [(0xa1, tlv_bytes (0x06, appContextNameMms))] @
     title_elements 0xa2 0xa3 (ip_remoteApTitle par) (ip_remoteApTitleLen par) (ip_remoteAEQualifier par) @
     title_elements 0xa6 0xa7 (ip_localApTitle par) (ip_localApTitleLen par) (ip_localAEQualifier par)"

definition aarq_contentLength ::
  "IsoConnectionParameters \<Rightarrow> AcseAuthenticationParameter option \<Rightarrow> nat \<Rightarrow> nat" where
  "aarq_contentLength par auth n = 9 +
     titleLength (ip_remoteApTitleLen par) (ip_remoteAEQualifier par) +
     titleLength (ip_localApTitleLen par) (ip_localAEQualifier par) + authLength auth + userInfoLength n 1"

definition aarq_bytes ::
  "IsoConnectionParameters \<Rightarrow> AcseAuthenticationParameter option \<Rightarrow> nat \<Rightarrow> byte list" where
  "aarq_bytes par auth n =
     tl_bytes 0x60 (aarq_contentLength par auth n) @
     concat (map tlv_bytes (address_elements par @ auth_elements auth)) @ ui_bytes [3] n"

text \<open>The titles fit the ten-octet arrays of the parameters, and a password is given with its
  length.\<close>

definition title_ok :: "byte list \<Rightarrow> int \<Rightarrow> bool" where
  "title_ok apTitle n \<longleftrightarrow> n \<le> 10 \<and> n \<le> int (length apTitle)"

definition auth_ok :: "AcseAuthenticationParameter option \<Rightarrow> bool" where
  "auth_ok auth \<longleftrightarrow>
     (case auth of
        None \<Rightarrow> True
      | Some p \<Rightarrow> ap_mechanism p = ACSE_AUTH_PASSWORD \<longrightarrow>
          (case ap_octetString p of
             None \<Rightarrow> False
           | Some os \<Rightarrow> 0 \<le> ap_passwordLength p \<and> ap_passwordLength p \<le> int (length os)))"

definition request_ok :: "IsoConnectionParameters \<Rightarrow> AcseAuthenticationParameter option \<Rightarrow> bool" where
  "request_ok par auth \<longleftrightarrow>
     title_ok (ip_remoteApTitle par) (ip_remoteApTitleLen par) \<and>
     title_ok (ip_localApTitle par) (ip_localApTitleLen par) \<and> auth_ok auth"

lemma title_emits:
  assumes "title_ok apTitle n"
  shows "encodeTitle titleTag qualifierTag apTitle n aeQualifier =
    emits (concat (map tlv_bytes (title_elements titleTag qualifierTag apTitle n aeQualifier)))"
proof (cases "n > 0")
  case True
  let ?q = "uint32_bytes (word_of_int aeQualifier)"
  have len: "length ?q = BerEncoder_UInt32determineEncodedSize (word_of_int aeQualifier)" "length ?q \<le> 5"
    using uint32_bytes_spec [of "word_of_int aeQualifier"] by simp_all
  have n: "nat n < 126" "min (length apTitle) (nat n) = nat n" "nat n \<le> length apTitle"
    using assms True by (auto simp: title_ok_def)
  show ?thesis
    using True n len(2)
    by (intro ext) (simp add: encodeTitle_def title_elements_def Let_def rd_n_def tlv_bytes_def
        len(1) [symmetric] tl_bytes_small enc_emits)
qed (simp add: encodeTitle_def title_elements_def fun_eq_iff)

lemma auth_emits:
  assumes "auth_ok auth"
  shows "encodeAuth auth = emits (concat (map tlv_bytes (auth_elements auth)))"
proof (cases auth)
  case (Some p)
  show ?thesis
  proof (cases "ap_mechanism p = ACSE_AUTH_PASSWORD")
    case True
    with assms Some obtain os where os: "ap_octetString p = Some os" "0 \<le> ap_passwordLength p"
      "ap_passwordLength p \<le> int (length os)" by (auto simp: auth_ok_def split: option.splits)
    let ?m = "nat (ap_passwordLength p)"
    have m: "?m \<le> length os" "min (length os) ?m = ?m" using os by simp_all
    have len: "length (tl_bytes 0x80 ?m) + ?m = BerEncoder_determineLengthSize ?m + ?m + 1"
      by (simp add: length_tl_bytes)
    show ?thesis
      using Some True os(1) m
      by (intro ext) (simp add: encodeAuth_def auth_elements_def auth_password_def Let_def rd_n_def tlv_bytes_def
          tl_bytes_small enc_emits len auth_mech_password_oid_def requirements_authentication_def)
  qed (simp add: Some encodeAuth_def auth_elements_def fun_eq_iff enc_emits tl_bytes_small tlv_bytes_def)
qed (simp add: encodeAuth_def auth_elements_def fun_eq_iff)

lemma createAssociateRequest_eq:
  assumes "request_ok par auth"
  shows "AcseConnection_createAssociateRequestMessage self par writeBuffer payload auth =
     emits (aarq_bytes par auth (nat (bc_length payload))) (bc_buffer writeBuffer, 0) \<bind>
     (\<lambda>w. Some (link_part w writeBuffer payload))"
  using assms
  by (simp add: AcseConnection_createAssociateRequestMessage_def Let_def request_ok_def title_emits auth_emits
      enc_emits aarq_bytes_def aarq_contentLength_def address_elements_def ui_bytes_def tlv_bytes_def
      tl_bytes_small appContextNameMms_def)

lemma createAssociateResponse_eq:
  "AcseConnection_createAssociateResponseMessage self result writeBuffer (Some payload) =
     emits (aare_bytes result (uint32_bytes (ac_nextReference self)) (nat (bc_length payload)))
       (bc_buffer writeBuffer, 0) \<bind> (\<lambda>w. Some (link_part w writeBuffer payload))"
  by (simp add: AcseConnection_createAssociateResponseMessage_def Let_def uint32_bytes_spec(5) [symmetric]
      enc_emits aare_bytes_def aare_elements_def ui_bytes_def tlv_bytes_def tl_bytes_small appContextNameMms_def)

interpretation acse_response: layer_header
  "\<lambda>(self, result) buffer payload. AcseConnection_createAssociateResponseMessage self result buffer (Some payload)"
  "\<lambda>(self, result) n. aare_bytes result (uint32_bytes (ac_nextReference self)) (nat n)"
  by unfold_locales (auto simp: createAssociateResponse_eq emits_link_part)

section \<open>Parsing what was created\<close>

lemma lengthSize_le: "BerEncoder_determineLengthSize k \<le> 3"
  by (simp add: BerEncoder_determineLengthSize_def)

lemma acse_lengths_bounded:
  assumes "n \<le> 65000" and "r \<le> 5"
  shows "assocDataLength n r < 65536" and "userInfoLen n r < 65536" and "userInfoLength n r \<le> n + 20"
  using assms lengthSize_le [of n] lengthSize_le [of "assocDataLength n r"] lengthSize_le [of "userInfoLen n r"]
  unfolding assocDataLength_def userInfoLen_def userInfoLength_def by linarith+

definition with_user_data :: "AcseConnection \<Rightarrow> u32 \<Rightarrow> byte list \<Rightarrow> nat \<Rightarrow> AcseConnection" where
  "with_user_data self ref dat n =
     self\<lparr>ac_nextReference := ref, ac_userDataBufferSize := int n, ac_userDataBuffer := Some dat\<rparr>"

lemma userInfo_reference_step:
  assumes "found_at buffer p (tlv_bytes (0x02, ref))" and "length ref < 65536"
    and "p + int (length (tlv_bytes (0x02, ref))) \<le> endPos" and "endPos \<le> INT_MAX"
  shows "userInfoElement buffer endPos (self, h, d) p =
    Some (Some (p + int (length (tlv_bytes (0x02, ref)))),
          self\<lparr>ac_nextReference := of_nat (be_nat ref)\<rparr>, True, d)"
proof -
  have "p + int (length (tl_bytes 0x02 (length ref))) \<le> endPos" using assms(3) by (simp add: length_tlv_bytes)
  note e = tlv_element [OF assms(1,2) this]
  then show ?thesis
    using decodeUint32_found [OF e(3) refl] assms(3,4) by (simp add: userInfoElement_def length_tlv_bytes add.assoc)
qed

lemma userInfo_data_step:
  assumes "found_at buffer p (tlv_bytes (0xa0, dat))" and "length dat < 65536"
    and "p + int (length (tlv_bytes (0xa0, dat))) \<le> endPos" and "endPos \<le> INT_MAX"
  shows "\<exists>post. userInfoElement buffer endPos (self, h, d) p =
    Some (Some (p + int (length (tlv_bytes (0xa0, dat)))),
          self\<lparr>ac_userDataBufferSize := int (length dat), ac_userDataBuffer := Some (dat @ post)\<rparr>, h, True)"
proof -
  have "p + int (length (tl_bytes 0xa0 (length dat))) \<le> endPos" using assms(3) by (simp add: length_tlv_bytes)
  note e = tlv_element [OF assms(1,2) this]
  obtain post where "ptr_add buffer (p + int (length (tl_bytes 0xa0 (length dat)))) = Some (dat @ post)"
    using found_at_ptr [OF e(3)] by blast
  then show ?thesis
    using e assms(3,4)
    by (intro exI [of _ post]) (simp add: userInfoElement_def length_tlv_bytes add.assoc)
qed

lemma parseUserInformation_found:
  assumes "found_at buffer p (tlv_bytes (0x02, ref) @ tlv_bytes (0xa0, dat))"
    and "length ref \<le> 5" and "length dat \<le> 65000"
    and "e = p + int (length (tlv_bytes (0x02, ref) @ tlv_bytes (0xa0, dat)))" and "e \<le> INT_MAX"
  shows "\<exists>post. parseUserInformation self buffer p e =
    Some (e, True, with_user_data self (of_nat (be_nat ref)) (dat @ post) (length dat))"
proof -
  let ?q = "p + int (length (tlv_bytes (0x02, ref)))"
  let ?s = "self\<lparr>ac_nextReference := of_nat (be_nat ref)\<rparr>"
  have f: "found_at buffer p (tlv_bytes (0x02, ref))" "found_at buffer ?q (tlv_bytes (0xa0, dat))"
    using assms(1) by (simp_all add: found_at_append)
  have q: "p < ?q" "?q < e" "?q + int (length (tlv_bytes (0xa0, dat))) = e" "?q \<le> e"
    using assms(4) by (simp_all add: length_tlv_bytes tl_bytes_def)
  have s1: "userInfoElement buffer e (self, False, False) p = Some (Some ?q, ?s, True, False)"
    using userInfo_reference_step [OF f(1) _ q(4) assms(5)] assms(2) by simp
  obtain post where s2: "userInfoElement buffer e (?s, True, False) ?q =
      Some (Some e, with_user_data self (of_nat (be_nat ref)) (dat @ post) (length dat), True, True)"
    using userInfo_data_step [OF f(2), of e ?s True False] assms(3,5) q(3) by (auto simp: with_user_data_def)
  have "p < e" using q by linarith
  then have "tlv_loop (userInfoElement buffer e) e (self, False, False) p =
      Some (Some e, with_user_data self (of_nat (be_nat ref)) (dat @ post) (length dat), True, True)"
    using tlv_loop_step [of p e "userInfoElement buffer e", OF _ s1]
      tlv_loop_step [of ?q e "userInfoElement buffer e", OF q(2) s2] tlv_loop_done [of e e] by simp
  then show ?thesis by (auto simp: parseUserInformation_def)
qed

text \<open>The element \<open>0xbe\<close> as both parsers meet it.\<close>

lemma userInformation_found:
  assumes "found_at buffer p (ui_bytes ref (length dat) @ dat)"
    and "length ref \<le> 5" and "length dat \<le> 65000"
    and "e = p + int (length (ui_bytes ref (length dat) @ dat))" and "e \<le> maxBufPos" and "e \<le> INT_MAX"
  obtains q post where "rd buffer p = Some 0xbe" "0 \<le> q"
    "\<And>l. BerDecoder_decodeLength buffer l (p + 1) maxBufPos =
        Some (q, Some (int (userInfoLen (length dat) (length ref))))"
    "\<And>v. userInformationItem self buffer (int (userInfoLen (length dat) (length ref))) q maxBufPos v =
        Some (e, True, with_user_data self (of_nat (be_nat ref)) (dat @ post) (length dat))"
proof -
  let ?u = "userInfoLen (length dat) (length ref)" and ?a = "assocDataLength (length dat) (length ref)"
  let ?q = "p + int (length (tl_bytes 0xbe ?u))"
  let ?q2 = "?q + int (length (tl_bytes 0x28 ?a))"
  let ?inner = "tlv_bytes (0x02, ref) @ tlv_bytes (0xa0, dat)"
  have f: "found_at buffer p (tl_bytes 0xbe ?u)" "found_at buffer ?q (tl_bytes 0x28 ?a)" "found_at buffer ?q2 ?inner"
    using assms(1) unfolding ui_bytes_def append_assoc found_at_append
    by (simp_all add: tlv_bytes_def found_at_append add.assoc)
  have lens: "?q2 + int (length ?inner) = e" "int (length ?inner) = int ?a"
    using assms(2,4) by (simp_all add: ui_bytes_def tlv_bytes_def length_tl_bytes assocDataLength_def
        BerEncoder_determineLengthSize_def)
  have p0: "0 \<le> p" using f(1) by (rule found_at_nonneg)
  have q: "?q \<le> maxBufPos" "?q2 \<le> maxBufPos" "0 \<le> ?q2" "add_int ?q2 (int ?a) = Some e"
    using lens assms(5,6) p0 by simp_all
  note b = acse_lengths_bounded [OF assms(3,2)]
  note o1 = decodeLength_tl [OF f(1) b(2) q(1)] and o2 = decodeLength_tl [OF f(2) b(1) q(2)]
  obtain post where ui: "parseUserInformation self buffer ?q2 e =
      Some (e, True, with_user_data self (of_nat (be_nat ref)) (dat @ post) (length dat))"
    using parseUserInformation_found [OF f(3) assms(2,3) lens(1) [symmetric] assms(6)] by blast
  show ?thesis
    by (rule that [of ?q post]) (use o1 o2 q(4) ui p0 in \<open>simp_all add: userInformationItem_def\<close>)
qed

interpretation aarq_skip: tlv_skip "aarqElement buffer endPos" buffer endPos
  "\<lambda>t. t \<notin> {0x8b, 0xac, 0xbe}" for buffer endPos
proof
  fix p t c and s :: "AcseConnection \<times> aarq_locals"
  assume f: "found_at buffer p (tlv_bytes (t, c))" "length c < 65536"
    and e: "p + int (length (tlv_bytes (t, c))) \<le> endPos" "endPos \<le> INT_MAX" and t: "t \<notin> {0x8b, 0xac, 0xbe}"
  have "p + int (length (tl_bytes t (length c))) \<le> endPos" using e(1) by (simp add: length_tlv_bytes)
  note x = tlv_element [OF f this]
  then show "aarqElement buffer endPos s p = Some (Some (p + int (length (tlv_bytes (t, c)))), s)"
    using t e by (cases s) (simp add: aarqElement_def length_tlv_bytes add.assoc)
qed

interpretation aare_skip: tlv_skip "aareElement buffer endPos" buffer endPos
  "\<lambda>t. t \<notin> {0xa2, 0xbe}" for buffer endPos
proof
  fix p t c and s :: "AcseConnection \<times> u32 \<times> bool"
  assume f: "found_at buffer p (tlv_bytes (t, c))" "length c < 65536"
    and e: "p + int (length (tlv_bytes (t, c))) \<le> endPos" "endPos \<le> INT_MAX" and t: "t \<notin> {0xa2, 0xbe}"
  have "p + int (length (tl_bytes t (length c))) \<le> endPos" using e(1) by (simp add: length_tlv_bytes)
  note x = tlv_element [OF f this]
  then show "aareElement buffer endPos s p = Some (Some (p + int (length (tlv_bytes (t, c)))), s)"
    using t e by (cases s) (simp add: aareElement_def length_tlv_bytes add.assoc)
qed

lemma aarq_mechanism_step:
  assumes "found_at buffer p (tlv_bytes (0x8b, c))" and "length c < 65536"
    and "p + int (length (tlv_bytes (0x8b, c))) \<le> endPos" and "endPos \<le> INT_MAX"
  shows "\<exists>post. aarqElement buffer endPos (self, loc) p = Some (Some (p + int (length (tlv_bytes (0x8b, c)))),
    self, loc\<lparr>aq_authMechLen := int (length c), aq_authMechanism := Some (c @ post)\<rparr>)"
proof -
  have "p + int (length (tl_bytes 0x8b (length c))) \<le> endPos" using assms(3) by (simp add: length_tlv_bytes)
  note e = tlv_element [OF assms(1,2) this]
  obtain post where "ptr_add buffer (p + int (length (tl_bytes 0x8b (length c)))) = Some (c @ post)"
    using found_at_ptr [OF e(3)] by blast
  then show ?thesis
    using e assms(3,4) by (intro exI [of _ post]) (simp add: aarqElement_def length_tlv_bytes add.assoc)
qed

lemma aarq_value_step:
  assumes "found_at buffer p (tlv_bytes (0xac, tlv_bytes (t, c)))" and "length c \<le> 65000"
    and "p + int (length (tlv_bytes (0xac, tlv_bytes (t, c)))) \<le> endPos" and "endPos \<le> INT_MAX"
  shows "\<exists>post. aarqElement buffer endPos (self, loc) p =
    Some (Some (p + int (length (tlv_bytes (0xac, tlv_bytes (t, c))))),
      self, loc\<lparr>aq_authValueLen := int (length c), aq_authValue := Some (c @ post)\<rparr>)"
proof -
  let ?n = "length (tlv_bytes (t, c))"
  define q where "q = p + int (length (tl_bytes 0xac ?n))"
  have n: "?n < 65536" "length c < 65536"
    using assms(2) by (simp_all add: length_tlv_bytes length_tl_bytes BerEncoder_determineLengthSize_def)
  have lim: "q \<le> endPos" "q + int (length (tl_bytes t (length c))) \<le> endPos"
    "q + int (length (tl_bytes t (length c))) + int (length c) \<le> endPos"
    using assms(3) by (simp_all add: q_def length_tlv_bytes)
  note o = tlv_element [OF assms(1) n(1) lim(1) [unfolded q_def], folded q_def]
  note i = tlv_element [OF o(3) n(2) lim(2)]
  obtain post where "ptr_add buffer (q + int (length (tl_bytes t (length c)))) = Some (c @ post)"
    using found_at_ptr [OF i(3)] by blast
  moreover have "p + int (length (tlv_bytes (0xac, tlv_bytes (t, c)))) =
      q + int (length (tl_bytes t (length c))) + int (length c)"
    by (simp add: q_def length_tlv_bytes)
  ultimately show ?thesis
    using o i lim assms(4) by (intro exI [of _ post]) (simp add: aarqElement_def)
qed

text \<open>What the server has collected after the authentication elements of a request.\<close>

definition auth_locals :: "AcseAuthenticationParameter option \<Rightarrow> byte list \<Rightarrow> byte list \<Rightarrow> aarq_locals" where
  "auth_locals auth mp vp =
     (case auth of
        None \<Rightarrow> aarq_start
      | Some ap \<Rightarrow>
          if ap_mechanism ap = ACSE_AUTH_PASSWORD
          then aarq_start\<lparr>aq_authMechLen := 3, aq_authMechanism := Some (auth_mech_password_oid @ mp),
                 aq_authValueLen := int (length (auth_password ap)), aq_authValue := Some (auth_password ap @ vp)\<rparr>
          else aarq_start)"

lemma aarq_auth_steps:
  assumes "found_at buffer p (concat (map tlv_bytes (auth_elements auth)))"
    and "p + int (length (concat (map tlv_bytes (auth_elements auth)))) \<le> endPos" and "endPos \<le> INT_MAX"
    and "\<And>ap. auth = Some ap \<Longrightarrow> length (auth_password ap) \<le> 65000"
  shows "\<exists>mp vp. tlv_loop (aarqElement buffer endPos) endPos (self, aarq_start) p =
    tlv_loop (aarqElement buffer endPos) endPos (self, auth_locals auth mp vp)
      (p + int (length (concat (map tlv_bytes (auth_elements auth)))))"
proof (cases "\<exists>ap. auth = Some ap \<and> ap_mechanism ap = ACSE_AUTH_PASSWORD")
  case False
  then have "\<forall>e\<in>set (auth_elements auth). length (snd e) < 65536 \<and> fst e \<notin> {0x8b, 0xac, 0xbe}"
    by (auto simp: auth_elements_def split: option.splits)
  from aarq_skip.skip_run [OF assms(1) this assms(2,3)] False show ?thesis
    by (auto simp: auth_locals_def split: option.splits)
next
  case True
  then obtain ap where ap: "auth = Some ap" "ap_mechanism ap = ACSE_AUTH_PASSWORD" by blast
  let ?pw = "auth_password ap" and ?step = "aarqElement buffer endPos"
  define q1 where "q1 = p + int (length (tlv_bytes (0x8a, [4, 0x80])))"
  define q2 where "q2 = q1 + int (length (tlv_bytes (0x8b, auth_mech_password_oid)))"
  define q3 where "q3 = q2 + int (length (tlv_bytes (0xac, tlv_bytes (0x80, ?pw))))"
  have els: "auth_elements auth =
      [(0x8a, [4, 0x80]), (0x8b, auth_mech_password_oid), (0xac, tlv_bytes (0x80, ?pw))]"
    using ap by (simp add: auth_elements_def)
  have f: "found_at buffer p (concat (map tlv_bytes [(0x8a, [4, 0x80])]))"
    "found_at buffer q1 (tlv_bytes (0x8b, auth_mech_password_oid))"
    "found_at buffer q2 (tlv_bytes (0xac, tlv_bytes (0x80, ?pw)))"
    using assms(1) by (simp_all add: els q1_def q2_def found_at_append add.assoc)
  have q3: "p + int (length (concat (map tlv_bytes (auth_elements auth)))) = q3"
    by (simp add: els q1_def q2_def q3_def add.assoc)
  have order: "q1 < q2" "q2 < q3" "q3 \<le> endPos" "q1 \<le> endPos" "q2 \<le> endPos" "q1 < endPos" "q2 < endPos"
    using assms(2) unfolding q3 by (simp_all add: q2_def q3_def length_tlv_bytes tl_bytes_def)
  have s0: "tlv_loop ?step endPos (self, aarq_start) p = tlv_loop ?step endPos (self, aarq_start) q1"
    using aarq_skip.skip_run [OF f(1) _ _ assms(3), of "(self, aarq_start)"] order(4) by (simp add: q1_def)
  obtain mp where s1: "?step (self, aarq_start) q1 = Some (Some q2, self,
      aarq_start\<lparr>aq_authMechLen := 3, aq_authMechanism := Some (auth_mech_password_oid @ mp)\<rparr>)"
    using aarq_mechanism_step [OF f(2) _ _ assms(3), of self aarq_start] order(5)
    by (auto simp: q2_def auth_mech_password_oid_def)
  obtain vp where s2: "?step (self,
        aarq_start\<lparr>aq_authMechLen := 3, aq_authMechanism := Some (auth_mech_password_oid @ mp)\<rparr>) q2 =
      Some (Some q3, self, auth_locals auth mp vp)"
    using aarq_value_step [OF f(3) assms(4) [OF ap(1)] _ assms(3), of self] order(3) ap
    by (auto simp: q3_def auth_locals_def)
  show ?thesis
    using s0 tlv_loop_step [of q1 endPos ?step, OF order(6) s1] tlv_loop_step [of q2 endPos ?step, OF order(7) s2]
    unfolding q3 by auto
qed

lemma aarq_userInformation_step:
  assumes "found_at buffer p (ui_bytes ref (length dat) @ dat)"
    and "length ref \<le> 5" and "length dat \<le> 65000"
    and "endPos = p + int (length (ui_bytes ref (length dat) @ dat))" and "endPos \<le> INT_MAX"
  shows "\<exists>post. tlv_loop (aarqElement buffer endPos) endPos (self, loc) p = Some (Some endPos,
    with_user_data self (of_nat (be_nat ref)) (dat @ post) (length dat), loc\<lparr>aq_userInfoValid := True\<rparr>)"
proof -
  obtain q post where u: "rd buffer p = Some 0xbe" "0 \<le> q"
    "\<And>l. BerDecoder_decodeLength buffer l (p + 1) endPos = Some (q, Some (int (userInfoLen (length dat) (length ref))))"
    "\<And>v. userInformationItem self buffer (int (userInfoLen (length dat) (length ref))) q endPos v =
        Some (endPos, True, with_user_data self (of_nat (be_nat ref)) (dat @ post) (length dat))"
    by (rule userInformation_found [OF assms(1-4) order.refl assms(5), of self]) blast
  have "p < endPos" using assms(4) by (simp add: ui_bytes_def tl_bytes_def)
  moreover have "aarqElement buffer endPos (self, loc) p = Some (Some endPos,
      with_user_data self (of_nat (be_nat ref)) (dat @ post) (length dat), loc\<lparr>aq_userInfoValid := True\<rparr>)"
    using u by (simp add: aarqElement_def)
  ultimately show ?thesis
    using tlv_loop_step [of p endPos "aarqElement buffer endPos"] tlv_loop_done [of endPos endPos] by fastforce
qed

lemma aare_userInformation_step:
  assumes "found_at buffer p (ui_bytes ref (length dat) @ dat)"
    and "length ref \<le> 5" and "length dat \<le> 65000"
    and "endPos = p + int (length (ui_bytes ref (length dat) @ dat))" and "endPos \<le> INT_MAX"
  shows "\<exists>post. tlv_loop (aareElement buffer endPos) endPos (self, result, v) p = Some (Some endPos,
    with_user_data self (of_nat (be_nat ref)) (dat @ post) (length dat), result, True)"
proof -
  obtain q post where u: "rd buffer p = Some 0xbe" "0 \<le> q"
    "\<And>l. BerDecoder_decodeLength buffer l (p + 1) endPos = Some (q, Some (int (userInfoLen (length dat) (length ref))))"
    "\<And>v. userInformationItem self buffer (int (userInfoLen (length dat) (length ref))) q endPos v =
        Some (endPos, True, with_user_data self (of_nat (be_nat ref)) (dat @ post) (length dat))"
    by (rule userInformation_found [OF assms(1-4) order.refl assms(5), of self]) blast
  have "p < endPos" using assms(4) by (simp add: ui_bytes_def tl_bytes_def)
  moreover have "aareElement buffer endPos (self, result, v) p = Some (Some endPos,
      with_user_data self (of_nat (be_nat ref)) (dat @ post) (length dat), result, True)"
    using u by (simp add: aareElement_def)
  ultimately show ?thesis
    using tlv_loop_step [of p endPos "aareElement buffer endPos"] tlv_loop_done [of endPos endPos] by fastforce
qed

lemma address_elements_ignored:
  assumes "title_ok (ip_remoteApTitle par) (ip_remoteApTitleLen par)"
    and "title_ok (ip_localApTitle par) (ip_localApTitleLen par)"
  shows "\<forall>e\<in>set (address_elements par). length (snd e) < 65536 \<and> fst e \<notin> {0x8b, 0xac, 0xbe}"
proof -
  have "length (tlv_bytes (0x02, uint32_bytes x)) < 65536" for x
    using uint32_bytes_spec(4) [of x] by (simp add: length_tlv_bytes length_tl_bytes BerEncoder_determineLengthSize_def)
  moreover have "length (tlv_bytes (0x06, take (nat n) title)) < 65536" if "title_ok title n" for n title
    using that lengthSize_le [of "length (take (nat n) title)"]
    by (auto simp: title_ok_def length_tlv_bytes length_tl_bytes)
  moreover have "length (tlv_bytes (0x06, appContextNameMms)) < 65536"
    by (simp add: length_tlv_bytes length_tl_bytes BerEncoder_determineLengthSize_def appContextNameMms_def)
  ultimately show ?thesis using assms by (auto simp: address_elements_def title_elements_def)
qed

text \<open>The authentication data that a server hands to its authenticator for a request. The memory
  behind the password is the rest of the message.\<close>

definition presented :: "AcseAuthenticationParameter option \<Rightarrow> byte list \<Rightarrow> AcseAuthenticationParameter" where
  "presented auth post =
     (case auth of
        None \<Rightarrow> \<lparr>ap_mechanism = ACSE_AUTH_NONE, ap_octetString = None, ap_passwordLength = 0\<rparr>
      | Some ap \<Rightarrow>
          if ap_mechanism ap = ACSE_AUTH_PASSWORD
          then \<lparr>ap_mechanism = ACSE_AUTH_PASSWORD, ap_octetString = Some (auth_password ap @ post),
                ap_passwordLength = int (length (auth_password ap))\<rparr>
          else \<lparr>ap_mechanism = ACSE_AUTH_NONE, ap_octetString = None, ap_passwordLength = 0\<rparr>)"

text \<open>The answer of a server to a request with this authentication data.\<close>

definition verdict ::
  "AcseConnection \<Rightarrow> AcseAuthenticationParameter \<Rightarrow> AcseIndication \<times> AcseConnection" where
  "verdict self p =
     (case ac_authenticator self of
        None \<Rightarrow> (ACSE_ASSOCIATE, self\<lparr>ac_securityToken := None\<rparr>)
      | Some a \<Rightarrow> (let v = a (ac_authenticatorParameter self) p in
          (if fst v then ACSE_ASSOCIATE else ACSE_ASSOCIATE_FAILED, self\<lparr>ac_securityToken := snd v\<rparr>)))"

lemma parseAarqPdu_verdict:
  assumes "tlv_loop (aarqElement buffer endPos) endPos (peer, aarq_start) p =
      Some (Some q, self, (auth_locals auth mp vp)\<lparr>aq_userInfoValid := True\<rparr>)"
  shows "parseAarqPdu peer buffer p endPos = Some (verdict self (presented auth vp))"
proof -
  let ?l = "auth_locals auth mp vp"
  have "checkAuthentication self (aq_authMechanism ?l) (aq_authMechLen ?l) (aq_authValue ?l) (aq_authValueLen ?l) =
    Some (case ac_authenticator self of
        None \<Rightarrow> (True, self\<lparr>ac_securityToken := None\<rparr>)
      | Some a \<Rightarrow> (fst (a (ac_authenticatorParameter self) (presented auth vp)),
                  self\<lparr>ac_securityToken := snd (a (ac_authenticatorParameter self) (presented auth vp))\<rparr>))"
    by (auto simp: checkAuthentication_def auth_locals_def presented_def aarq_start_def checkAuthMechanismName_def
        authenticateClient_def rd_n_def auth_mech_password_oid_def Let_def split: option.splits prod.splits)
  with assms show ?thesis by (simp add: parseAarqPdu_def verdict_def Let_def split: option.splits)
qed

text \<open>The common start of the two parsers.\<close>

lemma parseMessage_start:
  assumes "found_at (bb_buffer message) 0 (tl_bytes t k)" and "int (length (tl_bytes t k)) \<le> bb_size message"
  shows "t = 0x60 \<Longrightarrow> AcseConnection_parseMessage peer message =
      parseAarqPdu peer (bb_buffer message) (int (length (tl_bytes t k))) (bb_size message)"
    and "t = 0x61 \<Longrightarrow> AcseConnection_parseMessage peer message =
      parseAarePdu peer (bb_buffer message) (int (length (tl_bytes t k))) (bb_size message)"
proof -
  have "rd (bb_buffer message) 0 = Some t" "found_at (bb_buffer message) 1 (length_bytes k)"
    using assms(1) by (simp_all add: tl_bytes_def found_at_Cons)
  moreover have "\<exists>l. BerDecoder_decodeLength (bb_buffer message) None 1 (bb_size message) =
      Some (int (length (tl_bytes t k)), l)"
    using decodeLength_found_mod [OF calculation(2), of "bb_size message" None] assms(2) by (simp add: tl_bytes_def)
  ultimately show
    "t = 0x60 \<Longrightarrow> AcseConnection_parseMessage peer message =
      parseAarqPdu peer (bb_buffer message) (int (length (tl_bytes t k))) (bb_size message)"
    "t = 0x61 \<Longrightarrow> AcseConnection_parseMessage peer message =
      parseAarePdu peer (bb_buffer message) (int (length (tl_bytes t k))) (bb_size message)"
    by (auto simp: AcseConnection_parseMessage_def Let_def)
qed

lemma parse_aarq_found:
  assumes "holds message (aarq_bytes par auth (length dat) @ dat)" and "request_ok par auth"
    and "length dat \<le> 65000" and "\<And>ap. auth = Some ap \<Longrightarrow> length (auth_password ap) \<le> 65000"
  shows "\<exists>post post'. AcseConnection_parseMessage peer message =
    Some (verdict (with_user_data peer 3 (dat @ post) (length dat)) (presented auth post'))"
proof -
  let ?b = "bb_buffer message" and ?e = "bb_size message"
  let ?tl = "tl_bytes 0x60 (aarq_contentLength par auth (length dat))"
  let ?adr = "concat (map tlv_bytes (address_elements par))" and ?au = "concat (map tlv_bytes (auth_elements auth))"
  obtain rest where mem: "?b = (aarq_bytes par auth (length dat) @ dat) @ rest"
    and sz: "?e = int (length (aarq_bytes par auth (length dat) @ dat))"
    using holds_memory [OF assms(1)] by blast
  have lim: "?e \<le> INT_MAX" using assms(1) by (simp add: holds_def)
  define q0 where "q0 = int (length ?tl)"
  define q1 where "q1 = q0 + int (length ?adr)"
  define q2 where "q2 = q1 + int (length ?au)"
  have "found_at ?b 0 (aarq_bytes par auth (length dat) @ dat)" unfolding mem by (rule found_at_start)
  then have f: "found_at ?b 0 ?tl" "found_at ?b q0 ?adr" "found_at ?b q1 ?au"
    "found_at ?b q2 (ui_bytes [3] (length dat) @ dat)"
    unfolding aarq_bytes_def append_assoc found_at_append map_append concat_append
    by (simp_all add: q0_def q1_def q2_def add.assoc)
  have e: "?e = q2 + int (length (ui_bytes [3] (length dat) @ dat))"
    using sz by (simp add: aarq_bytes_def q0_def q1_def q2_def)
  then have q: "q1 \<le> ?e" "q2 \<le> ?e" "q0 \<le> ?e" by (simp_all add: q1_def q2_def)
  let ?loop = "tlv_loop (aarqElement ?b ?e) ?e"
  have s1: "?loop (peer, aarq_start) q0 = ?loop (peer, aarq_start) q1"
    using aarq_skip.skip_run [OF f(2) address_elements_ignored _ lim] assms(2) q(1)
    by (simp add: q1_def request_ok_def)
  obtain mp vp where s2: "?loop (peer, aarq_start) q1 = ?loop (peer, auth_locals auth mp vp) q2"
    using aarq_auth_steps [OF f(3) _ lim assms(4), of peer] q(2) unfolding q2_def by blast
  obtain post where "?loop (peer, auth_locals auth mp vp) q2 = Some (Some ?e,
      with_user_data peer 3 (dat @ post) (length dat), (auth_locals auth mp vp)\<lparr>aq_userInfoValid := True\<rparr>)"
    using aarq_userInformation_step [OF f(4) _ assms(3) e lim, of peer "auth_locals auth mp vp"] by auto
  with s1 s2 have "parseAarqPdu peer ?b q0 ?e =
      Some (verdict (with_user_data peer 3 (dat @ post) (length dat)) (presented auth vp))"
    by (intro parseAarqPdu_verdict) simp
  then show ?thesis using parseMessage_start(1) [OF f(1), of peer] q(3) by (auto simp: q0_def)
qed

lemma aare_result_step:
  assumes "found_at buffer p (tlv_bytes (0xa2, tlv_bytes (0x02, [r])))"
    and "p + int (length (tlv_bytes (0xa2, tlv_bytes (0x02, [r])))) \<le> endPos" and "endPos \<le> INT_MAX"
  shows "aareElement buffer endPos (self, old, v) p =
    Some (Some (p + int (length (tlv_bytes (0xa2, tlv_bytes (0x02, [r]))))), self, of_nat (unat r), v)"
proof -
  have s: "tlv_bytes (0xa2, tlv_bytes (0x02, [r])) = [0xa2, 3, 2, 1, r]" by (simp add: tlv_bytes_def tl_bytes_small)
  have o: "found_at buffer p ([0xa2, of_nat 3] @ [2, 1, r])" "length [2, 1, r] = 3" "(3::nat) < 128"
    "p + 2 + int 3 \<le> endPos" using assms(1,2) by (simp_all add: s)
  note o1 = short_tlv [OF o]
  have "found_at buffer (p + 2) ([2, of_nat 1] @ [r])" "length [r] = 1" "(1::nat) < 128"
    "p + 2 + 2 + int 1 \<le> endPos" using o1(3) assms(2) by (simp_all add: s)
  note i1 = short_tlv [OF this]
  have "BerDecoder_decodeUint32 buffer 1 (p + 4) = Some (of_nat (unat r))"
    using decodeUint32_found [of buffer "p + 4" "[r]" 1] i1(3) by (simp add: add.assoc)
  then show ?thesis
    using o1 i1 assms(2,3) by (simp add: aareElement_def s add.commute)
qed

lemma octet_zero_iff: "(of_nat (unat r) :: u32) = 0 \<longleftrightarrow> (r :: byte) = 0"
proof -
  have "unat (of_nat k :: u32) = k" if "k < 256" for k
    using that by (simp add: unat_of_nat)
  from this [OF unat_byte [of r]] show ?thesis by (metis unsigned_0 unsigned_word_eqI)
qed

lemma parse_aare_found:
  assumes "holds message (aare_bytes r ref (length dat) @ dat)"
    and "length dat \<le> 65000" and "length ref \<le> 5"
  shows "\<exists>post. AcseConnection_parseMessage peer message =
    Some (if r = 0 then ACSE_ASSOCIATE else ACSE_ASSOCIATE_FAILED,
          with_user_data peer (of_nat (be_nat ref)) (dat @ post) (length dat))"
proof -
  let ?b = "bb_buffer message" and ?e = "bb_size message"
  let ?tl = "tl_bytes 0x61 (21 + userInfoLength (length dat) (length ref))"
  let ?x1 = "concat (map tlv_bytes [(0xa1, tlv_bytes (0x06, appContextNameMms))])"
  let ?x2 = "tlv_bytes (0xa2, tlv_bytes (0x02, [r]))"
  let ?x3 = "concat (map tlv_bytes [(0xa3, tlv_bytes (0xa1, tlv_bytes (0x02, [0])))])"
  obtain rest where mem: "?b = (aare_bytes r ref (length dat) @ dat) @ rest"
    and sz: "?e = int (length (aare_bytes r ref (length dat) @ dat))"
    using holds_memory [OF assms(1)] by blast
  have lim: "?e \<le> INT_MAX" using assms(1) by (simp add: holds_def)
  define q0 where "q0 = int (length ?tl)"
  define q1 where "q1 = q0 + int (length ?x1)"
  define q2 where "q2 = q1 + int (length ?x2)"
  define q3 where "q3 = q2 + int (length ?x3)"
  have "found_at ?b 0 (aare_bytes r ref (length dat) @ dat)" unfolding mem by (rule found_at_start)
  then have f: "found_at ?b 0 ?tl" "found_at ?b q0 ?x1" "found_at ?b q1 ?x2" "found_at ?b q2 ?x3"
    "found_at ?b q3 (ui_bytes ref (length dat) @ dat)"
    unfolding aare_bytes_def aare_elements_def append_assoc found_at_append
    by (simp_all add: q0_def q1_def q2_def q3_def found_at_append add.assoc)
  have e: "?e = q3 + int (length (ui_bytes ref (length dat) @ dat))"
    using sz by (simp add: aare_bytes_def aare_elements_def q0_def q1_def q2_def q3_def)
  then have q: "q0 \<le> ?e" "q1 \<le> ?e" "q2 \<le> ?e" "q3 \<le> ?e" "q1 < ?e"
    by (simp_all add: q1_def q2_def q3_def ui_bytes_def tl_bytes_def)
  let ?loop = "tlv_loop (aareElement ?b ?e) ?e"
  have "?loop (peer, 99, False) q0 = ?loop (peer, 99, False) q1"
    using aare_skip.skip_run [OF f(2) _ _ lim] q(2) by (simp add: q1_def length_tlv_bytes appContextNameMms_def tl_bytes_small)
  also have "\<dots> = ?loop (peer, of_nat (unat r), False) q2"
    by (rule tlv_loop_step [OF q(5)]) (use aare_result_step [OF f(3) _ lim] q(3) in \<open>simp add: q2_def\<close>)
  also have "\<dots> = ?loop (peer, of_nat (unat r), False) q3"
    using aare_skip.skip_run [OF f(4) _ _ lim] q(4) by (simp add: q3_def length_tlv_bytes tl_bytes_small)
  finally obtain post where "?loop (peer, 99, False) q0 = Some (Some ?e,
      with_user_data peer (of_nat (be_nat ref)) (dat @ post) (length dat), of_nat (unat r), True)"
    using aare_userInformation_step [OF f(5) assms(3,2) e lim, of peer "of_nat (unat r)" False] by auto
  moreover have "(of_nat (unat r) :: u32) = 0 \<longleftrightarrow> r = 0" by (rule octet_zero_iff)
  ultimately show ?thesis
    using parseMessage_start(2) [OF f(1), of peer] q(1) by (auto simp: parseAarePdu_def q0_def)
qed

section \<open>Properties\<close>

text \<open>The user data a connection reports after a parse.\<close>

definition user_data :: "AcseConnection \<Rightarrow> byte list" where
  "user_data self = take (nat (ac_userDataBufferSize self)) (the (ac_userDataBuffer self))"

lemma with_user_data_content: "user_data (with_user_data self ref (dat @ post) (length dat)) = dat"
  by (simp add: user_data_def with_user_data_def)

lemma verdict_data: "user_data (snd (verdict self p)) = user_data self"
    "ac_nextReference (snd (verdict self p)) = ac_nextReference self"
  by (auto simp: verdict_def user_data_def Let_def split: option.splits)

definition demo_acse :: AcseConnection where
  "demo_acse = \<lparr>ac_state = idle, ac_nextReference = 3, ac_userDataBuffer = None, ac_userDataBufferSize = 0,
     ac_authentication = None,
     ac_authenticator = Some (\<lambda>_ p. (ap_mechanism p = ACSE_AUTH_PASSWORD \<and>
        take (nat (ap_passwordLength p)) (the (ap_octetString p)) = [0x70, 0x77], Some 7)),
     ac_authenticatorParameter = 0, ac_securityToken = None\<rparr>"

lemma request_part:
  assumes "request_ok par auth" and "chain_ok payload"
    and "length (aarq_bytes par auth (nat (bc_length payload))) \<le> length (bc_buffer buffer)"
    and "int (length (aarq_bytes par auth (nat (bc_length payload)))) + bc_length payload \<le> INT_MAX"
  obtains pdu where
    "AcseConnection_createAssociateRequestMessage self par buffer payload auth = Some pdu" "chain_ok pdu"
    "chain_bytes pdu = aarq_bytes par auth (nat (bc_length payload)) @ chain_bytes payload"
proof -
  let ?h = "aarq_bytes par auth (nat (bc_length payload))"
  obtain rest where "AcseConnection_createAssociateRequestMessage self par buffer payload auth =
      Some (link_part (?h @ rest, length ?h) buffer payload)"
    using emits_link_part [OF assms(3)] unfolding createAssociateRequest_eq [OF assms(1)] by blast
  with link_part_message [OF assms(2,4)] that show ?thesis by blast
qed

text \<open>an association request carries titles, authentication and user data to the server: the server
  reports exactly the payload as user data with the reference 3, calls its authenticator with the
  mechanism and the password of the client, and answers with the authenticator's verdict and
  security token (an association without an authenticator).\<close>

theorem acse_request_roundtrip:
  assumes "request_ok par auth" and "chain_ok payload" and "bc_length payload \<le> 65000"
    and "\<And>ap. auth = Some ap \<Longrightarrow> ap_passwordLength ap \<le> 1000"
    and "length (aarq_bytes par auth (nat (bc_length payload))) \<le> length (bc_buffer buffer)"
    and "length (bc_buffer buffer) \<le> 1000000"
  shows "\<exists>pdu. AcseConnection_createAssociateRequestMessage self par buffer payload auth = Some pdu \<and> chain_ok pdu \<and>
    (\<forall>peer message. received message (chain_bytes pdu) \<longrightarrow>
      (\<exists>peer' post. AcseConnection_parseMessage peer message = Some (verdict peer' (presented auth post)) \<and>
         user_data peer' = chain_bytes payload \<and> ac_nextReference peer' = 3 \<and>
         ac_authenticator peer' = ac_authenticator peer \<and>
         ac_authenticatorParameter peer' = ac_authenticatorParameter peer))"
proof -
  let ?n = "nat (bc_length payload)"
  have n: "length (chain_bytes payload) = ?n" "?n \<le> 65000"
    using chain_ok_length [OF assms(2)] assms(3) by linarith+
  have "int (length (aarq_bytes par auth ?n)) + bc_length payload \<le> INT_MAX" using assms(3,5,6) by linarith
  then obtain pdu where pdu:
      "AcseConnection_createAssociateRequestMessage self par buffer payload auth = Some pdu" "chain_ok pdu"
      "chain_bytes pdu = aarq_bytes par auth ?n @ chain_bytes payload"
    using request_part [OF assms(1,2,5)] by blast
  have pw: "length (auth_password ap) \<le> 65000" if "auth = Some ap" for ap
    using assms(4) [OF that] by (simp add: auth_password_def)
  have "\<exists>peer' post. AcseConnection_parseMessage peer message = Some (verdict peer' (presented auth post)) \<and>
         user_data peer' = chain_bytes payload \<and> ac_nextReference peer' = 3 \<and>
         ac_authenticator peer' = ac_authenticator peer \<and>
         ac_authenticatorParameter peer' = ac_authenticatorParameter peer"
    if "received message (chain_bytes pdu)" for peer message
  proof -
    have "holds message (aarq_bytes par auth (length (chain_bytes payload)) @ chain_bytes payload)"
      "length (chain_bytes payload) \<le> 65000" using received_holds [OF that] n by (simp_all add: pdu(3))
    then obtain post post' where "AcseConnection_parseMessage peer message =
        Some (verdict (with_user_data peer 3 (chain_bytes payload @ post) (length (chain_bytes payload)))
          (presented auth post'))"
      using parse_aarq_found [OF _ assms(1), of message "chain_bytes payload" peer] pw by blast
    then show ?thesis
      using with_user_data_content [of peer 3 "chain_bytes payload" post] by (fastforce simp: with_user_data_def)
  qed
  with pdu(1,2) show ?thesis by blast
qed

theorem acse_request_roundtrip_witness:
  "\<exists>pdu peer'. AcseConnection_createAssociateRequestMessage demo_acse IsoConnectionParameters_create
       (BufferChain 0 0 200 (replicate 200 0) None) (BufferChain 2 2 2 [1, 2] None)
       (Some \<lparr>ap_mechanism = ACSE_AUTH_PASSWORD, ap_octetString = Some [0x70, 0x77, 0], ap_passwordLength = 2\<rparr>) = Some pdu \<and>
     AcseConnection_parseMessage demo_acse (ByteBuffer_wrap (chain_bytes pdu) (bc_length pdu) (bc_length pdu)) =
       Some (ACSE_ASSOCIATE, peer') \<and> ac_securityToken peer' = Some 7 \<and> user_data peer' = [1, 2]"
proof -
  let ?auth = "Some \<lparr>ap_mechanism = ACSE_AUTH_PASSWORD, ap_octetString = Some [0x70, 0x77, 0], ap_passwordLength = 2\<rparr>"
  let ?payload = "BufferChain 2 2 2 [1, 2] None" and ?buffer = "BufferChain 0 0 200 (replicate 200 0) None"
  have req: "request_ok IsoConnectionParameters_create ?auth"
    by (simp add: request_ok_def title_ok_def auth_ok_def IsoConnectionParameters_create_def)
  have "length (aarq_bytes IsoConnectionParameters_create ?auth (nat (bc_length ?payload))) \<le> length (bc_buffer ?buffer)"
    by code_simp
  then obtain pdu where pdu: "AcseConnection_createAssociateRequestMessage demo_acse IsoConnectionParameters_create
       ?buffer ?payload ?auth = Some pdu" "chain_ok pdu"
    and parse: "\<forall>peer message. received message (chain_bytes pdu) \<longrightarrow>
      (\<exists>peer' post. AcseConnection_parseMessage peer message = Some (verdict peer' (presented ?auth post)) \<and>
         user_data peer' = [1, 2] \<and> ac_nextReference peer' = 3 \<and> ac_authenticator peer' = ac_authenticator peer \<and>
         ac_authenticatorParameter peer' = ac_authenticatorParameter peer)"
    using acse_request_roundtrip [OF req, of ?payload ?buffer demo_acse] by auto
  let ?message = "ByteBuffer_wrap (chain_bytes pdu) (bc_length pdu) (bc_length pdu)"
  from parse [rule_format, OF chain_received [OF pdu(2)], of demo_acse] obtain peer' post where p: "AcseConnection_parseMessage demo_acse ?message =
      Some (verdict peer' (presented ?auth post))" "user_data peer' = [1, 2]"
      "ac_authenticator peer' = ac_authenticator demo_acse" by blast
  moreover have "fst (verdict peer' (presented ?auth post)) = ACSE_ASSOCIATE"
    "ac_securityToken (snd (verdict peer' (presented ?auth post))) = Some 7"
    using p(3) by (simp_all add: verdict_def demo_acse_def presented_def auth_password_def)
  ultimately show ?thesis
    using pdu(1) verdict_data(1) [of peer' "presented ?auth post"]
    by (intro exI [of _ pdu] exI [of _ "snd (verdict peer' (presented ?auth post))"]) (simp add: prod_eq_iff)
qed

text \<open>An association response is reported to the client as an association for result 0 and as a failed
  association for every other result, with the server's reference and exactly the payload as user
  data.\<close>

theorem acse_response_roundtrip:
  assumes "chain_ok payload" and "bc_length payload \<le> 65000" and "60 \<le> length (bc_buffer buffer)"
  shows "\<exists>pdu. AcseConnection_createAssociateResponseMessage self result buffer (Some payload) = Some pdu \<and> chain_ok pdu \<and>
    (\<forall>peer message. received message (chain_bytes pdu) \<longrightarrow>
      (\<exists>peer'. AcseConnection_parseMessage peer message =
           Some (if result = ACSE_RESULT_ACCEPT then ACSE_ASSOCIATE else ACSE_ASSOCIATE_FAILED, peer') \<and>
         user_data peer' = chain_bytes payload \<and> ac_nextReference peer' = ac_nextReference self))"
proof -
  let ?n = "nat (bc_length payload)" and ?ref = "uint32_bytes (ac_nextReference self)"
  have n: "length (chain_bytes payload) = ?n" "?n \<le> 65000"
    using chain_ok_length [OF assms(1)] assms(2) by linarith+
  note ref = uint32_bytes_spec(4) [of "ac_nextReference self"]
  have "length (aare_bytes result ?ref ?n) \<le> 60"
    using ref by (simp add: aare_bytes_def aare_elements_def ui_bytes_def tlv_bytes_def length_tl_bytes
        appContextNameMms_def BerEncoder_determineLengthSize_def)
  then have "length (aare_bytes result ?ref ?n) \<le> length (bc_buffer buffer)"
    "int (length (aare_bytes result ?ref ?n)) + bc_length payload \<le> INT_MAX" using assms(2,3) by linarith+
  then obtain pdu where pdu: "AcseConnection_createAssociateResponseMessage self result buffer (Some payload) = Some pdu"
      "chain_ok pdu" "chain_bytes pdu = aare_bytes result ?ref ?n @ chain_bytes payload"
    using acse_response.create_message [of "(self, result)" payload buffer] assms(1) by auto
  have "\<exists>peer'. AcseConnection_parseMessage peer message =
           Some (if result = ACSE_RESULT_ACCEPT then ACSE_ASSOCIATE else ACSE_ASSOCIATE_FAILED, peer') \<and>
         user_data peer' = chain_bytes payload \<and> ac_nextReference peer' = ac_nextReference self"
    if "received message (chain_bytes pdu)" for peer message
  proof -
    have "holds message (aare_bytes result ?ref (length (chain_bytes payload)) @ chain_bytes payload)"
      using received_holds [OF that] n by (simp add: pdu(3))
    from parse_aare_found [OF this _ ref, of peer] n obtain post where
      "AcseConnection_parseMessage peer message =
        Some (if result = 0 then ACSE_ASSOCIATE else ACSE_ASSOCIATE_FAILED,
          with_user_data peer (of_nat (be_nat ?ref)) (chain_bytes payload @ post) (length (chain_bytes payload)))"
      by auto
    then show ?thesis
      using with_user_data_content [of peer _ "chain_bytes payload" post]
      by (simp add: ACSE_RESULT_ACCEPT_def uint32_bytes_spec(1)) (simp add: with_user_data_def)
  qed
  with pdu(1,2) show ?thesis by blast
qed

theorem acse_response_roundtrip_witness:
  "\<exists>pdu peer'. AcseConnection_createAssociateResponseMessage demo_acse 1
       (BufferChain 0 0 60 (replicate 60 0) None) (Some (BufferChain 2 2 2 [1, 2] None)) = Some pdu \<and>
     AcseConnection_parseMessage demo_acse (ByteBuffer_wrap (chain_bytes pdu) (bc_length pdu) (bc_length pdu)) =
       Some (ACSE_ASSOCIATE_FAILED, peer') \<and> user_data peer' = [1, 2]"
proof -
  let ?payload = "BufferChain 2 2 2 [1, 2] None" and ?buffer = "BufferChain 0 0 60 (replicate 60 0) None"
  obtain pdu where pdu: "AcseConnection_createAssociateResponseMessage demo_acse 1 ?buffer (Some ?payload) = Some pdu"
      "chain_ok pdu"
    and parse: "\<forall>peer message. received message (chain_bytes pdu) \<longrightarrow>
      (\<exists>peer'. AcseConnection_parseMessage peer message = Some (ACSE_ASSOCIATE_FAILED, peer') \<and>
         user_data peer' = [1, 2] \<and> ac_nextReference peer' = 3)"
    using acse_response_roundtrip [of ?payload ?buffer demo_acse 1] by (auto simp: ACSE_RESULT_ACCEPT_def demo_acse_def)
  from parse [rule_format, OF chain_received [OF pdu(2)], of demo_acse] pdu(1) show ?thesis by blast
qed

lemma ui_bytes_length: "length ref < 128 \<Longrightarrow> length (ui_bytes ref n) + n = userInfoLength n (length ref)"
  by (simp add: ui_bytes_def tlv_bytes_def length_tl_bytes userInfoLength_def userInfoLen_def assocDataLength_def
      BerEncoder_determineLengthSize_def [of "length ref"])

lemma titleLength_eq:
  assumes "title_ok apTitle n"
  shows "length (concat (map tlv_bytes (title_elements t q apTitle n ae))) = titleLength n ae"
proof (cases "n > 0")
  case True
  have "length (uint32_bytes (word_of_int ae)) \<le> 5" "min (length apTitle) (nat n) = nat n" "nat n \<le> 10"
    using uint32_bytes_spec(4) [of "word_of_int ae"] assms by (auto simp: title_ok_def)
  with True show ?thesis
    by (simp add: title_elements_def titleLength_def tlv_bytes_def length_tl_bytes
        BerEncoder_determineLengthSize_def uint32_bytes_spec(5) [symmetric])
qed (simp add: title_elements_def titleLength_def)

lemma authLength_eq:
  assumes "auth_ok auth"
  shows "authLength auth = length (concat (map tlv_bytes (auth_elements auth))) +
    (case auth of None \<Rightarrow> 0 | Some ap \<Rightarrow> if ap_mechanism ap = ACSE_AUTH_PASSWORD then 0 else 7)"
proof (cases "\<exists>ap. auth = Some ap \<and> ap_mechanism ap = ACSE_AUTH_PASSWORD")
  case True
  then obtain ap where ap: "auth = Some ap" "ap_mechanism ap = ACSE_AUTH_PASSWORD" by blast
  with assms obtain os where "ap_octetString ap = Some os" "0 \<le> ap_passwordLength ap"
    "ap_passwordLength ap \<le> int (length os)" by (auto simp: auth_ok_def split: option.splits)
  then have "length (auth_password ap) = nat (ap_passwordLength ap)" by (simp add: auth_password_def)
  with ap show ?thesis
    by (simp add: authLength_def auth_elements_def tlv_bytes_def length_tl_bytes auth_mech_password_oid_def
        BerEncoder_determineLengthSize_def [of "Suc _"] Let_def add.commute add.left_commute)
next
  case False
  then show ?thesis
    by (auto simp: authLength_def auth_elements_def tlv_bytes_def length_tl_bytes BerEncoder_determineLengthSize_def
        split: option.splits)
qed

lemma aarq_contentLength_eq:
  assumes "request_ok par auth"
  shows "aarq_contentLength par auth n =
    length (concat (map tlv_bytes (address_elements par @ auth_elements auth)) @ ui_bytes [3] n) + n +
    (case auth of None \<Rightarrow> 0 | Some ap \<Rightarrow> if ap_mechanism ap = ACSE_AUTH_PASSWORD then 0 else 7)"
proof -
  have "length (tlv_bytes (0xa1, tlv_bytes (0x06, appContextNameMms))) = 9"
    by (simp add: tlv_bytes_def tl_bytes_small appContextNameMms_def)
  then show ?thesis
    using assms titleLength_eq authLength_eq ui_bytes_length [of "[3]" n]
    by (simp add: aarq_contentLength_def address_elements_def request_ok_def)
qed

lemma aare_content:
  assumes "length ref \<le> 5"
  shows "21 + userInfoLength n (length ref) =
    length (concat (map tlv_bytes (aare_elements result)) @ ui_bytes ref n) + n"
proof -
  have "length (concat (map tlv_bytes (aare_elements result))) = 21"
    by (simp add: aare_elements_def tlv_bytes_def tl_bytes_small appContextNameMms_def)
  then show ?thesis using ui_bytes_length [of ref n] assms by simp
qed

text \<open>the length octets of an association response announce exactly the content that follows; those of an
  association request do so too, except that a request with authentication mechanism \<open>NONE\<close>
  announces seven octets more than it has.\<close>

theorem acse_content_length:
  assumes "request_ok par auth" and "chain_ok payload" and "bc_length payload \<le> 65000"
    and "length (aarq_bytes par auth (nat (bc_length payload))) \<le> length (bc_buffer buffer)"
    and "60 \<le> length (bc_buffer buffer)" and "length (bc_buffer buffer) \<le> 1000000"
  shows "(\<exists>pdu content. AcseConnection_createAssociateResponseMessage self result buffer (Some payload) = Some pdu \<and>
      chain_bytes pdu = tl_bytes 0x61 (length content) @ content) \<and>
    (\<exists>pdu k content. AcseConnection_createAssociateRequestMessage self par buffer payload auth = Some pdu \<and>
      chain_bytes pdu = tl_bytes 0x60 k @ content \<and>
      k = length content + (case auth of
        None \<Rightarrow> 0 | Some ap \<Rightarrow> if ap_mechanism ap = ACSE_AUTH_PASSWORD then 0 else 7))"
proof
  let ?n = "nat (bc_length payload)" and ?ref = "uint32_bytes (ac_nextReference self)"
  have n: "length (chain_bytes payload) = ?n" using chain_ok_length [OF assms(2)] by linarith
  have "length (aare_bytes result ?ref ?n) \<le> 60"
    using uint32_bytes_spec(4) [of "ac_nextReference self"]
    by (simp add: aare_bytes_def aare_elements_def ui_bytes_def tlv_bytes_def length_tl_bytes
        appContextNameMms_def BerEncoder_determineLengthSize_def)
  then have "length (aare_bytes result ?ref ?n) \<le> length (bc_buffer buffer)"
    "int (length (aare_bytes result ?ref ?n)) + bc_length payload \<le> INT_MAX" using assms(3,5) by linarith+
  then obtain pdu where "AcseConnection_createAssociateResponseMessage self result buffer (Some payload) = Some pdu"
      "chain_bytes pdu = aare_bytes result ?ref ?n @ chain_bytes payload"
    using acse_response.create_message [of "(self, result)" payload buffer] assms(2) by auto
  then show "\<exists>pdu content. AcseConnection_createAssociateResponseMessage self result buffer (Some payload) = Some pdu \<and>
      chain_bytes pdu = tl_bytes 0x61 (length content) @ content"
    using aare_content [OF uint32_bytes_spec(4), of ?n "ac_nextReference self" result] n
    by (intro exI [of _ pdu] exI [of _ "concat (map tlv_bytes (aare_elements result)) @ ui_bytes ?ref ?n @ chain_bytes payload"])
      (simp add: aare_bytes_def add.assoc)
  have "int (length (aarq_bytes par auth ?n)) + bc_length payload \<le> INT_MAX" using assms(3,4,6) by linarith
  then obtain pdu where "AcseConnection_createAssociateRequestMessage self par buffer payload auth = Some pdu"
      "chain_bytes pdu = aarq_bytes par auth ?n @ chain_bytes payload"
    using request_part [OF assms(1,2,4)] by blast
  then show "\<exists>pdu k content. AcseConnection_createAssociateRequestMessage self par buffer payload auth = Some pdu \<and>
      chain_bytes pdu = tl_bytes 0x60 k @ content \<and>
      k = length content + (case auth of
        None \<Rightarrow> 0 | Some ap \<Rightarrow> if ap_mechanism ap = ACSE_AUTH_PASSWORD then 0 else 7)"
    using aarq_contentLength_eq [OF assms(1), of ?n] n
    by (intro exI [of _ pdu] exI [of _ "aarq_contentLength par auth ?n"]
        exI [of _ "concat (map tlv_bytes (address_elements par @ auth_elements auth)) @ ui_bytes [3] ?n @ chain_bytes payload"])
      (simp add: aarq_bytes_def)
qed

theorem acse_content_length_witness:
  "\<exists>pdu k content. AcseConnection_createAssociateRequestMessage demo_acse IsoConnectionParameters_create
       (BufferChain 0 0 200 (replicate 200 0) None) (BufferChain 2 2 2 [1, 2] None)
       (Some AcseAuthenticationParameter_create) = Some pdu \<and>
     chain_bytes pdu = tl_bytes 0x60 k @ content \<and> k = length content + 7"
proof -
  let ?payload = "BufferChain 2 2 2 [1, 2] None" and ?buffer = "BufferChain 0 0 200 (replicate 200 0) None"
  have "request_ok IsoConnectionParameters_create (Some AcseAuthenticationParameter_create)"
    by (simp add: request_ok_def title_ok_def auth_ok_def IsoConnectionParameters_create_def
        AcseAuthenticationParameter_create_def)
  moreover have "length (aarq_bytes IsoConnectionParameters_create (Some AcseAuthenticationParameter_create)
      (nat (bc_length ?payload))) \<le> length (bc_buffer ?buffer)"
    by code_simp
  ultimately show ?thesis
    using acse_content_length [of IsoConnectionParameters_create "Some AcseAuthenticationParameter_create"
        ?payload ?buffer demo_acse 0] by (simp add: AcseAuthenticationParameter_create_def)
qed

text \<open>What the parser loops keep of the connection: the authenticator and its parameter; and valid
  user information points into the message.\<close>

definition same_gate :: "AcseConnection \<Rightarrow> AcseConnection \<Rightarrow> bool" where
  "same_gate self s \<longleftrightarrow> ac_authenticator s = ac_authenticator self \<and>
     ac_authenticatorParameter s = ac_authenticatorParameter self"

definition points_into :: "byte list \<Rightarrow> byte list option \<Rightarrow> bool" where
  "points_into buffer p \<longleftrightarrow> (\<exists>k. p = Some (drop k buffer))"

lemma ptr_add_points_into: "ptr_add buffer q = Some dat \<Longrightarrow> points_into buffer (Some dat)"
  by (auto simp: ptr_add_def points_into_def split: if_splits)

lemma parseUserInformation_keeps:
  assumes "parseUserInformation s buffer p e = Some (q, v, s')" and "same_gate self s"
  shows "same_gate self s' \<and> (v \<longrightarrow> points_into buffer (ac_userDataBuffer s'))"
proof -
  let ?I = "\<lambda>(s, h, d). same_gate self s \<and> (d \<longrightarrow> points_into buffer (ac_userDataBuffer s))"
  obtain r h d where loop: "tlv_loop (userInfoElement buffer e) e (s, False, False) p = Some (r, s', h, d)"
    and v: "v = (h \<and> d)"
    using assms(1) by (auto simp: parseUserInformation_def split: bind_splits)
  have "?I x'" if "?I x" "userInfoElement buffer e x p = Some (r, x')" for x p r x'
    using that by (fastforce simp: userInfoElement_def same_gate_def bind_eq_Some_conv intro: ptr_add_points_into
        split: if_splits)
  then have "?I (s', h, d)" using tlv_loop_invariant [OF loop, of ?I] assms(2) by auto
  with v show ?thesis by auto
qed

lemma userInformationItem_keeps:
  assumes "userInformationItem s buffer len p e v = Some (q, v', s')" and "same_gate self s"
    and "v \<longrightarrow> points_into buffer (ac_userDataBuffer s)"
  shows "same_gate self s' \<and> (v' \<longrightarrow> points_into buffer (ac_userDataBuffer s'))"
  using assms parseUserInformation_keeps [OF _ assms(2), of buffer]
  by (auto simp: userInformationItem_def bind_eq_Some_conv split: if_splits)

lemma aarq_loop_keeps:
  assumes "tlv_loop (aarqElement buffer e) e (self, aarq_start) p = Some (r, s', loc)"
  shows "same_gate self s'" and "aq_userInfoValid loc \<Longrightarrow> points_into buffer (ac_userDataBuffer s')"
    and "aq_authValue loc = None \<or> points_into buffer (aq_authValue loc)"
proof -
  let ?I = "\<lambda>(s, loc). same_gate self s \<and> (aq_userInfoValid loc \<longrightarrow> points_into buffer (ac_userDataBuffer s)) \<and>
    (aq_authValue loc = None \<or> points_into buffer (aq_authValue loc))"
  have "?I x'" if "?I x" "aarqElement buffer e x p = Some (r, x')" for x p r x'
    using that userInformationItem_keeps [of "fst x" buffer _ _ e _ _ _ _ self]
    by (fastforce simp: aarqElement_def bind_eq_Some_conv intro: ptr_add_points_into split: if_splits)
  then have "?I (s', loc)"
    using tlv_loop_invariant [OF assms, of ?I] by (simp add: aarq_start_def same_gate_def)
  then show "same_gate self s'" "aq_userInfoValid loc \<Longrightarrow> points_into buffer (ac_userDataBuffer s')"
    "aq_authValue loc = None \<or> points_into buffer (aq_authValue loc)" by auto
qed

definition demo_aarq :: "byte list" where
  "demo_aarq = [0x60, 30, 0x8a, 2, 4, 0x80, 0x8b, 3, 0x52, 3, 1, 0xac, 4, 0x80, 2, 0x70, 0x77,
     0xbe, 9, 0x28, 7, 2, 1, 3, 0xa0, 2, 1, 2]"

lemma associate_authenticated:
  assumes "AcseConnection_parseMessage self message = Some (ACSE_ASSOCIATE, self')"
    and "rd (bb_buffer message) 0 = Some 0x60" and "ac_authenticator self = Some a"
  shows "\<exists>p. a (ac_authenticatorParameter self) p = (True, ac_securityToken self') \<and>
    (ap_octetString p = None \<or> points_into (bb_buffer message) (ap_octetString p)) \<and>
    points_into (bb_buffer message) (ac_userDataBuffer self')"
proof -
  obtain q where parse: "parseAarqPdu self (bb_buffer message) q (bb_size message) = Some (ACSE_ASSOCIATE, self')"
    using assms(1,2) by (auto simp: AcseConnection_parseMessage_def Let_def split: bind_splits if_splits)
  then obtain r s loc where
    loop: "tlv_loop (aarqElement (bb_buffer message) (bb_size message)) (bb_size message) (self, aarq_start) q = Some (Some r, s, loc)"
    and auth: "checkAuthentication s (aq_authMechanism loc) (aq_authMechLen loc) (aq_authValue loc) (aq_authValueLen loc) =
      Some (True, self')" and valid: "aq_userInfoValid loc"
    by (auto simp: parseAarqPdu_def split: bind_splits option.splits if_splits)
  note keep = aarq_loop_keeps [OF loop]
  have gate: "ac_authenticator s = Some a" "ac_authenticatorParameter s = ac_authenticatorParameter self"
    using keep(1) assms(3) by (simp_all add: same_gate_def)
  then obtain mechanism where client: "authenticateClient (s\<lparr>ac_securityToken := None\<rparr>) a mechanism
      (aq_authValue loc) (aq_authValueLen loc) = (True, self')"
    using auth by (auto simp: checkAuthentication_def Let_def split: bind_splits)
  define p where "p = (if mechanism = ACSE_AUTH_PASSWORD
    then \<lparr>ap_mechanism = mechanism, ap_octetString = aq_authValue loc, ap_passwordLength = aq_authValueLen loc\<rparr>
    else \<lparr>ap_mechanism = mechanism, ap_octetString = None, ap_passwordLength = 0\<rparr>)"
  have "a (ac_authenticatorParameter self) p = (True, ac_securityToken self')"
    "ac_userDataBuffer self' = ac_userDataBuffer s"
    using client gate(2) unfolding p_def authenticateClient_def Let_def by (auto split: prod.splits)
  moreover have "ap_octetString p = None \<or> points_into (bb_buffer message) (ap_octetString p)"
    using keep(3) by (simp add: p_def)
  ultimately show ?thesis using keep(2) [OF valid] by metis
qed

lemma associate_only_from_association:
  assumes "AcseConnection_parseMessage self message = Some (ACSE_ASSOCIATE, self')"
  shows "rd (bb_buffer message) 0 = Some 0x60 \<or> rd (bb_buffer message) 0 = Some 0x61"
  using assms by (auto simp: AcseConnection_parseMessage_def Let_def split: bind_splits if_splits)

text \<open>C30: whatever bytes a client sends as association request, well formed or not: the server reports
  an association only if the authenticator accepted, for a password that lies in the received
  message, and the user information was valid; the security token is the one of this call.\<close>

theorem acse_authentication_gate:
  assumes "AcseConnection_parseMessage self message = Some (ACSE_ASSOCIATE, self')"
    and "rd (bb_buffer message) 0 = Some 0x60" and "ac_authenticator self = Some a"
  shows "\<exists>p. a (ac_authenticatorParameter self) p = (True, ac_securityToken self') \<and>
    (ap_octetString p = None \<or> points_into (bb_buffer message) (ap_octetString p)) \<and>
    points_into (bb_buffer message) (ac_userDataBuffer self')"
  using associate_authenticated [OF assms] .

theorem acse_authentication_gate_witness:
  "\<exists>p self'. AcseConnection_parseMessage demo_acse (ByteBuffer_wrap demo_aarq (int (length demo_aarq)) 100) =
       Some (ACSE_ASSOCIATE, self') \<and>
     the (ac_authenticator demo_acse) 0 p = (True, ac_securityToken self') \<and> ac_securityToken self' = Some 7"
proof -
  let ?m = "ByteBuffer_wrap demo_aarq (int (length demo_aarq)) 100"
  have "map_option (\<lambda>(i, s). (i, ac_securityToken s)) (AcseConnection_parseMessage demo_acse ?m) =
      Some (ACSE_ASSOCIATE, Some 7)"
    by code_simp
  then obtain self' where s: "AcseConnection_parseMessage demo_acse ?m = Some (ACSE_ASSOCIATE, self')"
    "ac_securityToken self' = Some 7" by auto
  moreover have "rd (bb_buffer ?m) 0 = Some 0x60" by (simp add: ByteBuffer_wrap_def demo_aarq_def)
  moreover have "ac_authenticator demo_acse = Some (the (ac_authenticator demo_acse))"
    "ac_authenticatorParameter demo_acse = 0" by (simp_all add: demo_acse_def)
  ultimately show ?thesis
    using acse_authentication_gate [of demo_acse ?m self' "the (ac_authenticator demo_acse)"] by auto
qed

end
