(* ===== verification/Iso_Connection.thy ===== *)
theory Iso_Connection
  imports Cotp Iso_Session Iso_Presentation Acse
begin

text \<open>
  \<open>src/src/mms/iso_server/iso_connection.c\<close>: the server side of one client connection, which
  drives the COTP, session, presentation and ACSE layers.

  The connection thread runs \<open>handleTcpConnection\<close>; other threads call
  \<open>IsoConnection_sendMessage\<close> and \<open>IsoConnection_close\<close>. Each of these is one step on the state
  (the code brackets the use of \<open>sendBuffer\<close> with \<open>conMutex\<close>), and the interleavings are the runs
  of the step relation at the end of this theory.

  The receive buffer is the memory of the COTP payload; \<open>acseConnection\<close>, a local variable of
  \<open>handleTcpConnection\<close>, is a field here. The installed listener is a parameter: a function
  from the connection, the request and the response buffer to the connection and the response
  buffer it leaves behind; it may change the connection (the application sends reports from
  inside it). The response buffer is a view of \<open>sendBuffer\<close>.
\<close>

section \<open>State\<close>

definition RECEIVE_BUF_SIZE :: int where "RECEIVE_BUF_SIZE = 16000 + 100"
definition SEND_BUF_SIZE :: int where "SEND_BUF_SIZE = 16000 + 100"
definition ISO_CON_STATE_RUNNING :: int where "ISO_CON_STATE_RUNNING = 1"
definition ISO_CON_STATE_STOPPED :: int where "ISO_CON_STATE_STOPPED = 0"

record 'h IsoConnection =
  ic_sendBuffer :: "byte list"
  ic_msgRcvdHandlerParameter :: "'h option"
  ic_socketOpen :: bool
  ic_state :: int
  ic_session :: IsoSession
  ic_presentation :: IsoPresentation
  ic_cotpConnection :: CotpConnection
  ic_clientAddress :: string
  ic_acseConnection :: AcseConnection
  ic_securityToken :: "token option"

type_synonym 'h MessageReceivedHandler =
  "'h IsoConnection \<Rightarrow> ByteBuffer \<Rightarrow> ByteBuffer \<Rightarrow> ('h IsoConnection \<times> ByteBuffer) option"

text \<open>\<open>calloc\<close> gives zeroed objects.\<close>

definition zero_CotpConnection :: "Socket \<Rightarrow> CotpConnection" where
  "zero_CotpConnection socket =
     \<lparr>co_state = 0, co_srcRef = 0, co_dstRef = 0, co_protocolClass = 0, co_socket = socket,
      co_options = \<lparr>opt_tsap_id_src = 0, opt_tsap_id_dst = 0, opt_tpdu_size = 0\<rparr>,
      co_isLastDataUnit = False, co_payload = ByteBuffer_wrap [] 0 0, co_writeBuffer = None\<rparr>"

definition zero_IsoPresentation :: IsoPresentation where
  "zero_IsoPresentation =
     \<lparr>ps_callingPresentationSelector = 0, ps_calledPresentationSelector = 0, ps_nextContextId = 0,
      ps_acseContextId = 0, ps_mmsContextId = 0, ps_nextPayload = ByteBuffer_wrap [] 0 0\<rparr>"

text \<open>\<open>IsoConnection_create\<close>, with the fields the thread sets up before its loop in the state that
  \<open>handleTcpConnection\<close> gives them. The buffers come from \<open>malloc\<close> and
  \<open>acseConnection\<close> is an uninitialised local variable: their initial contents are arguments.\<close>

definition IsoConnection_create ::
  "Socket \<Rightarrow> string \<Rightarrow> AcseAuthenticator option \<Rightarrow> nat \<Rightarrow> AcseConnection \<Rightarrow> byte list \<Rightarrow> byte list \<Rightarrow>
   'h IsoConnection" where
  "IsoConnection_create socket peerAddress authenticator authenticatorParameter junkAcse junkReceive junkSend =
     \<lparr>ic_sendBuffer = junkSend, ic_msgRcvdHandlerParameter = None, ic_socketOpen = True,
      ic_state = ISO_CON_STATE_RUNNING, ic_session = IsoSession_init,
      ic_presentation = IsoPresentation_init zero_IsoPresentation,
      ic_cotpConnection =
        CotpConnection_init (zero_CotpConnection socket) socket (ByteBuffer_wrap junkReceive 0 RECEIVE_BUF_SIZE),
      ic_clientAddress = peerAddress,
      ic_acseConnection =
        AcseConnection_init junkAcse authenticator authenticatorParameter,
      ic_securityToken = None\<rparr>"

definition IsoConnection_getPeerAddress :: "'h IsoConnection \<Rightarrow> string" where
  "IsoConnection_getPeerAddress self = ic_clientAddress self"

definition IsoConnection_installListener :: "'h IsoConnection \<Rightarrow> 'h \<Rightarrow> 'h IsoConnection" where
  "IsoConnection_installListener self parameter = self\<lparr>ic_msgRcvdHandlerParameter := Some parameter\<rparr>"

definition IsoConnection_getSecurityToken :: "'h IsoConnection \<Rightarrow> token option" where
  "IsoConnection_getSecurityToken self = ic_securityToken self"

definition IsoConnection_close :: "'h IsoConnection \<Rightarrow> 'h IsoConnection" where
  "IsoConnection_close self =
     (if ic_state self \<noteq> ISO_CON_STATE_STOPPED
      then self\<lparr>ic_state := ISO_CON_STATE_STOPPED, ic_socketOpen := False\<rparr> else self)"

definition stop :: "'h IsoConnection \<Rightarrow> 'h IsoConnection" where
  "stop self = self\<lparr>ic_state := ISO_CON_STATE_STOPPED\<rparr>"

section \<open>Sending\<close>

text \<open>A buffer part at \<open>sendBuffer + off\<close>, whose other fields are not initialised, and the send
  buffer after a layer has written its part there.\<close>

definition part_at :: "byte list \<Rightarrow> int \<Rightarrow> BufferChain option" where
  "part_at sendBuf off = do {
     mem \<leftarrow> ptr_add sendBuf off;
     Some (BufferChain 0 0 (SEND_BUF_SIZE - off) mem None)
   }"

definition store_at :: "byte list \<Rightarrow> int \<Rightarrow> BufferChain \<Rightarrow> byte list" where
  "store_at sendBuf off part = take (nat off) sendBuf @ bc_buffer part"

definition callHandler ::
  "'h MessageReceivedHandler \<Rightarrow> 'h IsoConnection \<Rightarrow> ByteBuffer \<Rightarrow> (int \<times> 'h IsoConnection) option" where
  "callHandler handler self request = do {
     (self, response) \<leftarrow> handler self request (ByteBuffer_wrap (ic_sendBuffer self) 0 SEND_BUF_SIZE);
     Some (bb_size response, self\<lparr>ic_sendBuffer := bb_buffer response\<rparr>)
   }"

definition sendAssociateResponse :: "'h IsoConnection \<Rightarrow> int \<Rightarrow> 'h IsoConnection option" where
  "sendAssociateResponse self responseSize =
     (let sendBuf = ic_sendBuffer self;
          mmsPart = BufferChain_init responseSize responseSize None sendBuf in do {
        part \<leftarrow> part_at sendBuf (bc_length mmsPart);
        acsePart \<leftarrow> AcseConnection_createAssociateResponseMessage (ic_acseConnection self) ACSE_RESULT_ACCEPT
          part (Some mmsPart);
        let sendBuf = store_at sendBuf (bc_length mmsPart) acsePart in do {
          part \<leftarrow> part_at sendBuf (bc_length acsePart);
          presPart \<leftarrow> IsoPresentation_createCpaMessage (ic_presentation self) part acsePart;
          let sendBuf = store_at sendBuf (bc_length acsePart) presPart in do {
            part \<leftarrow> part_at sendBuf (bc_length presPart);
            sessionPart \<leftarrow> IsoSession_createAcceptSpdu (ic_session self) part presPart;
            (_, cotp) \<leftarrow> CotpConnection_sendDataMessage (ic_cotpConnection self) sessionPart;
            Some (self\<lparr>ic_sendBuffer := store_at sendBuf (bc_length presPart) sessionPart,
                       ic_cotpConnection := cotp\<rparr>)
          }
        }
      })"

text \<open>The data SPDU header is a static array, so the session layer does not touch \<open>sendBuffer\<close>.\<close>

definition sendDataResponse :: "'h IsoConnection \<Rightarrow> int \<Rightarrow> 'h IsoConnection option" where
  "sendDataResponse self responseSize =
     (let sendBuf = ic_sendBuffer self;
          mmsPart = BufferChain_init responseSize responseSize None sendBuf in do {
        part \<leftarrow> part_at sendBuf (bc_length mmsPart);
        presPart \<leftarrow> IsoPresentation_createUserData (ic_presentation self) part mmsPart;
        let sendBuf = store_at sendBuf (bc_length mmsPart) presPart in do {
          part \<leftarrow> part_at sendBuf (bc_length presPart);
          sessionPart \<leftarrow> IsoSession_createDataSpdu (ic_session self) part presPart;
          (_, cotp) \<leftarrow> CotpConnection_sendDataMessage (ic_cotpConnection self) sessionPart;
          Some (self\<lparr>ic_sendBuffer := sendBuf, ic_cotpConnection := cotp\<rparr>)
        }
      })"

definition sendReleaseResponse :: "'h IsoConnection \<Rightarrow> 'h IsoConnection option" where
  "sendReleaseResponse self =
     (let sendBuf = ic_sendBuffer self in do {
        part \<leftarrow> part_at sendBuf 0;
        acsePart \<leftarrow> AcseConnection_createReleaseResponseMessage (ic_acseConnection self) part;
        let sendBuf = store_at sendBuf 0 acsePart in do {
          part \<leftarrow> part_at sendBuf (bc_length acsePart);
          presPart \<leftarrow> IsoPresentation_createUserDataACSE (ic_presentation self) part acsePart;
          let sendBuf = store_at sendBuf (bc_length acsePart) presPart in do {
            part \<leftarrow> part_at sendBuf (bc_length presPart);
            sessionPart \<leftarrow> IsoSession_createDisconnectSpdu (ic_session self) part presPart;
            (_, cotp) \<leftarrow> CotpConnection_sendDataMessage (ic_cotpConnection self) sessionPart;
            Some (self\<lparr>ic_sendBuffer := store_at sendBuf (bc_length presPart) sessionPart,
                       ic_cotpConnection := cotp\<rparr>)
          }
        }
      })"

text \<open>\<open>IsoConnection_sendMessage\<close>: the presentation header is written at the start of
  \<open>sendBuffer\<close>, the payload stays in the caller's buffer.\<close>

definition IsoConnection_sendMessage :: "'h IsoConnection \<Rightarrow> ByteBuffer \<Rightarrow> 'h IsoConnection option" where
  "IsoConnection_sendMessage self message =
     (if ic_state self = ISO_CON_STATE_STOPPED then Some self
      else do {
        let payload = BufferChain (bb_size message) (bb_size message) (bb_size message) (bb_buffer message) None in do {
          part \<leftarrow> part_at (ic_sendBuffer self) 0;
          presPart \<leftarrow> IsoPresentation_createUserData (ic_presentation self) part payload;
          let sendBuf = store_at (ic_sendBuffer self) 0 presPart in do {
            part \<leftarrow> part_at sendBuf (bc_partLength presPart);
            sessionPart \<leftarrow> IsoSession_createDataSpdu (ic_session self) part presPart;
            (_, cotp) \<leftarrow> CotpConnection_sendDataMessage (ic_cotpConnection self) sessionPart;
            Some (self\<lparr>ic_sendBuffer := sendBuf, ic_cotpConnection := cotp\<rparr>)
          }
        }
      })"

section \<open>Receiving\<close>

definition handleAssociate :: "'h MessageReceivedHandler \<Rightarrow> 'h IsoConnection \<Rightarrow> 'h IsoConnection option" where
  "handleAssociate handler self = do {
     mem \<leftarrow> ac_userDataBuffer (ic_acseConnection self);
     (responseSize, self) \<leftarrow> callHandler handler self
       (ByteBuffer_wrap mem (ac_userDataBufferSize (ic_acseConnection self))
          (ac_userDataBufferSize (ic_acseConnection self)));
     if responseSize > 0 then sendAssociateResponse self responseSize else Some self
   }"

definition handleSessionConnect ::
  "'h MessageReceivedHandler \<Rightarrow> 'h IsoConnection \<Rightarrow> ByteBuffer \<Rightarrow> 'h IsoConnection option" where
  "handleSessionConnect handler self sessionUserData = do {
     (ok, presentation) \<leftarrow> IsoPresentation_parseConnect (ic_presentation self) sessionUserData;
     let self = self\<lparr>ic_presentation := presentation\<rparr> in
     if ok = 0 then Some self
     else do {
       (aIndication, acse) \<leftarrow> AcseConnection_parseMessage (ic_acseConnection self) (ps_nextPayload presentation);
       let self = self\<lparr>ic_acseConnection := acse, ic_securityToken := ac_securityToken acse\<rparr> in
       if aIndication = ACSE_ASSOCIATE then handleAssociate handler self else Some (stop self)
     }
   }"

definition handleRequest ::
  "'h MessageReceivedHandler \<Rightarrow> 'h IsoConnection \<Rightarrow> ByteBuffer \<Rightarrow> 'h IsoConnection option" where
  "handleRequest handler self request = do {
     (responseSize, self) \<leftarrow> callHandler handler self request;
     if responseSize > 0 then sendDataResponse self responseSize else Some self
   }"

definition handleSessionData ::
  "'h MessageReceivedHandler \<Rightarrow> 'h IsoConnection \<Rightarrow> ByteBuffer \<Rightarrow> 'h IsoConnection option" where
  "handleSessionData handler self sessionUserData = do {
     (ok, presentation) \<leftarrow> IsoPresentation_parseUserData (ic_presentation self) sessionUserData;
     let self = self\<lparr>ic_presentation := presentation\<rparr> in
     if ok = 0 then Some (stop self)
     else if ps_nextContextId presentation = ps_mmsContextId presentation
     then handleRequest handler self (ps_nextPayload presentation)
     else Some self
   }"

definition handleSessionFinish :: "'h IsoConnection \<Rightarrow> ByteBuffer \<Rightarrow> 'h IsoConnection option" where
  "handleSessionFinish self sessionUserData = do {
     (ok, presentation) \<leftarrow> IsoPresentation_parseUserData (ic_presentation self) sessionUserData;
     let self = self\<lparr>ic_presentation := presentation\<rparr> in do {
       self \<leftarrow> (if ok \<noteq> 0 then sendReleaseResponse self else Some self);
       Some (stop self)
     }
   }"

definition handleSessionMessage ::
  "'h MessageReceivedHandler \<Rightarrow> 'h IsoConnection \<Rightarrow> 'h IsoConnection option" where
  "handleSessionMessage handler self = do {
     (sIndication, session) \<leftarrow> IsoSession_parseMessage (ic_session self)
        (CotpConnection_getPayload (ic_cotpConnection self));
     let self = self\<lparr>ic_session := session\<rparr>; sessionUserData = IsoSession_getUserData session in
     if sIndication = SESSION_CONNECT then handleSessionConnect handler self sessionUserData
     else if sIndication = SESSION_DATA then handleSessionData handler self sessionUserData
     else if sIndication = SESSION_FINISH then handleSessionFinish self sessionUserData
     else Some (stop self)
   }"

text \<open>One round of the loop of \<open>handleTcpConnection\<close>.\<close>

definition handleTcpConnection ::
  "'h MessageReceivedHandler \<Rightarrow> 'h IsoConnection \<Rightarrow> 'h IsoConnection option" where
  "handleTcpConnection handler self =
     (let cotp = (ic_cotpConnection self)\<lparr>co_payload :=
            ByteBuffer_wrap (bb_buffer (co_payload (ic_cotpConnection self))) 0 RECEIVE_BUF_SIZE\<rparr> in do {
        (cotpIndication, cotp) \<leftarrow> CotpConnection_parseIncomingMessage cotp;
        let self = self\<lparr>ic_cotpConnection := cotp\<rparr> in
        (case cotpIndication of
           CONNECT_INDICATION \<Rightarrow> do {
             (_, cotp) \<leftarrow> CotpConnection_sendConnectionResponseMessage cotp;
             Some (self\<lparr>ic_cotpConnection := cotp\<rparr>)
           }
         | DATA_INDICATION \<Rightarrow> handleSessionMessage handler self
         | _ \<Rightarrow> Some (stop self))
      })"

section \<open>A message through the stack\<close>

text \<open>The bytes of an MMS message as a data SPDU: session header, presentation header with the
  context identifier, payload.\<close>

definition data_message :: "byte \<Rightarrow> byte list \<Rightarrow> byte list" where
  "data_message c mms = [0x01, 0x00, 0x01, 0x00] @ userData_bytes (length mms) c @ mms"

lemma length_userData_header: "length (userData_bytes n c) \<le> 16" "0 < length (userData_bytes n c)"
  by (simp_all add: userData_bytes_def length_tl_bytes BerEncoder_determineLengthSize_def)

text \<open>The two headers in front of a payload, as both sending operations build them.\<close>

lemma data_stack:
  assumes "chain_ok payload" and "chain_solid payload" and "0 < bc_partLength payload" and "bc_length payload \<le> 65000"
    and "16 \<le> length (bc_buffer part)"
  obtains pres where "IsoPresentation_createUserData p part payload = Some pres"
    "0 < bc_partLength pres" "bc_partLength pres \<le> int (length (bc_buffer pres))"
    "bc_length pres = bc_partLength pres + bc_length payload" "bc_partLength pres \<le> 16"
    "\<And>s part'. \<exists>spdu. IsoSession_createDataSpdu s part' pres = Some spdu \<and> chain_ok spdu \<and> chain_solid spdu \<and>
       chain_bytes spdu = data_message (ps_mmsContextId p) (chain_bytes payload)"
proof -
  let ?n = "nat (bc_length payload)" and ?h = "userData_bytes (nat (bc_length payload)) (ps_mmsContextId p)"
  note h = length_userData_header [of ?n "ps_mmsContextId p"]
  have n: "?n = length (chain_bytes payload)" using chain_ok_length [OF assms(1)] by linarith
  have room: "length ?h \<le> length (bc_buffer part)" "int (length ?h) + bc_length payload \<le> INT_MAX"
    "4 + (int (length ?h) + bc_length payload) \<le> INT_MAX"
    using h assms(4,5) by linarith+
  obtain rest where c: "IsoPresentation_createUserData p part payload = Some (link_part (?h @ rest, length ?h) part payload)"
    using pres_user_data.create_part [OF room(1)] by blast
  let ?pres = "link_part (?h @ rest, length ?h) part payload"
  note pres = link_part_message [OF assms(1) room(2), of rest part]
  have f: "bc_partLength ?pres = int (length ?h)" "bc_buffer ?pres = ?h @ rest" by (simp_all add: link_part_def)
  show ?thesis
  proof (rule that [OF c])
    show "0 < bc_partLength ?pres" "bc_partLength ?pres \<le> int (length (bc_buffer ?pres))" "bc_partLength ?pres \<le> 16"
      "bc_length ?pres = bc_partLength ?pres + bc_length payload" using h pres(3) by (simp_all add: f)
    fix s part'
    let ?spdu = "link_part ([1, 0, 1, 0] @ [], length [1 :: byte, 0, 1, 0]) part' ?pres"
    have "int (length [1 :: byte, 0, 1, 0]) + bc_length ?pres \<le> INT_MAX" using room(3) pres(3) by simp
    note spdu = link_part_message [OF pres(1) this, of "[]" part']
    have "IsoSession_createDataSpdu s part' ?pres = Some ?spdu" by (simp add: IsoSession_createDataSpdu_def numeral_eq_Suc)
    moreover have "chain_solid ?spdu" using assms(2,3) h(2) by (simp add: link_part_def)
    moreover have "chain_bytes ?spdu = data_message (ps_mmsContextId p) (chain_bytes payload)"
      using spdu(2) pres(2) n by (simp add: data_message_def)
    ultimately show "\<exists>spdu. IsoSession_createDataSpdu s part' ?pres = Some spdu \<and> chain_ok spdu \<and> chain_solid spdu \<and>
       chain_bytes spdu = data_message (ps_mmsContextId p) (chain_bytes payload)" using spdu(1) by blast
  qed
qed

text \<open>What a connection needs to send a message of the stack.\<close>

definition can_transmit :: "'h IsoConnection \<Rightarrow> bool" where
  "can_transmit self \<longleftrightarrow>
     opt_tpdu_size (co_options (ic_cotpConnection self)) \<le> 13 \<and>
     3 < CotpConnection_getTpduSize (ic_cotpConnection self) \<and>
     can_send (ic_cotpConnection self)
       (nat (CotpConnection_getTpduSize (ic_cotpConnection self) + COTP_RFC1006_HEADER_SIZE))"

lemma can_transmitD:
  assumes "can_transmit self"
  shows "opt_tpdu_size (co_options (ic_cotpConnection self)) \<le> 13"
    and "3 < CotpConnection_getTpduSize (ic_cotpConnection self)"
    and "can_send (ic_cotpConnection self)
       (nat (CotpConnection_getTpduSize (ic_cotpConnection self) + COTP_RFC1006_HEADER_SIZE))"
  using assms by (simp_all add: can_transmit_def)

text \<open>A receiver whose network script delivers these TPDUs.\<close>

definition hears :: "'h IsoConnection \<Rightarrow> byte list list \<Rightarrow> bool" where
  "hears self tpdus \<longleftrightarrow>
     map ev_result (sk_events (co_socket (ic_cotpConnection self))) = map Got tpdus \<and>
     RECEIVE_BUF_SIZE \<le> int (length (bb_buffer (co_payload (ic_cotpConnection self))))"

lemma rewrapped_inv:
  "RECEIVE_BUF_SIZE \<le> int (length mem) \<Longrightarrow> bb_inv (ByteBuffer_wrap mem 0 RECEIVE_BUF_SIZE)"
  by (simp add: bb_inv_def ByteBuffer_wrap_def RECEIVE_BUF_SIZE_def)

text \<open>The reaction to a data SPDU.\<close>

lemma handle_data_message:
  assumes "received (co_payload (ic_cotpConnection self)) (data_message c mms)" and "length mms \<le> 65000"
  obtains self' request where "holds request mms" "self' = self\<lparr>ic_session := ic_session self', ic_presentation := ic_presentation self'\<rparr>"
    "ps_mmsContextId (ic_presentation self') = ps_mmsContextId (ic_presentation self)"
    "\<And>handler. handleSessionMessage handler self =
       (if c = ps_mmsContextId (ic_presentation self) then handleRequest handler self' request else Some self')"
proof -
  obtain ud where ud: "IsoSession_parseMessage (ic_session self) (co_payload (ic_cotpConnection self)) =
      Some (SESSION_DATA, (ic_session self)\<lparr>is_userData := ud\<rparr>)" "received ud (userData_bytes (length mms) c @ mms)"
    using parse_data_spdu [of _ "userData_bytes (length mms) c @ mms" "ic_session self"] assms(1)
    unfolding data_message_def by blast
  obtain post m where pres: "IsoPresentation_parseUserData (ic_presentation self) ud =
      Some (1, (ic_presentation self)\<lparr>ps_nextContextId := c, ps_nextPayload := ByteBuffer_wrap (mms @ post) (int (length mms)) m\<rparr>)"
    using parseUserData_found [OF ud(2) refl assms(2)] by blast
  let ?p = "(ic_presentation self)\<lparr>ps_nextContextId := c, ps_nextPayload := ByteBuffer_wrap (mms @ post) (int (length mms)) m\<rparr>"
  let ?s = "self\<lparr>ic_session := (ic_session self)\<lparr>is_userData := ud\<rparr>, ic_presentation := ?p\<rparr>"
  show ?thesis
  proof (rule that [of "ByteBuffer_wrap (mms @ post) (int (length mms)) m" ?s])
    show "holds (ByteBuffer_wrap (mms @ post) (int (length mms)) m) mms"
      using assms(2) by (simp add: holds_def bb_content_def ByteBuffer_wrap_def)
    show "handleSessionMessage handler self =
       (if c = ps_mmsContextId (ic_presentation self)
        then handleRequest handler ?s (ByteBuffer_wrap (mms @ post) (int (length mms)) m) else Some ?s)" for handler
      using ud(1) pres by (simp add: handleSessionMessage_def CotpConnection_getPayload_def handleSessionData_def
          IsoSession_getUserData_def Let_def)
  qed simp_all
qed

lemma handle_heard_data:
  assumes "CotpConnection_parseIncomingMessage ((ic_cotpConnection self)\<lparr>co_payload :=
      ByteBuffer_wrap (bb_buffer (co_payload (ic_cotpConnection self))) 0 RECEIVE_BUF_SIZE\<rparr>) = Some (DATA_INDICATION, r)"
    and "received (co_payload r) (data_message c mms)" and "length mms \<le> 65000"
  obtains self' request where "holds request mms" "ic_acseConnection self' = ic_acseConnection self"
    "ic_msgRcvdHandlerParameter self' = ic_msgRcvdHandlerParameter self" "ic_sendBuffer self' = ic_sendBuffer self"
    "\<And>handler. handleTcpConnection handler self =
       (if c = ps_mmsContextId (ic_presentation self) then handleRequest handler self' request else Some self')"
proof -
  let ?s = "self\<lparr>ic_cotpConnection := r\<rparr>"
  have rcv: "received (co_payload (ic_cotpConnection ?s)) (data_message c mms)" using assms(2) by simp
  obtain self' request where s: "holds request mms"
    "self' = ?s\<lparr>ic_session := ic_session self', ic_presentation := ic_presentation self'\<rparr>"
    "\<And>handler. handleSessionMessage handler ?s =
       (if c = ps_mmsContextId (ic_presentation ?s) then handleRequest handler self' request else Some self')"
    by (rule handle_data_message [OF rcv assms(3)]) blast
  show ?thesis
  proof (rule that [OF s(1)])
    show "ic_acseConnection self' = ic_acseConnection self" "ic_sendBuffer self' = ic_sendBuffer self"
      "ic_msgRcvdHandlerParameter self' = ic_msgRcvdHandlerParameter self" by (subst s(2), simp)+
    show "handleTcpConnection handler self =
       (if c = ps_mmsContextId (ic_presentation self) then handleRequest handler self' request else Some self')" for handler
      using assms(1) s(3) by (simp add: handleTcpConnection_def Let_def)
  qed
qed

text \<open>\<open>IsoConnection_sendMessage\<close> puts the message on the wire as a sequence of TPDUs.\<close>

lemma sendMessage_transmits:
  assumes "ic_state self \<noteq> ISO_CON_STATE_STOPPED" and "bb_inv message" and "0 < bb_size message" and "bb_size message \<le> 65000"
    and "16 \<le> length (ic_sendBuffer self)" and "can_transmit self"
  obtains self' tpdus where "IsoConnection_sendMessage self message = Some self'"
    "sent (ic_cotpConnection self) (ic_cotpConnection self') tpdus"
    "self' = self\<lparr>ic_sendBuffer := ic_sendBuffer self', ic_cotpConnection := ic_cotpConnection self'\<rparr>"
    "\<And>r :: CotpConnection. map ev_result (sk_events (co_socket r)) = map Got tpdus \<Longrightarrow>
       bb_inv (co_payload r) \<Longrightarrow> 20 + bb_size message \<le> bb_maxSize (co_payload r) \<Longrightarrow>
       \<exists>r'. CotpConnection_parseIncomingMessage r = Some (DATA_INDICATION, r') \<and>
            received (co_payload r') (data_message (ps_mmsContextId (ic_presentation self)) (bb_content message))"
proof -
  let ?payload = "BufferChain (bb_size message) (bb_size message) (bb_size message) (bb_buffer message) None"
  let ?part = "BufferChain 0 0 (SEND_BUF_SIZE - 0) (ic_sendBuffer self) None"
  have p: "chain_ok ?payload" "chain_solid ?payload" "chain_bytes ?payload = bb_content message"
    "part_at (ic_sendBuffer self) 0 = Some ?part" and size: "0 < bc_partLength ?payload" "bc_length ?payload \<le> 65000"
    "16 \<le> length (bc_buffer ?part)"
    using assms(2,3,4,5) by (simp_all add: bb_inv_def bb_content_def part_at_def ptr_add_def)
  obtain pres where pres: "IsoPresentation_createUserData (ic_presentation self) ?part ?payload = Some pres"
    "0 < bc_partLength pres" "bc_partLength pres \<le> int (length (bc_buffer pres))"
    and stack: "\<And>s part'. \<exists>spdu. IsoSession_createDataSpdu s part' pres = Some spdu \<and> chain_ok spdu \<and> chain_solid spdu \<and>
       chain_bytes spdu = data_message (ps_mmsContextId (ic_presentation self)) (chain_bytes ?payload)"
    by (rule data_stack [OF p(1,2) size]) blast
  obtain part' where part': "part_at (store_at (ic_sendBuffer self) 0 pres) (bc_partLength pres) = Some part'"
    using pres(2,3) by (simp add: part_at_def store_at_def ptr_add_def)
  obtain spdu where spdu: "IsoSession_createDataSpdu (ic_session self) part' pres = Some spdu" "chain_ok spdu" "chain_solid spdu"
    "chain_bytes spdu = data_message (ps_mmsContextId (ic_presentation self)) (bb_content message)"
    using stack [of "ic_session self" part'] unfolding p(3) by blast
  have len: "bc_length spdu \<le> 20 + bb_size message"
    using chain_ok_length [OF spdu(2)] assms(3)
      length_userData_header(1) [of "nat (bb_size message)" "ps_mmsContextId (ic_presentation self)"]
    by (simp add: spdu(4) data_message_def length_bb_content [OF assms(2)])
  obtain cotp tpdus where c: "CotpConnection_sendDataMessage (ic_cotpConnection self) spdu = Some (OK, cotp)"
    "sent (ic_cotpConnection self) cotp tpdus"
    and r: "\<And>r :: CotpConnection. map ev_result (sk_events (co_socket r)) = map Got tpdus \<Longrightarrow>
       bb_inv (co_payload r) \<Longrightarrow> bc_length spdu \<le> bb_maxSize (co_payload r) \<Longrightarrow>
       \<exists>r'. CotpConnection_parseIncomingMessage r = Some (DATA_INDICATION, r') \<and>
            received (co_payload r') (chain_bytes spdu)"
    by (rule cotp_delivery [OF spdu(2,3) can_transmitD [OF assms(6)]]) blast
  let ?self' = "self\<lparr>ic_sendBuffer := store_at (ic_sendBuffer self) 0 pres, ic_cotpConnection := cotp\<rparr>"
  show ?thesis
  proof (rule that [of ?self' tpdus])
    show "IsoConnection_sendMessage self message = Some ?self'"
      using assms(1) p(4) pres(1) part' spdu(1) c(1) by (simp add: IsoConnection_sendMessage_def Let_def)
    show "\<exists>r'. CotpConnection_parseIncomingMessage r = Some (DATA_INDICATION, r') \<and>
        received (co_payload r') (data_message (ps_mmsContextId (ic_presentation self)) (bb_content message))"
      if "map ev_result (sk_events (co_socket r)) = map Got tpdus" "bb_inv (co_payload r)"
        "20 + bb_size message \<le> bb_maxSize (co_payload r)" for r :: CotpConnection
      using r [OF that(1,2)] that(3) len spdu(4) by simp
  qed (use c(2) in simp_all)
qed

section \<open>Properties\<close>

text \<open>C2: end to end: a message sent with \<open>IsoConnection_sendMessage\<close> is segmented, transmitted and, by
  any connection that receives the TPDUs and uses the same MMS context, handed to its message
  handler with exactly the bytes that were sent, through all four layers.\<close>

theorem connection_message_delivered:
  assumes "ic_state sender \<noteq> ISO_CON_STATE_STOPPED" and "bb_inv message" and "0 < bb_size message"
    and "bb_size message \<le> 16000" and "16 \<le> length (ic_sendBuffer sender)" and "can_transmit sender"
  shows "\<exists>sender' tpdus. IsoConnection_sendMessage sender message = Some sender' \<and>
    sent (ic_cotpConnection sender) (ic_cotpConnection sender') tpdus \<and>
    (\<forall>receiver. hears receiver tpdus \<and>
        ps_mmsContextId (ic_presentation receiver) = ps_mmsContextId (ic_presentation sender) \<longrightarrow>
      (\<exists>receiver' request. holds request (bb_content message) \<and>
         ic_msgRcvdHandlerParameter receiver' = ic_msgRcvdHandlerParameter receiver \<and>
         (\<forall>handler. handleTcpConnection handler receiver = handleRequest handler receiver' request)))"
proof -
  obtain sender' tpdus where s: "IsoConnection_sendMessage sender message = Some sender'"
    "sent (ic_cotpConnection sender) (ic_cotpConnection sender') tpdus"
    and r: "\<And>r :: CotpConnection. map ev_result (sk_events (co_socket r)) = map Got tpdus \<Longrightarrow>
       bb_inv (co_payload r) \<Longrightarrow> 20 + bb_size message \<le> bb_maxSize (co_payload r) \<Longrightarrow>
       \<exists>r'. CotpConnection_parseIncomingMessage r = Some (DATA_INDICATION, r') \<and>
            received (co_payload r') (data_message (ps_mmsContextId (ic_presentation sender)) (bb_content message))"
    by (rule sendMessage_transmits [OF assms(1,2,3) _ assms(5,6)]) (use assms(4) in simp, blast)
  have "\<exists>receiver' request. holds request (bb_content message) \<and>
         ic_msgRcvdHandlerParameter receiver' = ic_msgRcvdHandlerParameter receiver \<and>
         (\<forall>handler. handleTcpConnection handler receiver = handleRequest handler receiver' request)"
    if h: "hears receiver tpdus" "ps_mmsContextId (ic_presentation receiver) = ps_mmsContextId (ic_presentation sender)"
    for receiver :: "'b IsoConnection"
  proof -
    let ?r = "(ic_cotpConnection receiver)\<lparr>co_payload :=
      ByteBuffer_wrap (bb_buffer (co_payload (ic_cotpConnection receiver))) 0 RECEIVE_BUF_SIZE\<rparr>"
    have "\<exists>r'. CotpConnection_parseIncomingMessage ?r = Some (DATA_INDICATION, r') \<and>
        received (co_payload r') (data_message (ps_mmsContextId (ic_presentation sender)) (bb_content message))"
      using r [of ?r] h(1) assms(4) rewrapped_inv
      by (simp add: hears_def ByteBuffer_wrap_def RECEIVE_BUF_SIZE_def)
    then obtain r' where r': "CotpConnection_parseIncomingMessage ?r = Some (DATA_INDICATION, r')"
      "received (co_payload r') (data_message (ps_mmsContextId (ic_presentation sender)) (bb_content message))" by blast
    have "length (bb_content message) \<le> 65000" using assms(2,4) by simp
    from handle_heard_data [OF r' this] h(2) show ?thesis by metis
  qed
  with s show ?thesis by blast
qed

definition demo_server :: "nat IsoConnection" where
  "demo_server =
     \<lparr>ic_sendBuffer = replicate 64 0, ic_msgRcvdHandlerParameter = Some 0, ic_socketOpen = True,
      ic_state = ISO_CON_STATE_RUNNING, ic_session = IsoSession_init, ic_presentation = demo_presentation,
      ic_cotpConnection = demo_connection 10 [], ic_clientAddress = ''peer'',
      ic_acseConnection = demo_acse, ic_securityToken = None\<rparr>"

lemma demo_server_transmits: "can_transmit demo_server"
proof -
  have "CotpConnection_getTpduSize (demo_connection 10 []) = 1024"
    by (simp add: CotpConnection_getTpduSize_def demo_connection_def)
  then show ?thesis
    by (simp add: can_transmit_def demo_server_def can_send_def COTP_RFC1006_HEADER_SIZE_def)
      (simp add: demo_connection_def demo_socket_def ByteBuffer_create_def)
qed

theorem connection_message_delivered_witness:
  "\<exists>sender' tpdus. IsoConnection_sendMessage demo_server (ByteBuffer_wrap [1, 2, 3] 3 3) = Some sender' \<and>
     sent (ic_cotpConnection demo_server) (ic_cotpConnection sender') tpdus"
proof -
  have "bb_inv (ByteBuffer_wrap [1, 2, 3] 3 3)" by (simp add: bb_inv_def ByteBuffer_wrap_def)
  moreover have "ic_state demo_server \<noteq> ISO_CON_STATE_STOPPED" "16 \<le> length (ic_sendBuffer demo_server)"
    by (simp_all add: demo_server_def ISO_CON_STATE_RUNNING_def ISO_CON_STATE_STOPPED_def)
  ultimately show ?thesis
    using connection_message_delivered [of demo_server "ByteBuffer_wrap [1, 2, 3] 3 3"] demo_server_transmits
    by (auto simp: ByteBuffer_wrap_def)
qed

text \<open>What the transport layer of a fresh connection makes of the TPDUs of a data message.\<close>

lemma fresh_connection_hears:
  fixes self :: "'h IsoConnection"
  assumes "self = IsoConnection_create socket peer authenticator p junkAcse junkReceive junkSend"
    and "map ev_result (sk_events socket) = map Got (data_tpdus f (data_message 0 mms))"
    and "0 < f" and "f \<le> 65528" and "length mms \<le> 16000" and "length junkReceive = nat RECEIVE_BUF_SIZE"
  obtains r where "CotpConnection_parseIncomingMessage ((ic_cotpConnection self)\<lparr>co_payload :=
      ByteBuffer_wrap (bb_buffer (co_payload (ic_cotpConnection self))) 0 RECEIVE_BUF_SIZE\<rparr>) = Some (DATA_INDICATION, r)"
    "received (co_payload r) (data_message 0 mms)" "ps_mmsContextId (ic_presentation self) = 0"
proof -
  let ?r = "(ic_cotpConnection self)\<lparr>co_payload :=
    ByteBuffer_wrap (bb_buffer (co_payload (ic_cotpConnection self))) 0 RECEIVE_BUF_SIZE\<rparr>"
  let ?q = "?r\<lparr>co_payload := (co_payload ?r)\<lparr>bb_size := 0\<rparr>\<rparr>"
  have fresh: "co_socket (ic_cotpConnection self) = socket" "bb_buffer (co_payload (ic_cotpConnection self)) = junkReceive"
    "ps_mmsContextId (ic_presentation self) = 0"
    by (simp_all add: assms(1) IsoConnection_create_def CotpConnection_init_def CotpConnection_setTpduSize_def Let_def
        ByteBuffer_wrap_def IsoPresentation_init_def zero_IsoPresentation_def)
  have "length (data_message 0 mms) \<le> 16020"
    using length_userData_header(1) [of "length mms" 0] assms(5) by (simp add: data_message_def)
  then have "has_room ?q (length (data_message 0 mms))"
    using assms(6) by (simp add: has_room_def fresh bb_inv_def ByteBuffer_wrap_def RECEIVE_BUF_SIZE_def)
  from parse_data_tpdus [OF _ this assms(3,4)] assms(2) show ?thesis
    by (auto simp: fresh CotpConnection_parseIncomingMessage_def received_def bb_content_def ByteBuffer_wrap_def intro: that)
qed

text \<open>a fresh connection hands MMS data to its message handler before any association: a client that
  never sends an association request, whatever the authenticator would say, reaches the handler
  with a data message in presentation context 0, the initial value of \<open>mmsContextId\<close>.\<close>

theorem connection_data_without_association:
  assumes "self = IsoConnection_create socket peer (Some authenticator) p junkAcse junkReceive junkSend"
    and "map ev_result (sk_events socket) = map Got (data_tpdus f (data_message 0 mms))"
    and "0 < f" and "f \<le> 65528" and "length mms \<le> 16000" and "length junkReceive = nat RECEIVE_BUF_SIZE"
  shows "\<exists>self' request. holds request mms \<and>
    (\<forall>handler. handleTcpConnection handler self = handleRequest handler self' request)"
proof -
  obtain r where r: "CotpConnection_parseIncomingMessage ((ic_cotpConnection self)\<lparr>co_payload :=
      ByteBuffer_wrap (bb_buffer (co_payload (ic_cotpConnection self))) 0 RECEIVE_BUF_SIZE\<rparr>) = Some (DATA_INDICATION, r)"
    "received (co_payload r) (data_message 0 mms)" "ps_mmsContextId (ic_presentation self) = 0"
    by (rule fresh_connection_hears [OF assms]) blast
  have "length mms \<le> 65000" using assms(5) by simp
  from handle_heard_data [OF r(1,2) this] r(3) show ?thesis by metis
qed

text \<open>A presentation connect PDU that carries the association request of \<open>demo_aarq\<close>.\<close>

definition demo_connect :: "byte list" where
  "demo_connect = connect_bytes demo_presentation (length demo_aarq) @ demo_aarq"

definition reject_all :: AcseAuthenticator where "reject_all param auth = (False, None)"

theorem connection_data_without_association_witness:
  "\<exists>self' request. holds request [1, 2, 3] \<and>
    (\<forall>handler :: nat MessageReceivedHandler. handleTcpConnection handler
       (IsoConnection_create (demo_socket (map (\<lambda>t. Ev 0 (Got t)) (data_tpdus 100 (data_message 0 [1, 2, 3])))) ''peer''
          (Some reject_all) 0 demo_acse (replicate 16100 0) []) = handleRequest handler self' request)"
  by (rule connection_data_without_association [OF refl, where f = 100])
    (simp_all add: demo_socket_def RECEIVE_BUF_SIZE_def o_def)

text \<open>C6: an association request that the authenticator refuses, however malformed, neither reaches the
  message handler nor sends anything: the connection is stopped, or unchanged up to the presentation
  layer if that already fails. (The association PDU must not be a response, see below.)\<close>

theorem connection_refused_association:
  assumes "handleSessionConnect handler self ud = Some self'"
    and "ac_authenticator (ic_acseConnection self) = Some a"
    and "\<And>auth. \<not> fst (a (ac_authenticatorParameter (ic_acseConnection self)) auth)"
    and "IsoPresentation_parseConnect (ic_presentation self) ud = Some (ok, pres)"
    and "rd (bb_buffer (ps_nextPayload pres)) 0 \<noteq> Some 0x61"
  shows "ic_cotpConnection self' = ic_cotpConnection self \<and> ic_sendBuffer self' = ic_sendBuffer self \<and>
    ic_msgRcvdHandlerParameter self' = ic_msgRcvdHandlerParameter self \<and>
    (ok \<noteq> 0 \<longrightarrow> ic_state self' = ISO_CON_STATE_STOPPED)"
proof (cases "ok = 0")
  case True
  with assms(1,4) show ?thesis by (auto simp: handleSessionConnect_def Let_def)
next
  case False
  then obtain ind acse where parse: "AcseConnection_parseMessage (ic_acseConnection self) (ps_nextPayload pres) = Some (ind, acse)"
    using assms(1,4) by (auto simp: handleSessionConnect_def Let_def split: bind_splits)
  have "ind \<noteq> ACSE_ASSOCIATE"
  proof
    assume "ind = ACSE_ASSOCIATE"
    with parse have "AcseConnection_parseMessage (ic_acseConnection self) (ps_nextPayload pres) = Some (ACSE_ASSOCIATE, acse)"
      by simp
    with associate_only_from_association [OF this] associate_authenticated [OF this _ assms(2)] assms(3,5)
    show False by (metis fst_conv)
  qed
  with parse assms(1,4) False show ?thesis by (auto simp: handleSessionConnect_def Let_def stop_def)
qed

theorem connection_refused_association_witness:
  "\<exists>self'. handleSessionConnect (\<lambda>c _ r. Some (c, r))
       (demo_server\<lparr>ic_acseConnection := demo_acse\<lparr>ac_authenticator := Some reject_all\<rparr>\<rparr>)
       (ByteBuffer_wrap demo_connect (int (length demo_connect)) 300) = Some self' \<and>
     ic_state self' = ISO_CON_STATE_STOPPED \<and> ic_cotpConnection self' = ic_cotpConnection demo_server"
proof -
  let ?ud = "ByteBuffer_wrap demo_connect (int (length demo_connect)) 300"
  let ?self = "demo_server\<lparr>ic_acseConnection := demo_acse\<lparr>ac_authenticator := Some reject_all\<rparr>\<rparr>"
  have "map_option (\<lambda>(ok, p). (ok, rd (bb_buffer (ps_nextPayload p)) 0)) (IsoPresentation_parseConnect demo_presentation ?ud) =
      Some (1, Some 0x60)" by code_simp
  then obtain pres where pres: "IsoPresentation_parseConnect (ic_presentation ?self) ?ud = Some (1, pres)"
    "rd (bb_buffer (ps_nextPayload pres)) 0 = Some 0x60" by (auto simp: demo_server_def)
  have "map_option ic_state (handleSessionConnect (\<lambda>c _ r. Some (c, r)) ?self ?ud) = Some 0" by code_simp
  then obtain self' where s: "handleSessionConnect (\<lambda>c _ r. Some (c, r)) ?self ?ud = Some self'" by auto
  have "ic_cotpConnection self' = ic_cotpConnection ?self \<and> ic_state self' = ISO_CON_STATE_STOPPED"
    using connection_refused_association [OF s _ _ pres(1), of reject_all] pres(2) by (auto simp: reject_all_def)
  with s show ?thesis by auto
qed

text \<open>C17: a client passes the authentication of a server by sending an association \<open>response\<close> (AARE) where
  the request is expected: the ACSE parser accepts it without consulting the authenticator, and
  the server continues with the association, calls the message handler with the user data and
  takes over the security token of the uninitialised local variable.\<close>

theorem connection_response_bypasses_authentication:
  assumes "received ud (connect_bytes p n @ aare_bytes ACSE_RESULT_ACCEPT ref (length mms) @ mms)"
    and "n = length (aare_bytes ACSE_RESULT_ACCEPT ref (length mms) @ mms)"
    and "length mms \<le> 60000" and "length ref \<le> 5" and "int (length (bb_buffer ud)) \<le> INT_MAX"
  shows "\<exists>self'. (\<forall>handler. handleSessionConnect handler self ud = handleAssociate handler self') \<and>
    user_data (ic_acseConnection self') = mms \<and> ac_userDataBuffer (ic_acseConnection self') \<noteq> None \<and>
    ic_securityToken self' = ac_securityToken (ic_acseConnection self)"
proof -
  let ?aare = "aare_bytes ACSE_RESULT_ACCEPT ref (length mms)"
  have n: "length (?aare @ mms) = n" "n \<le> 65000" using assms(2,3,4)
    by (simp_all add: aare_bytes_def aare_elements_def ui_bytes_def tlv_bytes_def length_tl_bytes
        appContextNameMms_def BerEncoder_determineLengthSize_def)
  let ?pres = "\<lambda>post. with_payload ((ic_presentation self)\<lparr>ps_acseContextId := 1, ps_mmsContextId := 3\<rparr>)
    (ps_acseContextId p) ((?aare @ mms) @ post) n"
  obtain post where pres: "IsoPresentation_parseConnect (ic_presentation self) ud = Some (1, ?pres post)"
    using parseConnect_found [OF _ n assms(5), of p "ic_presentation self"] assms(1) by auto
  have "holds (ps_nextPayload (?pres post)) (?aare @ mms)"
    using n by (simp add: holds_def with_payload_def bb_content_def)
  then obtain post' where acse: "AcseConnection_parseMessage (ic_acseConnection self) (ps_nextPayload (?pres post)) =
      Some (ACSE_ASSOCIATE, with_user_data (ic_acseConnection self) (of_nat (be_nat ref)) (mms @ post') (length mms))"
    using parse_aare_found [of _ ACSE_RESULT_ACCEPT ref mms "ic_acseConnection self"] assms(3,4)
    by (auto simp: ACSE_RESULT_ACCEPT_def)
  let ?acse = "with_user_data (ic_acseConnection self) (of_nat (be_nat ref)) (mms @ post') (length mms)"
  show ?thesis
    using pres acse with_user_data_content [of "ic_acseConnection self" "of_nat (be_nat ref)" mms post']
    by (intro exI [of _ "self\<lparr>ic_presentation := ?pres post, ic_acseConnection := ?acse, ic_securityToken := ac_securityToken ?acse\<rparr>"])
      (simp add: handleSessionConnect_def Let_def, simp add: with_user_data_def)
qed

theorem connection_response_bypasses_authentication_witness:
  "\<exists>ud self'. handleSessionConnect (\<lambda>c _ r. Some (c, r))
       (demo_server\<lparr>ic_acseConnection := demo_acse\<lparr>ac_authenticator := Some reject_all\<rparr>\<rparr>) ud =
     handleAssociate (\<lambda>c _ r. Some (c, r)) self' \<and> user_data (ic_acseConnection self') = [1, 2, 3]"
proof -
  let ?apdu = "aare_bytes ACSE_RESULT_ACCEPT [3] (length [1 :: byte, 2, 3]) @ [1, 2, 3]"
  let ?pdu = "connect_bytes demo_presentation (length ?apdu) @ ?apdu"
  let ?ud = "ByteBuffer_wrap ?pdu (int (length ?pdu)) (int (length ?pdu))"
  let ?self = "demo_server\<lparr>ic_acseConnection := demo_acse\<lparr>ac_authenticator := Some reject_all\<rparr>\<rparr>"
  have len: "length ?pdu \<le> 300" by code_simp
  then have "int (length ?pdu) \<le> INT_MAX" by linarith
  then have ud: "received ?ud ?pdu" "int (length (bb_buffer ?ud)) \<le> INT_MAX"
    unfolding received_def bb_inv_def bb_content_def ByteBuffer_wrap_def by simp_all
  have small: "length [1 :: byte, 2, 3] \<le> 60000" "length [3 :: byte] \<le> 5" by simp_all
  from connection_response_bypasses_authentication [OF ud(1) refl small ud(2), of ?self] show ?thesis by blast
qed

section \<open>Runs of a connection\<close>

text \<open>The threads of the server: the connection thread receives while the connection is running and a
  listener is installed; other threads send and close. A round of the connection thread is one step.\<close>

datatype conn_event = Receive | Send ByteBuffer | Close

inductive conn_step :: "'h MessageReceivedHandler \<Rightarrow> 'h IsoConnection \<Rightarrow> conn_event \<Rightarrow> 'h IsoConnection \<Rightarrow> bool"
  for handler where
  receive: "ic_state s = ISO_CON_STATE_RUNNING \<Longrightarrow> ic_msgRcvdHandlerParameter s \<noteq> None \<Longrightarrow>
            handleTcpConnection handler s = Some s' \<Longrightarrow> conn_step handler s Receive s'"
| send: "IsoConnection_sendMessage s message = Some s' \<Longrightarrow> conn_step handler s (Send message) s'"
| close: "conn_step handler s Close (IsoConnection_close s)"

inductive conn_run :: "'h MessageReceivedHandler \<Rightarrow> 'h IsoConnection \<Rightarrow> conn_event list \<Rightarrow> 'h IsoConnection \<Rightarrow> bool"
  for handler where
  run_done: "conn_run handler s [] s"
| run_step: "conn_step handler s e s' \<Longrightarrow> conn_run handler s' es s'' \<Longrightarrow> conn_run handler s (e # es) s''"

inductive_cases conn_stepE: "conn_step handler s e s'"
inductive_cases conn_run_NilE: "conn_run handler s [] s'"
inductive_cases conn_run_ConsE: "conn_run handler s (e # es) s'"

lemma conn_run_append:
  "conn_run handler s (es @ es') s'' \<longleftrightarrow> (\<exists>s'. conn_run handler s es s' \<and> conn_run handler s' es' s'')"
  by (induction es arbitrary: s) (fastforce intro: conn_run.intros elim!: conn_run_NilE conn_run_ConsE)+

text \<open>A stopped connection does nothing any more: the loop has ended, sending returns at once, and closing has been done.\<close>

lemma stopped_step: "conn_step handler s e s' \<Longrightarrow> ic_state s = ISO_CON_STATE_STOPPED \<Longrightarrow> s' = s"
  by (auto elim!: conn_stepE simp: IsoConnection_sendMessage_def IsoConnection_close_def ISO_CON_STATE_RUNNING_def
      ISO_CON_STATE_STOPPED_def)

lemma stopped_run: "conn_run handler s es s' \<Longrightarrow> ic_state s = ISO_CON_STATE_STOPPED \<Longrightarrow> s' = s"
  by (induction rule: conn_run.induct) (auto dest: stopped_step)

text \<open>Sending leaves the state of the application alone.\<close>

lemma send_parameter:
  "sendAssociateResponse s n = Some s' \<Longrightarrow> ic_msgRcvdHandlerParameter s' = ic_msgRcvdHandlerParameter s"
  "sendDataResponse s n = Some s' \<Longrightarrow> ic_msgRcvdHandlerParameter s' = ic_msgRcvdHandlerParameter s"
  "sendReleaseResponse s = Some s' \<Longrightarrow> ic_msgRcvdHandlerParameter s' = ic_msgRcvdHandlerParameter s"
  "IsoConnection_sendMessage s message = Some s' \<Longrightarrow> ic_msgRcvdHandlerParameter s' = ic_msgRcvdHandlerParameter s"
  by (auto simp: sendAssociateResponse_def sendDataResponse_def sendReleaseResponse_def IsoConnection_sendMessage_def
      Let_def bind_eq_Some_conv split: if_splits)

text \<open>The interface between the connection and its application: the message handler changes its own state, in the way
  the application promises, and nothing else of the connection.\<close>

locale message_listener =
  fixes handler :: "'h MessageReceivedHandler"
    and serves :: "'h \<Rightarrow> 'h \<Rightarrow> bool"
  assumes handled: "handler self request response = Some (self', response') \<Longrightarrow> ic_msgRcvdHandlerParameter self = Some s \<Longrightarrow>
    \<exists>s'. self' = self\<lparr>ic_msgRcvdHandlerParameter := Some s'\<rparr> \<and> serves s s'"
begin

definition parameter_after :: "'h IsoConnection \<Rightarrow> 'h IsoConnection \<Rightarrow> bool" where
  "parameter_after self self' \<longleftrightarrow>
     (\<forall>s. ic_msgRcvdHandlerParameter self = Some s \<longrightarrow>
        (\<exists>s'. ic_msgRcvdHandlerParameter self' = Some s' \<and> serves\<^sup>*\<^sup>* s s'))"

lemma parameter_after_same:
  "ic_msgRcvdHandlerParameter self' = ic_msgRcvdHandlerParameter self \<Longrightarrow> parameter_after self self'"
  by (simp add: parameter_after_def)

lemma parameter_after_trans: "parameter_after a b \<Longrightarrow> parameter_after b c \<Longrightarrow> parameter_after a c"
  unfolding parameter_after_def by (metis rtranclp_trans)

lemma parameter_after_cong:
  "ic_msgRcvdHandlerParameter a = ic_msgRcvdHandlerParameter a' \<Longrightarrow>
   ic_msgRcvdHandlerParameter b = ic_msgRcvdHandlerParameter b' \<Longrightarrow> parameter_after a b = parameter_after a' b'"
  by (simp add: parameter_after_def)

lemma callHandler_parameter:
  assumes "callHandler handler self request = Some (n, self')"
  shows "parameter_after self self'"
proof -
  obtain self1 response where "handler self request (ByteBuffer_wrap (ic_sendBuffer self) 0 SEND_BUF_SIZE) = Some (self1, response)"
    "self' = self1\<lparr>ic_sendBuffer := bb_buffer response\<rparr>"
    using assms by (auto simp: callHandler_def split: bind_splits)
  then show ?thesis using handled by (fastforce simp: parameter_after_def)
qed

lemma handleRequest_parameter:
  assumes "handleRequest handler self request = Some self'"
  shows "parameter_after self self'"
  using assms
  by (auto simp: handleRequest_def bind_eq_Some_conv split: if_splits
      dest!: callHandler_parameter send_parameter(2) intro: parameter_after_trans parameter_after_same)

lemma handleAssociate_parameter:
  assumes "handleAssociate handler self = Some self'"
  shows "parameter_after self self'"
  using assms
  by (auto simp: handleAssociate_def bind_eq_Some_conv split: if_splits
      dest!: callHandler_parameter send_parameter(1) intro: parameter_after_trans parameter_after_same)

lemma parameter_after_updates [simp]:
  "parameter_after a a"
  "parameter_after a (b\<lparr>ic_presentation := p\<rparr>) = parameter_after a b"
  "parameter_after a (b\<lparr>ic_session := x\<rparr>) = parameter_after a b"
  "parameter_after a (b\<lparr>ic_acseConnection := c\<rparr>) = parameter_after a b"
  "parameter_after a (b\<lparr>ic_securityToken := t\<rparr>) = parameter_after a b"
  "parameter_after a (b\<lparr>ic_cotpConnection := q\<rparr>) = parameter_after a b"
  "parameter_after a (b\<lparr>ic_state := m\<rparr>) = parameter_after a b"
  "parameter_after (a\<lparr>ic_presentation := p\<rparr>) b = parameter_after a b"
  "parameter_after (a\<lparr>ic_session := x\<rparr>) b = parameter_after a b"
  "parameter_after (a\<lparr>ic_acseConnection := c\<rparr>) b = parameter_after a b"
  "parameter_after (a\<lparr>ic_securityToken := t\<rparr>) b = parameter_after a b"
  "parameter_after (a\<lparr>ic_cotpConnection := q\<rparr>) b = parameter_after a b"
  by (simp_all add: parameter_after_def)

lemma handleSessionConnect_parameter:
  "handleSessionConnect handler self ud = Some self' \<Longrightarrow> parameter_after self self'"
  by (auto simp: handleSessionConnect_def stop_def Let_def split: bind_splits if_splits dest!: handleAssociate_parameter)

lemma handleSessionData_parameter:
  "handleSessionData handler self ud = Some self' \<Longrightarrow> parameter_after self self'"
  by (auto simp: handleSessionData_def stop_def Let_def split: bind_splits if_splits dest!: handleRequest_parameter)

lemma handleSessionFinish_parameter:
  "handleSessionFinish self ud = Some self' \<Longrightarrow> parameter_after self self'"
  by (auto simp: handleSessionFinish_def stop_def Let_def split: bind_splits if_splits
      dest!: parameter_after_same [OF send_parameter(3)])

lemmas session_parameter = handleSessionConnect_parameter handleSessionData_parameter handleSessionFinish_parameter

lemma handleSessionMessage_parameter:
  "handleSessionMessage handler self = Some self' \<Longrightarrow> parameter_after self self'"
  by (auto simp: handleSessionMessage_def stop_def Let_def split: bind_splits if_splits dest!: session_parameter)

lemma handleTcpConnection_parameter:
  "handleTcpConnection handler self = Some self' \<Longrightarrow> parameter_after self self'"
  by (auto simp: handleTcpConnection_def stop_def Let_def split: bind_splits CotpIndication.splits
      dest!: handleSessionMessage_parameter)

lemma run_parameter:
  assumes "conn_run handler self es self'"
  shows "parameter_after self self'"
  using assms
proof (induction rule: conn_run.induct)
  case (run_step self e self' es self'')
  from run_step.hyps(1) have "parameter_after self self'"
    by (cases rule: conn_stepE)
      (auto intro: handleTcpConnection_parameter parameter_after_same simp: send_parameter(4) IsoConnection_close_def)
  then show ?case using run_step.IH by (rule parameter_after_trans)
qed (simp add: parameter_after_same)

end

end
