(* ===== verification/Server_Stack.thy ===== *)
theory Server_Stack
  imports Mms_Server_Safety Iso_Connection
begin

text \<open>
  The MMS server on its connection: \<open>messageReceived\<close> as the message handler that \<open>MmsServerConnection_init\<close>
  installs at the ISO connection. The properties of the layers and of the server are put together: what
  a request that arrives in segments at the socket makes the server do.
\<close>

section \<open>The listener\<close>

text \<open>The parameter of the handler is the state of the MMS connection; the response is written into the buffer the
  connection gives.\<close>

definition mmsListener :: "MmsEnvironment \<Rightarrow> MmsState MessageReceivedHandler" where
  "mmsListener env self message response = do {
     s \<leftarrow> ic_msgRcvdHandlerParameter self;
     s \<leftarrow> messageReceived env s message response;
     Some (self\<lparr>ic_msgRcvdHandlerParameter := Some s\<rparr>, mt_response s)
   }"

text \<open>What a server does for a request with one service: the invoke id is kept, and the service is called, or the
  request is rejected.\<close>

definition request_served :: "MmsEnvironment \<Rightarrow> MmsState \<Rightarrow> byte list \<Rightarrow> u32 \<Rightarrow> byte \<Rightarrow> byte list \<Rightarrow> MmsState option" where
  "request_served env s buffer invokeId t c =
     (let s = s\<lparr>mt_invokeId := invokeId, mt_connection := (mt_connection s)\<lparr>sc_lastInvokeId := invokeId\<rparr>\<rparr>
      in do {
        served \<leftarrow> confirmedService env t buffer (service_start invokeId t c)
          (int (length (confirmed_request invokeId t c))) s;
        (case served of
           Some s \<Rightarrow> Some s
         | None \<Rightarrow> reject env s (Some invokeId) MMS_ERROR_REJECT_UNRECOGNIZED_SERVICE)
      })"

text \<open>How the connection goes on with the response.\<close>

definition responded :: "MmsState IsoConnection \<Rightarrow> MmsState \<Rightarrow> MmsState IsoConnection option" where
  "responded self s =
     (let self = self\<lparr>ic_msgRcvdHandlerParameter := Some s, ic_sendBuffer := bb_buffer (mt_response s)\<rparr>
      in if 0 < bb_size (mt_response s) then sendDataResponse self (bb_size (mt_response s)) else Some self)"

lemma handleRequest_mms:
  assumes "ic_msgRcvdHandlerParameter self = Some s"
  shows "handleRequest (mmsListener env) self request =
    (case messageReceived env s request (ByteBuffer_wrap (ic_sendBuffer self) 0 SEND_BUF_SIZE) of
       None \<Rightarrow> None
     | Some s \<Rightarrow> responded self s)"
  using assms by (simp add: handleRequest_def callHandler_def mmsListener_def responded_def Let_def split: option.split)

lemma snd_of_bind: "map_option snd (m \<bind> (\<lambda>x. f x \<bind> (\<lambda>y. Some (k, y)))) = m \<bind> f"
proof (cases m)
  case (Some x)
  then show ?thesis by (cases "f x") simp_all
qed simp

lemma messageReceived_request:
  assumes "holds request (confirmed_request invokeId t c)" and "length c < 60000" and "t AND 0x1f \<noteq> 0x1f"
  obtains rest where "\<And>env s response. messageReceived env s request response =
    request_served env (s\<lparr>mt_response := response\<rparr>) (confirmed_request invokeId t c @ rest) invokeId t c"
proof -
  obtain rest where m: "bb_buffer request = confirmed_request invokeId t c @ rest"
      "bb_size request = int (length (confirmed_request invokeId t c))"
    by (rule holds_memory [OF assms(1)])
  show ?thesis
  proof (rule that [of rest])
    fix env s response
    show "messageReceived env s request response =
        request_served env (s\<lparr>mt_response := response\<rparr>) (confirmed_request invokeId t c @ rest) invokeId t c"
      unfolding messageReceived_def request_served_def Let_def
        mms_request_dispatched [OF m assms(2,3) refl] snd_of_bind m(1) ..
  qed
qed

text \<open>C5: End to end: a confirmed request that a peer sends with \<open>IsoConnection_sendMessage\<close>, segmented by the transport
  layer and wrapped by the three layers above it, makes a server that receives the TPDUs call exactly the service of
  the request, with its invoke id and content, in the state of its connection; the connection then sends the response of the
  service if there is one, and nothing else.\<close>

theorem request_served_end_to_end:
  assumes "ic_state sender \<noteq> ISO_CON_STATE_STOPPED" and "bb_inv message" and "bb_size message \<le> 16000"
    and "16 \<le> length (ic_sendBuffer sender)" and "can_transmit sender"
    and "bb_content message = confirmed_request invokeId t c" and "t AND 0x1f \<noteq> 0x1f"
  shows "\<exists>sender' tpdus. IsoConnection_sendMessage sender message = Some sender' \<and>
    sent (ic_cotpConnection sender) (ic_cotpConnection sender') tpdus \<and>
    (\<forall>receiver s. hears receiver tpdus \<and> ic_msgRcvdHandlerParameter receiver = Some s \<and>
        ps_mmsContextId (ic_presentation receiver) = ps_mmsContextId (ic_presentation sender) \<longrightarrow>
      (\<exists>receiver' rest. \<forall>env. handleTcpConnection (mmsListener env) receiver = do {
         s \<leftarrow> request_served env (s\<lparr>mt_response := ByteBuffer_wrap (ic_sendBuffer receiver) 0 SEND_BUF_SIZE\<rparr>)
           (confirmed_request invokeId t c @ rest) invokeId t c;
         responded receiver' s
       }))"
proof -
  have len: "bb_size message = int (length (confirmed_request invokeId t c))"
    using length_bb_content [OF assms(2)] assms(2,6) by (simp add: bb_inv_def)
  have pos: "0 < bb_size message" and small: "length c < 60000"
    using assms(3) length_tlv_bytes [of t c] unfolding len confirmed_request_def
    by (simp_all add: length_tlv_bytes length_tl_bytes)
  obtain sender' tpdus where s: "IsoConnection_sendMessage sender message = Some sender'"
    "sent (ic_cotpConnection sender) (ic_cotpConnection sender') tpdus"
    and r: "\<And>r :: CotpConnection. map ev_result (sk_events (co_socket r)) = map Got tpdus \<Longrightarrow>
       bb_inv (co_payload r) \<Longrightarrow> 20 + bb_size message \<le> bb_maxSize (co_payload r) \<Longrightarrow>
       \<exists>r'. CotpConnection_parseIncomingMessage r = Some (DATA_INDICATION, r') \<and>
            received (co_payload r') (data_message (ps_mmsContextId (ic_presentation sender)) (bb_content message))"
    by (rule sendMessage_transmits [OF assms(1,2) pos _ assms(4,5)]) (use assms(3) in simp, blast)
  have "\<exists>receiver' rest. \<forall>env. handleTcpConnection (mmsListener env) receiver = do {
         s \<leftarrow> request_served env (s\<lparr>mt_response := ByteBuffer_wrap (ic_sendBuffer receiver) 0 SEND_BUF_SIZE\<rparr>)
           (confirmed_request invokeId t c @ rest) invokeId t c;
         responded receiver' s
       }"
    if h: "hears receiver tpdus" "ic_msgRcvdHandlerParameter receiver = Some s"
      "ps_mmsContextId (ic_presentation receiver) = ps_mmsContextId (ic_presentation sender)" for receiver s
  proof -
    let ?r = "(ic_cotpConnection receiver)\<lparr>co_payload :=
      ByteBuffer_wrap (bb_buffer (co_payload (ic_cotpConnection receiver))) 0 RECEIVE_BUF_SIZE\<rparr>"
    obtain r' where r': "CotpConnection_parseIncomingMessage ?r = Some (DATA_INDICATION, r')"
      "received (co_payload r') (data_message (ps_mmsContextId (ic_presentation sender)) (bb_content message))"
      using r [of ?r] h(1) assms(3) rewrapped_inv
      by (auto simp: hears_def ByteBuffer_wrap_def RECEIVE_BUF_SIZE_def)
    have "length (bb_content message) \<le> 65000" using assms(3) len by (simp add: assms(6))
    then obtain self' request where q: "holds request (confirmed_request invokeId t c)"
      "ic_msgRcvdHandlerParameter self' = Some s" "ic_sendBuffer self' = ic_sendBuffer receiver"
      "\<And>handler. handleTcpConnection handler receiver = handleRequest handler self' request"
      using handle_heard_data [OF r'] h(2,3) unfolding assms(6) by (metis (no_types, lifting))
    obtain rest where m: "\<And>env s response. messageReceived env s request response =
        request_served env (s\<lparr>mt_response := response\<rparr>) (confirmed_request invokeId t c @ rest) invokeId t c"
      by (rule messageReceived_request [OF q(1) small assms(7)]) blast
    show ?thesis
      by (intro exI [of _ self'] exI [of _ rest] allI) (simp add: q(4) handleRequest_mms [OF q(2)] m q(3) split: option.split bind_split)
  qed
  with s show ?thesis by blast
qed

text \<open>An identify request from the peer of the examples.\<close>

theorem request_served_end_to_end_witness:
  "\<exists>sender' tpdus. IsoConnection_sendMessage demo_server (ByteBuffer_wrap [0xa0, 5, 0x02, 1, 7, 0x82, 0] 7 7) = Some sender' \<and>
     sent (ic_cotpConnection demo_server) (ic_cotpConnection sender') tpdus \<and>
     (\<forall>receiver s. hears receiver tpdus \<and> ic_msgRcvdHandlerParameter receiver = Some s \<and>
        ps_mmsContextId (ic_presentation receiver) = ps_mmsContextId (ic_presentation demo_server) \<longrightarrow>
      (\<exists>receiver'. \<forall>env. handleTcpConnection (mmsListener env) receiver =
         put_bytes (identify_bytes (mt_server s) 7) (ByteBuffer_wrap (ic_sendBuffer receiver) 0 SEND_BUF_SIZE) \<bind>
         (\<lambda>r. responded receiver' (s\<lparr>mt_response := r, mt_invokeId := 7,
           mt_connection := (mt_connection s)\<lparr>sc_lastInvokeId := 7\<rparr>\<rparr>))))"
proof -
  let ?m = "ByteBuffer_wrap [0xa0, 5, 0x02, 1, 7, 0x82, 0] 7 7"
  have bytes: "confirmed_request 7 0x82 [] = [0xa0, 5, 0x02, 1, 7, 0x82, 0]" by code_simp
  have m: "bb_inv ?m" "bb_size ?m \<le> 16000" "bb_content ?m = confirmed_request 7 0x82 []"
    unfolding bytes by (simp_all add: bb_inv_def bb_content_def ByteBuffer_wrap_def)
  have d: "ic_state demo_server \<noteq> ISO_CON_STATE_STOPPED" "16 \<le> length (ic_sendBuffer demo_server)"
    by (simp_all add: demo_server_def ISO_CON_STATE_RUNNING_def ISO_CON_STATE_STOPPED_def)
  have served: "request_served env s buffer 7 0x82 [] =
      map_option (\<lambda>r. s\<lparr>mt_response := r, mt_invokeId := 7, mt_connection := (mt_connection s)\<lparr>sc_lastInvokeId := 7\<rparr>\<rparr>)
        (put_bytes (identify_bytes (mt_server s) 7) (mt_response s))" for env s buffer
    by (cases "put_bytes (identify_bytes (mt_server s) 7) (mt_response s)")
      (simp_all add: request_served_def confirmedService_def handleIdentifyRequest_eq Let_def)
  show ?thesis
    using request_served_end_to_end [OF d(1) m(1,2) d(2) demo_server_transmits m(3)]
    unfolding served by (simp add: bind_map_option comp_def)
qed

section \<open>A client without association\<close>

text \<open>C34: A client that has not associated, and that no authenticator has accepted, stops a server for ever with one data message.
  The octets are handed to the MMS server, which handles them with the loop over the elements of a confirmed request; any
  number of rounds of this loop are defined and come back to the position where it began, 2, before the end of the message
  at 8: the loop never ends, and the round of the connection thread does not return.\<close>

theorem server_hangs_before_association:
  assumes "self = IsoConnection_installListener
      (IsoConnection_create socket peer authenticator p junkAcse junkReceive junkSend) s"
    and "map ev_result (sk_events socket) =
      map Got (data_tpdus f (data_message 0 [0xa0, 6, 0x02, 0x84, 0xff, 0xff, 0xff, 0xfa]))"
    and "0 < f" and "f \<le> 65528" and "length junkReceive = nat RECEIVE_BUF_SIZE"
  shows "handleTcpConnection (mmsListener env) self = None \<and>
    (\<exists>self' request s'.
      handleTcpConnection (mmsListener env) self = handleRequest (mmsListener env) self' request \<and>
      messageReceived env s request (ByteBuffer_wrap (ic_sendBuffer self') 0 SEND_BUF_SIZE) =
        map_option snd (tlv_loop (confirmedElement env (bb_buffer request) 8) 8 s' 2) \<and>
      (\<forall>n. \<exists>s''. tlv_rounds (confirmedElement env (bb_buffer request) 8) 8 n s' 2 = Some (s'', 2)))"
proof -
  let ?mms = "[0xa0, 6, 0x02, 0x84, 0xff, 0xff, 0xff, 0xfa] :: byte list"
  let ?fresh = "IsoConnection_create socket peer authenticator p junkAcse junkReceive junkSend :: MmsState IsoConnection"
  have same: "ic_cotpConnection self = ic_cotpConnection ?fresh" "ic_presentation self = ic_presentation ?fresh"
    "ic_msgRcvdHandlerParameter self = Some s"
    by (simp_all add: assms(1) IsoConnection_installListener_def)
  obtain r where r: "CotpConnection_parseIncomingMessage ((ic_cotpConnection self)\<lparr>co_payload :=
      ByteBuffer_wrap (bb_buffer (co_payload (ic_cotpConnection self))) 0 RECEIVE_BUF_SIZE\<rparr>) = Some (DATA_INDICATION, r)"
    "received (co_payload r) (data_message 0 ?mms)" "ps_mmsContextId (ic_presentation self) = 0"
    unfolding same by (rule fresh_connection_hears [OF refl assms(2-4) _ assms(5)]) simp_all
  have short: "length ?mms \<le> 65000" by simp
  obtain self' request where q: "holds request ?mms" "ic_msgRcvdHandlerParameter self' = Some s"
    "\<And>handler. handleTcpConnection handler self = handleRequest handler self' request"
    by (rule handle_heard_data [OF r(1,2) short]) (use r(3) same(3) in simp)
  obtain rest where m: "bb_buffer request = ?mms @ rest" "bb_size request = int (length ?mms)"
    by (rule holds_memory [OF q(1)])
  let ?s = "s\<lparr>mt_response := ByteBuffer_wrap (ic_sendBuffer self') 0 SEND_BUF_SIZE\<rparr>"
  let ?loop = "tlv_loop (confirmedElement env (bb_buffer request) 8) 8 (?s\<lparr>mt_invokeId := 0\<rparr>) 2"
  have size: "bb_size request = 8" using m(2) by simp
  note hangs = mms_request_hangs [OF m(1) size, of env ?s]
  have handled: "messageReceived env s request (ByteBuffer_wrap (ic_sendBuffer self') 0 SEND_BUF_SIZE) = map_option snd ?loop"
    unfolding messageReceived_def hangs [THEN conjunct1] by (simp add: option.map_comp comp_def)
  have hung: "messageReceived env s request (ByteBuffer_wrap (ic_sendBuffer self') 0 SEND_BUF_SIZE) = None"
    unfolding messageReceived_def hangs [THEN conjunct2, THEN conjunct2] by simp
  have none: "handleTcpConnection (mmsListener env) self = None"
    by (simp add: q(3) handleRequest_mms [OF q(2)] hung)
  show ?thesis
    by (intro conjI none exI [of _ self'] exI [of _ request] exI [of _ "?s\<lparr>mt_invokeId := 0\<rparr>"])
      (rule q(3), rule handled, use hangs in blast)
qed

theorem server_hangs_before_association_witness:
  "handleTcpConnection (mmsListener demo_mms_environment)
     (IsoConnection_installListener (IsoConnection_create
        (demo_socket (map (\<lambda>t. Ev 0 (Got t)) (data_tpdus 100 (data_message 0 [0xa0, 6, 0x02, 0x84, 0xff, 0xff, 0xff, 0xfa]))))
        ''peer'' (Some reject_all) 0 demo_acse (replicate 16100 0) []) demo_state) = None"
  by (rule conjunct1 [OF server_hangs_before_association [OF refl, where f = 100]])
    (simp_all add: demo_socket_def comp_def RECEIVE_BUF_SIZE_def)


section \<open>A connection with its server\<close>




end
