(* ===== verification/Goose_Publisher.thy ===== *)
theory Goose_Publisher
  imports Mms_Access_Result Tlv_Loop
begin

text \<open>
  \<open>src/src/goose/goose_publisher.c\<close>: GOOSE messages over Ethernet. The data set is the sequence of
  the values in its linked list. The network interface is outside the model: the hardware address
  is a parameter and \<open>GoosePublisher_publish\<close> returns the packet it hands to
  \<open>Ethernet_sendPacket\<close>. So are the clock (\<open>Hal_getTimeInMs\<close>) and the content of the buffer
  obtained with \<open>malloc\<close>.
\<close>

definition GOOSE_MAX_MESSAGE_SIZE :: nat where
  "GOOSE_MAX_MESSAGE_SIZE = 1518"

record CommParameters =
  cp_vlanPriority :: byte
  cp_vlanId :: u16
  cp_appId :: u16
  cp_dstAddress :: "byte list"

record GoosePublisher =
  gp_buffer :: "byte list"
  gp_lengthField :: nat
  gp_payloadStart :: nat
  gp_goID :: "cstring option"
  gp_goCBRef :: "cstring option"
  gp_dataSetRef :: "cstring option"
  gp_confRev :: u32
  gp_stNum :: u32
  gp_sqNum :: u32
  gp_timeAllowedToLive :: u32
  gp_needsCommission :: bool
  gp_simulation :: bool
  gp_timestamp :: MmsValue

definition default_CommParameters :: CommParameters where
  "default_CommParameters =
     \<lparr>cp_vlanPriority = 4, cp_vlanId = 0, cp_appId = 0x1000, cp_dstAddress = [0x01, 0x0c, 0xcd, 0x01, 0x00, 0x01]\<rparr>"

definition prepareGooseBuffer ::
  "byte list \<Rightarrow> byte list \<Rightarrow> GoosePublisher \<Rightarrow> CommParameters option \<Rightarrow> GoosePublisher option" where
  "prepareGooseBuffer junk srcAddr self parameters =
     (let p = (case parameters of None \<Rightarrow> default_CommParameters | Some p \<Rightarrow> p);
          tci1 = push_bit 5 (cp_vlanPriority p) + ucast (cp_vlanId p div 256);
          tci2 = ucast (cp_vlanId p mod 256)
      in do {
        dst \<leftarrow> rd_n (cp_dstAddress p) 6;
        src \<leftarrow> rd_n srcAddr 6;
        (buffer, lengthField) \<leftarrow> emits
          (dst @ src @ [0x81, 0x00, tci1, tci2, 0x88, 0xB8,
             ucast (cp_appId p div 256), ucast (cp_appId p mod 256)]) (junk, 0);
        (buffer, payloadStart) \<leftarrow> emits [0x00, 0x08, 0x00, 0x00, 0x00, 0x00] (buffer, lengthField);
        Some (self\<lparr>gp_buffer := buffer, gp_lengthField := lengthField, gp_payloadStart := payloadStart\<rparr>)
      })"

definition GoosePublisher_reset :: "GoosePublisher \<Rightarrow> GoosePublisher" where
  "GoosePublisher_reset self = self\<lparr>gp_sqNum := 0, gp_stNum := 1\<rparr>"

definition GoosePublisher_create ::
  "byte list \<Rightarrow> byte list \<Rightarrow> u64 \<Rightarrow> CommParameters option \<Rightarrow> GoosePublisher option" where
  "GoosePublisher_create junk srcAddr currentTime parameters = do {
     let self = \<lparr>gp_buffer = [], gp_lengthField = 0, gp_payloadStart = 0, gp_goID = None,
       gp_goCBRef = None, gp_dataSetRef = None, gp_confRev = 0, gp_stNum = 0, gp_sqNum = 0,
       gp_timeAllowedToLive = 0, gp_needsCommission = False, gp_simulation = False,
       gp_timestamp = MmsValue 0 (V_utcTime (replicate 8 0))\<rparr>;
     self \<leftarrow> prepareGooseBuffer junk srcAddr self parameters;
     timestamp \<leftarrow> MmsValue_newUtcTimeByMsTime currentTime;
     Some (GoosePublisher_reset (self\<lparr>gp_timestamp := timestamp\<rparr>))
   }"

definition GoosePublisher_setGoID :: "GoosePublisher \<Rightarrow> cstring \<Rightarrow> GoosePublisher" where
  "GoosePublisher_setGoID self goID = self\<lparr>gp_goID := Some (copyString goID)\<rparr>"

definition GoosePublisher_setGoCbRef :: "GoosePublisher \<Rightarrow> cstring \<Rightarrow> GoosePublisher" where
  "GoosePublisher_setGoCbRef self goCbRef = self\<lparr>gp_goCBRef := Some (copyString goCbRef)\<rparr>"

definition GoosePublisher_setDataSetRef :: "GoosePublisher \<Rightarrow> cstring \<Rightarrow> GoosePublisher" where
  "GoosePublisher_setDataSetRef self dataSetRef =
     self\<lparr>gp_dataSetRef := Some (copyString dataSetRef)\<rparr>"

definition GoosePublisher_setConfRev :: "GoosePublisher \<Rightarrow> u32 \<Rightarrow> GoosePublisher" where
  "GoosePublisher_setConfRev self confRev = self\<lparr>gp_confRev := confRev\<rparr>"

definition GoosePublisher_setSimulation :: "GoosePublisher \<Rightarrow> bool \<Rightarrow> GoosePublisher" where
  "GoosePublisher_setSimulation self simulation = self\<lparr>gp_simulation := simulation\<rparr>"

definition GoosePublisher_setNeedsCommission :: "GoosePublisher \<Rightarrow> bool \<Rightarrow> GoosePublisher" where
  "GoosePublisher_setNeedsCommission self ndsCom = self\<lparr>gp_needsCommission := ndsCom\<rparr>"

definition GoosePublisher_increaseStNum ::
  "u64 \<Rightarrow> GoosePublisher \<Rightarrow> (u64 \<times> GoosePublisher) option" where
  "GoosePublisher_increaseStNum currentTime self = do {
     timestamp \<leftarrow> MmsValue_setUtcTimeMs (gp_timestamp self) currentTime;
     Some (currentTime,
       self\<lparr>gp_timestamp := timestamp, gp_stNum := gp_stNum self + 1, gp_sqNum := 0\<rparr>)
   }"

definition GoosePublisher_setTimeAllowedToLive :: "GoosePublisher \<Rightarrow> u32 \<Rightarrow> GoosePublisher" where
  "GoosePublisher_setTimeAllowedToLive self timeAllowedToLive =
     self\<lparr>gp_timeAllowedToLive := timeAllowedToLive\<rparr>"

text \<open>Step 1 of \<open>createGoosePayload\<close>: the length of the PDU, and the size of the data set.\<close>

definition goosePduLength :: "GoosePublisher \<Rightarrow> MmsValue option list \<Rightarrow> nat \<Rightarrow> nat" where
  "goosePduLength self dataSetValues dataSetSize =
     BerEncoder_determineEncodedStringSize (gp_goCBRef self) +
     BerEncoder_determineEncodedStringSize (gp_dataSetRef self) +
     (if gp_goID self \<noteq> None then BerEncoder_determineEncodedStringSize (gp_goID self) else 0) +
     (2 + BerEncoder_UInt32determineEncodedSize (gp_timeAllowedToLive self)) +
     (2 + 8) +
     (2 + BerEncoder_UInt32determineEncodedSize (gp_sqNum self)) +
     (2 + BerEncoder_UInt32determineEncodedSize (gp_stNum self)) +
     (2 + BerEncoder_UInt32determineEncodedSize (gp_confRev self)) +
     6 +
     (2 + BerEncoder_UInt32determineEncodedSize (of_nat (length dataSetValues))) +
     (dataSetSize + BerEncoder_determineLengthSize dataSetSize + 1)"

text \<open>The result is \<open>None\<close> inside for the return value -1, else the position after the PDU and the
  buffer.\<close>

definition createGoosePayload ::
  "GoosePublisher \<Rightarrow> MmsValue option list \<Rightarrow> byte list \<Rightarrow> nat \<Rightarrow> wbuf option option" where
  "createGoosePayload self dataSetValues buffer maxPayloadSize = do {
     dataSetSize \<leftarrow> elements_size dataSetValues;
     let pduLength = goosePduLength self dataSetValues dataSetSize;
     if pduLength > maxPayloadSize then Some None
     else do {
       w \<leftarrow> BerEncoder_encodeTL 0x61 pduLength (buffer, 0);
       w \<leftarrow> BerEncoder_encodeStringWithTag 0x80 (gp_goCBRef self) w;
       w \<leftarrow> BerEncoder_encodeUInt32WithTL 0x81 (gp_timeAllowedToLive self) w;
       w \<leftarrow> BerEncoder_encodeStringWithTag 0x82 (gp_dataSetRef self) w;
       w \<leftarrow> (if gp_goID self \<noteq> None then BerEncoder_encodeStringWithTag 0x83 (gp_goID self) w else Some w);
       t \<leftarrow> utc_time (gp_timestamp self);
       w \<leftarrow> BerEncoder_encodeOctetString 0x84 t 8 w;
       w \<leftarrow> BerEncoder_encodeUInt32WithTL 0x85 (gp_stNum self) w;
       w \<leftarrow> BerEncoder_encodeUInt32WithTL 0x86 (gp_sqNum self) w;
       w \<leftarrow> BerEncoder_encodeBoolean 0x87 (gp_simulation self) w;
       w \<leftarrow> BerEncoder_encodeUInt32WithTL 0x88 (gp_confRev self) w;
       w \<leftarrow> BerEncoder_encodeBoolean 0x89 (gp_needsCommission self) w;
       w \<leftarrow> BerEncoder_encodeUInt32WithTL 0x8a (of_nat (length dataSetValues)) w;
       w \<leftarrow> BerEncoder_encodeTL 0xab dataSetSize w;
       w \<leftarrow> encodeElements dataSetValues w;
       Some (Some w)
     }
   }"

text \<open>The result: -1, or 0 with the packet sent; and the publisher.\<close>

definition GoosePublisher_publish ::
  "GoosePublisher \<Rightarrow> MmsValue option list \<Rightarrow> (int \<times> byte list option \<times> GoosePublisher) option" where
  "GoosePublisher_publish self dataSet = do {
     buffer \<leftarrow> ptr_add (gp_buffer self) (int (gp_payloadStart self));
     let maxPayloadSize = GOOSE_MAX_MESSAGE_SIZE - gp_payloadStart self;
     payload \<leftarrow> createGoosePayload self dataSet buffer maxPayloadSize;
     let self = self\<lparr>gp_sqNum := gp_sqNum self + 1\<rparr>;
     (case payload of
        None \<Rightarrow> Some (-1, None, self)
      | Some (buffer, payloadLength) \<Rightarrow> do {
          let buffer = take (gp_payloadStart self) (gp_buffer self) @ buffer;
          let gooseLength = payloadLength + 8;
          (buffer, _) \<leftarrow> emits [of_nat (gooseLength div 256), of_nat gooseLength AND 0xff]
            (buffer, gp_lengthField self);
          let self = self\<lparr>gp_buffer := buffer\<rparr>;
          packet \<leftarrow> rd_n buffer (gp_payloadStart self + payloadLength);
          Some (0, Some packet, self)
        })
   }"


section \<open>The message\<close>

definition goose_fields :: "GoosePublisher \<Rightarrow> MmsValue option list \<Rightarrow> byte list" where
  "goose_fields self ds =
     string_bytes 0x80 (gp_goCBRef self) @
     tlv_bytes (0x81, uint32_bytes (gp_timeAllowedToLive self)) @
     string_bytes 0x82 (gp_dataSetRef self) @
     (case gp_goID self of None \<Rightarrow> [] | Some s \<Rightarrow> string_bytes 0x83 (Some s)) @
     (case utc_time (gp_timestamp self) of None \<Rightarrow> [] | Some t \<Rightarrow> tlv_bytes (0x84, t)) @
     tlv_bytes (0x85, uint32_bytes (gp_stNum self)) @
     tlv_bytes (0x86, uint32_bytes (gp_sqNum self)) @
     [0x87, 1, if gp_simulation self then 0xff else 0] @
     tlv_bytes (0x88, uint32_bytes (gp_confRev self)) @
     [0x89, 1, if gp_needsCommission self then 0xff else 0] @
     tlv_bytes (0x8a, uint32_bytes (of_nat (length ds))) @
     tlv_bytes (0xab, elements_bytes ds)"

definition goose_pdu :: "GoosePublisher \<Rightarrow> MmsValue option list \<Rightarrow> byte list" where
  "goose_pdu self ds = tlv_bytes (0x61, goose_fields self ds)"

text \<open>A publisher as \<open>GoosePublisher_create\<close> leaves it, and a data set whose sizes are counted
  right.\<close>

definition publisher_ok :: "GoosePublisher \<Rightarrow> bool" where
  "publisher_ok self \<longleftrightarrow> mms_wf (gp_timestamp self) \<and> MmsValue_getType (gp_timestamp self) = MMS_UTC_TIME \<and>
     length (gp_buffer self) = GOOSE_MAX_MESSAGE_SIZE \<and> gp_lengthField self = 20 \<and> gp_payloadStart self = 26"

definition data_set_ok :: "MmsValue option list \<Rightarrow> bool" where
  "data_set_ok ds \<longleftrightarrow> all_components mms_wf ds \<and> all_components size_counted ds"

lemma publisher_ok_time:
  assumes "publisher_ok self"
  obtains t where "utc_time (gp_timestamp self) = Some t" and "length t = 8"
  using utc_wf [of "gp_timestamp self"] assms by (auto simp: publisher_ok_def utc_time_def)

lemma UInt32_size: "BerEncoder_UInt32determineEncodedSize v = length (uint32_bytes v)"
  by (simp add: uint32_bytes_spec(5))

lemma length_uint32_tlv: "length (tlv_bytes (t, uint32_bytes v)) = 2 + length (uint32_bytes v)"
  using uint32_bytes_spec(4) [of v]
  by (simp add: length_tlv_bytes length_tl_bytes BerEncoder_determineLengthSize_def)

lemma goosePduLength_eq:
  assumes "publisher_ok self" and "data_set_ok ds"
  shows "goosePduLength self ds (length (elements_bytes ds)) = length (goose_fields self ds)"
proof -
  obtain t where t: "utc_time (gp_timestamp self) = Some t" "length t = 8"
    using publisher_ok_time [OF assms(1)] .
  then have "length (tlv_bytes (0x84, t)) = 10"
    by (simp add: length_tlv_bytes length_tl_bytes BerEncoder_determineLengthSize_def)
  with t show ?thesis
    by (auto simp: goosePduLength_def goose_fields_def UInt32_size length_uint32_tlv
        length_string_bytes length_tlv_bytes [of "0xab"] length_tl_bytes split: option.splits)
qed

lemma encodeUInt32WithTL_tlv:
  "BerEncoder_encodeUInt32WithTL tag v = emits (tlv_bytes (tag, uint32_bytes v))"
  by (simp add: encodeUInt32WithTL_emits tlv_bytes_def)

lemma createGoosePayload_eq:
  assumes "publisher_ok self" and "data_set_ok ds"
  shows "createGoosePayload self ds buffer maxPayloadSize =
    (if length (goose_fields self ds) > maxPayloadSize then Some None
     else map_option Some (emits (goose_pdu self ds) (buffer, 0)))"
proof -
  obtain t where t: "utc_time (gp_timestamp self) = Some t" "length t = 8"
    using publisher_ok_time [OF assms(1)] .
  have size: "elements_size ds = Some (length (elements_bytes ds))"
      "encodeElements ds = emits (elements_bytes ds)"
    using assms(2) accessResult_size_eq(2) encodeAccessResult_emits(2) by (auto simp: data_set_ok_def)
  have utc: "BerEncoder_encodeOctetString 0x84 t 8 = emits (tlv_bytes (0x84, t))"
    using t(2) by (simp add: encodeOctetString_emits tlv_bytes_def)
  define n where "n = length (goose_fields self ds)"
  have map_Some: "map_option Some x = x \<bind> (\<lambda>w. Some (Some w))" for x :: "wbuf option"
    by (cases x) simp_all
  show ?thesis
    unfolding createGoosePayload_def size option.simps bind.bind_lunit Let_def
      goosePduLength_eq [OF assms] t utc encodeUInt32WithTL_tlv encodeStringWithTag_emits
      encodeTL_emits encodeBoolean_emits goose_pdu_def tlv_bytes_def [of "(0x61, goose_fields self ds)"]
      fst_conv snd_conv n_def [symmetric]
    by (cases "gp_goID self")
      (simp_all add: emits_bind_assoc map_Some goose_fields_def t tlv_bytes_def [of "(0xab, _)"])
qed

lemma write_length:
  assumes "length xs = 26"
  shows "emits [of_nat (k div 256), of_nat k AND 0xff] (xs @ ys, 20) =
    Some (xs[20 := of_nat (k div 256), 21 := of_nat k] @ ys, 22)"
proof -
  have ff: "(0xff :: byte) = mask 8" by (simp add: mask_eq_exp_minus_1)
  have "of_nat k AND (0xff :: byte) = of_nat k"
    unfolding ff by (auto intro!: bit_word_eqI simp: bit_simps)
  then show ?thesis
    using assms by (simp add: emits.simps emit_def list_update_append)
qed

lemma publish_room:
  assumes "publisher_ok self" and "data_set_ok ds"
  defines "n \<equiv> length (goose_fields self ds)"
  shows "GoosePublisher_publish self ds =
    (if 1492 < n then Some (-1, None, self\<lparr>gp_sqNum := gp_sqNum self + 1\<rparr>)
     else if 1488 < n then None
     else let len = length (goose_pdu self ds) + 8;
              header = (take 26 (gp_buffer self))[20 := of_nat (len div 256), 21 := of_nat len]
       in Some (0, Some (header @ goose_pdu self ds),
            self\<lparr>gp_sqNum := gp_sqNum self + 1,
              gp_buffer := header @ goose_pdu self ds @
                drop (26 + length (goose_pdu self ds)) (gp_buffer self)\<rparr>))"
proof -
  have ok: "length (gp_buffer self) = 1518" "gp_lengthField self = 20" "gp_payloadStart self = 26"
    using assms(1) by (simp_all add: publisher_ok_def GOOSE_MAX_MESSAGE_SIZE_def)
  let ?pdu = "goose_pdu self ds" and ?b = "gp_buffer self"
  have len: "length ?pdu = n + 1 + BerEncoder_determineLengthSize n"
    by (simp add: goose_pdu_def length_tlv_bytes length_tl_bytes n_def)
  have payload: "createGoosePayload self ds (drop 26 ?b) 1492 =
      (if 1492 < n then Some None else map_option Some (emits ?pdu (drop 26 ?b, 0)))"
    using createGoosePayload_eq [OF assms(1,2)] by (simp add: n_def)
  consider (refused) "1492 < n" | (overflow) "1488 < n" "n \<le> 1492" | (fits) "n \<le> 1488" by linarith
  then show ?thesis
  proof cases
    case refused
    then show ?thesis
      by (simp add: GoosePublisher_publish_def ptr_add_def ok GOOSE_MAX_MESSAGE_SIZE_def payload)
  next
    case overflow
    then have "emits ?pdu (drop 26 ?b, 0) = None"
      using len ok(1) by (intro emits_None) (simp_all add: BerEncoder_determineLengthSize_def)
    with overflow show ?thesis
      by (simp add: GoosePublisher_publish_def ptr_add_def ok GOOSE_MAX_MESSAGE_SIZE_def payload)
  next
    case fits
    then have room: "length ?pdu \<le> 1492"
      using len by (simp add: BerEncoder_determineLengthSize_def split: if_splits)
    then have enc: "emits ?pdu (drop 26 ?b, 0) =
        Some (?pdu @ drop (26 + length ?pdu) ?b, length ?pdu)"
      using ok(1) by (simp add: emits_start add.commute)
    show ?thesis
      using fits room ok
        write_length [of "take 26 ?b" "length ?pdu + 8" "?pdu @ drop (26 + length ?pdu) ?b"]
      by (simp add: GoosePublisher_publish_def ptr_add_def GOOSE_MAX_MESSAGE_SIZE_def payload enc
          rd_n_def Let_def)
  qed
qed

lemma publish_fits:
  assumes "publisher_ok self" and "data_set_ok ds" and "length (goose_fields self ds) \<le> 1488"
  shows "let len = length (goose_pdu self ds) + 8;
             header = (take 26 (gp_buffer self))[20 := of_nat (len div 256), 21 := of_nat len]
    in \<exists>self'. GoosePublisher_publish self ds = Some (0, Some (header @ goose_pdu self ds), self')"
  using publish_room [OF assms(1,2)] assms(3) by (simp add: Let_def)

text \<open>A GOOSE message is refused exactly when its fields exceed the payload space of 1492 octets, but
  the check forgets the tag and length in front of them: with 1489 to 1492 octets of fields the
  message is accepted and written past the end of the packet buffer. With at most 1488 octets the
  packet is the frame header with the patched length field followed by the message, and every attempt
  counts in the sequence number.\<close>

theorem goose_publish_room:
  assumes "publisher_ok self" and "data_set_ok ds"
  defines "n \<equiv> length (goose_fields self ds)"
  shows "GoosePublisher_publish self ds =
    (if 1492 < n then Some (-1, None, self\<lparr>gp_sqNum := gp_sqNum self + 1\<rparr>)
     else if 1488 < n then None
     else let len = length (goose_pdu self ds) + 8;
              header = (take 26 (gp_buffer self))[20 := of_nat (len div 256), 21 := of_nat len]
       in Some (0, Some (header @ goose_pdu self ds),
            self\<lparr>gp_sqNum := gp_sqNum self + 1,
              gp_buffer := header @ goose_pdu self ds @
                drop (26 + length (goose_pdu self ds)) (gp_buffer self)\<rparr>))"
  unfolding n_def by (rule publish_room [OF assms(1,2)])

lemma publisher_created_ok:
  assumes "length junk = GOOSE_MAX_MESSAGE_SIZE" and "length srcAddr = 6"
    and "\<And>p. parameters = Some p \<Longrightarrow> length (cp_dstAddress p) = 6"
  shows "\<exists>self. GoosePublisher_create junk srcAddr t parameters = Some self \<and> publisher_ok self \<and>
    gp_stNum self = 1 \<and> gp_sqNum self = 0"
proof -
  define p where "p = (case parameters of None \<Rightarrow> default_CommParameters | Some p \<Rightarrow> p)"
  have "length (cp_dstAddress p) = 6"
    using assms(3) by (auto simp: p_def default_CommParameters_def split: option.splits)
  then show ?thesis
    using assms(1,2)
    by (auto simp: GoosePublisher_create_def prepareGooseBuffer_def Let_def rd_n_def emits_Some
        MmsValue_newUtcTimeByMsTime_def setUtcTimeMs_octets GoosePublisher_reset_def
        publisher_ok_def GOOSE_MAX_MESSAGE_SIZE_def MmsValue_getType_def simp flip: p_def)
qed

definition demo_publisher :: GoosePublisher where
  "demo_publisher =
     \<lparr>gp_buffer = replicate 12 0 @ [0x81, 0, 0x80, 0, 0x88, 0xb8, 0x10, 0, 0, 8, 0, 0, 0, 0] @ replicate 1492 0,
      gp_lengthField = 20, gp_payloadStart = 26, gp_goID = None, gp_goCBRef = Some [0x67],
      gp_dataSetRef = Some [0x64], gp_confRev = 1, gp_stNum = 1, gp_sqNum = 0,
      gp_timeAllowedToLive = 500, gp_needsCommission = False, gp_simulation = False,
      gp_timestamp = MmsValue_newUtcTime 0\<rparr>"

definition demo_data_set :: "MmsValue option list" where
  "demo_data_set =
     [Some (MmsValue_newBoolean True),
      Some (MmsValue 0 (V_structure
        [Some (MmsValue 0 (V_integer \<lparr>av_size = 1, av_maxSize = 4, av_octets = [5, 0, 0, 0]\<rparr>)),
         Some (MmsValue 0 (V_floatingPoint 8 32 [0, 0, 128, 63]))]))]"

lemma demo_publisher_ok: "publisher_ok demo_publisher" "data_set_ok demo_data_set"
  by (simp_all add: publisher_ok_def demo_publisher_def GOOSE_MAX_MESSAGE_SIZE_def
      MmsValue_newUtcTime_def MmsValue_getType_def data_set_ok_def demo_data_set_def
      MmsValue_newBoolean_def apv_inv_def)

theorem goose_publish_room_witness:
  "GoosePublisher_publish demo_publisher demo_data_set =
    (if 1492 < length (goose_fields demo_publisher demo_data_set)
     then Some (-1, None, demo_publisher\<lparr>gp_sqNum := gp_sqNum demo_publisher + 1\<rparr>)
     else if 1488 < length (goose_fields demo_publisher demo_data_set) then None
     else let len = length (goose_pdu demo_publisher demo_data_set) + 8;
              header = (take 26 (gp_buffer demo_publisher))[20 := of_nat (len div 256), 21 := of_nat len]
       in Some (0, Some (header @ goose_pdu demo_publisher demo_data_set),
            demo_publisher\<lparr>gp_sqNum := gp_sqNum demo_publisher + 1,
              gp_buffer := header @ goose_pdu demo_publisher demo_data_set @
                drop (26 + length (goose_pdu demo_publisher demo_data_set)) (gp_buffer demo_publisher)\<rparr>))"
  by (rule goose_publish_room [OF demo_publisher_ok])

end
