(* ===== verification/Goose_Subscriber.thy ===== *)
theory Goose_Subscriber
  imports Goose_Publisher
begin

text \<open>
  \<open>src/src/goose/goose_subscriber.c\<close>: the parsers of received GOOSE messages and the subscriber
  object. \<open>widen\<close> and \<open>narrow\<close> are the conversions between \<open>float\<close> and \<open>double\<close>. A local variable
  the code has not initialised is \<open>None\<close>, and using it is undefined.
\<close>

section \<open>Data for known values\<close>

text \<open>The switch of \<open>parseAllData\<close> for simple values: the value after the element with this tag,
  length and position.\<close>

definition copy_octets :: "byte list \<Rightarrow> int \<Rightarrow> int \<Rightarrow> byte list \<Rightarrow> byte list option" where
  "copy_octets buffer bufPos len dst = do {
     src \<leftarrow> ptr_add buffer bufPos;
     if len < 0 then None else memcpy dst src (nat len)
   }"

definition parseSimple ::
  "(u32 \<Rightarrow> u64) \<Rightarrow> (u64 \<Rightarrow> u32) \<Rightarrow> byte \<Rightarrow> byte list \<Rightarrow> int \<Rightarrow> int \<Rightarrow> MmsValue \<Rightarrow> MmsValue option" where
  "parseSimple widen narrow tag buffer bufPos elementLength val =
     (if tag = 0x83 then
        (case mv_value val of
           V_boolean _ \<Rightarrow> do {
             b \<leftarrow> BerDecoder_decodeBoolean buffer bufPos;
             MmsValue_setBoolean val b
           }
         | _ \<Rightarrow> Some val)
      else if tag = 0x84 then
        (case mv_value val of
           V_bitString n bits \<Rightarrow> do {
             padding \<leftarrow> rd buffer bufPos;
             if 8 * (elementLength - 1) - uint padding = int n then do {
               bits \<leftarrow> copy_octets buffer (bufPos + 1) (elementLength - 1) bits;
               Some (set_union val (V_bitString n bits))
             }
             else Some val
           }
         | _ \<Rightarrow> Some val)
      else if tag = 0x85 then
        (case mv_value val of
           V_integer a \<Rightarrow>
             if elementLength \<le> int (av_maxSize a) then do {
               octets \<leftarrow> copy_octets buffer bufPos elementLength (av_octets a);
               Some (set_union val (V_integer (a\<lparr>av_size := nat elementLength, av_octets := octets\<rparr>)))
             }
             else Some val
         | _ \<Rightarrow> Some val)
      else if tag = 0x86 then
        (case mv_value val of
           V_unsigned a \<Rightarrow>
             if elementLength \<le> int (av_maxSize a) then do {
               octets \<leftarrow> copy_octets buffer bufPos elementLength (av_octets a);
               Some (set_union val (V_unsigned (a\<lparr>av_size := nat elementLength, av_octets := octets\<rparr>)))
             }
             else Some val
         | _ \<Rightarrow> Some val)
      else if tag = 0x87 then
        (case mv_value val of
           V_floatingPoint _ _ _ \<Rightarrow>
             if elementLength = 9 then do {
               d \<leftarrow> BerDecoder_decodeDouble buffer bufPos;
               MmsValue_setDouble narrow val (le_word d)
             }
             else if elementLength = 5 then do {
               f \<leftarrow> BerDecoder_decodeFloat buffer bufPos;
               MmsValue_setFloat widen val (le_word f)
             }
             else Some val
         | _ \<Rightarrow> Some val)
      else if tag = 0x89 then
        (case mv_value val of
           V_octetString n m octets \<Rightarrow>
             if elementLength \<le> int m then do {
               octets \<leftarrow> copy_octets buffer bufPos elementLength octets;
               Some (set_union val (V_octetString (nat elementLength) m octets))
             }
             else Some val
         | _ \<Rightarrow> Some val)
      else if tag = 0x8a then
        (case mv_value val of
           V_visibleString _ \<Rightarrow> do {
             src \<leftarrow> ptr_add buffer bufPos;
             s \<leftarrow> (if elementLength < 0 then None else createStringFromBuffer src (nat elementLength));
             Some (set_union val (V_visibleString (Some s)))
           }
         | _ \<Rightarrow> Some val)
      else if tag = 0x8c then
        (case mv_value val of
           V_binaryTime n t \<Rightarrow>
             if elementLength = 4 \<or> elementLength = 6 then do {
               t \<leftarrow> copy_octets buffer bufPos elementLength t;
               Some (set_union val (V_binaryTime n t))
             }
             else Some val
         | _ \<Rightarrow> Some val)
      else if tag = 0x91 then
        (if elementLength = 8 then
           (case mv_value val of
              V_utcTime _ \<Rightarrow> do {
                src \<leftarrow> ptr_add buffer bufPos;
                MmsValue_setUtcTimeByBuffer val src
              }
            | _ \<Rightarrow> Some val)
         else Some val)
      else Some val)"

text \<open>
  \<open>parseAllData\<close>: the loop goes through the components of \<open>dataSetValues\<close>, one element of the message
  each, so it recurses on the components left. The result is the C result with the components as
  they are then. A component pointer is used only when the tag is one that is looked at. In an array
  or structure the result -1 of the inner call counts as success.
\<close>

definition inspected :: "byte \<Rightarrow> int \<Rightarrow> bool" where
  "inspected tag elementLength \<longleftrightarrow>
     tag \<in> {0xa1, 0xa2, 0x83, 0x84, 0x85, 0x86, 0x87, 0x89, 0x8a, 0x8c} \<or> tag = 0x91 \<and> elementLength = 8"

function parseAllData ::
    "(u32 \<Rightarrow> u64) \<Rightarrow> (u64 \<Rightarrow> u32) \<Rightarrow> byte list \<Rightarrow> int \<Rightarrow> MmsValue \<Rightarrow> (int \<times> MmsValue) option"
  and parseAllData_loop ::
    "(u32 \<Rightarrow> u64) \<Rightarrow> (u64 \<Rightarrow> u32) \<Rightarrow> byte list \<Rightarrow> int \<Rightarrow> int \<Rightarrow> int \<Rightarrow> MmsValue option list \<Rightarrow>
     (int \<times> MmsValue option list) option"
where
  "parseAllData widen narrow buffer allDataLength (MmsValue d u) =
     (case u of
        V_array cs \<Rightarrow>
          map_option (\<lambda>(r, cs). (r, MmsValue d (V_array cs)))
            (parseAllData_loop widen narrow buffer allDataLength 0 0 cs)
      | V_structure cs \<Rightarrow>
          map_option (\<lambda>(r, cs). (r, MmsValue d (V_structure cs)))
            (parseAllData_loop widen narrow buffer allDataLength 0 0 cs)
      | _ \<Rightarrow> None)"
| "parseAllData_loop widen narrow buffer allDataLength bufPos elementLength [] =
     (if bufPos < allDataLength then do {
        tag \<leftarrow> rd buffer bufPos;
        Some (0, [])
      }
      else Some (1, []))"
| "parseAllData_loop widen narrow buffer allDataLength bufPos elementLength (c # cs) =
     (if bufPos < allDataLength then do {
        tag \<leftarrow> rd buffer bufPos;
        (bufPos, len) \<leftarrow> BerDecoder_decodeLength buffer (Some elementLength) (bufPos + 1) allDataLength;
        elementLength \<leftarrow> len;
        p \<leftarrow> add_int bufPos elementLength;
        if p > allDataLength then Some (0, c # cs)
        else if tag = 0xa1 \<or> tag = 0xa2 then do {
          v \<leftarrow> c;
          if MmsValue_getType v = (if tag = 0xa1 then MMS_ARRAY else MMS_STRUCTURE) then do {
            sub \<leftarrow> ptr_add buffer bufPos;
            (r, v) \<leftarrow> parseAllData widen narrow sub elementLength v;
            if r = 0 then Some (-1, Some v # cs)
            else map_option (\<lambda>(r, cs). (r, Some v # cs))
              (parseAllData_loop widen narrow buffer allDataLength p elementLength cs)
          }
          else map_option (\<lambda>(r, cs). (r, Some v # cs))
            (parseAllData_loop widen narrow buffer allDataLength p elementLength cs)
        }
        else do {
          c \<leftarrow> (if inspected tag elementLength then do {
                 v \<leftarrow> c;
                 map_option Some (parseSimple widen narrow tag buffer bufPos elementLength v)
               }
               else Some c);
          map_option (\<lambda>(r, cs). (r, c # cs))
            (parseAllData_loop widen narrow buffer allDataLength p elementLength cs)
        }
      }
      else Some (1, c # cs))"
  by pat_completeness auto
termination
  by (relation "measure (\<lambda>x. case x of Inl (_, _, _, _, v) \<Rightarrow> size v
        | Inr (_, _, _, _, _, _, cs) \<Rightarrow> components_size cs)") auto


section \<open>Data for values not known in advance\<close>

lemma decodeLength_loop_forward:
  "decodeLength_loop buffer n len p maxBufPos = Some (q, len') \<Longrightarrow> p \<le> maxBufPos \<Longrightarrow>
   q = -1 \<or> p \<le> q \<and> q \<le> maxBufPos"
proof (induction buffer n len p maxBufPos rule: decodeLength_loop.induct)
  case (2 buffer n len p maxBufPos)
  then show ?case by (fastforce simp: bind_eq_Some_conv split: if_splits)
qed auto

lemma decodeLength_forward:
  "BerDecoder_decodeLength buffer len p maxBufPos = Some (q, len') \<Longrightarrow> q = -1 \<or> p < q \<and> q \<le> maxBufPos"
  using decodeLength_loop_forward [of buffer _ 0 "p + 1" maxBufPos]
  by (fastforce simp: BerDecoder_decodeLength_def bind_eq_Some_conv Let_def split: if_splits)

lemma sub_element_shorter:
  assumes "rd buffer p = Some tag" and "BerDecoder_decodeLength buffer len (p + 1) stop = Some (q, len')"
    and "add_int q n = Some r" and "r \<le> stop" and "ptr_add buffer q = Some sub"
  shows "0 < stop" and "n < stop"
proof -
  have "0 \<le> p" using assms(1) by (simp add: rd_def split: if_splits)
  moreover have "0 \<le> q" using assms(5) by (simp add: ptr_add_def split: if_splits)
  ultimately have "2 \<le> q" "q \<le> stop" using decodeLength_forward [OF assms(2)] by linarith+
  moreover have "r = q + n" using assms(3) by (simp add: add_int_def chk_int_def split: if_splits)
  ultimately show "0 < stop" "n < stop" using assms(4) by linarith+
qed

lemma tlv_loop_cong [fundef_cong]:
  assumes "endPos = endPos'" and "s = s'" and "p = p'" and "\<And>s p. step s p = step' s p"
  shows "tlv_loop step endPos s p = tlv_loop step' endPos' s' p'"
proof -
  have "step = step'" using assms(4) by blast
  with assms(1-3) show ?thesis by simp
qed

definition data_tags :: "byte list" where
  "data_tags = [0x80, 0xa1, 0xa2, 0x83, 0x84, 0x85, 0x86, 0x87, 0x89, 0x8a, 0x8c, 0x91]"

text \<open>The first loop counts the elements. Its state is the count and the local
  \<open>elementLength\<close>.\<close>

definition countElement ::
  "byte list \<Rightarrow> int \<Rightarrow> nat \<times> int \<Rightarrow> int \<Rightarrow> (int option \<times> (nat \<times> int)) option" where
  "countElement buffer allDataLength s bufPos = do {
     let (elementIndex, elementLength) = s;
     tag \<leftarrow> rd buffer bufPos;
     (bufPos, len) \<leftarrow> BerDecoder_decodeLength buffer (Some elementLength) (bufPos + 1) allDataLength;
     elementLength \<leftarrow> len;
     p \<leftarrow> add_int bufPos elementLength;
     if p > allDataLength then Some (None, (elementIndex, elementLength))
     else if tag \<in> set data_tags then Some (Some p, (elementIndex + 1, elementLength))
     else Some (None, (elementIndex, elementLength))
   }"

text \<open>A new simple value for an element; the inner \<open>None\<close> is the \<open>NULL\<close> that stays when the
  length does not suit the tag. The integer keeps the size it was created with.\<close>

definition newSimple :: "byte \<Rightarrow> byte \<Rightarrow> byte list \<Rightarrow> int \<Rightarrow> int \<Rightarrow> MmsValue option option" where
  "newSimple junk tag buffer bufPos elementLength =
     (if tag = 0x83 then do {
        b \<leftarrow> BerDecoder_decodeBoolean buffer bufPos;
        Some (Some (MmsValue_newBoolean b))
      }
      else if tag = 0x84 then do {
        padding \<leftarrow> rd buffer bufPos;
        let bitStringLength = 8 * (elementLength - 1) - uint padding;
        if bitStringLength < 0 then None
        else do {
          bits \<leftarrow> copy_octets buffer (bufPos + 1) (elementLength - 1)
            (replicate (bits_to_bytes (nat bitStringLength)) 0);
          Some (Some (set_union (MmsValue_newBitString (nat bitStringLength))
            (V_bitString (nat bitStringLength) bits)))
        }
      }
      else if tag = 0x85 then do {
        let a = (if elementLength * 8 \<le> 32 then BerInteger_createInt32 else BerInteger_createInt64);
        octets \<leftarrow> copy_octets buffer bufPos elementLength (av_octets a);
        Some (Some (MmsValue_newIntegerFromBerInteger (a\<lparr>av_octets := octets\<rparr>)))
      }
      else if tag = 0x86 then do {
        let a = (if elementLength * 8 \<le> 32 then BerInteger_createInt32 else BerInteger_createInt64);
        octets \<leftarrow> copy_octets buffer bufPos elementLength (av_octets a);
        Some (Some (MmsValue_newUnsignedFromBerInteger (a\<lparr>av_octets := octets\<rparr>)))
      }
      else if tag = 0x87 then
        (if elementLength = 9 then do {
           d \<leftarrow> BerDecoder_decodeDouble buffer bufPos;
           Some (Some (MmsValue_newDouble (le_word d)))
         }
         else if elementLength = 5 then do {
           f \<leftarrow> BerDecoder_decodeFloat buffer bufPos;
           Some (Some (MmsValue_newFloat junk (le_word f)))
         }
         else Some None)
      else if tag = 0x89 then
        (if elementLength < 0 then None
         else do {
           octets \<leftarrow> copy_octets buffer bufPos elementLength (replicate (nat elementLength) 0);
           Some (Some (MmsValue 0 (V_octetString (nat elementLength mod 65536)
             (nat elementLength mod 65536) octets)))
         })
      else if tag = 0x8a then do {
        src \<leftarrow> ptr_add buffer bufPos;
        v \<leftarrow> (if elementLength < 0 then None
             else MmsValue_newVisibleStringFromByteArray src (nat elementLength));
        Some (Some v)
      }
      else if tag = 0x8c then
        (if elementLength = 4 \<or> elementLength = 6 then do {
           t \<leftarrow> copy_octets buffer bufPos elementLength (replicate 6 0);
           Some (Some (MmsValue 0 (V_binaryTime (nat elementLength) t)))
         }
         else Some None)
      else if tag = 0x91 then
        (if elementLength = 8 then do {
           src \<leftarrow> ptr_add buffer bufPos;
           v \<leftarrow> MmsValue_setUtcTimeByBuffer (MmsValue_newUtcTime 0) src;
           Some (Some v)
         }
         else Some None)
      else Some None)"

text \<open>The second loop creates the values. Its state: the components, the index of the next one,
  \<open>elementLength\<close> and whether \<open>dataSetValuesSelfAllocated\<close> has been set, which an inner call does
  when it succeeds. The result is the value, \<open>None\<close> for the \<open>NULL\<close> returned on an error, with that flag.
  The outer \<open>None\<close> is undefined behaviour or an endless loop.\<close>

function parseAllDataUnknownValue ::
  "byte \<Rightarrow> byte list \<Rightarrow> int \<Rightarrow> bool \<Rightarrow> (MmsValue option \<times> bool) option"
where
  "parseAllDataUnknownValue junk buffer allDataLength isStructure = do {
     (r, (count, _)) \<leftarrow> tlv_loop (countElement buffer allDataLength) allDataLength (0, 0) 0;
     (case r of
        None \<Rightarrow> Some (None, False)
      | Some _ \<Rightarrow> do {
          (r, (cs, _, _, selfAllocated)) \<leftarrow> tlv_loop
            (\<lambda>(cs, elementIndex, elementLength, selfAllocated) bufPos. do {
               tag \<leftarrow> rd buffer bufPos;
               (bufPos, len) \<leftarrow> BerDecoder_decodeLength buffer (Some elementLength) (bufPos + 1) allDataLength;
               elementLength \<leftarrow> len;
               p \<leftarrow> add_int bufPos elementLength;
               if p > allDataLength then Some (None, (cs, elementIndex, elementLength, selfAllocated))
               else if tag = 0xa1 \<or> tag = 0xa2 then do {
                 sub \<leftarrow> ptr_add buffer bufPos;
                 (v, allocated) \<leftarrow> parseAllDataUnknownValue junk sub elementLength (tag = 0xa2);
                 let selfAllocated = (selfAllocated \<or> allocated);
                 (case v of
                    None \<Rightarrow> Some (None, (cs, elementIndex, elementLength, selfAllocated))
                  | Some v \<Rightarrow>
                      Some (Some p, (cs[elementIndex := Some v], elementIndex + 1, elementLength,
                        selfAllocated)))
               }
               else if tag \<in> set data_tags \<and> tag \<noteq> 0x80 then do {
                 v \<leftarrow> newSimple junk tag buffer bufPos elementLength;
                 (case v of
                    None \<Rightarrow> Some (Some p, (cs, elementIndex, elementLength, selfAllocated))
                  | Some v \<Rightarrow>
                      Some (Some p, (cs[elementIndex := Some v], elementIndex + 1, elementLength,
                        selfAllocated)))
               }
               else Some (None, (cs, elementIndex, elementLength, selfAllocated))
             })
            allDataLength (replicate count None, 0, 0, False) 0;
          (case r of
             None \<Rightarrow> Some (None, selfAllocated)
           | Some _ \<Rightarrow>
               Some (Some (MmsValue 0 (if isStructure then V_structure cs else V_array cs)), True))
        })
   }"
  by pat_completeness auto
termination
proof (relation "measure (\<lambda>(_, _, allDataLength, _). nat allDataLength)", goal_cases)
  case 1
  then show ?case by simp
next
  case 2
  then show ?case using sub_element_shorter by (fastforce simp: not_less)
qed

declare parseAllDataUnknownValue.simps [simp del]


section \<open>The subscriber\<close>

record GooseSubscriber =
  gs_goCBRef :: cstring
  gs_goCBRefLen :: int
  gs_timeAllowedToLive :: u32
  gs_stNum :: u32
  gs_sqNum :: u32
  gs_confRev :: u32
  gs_timestamp :: MmsValue
  gs_simulation :: bool
  gs_ndsCom :: bool
  gs_appId :: int
  gs_dataSetValues :: "MmsValue option"
  gs_dataSetValuesSelfAllocated :: bool
  gs_running :: bool
  gs_interfaceId :: "cstring option"

text \<open>The locals of \<open>parseGoosePayload\<close> with the object, and the result of an early
  return.\<close>

record GooseParse =
  g_timeAllowedToLive :: u32
  g_stNum :: u32
  g_sqNum :: u32
  g_confRev :: "u32 option"
  g_simulation :: bool
  g_ndsCom :: bool
  g_isMatching :: bool
  g_result :: int
  g_self :: GooseSubscriber

definition parseDataSet ::
  "(u32 \<Rightarrow> u64) \<Rightarrow> (u64 \<Rightarrow> u32) \<Rightarrow> byte \<Rightarrow> byte list \<Rightarrow> int \<Rightarrow> GooseSubscriber \<Rightarrow> GooseSubscriber option"
where
  "parseDataSet widen narrow junk buffer elementLength self =
     (case gs_dataSetValues self of
        None \<Rightarrow> do {
          (v, allocated) \<leftarrow> parseAllDataUnknownValue junk buffer elementLength False;
          Some (self\<lparr>gs_dataSetValues := v,
            gs_dataSetValuesSelfAllocated := (allocated \<or> gs_dataSetValuesSelfAllocated self)\<rparr>)
        }
      | Some v \<Rightarrow> do {
          (_, v) \<leftarrow> parseAllData widen narrow buffer elementLength v;
          Some (self\<lparr>gs_dataSetValues := Some v\<rparr>)
        })"

definition gooseElement ::
  "(u32 \<Rightarrow> u64) \<Rightarrow> (u64 \<Rightarrow> u32) \<Rightarrow> byte \<Rightarrow> byte list \<Rightarrow> int \<Rightarrow> GooseParse \<Rightarrow> int \<Rightarrow>
   (int option \<times> GooseParse) option"
where
  "gooseElement widen narrow junk buffer apduLength s bufPos = do {
     tag \<leftarrow> rd buffer bufPos;
     (bufPos, len) \<leftarrow> BerDecoder_decodeLength buffer None (bufPos + 1) apduLength;
     elementLength \<leftarrow> len;
     p \<leftarrow> add_int bufPos elementLength;
     if p > apduLength then Some (None, s\<lparr>g_result := -1\<rparr>)
     else if bufPos = -1 then Some (None, s\<lparr>g_result := -1\<rparr>)
     else if tag = 0x80 then
       (if gs_goCBRefLen (g_self s) = elementLength then do {
          src \<leftarrow> ptr_add buffer bufPos;
          a \<leftarrow> rd_n (gs_goCBRef (g_self s)) (nat elementLength);
          b \<leftarrow> rd_n src (nat elementLength);
          if a = b then Some (Some p, s\<lparr>g_isMatching := True\<rparr>)
          else Some (None, s\<lparr>g_result := 0\<rparr>)
        }
        else Some (None, s\<lparr>g_result := 0\<rparr>))
     else if tag = 0x81 then do {
       v \<leftarrow> BerDecoder_decodeUint32 buffer elementLength bufPos;
       Some (Some p, s\<lparr>g_timeAllowedToLive := v\<rparr>)
     }
     else if tag = 0x84 then do {
       src \<leftarrow> ptr_add buffer bufPos;
       t \<leftarrow> MmsValue_setUtcTimeByBuffer (gs_timestamp (g_self s)) src;
       Some (Some p, s\<lparr>g_self := (g_self s)\<lparr>gs_timestamp := t\<rparr>\<rparr>)
     }
     else if tag = 0x85 then do {
       v \<leftarrow> BerDecoder_decodeUint32 buffer elementLength bufPos;
       Some (Some p, s\<lparr>g_stNum := v\<rparr>)
     }
     else if tag = 0x86 then do {
       v \<leftarrow> BerDecoder_decodeUint32 buffer elementLength bufPos;
       Some (Some p, s\<lparr>g_sqNum := v\<rparr>)
     }
     else if tag = 0x87 then do {
       b \<leftarrow> BerDecoder_decodeBoolean buffer bufPos;
       Some (Some p, s\<lparr>g_simulation := b\<rparr>)
     }
     else if tag = 0x88 then do {
       v \<leftarrow> BerDecoder_decodeUint32 buffer elementLength bufPos;
       Some (Some p, s\<lparr>g_confRev := Some v\<rparr>)
     }
     else if tag = 0x89 then do {
       b \<leftarrow> BerDecoder_decodeBoolean buffer bufPos;
       Some (Some p, s\<lparr>g_ndsCom := b\<rparr>)
     }
     else if tag = 0x8a then do {
       v \<leftarrow> BerDecoder_decodeUint32 buffer elementLength bufPos;
       Some (Some p, s)
     }
     else if tag = 0xab then do {
       src \<leftarrow> ptr_add buffer bufPos;
       self \<leftarrow> parseDataSet widen narrow junk src elementLength (g_self s);
       Some (Some p, s\<lparr>g_self := self\<rparr>)
     }
     else Some (Some p, s)
   }"

definition goose_locals :: "GooseSubscriber \<Rightarrow> GooseParse" where
  "goose_locals self =
     \<lparr>g_timeAllowedToLive = 0, g_stNum = 0, g_sqNum = 0, g_confRev = None, g_simulation = False,
      g_ndsCom = False, g_isMatching = False, g_result = 0, g_self = self\<rparr>"

text \<open>The results: 1 accepted, 0 not for this subscriber, -1 malformed.\<close>

definition finishGoose :: "GooseParse \<Rightarrow> (int \<times> GooseSubscriber) option" where
  "finishGoose s =
     (if g_isMatching s then do {
        confRev \<leftarrow> g_confRev s;
        Some (1, (g_self s)\<lparr>gs_stNum := g_stNum s, gs_sqNum := g_sqNum s,
          gs_timeAllowedToLive := g_timeAllowedToLive s, gs_confRev := confRev,
          gs_ndsCom := g_ndsCom s, gs_simulation := g_simulation s\<rparr>)
      }
      else Some (0, g_self s))"

definition parseGoosePayload ::
  "(u32 \<Rightarrow> u64) \<Rightarrow> (u64 \<Rightarrow> u32) \<Rightarrow> byte \<Rightarrow> byte list \<Rightarrow> int \<Rightarrow> GooseSubscriber \<Rightarrow>
   (int \<times> GooseSubscriber) option"
where
  "parseGoosePayload widen narrow junk buffer apduLength self = do {
     tag \<leftarrow> rd buffer 0;
     if tag = 0x61 then do {
       (bufPos, len) \<leftarrow> BerDecoder_decodeLength buffer None 1 apduLength;
       gooseLength \<leftarrow> len;
       gooseEnd \<leftarrow> add_int bufPos gooseLength;
       (r, s) \<leftarrow> tlv_loop (gooseElement widen narrow junk buffer apduLength) gooseEnd
         (goose_locals self) bufPos;
       (case r of
          None \<Rightarrow> Some (g_result s, g_self s)
        | Some _ \<Rightarrow> finishGoose s)
     }
     else Some (-1, self)
   }"

definition parseGooseMessage ::
  "(u32 \<Rightarrow> u64) \<Rightarrow> (u64 \<Rightarrow> u32) \<Rightarrow> byte \<Rightarrow> byte list \<Rightarrow> int \<Rightarrow> GooseSubscriber \<Rightarrow>
   (int \<times> GooseSubscriber) option"
where
  "parseGooseMessage widen narrow junk buffer numbytes subscriber =
     (if numbytes < 22 then Some (-1, subscriber)
      else do {
        t0 \<leftarrow> rd buffer 12;
        t1 \<leftarrow> rd buffer 13;
        let vlan = (t0 = 0x81 \<and> t1 = 0x00);
        let bufPos = (if vlan then 16 else 12);
        let headerLength = (if vlan then 18 else 14);
        e0 \<leftarrow> rd buffer bufPos;
        if e0 \<noteq> 0x88 then Some (-1, subscriber)
        else do {
          e1 \<leftarrow> rd buffer (bufPos + 1);
          if e1 \<noteq> 0xb8 then Some (-1, subscriber)
          else do {
            a0 \<leftarrow> rd buffer (bufPos + 2);
            a1 \<leftarrow> rd buffer (bufPos + 3);
            let appId = uint a0 * 256 + uint a1;
            l0 \<leftarrow> rd buffer (bufPos + 4);
            l1 \<leftarrow> rd buffer (bufPos + 5);
            let len = uint l0 * 256 + uint l1;
            let apduLength = len - 8;
            if numbytes \<noteq> len + headerLength then Some (-1, subscriber)
            else if gs_appId subscriber \<ge> 0 \<and> appId \<noteq> gs_appId subscriber mod 65536
            then Some (0, subscriber)
            else do {
              apdu \<leftarrow> ptr_add buffer (bufPos + 10);
              parseGoosePayload widen narrow junk apdu apduLength subscriber
            }
          }
        }
      })"

text \<open>One round of \<open>gooseSubscriberLoop\<close> with the \<open>packetSize\<close> octets received: whether the listener is
  called, and the subscriber it sees.\<close>

definition gooseSubscriberLoop ::
  "(u32 \<Rightarrow> u64) \<Rightarrow> (u64 \<Rightarrow> u32) \<Rightarrow> byte \<Rightarrow> byte list \<Rightarrow> int \<Rightarrow> GooseSubscriber \<Rightarrow>
   (bool \<times> GooseSubscriber) option"
where
  "gooseSubscriberLoop widen narrow junk buffer packetSize self =
     (if packetSize > 0 then do {
        (r, self) \<leftarrow> parseGooseMessage widen narrow junk buffer packetSize self;
        Some (r = 1, self)
      }
      else Some (False, self))"

definition GooseSubscriber_create :: "cstring \<Rightarrow> MmsValue option \<Rightarrow> GooseSubscriber" where
  "GooseSubscriber_create goCbRef dataSetValues =
     \<lparr>gs_goCBRef = copyString goCbRef, gs_goCBRefLen = int (length goCbRef), gs_timeAllowedToLive = 0,
      gs_stNum = 0, gs_sqNum = 0, gs_confRev = 0, gs_timestamp = MmsValue_newUtcTime 0,
      gs_simulation = False, gs_ndsCom = False, gs_appId = -1, gs_dataSetValues = dataSetValues,
      gs_dataSetValuesSelfAllocated = False, gs_running = False, gs_interfaceId = None\<rparr>"

definition GooseSubscriber_setAppId :: "GooseSubscriber \<Rightarrow> u16 \<Rightarrow> GooseSubscriber" where
  "GooseSubscriber_setAppId self appId = self\<lparr>gs_appId := uint appId\<rparr>"

definition GooseSubscriber_setInterfaceId :: "GooseSubscriber \<Rightarrow> cstring \<Rightarrow> GooseSubscriber" where
  "GooseSubscriber_setInterfaceId self interfaceId =
     self\<lparr>gs_interfaceId := Some (copyString interfaceId)\<rparr>"

definition GooseSubscriber_subscribe :: "GooseSubscriber \<Rightarrow> GooseSubscriber" where
  "GooseSubscriber_subscribe self = self\<lparr>gs_running := True\<rparr>"

definition GooseSubscriber_unsubscribe :: "GooseSubscriber \<Rightarrow> GooseSubscriber" where
  "GooseSubscriber_unsubscribe self = (if gs_running self then self\<lparr>gs_running := False\<rparr> else self)"

definition GooseSubscriber_getStNum :: "GooseSubscriber \<Rightarrow> u32" where
  "GooseSubscriber_getStNum self = gs_stNum self"

definition GooseSubscriber_getSqNum :: "GooseSubscriber \<Rightarrow> u32" where
  "GooseSubscriber_getSqNum self = gs_sqNum self"

definition GooseSubscriber_isTest :: "GooseSubscriber \<Rightarrow> bool" where
  "GooseSubscriber_isTest self = gs_simulation self"

definition GooseSubscriber_needsCommission :: "GooseSubscriber \<Rightarrow> bool" where
  "GooseSubscriber_needsCommission self = gs_ndsCom self"

definition GooseSubscriber_getTimeAllowedToLive :: "GooseSubscriber \<Rightarrow> u32" where
  "GooseSubscriber_getTimeAllowedToLive self = gs_timeAllowedToLive self"

definition GooseSubscriber_getTimestamp :: "GooseSubscriber \<Rightarrow> u64 option" where
  "GooseSubscriber_getTimestamp self = MmsValue_getUtcTimeInMs (gs_timestamp self)"

definition GooseSubscriber_getDataSetValues :: "GooseSubscriber \<Rightarrow> MmsValue option" where
  "GooseSubscriber_getDataSetValues self = gs_dataSetValues self"

end
