(* ===== verification/Goose.thy ===== *)
theory Goose
  imports Goose_Subscriber
begin

text \<open>
  Publisher and subscriber together: a message of \<open>GoosePublisher_publish\<close>
  (\<open>src/src/goose/goose_publisher.c\<close>) read by \<open>parseGooseMessage\<close>
  (\<open>src/src/goose/goose_subscriber.c\<close>).
\<close>

section \<open>Data sets\<close>

text \<open>Tag and content of a simple value in an access result.\<close>

definition simple_tlv :: "MmsUnion \<Rightarrow> byte \<times> byte list" where
  "simple_tlv u =
     (case u of
        V_visibleString s \<Rightarrow> (0x8a, case s of None \<Rightarrow> [] | Some s \<Rightarrow> s)
      | V_unsigned a \<Rightarrow> (0x86, apv_content a)
      | V_integer a \<Rightarrow> (0x85, apv_content a)
      | V_utcTime t \<Rightarrow> (0x91, t)
      | V_bitString n bits \<Rightarrow> (0x84, of_nat (bits_to_bytes n * 8 - n) # bits)
      | V_boolean b \<Rightarrow> (0x83, [if b then 0xff else 0])
      | V_binaryTime n t \<Rightarrow> (0x8c, take n t)
      | V_octetString n m octets \<Rightarrow> (0x89, take n octets)
      | V_floatingPoint e w f \<Rightarrow> (0x87, e # rev f)
      | _ \<Rightarrow> (0, []))"

definition padding_clear :: "nat \<Rightarrow> byte list \<Rightarrow> bool" where
  "padding_clear n bits \<longleftrightarrow>
     (n > 0 \<longrightarrow> last bits AND NOT (paddingMask (bits_to_bytes n * 8 - n)) = last bits)"

text \<open>The values of a subscriber that can take a value sent: the same shape, the same float widths,
  bit counts and binary time formats, room for integers and octet strings, and strings that are
  there and hold no 0 octet. The unused bits of a bit string are not transmitted.\<close>

function receives :: "MmsValue \<Rightarrow> MmsValue \<Rightarrow> bool"
  and receives_all :: "MmsValue option list \<Rightarrow> MmsValue option list \<Rightarrow> bool"
where
  "receives (MmsValue _ u) (MmsValue _ u') =
     (case u' of
        V_array cs' \<Rightarrow> (case u of V_array cs \<Rightarrow> receives_all cs cs' | _ \<Rightarrow> False)
      | V_structure cs' \<Rightarrow> (case u of V_structure cs \<Rightarrow> receives_all cs cs' | _ \<Rightarrow> False)
      | V_boolean _ \<Rightarrow> union_type u = MMS_BOOLEAN
      | V_utcTime _ \<Rightarrow> union_type u = MMS_UTC_TIME
      | V_bitString n' bits \<Rightarrow> (case u of V_bitString n _ \<Rightarrow> n = n' \<and> padding_clear n' bits | _ \<Rightarrow> False)
      | V_integer a' \<Rightarrow> (case u of V_integer a \<Rightarrow> av_size a' \<le> av_maxSize a | _ \<Rightarrow> False)
      | V_unsigned a' \<Rightarrow> (case u of V_unsigned a \<Rightarrow> av_size a' \<le> av_maxSize a | _ \<Rightarrow> False)
      | V_floatingPoint _ w' _ \<Rightarrow> (case u of V_floatingPoint _ w _ \<Rightarrow> w = w' | _ \<Rightarrow> False)
      | V_octetString n' _ _ \<Rightarrow> (case u of V_octetString _ m _ \<Rightarrow> n' \<le> m | _ \<Rightarrow> False)
      | V_visibleString s' \<Rightarrow> union_type u = MMS_VISIBLE_STRING \<and>
          (case s' of None \<Rightarrow> False | Some s \<Rightarrow> 0 \<notin> set s)
      | V_binaryTime n' _ \<Rightarrow> (case u of V_binaryTime n _ \<Rightarrow> n = n' | _ \<Rightarrow> False)
      | _ \<Rightarrow> False)"
| "receives_all [] cs' \<longleftrightarrow> cs' = []"
| "receives_all (c # cs) [] \<longleftrightarrow> False"
| "receives_all (c # cs) (c' # cs') \<longleftrightarrow>
     (case c of None \<Rightarrow> False | Some v \<Rightarrow> (case c' of None \<Rightarrow> False | Some v' \<Rightarrow> receives v v')) \<and>
     receives_all cs cs'"
  by pat_completeness auto
termination
  by (relation "measure (\<lambda>x. case x of Inl (v, v') \<Rightarrow> size v | Inr (cs, cs') \<Rightarrow> components_size cs)")
    auto

definition simple :: "MmsUnion \<Rightarrow> bool" where
  "simple u \<longleftrightarrow> union_type u \<noteq> MMS_ARRAY \<and> union_type u \<noteq> MMS_STRUCTURE"

lemma bitString_bytes_clear:
  assumes "padding_clear n bits" and "length bits = bits_to_bytes n"
  shows "bitString_bytes t n bits = tlv_bytes (t, of_nat (bits_to_bytes n * 8 - n) # bits)"
proof (cases "bits = []")
  case True
  with assms(2) have "n = 0" using bits_to_bytes_bound(1) [of n] by simp
  with True show ?thesis by (simp add: bitString_bytes_def tlv_bytes_def bits_to_bytes_def)
next
  case False
  with assms(2) have "n > 0" by (cases n) (auto simp: bits_to_bytes_def)
  moreover have "0 < bits_to_bytes n" using False assms(2) by (cases bits) auto
  ultimately show ?thesis
    using assms False by (simp add: bitString_bytes_def tlv_bytes_def Let_def padding_clear_def)
qed

lemma access_bytes_simple:
  assumes "receives (MmsValue d u) (MmsValue d' u')" and "mms_wf (MmsValue d' u')" and "simple u'"
  shows "access_bytes (MmsValue d' u') = tlv_bytes (simple_tlv u')"
  using assms
  by (cases u'; cases u)
    (auto simp: simple_def simple_tlv_def mms_wf_union bitString_bytes_clear string_bytes_def
      tlv_bytes_def [of "(_, _)"] apv_inv_def tl_bytes_small split: option.splits)

definition union_tlv :: "MmsUnion \<Rightarrow> byte \<times> byte list" where
  "union_tlv u =
     (case u of
        V_array cs \<Rightarrow> (0xa1, elements_bytes cs)
      | V_structure cs \<Rightarrow> (0xa2, elements_bytes cs)
      | _ \<Rightarrow> simple_tlv u)"

lemma union_tlv_simple: "simple u \<Longrightarrow> union_tlv u = simple_tlv u"
  by (cases u) (simp_all add: simple_def union_tlv_def)

lemma access_bytes_union:
  assumes "receives (MmsValue d u) (MmsValue d' u')" and "mms_wf (MmsValue d' u')"
  shows "access_bytes (MmsValue d' u') = tlv_bytes (union_tlv u')"
  using access_bytes_simple [OF assms] union_tlv_simple [of u']
  by (cases u') (auto simp: union_tlv_def tlv_bytes_def simple_def)

lemma copy_octets_found:
  assumes "found_at buffer p bs" and "length bs \<le> length dst"
  shows "copy_octets buffer p (int (length bs)) dst = Some (bs @ drop (length bs) dst)"
proof -
  obtain post where "ptr_add buffer p = Some (bs @ post)" using found_at_ptr [OF assms(1)] by blast
  with assms(2) show ?thesis by (simp add: copy_octets_def memcpy_def rd_n_def)
qed

lemma takeWhile_string: "(0 :: byte) \<notin> set s \<Longrightarrow> takeWhile (\<lambda>c. c \<noteq> 0) s = s"
  by (simp add: takeWhile_eq_all_conv) blast

lemma setFloat_exact:
  assumes "length f = 4"
  shows "MmsValue_setFloat widen (MmsValue d (V_floatingPoint e 32 buf)) (le_word f) =
    (if 4 \<le> length buf then Some (MmsValue d (V_floatingPoint e 32 (f @ drop 4 buf))) else None)"
  using assms by (simp add: MmsValue_setFloat_def memcpy_def rd_n_def le_bytes_le_word set_union_def)

lemma setDouble_exact:
  assumes "length f = 8"
  shows "MmsValue_setDouble narrow (MmsValue d (V_floatingPoint e 64 buf)) (le_word f) =
    (if 8 \<le> length buf then Some (MmsValue d (V_floatingPoint e 64 (f @ drop 8 buf))) else None)"
  using assms by (simp add: MmsValue_setDouble_def memcpy_def rd_n_def le_bytes_le_word set_union_def)

text \<open>An element for a simple value.\<close>

lemma parseSimple_received:
  assumes "receives (MmsValue d u) (MmsValue d' u')" and "simple u'"
    and "mms_wf (MmsValue d u)" and "mms_wf (MmsValue d' u')"
    and "found_at buffer p (snd (simple_tlv u'))"
  shows "\<exists>v. parseSimple widen narrow (fst (simple_tlv u')) buffer p
      (int (length (snd (simple_tlv u')))) (MmsValue d u) = Some v \<and>
    mms_content v = mms_content (MmsValue d' u') \<and> mms_wf v"
proof (cases u')
  case (V_boolean b)
  with assms obtain b' where "u = V_boolean b'" by (cases u) auto
  with V_boolean assms(5) show ?thesis
    by (simp add: parseSimple_def simple_tlv_def BerDecoder_decodeBoolean_def found_at_simps
        MmsValue_setBoolean_def set_union_def)
next
  case (V_bitString n bits)
  with assms obtain bits' where u: "u = V_bitString n bits'" by (cases u) auto
  define k where "k = bits_to_bytes n * 8 - n"
  have k: "k < 256" "8 * int (bits_to_bytes n) - int k = int n"
    using bits_to_bytes_bound [of n] by (simp_all add: k_def)
  have "rd buffer p = Some (of_nat k)" "found_at buffer (p + 1) bits"
    using V_bitString assms(5) by (simp_all add: simple_tlv_def found_at_Cons k_def)
  with copy_octets_found [of buffer "p + 1" bits bits'] V_bitString u assms(3,4) k
  show ?thesis
    by (simp add: parseSimple_def simple_tlv_def uint_of_nat_byte set_union_def)
next
  case (V_integer a)
  with assms obtain a' where "u = V_integer a'" by (cases u) auto
  with V_integer assms copy_octets_found [OF assms(5)] show ?thesis
    by (simp add: parseSimple_def simple_tlv_def set_union_def apv_inv_def integer_content_def)
next
  case (V_unsigned a)
  with assms obtain a' where "u = V_unsigned a'" by (cases u) auto
  with V_unsigned assms copy_octets_found [OF assms(5)] show ?thesis
    by (simp add: parseSimple_def simple_tlv_def set_union_def apv_inv_def integer_content_def)
next
  case (V_floatingPoint e w f)
  with assms obtain e' f' where u: "u = V_floatingPoint e' w f'" by (cases u) auto
  have len: "length f' = length f" "w = 32 \<and> length f = 4 \<or> w = 64 \<and> length f = 8"
    using V_floatingPoint u assms(3,4) by auto
  have f: "found_at buffer (p + 1) (rev f)"
    using V_floatingPoint assms(5) by (simp add: simple_tlv_def found_at_Cons)
  from len(2) show ?thesis
    using V_floatingPoint u len(1) decodeReal_loop_found [OF f]
    by (auto simp: parseSimple_def simple_tlv_def BerDecoder_decodeFloat_def
        BerDecoder_decodeDouble_def setFloat_exact setDouble_exact)
next
  case (V_octetString n m octets)
  with assms obtain n' m' octets' where "u = V_octetString n' m' octets'" by (cases u) auto
  with V_octetString assms copy_octets_found [OF assms(5)] show ?thesis
    by (simp add: parseSimple_def simple_tlv_def set_union_def)
next
  case (V_visibleString s)
  with assms obtain t s' where "u = V_visibleString t" and s: "s = Some s'" "0 \<notin> set s'"
    by (cases u) (auto split: option.splits)
  moreover obtain post where "ptr_add buffer p = Some (s' @ post)"
    using found_at_ptr [OF assms(5)] by (auto simp: V_visibleString s simple_tlv_def)
  ultimately show ?thesis
    by (simp add: V_visibleString parseSimple_def simple_tlv_def set_union_def
        createStringFromBuffer_def rd_n_def takeWhile_string)
next
  case (V_binaryTime n t)
  with assms obtain t' where "u = V_binaryTime n t'" by (cases u) auto
  with V_binaryTime assms copy_octets_found [OF assms(5)] show ?thesis
    by (auto simp: parseSimple_def simple_tlv_def set_union_def)
next
  case (V_utcTime t)
  with assms obtain t' where "u = V_utcTime t'" by (cases u) auto
  moreover obtain post where "ptr_add buffer p = Some (t @ post)"
    using found_at_ptr [OF assms(5)] by (auto simp: V_utcTime simple_tlv_def)
  ultimately show ?thesis
    using assms(3,4) by (simp add: V_utcTime parseSimple_def simple_tlv_def set_union_def
        MmsValue_setUtcTimeByBuffer_def utc_time_def memcpy_def rd_n_def)
qed (use assms(1,2) in \<open>auto simp: simple_def\<close>)

lemma simple_tlv_inspected:
  assumes "receives (MmsValue d u) (MmsValue d' u')" and "simple u'" and "mms_wf (MmsValue d' u')"
  shows "inspected (fst (simple_tlv u')) (int (length (snd (simple_tlv u'))))"
    and "fst (simple_tlv u') \<noteq> 0xa1" and "fst (simple_tlv u') \<noteq> 0xa2"
  using assms by (cases u'; simp add: simple_def simple_tlv_def inspected_def)+

text \<open>The elements for a list of components.\<close>

lemma parseAllData_received:
  "receives v v' \<Longrightarrow> mms_wf v \<Longrightarrow> mms_wf v' \<Longrightarrow>
   (\<And>cs. mv_value v' = V_array cs \<or> mv_value v' = V_structure cs \<Longrightarrow>
     found_at buffer 0 (elements_bytes cs) \<Longrightarrow> length (elements_bytes cs) < 65536 \<Longrightarrow>
     \<exists>w. parseAllData widen narrow buffer (int (length (elements_bytes cs))) v = Some (1, w) \<and>
       mms_content w = mms_content v' \<and> mms_wf w)"
  "receives_all cs cs' \<Longrightarrow> all_components mms_wf cs \<Longrightarrow> all_components mms_wf cs' \<Longrightarrow>
   found_at buffer p (elements_bytes cs') \<Longrightarrow> stop = p + int (length (elements_bytes cs')) \<Longrightarrow>
   stop < 65536 \<Longrightarrow>
   \<exists>ws. parseAllData_loop widen narrow buffer stop p el cs = Some (1, ws) \<and>
     map (map_option mms_content) ws = map (map_option mms_content) cs' \<and> all_components mms_wf ws"
proof (induction v v' and cs cs' arbitrary: buffer and buffer p stop el
    rule: receives_receives_all.induct)
  case (1 d u d' u')
  show ?case
  proof (cases "simple u'")
    case True
    with 1(6) show ?thesis by (auto simp: simple_def)
  next
    case False
    then consider (array) cs' where "u' = V_array cs'" | (struct) cs' where "u' = V_structure cs'"
      by (cases u') (auto simp: simple_def)
    then show ?thesis
    proof cases
      case array
      with 1(3) obtain cs where u: "u = V_array cs" by (cases u) auto
      with 1(1) [OF array u, of buffer 0 _ 0] 1(3-) array show ?thesis
        by fastforce
    next
      case struct
      with 1(3) obtain cs where u: "u = V_structure cs" by (cases u) auto
      with 1(2) [OF struct u, of buffer 0 _ 0] 1(3-) struct show ?thesis
        by fastforce
    qed
  qed
next
  case (2 cs')
  then show ?case by simp
next
  case (3 c cs)
  then show ?case by simp
next
  case (4 c cs c' cs')
  obtain v v' where c: "c = Some v" "c' = Some v'"
    using 4(3) by (auto split: option.splits)
  then have v: "receives v v'" "mms_wf v" "mms_wf v'"
    and rest: "receives_all cs cs'" "all_components mms_wf cs" "all_components mms_wf cs'"
    using 4(3-5) by simp_all
  obtain d u d' u' where vu: "v = MmsValue d u" "v' = MmsValue d' u'" by (cases v, cases v') blast
  define t b where "t = fst (union_tlv u')" and "b = snd (union_tlv u')"
  have bytes: "access_bytes v' = tlv_bytes (t, b)"
    using access_bytes_union v vu by (simp add: t_def b_def)
  define q where "q = p + int (length (tl_bytes t (length b)))"
  have f: "found_at buffer p (tlv_bytes (t, b))"
    "found_at buffer (q + int (length b)) (elements_bytes cs')"
    and stop: "stop = q + int (length b) + int (length (elements_bytes cs'))"
    using 4(6,7) by (simp_all add: c bytes found_at_append length_tlv_bytes q_def add.assoc)
  have lim: "length b < 65536" "q \<le> stop" "p < stop"
    using stop 4(8) found_at_nonneg [OF f(1)] by (simp_all add: q_def tl_bytes_def)
  note el = tlv_element [OF f(1) lim(1), folded q_def, OF lim(2)]
  have add: "add_int q (int (length b)) = Some (q + int (length b))"
    using stop 4(8) el(4) by (simp add: q_def)
  obtain ws where ws: "parseAllData_loop widen narrow buffer stop (q + int (length b)) (int (length b)) cs = Some (1, ws)"
      "map (map_option mms_content) ws = map (map_option mms_content) cs'" "all_components mms_wf ws"
    using 4(2) [OF rest f(2) stop 4(8), of "int (length b)"] by blast
  show ?case
  proof (cases "simple u'")
    case True
    have tb: "simple_tlv u' = (t, b)" by (simp add: t_def b_def union_tlv_simple [OF True])
    obtain w where w: "parseSimple widen narrow t buffer q (int (length b)) v = Some w"
      "mms_content w = mms_content v'" "mms_wf w"
      using parseSimple_received [of d u d' u' buffer q] True v el(3) by (auto simp: vu tb)
    have "inspected t (int (length b))" "t \<noteq> 0xa1" "t \<noteq> 0xa2"
      using simple_tlv_inspected [of d u d' u'] True v by (simp_all add: vu tb)
    then show ?thesis
      using lim el(1,2) add ws w stop by (simp add: c)
  next
    case False
    then obtain cs'' where u': "t = 0xa1 \<and> u' = V_array cs'' \<or> t = 0xa2 \<and> u' = V_structure cs''"
      and b: "b = elements_bytes cs''"
      by (cases u') (auto simp: simple_def t_def b_def union_tlv_def)
    obtain post where sub: "ptr_add buffer q = Some (b @ post)" using found_at_ptr [OF el(3)] by blast
    obtain w where w: "parseAllData widen narrow (b @ post) (int (length b)) v = Some (1, w)"
      "mms_content w = mms_content v'" "mms_wf w"
      using 4(1) [OF c v, of cs'' "b @ post"] u' lim(1) b
      by (auto simp: found_at_start vu)
    have "MmsValue_getType v = (if t = 0xa1 then MMS_ARRAY else MMS_STRUCTURE)" "t = 0xa1 \<or> t = 0xa2"
      using u' v(1) by (cases u; auto simp: vu MmsValue_getType_def)+
    then show ?thesis
      using lim el(1,2) add ws w stop sub by (auto simp: c)
  qed
qed


section \<open>Messages\<close>

text \<open>What an element of a message does to the locals of \<open>parseGoosePayload\<close>.\<close>

definition goose_effect :: "byte \<times> byte list \<Rightarrow> GooseParse \<Rightarrow> GooseParse" where
  "goose_effect e s =
     (if fst e = 0x80 then s\<lparr>g_isMatching := True\<rparr>
      else if fst e = 0x81 then s\<lparr>g_timeAllowedToLive := of_nat (be_nat (snd e))\<rparr>
      else if fst e = 0x84 then
        s\<lparr>g_self := (g_self s)\<lparr>gs_timestamp := set_union (gs_timestamp (g_self s)) (V_utcTime (snd e))\<rparr>\<rparr>
      else if fst e = 0x85 then s\<lparr>g_stNum := of_nat (be_nat (snd e))\<rparr>
      else if fst e = 0x86 then s\<lparr>g_sqNum := of_nat (be_nat (snd e))\<rparr>
      else if fst e = 0x87 then s\<lparr>g_simulation := (hd (snd e) \<noteq> 0)\<rparr>
      else if fst e = 0x88 then s\<lparr>g_confRev := Some (of_nat (be_nat (snd e)))\<rparr>
      else if fst e = 0x89 then s\<lparr>g_ndsCom := (hd (snd e) \<noteq> 0)\<rparr>
      else s)"

definition goose_accepted :: "cstring \<Rightarrow> byte \<times> byte list \<Rightarrow> bool" where
  "goose_accepted ref e \<longleftrightarrow> fst e \<noteq> 0xab \<and> (fst e = 0x80 \<longrightarrow> snd e = ref) \<and>
     (fst e = 0x84 \<longrightarrow> length (snd e) = 8) \<and> (fst e \<in> {0x87, 0x89} \<longrightarrow> snd e \<noteq> [])"

text \<open>A subscriber for the control block \<open>ref\<close>.\<close>

definition subscribed :: "cstring \<Rightarrow> GooseSubscriber \<Rightarrow> bool" where
  "subscribed ref sub \<longleftrightarrow> gs_goCBRef sub = ref \<and> gs_goCBRefLen sub = int (length ref) \<and>
     mms_wf (gs_timestamp sub) \<and> MmsValue_getType (gs_timestamp sub) = MMS_UTC_TIME"

lemma subscribed_time:
  assumes "subscribed ref sub"
  obtains d t where "gs_timestamp sub = MmsValue d (V_utcTime t)" and "length t = 8"
proof -
  obtain d u where "gs_timestamp sub = MmsValue d u" by (cases "gs_timestamp sub")
  with assms that show thesis by (cases u) (auto simp: subscribed_def MmsValue_getType_def)
qed

lemma gooseElement_effect:
  assumes f: "found_at buffer p (tlv_bytes (t, c))" and len: "length c < 65536"
    and stop: "p + int (length (tlv_bytes (t, c))) \<le> stop" "stop \<le> INT_MAX"
    and acc: "goose_accepted ref (t, c)" and sub: "subscribed ref (g_self s)"
  shows "gooseElement widen narrow junk buffer stop s p =
    Some (Some (p + int (length (tlv_bytes (t, c)))), goose_effect (t, c) s)"
proof -
  define q where "q = p + int (length (tl_bytes t (length c)))"
  have q: "q \<le> stop" "p + int (length (tlv_bytes (t, c))) = q + int (length c)"
    using stop by (simp_all add: q_def length_tlv_bytes)
  note el = tlv_element [OF f len, folded q_def, OF q(1)]
  have "0 \<le> q" using el(4) by (simp add: q_def)
  then have add: "add_int q (int (length c)) = Some (q + int (length c))" using q stop by simp
  obtain post where post: "ptr_add buffer q = Some (c @ post)" using found_at_ptr [OF el(3)] by blast
  have bool: "BerDecoder_decodeBoolean buffer q = Some (hd c \<noteq> 0)" if "c \<noteq> []"
    using that el(3) by (cases c) (simp_all add: BerDecoder_decodeBoolean_def found_at_Cons)
  obtain d x where time: "gs_timestamp (g_self s) = MmsValue d (V_utcTime x)" "length x = 8"
    using subscribed_time [OF sub] .
  have utc: "MmsValue_setUtcTimeByBuffer (gs_timestamp (g_self s)) (c @ post) =
      Some (set_union (gs_timestamp (g_self s)) (V_utcTime c))" if "length c = 8"
    using that time by (simp add: MmsValue_setUtcTimeByBuffer_def utc_time_def memcpy_def rd_n_def)
  note uint = decodeUint32_found [OF el(3) refl]
  show ?thesis
    using acc sub q(2) stop(1) \<open>0 \<le> q\<close>
    by (simp add: gooseElement_def el(1,2) add goose_effect_def goose_accepted_def uint utc bool
        subscribed_def post rd_n_def)
qed

lemma goose_effect_subscribed:
  assumes "goose_accepted ref (t, c)" and "subscribed ref (g_self s)"
  shows "subscribed ref (g_self (goose_effect (t, c) s))"
  using assms
  by (auto simp: goose_effect_def goose_accepted_def subscribed_def set_union_def MmsValue_getType_def)

interpretation goose: tlv_fold "gooseElement widen narrow junk buffer stop" buffer stop goose_effect
  "goose_accepted ref" "\<lambda>s. subscribed ref (g_self s)"
  for widen narrow junk buffer stop ref
  by unfold_locales (simp_all add: gooseElement_effect goose_effect_subscribed)

text \<open>The elements of a message in front of the data set.\<close>

definition goose_elements :: "GoosePublisher \<Rightarrow> nat \<Rightarrow> (byte \<times> byte list) list" where
  "goose_elements self n =
     [(0x80, case gp_goCBRef self of None \<Rightarrow> [] | Some s \<Rightarrow> s),
      (0x81, uint32_bytes (gp_timeAllowedToLive self)),
      (0x82, case gp_dataSetRef self of None \<Rightarrow> [] | Some s \<Rightarrow> s)] @
     (case gp_goID self of None \<Rightarrow> [] | Some s \<Rightarrow> [(0x83, s)]) @
     [(0x84, case utc_time (gp_timestamp self) of None \<Rightarrow> [] | Some t \<Rightarrow> t),
      (0x85, uint32_bytes (gp_stNum self)),
      (0x86, uint32_bytes (gp_sqNum self)),
      (0x87, [if gp_simulation self then 0xff else 0]),
      (0x88, uint32_bytes (gp_confRev self)),
      (0x89, [if gp_needsCommission self then 0xff else 0]),
      (0x8a, uint32_bytes (of_nat n))]"

lemma string_bytes_tlv: "string_bytes t s = tlv_bytes (t, case s of None \<Rightarrow> [] | Some s \<Rightarrow> s)"
  by (cases s) (simp_all add: string_bytes_def tlv_bytes_def tl_bytes_small)

lemma goose_fields_elements:
  assumes "publisher_ok self"
  shows "goose_fields self ds =
    concat (map tlv_bytes (goose_elements self (length ds))) @ tlv_bytes (0xab, elements_bytes ds)"
proof -
  obtain t where "utc_time (gp_timestamp self) = Some t"
    using publisher_ok_time [OF assms] .
  moreover have "tlv_bytes (t, [b]) = [t, 1, b]" for t b by (simp add: tlv_bytes_def tl_bytes_small)
  ultimately show ?thesis
    by (cases "gp_goID self") (simp_all add: goose_fields_def goose_elements_def string_bytes_tlv)
qed

lemma goose_elements_fold:
  assumes "publisher_ok self"
  shows "fold goose_effect (goose_elements self n) s =
    s\<lparr>g_isMatching := True, g_timeAllowedToLive := gp_timeAllowedToLive self,
      g_self := (g_self s)\<lparr>gs_timestamp :=
        set_union (gs_timestamp (g_self s)) (mv_value (gp_timestamp self))\<rparr>,
      g_stNum := gp_stNum self, g_sqNum := gp_sqNum self, g_simulation := gp_simulation self,
      g_confRev := Some (gp_confRev self), g_ndsCom := gp_needsCommission self\<rparr>"
proof -
  obtain t where t: "utc_time (gp_timestamp self) = Some t"
    using publisher_ok_time [OF assms] .
  then have "mv_value (gp_timestamp self) = V_utcTime t"
    by (simp add: utc_time_def split: MmsUnion.splits)
  moreover have "of_nat (be_nat (uint32_bytes v)) = v" for v
    using uint32_bytes_spec(1) [of v] by simp
  ultimately show ?thesis
    using t by (cases "gp_goID self") (simp_all add: goose_elements_def goose_effect_def)
qed

text \<open>What the subscriber holds after a message of the publisher, apart from the values.\<close>

definition delivered :: "GoosePublisher \<Rightarrow> GooseSubscriber \<Rightarrow> bool" where
  "delivered self sub \<longleftrightarrow>
     GooseSubscriber_getStNum sub = gp_stNum self \<and> GooseSubscriber_getSqNum sub = gp_sqNum self \<and>
     GooseSubscriber_getTimeAllowedToLive sub = gp_timeAllowedToLive self \<and>
     gs_confRev sub = gp_confRev self \<and>
     GooseSubscriber_isTest sub = gp_simulation self \<and>
     GooseSubscriber_needsCommission sub = gp_needsCommission self \<and>
     GooseSubscriber_getTimestamp sub = MmsValue_getUtcTimeInMs (gp_timestamp self)"

lemma goose_elements_accepted:
  assumes "publisher_ok self" and "gp_goCBRef self = Some ref" and "e \<in> set (goose_elements self n)"
  shows "goose_accepted ref e"
    and "length (snd e) \<le> length (concat (map tlv_bytes (goose_elements self n)))"
proof -
  obtain t where "utc_time (gp_timestamp self) = Some t" "length t = 8"
    using publisher_ok_time [OF assms(1)] .
  with assms(2,3) show "goose_accepted ref e"
    by (cases "gp_goID self") (auto simp: goose_elements_def goose_accepted_def)
  obtain xs ys where "goose_elements self n = xs @ e # ys" using split_list [OF assms(3)] by blast
  then show "length (snd e) \<le> length (concat (map tlv_bytes (goose_elements self n)))"
    by (simp add: tlv_bytes_def)
qed

text \<open>The last element, the data set.\<close>

lemma gooseElement_dataSet:
  assumes f: "found_at buffer p (tlv_bytes (0xab, elements_bytes ds))"
    and len: "length (elements_bytes ds) < 65536"
    and stop: "stop = p + int (length (tlv_bytes (0xab, elements_bytes ds)))" "stop \<le> INT_MAX"
    and ds: "data_set_ok ds" and v: "gs_dataSetValues (g_self s) = Some v" "mms_wf v"
      "receives v (MmsValue 0 (V_array ds))"
  shows "\<exists>v'. gooseElement widen narrow junk buffer stop s p =
      Some (Some stop, s\<lparr>g_self := (g_self s)\<lparr>gs_dataSetValues := Some v'\<rparr>\<rparr>) \<and>
      mms_content v' = mms_content (MmsValue 0 (V_array ds))"
proof -
  let ?c = "elements_bytes ds"
  define q where "q = p + int (length (tl_bytes 0xab (length ?c)))"
  have q: "q \<le> stop" "stop = q + int (length ?c)"
    using stop by (simp_all add: q_def length_tlv_bytes)
  note el = tlv_element [OF f len, folded q_def, OF q(1)]
  have "0 \<le> q" using el(4) by (simp add: q_def)
  then have add: "add_int q (int (length ?c)) = Some stop" using q stop by simp
  obtain post where post: "ptr_add buffer q = Some (?c @ post)" using found_at_ptr [OF el(3)] by blast
  obtain v' where v': "parseAllData widen narrow (?c @ post) (int (length ?c)) v = Some (1, v')"
      "mms_content v' = mms_content (MmsValue 0 (V_array ds))"
    using parseAllData_received(1) [OF v(3,2), of ds "?c @ post"] ds len
    by (auto simp: data_set_ok_def found_at_start)
  have "gooseElement widen narrow junk buffer stop s p =
      Some (Some stop, s\<lparr>g_self := (g_self s)\<lparr>gs_dataSetValues := Some v'\<rparr>\<rparr>)"
    using q(1) \<open>0 \<le> q\<close>
    by (simp add: gooseElement_def el(1,2) add post parseDataSet_def v(1) v'(1))
  with v'(2) show ?thesis by blast
qed

lemma utc_time_set_union: "utc_time (set_union v (mv_value w)) = utc_time w"
  by (simp add: utc_time_def)

lemmas getters = GooseSubscriber_getStNum_def GooseSubscriber_getSqNum_def GooseSubscriber_isTest_def
  GooseSubscriber_needsCommission_def GooseSubscriber_getTimeAllowedToLive_def
  GooseSubscriber_getTimestamp_def

lemma goose_pdu_found:
  fixes rest :: "byte list"
  assumes "length (goose_fields self ds) < 65000"
  defines "q \<equiv> int (length (tl_bytes 0x61 (length (goose_fields self ds))))"
    and "b \<equiv> goose_pdu self ds @ rest"
  shows "rd b 0 = Some 0x61"
    and "BerDecoder_decodeLength b None 1 (int (length (goose_pdu self ds))) =
      Some (q, Some (int (length (goose_fields self ds))))"
    and "found_at b q (goose_fields self ds)"
proof -
  have "found_at b 0 (tlv_bytes (0x61, goose_fields self ds))"
    by (simp add: b_def found_at_start flip: goose_pdu_def)
  note pdu = tlv_element [OF this, of "int (length (goose_pdu self ds))", unfolded add_0 q_def [symmetric]]
  have "q \<le> int (length (goose_pdu self ds))"
    by (simp add: goose_pdu_def length_tlv_bytes q_def)
  then show "rd b 0 = Some 0x61"
    and "BerDecoder_decodeLength b None 1 (int (length (goose_pdu self ds))) =
      Some (q, Some (int (length (goose_fields self ds))))"
    and "found_at b q (goose_fields self ds)"
    using pdu assms(1) by simp_all
qed

lemma parseGoosePayload_delivered:
  assumes self: "publisher_ok self" and ds: "data_set_ok ds" and ref: "gp_goCBRef self = Some ref"
    and room: "length (goose_fields self ds) < 65000"
    and sub: "subscribed ref sub" "gs_dataSetValues sub = Some v" "mms_wf v"
      "receives v (MmsValue 0 (V_array ds))"
  shows "\<exists>sub' v'. parseGoosePayload widen narrow junk (goose_pdu self ds @ rest)
      (int (length (goose_pdu self ds))) sub = Some (1, sub') \<and> delivered self sub' \<and>
      gs_dataSetValues sub' = Some v' \<and> mms_content v' = mms_content (MmsValue 0 (V_array ds))"
proof -
  let ?b = "goose_pdu self ds @ rest" and ?stop = "int (length (goose_pdu self ds))"
    and ?es = "goose_elements self (length ds)" and ?c = "elements_bytes ds"
  define q where "q = int (length (tl_bytes 0x61 (length (goose_fields self ds))))"
  define q' where "q' = q + int (length (concat (map tlv_bytes ?es)))"
  define s where "s = fold goose_effect ?es (goose_locals sub)"
  have stop: "?stop = q + int (length (goose_fields self ds))" "?stop < 66000"
    using room by (auto simp: goose_pdu_def length_tlv_bytes q_def length_tl_bytes
        BerEncoder_determineLengthSize_def)
  note hd = goose_pdu_found [OF room, of rest, folded q_def]
  have fields: "length (goose_fields self ds) =
      length (concat (map tlv_bytes ?es)) + length (tlv_bytes (0xab, ?c))"
    by (simp add: goose_fields_elements [OF self])
  have f: "found_at ?b q (concat (map tlv_bytes ?es))" "found_at ?b q' (tlv_bytes (0xab, ?c))"
    using hd(3) by (simp_all add: goose_fields_elements [OF self] found_at_append q'_def)
  have small: "\<forall>e\<in>set ?es. length (snd e) < 65536 \<and> goose_accepted ref e"
    using goose_elements_accepted [OF self ref] fields room by fastforce
  have bounds: "q' + int (length (tlv_bytes (0xab, ?c))) = ?stop" "?stop \<le> INT_MAX"
      "q + int (length (concat (map tlv_bytes ?es))) \<le> ?stop"
    using stop fields by (simp_all add: q'_def)
  have sub0: "subscribed ref (g_self (goose_locals sub))" using sub(1) by (simp add: goose_locals_def)
  have loop: "tlv_loop (gooseElement widen narrow junk ?b ?stop) ?stop (goose_locals sub) q =
      tlv_loop (gooseElement widen narrow junk ?b ?stop) ?stop s q'"
    using goose.fold_run(1) [OF f(1) small bounds(3,2) sub0] by (simp add: s_def q'_def)
  have v: "gs_dataSetValues (g_self s) = Some v" using sub(2)
    by (simp add: s_def goose_elements_fold [OF self] goose_locals_def)
  have len: "length ?c < 65536"
    using fields room by (simp add: length_tlv_bytes)
  obtain v' where v': "gooseElement widen narrow junk ?b ?stop s q' =
      Some (Some ?stop, s\<lparr>g_self := (g_self s)\<lparr>gs_dataSetValues := Some v'\<rparr>\<rparr>)"
      "mms_content v' = mms_content (MmsValue 0 (V_array ds))"
    using gooseElement_dataSet [OF f(2) len bounds(1) [symmetric] bounds(2) ds v sub(3,4)] by blast
  have "q' < ?stop" using bounds(1) by (simp add: length_tlv_bytes tl_bytes_def)
  then have "tlv_loop (gooseElement widen narrow junk ?b ?stop) ?stop (goose_locals sub) q =
      Some (Some ?stop, s\<lparr>g_self := (g_self s)\<lparr>gs_dataSetValues := Some v'\<rparr>\<rparr>)"
    unfolding loop using v'(1) by (simp add: tlv_loop_step tlv_loop_done)
  moreover have "add_int q (int (length (goose_fields self ds))) = Some ?stop"
    using stop found_at_nonneg [OF f(1)] by simp
  ultimately have parse: "parseGoosePayload widen narrow junk ?b ?stop sub =
      finishGoose (s\<lparr>g_self := (g_self s)\<lparr>gs_dataSetValues := Some v'\<rparr>\<rparr>)"
    by (simp add: parseGoosePayload_def hd)
  show ?thesis
    unfolding parse using v'(2)
    by (simp add: finishGoose_def s_def goose_elements_fold [OF self] goose_locals_def delivered_def
        getters utc_time_set_union MmsValue_getUtcTimeInMs_def)
qed

text \<open>The frame header \<open>prepareGooseBuffer\<close> writes: VLAN tag, Ethertype and application id.\<close>

definition frame_ok :: "u16 \<Rightarrow> GoosePublisher \<Rightarrow> bool" where
  "frame_ok appId self \<longleftrightarrow> found_at (gp_buffer self) 12 [0x81, 0x00] \<and>
     found_at (gp_buffer self) 16 [0x88, 0xB8, ucast (appId div 256), ucast (appId mod 256)]"

lemma created_frame:
  assumes "length junk = GOOSE_MAX_MESSAGE_SIZE" and "length srcAddr = 6" and "length (cp_dstAddress p) = 6"
  shows "\<exists>self. GoosePublisher_create junk srcAddr t (Some p) = Some self \<and> publisher_ok self \<and>
    frame_ok (cp_appId p) self"
  using assms
  by (auto simp: GoosePublisher_create_def prepareGooseBuffer_def Let_def rd_n_def emits_Some
      MmsValue_newUtcTimeByMsTime_def setUtcTimeMs_octets GoosePublisher_reset_def
      publisher_ok_def GOOSE_MAX_MESSAGE_SIZE_def MmsValue_getType_def frame_ok_def found_at_def)

lemma rd_nat: "rd xs (numeral k) = (if numeral k < length xs then Some (xs ! numeral k) else None)"
  by (simp add: rd_def)

lemma be_word16: "uint (ucast (x div 256) :: byte) * 256 + uint (ucast (x mod 256) :: byte) = uint (x :: u16)"
proof -
  have "uint x < 65536" "0 \<le> uint x" using uint_lt2p [of x] by simp_all
  then have "uint x div 256 < 256" "uint x div 256 \<ge> 0" by (simp_all add: pos_imp_zdiv_nonneg_iff)
  then show ?thesis
    by (simp add: unsigned_ucast_eq uint_div uint_mod take_bit_eq_mod)
qed

lemma be_nat16: "n < 65536 \<Longrightarrow> uint (of_nat (n div 256) :: byte) * 256 + uint (of_nat n :: byte) = int n"
  by (simp add: unsigned_of_nat take_bit_eq_mod zmod_int zdiv_int)

lemma parseGooseMessage_frame:
  fixes appId :: u16
  assumes header: "length header = 26" "header ! 12 = 0x81" "header ! 13 = 0"
      "header ! 16 = 0x88" "header ! 17 = 0xb8"
      "header ! 18 = ucast (appId div 256)" "header ! 19 = ucast (appId mod 256)"
      "header ! 20 = of_nat ((length pdu + 8) div 256)" "header ! 21 = of_nat (length pdu + 8)"
    and len: "length pdu + 8 < 65536" and appId: "gs_appId sub < 0 \<or> gs_appId sub = uint appId"
  shows "parseGooseMessage widen narrow junk (header @ pdu @ rest) (26 + int (length pdu)) sub =
    parseGoosePayload widen narrow junk (pdu @ rest) (int (length pdu)) sub"
proof -
  have "uint appId < 65536" using uint_lt2p [of appId] by simp
  then have "uint appId mod 65536 = uint appId" by (intro mod_pos_pos_trivial) simp_all
  then have id: "gs_appId sub \<ge> 0 \<Longrightarrow> gs_appId sub mod 65536 = uint appId"
    using appId by auto
  have "ptr_add (header @ pdu @ rest) 26 = Some (pdu @ rest)"
    using header(1) by (simp add: ptr_add_def)
  moreover have "rd (header @ pdu @ rest) 12 = Some 0x81" "rd (header @ pdu @ rest) 13 = Some 0"
      "rd (header @ pdu @ rest) 16 = Some 0x88" "rd (header @ pdu @ rest) 17 = Some 0xb8"
      "rd (header @ pdu @ rest) 18 = Some (ucast (appId div 256))"
      "rd (header @ pdu @ rest) 19 = Some (ucast (appId mod 256))"
      "rd (header @ pdu @ rest) 20 = Some (of_nat ((length pdu + 8) div 256))"
      "rd (header @ pdu @ rest) 21 = Some (of_nat (length pdu + 8))"
    using header by (simp_all add: rd_nat nth_append)
  ultimately show ?thesis
    using be_word16 [of appId] be_nat16 [OF len] id appId
    by (auto simp: parseGooseMessage_def Let_def)
qed

lemma frame_header:
  fixes x y :: byte
  assumes "frame_ok appId self" and "publisher_ok self"
  defines "b \<equiv> (take 26 (gp_buffer self))[20 := x, 21 := y]"
  shows "length b = 26" "b ! 12 = 0x81" "b ! 13 = 0" "b ! 16 = 0x88" "b ! 17 = 0xb8"
      "b ! 18 = ucast (appId div 256)" "b ! 19 = ucast (appId mod 256)" "b ! 20 = x" "b ! 21 = y"
proof -
  have len: "length (gp_buffer self) = 1518"
    using assms(2) by (simp add: publisher_ok_def GOOSE_MAX_MESSAGE_SIZE_def)
  then show "length b = 26" "b ! 20 = x" "b ! 21 = y" by (simp_all add: b_def)
  show "b ! 12 = 0x81" "b ! 13 = 0" "b ! 16 = 0x88" "b ! 17 = 0xb8"
      "b ! 18 = ucast (appId div 256)" "b ! 19 = ucast (appId mod 256)"
    using assms(1) len by (simp_all add: b_def frame_ok_def found_at_simps rd_nat)
qed

lemma publish_framed:
  assumes "publisher_ok self" and "data_set_ok ds" and "frame_ok appId self"
    and "length (goose_fields self ds) \<le> 1488" and "gs_appId sub < 0 \<or> gs_appId sub = uint appId"
  shows "\<exists>packet self'. GoosePublisher_publish self ds = Some (0, Some packet, self') \<and> 0 < length packet \<and>
    parseGooseMessage widen narrow junk (packet @ rest) (int (length packet)) sub =
      parseGoosePayload widen narrow junk (goose_pdu self ds @ rest) (int (length (goose_pdu self ds))) sub"
proof -
  let ?pdu = "goose_pdu self ds"
  have len: "length ?pdu + 8 < 65536"
    using assms(4) by (auto simp: goose_pdu_def length_tlv_bytes length_tl_bytes
        BerEncoder_determineLengthSize_def)
  let ?h = "(take 26 (gp_buffer self))[20 := of_nat ((length ?pdu + 8) div 256), 21 := of_nat (length ?pdu + 8)]"
  obtain self' where publish: "GoosePublisher_publish self ds = Some (0, Some (?h @ ?pdu), self')"
    using publish_fits [OF assms(1,2,4)] by (auto simp: Let_def)
  note header = frame_header [OF assms(3,1)]
  have "parseGooseMessage widen narrow junk ((?h @ ?pdu) @ rest) (int (length (?h @ ?pdu))) sub =
      parseGoosePayload widen narrow junk (?pdu @ rest) (int (length ?pdu)) sub"
    using parseGooseMessage_frame [OF header len assms(5)] header(1) by simp
  moreover have "0 < length (?h @ ?pdu)" using header(1) by simp
  ultimately show ?thesis using publish by blast
qed

text \<open>C15: A GOOSE message reaches a subscriber: with a data set whose fields fit into the frame, the packet
  sent by \<open>GoosePublisher_publish\<close> makes the listener of a subscriber for the same control block (and
  for this or any application id) be called. The subscriber is one that was created with data set values
  of the shape that is published (\<open>receives\<close>: the same types at every position), not one
  created with \<open>NULL\<close>. It then sees the state and sequence number, the time
  allowed to live, the configuration revision, the flags and the timestamp of the publisher, and
  values whose content is that of the published data set at any depth of nesting. The
  receive buffer may hold anything behind the packet.\<close>

theorem goose_delivered:
  assumes "publisher_ok self" and "data_set_ok ds" and "frame_ok appId self"
    and "gp_goCBRef self = Some ref" and "length (goose_fields self ds) \<le> 1488"
    and "subscribed ref sub" and "gs_appId sub < 0 \<or> gs_appId sub = uint appId"
    and "gs_dataSetValues sub = Some v" and "mms_wf v" and "receives v (MmsValue 0 (V_array ds))"
  shows "\<exists>packet self' sub' v'.
    GoosePublisher_publish self ds = Some (0, Some packet, self') \<and>
    gooseSubscriberLoop widen narrow junk (packet @ rest) (int (length packet)) sub = Some (True, sub') \<and>
    delivered self sub' \<and> GooseSubscriber_getDataSetValues sub' = Some v' \<and>
    mms_content v' = mms_content (MmsValue 0 (V_array ds))"
proof -
  let ?pdu = "goose_pdu self ds"
  have "length (goose_fields self ds) < 65000" using assms(5) by simp
  then obtain sub' v' where parse: "parseGoosePayload widen narrow junk (?pdu @ rest) (int (length ?pdu)) sub =
        Some (1, sub')" and result: "delivered self sub'" "gs_dataSetValues sub' = Some v'"
      "mms_content v' = mms_content (MmsValue 0 (V_array ds))"
    using parseGoosePayload_delivered [OF assms(1,2,4) _ assms(6,8,9,10)] by blast
  obtain packet self' where "GoosePublisher_publish self ds = Some (0, Some packet, self')"
    and "parseGooseMessage widen narrow junk (packet @ rest) (int (length packet)) sub =
      parseGoosePayload widen narrow junk (?pdu @ rest) (int (length ?pdu)) sub" and "0 < length packet"
    using publish_framed [OF assms(1,2,3,5,7)] by blast
  with parse result show ?thesis
    by (auto simp: gooseSubscriberLoop_def GooseSubscriber_getDataSetValues_def)
qed

definition demo_subscriber :: GooseSubscriber where
  "demo_subscriber = GooseSubscriber_create [0x67]
     (Some (MmsValue 0 (V_array
       [Some (MmsValue_newBoolean False),
        Some (MmsValue 0 (V_structure
          [Some (MmsValue 0 (V_integer \<lparr>av_size = 4, av_maxSize = 4, av_octets = [0, 0, 0, 0]\<rparr>)),
           Some (MmsValue 0 (V_floatingPoint 8 32 [0, 0, 0, 0]))]))])))"

lemma demo_frame: "frame_ok 0x1000 demo_publisher"
  by (simp add: frame_ok_def demo_publisher_def found_at_def)

theorem goose_delivered_witness:
  "\<exists>packet self' sub' v'.
    GoosePublisher_publish demo_publisher demo_data_set = Some (0, Some packet, self') \<and>
    gooseSubscriberLoop (\<lambda>_. 0) (\<lambda>_. 0) 0 (packet @ [1, 2, 3]) (int (length packet))
      (GooseSubscriber_setAppId demo_subscriber 0x1000) = Some (True, sub') \<and>
    delivered demo_publisher sub' \<and> GooseSubscriber_getDataSetValues sub' = Some v' \<and>
    mms_content v' = mms_content (MmsValue 0 (V_array demo_data_set))"
proof (rule goose_delivered [OF demo_publisher_ok demo_frame, where ref = "[0x67]" and
      v = "the (gs_dataSetValues demo_subscriber)"])
  show "gp_goCBRef demo_publisher = Some [0x67]" by (simp add: demo_publisher_def)
  show "length (goose_fields demo_publisher demo_data_set) \<le> 1488" by code_simp
  show "subscribed [0x67] (GooseSubscriber_setAppId demo_subscriber 0x1000)"
    by (simp add: subscribed_def GooseSubscriber_setAppId_def demo_subscriber_def
        GooseSubscriber_create_def copyString_def MmsValue_newUtcTime_def MmsValue_getType_def)
  show "gs_appId (GooseSubscriber_setAppId demo_subscriber 0x1000) < 0 \<or>
      gs_appId (GooseSubscriber_setAppId demo_subscriber 0x1000) = uint (0x1000 :: u16)"
    by (simp add: GooseSubscriber_setAppId_def)
  show "gs_dataSetValues (GooseSubscriber_setAppId demo_subscriber 0x1000) =
      Some (the (gs_dataSetValues demo_subscriber))"
    "mms_wf (the (gs_dataSetValues demo_subscriber))"
    "receives (the (gs_dataSetValues demo_subscriber)) (MmsValue 0 (V_array demo_data_set))"
    by (simp_all add: GooseSubscriber_setAppId_def demo_subscriber_def GooseSubscriber_create_def
        MmsValue_newBoolean_def apv_inv_def demo_data_set_def)
qed

lemma gooseElement_other_block:
  assumes f: "found_at buffer p (tlv_bytes (0x80, ref))" and len: "length ref < 65536"
    and stop: "p + int (length (tlv_bytes (0x80, ref))) \<le> stop" "stop \<le> INT_MAX"
    and other: "gs_goCBRef (g_self s) \<noteq> ref" "gs_goCBRefLen (g_self s) = int (length (gs_goCBRef (g_self s)))"
  shows "gooseElement widen narrow junk buffer stop s p = Some (None, s\<lparr>g_result := 0\<rparr>)"
proof -
  define q where "q = p + int (length (tl_bytes 0x80 (length ref)))"
  have q: "q \<le> stop" "q + int (length ref) \<le> stop"
    using stop by (simp_all add: q_def length_tlv_bytes)
  note el = tlv_element [OF f len, folded q_def, OF q(1)]
  have "0 \<le> q" using el(4) by (simp add: q_def)
  then have add: "add_int q (int (length ref)) = Some (q + int (length ref))" using q stop by simp
  obtain post where "ptr_add buffer q = Some (ref @ post)" using found_at_ptr [OF el(3)] by blast
  then show ?thesis
    using q(2) other \<open>0 \<le> q\<close> by (auto simp: gooseElement_def el(1,2) add rd_n_def)
qed

lemma parseGoosePayload_other_block:
  assumes self: "publisher_ok self" and ref: "gp_goCBRef self = Some ref"
    and room: "length (goose_fields self ds) < 65000"
    and other: "gs_goCBRef sub \<noteq> ref" "gs_goCBRefLen sub = int (length (gs_goCBRef sub))"
  shows "parseGoosePayload widen narrow junk (goose_pdu self ds @ rest)
      (int (length (goose_pdu self ds))) sub = Some (0, sub)"
proof -
  let ?b = "goose_pdu self ds @ rest" and ?stop = "int (length (goose_pdu self ds))"
  define q where "q = int (length (tl_bytes 0x61 (length (goose_fields self ds))))"
  have stop: "?stop = q + int (length (goose_fields self ds))" "?stop < 66000"
    using room by (auto simp: goose_pdu_def length_tlv_bytes q_def length_tl_bytes
        BerEncoder_determineLengthSize_def)
  note pdu = goose_pdu_found [OF room, of rest, folded q_def]
  obtain fs where fs: "goose_fields self ds = tlv_bytes (0x80, ref) @ fs"
    by (simp add: goose_fields_def string_bytes_tlv ref)
  then have f: "found_at ?b q (tlv_bytes (0x80, ref))" "q + int (length (tlv_bytes (0x80, ref))) \<le> ?stop"
      "length ref < 65536"
    using pdu(3) stop room by (simp_all add: found_at_append length_tlv_bytes)
  have step: "gooseElement widen narrow junk ?b ?stop (goose_locals sub) q =
      Some (None, (goose_locals sub)\<lparr>g_result := 0\<rparr>)"
    using gooseElement_other_block [OF f(1,3,2)] stop(2) other by (simp add: goose_locals_def)
  have "q < ?stop" using f(2) by (simp add: length_tlv_bytes tl_bytes_def)
  then have "tlv_loop (gooseElement widen narrow junk ?b ?stop) ?stop (goose_locals sub) q =
      Some (None, (goose_locals sub)\<lparr>g_result := 0\<rparr>)"
    by (rule tlv_loop_error) (rule step)
  moreover have "add_int q (int (length (goose_fields self ds))) = Some ?stop"
    using stop found_at_nonneg [OF f(1)] by simp
  ultimately show ?thesis by (simp add: parseGoosePayload_def pdu goose_locals_def)
qed

text \<open>A message for another control block is ignored: the listener is not called and the subscriber is
  left as it was, values and timestamp included.\<close>

theorem goose_other_block_ignored:
  assumes "publisher_ok self" and "data_set_ok ds" and "frame_ok appId self"
    and "gp_goCBRef self = Some ref" and "length (goose_fields self ds) \<le> 1488"
    and "gs_goCBRef sub \<noteq> ref" and "gs_goCBRefLen sub = int (length (gs_goCBRef sub))"
    and "gs_appId sub < 0 \<or> gs_appId sub = uint appId"
  shows "\<exists>packet self'. GoosePublisher_publish self ds = Some (0, Some packet, self') \<and>
    gooseSubscriberLoop widen narrow junk (packet @ rest) (int (length packet)) sub = Some (False, sub)"
proof -
  let ?pdu = "goose_pdu self ds"
  have "length (goose_fields self ds) < 65000" using assms(5) by simp
  from parseGoosePayload_other_block [OF assms(1,4) this assms(6,7)]
  have parse: "parseGoosePayload widen narrow junk (?pdu @ rest) (int (length ?pdu)) sub = Some (0, sub)" .
  obtain packet self' where publish: "GoosePublisher_publish self ds = Some (0, Some packet, self')"
    and frame: "parseGooseMessage widen narrow junk (packet @ rest) (int (length packet)) sub =
      parseGoosePayload widen narrow junk (?pdu @ rest) (int (length ?pdu)) sub" and "0 < length packet"
    using publish_framed [OF assms(1,2,3,5,8)] by blast
  with parse show ?thesis by (auto simp: gooseSubscriberLoop_def)
qed

theorem goose_other_block_ignored_witness:
  "\<exists>packet self'. GoosePublisher_publish demo_publisher demo_data_set = Some (0, Some packet, self') \<and>
    gooseSubscriberLoop (\<lambda>_. 0) (\<lambda>_. 0) 0 (packet @ []) (int (length packet))
      (GooseSubscriber_create [0x68] None) = Some (False, GooseSubscriber_create [0x68] None)"
proof (rule goose_other_block_ignored [OF demo_publisher_ok demo_frame, where ref = "[0x67]"])
  show "length (goose_fields demo_publisher demo_data_set) \<le> 1488" by code_simp
qed (simp_all add: demo_publisher_def GooseSubscriber_create_def copyString_def)

text \<open>Without values given, the subscriber creates them from the message; an integer sent in fewer than
  four octets then keeps the four octets it was created with, so it comes out multiplied by a power
  of 256.\<close>

theorem goose_unknown_integer_scaled:
  defines "v \<equiv> MmsValue 0 (V_integer \<lparr>av_size = 4, av_maxSize = 4, av_octets = [5, 0, 0, 0]\<rparr>)"
  shows "parseAllDataUnknownValue 0 [0x85, 1, 5] 3 False = Some (Some (MmsValue 0 (V_array [Some v])), True)"
    and "MmsValue_toInt32 v = Some (5 * 2 ^ 24)"
  unfolding v_def by code_simp+

end
