(* ===== verification/Linked_List.thy ===== *)
theory Linked_List
  imports Main "HOL-Library.Monad_Syntax"
begin

text \<open>
  \<open>src/src/common/linked_list.c\<close>: singly linked lists with a header node, on an explicit heap. A
  heap maps addresses to nodes and knows a first address never used, which \<open>malloc\<close> takes; \<open>free\<close>
  takes a node out of the heap, so that every later access to it is undefined. A reference is
  \<open>None\<close> for \<open>NULL\<close>. \<open>None\<close> as result of an operation is an access outside the heap or, for
  the loops (\<open>partial_function\<close>), a list that never ends.
\<close>

record 'd Node =
  ll_data :: "'d option"
  ll_next :: "nat option"

record 'd Heap =
  hp_nodes :: "nat \<Rightarrow> 'd Node option"
  hp_fresh :: nat

definition hp_set :: "nat \<Rightarrow> 'd Node option \<Rightarrow> 'd Heap \<Rightarrow> 'd Heap" where
  "hp_set a n h = h\<lparr>hp_nodes := (hp_nodes h)(a := n)\<rparr>"

definition hp_free :: "nat \<Rightarrow> 'd Heap \<Rightarrow> 'd Heap option" where
  "hp_free a h = (case hp_nodes h a of None \<Rightarrow> None | Some _ \<Rightarrow> Some (hp_set a None h))"

section \<open>Operations\<close>

partial_function (option) LinkedList_getLastElement :: "'d Heap \<Rightarrow> nat \<Rightarrow> nat option" where
  "LinkedList_getLastElement h list = do {
     n \<leftarrow> hp_nodes h list;
     (case ll_next n of None \<Rightarrow> Some list | Some m \<Rightarrow> LinkedList_getLastElement h m)
   }"

definition LinkedList_create :: "'d Heap \<Rightarrow> 'd Heap \<times> nat" where
  "LinkedList_create h =
     (let a = hp_fresh h
      in (hp_set a (Some \<lparr>ll_data = None, ll_next = None\<rparr>) (h\<lparr>hp_fresh := Suc a\<rparr>), a))"

text \<open>The data handed to \<open>valueDeleteFunction\<close>, in order, and the heap without the nodes.\<close>

partial_function (option) destroyDeep_loop ::
  "'d Heap \<Rightarrow> nat \<Rightarrow> 'd list \<Rightarrow> ('d list \<times> 'd Heap) option" where
  "destroyDeep_loop h currentElement deleted = do {
     n \<leftarrow> hp_nodes h currentElement;
     h \<leftarrow> hp_free currentElement h;
     let deleted = deleted @ (case ll_data n of None \<Rightarrow> [] | Some d \<Rightarrow> [d]);
     (case ll_next n of None \<Rightarrow> Some (deleted, h) | Some m \<Rightarrow> destroyDeep_loop h m deleted)
   }"

definition LinkedList_destroyDeep :: "'d Heap \<Rightarrow> nat \<Rightarrow> ('d list \<times> 'd Heap) option" where
  "LinkedList_destroyDeep h list = destroyDeep_loop h list []"

definition LinkedList_destroy :: "'d Heap \<Rightarrow> nat \<Rightarrow> ('d list \<times> 'd Heap) option" where
  "LinkedList_destroy h list = LinkedList_destroyDeep h list"

partial_function (option) LinkedList_destroyStatic :: "'d Heap \<Rightarrow> nat \<Rightarrow> 'd Heap option" where
  "LinkedList_destroyStatic h currentElement = do {
     n \<leftarrow> hp_nodes h currentElement;
     h \<leftarrow> hp_free currentElement h;
     (case ll_next n of None \<Rightarrow> Some h | Some m \<Rightarrow> LinkedList_destroyStatic h m)
   }"

partial_function (option) size_loop :: "'d Heap \<Rightarrow> nat \<Rightarrow> nat \<Rightarrow> nat option" where
  "size_loop h nextElement n = do {
     e \<leftarrow> hp_nodes h nextElement;
     (case ll_next e of None \<Rightarrow> Some n | Some m \<Rightarrow> size_loop h m (n + 1))
   }"

definition LinkedList_size :: "'d Heap \<Rightarrow> nat \<Rightarrow> nat option" where
  "LinkedList_size h list = size_loop h list 0"

definition LinkedList_add :: "'d Heap \<Rightarrow> nat \<Rightarrow> 'd option \<Rightarrow> 'd Heap option" where
  "LinkedList_add h list data = do {
     let (h, newElement) = LinkedList_create h;
     n \<leftarrow> hp_nodes h newElement;
     let h = hp_set newElement (Some (n\<lparr>ll_data := data\<rparr>)) h;
     listEnd \<leftarrow> LinkedList_getLastElement h list;
     e \<leftarrow> hp_nodes h listEnd;
     Some (hp_set listEnd (Some (e\<lparr>ll_next := Some newElement\<rparr>)) h)
   }"

partial_function (option) remove_loop ::
  "'d Heap \<Rightarrow> nat \<Rightarrow> nat option \<Rightarrow> 'd option \<Rightarrow> (bool \<times> 'd Heap) option" where
  "remove_loop h lastElement currentElement data =
     (case currentElement of
        None \<Rightarrow> Some (False, h)
      | Some c \<Rightarrow> do {
          n \<leftarrow> hp_nodes h c;
          if ll_data n = data then do {
            l \<leftarrow> hp_nodes h lastElement;
            let h = hp_set lastElement (Some (l\<lparr>ll_next := ll_next n\<rparr>)) h;
            h \<leftarrow> hp_free c h;
            Some (True, h)
          }
          else remove_loop h c (ll_next n) data
        })"

definition LinkedList_remove :: "'d Heap \<Rightarrow> nat \<Rightarrow> 'd option \<Rightarrow> (bool \<times> 'd Heap) option" where
  "LinkedList_remove h list data = do {
     n \<leftarrow> hp_nodes h list;
     remove_loop h list (ll_next n) data
   }"

definition LinkedList_getNext :: "'d Heap \<Rightarrow> nat \<Rightarrow> nat option option" where
  "LinkedList_getNext h list = map_option ll_next (hp_nodes h list)"

definition LinkedList_insertAfter :: "'d Heap \<Rightarrow> nat \<Rightarrow> 'd option \<Rightarrow> ('d Heap \<times> nat) option" where
  "LinkedList_insertAfter h list data = do {
     originalNextElement \<leftarrow> LinkedList_getNext h list;
     let (h, newElement) = LinkedList_create h;
     let h = hp_set newElement (Some \<lparr>ll_data = data, ll_next = originalNextElement\<rparr>) h;
     n \<leftarrow> hp_nodes h list;
     Some (hp_set list (Some (n\<lparr>ll_next := Some newElement\<rparr>)) h, newElement)
   }"

text \<open>The loop runs \<open>index\<close> times; \<open>element\<close> may be \<open>NULL\<close> on entry, when the list is empty.\<close>

fun get_loop :: "'d Heap \<Rightarrow> nat option \<Rightarrow> nat \<Rightarrow> nat option option" where
  "get_loop h element 0 = Some element"
| "get_loop h element (Suc k) = do {
     e \<leftarrow> element;
     m \<leftarrow> LinkedList_getNext h e;
     (case m of None \<Rightarrow> Some None | Some m \<Rightarrow> get_loop h (Some m) k)
   }"

definition LinkedList_get :: "'d Heap \<Rightarrow> nat \<Rightarrow> int \<Rightarrow> nat option option" where
  "LinkedList_get h list index = do {
     element \<leftarrow> LinkedList_getNext h list;
     get_loop h element (nat index)
   }"

definition LinkedList_getData :: "'d Heap \<Rightarrow> nat \<Rightarrow> 'd option option" where
  "LinkedList_getData h self = map_option ll_data (hp_nodes h self)"


section \<open>Lists on the heap\<close>

text \<open>A segment of nodes with their addresses and data, from one reference to another.\<close>

fun lseg :: "'d Heap \<Rightarrow> nat option \<Rightarrow> (nat \<times> 'd option) list \<Rightarrow> nat option \<Rightarrow> bool" where
  "lseg h p [] q \<longleftrightarrow> p = q"
| "lseg h p ((a, d) # xs) q \<longleftrightarrow> p = Some a \<and>
     (\<exists>n. hp_nodes h a = Some \<lparr>ll_data = d, ll_next = n\<rparr> \<and> lseg h n xs q)"

abbreviation addresses :: "(nat \<times> 'd option) list \<Rightarrow> nat set" where
  "addresses xs \<equiv> fst ` set xs"

definition heap_ok :: "'d Heap \<Rightarrow> bool" where
  "heap_ok h \<longleftrightarrow> (\<forall>a \<ge> hp_fresh h. hp_nodes h a = None)"

text \<open>The list at \<open>l\<close> holds the nodes \<open>xs\<close> after its header.\<close>

definition list_at :: "'d Heap \<Rightarrow> nat \<Rightarrow> (nat \<times> 'd option) list \<Rightarrow> bool" where
  "list_at h l xs \<longleftrightarrow> heap_ok h \<and> lseg h (Some l) ((l, None) # xs) None \<and> distinct (l # map fst xs)"

definition holds_list :: "'d Heap \<Rightarrow> nat \<Rightarrow> 'd option list \<Rightarrow> bool" where
  "holds_list h l ds \<longleftrightarrow> (\<exists>xs. list_at h l xs \<and> map snd xs = ds)"

lemma hp_set_simps [simp]:
  "hp_nodes (hp_set a n h) = (hp_nodes h)(a := n)"
  "hp_fresh (hp_set a n h) = hp_fresh h"
  by (simp_all add: hp_set_def)

lemma hp_free_Some [simp]: "hp_nodes h a = Some n \<Longrightarrow> hp_free a h = Some (hp_set a None h)"
  by (simp add: hp_free_def)

lemma lseg_append:
  "lseg h p (xs @ ys) q \<longleftrightarrow> (\<exists>r. lseg h p xs r \<and> lseg h r ys q)"
  by (induction h p xs q rule: lseg.induct) auto

lemma lseg_cong:
  "(\<And>a. a \<in> addresses xs \<Longrightarrow> hp_nodes h' a = hp_nodes h a) \<Longrightarrow> lseg h' p xs q \<longleftrightarrow> lseg h p xs q"
  by (induction h p xs q rule: lseg.induct) auto

lemma lseg_set [simp]: "a \<notin> addresses xs \<Longrightarrow> lseg (hp_set a n h) p xs q \<longleftrightarrow> lseg h p xs q"
  by (rule lseg_cong) auto

lemma lseg_nodes: "lseg h p xs q \<Longrightarrow> (a, d) \<in> set xs \<Longrightarrow> \<exists>n. hp_nodes h a = Some \<lparr>ll_data = d, ll_next = n\<rparr>"
  by (induction h p xs q rule: lseg.induct) auto

lemma heap_ok_fresh: "heap_ok h \<Longrightarrow> lseg h p xs q \<Longrightarrow> hp_fresh h \<notin> addresses xs"
  using lseg_nodes by (fastforce simp: heap_ok_def)

lemma getLastElement_lseg:
  "lseg h (Some a) ((a, d) # xs) None \<Longrightarrow>
   LinkedList_getLastElement h a = Some (last (a # map fst xs))"
proof (induction xs arbitrary: a d)
  case Nil
  then show ?case by (subst LinkedList_getLastElement.simps) simp
next
  case (Cons x xs)
  then show ?case by (cases x; subst LinkedList_getLastElement.simps) auto
qed

lemma size_loop_lseg:
  "lseg h (Some a) ((a, d) # xs) None \<Longrightarrow> size_loop h a k = Some (k + length xs)"
proof (induction xs arbitrary: a d k)
  case Nil
  then show ?case by (subst size_loop.simps) simp
next
  case (Cons x xs)
  then show ?case by (cases x; subst size_loop.simps) auto
qed

lemma list_at_size: "list_at h l xs \<Longrightarrow> LinkedList_size h l = Some (length xs)"
  using size_loop_lseg [of h l None xs 0] by (simp add: list_at_def LinkedList_size_def)

lemma list_at_create:
  assumes "heap_ok h" and "LinkedList_create h = (h', l)"
  shows "list_at h' l []" and "hp_nodes h l = None"
  using assms by (auto simp: list_at_def LinkedList_create_def heap_ok_def Let_def)

lemma list_at_last:
  assumes "list_at h l xs"
  obtains ys e d where "(l, None) # xs = ys @ [(e, d)]" "lseg h (Some l) ys (Some e)"
    "hp_nodes h e = Some \<lparr>ll_data = d, ll_next = None\<rparr>" "e \<notin> addresses ys"
    "e = last (l # map fst xs)"
proof -
  obtain ys x where ys: "(l, None) # xs = ys @ [x]"
    by (metis list.distinct(1) rev_exhaust)
  obtain e d where x: "x = (e, d)" by (cases x)
  have map: "l # map fst xs = map fst ys @ [e]"
    using arg_cong [OF ys, of "map fst"] by (simp add: x)
  have dist: "e \<notin> addresses ys"
    using assms unfolding list_at_def map by (simp add: image_image)
  have "lseg h (Some l) (ys @ [(e, d)]) None"
    using assms unfolding list_at_def ys x by blast
  then have "lseg h (Some l) ys (Some e)" "hp_nodes h e = Some \<lparr>ll_data = d, ll_next = None\<rparr>"
    by (simp_all add: lseg_append)
  then show ?thesis
    using that [of ys e d] ys x dist map by (metis last_snoc)
qed

lemma list_at_add:
  assumes at: "list_at h l xs"
  defines "f \<equiv> hp_fresh h"
  shows "\<exists>h'. LinkedList_add h l data = Some h' \<and> list_at h' l (xs @ [(f, data)]) \<and>
    hp_nodes h f = None \<and>
    (\<forall>a. a \<notin> insert l (addresses xs) \<longrightarrow> a \<noteq> f \<longrightarrow> hp_nodes h' a = hp_nodes h a)"
proof -
  obtain ys e d where l: "(l, None) # xs = ys @ [(e, d)]" "lseg h (Some l) ys (Some e)"
      "hp_nodes h e = Some \<lparr>ll_data = d, ll_next = None\<rparr>" "e \<notin> addresses ys"
      "e = last (l # map fst xs)"
    using list_at_last [OF at] .
  let ?h = "hp_set f (Some \<lparr>ll_data = data, ll_next = None\<rparr>)
    (hp_set f (Some \<lparr>ll_data = None, ll_next = None\<rparr>) (h\<lparr>hp_fresh := Suc f\<rparr>))"
  let ?h' = "hp_set e (Some \<lparr>ll_data = d, ll_next = Some f\<rparr>) ?h"
  have seg: "lseg h (Some l) ((l, None) # xs) None" "heap_ok h" "distinct (l # map fst xs)"
    using at by (simp_all add: list_at_def)
  have f: "f \<notin> addresses ((l, None) # xs)"
    unfolding f_def by (rule heap_ok_fresh [OF seg(2,1)])
  have f_e: "f \<noteq> e" "f \<notin> addresses ys" using f unfolding l(1) by auto
  have old: "lseg (h\<lparr>hp_fresh := Suc f\<rparr>) p zs q \<longleftrightarrow> lseg h p zs q" for p zs q
    by (rule lseg_cong) simp
  have "lseg ?h (Some l) ((l, None) # xs) None"
    using seg(1) by (simp only: lseg_set [OF f] old)
  then have "LinkedList_getLastElement ?h l = Some e"
    using getLastElement_lseg [of ?h l None xs] l(5) by simp
  then have add: "LinkedList_add h l data = Some ?h'"
    using l(3) f_e(1)
    by (simp add: LinkedList_add_def LinkedList_create_def Let_def f_def)
  have "lseg ?h' (Some l) (ys @ [(e, d)] @ [(f, data)]) None"
    using l(2,4) f_e by (simp add: lseg_append old)
  then have "lseg ?h' (Some l) ((l, None) # xs @ [(f, data)]) None"
    using l(1) by (metis append.assoc append_Cons)
  moreover have "heap_ok ?h'"
    using seg(2) l(3) by (auto simp: heap_ok_def f_def)
  moreover have "distinct (l # map fst (xs @ [(f, data)]))"
    using seg(3) f by auto
  ultimately have "list_at ?h' l (xs @ [(f, data)])"
    by (simp add: list_at_def)
  moreover have "e \<in> insert l (addresses xs)"
    using arg_cong [OF l(1), of "\<lambda>z. fst ` set z"] by simp
  then have "\<forall>a. a \<notin> insert l (addresses xs) \<longrightarrow> a \<noteq> f \<longrightarrow> hp_nodes ?h' a = hp_nodes h a"
    by auto
  moreover have "hp_nodes h f = None"
    using seg(2) by (simp add: heap_ok_def f_def)
  ultimately show ?thesis using add by blast
qed

fun del_first :: "'d option \<Rightarrow> (nat \<times> 'd option) list \<Rightarrow> (nat \<times> 'd option) list" where
  "del_first d [] = []"
| "del_first d ((a, x) # xs) = (if x = d then xs else (a, x) # del_first d xs)"

lemma del_first_data: "map snd (del_first d xs) = remove1 d (map snd xs)"
  by (induction d xs rule: del_first.induct) auto

lemma del_first_subset: "set (del_first d xs) \<subseteq> set xs"
  by (induction d xs rule: del_first.induct) auto

lemma del_first_distinct: "distinct (map fst xs) \<Longrightarrow> distinct (map fst (del_first d xs))"
  by (induction d xs rule: del_first.induct) (use del_first_subset in \<open>fastforce+\<close>)

lemma remove_loop_lseg:
  assumes "lseg h (Some la) ((la, dl) # zs) None" and "distinct (la # map fst zs)"
    and "hp_nodes h la = Some \<lparr>ll_data = dl, ll_next = n\<rparr>"
  shows "\<exists>h'. remove_loop h la n data = Some (data \<in> snd ` set zs, h') \<and>
    lseg h' (Some la) ((la, dl) # del_first data zs) None \<and> hp_fresh h' = hp_fresh h \<and>
    (\<forall>a. a \<notin> insert la (addresses zs) \<longrightarrow> hp_nodes h' a = hp_nodes h a) \<and>
    (\<forall>a. hp_nodes h a = None \<longrightarrow> hp_nodes h' a = None)"
  using assms
proof (induction zs arbitrary: la dl n)
  case Nil
  then show ?case by (subst remove_loop.simps) auto
next
  case (Cons z zs)
  obtain a x where z: "z = (a, x)" by (cases z)
  obtain m where a: "n = Some a" "hp_nodes h a = Some \<lparr>ll_data = x, ll_next = m\<rparr>" "lseg h m zs None"
    using Cons.prems by (auto simp: z)
  have dist: "la \<noteq> a" "la \<notin> addresses zs" "a \<notin> addresses zs" "distinct (a # map fst zs)"
    using Cons.prems(2) by (auto simp: z image_image)
  show ?case
  proof (cases "x = data")
    case True
    let ?h = "hp_set a None (hp_set la (Some \<lparr>ll_data = dl, ll_next = m\<rparr>) h)"
    have "remove_loop h la n data = Some (True, ?h)"
      using a True dist(1) Cons.prems(3) by (subst remove_loop.simps) (simp add: Let_def)
    moreover have "lseg ?h (Some la) ((la, dl) # zs) None"
      using a(3) dist by simp
    ultimately show ?thesis
      using True Cons.prems(3) by (auto simp: z)
  next
    case False
    obtain h' where h': "remove_loop h a m data = Some (data \<in> snd ` set zs, h')"
        "lseg h' (Some a) ((a, x) # del_first data zs) None" "hp_fresh h' = hp_fresh h"
        "\<And>b. b \<notin> insert a (addresses zs) \<Longrightarrow> hp_nodes h' b = hp_nodes h b"
        "\<And>b. hp_nodes h b = None \<Longrightarrow> hp_nodes h' b = None"
      using Cons.IH [of a x m] a dist(4) by auto
    have "remove_loop h la n data = Some (data \<in> snd ` set (z # zs), h')"
      using a False h'(1) by (subst remove_loop.simps) (auto simp: z)
    moreover have "lseg h' (Some la) ((la, dl) # del_first data (z # zs)) None"
      using h'(2,4) dist Cons.prems(3) a(1) False by (auto simp: z)
    ultimately show ?thesis
      using h'(3-5) by (auto simp: z)
  qed
qed

lemma list_at_remove:
  assumes "list_at h l xs"
  shows "\<exists>h'. LinkedList_remove h l data = Some (data \<in> snd ` set xs, h') \<and>
    list_at h' l (del_first data xs) \<and>
    (\<forall>a. a \<notin> insert l (addresses xs) \<longrightarrow> hp_nodes h' a = hp_nodes h a)"
proof -
  have at: "lseg h (Some l) ((l, None) # xs) None" "heap_ok h" "distinct (l # map fst xs)"
    using assms by (simp_all add: list_at_def)
  then obtain n where n: "hp_nodes h l = Some \<lparr>ll_data = None, ll_next = n\<rparr>" by auto
  obtain h' where h': "remove_loop h l n data = Some (data \<in> snd ` set xs, h')"
      "lseg h' (Some l) ((l, None) # del_first data xs) None" "hp_fresh h' = hp_fresh h"
      "\<And>b. b \<notin> insert l (addresses xs) \<Longrightarrow> hp_nodes h' b = hp_nodes h b"
      "\<And>b. hp_nodes h b = None \<Longrightarrow> hp_nodes h' b = None"
    using remove_loop_lseg [OF at(1,3) n, of data] by blast
  have "l \<notin> addresses (del_first data xs)"
    using at(3) del_first_subset [of data xs] by (auto simp: image_image)
  then have "list_at h' l (del_first data xs)"
    using h'(2,3,5) at del_first_distinct [of xs data]
    by (auto simp: list_at_def heap_ok_def image_image)
  then show ?thesis
    using h'(1,4) n by (auto simp: LinkedList_remove_def)
qed

lemma get_loop_lseg:
  "lseg h p xs None \<Longrightarrow> xs \<noteq> [] \<or> k = 0 \<Longrightarrow>
   get_loop h p k = Some (if k < length xs then Some (fst (xs ! k)) else None)"
proof (induction xs arbitrary: p k)
  case Nil
  then show ?case by simp
next
  case (Cons x xs)
  obtain a d where x: "x = (a, d)" by (cases x)
  then obtain n where n: "p = Some a" "hp_nodes h a = Some \<lparr>ll_data = d, ll_next = n\<rparr>" "lseg h n xs None"
    using Cons.prems by auto
  show ?case
  proof (cases k)
    case 0
    then show ?thesis by (simp add: n x)
  next
    case (Suc j)
    have "n = None \<longleftrightarrow> xs = []" using n(3) by (cases xs) auto
    then show ?thesis
      using Cons.IH [OF n(3), of j] Suc n
      by (cases n) (auto simp: LinkedList_getNext_def)
  qed
qed

fun present :: "'d option list \<Rightarrow> 'd list" where
  "present [] = []"
| "present (d # ds) = (case d of None \<Rightarrow> [] | Some x \<Rightarrow> [x]) @ present ds"

lemma destroyDeep_lseg:
  assumes "lseg h (Some a) ((a, d) # xs) None" and "distinct (a # map fst xs)"
  shows "\<exists>h'. destroyDeep_loop h a acc = Some (acc @ present (d # map snd xs), h') \<and>
    hp_fresh h' = hp_fresh h \<and>
    (\<forall>b. hp_nodes h' b = (if b \<in> insert a (addresses xs) then None else hp_nodes h b))"
  using assms
proof (induction xs arbitrary: h a d acc)
  case Nil
  then show ?case
    by (subst destroyDeep_loop.simps) (auto simp: Let_def split: option.splits)
next
  case (Cons x xs)
  obtain b e where x: "x = (b, e)" by (cases x)
  let ?acc = "acc @ (case d of None \<Rightarrow> [] | Some d \<Rightarrow> [d])"
  have a: "hp_nodes h a = Some \<lparr>ll_data = d, ll_next = Some b\<rparr>"
      "lseg h (Some b) ((b, e) # xs) None" "a \<notin> addresses ((b, e) # xs)"
    using Cons.prems by (auto simp: x image_image)
  have "lseg (hp_set a None h) (Some b) ((b, e) # xs) None"
    using a(2) by (simp only: lseg_set [OF a(3)])
  then obtain h' where h': "destroyDeep_loop (hp_set a None h) b ?acc =
        Some (?acc @ present (e # map snd xs), h')" "hp_fresh h' = hp_fresh h"
      "\<And>c. hp_nodes h' c = (if c \<in> insert b (addresses xs) then None
        else hp_nodes (hp_set a None h) c)"
    using Cons.IH [of "hp_set a None h" b e ?acc] Cons.prems(2) by (auto simp: x)
  have "destroyDeep_loop h a acc = Some (?acc @ present (e # map snd xs), h')"
    using a(1) h'(1) by (subst destroyDeep_loop.simps) (simp add: Let_def)
  moreover have "?acc @ present (e # map snd xs) =
      acc @ present (d # map snd (x # xs))"
    by (simp add: x split: option.splits)
  ultimately show ?case
    using h'(2,3) by (auto simp: x)
qed


section \<open>Refinement of sequences\<close>

lemma holds_listI: "list_at h l xs \<Longrightarrow> holds_list h l (map snd xs)"
  by (auto simp: holds_list_def)

lemma holds_list_add:
  "holds_list h l ds \<Longrightarrow> \<exists>h'. LinkedList_add h l d = Some h' \<and> holds_list h' l (ds @ [d])"
  using list_at_add [of h l _ d] holds_listI by (fastforce simp: holds_list_def)

lemma holds_list_remove:
  "holds_list h l ds \<Longrightarrow>
   \<exists>h'. LinkedList_remove h l d = Some (d \<in> set ds, h') \<and> holds_list h' l (remove1 d ds)"
  using list_at_remove [of h l _ d] holds_listI by (fastforce simp: holds_list_def del_first_data)

lemma holds_list_size: "holds_list h l ds \<Longrightarrow> LinkedList_size h l = Some (length ds)"
  unfolding holds_list_def by (metis length_map list_at_size)

text \<open>An operation of a component, in its abstract and its concrete form: a simulation of single
  operations lifts to sequences. The operation may report a result.\<close>

fun run_ops :: "('op \<Rightarrow> 'c \<Rightarrow> ('r \<times> 'c) option) \<Rightarrow> 'op list \<Rightarrow> 'c \<Rightarrow> ('r list \<times> 'c) option" where
  "run_ops step [] c = Some ([], c)"
| "run_ops step (x # xs) c = do {
     (r, c) \<leftarrow> step x c;
     (rs, c) \<leftarrow> run_ops step xs c;
     Some (r # rs, c)
   }"

locale simulation =
  fixes rel :: "'c \<Rightarrow> 'a \<Rightarrow> bool"
    and step :: "'op \<Rightarrow> 'c \<Rightarrow> ('r \<times> 'c) option"
    and spec :: "'op \<Rightarrow> 'a \<Rightarrow> ('r \<times> 'a) option"
  assumes simulates: "rel c a \<Longrightarrow> spec x a = Some (r, a') \<Longrightarrow> \<exists>c'. step x c = Some (r, c') \<and> rel c' a'"
begin

lemma run_simulates:
  "rel c a \<Longrightarrow> run_ops spec xs a = Some (rs, a') \<Longrightarrow>
   \<exists>c'. run_ops step xs c = Some (rs, c') \<and> rel c' a'"
proof (induction xs arbitrary: c a rs)
  case Nil
  then show ?case by simp
next
  case (Cons x xs)
  then obtain r a1 rs1 where a: "spec x a = Some (r, a1)" "run_ops spec xs a1 = Some (rs1, a')"
      "rs = r # rs1"
    by (auto simp: bind_eq_Some_conv)
  obtain c1 where c1: "step x c = Some (r, c1)" "rel c1 a1"
    using simulates [OF Cons.prems(1) a(1)] by blast
  show ?case
    using Cons.IH [OF c1(2) a(2)] c1(1) a(3) by auto
qed

end

text \<open>The operations of a list of \<open>linked_list.c\<close> and of a sequence.\<close>

datatype 'd ListOp = Add "'d option" | Remove "'d option" | Length

definition list_step :: "nat \<Rightarrow> 'd ListOp \<Rightarrow> 'd Heap \<Rightarrow> (nat \<times> 'd Heap) option" where
  "list_step l x h =
     (case x of
        Add d \<Rightarrow> map_option (\<lambda>h'. (0, h')) (LinkedList_add h l d)
      | Remove d \<Rightarrow> map_option (\<lambda>(b, h'). (if b then 1 else 0, h')) (LinkedList_remove h l d)
      | Length \<Rightarrow> map_option (\<lambda>n. (n, h)) (LinkedList_size h l))"

definition list_spec :: "'d ListOp \<Rightarrow> 'd option list \<Rightarrow> (nat \<times> 'd option list) option" where
  "list_spec x ds = Some
     (case x of
        Add d \<Rightarrow> (0, ds @ [d])
      | Remove d \<Rightarrow> (if d \<in> set ds then 1 else 0, remove1 d ds)
      | Length \<Rightarrow> (length ds, ds))"

lemma list_step_simps [simp]:
  "list_step l (Add d) h = map_option (\<lambda>h'. (0, h')) (LinkedList_add h l d)"
  "list_step l (Remove d) h =
     map_option (\<lambda>(b, h'). (if b then 1 else 0, h')) (LinkedList_remove h l d)"
  "list_step l Length h = map_option (\<lambda>n. (n, h)) (LinkedList_size h l)"
  by (simp_all add: list_step_def)

lemma list_spec_simps [simp]:
  "list_spec (Add d) ds = Some (0, ds @ [d])"
  "list_spec (Remove d) ds = Some (if d \<in> set ds then 1 else 0, remove1 d ds)"
  "list_spec Length ds = Some (length ds, ds)"
  by (simp_all add: list_spec_def)

lemma list_step_simulates:
  assumes l: "holds_list h l ds" and s: "list_spec x ds = Some (r, ds')"
  shows "\<exists>h'. list_step l x h = Some (r, h') \<and> holds_list h' l ds'"
proof (cases x)
  case (Add d)
  obtain h' where "LinkedList_add h l d = Some h'" "holds_list h' l (ds @ [d])"
    using holds_list_add [OF l] by blast
  then show ?thesis using s Add by simp
next
  case (Remove d)
  obtain h' where "LinkedList_remove h l d = Some (d \<in> set ds, h')" "holds_list h' l (remove1 d ds)"
    using holds_list_remove [OF l] by blast
  then show ?thesis using s Remove by simp
next
  case Length
  then show ?thesis using s l holds_list_size [OF l] by auto
qed

interpretation linked_list: simulation "\<lambda>h. holds_list h l" "list_step l" list_spec for l
  by unfold_locales (rule list_step_simulates)

lemma list_spec_total: "\<exists>rs ds'. run_ops list_spec xs ds = Some (rs, ds')"
proof (induction xs arbitrary: ds)
  case (Cons x xs)
  obtain r ds1 where "list_spec x ds = Some (r, ds1)"
    by (cases x) simp_all
  then show ?case using Cons [of ds1] by auto
qed simp

text \<open>C26: A linked list refines a sequence: from a new list, any series of insertions, removals and
  size queries returns, without touching memory it does not own, with the results a sequence
  gives, and leaves the list holding the sequence.\<close>

theorem linked_list_refines_sequence:
  assumes "heap_ok h"
  shows "\<exists>rs ds h'. run_ops list_spec xs [] = Some (rs, ds) \<and>
    run_ops (list_step (snd (LinkedList_create h))) xs (fst (LinkedList_create h)) = Some (rs, h') \<and>
    holds_list h' (snd (LinkedList_create h)) ds"
proof -
  obtain h1 l where c: "LinkedList_create h = (h1, l)" by fastforce
  obtain rs ds where s: "run_ops list_spec xs [] = Some (rs, ds)"
    using list_spec_total by blast
  have "holds_list h1 l []"
    using holds_listI [OF list_at_create(1) [OF assms c]] by simp
  from linked_list.run_simulates [OF this s] show ?thesis
    using s c by auto
qed

definition demo_heap :: "'d Heap" where
  "demo_heap = \<lparr>hp_nodes = \<lambda>_. None, hp_fresh = 16\<rparr>"

theorem linked_list_refines_sequence_witness:
  "\<exists>rs ds h'. run_ops list_spec [Add (Some 7), Add (Some 8), Remove (Some 7), Length] [] =
      Some (rs, ds) \<and>
    run_ops (list_step (snd (LinkedList_create (demo_heap :: nat Heap))))
      [Add (Some 7), Add (Some 8), Remove (Some 7), Length]
      (fst (LinkedList_create (demo_heap :: nat Heap))) = Some (rs, h') \<and>
    holds_list h' (snd (LinkedList_create (demo_heap :: nat Heap))) (ds :: nat option list)"
  by (rule linked_list_refines_sequence) (simp add: heap_ok_def demo_heap_def)

text \<open>\<open>LinkedList_get\<close> returns the element at its index, and \<open>NULL\<close> past the end of a list that
  has elements. On an empty list every index but 0 makes it dereference \<open>NULL\<close>.\<close>

theorem linked_list_get:
  assumes "holds_list h l ds" and "0 \<le> i"
  shows "if ds = [] \<and> 0 < i then LinkedList_get h l i = None
    else if nat i < length ds
      then \<exists>e. LinkedList_get h l i = Some (Some e) \<and> LinkedList_getData h e = Some (ds ! nat i)
      else LinkedList_get h l i = Some None"
proof -
  obtain xs where xs: "list_at h l xs" "map snd xs = ds"
    using assms(1) by (auto simp: holds_list_def)
  then obtain n where n: "LinkedList_getNext h l = Some n" "lseg h n xs None"
    by (auto simp: list_at_def LinkedList_getNext_def)
  show ?thesis
  proof (cases "ds = [] \<and> 0 < i")
    case True
    then have "n = None" using n(2) xs(2) by simp
    moreover obtain k where "nat i = Suc k" using True gr0_conv_Suc by (metis zero_less_nat_eq)
    ultimately show ?thesis using True n(1) by (simp add: LinkedList_get_def)
  next
    case False
    then have get: "LinkedList_get h l i =
        Some (if nat i < length xs then Some (fst (xs ! nat i)) else None)"
      using get_loop_lseg [OF n(2), of "nat i"] n(1) xs(2) assms(2) by (auto simp: LinkedList_get_def)
    have "LinkedList_getData h (fst (xs ! nat i)) = Some (ds ! nat i)" if i: "nat i < length xs"
    proof -
      have "(fst (xs ! nat i), ds ! nat i) \<in> set xs"
        using i nth_mem [OF i] by (simp add: xs(2) [symmetric])
      from lseg_nodes [OF n(2) this] show ?thesis by (auto simp: LinkedList_getData_def)
    qed
    with get False xs(2) show ?thesis by auto
  qed
qed

lemma demo_list:
  "holds_list (fst (LinkedList_create (demo_heap :: nat Heap))) 16 []"
  using list_at_create(1) [of "demo_heap :: nat Heap"] holds_listI
  by (fastforce simp: heap_ok_def demo_heap_def LinkedList_create_def Let_def)

theorem linked_list_get_witness:
  "LinkedList_get (fst (LinkedList_create (demo_heap :: nat Heap))) 16 1 = None"
  using linked_list_get [OF demo_list, of 1] by simp

end
