(* ===== verification/Pointer_Map.thy ===== *)
theory Pointer_Map
  imports Linked_List "HOL-Library.Word"
begin

text \<open>
  \<open>src/src/common/map.c\<close> and \<open>string_map.c\<close>: maps as linked lists of key/value entries with a
  comparison function chosen by the creator. An entry belongs to its list node, so the node's data
  is the entry itself. Values are pointers, \<open>None\<close> for \<open>NULL\<close>. Where the C code releases keys or
  values, the operation also returns what it released.
\<close>

record ('k, 'v) MapEntry =
  me_key :: 'k
  me_value :: "'v option"

record 'k sMap =
  map_entries :: nat
  compareKeys :: "'k \<Rightarrow> 'k \<Rightarrow> int"

type_synonym ('k, 'v) map_heap = "('k, 'v) MapEntry Heap"

definition comparePointerKeys :: "'k \<Rightarrow> 'k \<Rightarrow> int" where
  "comparePointerKeys key1 key2 = (if key2 = key1 then 0 else - 1)"

definition Map_create :: "('k, 'v) map_heap \<Rightarrow> ('k, 'v) map_heap \<times> 'k sMap" where
  "Map_create h =
     (let (h, l) = LinkedList_create h
      in (h, \<lparr>map_entries = l, compareKeys = comparePointerKeys\<rparr>))"

text \<open>\<open>strcmp\<close>: the difference of the first characters that differ, the terminating 0 included.\<close>

fun strcmp :: "8 word list \<Rightarrow> 8 word list \<Rightarrow> int" where
  "strcmp [] [] = 0"
| "strcmp [] (c # cs) = - uint c"
| "strcmp (c # cs) [] = uint c"
| "strcmp (c # cs) (d # ds) = (if c = d then strcmp cs ds else uint c - uint d)"

definition StringMap_create ::
  "(8 word list, 'v) map_heap \<Rightarrow> (8 word list, 'v) map_heap \<times> 8 word list sMap" where
  "StringMap_create h = (let (h, m) = Map_create h in (h, m\<lparr>compareKeys := strcmp\<rparr>))"

definition Map_size :: "('k, 'v) map_heap \<Rightarrow> 'k sMap \<Rightarrow> nat option" where
  "Map_size h m = LinkedList_size h (map_entries m)"

definition Map_addEntry ::
  "('k, 'v) map_heap \<Rightarrow> 'k sMap \<Rightarrow> 'k \<Rightarrow> 'v option \<Rightarrow> ('k \<times> ('k, 'v) map_heap) option" where
  "Map_addEntry h m key val = do {
     h \<leftarrow> LinkedList_add h (map_entries m) (Some \<lparr>me_key = key, me_value = val\<rparr>);
     Some (key, h)
   }"

partial_function (option) removeEntry_loop ::
  "('k, 'v) map_heap \<Rightarrow> 'k sMap \<Rightarrow> nat \<Rightarrow> nat \<Rightarrow> 'k \<Rightarrow> bool \<Rightarrow>
   ('v option \<times> 'k list \<times> ('k, 'v) map_heap) option" where
  "removeEntry_loop h m lastElement element key deleteKey = do {
     nx \<leftarrow> LinkedList_getNext h element;
     (case nx of
        None \<Rightarrow> Some (None, [], h)
      | Some element \<Rightarrow> do {
          d \<leftarrow> LinkedList_getData h element;
          entry \<leftarrow> d;
          if compareKeys m key (me_key entry) = 0 then do {
            l \<leftarrow> hp_nodes h lastElement;
            n \<leftarrow> LinkedList_getNext h element;
            let h = hp_set lastElement (Some (l\<lparr>ll_next := n\<rparr>)) h;
            h \<leftarrow> hp_free element h;
            Some (me_value entry, if deleteKey then [me_key entry] else [], h)
          }
          else removeEntry_loop h m element element key deleteKey
        })
   }"

definition Map_removeEntry ::
  "('k, 'v) map_heap \<Rightarrow> 'k sMap \<Rightarrow> 'k \<Rightarrow> bool \<Rightarrow>
   ('v option \<times> 'k list \<times> ('k, 'v) map_heap) option" where
  "Map_removeEntry h m key deleteKey =
     removeEntry_loop h m (map_entries m) (map_entries m) key deleteKey"

partial_function (option) getEntry_loop ::
  "('k, 'v) map_heap \<Rightarrow> 'k sMap \<Rightarrow> nat \<Rightarrow> 'k \<Rightarrow> 'v option option" where
  "getEntry_loop h m element key = do {
     nx \<leftarrow> LinkedList_getNext h element;
     (case nx of
        None \<Rightarrow> Some None
      | Some element \<Rightarrow> do {
          d \<leftarrow> LinkedList_getData h element;
          entry \<leftarrow> d;
          if compareKeys m key (me_key entry) = 0 then Some (me_value entry)
          else getEntry_loop h m element key
        })
   }"

definition Map_getEntry :: "('k, 'v) map_heap \<Rightarrow> 'k sMap \<Rightarrow> 'k \<Rightarrow> 'v option option" where
  "Map_getEntry h m key = getEntry_loop h m (map_entries m) key"

text \<open>The traversal of the three delete functions: the entries in order.\<close>

partial_function (option) entries_loop ::
  "('k, 'v) map_heap \<Rightarrow> nat \<Rightarrow> ('k, 'v) MapEntry list \<Rightarrow> ('k, 'v) MapEntry list option" where
  "entries_loop h element acc = do {
     nx \<leftarrow> LinkedList_getNext h element;
     (case nx of
        None \<Rightarrow> Some acc
      | Some element \<Rightarrow> do {
          d \<leftarrow> LinkedList_getData h element;
          entry \<leftarrow> d;
          entries_loop h element (acc @ [entry])
        })
   }"

text \<open>The result: the keys released, the values released (or handed to the delete function), the
  entries released with the list, the heap.\<close>

definition Map_delete ::
  "('k, 'v) map_heap \<Rightarrow> 'k sMap \<Rightarrow> bool \<Rightarrow>
   ('k list \<times> 'v option list \<times> ('k, 'v) MapEntry list \<times> ('k, 'v) map_heap) option" where
  "Map_delete h m deleteKey = do {
     es \<leftarrow> entries_loop h (map_entries m) [];
     (freed, h) \<leftarrow> LinkedList_destroy h (map_entries m);
     Some (if deleteKey then map me_key es else [], map me_value es, freed, h)
   }"

definition Map_deleteStatic ::
  "('k, 'v) map_heap \<Rightarrow> 'k sMap \<Rightarrow> bool \<Rightarrow>
   ('k list \<times> 'v option list \<times> ('k, 'v) MapEntry list \<times> ('k, 'v) map_heap) option" where
  "Map_deleteStatic h m deleteKey = do {
     es \<leftarrow> (if deleteKey then entries_loop h (map_entries m) [] else Some []);
     (freed, h) \<leftarrow> LinkedList_destroy h (map_entries m);
     Some (map me_key es, [], freed, h)
   }"

definition Map_deleteDeep ::
  "('k, 'v) map_heap \<Rightarrow> 'k sMap \<Rightarrow> bool \<Rightarrow>
   ('k list \<times> 'v option list \<times> ('k, 'v) MapEntry list \<times> ('k, 'v) map_heap) option" where
  "Map_deleteDeep h m deleteKey = do {
     es \<leftarrow> entries_loop h (map_entries m) [];
     (freed, h) \<leftarrow> LinkedList_destroy h (map_entries m);
     Some (if deleteKey then map me_key es else [], map me_value es, freed, h)
   }"


section \<open>Entries on the heap\<close>

definition holds_map :: "('k, 'v) map_heap \<Rightarrow> 'k sMap \<Rightarrow> ('k, 'v) MapEntry list \<Rightarrow> bool" where
  "holds_map h m es \<longleftrightarrow> holds_list h (map_entries m) (map Some es)"

definition key_matches :: "'k sMap \<Rightarrow> 'k \<Rightarrow> ('k, 'v) MapEntry \<Rightarrow> bool" where
  "key_matches m key e \<longleftrightarrow> compareKeys m key (me_key e) = 0"

fun del_match :: "('e \<Rightarrow> bool) \<Rightarrow> 'e list \<Rightarrow> 'e list" where
  "del_match P [] = []"
| "del_match P (e # es) = (if P e then es else e # del_match P es)"

definition first_value :: "'k sMap \<Rightarrow> 'k \<Rightarrow> ('k, 'v) MapEntry list \<Rightarrow> 'v option" where
  "first_value m key es = (case find (key_matches m key) es of Some e \<Rightarrow> me_value e | None \<Rightarrow> None)"

lemma getEntry_loop_lseg:
  "lseg h (Some a) ((a, d) # xs) None \<Longrightarrow> map snd xs = map Some es \<Longrightarrow>
   getEntry_loop h m a key = Some (first_value m key es)"
proof (induction xs arbitrary: a d es)
  case Nil
  then show ?case
    by (subst getEntry_loop.simps) (auto simp: LinkedList_getNext_def first_value_def)
next
  case (Cons x xs)
  obtain b e es' where x: "x = (b, Some e)" "es = e # es'"
    using Cons.prems(2) by (cases x; cases es) auto
  have a: "LinkedList_getNext h a = Some (Some b)" "LinkedList_getData h b = Some (Some e)"
      "lseg h (Some b) ((b, Some e) # xs) None"
    using Cons.prems(1) by (auto simp: x LinkedList_getNext_def LinkedList_getData_def)
  show ?case
    using Cons.IH [OF a(3), of es'] Cons.prems(2) a(1,2)
    by (subst getEntry_loop.simps) (auto simp: x first_value_def key_matches_def)
qed

lemma entries_loop_lseg:
  "lseg h (Some a) ((a, d) # xs) None \<Longrightarrow> map snd xs = map Some es \<Longrightarrow>
   entries_loop h a acc = Some (acc @ es)"
proof (induction xs arbitrary: a d es acc)
  case Nil
  then show ?case by (subst entries_loop.simps) (auto simp: LinkedList_getNext_def)
next
  case (Cons x xs)
  obtain b e es' where x: "x = (b, Some e)" "es = e # es'"
    using Cons.prems(2) by (cases x; cases es) auto
  have a: "LinkedList_getNext h a = Some (Some b)" "LinkedList_getData h b = Some (Some e)"
      "lseg h (Some b) ((b, Some e) # xs) None"
    using Cons.prems(1) by (auto simp: x LinkedList_getNext_def LinkedList_getData_def)
  show ?case
    using Cons.IH [OF a(3), of es'] Cons.prems(2) a(1,2)
    by (subst entries_loop.simps) (auto simp: x)
qed

lemma removeEntry_loop_lseg:
  assumes "lseg h (Some la) ((la, dl) # zs) None" and "distinct (la # map fst zs)"
    and "map snd zs = map Some es"
  shows "\<exists>h' zs'. removeEntry_loop h m la la key deleteKey =
      Some (first_value m key es,
        (case find (key_matches m key) es of Some e \<Rightarrow> if deleteKey then [me_key e] else [] | None \<Rightarrow> []),
        h') \<and>
    lseg h' (Some la) ((la, dl) # zs') None \<and> map snd zs' = map Some (del_match (key_matches m key) es) \<and>
    set zs' \<subseteq> set zs \<and> distinct (map fst zs') \<and> hp_fresh h' = hp_fresh h \<and>
    (\<forall>a. a \<notin> insert la (addresses zs) \<longrightarrow> hp_nodes h' a = hp_nodes h a) \<and>
    (\<forall>a. hp_nodes h a = None \<longrightarrow> hp_nodes h' a = None)"
  using assms
proof (induction zs arbitrary: la dl es)
  case Nil
  then show ?case
    by (subst removeEntry_loop.simps)
      (auto simp: LinkedList_getNext_def first_value_def intro!: exI [of _ "[]"])
next
  case (Cons z zs)
  obtain a e es' where z: "z = (a, Some e)" "es = e # es'"
    using Cons.prems(3) by (cases z; cases es) auto
  obtain n where la: "hp_nodes h la = Some \<lparr>ll_data = dl, ll_next = Some a\<rparr>"
      "hp_nodes h a = Some \<lparr>ll_data = Some e, ll_next = n\<rparr>" "lseg h n zs None"
    using Cons.prems(1) by (auto simp: z)
  have dist: "la \<noteq> a" "la \<notin> addresses zs" "a \<notin> addresses zs" "distinct (a # map fst zs)"
    using Cons.prems(2) by (auto simp: z image_image)
  have acc: "LinkedList_getNext h la = Some (Some a)" "LinkedList_getData h a = Some (Some e)"
      "LinkedList_getNext h a = Some n"
    using la by (simp_all add: LinkedList_getNext_def LinkedList_getData_def)
  show ?case
  proof (cases "key_matches m key e")
    case True
    let ?h = "hp_set a None (hp_set la (Some \<lparr>ll_data = dl, ll_next = n\<rparr>) h)"
    have "removeEntry_loop h m la la key deleteKey =
        Some (me_value e, if deleteKey then [me_key e] else [], ?h)"
      using True dist(1) la acc by (subst removeEntry_loop.simps) (simp add: key_matches_def Let_def)
    moreover have "lseg ?h (Some la) ((la, dl) # zs) None"
      using la(3) dist by simp
    ultimately show ?thesis
      using True la Cons.prems(3) dist(4)
      by (intro exI [of _ ?h] exI [of _ zs]) (auto simp: z first_value_def)
  next
    case False
    have "map snd zs = map Some es'" using Cons.prems(3) by (simp add: z)
    then obtain h' zs' where h': "removeEntry_loop h m a a key deleteKey =
          Some (first_value m key es', (case find (key_matches m key) es' of
            Some e \<Rightarrow> if deleteKey then [me_key e] else [] | None \<Rightarrow> []), h')"
        "lseg h' (Some a) ((a, Some e) # zs') None"
        "map snd zs' = map Some (del_match (key_matches m key) es')" "set zs' \<subseteq> set zs"
        "distinct (map fst zs')" "hp_fresh h' = hp_fresh h"
        "\<And>b. b \<notin> insert a (addresses zs) \<Longrightarrow> hp_nodes h' b = hp_nodes h b"
        "\<And>b. hp_nodes h b = None \<Longrightarrow> hp_nodes h' b = None"
      using Cons.IH [of a "Some e" es'] la dist(4) by auto
    have "removeEntry_loop h m la la key deleteKey = removeEntry_loop h m a a key deleteKey"
      using False acc by (subst removeEntry_loop.simps) (simp add: key_matches_def)
    moreover have "lseg h' (Some la) ((la, dl) # (a, Some e) # zs') None"
      using h'(2,7) dist(1,2) la(1) by auto
    moreover have "distinct (map fst ((a, Some e) # zs'))"
      using h'(4,5) dist(3) by (auto simp: image_image)
    ultimately show ?thesis
      using False h' by (intro exI [of _ h'] exI [of _ "(a, Some e) # zs'"]) (auto simp: z first_value_def)
  qed
qed

lemma holds_map_remove:
  assumes "holds_map h m es"
  shows "\<exists>h'. Map_removeEntry h m key deleteKey =
      Some (first_value m key es,
        (case find (key_matches m key) es of Some e \<Rightarrow> if deleteKey then [me_key e] else [] | None \<Rightarrow> []),
        h') \<and>
    holds_map h' m (del_match (key_matches m key) es)"
proof -
  let ?l = "map_entries m"
  obtain xs where at: "heap_ok h" "lseg h (Some ?l) ((?l, None) # xs) None" "distinct (?l # map fst xs)"
      "map snd xs = map Some es"
    using assms by (auto simp: holds_map_def holds_list_def list_at_def)
  obtain h' zs' where h': "removeEntry_loop h m ?l ?l key deleteKey =
        Some (first_value m key es, (case find (key_matches m key) es of
          Some e \<Rightarrow> if deleteKey then [me_key e] else [] | None \<Rightarrow> []), h')"
      "lseg h' (Some ?l) ((?l, None) # zs') None"
      "map snd zs' = map Some (del_match (key_matches m key) es)" "set zs' \<subseteq> set xs"
      "distinct (map fst zs')" "hp_fresh h' = hp_fresh h"
      "\<And>b. hp_nodes h b = None \<Longrightarrow> hp_nodes h' b = None"
    using removeEntry_loop_lseg [OF at(2,3,4), of m key deleteKey] by blast
  have "list_at h' ?l zs'"
    using h' at(1,3) by (auto simp: list_at_def heap_ok_def image_image)
  with h'(1,3) show ?thesis
    by (auto simp: Map_removeEntry_def holds_map_def holds_list_def)
qed

lemma holds_map_get: "holds_map h m es \<Longrightarrow> Map_getEntry h m key = Some (first_value m key es)"
  using getEntry_loop_lseg [of h "map_entries m" None]
  by (auto simp: holds_map_def holds_list_def list_at_def Map_getEntry_def)

lemma holds_map_add:
  "holds_map h m es \<Longrightarrow> \<exists>h'. Map_addEntry h m key val = Some (key, h') \<and>
     holds_map h' m (es @ [\<lparr>me_key = key, me_value = val\<rparr>])"
  using holds_list_add [of h "map_entries m" "map Some es" "Some \<lparr>me_key = key, me_value = val\<rparr>"]
  by (auto simp: holds_map_def Map_addEntry_def)


section \<open>Refinement\<close>

text \<open>The operations of a map and their specification on the sequence of entries.\<close>

datatype ('k, 'v) MapOp = Put 'k "'v option" | Get 'k | Del 'k bool | Count

datatype ('k, 'v) MapResult = R_key 'k | R_value "'v option" "'k list" | R_count nat

definition map_step :: "'k sMap \<Rightarrow> ('k, 'v) MapOp \<Rightarrow> ('k, 'v) map_heap \<Rightarrow>
    (('k, 'v) MapResult \<times> ('k, 'v) map_heap) option" where
  "map_step m x h =
     (case x of
        Put k v \<Rightarrow> map_option (\<lambda>(k, h'). (R_key k, h')) (Map_addEntry h m k v)
      | Get k \<Rightarrow> map_option (\<lambda>v. (R_value v [], h)) (Map_getEntry h m k)
      | Del k b \<Rightarrow> map_option (\<lambda>(v, ks, h'). (R_value v ks, h')) (Map_removeEntry h m k b)
      | Count \<Rightarrow> map_option (\<lambda>n. (R_count n, h)) (Map_size h m))"

definition map_spec :: "'k sMap \<Rightarrow> ('k, 'v) MapOp \<Rightarrow> ('k, 'v) MapEntry list \<Rightarrow>
    (('k, 'v) MapResult \<times> ('k, 'v) MapEntry list) option" where
  "map_spec m x es = Some
     (case x of
        Put k v \<Rightarrow> (R_key k, es @ [\<lparr>me_key = k, me_value = v\<rparr>])
      | Get k \<Rightarrow> (R_value (first_value m k es) [], es)
      | Del k b \<Rightarrow>
          (R_value (first_value m k es)
             (case find (key_matches m k) es of Some e \<Rightarrow> if b then [me_key e] else [] | None \<Rightarrow> []),
           del_match (key_matches m k) es)
      | Count \<Rightarrow> (R_count (length es), es))"

lemma map_step_simulates:
  assumes m: "holds_map h m es" and s: "map_spec m x es = Some (r, es')"
  shows "\<exists>h'. map_step m x h = Some (r, h') \<and> holds_map h' m es'"
proof (cases x)
  case (Put k v)
  obtain h' where "Map_addEntry h m k v = Some (k, h')"
      "holds_map h' m (es @ [\<lparr>me_key = k, me_value = v\<rparr>])"
    using holds_map_add [OF m] by blast
  then show ?thesis using s Put by (auto simp: map_spec_def map_step_def)
next
  case (Get k)
  then show ?thesis using s m holds_map_get [OF m] by (auto simp: map_spec_def map_step_def)
next
  case (Del k b)
  then show ?thesis
    using s holds_map_remove [OF m, of k b] by (auto simp: map_spec_def map_step_def)
next
  case Count
  have "LinkedList_size h (map_entries m) = Some (length es)"
    using holds_list_size [of h "map_entries m" "map Some es"] m by (simp add: holds_map_def)
  then show ?thesis using s m Count by (auto simp: map_spec_def map_step_def Map_size_def)
qed

interpretation pointer_map: simulation "\<lambda>h. holds_map h m" "map_step m" "map_spec m" for m
  by unfold_locales (rule map_step_simulates)

lemma map_spec_total: "\<exists>rs es'. run_ops (map_spec m) xs es = Some (rs, es')"
proof (induction xs arbitrary: es)
  case (Cons x xs)
  obtain r es1 where "map_spec m x es = Some (r, es1)"
    by (cases x) (simp_all add: map_spec_def)
  then show ?case using Cons [of es1] by auto
qed simp

lemma StringMap_create_holds:
  assumes "heap_ok h" and "StringMap_create h = (h', m)"
  shows "holds_map h' m []" and "compareKeys m = strcmp"
  using assms list_at_create(1) [OF assms(1)] holds_listI
  by (fastforce simp: StringMap_create_def Map_create_def holds_map_def Let_def
      split: prod.splits)+

lemma strcmp_eq_0: "0 \<notin> set s \<Longrightarrow> 0 \<notin> set t \<Longrightarrow> strcmp s t = 0 \<longleftrightarrow> s = t"
proof (induction s t rule: strcmp.induct)
  case (4 c cs d ds)
  then show ?case by (auto simp: word_uint_eq_iff)
qed (auto simp: unsigned_eq_0_iff)

text \<open>A string map refines the sequence of its entries in the order of their insertion: from a
  new map, any series of insertions, lookups, removals and size queries returns with the results
  of that specification (a lookup gives the value of the oldest entry with the key) and never leaves the
  heap.\<close>

theorem string_map_refines_entries:
  assumes "heap_ok h" and "StringMap_create h = (h1, m)"
  shows "\<exists>rs es h'. run_ops (map_spec m) xs [] = Some (rs, es) \<and>
    run_ops (map_step m) xs h1 = Some (rs, h') \<and> holds_map h' m es"
proof -
  obtain rs es where s: "run_ops (map_spec m) xs [] = Some (rs, es)"
    using map_spec_total by blast
  show ?thesis
    using pointer_map.run_simulates [OF StringMap_create_holds(1) [OF assms] s] s by auto
qed

theorem string_map_refines_entries_witness:
  "\<exists>rs es h'. run_ops (map_spec (snd (StringMap_create (demo_heap :: (8 word list, nat) map_heap))))
      [Put [0x61] (Some 1), Put [0x62] (Some 2), Get [0x62], Del [0x61] True, Count] [] = Some (rs, es) \<and>
    run_ops (map_step (snd (StringMap_create (demo_heap :: (8 word list, nat) map_heap))))
      [Put [0x61] (Some 1), Put [0x62] (Some 2), Get [0x62], Del [0x61] True, Count]
      (fst (StringMap_create (demo_heap :: (8 word list, nat) map_heap))) = Some (rs, h') \<and>
    holds_map h' (snd (StringMap_create (demo_heap :: (8 word list, nat) map_heap))) es"
  by (rule string_map_refines_entries) (simp_all add: heap_ok_def demo_heap_def)

text \<open>Looking up a key after inserting it gives the inserted value only when no entry had that key
  before: an insertion never replaces an entry. Other keys are not affected.\<close>

theorem string_map_put_get:
  assumes "holds_map h m es" and "compareKeys m = strcmp"
    and "0 \<notin> set key" and "0 \<notin> set k" and "\<forall>e\<in>set es. 0 \<notin> set (me_key e)"
    and "Map_addEntry h m key val = Some (r, h')"
  shows "Map_getEntry h' m k =
    (if k = key \<and> key \<notin> me_key ` set es then Some val else Map_getEntry h m k)"
proof -
  have match: "key_matches m k e \<longleftrightarrow> me_key e = k" if "0 \<notin> set (me_key e)" for e :: "(8 word list, 'a) MapEntry"
    using that strcmp_eq_0 [OF assms(4)] assms(2) by (auto simp: key_matches_def)
  let ?e = "\<lparr>me_key = key, me_value = val\<rparr>"
  have h': "holds_map h' m (es @ [?e])"
    using holds_map_add [OF assms(1), of key val] assms(6) by auto
  have none: "find (key_matches m k) es = None \<longleftrightarrow> k \<notin> me_key ` set es"
    using match assms(5) by (fastforce simp: find_None_iff)
  have "find (key_matches m k) (es @ [?e]) =
      (case find (key_matches m k) es of None \<Rightarrow> (if k = key then Some ?e else None) | r \<Rightarrow> r)"
    using match [of ?e] assms(3) by (induction es) auto
  then have "first_value m k (es @ [?e]) =
      (if k = key \<and> key \<notin> me_key ` set es then val else first_value m k es)"
    using none by (auto simp: first_value_def split: option.splits)
  then show ?thesis
    using holds_map_get [OF h', of k] holds_map_get [OF assms(1), of k] by simp
qed

theorem string_map_put_get_witness:
  "\<exists>h'. Map_addEntry (fst (StringMap_create (demo_heap :: (8 word list, nat) map_heap)))
      (snd (StringMap_create (demo_heap :: (8 word list, nat) map_heap))) [0x61] (Some 5) =
      Some ([0x61], h') \<and>
    Map_getEntry h' (snd (StringMap_create (demo_heap :: (8 word list, nat) map_heap))) [0x61] =
      Some (Some 5)"
proof -
  let ?h = "fst (StringMap_create (demo_heap :: (8 word list, nat) map_heap))"
  let ?m = "snd (StringMap_create (demo_heap :: (8 word list, nat) map_heap))"
  have m: "holds_map ?h ?m []" "compareKeys ?m = strcmp"
    using StringMap_create_holds [of "demo_heap :: (8 word list, nat) map_heap" ?h ?m]
    by (simp_all add: heap_ok_def demo_heap_def)
  obtain h' where h': "Map_addEntry ?h ?m [0x61] (Some 5) = Some ([0x61], h')"
    using holds_map_add [OF m(1), of "[0x61]" "Some 5"] by blast
  show ?thesis
    using string_map_put_get [OF m, of "[0x61]" "[0x61]" "Some 5" "[0x61]" h'] h' by simp
qed

end
