(* ===== verification/Control.thy ===== *)
theory Control
  imports Control_Object
begin

text \<open>
  What the control service (\<open>src/src/iedserver/mms_mapping/control.c\<close>) guarantees: a control object with
  its operate threads as a transition system, who may operate when, what selections protect against, and
  where cancellation and operative checks fail.
\<close>

section \<open>What the operations leave alone\<close>

named_theorems control_frame

lemma abort_frame [control_frame]:
  "abortControlOperation env self = Some self' \<Longrightarrow>
   \<exists>st. self' = self\<lparr>ct_state := st\<rparr> \<and> (st = STATE_UNSELECTED \<or> st = STATE_READY)"
  by (auto simp: abortControlOperation_def setState_def bind_eq_Some_conv split: if_splits)

lemma sendLastApplError_frame [control_frame]:
  "ControlObject_sendLastApplError self c v e a n org m = Some (ev, self') \<Longrightarrow>
   \<exists>x y z. self' = self\<lparr>ct_error := x, ct_addCause := y\<rparr> \<and> ev = E_lastApplError c z m"
  by (auto simp: ControlObject_sendLastApplError_def bind_eq_Some_conv)

lemma updateSboTimeoutValue_frame [control_frame]:
  "updateSboTimeoutValue env self = Some self' \<Longrightarrow> \<exists>t. self' = self\<lparr>ct_selectTimeout := t\<rparr>"
  by (auto simp: updateSboTimeoutValue_def bind_eq_Some_conv split: option.splits)

lemma selectObject_frame [control_frame]:
  "selectObject env self t c = Some self' \<Longrightarrow>
   \<exists>x. self' = self\<lparr>ct_selectTimeout := x, ct_selected := True, ct_selectTime := t,
     ct_clientConnection := Some c, ct_state := STATE_READY\<rparr>"
  by (auto simp: selectObject_def setState_def bind_eq_Some_conv dest!: updateSboTimeoutValue_frame)

lemma updateControlParameters_frame [control_frame]:
  "updateControlParameters env self v n org = Some self' \<Longrightarrow>
   \<exists>x y z. self' = self\<lparr>ct_ctlVal := x, ct_ctlNum := y, ct_origin := z\<rparr>"
  by (auto simp: updateControlParameters_def bind_eq_Some_conv)

lemma store_oper_frame: "\<exists>m. store_oper self v = self\<lparr>ct_mmsValue := m\<rparr>"
  by (cases "ct_oper self") (auto simp: store_oper_def intro: exI [of _ "ct_mmsValue self"])

lemma checkSelectTimeout_frame: "\<exists>st. checkSelectTimeout self t = self\<lparr>ct_state := st\<rparr>"
  by (auto simp: checkSelectTimeout_def setState_def intro: exI [of _ "ct_state self"])

text \<open>The parts of an object that decide who may operate it.\<close>

record ControlCore =
  k_initialized :: bool
  k_ctlModel :: u32
  k_client :: "MmsServerConnection option"
  k_sbo :: "MmsValue option"
  k_empty :: "MmsValue option"
  k_activated :: bool

definition core :: "ControlObject \<Rightarrow> ControlCore" where
  "core self = \<lparr>k_initialized = ct_initialized self, k_ctlModel = ct_ctlModel self,
     k_client = ct_clientConnection self, k_sbo = ct_sbo self, k_empty = ct_emptyString self,
     k_activated = ct_timeActivatedOperate self\<rparr>"

lemma core_simps [simp]:
  "k_initialized (core self) = ct_initialized self" "k_ctlModel (core self) = ct_ctlModel self"
  "k_client (core self) = ct_clientConnection self" "k_sbo (core self) = ct_sbo self"
  "k_empty (core self) = ct_emptyString self" "k_activated (core self) = ct_timeActivatedOperate self"
  by (simp_all add: core_def)

lemma core_update [simp]:
  "core (self\<lparr>ct_state := st\<rparr>) = core self"
  "core (self\<lparr>ct_error := x\<rparr>) = core self"
  "core (self\<lparr>ct_addCause := x\<rparr>) = core self"
  "core (self\<lparr>ct_testMode := b\<rparr>) = core self"
  "core (self\<lparr>ct_mmsValue := m\<rparr>) = core self"
  "core (self\<lparr>ct_selectTime := t\<rparr>) = core self"
  "core (self\<lparr>ct_operateTime := t\<rparr>) = core self"
  "core (self\<lparr>ct_ctlVal := v\<rparr>) = core self"
  "core (self\<lparr>ct_ctlNum := v\<rparr>) = core self"
  "core (self\<lparr>ct_origin := v\<rparr>) = core self"
  "core (self\<lparr>ct_operateInvokeId := i\<rparr>) = core self"
  by (simp_all add: core_def)

lemma core_state [simp]: "core (setState self st) = core self"
  by (simp add: setState_def)

lemma core_timeout [simp]: "core (checkSelectTimeout self t) = core self"
  by (simp add: checkSelectTimeout_def)

lemma core_store_oper [simp]: "core (store_oper self v) = core self"
  using store_oper_frame [of self v] by auto

lemma isSbo_core: "isSbo self \<longleftrightarrow> k_ctlModel (core self) = 2 \<or> k_ctlModel (core self) = 4"
  by (simp add: isSbo_def)

lemma core_ctlModel:
  "core a = (core b)\<lparr>k_client := x\<rparr> \<Longrightarrow> ct_ctlModel a = ct_ctlModel b"
  "core a = (core b)\<lparr>k_client := x, k_activated := y\<rparr> \<Longrightarrow> ct_ctlModel a = ct_ctlModel b"
  by (drule arg_cong [where f = k_ctlModel], simp)+

lemma core_abort: "abortControlOperation env self = Some self' \<Longrightarrow> core self' = core self"
  by (auto dest!: abort_frame)

lemma core_sendLastApplError:
  "ControlObject_sendLastApplError self c v e a n org m = Some (ev, self') \<Longrightarrow>
   core self' = core self \<and> ev \<noteq> E_operateThread"
  by (auto dest!: sendLastApplError_frame)

lemma core_updateControlParameters:
  "updateControlParameters env self v n org = Some self' \<Longrightarrow> core self' = core self"
  by (auto dest!: updateControlParameters_frame)

lemma core_selectObject:
  "selectObject env self t c = Some self' \<Longrightarrow> core self' = (core self)\<lparr>k_client := Some c\<rparr>"
  by (auto simp: core_def dest!: selectObject_frame)

lemmas core_rules = core_abort core_sendLastApplError core_updateControlParameters core_selectObject

lemma core_operateThread_wait:
  "operateThread_wait env b self = Some (r, self', evs) \<Longrightarrow> core self' = core self"
  by (auto simp: operateThread_wait_def Let_def bind_eq_Some_conv split: if_splits dest!: core_rules)

lemma core_operateThread_operate:
  "operateThread_operate env t self = Some (self', evs) \<Longrightarrow> core self' = core self"
  by (auto simp: operateThread_operate_def ControlObject_operate_def Let_def bind_eq_Some_conv
      split: if_splits dest!: core_rules)

lemma core_operateThread_step:
  "operateThread_step env t self cs = Some (t', self', cs', evs) \<Longrightarrow> core self' = core self"
  by (cases t)
    (auto simp: operateThread_begin_def bind_eq_Some_conv split: if_splits option.splits
      dest!: core_operateThread_wait core_operateThread_operate)

lemma core_unselect:
  "ControlObject_unselect env self c = Some (r, self') \<Longrightarrow> core self' = core self"
  by (auto simp: ControlObject_unselect_def split: if_splits dest!: core_abort)

lemma core_processControlAction:
  "processControlAction env t self = Some (self', evs) \<Longrightarrow>
   core self' = (core self)\<lparr>k_activated := False\<rparr> \<or> core self' = core self \<and> evs = []"
  by (auto simp: processControlAction_def Let_def bind_eq_Some_conv core_def split: if_splits
      dest!: abort_frame sendLastApplError_frame)

lemma process_starts:
  "processControlAction env t self = Some (self', evs) \<Longrightarrow> E_operateThread \<in> set evs \<Longrightarrow>
   ct_timeActivatedOperate self"
  by (auto simp: processControlAction_def split: if_splits)

text \<open>Initialisation happens once; it does not touch who may operate.\<close>

definition granted :: "MmsValue option \<Rightarrow> bool" where
  "granted v \<longleftrightarrow> (case v of None \<Rightarrow> False | Some v \<Rightarrow> MmsValue_toString v \<noteq> None)"

lemma initializeCtlModel_core:
  assumes "initializeCtlModel env self = Some self'"
  shows "core self' = (core self)\<lparr>k_sbo := ct_sbo self'\<rparr>" and "isSbo self \<longleftrightarrow> granted (ct_sbo self')"
    and "ct_state self' = (if isSbo self then STATE_UNSELECTED else STATE_READY)"
  using assms
  by (auto simp: initializeCtlModel_def Let_def bind_eq_Some_conv setState_def core_def granted_def
      MmsValue_toString_def MmsValue_newVisibleString_def setVisibleStringValue_def
      split: if_splits dest!: updateSboTimeoutValue_frame)

text \<open>An object as \<open>ControlObject_create\<close> and the setters leave it.\<close>

definition control_fresh :: "ControlObject \<Rightarrow> bool" where
  "control_fresh self \<longleftrightarrow> \<not> ct_initialized self \<and> ct_clientConnection self = None \<and>
     \<not> ct_timeActivatedOperate self \<and> ct_ctlModel self = 0 \<and> ct_state self = STATE_UNSELECTED"

lemma initialize_core:
  assumes "initialize env self = Some self'" and "\<not> ct_initialized self"
  shows "core self' = \<lparr>k_initialized = True, k_ctlModel = ct_ctlModel self',
      k_client = ct_clientConnection self, k_sbo = ct_sbo self', k_empty = ct_emptyString self',
      k_activated = ct_timeActivatedOperate self\<rparr>" (is ?core)
    and "\<not> granted (ct_emptyString self')" (is ?empty)
    and "control_fresh self \<Longrightarrow> isSbo self' \<Longrightarrow> granted (ct_sbo self') \<and> ct_state self' = STATE_UNSELECTED"
proof -
  define s0 where "s0 = self\<lparr>ct_emptyString := Some (MmsValue_newVisibleString None)\<rparr>"
  obtain m x y z s1 where s1: "case m of None \<Rightarrow> Some (s0\<lparr>ct_sboClass := x, ct_ctlObjectName := y,
        ct_error := z, ct_addCause := z\<rparr>) = Some s1
      | Some v \<Rightarrow> \<exists>c. initializeCtlModel env (s0\<lparr>ct_sboClass := x, ct_ctlObjectName := y, ct_error := z,
        ct_addCause := z, ct_ctlModel := c\<rparr>) = Some s1" and self': "self' = s1\<lparr>ct_initialized := True\<rparr>"
    using assms by (fastforce simp: initialize_def s0_def Let_def bind_eq_Some_conv split: option.splits)
  have empty: "ct_emptyString s0 = Some (MmsValue_newVisibleString None)" by (simp add: s0_def)
  show ?core
    using s1 initializeCtlModel_core(1)
    by (fastforce simp: self' s0_def core_def split: option.splits)
  have "ct_emptyString self' = Some (MmsValue_newVisibleString None)"
    using s1 initializeCtlModel_core(1)
    by (fastforce simp: self' s0_def core_def split: option.splits)
  then show ?empty
    by (simp add: granted_def MmsValue_toString_def MmsValue_newVisibleString_def setVisibleStringValue_def)
  show "granted (ct_sbo self') \<and> ct_state self' = STATE_UNSELECTED" if "control_fresh self" "isSbo self'"
  proof (cases m)
    case None
    then show ?thesis using s1 that by (auto simp: self' s0_def control_fresh_def isSbo_def)
  next
    case (Some v)
    then obtain o1 where o1: "initializeCtlModel env o1 = Some s1" using s1 by auto
    have "isSbo s1" using that(2) by (simp add: self' isSbo_def)
    then have "isSbo o1" using initializeCtlModel_core(1) [OF o1] by (simp add: isSbo_core)
    then show ?thesis using initializeCtlModel_core(2,3) [OF o1] by (simp add: self')
  qed
qed

lemma initialize_done: "ct_initialized self \<Longrightarrow> initialize env self = Some self"
  by (simp add: initialize_def)

text \<open>Reading selects only through \<open>SBO\<close> and only objects with normal security.\<close>

lemma readSBO_core:
  assumes "readSBO env self c = Some (v, self')"
  shows "if ct_ctlModel self = 2 then
      (if v = ct_sbo self \<and> core self' = (core self)\<lparr>k_client := Some c\<rparr> then True
       else v = ct_emptyString self \<and> core self' = core self)
    else self' = self"
  using assms
  by (auto simp: readSBO_def Let_def bind_eq_Some_conv ControlObject_getSBO_def checkSelectTimeout_def
      setState_def core_def split: if_splits dest!: selectObject_frame)

lemma readControlVariable_core:
  assumes "readControlVariable env self n c = Some (v, self')"
  obtains o1 where "initialize env self = Some o1"
    "if n = Some (lit ''SBO'') \<and> ct_ctlModel o1 = 2 then
      (if v = ct_sbo o1 \<and> core self' = (core o1)\<lparr>k_client := Some c\<rparr> then True
       else v = ct_emptyString o1 \<and> core self' = core o1)
    else self' = o1"
proof -
  obtain o1 where o1: "initialize env self = Some o1"
    using assms by (auto simp: readControlVariable_def bind_eq_Some_conv)
  have lits: "lit ''SBO'' \<noteq> lit ''Oper''" "lit ''SBO'' \<noteq> lit ''SBOw''" "lit ''SBO'' \<noteq> lit ''Cancel''"
    by (simp_all add: lit_def)
  show thesis
  proof (rule that [OF o1])
    show "if n = Some (lit ''SBO'') \<and> ct_ctlModel o1 = 2 then
        (if v = ct_sbo o1 \<and> core self' = (core o1)\<lparr>k_client := Some c\<rparr> then True
         else v = ct_emptyString o1 \<and> core self' = core o1)
      else self' = o1"
      using assms o1 readSBO_core [of env o1 c v self'] lits
      by (auto simp: readControlVariable_def bind_eq_Some_conv split: option.splits if_splits)
  qed
qed

lemma writeSBOw_core:
  assumes "writeSBOw env cs self val c = Some (i, self', evs)"
  shows "E_operateThread \<notin> set evs \<and>
    (if i = DATA_ACCESS_ERROR_SUCCESS then ct_ctlModel self = 4 \<and> core self' = (core self)\<lparr>k_client := Some c\<rparr>
     else i \<noteq> DATA_ACCESS_ERROR_NO_RESPONSE \<and> core self' = core self)"
  using assms
  by (auto simp: writeSBOw_def Let_def bind_eq_Some_conv split: if_splits option.splits
      dest!: core_rules)

lemma writeCancel_core:
  assumes "writeCancel env self val c = Some (i, self', evs)"
  shows "E_operateThread \<notin> set evs \<and> i \<noteq> DATA_ACCESS_ERROR_NO_RESPONSE \<and>
    (core self' = core self \<or> core self' = (core self)\<lparr>k_activated := False\<rparr>)"
  using assms
  by (auto simp: writeCancel_def cancelActivation_def core_def Let_def bind_eq_Some_conv
      split: if_splits option.splits dest!: abort_frame sendLastApplError_frame simp: setState_def)

lemma activateOperate_core:
  "activateOperate self val x y c = Some (j, self') \<Longrightarrow>
   j = DATA_ACCESS_ERROR_OBJECT_ACCESS_DENIED \<and> core self' = core self \<or>
   j = DATA_ACCESS_ERROR_SUCCESS \<and> core self' = (core self)\<lparr>k_client := Some c, k_activated := True\<rparr>"
  by (auto simp: activateOperate_def Let_def bind_eq_Some_conv core_def setState_def
      split: option.splits if_splits)

lemma testAndStart_core:
  "testAndStart env cs self v t x c = Some (i, self', evs) \<Longrightarrow>
   i = DATA_ACCESS_ERROR_NO_RESPONSE \<and> evs = [E_operateThread] \<and> core self' = (core self)\<lparr>k_client := Some c\<rparr> \<or>
   i \<noteq> DATA_ACCESS_ERROR_NO_RESPONSE \<and> i \<noteq> DATA_ACCESS_ERROR_SUCCESS \<and> evs = [] \<and> core self' = core self"
  by (auto simp: testAndStart_def Let_def bind_eq_Some_conv core_def setState_def checkIndication_def
      split: if_splits dest!: abort_frame)

lemma operateSelected_core:
  assumes "operateSelected env cs self val v n org x y t c = Some (i, self', evs)"
  shows "i = DATA_ACCESS_ERROR_NO_RESPONSE \<and> evs = [E_operateThread] \<and>
       core self' = (core self)\<lparr>k_client := Some c\<rparr> \<or>
    i = DATA_ACCESS_ERROR_SUCCESS \<and> evs = [] \<and>
       core self' = (core self)\<lparr>k_client := Some c, k_activated := True\<rparr> \<or>
    i \<noteq> DATA_ACCESS_ERROR_NO_RESPONSE \<and> i \<noteq> DATA_ACCESS_ERROR_SUCCESS \<and> evs = [] \<and> core self' = core self"
proof -
  obtain o1 j o2 w where o1: "updateControlParameters env self (Some v) (Some n) (Some org) = Some o1"
    and o2: "activateOperate o1 val x y c = Some (j, o2)"
    and rest: "(if ct_timeActivatedOperate (store_oper o2 w) then Some (j, store_oper o2 w, [])
      else testAndStart env cs (store_oper o2 w) v t x c) = Some (i, self', evs)"
    using assms by (auto simp: operateSelected_def Let_def bind_eq_Some_conv)
  have "j = DATA_ACCESS_ERROR_SUCCESS \<Longrightarrow> ct_timeActivatedOperate (store_oper o2 w)"
    using activateOperate_core [OF o2] core_simps(6) [of "store_oper o2 w"] by auto
  then show ?thesis
    using rest activateOperate_core [OF o2] core_updateControlParameters [OF o1]
      testAndStart_core [of env cs "store_oper o2 w" v t x c i self' evs]
    by (auto split: if_splits)
qed

text \<open>A request to operate that is not refused: who sent it, when, and what it says.\<close>

definition control_accepted :: "MmsDataAccessError \<Rightarrow> bool" where
  "control_accepted i \<longleftrightarrow> i = DATA_ACCESS_ERROR_SUCCESS \<or> i = DATA_ACCESS_ERROR_NO_RESPONSE"

definition unexpired :: "ControlObject \<Rightarrow> u64 \<Rightarrow> bool" where
  "unexpired self t \<longleftrightarrow> ct_selectTimeout self = 0 \<or> t \<le> ct_selectTime self + ucast (ct_selectTimeout self)"

definition matches_request :: "ControlObject \<Rightarrow> MmsValue \<Rightarrow> bool" where
  "matches_request self val \<longleftrightarrow>
     (case (getCtlVal val, getOperParameterOrigin val, getOperParameterCtlNum val) of
        (Some ctlVal, Some origin, Some ctlNum) \<Rightarrow> matchesSelection self ctlVal origin ctlNum = Some True
      | _ \<Rightarrow> False)"

lemma matchesSelection_testMode [simp]:
  "matchesSelection (self\<lparr>ct_testMode := b\<rparr>) v org n = matchesSelection self v org n"
  by (simp add: matchesSelection_def cong: if_cong)

lemma operateReady_core:
  assumes "operateReady env cs self val v n org ck ts c = Some (i, self', evs)"
  shows "if control_accepted i then
      (isSbo self \<longrightarrow> ct_clientConnection self = Some c) \<and>
      (ct_ctlModel self = 4 \<longrightarrow> matchesSelection self v org n = Some True) \<and>
      (i = DATA_ACCESS_ERROR_NO_RESPONSE \<and> core self' = (core self)\<lparr>k_client := Some c\<rparr> \<and> evs = [E_operateThread] \<or>
       i = DATA_ACCESS_ERROR_SUCCESS \<and> evs = [] \<and>
         core self' = (core self)\<lparr>k_client := Some c, k_activated := True\<rparr>)
    else E_operateThread \<notin> set evs \<and> core self' = core self"
proof -
  obtain x y t where b: "MmsValue_getBitStringBit ck 1 = Some x" "MmsValue_getBitStringBit ck 0 = Some y"
      "MmsValue_getBoolean ts = Some t"
    using assms by (auto simp: operateReady_def bind_eq_Some_conv)
  have sbo: "isSbo (self\<lparr>ct_testMode := t\<rparr>) = isSbo self" by (simp add: isSbo_def)
  show ?thesis
    using assms operateSelected_core [of env cs "self\<lparr>ct_testMode := t\<rparr>" val v n org x y t c i self' evs]
    by (auto simp: operateReady_def b Let_def sbo control_accepted_def bind_eq_Some_conv
        split: if_splits dest!: core_sendLastApplError)
qed

lemma timeout_simps [simp]:
  "isSbo (checkSelectTimeout self t) = isSbo self"
  "ct_ctlModel (checkSelectTimeout self t) = ct_ctlModel self"
  "ct_clientConnection (checkSelectTimeout self t) = ct_clientConnection self"
  "matchesSelection (checkSelectTimeout self t) v org n = matchesSelection self v org n"
  by (simp_all add: checkSelectTimeout_def setState_def isSbo_def matchesSelection_def cong: if_cong)

lemma timeout_ready:
  "ct_state (checkSelectTimeout self t) = STATE_READY \<Longrightarrow> isSbo self \<Longrightarrow>
   ct_state self = STATE_READY \<and> unexpired self t"
  by (auto simp: checkSelectTimeout_def setState_def getState_def unexpired_def not_less word_neq_0_conv
      split: if_splits)

lemma writeOper_core:
  assumes "writeOper env cs self val c = Some (i, self', evs)"
  shows "if control_accepted i then
      (isSbo self \<longrightarrow> ct_clientConnection self = Some c \<and> ct_state self = STATE_READY \<and>
         unexpired self (ce_time env)) \<and>
      (ct_ctlModel self = 4 \<longrightarrow> matches_request self val) \<and>
      (i = DATA_ACCESS_ERROR_NO_RESPONSE \<and> core self' = (core self)\<lparr>k_client := Some c\<rparr> \<and> evs = [E_operateThread] \<or>
       i = DATA_ACCESS_ERROR_SUCCESS \<and> evs = [] \<and>
         core self' = (core self)\<lparr>k_client := Some c, k_activated := True\<rparr>)
    else E_operateThread \<notin> set evs \<and> core self' = core self"
proof (cases "\<exists>v ts n org ck tm. getCtlVal val = Some v \<and> getOperParameterTest val = Some ts \<and>
    getOperParameterCtlNum val = Some n \<and> getOperParameterOrigin val = Some org \<and>
    getOperParameterCheck val = Some ck \<and> getOperParameterTime val = Some tm \<and>
    checkValidityOfOriginParameter (Some org) = Some True \<and>
    ct_state (checkSelectTimeout self (ce_time env)) = STATE_READY")
  case True
  then obtain v ts n org ck tm where p: "getCtlVal val = Some v" "getOperParameterTest val = Some ts"
      "getOperParameterCtlNum val = Some n" "getOperParameterOrigin val = Some org"
      "getOperParameterCheck val = Some ck" "getOperParameterTime val = Some tm"
      "checkValidityOfOriginParameter (Some org) = Some True"
    and ready: "ct_state (checkSelectTimeout self (ce_time env)) = STATE_READY" by blast
  define o1 where "o1 = checkSelectTimeout self (ce_time env)"
  have "operateReady env cs o1 val v n org ck ts c = Some (i, self', evs)"
    using assms ready by (simp add: writeOper_def p getState_def o1_def)
  from operateReady_core [OF this] timeout_ready [OF ready] show ?thesis
    by (auto simp: o1_def matches_request_def p split: if_splits)
next
  case False
  then show ?thesis
    using assms
    by (auto simp: writeOper_def getState_def Let_def bind_eq_Some_conv control_accepted_def
        split: option.splits if_splits ControlState.splits dest!: core_sendLastApplError)
qed


section \<open>Runs of a control object\<close>

text \<open>The runs of a labelled transition system, and invariants of state and history.\<close>

inductive run :: "('s \<Rightarrow> 'e \<Rightarrow> 's \<Rightarrow> bool) \<Rightarrow> 's \<Rightarrow> 'e list \<Rightarrow> 's \<Rightarrow> bool" for step s where
  run_start: "run step s [] s"
| run_step: "run step s tr s' \<Longrightarrow> step s' e s'' \<Longrightarrow> run step s (tr @ [e]) s''"

locale history_invariant =
  fixes step :: "'s \<Rightarrow> 'e \<Rightarrow> 's \<Rightarrow> bool"
    and start :: "'s \<Rightarrow> bool"
    and inv :: "'e list \<Rightarrow> 's \<Rightarrow> bool"
  assumes inv_start: "start s \<Longrightarrow> inv [] s"
    and inv_step: "inv tr s \<Longrightarrow> step s e s' \<Longrightarrow> inv (tr @ [e]) s'"
begin

lemma inv_run: "run step s tr s' \<Longrightarrow> start s \<Longrightarrow> inv tr s'"
  by (induction rule: run.induct) (auto intro: inv_start inv_step)

end

text \<open>A control object, the registered clients, the operate threads that have not ended, and, for the history, how
  many have been started. The
  requests of clients (on the names the object is found by), the periodic processing, one phase of one
  thread, the end of a connection, a change of the registered clients. Each has its own environment, so
  time, cached values and answers of handlers are arbitrary.\<close>

record ControlSystem =
  sys_object :: ControlObject
  sys_clients :: clients
  sys_threads :: "OperateThread list"
  sys_started :: nat

datatype ControlAction =
  A_read ControlEnv "cstring option" MmsServerConnection
  | A_write ControlEnv cstring MmsValue MmsServerConnection
  | A_process ControlEnv u64
  | A_thread ControlEnv nat
  | A_unselect ControlEnv MmsServerConnection
  | A_clients clients

datatype ControlResponse = R_value "MmsValue option" | R_indication MmsDataAccessError | R_none

definition threads_started :: "ControlEvent list \<Rightarrow> OperateThread list" where
  "threads_started evs = map (\<lambda>_. T_started) (filter (\<lambda>e. e = E_operateThread) evs)"

inductive control_step :: "ControlSystem \<Rightarrow> ControlAction \<times> ControlResponse \<Rightarrow> ControlSystem \<Rightarrow> bool" where
  step_read: "readControlVariable env (sys_object s) n c = Some (v, self) \<Longrightarrow>
    control_step s (A_read env n c, R_value v) (s\<lparr>sys_object := self\<rparr>)"
| step_write: "writeControlVariable env (sys_clients s) (sys_object s) n val c = Some (i, self, evs) \<Longrightarrow>
    control_step s (A_write env n val c, R_indication i)
      (s\<lparr>sys_object := self, sys_threads := sys_threads s @ threads_started evs,
        sys_started := sys_started s + length (threads_started evs)\<rparr>)"
| step_process: "processControlAction env t (sys_object s) = Some (self, evs) \<Longrightarrow>
    control_step s (A_process env t, R_none)
      (s\<lparr>sys_object := self, sys_threads := sys_threads s @ threads_started evs,
        sys_started := sys_started s + length (threads_started evs)\<rparr>)"
| step_thread: "k < length (sys_threads s) \<Longrightarrow>
    operateThread_step env (sys_threads s ! k) (sys_object s) (sys_clients s) = Some (t, self, cs, evs) \<Longrightarrow>
    control_step s (A_thread env k, R_none)
      (s\<lparr>sys_object := self, sys_clients := cs,
        sys_threads := (case t of Some t \<Rightarrow> (sys_threads s)[k := t]
          | None \<Rightarrow> take k (sys_threads s) @ drop (Suc k) (sys_threads s))\<rparr>)"
| step_unselect: "ControlObject_unselect env (sys_object s) c = Some (r, self) \<Longrightarrow>
    control_step s (A_unselect env c, R_none) (s\<lparr>sys_object := self\<rparr>)"
| step_clients: "control_step s (A_clients cs, R_none) (s\<lparr>sys_clients := cs\<rparr>)"

inductive_cases control_stepE: "control_step s (a, r) s'"

definition control_start :: "ControlSystem \<Rightarrow> bool" where
  "control_start s \<longleftrightarrow> control_fresh (sys_object s) \<and> sys_threads s = [] \<and> sys_started s = 0"

text \<open>What a client sees of a selection: a read of \<open>SBO\<close> answered with the reference of the object (normal
  security), a successful write of \<open>SBOw\<close> (enhanced security).\<close>

fun selects :: "u32 \<Rightarrow> ControlAction \<times> ControlResponse \<Rightarrow> MmsServerConnection option" where
  "selects m (A_read _ n c, R_value v) =
     (if m = 2 \<and> n = Some (lit ''SBO'') \<and> granted v then Some c else None)"
| "selects m (A_write _ n _ c, R_indication i) =
     (if m = 4 \<and> n = lit ''SBOw'' \<and> i = DATA_ACCESS_ERROR_SUCCESS then Some c else None)"
| "selects m _ = None"

definition last_selector :: "u32 \<Rightarrow> (ControlAction \<times> ControlResponse) list \<Rightarrow> MmsServerConnection option" where
  "last_selector m tr = foldl (\<lambda>c e. case selects m e of None \<Rightarrow> c | Some d \<Rightarrow> Some d) None tr"

lemma last_selector_snoc [simp]:
  "last_selector m (tr @ [e]) = (case selects m e of None \<Rightarrow> last_selector m tr | Some d \<Rightarrow> Some d)"
  by (simp add: last_selector_def split: option.splits)


definition control_inv :: "(ControlAction \<times> ControlResponse) list \<Rightarrow> ControlSystem \<Rightarrow> bool" where
  "control_inv tr s \<longleftrightarrow>
     (let self = sys_object s in
      (if ct_initialized self
       then \<not> granted (ct_emptyString self) \<and>
         (isSbo self \<longrightarrow> granted (ct_sbo self) \<and> ct_clientConnection self = last_selector (ct_ctlModel self) tr)
       else control_fresh self \<and> sys_threads s = [] \<and> (\<forall>m. last_selector m tr = None)))"

text \<open>The invariant of an initialised object, in terms of its core.\<close>

definition core_inv :: "(ControlAction \<times> ControlResponse) list \<Rightarrow> ControlCore \<Rightarrow> bool" where
  "core_inv tr k \<longleftrightarrow> k_initialized k \<and> \<not> granted (k_empty k) \<and>
     (k_ctlModel k = 2 \<or> k_ctlModel k = 4 \<longrightarrow>
        granted (k_sbo k) \<and> k_client k = last_selector (k_ctlModel k) tr)"

lemma control_inv_initialized:
  "ct_initialized (sys_object s) \<Longrightarrow>
   control_inv tr s \<longleftrightarrow> core_inv tr (core (sys_object s))"
  by (auto simp: control_inv_def core_inv_def isSbo_def Let_def)

lemma control_inv_initialize:
  assumes "control_inv tr s" and "initialize env (sys_object s) = Some o1"
  shows "core_inv tr (core o1)"
proof (cases "ct_initialized (sys_object s)")
  case True
  then show ?thesis using assms by (simp add: initialize_done control_inv_initialized)
next
  case False
  then have fresh: "control_fresh (sys_object s)" "last_selector m tr = None" for m
    using assms(1) by (simp_all add: control_inv_def Let_def)
  note i = initialize_core [OF assms(2) False]
  have "core o1 = \<lparr>k_initialized = True, k_ctlModel = ct_ctlModel o1, k_client = None,
      k_sbo = ct_sbo o1, k_empty = ct_emptyString o1, k_activated = False\<rparr>"
    using i(1) fresh(1) by (simp add: control_fresh_def)
  then show ?thesis
    using i(2) i(3) [OF fresh(1)] fresh(2) by (auto simp: core_inv_def isSbo_def)
qed

lemma core_inv_other:
  assumes "core_inv tr k" and "selects (k_ctlModel k) e = None"
  shows "core_inv (tr @ [e]) k" and "core_inv (tr @ [e]) (k\<lparr>k_activated := False\<rparr>)"
  using assms by (auto simp: core_inv_def)

lemma core_inv_select:
  "core_inv tr k \<Longrightarrow> selects (k_ctlModel k) e = Some c \<Longrightarrow> core_inv (tr @ [e]) (k\<lparr>k_client := Some c\<rparr>)"
  by (auto simp: core_inv_def)

lemma control_inv_core:
  assumes "core_inv tr (core self)" and "sys_object s = self"
  shows "control_inv tr s"
proof -
  have "ct_initialized self" using assms(1) core_simps(1) [of self] by (simp add: core_inv_def)
  then show ?thesis using assms by (auto simp: control_inv_initialized)
qed

lemma write_inv:
  assumes inv: "control_inv tr s"
    and step: "writeControlVariable env (sys_clients s) (sys_object s) n val c = Some (i, self, evs)"
  shows "core_inv (tr @ [(A_write env n val c, R_indication i)]) (core self)"
proof -
  obtain o1 where o1: "initialize env (sys_object s) = Some o1"
    using step by (auto simp: writeControlVariable_def bind_eq_Some_conv)
  have k: "core_inv tr (core o1)" by (rule control_inv_initialize [OF inv o1])
  have lits: "lit ''SBOw'' \<noteq> lit ''Oper''" "lit ''SBOw'' \<noteq> lit ''Cancel''" "lit ''Oper'' \<noteq> lit ''Cancel''"
    by (simp_all add: lit_def)
  consider (sbow) "n = lit ''SBOw''" "writeSBOw env (sys_clients s) o1 val c = Some (i, self, evs)"
    | (oper) "n = lit ''Oper''" "writeOper env (sys_clients s) o1 val c = Some (i, self, evs)"
    | (cancel) "n = lit ''Cancel''" "writeCancel env o1 val c = Some (i, self, evs)"
    | (other) "n \<noteq> lit ''SBOw''" "n \<noteq> lit ''Oper''" "self = o1" "evs = []"
    using step by (auto simp: writeControlVariable_def o1 split: if_splits)
  then show ?thesis
  proof cases
    case sbow
    then show ?thesis
      using writeSBOw_core [OF sbow(2)] k lits
        core_inv_other(1) [OF k, of "(A_write env n val c, R_indication i)"]
        core_inv_select [OF k, of "(A_write env n val c, R_indication i)" c]
      by (auto split: if_splits)
  next
    case oper
    have sel: "selects m (A_write env n val c, R_indication i) = None" for m using oper(1) lits by simp
    have ops: "core_inv (tr @ [(A_write env n val c, R_indication i)]) ((core o1)\<lparr>k_client := Some c, k_activated := True\<rparr>)"
        "core_inv (tr @ [(A_write env n val c, R_indication i)]) ((core o1)\<lparr>k_client := Some c\<rparr>)"
      if "isSbo o1 \<longrightarrow> ct_clientConnection o1 = Some c"
      using that core_inv_other(1) [OF k sel] by (auto simp: core_inv_def isSbo_def)
    have same: "core_inv (tr @ [(A_write env n val c, R_indication i)]) (core o1)"
      by (rule core_inv_other(1) [OF k sel])
    show ?thesis
      using writeOper_core [OF oper(2)] ops same oper(1)
      by (auto split: if_splits)
  next
    case cancel
    then have sel: "selects m (A_write env n val c, R_indication i) = None" for m using lits by simp
    show ?thesis
      using writeCancel_core [OF cancel(2)] core_inv_other [OF k sel] by auto
  next
    case other
    then have sel: "selects m (A_write env n val c, R_indication i) = None" for m by simp
    show ?thesis using core_inv_other(1) [OF k sel] other by simp
  qed
qed

lemma read_inv:
  assumes inv: "control_inv tr s"
    and step: "readControlVariable env (sys_object s) n c = Some (v, self)"
  shows "core_inv (tr @ [(A_read env n c, R_value v)]) (core self)"
proof -
  obtain o1 where o1: "initialize env (sys_object s) = Some o1"
    and r: "if n = Some (lit ''SBO'') \<and> ct_ctlModel o1 = 2 then
        (if v = ct_sbo o1 \<and> core self = (core o1)\<lparr>k_client := Some c\<rparr> then True
         else v = ct_emptyString o1 \<and> core self = core o1)
      else self = o1"
    using readControlVariable_core [OF step] .
  have k: "core_inv tr (core o1)" by (rule control_inv_initialize [OF inv o1])
  have "\<not> granted (ct_emptyString o1)" "ct_ctlModel o1 = 2 \<Longrightarrow> granted (ct_sbo o1)"
    using k by (simp_all add: core_inv_def)
  then show ?thesis
    using r core_inv_other(1) [OF k, of "(A_read env n c, R_value v)"]
      core_inv_select [OF k, of "(A_read env n c, R_value v)" c]
    by (auto split: if_splits)
qed

lemma core_inv_silent:
  assumes "core_inv tr k" and "selects (k_ctlModel k) e = None" and "k' = k \<or> k' = k\<lparr>k_activated := False\<rparr>"
  shows "core_inv (tr @ [e]) k'"
  using assms core_inv_other by blast

text \<open>A step the clients do not see, on an object already initialised or still fresh.\<close>

lemma control_inv_silent:
  assumes inv: "control_inv tr s" and e: "\<And>m. selects m e = None"
    and obj: "core (sys_object s') = core (sys_object s) \<or> core (sys_object s') = (core (sys_object s))\<lparr>k_activated := False\<rparr>"
    and fresh: "control_fresh (sys_object s) \<Longrightarrow> sys_threads s = [] \<Longrightarrow> sys_object s' = sys_object s \<and> sys_threads s' = []"
  shows "control_inv (tr @ [e]) s'"
proof (cases "ct_initialized (sys_object s)")
  case True
  then have k: "core_inv tr (core (sys_object s))"
    using inv by (simp add: control_inv_initialized)
  show ?thesis
    by (rule control_inv_core [OF core_inv_silent [OF k e obj]]) simp
next
  case False
  then have "control_fresh (sys_object s)" "sys_threads s = []" "\<And>m. last_selector m tr = None"
    using inv by (simp_all add: control_inv_def Let_def)
  with fresh False e show ?thesis by (auto simp: control_inv_def Let_def control_fresh_def)
qed

lemma control_inv_step:
  assumes inv: "control_inv tr s" and step: "control_step s e s'"
  shows "control_inv (tr @ [e]) s'"
  using step
proof cases
  case (step_read env n c v self)
  then show ?thesis
    using read_inv [OF inv step_read(3)] by (intro control_inv_core [of _ self]) simp_all
next
  case (step_write env n val c i self evs)
  then show ?thesis
    using write_inv [OF inv step_write(3)] by (intro control_inv_core [of _ self]) simp_all
next
  case (step_process env t self evs)
  have "control_fresh (sys_object s) \<Longrightarrow> self = sys_object s \<and> evs = []"
    using step_process(3) by (simp add: processControlAction_def control_fresh_def)
  then show ?thesis
    using core_processControlAction [OF step_process(3)] step_process(1,2)
    by (intro control_inv_silent [OF inv]) (auto simp: threads_started_def)
next
  case (step_thread k env t self cs evs)
  have "core self = core (sys_object s)" by (rule core_operateThread_step [OF step_thread(4)])
  moreover have "sys_threads s \<noteq> []" using step_thread(3) by auto
  ultimately show ?thesis
    using step_thread(1,2) by (intro control_inv_silent [OF inv]) auto
next
  case (step_unselect env c r self)
  have "control_fresh (sys_object s) \<Longrightarrow> self = sys_object s"
    using step_unselect(3) by (simp add: ControlObject_unselect_def control_fresh_def)
  then show ?thesis
    using core_unselect [OF step_unselect(3)] step_unselect(1,2) by (intro control_inv_silent [OF inv]) auto
next
  case (step_clients cs)
  then show ?thesis by (intro control_inv_silent [OF inv]) auto
qed

lemma control_inv_start: "control_start s \<Longrightarrow> control_inv [] s"
  by (auto simp: control_start_def control_inv_def control_fresh_def last_selector_def Let_def)

interpretation control_run: history_invariant control_step control_start control_inv
  by unfold_locales (rule control_inv_start, assumption, rule control_inv_step)

text \<open>C8: Select before operate: in every run of a control object, with any interleaving of requests of
  clients, timed processing, operate threads and changes of connections, and whatever the
  handlers answer, a request to operate an object with a select-before-operate model is accepted only from
  the connection that last selected the object as seen by the clients, only while the object is ready
  and the selection has not expired, and with enhanced security only if value, origin and control
  number are those of the selection.\<close>

theorem control_operate_needs_selection:
  assumes "control_start s0" and "run control_step s0 tr s"
    and "control_step s (A_write env (lit ''Oper'') val c, R_indication i) s'"
    and "control_accepted i" and "isSbo (sys_object s')"
  shows "last_selector (ct_ctlModel (sys_object s)) tr = Some c \<and>
    ct_state (sys_object s) = STATE_READY \<and> unexpired (sys_object s) (ce_time env) \<and>
    (ct_ctlModel (sys_object s) = 4 \<longrightarrow> matches_request (sys_object s) val)"
proof -
  have inv: "control_inv tr s" by (rule control_run.inv_run [OF assms(2,1)])
  obtain self evs where w: "writeControlVariable env (sys_clients s) (sys_object s) (lit ''Oper'') val c =
      Some (i, self, evs)" and self: "sys_object s' = self"
    using assms(3) by (auto elim: control_stepE)
  obtain o1 where o1: "initialize env (sys_object s) = Some o1"
    using w by (auto simp: writeControlVariable_def bind_eq_Some_conv)
  have "lit ''Oper'' \<noteq> lit ''SBOw''" by (simp add: lit_def)
  then have oper: "writeOper env (sys_clients s) o1 val c = Some (i, self, evs)"
    using w by (simp add: writeControlVariable_def o1)
  note core = writeOper_core [OF oper]
  have sbo: "isSbo o1"
    using core assms(4,5) self by (auto simp: isSbo_def dest!: core_ctlModel)
  have accepted: "ct_clientConnection o1 = Some c" "ct_state o1 = STATE_READY" "unexpired o1 (ce_time env)"
      "ct_ctlModel o1 = 4 \<longrightarrow> matches_request o1 val"
    using core assms(4) sbo by auto
  have "ct_initialized (sys_object s)"
  proof (rule ccontr)
    assume n: "\<not> ct_initialized (sys_object s)"
    then have "control_fresh (sys_object s)" using inv by (simp add: control_inv_def Let_def)
    with accepted(2) initialize_core(3) [OF o1 n] sbo show False by simp
  qed
  with o1 have "o1 = sys_object s" by (simp add: initialize_done)
  with inv sbo accepted \<open>ct_initialized (sys_object s)\<close> show ?thesis
    by (simp add: control_inv_def Let_def)
qed

definition demo_env :: ControlEnv where
  "demo_env = \<lparr>ce_time = 1000,
     ce_cache = (\<lambda>d n. if n = lit ''LN$CF$Pos$ctlModel''
       then Some (MmsValue 0 (V_integer \<lparr>av_size = 1, av_maxSize = 4, av_octets = [2, 0, 0, 0]\<rparr>)) else None),
     ce_domainName = (\<lambda>_. lit ''LD''), ce_lastInvokeId = (\<lambda>_. 5),
     ce_check = (\<lambda>_ _ _ _. CONTROL_ACCEPTED), ce_wait = (\<lambda>_ _ _. True), ce_junk = (\<lambda>_. 0)\<rparr>"

definition demo_oper :: MmsValue where
  "demo_oper = MmsValue 0 (V_structure
     [Some (MmsValue 0 (V_boolean True)),
      Some (MmsValue 0 (V_structure
        [Some (MmsValue 0 (V_integer \<lparr>av_size = 1, av_maxSize = 4, av_octets = [2, 0, 0, 0]\<rparr>)),
         Some (MmsValue 0 (V_octetString 1 1 [0x61]))])),
      Some (MmsValue 0 (V_unsigned \<lparr>av_size = 1, av_maxSize = 4, av_octets = [1, 0, 0, 0]\<rparr>)),
      Some (MmsValue 0 (V_utcTime [0, 0, 0, 0, 0, 0, 0, 0])),
      Some (MmsValue 0 (V_boolean False)),
      Some (MmsValue 0 (V_bitString 2 [0]))])"

definition demo_control :: ControlSystem where
  "demo_control = \<lparr>sys_object = ControlObject_setOper (ControlObject_setMmsValue
       (ControlObject_create 1 (lit ''LN'') (lit ''Pos'')) (Some (MmsValue 0 (V_structure [Some demo_oper])))) (Some 0),
     sys_clients = [(9, private_ClientConnection_create 7)], sys_threads = [], sys_started = 0\<rparr>"

definition demo_selected :: ControlSystem where
  "demo_selected = (case readControlVariable demo_env (sys_object demo_control) (Some (lit ''SBO'')) 7 of
     Some (v, self) \<Rightarrow> demo_control\<lparr>sys_object := self\<rparr> | None \<Rightarrow> demo_control)"

definition demo_operated :: "MmsDataAccessError \<times> ControlObject \<times> ControlEvent list" where
  "demo_operated = the (writeControlVariable demo_env (sys_clients demo_selected) (sys_object demo_selected)
     (lit ''Oper'') demo_oper 7)"

lemma demo_eval:
  "readControlVariable demo_env (sys_object demo_control) (Some (lit ''SBO'')) 7 =
     Some (ct_sbo (sys_object demo_selected), sys_object demo_selected)"
  by code_simp

lemma demo_write:
  "writeControlVariable demo_env (sys_clients demo_selected) (sys_object demo_selected) (lit ''Oper'')
     demo_oper 7 \<noteq> None"
  by code_simp

lemma demo_written:
  "fst demo_operated = DATA_ACCESS_ERROR_NO_RESPONSE"
  "ct_ctlModel (fst (snd demo_operated)) = 2"
  "threads_started (snd (snd demo_operated)) = [T_started]"
  by code_simp+

definition demo_operating :: ControlSystem where
  "demo_operating = demo_selected\<lparr>sys_object := fst (snd demo_operated), sys_threads := [T_started], sys_started := 1\<rparr>"

lemma demo_run:
  "control_start demo_control"
  "run control_step demo_control
     [(A_read demo_env (Some (lit ''SBO'')) 7, R_value (ct_sbo (sys_object demo_selected)))] demo_selected"
  "control_step demo_selected
     (A_write demo_env (lit ''Oper'') demo_oper 7, R_indication DATA_ACCESS_ERROR_NO_RESPONSE) demo_operating"
proof -
  show "control_start demo_control"
    by (simp add: control_start_def control_fresh_def demo_control_def ControlObject_setOper_def
        ControlObject_setMmsValue_def ControlObject_create_def)
  have sel: "demo_selected = demo_control\<lparr>sys_object := sys_object demo_selected\<rparr>"
    unfolding demo_selected_def by (simp add: demo_eval split: option.split prod.split)
  have "control_step demo_control
      (A_read demo_env (Some (lit ''SBO'')) 7, R_value (ct_sbo (sys_object demo_selected)))
      (demo_control\<lparr>sys_object := sys_object demo_selected\<rparr>)"
    by (rule step_read [OF demo_eval])
  then have "control_step demo_control
      (A_read demo_env (Some (lit ''SBO'')) 7, R_value (ct_sbo (sys_object demo_selected))) demo_selected"
    by (simp only: sel [symmetric])
  from run_step [where step = control_step, OF run_start this] show "run control_step demo_control
      [(A_read demo_env (Some (lit ''SBO'')) 7, R_value (ct_sbo (sys_object demo_selected)))] demo_selected"
    by (simp only: append_Nil)
  have none: "sys_threads demo_selected = []" "sys_started demo_selected = 0"
    by (subst sel, simp add: demo_control_def)+
  have "writeControlVariable demo_env (sys_clients demo_selected) (sys_object demo_selected) (lit ''Oper'')
      demo_oper 7 = Some (fst demo_operated, fst (snd demo_operated), snd (snd demo_operated))"
    using demo_write by (simp add: demo_operated_def)
  from step_write [OF this] show "control_step demo_selected
     (A_write demo_env (lit ''Oper'') demo_oper 7, R_indication DATA_ACCESS_ERROR_NO_RESPONSE) demo_operating"
    by (simp only: demo_written none append_Nil demo_operating_def length_Cons list.size(3) add_0 One_nat_def)
qed

theorem control_operate_needs_selection_witness:
  "last_selector (ct_ctlModel (sys_object demo_selected))
     [(A_read demo_env (Some (lit ''SBO'')) 7, R_value (ct_sbo (sys_object demo_selected)))] = Some 7 \<and>
   ct_state (sys_object demo_selected) = STATE_READY"
proof -
  have "isSbo (sys_object demo_operating)" by (simp add: demo_operating_def demo_written isSbo_def)
  from control_operate_needs_selection [OF demo_run _ this] show ?thesis
    unfolding control_accepted_def by blast
qed

section \<open>What is executed\<close>

text \<open>A pending operation counts as one until it is started or given up.\<close>

definition pending :: "ControlObject \<Rightarrow> nat" where
  "pending self = (if ct_timeActivatedOperate self then 1 else 0)"


lemma pending_le: "pending self \<le> 1"
  by (simp add: pending_def)

lemma threads_started_simps [simp]:
  "threads_started [] = []" "threads_started [E_operateThread] = [T_started]"
  "E_operateThread \<notin> set evs \<Longrightarrow> threads_started evs = []"
  by (auto simp: threads_started_def filter_empty_conv)









end
