(* ===== verification/Control_Safety.thy ===== *)
theory Control_Safety
  imports Control
begin

text \<open>
  Single requests to a control object (\<open>src/src/iedserver/mms_mapping/control.c\<close>): what a selection
  protects against, how an operation ends, what cancelling, operative checks and malformed requests do,
  and how the object is found by the name of a variable.
\<close>

section \<open>What a selection protects against\<close>

lemma check_code_true [simp]: "int_to_bool (check_code r)"
  by (cases r) (simp_all add: int_to_bool_def)

lemma unexpired_timeout: "unexpired self t \<Longrightarrow> checkSelectTimeout self t = self"
  by (auto simp: checkSelectTimeout_def unexpired_def not_less)

text \<open>Equal but for the fields of the last error report and the test mode.\<close>

definition same_selection :: "ControlObject \<Rightarrow> ControlObject \<Rightarrow> bool" where
  "same_selection self self' \<longleftrightarrow> self' = self\<lparr>ct_error := ct_error self', ct_addCause := ct_addCause self',
     ct_testMode := ct_testMode self'\<rparr>"

lemma same_selection_report:
  "ControlObject_sendLastApplError self c v e a n org m = Some (ev, self') \<Longrightarrow>
   same_selection self self' \<and> ev \<noteq> E_operateThread"
  by (auto simp: same_selection_def dest!: sendLastApplError_frame)

lemma same_selection_refl [simp]: "same_selection self self"
  by (simp add: same_selection_def)

lemma same_selection_testMode [simp]: "same_selection self (self\<lparr>ct_testMode := b\<rparr>)"
  by (simp add: same_selection_def)

text \<open>C19: A selected object is safe from other clients: while the selection of one client has not expired and
  no time-activated operation is pending, no write of another client succeeds, starts an operation or
  changes the object (but for its error report and test mode), and reading \<open>SBO\<close> does not select it.\<close>

theorem control_selection_protected:
  assumes "ct_initialized self" and "isSbo self" and "ct_state self = STATE_READY"
    and "ct_clientConnection self = Some c" and "c \<noteq> d" and "unexpired self (ce_time env)"
    and "\<not> ct_timeActivatedOperate self"
  shows "(case writeControlVariable env cs self n val d of
      None \<Rightarrow> True
    | Some (i, self', evs) \<Rightarrow>
        \<not> control_accepted i \<and> E_operateThread \<notin> set evs \<and> same_selection self self') \<and>
    (ct_ctlModel self = 2 \<longrightarrow>
      readControlVariable env self (Some (lit ''SBO'')) d = Some (ct_emptyString self, self))"
proof -
  note [simp] = initialize_done [OF assms(1)] unexpired_timeout [OF assms(6)]
  have lits: "lit ''SBO'' \<noteq> lit ''Oper''" "lit ''SBO'' \<noteq> lit ''SBOw''" by (simp_all add: lit_def)
  have sbow: "\<not> control_accepted i \<and> E_operateThread \<notin> set evs \<and> same_selection self self'"
    if "writeSBOw env cs self val d = Some (i, self', evs)" for i self' evs
    using that assms(3)
    by (auto simp: writeSBOw_def getState_def control_accepted_def bind_eq_Some_conv Let_def
        split: option.splits if_splits dest!: same_selection_report)
  have oper: "\<not> control_accepted i \<and> E_operateThread \<notin> set evs \<and> same_selection self self'"
    if "writeOper env cs self val d = Some (i, self', evs)" for i self' evs
    using that assms(2-5)
    by (auto simp: writeOper_def operateReady_def getState_def control_accepted_def bind_eq_Some_conv
        isSbo_def Let_def split: option.splits if_splits)
  have cancel: "\<not> control_accepted i \<and> E_operateThread \<notin> set evs \<and> same_selection self self'"
    if "writeCancel env self val d = Some (i, self', evs)" for i self' evs
    using that assms(2-5,7)
    by (auto simp: writeCancel_def cancelActivation_def getState_def control_accepted_def
        bind_eq_Some_conv split: option.splits if_splits
        dest!: sendLastApplError_frame) (auto simp: same_selection_def)
  have written: "case writeControlVariable env cs self n val d of
      None \<Rightarrow> True
    | Some (i, self', evs) \<Rightarrow> \<not> control_accepted i \<and> E_operateThread \<notin> set evs \<and> same_selection self self'"
    using sbow oper cancel
    by (auto simp: writeControlVariable_def control_accepted_def split: option.splits)
  have "readControlVariable env self (Some (lit ''SBO'')) d = Some (ct_emptyString self, self)"
    if "ct_ctlModel self = 2"
    using that assms(3) lits by (simp add: readControlVariable_def readSBO_def getState_def)
  with written show ?thesis by blast
qed

theorem control_selection_protected_witness:
  "readControlVariable demo_env (sys_object demo_selected) (Some (lit ''SBO'')) 8 =
     Some (ct_emptyString (sys_object demo_selected), sys_object demo_selected) \<and>
   (case writeControlVariable demo_env [] (sys_object demo_selected) (lit ''Oper'') demo_oper 8 of
      None \<Rightarrow> True
    | Some (i, self', evs) \<Rightarrow> \<not> control_accepted i \<and> E_operateThread \<notin> set evs \<and>
        same_selection (sys_object demo_selected) self') \<and>
   writeControlVariable demo_env [] (sys_object demo_selected) (lit ''Oper'') demo_oper 8 \<noteq> None"
proof -
  have "ct_initialized (sys_object demo_selected)" "isSbo (sys_object demo_selected)"
      "ct_state (sys_object demo_selected) = STATE_READY"
      "ct_clientConnection (sys_object demo_selected) = Some 7" "(7 :: nat) \<noteq> 8"
      "unexpired (sys_object demo_selected) (ce_time demo_env)"
      "\<not> ct_timeActivatedOperate (sys_object demo_selected)"
      "ct_ctlModel (sys_object demo_selected) = 2"
      "writeControlVariable demo_env [] (sys_object demo_selected) (lit ''Oper'') demo_oper 8 \<noteq> None"
    by code_simp+
  then show ?thesis
    using control_selection_protected [of "sys_object demo_selected" 7 8 demo_env "[]" "lit ''Oper''" demo_oper]
    by blast
qed


section \<open>Cancellation, checks and malformed requests\<close>

text \<open>Cancelling a time-activated operation of a select-before-operate object works the wrong way round:
  the client it belongs to gets a success, but only the state changes, and the operation is started when
  its time comes; another client gets a success as well, and the operation is gone.\<close>

theorem control_cancel_wrong_client:
  assumes "ct_initialized self" and "isSbo self" and "ct_state self = STATE_WAIT_FOR_ACTICATION_TIME"
    and "ct_timeActivatedOperate self" and "ct_clientConnection self = Some c" and "c \<noteq> d"
    and "getCancelParameterCtlNum val = Some n" and "getCancelParameterOrigin val = Some org"
    and "ct_operateTime self \<le> t"
  shows "(\<exists>self'. writeControlVariable env cs self (lit ''Cancel'') val c =
        Some (DATA_ACCESS_ERROR_SUCCESS, self', []) \<and> ct_state self' = STATE_UNSELECTED \<and>
        (\<exists>self''. processControlAction env' t self' = Some (self'', [E_operateThread]))) \<and>
    (case writeControlVariable env cs self (lit ''Cancel'') val d of
      None \<Rightarrow> True
    | Some (i, self', evs) \<Rightarrow> i = DATA_ACCESS_ERROR_SUCCESS \<and> \<not> ct_timeActivatedOperate self' \<and>
        processControlAction env' t self' = Some (self', []))"
proof -
  have lits: "lit ''Cancel'' \<noteq> lit ''Oper''" "lit ''Cancel'' \<noteq> lit ''SBOw''" by (simp_all add: lit_def)
  have written: "writeControlVariable env cs self (lit ''Cancel'') val x = writeCancel env self val x" for x
    using lits by (simp add: writeControlVariable_def initialize_done [OF assms(1)])
  have owner: "writeCancel env self val c = Some (DATA_ACCESS_ERROR_SUCCESS, setState self STATE_UNSELECTED, [])"
    using assms(2-5,7,8) by (simp add: writeCancel_def getState_def)
  have starts: "\<exists>self''. processControlAction env' t (setState self STATE_UNSELECTED) =
      Some (self'', [E_operateThread])"
    using assms(4,9) by (simp add: setState_def processControlAction_def Let_def)
  have other: "i = DATA_ACCESS_ERROR_SUCCESS \<and> \<not> ct_timeActivatedOperate self' \<and>
      processControlAction env' t self' = Some (self', [])"
    if "writeCancel env self val d = Some (i, self', evs)" for i self' evs
    using that assms(2-8)
    by (auto simp: writeCancel_def getState_def cancelActivation_def processControlAction_def
        bind_eq_Some_conv dest!: abort_frame sendLastApplError_frame)
  show ?thesis
    unfolding written owner using starts other by (auto simp: setState_def split: option.splits)
qed

definition demo_cancel :: MmsValue where
  "demo_cancel = MmsValue 0 (V_structure
     [Some (MmsValue 0 (V_boolean True)),
      Some (MmsValue 0 (V_structure [None, None])),
      Some (MmsValue 0 (V_unsigned \<lparr>av_size = 1, av_maxSize = 4, av_octets = [1, 0, 0, 0]\<rparr>)),
      Some (MmsValue 0 (V_utcTime [0, 0, 0, 0, 0, 0, 0, 0])),
      Some (MmsValue 0 (V_boolean False))])"

definition demo_waiting :: ControlObject where
  "demo_waiting = setState ((sys_object demo_selected)\<lparr>ct_timeActivatedOperate := True, ct_operateTime := 500\<rparr>)
     STATE_WAIT_FOR_ACTICATION_TIME"

theorem control_cancel_wrong_client_witness:
  "\<exists>self'. writeControlVariable demo_env [] demo_waiting (lit ''Cancel'') demo_cancel 7 =
     Some (DATA_ACCESS_ERROR_SUCCESS, self', []) \<and>
     (\<exists>self''. processControlAction demo_env 600 self' = Some (self'', [E_operateThread]))"
proof -
  have "ct_initialized demo_waiting" "isSbo demo_waiting"
      "ct_state demo_waiting = STATE_WAIT_FOR_ACTICATION_TIME" "ct_timeActivatedOperate demo_waiting"
      "ct_clientConnection demo_waiting = Some 7" "(7 :: nat) \<noteq> 8"
      "getCancelParameterCtlNum demo_cancel = Some (the (getCancelParameterCtlNum demo_cancel))"
      "getCancelParameterOrigin demo_cancel = Some (the (getCancelParameterOrigin demo_cancel))"
      "ct_operateTime demo_waiting \<le> 600"
    by code_simp+
  from control_cancel_wrong_client [OF this, of demo_env "[]" demo_env] show ?thesis by blast
qed

text \<open>The answer of the check handler is converted to \<open>bool\<close>, and every answer is a non-zero number: selecting
  an object, with or without value, and starting a time-activated operation go on whatever the
  handler says.\<close>

theorem control_check_ignored:
  "readSBO (env\<lparr>ce_check := h\<rparr>) self c = readSBO env self c \<and>
   writeSBOw (env\<lparr>ce_check := h\<rparr>) cs self val c = writeSBOw env cs self val c \<and>
   processControlAction (env\<lparr>ce_check := h\<rparr>) t self = processControlAction env t self"
proof (intro conjI)
  have [simp]: "cached (env\<lparr>ce_check := h\<rparr>) = cached env" by (simp add: cached_def fun_eq_iff)
  have [simp]: "selectObject (env\<lparr>ce_check := h\<rparr>) = selectObject env"
    by (auto simp: selectObject_def updateSboTimeoutValue_def fun_eq_iff split: option.split)
  have [simp]: "updateControlParameters (env\<lparr>ce_check := h\<rparr>) = updateControlParameters env"
    by (simp add: updateControlParameters_def fun_eq_iff)
  have [simp]: "abortControlOperation (env\<lparr>ce_check := h\<rparr>) = abortControlOperation env"
    by (auto simp: abortControlOperation_def isSboClassOperateOnce_def fun_eq_iff split: option.split)
  show "readSBO (env\<lparr>ce_check := h\<rparr>) self c = readSBO env self c"
    by (simp add: readSBO_def Let_def cong: if_cong)
  show "writeSBOw (env\<lparr>ce_check := h\<rparr>) cs self val c = writeSBOw env cs self val c"
    by (simp add: writeSBOw_def Let_def cong: if_cong option.case_cong)
  show "processControlAction (env\<lparr>ce_check := h\<rparr>) t self = processControlAction env t self"
    by (simp add: processControlAction_def Let_def cong: if_cong)
qed


section \<open>The end of an operation\<close>

lemma on_client_balanced [simp]:
  "on_client private_ClientConnection_decreaseTasksCount c
     (on_client private_ClientConnection_increaseTasksCount c cs) = cs"
  by (induction cs)
    (auto simp: on_client_def private_ClientConnection_decreaseTasksCount_def
      private_ClientConnection_increaseTasksCount_def)

lemma createStringInBuffer_fits: "length (concat xs) < n \<Longrightarrow> createStringInBuffer n xs = Some (concat xs)"
  by (simp add: createStringInBuffer_def)

lemma length_lit [simp]: "length (lit s) = length s"
  by (simp add: lit_def)

text \<open>The item name of the operate variable of an object.\<close>

definition oper_item :: "ControlObject \<Rightarrow> cstring" where
  "oper_item self = ct_lnName self @ lit ''$CO$'' @ ct_name self @ lit ''$Oper''"

lemma abort_eq:
  "isSboClassOperateOnce env self = Some once \<Longrightarrow>
   abortControlOperation env self = Some (self\<lparr>ct_state := if isSbo self \<and> once then STATE_UNSELECTED else STATE_READY\<rparr>)"
  by (simp add: abortControlOperation_def setState_def)

text \<open>C18: An operate thread that was not time-activated runs to its end: the client gets exactly one response, success if
  the handler that waits for the execution agrees and access denied otherwise; with success the listener is told
  value and test flag, and with enhanced security a command termination follows; the object is back at
  rest (selected again for an operate-many object), and the number of tasks of the client is as before.\<close>

theorem control_thread_completes:
  assumes "private_IedServer_getClientConnectionByHandle cs (ct_clientConnection self) = Some c"
    and "ct_state self \<noteq> STATE_WAIT_FOR_ACTICATION_TIME"
    and "isSboClassOperateOnce env self = Some once"
    and "length (oper_item self) < 130"
  shows "controlOperateThread env self cs =
    (let ok = (ct_waitForExecutionHandler self \<longrightarrow>
           ce_wait env (ct_ctlVal self) (ct_testMode self) (ct_synchroCheck self))
     in Some (self\<lparr>ct_state := if isSbo self \<and> once then STATE_UNSELECTED else STATE_READY,
          ct_selectTime := if ok then ce_time env else ct_selectTime self\<rparr>,
        cs,
        E_writeResponse (ct_clientConnection self) (ct_operateInvokeId self)
          (if ok then DATA_ACCESS_ERROR_SUCCESS else DATA_ACCESS_ERROR_OBJECT_ACCESS_DENIED) #
        (if ok then (if ct_listener self then [E_listener (ct_ctlVal self) (ct_testMode self)] else []) @
           (if ct_ctlModel self = 3 \<or> ct_ctlModel self = 4
            then [E_commandTermination (ct_clientConnection self) (ce_domainName env (ct_mmsDomain self))
              (oper_item self) (ControlObject_getOper self)]
            else [])
         else [])))"
proof -
  define s1 where "s1 = self\<lparr>ct_state := STATE_WAIT_FOR_EXECUTION\<rparr>"
  define ok where "ok \<longleftrightarrow> (ct_waitForExecutionHandler self \<longrightarrow>
    ce_wait env (ct_ctlVal self) (ct_testMode self) (ct_synchroCheck self))"
  have once: "isSboClassOperateOnce env (self\<lparr>ct_state := st, ct_selectTime := t\<rparr>) = Some once"
      "isSboClassOperateOnce env (self\<lparr>ct_state := st\<rparr>) = Some once" for st t
    using assms(3) by (auto simp: isSboClassOperateOnce_def cached_def split: option.splits)
  have item: "createStringInBuffer 130 [ct_lnName self, lit ''$CO$'', ct_name self, lit ''$Oper''] =
      Some (oper_item self)"
    using assms(4) by (subst createStringInBuffer_fits) (simp_all add: oper_item_def)
  have start: "operateThread_begin self cs = (Some (T_waiting False c), s1,
      on_client private_ClientConnection_increaseTasksCount c cs)"
    using assms(1,2) by (simp add: operateThread_begin_def getState_def setState_def s1_def)
  have wait: "operateThread_wait env False s1 = (if ok
      then Some (True, self\<lparr>ct_state := STATE_OPERATE\<rparr>, [E_writeResponse (ct_clientConnection self)
          (ct_operateInvokeId self) DATA_ACCESS_ERROR_SUCCESS])
      else Some (False, self\<lparr>ct_state := if isSbo self \<and> once then STATE_UNSELECTED else STATE_READY\<rparr>,
          [E_writeResponse (ct_clientConnection self) (ct_operateInvokeId self)
            DATA_ACCESS_ERROR_OBJECT_ACCESS_DENIED]))"
    by (auto simp: operateThread_wait_def s1_def ok_def setState_def abort_eq [OF once(2)] isSbo_def)
  have operate: "operateThread_operate env t (self\<lparr>ct_state := STATE_OPERATE\<rparr>) =
      Some (self\<lparr>ct_state := if isSbo self \<and> once then STATE_UNSELECTED else STATE_READY, ct_selectTime := t\<rparr>,
        (if ct_listener self then [E_listener (ct_ctlVal self) (ct_testMode self)] else []) @
        (if ct_ctlModel self = 3 \<or> ct_ctlModel self = 4
         then [E_commandTermination (ct_clientConnection self) (ce_domainName env (ct_mmsDomain self))
           (oper_item self) (ControlObject_getOper self)] else []))" for t
    by (auto simp: operateThread_operate_def ControlObject_operate_def abort_eq [OF once(1)] isSbo_def
        ControlObject_sendCommandTerminationReq_def item ControlObject_getOper_def component_of_def
        split: option.splits)
  show ?thesis
    by (simp add: controlOperateThread_def start wait operate ok_def Let_def)
qed

theorem control_thread_completes_witness:
  "\<exists>self'. controlOperateThread demo_env (fst (snd demo_operated)) (sys_clients demo_control) =
     Some (self', sys_clients demo_control, [E_writeResponse (Some 7) 5 DATA_ACCESS_ERROR_SUCCESS]) \<and>
   ct_state self' = STATE_UNSELECTED"
proof -
  have pre: "private_IedServer_getClientConnectionByHandle (sys_clients demo_control)
        (ct_clientConnection (fst (snd demo_operated))) = Some 9"
      "ct_state (fst (snd demo_operated)) \<noteq> STATE_WAIT_FOR_ACTICATION_TIME"
      "isSboClassOperateOnce demo_env (fst (snd demo_operated)) = Some True"
      "length (oper_item (fst (snd demo_operated))) < 130"
    by code_simp+
  have "ct_clientConnection (fst (snd demo_operated)) = Some 7" "ct_operateInvokeId (fst (snd demo_operated)) = 5"
      "\<not> ct_waitForExecutionHandler (fst (snd demo_operated))" "\<not> ct_listener (fst (snd demo_operated))"
      "ct_ctlModel (fst (snd demo_operated)) = 2"
    by code_simp+
  then show ?thesis
    using control_thread_completes [OF pre] by (simp add: isSbo_def)
qed


section \<open>Malformed requests\<close>

lemma structure_parameter_missing:
  "map_of indexes (length comps) = None \<Longrightarrow> structure_parameter (MmsValue d (V_structure comps)) indexes = None"
  by (simp add: structure_parameter_def MmsValue_getType_def MmsValue_getArraySize_def
      components_def)

text \<open>A structure of eight or more components as the value of a control request: written to \<open>Oper\<close>
  it is refused as an invalid value, written to \<open>SBOw\<close> of an object with enhanced security it makes the
  server use the missing origin parameter.\<close>

theorem control_oversized_request:
  assumes "ct_initialized self" and "8 \<le> length comps" and "hd comps \<noteq> None"
  shows "writeControlVariable env cs self (lit ''Oper'') (MmsValue d (V_structure comps)) c =
      Some (DATA_ACCESS_ERROR_OBJECT_VALUE_INVALID, self, []) \<and>
    (ct_ctlModel self = 4 \<longrightarrow>
      writeControlVariable env cs self (lit ''SBOw'') (MmsValue d (V_structure comps)) c = None)"
proof -
  define val where "val = MmsValue d (V_structure comps)"
  have lits: "lit ''Oper'' \<noteq> lit ''SBOw''" by (simp add: lit_def)
  have none: "getOperParameterTest val = None" "getOperParameterOrigin val = None"
    using assms(2)
    by (simp_all add: val_def getOperParameterTest_def getOperParameterOrigin_def structure_parameter_missing)
  obtain v where "getCtlVal val = Some v"
    using assms(2,3) by (cases comps)
      (auto simp: val_def getCtlVal_def MmsValue_getType_def MmsValue_getArraySize_def
        MmsValue_getElement_def components_def)
  with none lits show ?thesis
    unfolding val_def [symmetric]
    by (simp add: writeControlVariable_def initialize_done [OF assms(1)] writeOper_def writeSBOw_def
        checkValidityOfOriginParameter_def Let_def split: option.split)
qed

theorem control_oversized_request_witness:
  "writeControlVariable demo_env [] ((sys_object demo_selected)\<lparr>ct_ctlModel := 4\<rparr>) (lit ''SBOw'')
     (MmsValue 0 (V_structure (replicate 8 (Some demo_oper)))) 7 = None"
proof -
  have "ct_initialized ((sys_object demo_selected)\<lparr>ct_ctlModel := 4\<rparr>)" by code_simp
  from control_oversized_request [OF this, of "replicate 8 (Some demo_oper)" demo_env "[]" 0 7] show ?thesis
    by simp
qed


section \<open>Finding the object\<close>

lemma getNextNameElement_append:
  "0x24 \<notin> set a \<Longrightarrow> b \<noteq> [] \<Longrightarrow> MmsMapping_getNextNameElement (a @ 0x24 # b) = Some b"
  by (simp add: MmsMapping_getNextNameElement_def dropWhile_append)

definition control_variables :: "cstring list" where
  "control_variables = [lit ''Oper'', lit ''SBO'', lit ''SBOw'', lit ''Cancel'']"

lemma varName_loop_control: "v \<in> set control_variables \<Longrightarrow> varName_loop v = Some v"
  by (subst varName_loop.simps) (auto simp: control_variables_def isControlVariable_def lit_def)

lemma splitControlName_eq:
  assumes "0x24 \<notin> set ln" and "0x24 \<notin> set fc" and "0x24 \<notin> set obj" and "v \<in> set control_variables"
    and "length ln + length fc + length obj + length v \<le> 125"
  shows "splitControlName (ln @ 0x24 # fc @ 0x24 # obj @ 0x24 # v) = Some (ln, obj, Some v)"
proof -
  define name where "name = ln @ 0x24 # fc @ 0x24 # obj @ 0x24 # v"
  have v: "v \<noteq> []" using assms(4) by (auto simp: control_variables_def lit_def)
  have short: "take 128 name = name" using assms(5) by (simp add: name_def)
  have ln: "takeWhile (\<lambda>c. c \<noteq> 0x24) name = ln" "tl (dropWhile (\<lambda>c. c \<noteq> 0x24) name) = fc @ 0x24 # obj @ 0x24 # v"
    using assms(1) by (simp_all add: name_def takeWhile_append dropWhile_append)
  have "MmsMapping_getNextNameElement (fc @ 0x24 # obj @ 0x24 # v) = Some (obj @ 0x24 # v)"
    using assms(2) by (rule getNextNameElement_append) simp
  moreover have "MmsMapping_getNextNameElement (obj @ 0x24 # v) = Some v"
    using assms(3) v by (rule getNextNameElement_append)
  moreover have "0x24 \<in> set name" by (simp add: name_def)
  ultimately show ?thesis
    unfolding splitControlName_def name_def [symmetric]
    by (simp add: short ln varName_loop_control [OF assms(4)])
qed

definition control_key :: "ControlObject \<Rightarrow> MmsDomain \<times> cstring \<times> cstring" where
  "control_key self = (ct_mmsDomain self, ct_lnName self, ct_name self)"

lemma lookup_distinct:
  "distinct (map control_key objects) \<Longrightarrow> i < length objects \<Longrightarrow> control_key (objects ! i) = (d, ln, obj) \<Longrightarrow>
   Control_lookupControlObject objects d ln obj = Some i"
proof (induction objects arbitrary: i)
  case (Cons c cs)
  show ?case
  proof (cases i)
    case 0
    then show ?thesis using Cons.prems by (simp add: control_key_def)
  next
    case (Suc j)
    then have "control_key c \<noteq> (d, ln, obj)"
      using Cons.prems by (metis distinct.simps(2) length_Cons list.simps(9) map_eq_conv nth_Cons_Suc nth_mem
          in_set_conv_nth length_map nth_map Suc_less_eq)
    then show ?thesis using Cons Suc by (auto simp: control_key_def)
  qed
qed simp

text \<open>C20: A request for the variable \<open>LN$FC$object$Oper\<close> (or \<open>SBO\<close>, \<open>SBOw\<close>, \<open>Cancel\<close>) reaches the one control object
  of that domain, node and name, and leaves every other object as it is.\<close>

theorem control_dispatch:
  assumes "0x24 \<notin> set ln" and "0x24 \<notin> set fc" and "0x24 \<notin> set obj" and "v \<in> set control_variables"
    and "length ln + length fc + length obj + length v \<le> 125"
    and "distinct (map control_key objects)" and "i < length objects"
    and "control_key (objects ! i) = (d, ln, obj)"
  shows "Control_writeAccessControlObject env cs objects d (ln @ 0x24 # fc @ 0x24 # obj @ 0x24 # v) val c =
      map_option (\<lambda>(r, self, evs). (r, objects[i := self], evs))
        (writeControlVariable env cs (objects ! i) v val c) \<and>
    Control_readAccessControlObject env objects d (ln @ 0x24 # fc @ 0x24 # obj @ 0x24 # v) c =
      map_option (\<lambda>(r, self). (r, objects[i := self])) (readControlVariable env (objects ! i) (Some v) c)"
  using splitControlName_eq [OF assms(1-5)] lookup_distinct [OF assms(6-8)]
  by (simp add: Control_writeAccessControlObject_def Control_readAccessControlObject_def map_option_case
      split_def bind_eq_Some_conv split: option.split Option.bind_split)

theorem control_dispatch_witness:
  "Control_readAccessControlObject demo_env [ControlObject_create 1 (lit ''LN'') (lit ''Mod''), sys_object demo_control]
     1 (lit ''LN$CO$Pos$SBO'') 7 =
   Some (ct_sbo (sys_object demo_selected),
     [ControlObject_create 1 (lit ''LN'') (lit ''Mod''), sys_object demo_selected])"
proof -
  have pre: "0x24 \<notin> set (lit ''LN'')" "0x24 \<notin> set (lit ''CO'')" "0x24 \<notin> set (lit ''Pos'')"
      "lit ''SBO'' \<in> set control_variables"
      "length (lit ''LN'') + length (lit ''CO'') + length (lit ''Pos'') + length (lit ''SBO'') \<le> 125"
    by code_simp+
  have objs: "distinct (map control_key [ControlObject_create 1 (lit ''LN'') (lit ''Mod''), sys_object demo_control])"
      "1 < length [ControlObject_create 1 (lit ''LN'') (lit ''Mod''), sys_object demo_control]"
      "control_key ([ControlObject_create 1 (lit ''LN'') (lit ''Mod''), sys_object demo_control] ! 1) =
        (1, lit ''LN'', lit ''Pos'')"
    by code_simp+
  have name: "lit ''LN'' @ 0x24 # lit ''CO'' @ 0x24 # lit ''Pos'' @ 0x24 # lit ''SBO'' = lit ''LN$CO$Pos$SBO''"
    by code_simp
  from control_dispatch [OF pre objs, of demo_env "[]" demo_oper 7] show ?thesis
    by (simp add: name demo_eval)
qed

end
