(* ===== verification/Report_Buffer.thy ===== *)
theory Report_Buffer
  imports "HOL-Library.Sublist" "HOL-Library.Monad_Syntax"
begin

text \<open>
  The buffer of a buffered report control block (\<open>src/src/iedserver/mms_mapping/reporting.c\<close>): entries
  of varying length in one memory block, linked by pointers, the oldest ones making room for new ones.

  A pointer into the block is its offset, \<open>None\<close> is \<open>NULL\<close>. The memory maps an offset to the entry whose
  header is there, as long as no octet of the entry has been overwritten; reading a header that is not there
  is undefined (\<open>None\<close>). What follows the header is the data of the entry, of any type here.
\<close>

section \<open>The buffer\<close>

record 'd ReportBufferEntry =
  en_entryLength :: nat
  en_next :: "nat option"
  en_data :: 'd

type_synonym 'd block = "nat \<rightharpoonup> 'd ReportBufferEntry"

record 'd ReportBuffer =
  bf_memoryBlock :: "'d block"
  bf_memoryBlockSize :: nat
  bf_reportsCount :: int
  bf_oldestReport :: "nat option"
  bf_lastEnqueuedReport :: "nat option"
  bf_nextToTransmit :: "nat option"

definition CONFIG_REPORTING_DEFAULT_REPORT_BUFFER_SIZE :: nat where
  "CONFIG_REPORTING_DEFAULT_REPORT_BUFFER_SIZE = 65536"

definition ReportBuffer_create :: "'d ReportBuffer" where
  "ReportBuffer_create =
     \<lparr>bf_memoryBlock = Map.empty, bf_memoryBlockSize = CONFIG_REPORTING_DEFAULT_REPORT_BUFFER_SIZE,
      bf_reportsCount = 0, bf_oldestReport = None, bf_lastEnqueuedReport = None,
      bf_nextToTransmit = None\<rparr>"

definition purgeBuf :: "'d ReportBuffer \<Rightarrow> 'd ReportBuffer" where
  "purgeBuf reportBuffer = reportBuffer\<lparr>bf_lastEnqueuedReport := None, bf_oldestReport := None,
     bf_nextToTransmit := None, bf_reportsCount := 0\<rparr>"

text \<open>The block after the octets from \<open>p\<close> to \<open>p + n\<close> have been overwritten.\<close>

definition clobber :: "nat \<Rightarrow> nat \<Rightarrow> 'd block \<Rightarrow> 'd block" where
  "clobber p n m = (\<lambda>q. case m q of
     None \<Rightarrow> None
   | Some e \<Rightarrow> if q < p + n \<and> p < q + en_entryLength e then None else Some e)"

text \<open>Setting the field \<open>next\<close> of the header at \<open>p\<close>; where there is no entry, other entries there lose
  octets. The size of a header is a parameter.\<close>

definition store_next :: "nat \<Rightarrow> nat \<Rightarrow> nat option \<Rightarrow> 'd block \<Rightarrow> 'd block" where
  "store_next header p v m =
     (case m p of
        Some e \<Rightarrow> m(p \<mapsto> e\<lparr>en_next := v\<rparr>)
      | None \<Rightarrow> clobber p header m)"

text \<open>The body of the loops that remove old reports, and the loops: each goes on as long as its condition
  holds for the oldest report.\<close>

definition removeOldest :: "'d ReportBuffer \<Rightarrow> 'd ReportBuffer option" where
  "removeOldest buffer = do {
     oldest \<leftarrow> bf_oldestReport buffer;
     entry \<leftarrow> bf_memoryBlock buffer oldest;
     Some (buffer\<lparr>bf_nextToTransmit := (if bf_nextToTransmit buffer = Some oldest then en_next entry
             else bf_nextToTransmit buffer),
           bf_oldestReport := en_next entry,
           bf_reportsCount := bf_reportsCount buffer - 1\<rparr>)
   }"

partial_function (option) removeWhile ::
  "(nat \<Rightarrow> bool) \<Rightarrow> 'd ReportBuffer \<Rightarrow> 'd ReportBuffer option" where
  "removeWhile c buffer =
     (case bf_oldestReport buffer of
        None \<Rightarrow> Some buffer
      | Some oldest \<Rightarrow>
          if c oldest then do {
            buffer \<leftarrow> removeOldest buffer;
            removeWhile c buffer
          }
          else Some buffer)"

text \<open>The place of a new entry of \<open>n\<close> octets, and the buffer with the entries it would overwrite
  removed. The cases are those of \<open>enqueueReport\<close>: no entry; one entry; the last entry above the oldest
  one; the last entry below the oldest one.\<close>

definition placeBehindOne ::
  "nat \<Rightarrow> 'd ReportBuffer \<Rightarrow> nat \<Rightarrow> 'd ReportBufferEntry \<Rightarrow> nat \<Rightarrow> (nat \<times> 'd ReportBuffer) option" where
  "placeBehindOne header buffer l lastEntry n =
     (let entryBufPos = l + en_entryLength lastEntry in
      if bf_reportsCount buffer \<noteq> 1 then None
      else if entryBufPos + n > bf_memoryBlockSize buffer
      then Some (0, buffer\<lparr>bf_reportsCount := 0, bf_oldestReport := Some 0,
             bf_memoryBlock := store_next header 0 None (bf_memoryBlock buffer),
             bf_nextToTransmit := None\<rparr>)
      else Some (entryBufPos, buffer\<lparr>
             bf_nextToTransmit := (if bf_nextToTransmit buffer = bf_oldestReport buffer then Some l
               else bf_nextToTransmit buffer),
             bf_oldestReport := Some l,
             bf_memoryBlock := store_next header l (Some entryBufPos) (bf_memoryBlock buffer)\<rparr>))"

definition placeAbove ::
  "nat \<Rightarrow> 'd ReportBuffer \<Rightarrow> nat \<Rightarrow> 'd ReportBufferEntry \<Rightarrow> nat \<Rightarrow> (nat \<times> 'd ReportBuffer) option" where
  "placeAbove header buffer l lastEntry n = do {
     let entryBufPos = l + en_entryLength lastEntry;
     (p, buffer) \<leftarrow> (if entryBufPos + n > bf_memoryBlockSize buffer then do {
          buffer \<leftarrow> removeWhile (\<lambda>oldest. n > oldest) buffer;
          Some (0, if bf_oldestReport buffer = None
            then buffer\<lparr>bf_oldestReport := Some 0,
              bf_memoryBlock := store_next header 0 None (bf_memoryBlock buffer)\<rparr>
            else buffer)
        }
        else Some (entryBufPos, buffer));
     Some (p, buffer\<lparr>bf_memoryBlock := store_next header l (Some p) (bf_memoryBlock buffer)\<rparr>)
   }"

definition placeBelow ::
  "nat \<Rightarrow> 'd ReportBuffer \<Rightarrow> nat \<Rightarrow> 'd ReportBufferEntry \<Rightarrow> nat \<Rightarrow> (nat \<times> 'd ReportBuffer) option" where
  "placeBelow header buffer l lastEntry n = do {
     let entryBufPos = l + en_entryLength lastEntry;
     (p, buffer) \<leftarrow> (if entryBufPos + n > bf_memoryBlockSize buffer then do {
          buffer \<leftarrow> removeWhile (\<lambda>oldest. oldest > 0) buffer;
          buffer \<leftarrow> removeWhile (\<lambda>oldest. n > oldest) buffer;
          Some (0, buffer)
        }
        else do {
          buffer \<leftarrow> removeWhile (\<lambda>oldest. entryBufPos + n > oldest \<and> oldest \<noteq> 0) buffer;
          Some (entryBufPos, buffer)
        });
     Some (p, buffer\<lparr>bf_memoryBlock := store_next header l (Some p) (bf_memoryBlock buffer)\<rparr>)
   }"

definition placeEntry :: "nat \<Rightarrow> 'd ReportBuffer \<Rightarrow> nat \<Rightarrow> (nat \<times> 'd ReportBuffer) option" where
  "placeEntry header buffer n =
     (case bf_lastEnqueuedReport buffer of
        None \<Rightarrow> Some (0, buffer\<lparr>bf_oldestReport := Some 0, bf_nextToTransmit := Some 0\<rparr>)
      | Some l \<Rightarrow> do {
          oldest \<leftarrow> bf_oldestReport buffer;
          lastEntry \<leftarrow> bf_memoryBlock buffer l;
          if l = oldest then placeBehindOne header buffer l lastEntry n
          else if l > oldest then placeAbove header buffer l lastEntry n
          else placeBelow header buffer l lastEntry n
        })"

text \<open>The rest of \<open>enqueueReport\<close>: the entry is written and becomes the last one. Its octets are inside
  the block or the result is \<open>None\<close>.\<close>

definition writeEntry :: "'d ReportBuffer \<Rightarrow> nat \<Rightarrow> nat \<Rightarrow> 'd \<Rightarrow> 'd ReportBuffer option" where
  "writeEntry buffer p n d =
     (if p + n \<le> bf_memoryBlockSize buffer
      then Some (buffer\<lparr>bf_memoryBlock := (clobber p n (bf_memoryBlock buffer))
               (p \<mapsto> \<lparr>en_entryLength = n, en_next = None, en_data = d\<rparr>),
             bf_lastEnqueuedReport := Some p,
             bf_reportsCount := bf_reportsCount buffer + 1,
             bf_nextToTransmit := (if bf_nextToTransmit buffer = None then Some p
               else bf_nextToTransmit buffer),
             bf_oldestReport := (if bf_oldestReport buffer = None then Some p
               else bf_oldestReport buffer)\<rparr>)
      else None)"

text \<open>A report of \<open>n\<close> octets is enqueued unless it is longer than the block.\<close>

definition enqueueEntry :: "nat \<Rightarrow> 'd ReportBuffer \<Rightarrow> nat \<Rightarrow> 'd \<Rightarrow> 'd ReportBuffer option" where
  "enqueueEntry header buffer n d =
     (if n > bf_memoryBlockSize buffer then Some buffer
      else do {
        (p, buffer) \<leftarrow> placeEntry header buffer n;
        writeEntry buffer p n d
      })"

text \<open>\<open>sendNextReportEntry\<close>: the entry to transmit, and the buffer after its transmission.\<close>

definition nextEntry :: "'d ReportBuffer \<Rightarrow> ('d option \<times> 'd ReportBuffer) option" where
  "nextEntry buffer =
     (case bf_nextToTransmit buffer of
        None \<Rightarrow> Some (None, buffer)
      | Some p \<Rightarrow> do {
          report \<leftarrow> bf_memoryBlock buffer p;
          Some (Some (en_data report), buffer\<lparr>bf_nextToTransmit := en_next report\<rparr>)
        })"


section \<open>The entries as a sequence\<close>

text \<open>The entries that hang on a pointer: place, length and data of each.\<close>

type_synonym 'd entry = "nat \<times> nat \<times> 'd"

definition ptr :: "'d entry list \<Rightarrow> nat option" where
  "ptr xs = (case xs of [] \<Rightarrow> None | x # _ \<Rightarrow> Some (fst x))"

lemma ptr_simps [simp]: "ptr [] = None" "ptr (x # xs) = Some (fst x)" "ptr xs = None \<longleftrightarrow> xs = []"
  by (simp_all add: ptr_def split: list.split)

primrec linked :: "'d block \<Rightarrow> 'd entry list \<Rightarrow> bool" where
  "linked m [] \<longleftrightarrow> True"
| "linked m (x # xs) \<longleftrightarrow>
     m (fst x) = Some \<lparr>en_entryLength = fst (snd x), en_next = ptr xs, en_data = snd (snd x)\<rparr> \<and> linked m xs"

definition apart :: "'d entry \<Rightarrow> 'd entry \<Rightarrow> bool" where
  "apart x y \<longleftrightarrow> fst x + fst (snd x) \<le> fst y"

text \<open>The entries in their order of age: an ascending part, then possibly a lower ascending part that starts
  at the beginning of the block.\<close>

definition layout :: "nat \<Rightarrow> 'd entry list \<Rightarrow> bool" where
  "layout N xs \<longleftrightarrow> (\<forall>x\<in>set xs. 0 < fst (snd x) \<and> fst x + fst (snd x) \<le> N) \<and>
     (\<exists>up low. xs = up @ low \<and> sorted_wrt apart up \<and> sorted_wrt apart low \<and>
        (low \<noteq> [] \<longrightarrow> up \<noteq> [] \<and> fst (hd low) = 0 \<and> (\<forall>x\<in>set low. \<forall>y\<in>set up. apart x y)))"

text \<open>The buffer holds the transmitted entries \<open>s\<close> and the entries to transmit \<open>u\<close>.\<close>

definition queued :: "'d ReportBuffer \<Rightarrow> 'd entry list \<Rightarrow> 'd entry list \<Rightarrow> bool" where
  "queued rb s u \<longleftrightarrow> linked (bf_memoryBlock rb) (s @ u) \<and> bf_oldestReport rb = ptr (s @ u) \<and>
     bf_nextToTransmit rb = ptr u \<and> bf_reportsCount rb = int (length (s @ u)) \<and> distinct (map fst (s @ u))"

definition buffer_holds :: "'d ReportBuffer \<Rightarrow> 'd entry list \<Rightarrow> 'd entry list \<Rightarrow> bool" where
  "buffer_holds rb s u \<longleftrightarrow> queued rb s u \<and> layout (bf_memoryBlockSize rb) (s @ u) \<and>
     bf_lastEnqueuedReport rb = (if s @ u = [] then None else Some (fst (last (s @ u))))"

lemma removeOldest_queued:
  assumes "queued rb s u" and "s @ u = x # xs"
  shows "\<exists>rb'. removeOldest rb = Some rb' \<and> queued rb' (drop 1 s) (drop (1 - length s) u) \<and>
    bf_memoryBlock rb' = bf_memoryBlock rb \<and> bf_memoryBlockSize rb' = bf_memoryBlockSize rb \<and>
    bf_lastEnqueuedReport rb' = bf_lastEnqueuedReport rb"
proof (cases s)
  case Nil
  then show ?thesis using assms by (auto simp: queued_def removeOldest_def)
next
  case (Cons y ys)
  have "ptr u \<noteq> Some (fst y)"
    using assms(1) Cons by (cases u) (auto simp: queued_def)
  then show ?thesis using assms Cons by (auto simp: queued_def removeOldest_def)
qed

lemma removeWhile_queued:
  assumes "queued rb s u" and "k = length (takeWhile (\<lambda>x. c (fst x)) (s @ u))"
  shows "\<exists>rb'. removeWhile c rb = Some rb' \<and> queued rb' (drop k s) (drop (k - length s) u) \<and>
    bf_memoryBlock rb' = bf_memoryBlock rb \<and> bf_memoryBlockSize rb' = bf_memoryBlockSize rb \<and>
    bf_lastEnqueuedReport rb' = bf_lastEnqueuedReport rb"
  using assms
proof (induction "s @ u" arbitrary: rb s u k)
  case Nil
  then have "bf_oldestReport rb = None" by (auto simp: queued_def)
  with Nil show ?case by (subst removeWhile.simps) auto
next
  case (Cons x xs)
  have old: "bf_oldestReport rb = Some (fst x)"
    using Cons.prems(1) Cons.hyps(2) [symmetric] by (simp add: queued_def)
  show ?case
  proof (cases "c (fst x)")
    case False
    then have "k = 0" using Cons.prems(2) Cons.hyps(2) [symmetric] by simp
    with False old Cons.prems(1) show ?thesis by (subst removeWhile.simps) simp
  next
    case True
    obtain rb' where rb': "removeOldest rb = Some rb'" "queued rb' (drop 1 s) (drop (1 - length s) u)"
        "bf_memoryBlock rb' = bf_memoryBlock rb" "bf_memoryBlockSize rb' = bf_memoryBlockSize rb"
        "bf_lastEnqueuedReport rb' = bf_lastEnqueuedReport rb"
      using removeOldest_queued [OF Cons.prems(1) Cons.hyps(2) [symmetric]] by blast
    have xs: "xs = drop 1 s @ drop (1 - length s) u"
      using Cons.hyps(2) by (cases s) auto
    define j where "j = length (takeWhile (\<lambda>x. c (fst x)) xs)"
    have k: "k = Suc j" using True Cons.prems(2) Cons.hyps(2) [symmetric] by (simp add: j_def)
    have "drop j (drop 1 s) = drop k s"
        "drop (j - length (drop 1 s)) (drop (1 - length s) u) = drop (k - length s) u"
      by (simp_all add: k) (cases s, simp_all)
    with Cons.hyps(1) [OF xs rb'(2), of j] rb' True old show ?thesis
      by (subst removeWhile.simps) (simp add: j_def xs)
  qed
qed

text \<open>Appending an entry behind the ones that are kept.\<close>

lemma linked_cong:
  "(\<And>x. x \<in> set xs \<Longrightarrow> m' (fst x) = m (fst x)) \<Longrightarrow> linked m' xs \<longleftrightarrow> linked m xs"
  by (induction xs) auto

lemma linked_memory: "linked m xs \<Longrightarrow> x \<in> set xs \<Longrightarrow> \<exists>nx. m (fst x) =
    Some \<lparr>en_entryLength = fst (snd x), en_next = nx, en_data = snd (snd x)\<rparr>"
  by (induction xs) auto

lemma linked_last:
  "linked m xs \<Longrightarrow> xs \<noteq> [] \<Longrightarrow> m (fst (last xs)) =
    Some \<lparr>en_entryLength = fst (snd (last xs)), en_next = None, en_data = snd (snd (last xs))\<rparr>"
  by (induction xs) auto

lemma linked_snoc:
  assumes "linked m xs" and "xs \<noteq> []" and "distinct (map fst xs)"
    and "m' (fst y) = Some \<lparr>en_entryLength = fst (snd y), en_next = None, en_data = snd (snd y)\<rparr>"
    and "m' (fst (last xs)) = Some \<lparr>en_entryLength = fst (snd (last xs)), en_next = Some (fst y),
        en_data = snd (snd (last xs))\<rparr>"
    and "\<And>x. x \<in> set xs \<Longrightarrow> fst x \<noteq> fst (last xs) \<Longrightarrow> m' (fst x) = m (fst x)"
  shows "linked m' (xs @ [y])"
  using assms
proof (induction xs)
  case (Cons x xs)
  show ?case
  proof (cases "xs = []")
    case False
    then have "fst x \<noteq> fst (last xs)" using Cons.prems(3) by (auto simp: image_iff)
    with Cons False show ?thesis by (cases xs) auto
  qed (use Cons in simp)
qed simp

definition entries_apart :: "nat \<Rightarrow> nat \<Rightarrow> 'd entry list \<Rightarrow> bool" where
  "entries_apart p n xs \<longleftrightarrow> (\<forall>x\<in>set xs. p + n \<le> fst x \<or> fst x + fst (snd x) \<le> p)"

lemma clobber_apart:
  "m q = Some e \<Longrightarrow> p + n \<le> q \<or> q + en_entryLength e \<le> p \<Longrightarrow> clobber p n m q = Some e"
  by (auto simp: clobber_def)

text \<open>Writing an entry apart from the ones that are kept.\<close>

lemma writeEntry_queued:
  assumes q: "queued rb s u" and kept: "s @ u \<noteq> []" and l: "l = fst (last (s @ u))"
    and pos: "\<And>x. x \<in> set (s @ u) \<Longrightarrow> 0 < fst (snd x)" "0 < n"
    and apart: "entries_apart p n (s @ u)" and fits: "p + n \<le> bf_memoryBlockSize rb"
  shows "\<exists>rb'. writeEntry (rb\<lparr>bf_memoryBlock := store_next header l (Some p) (bf_memoryBlock rb)\<rparr>) p n d =
      Some rb' \<and> queued rb' s (u @ [(p, n, d)]) \<and> bf_lastEnqueuedReport rb' = Some p \<and>
      bf_memoryBlockSize rb' = bf_memoryBlockSize rb"
proof -
  define m where "m = bf_memoryBlock rb"
  define m' where "m' = (clobber p n (store_next header l (Some p) m))
    (p \<mapsto> \<lparr>en_entryLength = n, en_next = None, en_data = d\<rparr>)"
  have link: "linked m (s @ u)" and dist: "distinct (map fst (s @ u))"
    using q by (simp_all add: queued_def m_def)
  note lst = linked_last [OF link kept]
  have new: "fst x \<noteq> p" if "x \<in> set (s @ u)" for x
    using apart pos(1) [OF that] pos(2) that by (force simp: entries_apart_def)
  have mem: "store_next header (fst (last (s @ u))) (Some p) m = m(fst (last (s @ u)) \<mapsto> \<lparr>en_entryLength = fst (snd (last (s @ u))),
      en_next = Some p, en_data = snd (snd (last (s @ u)))\<rparr>)"
    using lst by (simp add: store_next_def l)
  have "linked m' ((s @ u) @ [(p, n, d)])"
  proof (rule linked_snoc [OF link kept dist])
    show "m' (fst (last (s @ u))) = Some \<lparr>en_entryLength = fst (snd (last (s @ u))),
        en_next = Some (fst (p, n, d)), en_data = snd (snd (last (s @ u)))\<rparr>"
      using apart new [OF last_in_set [OF kept]] last_in_set [OF kept]
      by (auto simp: m'_def l mem entries_apart_def intro!: clobber_apart)
    show "m' (fst x) = m (fst x)" if x: "x \<in> set (s @ u)" "fst x \<noteq> fst (last (s @ u))" for x
    proof -
      obtain nx where "m (fst x) = Some \<lparr>en_entryLength = fst (snd x), en_next = nx, en_data = snd (snd x)\<rparr>"
        using linked_memory [OF link x(1)] by blast
      with apart new [OF x(1)] x show ?thesis
        by (auto simp: m'_def l mem entries_apart_def intro!: clobber_apart)
    qed
  qed (simp add: m'_def)
  moreover have "distinct (map fst ((s @ u) @ [(p, n, d)]))" using dist new by auto
  moreover have "ptr (s @ u @ [(p, n, d)]) = ptr (s @ u)" using kept by (cases s; cases u) auto
  moreover have "ptr (u @ [(p, n, d)]) = (if ptr u = None then Some p else ptr u)" by (cases u) auto
  ultimately show ?thesis
    using q fits kept by (auto simp: writeEntry_def queued_def m'_def [symmetric] m_def [symmetric])
qed

lemma writeEntry_first:
  assumes "bf_reportsCount rb = 0" and "bf_oldestReport rb = None \<or> bf_oldestReport rb = Some p"
    and "bf_nextToTransmit rb = None \<or> bf_nextToTransmit rb = Some p" and "p + n \<le> bf_memoryBlockSize rb"
  shows "\<exists>rb'. writeEntry rb p n d = Some rb' \<and> queued rb' [] [(p, n, d)] \<and>
    bf_lastEnqueuedReport rb' = Some p \<and> bf_memoryBlockSize rb' = bf_memoryBlockSize rb"
  using assms by (auto simp: writeEntry_def queued_def)

definition in_block :: "nat \<Rightarrow> 'd entry list \<Rightarrow> bool" where
  "in_block N xs \<longleftrightarrow> (\<forall>x\<in>set xs. 0 < fst (snd x) \<and> fst x + fst (snd x) \<le> N)"

lemma in_block_simps [simp]:
  "in_block N []" "in_block N (x # xs) \<longleftrightarrow> 0 < fst (snd x) \<and> fst x + fst (snd x) \<le> N \<and> in_block N xs"
  "in_block N (xs @ ys) \<longleftrightarrow> in_block N xs \<and> in_block N ys"
  by (auto simp: in_block_def)

lemma in_block_drop: "in_block N xs \<Longrightarrow> in_block N (drop k xs)" "in_block N xs \<Longrightarrow> in_block N (dropWhile P xs)"
  using set_drop_subset [of k xs] set_dropWhileD [of _ P xs] by (auto simp: in_block_def)

lemma layout_cases:
  assumes "layout N xs"
  obtains (ascending) "sorted_wrt apart xs" "in_block N xs"
  | (wrapped) up low where "xs = up @ low" "up \<noteq> []" "low \<noteq> []" "sorted_wrt apart up" "sorted_wrt apart low"
    "fst (hd low) = 0" "in_block N xs" "\<And>x y. x \<in> set low \<Longrightarrow> y \<in> set up \<Longrightarrow> apart x y"
proof -
  obtain up low where l: "xs = up @ low" "sorted_wrt apart up" "sorted_wrt apart low"
      "low \<noteq> [] \<longrightarrow> up \<noteq> [] \<and> fst (hd low) = 0 \<and> (\<forall>x\<in>set low. \<forall>y\<in>set up. apart x y)"
    and b: "in_block N xs"
    using assms by (auto simp: layout_def in_block_def)
  show thesis
  proof (cases "low = []")
    case True
    with l b show thesis by (intro ascending) auto
  next
    case False
    with l(4) have "up \<noteq> []" "fst (hd low) = 0" "\<And>x y. x \<in> set low \<Longrightarrow> y \<in> set up \<Longrightarrow> apart x y" by auto
    then show thesis by (rule wrapped [OF l(1) _ False l(2,3) _ b])
  qed
qed

lemma layout_ascending: "sorted_wrt apart xs \<Longrightarrow> in_block N xs \<Longrightarrow> layout N xs"
  unfolding layout_def in_block_def by (intro conjI exI [of _ xs] exI [of _ "[]"]) auto

lemma layout_wrapped:
  assumes "up \<noteq> []" "low \<noteq> []" "sorted_wrt apart up" "sorted_wrt apart low" "fst (hd low) = 0"
    "in_block N up" "in_block N low" "\<And>x y. x \<in> set low \<Longrightarrow> y \<in> set up \<Longrightarrow> apart x y"
  shows "layout N (up @ low)"
  unfolding layout_def
  using assms by (intro conjI exI [of _ up] exI [of _ low]) (auto simp: in_block_def)

lemma layout_snoc:
  assumes "layout N (xs @ [y])"
  shows "entries_apart (fst y) (fst (snd y)) xs" and "in_block N xs" and "0 < fst (snd y)"
    and "fst y + fst (snd y) \<le> N"
proof -
  show "in_block N xs" "0 < fst (snd y)" "fst y + fst (snd y) \<le> N"
    using assms by (auto simp: layout_def in_block_def)
  show "entries_apart (fst y) (fst (snd y)) xs"
    using assms
  proof (cases rule: layout_cases)
    case ascending
    then show ?thesis by (auto simp: entries_apart_def apart_def sorted_wrt_append)
  next
    case (wrapped up low)
    then obtain low' where low: "low = low' @ [y]" "xs = up @ low'"
      by (metis append_butlast_last_id butlast_append butlast_snoc last_appendR last_snoc)
    have "apart x y" if "x \<in> set low'" for x
      using wrapped(5) that by (auto simp: low sorted_wrt_append)
    moreover have "apart y x" if "x \<in> set up" for x
      using wrapped(8) [OF _ that, of y] by (simp add: low)
    ultimately show ?thesis by (auto simp: low entries_apart_def apart_def)
  qed
qed

text \<open>Whatever is kept, writing the new entry leads to a buffer that holds it as the last one.\<close>

lemma place_kept:
  assumes "queued rb s u" and "s @ u \<noteq> []" and "layout (bf_memoryBlockSize rb) (s @ u @ [(p, n, d)])"
    and "l = fst (last (s @ u))"
  shows "\<exists>rb'. writeEntry (rb\<lparr>bf_memoryBlock := store_next header l (Some p) (bf_memoryBlock rb)\<rparr>) p n d =
      Some rb' \<and> buffer_holds rb' s (u @ [(p, n, d)]) \<and> bf_memoryBlockSize rb' = bf_memoryBlockSize rb"
proof -
  have l: "layout (bf_memoryBlockSize rb) ((s @ u) @ [(p, n, d)])" using assms(3) by simp
  note snoc = layout_snoc [OF l]
  have "\<And>x. x \<in> set (s @ u) \<Longrightarrow> 0 < fst (snd x)" using snoc(2) by (auto simp: in_block_def)
  from writeEntry_queued [OF assms(1,2,4) this, of n p header d] snoc show ?thesis
    using assms(3) by (auto simp: buffer_holds_def)
qed

lemma place_none:
  assumes "bf_reportsCount rb = 0" and "bf_oldestReport rb = None \<or> bf_oldestReport rb = Some p"
    and "bf_nextToTransmit rb = None \<or> bf_nextToTransmit rb = Some p" and "p + n \<le> bf_memoryBlockSize rb"
    and "0 < n"
  shows "\<exists>rb'. writeEntry rb p n d = Some rb' \<and> buffer_holds rb' [] [(p, n, d)] \<and>
      bf_memoryBlockSize rb' = bf_memoryBlockSize rb"
  using writeEntry_first [OF assms(1-4), of d] assms(4,5)
  by (auto simp: buffer_holds_def intro!: layout_ascending)

text \<open>The outcome of placing and writing an entry.\<close>

definition accommodated ::
  "nat \<Rightarrow> 'd entry list \<Rightarrow> 'd entry list \<Rightarrow> nat \<Rightarrow> 'd \<Rightarrow> (nat \<times> 'd ReportBuffer) option \<Rightarrow> bool" where
  "accommodated N s u n d r \<longleftrightarrow> (\<exists>p rb k rb'. r = Some (p, rb) \<and> writeEntry rb p n d = Some rb' \<and>
     k \<le> length (s @ u) \<and> buffer_holds rb' (drop k s) (drop (k - length s) u @ [(p, n, d)]) \<and>
     bf_memoryBlockSize rb' = N)"

lemma drop_append_split: "drop k s @ drop (k - length s) u = drop k (s @ u)"
  by simp

text \<open>Removing old entries and writing the new one behind the rest.\<close>

lemma accommodated_kept:
  assumes q: "queued rb s u" and k: "k = length (takeWhile (\<lambda>x. c (fst x)) (s @ u))"
    and rm: "removeWhile c rb = Some rb1" and ne: "drop k (s @ u) \<noteq> []"
    and l: "l = fst (last (s @ u))"
    and lay: "layout (bf_memoryBlockSize rb) (drop k (s @ u) @ [(p, n, d)])"
  shows "accommodated (bf_memoryBlockSize rb) s u n d
    (Some (p, rb1\<lparr>bf_memoryBlock := store_next header l (Some p) (bf_memoryBlock rb1)\<rparr>))"
proof -
  have q1: "queued rb1 (drop k s) (drop (k - length s) u)" "bf_memoryBlockSize rb1 = bf_memoryBlockSize rb"
    using removeWhile_queued [OF q k] rm by auto
  have "layout (bf_memoryBlockSize rb1) (drop k s @ drop (k - length s) u @ [(p, n, d)])"
    using lay q1(2) by simp
  moreover have "l = fst (last (drop k s @ drop (k - length s) u))"
    using ne l by (simp add: drop_append_split last_drop del: drop_append)
  moreover have "drop k s @ drop (k - length s) u \<noteq> []" using ne by simp
  ultimately obtain rb' where "writeEntry (rb1\<lparr>bf_memoryBlock := store_next header l (Some p)
        (bf_memoryBlock rb1)\<rparr>) p n d = Some rb'"
      "buffer_holds rb' (drop k s) (drop (k - length s) u @ [(p, n, d)])"
      "bf_memoryBlockSize rb' = bf_memoryBlockSize rb1"
    using place_kept [OF q1(1)] by blast
  moreover have "k \<le> length (s @ u)" unfolding k by (rule length_takeWhile_le)
  ultimately show ?thesis using q1(2) unfolding accommodated_def by metis
qed

lemma accommodated_none:
  assumes "bf_reportsCount rb = 0" and "bf_oldestReport rb = None \<or> bf_oldestReport rb = Some p"
    and "bf_nextToTransmit rb = None \<or> bf_nextToTransmit rb = Some p" and "p + n \<le> bf_memoryBlockSize rb"
    and "0 < n"
  shows "accommodated (bf_memoryBlockSize rb) s u n d (Some (p, rb))"
proof -
  obtain rb' where "writeEntry rb p n d = Some rb'" "buffer_holds rb' [] [(p, n, d)]"
      "bf_memoryBlockSize rb' = bf_memoryBlockSize rb"
    using place_none [OF assms] by blast
  then show ?thesis
    unfolding accommodated_def
    by (intro exI [of _ p] exI [of _ rb] exI [of _ "length (s @ u)"] exI [of _ rb']) simp
qed

lemma accommodated_all:
  assumes "queued rb s u" and "s @ u \<noteq> []" and "layout (bf_memoryBlockSize rb) (s @ u @ [(p, n, d)])"
    and "l = fst (last (s @ u))"
  shows "accommodated (bf_memoryBlockSize rb) s u n d
    (Some (p, rb\<lparr>bf_memoryBlock := store_next header l (Some p) (bf_memoryBlock rb)\<rparr>))"
proof -
  obtain rb' where "writeEntry (rb\<lparr>bf_memoryBlock := store_next header l (Some p) (bf_memoryBlock rb)\<rparr>) p n d = Some rb'"
      "buffer_holds rb' (drop 0 s) (drop (0 - length s) u @ [(p, n, d)])"
      "bf_memoryBlockSize rb' = bf_memoryBlockSize rb"
    using place_kept [OF assms, of header] by auto
  moreover have "0 \<le> length (s @ u)" by simp
  ultimately show ?thesis unfolding accommodated_def by metis
qed

text \<open>Removing in two steps.\<close>

lemma accommodated_drop:
  assumes "accommodated N (drop k s) (drop (k - length s) u) n d r" and "k \<le> length (s @ u)"
  shows "accommodated N s u n d r"
proof -
  obtain p rb j rb' where a: "r = Some (p, rb)" "writeEntry rb p n d = Some rb'"
      "j \<le> length (drop k s @ drop (k - length s) u)" "bf_memoryBlockSize rb' = N"
      "buffer_holds rb' (drop j (drop k s)) (drop (j - length (drop k s)) (drop (k - length s) u) @ [(p, n, d)])"
    using assms(1) unfolding accommodated_def by blast
  have "drop j (drop k s) = drop (j + k) s"
      "drop (j - length (drop k s)) (drop (k - length s) u) = drop (j + k - length s) u"
    by (simp_all add: add.commute) (cases "k \<le> length s"; simp add: add.commute diff_diff_eq)+
  moreover have "j + k \<le> length (s @ u)" using a(3) assms(2) by auto
  ultimately show ?thesis using a unfolding accommodated_def by metis
qed

lemma dropWhile_drop: "drop (length (takeWhile P xs)) xs = dropWhile P xs"
  by (simp add: dropWhile_eq_drop)

lemma sorted_dropWhile: "sorted_wrt R xs \<Longrightarrow> sorted_wrt R (dropWhile P xs)"
  by (simp add: dropWhile_eq_drop sorted_wrt_drop)

text \<open>After the removal of the entries below \<open>n\<close>, the beginning of the block is free.\<close>

lemma ascending_free:
  assumes "sorted_wrt apart xs" and "in_block N xs" and "x \<in> set (dropWhile (\<lambda>x. fst x < n) xs)"
  shows "n \<le> fst x"
proof -
  define ys where "ys = dropWhile (\<lambda>x. fst x < n) xs"
  have ys: "sorted_wrt apart ys" "in_block N ys"
    using assms(1,2) unfolding ys_def by (auto intro: sorted_dropWhile in_block_drop)
  have x: "x \<in> set ys" using assms(3) by (simp only: ys_def)
  then obtain y zs where y: "ys = y # zs" by (cases ys) auto
  have "n \<le> fst y" using y by (simp add: ys_def dropWhile_eq_Cons_conv)
  moreover have "fst y \<le> fst x" using x ys(1) y by (auto simp: apart_def)
  ultimately show ?thesis by simp
qed

lemma layout_wrap_new:
  assumes "sorted_wrt apart xs" and "in_block N xs" and "dropWhile (\<lambda>x. fst x < n) xs \<noteq> []"
    and "0 < n" and "n \<le> N"
  shows "layout N (dropWhile (\<lambda>x. fst x < n) xs @ [(0, n, d)])"
  using assms ascending_free [OF assms(1,2)]
  by (intro layout_wrapped) (auto simp: apart_def sorted_dropWhile in_block_drop)

lemma layout_snoc_end:
  assumes "sorted_wrt apart xs" and "in_block N xs" and "xs \<noteq> []"
    and "p = fst (last xs) + fst (snd (last xs))" and "p + n \<le> N" and "0 < n"
  shows "sorted_wrt apart (xs @ [(p, n, d)])" and "in_block N (xs @ [(p, n, d)])"
proof -
  obtain ys z where xs: "xs = ys @ [z]" using assms(3) by (cases xs rule: rev_cases) auto
  have "apart x (p, n, d)" if "x \<in> set xs" for x
    using that assms(1,4) by (auto simp: xs sorted_wrt_append apart_def)
  then show "sorted_wrt apart (xs @ [(p, n, d)])" using assms(1) by (simp add: sorted_wrt_append)
  show "in_block N (xs @ [(p, n, d)])" using assms by simp
qed

lemma placeBehindOne_holds:
  assumes h: "buffer_holds rb s u" and one: "s @ u = [(l, e, d0)]" and n: "0 < n" "n \<le> bf_memoryBlockSize rb"
    and m: "bf_memoryBlock rb l = Some lastEntry"
  shows "accommodated (bf_memoryBlockSize rb) s u n d (placeBehindOne header rb l lastEntry n)"
proof -
  have q: "queued rb s u" and lay: "layout (bf_memoryBlockSize rb) (s @ u)"
    using h by (simp_all add: buffer_holds_def)
  have len: "en_entryLength lastEntry = e"
    using q m unfolding queued_def one by simp
  have cnt: "bf_reportsCount rb = 1" using q unfolding queued_def one by simp
  have blk: "in_block (bf_memoryBlockSize rb) [(l, e, d0)]"
    using lay unfolding one by (auto simp: layout_def in_block_def)
  show ?thesis
  proof (cases "l + e + n > bf_memoryBlockSize rb")
    case True
    define rb0 where "rb0 = rb\<lparr>bf_reportsCount := 0, bf_oldestReport := Some 0,
      bf_memoryBlock := store_next header 0 None (bf_memoryBlock rb), bf_nextToTransmit := None\<rparr>"
    have "placeBehindOne header rb l lastEntry n = Some (0, rb0)"
      using True cnt by (simp add: placeBehindOne_def len rb0_def)
    moreover have "accommodated (bf_memoryBlockSize rb0) s u n d (Some (0, rb0))"
      using n by (intro accommodated_none) (simp_all add: rb0_def)
    ultimately show ?thesis by (simp add: rb0_def)
  next
    case False
    then have p: "l + e + n \<le> bf_memoryBlockSize rb" by simp
    have "bf_oldestReport rb = Some l" using q unfolding queued_def one by simp
    then have "rb\<lparr>bf_nextToTransmit := (if bf_nextToTransmit rb = bf_oldestReport rb then Some l
        else bf_nextToTransmit rb), bf_oldestReport := Some l\<rparr> = rb" (is "?rb = rb")
      by (cases rb) simp
    moreover have "placeBehindOne header rb l lastEntry n =
        Some (l + e, ?rb\<lparr>bf_memoryBlock := store_next header l (Some (l + e)) (bf_memoryBlock rb)\<rparr>)"
      using False cnt by (simp add: placeBehindOne_def Let_def len)
    ultimately have eq: "placeBehindOne header rb l lastEntry n =
        Some (l + e, rb\<lparr>bf_memoryBlock := store_next header l (Some (l + e)) (bf_memoryBlock rb)\<rparr>)"
      by (simp only:)
    have "layout (bf_memoryBlockSize rb) ((s @ u) @ [(l + e, n, d)])"
      unfolding one using blk p n by (intro layout_ascending) (simp_all add: apart_def)
    then have new: "layout (bf_memoryBlockSize rb) (s @ u @ [(l + e, n, d)])" by simp
    have "s @ u \<noteq> []" "l = fst (last (s @ u))" unfolding one by simp_all
    from accommodated_all [OF q this(1) new this(2)] show ?thesis unfolding eq .
  qed
qed

lemma placeAbove_holds:
  assumes h: "buffer_holds rb s u" and xs: "s @ u \<noteq> []" and asc: "sorted_wrt apart (s @ u)"
    and l: "l = fst (last (s @ u))" and n: "0 < n" "n \<le> bf_memoryBlockSize rb"
    and m: "bf_memoryBlock rb l = Some lastEntry"
  shows "accommodated (bf_memoryBlockSize rb) s u n d (placeAbove header rb l lastEntry n)"
proof -
  have q: "queued rb s u" and blk: "in_block (bf_memoryBlockSize rb) (s @ u)"
    using h by (auto simp: buffer_holds_def layout_def in_block_def)
  have len: "en_entryLength lastEntry = fst (snd (last (s @ u)))"
    using linked_last [of "bf_memoryBlock rb" "s @ u"] q m xs by (simp add: queued_def l)
  define p where "p = l + en_entryLength lastEntry"
  have end_p: "p = fst (last (s @ u)) + fst (snd (last (s @ u)))" by (simp only: p_def l len)
  show ?thesis
  proof (cases "p + n > bf_memoryBlockSize rb")
    case False
    have "layout (bf_memoryBlockSize rb) ((s @ u) @ [(p, n, d)])"
      using layout_snoc_end [OF asc blk xs end_p, of n d] n(1) False
      by (intro layout_ascending) (simp_all only: not_less)
    then have "layout (bf_memoryBlockSize rb) (s @ u @ [(p, n, d)])" by simp
    from accommodated_all [OF q xs this l, of header] show ?thesis
      using False by (simp add: placeAbove_def p_def Let_def)
  next
    case True
    define k where "k = length (takeWhile (\<lambda>x. fst x < n) (s @ u))"
    obtain rb1 where rb1: "removeWhile (\<lambda>oldest. oldest < n) rb = Some rb1"
        "queued rb1 (drop k s) (drop (k - length s) u)" "bf_memoryBlockSize rb1 = bf_memoryBlockSize rb"
      using removeWhile_queued [OF q, of k "\<lambda>oldest. oldest < n"] by (auto simp: k_def)
    have kept: "drop k (s @ u) = dropWhile (\<lambda>x. fst x < n) (s @ u)" unfolding k_def by (rule dropWhile_drop)
    show ?thesis
    proof (cases "drop k (s @ u) = []")
      case False
      have "bf_oldestReport rb1 \<noteq> None" using rb1(2) False by (auto simp: queued_def)
      then have "placeAbove header rb l lastEntry n =
          Some (0, rb1\<lparr>bf_memoryBlock := store_next header l (Some 0) (bf_memoryBlock rb1)\<rparr>)"
        using True rb1(1) by (auto simp: placeAbove_def p_def)
      moreover have "layout (bf_memoryBlockSize rb) (drop k (s @ u) @ [(0, n, d)])"
        using layout_wrap_new [OF asc blk _ n] False unfolding kept by blast
      ultimately show ?thesis
        using accommodated_kept [OF q k_def rb1(1) False l, of 0 n d header] by metis
    next
      case none: True
      define rb2 where "rb2 = rb1\<lparr>bf_oldestReport := Some 0,
        bf_memoryBlock := store_next header l (Some 0) (store_next header 0 None (bf_memoryBlock rb1))\<rparr>"
      have none: "drop k s = []" "drop (k - length s) u = []" using none by simp_all
      have q1: "queued rb1 [] []" using rb1(2) unfolding none .
      then have "bf_oldestReport rb1 = None" by (simp add: queued_def)
      then have "placeAbove header rb l lastEntry n = Some (0, rb2)"
        using True rb1(1) by (simp add: placeAbove_def p_def rb2_def)
      moreover have "accommodated (bf_memoryBlockSize rb2) s u n d (Some (0, rb2))"
        using q1 n rb1(3) by (intro accommodated_none) (simp_all add: rb2_def queued_def)
      ultimately show ?thesis by (simp add: rb2_def rb1(3))
    qed
  qed
qed

lemma takeWhile_all: "(\<And>x. x \<in> set xs \<Longrightarrow> P x) \<Longrightarrow> takeWhile P (xs @ ys) = xs @ takeWhile P ys"
  by (induction xs) auto

lemma placeBelow_holds:
  assumes h: "buffer_holds rb s u" and xs: "s @ u = up @ low" and ne: "up \<noteq> []" "low \<noteq> []"
    and asc: "sorted_wrt apart up" "sorted_wrt apart low" and zero: "fst (hd low) = 0"
    and below: "\<And>x y. x \<in> set low \<Longrightarrow> y \<in> set up \<Longrightarrow> apart x y"
    and l: "l = fst (last (s @ u))" and n: "0 < n" "n \<le> bf_memoryBlockSize rb"
    and m: "bf_memoryBlock rb l = Some lastEntry"
  shows "accommodated (bf_memoryBlockSize rb) s u n d (placeBelow header rb l lastEntry n)"
proof -
  let ?N = "bf_memoryBlockSize rb"
  have q: "queued rb s u" and blk: "in_block ?N (s @ u)"
    using h by (auto simp: buffer_holds_def layout_def in_block_def)
  have low: "last (s @ u) = last low" using ne by (simp add: xs)
  have len: "en_entryLength lastEntry = fst (snd (last low))"
    using linked_last [of "bf_memoryBlock rb" "s @ u"] q m ne by (auto simp: queued_def l xs)
  define p where "p = l + en_entryLength lastEntry"
  have end_p: "p = fst (last low) + fst (snd (last low))" by (simp only: p_def l len low)
  have blks: "in_block ?N up" "in_block ?N low" using blk by (simp_all add: xs)
  have above: "0 < fst y" if "y \<in> set up" for y
    using below [OF hd_in_set [OF ne(2)] that] blks(2) ne(2)
    by (cases low) (auto simp: apart_def)
  show ?thesis
  proof (cases "p + n > ?N")
    case True
    define j where "j = length (takeWhile (\<lambda>x. 0 < fst x) (s @ u))"
    have "takeWhile (\<lambda>x. 0 < fst x) low = []" using zero ne(2) by (cases low) auto
    then have j: "drop j (s @ u) = low"
      using takeWhile_all [of up "\<lambda>x. 0 < fst x" low] above by (simp add: j_def xs)
    obtain rb1 where rb1: "removeWhile (\<lambda>oldest. 0 < oldest) rb = Some rb1"
        "queued rb1 (drop j s) (drop (j - length s) u)" "bf_memoryBlockSize rb1 = ?N"
      using removeWhile_queued [OF q, of j "\<lambda>oldest. 0 < oldest"] by (auto simp: j_def)
    define s1 u1 where "s1 = drop j s" and "u1 = drop (j - length s) u"
    have q1: "queued rb1 s1 u1" and su: "s1 @ u1 = low" using rb1(2) j by (simp_all add: s1_def u1_def)
    define k where "k = length (takeWhile (\<lambda>x. fst x < n) (s1 @ u1))"
    obtain rb2 where rb2: "removeWhile (\<lambda>oldest. oldest < n) rb1 = Some rb2"
        "queued rb2 (drop k s1) (drop (k - length s1) u1)" "bf_memoryBlockSize rb2 = ?N"
      using removeWhile_queued [OF q1, of k "\<lambda>oldest. oldest < n"] rb1(3) by (auto simp: k_def)
    define rb3 where "rb3 = rb2\<lparr>bf_memoryBlock := store_next header l (Some 0) (bf_memoryBlock rb2)\<rparr>"
    have place: "placeBelow header rb l lastEntry n = Some (0, rb3)"
      using True rb1(1) rb2(1) by (simp add: placeBelow_def p_def rb3_def)
    have kept: "drop k (s1 @ u1) = dropWhile (\<lambda>x. fst x < n) low" unfolding k_def su by (rule dropWhile_drop)
    have "accommodated ?N s1 u1 n d (Some (0, rb3))"
    proof (cases "drop k (s1 @ u1) = []")
      case False
      have "layout (bf_memoryBlockSize rb1) (drop k (s1 @ u1) @ [(0, n, d)])"
        using layout_wrap_new [OF asc(2) blks(2) _ n] False rb1(3) unfolding kept by metis
      moreover have "l = fst (last (s1 @ u1))" by (simp only: l low su)
      ultimately show ?thesis
        using accommodated_kept [OF q1 k_def rb2(1) False, of l 0 n d header] rb1(3) by (simp only: rb3_def)
    next
      case none: True
      have "drop k s1 = []" "drop (k - length s1) u1 = []" using none by simp_all
      with rb2(2) have "queued rb2 [] []" by simp
      then have "accommodated (bf_memoryBlockSize rb3) s1 u1 n d (Some (0, rb3))"
        using n rb2(3) by (intro accommodated_none) (simp_all add: rb3_def queued_def)
      then show ?thesis by (simp add: rb3_def rb2(3))
    qed
    moreover have "j \<le> length (s @ u)" unfolding j_def by (rule length_takeWhile_le)
    ultimately show ?thesis
      unfolding place s1_def u1_def by (rule accommodated_drop)
  next
    case False
    define c where "c = (\<lambda>oldest. p + n > oldest \<and> oldest \<noteq> 0)"
    define k where "k = length (takeWhile (\<lambda>x. c (fst x)) (s @ u))"
    obtain rb1 where rb1: "removeWhile c rb = Some rb1"
      using removeWhile_queued [OF q, of k c] by (auto simp: k_def)
    define up' where "up' = dropWhile (\<lambda>x. fst x < p + n) up"
    have "drop k (s @ u) = dropWhile (\<lambda>x. c (fst x)) (up @ low)" unfolding k_def xs by (rule dropWhile_drop)
    also have "\<dots> = up' @ low"
    proof -
      have "dropWhile (\<lambda>x. c (fst x)) up = up'"
        unfolding up'_def using above by (intro dropWhile_cong) (auto simp: c_def)
      moreover have "dropWhile (\<lambda>x. c (fst x)) low = low" using zero ne(2) by (cases low) (auto simp: c_def)
      ultimately show ?thesis by (cases "up' = []") (auto simp: dropWhile_append)
    qed
    finally have kept: "drop k (s @ u) = up' @ low" .
    have "placeBelow header rb l lastEntry n =
        Some (p, rb1\<lparr>bf_memoryBlock := store_next header l (Some p) (bf_memoryBlock rb1)\<rparr>)"
      using False rb1 by (simp add: placeBelow_def p_def c_def Let_def)
    moreover have "layout ?N (drop k (s @ u) @ [(p, n, d)])"
    proof (cases "up' = []")
      case True
      then show ?thesis
        unfolding kept using layout_snoc_end [OF asc(2) blks(2) ne(2) end_p, of n d] n(1) False
        by (auto intro!: layout_ascending simp del: in_block_simps)
    next
      case False
      have free: "p + n \<le> fst y" if "y \<in> set up'" for y
        using ascending_free [OF asc(1) blks(1), of y "p + n"] that by (simp add: up'_def)
      have sub: "set up' \<subseteq> set up" unfolding up'_def by (auto dest: set_dropWhileD)
      have new: "sorted_wrt apart (low @ [(p, n, d)])" "in_block ?N (low @ [(p, n, d)])"
        using layout_snoc_end [OF asc(2) blks(2) ne(2) end_p, of n d] n(1) \<open>\<not> p + n > ?N\<close> by (simp_all only: not_less)
      have "layout ?N (up' @ low @ [(p, n, d)])"
      proof (rule layout_wrapped [OF False _ _ new(1) _ _ new(2)])
        show "fst (hd (low @ [(p, n, d)])) = 0" using zero ne(2) by simp
        show "apart x y" if "x \<in> set (low @ [(p, n, d)])" "y \<in> set up'" for x y
          using that(1) free [OF that(2)] below [OF _ subsetD [OF sub that(2)]]
          by (cases "x \<in> set low") (simp_all add: apart_def)
      qed (auto simp: up'_def asc blks sorted_dropWhile in_block_drop)
      then show ?thesis unfolding kept by simp
    qed
    moreover have "drop k (s @ u) \<noteq> []" unfolding kept using ne(2) by simp
    ultimately show ?thesis
      using accommodated_kept [OF q k_def rb1 _ l, of p n d header] by metis
  qed
qed

text \<open>Enqueuing always works: some of the oldest entries go, the new one is the last.\<close>

lemma placeEntry_holds:
  assumes h: "buffer_holds rb s u" and n: "0 < n" "n \<le> bf_memoryBlockSize rb"
  shows "accommodated (bf_memoryBlockSize rb) s u n d (placeEntry header rb n)"
proof (cases "s @ u = []")
  case True
  define rb0 where "rb0 = rb\<lparr>bf_oldestReport := Some 0, bf_nextToTransmit := Some 0\<rparr>"
  have "placeEntry header rb n = Some (0, rb0)"
    using h True by (simp add: placeEntry_def rb0_def buffer_holds_def)
  moreover have "accommodated (bf_memoryBlockSize rb0) s u n d (Some (0, rb0))"
    using h True n by (intro accommodated_none) (simp_all add: rb0_def buffer_holds_def queued_def)
  ultimately show ?thesis by (simp add: rb0_def)
next
  case False
  define l where "l = fst (last (s @ u))"
  obtain x xs where x: "s @ u = x # xs" using False by (cases "s @ u") auto
  have q: "linked (bf_memoryBlock rb) (s @ u)" "bf_oldestReport rb = ptr (s @ u)" "distinct (map fst (s @ u))"
      "bf_lastEnqueuedReport rb = Some l"
    using h False by (auto simp: buffer_holds_def queued_def l_def)
  obtain lastEntry where m: "bf_memoryBlock rb l = Some lastEntry"
    using linked_last [OF q(1) False] by (simp add: l_def)
  have place: "placeEntry header rb n = (if l = fst x then placeBehindOne header rb l lastEntry n
      else if l > fst x then placeAbove header rb l lastEntry n else placeBelow header rb l lastEntry n)"
    using q(2,4) m x by (simp add: placeEntry_def)
  show ?thesis
  proof (cases "xs = []")
    case True
    then have "s @ u = [(l, fst (snd x), snd (snd x))]" "l = fst x" by (simp_all add: x l_def)
    then show ?thesis using placeBehindOne_holds [OF h _ n m, of "fst (snd x)" "snd (snd x)" d header] by (simp add: place)
  next
    case xs: False
    have "l \<in> fst ` set xs" using xs by (simp add: l_def x)
    moreover have "fst x \<notin> fst ` set xs" using q(3) by (simp add: x)
    ultimately have ne: "l \<noteq> fst x" by blast
    have "layout (bf_memoryBlockSize rb) (s @ u)" using h by (simp add: buffer_holds_def)
    then show ?thesis
    proof (cases rule: layout_cases)
      case ascending
      then have "apart x (last xs)" using xs by (simp add: x)
      then have "l > fst x" using ne xs by (auto simp: apart_def l_def x)
      then show ?thesis using placeAbove_holds [OF h False ascending(1) l_def n m] by (simp add: place)
    next
      case (wrapped up low)
      have "x \<in> set up" "last (s @ u) \<in> set low"
        using wrapped(1-3) x by (auto simp: Cons_eq_append_conv)
      from wrapped(8) [OF this(2,1)] have "l < fst x" using ne by (auto simp: apart_def l_def)
      then show ?thesis
        using placeBelow_holds [OF h wrapped(1-6,8) l_def n m] by (simp add: place)
    qed
  qed
qed

lemma enqueueEntry_holds:
  assumes "buffer_holds rb s u" and "0 < n" and "n \<le> bf_memoryBlockSize rb"
  shows "\<exists>rb' k p. enqueueEntry header rb n d = Some rb' \<and> k \<le> length (s @ u) \<and>
    buffer_holds rb' (drop k s) (drop (k - length s) u @ [(p, n, d)]) \<and>
    bf_memoryBlockSize rb' = bf_memoryBlockSize rb"
proof -
  obtain p rb1 k rb' where "placeEntry header rb n = Some (p, rb1)" "writeEntry rb1 p n d = Some rb'"
      and r: "k \<le> length (s @ u)" "buffer_holds rb' (drop k s) (drop (k - length s) u @ [(p, n, d)])"
      "bf_memoryBlockSize rb' = bf_memoryBlockSize rb"
    using placeEntry_holds [OF assms, of d header] unfolding accommodated_def by blast
  then have "enqueueEntry header rb n d = Some rb'" using assms(3) by (simp add: enqueueEntry_def)
  with r show ?thesis by blast
qed

lemma nextEntry_holds:
  assumes "buffer_holds rb s u"
  shows "nextEntry rb = Some (map_option (\<lambda>x. snd (snd x)) (if u = [] then None else Some (hd u)),
      rb\<lparr>bf_nextToTransmit := ptr (tl u)\<rparr>)"
    and "buffer_holds (rb\<lparr>bf_nextToTransmit := ptr (tl u)\<rparr>) (s @ take 1 u) (tl u)"
proof -
  have link: "linked (bf_memoryBlock rb) (s @ u)" and nx: "bf_nextToTransmit rb = ptr u"
    using assms by (simp_all add: buffer_holds_def queued_def)
  have "linked (bf_memoryBlock rb) u" using link by (induction s) auto
  then show "nextEntry rb = Some (map_option (\<lambda>x. snd (snd x)) (if u = [] then None else Some (hd u)),
      rb\<lparr>bf_nextToTransmit := ptr (tl u)\<rparr>)"
    using nx by (cases u) (auto simp: nextEntry_def)
  show "buffer_holds (rb\<lparr>bf_nextToTransmit := ptr (tl u)\<rparr>) (s @ take 1 u) (tl u)"
    using assms by (cases u) (auto simp: buffer_holds_def queued_def)
qed

lemma purge_holds: "buffer_holds (purgeBuf rb) [] []"
  by (simp add: buffer_holds_def queued_def purgeBuf_def layout_ascending)

lemma create_holds: "buffer_holds ReportBuffer_create [] []"
  by (simp add: buffer_holds_def queued_def ReportBuffer_create_def layout_ascending)


section \<open>A queue of reports\<close>

text \<open>What the reporting code needs of its buffer: reports are taken out in the order they were put in;
  some of the oldest may be given up for a new one.\<close>

datatype 'd BufferOp = Op_enqueue nat 'd | Op_next | Op_purge

primrec queue_run ::
  "('b \<Rightarrow> nat \<Rightarrow> 'd \<Rightarrow> 'b option) \<Rightarrow> ('b \<Rightarrow> ('d option \<times> 'b) option) \<Rightarrow> ('b \<Rightarrow> 'b) \<Rightarrow> 'd BufferOp list \<Rightarrow> 'b \<Rightarrow>
   ('b \<times> 'd list) option" where
  "queue_run enq nxt purge [] b = Some (b, [])"
| "queue_run enq nxt purge (x # xs) b =
     (case x of
        Op_enqueue n d \<Rightarrow> do {
          b \<leftarrow> enq b n d;
          queue_run enq nxt purge xs b
        }
      | Op_next \<Rightarrow> do {
          (d, b) \<leftarrow> nxt b;
          (b, out) \<leftarrow> queue_run enq nxt purge xs b;
          Some (b, (case d of None \<Rightarrow> out | Some d \<Rightarrow> d # out))
        }
      | Op_purge \<Rightarrow> queue_run enq nxt purge xs (purge b))"

text \<open>The reports of a series of operations that fit into a block of \<open>N\<close> octets.\<close>

definition enqueued :: "nat \<Rightarrow> 'd BufferOp list \<Rightarrow> 'd list" where
  "enqueued N xs = concat (map (\<lambda>x. case x of Op_enqueue n d \<Rightarrow> if n \<le> N then [d] else [] | _ \<Rightarrow> []) xs)"

lemma enqueued_simps [simp]:
  "enqueued N [] = []"
  "enqueued N (Op_enqueue n d # xs) = (if n \<le> N then [d] else []) @ enqueued N xs"
  "enqueued N (Op_next # xs) = enqueued N xs" "enqueued N (Op_purge # xs) = enqueued N xs"
  by (simp_all add: enqueued_def)

primrec proper :: "'d BufferOp \<Rightarrow> bool" where
  "proper (Op_enqueue n d) \<longleftrightarrow> 0 < n"
| "proper Op_next \<longleftrightarrow> True"
| "proper Op_purge \<longleftrightarrow> True"

locale report_queue =
  fixes N :: nat
    and enq :: "'b \<Rightarrow> nat \<Rightarrow> 'd \<Rightarrow> 'b option"
    and nxt :: "'b \<Rightarrow> ('d option \<times> 'b) option"
    and purge :: "'b \<Rightarrow> 'b"
    and content :: "'b \<Rightarrow> 'd list \<Rightarrow> 'd list \<Rightarrow> bool"
  assumes enq_drops: "content b s u \<Longrightarrow> 0 < n \<Longrightarrow> n \<le> N \<Longrightarrow>
      \<exists>b' k. enq b n d = Some b' \<and> content b' (drop k s) (drop (k - length s) u @ [d])"
    and enq_skips: "content b s u \<Longrightarrow> N < n \<Longrightarrow> enq b n d = Some b"
    and nxt_takes: "content b s u \<Longrightarrow>
      \<exists>b'. nxt b = Some (if u = [] then None else Some (hd u), b') \<and> content b' (s @ take 1 u) (tl u)"
    and purge_empties: "content b s u \<Longrightarrow> content (purge b) [] []"
begin

lemma run_in_order:
  assumes "content b s u" and "list_all proper xs"
  shows "\<exists>b' out s' u'. queue_run enq nxt purge xs b = Some (b', out) \<and> content b' s' u' \<and>
    subseq (out @ u') (u @ enqueued N xs)"
  using assms
proof (induction xs arbitrary: b s u)
  case (Cons x xs)
  show ?case
  proof (cases x)
    case (Op_enqueue n d)
    show ?thesis
    proof (cases "n \<le> N")
      case True
      obtain b1 k where b1: "enq b n d = Some b1" "content b1 (drop k s) (drop (k - length s) u @ [d])"
        using enq_drops [OF Cons.prems(1) _ True, of d] Cons.prems(2) by (auto simp: Op_enqueue)
      obtain b' out s' u' where r: "queue_run enq nxt purge xs b1 = Some (b', out)" "content b' s' u'"
          "subseq (out @ u') ((drop (k - length s) u @ [d]) @ enqueued N xs)"
        using Cons.IH [OF b1(2)] Cons.prems(2) by auto
      have "subseq (drop (k - length s) u) u" by (rule suffix_imp_subseq [OF suffix_drop])
      then have "subseq ((drop (k - length s) u @ [d]) @ enqueued N xs) (u @ [d] @ enqueued N xs)"
        by (simp add: subseq_append')
      with r(3) have "subseq (out @ u') (u @ [d] @ enqueued N xs)" by (rule subseq_order.trans)
      with r b1 True show ?thesis by (auto simp: Op_enqueue)
    next
      case False
      then show ?thesis
        using enq_skips [OF Cons.prems(1), of n d] Cons.IH [OF Cons.prems(1)] Cons.prems(2)
        by (simp add: Op_enqueue)
    qed
  next
    case Op_next
    obtain b1 where b1: "nxt b = Some (if u = [] then None else Some (hd u), b1)"
        "content b1 (s @ take 1 u) (tl u)"
      using nxt_takes [OF Cons.prems(1)] by blast
    obtain b' out s' u' where r: "queue_run enq nxt purge xs b1 = Some (b', out)" "content b' s' u'"
        "subseq (out @ u') (tl u @ enqueued N xs)"
      using Cons.IH [OF b1(2)] Cons.prems(2) by auto
    then show ?thesis using b1(1) by (cases u) (auto simp: Op_next)
  next
    case Op_purge
    obtain b' out s' u' where r: "queue_run enq nxt purge xs (purge b) = Some (b', out)" "content b' s' u'"
        "subseq (out @ u') ([] @ enqueued N xs)"
      using Cons.IH [OF purge_empties [OF Cons.prems(1)]] Cons.prems(2) by auto
    have "subseq (enqueued N xs) (u @ enqueued N xs)" by (rule suffix_imp_subseq) (simp add: suffix_def)
    with r show ?thesis by (auto simp: Op_purge intro: subseq_order.trans)
  qed
qed auto

end

text \<open>The buffer is such a queue.\<close>

definition buffer_content :: "nat \<Rightarrow> 'd ReportBuffer \<Rightarrow> 'd list \<Rightarrow> 'd list \<Rightarrow> bool" where
  "buffer_content N rb s u \<longleftrightarrow> bf_memoryBlockSize rb = N \<and>
     (\<exists>xs ys. buffer_holds rb xs ys \<and> s = map (\<lambda>x. snd (snd x)) xs \<and> u = map (\<lambda>x. snd (snd x)) ys)"

interpretation report_buffer: report_queue N "enqueueEntry header" nextEntry purgeBuf "buffer_content N"
  for N header
proof
  fix b :: "'a ReportBuffer" and s u :: "'a list" and n d
  assume c: "buffer_content N b s u"
  then obtain xs ys where xs: "buffer_holds b xs ys" "s = map (\<lambda>x. snd (snd x)) xs"
      "u = map (\<lambda>x. snd (snd x)) ys" and N: "bf_memoryBlockSize b = N"
    by (auto simp: buffer_content_def)
  show "\<exists>b' k. enqueueEntry header b n d = Some b' \<and>
      buffer_content N b' (drop k s) (drop (k - length s) u @ [d])" if n: "0 < n" "n \<le> N"
  proof -
    obtain b' k p where "enqueueEntry header b n d = Some b'"
        "buffer_holds b' (drop k xs) (drop (k - length xs) ys @ [(p, n, d)])" "bf_memoryBlockSize b' = N"
      using enqueueEntry_holds [OF xs(1) n(1), of header d] n(2) N by auto
    then show ?thesis
      by (intro exI [of _ b'] exI [of _ k]) (auto simp: buffer_content_def xs drop_map intro!: exI)
  qed
  show "enqueueEntry header b n d = Some b" if "N < n" using that N by (simp add: enqueueEntry_def)
  show "\<exists>b'. nextEntry b = Some (if u = [] then None else Some (hd u), b') \<and>
      buffer_content N b' (s @ take 1 u) (tl u)"
    using nextEntry_holds [OF xs(1)] N
    by (auto simp: buffer_content_def xs hd_map map_tl take_map intro!: exI)
  show "buffer_content N (purgeBuf b) [] []"
    using purge_holds [of b] N by (auto simp: buffer_content_def purgeBuf_def)
qed

text \<open>As long as the reports fit behind each other, none is given up.\<close>

lemma placeEntry_fits:
  assumes h: "buffer_holds rb s u" and xs: "s @ u \<noteq> []" and asc: "sorted_wrt apart (s @ u)"
    and p: "p = fst (last (s @ u)) + fst (snd (last (s @ u)))" and fits: "p + n \<le> bf_memoryBlockSize rb"
  shows "placeEntry header rb n = Some (p, rb\<lparr>bf_memoryBlock :=
    store_next header (fst (last (s @ u))) (Some p) (bf_memoryBlock rb)\<rparr>)"
proof -
  define l where "l = fst (last (s @ u))"
  obtain x ys where x: "s @ u = x # ys" using xs by (cases "s @ u") auto
  have q: "linked (bf_memoryBlock rb) (s @ u)" "bf_oldestReport rb = Some (fst x)"
      "bf_reportsCount rb = int (length (s @ u))" "bf_lastEnqueuedReport rb = Some l"
      "in_block (bf_memoryBlockSize rb) (s @ u)"
    using h xs by (auto simp: buffer_holds_def queued_def layout_def in_block_def l_def x)
  obtain lastEntry where m: "bf_memoryBlock rb l = Some lastEntry"
    and len: "p = l + en_entryLength lastEntry"
    by (rule that [OF linked_last [OF q(1) xs, folded l_def]]) (simp add: p l_def)
  show ?thesis
  proof (cases "ys = []")
    case True
    then have l: "l = fst x" "bf_reportsCount rb = 1" using q(3) by (simp_all add: l_def x)
    have "rb\<lparr>bf_nextToTransmit := (if bf_nextToTransmit rb = bf_oldestReport rb then Some l
        else bf_nextToTransmit rb), bf_oldestReport := Some l\<rparr> = rb" (is "?rb = rb")
      using q(2) l by (cases rb) simp
    moreover have "placeEntry header rb n =
        Some (p, ?rb\<lparr>bf_memoryBlock := store_next header l (Some p) (bf_memoryBlock rb)\<rparr>)"
      using q(2,4) m l fits by (simp add: placeEntry_def placeBehindOne_def Let_def len)
    ultimately show ?thesis by (simp only: l_def)
  next
    case False
    have "x \<in> set [x]" "last ys \<in> set ys" using False by simp_all
    then have "apart x (last ys)" using asc by (simp add: x)
    moreover have "0 < fst (snd x)" using q(5) by (simp add: x)
    ultimately have "fst x < l" using False by (simp add: apart_def l_def x)
    then show ?thesis
      using q(2,4) m fits by (simp add: placeEntry_def placeAbove_def Let_def len l_def [symmetric])
  qed
qed

definition occupied :: "'d entry list \<Rightarrow> nat" where
  "occupied xs = sum_list (map (\<lambda>x. fst (snd x)) xs)"

text \<open>The entries lie behind each other from the beginning of the block.\<close>

definition packed :: "'d entry list \<Rightarrow> bool" where
  "packed xs \<longleftrightarrow> sorted_wrt apart xs \<and> (xs \<noteq> [] \<longrightarrow> fst (last xs) + fst (snd (last xs)) = occupied xs)"

lemma enqueueEntry_packed:
  assumes h: "buffer_holds rb s u" and pk: "packed (s @ u)" and n: "0 < n"
    and fits: "occupied (s @ u) + n \<le> bf_memoryBlockSize rb"
  shows "\<exists>rb' p. enqueueEntry header rb n d = Some rb' \<and> buffer_holds rb' s (u @ [(p, n, d)]) \<and>
    packed (s @ u @ [(p, n, d)]) \<and> bf_memoryBlockSize rb' = bf_memoryBlockSize rb"
proof (cases "s @ u = []")
  case True
  define rb0 where "rb0 = rb\<lparr>bf_oldestReport := Some 0, bf_nextToTransmit := Some 0\<rparr>"
  have "placeEntry header rb n = Some (0, rb0)"
    using h True by (simp add: placeEntry_def rb0_def buffer_holds_def)
  moreover obtain rb' where "writeEntry rb0 0 n d = Some rb'" "buffer_holds rb' [] [(0, n, d)]"
      "bf_memoryBlockSize rb' = bf_memoryBlockSize rb"
    using place_none [of rb0 0 n d] h True n fits by (auto simp: rb0_def buffer_holds_def queued_def)
  ultimately show ?thesis
    using True fits by (intro exI [of _ rb'] exI [of _ 0]) (simp add: enqueueEntry_def packed_def occupied_def)
next
  case False
  define p where "p = fst (last (s @ u)) + fst (snd (last (s @ u)))"
  have p: "p = occupied (s @ u)" and asc: "sorted_wrt apart (s @ u)"
    using pk False by (simp_all add: packed_def p_def del: append_is_Nil_conv)
  have q: "queued rb s u" and blk: "in_block (bf_memoryBlockSize rb) (s @ u)"
    using h by (auto simp: buffer_holds_def layout_def in_block_def)
  note new = layout_snoc_end [OF asc blk False p_def, of n d, OF _ n]
  have fit: "p + n \<le> bf_memoryBlockSize rb" using fits p by simp
  have "layout (bf_memoryBlockSize rb) (s @ u @ [(p, n, d)])"
    using new [OF fit] layout_ascending by (metis append_assoc)
  then obtain rb' where "writeEntry (rb\<lparr>bf_memoryBlock :=
      store_next header (fst (last (s @ u))) (Some p) (bf_memoryBlock rb)\<rparr>) p n d = Some rb'"
      "buffer_holds rb' s (u @ [(p, n, d)])" "bf_memoryBlockSize rb' = bf_memoryBlockSize rb"
    using place_kept [OF q False _ refl] by blast
  moreover have "packed (s @ u @ [(p, n, d)])"
    using new(1) [OF fit] p by (simp add: packed_def occupied_def)
  ultimately show ?thesis
    using placeEntry_fits [OF h False asc p_def fit, of header] fits
    by (intro exI [of _ rb'] exI [of _ p]) (simp add: enqueueEntry_def)
qed

text \<open>The octets a series of operations asks for; a purge is too much.\<close>

primrec demand :: "nat \<Rightarrow> 'd BufferOp list \<Rightarrow> nat" where
  "demand N [] = 0"
| "demand N (x # xs) = (case x of Op_enqueue n d \<Rightarrow> n | Op_next \<Rightarrow> 0 | Op_purge \<Rightarrow> Suc N) + demand N xs"

lemma run_loses_nothing:
  assumes "buffer_holds rb s u" and "packed (s @ u)" and "list_all proper xs" and "bf_memoryBlockSize rb = N"
    and "occupied (s @ u) + demand N xs \<le> N"
  shows "\<exists>rb' out s' u'. queue_run (enqueueEntry header) nextEntry purgeBuf xs rb = Some (rb', out) \<and>
    buffer_holds rb' s' u' \<and>
    out @ map (\<lambda>x. snd (snd x)) u' = map (\<lambda>x. snd (snd x)) u @ enqueued N xs"
  using assms
proof (induction xs arbitrary: rb s u)
  case (Cons x xs)
  show ?case
  proof (cases x)
    case (Op_enqueue n d)
    obtain rb1 p where rb1: "enqueueEntry header rb n d = Some rb1" "buffer_holds rb1 s (u @ [(p, n, d)])"
        "packed (s @ u @ [(p, n, d)])" "bf_memoryBlockSize rb1 = N"
      using enqueueEntry_packed [OF Cons.prems(1,2), of n header d] Cons.prems(3-5) by (auto simp: Op_enqueue)
    from Cons.IH [OF rb1(2) _ _ rb1(4)] rb1 Cons.prems(3,5) show ?thesis
      by (auto simp: Op_enqueue occupied_def)
  next
    case Op_next
    note nx = nextEntry_holds [OF Cons.prems(1)]
    have su: "(s @ take 1 u) @ tl u = s @ u" by (cases u) auto
    obtain rb' out s' u' where r: "queue_run (enqueueEntry header) nextEntry purgeBuf xs
          (rb\<lparr>bf_nextToTransmit := ptr (tl u)\<rparr>) = Some (rb', out)" "buffer_holds rb' s' u'"
        "out @ map (\<lambda>x. snd (snd x)) u' = map (\<lambda>x. snd (snd x)) (tl u) @ enqueued N xs"
      using Cons.IH [OF nx(2)] Cons.prems(2-5) unfolding su by (auto simp: Op_next)
    then show ?thesis using nx(1) by (cases u) (auto simp: Op_next)
  next
    case Op_purge
    then show ?thesis using Cons.prems(5) by simp
  qed
qed auto

text \<open>C13: The report buffer is a queue: any series of operations on a new buffer succeeds (nothing outside the
  block or of an overwritten entry is read), the reports transmitted and the reports still to
  transmit are, in this order, among the reports enqueued in their order, and as long as the
  reports fit into the block together, none is missing.\<close>

theorem report_buffer_fifo:
  assumes "list_all proper ops" and "N = CONFIG_REPORTING_DEFAULT_REPORT_BUFFER_SIZE"
  shows "\<exists>rb out s u. queue_run (enqueueEntry header) nextEntry purgeBuf ops ReportBuffer_create = Some (rb, out) \<and>
    buffer_content N rb s u \<and> subseq (out @ u) (enqueued N ops) \<and>
    (demand N ops \<le> N \<longrightarrow> out @ u = enqueued N ops)"
proof -
  have c: "buffer_content N ReportBuffer_create [] []"
    using create_holds assms(2) by (auto simp: buffer_content_def ReportBuffer_create_def)
  obtain rb out s u where r: "queue_run (enqueueEntry header) nextEntry purgeBuf ops ReportBuffer_create = Some (rb, out)"
      "buffer_content N rb s u" "subseq (out @ u) (enqueued N ops)"
    using report_buffer.run_in_order [OF c assms(1), of header] by auto
  show ?thesis
  proof (cases "demand N ops \<le> N")
    case False
    then show ?thesis using r by blast
  next
    case True
    obtain rb' out' s' u' where "queue_run (enqueueEntry header) nextEntry purgeBuf ops ReportBuffer_create =
        Some (rb', out')" "buffer_holds rb' s' u'" "out' @ map (\<lambda>x. snd (snd x)) u' = enqueued N ops"
      using run_loses_nothing [OF create_holds _ assms(1), of N header] True assms(2)
      by (auto simp: packed_def occupied_def ReportBuffer_create_def)
    then have "buffer_content N rb (map (\<lambda>x. snd (snd x)) s') (map (\<lambda>x. snd (snd x)) u')"
        "out @ map (\<lambda>x. snd (snd x)) u' = enqueued N ops" "rb = rb'"
      using r by (auto simp: buffer_content_def)
    with r(1) show ?thesis by (metis subseq_order.refl)
  qed
qed

theorem report_buffer_fifo_witness:
  "\<exists>rb out s u. queue_run (enqueueEntry 24) nextEntry purgeBuf
      [Op_enqueue 40000 (1 :: nat), Op_next, Op_enqueue 30 2, Op_enqueue 30000 3, Op_next] ReportBuffer_create =
      Some (rb, out) \<and> buffer_content 65536 rb s u \<and> subseq (out @ u) [1, 2, 3]"
  using report_buffer_fifo [of "[Op_enqueue 40000 (1 :: nat), Op_next, Op_enqueue 30 2, Op_enqueue 30000 3, Op_next]"
      65536 24]
  by (auto simp: CONFIG_REPORTING_DEFAULT_REPORT_BUFFER_SIZE_def)

end
