(* ===== verification/Report_Control.thy ===== *)
theory Report_Control
  imports Report_Buffer Control_Object Common_Buffers Ber_Oid
begin

text \<open>
  The report service of the server (\<open>src/src/iedserver/mms_mapping/reporting.c\<close>): report control
  blocks, their values as MMS clients see them, data sets, the creation of reports with and without
  buffer, and the write accesses of clients.

  A value of the data model is its address; what is there during a call is part of the environment of the
  call, with the time, the data sets found by name, the addresses of clients and sizes of C types. The
  fields \<open>confRev\<close> and, for buffered reports, \<open>timeOfEntry\<close> point into \<open>rcbValues\<close> and are not
  fields here. \<open>None\<close> is undefined behaviour or a failed assertion. Lengths are natural numbers.
\<close>

section \<open>Data\<close>

datatype ReportInclusionFlag =
  REPORT_CONTROL_NONE | REPORT_CONTROL_VALUE_UPDATE | REPORT_CONTROL_VALUE_CHANGED
  | REPORT_CONTROL_QUALITY_CHANGED

primrec flag_code :: "ReportInclusionFlag \<Rightarrow> byte" where
  "flag_code REPORT_CONTROL_NONE = 0"
| "flag_code REPORT_CONTROL_VALUE_UPDATE = 1"
| "flag_code REPORT_CONTROL_VALUE_CHANGED = 2"
| "flag_code REPORT_CONTROL_QUALITY_CHANGED = 3"

abbreviation TRG_OPT_DATA_CHANGED :: i32 where "TRG_OPT_DATA_CHANGED \<equiv> 1"
abbreviation TRG_OPT_QUALITY_CHANGED :: i32 where "TRG_OPT_QUALITY_CHANGED \<equiv> 2"
abbreviation TRG_OPT_DATA_UPDATE :: i32 where "TRG_OPT_DATA_UPDATE \<equiv> 4"
abbreviation TRG_OPT_INTEGRITY :: i32 where "TRG_OPT_INTEGRITY \<equiv> 8"
abbreviation TRG_OPT_GI :: i32 where "TRG_OPT_GI \<equiv> 16"

record DataSet =
  ds_elementCount :: nat
  ds_fcdas :: "nat list"

definition DataSet_getSize :: "DataSet \<Rightarrow> nat" where
  "DataSet_getSize self = ds_elementCount self"

text \<open>The configuration of a report control block.\<close>

record ReportControlBlock =
  cb_parent :: cstring
  cb_name :: cstring
  cb_rptId :: "cstring option"
  cb_buffered :: bool
  cb_dataSetName :: "cstring option"
  cb_confRef :: u32
  cb_trgOps :: byte
  cb_options :: byte
  cb_bufferTime :: u32
  cb_intPeriod :: u32

text \<open>What is stored with a buffered report: \<open>entryId\<close>, \<open>flags\<close>, the octets of the inclusion field, and
  for each value its address in the buffer, the reason in front of it, and the copy. A copy of
  \<open>MmsValue_cloneToBuffer\<close> is not complete: in the copy of an integer, also inside of an array or a structure, the pointer
  \<open>value.integer\<close> is that of the original (the chunk \<open>C_value\<close> with \<open>None\<close> in \<open>Mms_Value\<close>), so the
  integers of a stored value are those of the value it was copied from. This is an entry of the data set, or an entry
  of \<open>bufferedDataSetValues\<close>, which is released when the control block finds a data set again; the number in
  front of the index says which of these buffers it was.\<close>

datatype ValueSource = DataSetValue nat | BufferedValue nat nat

record StoredValue =
  st_address :: nat
  st_reason :: byte
  st_source :: ValueSource
  st_copy :: MmsValue

record Report =
  rp_entryId :: "byte list"
  rp_flags :: byte
  rp_inclusion :: "byte list"
  rp_values :: "StoredValue list"

record ReportControl =
  rc_name :: "cstring option"
  rc_domain :: "MmsDomain option"
  rc_parentLN :: cstring
  rc_rcbValues :: "MmsValue option"
  rc_inclusionField :: "MmsValue option"
  rc_dataSet :: "DataSet option"
  rc_dataSetFreed :: bool
  rc_isDynamicDataSet :: bool
  rc_enabled :: bool
  rc_reserved :: bool
  rc_buffered :: bool
  rc_bufferedDataSetValues :: "MmsValue option list option"
  rc_shadowBuffer :: nat
  rc_valueReferences :: "nat list option"
  rc_gi :: bool
  rc_sqNum :: u16
  rc_intgPd :: u32
  rc_bufTm :: u32
  rc_nextIntgReportTime :: u64
  rc_reservationTimeout :: u64
  rc_clientConnection :: "MmsServerConnection option"
  rc_lastEntryId :: u64
  rc_triggerOps :: i32
  rc_inclusionFlags :: "ReportInclusionFlag list option"
  rc_triggered :: bool
  rc_reportTime :: u64
  rc_isBuffering :: bool
  rc_isResync :: bool
  rc_reportBuffer :: "Report ReportBuffer option"
  rc_timeOfEntry :: "MmsValue option"

record ReportEnv =
  re_time :: u64
  re_value :: "nat \<Rightarrow> MmsValue"
  re_lookupDataSet :: "cstring \<Rightarrow> DataSet option"
  re_domainDataSet :: "cstring \<Rightarrow> DataSet option"
  re_clientAddress :: "MmsServerConnection \<Rightarrow> string"
  re_junk :: "nat \<Rightarrow> byte"
  re_sizeof :: Sizeof
  re_sizeofEntry :: nat
  re_sizeofListHead :: nat
  re_sizeofListNode :: nat

text \<open>A report sent to a client: \<open>MmsServerConnection_sendInformationReportVMDSpecific\<close> with the name
  \<open>RPT\<close>.\<close>

datatype ReportEvent = E_report "MmsServerConnection option" "MmsValue option list"

text \<open>The fields \<open>reportTime\<close> and \<open>bufTm\<close> are not initialised by \<open>ReportControl_create\<close>.\<close>

definition ReportControl_create :: "u64 \<Rightarrow> u32 \<Rightarrow> bool \<Rightarrow> cstring \<Rightarrow> ReportControl" where
  "ReportControl_create junkTime junkBufTm buffered parentLN =
     \<lparr>rc_name = None, rc_domain = None, rc_parentLN = parentLN, rc_rcbValues = None,
      rc_inclusionField = None, rc_dataSet = None, rc_dataSetFreed = False, rc_isDynamicDataSet = False,
      rc_enabled = False, rc_reserved = False, rc_buffered = buffered, rc_bufferedDataSetValues = None, rc_shadowBuffer = 0,
      rc_valueReferences = None, rc_gi = False, rc_sqNum = 0, rc_intgPd = 0, rc_bufTm = junkBufTm,
      rc_nextIntgReportTime = 0, rc_reservationTimeout = 0, rc_clientConnection = None,
      rc_lastEntryId = 0, rc_triggerOps = 0, rc_inclusionFlags = None, rc_triggered = False,
      rc_reportTime = junkTime, rc_isBuffering = False, rc_isResync = False,
      rc_reportBuffer = (if buffered then Some ReportBuffer_create else None), rc_timeOfEntry = None\<rparr>"


section \<open>The values of a report control block\<close>

definition rcb_elements :: "bool \<Rightarrow> (cstring \<times> int) list" where
  "rcb_elements buffered =
     (if buffered
      then [(lit ''RptID'', 0), (lit ''RptEna'', 1), (lit ''DatSet'', 2), (lit ''ConfRev'', 3),
        (lit ''OptFlds'', 4), (lit ''BufTm'', 5), (lit ''SqNum'', 6), (lit ''TrgOps'', 7),
        (lit ''IntgPd'', 8), (lit ''GI'', 9), (lit ''PurgeBuf'', 10), (lit ''EntryID'', 11),
        (lit ''TimeOfEntry'', 12), (lit ''ResvTms'', 13), (lit ''Owner'', 14)]
      else [(lit ''RptID'', 0), (lit ''RptEna'', 1), (lit ''Resv'', 2), (lit ''DatSet'', 3),
        (lit ''ConfRev'', 4), (lit ''OptFlds'', 5), (lit ''BufTm'', 6), (lit ''SqNum'', 7),
        (lit ''TrgOps'', 8), (lit ''IntgPd'', 9), (lit ''GI'', 10), (lit ''Owner'', 11)])"

definition ReportControl_getRCBValue :: "ReportControl \<Rightarrow> cstring \<Rightarrow> MmsValue option" where
  "ReportControl_getRCBValue rc elementName =
     (case map_of (rcb_elements (rc_buffered rc)) elementName of
        None \<Rightarrow> None
      | Some i \<Rightarrow> do { v \<leftarrow> rc_rcbValues rc; MmsValue_getElement v i })"

text \<open>The control block after the object that \<open>ReportControl_getRCBValue\<close> returned has been changed.\<close>

definition rcb_update :: "ReportControl \<Rightarrow> cstring \<Rightarrow> MmsValue \<Rightarrow> ReportControl" where
  "rcb_update rc elementName v =
     (case map_of (rcb_elements (rc_buffered rc)) elementName of
        None \<Rightarrow> rc
      | Some i \<Rightarrow> rc\<lparr>rc_rcbValues := map_option (\<lambda>m. MmsValue_setElement m i (Some v)) (rc_rcbValues rc)\<rparr>)"

text \<open>\<open>self->timeOfEntry\<close>, and the control block after it has been changed.\<close>

definition timeOfEntry :: "ReportControl \<Rightarrow> MmsValue option" where
  "timeOfEntry rc =
     (if rc_buffered rc then ReportControl_getRCBValue rc (lit ''TimeOfEntry'') else rc_timeOfEntry rc)"

definition set_timeOfEntry :: "ReportControl \<Rightarrow> MmsValue \<Rightarrow> ReportControl" where
  "set_timeOfEntry rc v =
     (if rc_buffered rc then rcb_update rc (lit ''TimeOfEntry'') v else rc\<lparr>rc_timeOfEntry := Some v\<rparr>)"

definition updateTimeOfEntry :: "ReportControl \<Rightarrow> u64 \<Rightarrow> ReportControl option" where
  "updateTimeOfEntry self currentTime = do {
     v \<leftarrow> timeOfEntry self;
     v \<leftarrow> MmsValue_setBinaryTime v currentTime;
     Some (set_timeOfEntry self v)
   }"

text \<open>The data set of a control block, when it is used: it must be there and not have been released.\<close>

definition usedDataSet :: "ReportControl \<Rightarrow> DataSet option" where
  "usedDataSet rc = (if rc_dataSetFreed rc then None else rc_dataSet rc)"


section \<open>Reports without buffer\<close>

text \<open>Setting several bits of a bit string.\<close>

primrec setBits :: "MmsValue \<Rightarrow> (int \<times> bool) list \<Rightarrow> MmsValue option" where
  "setBits v [] = Some v"
| "setBits v (b # bs) = do {
     v \<leftarrow> MmsValue_setBitStringBit v (fst b) (snd b);
     setBits v bs
   }"

text \<open>The elements in front of the inclusion field, depending on the option fields.\<close>

definition reportHeader :: "ReportControl \<Rightarrow> MmsValue \<Rightarrow> MmsValue option list \<Rightarrow> MmsValue option list option" where
  "reportHeader self optFlds entryId = do {
     seqNum \<leftarrow> MmsValue_getBitStringBit optFlds 1;
     timeStamp \<leftarrow> MmsValue_getBitStringBit optFlds 2;
     dataSet \<leftarrow> MmsValue_getBitStringBit optFlds 4;
     bufOvfl \<leftarrow> MmsValue_getBitStringBit optFlds 6;
     entry \<leftarrow> MmsValue_getBitStringBit optFlds 7;
     confRev \<leftarrow> MmsValue_getBitStringBit optFlds 8;
     Some ([ReportControl_getRCBValue self (lit ''RptID''), Some optFlds] @
       (if seqNum then [ReportControl_getRCBValue self (lit ''SqNum'')] else []) @
       (if timeStamp then [timeOfEntry self] else []) @
       (if dataSet then [ReportControl_getRCBValue self (lit ''DatSet'')] else []) @
       (if bufOvfl then [Some (MmsValue_newBoolean False)] else []) @
       (if entry then entryId else []) @
       (if confRev then [ReportControl_getRCBValue self (lit ''ConfRev'')] else []))
   }"

text \<open>The value that stands for a data set entry in a report: the current one in general interrogation and
  integrity reports, else the buffered one of an entry with a flag.\<close>

definition entryValue :: "ReportEnv \<Rightarrow> ReportControl \<Rightarrow> bool \<Rightarrow> nat \<Rightarrow> MmsValue option option" where
  "entryValue env rc complete i =
     (if complete then do {
        ds \<leftarrow> usedDataSet rc;
        a \<leftarrow> (if i < length (ds_fcdas ds) then Some (ds_fcdas ds ! i) else None);
        Some (Some (re_value env a))
      }
      else do {
        flags \<leftarrow> rc_inclusionFlags rc;
        flag \<leftarrow> (if i < length flags then Some (flags ! i) else None);
        if flag \<noteq> REPORT_CONTROL_NONE then do {
          vs \<leftarrow> rc_bufferedDataSetValues rc;
          v \<leftarrow> (if i < length vs then vs ! i else None);
          Some (Some v)
        }
        else Some None
      })"

primrec sendReport_values ::
  "ReportEnv \<Rightarrow> ReportControl \<Rightarrow> bool \<Rightarrow> nat list \<Rightarrow> MmsValue \<Rightarrow> (MmsValue \<times> MmsValue list) option" where
  "sendReport_values env self complete [] inclusionField = Some (inclusionField, [])"
| "sendReport_values env self complete (i # is) inclusionField = do {
     v \<leftarrow> entryValue env self complete i;
     (case v of
        None \<Rightarrow> sendReport_values env self complete is inclusionField
      | Some v \<Rightarrow> do {
          inclusionField \<leftarrow> (if complete then Some inclusionField
             else MmsValue_setBitStringBit inclusionField (int i) True);
          (inclusionField, vs) \<leftarrow> sendReport_values env self complete is inclusionField;
          Some (inclusionField, v # vs)
        })
   }"

definition flag_bits :: "ReportInclusionFlag \<Rightarrow> (int \<times> bool) list" where
  "flag_bits flag =
     (case flag of
        REPORT_CONTROL_QUALITY_CHANGED \<Rightarrow> [(2, True)]
      | REPORT_CONTROL_VALUE_CHANGED \<Rightarrow> [(1, True)]
      | REPORT_CONTROL_VALUE_UPDATE \<Rightarrow> [(3, True)]
      | REPORT_CONTROL_NONE \<Rightarrow> [])"

definition reasonValue :: "(int \<times> bool) list \<Rightarrow> MmsValue option" where
  "reasonValue bits = setBits (MmsValue_newBitString 6) bits"

primrec sendReport_reasons ::
  "ReportControl \<Rightarrow> bool \<Rightarrow> bool \<Rightarrow> nat list \<Rightarrow> MmsValue list option" where
  "sendReport_reasons self isIntegrity isGI [] = Some []"
| "sendReport_reasons self isIntegrity isGI (i # is) =
     (if isGI \<or> isIntegrity then do {
        reason \<leftarrow> reasonValue ((if isGI then [(5, True)] else []) @ (if isIntegrity then [(4, True)] else []));
        rs \<leftarrow> sendReport_reasons self isIntegrity isGI is;
        Some (reason # rs)
      }
      else do {
        flags \<leftarrow> rc_inclusionFlags self;
        flag \<leftarrow> (if i < length flags then Some (flags ! i) else None);
        rs \<leftarrow> sendReport_reasons self isIntegrity isGI is;
        if flag \<noteq> REPORT_CONTROL_NONE then do {
          reason \<leftarrow> reasonValue (flag_bits flag);
          Some (reason # rs)
        }
        else Some rs
      })"

text \<open>\<open>inclusionFlags[i] = REPORT_CONTROL_NONE\<close> for the entries of the data set.\<close>

definition clearFlags :: "ReportControl \<Rightarrow> nat \<Rightarrow> ReportControl option" where
  "clearFlags rc n =
     (if n = 0 then Some rc
      else do {
        flags \<leftarrow> rc_inclusionFlags rc;
        if n \<le> length flags
        then Some (rc\<lparr>rc_inclusionFlags := Some (replicate n REPORT_CONTROL_NONE @ drop n flags)\<rparr>)
        else None
      })"

definition increaseSqNum :: "ReportControl \<Rightarrow> ReportControl option" where
  "increaseSqNum self = do {
     sqNum \<leftarrow> ReportControl_getRCBValue self (lit ''SqNum'');
     sqNum \<leftarrow> MmsValue_setUint16 sqNum (rc_sqNum self + 1);
     Some (rcb_update (self\<lparr>rc_sqNum := rc_sqNum self + 1\<rparr>) (lit ''SqNum'') sqNum)
   }"

definition sendReport ::
  "ReportEnv \<Rightarrow> ReportControl \<Rightarrow> bool \<Rightarrow> bool \<Rightarrow> (ReportEvent \<times> ReportControl) option" where
  "sendReport env self isIntegrity isGI = do {
     optFlds \<leftarrow> ReportControl_getRCBValue self (lit ''OptFlds'');
     optFlds \<leftarrow> setBits optFlds [(5, False), (7, False), (9, False)];
     let self = rcb_update self (lit ''OptFlds'') optFlds;
     header \<leftarrow> reportHeader self optFlds [];
     inclusionField \<leftarrow> rc_inclusionField self;
     inclusionField \<leftarrow> (if isGI \<or> isIntegrity then MmsValue_setAllBitStringBits inclusionField
        else MmsValue_deleteAllBitStringBits inclusionField);
     ds \<leftarrow> usedDataSet self;
     (inclusionField, vs) \<leftarrow>
        sendReport_values env self (isGI \<or> isIntegrity) [0..<ds_elementCount ds] inclusionField;
     let self = self\<lparr>rc_inclusionField := Some inclusionField\<rparr>;
     reasonRequested \<leftarrow> MmsValue_getBitStringBit optFlds 3;
     reasons \<leftarrow> (if reasonRequested then sendReport_reasons self isIntegrity isGI [0..<ds_elementCount ds]
        else Some []);
     self \<leftarrow> clearFlags self (ds_elementCount ds);
     let event = E_report (rc_clientConnection self)
           (header @ [Some inclusionField] @ map Some vs @ map Some reasons);
     self \<leftarrow> increaseSqNum self;
     Some (event, self)
   }"


section \<open>Buffered reports\<close>

text \<open>Reason and value of each entry that goes into a report.\<close>

primrec enqueueReport_values ::
  "ReportEnv \<Rightarrow> ReportControl \<Rightarrow> bool \<Rightarrow> nat list \<Rightarrow> (nat \<times> byte \<times> MmsValue) list option" where
  "enqueueReport_values env rc complete [] = Some []"
| "enqueueReport_values env rc complete (i # is) = do {
     v \<leftarrow> entryValue env rc complete i;
     flags \<leftarrow> rc_inclusionFlags rc;
     flag \<leftarrow> (if i < length flags then Some (flags ! i) else None);
     vs \<leftarrow> enqueueReport_values env rc complete is;
     Some ((case v of None \<Rightarrow> [] | Some v \<Rightarrow> [(i, flag_code flag, v)]) @ vs)
   }"

text \<open>The octets reasons and values need, and the address behind them after they have been written.\<close>

primrec entriesSize :: "Sizeof \<Rightarrow> (nat \<times> byte \<times> MmsValue) list \<Rightarrow> nat option" where
  "entriesSize sz [] = Some 0"
| "entriesSize sz (x # xs) = do {
     n \<leftarrow> MmsValue_getSizeInMemory sz (snd (snd x));
     m \<leftarrow> entriesSize sz xs;
     Some (1 + n + m)
   }"

primrec cloneEntries ::
  "Sizeof \<Rightarrow> (nat \<Rightarrow> ValueSource) \<Rightarrow> (nat \<times> byte \<times> MmsValue) list \<Rightarrow> nat \<Rightarrow> (StoredValue list \<times> nat) option" where
  "cloneEntries sz source [] entryBufPos = Some ([], entryBufPos)"
| "cloneEntries sz source (x # xs) entryBufPos = do {
     (_, next) \<leftarrow> MmsValue_cloneToBuffer sz (snd (snd x)) (entryBufPos + 1);
     (stored, entryBufPos') \<leftarrow> cloneEntries sz source xs next;
     Some (\<lparr>st_address = entryBufPos + 1, st_reason = fst (snd x), st_source = source (fst x), st_copy = snd (snd x)\<rparr> # stored,
       entryBufPos')
   }"

text \<open>The value of an entry of the data set that goes into a complete report, or its buffered value.\<close>

definition entrySource :: "ReportControl \<Rightarrow> bool \<Rightarrow> nat \<Rightarrow> ValueSource" where
  "entrySource rc complete i =
     (if complete
      then DataSetValue (case rc_dataSet rc of Some ds \<Rightarrow> ds_fcdas ds ! i | None \<Rightarrow> 0)
      else BufferedValue (rc_shadowBuffer rc) i)"

text \<open>The octets of the inclusion field of a report of triggered entries.\<close>

definition inclusionOctets :: "nat \<Rightarrow> nat list \<Rightarrow> byte list option" where
  "inclusionOctets n included = do {
     v \<leftarrow> setBits (MmsValue 0 (V_bitString n (replicate (bits_to_bytes n) 0)))
       (map (\<lambda>i. (int i, True)) included);
     map_option snd (bit_string v)
   }"

text \<open>The value of \<open>EntryID\<close>, component 11 of a buffered report control block.\<close>

definition setEntryId :: "ReportControl \<Rightarrow> byte list \<Rightarrow> ReportControl option" where
  "setEntryId rc entryId = do {
     m \<leftarrow> rc_rcbValues rc;
     entryIdValue \<leftarrow> MmsValue_getElement m 11;
     entryIdValue \<leftarrow> MmsValue_setOctetString entryIdValue entryId 8;
     Some (rc\<lparr>rc_rcbValues := Some (MmsValue_setElement m 11 (Some entryIdValue))\<rparr>)
   }"

text \<open>The entry is written behind its header; writing beyond its announced end is undefined. The value of
  \<open>EntryID\<close> follows the last entry as long as the report is not enabled.\<close>

definition enqueueReport :: "ReportEnv \<Rightarrow> ReportControl \<Rightarrow> bool \<Rightarrow> bool \<Rightarrow> ReportControl option" where
  "enqueueReport env rc isIntegrity isGI = do {
     buffer \<leftarrow> rc_reportBuffer rc;
     field \<leftarrow> rc_inclusionField rc;
     inclusionFieldSize \<leftarrow> MmsValue_getBitStringByteSize field;
     n \<leftarrow> MmsValue_getBitStringSize field;
     let complete = (isIntegrity \<or> isGI);
     vs \<leftarrow> enqueueReport_values env rc complete [0..<n];
     valuesSize \<leftarrow> entriesSize (re_sizeof env) vs;
     let bufferEntrySize = re_sizeofEntry env + (if complete then 0 else inclusionFieldSize) + valuesSize;
     if bufferEntrySize > bf_memoryBlockSize buffer then Some rc
     else do {
       (p, buffer) \<leftarrow> placeEntry (re_sizeofEntry env) buffer bufferEntrySize;
       let timestamp = (if re_time env = rc_lastEntryId rc then re_time env + 1 else re_time env);
       rc \<leftarrow> (if rc_enabled rc then Some rc else setEntryId rc (le_bytes timestamp));
       (stored, stop) \<leftarrow> cloneEntries (re_sizeof env) (entrySource rc complete) vs
          (p + re_sizeofEntry env + (if complete then 0 else inclusionFieldSize));
       inclusion \<leftarrow> (if complete then Some [] else inclusionOctets n (map fst vs));
       buffer \<leftarrow> (if stop \<le> p + bufferEntrySize
          then writeEntry buffer p bufferEntrySize
            \<lparr>rp_entryId = le_bytes timestamp,
             rp_flags = (if isIntegrity then 1 else if isGI then 2 else 0),
             rp_inclusion = inclusion, rp_values = stored\<rparr>
          else None);
       ds \<leftarrow> usedDataSet rc;
       rc \<leftarrow> clearFlags rc (ds_elementCount ds);
       Some (rc\<lparr>rc_reportBuffer := Some buffer, rc_lastEntryId := timestamp\<rparr>)
     }
   }"

text \<open>Requests to the allocator for the local storage of 65536 octets; \<open>None\<close> when one fails.\<close>

definition LOCAL_STORAGE_MEMORY_SIZE :: int where
  "LOCAL_STORAGE_MEMORY_SIZE = 65536"

primrec allocateAll :: "MemoryAllocator \<Rightarrow> nat list \<Rightarrow> MemoryAllocator option" where
  "allocateAll ma [] = Some ma"
| "allocateAll ma (n # ns) =
     (case MemoryAllocator_allocate ma (int n) of
        (None, _) \<Rightarrow> None
      | (Some _, ma) \<Rightarrow> allocateAll ma ns)"

text \<open>The value that is read through the pointers of a stored copy: everything but integers is in the buffer; integers are those
  of the value it was copied from, as it is now. \<open>None\<close> when there is no integer at this place any more.\<close>

function sharedIntegers :: "MmsValue \<Rightarrow> MmsValue option \<Rightarrow> MmsValue option"
  and sharedIntegers_components :: "MmsValue option list \<Rightarrow> MmsValue option list \<Rightarrow> MmsValue option list option"
where
  "sharedIntegers (MmsValue d u) source =
     (case u of
        V_integer _ \<Rightarrow> (case source of Some (MmsValue _ (V_integer a)) \<Rightarrow> Some (MmsValue d (V_integer a)) | _ \<Rightarrow> None)
      | V_unsigned _ \<Rightarrow> (case source of Some (MmsValue _ (V_unsigned a)) \<Rightarrow> Some (MmsValue d (V_unsigned a)) | _ \<Rightarrow> None)
      | V_array cs \<Rightarrow> map_option (\<lambda>cs. MmsValue d (V_array cs))
          (sharedIntegers_components cs (case source of Some (MmsValue _ (V_array ss)) \<Rightarrow> ss | _ \<Rightarrow> []))
      | V_structure cs \<Rightarrow> map_option (\<lambda>cs. MmsValue d (V_structure cs))
          (sharedIntegers_components cs (case source of Some (MmsValue _ (V_structure ss)) \<Rightarrow> ss | _ \<Rightarrow> []))
      | _ \<Rightarrow> Some (MmsValue d u))"
| "sharedIntegers_components [] sources = Some []"
| "sharedIntegers_components (c # cs) sources = do {
     v \<leftarrow> c;
     v \<leftarrow> sharedIntegers v (case sources of [] \<Rightarrow> None | source # _ \<Rightarrow> source);
     cs \<leftarrow> sharedIntegers_components cs (tl sources);
     Some (Some v # cs)
   }"
  by pat_completeness auto
termination
  by (relation "measure (\<lambda>x. case x of Inl (v, _) \<Rightarrow> size v | Inr (cs, _) \<Rightarrow> components_size cs)") auto

text \<open>The value a copy was made from, as long as it is there.\<close>

definition sourceValue :: "ReportEnv \<Rightarrow> ReportControl \<Rightarrow> ValueSource \<Rightarrow> MmsValue option" where
  "sourceValue env self source =
     (case source of
        DataSetValue a \<Rightarrow> Some (re_value env a)
      | BufferedValue g i \<Rightarrow>
          (case rc_bufferedDataSetValues self of
             None \<Rightarrow> None
           | Some vs \<Rightarrow> if g = rc_shadowBuffer self \<and> i < length vs then vs ! i else None))"

text \<open>Reason and value of the entries of a stored report, by a walk through the buffer: all of them with flags, else those of
  the inclusion field, each behind the one before it. Where no value begins is undefined.\<close>

primrec storedValues ::
  "ReportEnv \<Rightarrow> ReportControl \<Rightarrow> byte \<Rightarrow> MmsValue \<Rightarrow> nat list \<Rightarrow> StoredValue list \<Rightarrow> nat \<Rightarrow> (byte \<times> MmsValue) list option"
where
  "storedValues env self flags inclusionField [] stored currentReportBufferPos = Some []"
| "storedValues env self flags inclusionField (i # is) stored currentReportBufferPos = do {
     included \<leftarrow> (if flags > 0 then Some True else MmsValue_getBitStringBit inclusionField (int i));
     if included then do {
       s \<leftarrow> find (\<lambda>s. st_address s = currentReportBufferPos + 1) stored;
       v \<leftarrow> sharedIntegers (st_copy s) (sourceValue env self (st_source s));
       n \<leftarrow> MmsValue_getSizeInMemory (re_sizeof env) v;
       xs \<leftarrow> storedValues env self flags inclusionField is stored (currentReportBufferPos + 1 + n);
       Some ((st_reason s, v) # xs)
     }
     else storedValues env self flags inclusionField is stored currentReportBufferPos
   }"

definition storedReason :: "byte \<Rightarrow> byte \<Rightarrow> MmsValue option" where
  "storedReason flags reason =
     reasonValue
       (if flags > 0
        then (if flags AND 0x01 \<noteq> 0 then [(5, True)] else []) @ (if flags AND 0x02 \<noteq> 0 then [(4, True)] else [])
        else if reason = 3 then [(2, True)]
        else if reason = 2 then [(1, True)]
        else if reason = 1 then [(3, True)]
        else [])"

primrec storedReasons :: "byte \<Rightarrow> (byte \<times> MmsValue) list \<Rightarrow> MmsValue list option" where
  "storedReasons flags [] = Some []"
| "storedReasons flags (x # xs) = do {
     r \<leftarrow> storedReason flags (fst x);
     rs \<leftarrow> storedReasons flags xs;
     Some (r # rs)
   }"

text \<open>The requests to the allocator behind the option fields: list nodes, the value \<open>bufOvfl\<close>, the value
  \<open>entryId\<close>, and for each reason a value, an octet and a list node.\<close>

definition elementAllocations :: "ReportEnv \<Rightarrow> bool \<Rightarrow> bool \<Rightarrow> nat \<Rightarrow> nat \<Rightarrow> nat list" where
  "elementAllocations env bufOvfl entryId elements reasons =
     (if bufOvfl then [sz_MmsValue (re_sizeof env)] else []) @
     (if entryId then [sz_MmsValue (re_sizeof env)] else []) @
     replicate elements (re_sizeofListNode env) @
     concat (replicate reasons [sz_MmsValue (re_sizeof env), 1, re_sizeofListNode env])"

text \<open>The elements of the report that is sent for a stored one, whose values begin at an address.\<close>

definition storedElements ::
  "ReportEnv \<Rightarrow> ReportControl \<Rightarrow> MmsValue \<Rightarrow> nat \<Rightarrow> nat \<Rightarrow> Report \<Rightarrow>
   (MmsValue option list \<times> (byte \<times> MmsValue) list \<times> MmsValue list \<times> MmsValue option list) option" where
  "storedElements env self optFlds n valuesInReportBuffer report = do {
     header \<leftarrow> reportHeader self optFlds [Some (MmsValue 0 (V_octetString 8 8 (rp_entryId report)))];
     inclusionField \<leftarrow> (if rp_flags report > 0
        then MmsValue_setAllBitStringBits (MmsValue 0 (V_bitString n (replicate (bits_to_bytes n) 0)))
        else Some (MmsValue 0 (V_bitString n (rp_inclusion report))));
     ds \<leftarrow> usedDataSet self;
     vs \<leftarrow> storedValues env self (rp_flags report) inclusionField [0..<ds_elementCount ds] (rp_values report)
        valuesInReportBuffer;
     reasonRequested \<leftarrow> MmsValue_getBitStringBit optFlds 3;
     reasons \<leftarrow> (if reasonRequested then storedReasons (rp_flags report) vs else Some []);
     Some (header, vs, reasons,
       header @ [Some inclusionField] @ map (\<lambda>x. Some (snd x)) vs @ map Some reasons)
   }"

text \<open>When the local storage is too small, the report is not sent and stays the next one.\<close>

definition sendNextReportEntry ::
  "ReportEnv \<Rightarrow> ReportControl \<Rightarrow> (ReportEvent list \<times> ReportControl) option" where
  "sendNextReportEntry env self = do {
     buffer \<leftarrow> rc_reportBuffer self;
     (nextReport, buffer') \<leftarrow> nextEntry buffer;
     (case nextReport of
        None \<Rightarrow> Some ([], self)
      | Some report \<Rightarrow> do {
          p \<leftarrow> bf_nextToTransmit buffer;
          self \<leftarrow> setEntryId self (rp_entryId report);
          optFlds \<leftarrow> ReportControl_getRCBValue self (lit ''OptFlds'');
          field \<leftarrow> rc_inclusionField self;
          n \<leftarrow> MmsValue_getBitStringSize field;
          (case allocateAll (MemoryAllocator_init 0 LOCAL_STORAGE_MEMORY_SIZE)
               ([re_sizeofListHead env, re_sizeofListNode env, re_sizeofListNode env] @
                (if rp_flags report = 0 then [] else [bits_to_bytes n])) of
             None \<Rightarrow> Some ([], self)
           | Some ma \<Rightarrow> do {
               optFlds \<leftarrow> setBits optFlds [(5, False), (9, False)];
               let self = rcb_update self (lit ''OptFlds'') optFlds;
               (header, vs, reasons, elements) \<leftarrow> storedElements env self optFlds n
                  (p + re_sizeofEntry env + (if rp_flags report = 0 then bits_to_bytes n else 0)) report;
               bufOvfl \<leftarrow> MmsValue_getBitStringBit optFlds 6;
               entryId \<leftarrow> MmsValue_getBitStringBit optFlds 7;
               (case allocateAll ma
                    (elementAllocations env bufOvfl entryId (length header + length vs - 1) (length reasons)) of
                  None \<Rightarrow> Some ([], self)
                | Some _ \<Rightarrow> do {
                    let event = E_report (rc_clientConnection self) elements;
                    self \<leftarrow> increaseSqNum self;
                    Some ([event], self\<lparr>rc_reportBuffer := Some buffer'\<rparr>)
                  })
             })
        })
   }"


section \<open>Events\<close>

text \<open>A report with or without buffer.\<close>

definition makeReport ::
  "ReportEnv \<Rightarrow> ReportControl \<Rightarrow> bool \<Rightarrow> bool \<Rightarrow> (ReportEvent list \<times> ReportControl) option" where
  "makeReport env rc isIntegrity isGI = do {
     (evs, rc) \<leftarrow> (if rc_buffered rc then map_option (\<lambda>rc. ([], rc)) (enqueueReport env rc isIntegrity isGI)
        else map_option (\<lambda>(ev, rc). ([ev], rc)) (sendReport env rc isIntegrity isGI));
     Some (evs, rc\<lparr>rc_triggered := False\<rparr>)
   }"

text \<open>The pending events, if any, go into a report of their own first.\<close>

definition makePending :: "ReportEnv \<Rightarrow> ReportControl \<Rightarrow> (ReportEvent list \<times> ReportControl) option" where
  "makePending env rc = (if rc_triggered rc then makeReport env rc False False else Some ([], rc))"

definition processGI ::
  "ReportEnv \<Rightarrow> u64 \<Rightarrow> ReportControl \<Rightarrow> (ReportEvent list \<times> ReportControl) option" where
  "processGI env currentTimeInMs rc =
     (if rc_triggerOps rc AND TRG_OPT_GI \<noteq> 0 \<and> rc_gi rc then do {
        (evs, rc) \<leftarrow> makePending env rc;
        rc \<leftarrow> updateTimeOfEntry rc currentTimeInMs;
        (evs', rc) \<leftarrow> makeReport env rc False True;
        Some (evs @ evs', rc\<lparr>rc_gi := False\<rparr>)
      }
      else Some ([], rc))"

definition processIntegrity ::
  "ReportEnv \<Rightarrow> u64 \<Rightarrow> ReportControl \<Rightarrow> (ReportEvent list \<times> ReportControl) option" where
  "processIntegrity env currentTimeInMs rc =
     (if rc_triggerOps rc AND TRG_OPT_INTEGRITY \<noteq> 0 \<and> rc_intgPd rc > 0 \<and>
         currentTimeInMs \<ge> rc_nextIntgReportTime rc then do {
        (evs, rc) \<leftarrow> makePending env rc;
        rc \<leftarrow> updateTimeOfEntry (rc\<lparr>rc_nextIntgReportTime := currentTimeInMs + ucast (rc_intgPd rc)\<rparr>)
           currentTimeInMs;
        (evs', rc) \<leftarrow> makeReport env rc True False;
        Some (evs @ evs', rc)
      }
      else Some ([], rc))"

definition processEventsForReport ::
  "ReportEnv \<Rightarrow> ReportControl \<Rightarrow> u64 \<Rightarrow> (ReportEvent list \<times> ReportControl) option" where
  "processEventsForReport env rc currentTimeInMs =
     (if rc_enabled rc \<or> rc_isBuffering rc then do {
        (evs1, rc) \<leftarrow> processGI env currentTimeInMs rc;
        (evs2, rc) \<leftarrow> processIntegrity env currentTimeInMs rc;
        (evs3, rc) \<leftarrow> (if currentTimeInMs \<ge> rc_reportTime rc then makePending env rc else Some ([], rc));
        (evs4, rc) \<leftarrow> (if rc_buffered rc \<and> rc_enabled rc then sendNextReportEntry env rc else Some ([], rc));
        Some (evs1 @ evs2 @ evs3 @ evs4, rc)
      }
      else Some ([], rc))"

primrec Reporting_processReportEvents ::
  "ReportEnv \<Rightarrow> ReportControl list \<Rightarrow> u64 \<Rightarrow> (ReportEvent list \<times> ReportControl list) option" where
  "Reporting_processReportEvents env [] currentTimeInMs = Some ([], [])"
| "Reporting_processReportEvents env (rc # rcs) currentTimeInMs = do {
     (evs, rc) \<leftarrow> processEventsForReport env rc currentTimeInMs;
     (evs', rcs) \<leftarrow> Reporting_processReportEvents env rcs currentTimeInMs;
     Some (evs @ evs', rc # rcs)
   }"

text \<open>The copy of a changed value for the next report.\<close>

definition bufferValue :: "ReportEnv \<Rightarrow> ReportControl \<Rightarrow> nat \<Rightarrow> ReportControl option" where
  "bufferValue env self dataSetEntryIndex = do {
     vs \<leftarrow> rc_bufferedDataSetValues self;
     refs \<leftarrow> rc_valueReferences self;
     if dataSetEntryIndex < length vs \<and> dataSetEntryIndex < length refs then do {
       v \<leftarrow> (case vs ! dataSetEntryIndex of
              None \<Rightarrow> MmsValue_clone (re_junk env) (re_value env (refs ! dataSetEntryIndex))
            | Some v \<Rightarrow> map_option snd (MmsValue_update v (re_value env (refs ! dataSetEntryIndex))));
       Some (self\<lparr>rc_bufferedDataSetValues := Some (vs[dataSetEntryIndex := Some v])\<rparr>)
     }
     else None
   }"

definition ReportControl_valueUpdated ::
  "ReportEnv \<Rightarrow> ReportControl \<Rightarrow> nat \<Rightarrow> ReportInclusionFlag \<Rightarrow> (ReportEvent list \<times> ReportControl) option" where
  "ReportControl_valueUpdated env self dataSetEntryIndex flag = do {
     flags \<leftarrow> rc_inclusionFlags self;
     old \<leftarrow> (if dataSetEntryIndex < length flags then Some (flags ! dataSetEntryIndex) else None);
     (evs, self) \<leftarrow> (if old \<noteq> REPORT_CONTROL_NONE
        then processEventsForReport env (self\<lparr>rc_reportTime := re_time env\<rparr>) (re_time env)
        else Some ([], self));
     flags \<leftarrow> rc_inclusionFlags self;
     self \<leftarrow> bufferValue env (self\<lparr>rc_inclusionFlags := Some (flags[dataSetEntryIndex := flag])\<rparr>)
        dataSetEntryIndex;
     self \<leftarrow> (if rc_triggered self then Some self
        else do {
          self \<leftarrow> updateTimeOfEntry self (re_time env);
          Some (self\<lparr>rc_reportTime := re_time env + ucast (rc_bufTm self)\<rparr>)
        });
     Some (evs, self\<lparr>rc_triggered := True\<rparr>)
   }"


section \<open>Data sets\<close>

text \<open>The release of the copies; it needs the size of the old data set.\<close>

definition deleteDataSetValuesShadowBuffer :: "ReportControl \<Rightarrow> unit option" where
  "deleteDataSetValuesShadowBuffer self =
     (case rc_bufferedDataSetValues self of
        None \<Rightarrow> Some ()
      | Some vs \<Rightarrow> do {
          ds \<leftarrow> usedDataSet self;
          if DataSet_getSize ds \<le> length vs then Some () else None
        })"

definition createDataSetValuesShadowBuffer :: "ReportControl \<Rightarrow> ReportControl option" where
  "createDataSetValuesShadowBuffer rc = do {
     ds \<leftarrow> usedDataSet rc;
     let dataSetSize = DataSet_getSize ds;
     if dataSetSize \<le> length (ds_fcdas ds)
     then Some (rc\<lparr>rc_bufferedDataSetValues := Some (replicate dataSetSize None),
            rc_shadowBuffer := rc_shadowBuffer rc + 1,
            rc_valueReferences := Some (take dataSetSize (ds_fcdas ds))\<rparr>)
     else None
   }"

definition updateReportDataset ::
  "ReportEnv \<Rightarrow> ReportControl \<Rightarrow> MmsValue option \<Rightarrow> (bool \<times> ReportControl) option" where
  "updateReportDataset env rc newDatSet = do {
     dataSetValue \<leftarrow> (case newDatSet of
          Some v \<Rightarrow> Some v
        | None \<Rightarrow> ReportControl_getRCBValue rc (lit ''DatSet''));
     dataSetName \<leftarrow> MmsValue_toString dataSetValue;
     rc \<leftarrow> (if rc_isDynamicDataSet rc \<and> rc_dataSet rc \<noteq> None
        then (if rc_dataSetFreed rc then None else Some (rc\<lparr>rc_dataSetFreed := True\<rparr>))
        else Some rc);
     (case (case re_lookupDataSet env dataSetName of
              Some ds \<Rightarrow> Some (ds, False)
            | None \<Rightarrow> map_option (\<lambda>ds. (ds, True)) (re_domainDataSet env dataSetName)) of
        None \<Rightarrow> Some (False, rc)
      | Some (dataSet, dynamic) \<Rightarrow> do {
          deleteDataSetValuesShadowBuffer rc;
          rc \<leftarrow> createDataSetValuesShadowBuffer
            (rc\<lparr>rc_isDynamicDataSet := dynamic, rc_dataSet := Some dataSet, rc_dataSetFreed := False\<rparr>);
          Some (True, rc\<lparr>rc_inclusionField := Some (MmsValue_newBitString (ds_elementCount dataSet)),
            rc_inclusionFlags := Some (replicate (ds_elementCount dataSet) REPORT_CONTROL_NONE)\<rparr>)
        })
   }"

definition refreshTriggerOptions :: "ReportControl \<Rightarrow> ReportControl option" where
  "refreshTriggerOptions rc = do {
     trgOps \<leftarrow> ReportControl_getRCBValue rc (lit ''TrgOps'');
     b1 \<leftarrow> MmsValue_getBitStringBit trgOps 1;
     b2 \<leftarrow> MmsValue_getBitStringBit trgOps 2;
     b3 \<leftarrow> MmsValue_getBitStringBit trgOps 3;
     b4 \<leftarrow> MmsValue_getBitStringBit trgOps 4;
     b5 \<leftarrow> MmsValue_getBitStringBit trgOps 5;
     Some (rc\<lparr>rc_triggerOps := (if b1 then TRG_OPT_DATA_CHANGED else 0) + (if b2 then TRG_OPT_QUALITY_CHANGED else 0) +
       (if b3 then TRG_OPT_DATA_UPDATE else 0) + (if b4 then TRG_OPT_INTEGRITY else 0) +
       (if b5 then TRG_OPT_GI else 0)\<rparr>)
   }"

definition refreshIntegrityPeriod :: "ReportControl \<Rightarrow> ReportControl option" where
  "refreshIntegrityPeriod rc = do {
     intgPd \<leftarrow> ReportControl_getRCBValue rc (lit ''IntgPd'');
     n \<leftarrow> MmsValue_toUint32 intgPd;
     let rc = rc\<lparr>rc_intgPd := n\<rparr>;
     Some (if rc_buffered rc then rc else rc\<lparr>rc_nextIntgReportTime := 0\<rparr>)
   }"

definition refreshBufferTime :: "ReportControl \<Rightarrow> ReportControl option" where
  "refreshBufferTime rc = do {
     bufTm \<leftarrow> ReportControl_getRCBValue rc (lit ''BufTm'');
     n \<leftarrow> MmsValue_toUint32 bufTm;
     Some (rc\<lparr>rc_bufTm := n\<rparr>)
   }"

definition rc_purge :: "ReportControl \<Rightarrow> ReportControl option" where
  "rc_purge rc = do {
     buffer \<leftarrow> rc_reportBuffer rc;
     Some (rc\<lparr>rc_reportBuffer := Some (purgeBuf buffer)\<rparr>)
   }"


section \<open>Write access\<close>

text \<open>The octets of an IPv4 address: \<open>separator\<close> stays at the first dot.\<close>

fun ipV4_loop :: "nat \<Rightarrow> string \<Rightarrow> byte list option" where
  "ipV4_loop 0 separator = Some []"
| "ipV4_loop (Suc n) separator = do {
     intVal \<leftarrow> atoi separator;
     (case strchr separator (CHR ''.'') of
        None \<Rightarrow> Some [word_of_int intVal]
      | Some separator \<Rightarrow> do {
          rest \<leftarrow> ipV4_loop n separator;
          Some (word_of_int intVal # rest)
        })
   }"

definition updateOwner :: "ReportEnv \<Rightarrow> ReportControl \<Rightarrow> MmsServerConnection option \<Rightarrow> ReportControl option" where
  "updateOwner env rc connection = do {
     let rc = rc\<lparr>rc_clientConnection := connection\<rparr>;
     (case ReportControl_getRCBValue rc (lit ''Owner'') of
        None \<Rightarrow> Some rc
      | Some owner \<Rightarrow> do {
          octets \<leftarrow> (case connection of
               None \<Rightarrow> Some []
             | Some c \<Rightarrow>
                 if strchr (re_clientAddress env c) (CHR ''.'') \<noteq> None then do {
                   ipV4Addr \<leftarrow> ipV4_loop 4 (re_clientAddress env c);
                   Some (if length ipV4Addr = 4 then ipV4Addr else [])
                 }
                 else Some []);
          owner \<leftarrow> MmsValue_setOctetString owner octets (int (length octets));
          Some (rcb_update rc (lit ''Owner'') owner)
        })
   }"

text \<open>The search for an entry id: the loop does not go on to the next entry. The result says whether the
  id was found.\<close>

partial_function (option) entryId_loop ::
  "Report ReportBuffer \<Rightarrow> byte list \<Rightarrow> nat option \<Rightarrow> nat option option" where
  "entryId_loop buffer octets entry =
     (case entry of
        None \<Rightarrow> Some None
      | Some p \<Rightarrow> do {
          e \<leftarrow> bf_memoryBlock buffer p;
          if rp_entryId (en_data e) = octets then Some (Some p)
          else entryId_loop buffer octets entry
        })"

definition checkReportBufferForEntryID :: "ReportControl \<Rightarrow> MmsValue \<Rightarrow> (bool \<times> ReportControl) option" where
  "checkReportBufferForEntryID rc v = do {
     buffer \<leftarrow> rc_reportBuffer rc;
     (_, _, octets) \<leftarrow> octet_string v;
     octets \<leftarrow> (if 8 \<le> length octets then Some (take 8 octets) else None);
     entry \<leftarrow> entryId_loop buffer octets (bf_oldestReport buffer);
     (case entry of
        None \<Rightarrow> Some (False, rc)
      | Some p \<Rightarrow> do {
          e \<leftarrow> bf_memoryBlock buffer p;
          Some (True, rc\<lparr>rc_isResync := en_next e \<noteq> None,
            rc_reportBuffer := Some (buffer\<lparr>bf_nextToTransmit := en_next e\<rparr>)\<rparr>)
        })
   }"

definition increaseConfRev :: "ReportControl \<Rightarrow> ReportControl option" where
  "increaseConfRev self = do {
     v \<leftarrow> ReportControl_getRCBValue self (lit ''ConfRev'');
     confRev \<leftarrow> MmsValue_toUint32 v;
     let confRev = confRev + 1;
     v \<leftarrow> MmsValue_setUint32 v (if confRev = 0 then 1 else confRev);
     Some (rcb_update self (lit ''ConfRev'') v)
   }"

text \<open>\<open>MmsValue_update\<close> of an element of the control block.\<close>

definition updateElement :: "ReportControl \<Rightarrow> cstring \<Rightarrow> MmsValue \<Rightarrow> ReportControl option" where
  "updateElement rc elementName v = do {
     old \<leftarrow> ReportControl_getRCBValue rc elementName;
     (_, new) \<leftarrow> MmsValue_update old v;
     Some (rcb_update rc elementName new)
   }"

definition enableReport ::
  "ReportEnv \<Rightarrow> ReportControl \<Rightarrow> MmsValue \<Rightarrow> MmsServerConnection \<Rightarrow> (MmsDataAccessError \<times> ReportControl) option" where
  "enableReport env rc v connection =
     (if rc_enabled rc then Some (DATA_ACCESS_ERROR_TEMPORARILY_UNAVAILABLE, rc)
      else do {
        (ok, rc) \<leftarrow> updateReportDataset env rc None;
        if ok then do {
          rc \<leftarrow> updateOwner env rc (Some connection);
          rc \<leftarrow> updateElement rc (lit ''RptEna'') v;
          let rc = rc\<lparr>rc_enabled := True, rc_isResync := False, rc_gi := False\<rparr>;
          rc \<leftarrow> refreshBufferTime rc;
          rc \<leftarrow> refreshTriggerOptions rc;
          rc \<leftarrow> refreshIntegrityPeriod rc;
          Some (DATA_ACCESS_ERROR_SUCCESS, rc\<lparr>rc_sqNum := 0\<rparr>)
        }
        else Some (DATA_ACCESS_ERROR_OBJECT_ATTRIBUTE_INCONSISTENT, rc)
      })"

definition disableReport :: "ReportEnv \<Rightarrow> ReportControl \<Rightarrow> ReportControl option" where
  "disableReport env rc = do {
     rc \<leftarrow> (if rc_buffered rc then Some rc
        else do {
          resv \<leftarrow> ReportControl_getRCBValue rc (lit ''Resv'');
          resv \<leftarrow> MmsValue_setBoolean resv False;
          Some (rcb_update (rc\<lparr>rc_inclusionFlags := None, rc_reserved := False\<rparr>) (lit ''Resv'') resv)
        });
     rc \<leftarrow> updateOwner env rc None;
     Some (rc\<lparr>rc_enabled := False\<rparr>)
   }"

text \<open>The elements that are handled as a whole in a control block that is not enabled, with the indication;
  \<open>None\<close> for the others, whose value is just stored.\<close>

definition writeChanged ::
  "ReportControl \<Rightarrow> cstring \<Rightarrow> MmsValue \<Rightarrow> (ReportControl \<Rightarrow> ReportControl option) \<Rightarrow>
   (MmsDataAccessError \<times> ReportControl) option" where
  "writeChanged rc elementName v refresh = do {
     old \<leftarrow> ReportControl_getRCBValue rc elementName;
     same \<leftarrow> MmsValue_equals old v;
     if same then Some (DATA_ACCESS_ERROR_SUCCESS, rc)
     else do {
       rc \<leftarrow> updateElement rc elementName v;
       rc \<leftarrow> refresh rc;
       Some (DATA_ACCESS_ERROR_SUCCESS, rc)
     }
   }"

definition writeDatSet ::
  "ReportEnv \<Rightarrow> ReportControl \<Rightarrow> MmsValue \<Rightarrow> (MmsDataAccessError \<times> ReportControl) option" where
  "writeDatSet env rc v = do {
     datSet \<leftarrow> ReportControl_getRCBValue rc (lit ''DatSet'');
     same \<leftarrow> MmsValue_equals datSet v;
     if same then Some (DATA_ACCESS_ERROR_SUCCESS, rc)
     else do {
       (ok, rc) \<leftarrow> updateReportDataset env rc (Some v);
       if ok then do {
         rc \<leftarrow> (if rc_buffered rc then rc_purge rc else Some rc);
         rc \<leftarrow> updateElement rc (lit ''DatSet'') v;
         rc \<leftarrow> increaseConfRev rc;
         Some (DATA_ACCESS_ERROR_SUCCESS, rc)
       }
       else Some (DATA_ACCESS_ERROR_OBJECT_VALUE_INVALID, rc)
     }
   }"

definition purgeIfBuffered :: "ReportControl \<Rightarrow> ReportControl option" where
  "purgeIfBuffered rc = (if rc_buffered rc then rc_purge rc else Some rc)"

definition storeElement ::
  "ReportControl \<Rightarrow> cstring \<Rightarrow> MmsValue \<Rightarrow> (MmsDataAccessError \<times> ReportControl) option" where
  "storeElement rc elementName v =
     (if ReportControl_getRCBValue rc elementName \<noteq> None
      then map_option (\<lambda>rc. (DATA_ACCESS_ERROR_SUCCESS, rc)) (updateElement rc elementName v)
      else Some (DATA_ACCESS_ERROR_OBJECT_VALUE_INVALID, rc))"

definition writeElement ::
  "ReportEnv \<Rightarrow> ReportControl \<Rightarrow> cstring \<Rightarrow> MmsValue \<Rightarrow> MmsServerConnection \<Rightarrow>
   (MmsDataAccessError \<times> ReportControl) option" where
  "writeElement env rc elementName v connection =
     (if elementName = lit ''Resv'' then do {
        b \<leftarrow> MmsValue_getBoolean v;
        let rc = rc\<lparr>rc_reserved := b\<rparr>;
        storeElement (if b then rc\<lparr>rc_clientConnection := Some connection\<rparr> else rc) elementName v
      }
      else if elementName = lit ''PurgeBuf'' then
        (if MmsValue_getType v = MMS_BOOLEAN \<and> MmsValue_getBoolean v = Some True
         then map_option (\<lambda>rc. (DATA_ACCESS_ERROR_SUCCESS, rc)) (rc_purge rc)
         else storeElement rc elementName v)
      else if elementName = lit ''DatSet'' then writeDatSet env rc v
      else if elementName = lit ''IntgPd'' then
        writeChanged rc elementName v (\<lambda>rc. do {
          rc \<leftarrow> refreshIntegrityPeriod rc;
          if rc_buffered rc then rc_purge (rc\<lparr>rc_nextIntgReportTime := 0\<rparr>) else Some rc
        })
      else if elementName = lit ''TrgOps'' then
        writeChanged rc elementName v (\<lambda>rc. do { rc \<leftarrow> purgeIfBuffered rc; refreshTriggerOptions rc })
      else if elementName = lit ''EntryId'' then do {
        n \<leftarrow> MmsValue_getOctetStringSize v;
        if n \<noteq> 8 then Some (DATA_ACCESS_ERROR_OBJECT_VALUE_INVALID, rc)
        else do {
          (found, rc) \<leftarrow> checkReportBufferForEntryID rc v;
          if found then map_option (\<lambda>rc. (DATA_ACCESS_ERROR_SUCCESS, rc)) (updateElement rc elementName v)
          else Some (DATA_ACCESS_ERROR_OBJECT_VALUE_INVALID, rc)
        }
      }
      else if elementName = lit ''BufTm'' then
        writeChanged rc elementName v (\<lambda>rc. do { rc \<leftarrow> purgeIfBuffered rc; refreshBufferTime rc })
      else if elementName = lit ''ConfRev'' then Some (DATA_ACCESS_ERROR_OBJECT_ACCESS_DENIED, rc)
      else storeElement rc elementName v)"

text \<open>The part of the handler behind \<open>RptEna\<close> and \<open>GI\<close>.\<close>

definition writeDisabled ::
  "ReportEnv \<Rightarrow> ReportControl \<Rightarrow> cstring \<Rightarrow> MmsValue \<Rightarrow> MmsServerConnection \<Rightarrow>
   (MmsDataAccessError \<times> ReportControl) option" where
  "writeDisabled env rc elementName v connection =
     (if rc_enabled rc then Some (DATA_ACCESS_ERROR_TEMPORARILY_UNAVAILABLE, rc)
      else if rc_reserved rc \<and> rc_clientConnection rc \<noteq> Some connection
      then Some (DATA_ACCESS_ERROR_TEMPORARILY_UNAVAILABLE, rc)
      else writeElement env rc elementName v connection)"

definition Reporting_RCBWriteAccessHandler ::
  "ReportEnv \<Rightarrow> ReportControl \<Rightarrow> cstring \<Rightarrow> MmsValue \<Rightarrow> MmsServerConnection \<Rightarrow>
   (MmsDataAccessError \<times> ReportControl) option" where
  "Reporting_RCBWriteAccessHandler env rc elementName v connection =
     (if elementName = lit ''RptEna'' then do {
        b \<leftarrow> MmsValue_getBoolean v;
        if b then enableReport env rc v connection
        else if (rc_enabled rc \<or> rc_reserved rc) \<and> rc_clientConnection rc \<noteq> Some connection
        then Some (DATA_ACCESS_ERROR_TEMPORARILY_UNAVAILABLE, rc)
        else do {
          rc \<leftarrow> disableReport env rc;
          writeDisabled env rc elementName v connection
        }
      }
      else if elementName = lit ''GI'' then
        (if rc_enabled rc \<and> rc_clientConnection rc = Some connection
         then Some (DATA_ACCESS_ERROR_SUCCESS, rc\<lparr>rc_gi := True\<rparr>)
         else Some (DATA_ACCESS_ERROR_TEMPORARILY_UNAVAILABLE, rc))
      else writeDisabled env rc elementName v connection)"

text \<open>The control block of a connection that has been closed.\<close>

definition deactivateReport ::
  "ReportEnv \<Rightarrow> ReportControl \<Rightarrow> MmsServerConnection \<Rightarrow> ReportControl option" where
  "deactivateReport env rc connection =
     (if rc_clientConnection rc = Some connection then do {
        let rc = rc\<lparr>rc_enabled := False, rc_clientConnection := None\<rparr>;
        rptEna \<leftarrow> ReportControl_getRCBValue rc (lit ''RptEna'');
        rptEna \<leftarrow> MmsValue_setBoolean rptEna False;
        let rc = rcb_update rc (lit ''RptEna'') rptEna;
        rc \<leftarrow> (if rc_buffered rc then Some rc
           else do {
             resv \<leftarrow> ReportControl_getRCBValue rc (lit ''Resv'');
             resv \<leftarrow> MmsValue_setBoolean resv False;
             Some (rcb_update (rc\<lparr>rc_inclusionField := None, rc_reserved := False\<rparr>) (lit ''Resv'') resv)
           });
        updateOwner env rc None
      }
      else Some rc)"

primrec Reporting_deactivateReportsForConnection ::
  "ReportEnv \<Rightarrow> ReportControl list \<Rightarrow> MmsServerConnection \<Rightarrow> ReportControl list option" where
  "Reporting_deactivateReportsForConnection env [] connection = Some []"
| "Reporting_deactivateReportsForConnection env (rc # rcs) connection = do {
     rc \<leftarrow> deactivateReport env rc connection;
     rcs \<leftarrow> Reporting_deactivateReportsForConnection env rcs connection;
     Some (rc # rcs)
   }"

primrec Reporting_activateBufferedReports :: "ReportEnv \<Rightarrow> ReportControl list \<Rightarrow> ReportControl list option" where
  "Reporting_activateBufferedReports env [] = Some []"
| "Reporting_activateBufferedReports env (rc # rcs) = do {
     rc \<leftarrow> (if rc_buffered rc then do {
          (ok, rc) \<leftarrow> updateReportDataset env rc None;
          Some (rc\<lparr>rc_isBuffering := ok\<rparr>)
        }
        else Some rc);
     rcs \<leftarrow> Reporting_activateBufferedReports env rcs;
     Some (rc # rcs)
   }"


section \<open>Creation of control blocks\<close>

definition createDataSetReferenceForDefaultDataSet :: "cstring \<Rightarrow> ReportControlBlock \<Rightarrow> cstring \<Rightarrow> cstring" where
  "createDataSetReferenceForDefaultDataSet domainName rcb dataSetName =
     createString [domainName, lit ''/'', cb_parent rcb, lit ''$'', dataSetName]"

text \<open>The bits of a bit string from the bits of a mask.\<close>

definition maskBits :: "byte \<Rightarrow> (byte \<times> int) list \<Rightarrow> (int \<times> bool) list" where
  "maskBits options masks = map (\<lambda>m. (snd m, True)) (filter (\<lambda>m. options AND fst m \<noteq> 0) masks)"

definition createOptFlds :: "ReportControlBlock \<Rightarrow> MmsValue option" where
  "createOptFlds reportControlBlock =
     setBits (MmsValue_newBitString 10) (maskBits (cb_options reportControlBlock)
       [(1, 1), (2, 2), (4, 3), (8, 4), (16, 5), (32, 6), (64, 7), (128, 8)])"

definition createTrgOps :: "ReportControlBlock \<Rightarrow> MmsValue option" where
  "createTrgOps reportControlBlock =
     setBits (MmsValue_newBitString 6) (maskBits (cb_trgOps reportControlBlock)
       [(1, 1), (2, 2), (4, 3), (8, 4), (16, 5)])"

definition namedVariable :: "string \<Rightarrow> MmsTypeSpecification \<Rightarrow> MmsVariableSpecification" where
  "namedVariable name t = MmsVariableSpecification (Some (lit name)) t"

text \<open>The default value of \<open>DatSet\<close>.\<close>

definition defaultDatSet :: "cstring \<Rightarrow> ReportControlBlock \<Rightarrow> MmsValue" where
  "defaultDatSet domainName reportControlBlock =
     MmsValue_newVisibleString (Some (case cb_dataSetName reportControlBlock of
        Some name \<Rightarrow> createDataSetReferenceForDefaultDataSet domainName reportControlBlock name
      | None \<Rightarrow> lit ''''))"

definition refreshAll :: "ReportControl \<Rightarrow> ReportControl option" where
  "refreshAll rc = do {
     rc \<leftarrow> refreshBufferTime rc;
     rc \<leftarrow> refreshIntegrityPeriod rc;
     refreshTriggerOptions rc
   }"

definition createUnbufferedReportControlBlock ::
  "cstring \<Rightarrow> ReportControlBlock \<Rightarrow> ReportControl \<Rightarrow> (MmsVariableSpecification \<times> ReportControl) option" where
  "createUnbufferedReportControlBlock domainName reportControlBlock reportControl = do {
     confRev \<leftarrow> MmsValue_newUnsignedFromUint32 (cb_confRef reportControlBlock);
     optFlds \<leftarrow> createOptFlds reportControlBlock;
     bufTm \<leftarrow> MmsValue_newUnsignedFromUint32 (cb_bufferTime reportControlBlock);
     trgOps \<leftarrow> createTrgOps reportControlBlock;
     intgPd \<leftarrow> MmsValue_newUnsignedFromUint32 (cb_intPeriod reportControlBlock);
     let mmsValue = MmsValue 0 (V_structure (map Some
           [MmsValue_newVisibleString (cb_rptId reportControlBlock), MmsValue_newBoolean False,
            MmsValue_newBoolean False, defaultDatSet domainName reportControlBlock, confRev, optFlds,
            bufTm, MmsValue_newUnsigned 16, trgOps, intgPd, MmsValue_newBoolean False,
            MmsValue_newOctetString 0 128]));
     let spec = MmsVariableSpecification (Some (copyString (cb_name reportControlBlock))) (T_structure
           [namedVariable ''RptID'' (T_visibleString (- 129)), namedVariable ''RptEna'' T_boolean,
            namedVariable ''Resv'' T_boolean, namedVariable ''DatSet'' (T_visibleString (- 129)),
            namedVariable ''ConfRev'' (T_unsigned 32), namedVariable ''OptFlds'' (T_bitString 10),
            namedVariable ''BufTm'' (T_unsigned 32), namedVariable ''SqNum'' (T_unsigned 16),
            namedVariable ''TrgOps'' (T_bitString 6), namedVariable ''IntgPd'' (T_unsigned 32),
            namedVariable ''GI'' T_boolean, namedVariable ''Owner'' (T_octetString (- 128))]);
     rc \<leftarrow> refreshAll (reportControl\<lparr>rc_rcbValues := Some mmsValue,
        rc_timeOfEntry := Some (MmsValue_newBinaryTime False)\<rparr>);
     Some (spec, rc)
   }"

definition createBufferedReportControlBlock ::
  "cstring \<Rightarrow> ReportControlBlock \<Rightarrow> ReportControl \<Rightarrow> (MmsVariableSpecification \<times> ReportControl) option" where
  "createBufferedReportControlBlock domainName reportControlBlock reportControl = do {
     confRev \<leftarrow> MmsValue_newUnsignedFromUint32 (cb_confRef reportControlBlock);
     optFlds \<leftarrow> createOptFlds reportControlBlock;
     bufTm \<leftarrow> MmsValue_newUnsignedFromUint32 (cb_bufferTime reportControlBlock);
     trgOps \<leftarrow> createTrgOps reportControlBlock;
     intgPd \<leftarrow> MmsValue_newUnsignedFromUint32 (cb_intPeriod reportControlBlock);
     let mmsValue = MmsValue 0 (V_structure (map Some
           [MmsValue_newVisibleString (cb_rptId reportControlBlock), MmsValue_newBoolean False,
            defaultDatSet domainName reportControlBlock, confRev, optFlds, bufTm, MmsValue_newUnsigned 16,
            trgOps, intgPd, MmsValue_newBoolean False, MmsValue_newBoolean False,
            MmsValue_newOctetString 8 8, MmsValue_newBinaryTime False, MmsValue_newUnsigned 32,
            MmsValue_newOctetString 0 4]));
     let spec = MmsVariableSpecification (Some (copyString (cb_name reportControlBlock))) (T_structure
           [namedVariable ''RptID'' (T_visibleString (- 129)), namedVariable ''RptEna'' T_boolean,
            namedVariable ''DatSet'' (T_visibleString (- 129)), namedVariable ''ConfRev'' (T_unsigned 32),
            namedVariable ''OptFlds'' (T_bitString 10), namedVariable ''BufTm'' (T_unsigned 32),
            namedVariable ''SqNum'' (T_unsigned 16), namedVariable ''TrgOps'' (T_bitString 6),
            namedVariable ''IntgPd'' (T_unsigned 32), namedVariable ''GI'' T_boolean,
            namedVariable ''PurgeBuf'' T_boolean, namedVariable ''EntryID'' (T_octetString 8),
            namedVariable ''TimeOfEntry'' (T_binaryTime 0), namedVariable ''ResvTms'' (T_unsigned 32),
            namedVariable ''Owner'' (T_octetString (- 128))]);
     rc \<leftarrow> refreshAll (reportControl\<lparr>rc_rcbValues := Some mmsValue\<rparr>);
     Some (spec, rc)
   }"

text \<open>The \<open>index\<close>-th configured block of a logical node; nodes are known by their names here.\<close>

fun getRCBForLogicalNodeWithIndex ::
  "ReportControlBlock list \<Rightarrow> cstring \<Rightarrow> nat \<Rightarrow> bool \<Rightarrow> ReportControlBlock option" where
  "getRCBForLogicalNodeWithIndex [] logicalNode index buffered = None"
| "getRCBForLogicalNodeWithIndex (rcb # rcbs) logicalNode index buffered =
     (if cb_parent rcb = logicalNode \<and> cb_buffered rcb = buffered
      then (case index of 0 \<Rightarrow> Some rcb | Suc index \<Rightarrow> getRCBForLogicalNodeWithIndex rcbs logicalNode index buffered)
      else getRCBForLogicalNodeWithIndex rcbs logicalNode index buffered)"

text \<open>The loops of both functions that create the control blocks of a logical node.\<close>

primrec createRCBs ::
  "(ReportControlBlock \<Rightarrow> ReportControl \<Rightarrow> (MmsVariableSpecification \<times> ReportControl) option) \<Rightarrow>
   (nat \<Rightarrow> ReportControl) \<Rightarrow> (nat \<Rightarrow> ReportControlBlock option) \<Rightarrow> string \<Rightarrow> nat list \<Rightarrow>
   (MmsVariableSpecification \<times> ReportControl) list option" where
  "createRCBs create new lookup middle [] = Some []"
| "createRCBs create new lookup middle (i # is) = do {
     rcb \<leftarrow> lookup i;
     x \<leftarrow> create rcb ((new i)\<lparr>rc_name := Some (createString [rc_parentLN (new i), lit middle, cb_name rcb])\<rparr>);
     xs \<leftarrow> createRCBs create new lookup middle is;
     Some (x # xs)
   }"

definition Reporting_createMmsBufferedRCBs ::
  "(nat \<Rightarrow> u64 \<times> u32) \<Rightarrow> ReportControlBlock list \<Rightarrow> MmsDomain \<Rightarrow> cstring \<Rightarrow> cstring \<Rightarrow> nat \<Rightarrow>
   (MmsVariableSpecification \<times> ReportControl list) option" where
  "Reporting_createMmsBufferedRCBs junk rcbs domain domainName logicalNode reportsCount = do {
     xs \<leftarrow> createRCBs (createBufferedReportControlBlock domainName)
        (\<lambda>i. (ReportControl_create (fst (junk i)) (snd (junk i)) True logicalNode)\<lparr>rc_domain := Some domain\<rparr>)
        (\<lambda>i. getRCBForLogicalNodeWithIndex rcbs logicalNode i True) ''$BR$'' [0..<reportsCount];
     Some (namedVariable ''BR'' (T_structure (map fst xs)), map snd xs)
   }"

definition Reporting_createMmsUnbufferedRCBs ::
  "(nat \<Rightarrow> u64 \<times> u32) \<Rightarrow> ReportControlBlock list \<Rightarrow> MmsDomain \<Rightarrow> cstring \<Rightarrow> cstring \<Rightarrow> nat \<Rightarrow>
   (MmsVariableSpecification \<times> ReportControl list) option" where
  "Reporting_createMmsUnbufferedRCBs junk rcbs domain domainName logicalNode reportsCount = do {
     xs \<leftarrow> createRCBs (createUnbufferedReportControlBlock domainName)
        (\<lambda>i. (ReportControl_create (fst (junk i)) (snd (junk i)) False logicalNode)\<lparr>rc_domain := Some domain\<rparr>)
        (\<lambda>i. getRCBForLogicalNodeWithIndex rcbs logicalNode i False) ''$RP$'' [0..<reportsCount];
     Some (namedVariable ''RP'' (T_structure (map fst xs)), map snd xs)
   }"

end
