(* ===== verification/Reporting.thy ===== *)
theory Reporting
  imports Report_Control
begin

text \<open>
  What the report service (\<open>src/src/iedserver/mms_mapping/reporting.c\<close>) guarantees: who may write a report
  control block, what a buffered report carries to the client, and where reservations, owners, reasons,
  resynchronisation and dynamic data sets go wrong.
\<close>

section \<open>An example\<close>

text \<open>An environment, and a control block without buffer that client 1 has enabled.\<close>

definition demo_environment :: ReportEnv where
  "demo_environment = \<lparr>re_time = 1000, re_value = (\<lambda>i. MmsValue 0 (V_boolean (even i))),
     re_lookupDataSet = (\<lambda>_. Some \<lparr>ds_elementCount = 3, ds_fcdas = [5, 6, 7]\<rparr>), re_domainDataSet = (\<lambda>_. None),
     re_clientAddress = (\<lambda>_. ''10.0.0.7:102''), re_junk = (\<lambda>_. 0),
     re_sizeof = \<lparr>sz_MmsValue = 24, sz_pointer = 8, sz_Asn1PrimitiveValue = 16\<rparr>, re_sizeofEntry = 32,
     re_sizeofListHead = 16, re_sizeofListNode = 16\<rparr>"

definition demo_unbuffered :: ReportControl where
  "demo_unbuffered = (ReportControl_create 0 0 False (lit ''LLN0''))\<lparr>
     rc_rcbValues := Some (MmsValue 0 (V_structure (map Some
        [MmsValue_newVisibleString (Some (lit ''r1'')), MmsValue_newBoolean True, MmsValue_newBoolean True,
         MmsValue_newVisibleString (Some (lit ''d/LLN0$s'')), MmsValue_newUnsigned 32, MmsValue_newBitString 10,
         MmsValue_newUnsigned 32, MmsValue_newUnsigned 16, MmsValue_newBitString 6, MmsValue_newUnsigned 32,
         MmsValue_newBoolean False, MmsValue_newOctetString 0 128]))),
     rc_timeOfEntry := Some (MmsValue_newBinaryTime False), rc_enabled := True, rc_reserved := True,
     rc_clientConnection := Some 1\<rparr>"


section \<open>Who may write\<close>

lemma lit_eq_iff [simp]: "lit s = lit t \<longleftrightarrow> s = t"
proof -
  have "unat (of_char c :: byte) = of_char c" for c :: char
  proof -
    have "(of_char c :: byte) = of_nat (of_char c)" by (simp add: of_nat_of_char)
    then show ?thesis by (simp add: unat_of_nat)
  qed
  then have "inj (of_char :: char \<Rightarrow> byte)"
    by (intro injI) (metis of_char_eqI)
  then show ?thesis by (simp add: lit_def inj_map_eq_map)
qed

text \<open>C21: An enabled report control block is protected from other clients: every write of a client that does not
  own it is refused as temporarily unavailable and changes nothing (only a value of another type
  than boolean for \<open>RptEna\<close> is read wrongly).\<close>

theorem report_enabled_protected:
  assumes "rc_enabled rc" and "rc_clientConnection rc \<noteq> Some d"
    and "elementName = lit ''RptEna'' \<Longrightarrow> MmsValue_getType v = MMS_BOOLEAN"
  shows "Reporting_RCBWriteAccessHandler env rc elementName v d =
    Some (DATA_ACCESS_ERROR_TEMPORARILY_UNAVAILABLE, rc)"
proof (cases "elementName = lit ''RptEna''")
  case True
  then obtain b where "MmsValue_getBoolean v = Some b"
    using assms(3) by (cases "mv_value v") (auto simp: MmsValue_getType_def MmsValue_getBoolean_def)
  with True assms(1,2) show ?thesis
    by (simp add: Reporting_RCBWriteAccessHandler_def enableReport_def)
next
  case False
  with assms(1,2) show ?thesis
    by (simp add: Reporting_RCBWriteAccessHandler_def writeDisabled_def)
qed

theorem report_enabled_protected_witness:
  "Reporting_RCBWriteAccessHandler demo_environment demo_unbuffered (lit ''RptEna'') (MmsValue_newBoolean False) 2 =
     Some (DATA_ACCESS_ERROR_TEMPORARILY_UNAVAILABLE, demo_unbuffered)"
  by (rule report_enabled_protected)
    (simp_all add: demo_unbuffered_def MmsValue_newBoolean_def MmsValue_getType_def)

lemma getRCBValue_cong:
  "rc_buffered rc' = rc_buffered rc \<Longrightarrow> rc_rcbValues rc' = rc_rcbValues rc \<Longrightarrow>
   ReportControl_getRCBValue rc' n = ReportControl_getRCBValue rc n"
  by (simp add: ReportControl_getRCBValue_def split: option.split)

text \<open>The steps of enabling do not touch who owns the block.\<close>

lemma updateReportDataset_frame:
  "updateReportDataset env rc v = Some (ok, rc') \<Longrightarrow>
   rc_enabled rc' = rc_enabled rc \<and> rc_reserved rc' = rc_reserved rc \<and>
   rc_clientConnection rc' = rc_clientConnection rc"
  by (auto simp: updateReportDataset_def createDataSetValuesShadowBuffer_def Let_def bind_eq_Some_conv
      split: option.splits if_splits)

lemma rcb_update_frame [simp]:
  "rc_enabled (rcb_update rc n v) = rc_enabled rc" "rc_reserved (rcb_update rc n v) = rc_reserved rc"
  "rc_clientConnection (rcb_update rc n v) = rc_clientConnection rc"
  "rc_buffered (rcb_update rc n v) = rc_buffered rc" "rc_reportBuffer (rcb_update rc n v) = rc_reportBuffer rc"
  "rc_dataSet (rcb_update rc n v) = rc_dataSet rc" "rc_dataSetFreed (rcb_update rc n v) = rc_dataSetFreed rc"
  "rc_inclusionField (rcb_update rc n v) = rc_inclusionField rc"
  "rc_inclusionFlags (rcb_update rc n v) = rc_inclusionFlags rc"
  by (simp_all add: rcb_update_def split: option.split)

lemma updateOwner_frame:
  "updateOwner env rc c = Some rc' \<Longrightarrow>
   rc_clientConnection rc' = c \<and> rc_enabled rc' = rc_enabled rc \<and> rc_reserved rc' = rc_reserved rc"
  by (auto simp: updateOwner_def Let_def bind_eq_Some_conv split: option.splits if_splits)

lemma updateElement_frame:
  "updateElement rc n v = Some rc' \<Longrightarrow>
   rc_clientConnection rc' = rc_clientConnection rc \<and> rc_enabled rc' = rc_enabled rc \<and>
   rc_reserved rc' = rc_reserved rc"
  by (auto simp: updateElement_def bind_eq_Some_conv)

lemma refresh_frame:
  "refreshBufferTime rc = Some rc' \<Longrightarrow> rc_clientConnection rc' = rc_clientConnection rc \<and> rc_enabled rc' = rc_enabled rc"
  "refreshTriggerOptions rc = Some rc' \<Longrightarrow>
     rc_clientConnection rc' = rc_clientConnection rc \<and> rc_enabled rc' = rc_enabled rc"
  "refreshIntegrityPeriod rc = Some rc' \<Longrightarrow>
     rc_clientConnection rc' = rc_clientConnection rc \<and> rc_enabled rc' = rc_enabled rc"
  by (auto simp: refreshBufferTime_def refreshTriggerOptions_def bind_eq_Some_conv)
    (cases "rc_buffered rc"; auto simp: refreshIntegrityPeriod_def Let_def bind_eq_Some_conv)+

lemmas demo_access = demo_unbuffered_def demo_environment_def ReportControl_create_def ReportControl_getRCBValue_def
  rcb_elements_def MmsValue_getElement_def components_def MmsValue_newBoolean_def MmsValue_newVisibleString_def
  setVisibleStringValue_def set_union_def MmsValue_newOctetString_def

lemmas demo_eval = Reporting_RCBWriteAccessHandler_def MmsValue_getBoolean_def enableReport_def updateReportDataset_def
  MmsValue_toString_def deleteDataSetValuesShadowBuffer_def createDataSetValuesShadowBuffer_def usedDataSet_def
  DataSet_getSize_def updateOwner_def strchr_def atoi_def rcb_update_def MmsValue_setOctetString_def octet_string_def
  memcpy_def rd_n_def MmsValue_setElement_def updateElement_def refreshBufferTime_def refreshTriggerOptions_def
  refreshIntegrityPeriod_def

lemma demo_facts:
  "ipV4_loop 4 ''10.0.0.7:102'' = Some [10, 0, 0, 0]"
  "MmsValue_toUint32 (MmsValue_newUnsigned 32) = Some 0"
  "MmsValue_getBitStringBit (MmsValue_newBitString 6) 1 = Some False"
  "MmsValue_getBitStringBit (MmsValue_newBitString 6) 2 = Some False"
  "MmsValue_getBitStringBit (MmsValue_newBitString 6) 3 = Some False"
  "MmsValue_getBitStringBit (MmsValue_newBitString 6) 4 = Some False"
  "MmsValue_getBitStringBit (MmsValue_newBitString 6) 5 = Some False"
  "dec 10 = ''10''"
  by code_simp+

text \<open>C22: A reservation does not protect against being enabled: a client that enables a report control block
  reserved by another client is not refused as temporarily unavailable, and when the data set is found it
  gets the block.\<close>

theorem report_reservation_bypassed:
  assumes "rc_reserved rc" and "rc_clientConnection rc = Some c" and "c \<noteq> d" and "\<not> rc_enabled rc"
    and "MmsValue_getBoolean v = Some True"
    and "Reporting_RCBWriteAccessHandler env rc (lit ''RptEna'') v d = Some (r, rc')"
  shows "r = DATA_ACCESS_ERROR_SUCCESS \<and> rc_enabled rc' \<and> rc_clientConnection rc' = Some d \<or>
    r = DATA_ACCESS_ERROR_OBJECT_ATTRIBUTE_INCONSISTENT \<and> \<not> rc_enabled rc' \<and> rc_clientConnection rc' = Some c"
  using assms
  by (auto simp: Reporting_RCBWriteAccessHandler_def enableReport_def Let_def bind_eq_Some_conv
      split: if_splits
      dest!: updateReportDataset_frame updateOwner_frame updateElement_frame refresh_frame)

theorem report_reservation_bypassed_witness:
  "\<exists>rc'. Reporting_RCBWriteAccessHandler demo_environment (demo_unbuffered\<lparr>rc_enabled := False\<rparr>) (lit ''RptEna'')
       (MmsValue_newBoolean True) 2 = Some (DATA_ACCESS_ERROR_SUCCESS, rc') \<and>
     rc_enabled rc' \<and> rc_clientConnection rc' = Some 2"
proof -
  define rc where "rc = demo_unbuffered\<lparr>rc_enabled := False\<rparr>"
  have "map_option fst (Reporting_RCBWriteAccessHandler demo_environment (demo_unbuffered\<lparr>rc_enabled := False\<rparr>)
      (lit ''RptEna'') (MmsValue_newBoolean True) 2) = Some DATA_ACCESS_ERROR_SUCCESS"
    by (simp add: demo_access demo_eval demo_facts)
  then obtain rc' where r: "Reporting_RCBWriteAccessHandler demo_environment rc
      (lit ''RptEna'') (MmsValue_newBoolean True) 2 = Some (DATA_ACCESS_ERROR_SUCCESS, rc')"
    unfolding rc_def by auto
  have "rc_reserved rc" "rc_clientConnection rc = Some 1" "1 \<noteq> (2 :: MmsServerConnection)" "\<not> rc_enabled rc"
      "MmsValue_getBoolean (MmsValue_newBoolean True) = Some True"
    by (simp_all add: rc_def demo_unbuffered_def MmsValue_getBoolean_def MmsValue_newBoolean_def)
  from report_reservation_bypassed [OF this r] r show ?thesis unfolding rc_def by auto
qed


section \<open>Owners, resynchronisation and dynamic data sets\<close>

lemma atoi_dot: "atoi (CHR ''.'' # rest) = Some 0"
  by (simp add: atoi_def isspace_c_def isdigit_c_def digits_value_def chk_int_def)

lemma ipV4_loop_dot: "ipV4_loop n (CHR ''.'' # rest) = Some (replicate n 0)"
  by (induction n) (simp_all add: atoi_dot strchr_def)

text \<open>The value \<open>Owner\<close> of a report control block is not the address of the client: of an IPv4 address in dotted
  notation only the first number is kept, the other three octets are 0.\<close>

theorem report_owner_truncated:
  assumes "re_clientAddress env c = dec a @ CHR ''.'' # rest" and "a < 256"
    and "ReportControl_getRCBValue rc (lit ''Owner'') = Some (MmsValue k (V_octetString l m buf))"
    and "4 \<le> m" and "length buf = m"
  shows "updateOwner env rc (Some c) = Some (rcb_update (rc\<lparr>rc_clientConnection := Some c\<rparr>) (lit ''Owner'')
    (MmsValue k (V_octetString 4 m ([of_nat a, 0, 0, 0] @ drop 4 buf))))"
proof -
  have atoi: "atoi (dec a @ CHR ''.'' # rest) = Some (int a)"
    using assms(2) by (intro atoi_dec) (simp_all add: dot_or_end_def)
  have dot: "strchr (dec a @ CHR ''.'' # rest) (CHR ''.'') = Some (CHR ''.'' # rest)"
    unfolding strchr_def using dec_digits [of a] by (subst dropWhile_append2) (auto simp: isdigit_c_def)
  have loop: "ipV4_loop 4 (dec a @ CHR ''.'' # rest) = Some [of_nat a, 0, 0, 0]"
    by (simp add: numeral_eq_Suc atoi dot ipV4_loop_dot)
  have owner: "ReportControl_getRCBValue (rc\<lparr>rc_clientConnection := Some c\<rparr>) (lit ''Owner'') =
      Some (MmsValue k (V_octetString l m buf))"
    using assms(3) by (subst getRCBValue_cong) simp_all
  show ?thesis
    using assms(4,5) by (simp add: updateOwner_def owner assms(1) dot loop MmsValue_setOctetString_def
        octet_string_def memcpy_def rd_n_def set_union_def)
qed

theorem report_owner_truncated_witness:
  "updateOwner demo_environment demo_unbuffered (Some 2) =
    Some (rcb_update (demo_unbuffered\<lparr>rc_clientConnection := Some 2\<rparr>) (lit ''Owner'')
      (MmsValue 0 (V_octetString 4 128 ([10, 0, 0, 0] @ replicate 124 0))))"
proof -
  have "ReportControl_getRCBValue demo_unbuffered (lit ''Owner'') = Some (MmsValue 0 (V_octetString 0 128 (replicate 128 0)))"
    by (simp add: demo_access demo_eval demo_facts)
  moreover have "re_clientAddress demo_environment 2 = dec 10 @ CHR ''.'' # ''0.0.7:102''"
    by (simp add: demo_environment_def demo_facts)
  ultimately show ?thesis
    using report_owner_truncated [of demo_environment 2 10 "''0.0.7:102''" demo_unbuffered] by simp
qed

lemma entryId_loop_stuck:
  assumes "bf_memoryBlock rb p = Some e" and "rp_entryId (en_data e) \<noteq> octets"
  shows "entryId_loop rb octets (Some p) = None"
proof (rule ccontr)
  assume "entryId_loop rb octets (Some p) \<noteq> None"
  then obtain r where "entryId_loop rb octets (Some p) = Some r" by blast
  from entryId_loop.raw_induct [where P = "\<lambda>b oct q r. \<not> (b = rb \<and> oct = octets \<and> q = Some p)", OF _ this]
  show False using assms by (fastforce simp: bind_eq_Some_conv split: option.splits if_splits)
qed

lemma element_set:
  "MmsValue_getElement m i = Some old \<Longrightarrow> MmsValue_getElement (MmsValue_setElement m i (Some new)) i = Some new"
  by (cases m; cases "mv_value m")
    (auto simp: MmsValue_getElement_def MmsValue_setElement_def components_def set_union_def split: if_splits)

lemma getRCBValue_updated:
  assumes "ReportControl_getRCBValue rc n = Some old"
  shows "ReportControl_getRCBValue (rcb_update rc n new) n = Some new"
proof -
  obtain i m where "map_of (rcb_elements (rc_buffered rc)) n = Some i" "rc_rcbValues rc = Some m"
      "MmsValue_getElement m i = Some old"
    using assms by (auto simp: ReportControl_getRCBValue_def bind_eq_Some_conv split: option.splits)
  then show ?thesis by (simp add: ReportControl_getRCBValue_def rcb_update_def element_set)
qed

text \<open>C16: Resynchronisation is ignored: the element of the control block is \<open>EntryID\<close>, the name the handler looks for is
  \<open>EntryId\<close>. A client that writes the id of a report to \<open>EntryID\<close>, so that sending goes on behind this report, is
  told of success and reads the id back, but the buffer is not searched and the report that will be sent next stays the
  same, whatever the id is; no other part of the control block changes either.\<close>

theorem report_resync_ignored:
  assumes "\<not> rc_enabled rc" and "rc_reserved rc \<longrightarrow> rc_clientConnection rc = Some c" and "rc_buffered rc"
    and "ReportControl_getRCBValue rc (lit ''EntryID'') = Some old" and "mms_wf old" and "mms_wf v" and "accepts old v"
  shows "\<exists>rc' new. Reporting_RCBWriteAccessHandler env rc (lit ''EntryID'') v c = Some (DATA_ACCESS_ERROR_SUCCESS, rc') \<and>
    ReportControl_getRCBValue rc' (lit ''EntryID'') = Some new \<and> mms_content new = mms_content v \<and>
    rc_reportBuffer rc' = rc_reportBuffer rc \<and> rc' = rc\<lparr>rc_rcbValues := rc_rcbValues rc'\<rparr>"
proof -
  obtain new where new: "MmsValue_update old v = Some (True, new)" "mms_content new = mms_content v"
    using update_accepted(1) [OF assms(5-7)] by blast
  let ?rc = "rcb_update rc (lit ''EntryID'') new"
  have "Reporting_RCBWriteAccessHandler env rc (lit ''EntryID'') v c = Some (DATA_ACCESS_ERROR_SUCCESS, ?rc)"
    using assms(1,2,4) new(1)
    by (auto simp: Reporting_RCBWriteAccessHandler_def writeDisabled_def writeElement_def storeElement_def
        updateElement_def lit_def)
  moreover have "ReportControl_getRCBValue ?rc (lit ''EntryID'') = Some new"
    by (rule getRCBValue_updated [OF assms(4)])
  moreover have "?rc = rc\<lparr>rc_rcbValues := rc_rcbValues ?rc\<rparr>"
    by (simp add: rcb_update_def split: option.split)
  ultimately show ?thesis using new(2) by (intro exI [of _ ?rc] exI [of _ new]) simp
qed

theorem report_resync_ignored_witness:
  "\<exists>rc'. Reporting_RCBWriteAccessHandler demo_environment ((ReportControl_create 0 0 True (lit ''LLN0''))\<lparr>rc_rcbValues :=
      Some (MmsValue 0 (V_structure (replicate 11 None @ [Some (MmsValue 0 (V_octetString 8 8 (replicate 8 0)))])))\<rparr>)
      (lit ''EntryID'') (MmsValue 0 (V_octetString 8 8 [0, 0, 0, 0, 0, 0, 0, 5])) 3 = Some (DATA_ACCESS_ERROR_SUCCESS, rc') \<and>
    rc_reportBuffer rc' = rc_reportBuffer (ReportControl_create 0 0 True (lit ''LLN0''))"
proof -
  let ?rc = "(ReportControl_create 0 0 True (lit ''LLN0''))\<lparr>rc_rcbValues :=
      Some (MmsValue 0 (V_structure (replicate 11 None @ [Some (MmsValue 0 (V_octetString 8 8 (replicate 8 0)))])))\<rparr>"
  have rc: "\<not> rc_enabled ?rc" "rc_reserved ?rc \<longrightarrow> rc_clientConnection ?rc = Some 3" "rc_buffered ?rc"
      "ReportControl_getRCBValue ?rc (lit ''EntryID'') = Some (MmsValue 0 (V_octetString 8 8 (replicate 8 0)))"
    by (simp_all add: demo_access lit_def nth_append)
  have v: "mms_wf (MmsValue 0 (V_octetString 8 8 (replicate 8 0)))" "mms_wf (MmsValue 0 (V_octetString 8 8 [0, 0, 0, 0, 0, 0, 0, 5]))"
      "accepts (MmsValue 0 (V_octetString 8 8 (replicate 8 0))) (MmsValue 0 (V_octetString 8 8 [0, 0, 0, 0, 0, 0, 0, 5]))"
    by simp_all
  from report_resync_ignored [OF rc v, of demo_environment] show ?thesis by fastforce
qed

text \<open>A data set created for the report is used after its release: when a control block with such a data set
  finds a data set again (when it is enabled again or \<open>DatSet\<close> is written), the old one is released
  first and then asked for its size.\<close>

theorem report_dynamic_dataset_freed:
  assumes "rc_isDynamicDataSet rc" and "rc_dataSet rc = Some ds" and "rc_bufferedDataSetValues rc = Some vs"
    and "MmsValue_toString datSet = Some name"
    and "re_lookupDataSet env name \<noteq> None \<or> re_domainDataSet env name \<noteq> None"
  shows "updateReportDataset env rc (Some datSet) = None"
  using assms
  by (auto simp: updateReportDataset_def deleteDataSetValuesShadowBuffer_def usedDataSet_def
      bind_eq_None_conv split: option.splits)

theorem report_dynamic_dataset_freed_witness:
  "updateReportDataset demo_environment (demo_unbuffered\<lparr>rc_isDynamicDataSet := True,
      rc_dataSet := Some \<lparr>ds_elementCount = 1, ds_fcdas = [4]\<rparr>, rc_bufferedDataSetValues := Some [None]\<rparr>)
      (Some (MmsValue_newVisibleString (Some (lit ''d/LLN0$t'')))) = None"
  by (rule report_dynamic_dataset_freed)
    (simp_all add: demo_environment_def MmsValue_newVisibleString_def MmsValue_toString_def setVisibleStringValue_def
      set_union_def)


section \<open>Reasons for inclusion\<close>

text \<open>The reasons for inclusion are exchanged in buffered reports: an integrity report is stored with
  flag 1 and sent with the reason general interrogation (bit 5), a general interrogation with flag 2 and the reason
  integrity (bit 4); reports without buffer carry bit 4 for integrity and bit 5 for general interrogation.\<close>

theorem report_reasons_exchanged:
  "sendReport_reasons rc True False [i] = Some [MmsValue 0 (V_bitString 6 [0x08])] \<and>
   sendReport_reasons rc False True [i] = Some [MmsValue 0 (V_bitString 6 [0x04])] \<and>
   storedReasons 1 [x] = Some [MmsValue 0 (V_bitString 6 [0x04])] \<and>
   storedReasons 2 [x] = Some [MmsValue 0 (V_bitString 6 [0x08])]"
proof -
  have bits: "reasonValue [(4, True)] = Some (MmsValue 0 (V_bitString 6 [0x08]))"
      "reasonValue [(5, True)] = Some (MmsValue 0 (V_bitString 6 [0x04]))"
    by code_simp+
  show ?thesis by (simp add: storedReason_def bits)
qed

end
