(* ===== verification/Report_Events.thy ===== *)
theory Report_Events
  imports Reporting
begin

text \<open>
  Reports in the running server (\<open>src/src/iedserver/mms_mapping/reporting.c\<close>): what is stored for a
  buffered report and what the client gets of it, and that the processing of changed values and of
  events never leaves the defined behaviour.
\<close>

section \<open>The data set of a control block\<close>

text \<open>A control block with a data set: flags, copies and references for each entry, a copy for each flag, and
  an inclusion field of a bit for each entry.\<close>

definition report_data ::
  "ReportControl \<Rightarrow> nat list \<Rightarrow> ReportInclusionFlag list \<Rightarrow> MmsValue option list \<Rightarrow> bool" where
  "report_data rc refs flags vals \<longleftrightarrow>
     rc_dataSet rc = Some \<lparr>ds_elementCount = length refs, ds_fcdas = refs\<rparr> \<and> \<not> rc_dataSetFreed rc \<and>
     rc_valueReferences rc = Some refs \<and> rc_inclusionFlags rc = Some flags \<and>
     rc_bufferedDataSetValues rc = Some vals \<and> length flags = length refs \<and> length vals = length refs \<and>
     refs \<noteq> [] \<and> (\<forall>i<length refs. flags ! i \<noteq> REPORT_CONTROL_NONE \<longrightarrow> vals ! i \<noteq> None) \<and>
     (\<exists>k buf. rc_inclusionField rc = Some (MmsValue k (V_bitString (length refs) buf)) \<and>
        length buf = bits_to_bytes (length refs))"

text \<open>The entries of a report, and the value of each.\<close>

definition reported_entries :: "ReportInclusionFlag list \<Rightarrow> bool \<Rightarrow> nat list" where
  "reported_entries flags complete =
     (if complete then [0..<length flags] else filter (\<lambda>i. flags ! i \<noteq> REPORT_CONTROL_NONE) [0..<length flags])"

definition reported_value ::
  "ReportEnv \<Rightarrow> nat list \<Rightarrow> MmsValue option list \<Rightarrow> bool \<Rightarrow> nat \<Rightarrow> MmsValue" where
  "reported_value env refs vals complete i = (if complete then re_value env (refs ! i) else the (vals ! i))"

lemma entryValue_eq:
  assumes "report_data rc refs flags vals" and "i < length refs"
  shows "entryValue env rc complete i =
    Some (if complete \<or> flags ! i \<noteq> REPORT_CONTROL_NONE then Some (reported_value env refs vals complete i) else None)"
  using assms by (auto simp: entryValue_def report_data_def usedDataSet_def reported_value_def)

lemma enqueueReport_values_eq:
  assumes "report_data rc refs flags vals" and "\<forall>i\<in>set is. i < length refs"
  shows "enqueueReport_values env rc complete is =
    Some (map (\<lambda>i. (i, flag_code (flags ! i), reported_value env refs vals complete i))
      (filter (\<lambda>i. complete \<or> flags ! i \<noteq> REPORT_CONTROL_NONE) is))"
  using assms(2)
proof (induction "is")
  case (Cons i "is")
  have "rc_inclusionFlags rc = Some flags" "i < length flags"
    using assms(1) Cons.prems by (simp_all add: report_data_def)
  then show ?case
    using Cons entryValue_eq [OF assms(1), of i env complete] by simp
qed simp

lemma enqueued_entries:
  assumes "report_data rc refs flags vals"
  shows "enqueueReport_values env rc complete [0..<length refs] =
    Some (map (\<lambda>i. (i, flag_code (flags ! i), reported_value env refs vals complete i))
      (reported_entries flags complete))"
proof -
  have "length flags = length refs" using assms by (simp add: report_data_def)
  then have "filter (\<lambda>i. complete \<or> flags ! i \<noteq> REPORT_CONTROL_NONE) [0..<length refs] =
      reported_entries flags complete"
    by (cases complete) (simp_all add: reported_entries_def)
  with enqueueReport_values_eq [OF assms, of "[0..<length refs]" env complete] show ?thesis by simp
qed


section \<open>Inclusion fields\<close>

lemma setBits_true:
  assumes "length buf = bits_to_bytes n" and "\<forall>i\<in>set is. i < n"
  shows "\<exists>buf'. setBits (MmsValue d (V_bitString n buf)) (map (\<lambda>i. (int i, True)) is) =
      Some (MmsValue d (V_bitString n buf')) \<and> length buf' = bits_to_bytes n \<and>
      (\<forall>j<n. mms_bit buf' j \<longleftrightarrow> j \<in> set is \<or> mms_bit buf j)"
  using assms
proof (induction "is" arbitrary: buf)
  case (Cons i "is")
  have i: "i < n" using Cons.prems(2) by simp
  have room: "i div 8 < length buf" using Cons.prems(1) bits_to_bytes_pos [OF i] by simp
  obtain buf' where "setBits (MmsValue d (V_bitString n (set_bit_buf buf i True))) (map (\<lambda>i. (int i, True)) is) =
      Some (MmsValue d (V_bitString n buf'))" "length buf' = bits_to_bytes n"
      "\<forall>j<n. mms_bit buf' j \<longleftrightarrow> j \<in> set is \<or> mms_bit (set_bit_buf buf i True) j"
    using Cons.IH [of "set_bit_buf buf i True"] Cons.prems by auto
  then show ?case
    by (intro exI [of _ buf']) (auto simp: setBitStringBit_eq [OF Cons.prems(1) i] mms_bit_set [OF room])
qed auto

lemma mms_bit_zero: "j < n \<Longrightarrow> \<not> mms_bit (replicate (bits_to_bytes n) 0) j"
  using bits_to_bytes_pos by (simp add: mms_bit_def)

lemma inclusionOctets_eq:
  assumes "\<forall>i\<in>set is. i < n"
  shows "\<exists>octets. inclusionOctets n is = Some octets \<and> length octets = bits_to_bytes n \<and>
    (\<forall>j<n. mms_bit octets j \<longleftrightarrow> j \<in> set is)"
proof -
  obtain buf' where "setBits (MmsValue 0 (V_bitString n (replicate (bits_to_bytes n) 0))) (map (\<lambda>i. (int i, True)) is) =
      Some (MmsValue 0 (V_bitString n buf'))" "length buf' = bits_to_bytes n"
      "\<forall>j<n. mms_bit buf' j \<longleftrightarrow> j \<in> set is \<or> mms_bit (replicate (bits_to_bytes n) 0) j"
    using setBits_true [of "replicate (bits_to_bytes n) 0" n "is" 0] assms by auto
  then show ?thesis
    by (intro exI [of _ buf']) (simp add: inclusionOctets_def bit_string_def mms_bit_zero)
qed

section \<open>The values of a control block\<close>

definition binary_time_ok :: "MmsValue \<Rightarrow> bool" where
  "binary_time_ok v \<longleftrightarrow> (\<exists>k n buf. v = MmsValue k (V_binaryTime n buf) \<and> (n = 4 \<or> n = 6) \<and> length buf = 6)"

definition bits_ok :: "nat \<Rightarrow> MmsValue \<Rightarrow> bool" where
  "bits_ok n v \<longleftrightarrow> (\<exists>k buf. v = MmsValue k (V_bitString n buf) \<and> length buf = bits_to_bytes n)"

text \<open>The elements that event processing uses, by their index: \<open>OptFlds\<close>, \<open>SqNum\<close>, \<open>EntryID\<close> and
  \<open>TimeOfEntry\<close>.\<close>

definition rcb_kind :: "bool \<Rightarrow> nat \<Rightarrow> MmsValue \<Rightarrow> bool" where
  "rcb_kind buffered i v \<longleftrightarrow>
     (i = (if buffered then 4 else 5) \<longrightarrow> bits_ok 10 v) \<and>
     (i = (if buffered then 6 else 7) \<longrightarrow> (\<exists>k a. v = MmsValue k (V_unsigned a) \<and> apv_inv a \<and> 4 \<le> av_maxSize a)) \<and>
     (buffered \<and> i = 11 \<longrightarrow> (\<exists>k l m buf. v = MmsValue k (V_octetString l m buf) \<and> 8 \<le> m \<and> length buf = m)) \<and>
     (buffered \<and> i = 12 \<longrightarrow> binary_time_ok v)"

definition rcb_ok :: "ReportControl \<Rightarrow> bool" where
  "rcb_ok rc \<longleftrightarrow> (\<exists>k cs. rc_rcbValues rc = Some (MmsValue k (V_structure cs)) \<and>
       length cs = (if rc_buffered rc then 15 else 12) \<and>
       (\<forall>i<length cs. \<exists>v. cs ! i = Some v \<and> rcb_kind (rc_buffered rc) i v)) \<and>
     (rc_buffered rc \<or> (\<exists>v. rc_timeOfEntry rc = Some v \<and> binary_time_ok v))"

text \<open>Equal but for the values of the control block.\<close>

definition same_control :: "ReportControl \<Rightarrow> ReportControl \<Rightarrow> bool" where
  "same_control rc rc' \<longleftrightarrow> (\<exists>a b c. rc' = rc\<lparr>rc_rcbValues := a, rc_timeOfEntry := b, rc_sqNum := c\<rparr>)"

lemma same_control_refl [simp]: "same_control rc rc"
  unfolding same_control_def by (intro exI [of _ "rc_rcbValues rc"] exI [of _ "rc_timeOfEntry rc"] exI [of _ "rc_sqNum rc"]) simp

lemma same_control_trans: "same_control a b \<Longrightarrow> same_control b c \<Longrightarrow> same_control a c"
  unfolding same_control_def by force

lemma same_control_data:
  assumes "same_control rc rc'"
  shows "report_data rc' refs flags vals = report_data rc refs flags vals"
    and "rc_buffered rc' = rc_buffered rc" and "rc_reportBuffer rc' = rc_reportBuffer rc"
    and "rc_enabled rc' = rc_enabled rc" and "rc_clientConnection rc' = rc_clientConnection rc"
    and "rc_isBuffering rc' = rc_isBuffering rc" and "rc_inclusionField rc' = rc_inclusionField rc"
    and "rc_inclusionFlags rc' = rc_inclusionFlags rc" and "usedDataSet rc' = usedDataSet rc"
    and "rc_lastEntryId rc' = rc_lastEntryId rc"
  using assms by (auto simp: same_control_def report_data_def usedDataSet_def)

lemma same_control_rcb: "same_control rc (rc\<lparr>rc_rcbValues := a\<rparr>)" "same_control rc (rc\<lparr>rc_timeOfEntry := b\<rparr>)"
    "same_control rc (rcb_update rc n v)" "same_control rc (set_timeOfEntry rc v)"
    "same_control rc (rcb_update (rc\<lparr>rc_sqNum := c\<rparr>) n v)"
  unfolding same_control_def rcb_update_def set_timeOfEntry_def
  by (cases rc, force split: option.splits)+

text \<open>Reading and changing an element.\<close>

lemma rcb_get:
  assumes "rcb_ok rc" and "map_of (rcb_elements (rc_buffered rc)) name = Some (int i)"
    and "i < (if rc_buffered rc then 15 else 12)"
  shows "\<exists>v. ReportControl_getRCBValue rc name = Some v \<and> rcb_kind (rc_buffered rc) i v"
  using assms by (fastforce simp: rcb_ok_def ReportControl_getRCBValue_def MmsValue_getElement_def components_def)

lemma rcb_set:
  assumes "rcb_ok rc" and "map_of (rcb_elements (rc_buffered rc)) name = Some (int i)"
    and "rcb_kind (rc_buffered rc) i v"
  shows "rcb_ok (rcb_update rc name v)"
  using assms by (auto simp: rcb_ok_def rcb_update_def MmsValue_setElement_def set_union_def nth_list_update)

lemmas element_simps = rcb_elements_def rcb_kind_def

lemma setBinaryTime_ok:
  "binary_time_ok v \<Longrightarrow> \<exists>v'. MmsValue_setBinaryTime v t = Some v' \<and> binary_time_ok v'"
  by (auto simp: binary_time_ok_def MmsValue_setBinaryTime_def set_union_def Let_def)

lemma updateTimeOfEntry_ok:
  assumes "rcb_ok rc"
  shows "\<exists>rc'. updateTimeOfEntry rc t = Some rc' \<and> rcb_ok rc' \<and> same_control rc rc'"
proof (cases "rc_buffered rc")
  case True
  obtain v where v: "ReportControl_getRCBValue rc (lit ''TimeOfEntry'') = Some v" "binary_time_ok v"
    using rcb_get [OF assms, of "lit ''TimeOfEntry''" 12] True by (auto simp: element_simps)
  obtain v' where v': "MmsValue_setBinaryTime v t = Some v'" "binary_time_ok v'"
    using setBinaryTime_ok [OF v(2)] by blast
  have "rcb_ok (rcb_update rc (lit ''TimeOfEntry'') v')"
    using True v'(2) by (intro rcb_set [OF assms, of _ 12]) (auto simp: element_simps)
  then show ?thesis
    using True v(1) v'(1) by (simp add: updateTimeOfEntry_def timeOfEntry_def set_timeOfEntry_def same_control_rcb)
next
  case False
  obtain v where v: "rc_timeOfEntry rc = Some v" "binary_time_ok v"
    using assms False by (auto simp: rcb_ok_def)
  obtain v' where v': "MmsValue_setBinaryTime v t = Some v'" "binary_time_ok v'"
    using setBinaryTime_ok [OF v(2)] by blast
  then have "rcb_ok (rc\<lparr>rc_timeOfEntry := Some v'\<rparr>)" using assms False by (auto simp: rcb_ok_def)
  then show ?thesis
    using False v(1) v'(1) by (simp add: updateTimeOfEntry_def timeOfEntry_def set_timeOfEntry_def same_control_rcb)
qed

lemma setBits_ok:
  assumes "bits_ok n v" and "\<forall>b\<in>set bs. 0 \<le> fst b \<and> fst b < int n"
  shows "\<exists>v'. setBits v bs = Some v' \<and> bits_ok n v'"
  using assms
proof (induction bs arbitrary: v)
  case (Cons b bs)
  obtain k buf where v: "v = MmsValue k (V_bitString n buf)" "length buf = bits_to_bytes n"
    using Cons.prems(1) by (auto simp: bits_ok_def)
  obtain i where i: "fst b = int i" "i < n"
    using Cons.prems(2) by (metis list.set_intros(1) nonneg_int_cases of_nat_less_iff)
  have "bits_ok n (MmsValue k (V_bitString n (set_bit_buf buf i (snd b))))"
    using v(2) by (simp add: bits_ok_def)
  from Cons.IH [OF this] show ?case
    using Cons.prems(2) by (simp add: v(1) i(1) setBitStringBit_eq [OF v(2) i(2)])
qed simp

lemma getBit_ok: "bits_ok n v \<Longrightarrow> \<exists>b. MmsValue_getBitStringBit v (int i) = Some b"
  by (auto simp: bits_ok_def getBitStringBit_eq)

lemmas getBit_numeral = getBit_ok [of _ _ "numeral i" for i, simplified] getBit_ok [of _ _ 1, simplified]

lemma optFlds_ok:
  assumes "rcb_ok rc" and "\<forall>b\<in>set bs. 0 \<le> fst b \<and> fst b < 10"
  shows "\<exists>v v'. ReportControl_getRCBValue rc (lit ''OptFlds'') = Some v \<and> bits_ok 10 v \<and>
    setBits v bs = Some v' \<and> bits_ok 10 v' \<and> rcb_ok (rcb_update rc (lit ''OptFlds'') v') \<and>
    same_control rc (rcb_update rc (lit ''OptFlds'') v')"
proof -
  define i :: nat where "i = (if rc_buffered rc then 4 else 5)"
  have idx: "map_of (rcb_elements (rc_buffered rc)) (lit ''OptFlds'') = Some (int i)"
    by (simp add: rcb_elements_def i_def)
  have "i < (if rc_buffered rc then 15 else 12)" by (simp add: i_def)
  then obtain v where v: "ReportControl_getRCBValue rc (lit ''OptFlds'') = Some v" "bits_ok 10 v"
    using rcb_get [OF assms(1) idx] by (auto simp: rcb_kind_def i_def split: if_splits)
  obtain v' where v': "setBits v bs = Some v'" "bits_ok 10 v'"
    using setBits_ok [OF v(2), of bs] assms(2) by auto
  have "rcb_ok (rcb_update rc (lit ''OptFlds'') v')"
    using v'(2) by (intro rcb_set [OF assms(1) idx]) (auto simp: rcb_kind_def i_def)
  with v v' same_control_rcb(3) show ?thesis by blast
qed

lemma reportHeader_ok: "bits_ok 10 optFlds \<Longrightarrow> \<exists>h. reportHeader rc optFlds e = Some h"
  using getBit_numeral(2) [of 10 optFlds] getBit_numeral(1) [of 10 optFlds]
  unfolding reportHeader_def by (metis bind.bind_lunit)

lemma increaseSqNum_ok:
  assumes "rcb_ok rc"
  shows "\<exists>rc'. increaseSqNum rc = Some rc' \<and> rcb_ok rc' \<and> same_control rc rc'"
proof -
  define i :: nat where "i = (if rc_buffered rc then 6 else 7)"
  have idx: "map_of (rcb_elements (rc_buffered rc)) (lit ''SqNum'') = Some (int i)"
    by (simp add: rcb_elements_def i_def)
  have "i < (if rc_buffered rc then 15 else 12)" by (simp add: i_def)
  then obtain k a where v: "ReportControl_getRCBValue rc (lit ''SqNum'') = Some (MmsValue k (V_unsigned a))"
      "apv_inv a" "4 \<le> av_maxSize a"
    using rcb_get [OF assms idx] by (auto simp: rcb_kind_def i_def split: if_splits)
  obtain a' where a': "setIntegerValue a (le_bytes (rc_sqNum rc + 1)) = Some (1, a')" "apv_inv a'"
      "av_maxSize a' = av_maxSize a"
    using setIntegerValue_stores [OF v(2), of "le_bytes (rc_sqNum rc + 1)"] v(3)
    by (auto simp: le_bytes_def)
  have ok: "rcb_ok (rc\<lparr>rc_sqNum := rc_sqNum rc + 1\<rparr>)" using assms by (simp add: rcb_ok_def)
  have "rcb_ok (rcb_update (rc\<lparr>rc_sqNum := rc_sqNum rc + 1\<rparr>) (lit ''SqNum'') (MmsValue k (V_unsigned a')))"
    using a' v(3) by (intro rcb_set [OF ok, of _ i]) (auto simp: rcb_kind_def i_def idx [unfolded i_def] rcb_elements_def)
  then show ?thesis
    using v a' by (simp add: increaseSqNum_def MmsValue_setUint16_def BerInteger_setUint16_def
        Asn1PrimitiveValue_getMaxSize_def set_union_def same_control_rcb)
qed

lemma setEntryId_ok:
  assumes "rcb_ok rc" and "rc_buffered rc" and "length e = 8"
  shows "\<exists>rc'. setEntryId rc e = Some rc' \<and> rcb_ok rc' \<and> same_control rc rc'"
proof -
  obtain k cs where cs: "rc_rcbValues rc = Some (MmsValue k (V_structure cs))" "length cs = 15"
      "\<forall>i<length cs. \<exists>v. cs ! i = Some v \<and> rcb_kind True i v"
    using assms(1,2) by (auto simp: rcb_ok_def)
  obtain k' l m buf where v: "cs ! 11 = Some (MmsValue k' (V_octetString l m buf))" "8 \<le> m" "length buf = m"
    using cs(2) cs(3) [rule_format, of 11] by (auto simp: rcb_kind_def)
  define v' where "v' = MmsValue k' (V_octetString 8 m (e @ drop 8 buf))"
  have "setEntryId rc e = Some (rc\<lparr>rc_rcbValues := Some (MmsValue k (V_structure (cs[11 := Some v'])))\<rparr>)"
    using cs v assms(3)
    by (simp add: setEntryId_def MmsValue_getElement_def components_def MmsValue_setOctetString_def
        octet_string_def memcpy_def rd_n_def set_union_def MmsValue_setElement_def v'_def)
  moreover have "rcb_kind True 11 v'" using v assms(3) by (auto simp: rcb_kind_def v'_def)
  then have "rcb_ok (rc\<lparr>rc_rcbValues := Some (MmsValue k (V_structure (cs[11 := Some v'])))\<rparr>)"
    using cs assms(1,2) by (auto simp: rcb_ok_def nth_list_update)
  ultimately show ?thesis using same_control_rcb(1) by blast
qed

lemma clearFlags_eq:
  assumes "report_data rc refs flags vals"
  shows "clearFlags rc (length refs) =
    Some (rc\<lparr>rc_inclusionFlags := Some (replicate (length refs) REPORT_CONTROL_NONE)\<rparr>)"
  using assms by (simp add: report_data_def clearFlags_def)

end
