(* ===== verification/Report_Delivery.thy ===== *)
theory Report_Delivery
  imports Report_Events Ber_Decoder
begin

text \<open>
  Buffered reports from the data set to the client (\<open>src/src/iedserver/mms_mapping/reporting.c\<close>): what
  \<open>enqueueReport\<close> stores is what \<open>sendNextReportEntry\<close> sends, but for integers, which a stored value shares
  with the value it was copied from.
\<close>

section \<open>Integers of stored values\<close>

text \<open>Values without integers.\<close>

fun integer_free :: "MmsValue \<Rightarrow> bool" where
  "integer_free (MmsValue _ u) =
     (case u of
        V_array cs \<Rightarrow> all_components integer_free cs
      | V_structure cs \<Rightarrow> all_components integer_free cs
      | V_integer _ \<Rightarrow> False
      | V_unsigned _ \<Rightarrow> False
      | _ \<Rightarrow> True)"

lemma shared_integer_free:
  "integer_free v \<Longrightarrow> sharedIntegers v source = Some v"
  "all_components integer_free cs \<Longrightarrow> sharedIntegers_components cs sources = Some cs"
proof (induction v source and cs sources rule: sharedIntegers_sharedIntegers_components.induct)
  case (1 d u source)
  then show ?case by (cases u) auto
next
  case (3 c cs sources)
  then show ?case by (auto split: option.splits)
qed auto

lemma shared_unchanged:
  "mms_wf v \<Longrightarrow> source = Some v \<Longrightarrow> sharedIntegers v source = Some v"
  "all_components mms_wf cs \<Longrightarrow> sources = cs \<Longrightarrow> sharedIntegers_components cs sources = Some cs"
proof (induction v source and cs sources rule: sharedIntegers_sharedIntegers_components.induct)
  case (1 d u source)
  then show ?case by (cases u) (auto simp: mms_wf_union)
next
  case (3 c cs sources)
  then show ?case by (auto split: option.splits)
qed auto

text \<open>What a later value keeps of the one that was copied, as far as its integers are concerned: they are at the same places
  and have the same capacity. Updates keep this.\<close>

fun keeps_integers :: "MmsValue \<Rightarrow> MmsValue \<Rightarrow> bool" where
  "keeps_integers (MmsValue _ u) (MmsValue _ u') =
     (case u of
        V_array cs \<Rightarrow> (case u' of V_array cs' \<Rightarrow>
          list_all2 (\<lambda>c c'. case c of None \<Rightarrow> False | Some v \<Rightarrow>
            (case c' of None \<Rightarrow> False | Some v' \<Rightarrow> keeps_integers v v')) cs cs' | _ \<Rightarrow> False)
      | V_structure cs \<Rightarrow> (case u' of V_structure cs' \<Rightarrow>
          list_all2 (\<lambda>c c'. case c of None \<Rightarrow> False | Some v \<Rightarrow>
            (case c' of None \<Rightarrow> False | Some v' \<Rightarrow> keeps_integers v v')) cs cs' | _ \<Rightarrow> False)
      | V_integer a \<Rightarrow> (case u' of V_integer a' \<Rightarrow> av_maxSize a' = av_maxSize a | _ \<Rightarrow> False)
      | V_unsigned a \<Rightarrow> (case u' of V_unsigned a' \<Rightarrow> av_maxSize a' = av_maxSize a | _ \<Rightarrow> False)
      | _ \<Rightarrow> True)"

definition keeps_all :: "MmsValue option list \<Rightarrow> MmsValue option list \<Rightarrow> bool" where
  "keeps_all = list_all2 (\<lambda>c c'. case c of None \<Rightarrow> False | Some v \<Rightarrow>
     (case c' of None \<Rightarrow> False | Some v' \<Rightarrow> keeps_integers v v'))"

lemmas keeps_simps [simp] = keeps_integers.simps [folded keeps_all_def]
declare keeps_integers.simps [simp del]

lemma keeps_all_Nil [simp]: "keeps_all [] ds \<longleftrightarrow> ds = []" "keeps_all ds [] \<longleftrightarrow> ds = []"
  by (simp_all add: keeps_all_def)

lemma keeps_all_Cons:
  "keeps_all (c # cs) ds \<longleftrightarrow> (\<exists>v w es. c = Some v \<and> ds = Some w # es \<and> keeps_integers v w \<and> keeps_all cs es)"
  "keeps_all ds (c # cs) \<longleftrightarrow> (\<exists>v w es. ds = Some v # es \<and> c = Some w \<and> keeps_integers v w \<and> keeps_all es cs)"
  by (cases c; cases ds; auto simp: keeps_all_def split: option.splits)+

lemma keeps_refl:
  "mms_wf v \<Longrightarrow> keeps_integers v v"
  "all_components mms_wf cs \<Longrightarrow> keeps_all cs cs"
proof (induction v and cs rule: MmsValue_delete_delete_components.induct)
  case (1 d u)
  then show ?case by (cases u) (auto simp: mms_wf_union)
next
  case (3 c cs)
  then show ?case by (auto simp: keeps_all_Cons split: option.splits)
qed auto

lemma setFromBerInteger_maxSize: "BerInteger_setFromBerInteger a a' = Some (r, b) \<Longrightarrow> av_maxSize b = av_maxSize a"
  by (auto simp: BerInteger_setFromBerInteger_def bind_eq_Some_conv split: if_splits)

lemma update_scalar_kind:
  assumes "MmsValue_update (MmsValue d u) (MmsValue d' u') = Some (r, b)"
    and "\<And>cs cs'. \<not> (u = V_array cs \<and> u' = V_array cs')" and "\<And>cs cs'. \<not> (u = V_structure cs \<and> u' = V_structure cs')"
  shows "\<exists>w. b = MmsValue d w \<and>
    (case u of
       V_integer a \<Rightarrow> (\<exists>a'. w = V_integer a' \<and> av_maxSize a' = av_maxSize a)
     | V_unsigned a \<Rightarrow> (\<exists>a'. w = V_unsigned a' \<and> av_maxSize a' = av_maxSize a)
     | V_array cs \<Rightarrow> w = u
     | V_structure cs \<Rightarrow> w = u
     | _ \<Rightarrow> True)"
  using assms
  by (cases u; cases u')
    (auto simp: bind_eq_Some_conv MmsValue_setVisibleString_def MmsValue_setMmsString_def MmsValue_getType_def
      setVisibleStringValue_def setMmsStringValue_def set_union_def setFromBerInteger_maxSize split: if_splits)

lemma keeps_scalar:
  assumes "keeps_integers v (MmsValue d u)" and "case u of
       V_integer a \<Rightarrow> (\<exists>a'. w = V_integer a' \<and> av_maxSize a' = av_maxSize a)
     | V_unsigned a \<Rightarrow> (\<exists>a'. w = V_unsigned a' \<and> av_maxSize a' = av_maxSize a)
     | V_array cs \<Rightarrow> w = u
     | V_structure cs \<Rightarrow> w = u
     | _ \<Rightarrow> True"
  shows "keeps_integers v (MmsValue d w)"
proof -
  obtain dv uv where v: "v = MmsValue dv uv" by (cases v)
  show ?thesis
  proof (cases uv)
    case (V_array cs)
    with assms show ?thesis by (cases u) (simp_all add: v)
  next
    case (V_structure cs)
    with assms show ?thesis by (cases u) (simp_all add: v)
  next
    case (V_integer a)
    with assms show ?thesis by (cases u) (auto simp: v)
  next
    case (V_unsigned a)
    with assms show ?thesis by (cases u) (auto simp: v)
  qed (simp_all add: v)
qed

lemma update_keeps:
  "MmsValue_update a c = Some (r, b) \<Longrightarrow> keeps_integers v a \<Longrightarrow> keeps_integers v b"
  "updateStructuredComponent cs cs' = Some ds \<Longrightarrow> keeps_all vs cs \<Longrightarrow> keeps_all vs ds"
proof (induction a c and cs cs' arbitrary: r b v and ds vs rule: MmsValue_update_updateStructuredComponent.induct)
  case (1 d u d' u')
  obtain dv uv where v: "v = MmsValue dv uv" by (cases v)
  show ?case
  proof (cases u u' rule: union_pair_cases)
    case (arrays cs cs')
    then show ?thesis using 1(1) [OF arrays] 1(3,4) by (cases uv) (auto simp: v)
  next
    case (structures cs cs')
    then show ?thesis using 1(2) [OF structures] 1(3,4) by (cases uv) (auto simp: v)
  next
    case other
    from update_scalar_kind [OF 1(3) other] keeps_scalar [OF 1(4)] show ?thesis by blast
  qed
next
  case (4 c cs c' cs')
  obtain x x' q y rest where d: "c = Some x" "c' = Some x'" "MmsValue_update x x' = Some (q, y)"
      "updateStructuredComponent cs cs' = Some rest" "ds = Some y # rest"
    using 4(3) by (auto simp: bind_eq_Some_conv)
  obtain w vs' where vs: "vs = Some w # vs'" "keeps_integers w x" "keeps_all vs' cs"
    using 4(4) d(1) by (auto simp: keeps_all_Cons)
  show ?case using 4(1) [OF d(1,2,3) vs(2)] 4(2) [OF d(1,2,3) refl d(4) vs(3)] by (simp add: d(5) vs(1) keeps_all_Cons)
qed auto

text \<open>The value, whatever updates it has had.\<close>

definition updated_to :: "MmsValue \<Rightarrow> MmsValue \<Rightarrow> bool" where
  "updated_to v v' \<longleftrightarrow> (\<lambda>a b. \<exists>c r. MmsValue_update a c = Some (r, b))\<^sup>*\<^sup>* v v'"

lemma updated_keeps: "updated_to v l \<Longrightarrow> mms_wf v \<Longrightarrow> keeps_integers v l"
  unfolding updated_to_def by (induction rule: rtranclp_induct) (auto intro: keeps_refl(1) update_keeps(1))

lemma shared_kept:
  "keeps_integers v l \<Longrightarrow> source = Some l \<Longrightarrow>
     \<exists>w. sharedIntegers v source = Some w \<and> MmsValue_getSizeInMemory sz w = MmsValue_getSizeInMemory sz v"
  "keeps_all cs sources \<Longrightarrow> \<exists>ws. sharedIntegers_components cs sources = Some ws \<and> length ws = length cs \<and>
     sizeInMemory_components sz ws = sizeInMemory_components sz cs"
proof (induction v source and cs sources arbitrary: l rule: sharedIntegers_sharedIntegers_components.induct)
  case (1 d u source)
  obtain d' u' where l: "l = MmsValue d' u'" by (cases l)
  show ?case
    using 1 by (cases u; cases u') (fastforce simp: l)+
next
  case (3 c cs sources)
  then obtain v s ss where "c = Some v" "sources = Some s # ss" "keeps_integers v s" "keeps_all cs ss"
    by (auto simp: keeps_all_Cons)
  with 3 show ?case by fastforce
qed auto


section \<open>Storage\<close>

text \<open>The octets written for the entries of a report are the octets counted for it.\<close>

definition entries_size :: "Sizeof \<Rightarrow> MmsValue list \<Rightarrow> nat" where
  "entries_size sz vs = (\<Sum>v\<leftarrow>vs. 1 + the (MmsValue_getSizeInMemory sz v))"

definition storable :: "MmsValue \<Rightarrow> bool" where
  "storable v \<longleftrightarrow> mms_wf v \<and> strings_set v"

lemma storable_layout:
  assumes "storable v"
  shows "\<exists>chunks n. MmsValue_cloneToBuffer sz v p = Some (chunks, p + n) \<and> MmsValue_getSizeInMemory sz v = Some n"
  using assms cloneToBuffer_layout(1) [of v sz p]
  by (auto simp: storable_def split: option.splits)

primrec laid_out :: "Sizeof \<Rightarrow> (nat \<Rightarrow> ValueSource) \<Rightarrow> (nat \<times> byte \<times> MmsValue) list \<Rightarrow> nat \<Rightarrow> StoredValue list" where
  "laid_out sz source [] p = []"
| "laid_out sz source (x # xs) p =
     \<lparr>st_address = p + 1, st_reason = fst (snd x), st_source = source (fst x), st_copy = snd (snd x)\<rparr> #
     laid_out sz source xs (p + 1 + the (MmsValue_getSizeInMemory sz (snd (snd x))))"

lemma entries_layout:
  assumes "\<forall>x\<in>set xs. storable (snd (snd x))"
  shows "entriesSize sz xs = Some (entries_size sz (map (\<lambda>x. snd (snd x)) xs)) \<and>
    cloneEntries sz source xs p =
      Some (laid_out sz source xs p, p + entries_size sz (map (\<lambda>x. snd (snd x)) xs))"
  using assms
proof (induction xs arbitrary: p)
  case (Cons x xs)
  obtain chunks n where "MmsValue_cloneToBuffer sz (snd (snd x)) (p + 1) = Some (chunks, p + 1 + n)"
      "MmsValue_getSizeInMemory sz (snd (snd x)) = Some n"
    using storable_layout [of "snd (snd x)"] Cons.prems by fastforce
  with Cons.IH [of "p + 1 + n"] Cons.prems show ?case by (simp add: entries_size_def)
qed (simp add: entries_size_def)

text \<open>The local storage of a report that is sent.\<close>

lemma allocateAll_eq:
  assumes "al_currentPtr ma - al_memoryBlock ma \<le> al_size ma"
  shows "allocateAll ma ns =
    (if al_currentPtr ma - al_memoryBlock ma + int (sum_list ns) \<le> al_size ma
     then Some (ma\<lparr>al_currentPtr := al_currentPtr ma + int (sum_list ns)\<rparr>) else None)"
  using assms by (induction ns arbitrary: ma) (auto simp: MemoryAllocator_allocate_def)

lemma allocateAll_room:
  assumes "int (sum_list ns + sum_list ms) \<le> size0"
  shows "\<exists>ma ma'. allocateAll (MemoryAllocator_init 0 size0) ns = Some ma \<and> allocateAll ma ms = Some ma'"
  using assms by (simp add: allocateAll_eq MemoryAllocator_init_def)

text \<open>All bits of an inclusion field.\<close>

lemma fold_paddingMask: "fold (\<lambda>i m. m + 2 ^ i) [0..<p] (0 :: byte) = paddingMask p"
  by (induction p) simp_all

lemma setAll_bits:
  assumes "0 < n" and "length buf = bits_to_bytes n"
  shows "\<exists>buf'. MmsValue_setAllBitStringBits (MmsValue d (V_bitString n buf)) = Some (MmsValue d (V_bitString n buf')) \<and>
    length buf' = bits_to_bytes n \<and> (\<forall>j<n. mms_bit buf' j)"
proof -
  define B p where "B = bits_to_bytes n" and "p = B * 8 - n"
  have B: "n \<le> 8 * B" "8 * B < n + 8" using bits_to_bytes_bound [of n] by (simp_all add: B_def)
  have B0: "0 < B" using B assms(1) by simp
  have sz: "getBitStringByteSize (MmsValue d (V_bitString n buf)) = Some B"
    by (auto simp: getBitStringByteSize_def B_def bits_to_bytes_def)
  define buf' where "buf' = (replicate B (0xff :: byte))[B - 1 := 0xff AND NOT (paddingMask p)]"
  have rd_last: "rd (replicate B (0xff :: byte)) (int B - 1) = Some 0xff"
      "wr (replicate B (0xff :: byte)) (int B - 1) x = Some ((replicate B 0xff)[B - 1 := x])" for x
    using B0 by (auto simp: rd_def wr_def nat_diff_distrib)
  have "MmsValue_setAllBitStringBits (MmsValue d (V_bitString n buf)) = Some (MmsValue d (V_bitString n buf'))"
    using sz rd_last assms(2)
    by (simp add: MmsValue_setAllBitStringBits_def bit_string_def memcpy_def rd_n_def set_union_def
        fold_paddingMask buf'_def B_def [symmetric] p_def Let_def)
  moreover have "mms_bit buf' j" if "j < n" for j
  proof -
    have j: "j div 8 < B" using that B by simp
    have "bit (0xff :: byte) k" if "k < 8" for k
      using that by (auto simp: bit_simps less_Suc_eq numeral_eq_Suc)
    moreover have "p \<le> 7 - j mod 8" if "j div 8 = B - 1"
    proof -
      have "j = 8 * (B - 1) + j mod 8" using that by (metis mult_div_mod_eq)
      then show ?thesis using \<open>j < n\<close> B B0 by (simp add: p_def)
    qed
    ultimately show ?thesis
      using j B by (auto simp: mms_bit_def buf'_def nth_list_update bit_simps paddingMask_eq_mask p_def)
  qed
  ultimately show ?thesis by (auto simp: buf'_def B_def)
qed

section \<open>What is stored\<close>

text \<open>A report that is stored at \<open>p\<close> carries the entries \<open>xs\<close> (index, reason and value) of a data set of \<open>n\<close> entries,
  behind its header and inclusion field.\<close>

definition values_start :: "ReportEnv \<Rightarrow> nat \<Rightarrow> nat \<Rightarrow> Report \<Rightarrow> nat" where
  "values_start env n p report = p + re_sizeofEntry env + (if rp_flags report = 0 then bits_to_bytes n else 0)"

definition report_carries ::
  "ReportEnv \<Rightarrow> (nat \<Rightarrow> ValueSource) \<Rightarrow> nat \<Rightarrow> nat \<Rightarrow> (nat \<times> byte \<times> MmsValue) list \<Rightarrow> Report \<Rightarrow> bool" where
  "report_carries env source n p xs report \<longleftrightarrow> length (rp_entryId report) = 8 \<and>
     rp_values report = laid_out (re_sizeof env) source xs (values_start env n p report) \<and>
     map fst xs = filter (\<lambda>i. i \<in> fst ` set xs) [0..<n] \<and>
     (if rp_flags report > 0 then map fst xs = [0..<n]
      else length (rp_inclusion report) = bits_to_bytes n \<and>
        (\<forall>j<n. mms_bit (rp_inclusion report) j \<longleftrightarrow> j \<in> fst ` set xs))"

definition reported ::
  "ReportEnv \<Rightarrow> nat list \<Rightarrow> ReportInclusionFlag list \<Rightarrow> MmsValue option list \<Rightarrow> bool \<Rightarrow> (nat \<times> byte \<times> MmsValue) list" where
  "reported env refs flags vals complete =
     map (\<lambda>i. (i, flag_code (flags ! i), reported_value env refs vals complete i)) (reported_entries flags complete)"

definition reported_size :: "ReportEnv \<Rightarrow> nat \<Rightarrow> bool \<Rightarrow> (nat \<times> byte \<times> MmsValue) list \<Rightarrow> nat" where
  "reported_size env n complete xs = re_sizeofEntry env + (if complete then 0 else bits_to_bytes n) +
     entries_size (re_sizeof env) (map (\<lambda>x. snd (snd x)) xs)"

lemma reported_entries_filter:
  "reported_entries flags complete = filter (\<lambda>i. i \<in> set (reported_entries flags complete)) [0..<length flags]"
  by (auto simp: reported_entries_def intro!: filter_cong)

lemma map_fst_reported [simp]: "map fst (reported env refs flags vals complete) = reported_entries flags complete"
  by (simp add: reported_def comp_def)

lemma fst_reported [simp]: "fst ` set (reported env refs flags vals complete) = set (reported_entries flags complete)"
  by (metis map_fst_reported set_map)

lemma inclusion_sizes:
  assumes "report_data rc refs flags vals"
  shows "\<exists>field. rc_inclusionField rc = Some field \<and>
    MmsValue_getBitStringByteSize field = Some (bits_to_bytes (length refs)) \<and>
    MmsValue_getBitStringSize field = Some (length refs)"
  using assms by (auto simp: report_data_def MmsValue_getBitStringByteSize_def MmsValue_getBitStringSize_def
      bitStringByteSize_def bit_string_def)

lemma entryId_step:
  assumes "rcb_ok rc" and "rc_buffered rc" and "length e = 8"
  shows "\<exists>rc'. (if rc_enabled rc then Some rc else setEntryId rc e) = Some rc' \<and> rcb_ok rc' \<and> same_control rc rc'"
  using setEntryId_ok [OF assms] assms(1) by auto

text \<open>The place of an entry does not depend on what is stored in it.\<close>

lemma placed_entry:
  assumes "buffer_holds rb s u" and "0 < n" and "n \<le> bf_memoryBlockSize rb"
  shows "\<exists>p rb1 k rb'. placeEntry header rb n = Some (p, rb1) \<and> writeEntry rb1 p n (d p) = Some rb' \<and>
    k \<le> length (s @ u) \<and> buffer_holds rb' (drop k s) (drop (k - length s) u @ [(p, n, d p)]) \<and>
    bf_memoryBlockSize rb' = bf_memoryBlockSize rb"
proof -
  obtain p rb1 where p: "placeEntry header rb n = Some (p, rb1)"
    using placeEntry_holds [OF assms, of "d 0" header] unfolding accommodated_def by blast
  show ?thesis
    using placeEntry_holds [OF assms, of "d p" header] unfolding accommodated_def p by blast
qed

lemma enqueueReport_stores:
  assumes data: "report_data rc refs flags vals" and ok: "rcb_ok rc" and buf: "rc_buffered rc"
    and rb: "rc_reportBuffer rc = Some rb" and holds: "buffer_holds rb s u"
    and header: "0 < re_sizeofEntry env" and cdef: "complete = (isIntegrity \<or> isGI)"
    and xs: "xs = reported env refs flags vals complete" and wf: "\<forall>x\<in>set xs. storable (snd (snd x))"
    and fits: "reported_size env (length refs) complete xs \<le> bf_memoryBlockSize rb"
  shows "\<exists>rc' rb' k p report. enqueueReport env rc isIntegrity isGI = Some rc' \<and>
    rc_reportBuffer rc' = Some rb' \<and> k \<le> length (s @ u) \<and>
    buffer_holds rb' (drop k s) (drop (k - length s) u @ [(p, reported_size env (length refs) complete xs, report)]) \<and>
    bf_memoryBlockSize rb' = bf_memoryBlockSize rb \<and>
    report_carries env (entrySource rc complete) (length refs) p xs report \<and> rcb_ok rc' \<and>
    report_data rc' refs (replicate (length refs) REPORT_CONTROL_NONE) vals \<and> rc_buffered rc' \<and>
    rc_clientConnection rc' = rc_clientConnection rc \<and> rc_enabled rc' = rc_enabled rc \<and>
    rc_shadowBuffer rc' = rc_shadowBuffer rc"
proof -
  define n sz where "n = length refs" and "sz = reported_size env n complete xs"
  have flags: "length flags = n" using data by (simp add: report_data_def n_def)
  obtain field where field: "rc_inclusionField rc = Some field"
      "MmsValue_getBitStringByteSize field = Some (bits_to_bytes n)" "MmsValue_getBitStringSize field = Some n"
    using inclusion_sizes [OF data] by (auto simp: n_def)
  have vs: "enqueueReport_values env rc complete [0..<n] = Some xs"
    using enqueued_entries [OF data] by (simp add: xs reported_def n_def)
  define ts where "ts = (if re_time env = rc_lastEntryId rc then re_time env + 1 else re_time env)"
  obtain rc1 where rc1: "(if rc_enabled rc then Some rc else setEntryId rc (le_bytes ts)) = Some rc1"
      "rcb_ok rc1" "same_control rc rc1"
    using entryId_step [OF ok buf, of "le_bytes ts"] by (auto simp: le_bytes_def)
  have "\<forall>i\<in>set (map fst xs). i < n" using flags by (auto simp: xs reported_entries_def)
  then obtain octets where oct: "inclusionOctets n (map fst xs) = Some octets" "length octets = bits_to_bytes n"
      "\<forall>j<n. mms_bit octets j \<longleftrightarrow> j \<in> set (map fst xs)"
    using inclusionOctets_eq [of "map fst xs" n] by blast
  define report where "report = (\<lambda>p. \<lparr>rp_entryId = le_bytes ts, rp_flags = (if isIntegrity then 1 else if isGI then 2 else 0),
    rp_inclusion = (if complete then [] else octets), rp_values = laid_out (re_sizeof env) (entrySource rc complete) xs
      (p + re_sizeofEntry env + (if complete then 0 else bits_to_bytes n))\<rparr>)"
  have "0 < sz" "sz \<le> bf_memoryBlockSize rb" using header fits by (simp_all add: sz_def n_def reported_size_def)
  then obtain p rb1 k rb' where place: "placeEntry (re_sizeofEntry env) rb sz = Some (p, rb1)"
      "writeEntry rb1 p sz (report p) = Some rb'"
      and r: "k \<le> length (s @ u)" "buffer_holds rb' (drop k s) (drop (k - length s) u @ [(p, sz, report p)])"
      "bf_memoryBlockSize rb' = bf_memoryBlockSize rb"
    using placed_entry [OF holds, of sz "re_sizeofEntry env" report] header
    by (auto simp: sz_def reported_size_def)
  note data1 = data [folded same_control_data(1) [OF rc1(3)]]
  have src: "entrySource rc1 complete = entrySource rc complete" "rc_shadowBuffer rc1 = rc_shadowBuffer rc"
    using rc1(3) by (auto simp: same_control_def entrySource_def fun_eq_iff)
  define rc' where "rc' = rc1\<lparr>rc_inclusionFlags := Some (replicate n REPORT_CONTROL_NONE),
    rc_reportBuffer := Some rb', rc_lastEntryId := ts\<rparr>"
  have ds: "usedDataSet rc1 = Some \<lparr>ds_elementCount = n, ds_fcdas = refs\<rparr>"
    using data1 by (simp add: report_data_def usedDataSet_def n_def)
  have "enqueueReport env rc isIntegrity isGI = Some rc'"
    using field vs entries_layout [OF wf] rc1(1) oct(1) place ds clearFlags_eq [OF data1] fits src(1)
    by (cases isIntegrity; cases isGI)
      (simp_all add: enqueueReport_def rb cdef Let_def ts_def [symmetric] report_def
        sz_def reported_size_def n_def rc'_def)
  moreover have "report_carries env (entrySource rc complete) n p xs (report p)"
  proof -
    have "map fst xs = filter (\<lambda>i. i \<in> fst ` set xs) [0..<n]"
      using reported_entries_filter [of flags complete] flags by (simp add: xs)
    moreover have "map fst xs = [0..<n]" if complete
      using that flags by (simp add: xs reported_entries_def)
    ultimately show ?thesis
      using oct cdef by (auto simp: report_carries_def report_def le_bytes_def values_start_def)
  qed
  moreover have "rcb_ok rc'" using rc1(2) by (simp add: rc'_def rcb_ok_def)
  moreover have "report_data rc' refs (replicate n REPORT_CONTROL_NONE) vals"
    using data1 by (simp add: rc'_def report_data_def n_def)
  ultimately show ?thesis
    using r same_control_data [OF rc1(3)] buf src(2) by (auto simp: rc'_def sz_def n_def)
qed


section \<open>What is sent\<close>

lemma reasonValue_ok:
  assumes "\<forall>b\<in>set bs. 0 \<le> fst b \<and> fst b < 6"
  shows "\<exists>r. reasonValue bs = Some r"
proof -
  have "bits_ok 6 (MmsValue_newBitString 6)" by (auto simp: bits_ok_def MmsValue_newBitString_def)
  with setBits_ok [of 6 "MmsValue_newBitString 6" bs] assms show ?thesis by (auto simp: reasonValue_def)
qed

lemma storedReason_ok: "\<exists>r. storedReason flags reason = Some r"
  unfolding storedReason_def by (rule reasonValue_ok) (auto split: if_splits)

lemma storedReasons_ok: "\<exists>rs. storedReasons flags xs = Some rs \<and> length rs = length xs"
proof (induction xs)
  case (Cons x xs)
  then show ?case using storedReason_ok [of flags "fst x"] by auto
qed simp

lemma reportHeader_length:
  "reportHeader rc optFlds [e] = Some h \<Longrightarrow> length h \<le> 8"
  by (auto simp: reportHeader_def bind_eq_Some_conv)

lemma carries_all: "report_carries env source n p xs report \<Longrightarrow> rp_flags report > 0 \<Longrightarrow> fst ` set xs = {0..<n}"
  unfolding report_carries_def by (metis set_map set_upt)

lemma carries_length:
  assumes "report_carries env source n p xs report"
  shows "length xs \<le> n"
proof -
  have "map fst xs = filter (\<lambda>i. i \<in> fst ` set xs) [0..<n]" using assms by (simp add: report_carries_def)
  from arg_cong [OF this, of length] show ?thesis
    using length_filter_le [of "\<lambda>i. i \<in> fst ` set xs" "[0..<n]"] by simp
qed

lemma stored_inclusion:
  assumes "report_carries env source n p xs report" and "0 < n"
  shows "\<exists>incl. (if rp_flags report > 0
      then MmsValue_setAllBitStringBits (MmsValue 0 (V_bitString n (replicate (bits_to_bytes n) 0)))
      else Some (MmsValue 0 (V_bitString n (rp_inclusion report)))) = Some (MmsValue 0 (V_bitString n incl)) \<and>
    length incl = bits_to_bytes n \<and> (\<forall>j<n. mms_bit incl j \<longleftrightarrow> j \<in> fst ` set xs)"
proof (cases "rp_flags report > 0")
  case True
  then have "fst ` set xs = {0..<n}" using carries_all [OF assms(1)] by simp
  then show ?thesis
    using True setAll_bits [OF assms(2), of "replicate (bits_to_bytes n) 0" 0] by auto
next
  case False
  then show ?thesis using assms(1) by (simp add: report_carries_def)
qed

text \<open>What a stored entry is when it is read, and what the report sends for it.\<close>

definition resolved :: "ReportEnv \<Rightarrow> ReportControl \<Rightarrow> (nat \<Rightarrow> ValueSource) \<Rightarrow> nat \<times> byte \<times> MmsValue \<Rightarrow> MmsValue \<Rightarrow> bool" where
  "resolved env rc source x w \<longleftrightarrow> sharedIntegers (snd (snd x)) (sourceValue env rc (source (fst x))) = Some w \<and>
     MmsValue_getSizeInMemory (re_sizeof env) w = MmsValue_getSizeInMemory (re_sizeof env) (snd (snd x)) \<and>
     MmsValue_getSizeInMemory (re_sizeof env) (snd (snd x)) \<noteq> None"

text \<open>The walk through the buffer finds each value behind the one before it.\<close>

lemma find_after: "\<forall>s\<in>set pre. st_address s \<le> p \<Longrightarrow> find (\<lambda>s. st_address s = p + 1) (pre @ x # xs) =
    (if st_address x = p + 1 then Some x else find (\<lambda>s. st_address s = p + 1) xs)"
  by (induction pre) auto

lemma storedValues_walk:
  assumes "\<And>i. i \<in> set is \<Longrightarrow>
      (if flags > 0 then Some True else MmsValue_getBitStringBit field (int i)) = Some (P i)"
    and "map fst xs = filter P is" and "list_all2 (resolved env rc source) xs ws"
    and "\<forall>s\<in>set pre. st_address s \<le> p"
  shows "storedValues env rc flags field is (pre @ laid_out (re_sizeof env) source xs p) p =
    Some (zip (map (\<lambda>x. fst (snd x)) xs) ws)"
  using assms
proof (induction "is" arbitrary: xs ws pre p)
  case (Cons i "is")
  have i: "(if flags > 0 then Some True else MmsValue_getBitStringBit field (int i)) = Some (P i)"
    using Cons.prems(1) by simp
  have rest: "(if flags > 0 then Some True else MmsValue_getBitStringBit field (int j)) = Some (P j)" if "j \<in> set is" for j
    using Cons.prems(1) that by simp
  show ?case
  proof (cases "P i")
    case False
    with Cons.IH [OF rest _ Cons.prems(3,4)] Cons.prems(2) i show ?thesis by simp
  next
    case True
    then obtain x xs' where x: "xs = x # xs'" "fst x = i" "map fst xs' = filter P is"
      using Cons.prems(2) by auto
    obtain w ws' where w: "ws = w # ws'" "resolved env rc source x w" "list_all2 (resolved env rc source) xs' ws'"
      using Cons.prems(3) by (auto simp: x(1) list_all2_Cons1)
    obtain n where n: "MmsValue_getSizeInMemory (re_sizeof env) (snd (snd x)) = Some n"
      using w(2) by (auto simp: resolved_def)
    let ?e = "\<lparr>st_address = p + 1, st_reason = fst (snd x), st_source = source (fst x), st_copy = snd (snd x)\<rparr>"
    have "\<forall>s\<in>set (pre @ [?e]). st_address s \<le> p + 1 + n" using Cons.prems(4) by auto
    from Cons.IH [OF rest x(3) w(3) this]
    have "storedValues env rc flags field is (pre @ ?e # laid_out (re_sizeof env) source xs' (p + 1 + n)) (p + 1 + n) =
        Some (zip (map (\<lambda>x. fst (snd x)) xs') ws')"
      by simp
    then show ?thesis
      using i True w(2) n find_after [OF Cons.prems(4), of ?e] by (simp add: x(1) w(1) resolved_def)
  qed
qed simp

lemma stored_values:
  assumes carries: "report_carries env source n p xs report" and "length incl = bits_to_bytes n"
    and "\<forall>j<n. mms_bit incl j \<longleftrightarrow> j \<in> fst ` set xs" and "list_all2 (resolved env rc source) xs ws"
  shows "storedValues env rc (rp_flags report) (MmsValue 0 (V_bitString n incl)) [0..<n] (rp_values report)
    (values_start env n p report) = Some (zip (map (\<lambda>x. fst (snd x)) xs) ws)"
proof -
  define P where "P = (\<lambda>i. i \<in> fst ` set xs)"
  have idx: "map fst xs = filter P [0..<n]" using carries by (simp add: report_carries_def P_def)
  have "(if rp_flags report > 0 then Some True
      else MmsValue_getBitStringBit (MmsValue 0 (V_bitString n incl)) (int i)) = Some (P i)" if "i \<in> set [0..<n]" for i
  proof -
    have "P i" if "rp_flags report > 0"
      using carries_all [OF carries that] \<open>i \<in> set [0..<n]\<close> by (simp add: P_def)
    moreover have "MmsValue_getBitStringBit (MmsValue 0 (V_bitString n incl)) (int i) = Some (P i)"
      using that assms(3) by (simp add: getBitStringBit_eq [OF assms(2)] P_def)
    ultimately show ?thesis by simp
  qed
  from storedValues_walk [OF this idx assms(4), of "[]"] carries show ?thesis by (simp add: report_carries_def)
qed

definition local_storage :: "ReportEnv \<Rightarrow> nat \<Rightarrow> nat" where
  "local_storage env n = re_sizeofListHead env + (2 * n + 9) * re_sizeofListNode env +
     (n + 2) * sz_MmsValue (re_sizeof env) + 2 * n"

lemma elementAllocations_sum:
  assumes "h + v \<le> n + 8" and "r \<le> n"
  shows "sum_list (elementAllocations env b e (h + v - 1) r) + re_sizeofListHead env + 2 * re_sizeofListNode env + n \<le>
    local_storage env n"
proof -
  have sum: "sum_list (concat (replicate r [a, Suc 0, c])) = r * (a + 1 + c)" for a c :: nat
    by (induction r) simp_all
  define c where "c = h + v - 1"
  have "c * re_sizeofListNode env \<le> (n + 7) * re_sizeofListNode env"
      "r * (sz_MmsValue (re_sizeof env) + 1 + re_sizeofListNode env) \<le>
       n * (sz_MmsValue (re_sizeof env) + 1 + re_sizeofListNode env)"
    using assms by (intro mult_le_mono; simp add: c_def)+
  then show ?thesis
    unfolding c_def [symmetric] by (simp add: elementAllocations_def sum sum_list_replicate local_storage_def algebra_simps)
qed

lemma storedElements_ok:
  assumes data: "report_data rc refs flags vals" and opt: "bits_ok 10 optFlds"
    and carries: "report_carries env source (length refs) p xs report"
    and res: "list_all2 (resolved env rc source) xs ws"
  shows "\<exists>header reasons incl vs. storedElements env rc optFlds (length refs) (values_start env (length refs) p report) report =
      Some (header, vs, reasons,
      header @ [Some (MmsValue 0 (V_bitString (length refs) incl))] @ map Some ws @ map Some reasons) \<and>
    length vs = length xs \<and>
    length header \<le> 8 \<and> length reasons \<le> length refs \<and>
    (\<forall>j<length refs. mms_bit incl j \<longleftrightarrow> j \<in> fst ` set xs)"
proof -
  define e where "e = MmsValue 0 (V_octetString 8 8 (rp_entryId report))"
  obtain header where h: "reportHeader rc optFlds [Some e] = Some header"
    using reportHeader_ok [OF opt] by blast
  have "0 < length refs" and ds: "usedDataSet rc = Some \<lparr>ds_elementCount = length refs, ds_fcdas = refs\<rparr>"
    using data by (simp_all add: report_data_def usedDataSet_def)
  then obtain incl where incl: "(if rp_flags report > 0
      then MmsValue_setAllBitStringBits (MmsValue 0 (V_bitString (length refs) (replicate (bits_to_bytes (length refs)) 0)))
      else Some (MmsValue 0 (V_bitString (length refs) (rp_inclusion report)))) =
      Some (MmsValue 0 (V_bitString (length refs) incl))"
      "length incl = bits_to_bytes (length refs)" "\<forall>j<length refs. mms_bit incl j \<longleftrightarrow> j \<in> fst ` set xs"
    using stored_inclusion [OF carries] by blast
  define vs where "vs = zip (map (\<lambda>x. fst (snd x)) xs) ws"
  have "map snd vs = ws" using list_all2_lengthD [OF res] by (simp add: vs_def)
  then have "map Some (map snd vs) = map Some ws" by simp
  then have "map (\<lambda>x. Some (snd x)) vs = map Some ws" by (simp only: map_map comp_def)
  moreover have "length xs \<le> length refs" "length vs = length xs"
    using carries_length [OF carries] list_all2_lengthD [OF res] by (simp_all add: vs_def)
  ultimately have vals: "length xs \<le> length refs" "length vs = length xs" "map (\<lambda>x. Some (snd x)) vs = map Some ws"
    by simp_all
  obtain b where b: "MmsValue_getBitStringBit optFlds 3 = Some b" using getBit_numeral(1) [OF opt] by blast
  obtain rs where rs: "storedReasons (rp_flags report) vs = Some rs" "length rs = length xs"
    using storedReasons_ok [of "rp_flags report" vs] vals(2) by auto
  have "storedElements env rc optFlds (length refs) (values_start env (length refs) p report) report =
      Some (header, vs, if b then rs else [],
      header @ [Some (MmsValue 0 (V_bitString (length refs) incl))] @ map Some ws @
      map Some (if b then rs else []))"
    unfolding storedElements_def e_def [symmetric] h incl(1) ds
    using stored_values [OF carries incl(2,3) res] b rs(1) vals(3) by (simp add: vs_def [symmetric])
  with reportHeader_length [OF h] incl(3) rs(2) vals(1,2) show ?thesis
    by (intro exI [of _ header] exI [of _ "if b then rs else []"] exI [of _ incl] exI [of _ vs]) auto
qed

text \<open>The next report of the buffer is sent, and the one behind it becomes the next one.\<close>

lemma sendNextReportEntry_sends:
  assumes data: "report_data rc refs flags vals" and ok: "rcb_ok rc" and buf: "rc_buffered rc"
    and rb: "rc_reportBuffer rc = Some rb" and holds: "buffer_holds rb s ((p, m, report) # u)"
    and carries: "report_carries env source (length refs) p xs report"
    and res: "list_all2 (resolved env rc source) xs ws"
    and room: "local_storage env (length refs) \<le> 65536"
  shows "\<exists>header incl reasons rc'. sendNextReportEntry env rc = Some ([E_report (rc_clientConnection rc)
      (header @ [Some (MmsValue 0 (V_bitString (length refs) incl))] @ map Some ws @ map Some reasons)], rc') \<and>
    (\<forall>j<length refs. mms_bit incl j \<longleftrightarrow> j \<in> fst ` set xs) \<and>
    rc_reportBuffer rc' = Some (rb\<lparr>bf_nextToTransmit := ptr u\<rparr>)"
proof -
  define n where "n = length refs"
  obtain rc1 where rc1: "setEntryId rc (rp_entryId report) = Some rc1" "rcb_ok rc1" "same_control rc rc1"
    using setEntryId_ok [OF ok buf, of "rp_entryId report"] carries by (auto simp: report_carries_def)
  obtain v v' where v: "ReportControl_getRCBValue rc1 (lit ''OptFlds'') = Some v"
      "setBits v [(5, False), (9, False)] = Some v'" "bits_ok 10 v'"
      "rcb_ok (rcb_update rc1 (lit ''OptFlds'') v')" "same_control rc1 (rcb_update rc1 (lit ''OptFlds'') v')"
    using optFlds_ok [OF rc1(2), of "[(5, False), (9, False)]"] by auto
  define rc2 where "rc2 = rcb_update rc1 (lit ''OptFlds'') v'"
  have same: "same_control rc rc2" using same_control_trans [OF rc1(3)] v(5) by (simp add: rc2_def)
  note data1 = data [folded same_control_data(1) [OF rc1(3)]] and data2 = data [folded same_control_data(1) [OF same]]
  obtain field where field: "rc_inclusionField rc1 = Some field" "MmsValue_getBitStringSize field = Some n"
    using inclusion_sizes [OF data1] by (auto simp: n_def)
  have kept: "rc_bufferedDataSetValues rc2 = rc_bufferedDataSetValues rc" "rc_shadowBuffer rc2 = rc_shadowBuffer rc"
    using same by (auto simp: same_control_def)
  have "sourceValue env rc2 = sourceValue env rc" unfolding sourceValue_def [abs_def] kept ..
  then have res2: "list_all2 (resolved env rc2 source) xs ws" using res by (simp add: resolved_def [abs_def])
  obtain header reasons incl vs where el: "storedElements env rc2 v' n (values_start env n p report) report =
      Some (header, vs, reasons, header @ [Some (MmsValue 0 (V_bitString n incl))] @ map Some ws @ map Some reasons)"
      "length header \<le> 8" "length reasons \<le> n" "\<forall>j<n. mms_bit incl j \<longleftrightarrow> j \<in> fst ` set xs" "length vs = length xs"
    using storedElements_ok [OF data2 v(3) carries res2] by (auto simp: n_def)
  obtain b e where bits: "MmsValue_getBitStringBit v' 6 = Some b" "MmsValue_getBitStringBit v' 7 = Some e"
    using getBit_numeral(1) [OF v(3)] by metis
  obtain rc3 where rc3: "increaseSqNum rc2 = Some rc3" "same_control rc2 rc3"
    using increaseSqNum_ok [of rc2] v(4) by (auto simp: rc2_def)
  have len: "length vs \<le> n" using carries_length [OF carries] el(5) by (simp add: n_def)
  have "bits_to_bytes n \<le> n" using bits_to_bytes_bound(2) [of n] by simp
  define l1 l2 where "l1 = [re_sizeofListHead env, re_sizeofListNode env, re_sizeofListNode env] @
      (if rp_flags report = 0 then [] else [bits_to_bytes n])"
    and "l2 = elementAllocations env b e (length header + length vs - 1) (length reasons)"
  have "sum_list l2 + re_sizeofListHead env + 2 * re_sizeofListNode env + n \<le> local_storage env n"
    unfolding l2_def using el(2,3) len by (intro elementAllocations_sum) simp_all
  with \<open>bits_to_bytes n \<le> n\<close> room have "int (sum_list l1 + sum_list l2) \<le> LOCAL_STORAGE_MEMORY_SIZE"
    by (simp add: l1_def LOCAL_STORAGE_MEMORY_SIZE_def n_def)
  then obtain ma ma' where ma: "allocateAll (MemoryAllocator_init 0 LOCAL_STORAGE_MEMORY_SIZE) l1 = Some ma"
      "allocateAll ma l2 = Some ma'"
    using allocateAll_room by blast
  have nx: "nextEntry rb = Some (Some report, rb\<lparr>bf_nextToTransmit := ptr u\<rparr>)" "bf_nextToTransmit rb = Some p"
    using nextEntry_holds(1) [OF holds] holds by (simp_all add: buffer_holds_def queued_def)
  have "sendNextReportEntry env rc = Some ([E_report (rc_clientConnection rc)
      (header @ [Some (MmsValue 0 (V_bitString n incl))] @ map Some ws @ map Some reasons)],
      rc3\<lparr>rc_reportBuffer := Some (rb\<lparr>bf_nextToTransmit := ptr u\<rparr>)\<rparr>)"
    unfolding sendNextReportEntry_def rb bind.bind_lunit nx prod.case option.case values_start_def [symmetric] rc1(1) v(1) field l1_def [symmetric] ma(1) v(2)
      Let_def rc2_def [symmetric] el(1) bits l2_def [symmetric] ma(2) rc3(1) same_control_data(5) [OF same] ..
  then show ?thesis
    unfolding n_def using el(4) [unfolded n_def]
    by (intro exI [of _ header] exI [of _ incl] exI [of _ reasons]) simp
qed



section \<open>From the data set to the client\<close>

text \<open>The value an entry was copied from, at a later time.\<close>

definition later_value :: "ReportEnv \<Rightarrow> nat list \<Rightarrow> MmsValue option list \<Rightarrow> bool \<Rightarrow> nat \<Rightarrow> MmsValue option" where
  "later_value env refs vals complete i = (if complete then Some (re_value env (refs ! i)) else vals ! i)"

text \<open>What a client gets for the stored value \<open>v\<close> when the value it was copied from has become \<open>l\<close>.\<close>

definition delivered_as :: "MmsValue \<Rightarrow> MmsValue option \<Rightarrow> MmsValue \<Rightarrow> bool" where
  "delivered_as v l w \<longleftrightarrow> sharedIntegers v l = Some w \<and> (integer_free v \<longrightarrow> w = v) \<and> (l = Some v \<longrightarrow> w = v)"

lemma entry_resolved:
  assumes "storable v" and "sourceValue env rc (source i) = Some l" and "updated_to v l"
  shows "\<exists>w. resolved env rc source (i, reason, v) w \<and> delivered_as v (Some l) w"
proof -
  have v: "mms_wf v" using assms(1) by (simp add: storable_def)
  obtain w where w: "sharedIntegers v (Some l) = Some w"
      "MmsValue_getSizeInMemory (re_sizeof env) w = MmsValue_getSizeInMemory (re_sizeof env) v"
    using shared_kept(1) [OF updated_keeps [OF assms(3) v] refl] by blast
  have "MmsValue_getSizeInMemory (re_sizeof env) v \<noteq> None" using storable_layout [OF assms(1)] by blast
  with w assms(2) shared_integer_free(1) [of v "Some l"] shared_unchanged(1) [OF v refl] show ?thesis
    by (intro exI [of _ w]) (auto simp: resolved_def delivered_as_def)
qed

lemma list_all2_choice: "\<forall>x\<in>set xs. \<exists>w. P x w \<Longrightarrow> \<exists>ws. list_all2 P xs ws"
  by (induction xs) auto

text \<open>C14: A buffered report reaches the client: whatever the buffer still keeps of transmitted reports, a
  report that fits into the buffer is stored, the flags of its entries are reset, and the next
  transmission sends to the client of the control block one value for each reported entry (the
  changed entries, or all entries in integrity and general interrogation reports), in their
  order, behind an inclusion field with the bits of these entries. Between storing and sending, the values of the data
  set and the buffered values may have had any updates. A value without integers then arrives as it was when the report
  was stored; integers, also those inside of structures and arrays, arrive as they are at the time of sending, since the stored
  copy shares them with the value it was copied from.\<close>

theorem buffered_report_delivered:
  assumes "report_data rc refs flags vals" and "rcb_ok rc" and "rc_buffered rc"
    and "rc_reportBuffer rc = Some rb" and "buffer_holds rb s []" and "0 < re_sizeofEntry env"
    and "xs = reported env refs flags vals (isIntegrity \<or> isGI)" and "\<forall>x\<in>set xs. storable (snd (snd x))"
    and "reported_size env (length refs) (isIntegrity \<or> isGI) xs \<le> bf_memoryBlockSize rb"
    and "local_storage env' (length refs) \<le> 65536"
    and "re_sizeof env' = re_sizeof env" and "re_sizeofEntry env' = re_sizeofEntry env" and "length vals' = length refs"
    and "\<forall>(i, reason, v)\<in>set xs. \<exists>l. later_value env' refs vals' (isIntegrity \<or> isGI) i = Some l \<and> updated_to v l"
  shows "\<exists>rc1 rc2 header incl reasons ws. enqueueReport env rc isIntegrity isGI = Some rc1 \<and>
    rc_inclusionFlags rc1 = Some (replicate (length refs) REPORT_CONTROL_NONE) \<and>
    sendNextReportEntry env' (rc1\<lparr>rc_bufferedDataSetValues := Some vals'\<rparr>) = Some ([E_report (rc_clientConnection rc)
      (header @ [Some (MmsValue 0 (V_bitString (length refs) incl))] @ map Some ws @ map Some reasons)], rc2) \<and>
    (\<forall>j<length refs. mms_bit incl j \<longleftrightarrow> j \<in> fst ` set xs) \<and>
    list_all2 (\<lambda>(i, reason, v) w. delivered_as v (later_value env' refs vals' (isIntegrity \<or> isGI) i) w) xs ws"
proof -
  let ?complete = "isIntegrity \<or> isGI" and ?n = "length refs"
  let ?source = "entrySource rc ?complete"
  obtain rc1 rb1 k p report where st: "enqueueReport env rc isIntegrity isGI = Some rc1"
      "rc_reportBuffer rc1 = Some rb1" "buffer_holds rb1 (drop k s) [(p, reported_size env ?n ?complete xs, report)]"
      "report_carries env ?source ?n p xs report" "rcb_ok rc1"
      "report_data rc1 refs (replicate ?n REPORT_CONTROL_NONE) vals" "rc_buffered rc1"
      "rc_clientConnection rc1 = rc_clientConnection rc" "rc_shadowBuffer rc1 = rc_shadowBuffer rc"
    using enqueueReport_stores [OF assms(1-6) refl assms(7-9)] by auto
  let ?rc = "rc1\<lparr>rc_bufferedDataSetValues := Some vals'\<rparr>"
  have ready: "report_data ?rc refs (replicate ?n REPORT_CONTROL_NONE) vals'" "rcb_ok ?rc" "rc_buffered ?rc"
      "rc_reportBuffer ?rc = Some rb1" "report_carries env' ?source ?n p xs report"
    using st(2,4-7) assms(11-13) by (auto simp: report_data_def rcb_ok_def report_carries_def values_start_def)
  have "\<exists>w. resolved env' ?rc ?source x w \<and>
      (case x of (i, reason, v) \<Rightarrow> delivered_as v (later_value env' refs vals' ?complete i) w)" if x: "x \<in> set xs" for x
  proof -
    obtain i reason v where d: "x = (i, reason, v)" by (cases x)
    obtain l where l: "later_value env' refs vals' ?complete i = Some l" "updated_to v l"
      using x assms(14) by (auto simp: d)
    have "i < ?n" using x assms(1) by (auto simp: d assms(7) reported_def reported_entries_def report_data_def split: if_splits)
    then have "sourceValue env' ?rc (?source i) = Some l"
      using l(1) assms(1,13) st(9)
      by (auto simp: later_value_def sourceValue_def entrySource_def report_data_def split: if_splits)
    from entry_resolved [where source = ?source and i = i, OF _ this l(2), of reason] x assms(8) show ?thesis by (auto simp: d l(1))
  qed
  then obtain ws where ws: "list_all2 (\<lambda>x w. resolved env' ?rc ?source x w \<and>
      (case x of (i, reason, v) \<Rightarrow> delivered_as v (later_value env' refs vals' ?complete i) w)) xs ws"
    using list_all2_choice [of xs "\<lambda>x w. resolved env' ?rc ?source x w \<and>
      (case x of (i, reason, v) \<Rightarrow> delivered_as v (later_value env' refs vals' ?complete i) w)"] by blast
  have res: "list_all2 (resolved env' ?rc ?source) xs ws"
    by (rule list_all2_mono [OF ws]) simp
  have del: "list_all2 (\<lambda>(i, reason, v) w. delivered_as v (later_value env' refs vals' ?complete i) w) xs ws"
    by (rule list_all2_mono [OF ws]) (simp split: prod.splits)
  have reset: "rc_inclusionFlags rc1 = Some (replicate ?n REPORT_CONTROL_NONE)"
    using st(6) by (simp add: report_data_def)
  have client: "rc_clientConnection ?rc = rc_clientConnection rc" by (simp add: st(8))
  obtain header incl reasons rc2 where "sendNextReportEntry env' ?rc = Some ([E_report (rc_clientConnection rc)
      (header @ [Some (MmsValue 0 (V_bitString ?n incl))] @ map Some ws @ map Some reasons)], rc2)"
      "\<forall>j<?n. mms_bit incl j \<longleftrightarrow> j \<in> fst ` set xs"
    using sendNextReportEntry_sends [OF ready(1-4) st(3) ready(5) res assms(10)] unfolding client by blast
  with st(1) reset del show ?thesis by blast
qed

text \<open>A control block as it is created, with a data set of three entries, of which a boolean and an integer have changed.\<close>

definition demo_integer :: "byte \<Rightarrow> MmsValue" where
  "demo_integer b = MmsValue 0 (V_integer \<lparr>av_size = 1, av_maxSize = 4, av_octets = [b, 0, 0, 0]\<rparr>)"

definition demo_report_control :: ReportControl where
  "demo_report_control = (ReportControl_create 0 0 True (lit ''LLN0''))\<lparr>
     rc_rcbValues := Some (MmsValue 0 (V_structure (map Some
        [MmsValue_newVisibleString (Some (lit ''r1'')), MmsValue_newBoolean False,
         MmsValue_newVisibleString (Some (lit ''d/LLN0$s'')), MmsValue_newUnsigned 32, MmsValue_newBitString 10,
         MmsValue_newUnsigned 32, MmsValue_newUnsigned 16, MmsValue_newBitString 6, MmsValue_newUnsigned 32,
         MmsValue_newBoolean False, MmsValue_newBoolean False, MmsValue_newOctetString 8 8,
         MmsValue_newBinaryTime False, MmsValue_newUnsigned 32, MmsValue_newOctetString 0 4]))),
     rc_enabled := True, rc_clientConnection := Some 3,
     rc_dataSet := Some \<lparr>ds_elementCount = 3, ds_fcdas = [5, 6, 7]\<rparr>, rc_valueReferences := Some [5, 6, 7],
     rc_inclusionFlags := Some [REPORT_CONTROL_NONE, REPORT_CONTROL_VALUE_CHANGED, REPORT_CONTROL_VALUE_CHANGED],
     rc_bufferedDataSetValues := Some [None, Some (MmsValue 0 (V_boolean True)), Some (demo_integer 1)],
     rc_inclusionField := Some (MmsValue_newBitString 3)\<rparr>"

lemma demo_control_data:
  "report_data demo_report_control [5, 6, 7]
     [REPORT_CONTROL_NONE, REPORT_CONTROL_VALUE_CHANGED, REPORT_CONTROL_VALUE_CHANGED]
     [None, Some (MmsValue 0 (V_boolean True)), Some (demo_integer 1)]"
  by (auto simp: report_data_def demo_report_control_def ReportControl_create_def MmsValue_newBitString_def less_Suc_eq numeral_eq_Suc)

lemma demo_control_ok: "rcb_ok demo_report_control"
proof -
  define vs where "vs = [MmsValue_newVisibleString (Some (lit ''r1'')), MmsValue_newBoolean False,
         MmsValue_newVisibleString (Some (lit ''d/LLN0$s'')), MmsValue_newUnsigned 32, MmsValue_newBitString 10,
         MmsValue_newUnsigned 32, MmsValue_newUnsigned 16, MmsValue_newBitString 6, MmsValue_newUnsigned 32,
         MmsValue_newBoolean False, MmsValue_newBoolean False, MmsValue_newOctetString 8 8,
         MmsValue_newBinaryTime False, MmsValue_newUnsigned 32, MmsValue_newOctetString 0 4]"
  have "rcb_kind True i (vs ! i)" for i
    by (auto simp: vs_def rcb_kind_def bits_ok_def binary_time_ok_def MmsValue_newBitString_def
        MmsValue_newUnsigned_def MmsValue_newOctetString_def MmsValue_newBinaryTime_def apv_inv_def
        BerInteger_createInt32_def Asn1PrimitiveValue_create_def)
  moreover have "rc_rcbValues demo_report_control = Some (MmsValue 0 (V_structure (map Some vs)))" "length vs = 15"
      "rc_buffered demo_report_control"
    by (simp_all add: demo_report_control_def ReportControl_create_def vs_def)
  ultimately show ?thesis by (simp add: rcb_ok_def)
qed

lemma demo_updated:
  "updated_to (MmsValue 0 (V_boolean True)) (MmsValue 0 (V_boolean False))" "updated_to (demo_integer 1) (demo_integer 2)"
proof -
  have "MmsValue_update (MmsValue 0 (V_boolean True)) (MmsValue 0 (V_boolean False)) =
      Some (True, MmsValue 0 (V_boolean False))"
    "MmsValue_update (demo_integer 1) (demo_integer 2) = Some (True, demo_integer 2)"
    by (simp_all add: demo_integer_def BerInteger_setFromBerInteger_def memcpy_def rd_n_def)
  then show "updated_to (MmsValue 0 (V_boolean True)) (MmsValue 0 (V_boolean False))" "updated_to (demo_integer 1) (demo_integer 2)"
    unfolding updated_to_def by blast+
qed

text \<open>The boolean is sent as it was stored, the integer with the value it has got since.\<close>

theorem buffered_report_delivered_witness:
  "\<exists>rc1 rc2 header incl reasons. enqueueReport demo_environment demo_report_control False False = Some rc1 \<and>
    rc_inclusionFlags rc1 = Some (replicate 3 REPORT_CONTROL_NONE) \<and>
    sendNextReportEntry demo_environment (rc1\<lparr>rc_bufferedDataSetValues :=
        Some [None, Some (MmsValue 0 (V_boolean False)), Some (demo_integer 2)]\<rparr>) = Some ([E_report (Some 3)
      (header @ [Some (MmsValue 0 (V_bitString 3 incl)), Some (MmsValue 0 (V_boolean True)), Some (demo_integer 2)] @
       map Some reasons)], rc2) \<and>
    \<not> mms_bit incl 0 \<and> mms_bit incl 1 \<and> mms_bit incl 2"
proof -
  let ?flags = "[REPORT_CONTROL_NONE, REPORT_CONTROL_VALUE_CHANGED, REPORT_CONTROL_VALUE_CHANGED]"
  let ?vals = "[None, Some (MmsValue 0 (V_boolean True)), Some (demo_integer 1)]"
  let ?vals' = "[None, Some (MmsValue 0 (V_boolean False)), Some (demo_integer 2)]"
  let ?xs = "[(1, 2, MmsValue 0 (V_boolean True)), (2, 2, demo_integer 1)] :: (nat \<times> byte \<times> MmsValue) list"
  have xs: "?xs = reported demo_environment [5, 6, 7] ?flags ?vals (False \<or> False)"
    by (simp add: reported_def reported_entries_def reported_value_def upt_rec numeral_eq_Suc)
  have env: "0 < re_sizeofEntry demo_environment" "local_storage demo_environment (length [5 :: nat, 6, 7]) \<le> 65536"
      "reported_size demo_environment (length [5 :: nat, 6, 7]) (False \<or> False) ?xs \<le>
        bf_memoryBlockSize (ReportBuffer_create :: Report ReportBuffer)"
    by (simp_all add: demo_environment_def local_storage_def reported_size_def entries_size_def bits_to_bytes_def
        ReportBuffer_create_def CONFIG_REPORTING_DEFAULT_REPORT_BUFFER_SIZE_def demo_integer_def)
  have rc: "rc_buffered demo_report_control" "rc_reportBuffer demo_report_control = Some ReportBuffer_create"
      "rc_clientConnection demo_report_control = Some 3"
    by (simp_all add: demo_report_control_def ReportControl_create_def)
  have wf: "\<forall>x\<in>set ?xs. storable (snd (snd x))" by (simp add: storable_def demo_integer_def apv_inv_def)
  have later: "\<forall>(i, reason, v)\<in>set ?xs. \<exists>l. later_value demo_environment [5, 6, 7] ?vals' (False \<or> False) i = Some l \<and> updated_to v l"
    using demo_updated by (simp add: later_value_def numeral_2_eq_2)
  have len: "length ?vals' = length [5 :: nat, 6, 7]" by simp
  obtain rc1 rc2 header incl reasons ws where r: "enqueueReport demo_environment demo_report_control False False = Some rc1"
      "rc_inclusionFlags rc1 = Some (replicate 3 REPORT_CONTROL_NONE)"
      "sendNextReportEntry demo_environment (rc1\<lparr>rc_bufferedDataSetValues := Some ?vals'\<rparr>) = Some ([E_report (Some 3)
        (header @ [Some (MmsValue 0 (V_bitString 3 incl))] @ map Some ws @ map Some reasons)], rc2)"
      "\<And>j. j < 3 \<Longrightarrow> mms_bit incl j \<longleftrightarrow> j = 1 \<or> j = 2"
      "list_all2 (\<lambda>(i, reason, v) w. delivered_as v (later_value demo_environment [5, 6, 7] ?vals' (False \<or> False) i) w) ?xs ws"
    using buffered_report_delivered [OF demo_control_data demo_control_ok rc(1,2) create_holds env(1) xs wf env(3,2) refl refl
        len later] rc(3) by (auto simp: numeral_3_eq_3)
  have "ws = [MmsValue 0 (V_boolean True), demo_integer 2]"
    using r(5) by (auto simp: list_all2_Cons1 delivered_as_def later_value_def demo_integer_def numeral_2_eq_2)
  with r show ?thesis
    by (intro exI [of _ rc1] exI [of _ rc2] exI [of _ header] exI [of _ incl] exI [of _ reasons]) simp
qed

end
