(* ===== verification/Information_Report.thy ===== *)
theory Information_Report
  imports Mms_Connection
begin

text \<open>
  Information reports (\<open>src/src/mms/iso_mms/server/mms_information_report.c\<close>): the messages that carry
  reports and control events to a client. The result of each function is the message handed to
  \<open>IsoConnection_sendMessage\<close>.

  A message is written into a buffer of the negotiated PDU size; nothing checks that it fits.
\<close>

section \<open>The messages\<close>

definition MmsServerConnection_sendInformationReportSingleVariableVMDSpecific ::
  "sMmsServerConnection \<Rightarrow> cstring \<Rightarrow> MmsValue \<Rightarrow> ByteBuffer option" where
  "MmsServerConnection_sendInformationReportSingleVariableVMDSpecific self itemId v = do {
     let itemIdSize = length itemId;
     let varSpecSize = 1 + BerEncoder_determineLengthSize itemIdSize + itemIdSize;
     let sequenceSize = 1 + BerEncoder_determineLengthSize varSpecSize + varSpecSize;
     let listOfVariableSize = 1 + BerEncoder_determineLengthSize sequenceSize + sequenceSize;
     accessResultSize \<leftarrow> accessResult_size v;
     let listOfAccessResultSize = 1 + BerEncoder_determineLengthSize accessResultSize + accessResultSize;
     let variableSpecSize = 1 + BerEncoder_determineLengthSize listOfVariableSize + listOfVariableSize;
     let informationReportContentSize = variableSpecSize + listOfAccessResultSize;
     let informationReportSize = 1 + BerEncoder_determineLengthSize informationReportContentSize +
       informationReportContentSize;
     let reportBuffer = ByteBuffer_create (sc_maxPduSize self);
     w \<leftarrow> BerEncoder_encodeTL 0xa3 informationReportSize (bb_buffer reportBuffer, 0);
     w \<leftarrow> BerEncoder_encodeTL 0xa0 informationReportContentSize w;
     w \<leftarrow> BerEncoder_encodeTL 0xa0 listOfVariableSize w;
     w \<leftarrow> BerEncoder_encodeTL 0x30 sequenceSize w;
     w \<leftarrow> BerEncoder_encodeTL 0xa0 varSpecSize w;
     w \<leftarrow> BerEncoder_encodeStringWithTag 0x80 (Some itemId) w;
     w \<leftarrow> BerEncoder_encodeTL 0xa0 accessResultSize w;
     (buffer, bufPos) \<leftarrow> mmsServer_encodeAccessResult v w;
     Some (reportBuffer\<lparr>bb_buffer := buffer, bb_size := int bufPos\<rparr>)
   }"

record MmsVariableAccessSpecification =
  va_domainId :: "cstring option"
  va_itemId :: cstring
  va_arrayIndex :: int
  va_componentName :: "cstring option"

text \<open>The size of a variable of the list: as it is counted in front, and the size of its names.\<close>

definition varSpecNames :: "MmsVariableAccessSpecification \<Rightarrow> nat" where
  "varSpecNames spec = BerEncoder_determineEncodedStringSize (Some (va_itemId spec)) +
     (case va_domainId spec of None \<Rightarrow> 0 | Some domainId \<Rightarrow> BerEncoder_determineEncodedStringSize (Some domainId))"

definition varSpecSize :: "MmsVariableAccessSpecification \<Rightarrow> nat" where
  "varSpecSize spec =
     (case va_domainId spec of
        None \<Rightarrow> varSpecNames spec
      | Some _ \<Rightarrow> varSpecNames spec + BerEncoder_determineLengthSize (varSpecNames spec) + 1)"

definition encodeVarSpec :: "MmsVariableAccessSpecification \<Rightarrow> wbuf \<Rightarrow> wbuf option" where
  "encodeVarSpec spec w =
     (case va_domainId spec of
        Some domainId \<Rightarrow> do {
          w \<leftarrow> BerEncoder_encodeTL 0xa0
            (varSpecNames spec + BerEncoder_determineLengthSize (varSpecNames spec) + 1) w;
          w \<leftarrow> BerEncoder_encodeTL 0xa1 (varSpecNames spec) w;
          w \<leftarrow> BerEncoder_encodeStringWithTag 0x1a (Some domainId) w;
          BerEncoder_encodeStringWithTag 0x1a (Some (va_itemId spec)) w
        }
      | None \<Rightarrow> do {
          w \<leftarrow> BerEncoder_encodeTL 0xa0 (varSpecNames spec) w;
          BerEncoder_encodeStringWithTag 0x80 (Some (va_itemId spec)) w
        })"

primrec encodeVarSpecs :: "MmsVariableAccessSpecification list \<Rightarrow> wbuf \<Rightarrow> wbuf option" where
  "encodeVarSpecs [] w = Some w"
| "encodeVarSpecs (spec # specs) w = do {
     w \<leftarrow> encodeVarSpec spec w;
     encodeVarSpecs specs w
   }"

definition MmsServerConnection_sendInformationReportListOfVariables ::
  "sMmsServerConnection \<Rightarrow> MmsVariableAccessSpecification list \<Rightarrow> MmsValue option list \<Rightarrow> ByteBuffer option" where
  "MmsServerConnection_sendInformationReportListOfVariables self variableAccessDeclarations values = do {
     let listOfVarSpecSize = (\<Sum>spec\<leftarrow>variableAccessDeclarations. varSpecSize spec);
     let sequenceSize = 1 + BerEncoder_determineLengthSize listOfVarSpecSize + listOfVarSpecSize;
     let listOfVariableSize = 1 + BerEncoder_determineLengthSize sequenceSize + sequenceSize;
     accessResultSize \<leftarrow> elements_size values;
     let listOfAccessResultSize = 1 + BerEncoder_determineLengthSize accessResultSize + accessResultSize;
     let variableSpecSize = 1 + BerEncoder_determineLengthSize listOfVariableSize + listOfVariableSize;
     let informationReportContentSize = variableSpecSize + listOfAccessResultSize;
     let informationReportSize = 1 + BerEncoder_determineLengthSize informationReportContentSize +
       informationReportContentSize;
     let reportBuffer = ByteBuffer_create (sc_maxPduSize self);
     w \<leftarrow> BerEncoder_encodeTL 0xa3 informationReportSize (bb_buffer reportBuffer, 0);
     w \<leftarrow> BerEncoder_encodeTL 0xa0 informationReportContentSize w;
     w \<leftarrow> BerEncoder_encodeTL 0xa0 listOfVariableSize w;
     w \<leftarrow> BerEncoder_encodeTL 0x30 sequenceSize w;
     w \<leftarrow> encodeVarSpecs variableAccessDeclarations w;
     w \<leftarrow> BerEncoder_encodeTL 0xa0 accessResultSize w;
     (buffer, bufPos) \<leftarrow> encodeElements values w;
     Some (reportBuffer\<lparr>bb_buffer := buffer, bb_size := int bufPos\<rparr>)
   }"

definition MmsServerConnection_sendInformationReportVMDSpecific ::
  "sMmsServerConnection \<Rightarrow> cstring \<Rightarrow> MmsValue option list \<Rightarrow> ByteBuffer option" where
  "MmsServerConnection_sendInformationReportVMDSpecific self itemId values = do {
     let objectNameSize = BerEncoder_determineEncodedStringSize (Some itemId);
     let variableAccessSpecSize = objectNameSize + BerEncoder_determineLengthSize objectNameSize + 1;
     accessResultSize \<leftarrow> elements_size values;
     let listOfAccessResultSize = accessResultSize + BerEncoder_determineLengthSize accessResultSize + 1;
     let informationReportContentSize = variableAccessSpecSize + listOfAccessResultSize;
     let informationReportSize = 1 + informationReportContentSize +
       BerEncoder_determineLengthSize informationReportContentSize;
     let reportBuffer = ByteBuffer_create (sc_maxPduSize self);
     w \<leftarrow> BerEncoder_encodeTL 0xa3 informationReportSize (bb_buffer reportBuffer, 0);
     w \<leftarrow> BerEncoder_encodeTL 0xa0 informationReportContentSize w;
     w \<leftarrow> BerEncoder_encodeTL 0xa1 objectNameSize w;
     w \<leftarrow> BerEncoder_encodeStringWithTag 0x80 (Some itemId) w;
     w \<leftarrow> BerEncoder_encodeTL 0xa0 accessResultSize w;
     (buffer, bufPos) \<leftarrow> encodeElements values w;
     Some (reportBuffer\<lparr>bb_buffer := buffer, bb_size := int bufPos\<rparr>)
   }"


section \<open>What is sent\<close>

definition reportable :: "MmsValue option list \<Rightarrow> bool" where
  "reportable values \<longleftrightarrow> all_components mms_wf values \<and> all_components size_counted values"

text \<open>The message for a list of values under the name \<open>itemId\<close>.\<close>

definition report_pdu :: "cstring \<Rightarrow> MmsValue option list \<Rightarrow> byte list" where
  "report_pdu itemId values = tlv_bytes (0xa3, tlv_bytes (0xa0,
     tlv_bytes (0xa1, tlv_bytes (0x80, itemId)) @ tlv_bytes (0xa0, elements_bytes values)))"

lemma report_eq:
  assumes "reportable values"
  shows "MmsServerConnection_sendInformationReportVMDSpecific self itemId values =
    put_bytes (report_pdu itemId values) (ByteBuffer_create (sc_maxPduSize self))"
proof -
  define content where "content = tlv_bytes (0xa1, tlv_bytes (0x80, itemId)) @ tlv_bytes (0xa0, elements_bytes values)"
  have size: "elements_size values = Some (length (elements_bytes values))"
    and enc: "encodeElements values = emits (elements_bytes values)"
    using assms accessResult_size_eq(2) encodeAccessResult_emits(2) by (auto simp: reportable_def)
  have c: "length content = length (tlv_bytes (0x80, itemId)) +
      BerEncoder_determineLengthSize (length (tlv_bytes (0x80, itemId))) + 1 +
      (length (elements_bytes values) + BerEncoder_determineLengthSize (length (elements_bytes values)) + 1)"
    by (simp add: content_def length_field)
  have t: "length (tlv_bytes (0xa0, content)) = 1 + length content + BerEncoder_determineLengthSize (length content)"
    by (simp add: length_field)
  have eq: "report_pdu itemId values = tl_bytes 0xa3 (length (tlv_bytes (0xa0, content))) @ tlv_bytes (0xa0, content)"
    by (simp add: report_pdu_def content_def tlv_bytes_def)
  show ?thesis
    unfolding MmsServerConnection_sendInformationReportVMDSpecific_def Let_def size bind.bind_lunit
      length_string_field [of itemId "0x80"] c [symmetric] t [symmetric] eq
    by (subst emits_put [symmetric]) (simp_all add: enc_emits enc string_field content_def tlv_bytes_def tl_bytes_def)
qed

text \<open>C31: An information report carries its values exactly when it fits into the negotiated PDU size: then the message is
  the report with all announced lengths right; else the octets behind the buffer are overwritten.\<close>

theorem information_report_exact:
  assumes "reportable values" and "pdu = report_pdu itemId values"
  shows "MmsServerConnection_sendInformationReportVMDSpecific self itemId values =
    (if int (length pdu) \<le> sc_maxPduSize self
     then Some \<lparr>bb_buffer = pdu @ replicate (nat (sc_maxPduSize self) - length pdu) 0,
       bb_maxSize = sc_maxPduSize self, bb_size = int (length pdu)\<rparr>
     else None)"
proof -
  have "0 < length pdu" by (simp add: assms(2) report_pdu_def tlv_bytes_def tl_bytes_def)
  then have "length pdu \<le> nat (sc_maxPduSize self) \<longleftrightarrow> int (length pdu) \<le> sc_maxPduSize self" by linarith
  then show ?thesis
    unfolding report_eq [OF assms(1)] put_bytes_def assms(2) [symmetric] by (simp add: ByteBuffer_create_def)
qed

theorem information_report_exact_witness:
  "MmsServerConnection_sendInformationReportVMDSpecific (MmsServerConnection_init\<lparr>sc_maxPduSize := 20\<rparr>) [0x52]
      [Some (MmsValue 0 (V_boolean True))] =
     Some \<lparr>bb_buffer = [0xa3, 12, 0xa0, 10, 0xa1, 3, 0x80, 1, 0x52, 0xa0, 3, 0x83, 1, 0xff] @ replicate 6 0,
       bb_maxSize = 20, bb_size = 14\<rparr> \<and>
   MmsServerConnection_sendInformationReportVMDSpecific (MmsServerConnection_init\<lparr>sc_maxPduSize := 13\<rparr>) [0x52]
      [Some (MmsValue 0 (V_boolean True))] = None"
proof -
  have pdu: "[0xa3, 12, 0xa0, 10, 0xa1, 3, 0x80, 1, 0x52, 0xa0, 3, 0x83, 1, 0xff] =
      report_pdu [0x52] [Some (MmsValue 0 (V_boolean True))]"
    by (simp add: report_pdu_def tlv_bytes_def tl_bytes_small)
  have "reportable [Some (MmsValue 0 (V_boolean True))]" by (simp add: reportable_def)
  from information_report_exact [OF this pdu] show ?thesis by simp
qed

text \<open>The octets of one entry of the list of variables.\<close>

definition varspec_content :: "MmsVariableAccessSpecification \<Rightarrow> byte list" where
  "varspec_content spec =
     (case va_domainId spec of
        None \<Rightarrow> tlv_bytes (0x80, va_itemId spec)
      | Some domainId \<Rightarrow> tlv_bytes (0xa1, tlv_bytes (0x1a, domainId) @ tlv_bytes (0x1a, va_itemId spec)))"

definition varspecs_bytes :: "MmsVariableAccessSpecification list \<Rightarrow> byte list" where
  "varspecs_bytes specs = concat (map (\<lambda>spec. tlv_bytes (0xa0, varspec_content spec)) specs)"

lemma varSpecSize_eq: "varSpecSize spec = length (varspec_content spec)"
  by (simp add: varSpecSize_def varSpecNames_def varspec_content_def length_string_field [of _ "0x1a"] length_field
      add.commute add.left_commute split: option.split)

lemma encodeVarSpec_emits: "encodeVarSpec spec = emits (tlv_bytes (0xa0, varspec_content spec))"
proof (cases "va_domainId spec")
  case None
  then show ?thesis
    by (intro ext) (simp add: encodeVarSpec_def varSpecNames_def enc_emits string_field varspec_content_def
        length_string_field [of _ "0x80"] tlv_bytes_def tl_bytes_def)
next
  case (Some d)
  define names where "names = tlv_bytes (0x1a, d) @ tlv_bytes (0x1a, va_itemId spec)"
  have n: "varSpecNames spec = length names"
    using Some by (simp add: varSpecNames_def names_def length_string_field [of _ "0x1a"])
  have c: "length (varspec_content spec) = length names + BerEncoder_determineLengthSize (length names) + 1"
    using Some by (simp add: varspec_content_def names_def [symmetric] length_field)
  have "varspec_content spec = tl_bytes 0xa1 (length names) @ names"
    using Some by (simp add: varspec_content_def names_def [symmetric] tlv_bytes_def [of "(0xa1, names)"])
  moreover have "encodeVarSpec spec = emits (tl_bytes 0xa0 (length (varspec_content spec)) @ tl_bytes 0xa1 (length names) @ names)"
    using Some unfolding names_def
    by (intro ext) (simp add: encodeVarSpec_def n c enc_emits string_field tl_bytes_def names_def)
  ultimately show ?thesis by (simp add: tlv_bytes_def)
qed

lemma encodeVarSpecs_emits: "encodeVarSpecs specs = emits (varspecs_bytes specs)"
  by (induction specs) (auto simp: varspecs_bytes_def encodeVarSpec_emits enc_emits intro!: ext)

lemma length_varspecs:
  "length (varspecs_bytes specs) =
     (\<Sum>spec\<leftarrow>specs. varSpecSize spec) + (\<Sum>spec\<leftarrow>specs. 1 + BerEncoder_determineLengthSize (varSpecSize spec))"
  by (induction specs) (simp_all add: varspecs_bytes_def varSpecSize_eq length_field)

lemma determineLengthSize_add:
  "BerEncoder_determineLengthSize (m + n) \<le> BerEncoder_determineLengthSize m + BerEncoder_determineLengthSize n"
  by (simp add: BerEncoder_determineLengthSize_def)

lemma determineLengthSize_sum:
  "specs \<noteq> [] \<Longrightarrow> BerEncoder_determineLengthSize (\<Sum>spec\<leftarrow>specs. f spec) \<le>
     (\<Sum>spec\<leftarrow>specs. BerEncoder_determineLengthSize (f spec))"
proof (induction specs)
  case (Cons spec specs)
  show ?case
  proof (cases "specs = []")
    case False
    with Cons.IH determineLengthSize_add [of "f spec" "\<Sum>spec\<leftarrow>specs. f spec"] show ?thesis by simp
  qed simp
qed simp

text \<open>The length announced for the list of variables counts only one of the tags and lengths in it.\<close>

definition announced_variables :: "MmsVariableAccessSpecification list \<Rightarrow> nat" where
  "announced_variables specs = (let n = (\<Sum>spec\<leftarrow>specs. varSpecSize spec) in 1 + BerEncoder_determineLengthSize n + n)"

lemma announced_variables_iff: "announced_variables specs = length (varspecs_bytes specs) \<longleftrightarrow> length specs = 1"
proof -
  consider "specs = []" | spec where "specs = [spec]" | a b rest where "specs = a # b # rest"
    by (metis list.exhaust)
  then show ?thesis
  proof cases
    case 1
    then show ?thesis by (simp add: announced_variables_def varspecs_bytes_def)
  next
    case 2
    then show ?thesis by (simp add: announced_variables_def Let_def length_varspecs)
  next
    case 3
    have "(\<Sum>spec\<leftarrow>specs. 1 + BerEncoder_determineLengthSize (varSpecSize spec)) =
        length specs + (\<Sum>spec\<leftarrow>specs. BerEncoder_determineLengthSize (varSpecSize spec))"
      by (induction specs) simp_all
    with 3 determineLengthSize_sum [of specs varSpecSize] show ?thesis
      unfolding announced_variables_def Let_def length_varspecs by simp
  qed
qed

definition list_report :: "MmsVariableAccessSpecification list \<Rightarrow> MmsValue option list \<Rightarrow> byte list" where
  "list_report specs values =
     (let n = announced_variables specs;
          variables = 1 + BerEncoder_determineLengthSize n + n;
          results = tlv_bytes (0xa0, elements_bytes values);
          content = 1 + BerEncoder_determineLengthSize variables + variables + length results
      in tl_bytes 0xa3 (1 + BerEncoder_determineLengthSize content + content) @ tl_bytes 0xa0 content @
         tl_bytes 0xa0 variables @ tl_bytes 0x30 n @ varspecs_bytes specs @ results)"

lemma list_report_eq:
  assumes "reportable values"
  shows "MmsServerConnection_sendInformationReportListOfVariables self specs values =
    put_bytes (list_report specs values) (ByteBuffer_create (sc_maxPduSize self))"
proof -
  define results where "results = tlv_bytes (0xa0, elements_bytes values)"
  have size: "elements_size values = Some (length (elements_bytes values))"
    and enc: "encodeElements values = emits (elements_bytes values)"
    using assms accessResult_size_eq(2) encodeAccessResult_emits(2) by (auto simp: reportable_def)
  have r: "1 + BerEncoder_determineLengthSize (length (elements_bytes values)) + length (elements_bytes values) =
      length results"
    by (simp add: results_def length_field)
  have "results = tl_bytes 0xa0 (length (elements_bytes values)) @ elements_bytes values"
    by (simp add: results_def tlv_bytes_def)
  then have eq: "list_report specs values =
     (let n = announced_variables specs;
          variables = 1 + BerEncoder_determineLengthSize n + n;
          content = 1 + BerEncoder_determineLengthSize variables + variables + length results
      in tl_bytes 0xa3 (1 + BerEncoder_determineLengthSize content + content) @ tl_bytes 0xa0 content @
         tl_bytes 0xa0 variables @ tl_bytes 0x30 n @ varspecs_bytes specs @
         tl_bytes 0xa0 (length (elements_bytes values)) @ elements_bytes values)"
    by (simp add: list_report_def results_def [symmetric])
  show ?thesis
    unfolding MmsServerConnection_sendInformationReportListOfVariables_def Let_def size bind.bind_lunit r
      announced_variables_def [unfolded Let_def, symmetric] eq
    by (subst emits_put [symmetric]) (simp_all add: enc_emits enc encodeVarSpecs_emits tl_bytes_def)
qed

text \<open>A report with a list of variables announces for the list a length that is right exactly when the list has one
  variable: with two or more variables, or none, the lengths of the message do not match its octets.\<close>

theorem report_list_lengths:
  assumes "reportable values" and "int (length (list_report specs values)) \<le> sc_maxPduSize self"
  shows "\<exists>header n. MmsServerConnection_sendInformationReportListOfVariables self specs values =
      put_bytes (header @ tl_bytes 0x30 n @ varspecs_bytes specs @ tlv_bytes (0xa0, elements_bytes values))
        (ByteBuffer_create (sc_maxPduSize self)) \<and>
      MmsServerConnection_sendInformationReportListOfVariables self specs values \<noteq> None \<and>
      (n = length (varspecs_bytes specs) \<longleftrightarrow> length specs = 1)"
proof -
  define n where "n = announced_variables specs"
  obtain header where h: "list_report specs values =
      header @ tl_bytes 0x30 n @ varspecs_bytes specs @ tlv_bytes (0xa0, elements_bytes values)"
    unfolding list_report_def Let_def n_def [symmetric] by (metis append.assoc)
  have "put_bytes (list_report specs values) (ByteBuffer_create (sc_maxPduSize self)) \<noteq> None"
    using assms(2) by (simp add: put_bytes_def ByteBuffer_create_def)
  then show ?thesis
    using h announced_variables_iff [of specs] list_report_eq [OF assms(1), of self specs] n_def by metis
qed

definition named_variable :: "cstring option \<Rightarrow> cstring \<Rightarrow> MmsVariableAccessSpecification" where
  "named_variable domainId itemId =
     \<lparr>va_domainId = domainId, va_itemId = itemId, va_arrayIndex = -1, va_componentName = None\<rparr>"

theorem report_list_lengths_witness:
  "\<exists>header n. MmsServerConnection_sendInformationReportListOfVariables (MmsServerConnection_init\<lparr>sc_maxPduSize := 100\<rparr>)
      [named_variable None [0x61], named_variable (Some [0x64]) [0x62]]
      [Some (MmsValue 0 (V_boolean True))] =
      put_bytes (header @ tl_bytes 0x30 n @ [0xa0, 3, 0x80, 1, 0x61, 0xa0, 8, 0xa1, 6, 0x1a, 1, 0x64, 0x1a, 1, 0x62] @
        [0xa0, 3, 0x83, 1, 0xff]) (ByteBuffer_create 100) \<and>
      MmsServerConnection_sendInformationReportListOfVariables (MmsServerConnection_init\<lparr>sc_maxPduSize := 100\<rparr>)
      [named_variable None [0x61], named_variable (Some [0x64]) [0x62]]
      [Some (MmsValue 0 (V_boolean True))] \<noteq> None \<and> n \<noteq> 15"
proof -
  let ?specs = "[named_variable None [0x61], named_variable (Some [0x64]) [0x62]]"
  let ?vals = "[Some (MmsValue 0 (V_boolean True))]"
  have specs: "varspecs_bytes ?specs = [0xa0, 3, 0x80, 1, 0x61, 0xa0, 8, 0xa1, 6, 0x1a, 1, 0x64, 0x1a, 1, 0x62]"
    by (simp add: named_variable_def varspecs_bytes_def varspec_content_def tlv_bytes_def tl_bytes_small)
  have results: "tlv_bytes (0xa0, elements_bytes ?vals) = [0xa0, 3, 0x83, 1, 0xff]"
    by (simp add: tlv_bytes_def tl_bytes_small)
  have "announced_variables ?specs = 13"
    by (simp add: named_variable_def announced_variables_def varSpecSize_eq varspec_content_def tlv_bytes_def tl_bytes_small
        BerEncoder_determineLengthSize_def)
  then have len: "int (length (list_report ?specs ?vals)) \<le>
      sc_maxPduSize (MmsServerConnection_init\<lparr>sc_maxPduSize := 100\<rparr>)"
    unfolding list_report_def specs results
    by (simp add: Let_def BerEncoder_determineLengthSize_def tl_bytes_small)
  have "reportable ?vals" by (simp add: reportable_def)
  from report_list_lengths [OF this len] show ?thesis unfolding specs results by (simp add: numeral_eq_Suc)
qed

end
