(* ===== verification/Spec2Isabelle.thy ===== *)
theory Spec2Isabelle
  imports Server_Stack Mms_Type_Spec Goose Pointer_Map Control_Safety Report_Delivery Information_Report
begin

text \<open>
  A verification library for libIEC61850 (the C sources under \<open>src/src\<close>), a protocol stack for
  substation automation: MMS over the ISO layers on TCP, and GOOSE directly on Ethernet.

  \<^bold>\<open>The program and its parts.\<close> A byte of the network passes, bottom up: the socket
  (\<open>hal/socket\<close>), the byte stream (\<open>common/byte_stream.c\<close>), COTP with RFC 1006 framing
  (\<open>mms/iso_cotp/cotp.c\<close>), the session layer (\<open>mms/iso_session\<close>), the presentation layer
  (\<open>mms/iso_presentation\<close>), association control (\<open>mms/iso_acse\<close>), and the server connection that drives
  them (\<open>mms/iso_server/iso_connection.c\<close>) and hands MMS messages to its handler, the MMS server
  (\<open>mms/iso_mms/server\<close>). The layers write with the BER encoder and read with the BER decoder (\<open>mms/asn1\<close>).
  The data of the upper layers are MMS values with type descriptions (\<open>mms/iso_mms/common\<close>), which a
  server keeps by domain and name, and writes as access results into responses, reports and GOOSE
  messages (\<open>goose\<close>). On top of MMS the IEC 61850 server (\<open>iedserver/mms_mapping\<close>) has control objects and
  report control blocks.

  \<^bold>\<open>How C is modelled\<close> (theory \<open>C_Prelude\<close>). A C array, or the memory from a pointer to the end of its
  allocation, is a list of bytes; bytes and unsigned integers are machine words, and \<open>int\<close> is \<open>int\<close>
  with a range check (\<open>add_int\<close>). A function that can have undefined behaviour (access outside an
  allocation, \<open>NULL\<close>, signed overflow, an uninitialised variable) returns an \<open>option\<close>, \<open>None\<close> being the
  undefined result; so a theorem that a result is \<open>Some\<close> is a memory safety theorem. A struct is a
  record with the field names of the source, and an operation on a pointer returns the changed object.
  Operations keep the names of the source; a loop of the source is a function named after it with the
  suffix \<open>_loop\<close>, or the step function of \<open>tlv_loop\<close>.

  \<^bold>\<open>The theories.\<close>
  \<^item> \<open>Asn1_Primitive\<close>, \<open>Ber_Encoder\<close>, \<open>Ber_Decoder\<close>, \<open>Ber_Integer\<close>, \<open>Ber_Oid\<close>: \<open>mms/asn1\<close>. Encoders are shown to
    emit a byte sequence (locale \<open>emitter\<close>), decoders to read a sequence found at a position
    (\<open>found_at\<close>); the round trips of lengths, integers, floats, bit strings and object identifiers
    follow.
  \<^item> \<open>Common_Buffers\<close>, \<open>Byte_Stream\<close>: buffers, buffer chains, allocators, and stream reads over a scripted
    socket, with what is read for every way the data may arrive.
  \<^item> \<open>Linked_List\<close>, \<open>Pointer_Map\<close>: \<open>common/linked_list.c\<close>, \<open>map.c\<close>, \<open>string_map.c\<close> on an explicit heap. Any series
    of operations refines the same series on a sequence (locale \<open>simulation\<close>).
  \<^item> \<open>Iso_Parameters\<close>, \<open>Cotp\<close>: all of \<open>cotp.c\<close>; segmentation and reassembly are inverse.
  \<^item> \<open>Iso_Session\<close>, \<open>Tlv_Loop\<close>, \<open>Iso_Presentation\<close>, \<open>Acse\<close>: the parsers and creators of the three layers.
    \<open>tlv_loop\<close> is the common parser loop; its locales say when it returns (\<open>tlv_progress\<close>), what it
    computes (\<open>tlv_fold\<close>) and what it skips (\<open>tlv_skip\<close>, a special case).
  \<^item> \<open>Iso_Connection\<close>: the connection thread, one round of its loop being a step. Shown are delivery
    of a message through all layers, and how associations are refused or admitted. What a message handler
    promises is the locale \<open>message_listener\<close>: a property of its parameter that every message keeps; it then holds
    in any interleaving of receiving, sending and closing. The script of the socket is the whole life of a
    connection, so nothing is shown about a peer that stays connected and silent.
  \<^item> \<open>Mms_Types\<close>, \<open>Mms_Scalars\<close>, \<open>Mms_Value\<close>, \<open>Mms_Type_Spec\<close>: \<open>mms_value.c\<close> and \<open>mms_type_spec.c\<close>. Values are
    trees (\<open>mms_wf\<close> is their representation invariant, \<open>mms_content\<close> what they mean). Comparison
    decides equality of content, update and copy produce the content they should, sizes announced are
    sizes used, and a variable keeps the type of its description.
  \<^item> \<open>Mms_Access_Result\<close>: both modes of the encoder; the size announced is the number of octets written.
  \<^item> \<open>Mms_Device\<close>: the objects of a server: named variable lists, domains, the device, and the cache of
    values with its lookup by names with components.
  \<^item> \<open>Mms_Connection\<close>, \<open>Mms_Errors\<close>: the MMS connection with initiate (what is negotiated), conclude,
    status and identify, and the error and reject messages.
  \<^item> \<open>Information_Report\<close>: the messages that carry reports, and when they fit.
  \<^item> \<open>Mms_Name_List\<close>: the service that lists names, and that a client that asks until nothing follows gets
    every name once.
  \<^item> \<open>General_Time\<close>, \<open>Mms_File\<close>, \<open>File_Transfer\<close>: generalized time, the Linux file provider and the file
    service. Shown are the round trip of times, the invariant of the open files of a connection in any
    series of requests, and that reading a file in pieces gives its content.
  \<^item> \<open>Mms_Data\<close>, \<open>Mms_Read\<close>, \<open>Mms_Write\<close>, \<open>Mms_Variable_Lists\<close>: values in messages (\<open>mms_common_msg.c\<close>) and the services
    that read and write variables, define, delete and describe named variable lists, and describe types.
    Shown are the round trip of values, where the number of an integer stays but not its octets
    (\<open>INTEGER_encode_der\<close>, which shortens the octets it shares with the sender), that the client's type of a variable is the
    server's, the answers to reads in the order of the request, that what is
    written is read afterwards, that a list that was defined is read with the values of its variables,
    and that data sets of the configuration stay.
  \<^item> \<open>Mms_Server\<close>, \<open>Mms_Server_Safety\<close>: the MMS server as a whole (\<open>mms_server_connection.c\<close>, \<open>mms_server.c\<close>): messages,
    the dispatch of requests to all services above, connections that are opened and closed. Shown are which service
    a request reaches, an invariant of the server, its lists, its connection and its files for any
    messages of a client, and a message from which the server does not return.
  \<^item> \<open>Server_Stack\<close>: the MMS server as the message handler of its ISO connection. A request sent by a peer makes
    the server call its service, through all layers; the server keeps its invariant in any interleaving at the connection
    (an interpretation of \<open>message_listener\<close>); and a client without association can make the thread handle one request
    without end.
  \<^item> \<open>Control_Object\<close>, \<open>Control\<close>, \<open>Control_Safety\<close>: \<open>iedserver/mms_mapping/control.c\<close>: selection, operation and
    cancellation of control objects as a state machine, driven by writes of clients, by reads and by the
    thread that waits for the operate time. Shown is what has to come before an operation is executed,
    who may disturb a selection, that every accepted operation starts one thread at most (two interpretations of a
    locale for invariants over histories), and that the thread completes an accepted operation.
  \<^item> \<open>Report_Buffer\<close>, \<open>Report_Control\<close>, \<open>Reporting\<close>, \<open>Report_Events\<close>, \<open>Report_Delivery\<close>: \<open>iedserver/mms_mapping/reporting.c\<close>:
    the ring of buffered entries in its memory block as a queue (a refinement), the report control
    blocks with the checks of what a client may write, the events of values, and delivery of
    buffered reports in order. The copy of a value in the memory block has the octets of the original, but its
    integers stay the storage of the original (\<open>StoredValue\<close>, \<open>ValueSource\<close>), which the sender looks up: a report carries
    the values of the time of the event, except for integers, which are those of the time of sending.
  \<^item> \<open>Goose_Publisher\<close>, \<open>Goose_Subscriber\<close>, \<open>Goose\<close>: the two ends of GOOSE; what is published is what the
    listener of a subscriber sees, and messages for others change nothing.

  \<^bold>\<open>Loops and fuel.\<close> No definition uses fuel. Loops that always end are recursive functions with a
  termination proof. Loops that may not end (\<open>tlv_loop\<close>, which a negative length moves backwards, the
  walks through a heap) are partial functions with result \<open>None\<close> for a run that does not end, and
  theorems about them state that they return.

  \<^bold>\<open>Parameters.\<close> Outside the model and arguments of it are: the message handler of a connection, the
  authenticator, what the socket delivers and accepts, the clock, the hardware address, the content of
  memory from \<open>malloc\<close>, the conversions between \<open>float\<close> and \<open>double\<close>, \<open>mktime\<close> and with it the time zone, the results of \<open>remove\<close> and
  \<open>rename\<close>, the handlers of the application, the lookup of data sets by the mapping, the addresses of
  clients, and the encoder and decoders of the ASN.1 compiler (\<open>der_encode\<close>, \<open>ber_decode\<close>); the MMS server has them in
  the record \<open>MmsEnvironment\<close>. The build modelled is the
  little-endian one for Linux, whose C library has \<open>gmtime_r\<close> and \<open>timegm\<close>.

  \<^bold>\<open>Not modelled.\<close> The generated ASN.1 code (\<open>mms/iso_mms/asn1c\<close>) except \<open>INTEGER_encode_der\<close>; the MMS client
  except what it makes of descriptions of types; the listening server and
  the client side of the ISO connection (\<open>iso_server.c\<close>, \<open>iso_client\<close>); of the IEC 61850 server the
  mapping of the data model to MMS (\<open>mms_mapping.c\<close>), the data model and the configuration parser; the IEC
  61850 client (\<open>iedclient\<close>); sampled values; the operating system layer (\<open>hal\<close>) except the socket reads and
  writes and the Linux file provider; examples, demos, bindings and tools.
\<close>

end
